(* ===== verification/Prelude.thy ===== *)
theory Prelude
  imports Complex_Main "HOL-Library.AList"
begin

text \<open>
  Shared vocabulary of the development: Python errors and the result type of a fallible
  call, the environment a run draws fresh identifiers and wall-clock readings from,
  Python's \<^verbatim>\<open>round\<close>, dictionaries in insertion order, and the
  generic lemmas about lists, sums and weighted averages that several components use.
  Python floats are read as real numbers throughout; the root theory states what that
  abstracts from.
\<close>

named_theorems result_simps \<open>equations of the result type\<close>
named_theorems store_simps \<open>effect of the state-store operations on single fields\<close>
named_theorems exec_simps \<open>effect of the execution-engine operations on single fields\<close>


subsection \<open>Errors as values\<close>

datatype py_error =
    KeyError string
  | ValueError string
  | ValidationError string
  | RuntimeError string
  | ZeroDivisionError
  | IndexError
  | StopIteration
  | TypeError string
  | DataProviderError string
  | InsufficientDataError string
  | AttributeError string
  | IntegrityError string
  | ReExecuteError string
  | FileNotFoundError string
  | JobCancelled string
  | HypothesisGenerationError string
  | PartialCarryFill string

type_synonym 'a result = "py_error + 'a"

definition and_then :: "'a result \<Rightarrow> ('a \<Rightarrow> 'b result) \<Rightarrow> 'b result" where
  "and_then r f = (case r of Inl e \<Rightarrow> Inl e | Inr x \<Rightarrow> f x)"

lemma and_then_simps [simp, result_simps]:
  "and_then (Inl e) f = Inl e"
  "and_then (Inr x) f = f x"
  by (simp_all add: and_then_def)

lemma and_then_Inr_iff [result_simps]:
  "and_then r f = Inr y \<longleftrightarrow> (\<exists>x. r = Inr x \<and> f x = Inr y)"
  by (cases r) simp_all

lemma and_then_Inr_E [elim!]:
  assumes "and_then r f = Inr y"
  obtains x where "r = Inr x" and "f x = Inr y"
  using assms by (auto simp: and_then_Inr_iff)

text \<open>A loop whose body may raise: the first error ends it.\<close>

fun for_each :: "('a \<Rightarrow> 's \<Rightarrow> 's result) \<Rightarrow> 'a list \<Rightarrow> 's \<Rightarrow> 's result" where
  "for_each f [] s = Inr s"
| "for_each f (x # xs) s = and_then (f x s) (for_each f xs)"

lemma for_each_append:
  "for_each f (xs @ ys) s = and_then (for_each f xs s) (for_each f ys)"
proof (induction xs arbitrary: s)
  case (Cons x xs)
  then show ?case by (cases "f x s") simp_all
qed simp

lemma for_each_invariant:
  assumes "for_each f xs s = Inr t" and "P s"
    and "\<And>x a b. x \<in> set xs \<Longrightarrow> f x a = Inr b \<Longrightarrow> P a \<Longrightarrow> P b"
  shows "P t"
  using assms
proof (induction xs arbitrary: s)
  case (Cons x xs)
  from Cons.prems(1) obtain u where "f x s = Inr u" "for_each f xs u = Inr t"
    by auto
  with Cons show ?case by (metis list.set_intros)
qed simp


subsection \<open>The environment: fresh identifiers and the wall clock\<close>

text \<open>
  \<^verbatim>\<open>uuid.uuid4().hex[:12]\<close> and \<^verbatim>\<open>datetime.now(UTC)\<close> are
  answers of the operating system. A run is given all of them in advance, as two
  sequences, and counts how many it has used (its \<open>tick\<close>). Times are microseconds
  since the epoch, in UTC.
\<close>

type_synonym datetime = int
type_synonym tick = nat

record env =
  uuid_hex :: "nat \<Rightarrow> string"
  wall_clock :: "nat \<Rightarrow> datetime"

definition fresh_id :: "env \<Rightarrow> string \<Rightarrow> tick \<Rightarrow> string" where
  "fresh_id E prefix n = prefix @ uuid_hex E n"

definition env_distinct :: "env \<Rightarrow> bool" where
  "env_distinct E \<longleftrightarrow> inj (uuid_hex E)"

lemma fresh_id_inject [simp]:
  "env_distinct E \<Longrightarrow> fresh_id E p m = fresh_id E p n \<longleftrightarrow> m = n"
  by (auto simp: fresh_id_def env_distinct_def dest: injD)

text \<open>An environment for concrete runs: the n-th identifier is n letters long.\<close>

definition unary_env :: env where
  "unary_env = \<lparr>uuid_hex = (\<lambda>n. replicate n (CHR ''a'')), wall_clock = int\<rparr>"

lemma unary_env_distinct [simp]: "env_distinct unary_env"
  by (auto simp: env_distinct_def unary_env_def inj_def dest: arg_cong [where f = length])

definition date_of :: "datetime \<Rightarrow> int" where
  "date_of t = t div 86400000000"


subsection \<open>Python's round\<close>

text \<open>\<^verbatim>\<open>round(x, d)\<close> rounds to the nearest multiple of ten to the power
  \<open>-d\<close>, and a tie to the even neighbour.\<close>

definition round_half_even :: "real \<Rightarrow> int" where
  "round_half_even x =
     (let f = \<lfloor>x\<rfloor>; r = x - of_int f
      in if r < 1/2 then f
         else if r > 1/2 then f + 1
         else if even f then f else f + 1)"

definition py_round :: "nat \<Rightarrow> real \<Rightarrow> real" where
  "py_round d x = of_int (round_half_even (x * 10 ^ d)) / 10 ^ d"

lemma round_half_even_error: "\<bar>of_int (round_half_even x) - x\<bar> \<le> 1/2"
  unfolding round_half_even_def Let_def
  by (auto simp: abs_le_iff)

lemma py_round_error: "\<bar>py_round d x - x\<bar> \<le> 1 / (2 * 10 ^ d)"
proof -
  have eq: "py_round d x - x = (of_int (round_half_even (x * 10 ^ d)) - x * 10 ^ d) / 10 ^ d"
    by (simp add: py_round_def diff_divide_distrib)
  have "\<bar>py_round d x - x\<bar> = \<bar>of_int (round_half_even (x * 10 ^ d)) - x * 10 ^ d\<bar> / 10 ^ d"
    unfolding eq by (simp only: abs_divide power_abs abs_numeral)
  also have "\<dots> \<le> (1/2) / 10 ^ d"
    by (intro divide_right_mono round_half_even_error) simp
  finally show ?thesis by simp
qed

lemma round_half_even_mono: "x \<le> y \<Longrightarrow> round_half_even x \<le> round_half_even y"
proof -
  assume le: "x \<le> y"
  show ?thesis
  proof (cases "\<lfloor>x\<rfloor> = \<lfloor>y\<rfloor>")
    case True
    with le show ?thesis by (auto simp: round_half_even_def Let_def)
  next
    case False
    with le have "\<lfloor>x\<rfloor> + 1 \<le> \<lfloor>y\<rfloor>"
      using floor_mono [OF le] by linarith
    then show ?thesis by (auto simp: round_half_even_def Let_def)
  qed
qed

lemma round_half_even_of_int [simp]: "round_half_even (of_int k) = k"
  by (simp add: round_half_even_def)

lemma round_half_even_numeral [simp]:
  "round_half_even 0 = 0" "round_half_even 1 = 1" "round_half_even (numeral n) = numeral n"
  using round_half_even_of_int [of 0] round_half_even_of_int [of 1]
    round_half_even_of_int [of "numeral n"] by simp_all

lemma py_round_mono: "x \<le> y \<Longrightarrow> py_round d x \<le> py_round d y"
  unfolding py_round_def
  by (intro divide_right_mono) (auto intro!: round_half_even_mono mult_right_mono)

lemma py_round_0 [simp]: "py_round d 0 = 0"
  by (simp add: py_round_def)

lemma py_round_nonneg: "0 \<le> x \<Longrightarrow> 0 \<le> py_round d x"
  using py_round_mono [of 0 x d] by simp

lemma py_round_idem: "py_round d (py_round d x) = py_round d x"
  by (simp add: py_round_def)


subsection \<open>Dictionaries in insertion order\<close>

type_synonym ('k, 'v) dict = "('k \<times> 'v) list"

definition dict_set :: "('k, 'v) dict \<Rightarrow> 'k \<Rightarrow> 'v \<Rightarrow> ('k, 'v) dict" where
  "dict_set d k v = AList.update k v d"

abbreviation dict_get :: "('k, 'v) dict \<Rightarrow> 'k \<Rightarrow> 'v option" where
  "dict_get d k \<equiv> map_of d k"

definition dict_get_or :: "('k, 'v) dict \<Rightarrow> 'k \<Rightarrow> 'v \<Rightarrow> 'v" where
  "dict_get_or d k v = (case map_of d k of None \<Rightarrow> v | Some x \<Rightarrow> x)"

definition dict_pop :: "('k, 'v) dict \<Rightarrow> 'k \<Rightarrow> ('k, 'v) dict" where
  "dict_pop d k = filter (\<lambda>p. fst p \<noteq> k) d"

definition dict_keys :: "('k, 'v) dict \<Rightarrow> 'k list" where
  "dict_keys d = map fst d"

lemma map_of_dict_set [simp]: "map_of (dict_set d k v) = (map_of d)(k \<mapsto> v)"
  by (simp add: dict_set_def update_conv')

lemma map_of_dict_pop [simp]: "map_of (dict_pop d k) = (map_of d)(k := None)"
  by (induction d) (auto simp: dict_pop_def)

lemma set_dict_keys_set [simp]: "set (dict_keys (dict_set d k v)) = insert k (set (dict_keys d))"
  by (induction d) (auto simp: dict_set_def dict_keys_def)

lemma distinct_dict_set: "distinct (dict_keys d) \<Longrightarrow> distinct (dict_keys (dict_set d k v))"
  by (simp add: dict_set_def dict_keys_def distinct_update)

lemma dict_keys_set_fresh: "k \<notin> set (dict_keys d) \<Longrightarrow> dict_keys (dict_set d k v) = dict_keys d @ [k]"
  by (induction d) (auto simp: dict_set_def dict_keys_def)

lemma dict_keys_set_old: "k \<in> set (dict_keys d) \<Longrightarrow> dict_keys (dict_set d k v) = dict_keys d"
  by (induction d) (auto simp: dict_set_def dict_keys_def)


subsection \<open>Sums and weighted averages\<close>

lemma sum_list_nonneg_real: "(\<And>x. x \<in> set xs \<Longrightarrow> 0 \<le> (x::real)) \<Longrightarrow> 0 \<le> sum_list xs"
  by (rule sum_list_nonneg)

lemma weighted_sum_bounds:
  assumes "\<And>x. x \<in> set xs \<Longrightarrow> 0 \<le> w x \<and> lo \<le> v x \<and> v x \<le> (hi::real)"
  shows "lo * sum_list (map w xs) \<le> sum_list (map (\<lambda>x. v x * w x) xs)"
    and "sum_list (map (\<lambda>x. v x * w x) xs) \<le> hi * sum_list (map w xs)"
  using assms
  by (induction xs) (fastforce simp: distrib_left intro!: add_mono mult_right_mono)+

lemma weighted_average_bounds:
  assumes "\<And>x. x \<in> set xs \<Longrightarrow> 0 \<le> w x \<and> lo \<le> v x \<and> v x \<le> (hi::real)"
    and "0 < sum_list (map w xs)"
  shows "lo \<le> sum_list (map (\<lambda>x. v x * w x) xs) / sum_list (map w xs)"
    and "sum_list (map (\<lambda>x. v x * w x) xs) / sum_list (map w xs) \<le> hi"
  using weighted_sum_bounds [of xs w lo v hi, OF assms(1)] assms(2)
  by (simp_all add: field_simps)

lemma plain_average_bounds:
  assumes "\<And>x. x \<in> set xs \<Longrightarrow> lo \<le> v x \<and> v x \<le> (hi::real)" and "xs \<noteq> []"
  shows "lo \<le> sum_list (map v xs) / of_nat (length xs)"
    and "sum_list (map v xs) / of_nat (length xs) \<le> hi"
proof -
  have len: "sum_list (map (\<lambda>_. 1) xs) = (of_nat (length xs) :: real)"
    by (induction xs) simp_all
  have pos: "0 < sum_list (map (\<lambda>_. 1 :: real) xs)"
    using assms(2) by (simp add: len)
  show "lo \<le> sum_list (map v xs) / of_nat (length xs)"
    using weighted_average_bounds(1) [of xs "\<lambda>_. 1" lo v hi] assms(1) pos by (simp add: len)
  show "sum_list (map v xs) / of_nat (length xs) \<le> hi"
    using weighted_average_bounds(2) [of xs "\<lambda>_. 1" lo v hi] assms(1) pos by (simp add: len)
qed

text \<open>Percentages: the code scales by one hundred on the way in and on the way out.\<close>

lemma pct_of_pct: "e \<noteq> 0 \<Longrightarrow> (p * e / 100 + n) / e * 100 = p + n / e * (100::real)"
  by (simp add: field_simps)

end
