(* ===== verification/Contracts.thy ===== *)
theory Contracts
  imports Prelude
begin

text \<open>
  The data model of \<^verbatim>\<open>backend/src/core/contracts/\<close>: positions, portfolio, risk state,
  snapshots, orders and fills, market context and features, provider signals, decisions,
  and the event envelope, one record per pydantic class and one datatype per Literal
  type. Field names carry a prefix where two classes share one. A free-form
  dict[str, Any] payload is a datatype with one constructor per place that builds it.
\<close>


subsection \<open>Literal types\<close>

datatype position_side = LONG | SHORT
datatype position_status = Pos_open | Pos_closed
datatype run_mode = Validation_mode | Live_mode | Paper_mode | Replay_mode
datatype side = BUY | SELL | HOLD
datatype trend = UP | DOWN | SIDEWAYS
datatype volatility = LOW | NORMAL | HIGH
datatype session = ASIA | EUROPE | US | OVERLAP
datatype direction = Bullish | Bearish | Neutral

definition session_name :: "session \<Rightarrow> string" where
  "session_name s = (case s of ASIA \<Rightarrow> ''ASIA'' | EUROPE \<Rightarrow> ''EUROPE''
     | US \<Rightarrow> ''US'' | OVERLAP \<Rightarrow> ''OVERLAP'')"

definition trend_name :: "trend \<Rightarrow> string" where
  "trend_name t = (case t of UP \<Rightarrow> ''UP'' | DOWN \<Rightarrow> ''DOWN'' | SIDEWAYS \<Rightarrow> ''SIDEWAYS'')"

definition volatility_name :: "volatility \<Rightarrow> string" where
  "volatility_name v = (case v of LOW \<Rightarrow> ''LOW'' | NORMAL \<Rightarrow> ''NORMAL'' | HIGH \<Rightarrow> ''HIGH'')"

lemma session_name_inject [simp]: "session_name a = session_name b \<longleftrightarrow> a = b"
  by (cases a; cases b) (simp_all add: session_name_def)

text \<open>Text built by an f-string, before rendering: literal parts, and numbers with the
  number of decimals they are formatted with.\<close>

datatype text_part = Lit string | Fixed nat real | Plain real

type_synonym rich_text = "text_part list"


subsection \<open>State (contracts/state.py)\<close>

record position_state =
  position_id :: string
  pos_symbol :: string
  pos_side :: position_side
  pos_quantity :: real
  pos_entry_price :: real
  pos_entry_time :: datetime
  pos_stop_loss :: "real option"
  pos_take_profit :: "real option"
  unrealized_pnl :: real
  pos_status :: position_status

record risk_limits =
  lim_max_daily_drawdown_pct :: real
  lim_max_open_positions :: int
  lim_max_exposure_pct :: real
  lim_max_consecutive_losses :: int

record portfolio_state =
  pf_portfolio_id :: string
  pf_mode :: run_mode
  cash :: real
  equity :: real
  open_positions :: "position_state list"
  realized_pnl :: real
  pf_version :: int
  pf_as_of_event_time :: datetime
  pf_as_of_processing_time :: datetime

record risk_state =
  risk_state_id :: string
  rs_portfolio_id :: string
  daily_pnl :: real
  daily_drawdown_pct :: real
  daily_start_equity :: real
  open_exposure_pct :: real
  consecutive_losses :: int
  signals_today :: int
  limits :: risk_limits
  breached_limits :: "string list"
  rs_version :: int
  rs_as_of_event_time :: datetime

record state_snapshot =
  snapshot_id :: string
  snap_portfolio :: portfolio_state
  snap_risk :: risk_state
  snap_version :: int
  snap_created_at :: datetime
  snap_correlation_id :: "string option"


subsection \<open>Orders and fills (contracts/execution.py)\<close>

datatype order_type = MARKET | LIMIT
datatype order_status =
  Ord_pending | Ord_submitted | Ord_acknowledged | Ord_partially_filled | Ord_filled
  | Ord_cancelled | Ord_rejected
datatype venue = Venue_simulator | Venue_paper | Venue_live
datatype fill_at = At_close | At_next_open | At_mid

record order_intent =
  intent_id :: string
  oi_decision_id :: string
  oi_correlation_id :: string
  oi_symbol :: string
  oi_side :: side
  oi_quantity :: real
  oi_order_type :: order_type
  oi_limit_price :: "real option"
  oi_stop_loss :: real
  oi_take_profit :: real
  oi_state_snapshot_id :: string
  oi_experiment_id :: "string option"
  oi_revision_id :: "string option"

record order =
  order_id :: string
  ord_intent_id :: string
  ord_status :: order_status
  ord_submitted_at :: datetime
  ord_venue :: venue

record fill =
  fill_id :: string
  fill_order_id :: string
  fill_price_paid :: real
  fill_quantity :: real
  fill_fee :: real
  fill_slippage_bps :: real
  fill_time :: datetime
  fill_is_partial :: bool

record fill_model =
  model_id :: string
  fm_slippage_bps :: real
  fm_fee_bps :: real
  fm_fill_at :: fill_at


subsection \<open>Market context and features (contracts/context.py, contracts/features.py)\<close>

record market_context =
  mc_symbol :: string
  mc_timeframe :: string
  current_price :: real
  mc_trend :: trend
  mc_volatility :: volatility
  atr :: real
  atr_pct :: real
  mc_session :: session
  mc_event_time :: datetime

record feature_set =
  feature_set_id :: string
  fs_symbol :: string
  fs_timeframe :: string
  fs_event_time :: datetime
  fs_processing_time :: datetime
  feature_version :: string
  config_hash :: string
  fs_close :: real
  indicators :: "(string, real) dict"
  flags :: "(string, bool) dict"
  levels :: "(string, real) dict"

record feature_set_record = feature_set +
  fsr_schema_version :: string
  fsr_market_context :: "market_context option"


subsection \<open>Rationale and signals (contracts/rationale.py, contracts/signal.py)\<close>

record rationale_factor =
  factor_name :: string
  factor_weight :: real
  factor_direction :: direction
  factor_evidence :: rich_text

record provider_rationale =
  rat_summary :: rich_text
  rat_factors :: "rationale_factor list"
  rat_feature_refs :: "(string, real) dict"
  rat_metadata :: "(string, real) dict"

record risk_check_result =
  check_name :: string
  check_passed :: bool
  check_current_value :: real
  check_threshold :: real
  check_message :: string

record risk_verdict =
  rv_passed :: bool
  rv_checks :: "risk_check_result list"
  rv_state_snapshot_id :: string
  rv_risk_state_version :: int

record strategy_signal =
  provider_id :: string
  sig_symbol :: string
  sig_side :: side
  sig_confidence :: real
  sig_rationale :: provider_rationale
  sig_feature_set_id :: string
  sig_entry_price :: "real option"
  sig_stop_loss :: "real option"
  sig_take_profit :: "real option"
  sig_timeframe :: string
  sig_event_time :: datetime
  sig_valid_until :: "datetime option"

record final_signal =
  final_signal_id :: string
  fin_symbol :: string
  fin_side :: side
  fin_entry_price :: real
  fin_stop_loss :: real
  fin_take_profit :: real
  fin_confidence :: real
  risk_reward :: real
  fin_timeframe :: string
  fin_event_time :: datetime
  fin_decision_time :: datetime
  contributing_providers :: "string list"
  fin_state_snapshot_id :: string
  fin_revision_id :: "string option"
  size_multiplier :: real

text \<open>
  The validators pydantic runs when one of these is constructed: the bounds of
  \<^verbatim>\<open>Field(ge=..., le=...)\<close> and the members of a Literal. A value that fails
  one raises ValidationError.
\<close>

definition strategy_signal_valid :: "strategy_signal \<Rightarrow> bool" where
  "strategy_signal_valid s \<longleftrightarrow> 0 \<le> sig_confidence s \<and> sig_confidence s \<le> 1"

definition final_signal_valid :: "final_signal \<Rightarrow> bool" where
  "final_signal_valid f \<longleftrightarrow>
     fin_side f \<noteq> HOLD \<and> 0 \<le> fin_confidence f \<and> fin_confidence f \<le> 1 \<and> 0 \<le> size_multiplier f"

definition mk_strategy_signal :: "strategy_signal \<Rightarrow> strategy_signal result" where
  "mk_strategy_signal s =
     (if strategy_signal_valid s then Inr s else Inl (ValidationError ''StrategySignal''))"

definition mk_final_signal :: "final_signal \<Rightarrow> final_signal result" where
  "mk_final_signal f =
     (if final_signal_valid f then Inr f else Inl (ValidationError ''FinalSignal''))"

lemma mk_strategy_signal_Inr [result_simps]:
  "mk_strategy_signal s = Inr t \<longleftrightarrow> strategy_signal_valid s \<and> t = s"
  by (auto simp: mk_strategy_signal_def)

lemma mk_final_signal_Inr [result_simps]:
  "mk_final_signal s = Inr t \<longleftrightarrow> final_signal_valid s \<and> t = s"
  by (auto simp: mk_final_signal_def)


subsection \<open>Decisions (contracts/decision.py)\<close>

datatype detail = D_str string | D_num real | D_strs "string list"

record stage_result =
  sr_passed :: bool
  sr_reason :: "string option"
  sr_details :: "(string, detail) dict"

record aggregation_result =
  agg_method :: string
  agg_side :: side
  agg_confidence :: real
  agg_weights :: "(string, real) dict"
  agg_dissent :: "string list"

record decision_log =
  log_market_filter :: stage_result
  log_provider_signals :: "strategy_signal list"
  log_aggregation :: aggregation_result
  log_risk_check :: risk_verdict
  log_state_snapshot_id :: string
  log_portfolio_version :: int
  log_risk_state_version :: int

datatype decision_value = Approved | Rejected
datatype rejection_stage = Stage_market_filter | Stage_aggregator | Stage_risk_manager

record decision_result =
  dr_value :: decision_value
  dr_rejection_reason :: "string option"
  dr_rejection_stage :: "rejection_stage option"

record decision =
  decision_id :: string
  dec_result :: decision_result
  dec_final_signal :: "final_signal option"
  dec_log :: decision_log
  dec_correlation_id :: string
  dec_event_time :: datetime
  dec_decision_time :: datetime
  dec_revision_id :: "string option"
  dec_experiment_id :: "string option"

definition is_approved :: "decision \<Rightarrow> bool" where
  "is_approved d \<longleftrightarrow> dr_value (dec_result d) = Approved"


subsection \<open>Bars\<close>

text \<open>The OHLCV dictionary a cycle builds from the last row of its data frame.\<close>

record bar =
  bar_open :: real
  bar_high :: real
  bar_low :: real
  bar_close :: real
  bar_volume :: real


subsection \<open>State transitions (state/transitions.py)\<close>

text \<open>
  \<^verbatim>\<open>transition_type\<close> and its payload are one value: each type is built with one shape
  of payload. The payloads of the two generic updates are dictionaries from field names
  to values; a constructor per field of the updated class stands for a known name, and
  \<open>RU_other\<close> / \<open>PU_other\<close> for a name the class does not have.
\<close>

datatype exit_reason = Exit_signal | Exit_stop_loss | Exit_take_profit | Exit_timeout | Exit_end_of_run

datatype risk_update =
    RU_risk_state_id string
  | RU_portfolio_id string
  | RU_daily_pnl real
  | RU_daily_drawdown_pct real
  | RU_daily_start_equity real
  | RU_open_exposure_pct real
  | RU_consecutive_losses int
  | RU_signals_today int
  | RU_limits risk_limits
  | RU_breached_limits "string list"
  | RU_version int
  | RU_as_of_event_time datetime
  | RU_other string

datatype portfolio_update =
    PU_portfolio_id string
  | PU_mode run_mode
  | PU_cash real
  | PU_equity real
  | PU_open_positions "position_state list"
  | PU_realized_pnl real
  | PU_version int
  | PU_as_of_event_time datetime
  | PU_as_of_processing_time datetime
  | PU_other string

datatype transition_body =
    Position_opened position_state fill real
  | Position_closed string fill real exit_reason
  | Risk_updated "risk_update list"
  | Portfolio_updated "portfolio_update list"
  | Mark_to_market "string \<rightharpoonup> real"

record state_transition =
  transition_id :: string
  tr_portfolio_id :: string
  tr_body :: transition_body
  tr_event_time :: datetime
  tr_correlation_id :: string


subsection \<open>Events (contracts/event.py, events/envelopes.py)\<close>

datatype event_family =
  Fam_market | Fam_signal | Fam_decision | Fam_execution | Fam_operational

datatype event_type =
    CandleReceived | FeatureSetBuilt | MarketContextDerived
  | ProviderOpinion | ProviderSkipped
  | DecisionMade | DecisionApproved | DecisionRejected
  | OrderIntentCreated | OrderSubmitted | OrderAcknowledged | FillReceived
  | PositionOpened | PositionClosed | SignalPublished | OrderRejected | ExecutionFailed

record closed_info =
  ci_position_id :: string
  ci_exit_reason :: exit_reason
  ci_exit_price :: real
  ci_pnl :: real
  ci_fill_id :: string
  ci_entry_price :: real
  ci_side :: position_side
  ci_quantity :: real
  ci_stop_loss :: "real option"
  ci_take_profit :: "real option"
  ci_bars_held :: int

datatype payload =
    P_candle bar
  | P_features string string string "(string, real) dict" "(string, bool) dict"
  | P_context market_context
  | P_skipped string string
  | P_opinion string side real provider_rationale
  | P_decision_made string decision_value string decision_log
  | P_approved string string "final_signal option"
  | P_rejected string string "rejection_stage option" "string option" decision_log
  | P_signal string side real real real real real "string list"
  | P_intent order_intent
  | P_order_rejected "string option" string
  | P_submitted order string string
  | P_acknowledged string string
  | P_fill fill string bool
  | P_opened string string position_state
  | P_closed closed_info
  | P_failed string string

record event =
  event_id :: string
  ev_family :: event_family
  ev_type :: event_type
  ev_schema_version :: string
  ev_event_time :: datetime
  ev_processing_time :: datetime
  ev_correlation_id :: string
  ev_causation_id :: "string option"
  ev_cycle_id :: string
  ev_symbol :: string
  ev_timeframe :: string
  ev_mode :: run_mode
  ev_experiment_id :: "string option"
  ev_revision_id :: "string option"
  ev_payload :: payload

text \<open>What every envelope of one cycle shares.\<close>

record envelope_meta =
  em_event_time :: datetime
  em_processing_time :: datetime
  em_correlation_id :: string
  em_symbol :: string
  em_timeframe :: string
  em_mode :: run_mode
  em_experiment_id :: "string option"
  em_revision_id :: "string option"

definition build_envelope ::
  "env \<Rightarrow> envelope_meta \<Rightarrow> event_family \<Rightarrow> event_type \<Rightarrow> payload \<Rightarrow> string option \<Rightarrow> tick \<Rightarrow> event \<times> tick"
where
  "build_envelope E m fam typ p causation n =
     (\<lparr>event_id = fresh_id E ''evt_'' n, ev_family = fam, ev_type = typ,
       ev_schema_version = ''v1'', ev_event_time = em_event_time m,
       ev_processing_time = em_processing_time m, ev_correlation_id = em_correlation_id m,
       ev_causation_id = causation, ev_cycle_id = em_correlation_id m,
       ev_symbol = em_symbol m, ev_timeframe = em_timeframe m, ev_mode = em_mode m,
       ev_experiment_id = em_experiment_id m, ev_revision_id = em_revision_id m,
       ev_payload = p\<rparr>, Suc n)"

lemma build_envelope_simps [simp]:
  "snd (build_envelope E m fam typ p c n) = Suc n"
  "event_id (fst (build_envelope E m fam typ p c n)) = fresh_id E ''evt_'' n"
  "ev_type (fst (build_envelope E m fam typ p c n)) = typ"
  "ev_family (fst (build_envelope E m fam typ p c n)) = fam"
  "ev_causation_id (fst (build_envelope E m fam typ p c n)) = c"
  "ev_cycle_id (fst (build_envelope E m fam typ p c n)) = em_correlation_id m"
  "ev_correlation_id (fst (build_envelope E m fam typ p c n)) = em_correlation_id m"
  "ev_payload (fst (build_envelope E m fam typ p c n)) = p"
  by (simp_all add: build_envelope_def)

end
