(* ===== verification/Aggregator.thy ===== *)
theory Aggregator
  imports Contracts "HOL-Library.Multiset"
begin

text \<open>
  \<^verbatim>\<open>engine/aggregator.py\<close>, \<^verbatim>\<open>engine/models.py\<close> and the
  aggregation part of \<^verbatim>\<open>engine/config.py\<close>: how the opinions of the signal
  providers become one side with a confidence, or a failure with a reason.
\<close>

datatype method_kind = Weighted_majority | Majority | Unanimous

definition method_name :: "method_kind \<Rightarrow> string" where
  "method_name m = (case m of Weighted_majority \<Rightarrow> ''weighted_majority''
     | Majority \<Rightarrow> ''majority'' | Unanimous \<Rightarrow> ''unanimous'')"

record aggregation_config =
  min_agreeing_providers :: int
  ac_method :: method_kind

definition aggregation_config_valid :: "aggregation_config \<Rightarrow> bool" where
  "aggregation_config_valid c \<longleftrightarrow> 1 \<le> min_agreeing_providers c"

record aggregator_success =
  as_side :: side
  as_confidence :: real
  as_weights :: "(string, real) dict"
  as_dissent :: "string list"

datatype aggregator_outcome = Agg_success aggregator_success | Agg_failure string

definition provider_weight :: "strategy_signal \<Rightarrow> real" where
  "provider_weight s = dict_get_or (rat_metadata (sig_rationale s)) ''weight'' 1"

definition weight_dict :: "(strategy_signal \<Rightarrow> real) \<Rightarrow> strategy_signal list \<Rightarrow> (string, real) dict" where
  "weight_dict w sigs = fold (\<lambda>s d. dict_set d (provider_id s) (w s)) sigs []"

text \<open>The plain average divides by the number of winners, which raises on none.\<close>

definition agg_confidence_of :: "bool \<Rightarrow> strategy_signal list \<Rightarrow> real result" where
  "agg_confidence_of weighted winners =
     (if weighted then
        (let weighted_sum = sum_list (map (\<lambda>s. sig_confidence s * provider_weight s) winners);
             weight_total = sum_list (map provider_weight winners)
         in Inr (if weight_total \<noteq> 0 then weighted_sum / weight_total else 0))
      else if winners = [] then Inl ZeroDivisionError
      else Inr (sum_list (map sig_confidence winners) / of_nat (length winners)))"

definition agg_success ::
  "strategy_signal list \<Rightarrow> strategy_signal list \<Rightarrow> side \<Rightarrow> bool \<Rightarrow> aggregator_outcome result" where
  "agg_success winners losers sd weighted =
     and_then (agg_confidence_of weighted winners) (\<lambda>conf.
       Inr (Agg_success \<lparr>as_side = sd, as_confidence = conf,
         as_weights = weight_dict (if weighted then provider_weight else (\<lambda>_. 1)) winners,
         as_dissent = map provider_id losers\<rparr>))"

definition active_signals :: "strategy_signal list \<Rightarrow> strategy_signal list" where
  "active_signals sigs = filter (\<lambda>s. sig_side s \<noteq> HOLD) sigs"

definition on_side :: "side \<Rightarrow> strategy_signal list \<Rightarrow> strategy_signal list" where
  "on_side sd sigs = filter (\<lambda>s. sig_side s = sd) sigs"

definition combine_unanimous ::
  "aggregation_config \<Rightarrow> strategy_signal list \<Rightarrow> aggregator_outcome result" where
  "combine_unanimous cfg sigs =
     (case active_signals sigs of
        [] \<Rightarrow> Inr (Agg_failure ''no_active_signals'')
      | a # rest \<Rightarrow>
          (let active = a # rest; sd = sig_side a
           in if length (remdups (map sig_side active)) \<noteq> 1 then Inr (Agg_failure ''provider_conflict'')
              else if sd \<notin> {BUY, SELL} then Inr (Agg_failure ''insufficient_consensus'')
              else if int (length active) < min_agreeing_providers cfg
                then Inr (Agg_failure ''insufficient_consensus'')
              else agg_success active [] sd True))"

definition combine_majority ::
  "aggregation_config \<Rightarrow> bool \<Rightarrow> strategy_signal list \<Rightarrow> aggregator_outcome result" where
  "combine_majority cfg weighted sigs =
     (let active = active_signals sigs
      in if active = [] then Inr (Agg_failure ''no_active_signals'')
         else
          (let buys = on_side BUY active; sells = on_side SELL active;
               min_agree = min_agreeing_providers cfg
           in if int (length buys) \<ge> min_agree \<and> length buys > length sells
                then agg_success buys sells BUY weighted
              else if int (length sells) \<ge> min_agree \<and> length sells > length buys
                then agg_success sells buys SELL weighted
              else if buys \<noteq> [] \<and> sells \<noteq> [] then Inr (Agg_failure ''provider_conflict'')
              else Inr (Agg_failure ''insufficient_consensus'')))"

definition combine :: "aggregation_config \<Rightarrow> strategy_signal list \<Rightarrow> aggregator_outcome result" where
  "combine cfg sigs =
     (if ac_method cfg = Unanimous then combine_unanimous cfg sigs
      else combine_majority cfg (ac_method cfg = Weighted_majority) sigs)"


subsection \<open>Facts shared by the proofs\<close>

lemma on_side_active [simp]: "sd \<noteq> HOLD \<Longrightarrow> on_side sd (active_signals sigs) = on_side sd sigs"
  by (auto simp: on_side_def active_signals_def intro: filter_cong)

lemma active_Nil_iff: "active_signals sigs = [] \<longleftrightarrow> on_side BUY sigs = [] \<and> on_side SELL sigs = []"
proof -
  have "sig_side s \<noteq> HOLD \<longleftrightarrow> sig_side s = BUY \<or> sig_side s = SELL" for s :: strategy_signal
    by (cases "sig_side s") simp_all
  then show ?thesis by (auto simp: active_signals_def on_side_def filter_empty_conv)
qed

lemma set_on_side: "set (on_side sd sigs) = {s \<in> set sigs. sig_side s = sd}"
  by (auto simp: on_side_def)

lemma remdups_single: "length (remdups (map f (a # xs))) = 1 \<longleftrightarrow> (\<forall>x \<in> set xs. f x = f a)"
proof -
  have "length (remdups (map f (a # xs))) = card (set (map f (a # xs)))"
    by (simp only: length_remdups_card_conv)
  also have "\<dots> = 1 \<longleftrightarrow> (\<forall>x \<in> set xs. f x = f a)"
    by (auto simp: card_1_singleton_iff)
  finally show ?thesis .
qed

lemma dict_keys_weight_fold:
  "set (dict_keys (fold (\<lambda>s d. dict_set d (provider_id s) (w s)) sigs d)) =
     set (dict_keys d) \<union> provider_id ` set sigs"
  by (induction sigs arbitrary: d) auto

lemma set_weight_dict [simp]: "set (dict_keys (weight_dict w sigs)) = provider_id ` set sigs"
  using dict_keys_weight_fold [of w sigs "[]"] by (simp add: weight_dict_def dict_keys_def)

text \<open>What a success looks like: the winners, and the counts that made them win.\<close>

lemma agg_success_Inr:
  "agg_success win lose sd wt = Inr r \<longleftrightarrow>
     (\<exists>conf. agg_confidence_of wt win = Inr conf \<and>
        r = Agg_success \<lparr>as_side = sd, as_confidence = conf,
          as_weights = weight_dict (if wt then provider_weight else (\<lambda>_. 1)) win,
          as_dissent = map provider_id lose\<rparr>)"
  by (auto simp: agg_success_def and_then_Inr_iff)

lemma combine_majority_cases:
  assumes "b = length (on_side BUY sigs)" and "s = length (on_side SELL sigs)"
  shows "combine_majority cfg wt sigs =
    (if b = 0 \<and> s = 0 then Inr (Agg_failure ''no_active_signals'')
     else if int b \<ge> min_agreeing_providers cfg \<and> s < b
       then agg_success (on_side BUY sigs) (on_side SELL sigs) BUY wt
     else if int s \<ge> min_agreeing_providers cfg \<and> b < s
       then agg_success (on_side SELL sigs) (on_side BUY sigs) SELL wt
     else if 0 < b \<and> 0 < s then Inr (Agg_failure ''provider_conflict'')
     else Inr (Agg_failure ''insufficient_consensus''))"
  using assms by (auto simp: combine_majority_def Let_def active_Nil_iff)

lemma combine_unanimous_cases:
  "combine_unanimous cfg sigs =
     (if on_side BUY sigs = [] \<and> on_side SELL sigs = [] then Inr (Agg_failure ''no_active_signals'')
      else if on_side BUY sigs \<noteq> [] \<and> on_side SELL sigs \<noteq> [] then Inr (Agg_failure ''provider_conflict'')
      else if int (length (active_signals sigs)) < min_agreeing_providers cfg
        then Inr (Agg_failure ''insufficient_consensus'')
      else agg_success (active_signals sigs) []
        (if on_side BUY sigs \<noteq> [] then BUY else SELL) True)"
proof (cases "active_signals sigs")
  case Nil
  then have "on_side BUY sigs = [] \<and> on_side SELL sigs = []"
    using active_Nil_iff by blast
  with Nil show ?thesis by (simp add: combine_unanimous_def)
next
  case (Cons a rest)
  have act: "set (a # rest) = set (on_side BUY sigs) \<union> set (on_side SELL sigs)"
    unfolding Cons [symmetric] active_signals_def on_side_def
    by (auto, metis side.exhaust)
  from Cons have na: "\<not> (on_side BUY sigs = [] \<and> on_side SELL sigs = [])"
    using active_Nil_iff [of sigs] by simp
  have sides: "\<forall>x \<in> set (on_side BUY sigs). sig_side x = BUY" "\<forall>x \<in> set (on_side SELL sigs). sig_side x = SELL"
    by (auto simp: set_on_side)
  show ?thesis
  proof (cases "on_side BUY sigs \<noteq> [] \<and> on_side SELL sigs \<noteq> []")
    case True
    then obtain x y where "x \<in> set (on_side BUY sigs)" "y \<in> set (on_side SELL sigs)"
      by (meson last_in_set)
    then have "x \<in> set (a # rest)" "y \<in> set (a # rest)" "sig_side x = BUY" "sig_side y = SELL"
      using act sides by blast+
    then have "\<not> (\<forall>x \<in> set rest. sig_side x = sig_side a)"
      by (metis set_ConsD side.distinct(1))
    then have "length (remdups (map sig_side (a # rest))) \<noteq> 1"
      by (simp only: remdups_single not_False_eq_True)
    with True Cons show ?thesis by (simp add: combine_unanimous_def Let_def del: remdups.simps list.map)
  next
    case False
    with na have "(\<forall>x \<in> set (a # rest). sig_side x = (if on_side BUY sigs \<noteq> [] then BUY else SELL))"
      using act sides by auto
    then have s: "sig_side a = (if on_side BUY sigs \<noteq> [] then BUY else SELL)"
      and r: "\<forall>x \<in> set rest. sig_side x = sig_side a" by auto
    from r have "length (remdups (map sig_side (a # rest))) = 1"
      by (simp only: remdups_single)
    with False na s Cons show ?thesis
      by (auto simp add: combine_unanimous_def Let_def simp del: remdups.simps list.map)
  qed
qed


subsection \<open>Correctness\<close>

text \<open>Signals whose weights and confidences are what the providers' classes allow.\<close>

definition signals_ok :: "strategy_signal list \<Rightarrow> bool" where
  "signals_ok sigs \<longleftrightarrow> (\<forall>s \<in> set sigs. strategy_signal_valid s \<and> 0 \<le> provider_weight s)"

lemma signals_ok_on_side [intro]: "signals_ok sigs \<Longrightarrow> signals_ok (on_side sd sigs)"
  by (auto simp: signals_ok_def set_on_side)

lemma signals_ok_active [intro]: "signals_ok sigs \<Longrightarrow> signals_ok (active_signals sigs)"
  by (auto simp: signals_ok_def active_signals_def)

lemma agg_confidence_total: "wt \<or> win \<noteq> [] \<Longrightarrow> \<exists>c. agg_confidence_of wt win = Inr c"
  by (auto simp: agg_confidence_of_def Let_def)

lemma combine_total_majority:
  "1 \<le> min_agreeing_providers cfg \<Longrightarrow> \<exists>r. combine_majority cfg wt sigs = Inr r"
proof -
  have agg: "\<exists>r. agg_success win lose sd wt = Inr r" if "0 < length win" for win lose sd
    using agg_confidence_total [of wt win] that by (auto simp: agg_success_Inr)
  show ?thesis
    by (simp add: combine_majority_cases [OF refl refl] agg del: length_greater_0_conv)
qed

lemma combine_total_unanimous: "\<exists>r. combine_unanimous cfg sigs = Inr r"
  using agg_confidence_total [of True]
  by (auto simp: combine_unanimous_cases agg_success_Inr)

lemma combine_total: "aggregation_config_valid cfg \<Longrightarrow> \<exists>r. combine cfg sigs = Inr r"
  by (auto simp: combine_def aggregation_config_valid_def
      intro: combine_total_majority combine_total_unanimous)

text \<open>The side the votes call for, without the weights.\<close>

definition verdict_side :: "aggregation_config \<Rightarrow> strategy_signal list \<Rightarrow> side option" where
  "verdict_side cfg sigs =
     (let b = length (on_side BUY sigs); s = length (on_side SELL sigs);
          enough = (\<lambda>k l. k > 0 \<and> int k \<ge> min_agreeing_providers cfg
                     \<and> (if ac_method cfg = Unanimous then l = 0 else l < k))
      in if enough b s then Some BUY else if enough s b then Some SELL else None)"

lemma length_active: "length (active_signals sigs) = length (on_side BUY sigs) + length (on_side SELL sigs)"
proof (induction sigs)
  case (Cons s sigs)
  then show ?case
    by (cases "sig_side s") (simp_all add: active_signals_def on_side_def)
qed (simp add: active_signals_def on_side_def)

lemma combine_side:
  assumes "combine cfg sigs = Inr r" and "1 \<le> min_agreeing_providers cfg"
  shows "map_option as_side (case r of Agg_success a \<Rightarrow> Some a | Agg_failure e \<Rightarrow> None) = verdict_side cfg sigs"
  using assms
  by (auto simp: combine_def combine_majority_cases [OF refl refl] combine_unanimous_cases
      agg_success_Inr verdict_side_def Let_def length_active split: if_splits)

text \<open>C29: combining never raises, and it succeeds with a side exactly when the votes call for
  it: at least the configured number of providers on that side, and either strictly more
  than on the other side (the majority methods) or nobody on the other side (unanimous).
  HOLD opinions never count and a tie never wins.\<close>

theorem combine_decides_by_votes:
  assumes "aggregation_config_valid cfg"
  shows "\<exists>r. combine cfg sigs = Inr r \<and>
    (\<forall>sd. (\<exists>a. r = Agg_success a \<and> as_side a = sd) \<longleftrightarrow>
      sd \<in> {BUY, SELL}
      \<and> int (length (on_side sd sigs)) \<ge> min_agreeing_providers cfg
      \<and> (if ac_method cfg = Unanimous
         then on_side (if sd = BUY then SELL else BUY) sigs = []
         else length (on_side (if sd = BUY then SELL else BUY) sigs) < length (on_side sd sigs)))"
proof -
  from assms have m: "1 \<le> min_agreeing_providers cfg" by (simp add: aggregation_config_valid_def)
  obtain r where r: "combine cfg sigs = Inr r" using combine_total [OF assms] by blast
  have "(\<exists>a. r = Agg_success a \<and> as_side a = sd) \<longleftrightarrow> verdict_side cfg sigs = Some sd" for sd
    using combine_side [OF r m] by (cases r) auto
  with r m show ?thesis
    by (auto simp: verdict_side_def Let_def)
qed

definition demo_signal :: "string \<Rightarrow> side \<Rightarrow> real \<Rightarrow> real \<Rightarrow> strategy_signal" where
  "demo_signal pid sd conf w = \<lparr>provider_id = pid, sig_symbol = ''BTC'', sig_side = sd,
     sig_confidence = conf,
     sig_rationale = \<lparr>rat_summary = [], rat_factors = [], rat_feature_refs = [],
       rat_metadata = [(''weight'', w)]\<rparr>,
     sig_feature_set_id = ''fs'', sig_entry_price = Some 100,
     sig_stop_loss = Some (if sd = SELL then 110 else 90),
     sig_take_profit = Some (if sd = SELL then 70 else 130), sig_timeframe = ''1h'', sig_event_time = 0, sig_valid_until = None\<rparr>"

definition demo_agg_config :: "method_kind \<Rightarrow> aggregation_config" where
  "demo_agg_config m = \<lparr>min_agreeing_providers = 2, ac_method = m\<rparr>"

definition demo_signals :: "strategy_signal list" where
  "demo_signals = [demo_signal ''a'' BUY 0.8 1, demo_signal ''b'' SELL 0.9 5,
     demo_signal ''c'' BUY 0.6 3, demo_signal ''d'' HOLD 0.5 1]"

theorem combine_decides_by_votes_witness:
  "\<exists>a. combine (demo_agg_config Weighted_majority) demo_signals = Inr (Agg_success a) \<and> as_side a = BUY"
  using combine_decides_by_votes [of "demo_agg_config Weighted_majority" demo_signals]
  by (auto simp: demo_agg_config_def aggregation_config_valid_def demo_signals_def demo_signal_def
      on_side_def)

lemma active_only:
  assumes "on_side sd sigs = []" and "{sd, sd'} = {BUY, SELL}"
  shows "active_signals sigs = on_side sd' sigs"
  using assms unfolding active_signals_def on_side_def
  by (intro filter_cong refl) (auto simp: filter_empty_conv doubleton_eq_iff, (metis side.exhaust)+)

lemmas active_only_sides =
  active_only [of BUY _ SELL, simplified] active_only [of SELL _ BUY, simplified insert_commute, simplified]

lemma combine_winners:
  assumes "combine cfg sigs = Inr (Agg_success a)" and "aggregation_config_valid cfg"
  shows "as_side a \<noteq> HOLD \<and> on_side (as_side a) sigs \<noteq> []
    \<and> as_weights a = weight_dict (if ac_method cfg = Majority then (\<lambda>_. 1) else provider_weight)
        (on_side (as_side a) sigs)
    \<and> (\<exists>wt. agg_confidence_of wt (on_side (as_side a) sigs) = Inr (as_confidence a))"
proof -
  from assms show ?thesis
    by (auto simp: combine_def combine_majority_cases [OF refl refl] combine_unanimous_cases
        agg_success_Inr active_only_sides aggregation_config_valid_def split: if_splits)
      (use method_kind.exhaust in metis)+
qed

lemma agg_confidence_bounds:
  assumes "agg_confidence_of wt win = Inr c" and "signals_ok win" and "win \<noteq> []"
    and "\<forall>s \<in> set win. lo \<le> sig_confidence s \<and> sig_confidence s \<le> hi"
    and "wt \<Longrightarrow> 0 < sum_list (map provider_weight win)"
  shows "lo \<le> c \<and> c \<le> hi"
proof (cases wt)
  case True
  with assms(1,5) have "c = sum_list (map (\<lambda>s. sig_confidence s * provider_weight s) win)
      / sum_list (map provider_weight win)"
    by (simp add: agg_confidence_of_def Let_def split: if_splits)
  with weighted_average_bounds [of win provider_weight lo sig_confidence hi] True assms(2,4,5)
  show ?thesis by (simp add: signals_ok_def)
next
  case False
  with assms(1,3) have "c = sum_list (map sig_confidence win) / of_nat (length win)"
    by (simp add: agg_confidence_of_def)
  with plain_average_bounds [of win lo sig_confidence hi] assms(3,4) show ?thesis by simp
qed

lemma agg_confidence_unit:
  assumes "agg_confidence_of wt win = Inr c" and "signals_ok win"
  shows "0 \<le> c \<and> c \<le> 1"
proof -
  have nn: "0 \<le> sum_list (map provider_weight win)"
    using assms(2) by (intro sum_list_nonneg) (auto simp: signals_ok_def)
  consider "wt" "sum_list (map provider_weight win) = 0" | "win = []" "\<not> wt"
    | "win \<noteq> []" "wt \<Longrightarrow> 0 < sum_list (map provider_weight win)"
    using nn by (cases "win = []"; fastforce)
  then show ?thesis
  proof cases
    case 3
    from assms(2) have "\<forall>s \<in> set win. 0 \<le> sig_confidence s \<and> sig_confidence s \<le> 1"
      by (simp add: signals_ok_def strategy_signal_valid_def)
    from agg_confidence_bounds [OF assms(1,2) 3(1) this 3(2)] show ?thesis by simp
  qed (use assms(1) in \<open>simp_all add: agg_confidence_of_def Let_def\<close>)
qed

text \<open>The confidence of a successful aggregation is an average: it lies between the lowest
  and the highest confidence on the winning side when the winners' total weight is
  positive, and in any case between zero and one, so the final signal built from it never
  fails its own validation.\<close>

theorem combine_confidence_bounds:
  assumes "combine cfg sigs = Inr (Agg_success a)" and "aggregation_config_valid cfg"
    and "signals_ok sigs"
  shows "0 \<le> as_confidence a \<and> as_confidence a \<le> 1
    \<and> (0 < sum_list (map provider_weight (on_side (as_side a) sigs)) \<longrightarrow>
        Min (sig_confidence ` set (on_side (as_side a) sigs)) \<le> as_confidence a
        \<and> as_confidence a \<le> Max (sig_confidence ` set (on_side (as_side a) sigs)))"
proof -
  let ?win = "on_side (as_side a) sigs"
  obtain wt where c: "agg_confidence_of wt ?win = Inr (as_confidence a)"
    using combine_winners [OF assms(1,2)] by blast
  have ok: "signals_ok ?win" using assms(3) by blast
  have ne: "?win \<noteq> []" using combine_winners [OF assms(1,2)] by blast
  have "\<forall>s \<in> set ?win. Min (sig_confidence ` set ?win) \<le> sig_confidence s
      \<and> sig_confidence s \<le> Max (sig_confidence ` set ?win)" by simp
  from agg_confidence_bounds [OF c ok ne this] agg_confidence_unit [OF c ok] show ?thesis by blast
qed

theorem combine_confidence_bounds_witness:
  "\<exists>a. combine (demo_agg_config Majority) demo_signals = Inr (Agg_success a)
     \<and> 0.6 \<le> as_confidence a \<and> as_confidence a \<le> 0.8"
proof -
  have on: "on_side BUY demo_signals = [demo_signal ''a'' BUY 0.8 1, demo_signal ''c'' BUY 0.6 3]"
    "on_side SELL demo_signals = [demo_signal ''b'' SELL 0.9 5]"
    by (simp_all add: on_side_def demo_signals_def demo_signal_def)
  obtain a where a: "combine (demo_agg_config Majority) demo_signals = Inr (Agg_success a)" "as_side a = BUY"
    by (simp add: combine_def demo_agg_config_def combine_majority_cases [OF refl refl] on
        agg_success_def agg_confidence_of_def)
  have "signals_ok demo_signals"
    by (simp add: signals_ok_def demo_signals_def demo_signal_def strategy_signal_valid_def
        provider_weight_def dict_get_or_def)
  from combine_confidence_bounds [OF a(1) _ this] a show ?thesis
    by (simp add: on demo_agg_config_def aggregation_config_valid_def demo_signal_def
        provider_weight_def dict_get_or_def)
qed

definition outcome_key :: "aggregator_outcome \<Rightarrow> string + side \<times> real" where
  "outcome_key r = (case r of Agg_success a \<Rightarrow> Inr (as_side a, as_confidence a) | Agg_failure e \<Rightarrow> Inl e)"

lemma on_side_perm:
  assumes "mset xs = mset ys"
  shows "length (on_side sd xs) = length (on_side sd ys)"
    and "mset (on_side sd xs) = mset (on_side sd ys)"
    and "mset (active_signals xs) = mset (active_signals ys)"
    and "on_side sd xs = [] \<longleftrightarrow> on_side sd ys = []"
proof -
  show m: "mset (on_side sd xs) = mset (on_side sd ys)"
    using assms by (simp add: on_side_def)
  show l: "length (on_side sd xs) = length (on_side sd ys)"
    using m by (rule mset_eq_length)
  show "mset (active_signals xs) = mset (active_signals ys)"
    using assms by (simp add: active_signals_def)
  show "on_side sd xs = [] \<longleftrightarrow> on_side sd ys = []"
    using l by (metis length_0_conv)
qed

lemma agg_confidence_perm:
  assumes "mset xs = mset ys"
  shows "agg_confidence_of wt xs = agg_confidence_of wt ys"
proof -
  have "sum_list (map f xs) = sum_list (map f ys)" for f :: "strategy_signal \<Rightarrow> real"
    using assms by (metis mset_map sum_mset_sum_list)
  moreover have "length xs = length ys" using assms by (rule mset_eq_length)
  ultimately show ?thesis
    by (cases "xs = []") (auto simp: agg_confidence_of_def Let_def)
qed

lemma agg_success_perm:
  assumes "mset xs = mset ys"
  shows "and_then (agg_success xs l sd wt) (\<lambda>r. Inr (outcome_key r)) =
         and_then (agg_success ys l' sd wt) (\<lambda>r. Inr (outcome_key r))"
  unfolding agg_success_def agg_confidence_perm [OF assms]
  by (cases "agg_confidence_of wt ys") (simp_all add: outcome_key_def)

text \<open>The outcome does not depend on the order in which the providers were asked: permuted
  opinions give the same failure, or the same side with the same confidence.\<close>

theorem combine_order_independent:
  assumes "mset xs = mset ys"
  shows "and_then (combine cfg xs) (\<lambda>r. Inr (outcome_key r)) =
         and_then (combine cfg ys) (\<lambda>r. Inr (outcome_key r))"
proof -
  have len: "length (active_signals xs) = length (active_signals ys)"
    using on_side_perm(3) [OF assms] by (rule mset_eq_length)
  show ?thesis
    unfolding combine_def combine_majority_cases [OF refl refl] combine_unanimous_cases
      on_side_perm(1) [OF assms] on_side_perm(4) [OF assms] len
    using agg_success_perm [OF on_side_perm(2) [OF assms]] agg_success_perm [OF on_side_perm(3) [OF assms]]
    by (simp cong: if_cong)
qed

theorem combine_order_independent_witness:
  "and_then (combine (demo_agg_config Majority) demo_signals) (\<lambda>r. Inr (outcome_key r)) =
   and_then (combine (demo_agg_config Majority) (rev demo_signals)) (\<lambda>r. Inr (outcome_key r))"
  by (rule combine_order_independent) simp

text \<open>A unanimous success is also a weighted-majority success, with the very same outcome:
  switching an engine from unanimous to weighted majority never loses a decision.\<close>

theorem unanimous_refines_weighted_majority:
  assumes "combine (cfg\<lparr>ac_method := Unanimous\<rparr>) sigs = Inr (Agg_success a)"
    and "aggregation_config_valid cfg"
  shows "combine (cfg\<lparr>ac_method := Weighted_majority\<rparr>) sigs = Inr (Agg_success a)"
proof -
  from assms show ?thesis
    by (auto simp: combine_def combine_unanimous_cases combine_majority_cases [OF refl refl]
        active_only_sides aggregation_config_valid_def split: if_splits)
qed

theorem unanimous_refines_weighted_majority_witness:
  "\<exists>a. combine (demo_agg_config Weighted_majority) [demo_signal ''a'' BUY 1 1, demo_signal ''b'' BUY 1 1]
     = Inr (Agg_success a)"
proof -
  have "\<exists>a. combine ((demo_agg_config Majority)\<lparr>ac_method := Unanimous\<rparr>)
      [demo_signal ''a'' BUY 1 1, demo_signal ''b'' BUY 1 1] = Inr (Agg_success a)"
    by (simp add: combine_def demo_agg_config_def combine_unanimous_cases on_side_def
        active_signals_def demo_signal_def agg_success_def agg_confidence_of_def Let_def)
  then obtain a where "combine ((demo_agg_config Majority)\<lparr>ac_method := Unanimous\<rparr>)
      [demo_signal ''a'' BUY 1 1, demo_signal ''b'' BUY 1 1] = Inr (Agg_success a)" ..
  from unanimous_refines_weighted_majority [OF this]
  show ?thesis by (simp add: aggregation_config_valid_def demo_agg_config_def)
qed

end
