(* ===== verification/DecisionEngine.thy ===== *)
theory DecisionEngine
  imports Aggregator
begin

text \<open>
  The decision pipeline of \<^verbatim>\<open>backend/src/engine/\<close>: market filter, aggregation, risk checks, final
  signal, and \<^verbatim>\<open>DecisionEngine.process\<close>, which runs them in that order and logs
  every stage. A call returns the decision and the number of identifiers drawn.
\<close>


subsection \<open>Configuration (engine/config.py)\<close>

record filter_config =
  min_atr_pct :: real
  allowed_sessions :: "string list"

record risk_config =
  max_daily_drawdown_pct :: real
  max_signals_per_day :: int
  min_confidence :: real
  min_risk_reward :: real
  max_open_positions :: int
  max_exposure_pct :: real
  vol_target_atr_pct :: real
  vol_target_cap :: real

record engine_config =
  ec_aggregation :: aggregation_config
  ec_filter :: filter_config
  ec_risk :: risk_config

text \<open>The field bounds pydantic enforces when the configuration is built.\<close>

definition risk_config_valid :: "risk_config \<Rightarrow> bool" where
  "risk_config_valid c \<longleftrightarrow>
     0 \<le> max_daily_drawdown_pct c \<and> 1 \<le> max_signals_per_day c
     \<and> 0 \<le> min_confidence c \<and> min_confidence c \<le> 1 \<and> 0 \<le> min_risk_reward c
     \<and> 0 \<le> max_open_positions c \<and> 0 \<le> max_exposure_pct c
     \<and> 0 \<le> vol_target_atr_pct c \<and> 0 \<le> vol_target_cap c"

definition engine_config_valid :: "engine_config \<Rightarrow> bool" where
  "engine_config_valid c \<longleftrightarrow> aggregation_config_valid (ec_aggregation c)
     \<and> 0 \<le> min_atr_pct (ec_filter c) \<and> risk_config_valid (ec_risk c)"


subsection \<open>Market filter (MarketFilter)\<close>

definition market_filter_check :: "filter_config \<Rightarrow> market_context \<Rightarrow> stage_result" where
  "market_filter_check cfg ctx =
     (if session_name (mc_session ctx) \<notin> set (allowed_sessions cfg) then
        \<lparr>sr_passed = False, sr_reason = Some ''session_not_allowed'',
         sr_details = [(''session'', D_str (session_name (mc_session ctx))),
                       (''allowed'', D_strs (allowed_sessions cfg))]\<rparr>
      else if mc_volatility ctx = LOW then
        \<lparr>sr_passed = False, sr_reason = Some ''low_volatility'',
         sr_details = [(''volatility'', D_str (volatility_name (mc_volatility ctx)))]\<rparr>
      else if atr_pct ctx < min_atr_pct cfg then
        \<lparr>sr_passed = False, sr_reason = Some ''atr_below_minimum'',
         sr_details = [(''atr_pct'', D_num (atr_pct ctx)), (''min_atr_pct'', D_num (min_atr_pct cfg))]\<rparr>
      else
        \<lparr>sr_passed = True, sr_reason = None,
         sr_details = [(''session'', D_str (session_name (mc_session ctx))),
                       (''atr_pct'', D_num (atr_pct ctx))]\<rparr>)"

lemma market_filter_passes_iff:
  "sr_passed (market_filter_check cfg ctx) \<longleftrightarrow>
     session_name (mc_session ctx) \<in> set (allowed_sessions cfg)
     \<and> mc_volatility ctx \<noteq> LOW \<and> min_atr_pct cfg \<le> atr_pct ctx"
  by (auto simp: market_filter_check_def)


subsection \<open>Risk manager (RiskManager)\<close>

definition risk_check :: "string \<Rightarrow> bool \<Rightarrow> real \<Rightarrow> real \<Rightarrow> string \<Rightarrow> string \<Rightarrow> risk_check_result" where
  "risk_check nm ok cur thr good bad =
     \<lparr>check_name = nm, check_passed = ok, check_current_value = cur, check_threshold = thr,
      check_message = (if ok then good else bad)\<rparr>"

lemma risk_check_simps [simp]:
  "check_passed (risk_check nm ok cur thr good bad) = ok"
  "check_name (risk_check nm ok cur thr good bad) = nm"
  by (simp_all add: risk_check_def)

definition opposes :: "side \<Rightarrow> position_state \<Rightarrow> bool" where
  "opposes sd p \<longleftrightarrow> (pos_side p = LONG \<and> sd = SELL) \<or> (pos_side p = SHORT \<and> sd = BUY)"

definition opposing_exit :: "side \<Rightarrow> portfolio_state \<Rightarrow> bool" where
  "opposing_exit sd pf = list_ex (opposes sd) (open_positions pf)"

definition risk_evaluate :: "risk_config \<Rightarrow> aggregator_success \<Rightarrow> state_snapshot \<Rightarrow> risk_verdict" where
  "risk_evaluate cfg agg snap =
     (let risk = snap_risk snap; pf = snap_portfolio snap;
          open_count = int (length (open_positions pf));
          opp = opposing_exit (as_side agg) pf;
          max_losses = lim_max_consecutive_losses (limits risk);
          checks =
            [risk_check ''daily_drawdown''
               (daily_drawdown_pct risk < max_daily_drawdown_pct cfg)
               (daily_drawdown_pct risk) (max_daily_drawdown_pct cfg)
               ''daily drawdown within limit'' ''daily drawdown limit breached'',
             risk_check ''max_signals_per_day''
               (signals_today risk < max_signals_per_day cfg)
               (of_int (signals_today risk)) (of_int (max_signals_per_day cfg))
               ''signals today within limit'' ''max signals per day reached'',
             risk_check ''max_open_positions''
               (opp \<or> open_count < max_open_positions cfg)
               (of_int open_count) (of_int (max_open_positions cfg))
               ''open positions within limit'' ''max open positions reached'',
             risk_check ''max_exposure''
               (opp \<or> open_exposure_pct risk \<le> max_exposure_pct cfg)
               (open_exposure_pct risk) (max_exposure_pct cfg)
               ''exposure within limit'' ''max exposure exceeded'',
             risk_check ''min_confidence''
               (as_confidence agg \<ge> min_confidence cfg)
               (as_confidence agg) (min_confidence cfg)
               ''confidence sufficient'' ''confidence below minimum'',
             risk_check ''max_consecutive_losses''
               (consecutive_losses risk < max_losses)
               (of_int (consecutive_losses risk)) (of_int max_losses)
               ''consecutive losses within limit'' ''max consecutive losses reached'']
      in \<lparr>rv_passed = list_all check_passed checks, rv_checks = checks,
          rv_state_snapshot_id = snapshot_id snap, rv_risk_state_version = rs_version risk\<rparr>)"

definition finalize_verdict :: "risk_config \<Rightarrow> risk_verdict \<Rightarrow> final_signal \<Rightarrow> state_snapshot \<Rightarrow> risk_verdict" where
  "finalize_verdict cfg v fs snap =
     (let rr = risk_check ''min_risk_reward'' (risk_reward fs \<ge> min_risk_reward cfg)
                 (risk_reward fs) (min_risk_reward cfg)
                 ''risk reward sufficient'' ''risk reward below minimum''
      in \<lparr>rv_passed = (rv_passed v \<and> check_passed rr), rv_checks = rv_checks v @ [rr],
          rv_state_snapshot_id = snapshot_id snap, rv_risk_state_version = rs_version (snap_risk snap)\<rparr>)"

text \<open>\<^verbatim>\<open>next(c for c in checks if not c.passed)\<close>\<close>

definition first_failed :: "risk_verdict \<Rightarrow> risk_check_result result" where
  "first_failed v = (case List.find (\<lambda>c. \<not> check_passed c) (rv_checks v) of
     None \<Rightarrow> Inl StopIteration | Some c \<Rightarrow> Inr c)"

text \<open>A verdict is coherent when its flag is the conjunction of its checks.\<close>

definition coherent :: "risk_verdict \<Rightarrow> bool" where
  "coherent v \<longleftrightarrow> rv_passed v = list_all check_passed (rv_checks v)"

lemma coherent_evaluate [simp]: "coherent (risk_evaluate cfg agg snap)"
  by (simp add: coherent_def risk_evaluate_def Let_def)

lemma coherent_finalize [simp]: "coherent v \<Longrightarrow> coherent (finalize_verdict cfg v fs snap)"
  by (simp add: coherent_def finalize_verdict_def Let_def)

lemma first_failed_total: "coherent v \<Longrightarrow> \<not> rv_passed v \<Longrightarrow>
  \<exists>c. first_failed v = Inr c \<and> c \<in> set (rv_checks v) \<and> \<not> check_passed c"
  by (auto simp: coherent_def first_failed_def list_all_iff find_None_iff find_Some_iff
      split: option.splits intro: nth_mem)

lemma risk_evaluate_passes_iff:
  "rv_passed (risk_evaluate cfg agg snap) \<longleftrightarrow>
     daily_drawdown_pct (snap_risk snap) < max_daily_drawdown_pct cfg
     \<and> signals_today (snap_risk snap) < max_signals_per_day cfg
     \<and> (opposing_exit (as_side agg) (snap_portfolio snap)
         \<or> int (length (open_positions (snap_portfolio snap))) < max_open_positions cfg
           \<and> open_exposure_pct (snap_risk snap) \<le> max_exposure_pct cfg)
     \<and> min_confidence cfg \<le> as_confidence agg
     \<and> consecutive_losses (snap_risk snap) < lim_max_consecutive_losses (limits (snap_risk snap))"
  by (auto simp: risk_evaluate_def Let_def)


subsection \<open>Final signal (FinalSignalBuilder)\<close>

definition weighted_avg :: "(real \<times> real) list \<Rightarrow> real option" where
  "weighted_avg vals =
     (if vals = [] then None
      else
       (let total_w = sum_list (map snd vals)
        in if total_w \<le> 0 then Some (sum_list (map fst vals) / of_nat (length vals))
           else Some (sum_list (map (\<lambda>(level, w). level * w) vals) / total_w)))"

definition level_values ::
  "(strategy_signal \<Rightarrow> real option) \<Rightarrow> (string, real) dict \<Rightarrow> strategy_signal list \<Rightarrow> (real \<times> real) list" where
  "level_values get weights winners =
     concat (map (\<lambda>s. case get s of None \<Rightarrow> []
       | Some l \<Rightarrow> [(l, dict_get_or weights (provider_id s) 1)]) winners)"

definition level_or_default :: "(real \<times> real) list \<Rightarrow> real \<Rightarrow> real" where
  "level_or_default vals d = (case weighted_avg vals of None \<Rightarrow> d | Some l \<Rightarrow> l)"

definition merge_levels ::
  "side \<Rightarrow> strategy_signal list \<Rightarrow> real \<Rightarrow> (string, real) dict \<Rightarrow> real \<times> real" where
  "merge_levels sd winners entry weights =
     (let stop_levels = level_values sig_stop_loss weights winners;
          target_levels = level_values sig_take_profit weights winners
      in if sd = BUY
         then (level_or_default stop_levels (entry * 0.99), level_or_default target_levels (entry * 1.02))
         else (level_or_default stop_levels (entry * 1.01), level_or_default target_levels (entry * 0.98)))"

definition risk_reward_of :: "real \<Rightarrow> real \<Rightarrow> real \<Rightarrow> real" where
  "risk_reward_of entry sl tp =
     (let risk = \<bar>entry - sl\<bar>; reward = \<bar>tp - entry\<bar>
      in if risk = 0 then 0 else py_round 4 (reward / risk))"

definition vol_multiplier :: "real \<Rightarrow> real \<Rightarrow> market_context \<Rightarrow> real" where
  "vol_multiplier target cap ctx =
     (if target > 0 \<and> atr_pct ctx > 0 then min cap (target / atr_pct ctx) else 1)"

definition build_final_signal ::
  "env \<Rightarrow> risk_config \<Rightarrow> aggregator_success \<Rightarrow> strategy_signal list \<Rightarrow> market_context
   \<Rightarrow> state_snapshot \<Rightarrow> datetime \<Rightarrow> string option \<Rightarrow> tick \<Rightarrow> final_signal result"
where
  "build_final_signal E cfg agg sigs ctx snap dtime rev_id n =
     (let winners = filter (\<lambda>s. provider_id s \<in> set (dict_keys (as_weights agg))) sigs;
          entry = current_price ctx;
          (sl, tp) = merge_levels (as_side agg) winners entry (as_weights agg)
      in mk_final_signal
          \<lparr>final_signal_id = fresh_id E ''sig_'' n, fin_symbol = mc_symbol ctx,
           fin_side = as_side agg, fin_entry_price = entry, fin_stop_loss = sl,
           fin_take_profit = tp, fin_confidence = as_confidence agg,
           risk_reward = risk_reward_of entry sl tp, fin_timeframe = mc_timeframe ctx,
           fin_event_time = mc_event_time ctx, fin_decision_time = dtime,
           contributing_providers = dict_keys (as_weights agg),
           fin_state_snapshot_id = snapshot_id snap, fin_revision_id = rev_id,
           size_multiplier = vol_multiplier (vol_target_atr_pct cfg) (vol_target_cap cfg) ctx\<rparr>)"


subsection \<open>The pipeline (DecisionEngine.process)\<close>

record decision_meta =
  dm_correlation_id :: string
  dm_event_time :: datetime
  dm_decision_time :: datetime
  dm_revision_id :: "string option"
  dm_experiment_id :: "string option"

definition skipped_risk_verdict :: "state_snapshot \<Rightarrow> risk_verdict" where
  "skipped_risk_verdict snap = \<lparr>rv_passed = True, rv_checks = [],
     rv_state_snapshot_id = snapshot_id snap, rv_risk_state_version = rs_version (snap_risk snap)\<rparr>"

definition skipped_aggregation :: "string \<Rightarrow> aggregation_result" where
  "skipped_aggregation m = \<lparr>agg_method = m, agg_side = HOLD, agg_confidence = 0,
     agg_weights = [], agg_dissent = []\<rparr>"

definition mk_log ::
  "stage_result \<Rightarrow> strategy_signal list \<Rightarrow> aggregation_result \<Rightarrow> risk_verdict \<Rightarrow> state_snapshot \<Rightarrow> decision_log" where
  "mk_log mf sigs agg rv snap = \<lparr>log_market_filter = mf, log_provider_signals = sigs,
     log_aggregation = agg, log_risk_check = rv, log_state_snapshot_id = snapshot_id snap,
     log_portfolio_version = pf_version (snap_portfolio snap),
     log_risk_state_version = rs_version (snap_risk snap)\<rparr>"

definition mk_decision ::
  "string \<Rightarrow> decision_result \<Rightarrow> final_signal option \<Rightarrow> decision_log \<Rightarrow> decision_meta \<Rightarrow> decision" where
  "mk_decision did res fs lg m = \<lparr>decision_id = did, dec_result = res, dec_final_signal = fs,
     dec_log = lg, dec_correlation_id = dm_correlation_id m, dec_event_time = dm_event_time m,
     dec_decision_time = dm_decision_time m, dec_revision_id = dm_revision_id m,
     dec_experiment_id = dm_experiment_id m\<rparr>"

definition rejected :: "string option \<Rightarrow> rejection_stage \<Rightarrow> decision_result" where
  "rejected reason stage = \<lparr>dr_value = Rejected, dr_rejection_reason = reason,
     dr_rejection_stage = Some stage\<rparr>"

definition approved :: decision_result where
  "approved = \<lparr>dr_value = Approved, dr_rejection_reason = None, dr_rejection_stage = None\<rparr>"

definition process ::
  "env \<Rightarrow> engine_config \<Rightarrow> strategy_signal list \<Rightarrow> market_context \<Rightarrow> state_snapshot
   \<Rightarrow> decision_meta \<Rightarrow> tick \<Rightarrow> (decision \<times> tick) result"
where
  "process E cfg sigs ctx snap m n =
     (let did = fresh_id E ''dec_'' n;
          meth = method_name (ac_method (ec_aggregation cfg));
          mf = market_filter_check (ec_filter cfg) ctx
      in if \<not> sr_passed mf then
           Inr (mk_decision did (rejected (sr_reason mf) Stage_market_filter) None
                  (mk_log mf sigs (skipped_aggregation meth) (skipped_risk_verdict snap) snap) m, Suc n)
         else and_then (combine (ec_aggregation cfg) sigs) (\<lambda>outcome.
           case outcome of
             Agg_failure reason \<Rightarrow>
               (let agg = \<lparr>agg_method = meth, agg_side = HOLD, agg_confidence = 0, agg_weights = [],
                           agg_dissent = map provider_id (filter (\<lambda>s. sig_side s \<noteq> HOLD) sigs)\<rparr>
                in Inr (mk_decision did (rejected (Some reason) Stage_aggregator) None
                          (mk_log mf sigs agg (skipped_risk_verdict snap) snap) m, Suc n))
           | Agg_success a \<Rightarrow>
               (let agg = \<lparr>agg_method = meth, agg_side = as_side a, agg_confidence = as_confidence a,
                           agg_weights = as_weights a, agg_dissent = as_dissent a\<rparr>;
                    rv = risk_evaluate (ec_risk cfg) a snap
                in if \<not> rv_passed rv then
                     and_then (first_failed rv) (\<lambda>failed.
                       Inr (mk_decision did (rejected (Some (check_name failed)) Stage_risk_manager) None
                              (mk_log mf sigs agg rv snap) m, Suc n))
                   else
                     and_then (build_final_signal E (ec_risk cfg) a sigs ctx snap
                                 (dm_decision_time m) (dm_revision_id m) (Suc n)) (\<lambda>fs.
                       let rv2 = finalize_verdict (ec_risk cfg) rv fs snap
                       in if \<not> rv_passed rv2 then
                            and_then (first_failed rv2) (\<lambda>failed.
                              Inr (mk_decision did (rejected (Some (check_name failed)) Stage_risk_manager)
                                     None (mk_log mf sigs agg rv2 snap) m, Suc (Suc n)))
                          else Inr (mk_decision did approved (Some fs)
                                      (mk_log mf sigs agg rv2 snap) m, Suc (Suc n))))))"

lemma mk_decision_simps [simp]:
  "dec_result (mk_decision did res fs lg m) = res"
  "dec_final_signal (mk_decision did res fs lg m) = fs"
  "dec_log (mk_decision did res fs lg m) = lg"
  "decision_id (mk_decision did res fs lg m) = did"
  "dec_event_time (mk_decision did res fs lg m) = dm_event_time m"
  "is_approved (mk_decision did res fs lg m) \<longleftrightarrow> dr_value res = Approved"
  by (simp_all add: mk_decision_def is_approved_def)

lemma result_simps' [simp]:
  "dr_value (rejected r st) = Rejected" "dr_value approved = Approved"
  "dr_rejection_stage (rejected r st) = Some st" "dr_rejection_reason (rejected r st) = r"
  by (simp_all add: rejected_def approved_def)


subsection \<open>Averages of price levels\<close>

lemma weighted_sum_le:
  "(\<forall>(v, w) \<in> set xs. 0 \<le> w \<and> v \<le> hi) \<Longrightarrow>
   sum_list (map (\<lambda>(v, w). v * w) xs) \<le> hi * sum_list (map snd (xs :: (real \<times> real) list))"
proof (induction xs)
  case (Cons x xs)
  obtain v w where x: "x = (v, w)" by (cases x)
  with Cons.prems have "v * w \<le> hi * w" by (simp add: mult_right_mono)
  with Cons x show ?case by (simp add: distrib_left)
qed simp

lemma weighted_avg_less:
  assumes "weighted_avg vals = Some l" and "\<forall>(v, w) \<in> set vals. 0 \<le> w \<and> v < hi"
  shows "l < hi"
proof -
  have strict: "sum_list (map (\<lambda>(v, w). v * w) xs) < hi * sum_list (map snd xs)"
    if "\<forall>(v, w) \<in> set xs. 0 \<le> w \<and> v < hi" "0 < sum_list (map snd xs)" for xs :: "(real \<times> real) list"
    using that
  proof (induction xs)
    case (Cons x xs)
    obtain v w where x: "x = (v, w)" by (cases x)
    have le: "sum_list (map (\<lambda>(v, w). v * w) xs) \<le> hi * sum_list (map snd xs)"
      using Cons.prems(1) by (intro weighted_sum_le) auto
    show ?case
    proof (cases "0 < w")
      case True
      with Cons.prems x have "v * w < hi * w" by simp
      with le x show ?thesis by (simp add: distrib_left)
    next
      case False
      with Cons.prems x have "w = 0" by auto
      with Cons x show ?thesis by simp
    qed
  qed simp
  have plain: "sum_list (map fst xs) < hi * of_nat (length xs)"
    if "\<forall>(v, w) \<in> set xs. 0 \<le> w \<and> v < hi" "xs \<noteq> []" for xs :: "(real \<times> real) list"
    using that
  proof (induction xs)
    case (Cons x xs)
    then show ?case by (cases "xs = []") (auto simp: distrib_left)
  qed simp
  show ?thesis
    using assms strict [of vals] plain [of vals]
    by (auto simp: weighted_avg_def Let_def divide_less_eq split: if_splits)
qed

lemma weighted_avg_greater:
  assumes "weighted_avg vals = Some l" and "\<forall>(v, w) \<in> set vals. 0 \<le> w \<and> lo < v"
  shows "lo < l"
proof -
  let ?neg = "map (\<lambda>(v, w). (- v, w)) vals"
  have m: "map (snd \<circ> (\<lambda>(v, w). (- v, w))) vals = map snd vals"
    "map (fst \<circ> (\<lambda>(v, w). (- v, w))) vals = map (\<lambda>x. - fst x) vals"
    "map ((\<lambda>(v, w). v * w) \<circ> (\<lambda>(v, w). (- v, w))) vals = map (\<lambda>x. - (case x of (v, w) \<Rightarrow> v * w)) vals"
    by (simp_all add: case_prod_unfold)
  have neg: "sum_list (map (\<lambda>x. - f x) vals) = - sum_list (map f vals)" for f :: "real \<times> real \<Rightarrow> real"
    by (induction vals) simp_all
  have "weighted_avg ?neg = Some (- l)"
    using assms(1) unfolding weighted_avg_def map_map m neg
    by (auto simp: Let_def split: if_splits)
  moreover have "\<forall>(v, w) \<in> set ?neg. 0 \<le> w \<and> v < - lo"
    using assms(2) by auto
  ultimately have "- l < - lo" by (rule weighted_avg_less)
  then show ?thesis by simp
qed

lemma level_or_default_less:
  "(\<forall>(v, w) \<in> set vals. 0 \<le> w \<and> v < hi) \<Longrightarrow> d < hi \<Longrightarrow> level_or_default vals d < hi"
  by (auto simp: level_or_default_def split: option.splits dest: weighted_avg_less)

lemma level_or_default_greater:
  "(\<forall>(v, w) \<in> set vals. 0 \<le> w \<and> lo < v) \<Longrightarrow> lo < d \<Longrightarrow> lo < level_or_default vals d"
  by (auto simp: level_or_default_def split: option.splits dest: weighted_avg_greater)

lemma set_level_values:
  "(l, w) \<in> set (level_values get weights win) \<longleftrightarrow>
     (\<exists>s \<in> set win. get s = Some l \<and> w = dict_get_or weights (provider_id s) 1)"
  by (force simp: level_values_def split: option.splits)

lemma weight_dict_nonneg:
  assumes "\<forall>s \<in> set sigs. 0 \<le> w s"
  shows "0 \<le> dict_get_or (weight_dict w sigs) k 1"
proof -
  have "0 \<le> dict_get_or (fold (\<lambda>s d. dict_set d (provider_id s) (w s)) xs d) k 1"
    if "0 \<le> dict_get_or d k 1" "\<forall>s \<in> set xs. 0 \<le> w s" for xs d
    using that
    by (induction xs arbitrary: d) (auto simp: dict_get_or_def)
  with assms show ?thesis by (simp add: weight_dict_def dict_get_or_def)
qed


subsection \<open>Correctness of the pipeline\<close>

lemma vol_multiplier_bounds:
  "0 \<le> cap \<Longrightarrow> 0 \<le> vol_multiplier target cap ctx
   \<and> (0 < target \<and> 0 < atr_pct ctx \<longrightarrow>
        vol_multiplier target cap ctx \<le> cap \<and> vol_multiplier target cap ctx * atr_pct ctx \<le> target)"
  by (auto simp: vol_multiplier_def min_def not_le field_simps)

lemma build_final_signal_total:
  assumes "as_side a \<noteq> HOLD" and "0 \<le> as_confidence a \<and> as_confidence a \<le> 1" and "risk_config_valid cfg"
  shows "\<exists>fs. build_final_signal E cfg a sigs ctx snap dt rev_id n = Inr fs"
  using assms vol_multiplier_bounds [of "vol_target_cap cfg"]
  by (simp add: build_final_signal_def Let_def mk_final_signal_def final_signal_valid_def
      risk_config_valid_def split: prod.splits)

lemma process_total:
  assumes "engine_config_valid cfg" and "signals_ok sigs"
  shows "\<exists>d k. process E cfg sigs ctx snap m n = Inr (d, k) \<and> n < k \<and> k \<le> n + 2"
proof -
  from assms(1) have ac: "aggregation_config_valid (ec_aggregation cfg)" and rc: "risk_config_valid (ec_risk cfg)"
    by (simp_all add: engine_config_valid_def)
  obtain r where r: "combine (ec_aggregation cfg) sigs = Inr r" using combine_total [OF ac] by blast
  show ?thesis
  proof (cases r)
    case (Agg_success a)
    from combine_winners [OF r [unfolded this] ac] have s: "as_side a \<noteq> HOLD" by blast
    have c: "0 \<le> as_confidence a \<and> as_confidence a \<le> 1"
      using combine_winners [OF r [unfolded Agg_success] ac] agg_confidence_unit
        signals_ok_on_side [OF assms(2)] by blast
    let ?rv = "risk_evaluate (ec_risk cfg) a snap"
    obtain fs where fs: "build_final_signal E (ec_risk cfg) a sigs ctx snap
        (dm_decision_time m) (dm_revision_id m) (Suc n) = Inr fs"
      using build_final_signal_total [OF s c rc] by blast
    have failed: "\<exists>x. first_failed v = Inr x" if "coherent v" "\<not> rv_passed v" for v
      using first_failed_total [OF that] by blast
    show ?thesis
    proof (cases "rv_passed ?rv")
      case True
      show ?thesis
        using failed [OF coherent_finalize [OF coherent_evaluate], of "ec_risk cfg" "ec_risk cfg" a snap fs snap]
        by (auto simp: process_def Let_def r Agg_success fs True)
    next
      case False
      with failed [OF coherent_evaluate] obtain x where "first_failed ?rv = Inr x" by blast
      with False show ?thesis by (simp add: process_def Let_def r Agg_success)
    qed
  qed (simp add: process_def Let_def r)
qed

text \<open>On a validated configuration and opinions with confidences in the unit interval and
  weights that are not negative, deciding never raises: the aggregation divides by no zero,
  the search for the failed check finds one, and the final signal passes its own
  validation. It draws at most two identifiers.\<close>

theorem process_never_raises:
  assumes "engine_config_valid cfg" and "signals_ok sigs"
  shows "\<exists>d k. process E cfg sigs ctx snap m n = Inr (d, k) \<and> n < k \<and> k \<le> n + 2"
  using assms by (rule process_total)

definition demo_context :: market_context where
  "demo_context = \<lparr>mc_symbol = ''BTC'', mc_timeframe = ''1h'', current_price = 100, mc_trend = UP,
     mc_volatility = NORMAL, atr = 2, atr_pct = 2, mc_session = US, mc_event_time = 0\<rparr>"

definition demo_engine_config :: engine_config where
  "demo_engine_config = \<lparr>ec_aggregation = demo_agg_config Weighted_majority,
     ec_filter = \<lparr>min_atr_pct = 0.5, allowed_sessions = [''US'', ''EUROPE'']\<rparr>,
     ec_risk = \<lparr>max_daily_drawdown_pct = 5, max_signals_per_day = 10, min_confidence = 0.6,
       min_risk_reward = 1.5, max_open_positions = 3, max_exposure_pct = 50,
       vol_target_atr_pct = 0, vol_target_cap = 1.5\<rparr>\<rparr>"

definition demo_meta :: decision_meta where
  "demo_meta = \<lparr>dm_correlation_id = ''c'', dm_event_time = 0, dm_decision_time = 1,
     dm_revision_id = None, dm_experiment_id = None\<rparr>"

lemma demo_config_valid [simp]: "engine_config_valid demo_engine_config"
  by (simp add: engine_config_valid_def demo_engine_config_def demo_agg_config_def
      aggregation_config_valid_def risk_config_valid_def)

lemma demo_signals_ok [simp]: "signals_ok demo_signals"
  by (simp add: signals_ok_def demo_signals_def demo_signal_def strategy_signal_valid_def
      provider_weight_def dict_get_or_def)

theorem process_never_raises_witness:
  "\<forall>snap. \<exists>d k. process unary_env demo_engine_config demo_signals demo_context snap demo_meta 0 = Inr (d, k)"
  using process_never_raises [OF demo_config_valid demo_signals_ok] by blast


lemma find_append:
  "List.find P (xs @ ys) = (case List.find P xs of None \<Rightarrow> List.find P ys | Some x \<Rightarrow> Some x)"
  by (induction xs) simp_all

text \<open>Every way a decision can come about, with what holds in each.\<close>

lemma process_cases:
  assumes "process E cfg sigs ctx snap m n = Inr (d, k)"
  obtains
    (filtered) "\<not> sr_passed (market_filter_check (ec_filter cfg) ctx)"
      "dec_result d = rejected (sr_reason (market_filter_check (ec_filter cfg) ctx)) Stage_market_filter"
      "dec_final_signal d = None"
  | (no_side) reason where "sr_passed (market_filter_check (ec_filter cfg) ctx)"
      "combine (ec_aggregation cfg) sigs = Inr (Agg_failure reason)"
      "dec_result d = rejected (Some reason) Stage_aggregator" "dec_final_signal d = None"
  | (risk) a c where "sr_passed (market_filter_check (ec_filter cfg) ctx)"
      "combine (ec_aggregation cfg) sigs = Inr (Agg_success a)"
      "\<not> rv_passed (risk_evaluate (ec_risk cfg) a snap)"
      "first_failed (risk_evaluate (ec_risk cfg) a snap) = Inr c"
      "dec_result d = rejected (Some (check_name c)) Stage_risk_manager" "dec_final_signal d = None"
  | (reward) a fs where "sr_passed (market_filter_check (ec_filter cfg) ctx)"
      "combine (ec_aggregation cfg) sigs = Inr (Agg_success a)"
      "rv_passed (risk_evaluate (ec_risk cfg) a snap)"
      "build_final_signal E (ec_risk cfg) a sigs ctx snap (dm_decision_time m) (dm_revision_id m) (Suc n) = Inr fs"
      "risk_reward fs < min_risk_reward (ec_risk cfg)"
      "dec_result d = rejected (Some ''min_risk_reward'') Stage_risk_manager" "dec_final_signal d = None"
  | (approved) a fs where "sr_passed (market_filter_check (ec_filter cfg) ctx)"
      "combine (ec_aggregation cfg) sigs = Inr (Agg_success a)"
      "rv_passed (risk_evaluate (ec_risk cfg) a snap)"
      "build_final_signal E (ec_risk cfg) a sigs ctx snap (dm_decision_time m) (dm_revision_id m) (Suc n) = Inr fs"
      "min_risk_reward (ec_risk cfg) \<le> risk_reward fs"
      "dec_result d = approved" "dec_final_signal d = Some fs"
proof (cases "sr_passed (market_filter_check (ec_filter cfg) ctx)")
  case False
  with assms filtered show ?thesis by (auto simp: process_def Let_def)
next
  case True
  note passed = this
  from assms passed obtain r where r: "combine (ec_aggregation cfg) sigs = Inr r"
    by (auto simp: process_def Let_def and_then_Inr_iff)
  show ?thesis
  proof (cases r)
    case (Agg_failure reason)
    with assms passed r no_side [of reason] show ?thesis by (auto simp: process_def Let_def)
  next
    case (Agg_success a)
    let ?rv = "risk_evaluate (ec_risk cfg) a snap"
    show ?thesis
    proof (cases "rv_passed ?rv")
      case False
      with assms passed r Agg_success risk [of a] show ?thesis
        by (auto simp: process_def Let_def)
    next
      case True
      with assms passed r Agg_success obtain fs where
        fs: "build_final_signal E (ec_risk cfg) a sigs ctx snap (dm_decision_time m) (dm_revision_id m) (Suc n) = Inr fs"
        by (auto simp: process_def Let_def)
      have ff: "first_failed (finalize_verdict (ec_risk cfg) ?rv fs snap) =
          Inr (risk_check ''min_risk_reward'' False (risk_reward fs) (min_risk_reward (ec_risk cfg))
            ''risk reward sufficient'' ''risk reward below minimum'')"
        if "risk_reward fs < min_risk_reward (ec_risk cfg)"
      proof -
        have "list_all check_passed (rv_checks ?rv)"
          using True coherent_evaluate by (simp add: coherent_def)
        then have "List.find (\<lambda>c. \<not> check_passed c) (rv_checks ?rv) = None"
          by (simp add: find_None_iff list_all_iff)
        with that show ?thesis
          by (simp add: first_failed_def finalize_verdict_def Let_def find_append)
      qed
      show ?thesis
      proof (cases "risk_reward fs < min_risk_reward (ec_risk cfg)")
        case low: True
        with assms passed r Agg_success True fs ff reward [of a fs] show ?thesis
          by (auto simp: process_def Let_def finalize_verdict_def first_failed_def)
      next
        case False
        with assms passed r Agg_success True fs approved [of a fs] show ?thesis
          by (auto simp: process_def Let_def finalize_verdict_def)
      qed
    qed
  qed
qed


text \<open>C5: every gate stands between the providers and an approval. An approved decision has a
  final signal whose side is the one the votes call for; the market context passed the
  session, volatility and ATR filter; and the risk state was below the drawdown limit, the
  daily signal limit and the loss-streak limit, the position and exposure caps held unless
  the signal closes an opposing position, and confidence and reward-to-risk reached their
  minima.\<close>

theorem approval_passes_every_gate:
  assumes "process E cfg sigs ctx snap m n = Inr (d, k)" and "is_approved d"
    and "engine_config_valid cfg"
  shows "\<exists>fs. dec_final_signal d = Some fs
    \<and> verdict_side (ec_aggregation cfg) sigs = Some (fin_side fs)
    \<and> session_name (mc_session ctx) \<in> set (allowed_sessions (ec_filter cfg))
    \<and> mc_volatility ctx \<noteq> LOW \<and> min_atr_pct (ec_filter cfg) \<le> atr_pct ctx
    \<and> daily_drawdown_pct (snap_risk snap) < max_daily_drawdown_pct (ec_risk cfg)
    \<and> signals_today (snap_risk snap) < max_signals_per_day (ec_risk cfg)
    \<and> consecutive_losses (snap_risk snap) < lim_max_consecutive_losses (limits (snap_risk snap))
    \<and> (opposing_exit (fin_side fs) (snap_portfolio snap)
        \<or> int (length (open_positions (snap_portfolio snap))) < max_open_positions (ec_risk cfg)
          \<and> open_exposure_pct (snap_risk snap) \<le> max_exposure_pct (ec_risk cfg))
    \<and> min_confidence (ec_risk cfg) \<le> fin_confidence fs
    \<and> min_risk_reward (ec_risk cfg) \<le> risk_reward fs
    \<and> final_signal_valid fs"
  using assms(1)
proof (cases rule: process_cases)
  case (approved a fs)
  have fin: "fin_side fs = as_side a" "fin_confidence fs = as_confidence a" "final_signal_valid fs"
    using approved(4) by (auto simp: build_final_signal_def Let_def mk_final_signal_Inr split: prod.splits)
  have "verdict_side (ec_aggregation cfg) sigs = Some (as_side a)"
    using combine_side [OF approved(2)] assms(3)
    by (simp add: engine_config_valid_def aggregation_config_valid_def)
  with approved fin show ?thesis
    by (simp add: risk_evaluate_passes_iff market_filter_passes_iff)
qed (use assms(2) in \<open>simp_all add: is_approved_def\<close>)

definition demo_portfolio :: portfolio_state where
  "demo_portfolio = \<lparr>pf_portfolio_id = ''p'', pf_mode = Paper_mode, cash = 10000, equity = 10000,
     open_positions = [], realized_pnl = 0, pf_version = 1, pf_as_of_event_time = 0,
     pf_as_of_processing_time = 0\<rparr>"

definition demo_risk :: risk_state where
  "demo_risk = \<lparr>risk_state_id = ''r'', rs_portfolio_id = ''p'', daily_pnl = 0, daily_drawdown_pct = 0,
     daily_start_equity = 10000, open_exposure_pct = 0, consecutive_losses = 0, signals_today = 0,
     limits = \<lparr>lim_max_daily_drawdown_pct = 5, lim_max_open_positions = 3, lim_max_exposure_pct = 50,
       lim_max_consecutive_losses = 5\<rparr>, breached_limits = [], rs_version = 1, rs_as_of_event_time = 0\<rparr>"

definition demo_snapshot :: state_snapshot where
  "demo_snapshot = \<lparr>snapshot_id = ''s'', snap_portfolio = demo_portfolio, snap_risk = demo_risk,
     snap_version = 1, snap_created_at = 0, snap_correlation_id = None\<rparr>"

lemmas demo_engine_simps = demo_engine_config_def demo_signals_def demo_signal_def demo_context_def
  demo_snapshot_def demo_portfolio_def demo_risk_def demo_meta_def demo_agg_config_def

lemma demo_approved:
  "\<exists>d k fs. process unary_env demo_engine_config demo_signals demo_context demo_snapshot demo_meta 0 = Inr (d, k)
     \<and> is_approved d \<and> dec_final_signal d = Some fs"
proof -
  have on: "on_side BUY demo_signals = [demo_signal ''a'' BUY 0.8 1, demo_signal ''c'' BUY 0.6 3]"
    "on_side SELL demo_signals = [demo_signal ''b'' SELL 0.9 5]"
    by (simp_all add: on_side_def demo_signals_def demo_signal_def)
  let ?a = "\<lparr>as_side = BUY, as_confidence = 0.65, as_weights = [(''a'', 1), (''c'', 3)], as_dissent = [''b'']\<rparr>"
  have c: "combine (ec_aggregation demo_engine_config) demo_signals = Inr (Agg_success ?a)"
    by (simp add: combine_def demo_engine_config_def demo_agg_config_def
        combine_majority_cases [OF refl refl] on agg_success_def agg_confidence_of_def Let_def
        demo_signal_def provider_weight_def dict_get_or_def weight_dict_def dict_set_def)
  have f: "sr_passed (market_filter_check (ec_filter demo_engine_config) demo_context)"
    by (simp add: market_filter_passes_iff demo_engine_simps session_name_def)
  have r: "rv_passed (risk_evaluate (ec_risk demo_engine_config) ?a demo_snapshot)"
    by (simp add: risk_evaluate_passes_iff demo_engine_simps)
  have rr: "risk_reward_of 100 90 130 = 3"
    by (simp add: risk_reward_of_def py_round_def)
  obtain fs where b: "build_final_signal unary_env (ec_risk demo_engine_config) ?a demo_signals demo_context
      demo_snapshot (dm_decision_time demo_meta) (dm_revision_id demo_meta) (Suc 0) = Inr fs" "risk_reward fs = 3"
    by (simp add: build_final_signal_def demo_engine_simps merge_levels_def level_values_def
        level_or_default_def weighted_avg_def Let_def dict_keys_def dict_get_or_def
        mk_final_signal_def final_signal_valid_def vol_multiplier_def rr)
  have "rv_passed (finalize_verdict (ec_risk demo_engine_config)
      (risk_evaluate (ec_risk demo_engine_config) ?a demo_snapshot) fs demo_snapshot)"
    using r b by (simp add: finalize_verdict_def Let_def demo_engine_config_def)
  with f c r b show ?thesis by (simp add: process_def Let_def)
qed

theorem approval_passes_every_gate_witness:
  "\<exists>d k fs. process unary_env demo_engine_config demo_signals demo_context demo_snapshot demo_meta 0
       = Inr (d, k) \<and> dec_final_signal d = Some fs
     \<and> verdict_side (ec_aggregation demo_engine_config) demo_signals = Some (fin_side fs)"
  using demo_approved approval_passes_every_gate [OF _ _ demo_config_valid] by blast

text \<open>C32: a rejection names the stage that failed. The stage is market_filter when the market filter fails,
  aggregator when the filter passes and the opinions give no side, and risk_manager when both
  passed; then either a risk check failed, and the reason is the name of the first one that did, or
  all passed, a final signal was built whose reward-to-risk ratio is below the configured minimum,
  and the reason is min_risk_reward. The other reasons are those of their stage, and no final
  signal is emitted.\<close>

theorem rejection_names_its_stage:
  assumes "process E cfg sigs ctx snap m n = Inr (d, k)" and "\<not> is_approved d"
  shows "dec_final_signal d = None \<and>
    (case dr_rejection_stage (dec_result d) of
       None \<Rightarrow> False
     | Some Stage_market_filter \<Rightarrow>
         \<not> sr_passed (market_filter_check (ec_filter cfg) ctx)
         \<and> dr_rejection_reason (dec_result d) = sr_reason (market_filter_check (ec_filter cfg) ctx)
     | Some Stage_aggregator \<Rightarrow>
         sr_passed (market_filter_check (ec_filter cfg) ctx)
         \<and> (\<exists>reason. combine (ec_aggregation cfg) sigs = Inr (Agg_failure reason)
              \<and> dr_rejection_reason (dec_result d) = Some reason)
     | Some Stage_risk_manager \<Rightarrow>
         sr_passed (market_filter_check (ec_filter cfg) ctx)
         \<and> (\<exists>a. combine (ec_aggregation cfg) sigs = Inr (Agg_success a)
              \<and> (if rv_passed (risk_evaluate (ec_risk cfg) a snap)
                  then dr_rejection_reason (dec_result d) = Some ''min_risk_reward''
                    \<and> (\<exists>fs. build_final_signal E (ec_risk cfg) a sigs ctx snap (dm_decision_time m) (dm_revision_id m) (Suc n) = Inr fs
                         \<and> risk_reward fs < min_risk_reward (ec_risk cfg))
                  else \<exists>c. List.find (\<lambda>c. \<not> check_passed c) (rv_checks (risk_evaluate (ec_risk cfg) a snap)) = Some c
                         \<and> dr_rejection_reason (dec_result d) = Some (check_name c))))"
  using assms(1)
proof (cases rule: process_cases)
  case (risk a c)
  from risk(4) have "List.find (\<lambda>c. \<not> check_passed c) (rv_checks (risk_evaluate (ec_risk cfg) a snap)) = Some c"
    by (auto simp: first_failed_def split: option.splits)
  with risk show ?thesis by auto
qed (use assms(2) in \<open>auto simp: is_approved_def\<close>)

theorem rejection_names_its_stage_witness:
  "\<exists>d k. process unary_env demo_engine_config [] demo_context demo_snapshot demo_meta 0 = Inr (d, k)
     \<and> dec_final_signal d = None \<and> dr_rejection_reason (dec_result d) = Some ''no_active_signals''"
proof -
  obtain d k where p: "process unary_env demo_engine_config [] demo_context demo_snapshot demo_meta 0 = Inr (d, k)"
    "dec_result d = rejected (Some ''no_active_signals'') Stage_aggregator"
    by (simp add: process_def Let_def market_filter_check_def demo_engine_simps session_name_def
        combine_def combine_majority_def active_signals_def)
  then show ?thesis
    using rejection_names_its_stage [OF p(1)] by (simp add: is_approved_def)
qed


subsection \<open>Where the stop and the target end up\<close>

definition levels_ordered :: "real \<Rightarrow> strategy_signal \<Rightarrow> bool" where
  "levels_ordered price s =
     (case sig_side s of
        BUY \<Rightarrow> (\<forall>l. sig_stop_loss s = Some l \<longrightarrow> l < price) \<and> (\<forall>l. sig_take_profit s = Some l \<longrightarrow> price < l)
      | SELL \<Rightarrow> (\<forall>l. sig_stop_loss s = Some l \<longrightarrow> price < l) \<and> (\<forall>l. sig_take_profit s = Some l \<longrightarrow> l < price)
      | HOLD \<Rightarrow> True)"

lemma levels_ordered_sides:
  "sig_side s = BUY \<Longrightarrow> levels_ordered e s \<longleftrightarrow>
     (\<forall>l. sig_stop_loss s = Some l \<longrightarrow> l < e) \<and> (\<forall>l. sig_take_profit s = Some l \<longrightarrow> e < l)"
  "sig_side s = SELL \<Longrightarrow> levels_ordered e s \<longleftrightarrow>
     (\<forall>l. sig_stop_loss s = Some l \<longrightarrow> e < l) \<and> (\<forall>l. sig_take_profit s = Some l \<longrightarrow> l < e)"
  by (simp_all add: levels_ordered_def)

lemma winners_on_side:
  assumes "combine cfg sigs = Inr (Agg_success a)" and "aggregation_config_valid cfg"
    and "distinct (map provider_id sigs)"
    and "s \<in> set sigs" and "provider_id s \<in> set (dict_keys (as_weights a))"
  shows "sig_side s = as_side a"
proof -
  from assms(5) combine_winners [OF assms(1,2)] obtain t where
    "t \<in> set (on_side (as_side a) sigs)" "provider_id t = provider_id s" by auto
  with assms(3,4) have "t = s" by (auto simp: set_on_side distinct_map dest: inj_onD)
  with \<open>t \<in> set (on_side (as_side a) sigs)\<close> show ?thesis by (simp add: set_on_side)
qed

lemma as_weights_nonneg:
  assumes "combine cfg sigs = Inr (Agg_success a)" and "aggregation_config_valid cfg" and "signals_ok sigs"
  shows "0 \<le> dict_get_or (as_weights a) k 1"
  using combine_winners [OF assms(1,2)] assms(3)
  by (auto intro!: weight_dict_nonneg simp: signals_ok_def set_on_side)

lemma merge_levels_buy:
  assumes "\<forall>s \<in> set win. levels_ordered entry s \<and> sig_side s = BUY"
    and "\<And>k. 0 \<le> dict_get_or weights k 1" and "0 < entry"
    and "merge_levels BUY win entry weights = (sl, tp)"
  shows "sl < entry \<and> entry < tp"
proof -
  have "\<And>s l. s \<in> set win \<Longrightarrow> sig_stop_loss s = Some l \<Longrightarrow> l < entry"
    and "\<And>s l. s \<in> set win \<Longrightarrow> sig_take_profit s = Some l \<Longrightarrow> entry < l"
    using assms(1) levels_ordered_sides(1) by blast+
  with assms(2-4) show ?thesis
    by (auto simp: merge_levels_def Let_def set_level_values
        intro!: level_or_default_less level_or_default_greater)
qed

lemma merge_levels_sell:
  assumes "\<forall>s \<in> set win. levels_ordered entry s \<and> sig_side s = SELL"
    and "\<And>k. 0 \<le> dict_get_or weights k 1" and "0 < entry"
    and "merge_levels SELL win entry weights = (sl, tp)"
  shows "tp < entry \<and> entry < sl"
proof -
  have "\<And>s l. s \<in> set win \<Longrightarrow> sig_stop_loss s = Some l \<Longrightarrow> entry < l"
    and "\<And>s l. s \<in> set win \<Longrightarrow> sig_take_profit s = Some l \<Longrightarrow> l < entry"
    using assms(1) levels_ordered_sides(2) by blast+
  with assms(2-4) show ?thesis
    by (auto simp: merge_levels_def Let_def set_level_values
        intro!: level_or_default_less level_or_default_greater)
qed

lemma merged_levels_bracket:
  assumes "process E cfg sigs ctx snap m n = Inr (d, k)" and "dec_final_signal d = Some fs"
    and "engine_config_valid cfg" and "signals_ok sigs" and "distinct (map provider_id sigs)"
    and "\<forall>s \<in> set sigs. levels_ordered (current_price ctx) s" and "0 < current_price ctx"
  shows "fin_entry_price fs = current_price ctx
    \<and> (fin_side fs = BUY \<longrightarrow> fin_stop_loss fs < fin_entry_price fs \<and> fin_entry_price fs < fin_take_profit fs)
    \<and> (fin_side fs = SELL \<longrightarrow> fin_take_profit fs < fin_entry_price fs \<and> fin_entry_price fs < fin_stop_loss fs)
    \<and> (0 < vol_target_atr_pct (ec_risk cfg) \<and> 0 < atr_pct ctx \<longrightarrow>
        size_multiplier fs \<le> vol_target_cap (ec_risk cfg)
        \<and> size_multiplier fs * atr_pct ctx \<le> vol_target_atr_pct (ec_risk cfg))"
  using assms(1)
proof (cases rule: process_cases)
  case (approved a fs')
  have fs: "fs' = fs" using approved(7) assms(2) by simp
  from assms(3) have ac: "aggregation_config_valid (ec_aggregation cfg)"
    and cap: "0 \<le> vol_target_cap (ec_risk cfg)"
    by (simp_all add: engine_config_valid_def risk_config_valid_def)
  let ?win = "filter (\<lambda>s. provider_id s \<in> set (dict_keys (as_weights a))) sigs"
  obtain sl tp where ml: "merge_levels (as_side a) ?win (current_price ctx) (as_weights a) = (sl, tp)"
    by fastforce
  have fin: "fin_side fs = as_side a" "fin_entry_price fs = current_price ctx"
    "fin_stop_loss fs = sl" "fin_take_profit fs = tp"
    "size_multiplier fs = vol_multiplier (vol_target_atr_pct (ec_risk cfg)) (vol_target_cap (ec_risk cfg)) ctx"
    using approved(4) ml unfolding fs by (auto simp: build_final_signal_def Let_def mk_final_signal_Inr)
  have win: "\<forall>s \<in> set ?win. levels_ordered (current_price ctx) s \<and> sig_side s = as_side a"
    using winners_on_side [OF approved(2) ac assms(5)] assms(6) by simp
  note nonneg = as_weights_nonneg [OF approved(2) ac assms(4)]
  show ?thesis
    using merge_levels_buy [OF _ nonneg assms(7)] merge_levels_sell [OF _ nonneg assms(7)] win ml fin
      vol_multiplier_bounds [OF cap] by metis
qed (use assms(2) in simp_all)

text \<open>When every provider puts its own stop on the losing side of the price and its target
  on the winning side, so does the final signal of an approved decision: merging the
  levels by weight, with the one and two percent defaults for providers that give none,
  never moves the stop or the target across the entry price. The size multiplier never
  exceeds the configured cap and never lets size times volatility exceed its target.\<close>

theorem approved_levels_bracket_entry:
  assumes "process E cfg sigs ctx snap m n = Inr (d, k)" and "dec_final_signal d = Some fs"
    and "engine_config_valid cfg" and "signals_ok sigs" and "distinct (map provider_id sigs)"
    and "\<forall>s \<in> set sigs. levels_ordered (current_price ctx) s" and "0 < current_price ctx"
  shows "fin_entry_price fs = current_price ctx
    \<and> (fin_side fs = BUY \<longrightarrow> fin_stop_loss fs < fin_entry_price fs \<and> fin_entry_price fs < fin_take_profit fs)
    \<and> (fin_side fs = SELL \<longrightarrow> fin_take_profit fs < fin_entry_price fs \<and> fin_entry_price fs < fin_stop_loss fs)
    \<and> (0 < vol_target_atr_pct (ec_risk cfg) \<and> 0 < atr_pct ctx \<longrightarrow>
        size_multiplier fs \<le> vol_target_cap (ec_risk cfg)
        \<and> size_multiplier fs * atr_pct ctx \<le> vol_target_atr_pct (ec_risk cfg))"
  by (rule merged_levels_bracket [OF assms])

theorem approved_levels_bracket_entry_witness:
  "\<exists>d k fs. process unary_env demo_engine_config demo_signals demo_context demo_snapshot demo_meta 0
       = Inr (d, k) \<and> dec_final_signal d = Some fs \<and> fin_entry_price fs = 100"
proof -
  obtain d k fs where p: "process unary_env demo_engine_config demo_signals demo_context demo_snapshot demo_meta 0
       = Inr (d, k)" "dec_final_signal d = Some fs"
    using demo_approved by blast
  have dis: "distinct (map provider_id demo_signals)"
    and lev: "\<forall>s \<in> set demo_signals. levels_ordered (current_price demo_context) s"
    by (simp_all add: demo_engine_simps levels_ordered_def)
  from approved_levels_bracket_entry [OF p demo_config_valid demo_signals_ok dis lev] p
  show ?thesis by (auto simp: demo_context_def)
qed

end
