(* ===== verification/ExecutionModel.thy ===== *)
theory ExecutionModel
  imports Contracts
begin

text \<open>
  \<^verbatim>\<open>backend/src/execution/\<close>: pricing and sizing, the pre-trade risk gate, the exit rules,
  opening and closing a position, pending next-open entries, and the simulated engine's
  \<open>execute\<close>, \<open>evaluate_bar\<close> and \<open>liquidate_open_positions\<close>. The engine keeps the bars each
  position was held, the order that opened it, and the queue of pending entries; it never
  writes the state store, it only returns transitions.
\<close>


subsection \<open>Configuration and state of the engine\<close>

record exec_config =
  max_bars_in_trade :: int
  risk_pct_per_trade :: real
  long_only :: bool
  exposure_pct_per_trade :: real

definition exec_config_valid :: "exec_config \<Rightarrow> bool" where
  "exec_config_valid c \<longleftrightarrow> 1 \<le> max_bars_in_trade c
     \<and> 0 < risk_pct_per_trade c \<and> risk_pct_per_trade c \<le> 10
     \<and> 0 \<le> exposure_pct_per_trade c \<and> exposure_pct_per_trade c \<le> 100"

text \<open>What the constructor fixes once and for all.\<close>

record exec_setup =
  xs_fill_model :: fill_model
  xs_config :: exec_config
  xs_mode :: run_mode
  xs_emit_events :: bool

record pending_entry =
  pe_order :: order
  pe_intent :: order_intent
  pe_quantity :: real
  pe_side :: side
  pe_position_side :: position_side
  pe_symbol :: string
  pe_stop_loss :: real
  pe_take_profit :: real
  pe_decision_event_time :: datetime
  pe_portfolio_id :: string

record exec_state =
  position_bars :: "(string, int) dict"
  pending_entries :: "pending_entry list"
  position_orders :: "(string, string) dict"

definition init_exec_state :: exec_state where
  "init_exec_state = \<lparr>position_bars = [], pending_entries = [], position_orders = []\<rparr>"

record execution_result =
  er_events :: "event list"
  er_transitions :: "state_transition list"


subsection \<open>Pricing and sizing\<close>

definition fill_price :: "exec_setup \<Rightarrow> bar \<Rightarrow> side \<Rightarrow> bool \<Rightarrow> real" where
  "fill_price X b sd use_next_open =
     (let fm = xs_fill_model X;
          base = (if use_next_open \<or> fm_fill_at fm = At_next_open then bar_open b
                  else if fm_fill_at fm = At_mid then (bar_high b + bar_low b) / 2
                  else bar_close b);
          slip = fm_slippage_bps fm / 10000
      in if sd = BUY then base * (1 + slip) else base * (1 - slip))"

definition size_caps :: "state_snapshot \<Rightarrow> real \<Rightarrow> real" where
  "size_caps snap entry =
     (let pf = snap_portfolio snap; risk = snap_risk snap;
          max_cash_qty = (if cash pf > 0 then cash pf / entry else 0);
          remaining = max 0 (lim_max_exposure_pct (limits risk) - open_exposure_pct risk)
      in min max_cash_qty ((remaining / 100 * equity pf) / entry))"

definition position_size :: "exec_setup \<Rightarrow> state_snapshot \<Rightarrow> real \<Rightarrow> real \<Rightarrow> real \<Rightarrow> real" where
  "position_size X snap entry sl mult =
     (let pf = snap_portfolio snap; cfg = xs_config X; exposure = exposure_pct_per_trade cfg;
          risk_amount = equity pf * risk_pct_per_trade cfg / 100;
          risk_per_unit = \<bar>entry - sl\<bar>
      in if entry \<le> 0 then 0
         else if \<not> exposure > 0 \<and> risk_per_unit \<le> 0 then 0
         else
           (let base_qty = (if exposure > 0 then equity pf * exposure / 100 / entry
                            else risk_amount / risk_per_unit);
                quantity = min (base_qty * max mult 0) (size_caps snap entry)
            in if quantity > 0 then py_round 8 quantity else 0))"


subsection \<open>The pre-trade gate\<close>

record execution_risk_result =
  xr_passed :: bool
  xr_reason :: "string option"

definition gate_check :: "order_intent \<Rightarrow> state_snapshot \<Rightarrow> execution_risk_result result" where
  "gate_check oi snap =
     (let pf = snap_portfolio snap; risk = snap_risk snap; lim = limits risk
      in if int (length (open_positions pf)) \<ge> lim_max_open_positions lim
         then Inr \<lparr>xr_passed = False, xr_reason = Some ''max_open_positions''\<rparr>
         else
           (case oi_limit_price oi of
              None \<Rightarrow> Inr \<lparr>xr_passed = False, xr_reason = Some ''missing_entry_price''\<rparr>
            | Some price \<Rightarrow>
                (let cost = oi_quantity oi * price
                 in if equity pf = 0 then Inl ZeroDivisionError
                    else if (open_exposure_pct risk * equity pf / 100 + cost) / equity pf * 100
                              > lim_max_exposure_pct lim
                      then Inr \<lparr>xr_passed = False, xr_reason = Some ''max_exposure''\<rparr>
                    else if cost > cash pf
                      then Inr \<lparr>xr_passed = False, xr_reason = Some ''insufficient_cash''\<rparr>
                    else Inr \<lparr>xr_passed = True, xr_reason = None\<rparr>)))"


subsection \<open>Exits\<close>

definition check_exit ::
  "exec_setup \<Rightarrow> position_state \<Rightarrow> bar \<Rightarrow> int \<Rightarrow> side option \<Rightarrow> bool \<Rightarrow> exit_reason option \<times> real" where
  "check_exit X p b bars_held approved_side check_timeout =
     (let timed_out = (if check_timeout \<and> bars_held \<ge> max_bars_in_trade (xs_config X)
                       then (Some Exit_timeout, bar_close b) else (None, 0))
      in if approved_side \<noteq> None \<and> \<not> check_timeout then
           (if pos_side p = LONG \<and> approved_side = Some SELL then (Some Exit_signal, bar_close b)
            else if pos_side p = SHORT \<and> approved_side = Some BUY then (Some Exit_signal, bar_close b)
            else (None, 0))
         else
           (case pos_side p of
              LONG \<Rightarrow>
                (case pos_stop_loss p of
                   Some sl \<Rightarrow> if bar_low b \<le> sl then (Some Exit_stop_loss, sl)
                     else (case pos_take_profit p of
                       Some tp \<Rightarrow> if bar_high b \<ge> tp then (Some Exit_take_profit, tp) else timed_out
                     | None \<Rightarrow> timed_out)
                 | None \<Rightarrow> (case pos_take_profit p of
                       Some tp \<Rightarrow> if bar_high b \<ge> tp then (Some Exit_take_profit, tp) else timed_out
                     | None \<Rightarrow> timed_out))
            | SHORT \<Rightarrow>
                (case pos_stop_loss p of
                   Some sl \<Rightarrow> if bar_high b \<ge> sl then (Some Exit_stop_loss, sl)
                     else (case pos_take_profit p of
                       Some tp \<Rightarrow> if bar_low b \<le> tp then (Some Exit_take_profit, tp) else timed_out
                     | None \<Rightarrow> timed_out)
                 | None \<Rightarrow> (case pos_take_profit p of
                       Some tp \<Rightarrow> if bar_low b \<le> tp then (Some Exit_take_profit, tp) else timed_out
                     | None \<Rightarrow> timed_out))))"


subsection \<open>Events the engine lets through\<close>

definition score_outcome_types :: "event_type list" where
  "score_outcome_types = [OrderRejected, PositionOpened, PositionClosed]"

definition filter_events :: "exec_setup \<Rightarrow> event list \<Rightarrow> event list" where
  "filter_events X evs =
     (if xs_emit_events X then evs
      else filter (\<lambda>e. ev_type e \<in> set score_outcome_types) evs)"

text \<open>The arguments every call of one cycle passes on.\<close>

record exec_args =
  xa_symbol :: string
  xa_timeframe :: string
  xa_correlation_id :: string
  xa_event_time :: datetime
  xa_processing_time :: datetime

definition exec_meta :: "exec_setup \<Rightarrow> exec_args \<Rightarrow> envelope_meta" where
  "exec_meta X a = \<lparr>em_event_time = xa_event_time a, em_processing_time = xa_processing_time a,
     em_correlation_id = xa_correlation_id a, em_symbol = xa_symbol a, em_timeframe = xa_timeframe a,
     em_mode = xs_mode X, em_experiment_id = None, em_revision_id = None\<rparr>"

definition exec_event ::
  "env \<Rightarrow> exec_setup \<Rightarrow> exec_args \<Rightarrow> event_type \<Rightarrow> payload \<Rightarrow> string option \<Rightarrow> tick \<Rightarrow> event \<times> tick" where
  "exec_event E X a typ p causation n = build_envelope E (exec_meta X a) Fam_execution typ p causation n"

definition execution_failed ::
  "env \<Rightarrow> exec_setup \<Rightarrow> exec_args \<Rightarrow> string \<Rightarrow> string \<Rightarrow> tick \<Rightarrow> event \<times> tick" where
  "execution_failed E X a err stage n = exec_event E X a ExecutionFailed (P_failed err stage) None n"

lemma exec_event_simps [simp]:
  "snd (exec_event E X a typ p c n) = Suc n"
  "ev_type (fst (exec_event E X a typ p c n)) = typ"
  "event_id (fst (exec_event E X a typ p c n)) = fresh_id E ''evt_'' n"
  "ev_causation_id (fst (exec_event E X a typ p c n)) = c"
  "ev_payload (fst (exec_event E X a typ p c n)) = p"
  "ev_cycle_id (fst (exec_event E X a typ p c n)) = xa_correlation_id a"
  by (simp_all add: exec_event_def exec_meta_def)

text \<open>A filling event is emitted only when events are on; its identifier causes the next.\<close>

definition emit_if ::
  "bool \<Rightarrow> (tick \<Rightarrow> event \<times> tick) \<Rightarrow> string option \<Rightarrow> event list \<times> string option \<times> tick
     \<Rightarrow> event list \<times> string option \<times> tick" where
  "emit_if on mk otherwise = (\<lambda>(evs, cause, n).
     if on then (case mk n of (e, k) \<Rightarrow> (evs @ [e], Some (event_id e), k))
     else (evs, otherwise, n))"


subsection \<open>Opening and closing a position\<close>

record open_request =
  or_order :: order
  or_quantity :: real
  or_side :: side
  or_position_side :: position_side
  or_symbol :: string
  or_stop_loss :: real
  or_take_profit :: real

definition open_position ::
  "env \<Rightarrow> exec_setup \<Rightarrow> exec_args \<Rightarrow> open_request \<Rightarrow> bar \<Rightarrow> state_snapshot \<Rightarrow> string option \<Rightarrow> bool
   \<Rightarrow> exec_state \<times> tick \<Rightarrow> event list \<times> state_transition \<times> exec_state \<times> tick"
where
  "open_position E X a r b snap causation use_next_open = (\<lambda>(st, n).
     let price = fill_price X b (or_side r) use_next_open;
         fee = price * or_quantity r * fm_fee_bps (xs_fill_model X) / 10000;
         fl = \<lparr>fill_id = fresh_id E ''fill_'' n, fill_order_id = order_id (or_order r),
               fill_price_paid = price, fill_quantity = or_quantity r, fill_fee = fee,
               fill_slippage_bps = fm_slippage_bps (xs_fill_model X),
               fill_time = xa_event_time a, fill_is_partial = False\<rparr>;
         (evs, fill_event_id, k) = emit_if (xs_emit_events X)
            (exec_event E X a FillReceived (P_fill fl (model_id (xs_fill_model X)) False) causation)
            None ([], None, Suc n);
         pid = fresh_id E ''pos_'' k;
         position = \<lparr>position_id = pid, pos_symbol = or_symbol r, pos_side = or_position_side r,
               pos_quantity = or_quantity r, pos_entry_price = price, pos_entry_time = xa_event_time a,
               pos_stop_loss = Some (or_stop_loss r), pos_take_profit = Some (or_take_profit r),
               unrealized_pnl = 0, pos_status = Pos_open\<rparr>;
         st' = st\<lparr>position_bars := dict_set (position_bars st) pid 0,
                 position_orders := dict_set (position_orders st) pid (order_id (or_order r))\<rparr>;
         (open_event, k2) = exec_event E X a PositionOpened (P_opened pid (fill_id fl) position)
            fill_event_id (Suc k);
         tr = \<lparr>transition_id = fresh_id E ''trans_'' k2,
               tr_portfolio_id = pf_portfolio_id (snap_portfolio snap),
               tr_body = Position_opened position fl (price * or_quantity r + fee),
               tr_event_time = xa_event_time a, tr_correlation_id = xa_correlation_id a\<rparr>
     in (evs @ [open_event], tr, st', Suc k2))"

definition close_pnl :: "position_state \<Rightarrow> real \<Rightarrow> real \<Rightarrow> real" where
  "close_pnl p price fee =
     (if pos_side p = LONG then (price - pos_entry_price p) * pos_quantity p - fee
      else (pos_entry_price p - price) * pos_quantity p - fee)"

definition close_position ::
  "env \<Rightarrow> exec_setup \<Rightarrow> exec_args \<Rightarrow> position_state \<Rightarrow> real \<Rightarrow> exit_reason \<Rightarrow> state_snapshot
   \<Rightarrow> exec_state \<times> tick \<Rightarrow> event list \<times> state_transition \<times> exec_state \<times> tick"
where
  "close_position E X a p exit_price reason snap = (\<lambda>(st, n).
     let fee = exit_price * pos_quantity p * fm_fee_bps (xs_fill_model X) / 10000;
         oid = dict_get_or (position_orders st) (position_id p) (''ord_'' @ position_id p);
         fl = \<lparr>fill_id = fresh_id E ''fill_'' n, fill_order_id = oid,
               fill_price_paid = exit_price, fill_quantity = pos_quantity p, fill_fee = fee,
               fill_slippage_bps = fm_slippage_bps (xs_fill_model X),
               fill_time = xa_event_time a, fill_is_partial = False\<rparr>;
         pnl = close_pnl p exit_price fee;
         (evs, fill_event_id, k) = emit_if (xs_emit_events X)
            (exec_event E X a FillReceived (P_fill fl (model_id (xs_fill_model X)) True) None)
            None ([], None, Suc n);
         info = \<lparr>ci_position_id = position_id p, ci_exit_reason = reason, ci_exit_price = exit_price,
               ci_pnl = pnl, ci_fill_id = fill_id fl, ci_entry_price = pos_entry_price p,
               ci_side = pos_side p, ci_quantity = pos_quantity p, ci_stop_loss = pos_stop_loss p,
               ci_take_profit = pos_take_profit p,
               ci_bars_held = dict_get_or (position_bars st) (position_id p) 0\<rparr>;
         (close_event, k2) = exec_event E X a PositionClosed (P_closed info) fill_event_id k;
         tr = \<lparr>transition_id = fresh_id E ''trans_'' k2,
               tr_portfolio_id = pf_portfolio_id (snap_portfolio snap),
               tr_body = Position_closed (position_id p) fl pnl reason,
               tr_event_time = xa_event_time a, tr_correlation_id = xa_correlation_id a\<rparr>;
         st' = st\<lparr>position_bars := dict_pop (position_bars st) (position_id p),
                 position_orders := dict_pop (position_orders st) (position_id p)\<rparr>
     in (evs @ [close_event], tr, st', Suc k2))"


subsection \<open>Pending next-open entries\<close>

definition pending_request :: "pending_entry \<Rightarrow> open_request" where
  "pending_request pe = \<lparr>or_order = pe_order pe, or_quantity = pe_quantity pe, or_side = pe_side pe,
     or_position_side = pe_position_side pe, or_symbol = pe_symbol pe,
     or_stop_loss = pe_stop_loss pe, or_take_profit = pe_take_profit pe\<rparr>"

fun pending_loop ::
  "env \<Rightarrow> exec_setup \<Rightarrow> exec_args \<Rightarrow> bar \<Rightarrow> state_snapshot \<Rightarrow> pending_entry list \<Rightarrow> exec_state \<times> tick
   \<Rightarrow> event list \<times> state_transition list \<times> pending_entry list \<times> exec_state \<times> tick"
where
  "pending_loop E X a b snap [] (st, n) = ([], [], [], st, n)"
| "pending_loop E X a b snap (pe # pes) (st, n) =
     (if pe_symbol pe \<noteq> xa_symbol a then
        (case pending_loop E X a b snap pes (st, n) of
           (evs, trs, remaining, st', k) \<Rightarrow> (evs, trs, pe # remaining, st', k))
      else
        (case open_position E X a (pending_request pe) b snap None True (st, n) of
           (evs1, tr, st1, n1) \<Rightarrow>
             (case pending_loop E X a b snap pes (st1, n1) of
                (evs, trs, remaining, st', k) \<Rightarrow> (evs1 @ evs, tr # trs, remaining, st', k))))"

definition process_pending_entries ::
  "env \<Rightarrow> exec_setup \<Rightarrow> exec_args \<Rightarrow> bar \<Rightarrow> state_snapshot \<Rightarrow> exec_state \<times> tick
   \<Rightarrow> execution_result \<times> exec_state \<times> tick"
where
  "process_pending_entries E X a b snap w =
     (case pending_loop E X a b snap (pending_entries (fst w)) w of
        (evs, trs, remaining, st', k) \<Rightarrow>
          (\<lparr>er_events = filter_events X evs, er_transitions = trs\<rparr>,
           st'\<lparr>pending_entries := remaining\<rparr>, k))"


subsection \<open>Bar evaluation and liquidation\<close>

fun exit_loop ::
  "env \<Rightarrow> exec_setup \<Rightarrow> exec_args \<Rightarrow> bar \<Rightarrow> state_snapshot \<Rightarrow> side option \<Rightarrow> bool \<Rightarrow> position_state list
   \<Rightarrow> exec_state \<times> tick \<Rightarrow> event list \<times> state_transition list \<times> exec_state \<times> tick"
where
  "exit_loop E X a b snap side_opt inc [] (st, n) = ([], [], st, n)"
| "exit_loop E X a b snap side_opt inc (p # ps) (st, n) =
     (if pos_symbol p \<noteq> xa_symbol a then exit_loop E X a b snap side_opt inc ps (st, n)
      else
        (let held0 = dict_get_or (position_bars st) (position_id p) 0;
             held = (if inc then held0 + 1 else held0);
             st1 = (if inc then st\<lparr>position_bars := dict_set (position_bars st) (position_id p) held\<rparr> else st)
         in case check_exit X p b held side_opt inc of
              (None, _) \<Rightarrow> exit_loop E X a b snap side_opt inc ps (st1, n)
            | (Some reason, price) \<Rightarrow>
                (case close_position E X a p price reason snap (st1, n) of
                   (evs1, tr, st2, n2) \<Rightarrow>
                     (case exit_loop E X a b snap side_opt inc ps (st2, n2) of
                        (evs, trs, st', k) \<Rightarrow> (evs1 @ evs, tr # trs, st', k)))))"

definition evaluate_bar ::
  "env \<Rightarrow> exec_setup \<Rightarrow> exec_args \<Rightarrow> bar \<Rightarrow> state_snapshot \<Rightarrow> side option \<Rightarrow> bool \<Rightarrow> exec_state \<times> tick
   \<Rightarrow> execution_result \<times> exec_state \<times> tick"
where
  "evaluate_bar E X a b snap side_opt inc w =
     (let (pr, w1) = (if inc then (case process_pending_entries E X a b snap w of (r, st, n) \<Rightarrow> (r, st, n))
                      else (\<lparr>er_events = [], er_transitions = []\<rparr>, w))
      in case exit_loop E X a b snap side_opt inc (open_positions (snap_portfolio snap)) w1 of
           (evs, trs, st', k) \<Rightarrow>
             (\<lparr>er_events = filter_events X (er_events pr @ evs),
               er_transitions = er_transitions pr @ trs\<rparr>, st', k))"

fun liquidate_loop ::
  "env \<Rightarrow> exec_setup \<Rightarrow> exec_args \<Rightarrow> bar \<Rightarrow> state_snapshot \<Rightarrow> position_state list
   \<Rightarrow> exec_state \<times> tick \<Rightarrow> event list \<times> state_transition list \<times> exec_state \<times> tick"
where
  "liquidate_loop E X a b snap [] (st, n) = ([], [], st, n)"
| "liquidate_loop E X a b snap (p # ps) (st, n) =
     (if pos_symbol p \<noteq> xa_symbol a then liquidate_loop E X a b snap ps (st, n)
      else
        (case close_position E X a p (bar_close b) Exit_end_of_run snap (st, n) of
           (evs1, tr, st1, n1) \<Rightarrow>
             (case liquidate_loop E X a b snap ps (st1, n1) of
                (evs, trs, st', k) \<Rightarrow> (evs1 @ evs, tr # trs, st', k))))"

definition liquidate_open_positions ::
  "env \<Rightarrow> exec_setup \<Rightarrow> exec_args \<Rightarrow> bar \<Rightarrow> state_snapshot \<Rightarrow> exec_state \<times> tick
   \<Rightarrow> execution_result \<times> exec_state \<times> tick"
where
  "liquidate_open_positions E X a b snap w =
     (case liquidate_loop E X a b snap (open_positions (snap_portfolio snap)) w of
        (evs, trs, st', k) \<Rightarrow> (\<lparr>er_events = evs, er_transitions = trs\<rparr>, st', k))"


subsection \<open>execute\<close>

definition no_result :: execution_result where
  "no_result = \<lparr>er_events = [], er_transitions = []\<rparr>"

definition build_intent ::
  "env \<Rightarrow> exec_args \<Rightarrow> decision \<Rightarrow> final_signal \<Rightarrow> real \<Rightarrow> state_snapshot \<Rightarrow> tick \<Rightarrow> order_intent" where
  "build_intent E a d sg quantity snap n =
     \<lparr>intent_id = fresh_id E ''intent_'' n, oi_decision_id = decision_id d,
      oi_correlation_id = xa_correlation_id a, oi_symbol = xa_symbol a, oi_side = fin_side sg,
      oi_quantity = quantity, oi_order_type = MARKET, oi_limit_price = Some (fin_entry_price sg),
      oi_stop_loss = fin_stop_loss sg, oi_take_profit = fin_take_profit sg,
      oi_state_snapshot_id = snapshot_id snap, oi_experiment_id = dec_experiment_id d,
      oi_revision_id = dec_revision_id d\<rparr>"

definition submit_order ::
  "env \<Rightarrow> exec_setup \<Rightarrow> exec_args \<Rightarrow> decision \<Rightarrow> final_signal \<Rightarrow> real \<Rightarrow> order_intent \<Rightarrow> bar \<Rightarrow> state_snapshot
   \<Rightarrow> event list \<times> string option \<Rightarrow> exec_state \<times> tick \<Rightarrow> execution_result \<times> exec_state \<times> tick"
where
  "submit_order E X a d sg quantity oi b snap = (\<lambda>(evs0, cause0) (st, n).
     let ord = \<lparr>order_id = fresh_id E ''ord_'' n, ord_intent_id = intent_id oi,
                ord_status = Ord_submitted, ord_submitted_at = xa_processing_time a,
                ord_venue = Venue_simulator\<rparr>;
         (evs1, cause1, n1) = emit_if (xs_emit_events X)
            (exec_event E X a OrderSubmitted (P_submitted ord ''simulator'' (decision_id d)) cause0)
            cause0 (evs0, cause0, Suc n);
         (evs2, cause2, n2) = emit_if (xs_emit_events X)
            (exec_event E X a OrderAcknowledged (P_acknowledged (order_id ord) ''simulator'') cause1)
            cause1 (evs1, cause1, n1);
         pside = (if fin_side sg = BUY then LONG else SHORT)
     in if fm_fill_at (xs_fill_model X) = At_next_open then
          (\<lparr>er_events = filter_events X evs2, er_transitions = []\<rparr>,
           st\<lparr>pending_entries := pending_entries st @
              [\<lparr>pe_order = ord, pe_intent = oi, pe_quantity = quantity, pe_side = fin_side sg,
                pe_position_side = pside, pe_symbol = xa_symbol a, pe_stop_loss = fin_stop_loss sg,
                pe_take_profit = fin_take_profit sg, pe_decision_event_time = dec_event_time d,
                pe_portfolio_id = pf_portfolio_id (snap_portfolio snap)\<rparr>]\<rparr>, n2)
        else
          (case open_position E X a
              \<lparr>or_order = ord, or_quantity = quantity, or_side = fin_side sg, or_position_side = pside,
               or_symbol = xa_symbol a, or_stop_loss = fin_stop_loss sg, or_take_profit = fin_take_profit sg\<rparr>
              b snap cause2 False (st, n2) of
             (fill_evs, tr, st', k) \<Rightarrow>
               (\<lparr>er_events = filter_events X (evs2 @ fill_evs), er_transitions = [tr]\<rparr>, st', k)))"

text \<open>The event time of an execution is the decision's.\<close>

definition execute ::
  "env \<Rightarrow> exec_setup \<Rightarrow> exec_args \<Rightarrow> decision \<Rightarrow> state_snapshot \<Rightarrow> bar \<Rightarrow> exec_state \<times> tick
   \<Rightarrow> (execution_result \<times> exec_state \<times> tick) result"
where
  "execute E X a0 d snap b = (\<lambda>(st, n).
     let a = a0\<lparr>xa_event_time := dec_event_time d\<rparr>
     in case (if is_approved d then dec_final_signal d else None) of
          None \<Rightarrow> Inr (no_result, st, n)
        | Some sg \<Rightarrow>
            if long_only (xs_config X) \<and> fin_side sg = SELL then Inr (no_result, st, n)
            else
              (let quantity = position_size X snap (fin_entry_price sg) (fin_stop_loss sg) (size_multiplier sg)
               in if quantity \<le> 0 then
                    (case execution_failed E X a ''invalid_position_size'' ''sizing'' n of
                       (e, k) \<Rightarrow> Inr (\<lparr>er_events = filter_events X [e], er_transitions = []\<rparr>, st, k))
                  else
                    (let oi = build_intent E a d sg quantity snap n;
                         (evs, cause, n1) = emit_if (xs_emit_events X)
                            (exec_event E X a OrderIntentCreated (P_intent oi) None) None ([], None, Suc n)
                     in and_then (gate_check oi snap) (\<lambda>gate.
                          if \<not> xr_passed gate then
                            (case exec_event E X a OrderRejected (P_order_rejected (xr_reason gate) ''pre_trade'') cause n1 of
                               (e, k) \<Rightarrow> Inr (\<lparr>er_events = filter_events X (evs @ [e]), er_transitions = []\<rparr>, st, k))
                          else Inr (submit_order E X a d sg quantity oi b snap (evs, cause) (st, n1))))))"

end
