(* ===== verification/StateStore.thy ===== *)
theory StateStore
  imports Contracts
begin

text \<open>
  \<^verbatim>\<open>state/store.py\<close>: the in-memory state store. Its state is the portfolio, the risk
  state and the snapshots taken so far; \<open>apply_transition\<close> is the only operation that
  changes the first two. Every call returns the new store together with the number of
  environment readings used.
\<close>

record store =
  st_portfolio_id :: string
  st_limits :: risk_limits
  st_portfolio :: portfolio_state
  st_risk :: risk_state
  st_snapshots :: "(string, state_snapshot) dict"

definition default_limits :: risk_limits where
  "default_limits = \<lparr>lim_max_daily_drawdown_pct = 5, lim_max_open_positions = 3,
     lim_max_exposure_pct = 50, lim_max_consecutive_losses = 5\<rparr>"

definition init_store ::
  "env \<Rightarrow> string \<Rightarrow> run_mode \<Rightarrow> real \<Rightarrow> risk_limits option \<Rightarrow> tick \<Rightarrow> store \<times> tick" where
  "init_store E pid md initial_cash lims n =
     (let l = (case lims of None \<Rightarrow> default_limits | Some l \<Rightarrow> l);
          now = wall_clock E n
      in (\<lparr>st_portfolio_id = pid, st_limits = l,
           st_portfolio = \<lparr>pf_portfolio_id = pid, pf_mode = md, cash = initial_cash,
             equity = initial_cash, open_positions = [], realized_pnl = 0, pf_version = 1,
             pf_as_of_event_time = now, pf_as_of_processing_time = now\<rparr>,
           st_risk = \<lparr>risk_state_id = ''risk_'' @ pid, rs_portfolio_id = pid, daily_pnl = 0,
             daily_drawdown_pct = 0, daily_start_equity = initial_cash, open_exposure_pct = 0,
             consecutive_losses = 0, signals_today = 0, limits = l, breached_limits = [],
             rs_version = 1, rs_as_of_event_time = now\<rparr>,
           st_snapshots = []\<rparr>, Suc n))"

definition assert_portfolio :: "string \<Rightarrow> store \<Rightarrow> unit result" where
  "assert_portfolio pid s =
     (if pid \<noteq> st_portfolio_id s then Inl (KeyError (''Unknown portfolio_id: '' @ pid)) else Inr ())"

definition get_portfolio :: "string \<Rightarrow> store \<Rightarrow> portfolio_state result" where
  "get_portfolio pid s = and_then (assert_portfolio pid s) (\<lambda>_. Inr (st_portfolio s))"

definition get_risk :: "string \<Rightarrow> store \<Rightarrow> risk_state result" where
  "get_risk pid s = and_then (assert_portfolio pid s) (\<lambda>_. Inr (st_risk s))"

definition snapshot ::
  "env \<Rightarrow> string \<Rightarrow> string option \<Rightarrow> store \<times> tick \<Rightarrow> (state_snapshot \<times> store \<times> tick) result" where
  "snapshot E pid corr = (\<lambda>(s, n). and_then (assert_portfolio pid s) (\<lambda>_.
     let now = wall_clock E n;
         snap = \<lparr>snapshot_id = fresh_id E ''snap_'' (Suc n), snap_portfolio = st_portfolio s,
           snap_risk = st_risk s, snap_version = pf_version (st_portfolio s),
           snap_created_at = now, snap_correlation_id = corr\<rparr>
     in Inr (snap,
             s\<lparr>st_snapshots := dict_set (st_snapshots s) (snapshot_id snap) snap\<rparr>,
             Suc (Suc n))))"


subsection \<open>The five transitions\<close>

definition notional :: "position_state \<Rightarrow> real" where
  "notional p = pos_entry_price p * pos_quantity p"

definition drawdown_pct :: "real \<Rightarrow> real \<Rightarrow> real" where
  "drawdown_pct start new =
     (if start \<noteq> 0 then max 0 ((start - new) / start * 100) else 0)"

definition start_equity_or :: "risk_state \<Rightarrow> real \<Rightarrow> real" where
  "start_equity_or r new = (if daily_start_equity r \<noteq> 0 then daily_start_equity r else new)"

definition apply_position_opened :: "position_state \<Rightarrow> real \<Rightarrow> datetime \<Rightarrow> store \<Rightarrow> store" where
  "apply_position_opened p cost t s =
     (let pf = st_portfolio s; rs = st_risk s;
          exposure_add = (if equity pf \<noteq> 0 then notional p / equity pf * 100 else 0)
      in s\<lparr>st_portfolio := pf\<lparr>cash := cash pf - cost,
             open_positions := open_positions pf @ [p],
             pf_version := pf_version pf + 1,
             pf_as_of_event_time := t, pf_as_of_processing_time := t\<rparr>,
           st_risk := rs\<lparr>open_exposure_pct := open_exposure_pct rs + exposure_add,
             rs_version := rs_version rs + 1, rs_as_of_event_time := t\<rparr>\<rparr>)"

definition apply_position_closed :: "string \<Rightarrow> real \<Rightarrow> datetime \<Rightarrow> store \<Rightarrow> store" where
  "apply_position_closed pid pnl t s =
     (let pf = st_portfolio s; rs = st_risk s;
          remaining = filter (\<lambda>p. position_id p \<noteq> pid) (open_positions pf);
          closed = List.find (\<lambda>p. position_id p = pid) (open_positions pf);
          exposure_drop = (case closed of None \<Rightarrow> 0
            | Some c \<Rightarrow> (if equity pf \<noteq> 0 then notional c / equity pf * 100 else 0));
          new_cash = cash pf + pnl + (case closed of None \<Rightarrow> 0 | Some c \<Rightarrow> notional c);
          new_equity = equity pf + pnl;
          consecutive = (if pnl \<ge> 0 then 0 else consecutive_losses rs + 1);
          start_equity = start_equity_or rs new_equity;
          dd = drawdown_pct start_equity new_equity
      in s\<lparr>st_portfolio := pf\<lparr>cash := new_cash, equity := new_equity,
             realized_pnl := realized_pnl pf + pnl, open_positions := remaining,
             pf_version := pf_version pf + 1,
             pf_as_of_event_time := t, pf_as_of_processing_time := t\<rparr>,
           st_risk := rs\<lparr>daily_pnl := daily_pnl rs + pnl, daily_drawdown_pct := dd,
             open_exposure_pct := max 0 (open_exposure_pct rs - exposure_drop),
             consecutive_losses := consecutive,
             rs_version := rs_version rs + 1, rs_as_of_event_time := t\<rparr>\<rparr>)"

definition mark_pnl :: "real \<Rightarrow> position_state \<Rightarrow> real" where
  "mark_pnl price p =
     (case pos_side p of
        LONG \<Rightarrow> (price - pos_entry_price p) * pos_quantity p
      | SHORT \<Rightarrow> (pos_entry_price p - price) * pos_quantity p)"

text \<open>One round of the revaluation loop: the position kept and its market value.\<close>

definition revalue :: "(string \<rightharpoonup> real) \<Rightarrow> position_state \<Rightarrow> position_state \<times> real" where
  "revalue prices p =
     (case prices (pos_symbol p) of
        None \<Rightarrow> (p, notional p + unrealized_pnl p)
      | Some price \<Rightarrow>
          (p\<lparr>unrealized_pnl := mark_pnl price p\<rparr>, notional p + mark_pnl price p))"

definition apply_mark_to_market :: "(string \<rightharpoonup> real) \<Rightarrow> datetime \<Rightarrow> store \<Rightarrow> store" where
  "apply_mark_to_market prices t s =
     (let pf = st_portfolio s; rs = st_risk s;
          revalued = map (revalue prices) (open_positions pf);
          positions = (if open_positions pf = [] then [] else map fst revalued);
          new_equity = (if open_positions pf = [] then cash pf
                        else cash pf + sum_list (map snd revalued));
          start_equity = start_equity_or rs new_equity;
          dd = drawdown_pct start_equity new_equity
      in s\<lparr>st_portfolio := pf\<lparr>equity := new_equity, open_positions := positions,
             pf_version := pf_version pf + 1,
             pf_as_of_event_time := t, pf_as_of_processing_time := t\<rparr>,
           st_risk := rs\<lparr>daily_drawdown_pct := dd,
             rs_version := rs_version rs + 1, rs_as_of_event_time := t\<rparr>\<rparr>)"

fun set_portfolio_field :: "portfolio_update \<Rightarrow> portfolio_state \<Rightarrow> portfolio_state" where
  "set_portfolio_field (PU_portfolio_id x) pf = pf\<lparr>pf_portfolio_id := x\<rparr>"
| "set_portfolio_field (PU_mode x) pf = pf\<lparr>pf_mode := x\<rparr>"
| "set_portfolio_field (PU_cash x) pf = pf\<lparr>cash := x\<rparr>"
| "set_portfolio_field (PU_equity x) pf = pf\<lparr>equity := x\<rparr>"
| "set_portfolio_field (PU_open_positions x) pf = pf\<lparr>open_positions := x\<rparr>"
| "set_portfolio_field (PU_realized_pnl x) pf = pf\<lparr>realized_pnl := x\<rparr>"
| "set_portfolio_field (PU_version x) pf = pf\<lparr>pf_version := x\<rparr>"
| "set_portfolio_field (PU_as_of_event_time x) pf = pf\<lparr>pf_as_of_event_time := x\<rparr>"
| "set_portfolio_field (PU_as_of_processing_time x) pf = pf\<lparr>pf_as_of_processing_time := x\<rparr>"
| "set_portfolio_field (PU_other k) pf = pf"

fun set_risk_field :: "risk_update \<Rightarrow> risk_state \<Rightarrow> risk_state" where
  "set_risk_field (RU_risk_state_id x) rs = rs\<lparr>risk_state_id := x\<rparr>"
| "set_risk_field (RU_portfolio_id x) rs = rs\<lparr>rs_portfolio_id := x\<rparr>"
| "set_risk_field (RU_daily_pnl x) rs = rs\<lparr>daily_pnl := x\<rparr>"
| "set_risk_field (RU_daily_drawdown_pct x) rs = rs\<lparr>daily_drawdown_pct := x\<rparr>"
| "set_risk_field (RU_daily_start_equity x) rs = rs\<lparr>daily_start_equity := x\<rparr>"
| "set_risk_field (RU_open_exposure_pct x) rs = rs\<lparr>open_exposure_pct := x\<rparr>"
| "set_risk_field (RU_consecutive_losses x) rs = rs\<lparr>consecutive_losses := x\<rparr>"
| "set_risk_field (RU_signals_today x) rs = rs\<lparr>signals_today := x\<rparr>"
| "set_risk_field (RU_limits x) rs = rs\<lparr>limits := x\<rparr>"
| "set_risk_field (RU_breached_limits x) rs = rs\<lparr>breached_limits := x\<rparr>"
| "set_risk_field (RU_version x) rs = rs\<lparr>rs_version := x\<rparr>"
| "set_risk_field (RU_as_of_event_time x) rs = rs\<lparr>rs_as_of_event_time := x\<rparr>"
| "set_risk_field (RU_other k) rs = rs"

definition apply_portfolio_updated :: "portfolio_update list \<Rightarrow> datetime \<Rightarrow> store \<Rightarrow> store" where
  "apply_portfolio_updated ups t s =
     (let pf = st_portfolio s
      in s\<lparr>st_portfolio := (fold set_portfolio_field ups pf)
             \<lparr>pf_version := pf_version pf + 1, pf_as_of_event_time := t\<rparr>\<rparr>)"

definition apply_risk_updated :: "risk_update list \<Rightarrow> datetime \<Rightarrow> store \<Rightarrow> store" where
  "apply_risk_updated ups t s =
     (let rs = st_risk s
      in s\<lparr>st_risk := (fold set_risk_field ups rs)
             \<lparr>rs_version := rs_version rs + 1, rs_as_of_event_time := t\<rparr>\<rparr>)"

definition apply_body :: "transition_body \<Rightarrow> datetime \<Rightarrow> store \<Rightarrow> store" where
  "apply_body b t s =
     (case b of
        Position_opened p f cost \<Rightarrow> apply_position_opened p cost t s
      | Position_closed pid f pnl reason \<Rightarrow> apply_position_closed pid pnl t s
      | Portfolio_updated ups \<Rightarrow> apply_portfolio_updated ups t s
      | Risk_updated ups \<Rightarrow> apply_risk_updated ups t s
      | Mark_to_market prices \<Rightarrow> apply_mark_to_market prices t s)"

definition apply_transition ::
  "env \<Rightarrow> state_transition \<Rightarrow> store \<times> tick \<Rightarrow> (state_snapshot \<times> store \<times> tick) result" where
  "apply_transition E ev = (\<lambda>(s, n). and_then (assert_portfolio (tr_portfolio_id ev) s) (\<lambda>_.
     snapshot E (tr_portfolio_id ev) (Some (tr_correlation_id ev))
       (apply_body (tr_body ev) (tr_event_time ev) s, n)))"

text \<open>The callers' loop \<^verbatim>\<open>for transition in ...: apply_transition(transition)\<close>.\<close>

definition apply_one :: "env \<Rightarrow> state_transition \<Rightarrow> store \<times> tick \<Rightarrow> (store \<times> tick) result" where
  "apply_one E ev w = and_then (apply_transition E ev w) (\<lambda>(_, s, n). Inr (s, n))"

definition apply_transitions ::
  "env \<Rightarrow> state_transition list \<Rightarrow> store \<times> tick \<Rightarrow> (store \<times> tick) result" where
  "apply_transitions E trs = for_each (apply_one E) trs"


subsection \<open>Effect on single fields\<close>

abbreviation book :: "store \<Rightarrow> position_state list" where
  "book s \<equiv> open_positions (st_portfolio s)"

lemma opened_simps [simp, store_simps]:
  "cash (st_portfolio (apply_position_opened p c t s)) = cash (st_portfolio s) - c"
  "equity (st_portfolio (apply_position_opened p c t s)) = equity (st_portfolio s)"
  "realized_pnl (st_portfolio (apply_position_opened p c t s)) = realized_pnl (st_portfolio s)"
  "book (apply_position_opened p c t s) = book s @ [p]"
  "pf_version (st_portfolio (apply_position_opened p c t s)) = pf_version (st_portfolio s) + 1"
  "rs_version (st_risk (apply_position_opened p c t s)) = rs_version (st_risk s) + 1"
  "consecutive_losses (st_risk (apply_position_opened p c t s)) = consecutive_losses (st_risk s)"
  "daily_pnl (st_risk (apply_position_opened p c t s)) = daily_pnl (st_risk s)"
  "signals_today (st_risk (apply_position_opened p c t s)) = signals_today (st_risk s)"
  "daily_drawdown_pct (st_risk (apply_position_opened p c t s)) = daily_drawdown_pct (st_risk s)"
  "daily_start_equity (st_risk (apply_position_opened p c t s)) = daily_start_equity (st_risk s)"
  "limits (st_risk (apply_position_opened p c t s)) = limits (st_risk s)"
  "st_portfolio_id (apply_position_opened p c t s) = st_portfolio_id s"
  "st_snapshots (apply_position_opened p c t s) = st_snapshots s"
  by (simp_all add: apply_position_opened_def Let_def)

lemma closed_simps [simp, store_simps]:
  "equity (st_portfolio (apply_position_closed i x t s)) = equity (st_portfolio s) + x"
  "realized_pnl (st_portfolio (apply_position_closed i x t s)) = realized_pnl (st_portfolio s) + x"
  "book (apply_position_closed i x t s) = filter (\<lambda>p. position_id p \<noteq> i) (book s)"
  "pf_version (st_portfolio (apply_position_closed i x t s)) = pf_version (st_portfolio s) + 1"
  "rs_version (st_risk (apply_position_closed i x t s)) = rs_version (st_risk s) + 1"
  "consecutive_losses (st_risk (apply_position_closed i x t s)) =
     (if x \<ge> 0 then 0 else consecutive_losses (st_risk s) + 1)"
  "daily_pnl (st_risk (apply_position_closed i x t s)) = daily_pnl (st_risk s) + x"
  "signals_today (st_risk (apply_position_closed i x t s)) = signals_today (st_risk s)"
  "daily_start_equity (st_risk (apply_position_closed i x t s)) = daily_start_equity (st_risk s)"
  "limits (st_risk (apply_position_closed i x t s)) = limits (st_risk s)"
  "st_portfolio_id (apply_position_closed i x t s) = st_portfolio_id s"
  "st_snapshots (apply_position_closed i x t s) = st_snapshots s"
  by (simp_all add: apply_position_closed_def Let_def)

lemma cash_closed:
  "cash (st_portfolio (apply_position_closed i x t s)) =
     cash (st_portfolio s) + x
     + (case List.find (\<lambda>p. position_id p = i) (book s) of None \<Rightarrow> 0 | Some c \<Rightarrow> notional c)"
  by (simp add: apply_position_closed_def Let_def)

lemma marked_simps [simp, store_simps]:
  "cash (st_portfolio (apply_mark_to_market q t s)) = cash (st_portfolio s)"
  "realized_pnl (st_portfolio (apply_mark_to_market q t s)) = realized_pnl (st_portfolio s)"
  "book (apply_mark_to_market q t s) = map (fst \<circ> revalue q) (book s)"
  "equity (st_portfolio (apply_mark_to_market q t s)) =
     cash (st_portfolio s) + sum_list (map (snd \<circ> revalue q) (book s))"
  "pf_version (st_portfolio (apply_mark_to_market q t s)) = pf_version (st_portfolio s) + 1"
  "rs_version (st_risk (apply_mark_to_market q t s)) = rs_version (st_risk s) + 1"
  "consecutive_losses (st_risk (apply_mark_to_market q t s)) = consecutive_losses (st_risk s)"
  "daily_pnl (st_risk (apply_mark_to_market q t s)) = daily_pnl (st_risk s)"
  "signals_today (st_risk (apply_mark_to_market q t s)) = signals_today (st_risk s)"
  "open_exposure_pct (st_risk (apply_mark_to_market q t s)) = open_exposure_pct (st_risk s)"
  "daily_start_equity (st_risk (apply_mark_to_market q t s)) = daily_start_equity (st_risk s)"
  "limits (st_risk (apply_mark_to_market q t s)) = limits (st_risk s)"
  "st_portfolio_id (apply_mark_to_market q t s) = st_portfolio_id s"
  "st_snapshots (apply_mark_to_market q t s) = st_snapshots s"
  by (simp_all add: apply_mark_to_market_def Let_def)

lemma risk_updated_simps [simp, store_simps]:
  "st_portfolio (apply_risk_updated u t s) = st_portfolio s"
  "rs_version (st_risk (apply_risk_updated u t s)) = rs_version (st_risk s) + 1"
  "st_portfolio_id (apply_risk_updated u t s) = st_portfolio_id s"
  "st_snapshots (apply_risk_updated u t s) = st_snapshots s"
  by (simp_all add: apply_risk_updated_def Let_def)

lemma portfolio_updated_simps [simp, store_simps]:
  "st_risk (apply_portfolio_updated u t s) = st_risk s"
  "pf_version (st_portfolio (apply_portfolio_updated u t s)) = pf_version (st_portfolio s) + 1"
  "st_portfolio_id (apply_portfolio_updated u t s) = st_portfolio_id s"
  "st_snapshots (apply_portfolio_updated u t s) = st_snapshots s"
  by (simp_all add: apply_portfolio_updated_def Let_def)

lemma apply_body_simps [simp]:
  "apply_body (Position_opened p f c) t s = apply_position_opened p c t s"
  "apply_body (Position_closed i f x r) t s = apply_position_closed i x t s"
  "apply_body (Portfolio_updated pu) t s = apply_portfolio_updated pu t s"
  "apply_body (Risk_updated ru) t s = apply_risk_updated ru t s"
  "apply_body (Mark_to_market q) t s = apply_mark_to_market q t s"
  by (simp_all add: apply_body_def)

lemma apply_body_frame [simp]:
  "st_portfolio_id (apply_body b t s) = st_portfolio_id s"
  "st_snapshots (apply_body b t s) = st_snapshots s"
  by (cases b; simp)+

lemma revalue_frame [simp]:
  "position_id (fst (revalue q p)) = position_id p"
  "pos_symbol (fst (revalue q p)) = pos_symbol p"
  "pos_side (fst (revalue q p)) = pos_side p"
  "pos_quantity (fst (revalue q p)) = pos_quantity p"
  "pos_entry_price (fst (revalue q p)) = pos_entry_price p"
  "pos_stop_loss (fst (revalue q p)) = pos_stop_loss p"
  "pos_take_profit (fst (revalue q p)) = pos_take_profit p"
  "notional (fst (revalue q p)) = notional p"
  by (simp_all add: revalue_def notional_def split: option.splits)

lemma snd_revalue: "snd (revalue q p) = notional p + unrealized_pnl (fst (revalue q p))"
  by (simp add: revalue_def split: option.splits)


subsection \<open>Transitions, one and many\<close>

text \<open>A transition for another portfolio raises; any other one is applied and a snapshot
  of the new state is taken and stored.\<close>

lemma snapshot_eq:
  "snapshot E pid corr (s, n) =
     (if pid = st_portfolio_id s then
        (let snap = \<lparr>snapshot_id = fresh_id E ''snap_'' (Suc n), snap_portfolio = st_portfolio s,
                     snap_risk = st_risk s, snap_version = pf_version (st_portfolio s),
                     snap_created_at = wall_clock E n, snap_correlation_id = corr\<rparr>
         in Inr (snap, s\<lparr>st_snapshots := dict_set (st_snapshots s) (snapshot_id snap) snap\<rparr>,
                 Suc (Suc n)))
      else Inl (KeyError (''Unknown portfolio_id: '' @ pid)))"
  by (simp add: snapshot_def assert_portfolio_def Let_def)

lemma apply_transition_eq:
  "apply_transition E ev (s, n) =
     (if tr_portfolio_id ev = st_portfolio_id s then
        snapshot E (tr_portfolio_id ev) (Some (tr_correlation_id ev))
          (apply_body (tr_body ev) (tr_event_time ev) s, n)
      else Inl (KeyError (''Unknown portfolio_id: '' @ tr_portfolio_id ev)))"
  by (simp add: apply_transition_def assert_portfolio_def)

text \<open>Two stores agree when they differ at most in the snapshots taken.\<close>

definition same_view :: "store \<Rightarrow> store \<Rightarrow> bool" where
  "same_view a b \<longleftrightarrow> st_portfolio a = st_portfolio b \<and> st_risk a = st_risk b
     \<and> st_portfolio_id a = st_portfolio_id b"

lemma same_view_refl [simp]: "same_view s s"
  by (simp add: same_view_def)

lemma same_view_trans [trans]: "same_view a b \<Longrightarrow> same_view b c \<Longrightarrow> same_view a c"
  by (simp add: same_view_def)

lemma same_view_snapshots [simp]: "same_view (s\<lparr>st_snapshots := d\<rparr>) t = same_view s t"
  by (simp add: same_view_def)

lemma apply_body_cong: "same_view a b \<Longrightarrow> same_view (apply_body x t a) (apply_body x t b)"
  by (cases x) (simp_all add: same_view_def apply_position_opened_def apply_position_closed_def
      apply_mark_to_market_def apply_risk_updated_def apply_portfolio_updated_def Let_def)

definition run_bodies :: "state_transition list \<Rightarrow> store \<Rightarrow> store" where
  "run_bodies trs s = fold (\<lambda>tr. apply_body (tr_body tr) (tr_event_time tr)) trs s"

lemma run_bodies_simps [simp]:
  "run_bodies [] s = s"
  "run_bodies (tr # trs) s = run_bodies trs (apply_body (tr_body tr) (tr_event_time tr) s)"
  by (simp_all add: run_bodies_def)

lemma run_bodies_append: "run_bodies (xs @ ys) s = run_bodies ys (run_bodies xs s)"
  by (simp add: run_bodies_def)

lemma run_bodies_portfolio_id [simp]: "st_portfolio_id (run_bodies trs s) = st_portfolio_id s"
  by (induction trs arbitrary: s) simp_all

lemma run_bodies_cong: "same_view a b \<Longrightarrow> same_view (run_bodies trs a) (run_bodies trs b)"
  by (induction trs arbitrary: a b) (auto intro: apply_body_cong)

lemma apply_one_eq:
  "apply_one E ev (s, n) =
     (if tr_portfolio_id ev = st_portfolio_id s then
        (let s' = apply_body (tr_body ev) (tr_event_time ev) s;
             snap = \<lparr>snapshot_id = fresh_id E ''snap_'' (Suc n), snap_portfolio = st_portfolio s',
                     snap_risk = st_risk s', snap_version = pf_version (st_portfolio s'),
                     snap_created_at = wall_clock E n,
                     snap_correlation_id = Some (tr_correlation_id ev)\<rparr>
         in Inr (s'\<lparr>st_snapshots := dict_set (st_snapshots s') (snapshot_id snap) snap\<rparr>,
                 Suc (Suc n)))
      else Inl (KeyError (''Unknown portfolio_id: '' @ tr_portfolio_id ev)))"
  by (simp add: apply_one_def apply_transition_eq snapshot_eq Let_def)

lemma apply_transitions_total:
  assumes "\<forall>tr \<in> set trs. tr_portfolio_id tr = st_portfolio_id s"
  shows "\<exists>t. apply_transitions E trs (s, n) = Inr (t, n + 2 * length trs)
           \<and> same_view t (run_bodies trs s)"
  using assms
proof (induction trs arbitrary: s n)
  case (Cons tr trs)
  let ?b = "apply_body (tr_body tr) (tr_event_time tr) s"
  from Cons.prems obtain d where
    one: "apply_one E tr (s, n) = Inr (?b\<lparr>st_snapshots := d\<rparr>, n + 2)"
    by (simp add: apply_one_eq Let_def)
  from Cons.prems obtain t where
    t: "apply_transitions E trs (?b\<lparr>st_snapshots := d\<rparr>, n + 2) = Inr (t, n + 2 + 2 * length trs)"
      "same_view t (run_bodies trs (?b\<lparr>st_snapshots := d\<rparr>))"
    using Cons.IH [of "?b\<lparr>st_snapshots := d\<rparr>" "n + 2"] by auto
  have "same_view (run_bodies trs (?b\<lparr>st_snapshots := d\<rparr>)) (run_bodies trs ?b)"
    by (rule run_bodies_cong) simp
  with t one show ?case
    by (auto simp: apply_transitions_def intro: same_view_trans)
qed (simp add: apply_transitions_def)


subsection \<open>The book of open positions as an interface\<close>

text \<open>
  What the execution side relies on: how each transition changes the list of open
  positions. The lemmas about whole transition lists are proved from these laws alone.
\<close>

definition opens :: "state_transition \<Rightarrow> position_state list" where
  "opens tr = (case tr_body tr of Position_opened p f c \<Rightarrow> [p] | _ \<Rightarrow> [])"

definition closes :: "state_transition \<Rightarrow> string list" where
  "closes tr = (case tr_body tr of Position_closed i f x r \<Rightarrow> [i] | _ \<Rightarrow> [])"

definition keeps_book :: "state_transition \<Rightarrow> bool" where
  "keeps_book tr = (case tr_body tr of Portfolio_updated u \<Rightarrow> False | _ \<Rightarrow> True)"

locale position_book =
  fixes positions :: "'s \<Rightarrow> position_state list"
    and step :: "state_transition \<Rightarrow> 's \<Rightarrow> 's"
  assumes opened_law: "tr_body tr = Position_opened p f c \<Longrightarrow> positions (step tr s) = positions s @ [p]"
    and closed_law: "tr_body tr = Position_closed i f x r \<Longrightarrow>
          positions (step tr s) = filter (\<lambda>p. position_id p \<noteq> i) (positions s)"
    and risk_law: "tr_body tr = Risk_updated u \<Longrightarrow> positions (step tr s) = positions s"
    and marked_law: "tr_body tr = Mark_to_market q \<Longrightarrow>
          map position_id (positions (step tr s)) = map position_id (positions s)"
begin

lemma length_step:
  assumes "keeps_book tr"
  shows "length (positions (step tr s)) \<le> length (positions s) + length (opens tr)"
proof (cases "tr_body tr")
  case (Mark_to_market q)
  from marked_law [OF this, of s] have "length (positions (step tr s)) = length (positions s)"
    by (metis length_map)
  then show ?thesis by simp
qed (use assms in \<open>simp_all add: opened_law closed_law risk_law opens_def keeps_book_def\<close>)

lemma length_steps:
  assumes "\<forall>tr \<in> set trs. keeps_book tr"
  shows "length (positions (fold step trs s)) \<le> length (positions s) + length (concat (map opens trs))"
  using assms
proof (induction trs arbitrary: s)
  case (Cons tr trs)
  then have "length (positions (fold step trs (step tr s)))
      \<le> length (positions (step tr s)) + length (concat (map opens trs))" by simp
  also have "\<dots> \<le> length (positions s) + length (opens tr) + length (concat (map opens trs))"
    using Cons.prems length_step [of tr s] by simp
  finally show ?case by simp
qed simp

lemma ids_step:
  assumes "keeps_book tr"
  shows "map position_id (positions (step tr s)) =
     filter (\<lambda>i. i \<notin> set (closes tr)) (map position_id (positions s)) @ map position_id (opens tr)"
  using assms
  by (cases "tr_body tr")
    (simp_all add: opened_law closed_law risk_law marked_law opens_def closes_def keeps_book_def
      filter_map comp_def)

text \<open>Identifiers stay distinct as long as every opened one is new.\<close>

lemma ids_distinct_step:
  assumes "keeps_book tr" and "distinct (map position_id (positions s))"
    and "\<forall>p \<in> set (opens tr). position_id p \<notin> position_id ` set (positions s)"
  shows "distinct (map position_id (positions (step tr s)))"
  using assms
  by (cases "tr_body tr")
    (auto simp: opened_law closed_law risk_law marked_law opens_def keeps_book_def distinct_map
      inj_on_def)

text \<open>A list of openings appends, a list of closes removes exactly the named positions.\<close>

lemma opens_only:
  assumes "\<forall>tr \<in> set trs. \<exists>p f c. tr_body tr = Position_opened p f c"
  shows "positions (fold step trs s) = positions s @ concat (map opens trs)"
  using assms
proof (induction trs arbitrary: s)
  case (Cons tr trs)
  from Cons.prems obtain p f c where b: "tr_body tr = Position_opened p f c" by auto
  from Cons show ?case by (simp add: opened_law [OF b] opens_def b)
qed simp

lemma closes_only:
  assumes "\<forall>tr \<in> set trs. \<exists>i f x r. tr_body tr = Position_closed i f x r"
  shows "positions (fold step trs s) =
     filter (\<lambda>p. position_id p \<notin> set (concat (map closes trs))) (positions s)"
  using assms
proof (induction trs arbitrary: s)
  case (Cons tr trs)
  from Cons.prems obtain i f x r where b: "tr_body tr = Position_closed i f x r" by auto
  from Cons show ?case
    by (simp add: closed_law [OF b] closes_def b conj_commute)
qed simp

end

definition step_of :: "state_transition \<Rightarrow> store \<Rightarrow> store" where
  "step_of tr s = apply_body (tr_body tr) (tr_event_time tr) s"

interpretation store_book: position_book book step_of
  by unfold_locales (simp_all add: step_of_def)

lemma run_bodies_fold: "run_bodies trs s = fold step_of trs s"
  unfolding run_bodies_def by (rule fold_cong) (simp_all add: step_of_def fun_eq_iff)


subsection \<open>Totality and versions\<close>

definition bumps_portfolio :: "transition_body \<Rightarrow> int" where
  "bumps_portfolio b = (case b of Risk_updated u \<Rightarrow> 0 | _ \<Rightarrow> 1)"

definition bumps_risk :: "transition_body \<Rightarrow> int" where
  "bumps_risk b = (case b of Portfolio_updated u \<Rightarrow> 0 | _ \<Rightarrow> 1)"

lemma apply_body_versions:
  "pf_version (st_portfolio (apply_body b t s)) = pf_version (st_portfolio s) + bumps_portfolio b"
  "rs_version (st_risk (apply_body b t s)) = rs_version (st_risk s) + bumps_risk b"
  by (cases b; simp add: bumps_portfolio_def bumps_risk_def)+

text \<open>A list of transitions addressed to the store's portfolio is always applied in full,
  uses two environment readings per transition, and advances the portfolio and the risk
  version by exactly the number of transitions that touch each of them, whatever values the
  payloads carry for a version field.\<close>

theorem transitions_advance_versions:
  assumes "\<forall>tr \<in> set trs. tr_portfolio_id tr = st_portfolio_id s"
  shows "\<exists>t. apply_transitions E trs (s, n) = Inr (t, n + 2 * length trs)
     \<and> pf_version (st_portfolio t) =
         pf_version (st_portfolio s) + sum_list (map (bumps_portfolio \<circ> tr_body) trs)
     \<and> rs_version (st_risk t) = rs_version (st_risk s) + sum_list (map (bumps_risk \<circ> tr_body) trs)"
proof -
  have "pf_version (st_portfolio (run_bodies trs s)) =
          pf_version (st_portfolio s) + sum_list (map (bumps_portfolio \<circ> tr_body) trs)
      \<and> rs_version (st_risk (run_bodies trs s)) =
          rs_version (st_risk s) + sum_list (map (bumps_risk \<circ> tr_body) trs)"
    by (induction trs arbitrary: s) (simp_all add: apply_body_versions)
  with apply_transitions_total [OF assms, of E n] show ?thesis
    by (auto simp: same_view_def)
qed

definition demo_transition :: "transition_body \<Rightarrow> state_transition" where
  "demo_transition b = \<lparr>transition_id = ''t'', tr_portfolio_id = ''p'', tr_body = b,
     tr_event_time = 0, tr_correlation_id = ''c''\<rparr>"

definition demo_store :: store where
  "demo_store = fst (init_store unary_env ''p'' Validation_mode 10000 None 0)"

theorem transitions_advance_versions_witness:
  "\<exists>t. apply_transitions unary_env
         (map demo_transition [Risk_updated [RU_version 77], Mark_to_market Map.empty])
         (demo_store, 0) = Inr (t, 4)
     \<and> pf_version (st_portfolio t) = 2 \<and> rs_version (st_risk t) = 3"
  using transitions_advance_versions [where E = unary_env and n = 0 and s = demo_store
      and trs = "map demo_transition [Risk_updated [RU_version 77], Mark_to_market Map.empty]"]
  by (simp add: demo_transition_def demo_store_def init_store_def Let_def
      bumps_portfolio_def bumps_risk_def)


subsection \<open>Snapshots are immutable\<close>

text \<open>Every stored snapshot has an identifier drawn before now.\<close>

definition snapshots_dated :: "env \<Rightarrow> store \<Rightarrow> tick \<Rightarrow> bool" where
  "snapshots_dated E s n \<longleftrightarrow>
     (\<forall>k \<in> set (dict_keys (st_snapshots s)). \<exists>m < n. k = fresh_id E ''snap_'' m)"

lemma snapshots_dated_mono: "snapshots_dated E s m \<Longrightarrow> m \<le> n \<Longrightarrow> snapshots_dated E s n"
  unfolding snapshots_dated_def by (meson order_less_le_trans)

lemma snapshots_dated_insert:
  assumes "snapshots_dated E s n"
    and "st_snapshots t = dict_set (st_snapshots s) (fresh_id E ''snap_'' (Suc n)) v"
  shows "snapshots_dated E t (Suc (Suc n))"
proof -
  from assms(1) have "snapshots_dated E s (Suc (Suc n))"
    by (rule snapshots_dated_mono) simp
  with assms(2) show ?thesis by (auto simp: snapshots_dated_def)
qed

lemma apply_one_keeps_snapshots:
  assumes "env_distinct E" and "snapshots_dated E s n" and "apply_one E tr (s, n) = Inr (t, m)"
  shows "snapshots_dated E t m \<and> n \<le> m
    \<and> (\<forall>k v. dict_get (st_snapshots s) k = Some v \<longrightarrow> dict_get (st_snapshots t) k = Some v)"
proof -
  let ?new = "fresh_id E ''snap_'' (Suc n)"
  from assms(3) obtain v where
    t: "st_snapshots t = dict_set (st_snapshots s) ?new v" and m: "m = Suc (Suc n)"
    by (auto simp: apply_one_eq Let_def split: if_splits)
  have "?new \<notin> set (dict_keys (st_snapshots s))"
    using assms(1,2) by (auto simp: snapshots_dated_def)
  then have new: "dict_get (st_snapshots s) ?new = None"
    by (simp add: dict_keys_def map_of_eq_None_iff)
  have "snapshots_dated E t m"
    unfolding m by (rule snapshots_dated_insert [OF assms(2) t])
  moreover have "dict_get (st_snapshots t) k = Some v" if "dict_get (st_snapshots s) k = Some v" for k v
    using that new by (auto simp: t)
  ultimately show ?thesis using m by auto
qed

lemma apply_transitions_keep_snapshots:
  assumes "env_distinct E" and "snapshots_dated E s n"
    and "apply_transitions E trs (s, n) = Inr (t, m)"
  shows "snapshots_dated E t m \<and> n \<le> m
    \<and> (\<forall>k v. dict_get (st_snapshots s) k = Some v \<longrightarrow> dict_get (st_snapshots t) k = Some v)"
  using assms(2,3)
proof (induction trs arbitrary: s n)
  case (Cons tr trs)
  from Cons.prems(2) obtain u k where
    one: "apply_one E tr (s, n) = Inr (u, k)" and
    rest: "apply_transitions E trs (u, k) = Inr (t, m)"
    by (auto simp: apply_transitions_def)
  from apply_one_keeps_snapshots [OF assms(1) Cons.prems(1) one] Cons.IH [OF _ rest]
  show ?case by (meson order_trans)
qed (simp add: apply_transitions_def)

lemma init_snapshots_dated: "snapshots_dated E (fst (init_store E pid md c l n)) m"
  by (simp add: snapshots_dated_def init_store_def Let_def dict_keys_def)

text \<open>A snapshot, once taken, is never changed or lost: after any further transitions the
  store still answers the same identifier with the same portfolio and risk state, given
  that the drawn identifiers do not repeat.\<close>

theorem snapshots_never_change:
  assumes "env_distinct E" and "snapshots_dated E s n"
    and "snapshot E pid corr (s, n) = Inr (snap, s1, n1)"
    and "apply_transitions E trs (s1, n1) = Inr (s2, n2)"
  shows "dict_get (st_snapshots s2) (snapshot_id snap) = Some snap
    \<and> snap_portfolio snap = st_portfolio s \<and> snap_risk snap = st_risk s"
proof -
  from assms(3) have
    s1: "st_snapshots s1 = dict_set (st_snapshots s) (snapshot_id snap) snap"
      "snapshot_id snap = fresh_id E ''snap_'' (Suc n)" "n1 = Suc (Suc n)"
      "snap_portfolio snap = st_portfolio s" "snap_risk snap = st_risk s"
    by (auto simp: snapshot_eq Let_def split: if_splits)
  have "snapshots_dated E s1 n1"
    using snapshots_dated_insert [OF assms(2)] s1 by simp
  with apply_transitions_keep_snapshots [OF assms(1) _ assms(4)] s1 show ?thesis by simp
qed

theorem snapshots_never_change_witness:
  "\<exists>snap s1 n1 s2 n2. snapshot unary_env ''p'' None (demo_store, 0) = Inr (snap, s1, n1)
     \<and> apply_transitions unary_env [demo_transition (Risk_updated [RU_signals_today 4])] (s1, n1)
         = Inr (s2, n2)
     \<and> dict_get (st_snapshots s2) (snapshot_id snap) = Some snap
     \<and> signals_today (snap_risk snap) = 0 \<and> signals_today (st_risk s2) = 4"
proof -
  have pid: "st_portfolio_id demo_store = ''p''" and sig: "signals_today (st_risk demo_store) = 0"
    by (simp_all add: demo_store_def init_store_def Let_def)
  obtain snap s1 n1 where a: "snapshot unary_env ''p'' None (demo_store, 0) = Inr (snap, s1, n1)"
    and s1: "st_portfolio_id s1 = ''p''" "st_risk s1 = st_risk demo_store"
    by (simp add: snapshot_eq pid Let_def)
  obtain s2 n2 where
    b: "apply_transitions unary_env [demo_transition (Risk_updated [RU_signals_today 4])] (s1, n1)
          = Inr (s2, n2)" and s2: "signals_today (st_risk s2) = 4"
    by (simp add: apply_transitions_def apply_one_eq demo_transition_def s1 Let_def
        apply_risk_updated_def)
  have "snapshots_dated unary_env demo_store 0"
    unfolding demo_store_def by (rule init_snapshots_dated)
  from snapshots_never_change [OF unary_env_distinct this a b] a b s2 sig show ?thesis by auto
qed

end
