(* ===== verification/Execution.thy ===== *)
theory Execution
  imports ExecutionModel StateStore
begin

text \<open>
  Correctness of the simulated execution engine: bounds of the sizing, what the gate lets
  through, the order of the exit rules, and what \<open>evaluate_bar\<close> and \<open>execute\<close> return and
  leave in the engine's own bookkeeping.
\<close>


subsection \<open>Sizing\<close>

lemma position_size_nonneg: "0 \<le> position_size X snap entry sl mult"
  by (auto simp: position_size_def Let_def intro: py_round_nonneg)

lemma guarded_size:
  "0 < (if a then 0 else if b then 0 else if 0 < q then py_round d q else 0) \<Longrightarrow>
   0 < q \<and> \<not> a \<and> (if a then 0 else if b then 0 else if 0 < q then py_round d q else 0) = py_round d q"
  by (simp split: if_splits)

lemma position_size_E:
  assumes "0 < position_size X snap entry sl mult"
  obtains q where "0 < q" and "q \<le> size_caps snap entry" and "0 < entry"
    and "position_size X snap entry sl mult = py_round 8 q"
proof -
  note g = guarded_size [OF assms [unfolded position_size_def Let_def]]
  show thesis
    by (rule that [OF g [THEN conjunct1] min.cobounded2 g [THEN conjunct2, THEN conjunct1, unfolded not_le]])
      (unfold position_size_def Let_def, rule g [THEN conjunct2, THEN conjunct2])
qed

lemma position_size_pos:
  assumes "0 < position_size X snap entry sl mult"
  shows "0 < entry \<and> 0 < cash (snap_portfolio snap) \<and> 0 < equity (snap_portfolio snap)
    \<and> open_exposure_pct (snap_risk snap) < lim_max_exposure_pct (limits (snap_risk snap))"
proof -
  from assms obtain q where "0 < q" "q \<le> size_caps snap entry" and e: "0 < entry"
    by (rule position_size_E)
  then have c: "0 < size_caps snap entry" by linarith
  from e c show ?thesis
    by (auto simp: size_caps_def Let_def zero_less_divide_iff zero_less_mult_iff max_def
        split: if_splits)
qed

lemma position_size_le:
  assumes "0 < position_size X snap entry sl mult"
  shows "position_size X snap entry sl mult \<le> size_caps snap entry + 1 / (2 * 10 ^ 8)"
proof -
  from assms obtain q where q: "position_size X snap entry sl mult = py_round 8 q" "q \<le> size_caps snap entry"
    by (rule position_size_E)
  have "py_round 8 q - q \<le> 1 / (2 * 10 ^ 8)"
    by (rule order_trans [OF abs_ge_self py_round_error])
  with q show ?thesis by linarith
qed

text \<open>A position size is never negative, and a positive one is bounded by what the account
  can carry, up to the rounding to eight decimals: entering at the given price costs no
  more than the cash plus half a rounding step, and takes the open exposure at most half a
  rounding step above the exposure limit. It is positive only with positive cash, equity
  and price and with exposure left.\<close>

theorem position_size_bounds:
  assumes "q = position_size X snap entry sl mult"
  shows "0 \<le> q \<and> (0 < q \<longrightarrow>
      0 < entry \<and> 0 < cash (snap_portfolio snap) \<and> 0 < equity (snap_portfolio snap)
      \<and> q * entry \<le> cash (snap_portfolio snap) + entry / (2 * 10 ^ 8)
      \<and> open_exposure_pct (snap_risk snap) + q * entry / equity (snap_portfolio snap) * 100
          \<le> lim_max_exposure_pct (limits (snap_risk snap))
            + 100 * entry / equity (snap_portfolio snap) / (2 * 10 ^ 8))"
proof (intro conjI impI)
  show "0 \<le> q" unfolding assms by (rule position_size_nonneg)
next
  assume "0 < q"
  note pos = position_size_pos [OF this [unfolded assms]]
  then show e: "0 < entry" and c: "0 < cash (snap_portfolio snap)" and "0 < equity (snap_portfolio snap)"
    by simp_all
  from pos have eq: "0 < equity (snap_portfolio snap)" by simp
  let ?r = "lim_max_exposure_pct (limits (snap_risk snap)) - open_exposure_pct (snap_risk snap)"
  have caps: "size_caps snap entry \<le> cash (snap_portfolio snap) / entry"
    "size_caps snap entry \<le> (?r / 100 * equity (snap_portfolio snap)) / entry"
    using pos by (auto simp: size_caps_def Let_def max_def)
  have q: "q \<le> size_caps snap entry + 1 / (2 * 10 ^ 8)"
    using position_size_le [OF \<open>0 < q\<close> [unfolded assms]] assms by simp
  have "q * entry \<le> (cash (snap_portfolio snap) / entry + 1 / (2 * 10 ^ 8)) * entry"
    using q caps(1) e by (intro mult_right_mono) auto
  then show "q * entry \<le> cash (snap_portfolio snap) + entry / (2 * 10 ^ 8)"
    using e by (simp add: distrib_right)
  have "q * entry \<le> ((?r / 100 * equity (snap_portfolio snap)) / entry + 1 / (2 * 10 ^ 8)) * entry"
    using q caps(2) e by (intro mult_right_mono) auto
  then have "q * entry \<le> ?r / 100 * equity (snap_portfolio snap) + entry / (2 * 10 ^ 8)"
    using e by (simp add: distrib_right)
  then have "q * entry / equity (snap_portfolio snap) * 100 \<le>
      (?r / 100 * equity (snap_portfolio snap) + entry / (2 * 10 ^ 8)) / equity (snap_portfolio snap) * 100"
    using eq by (intro mult_right_mono divide_right_mono) auto
  also have "\<dots> = ?r + 100 * entry / equity (snap_portfolio snap) / (2 * 10 ^ 8)"
    using eq by (simp add: add_divide_distrib)
  finally show "open_exposure_pct (snap_risk snap) + q * entry / equity (snap_portfolio snap) * 100
      \<le> lim_max_exposure_pct (limits (snap_risk snap))
        + 100 * entry / equity (snap_portfolio snap) / (2 * 10 ^ 8)" by simp
qed


definition demo_setup :: "fill_at \<Rightarrow> exec_setup" where
  "demo_setup fa = \<lparr>xs_fill_model = \<lparr>model_id = ''m'', fm_slippage_bps = 0, fm_fee_bps = 0, fm_fill_at = fa\<rparr>,
     xs_config = \<lparr>max_bars_in_trade = 48, risk_pct_per_trade = 1, long_only = False,
       exposure_pct_per_trade = 0\<rparr>,
     xs_mode = Paper_mode, xs_emit_events = True\<rparr>"

definition snapshot_of :: "store \<Rightarrow> state_snapshot" where
  "snapshot_of s = \<lparr>snapshot_id = ''s'', snap_portfolio = st_portfolio s, snap_risk = st_risk s,
     snap_version = 1, snap_created_at = 0, snap_correlation_id = None\<rparr>"

lemma demo_size: "position_size (demo_setup At_close) (snapshot_of demo_store) 100 90 1 = 10"
  by (simp add: position_size_def demo_setup_def snapshot_of_def demo_store_def init_store_def Let_def
      size_caps_def default_limits_def py_round_def round_half_even_def)

theorem position_size_bounds_witness:
  "0 < position_size (demo_setup At_close) (snapshot_of demo_store) 100 90 1
   \<and> position_size (demo_setup At_close) (snapshot_of demo_store) 100 90 1 * 100
      \<le> cash (snap_portfolio (snapshot_of demo_store)) + 100 / (2 * 10 ^ 8)"
  using position_size_bounds [OF refl, of "demo_setup At_close" "snapshot_of demo_store" 100 90 1]
  by (simp add: demo_size)


subsection \<open>The gate\<close>

lemma gate_check_passed:
  assumes "gate_check oi snap = Inr g" and "xr_passed g"
  shows "int (length (open_positions (snap_portfolio snap))) < lim_max_open_positions (limits (snap_risk snap))
    \<and> (\<exists>price. oi_limit_price oi = Some price
         \<and> oi_quantity oi * price \<le> cash (snap_portfolio snap)
         \<and> open_exposure_pct (snap_risk snap) + oi_quantity oi * price / equity (snap_portfolio snap) * 100
             \<le> lim_max_exposure_pct (limits (snap_risk snap)))"
  using assms
  by (auto simp: gate_check_def Let_def add_divide_distrib not_less split: if_splits option.splits)

lemma gate_check_total: "equity (snap_portfolio snap) \<noteq> 0 \<Longrightarrow> \<exists>g. gate_check oi snap = Inr g"
  by (auto simp: gate_check_def Let_def split: option.splits)


subsection \<open>Exits\<close>

text \<open>The stop is hit, the target is hit, on this bar.\<close>

definition stop_hit :: "position_state \<Rightarrow> bar \<Rightarrow> bool" where
  "stop_hit p b = (case pos_stop_loss p of None \<Rightarrow> False
     | Some sl \<Rightarrow> (if pos_side p = LONG then bar_low b \<le> sl else sl \<le> bar_high b))"

definition target_hit :: "position_state \<Rightarrow> bar \<Rightarrow> bool" where
  "target_hit p b = (case pos_take_profit p of None \<Rightarrow> False
     | Some tp \<Rightarrow> (if pos_side p = LONG then tp \<le> bar_high b else bar_low b \<le> tp))"

lemma check_exit_bar:
  "check_exit X p b held so True =
     (if stop_hit p b then (Some Exit_stop_loss, the (pos_stop_loss p))
      else if target_hit p b then (Some Exit_take_profit, the (pos_take_profit p))
      else if held \<ge> max_bars_in_trade (xs_config X) then (Some Exit_timeout, bar_close b)
      else (None, 0))"
  by (cases "pos_side p") (auto simp: check_exit_def stop_hit_def target_hit_def Let_def split: option.splits)

lemma check_exit_signal:
  "check_exit X p b held (Some sd) False =
     (if (pos_side p = LONG \<and> sd = SELL) \<or> (pos_side p = SHORT \<and> sd = BUY)
      then (Some Exit_signal, bar_close b) else (None, 0))"
  by (simp add: check_exit_def Let_def)

text \<open>On the pre-decision evaluation of a bar the stop has priority over the target, the
  target over the timeout: a position leaves at its stop exactly when the bar reaches the
  stop, at its target exactly when the bar reaches the target and not the stop, at the
  close once it was held for the configured number of bars and neither level was reached,
  and it stays otherwise.\<close>

theorem exit_priority:
  "fst (check_exit X p b held so True) =
     (if stop_hit p b then Some Exit_stop_loss
      else if target_hit p b then Some Exit_take_profit
      else if held \<ge> max_bars_in_trade (xs_config X) then Some Exit_timeout else None)
   \<and> (stop_hit p b \<longrightarrow> pos_stop_loss p = Some (snd (check_exit X p b held so True)))
   \<and> (\<not> stop_hit p b \<and> target_hit p b \<longrightarrow> pos_take_profit p = Some (snd (check_exit X p b held so True)))
   \<and> (\<not> stop_hit p b \<and> \<not> target_hit p b \<and> held \<ge> max_bars_in_trade (xs_config X) \<longrightarrow>
        snd (check_exit X p b held so True) = bar_close b)"
  by (auto simp: check_exit_bar stop_hit_def target_hit_def split: option.splits)

definition demo_args :: exec_args where
  "demo_args = \<lparr>xa_symbol = ''BTC'', xa_timeframe = ''1h'', xa_correlation_id = ''c'', xa_event_time = 5,
     xa_processing_time = 6\<rparr>"

definition demo_bar :: bar where
  "demo_bar = \<lparr>bar_open = 100, bar_high = 105, bar_low = 85, bar_close = 95, bar_volume = 1\<rparr>"

definition demo_open :: position_state where
  "demo_open = \<lparr>position_id = fresh_id unary_env ''pos_'' 0, pos_symbol = ''BTC'', pos_side = LONG,
     pos_quantity = 2, pos_entry_price = 100, pos_entry_time = 0, pos_stop_loss = Some 90,
     pos_take_profit = Some 120, unrealized_pnl = 0, pos_status = Pos_open\<rparr>"

theorem exit_priority_witness:
  "fst (check_exit (demo_setup At_close) demo_open demo_bar 50 None True) = Some Exit_stop_loss
   \<and> snd (check_exit (demo_setup At_close) demo_open demo_bar 50 None True) = 90"
proof -
  have "stop_hit demo_open demo_bar" by (simp add: stop_hit_def demo_open_def demo_bar_def)
  with exit_priority [of "demo_setup At_close" demo_open demo_bar 50 None] show ?thesis
    by (simp add: demo_open_def)
qed


subsection \<open>What opening and closing return\<close>

definition opened_position ::
  "exec_setup \<Rightarrow> exec_args \<Rightarrow> open_request \<Rightarrow> bar \<Rightarrow> bool \<Rightarrow> string \<Rightarrow> position_state" where
  "opened_position X a r b nx pid = \<lparr>position_id = pid, pos_symbol = or_symbol r,
     pos_side = or_position_side r, pos_quantity = or_quantity r,
     pos_entry_price = fill_price X b (or_side r) nx, pos_entry_time = xa_event_time a,
     pos_stop_loss = Some (or_stop_loss r), pos_take_profit = Some (or_take_profit r),
     unrealized_pnl = 0, pos_status = Pos_open\<rparr>"

definition trade_fee :: "exec_setup \<Rightarrow> real \<Rightarrow> real \<Rightarrow> real" where
  "trade_fee X price q = price * q * fm_fee_bps (xs_fill_model X) / 10000"

lemma emit_if_tick:
  "emit_if on (exec_event E X a typ p c) other (evs, cause, n) = (evs', cause', k) \<Longrightarrow> n \<le> k \<and> k \<le> Suc n"
  by (auto simp: emit_if_def exec_event_def build_envelope_def split: if_splits)

definition pos_tick :: "exec_setup \<Rightarrow> tick \<Rightarrow> tick" where
  "pos_tick X n = (if xs_emit_events X then Suc (Suc n) else Suc n)"

lemma open_position_spec:
  assumes "open_position E X a r b snap c nx (st, n) = (evs, tr, st', k)"
  shows "n < pos_tick X n \<and> pos_tick X n < k
    \<and> (\<exists>fl. tr_body tr = Position_opened (opened_position X a r b nx (fresh_id E ''pos_'' (pos_tick X n))) fl
        (fill_price X b (or_side r) nx * or_quantity r
         + trade_fee X (fill_price X b (or_side r) nx) (or_quantity r)))
    \<and> tr_portfolio_id tr = pf_portfolio_id (snap_portfolio snap)
    \<and> st' = st\<lparr>position_bars := dict_set (position_bars st) (fresh_id E ''pos_'' (pos_tick X n)) 0,
        position_orders := dict_set (position_orders st) (fresh_id E ''pos_'' (pos_tick X n)) (order_id (or_order r))\<rparr>"
  using assms
  by (cases "xs_emit_events X")
    (auto simp: open_position_def Let_def emit_if_def exec_event_def build_envelope_def
      opened_position_def trade_fee_def pos_tick_def)

lemma close_position_spec:
  assumes "close_position E X a p price reason snap (st, n) = (evs, tr, st', k)"
  shows "n < k
    \<and> (\<exists>fl. tr_body tr = Position_closed (position_id p) fl
        (close_pnl p price (trade_fee X price (pos_quantity p))) reason)
    \<and> tr_portfolio_id tr = pf_portfolio_id (snap_portfolio snap)
    \<and> st' = st\<lparr>position_bars := dict_pop (position_bars st) (position_id p),
        position_orders := dict_pop (position_orders st) (position_id p)\<rparr>"
  using assms
  by (auto simp: close_position_def Let_def emit_if_def exec_event_def build_envelope_def
      trade_fee_def split: if_splits)


lemma keys_dict_pop [simp]: "set (dict_keys (dict_pop d k)) = set (dict_keys d) - {k}"
  by (auto simp: dict_keys_def dict_pop_def)


subsection \<open>The engine's bookkeeping\<close>

text \<open>The engine tracks a set of positions when it has a bar counter and an order for each of
  them and for no other.\<close>

definition tracks :: "exec_state \<Rightarrow> string set \<Rightarrow> bool" where
  "tracks st ids \<longleftrightarrow> set (dict_keys (position_bars st)) = ids \<and> set (dict_keys (position_orders st)) = ids"

lemma tracks_open:
  "open_position E X a r b snap c nx (st, n) = (evs, tr, st', k) \<Longrightarrow> tracks st ids \<Longrightarrow>
   tracks st' (ids \<union> position_id ` set (opens tr))"
  using open_position_spec [of E X a r b snap c nx st n evs tr st' k]
  by (auto simp: tracks_def opens_def opened_position_def)

lemma tracks_close:
  "close_position E X a p price reason snap (st, n) = (evs, tr, st', k) \<Longrightarrow> tracks st ids \<Longrightarrow>
   tracks st' (ids - set (closes tr))"
  using close_position_spec [of E X a p price reason snap st n evs tr st' k]
  by (auto simp: tracks_def closes_def)

lemma opened_position_simps [simp]:
  "position_id (opened_position X a r b nx pid) = pid"
  "pos_symbol (opened_position X a r b nx pid) = or_symbol r"
  "pos_side (opened_position X a r b nx pid) = or_position_side r"
  "pos_quantity (opened_position X a r b nx pid) = or_quantity r"
  "pos_stop_loss (opened_position X a r b nx pid) = Some (or_stop_loss r)"
  "pos_take_profit (opened_position X a r b nx pid) = Some (or_take_profit r)"
  by (simp_all add: opened_position_def)


subsection \<open>Pending entries\<close>

definition due :: "exec_args \<Rightarrow> pending_entry list \<Rightarrow> pending_entry list" where
  "due a pes = filter (\<lambda>pe. pe_symbol pe = xa_symbol a) pes"

definition filled_positions ::
  "env \<Rightarrow> exec_setup \<Rightarrow> exec_args \<Rightarrow> bar \<Rightarrow> pending_entry list \<Rightarrow> tick list \<Rightarrow> position_state list" where
  "filled_positions E X a b pes ms =
     map2 (\<lambda>pe m. opened_position X a (pending_request pe) b True (fresh_id E ''pos_'' m)) pes ms"

lemma pending_loop_spec:
  assumes "pending_loop E X a b snap pes (st, n) = (evs, trs, remaining, st', k)"
  shows "n \<le> k \<and> remaining = filter (\<lambda>pe. pe_symbol pe \<noteq> xa_symbol a) pes
    \<and> pending_entries st' = pending_entries st
    \<and> (\<forall>tr \<in> set trs. tr_portfolio_id tr = pf_portfolio_id (snap_portfolio snap) \<and> (\<exists>p f c. tr_body tr = Position_opened p f c))
    \<and> (\<exists>ms. length ms = length (due a pes) \<and> sorted_wrt (<) ms \<and> (\<forall>m \<in> set ms. n \<le> m \<and> m < k)
          \<and> concat (map opens trs) = filled_positions E X a b (due a pes) ms)
    \<and> (\<forall>ids. tracks st ids \<longrightarrow> tracks st' (ids \<union> position_id ` set (concat (map opens trs))))
    \<and> (\<forall>i. dict_get (position_bars st') i =
        (if i \<in> position_id ` set (concat (map opens trs)) then Some 0 else dict_get (position_bars st) i))"
  using assms
proof (induction pes arbitrary: st n evs trs remaining)
  case Nil
  then show ?case by (simp add: due_def filled_positions_def)
next
  case (Cons pe pes)
  show ?case
  proof (cases "pe_symbol pe = xa_symbol a")
    case False
    with Cons.prems obtain rem' where "pending_loop E X a b snap pes (st, n) = (evs, trs, rem', st', k)"
      "remaining = pe # rem'" by (auto split: prod.splits)
    from Cons.IH [OF this(1)] this(2) False show ?thesis by (simp add: due_def)
  next
    case True
    with Cons.prems obtain evs1 tr st1 n1 evs2 trs2 where
      op: "open_position E X a (pending_request pe) b snap None True (st, n) = (evs1, tr, st1, n1)" and
      rest: "pending_loop E X a b snap pes (st1, n1) = (evs2, trs2, remaining, st', k)" and
      trs: "trs = tr # trs2"
      by (auto split: prod.splits)
    note os = open_position_spec [OF op]
    note IH = Cons.IH [OF rest]
    then obtain ms where ms: "length ms = length (due a pes)" "sorted_wrt (<) ms"
      "\<forall>m \<in> set ms. n1 \<le> m \<and> m < k" "concat (map opens trs2) = filled_positions E X a b (due a pes) ms"
      by blast
    have tro: "opens tr = [opened_position X a (pending_request pe) b True (fresh_id E ''pos_'' (pos_tick X n))]"
      "\<exists>p f c. tr_body tr = Position_opened p f c"
      using os by (auto simp: opens_def)
    have "\<exists>ms. length ms = length (due a (pe # pes)) \<and> sorted_wrt (<) ms \<and> (\<forall>m \<in> set ms. n \<le> m \<and> m < k)
          \<and> concat (map opens trs) = filled_positions E X a b (due a (pe # pes)) ms"
      using ms True os IH
      by (intro exI [of _ "pos_tick X n # ms"]) (fastforce simp: due_def trs tro filled_positions_def)
    moreover have "\<forall>ids. tracks st ids \<longrightarrow> tracks st' (ids \<union> position_id ` set (concat (map opens trs)))"
    proof (intro allI impI)
      fix ids assume "tracks st ids"
      from tracks_open [OF op this] have "tracks st1 (ids \<union> position_id ` set (opens tr))" .
      with IH have "tracks st' ((ids \<union> position_id ` set (opens tr)) \<union> position_id ` set (concat (map opens trs2)))"
        by blast
      then show "tracks st' (ids \<union> position_id ` set (concat (map opens trs)))"
        by (simp add: trs image_Un Un_assoc)
    qed
    moreover have "dict_get (position_bars st') i =
        (if i \<in> position_id ` set (concat (map opens trs)) then Some 0 else dict_get (position_bars st) i)" for i
    proof -
      have "dict_get (position_bars st') i =
          (if i \<in> position_id ` set (concat (map opens trs2)) then Some 0 else dict_get (position_bars st1) i)"
        using IH by blast
      then show ?thesis using os by (simp add: trs tro image_Un)
    qed
    ultimately show ?thesis
      using IH os True by (simp add: trs tro)
  qed
qed



subsection \<open>The exit loop\<close>

definition held_now :: "bool \<Rightarrow> exec_state \<Rightarrow> position_state \<Rightarrow> int" where
  "held_now inc st p =
     (let h = dict_get_or (position_bars st) (position_id p) 0 in if inc then h + 1 else h)"

text \<open>Why and at which price a position leaves on this bar, if it does.\<close>

definition exit_of ::
  "exec_setup \<Rightarrow> exec_args \<Rightarrow> bar \<Rightarrow> side option \<Rightarrow> bool \<Rightarrow> exec_state \<Rightarrow> position_state \<Rightarrow> (exit_reason \<times> real) option" where
  "exit_of X a b so inc st p =
     (if pos_symbol p \<noteq> xa_symbol a then None
      else case check_exit X p b (held_now inc st p) so inc of
             (None, _) \<Rightarrow> None | (Some r, price) \<Rightarrow> Some (r, price))"

definition closing_of :: "exec_setup \<Rightarrow> (exit_reason \<times> real) option \<Rightarrow> position_state \<Rightarrow> state_transition \<Rightarrow> bool" where
  "closing_of X ex p tr \<longleftrightarrow> (\<exists>r price fl. ex = Some (r, price) \<and> tr_body tr =
     Position_closed (position_id p) fl (close_pnl p price (trade_fee X price (pos_quantity p))) r)"

lemma held_now_cong:
  assumes "dict_get (position_bars st') (position_id p) = dict_get (position_bars st) (position_id p)"
  shows "held_now inc st' p = held_now inc st p"
  unfolding held_now_def dict_get_or_def assms ..

lemma exit_of_cong:
  assumes "dict_get (position_bars st') (position_id p) = dict_get (position_bars st) (position_id p)"
  shows "exit_of X a b so inc st' p = exit_of X a b so inc st p"
  unfolding exit_of_def held_now_cong [OF assms] ..

text \<open>The bar counter a position has after the loop.\<close>

definition bars_after ::
  "exec_setup \<Rightarrow> exec_args \<Rightarrow> bar \<Rightarrow> side option \<Rightarrow> bool \<Rightarrow> exec_state \<Rightarrow> position_state list \<Rightarrow> string \<Rightarrow> int option" where
  "bars_after X a b so inc st ps i =
     (case List.find (\<lambda>p. position_id p = i) ps of
        None \<Rightarrow> dict_get (position_bars st) i
      | Some p \<Rightarrow>
          if pos_symbol p \<noteq> xa_symbol a then dict_get (position_bars st) i
          else if exit_of X a b so inc st p \<noteq> None then None
          else if inc then Some (held_now inc st p) else dict_get (position_bars st) i)"

lemma bars_after_cong:
  assumes "\<And>p. p \<in> set ps \<Longrightarrow> dict_get (position_bars st') (position_id p) = dict_get (position_bars st) (position_id p)"
    and "dict_get (position_bars st') i = dict_get (position_bars st) i"
  shows "bars_after X a b so inc st' ps i = bars_after X a b so inc st ps i"
proof (cases "List.find (\<lambda>p. position_id p = i) ps")
  case (Some p)
  then have "p \<in> set ps" by (auto simp: find_Some_iff)
  note same = assms(1) [OF this]
  show ?thesis
    by (simp add: bars_after_def Some assms(2) exit_of_cong [OF same] held_now_cong [OF same])
qed (simp add: bars_after_def assms)

lemma closing_cong:
  assumes "list_all2 (\<lambda>q. closing_of X (f q) q) (filter (\<lambda>q. f q \<noteq> None) ps) trs"
    and "\<forall>q \<in> set ps. f q = g q"
  shows "list_all2 (\<lambda>q. closing_of X (g q) q) (filter (\<lambda>q. g q \<noteq> None) ps) trs"
  using assms by (induction ps arbitrary: trs) (auto simp: list_all2_Cons1 split: if_splits)

lemma exit_loop_Cons:
  assumes "pos_symbol p = xa_symbol a"
    and "st1 = (if inc then st\<lparr>position_bars := dict_set (position_bars st) (position_id p) (held_now inc st p)\<rparr> else st)"
  shows "exit_loop E X a b snap so inc (p # ps) (st, n) =
    (case check_exit X p b (held_now inc st p) so inc of
       (None, _) \<Rightarrow> exit_loop E X a b snap so inc ps (st1, n)
     | (Some reason, price) \<Rightarrow>
         (case close_position E X a p price reason snap (st1, n) of
            (evs1, tr, st2, n2) \<Rightarrow>
              (case exit_loop E X a b snap so inc ps (st2, n2) of
                 (evs, trs, st', k) \<Rightarrow> (evs1 @ evs, tr # trs, st', k))))"
  using assms(1) unfolding assms(2) held_now_def Let_def exit_loop.simps(2) by simp

lemma exit_loop_spec:
  assumes "exit_loop E X a b snap so inc ps (st, n) = (evs, trs, st', k)" and "distinct (map position_id ps)"
  shows "n \<le> k \<and> pending_entries st' = pending_entries st
    \<and> (\<forall>tr \<in> set trs. tr_portfolio_id tr = pf_portfolio_id (snap_portfolio snap))
    \<and> list_all2 (\<lambda>p. closing_of X (exit_of X a b so inc st p) p)
        (filter (\<lambda>p. exit_of X a b so inc st p \<noteq> None) ps) trs
    \<and> (\<forall>i. dict_get (position_bars st') i = bars_after X a b so inc st ps i)
    \<and> (\<forall>ids. tracks st ids \<and> position_id ` set ps \<subseteq> ids \<longrightarrow> tracks st' (ids - set (concat (map closes trs))))"
  using assms
proof (induction ps arbitrary: st n evs trs)
  case Nil
  then show ?case by (simp add: bars_after_def)
next
  case (Cons p ps)
  from Cons.prems(2) have dis: "distinct (map position_id ps)" and
    new: "\<And>q. q \<in> set ps \<Longrightarrow> position_id q \<noteq> position_id p" by (auto simp: image_iff)
  let ?go = "\<lambda>st1. (\<forall>i. i \<noteq> position_id p \<longrightarrow> dict_get (position_bars st1) i = dict_get (position_bars st) i)"
  have same: "(\<forall>q \<in> set ps. exit_of X a b so inc st1 q = exit_of X a b so inc st q)" if "?go st1" for st1
    using that new by (auto intro!: exit_of_cong)
  have after: "bars_after X a b so inc st1 ps i = bars_after X a b so inc st ps i"
    if "?go st1" "i \<noteq> position_id p" for st1 i
    using that new by (intro bars_after_cong) auto
  have after_p: "bars_after X a b so inc st1 ps (position_id p) = dict_get (position_bars st1) (position_id p)" for st1
    using new by (auto simp: bars_after_def find_Some_iff split: option.splits)
  have step: "bars_after X a b so inc st (p # ps) i =
      (if i = position_id p then
        (if pos_symbol p \<noteq> xa_symbol a then dict_get (position_bars st) i
         else if exit_of X a b so inc st p \<noteq> None then None
         else if inc then Some (held_now inc st p) else dict_get (position_bars st) i)
       else bars_after X a b so inc st ps i)" for i
    by (simp add: bars_after_def)
  show ?case
  proof (cases "pos_symbol p = xa_symbol a")
    case False
    with Cons.prems have "exit_loop E X a b snap so inc ps (st, n) = (evs, trs, st', k)" by simp
    from Cons.IH [OF this dis] False show ?thesis
      using after_p [of st] by (auto simp: exit_of_def step)
  next
    case True
    let ?h = "held_now inc st p"
    define st1 where st1: "st1 =
      (if inc then st\<lparr>position_bars := dict_set (position_bars st) (position_id p) ?h\<rparr> else st)"
    have go1: "?go st1" by (simp add: st1)
    have tr1: "tracks st1 ids" if "tracks st ids" "position_id p \<in> ids" for ids
      using that by (auto simp: tracks_def st1)
    have pend1: "pending_entries st1 = pending_entries st" by (simp add: st1)
    have bar1: "dict_get (position_bars st1) (position_id p) =
        (if inc then Some ?h else dict_get (position_bars st) (position_id p))" by (simp add: st1)
    note loop = exit_loop_Cons [OF True st1, of E X b snap so ps n]
    show ?thesis
    proof (cases "check_exit X p b ?h so inc")
      case chk: (Pair ro price)
      show ?thesis
      proof (cases ro)
        case None
        with Cons.prems(1) chk have rest: "exit_loop E X a b snap so inc ps (st1, n) = (evs, trs, st', k)"
          unfolding loop by simp
        have ex: "exit_of X a b so inc st p = None" using True chk None by (simp add: exit_of_def)
        note IH = Cons.IH [OF rest dis]
        have l2: "list_all2 (\<lambda>q. closing_of X (exit_of X a b so inc st q) q)
            (filter (\<lambda>q. exit_of X a b so inc st q \<noteq> None) ps) trs"
          by (rule closing_cong [OF IH [THEN conjunct2, THEN conjunct2, THEN conjunct2, THEN conjunct1] same [OF go1]])
        have trk: "tracks st' (ids - set (concat (map closes trs)))"
          if "tracks st ids" "position_id ` set (p # ps) \<subseteq> ids" for ids
        proof -
          have "tracks st1 ids \<and> position_id ` set ps \<subseteq> ids"
            using that tr1 [of ids] by auto
          with IH show ?thesis by blast
        qed
        have bars: "dict_get (position_bars st') i = bars_after X a b so inc st (p # ps) i" for i
          using IH after [OF go1, of i] after_p [of st1] bar1 ex True
          by (cases "i = position_id p") (simp_all add: step)
        show ?thesis
          using IH l2 ex trk bars pend1 by simp
      next
        case (Some reason)
        with Cons.prems(1) chk obtain evs1 tr st2 n2 evs2 trs2 where
          cl: "close_position E X a p price reason snap (st1, n) = (evs1, tr, st2, n2)" and
          rest: "exit_loop E X a b snap so inc ps (st2, n2) = (evs2, trs2, st', k)" and
          trs: "trs = tr # trs2"
          unfolding loop by (auto split: prod.splits)
        have ex: "exit_of X a b so inc st p = Some (reason, price)"
          using True chk Some by (simp add: exit_of_def)
        note cs = close_position_spec [OF cl]
        have go2: "?go st2" using cs go1 by auto
        have p2: "dict_get (position_bars st2) (position_id p) = None" using cs by auto
        note IH = Cons.IH [OF rest dis]
        have l2: "list_all2 (\<lambda>q. closing_of X (exit_of X a b so inc st q) q)
            (filter (\<lambda>q. exit_of X a b so inc st q \<noteq> None) ps) trs2"
          by (rule closing_cong [OF IH [THEN conjunct2, THEN conjunct2, THEN conjunct2, THEN conjunct1] same [OF go2]])
        have trk: "tracks st' (ids - set (concat (map closes trs)))"
          if "tracks st ids" "position_id ` set (p # ps) \<subseteq> ids" for ids
        proof -
          from that have "tracks st2 (ids - set (closes tr))"
            by (intro tracks_close [OF cl] tr1) auto
          moreover have "position_id ` set ps \<subseteq> ids - set (closes tr)"
            using that(2) new cs by (auto simp: closes_def)
          ultimately have "tracks st' (ids - set (closes tr) - set (concat (map closes trs2)))"
            using IH by blast
          then show ?thesis by (simp add: trs Diff_eq Int_assoc Compl_Un del: set_concat)
        qed
        have bars: "dict_get (position_bars st') i = bars_after X a b so inc st (p # ps) i" for i
          using IH after [OF go2, of i] after_p [of st2] p2 ex True
          by (cases "i = position_id p") (simp_all add: step)
        have head: "closing_of X (exit_of X a b so inc st p) p tr"
          using cs ex by (auto simp: closing_of_def)
        have pend2: "pending_entries st2 = pending_entries st" using cs pend1 by simp
        have "n < n2" "tr_portfolio_id tr = pf_portfolio_id (snap_portfolio snap)" using cs by simp_all
        then show ?thesis
          using IH l2 ex trk bars head pend2 by (simp add: trs)
      qed
    qed
  qed
qed


subsection \<open>Evaluating a bar\<close>

lemma filter_other_ids:
  assumes "distinct (map f xs)"
  shows "filter (\<lambda>x. f x \<notin> f ` {y \<in> set xs. P y}) xs = filter (\<lambda>x. \<not> P x) xs"
proof (rule filter_cong [OF refl])
  fix x assume "x \<in> set xs"
  moreover have "inj_on f (set xs)" using assms by (simp add: distinct_map)
  ultimately have "f x \<in> f ` {y \<in> set xs. P y} \<longleftrightarrow> x \<in> {y \<in> set xs. P y}"
    by (intro inj_on_image_mem_iff) auto
  with \<open>x \<in> set xs\<close> show "(f x \<notin> f ` {y \<in> set xs. P y}) = (\<not> P x)" by simp
qed

lemma find_by_position:
  "distinct (map position_id ps) \<Longrightarrow> p \<in> set ps \<Longrightarrow>
   List.find (\<lambda>q. position_id q = position_id p) ps = Some p"
  by (induction ps) (auto simp: image_iff)

text \<open>Identifiers of the given positions were drawn before now.\<close>

definition ids_before :: "env \<Rightarrow> tick \<Rightarrow> position_state list \<Rightarrow> bool" where
  "ids_before E n ps \<longleftrightarrow> (\<forall>p \<in> set ps. \<exists>m < n. position_id p = fresh_id E ''pos_'' m)"

lemma ids_before_mono: "ids_before E m ps \<Longrightarrow> m \<le> n \<Longrightarrow> ids_before E n ps"
  unfolding ids_before_def by (meson order_less_le_trans)

lemma position_id_filled:
  "length ms = length pes \<Longrightarrow>
   map position_id (filled_positions E X a b pes ms) = map (fresh_id E ''pos_'') ms"
  unfolding filled_positions_def by (induction ms pes rule: list_induct2) simp_all

lemma filled_new:
  assumes "env_distinct E" and "ids_before E n ps" and "\<forall>m \<in> set ms. n \<le> m" and "length ms = length pes"
    and "p \<in> set ps"
  shows "position_id p \<notin> position_id ` set (filled_positions E X a b pes ms)"
proof
  assume "position_id p \<in> position_id ` set (filled_positions E X a b pes ms)"
  then have "position_id p \<in> fresh_id E ''pos_'' ` set ms"
    using position_id_filled [OF assms(4), of E X a b] by (metis set_map)
  then obtain m where "m \<in> set ms" "position_id p = fresh_id E ''pos_'' m" by blast
  with assms show False unfolding ids_before_def by (metis fresh_id_inject not_le)
qed

lemma closing_list:
  assumes "list_all2 (\<lambda>p. closing_of X (f p) p) ps trs"
  shows "(\<forall>tr \<in> set trs. \<exists>i fl x r. tr_body tr = Position_closed i fl x r)
    \<and> concat (map closes trs) = map position_id ps \<and> concat (map opens trs) = []"
  using assms
  by (induction ps trs rule: list_all2_induct) (auto simp: closing_of_def closes_def opens_def)

lemma evaluate_bar_parts:
  assumes "evaluate_bar E X a b snap so True (st, n) = (res, st', k)"
  obtains evs1 trs1 rem st1 n1 evs2 trs2 where
    "pending_loop E X a b snap (pending_entries st) (st, n) = (evs1, trs1, rem, st1, n1)"
    "exit_loop E X a b snap so True (open_positions (snap_portfolio snap)) (st1\<lparr>pending_entries := rem\<rparr>, n1)
       = (evs2, trs2, st', k)"
    "er_transitions res = trs1 @ trs2"
  using assms
  by (auto simp: evaluate_bar_def process_pending_entries_def Let_def split: prod.splits)

text \<open>C6: one pre-decision evaluation settles the whole book of the bar's symbol. After its
  transitions are applied, the store holds exactly the positions that met no exit
  condition, followed by one new position for every pending entry of the symbol, in queue
  order; only pending entries of other symbols stay queued; and every remaining position
  of the symbol that was open before has been held for fewer bars than the timeout.\<close>

theorem evaluate_bar_settles_book:
  assumes "evaluate_bar E X a b snap so True (st, n) = (res, st', k)"
    and "book s = open_positions (snap_portfolio snap)"
    and "distinct (map position_id (book s))" and "env_distinct E" and "ids_before E n (book s)"
  shows "\<exists>ms. length ms = length (due a (pending_entries st))
    \<and> book (run_bodies (er_transitions res) s) =
        filter (\<lambda>p. exit_of X a b so True st p = None) (book s)
        @ filled_positions E X a b (due a (pending_entries st)) ms
    \<and> pending_entries st' = filter (\<lambda>pe. pe_symbol pe \<noteq> xa_symbol a) (pending_entries st)
    \<and> (\<forall>p \<in> set (book s). pos_symbol p = xa_symbol a \<and> exit_of X a b so True st p = None \<longrightarrow>
         dict_get (position_bars st') (position_id p) = Some (held_now True st p)
         \<and> held_now True st p < max_bars_in_trade (xs_config X))"
proof -
  let ?ps = "open_positions (snap_portfolio snap)"
  from assms(1) obtain evs1 trs1 rem st1 n1 evs2 trs2 where
    pend: "pending_loop E X a b snap (pending_entries st) (st, n) = (evs1, trs1, rem, st1, n1)" and
    ex: "exit_loop E X a b snap so True ?ps (st1\<lparr>pending_entries := rem\<rparr>, n1) = (evs2, trs2, st', k)" and
    trs: "er_transitions res = trs1 @ trs2"
    by (rule evaluate_bar_parts)
  note P = pending_loop_spec [OF pend]
  let ?st1 = "st1\<lparr>pending_entries := rem\<rparr>"
  from assms(2,3) have dis: "distinct (map position_id ?ps)" by simp
  note X = exit_loop_spec [OF ex dis]
  from P obtain ms where ms: "length ms = length (due a (pending_entries st))" "\<forall>m \<in> set ms. n \<le> m"
    "concat (map opens trs1) = filled_positions E X a b (due a (pending_entries st)) ms" by blast
  have old: "position_id p \<notin> position_id ` set (concat (map opens trs1))" if "p \<in> set ?ps" for p
    unfolding ms(3) using filled_new [OF assms(4,5) ms(2,1)] that assms(2) by simp
  have bars1: "dict_get (position_bars ?st1) (position_id p) = dict_get (position_bars st) (position_id p)"
    if "p \<in> set ?ps" for p
    using P old [OF that] by simp
  have same: "exit_of X a b so True ?st1 p = exit_of X a b so True st p" if "p \<in> set ?ps" for p
    by (rule exit_of_cong [OF bars1 [OF that]])
  have held: "held_now True ?st1 p = held_now True st p" if "p \<in> set ?ps" for p
    by (rule held_now_cong [OF bars1 [OF that]])
  from X have l2: "list_all2 (\<lambda>p. closing_of X (exit_of X a b so True ?st1 p) p)
      (filter (\<lambda>p. exit_of X a b so True ?st1 p \<noteq> None) ?ps) trs2" by blast
  have fil: "filter (\<lambda>p. exit_of X a b so True ?st1 p \<noteq> None) ?ps = filter (\<lambda>p. exit_of X a b so True st p \<noteq> None) ?ps"
    using same by (intro filter_cong) auto
  note cl = closing_list [OF l2, unfolded fil]
  have "book (fold step_of trs2 (run_bodies trs1 s)) =
      filter (\<lambda>p. position_id p \<notin> set (concat (map closes trs2))) (book (run_bodies trs1 s))"
    by (rule store_book.closes_only) (use cl in blast)
  moreover have "book (run_bodies trs1 s) = ?ps @ concat (map opens trs1)"
    using store_book.opens_only [of trs1 s] P assms(2) by (simp add: run_bodies_fold)
  moreover have "run_bodies (trs1 @ trs2) s = fold step_of trs2 (run_bodies trs1 s)"
    by (simp add: run_bodies_append run_bodies_fold [of trs2])
  ultimately have "book (run_bodies (trs1 @ trs2) s) =
      filter (\<lambda>p. position_id p \<notin> set (map position_id (filter (\<lambda>p. exit_of X a b so True st p \<noteq> None) ?ps)))
        (?ps @ concat (map opens trs1))"
    by (simp only: cl [THEN conjunct2, THEN conjunct1])
  also have "\<dots> = filter (\<lambda>p. exit_of X a b so True st p = None) ?ps @ concat (map opens trs1)"
  proof -
    have "filter (\<lambda>p. position_id p \<notin> position_id ` {p \<in> set ?ps. exit_of X a b so True st p \<noteq> None}) ?ps =
        filter (\<lambda>p. exit_of X a b so True st p = None) ?ps"
      using filter_other_ids [OF dis, of "\<lambda>p. exit_of X a b so True st p \<noteq> None"]
      by (simp only: not_not)
    moreover have "filter (\<lambda>p. position_id p \<notin> position_id ` {p \<in> set ?ps. exit_of X a b so True st p \<noteq> None})
        (concat (map opens trs1)) = concat (map opens trs1)"
    proof (rule filter_True, intro ballI notI)
      fix q assume q: "q \<in> set (concat (map opens trs1))"
        and "position_id q \<in> position_id ` {p \<in> set ?ps. exit_of X a b so True st p \<noteq> None}"
      then obtain p where "p \<in> set ?ps" "position_id p = position_id q" by auto
      with old [of p] q show False by (metis image_eqI)
    qed
    ultimately show ?thesis by (simp only: filter_append set_map set_filter)
  qed
  finally have bk: "book (run_bodies (er_transitions res) s) = filter (\<lambda>p. exit_of X a b so True st p = None) (book s)
        @ filled_positions E X a b (due a (pending_entries st)) ms"
    using ms(3) assms(2) trs by simp
  have pe: "pending_entries st' = filter (\<lambda>pe. pe_symbol pe \<noteq> xa_symbol a) (pending_entries st)"
    using X P by simp
  have "dict_get (position_bars st') (position_id p) = Some (held_now True st p)
      \<and> held_now True st p < max_bars_in_trade (xs_config X)"
    if p: "p \<in> set (book s)" "pos_symbol p = xa_symbol a" "exit_of X a b so True st p = None" for p
  proof
    from p assms(2) have ps: "p \<in> set ?ps" by simp
    from find_by_position [OF dis ps] have "bars_after X a b so True ?st1 ?ps (position_id p) = Some (held_now True st p)"
      using p same [OF ps] held [OF ps] by (simp add: bars_after_def)
    with X show "dict_get (position_bars st') (position_id p) = Some (held_now True st p)" by simp
    from p show "held_now True st p < max_bars_in_trade (xs_config X)"
      by (simp add: exit_of_def check_exit_bar split: if_splits)
  qed
  with bk pe ms(1) show ?thesis by blast
qed


definition demo_open_store :: store where
  "demo_open_store = apply_position_opened demo_open 200 0 (demo_store)"

theorem evaluate_bar_settles_book_witness:
  "book (run_bodies (er_transitions (fst (evaluate_bar unary_env (demo_setup At_close) demo_args demo_bar
      (snapshot_of demo_open_store) None True (init_exec_state, 1)))) demo_open_store) = []"
proof -
  obtain res st' k where r: "evaluate_bar unary_env (demo_setup At_close) demo_args demo_bar
      (snapshot_of demo_open_store) None True (init_exec_state, 1) = (res, st', k)"
    by (metis prod_cases3)
  have bk: "book demo_open_store = [demo_open]"
    by (simp add: demo_open_store_def demo_store_def init_store_def Let_def)
  have "exit_of (demo_setup At_close) demo_args demo_bar None True init_exec_state demo_open \<noteq> None"
    by (simp add: exit_of_def check_exit_bar stop_hit_def demo_open_def demo_args_def demo_bar_def)
  moreover have "ids_before unary_env 1 (book demo_open_store)"
    by (simp add: bk ids_before_def demo_open_def)
  ultimately show ?thesis
    using evaluate_bar_settles_book [OF r, of demo_open_store] r bk
    by (auto simp: snapshot_of_def due_def init_exec_state_def filled_positions_def)
qed


subsection \<open>Executing a decision\<close>

lemma emit_if_events:
  "fst (emit_if on (exec_event E X a typ p c) other w) =
     (if on then fst w @ [fst (exec_event E X a typ p c (snd (snd w)))] else fst w)"
  by (auto simp: emit_if_def split: prod.splits)

lemma submit_order_result:
  assumes "submit_order E X a d sg q oi b snap ec (st, n) = (res, st', k)"
  shows "n < k \<and>
    (if fm_fill_at (xs_fill_model X) = At_next_open
     then er_transitions res = [] \<and> position_bars st' = position_bars st
       \<and> position_orders st' = position_orders st
       \<and> (\<exists>pe. pending_entries st' = pending_entries st @ [pe] \<and> pe_symbol pe = xa_symbol a
            \<and> pe_quantity pe = q \<and> pe_side pe = fin_side sg
            \<and> pe_position_side pe = (if fin_side sg = BUY then LONG else SHORT))
     else pending_entries st' = pending_entries st
       \<and> (\<exists>tr p m fl. er_transitions res = [tr] \<and> n \<le> m \<and> m < k
            \<and> tr_portfolio_id tr = pf_portfolio_id (snap_portfolio snap)
            \<and> tr_body tr = Position_opened p fl (pos_entry_price p * q + trade_fee X (pos_entry_price p) q)
            \<and> position_id p = fresh_id E ''pos_'' m \<and> pos_symbol p = xa_symbol a \<and> pos_quantity p = q
            \<and> pos_entry_price p = fill_price X b (fin_side sg) False
            \<and> pos_side p = (if fin_side sg = BUY then LONG else SHORT)
            \<and> pos_stop_loss p = Some (fin_stop_loss sg) \<and> pos_take_profit p = Some (fin_take_profit sg)
            \<and> position_bars st' = dict_set (position_bars st) (position_id p) 0
            \<and> set (dict_keys (position_orders st')) = insert (position_id p) (set (dict_keys (position_orders st)))))"
proof -
  obtain evs0 cause0 where ec: "ec = (evs0, cause0)" by (cases ec)
  let ?ord = "\<lparr>order_id = fresh_id E ''ord_'' n, ord_intent_id = intent_id oi,
                ord_status = Ord_submitted, ord_submitted_at = xa_processing_time a,
                ord_venue = Venue_simulator\<rparr>"
  obtain evs1 cause1 n1 where e1: "emit_if (xs_emit_events X)
      (exec_event E X a OrderSubmitted (P_submitted ?ord ''simulator'' (decision_id d)) cause0)
      cause0 (evs0, cause0, Suc n) = (evs1, cause1, n1)" by (metis prod_cases3)
  obtain evs2 cause2 n2 where e2: "emit_if (xs_emit_events X)
      (exec_event E X a OrderAcknowledged (P_acknowledged (order_id ?ord) ''simulator'') cause1)
      cause1 (evs1, cause1, n1) = (evs2, cause2, n2)" by (metis prod_cases3)
  have n2: "n < n2" using emit_if_tick [OF e1] emit_if_tick [OF e2] by simp
  let ?r = "\<lparr>or_order = ?ord, or_quantity = q, or_side = fin_side sg,
      or_position_side = (if fin_side sg = BUY then LONG else SHORT), or_symbol = xa_symbol a,
      or_stop_loss = fin_stop_loss sg, or_take_profit = fin_take_profit sg\<rparr>"
  show ?thesis
  proof (cases "fm_fill_at (xs_fill_model X) = At_next_open")
    case True
    with assms n2 show ?thesis
      unfolding submit_order_def ec by (auto simp: Let_def e1 e2 [simplified])
  next
    case False
    obtain fevs tr st2 k2 where op: "open_position E X a ?r b snap cause2 False (st, n2) = (fevs, tr, st2, k2)"
      by (metis prod_cases4)
    from assms False have res: "er_transitions res = [tr]" "st' = st2" "k = k2"
      unfolding submit_order_def ec by (auto simp: Let_def e1 e2 [simplified] op)
    let ?p = "opened_position X a ?r b False (fresh_id E ''pos_'' (pos_tick X n2))"
    note os = open_position_spec [OF op]
    then obtain fl where fl: "tr_body tr = Position_opened ?p fl
        (fill_price X b (or_side ?r) False * or_quantity ?r
         + trade_fee X (fill_price X b (or_side ?r) False) (or_quantity ?r))" by blast
    have pe: "pos_entry_price ?p = fill_price X b (fin_side sg) False" by (simp add: opened_position_def)
    show ?thesis
      unfolding if_not_P [OF False]
      by (intro conjI exI [of _ tr] exI [of _ ?p] exI [of _ "pos_tick X n2"] exI [of _ fl])
        (use res os n2 fl pe in \<open>auto simp: dict_keys_def [symmetric]\<close>)
  qed
qed


lemma execute_steps:
  assumes "is_approved d" "dec_final_signal d = Some sg"
    and "\<not> (long_only (xs_config X) \<and> fin_side sg = SELL)"
    and "q = position_size X snap (fin_entry_price sg) (fin_stop_loss sg) (size_multiplier sg)" "0 < q"
    and "a' = a\<lparr>xa_event_time := dec_event_time d\<rparr>" and "oi = build_intent E a' d sg q snap n"
    and "emit_if (xs_emit_events X) (exec_event E X a' OrderIntentCreated (P_intent oi) None)
        None ([], None, Suc n) = (evs, cause, n1)"
  shows "execute E X a d snap b (st, n) = and_then (gate_check oi snap) (\<lambda>gate.
      if \<not> xr_passed gate then
        (case exec_event E X a' OrderRejected (P_order_rejected (xr_reason gate) ''pre_trade'') cause n1 of
           (e, k) \<Rightarrow> Inr (\<lparr>er_events = filter_events X (evs @ [e]), er_transitions = []\<rparr>, st, k))
      else Inr (submit_order E X a' d sg q oi b snap (evs, cause) (st, n1)))"
proof -
  have nq: "\<not> q \<le> 0" using assms(5) by simp
  have pick: "(if is_approved d then dec_final_signal d else None) = Some sg" using assms(1,2) by simp
  show ?thesis
    unfolding execute_def Let_def split_conv pick option.case if_not_P [OF assms(3)]
    unfolding assms(6) [symmetric]
    unfolding assms(4) [symmetric]
    unfolding assms(7) [symmetric] if_not_P [OF nq] assms(8) split_conv ..
qed

lemma execute_E:
  assumes "execute E X a d snap b (st, n) = Inr (res, st', k)"
  obtains (none) "er_transitions res = []" "st' = st" "n \<le> k"
  | (submitted) sg q n1 evs cause g where "is_approved d" "dec_final_signal d = Some sg"
      "\<not> (long_only (xs_config X) \<and> fin_side sg = SELL)"
      "q = position_size X snap (fin_entry_price sg) (fin_stop_loss sg) (size_multiplier sg)" "0 < q"
      "gate_check (build_intent E (a\<lparr>xa_event_time := dec_event_time d\<rparr>) d sg q snap n) snap = Inr g"
      "xr_passed g" "n < n1"
      "submit_order E X (a\<lparr>xa_event_time := dec_event_time d\<rparr>) d sg q
         (build_intent E (a\<lparr>xa_event_time := dec_event_time d\<rparr>) d sg q snap n) b snap (evs, cause) (st, n1)
       = (res, st', k)"
proof (cases "if is_approved d then dec_final_signal d else None")
  case None
  with assms have "er_transitions res = [] \<and> st' = st \<and> n \<le> k"
    by (auto simp add: execute_def Let_def no_result_def)
  then show thesis by (intro none) simp_all
next
  case (Some sg)
  then have ap: "is_approved d" and sg: "dec_final_signal d = Some sg" by (auto split: if_splits)
  let ?a = "a\<lparr>xa_event_time := dec_event_time d\<rparr>"
  let ?q = "position_size X snap (fin_entry_price sg) (fin_stop_loss sg) (size_multiplier sg)"
  show thesis
  proof (cases "(long_only (xs_config X) \<and> fin_side sg = SELL) \<or> ?q \<le> 0")
    case True
    with assms none ap sg show thesis
      by (auto simp: execute_def Let_def no_result_def execution_failed_def exec_event_def build_envelope_def
          split: if_splits)
  next
    case False
    then have lo: "\<not> (long_only (xs_config X) \<and> fin_side sg = SELL)" and q: "0 < ?q" by auto
    let ?oi = "build_intent E ?a d sg ?q snap n"
    obtain evs cause n1 where em: "emit_if (xs_emit_events X) (exec_event E X ?a OrderIntentCreated (P_intent ?oi) None)
        None ([], None, Suc n) = (evs, cause, n1)" by (metis prod_cases3)
    from emit_if_tick [OF em] have n1: "n < n1" by simp
    note ex = assms [unfolded execute_steps [OF ap sg lo refl q refl refl em]]
    from ex obtain g where g: "gate_check ?oi snap = Inr g" by (cases "gate_check ?oi snap") auto
    show thesis
    proof (cases "xr_passed g")
      case True
      with ex g have "submit_order E X ?a d sg ?q ?oi b snap (evs, cause) (st, n1) = (res, st', k)" by simp
      from submitted [OF ap sg lo refl q g True n1 this] show thesis .
    next
      case no: False
      have "er_transitions res = [] \<and> st' = st \<and> n \<le> k"
        using ex g no n1 by (auto simp: exec_event_def build_envelope_def)
      then show thesis by (intro none) simp_all
    qed
  qed
qed

lemma execute_total: "\<exists>res st' k. execute E X a d snap b (st, n) = Inr (res, st', k)"
proof (cases "if is_approved d then dec_final_signal d else None")
  case None
  then show ?thesis by (simp add: execute_def Let_def)
next
  case (Some sg)
  then have ap: "is_approved d" and sg: "dec_final_signal d = Some sg" by (auto split: if_splits)
  let ?a = "a\<lparr>xa_event_time := dec_event_time d\<rparr>"
  let ?q = "position_size X snap (fin_entry_price sg) (fin_stop_loss sg) (size_multiplier sg)"
  have "\<exists>r. execute E X a d snap b (st, n) = Inr r"
  proof (cases "(long_only (xs_config X) \<and> fin_side sg = SELL) \<or> ?q \<le> 0")
    case True
    with ap sg show ?thesis
      by (auto simp: execute_def Let_def split: prod.splits)
  next
    case False
    then have lo: "\<not> (long_only (xs_config X) \<and> fin_side sg = SELL)" and q: "0 < ?q" by auto
    let ?oi = "build_intent E ?a d sg ?q snap n"
    from q have "equity (snap_portfolio snap) \<noteq> 0"
      using position_size_pos [of X snap "fin_entry_price sg" "fin_stop_loss sg" "size_multiplier sg"] by simp
    from gate_check_total [OF this] obtain g where g: "gate_check ?oi snap = Inr g" by blast
    obtain evs cause n1 where em: "emit_if (xs_emit_events X) (exec_event E X ?a OrderIntentCreated (P_intent ?oi) None)
        None ([], None, Suc n) = (evs, cause, n1)" by (metis prod_cases3)
    show ?thesis
      unfolding execute_steps [OF ap sg lo refl q refl refl em] by (simp add: g split: prod.splits) (metis prod_cases3)
  qed
  then show ?thesis by (metis prod_cases3)
qed

text \<open>Executing a decision never raises. The gate divides by the equity, and it is reached
  only with a positive size, which the sizing gives only to an account with positive
  equity.\<close>

theorem execute_never_raises: "\<exists>res st' k. execute E X a d snap b (st, n) = Inr (res, st', k)"
  by (rule execute_total)

text \<open>C7: whatever a decision asks for, an execution opens or queues at most one position, on
  the side of the decision's final signal, never a short in long-only mode, and only when
  the decision is approved, the book is below the position limit, and the order's cost at
  the signal's price fits both the cash and the exposure limit. A next-open fill model
  queues it and opens nothing; any other fill model opens it at once and queues nothing.\<close>

theorem execute_opens_within_limits:
  assumes "execute E X a d snap b (st, n) = Inr (res, st', k)"
    and "er_transitions res \<noteq> [] \<or> pending_entries st' \<noteq> pending_entries st"
  shows "\<exists>sg q. is_approved d \<and> dec_final_signal d = Some sg \<and> 0 < q
    \<and> \<not> (long_only (xs_config X) \<and> fin_side sg = SELL)
    \<and> int (length (open_positions (snap_portfolio snap))) < lim_max_open_positions (limits (snap_risk snap))
    \<and> q * fin_entry_price sg \<le> cash (snap_portfolio snap)
    \<and> open_exposure_pct (snap_risk snap) + q * fin_entry_price sg / equity (snap_portfolio snap) * 100
        \<le> lim_max_exposure_pct (limits (snap_risk snap))
    \<and> (if fm_fill_at (xs_fill_model X) = At_next_open
        then er_transitions res = []
          \<and> (\<exists>pe. pending_entries st' = pending_entries st @ [pe] \<and> pe_symbol pe = xa_symbol a
               \<and> pe_quantity pe = q \<and> pe_position_side pe = (if fin_side sg = BUY then LONG else SHORT))
        else pending_entries st' = pending_entries st
          \<and> (\<exists>p. concat (map opens (er_transitions res)) = [p] \<and> length (er_transitions res) = 1
               \<and> pos_symbol p = xa_symbol a \<and> pos_quantity p = q
               \<and> pos_side p = (if fin_side sg = BUY then LONG else SHORT)
               \<and> pos_stop_loss p = Some (fin_stop_loss sg) \<and> pos_take_profit p = Some (fin_take_profit sg)))"
  using assms(1)
proof (cases rule: execute_E)
  case none
  with assms(2) show ?thesis by simp
next
  case (submitted sg q n1 evs cause g)
  note gate = gate_check_passed [OF submitted(6,7)]
  note sub = submit_order_result [OF submitted(9)]
  show ?thesis
  proof (intro exI [of _ sg] exI [of _ q] conjI)
    show "if fm_fill_at (xs_fill_model X) = At_next_open
        then er_transitions res = []
          \<and> (\<exists>pe. pending_entries st' = pending_entries st @ [pe] \<and> pe_symbol pe = xa_symbol a
               \<and> pe_quantity pe = q \<and> pe_position_side pe = (if fin_side sg = BUY then LONG else SHORT))
        else pending_entries st' = pending_entries st
          \<and> (\<exists>p. concat (map opens (er_transitions res)) = [p] \<and> length (er_transitions res) = 1
               \<and> pos_symbol p = xa_symbol a \<and> pos_quantity p = q
               \<and> pos_side p = (if fin_side sg = BUY then LONG else SHORT)
               \<and> pos_stop_loss p = Some (fin_stop_loss sg) \<and> pos_take_profit p = Some (fin_take_profit sg))"
      using sub by (auto simp: opens_def)
  qed (use submitted gate in \<open>auto simp: build_intent_def\<close>)
qed

definition demo_final :: final_signal where
  "demo_final = \<lparr>final_signal_id = ''fs'', fin_symbol = ''BTC'', fin_side = BUY, fin_entry_price = 100,
     fin_stop_loss = 90, fin_take_profit = 130, fin_confidence = 0.8, risk_reward = 3,
     fin_timeframe = ''1h'', fin_event_time = 5, fin_decision_time = 6, contributing_providers = [],
     fin_state_snapshot_id = ''s'', fin_revision_id = None, size_multiplier = 1\<rparr>"

definition demo_decision :: "decision_log \<Rightarrow> decision" where
  "demo_decision l = \<lparr>decision_id = ''d'',
     dec_result = \<lparr>dr_value = Approved, dr_rejection_reason = None, dr_rejection_stage = None\<rparr>,
     dec_final_signal = Some demo_final, dec_log = l, dec_correlation_id = ''c'', dec_event_time = 5,
     dec_decision_time = 6, dec_revision_id = None, dec_experiment_id = None\<rparr>"

lemma demo_executes:
  obtains res st' k where "execute unary_env (demo_setup At_close) demo_args (demo_decision l)
      (snapshot_of demo_store) demo_bar (init_exec_state, 0) = Inr (res, st', k)"
    and "er_transitions res \<noteq> []"
proof -
  let ?X = "demo_setup At_close" and ?d = "demo_decision l" and ?snap = "snapshot_of demo_store"
  let ?a = "demo_args\<lparr>xa_event_time := dec_event_time ?d\<rparr>"
  let ?q = "position_size ?X ?snap (fin_entry_price demo_final) (fin_stop_loss demo_final) (size_multiplier demo_final)"
  let ?oi = "build_intent unary_env ?a ?d demo_final ?q ?snap 0"
  have q: "?q = 10" by (simp add: demo_final_def demo_size)
  then have pos: "0 < ?q" by simp
  have g: "gate_check ?oi ?snap = Inr \<lparr>xr_passed = True, xr_reason = None\<rparr>"
    unfolding q by (simp add: gate_check_def build_intent_def snapshot_of_def demo_store_def init_store_def Let_def
        default_limits_def demo_final_def)
  have ap: "is_approved ?d" "dec_final_signal ?d = Some demo_final"
    "\<not> (long_only (xs_config ?X) \<and> fin_side demo_final = SELL)"
    by (simp_all add: is_approved_def demo_decision_def demo_setup_def)
  obtain evs cause n1 where em: "emit_if (xs_emit_events ?X) (exec_event unary_env ?X ?a OrderIntentCreated (P_intent ?oi) None)
        None ([], None, Suc 0) = (evs, cause, n1)" by (metis prod_cases3)
  obtain res st' k where sub: "submit_order unary_env ?X ?a ?d demo_final ?q ?oi demo_bar ?snap (evs, cause)
      (init_exec_state, n1) = (res, st', k)" by (metis prod_cases3)
  have "execute unary_env ?X demo_args ?d ?snap demo_bar (init_exec_state, 0) = Inr (res, st', k)"
    unfolding execute_steps [OF ap refl pos refl refl em] by (simp add: g sub)
  moreover have "er_transitions res \<noteq> []"
    using submit_order_result [OF sub] by (auto simp: demo_setup_def)
  ultimately show thesis by (rule that)
qed

theorem execute_opens_within_limits_witness:
  "\<forall>l. \<exists>res st' k p. execute unary_env (demo_setup At_close) demo_args (demo_decision l) (snapshot_of demo_store)
       demo_bar (init_exec_state, 0) = Inr (res, st', k)
     \<and> concat (map opens (er_transitions res)) = [p] \<and> pos_side p = LONG \<and> pos_stop_loss p = Some 90"
proof
  fix l
  obtain res st' k where e: "execute unary_env (demo_setup At_close) demo_args (demo_decision l)
      (snapshot_of demo_store) demo_bar (init_exec_state, 0) = Inr (res, st', k)"
    and ne: "er_transitions res \<noteq> []"
    by (rule demo_executes)
  from execute_opens_within_limits [OF e disjI1 [OF ne]] e show "\<exists>res st' k p. execute unary_env (demo_setup At_close) demo_args (demo_decision l) (snapshot_of demo_store)
       demo_bar (init_exec_state, 0) = Inr (res, st', k)
     \<and> concat (map opens (er_transitions res)) = [p] \<and> pos_side p = LONG \<and> pos_stop_loss p = Some 90"
    by (auto simp: demo_decision_def demo_final_def demo_setup_def)
qed

text \<open>The sizing and the gate disagree by a rounding step. On a fresh account with the
  default limits, a one per cent stop at 30000 is capped by the exposure left, 5000, and
  the quantity is rounded up to 0.16666667; the gate then finds 50.000001 per cent and
  rejects the order the sizing had capped to fit.\<close>

theorem capped_size_fails_gate:
  "position_size (demo_setup At_close) (snapshot_of demo_store) 30000 29700 1 = 0.16666667
   \<and> gate_check (build_intent unary_env demo_args (demo_decision l)
        (demo_final\<lparr>fin_entry_price := 30000, fin_stop_loss := 29700\<rparr>)
        (position_size (demo_setup At_close) (snapshot_of demo_store) 30000 29700 1)
        (snapshot_of demo_store) 0) (snapshot_of demo_store)
      = Inr \<lparr>xr_passed = False, xr_reason = Some ''max_exposure''\<rparr>"
proof -
  have r: "round_half_even (50000000 / 3) = 16666667"
    by (simp add: round_half_even_def Let_def)
  have q: "position_size (demo_setup At_close) (snapshot_of demo_store) 30000 29700 1 = 0.16666667"
    by (simp add: position_size_def demo_setup_def snapshot_of_def demo_store_def init_store_def Let_def
        size_caps_def default_limits_def py_round_def r)
  show ?thesis
    unfolding q
    by (simp add: gate_check_def build_intent_def snapshot_of_def demo_store_def init_store_def Let_def
        default_limits_def demo_final_def)
qed

end
