(* ===== verification/EventBus.thy ===== *)
theory EventBus
  imports Contracts
begin

text \<open>
  \<^verbatim>\<open>backend/src/events/in_memory_bus.py\<close> and \<^verbatim>\<open>redis_bus.py\<close>: publishing to the handlers
  of a bus. A handler has the event types it subscribes to (none means all) and an effect
  on the outside world, which may raise. The locale \<open>event_bus\<close> states what both buses
  promise about the order and the completeness of publication.
\<close>

type_synonym 'w handler = "event_type list \<times> (event \<Rightarrow> 'w \<Rightarrow> 'w \<times> unit result)"

definition wants :: "'w handler \<Rightarrow> event \<Rightarrow> bool" where
  "wants h e \<longleftrightarrow> fst h = [] \<or> ev_type e \<in> set (fst h)"

fun dispatch :: "'w handler list \<Rightarrow> event \<Rightarrow> 'w \<Rightarrow> 'w \<times> unit result" where
  "dispatch [] e w = (w, Inr ())"
| "dispatch (h # hs) e w =
     (if wants h e then
        (case snd h e w of
           (w', Inl err) \<Rightarrow> (w', Inl err)
         | (w', Inr _) \<Rightarrow> dispatch hs e w')
      else dispatch hs e w)"


subsection \<open>The two buses\<close>

record 'w bus =
  bus_handlers :: "'w handler list"
  bus_published :: "event list"

definition new_bus :: "'w handler list \<Rightarrow> 'w bus" where
  "new_bus hs = \<lparr>bus_handlers = hs, bus_published = []\<rparr>"

definition add_handler :: "'w handler \<Rightarrow> 'w bus \<Rightarrow> 'w bus" where
  "add_handler h b = b\<lparr>bus_handlers := bus_handlers b @ [h]\<rparr>"

definition clear_bus :: "'w bus \<Rightarrow> 'w bus" where
  "clear_bus b = b\<lparr>bus_published := []\<rparr>"

definition memory_publish :: "event \<Rightarrow> 'w bus \<times> 'w \<Rightarrow> ('w bus \<times> 'w) \<times> unit result" where
  "memory_publish e = (\<lambda>(b, w).
     let b' = b\<lparr>bus_published := bus_published b @ [e]\<rparr>
     in case dispatch (bus_handlers b) e w of (w', r) \<Rightarrow> ((b', w'), r))"

fun publish_many :: "(event \<Rightarrow> 's \<Rightarrow> 's \<times> unit result) \<Rightarrow> event list \<Rightarrow> 's \<Rightarrow> 's \<times> unit result" where
  "publish_many publish [] s = (s, Inr ())"
| "publish_many publish (e # es) s =
     (case publish e s of
        (s', Inl err) \<Rightarrow> (s', Inl err)
      | (s', Inr _) \<Rightarrow> publish_many publish es s')"

text \<open>The Redis bus sends the event to the channel first, while it is connected; the send
  is an effect of the redis package and may raise. It has its own loops over handlers and events.\<close>

type_synonym 'w redis = "(event \<Rightarrow> 'w \<Rightarrow> 'w \<times> unit result) option"

fun redis_dispatch :: "'w handler list \<Rightarrow> event \<Rightarrow> 'w \<Rightarrow> 'w \<times> unit result" where
  "redis_dispatch [] e w = (w, Inr ())"
| "redis_dispatch (h # hs) e w =
     (if wants h e then
        (case snd h e w of
           (w', Inl err) \<Rightarrow> (w', Inl err)
         | (w', Inr _) \<Rightarrow> redis_dispatch hs e w')
      else redis_dispatch hs e w)"

definition redis_publish :: "'w redis \<Rightarrow> event \<Rightarrow> 'w bus \<times> 'w \<Rightarrow> ('w bus \<times> 'w) \<times> unit result" where
  "redis_publish conn e = (\<lambda>(b, w).
     let b' = b\<lparr>bus_published := bus_published b @ [e]\<rparr>
     in case (case conn of None \<Rightarrow> (w, Inr ()) | Some send \<Rightarrow> send e w) of
          (w', Inl err) \<Rightarrow> ((b', w'), Inl err)
        | (w', Inr _) \<Rightarrow> (case redis_dispatch (bus_handlers b) e w' of (w'', r) \<Rightarrow> ((b', w''), r)))"

fun redis_publish_many :: "'w redis \<Rightarrow> event list \<Rightarrow> 'w bus \<times> 'w \<Rightarrow> ('w bus \<times> 'w) \<times> unit result" where
  "redis_publish_many conn [] s = (s, Inr ())"
| "redis_publish_many conn (e # es) s =
     (case redis_publish conn e s of
        (s', Inl err) \<Rightarrow> (s', Inl err)
      | (s', Inr _) \<Rightarrow> redis_publish_many conn es s')"


subsection \<open>What a bus promises\<close>

locale event_bus =
  fixes publish :: "event \<Rightarrow> 's \<Rightarrow> 's \<times> unit result"
    and published :: "'s \<Rightarrow> event list"
  assumes publish_appends: "published (fst (publish e s)) = published s @ [e]"
begin

lemma publish_many_prefix:
  "\<exists>j \<le> length es. published (fst (publish_many publish es s)) = published s @ take j es
     \<and> (snd (publish_many publish es s) = Inr () \<longrightarrow> j = length es)
     \<and> (snd (publish_many publish es s) \<noteq> Inr () \<longrightarrow> 0 < j)"
proof (induction es arbitrary: s)
  case (Cons e es)
  obtain s' r where p: "publish e s = (s', r)" by fastforce
  with publish_appends [of e s] have s': "published s' = published s @ [e]" by simp
  show ?case
  proof (cases r)
    case (Inl err)
    with p s' show ?thesis by (intro exI [of _ 1]) auto
  next
    case (Inr u)
    from Cons.IH [of s'] obtain j where "j \<le> length es"
      "published (fst (publish_many publish es s')) = published s' @ take j es"
      "snd (publish_many publish es s') = Inr () \<longrightarrow> j = length es"
      "snd (publish_many publish es s') \<noteq> Inr () \<longrightarrow> 0 < j" by blast
    with p s' Inr show ?thesis by (intro exI [of _ "Suc j"]) auto
  qed
qed simp

end

interpretation memory: event_bus memory_publish "\<lambda>s. bus_published (fst s)"
  by unfold_locales (auto simp: memory_publish_def Let_def split: prod.splits)

interpretation redis: event_bus "redis_publish conn" "\<lambda>s. bus_published (fst s)" for conn
  by unfold_locales (auto simp: redis_publish_def Let_def split: prod.splits sum.splits)


subsection \<open>Delivery\<close>

text \<open>Handlers that only record what they are given: the i-th handler appends i and the event
  to the world. They make the deliveries of a run visible.\<close>

definition recorder :: "nat \<Rightarrow> event_type list \<Rightarrow> (nat \<times> event) list handler" where
  "recorder i types = (types, \<lambda>e w. (w @ [(i, e)], Inr ()))"

definition recorders :: "event_type list list \<Rightarrow> (nat \<times> event) list handler list" where
  "recorders subs = map2 recorder [0..<length subs] subs"

definition deliveries :: "event_type list list \<Rightarrow> event \<Rightarrow> (nat \<times> event) list" where
  "deliveries subs e = concat (map2 (\<lambda>i types. if types = [] \<or> ev_type e \<in> set types then [(i, e)] else [])
     [0..<length subs] subs)"

lemma dispatch_records:
  "length is = length subs \<Longrightarrow>
   dispatch (map2 recorder is subs) e w =
     (w @ concat (map2 (\<lambda>i types. if types = [] \<or> ev_type e \<in> set types then [(i, e)] else []) is subs), Inr ())"
  by (induction "is" subs arbitrary: w rule: list_induct2) (simp_all add: recorder_def wants_def)

lemma memory_publish_records:
  "memory_publish e (\<lparr>bus_handlers = recorders subs, bus_published = ps\<rparr>, w) =
     ((\<lparr>bus_handlers = recorders subs, bus_published = ps @ [e]\<rparr>, w @ deliveries subs e), Inr ())"
  by (simp add: memory_publish_def recorders_def dispatch_records deliveries_def Let_def)

text \<open>A bus whose handlers do not fail delivers every published event exactly once to every
  handler that subscribes to its type and to no other, event by event in the order of
  publication and handler by handler in the order of registration; the published log grows
  by exactly the events.\<close>

theorem publish_many_delivers_in_order:
  "publish_many memory_publish es (new_bus (recorders subs), w) =
     ((\<lparr>bus_handlers = recorders subs, bus_published = es\<rparr>, w @ concat (map (deliveries subs) es)), Inr ())"
proof -
  have "publish_many memory_publish es (\<lparr>bus_handlers = recorders subs, bus_published = ps\<rparr>, w) =
     ((\<lparr>bus_handlers = recorders subs, bus_published = ps @ es\<rparr>,
        w @ concat (map (deliveries subs) es)), Inr ())" for ps
    by (induction es arbitrary: ps w) (simp_all add: memory_publish_records)
  from this [of "[]"] show ?thesis by (simp add: new_bus_def)
qed

text \<open>The world of a connected bus is the channel and what the handlers act on. A send acts on the one, a
  handler on the other.\<close>

definition on_channel :: "(event \<Rightarrow> 'c \<Rightarrow> 'c \<times> unit result) \<Rightarrow> event \<Rightarrow> 'c \<times> 'w \<Rightarrow> ('c \<times> 'w) \<times> unit result" where
  "on_channel send e = (\<lambda>(c, w). case send e c of (c', r) \<Rightarrow> ((c', w), r))"

definition on_world :: "'w handler \<Rightarrow> ('c \<times> 'w) handler" where
  "on_world h = (fst h, \<lambda>e (c, w). case snd h e w of (w', r) \<Rightarrow> ((c, w'), r))"

text \<open>The events whose sends go well, one after the other, up to the first that does not.\<close>

fun sent :: "(event \<Rightarrow> 'c \<Rightarrow> 'c \<times> unit result) \<Rightarrow> event list \<Rightarrow> 'c \<Rightarrow> event list \<times> 'c \<times> py_error option" where
  "sent send [] c = ([], c, None)"
| "sent send (e # es) c =
     (case send e c of
        (c', Inl err) \<Rightarrow> ([], c', Some err)
      | (c', Inr _) \<Rightarrow> (case sent send es c' of (pre, c'', x) \<Rightarrow> (e # pre, c'', x)))"

lemma redis_dispatch_same: "redis_dispatch hs e w = dispatch hs e w"
  by (induction hs arbitrary: w) (auto split: prod.split sum.split)

lemma dispatch_on_world:
  "redis_dispatch (map on_world hs) e (c, w) = (case dispatch hs e w of (w', r) \<Rightarrow> ((c, w'), r))"
proof (induction hs arbitrary: w)
  case (Cons h hs)
  then show ?case by (auto simp: on_world_def wants_def split: prod.split sum.split)
qed simp

lemma redis_unconnected: "redis_publish_many None es s = publish_many memory_publish es s"
proof (induction es arbitrary: s)
  case (Cons e es)
  have "redis_publish None e s = memory_publish e s"
    by (simp add: redis_publish_def memory_publish_def redis_dispatch_same split: prod.split)
  with Cons show ?case by (simp split: prod.split sum.split)
qed simp

lemma sent_prefix: "sent send es c = (pre, c2, x) \<Longrightarrow> pre = take (length pre) es"
  by (induction es arbitrary: c pre) (auto split: prod.splits sum.splits)

lemma redis_connected:
  "redis_publish_many (Some (on_channel send)) es (\<lparr>bus_handlers = map on_world hs, bus_published = ps\<rparr>, (c, w)) = ((rb, (c', v)), q)
   \<Longrightarrow> sent send es c = (pre, c2, x)
   \<Longrightarrow> bus_handlers rb = map on_world hs \<and>
     (case publish_many memory_publish pre (\<lparr>bus_handlers = hs, bus_published = ps\<rparr>, w) of
        ((b, w'), Inl err) \<Rightarrow> bus_published rb = bus_published b \<and> v = w' \<and> q = Inl err
      | ((b, w'), Inr _) \<Rightarrow> v = w' \<and> c' = c2 \<and>
          (case x of
             None \<Rightarrow> pre = es \<and> bus_published rb = ps @ es \<and> q = Inr ()
           | Some err \<Rightarrow> length pre < length es \<and> bus_published rb = ps @ take (Suc (length pre)) es \<and> q = Inl err))"
proof (induction es arbitrary: ps c w pre)
  case (Cons e es)
  obtain c1 r1 where s: "send e c = (c1, r1)" by fastforce
  show ?case
  proof (cases r1)
    case (Inl err)
    with Cons.prems s show ?thesis
      by (auto simp: redis_publish_def on_channel_def Let_def)
  next
    case (Inr u)
    obtain pre' where pre: "sent send es c1 = (pre', c2, x)" "pre = e # pre'"
      using Cons.prems(2) s Inr by (auto split: prod.splits)
    obtain w1 r2 where d: "dispatch hs e w = (w1, r2)" by fastforce
    have p: "redis_publish (Some (on_channel send)) e (\<lparr>bus_handlers = map on_world hs, bus_published = ps\<rparr>, (c, w))
        = ((\<lparr>bus_handlers = map on_world hs, bus_published = ps @ [e]\<rparr>, (c1, w1)), r2)"
      using s Inr d by (simp add: redis_publish_def on_channel_def dispatch_on_world)
    have m: "memory_publish e (\<lparr>bus_handlers = hs, bus_published = ps\<rparr>, w) = ((\<lparr>bus_handlers = hs, bus_published = ps @ [e]\<rparr>, w1), r2)"
      using d by (simp add: memory_publish_def)
    show ?thesis
    proof (cases r2)
      case (Inl err)
      with Cons.prems(1) p m pre show ?thesis by (auto simp: m)
    next
      case (Inr u2)
      with Cons.prems(1) p have "redis_publish_many (Some (on_channel send)) es
          (\<lparr>bus_handlers = map on_world hs, bus_published = ps @ [e]\<rparr>, (c1, w1)) = ((rb, (c', v)), q)" by simp
      from Cons.IH [OF this pre(1)] Inr m pre(2) show ?thesis by (auto split: prod.splits sum.splits option.splits)
    qed
  qed
qed auto

text \<open>C36: the Redis bus behaves like the in-memory bus. Without a connection it is the same bus. With one,
  as long as the sends go well the handlers are called as the in-memory bus calls them, in the
  same order and with the same effect, the log is the same and so is the error of a handler that
  fails; the first send that fails ends the publication with its error, when every event before it
  has been delivered and its own event is in the log but with no handler.\<close>

theorem redis_refines_memory:
  assumes "redis_publish_many (Some (on_channel send)) es (\<lparr>bus_handlers = map on_world hs, bus_published = ps\<rparr>, (c, w)) = ((rb, (c', v)), q)"
    and "sent send es c = (pre, c2, x)"
  shows "redis_publish_many None es s = publish_many memory_publish es s \<and> pre = take (length pre) es
    \<and> (case publish_many memory_publish pre (\<lparr>bus_handlers = hs, bus_published = ps\<rparr>, w) of
        ((b, w'), Inl err) \<Rightarrow> bus_published rb = bus_published b \<and> v = w' \<and> q = Inl err
      | ((b, w'), Inr _) \<Rightarrow> v = w' \<and> c' = c2 \<and>
          (case x of
             None \<Rightarrow> pre = es \<and> bus_published rb = ps @ es \<and> q = Inr ()
           | Some err \<Rightarrow> length pre < length es \<and> bus_published rb = ps @ take (Suc (length pre)) es \<and> q = Inl err))"
  using redis_connected [OF assms] redis_unconnected [of es s] sent_prefix [OF assms(2)] by simp

text \<open>A handler that raises stops the rest. If the publication of a list of events fails, the
  published log holds a proper, non-empty beginning of the list up to and including the
  event that failed; if it succeeds, the log holds the whole list. On both buses.\<close>

theorem publish_many_stops_at_failure:
  "(\<exists>j \<le> length es. bus_published (fst (fst (publish_many memory_publish es s))) = bus_published (fst s) @ take j es
     \<and> (snd (publish_many memory_publish es s) = Inr () \<longrightarrow> j = length es)
     \<and> (snd (publish_many memory_publish es s) \<noteq> Inr () \<longrightarrow> 0 < j))
   \<and> (\<exists>j \<le> length es. bus_published (fst (fst (publish_many (redis_publish conn) es s))) = bus_published (fst s) @ take j es
     \<and> (snd (publish_many (redis_publish conn) es s) = Inr () \<longrightarrow> j = length es)
     \<and> (snd (publish_many (redis_publish conn) es s) \<noteq> Inr () \<longrightarrow> 0 < j))"
  using memory.publish_many_prefix [of es s] redis.publish_many_prefix [of es conn s] by blast

lemma redis_publish_many_generic: "redis_publish_many conn es s = publish_many (redis_publish conn) es s"
  by (induction es arbitrary: s) (auto split: prod.split sum.split)

definition demo_event :: "event_type \<Rightarrow> event" where
  "demo_event typ = fst (build_envelope unary_env
     \<lparr>em_event_time = 0, em_processing_time = 0, em_correlation_id = ''c'', em_symbol = ''BTC'',
      em_timeframe = ''1h'', em_mode = Paper_mode, em_experiment_id = None, em_revision_id = None\<rparr>
     Fam_execution typ (P_failed '''' '''') None 0)"

theorem publish_many_stops_at_failure_witness:
  "bus_published (fst (fst (publish_many memory_publish [demo_event CandleReceived, demo_event OrderRejected]
     (new_bus [([CandleReceived], \<lambda>e w. (w, Inl StopIteration))], ()))))
   = [demo_event CandleReceived]"
proof -
  let ?s = "(new_bus [([CandleReceived], \<lambda>e w. (w, Inl StopIteration))], ())"
  let ?es = "[demo_event CandleReceived, demo_event OrderRejected]"
  have fails: "snd (publish_many memory_publish ?es ?s) \<noteq> Inr ()"
    and one: "length (bus_published (fst (fst (publish_many memory_publish ?es ?s)))) = 1"
    by (simp_all add: memory_publish_def new_bus_def wants_def demo_event_def Let_def)
  obtain j where j: "j \<le> length ?es" "0 < j"
    "bus_published (fst (fst (publish_many memory_publish ?es ?s))) = take j ?es"
    using publish_many_stops_at_failure [of ?es ?s None, THEN conjunct1] fails by (auto simp: new_bus_def)
  then have "length (take j ?es) = 1" using one by simp
  with j(1,2) have "j = 1" by simp
  with j(3) show ?thesis by simp
qed

text \<open>A channel that takes one event only: the second send fails, after the first event was delivered.\<close>

theorem redis_refines_memory_witness:
  "\<exists>rb c' v. redis_publish_many (Some (on_channel (\<lambda>e n. if n = 0 then (Suc n, Inr ()) else (n, Inl StopIteration))))
       [demo_event CandleReceived, demo_event OrderRejected]
       (\<lparr>bus_handlers = map on_world [([], \<lambda>e w. (w @ [ev_type e], Inr ()))], bus_published = []\<rparr>, (0 :: nat, [])) = ((rb, (c', v)), Inl StopIteration)
     \<and> v = [CandleReceived] \<and> length (bus_published rb) = 2"
proof -
  let ?send = "\<lambda>e n. if n = 0 then (Suc n, Inr ()) else (n, Inl StopIteration)" and ?hs = "[([], \<lambda>e w. (w @ [ev_type e], Inr ()))]"
  let ?es = "[demo_event CandleReceived, demo_event OrderRejected]"
  have p: "sent ?send ?es 0 = ([demo_event CandleReceived], 1, Some StopIteration)" by simp
  obtain X q where "redis_publish_many (Some (on_channel ?send)) ?es
      (\<lparr>bus_handlers = map on_world ?hs, bus_published = []\<rparr>, (0, [])) = (X, q)" by fastforce
  moreover obtain rb c' v where "X = (rb, (c', v))" by (cases X) auto
  ultimately have r: "redis_publish_many (Some (on_channel ?send)) ?es
      (\<lparr>bus_handlers = map on_world ?hs, bus_published = []\<rparr>, (0, [])) = ((rb, (c', v)), q)" by simp
  from redis_refines_memory [OF r p, THEN conjunct2, THEN conjunct2]
  have "v = [CandleReceived] \<and> length (bus_published rb) = 2 \<and> q = Inl StopIteration"
    by (simp add: memory_publish_def wants_def Let_def demo_event_def build_envelope_def)
  with r show ?thesis by blast
qed

end
