(* ===== verification/MarketData.thy ===== *)
theory MarketData
  imports Contracts "HOL-Library.Sublist"
begin

text \<open>
  \<^verbatim>\<open>backend/src/data/csv_provider.py\<close> and \<^verbatim>\<open>live_provider.py\<close>: where bars come from.
  A data frame is its rows in order, each a timestamp and a bar. The file system and the
  exchange (the ccxt package) are parameters; what the classes do with their answers is
  modelled. The locale \<open>market_data\<close> is the contract the runtime needs of a provider.
\<close>

type_synonym frame = "(datetime \<times> bar) list"

definition sort_frame :: "frame \<Rightarrow> frame" where
  "sort_frame df = sort_key fst df"

lemma sort_frame_simps [simp]:
  "set (sort_frame df) = set df" "sorted (map fst (sort_frame df))" "sort_frame df = [] \<longleftrightarrow> df = []"
  "sort_frame [] = []"
  by (simp_all add: sort_frame_def) (metis length_sort length_0_conv)

definition tail_rows :: "nat \<Rightarrow> 'a list \<Rightarrow> 'a list" where
  "tail_rows k xs = drop (length xs - k) xs"

lemma set_tail_rows: "x \<in> set (tail_rows k xs) \<Longrightarrow> x \<in> set xs"
  unfolding tail_rows_def by (rule in_set_dropD)

lemma tail_rows_Nil [simp]: "0 < k \<Longrightarrow> tail_rows k xs = [] \<longleftrightarrow> xs = []"
  by (cases xs) (auto simp: tail_rows_def)

lemma Nil_tail_rows [simp]: "0 < k \<Longrightarrow> [] = tail_rows k xs \<longleftrightarrow> xs = []"
  by (cases xs) (auto simp: tail_rows_def)

lemma length_tail_rows [simp]: "length (tail_rows k xs) = min k (length xs)"
  by (simp add: tail_rows_def)

lemma last_tail_rows: "0 < k \<Longrightarrow> xs \<noteq> [] \<Longrightarrow> last (tail_rows k xs) = last xs"
  by (simp add: tail_rows_def last_drop)


subsection \<open>The contract of a provider\<close>

text \<open>
  What the runtime relies on when it asks for the latest bars up to an end time: a frame
  that is not empty and has no bar after the end. The tick counts the answers the provider
  drew from the outside world.
\<close>

locale market_data =
  fixes latest :: "string \<Rightarrow> string \<Rightarrow> datetime \<Rightarrow> tick \<Rightarrow> (frame \<times> tick) result"
  assumes latest_nonempty: "latest s tf e n = Inr (df, k) \<Longrightarrow> df \<noteq> []"
    and latest_upto: "latest s tf e n = Inr (df, k) \<Longrightarrow> r \<in> set df \<Longrightarrow> fst r \<le> e"
    and latest_tick: "latest s tf e n = Inr (df, k) \<Longrightarrow> n \<le> k"
begin

lemma last_bar_upto: "latest s tf e n = Inr (df, k) \<Longrightarrow> fst (last df) \<le> e"
  by (rule latest_upto, assumption, rule last_in_set, rule latest_nonempty)

end


subsection \<open>CSV files (csv_provider.py)\<close>

record csv_provider =
  csv_symbol :: string
  csv_timeframe :: string
  csv_df :: frame

definition required_columns :: "string list" where
  "required_columns = [''close'', ''high'', ''low'', ''open'', ''timestamp'', ''volume'']"

text \<open>\<^verbatim>\<open>_load\<close>: a file is absent, or has columns and rows; the required columns are
  listed in the sorted order the error message shows them in.\<close>

definition csv_load :: "(string list \<times> frame) option \<Rightarrow> frame result" where
  "csv_load file =
     (case file of None \<Rightarrow> Inl (DataProviderError ''CSV file not found'')
      | Some (cols, rows) \<Rightarrow>
          if filter (\<lambda>c. c \<notin> set cols) required_columns \<noteq> []
          then Inl (DataProviderError (''CSV missing columns: ''
                 @ concat (filter (\<lambda>c. c \<notin> set cols) required_columns)))
          else Inr (sort_frame rows))"

definition csv_open :: "(string list \<times> frame) option \<Rightarrow> string \<Rightarrow> string \<Rightarrow> csv_provider result" where
  "csv_open file symb tf =
     and_then (csv_load file) (\<lambda>df. Inr \<lparr>csv_symbol = symb, csv_timeframe = tf, csv_df = df\<rparr>)"

definition csv_validate :: "csv_provider \<Rightarrow> string \<Rightarrow> string \<Rightarrow> unit result" where
  "csv_validate p symb tf =
     (if symb \<noteq> csv_symbol p then Inl (DataProviderError (''CSV provider only supports symbol '' @ csv_symbol p))
      else if tf \<noteq> csv_timeframe p
        then Inl (DataProviderError (''CSV provider only supports timeframe '' @ csv_timeframe p))
      else Inr ())"

text \<open>\<^verbatim>\<open>searchsorted\<close> on the sorted timestamp column.\<close>

definition search_left :: "frame \<Rightarrow> datetime \<Rightarrow> nat" where
  "search_left df t = length (takeWhile (\<lambda>r. fst r < t) df)"

definition search_right :: "frame \<Rightarrow> datetime \<Rightarrow> nat" where
  "search_right df t = length (takeWhile (\<lambda>r. fst r \<le> t) df)"

definition range_slice :: "csv_provider \<Rightarrow> datetime \<Rightarrow> datetime \<Rightarrow> nat \<times> nat" where
  "range_slice p start end = (search_left (csv_df p) start, search_right (csv_df p) end)"

definition iloc :: "nat \<Rightarrow> nat \<Rightarrow> 'a list \<Rightarrow> 'a list" where
  "iloc i j xs = drop i (take j xs)"

definition csv_get_ohlcv ::
  "csv_provider \<Rightarrow> string \<Rightarrow> string \<Rightarrow> datetime \<Rightarrow> datetime \<Rightarrow> frame result" where
  "csv_get_ohlcv p symb tf start end =
     and_then (csv_validate p symb tf) (\<lambda>_.
       case range_slice p start end of (l, r) \<Rightarrow> Inr (iloc l r (csv_df p)))"

definition csv_timestamps ::
  "csv_provider \<Rightarrow> string \<Rightarrow> string \<Rightarrow> datetime \<Rightarrow> datetime \<Rightarrow> datetime list result" where
  "csv_timestamps p symb tf start end =
     and_then (csv_validate p symb tf) (\<lambda>_.
       case range_slice p start end of (l, r) \<Rightarrow> Inr (map fst (iloc l r (csv_df p))))"

definition csv_get_latest ::
  "csv_provider \<Rightarrow> string \<Rightarrow> string \<Rightarrow> nat \<Rightarrow> datetime option \<Rightarrow> frame result" where
  "csv_get_latest p symb tf limit end_opt =
     and_then (csv_validate p symb tf) (\<lambda>_.
       if csv_df p = [] then Inl (DataProviderError ''CSV OHLCV data is empty'')
       else (case end_opt of
           Some e \<Rightarrow>
             (let idx = search_right (csv_df p) e
              in if idx = 0 then Inl (DataProviderError ''No OHLCV rows on or before end time'')
                 else Inr (iloc (idx - limit) idx (csv_df p)))
         | None \<Rightarrow>
             if limit \<ge> length (csv_df p) then Inr (csv_df p)
             else Inr (tail_rows limit (csv_df p))))"

lemma take_search_right: "take (search_right df t) df = takeWhile (\<lambda>r. fst r \<le> t) df"
  by (simp add: search_right_def takeWhile_eq_take [symmetric])

lemma csv_get_latest_end:
  "csv_get_latest p symb tf limit (Some e) = Inr df \<longleftrightarrow>
     csv_validate p symb tf = Inr () \<and> takeWhile (\<lambda>r. fst r \<le> e) (csv_df p) \<noteq> []
     \<and> df = tail_rows limit (takeWhile (\<lambda>r. fst r \<le> e) (csv_df p))"
  by (cases "csv_validate p symb tf")
    (auto simp: csv_get_latest_def Let_def search_right_def iloc_def tail_rows_def takeWhile_eq_take [symmetric])

lemma sorted_takeWhile_le:
  "sorted (map fst df) \<Longrightarrow> takeWhile (\<lambda>r. fst r \<le> t) df = filter (\<lambda>r. fst r \<le> (t::int)) df"
proof (induction df)
  case (Cons a df)
  show ?case
  proof (cases "fst a \<le> t")
    case True
    with Cons show ?thesis by simp
  next
    case False
    with Cons.prems have "filter (\<lambda>r. fst r \<le> t) df = []" by (fastforce simp: filter_empty_conv)
    with False show ?thesis by simp
  qed
qed simp

lemma sorted_dropWhile_less:
  "sorted (map fst df) \<Longrightarrow> dropWhile (\<lambda>r. fst r < t) df = filter (\<lambda>r. (t::int) \<le> fst r) df"
  by (induction df) (fastforce intro!: filter_True [symmetric])+

lemma iloc_range:
  assumes "sorted (map fst df)"
  shows "iloc (search_left df s) (search_right df e) df = filter (\<lambda>r. s \<le> fst r \<and> fst r \<le> e) df"
proof -
  let ?w = "takeWhile (\<lambda>r. fst r \<le> e) df"
  have "takeWhile (\<lambda>r. fst r < s) ?w = take (search_left df s) ?w"
  proof (cases "s \<le> e")
    case True
    have "takeWhile (\<lambda>r. fst r < s) (takeWhile (\<lambda>r. fst r \<le> e) df) = takeWhile (\<lambda>r. fst r < s) df"
      using True by (induction df) auto
    moreover have "take (search_left df s) ?w = takeWhile (\<lambda>r. fst r < s) df"
      using True by (induction df) (auto simp: search_left_def)
    ultimately show ?thesis by simp
  next
    case False
    have "takeWhile (\<lambda>r. fst r < s) ?w = ?w"
      using False by (auto simp: takeWhile_eq_all_conv dest!: set_takeWhileD)
    moreover have "length ?w \<le> search_left df s"
      unfolding search_left_def using False by (induction df) auto
    ultimately show ?thesis by simp
  qed
  then have "drop (search_left df s) ?w = dropWhile (\<lambda>r. fst r < s) ?w"
    by (metis append_take_drop_id same_append_eq takeWhile_dropWhile_id)
  also have "\<dots> = filter (\<lambda>r. s \<le> fst r) ?w"
    using assms by (intro sorted_dropWhile_less) (simp add: sorted_takeWhile takeWhile_map [symmetric] sorted_takeWhile_le sorted_filter)
  finally show ?thesis
    by (simp add: iloc_def take_search_right sorted_takeWhile_le [OF assms] conj_commute)
qed

text \<open>A CSV provider answers range queries exactly: opened on any file with the required
  columns, its bars between two times are the file's rows in that range, all of them and
  only them, in time order, and the timestamps it lists are those bars' timestamps.\<close>

theorem csv_range_exact:
  assumes "csv_open (Some (cols, rows)) symb tf = Inr p"
  shows "csv_get_ohlcv p symb tf s e = Inr (filter (\<lambda>r. s \<le> fst r \<and> fst r \<le> e) (sort_frame rows))
    \<and> csv_timestamps p symb tf s e
        = Inr (map fst (filter (\<lambda>r. s \<le> fst r \<and> fst r \<le> e) (sort_frame rows)))
    \<and> csv_get_latest p symb tf 200 (Some e)
        = (if filter (\<lambda>r. fst r \<le> e) rows = []
           then Inl (DataProviderError
             (if rows = [] then ''CSV OHLCV data is empty'' else ''No OHLCV rows on or before end time''))
           else Inr (tail_rows 200 (filter (\<lambda>r. fst r \<le> e) (sort_frame rows))))"
proof -
  from assms have p: "csv_df p = sort_frame rows" "csv_validate p symb tf = Inr ()"
    by (auto simp: csv_open_def csv_load_def csv_validate_def split: if_splits)
  have e: "takeWhile (\<lambda>r. fst r \<le> e) (sort_frame rows) = filter (\<lambda>r. fst r \<le> e) (sort_frame rows)"
    by (simp add: sorted_takeWhile_le)
  have n: "filter (\<lambda>r. fst r \<le> e) (sort_frame rows) = [] \<longleftrightarrow> filter (\<lambda>r. fst r \<le> e) rows = []"
    by (simp add: filter_empty_conv)
  have "search_right (sort_frame rows) e = 0 \<longleftrightarrow> filter (\<lambda>r. fst r \<le> e) rows = []"
    unfolding search_right_def e n [symmetric] by simp
  then have "csv_get_latest p symb tf 200 (Some e)
        = (if filter (\<lambda>r. fst r \<le> e) rows = []
           then Inl (DataProviderError
             (if rows = [] then ''CSV OHLCV data is empty'' else ''No OHLCV rows on or before end time''))
           else Inr (tail_rows 200 (filter (\<lambda>r. fst r \<le> e) (sort_frame rows))))"
    using csv_get_latest_end [of p symb tf 200 e] p
    by (auto simp: csv_get_latest_def Let_def e n)
  then show ?thesis
    by (simp add: csv_get_ohlcv_def csv_timestamps_def range_slice_def p iloc_range)
qed

definition demo_rows :: frame where
  "demo_rows = map (\<lambda>t. (t, \<lparr>bar_open = 1, bar_high = 2, bar_low = 1, bar_close = 2, bar_volume = 1\<rparr>)) [30, 10, 20]"

theorem csv_range_exact_witness:
  "\<exists>p. csv_open (Some (required_columns, demo_rows)) ''BTC'' ''1h'' = Inr p
     \<and> csv_timestamps p ''BTC'' ''1h'' 15 40 = Inr [20, 30]"
proof -
  obtain p where p: "csv_open (Some (required_columns, demo_rows)) ''BTC'' ''1h'' = Inr p"
    by (simp add: csv_open_def csv_load_def)
  from csv_range_exact [OF p, of 15 40] p show ?thesis
    by (simp add: demo_rows_def sort_frame_def)
qed

text \<open>The CSV provider as the runtime calls it: the default limit of 200 bars, and an end.\<close>

definition csv_latest :: "csv_provider \<Rightarrow> string \<Rightarrow> string \<Rightarrow> datetime \<Rightarrow> tick \<Rightarrow> (frame \<times> tick) result" where
  "csv_latest p symb tf e n = and_then (csv_get_latest p symb tf 200 (Some e)) (\<lambda>df. Inr (df, n))"

interpretation csv: market_data "csv_latest p" for p
  by unfold_locales
    (auto simp: csv_latest_def csv_get_latest_end dest!: set_tail_rows set_takeWhileD)


subsection \<open>A live exchange (live_provider.py)\<close>

text \<open>
  The exchange answers a fetch with bars (timestamps in milliseconds), with a rate-limit
  error or with another error; the answer to the n-th request is the parameter
  \<open>ex_fetch\<close> at n. Timeframe strings are parsed by the exchange package.
\<close>

datatype fetch_outcome = Bars "(int \<times> bar) list" | Rate_limited | Fetch_error

record exchange =
  ex_fetch :: "nat \<Rightarrow> string \<Rightarrow> string \<Rightarrow> int option \<Rightarrow> nat \<Rightarrow> fetch_outcome"
  ex_timeframe_seconds :: "string \<Rightarrow> int"

definition ms_of :: "datetime \<Rightarrow> int" where
  "ms_of t = (if 0 \<le> t then t div 1000 else - ((- t) div 1000))"

definition to_dataframe :: "(int \<times> bar) list \<Rightarrow> frame result" where
  "to_dataframe ohlcv =
     (if ohlcv = [] then Inl (DataProviderError ''Exchange returned empty OHLCV'')
      else Inr (sort_frame (map (\<lambda>(ms, b). (ms * 1000, b)) ohlcv)))"

text \<open>The last row is dropped while its candle is still forming.\<close>

definition drop_forming_candle :: "exchange \<Rightarrow> string \<Rightarrow> datetime \<Rightarrow> frame \<Rightarrow> frame" where
  "drop_forming_candle X tf now df =
     (if df = [] then df
      else if fst (last df) + ex_timeframe_seconds X tf * 1000000 > now then butlast df else df)"

text \<open>\<^verbatim>\<open>get_latest\<close>: three attempts; every attempt asks the exchange and reads the
  wall clock once each, when it gets that far.\<close>

fun live_attempts ::
  "exchange \<Rightarrow> env \<Rightarrow> string \<Rightarrow> string \<Rightarrow> nat \<Rightarrow> datetime option \<Rightarrow> nat \<Rightarrow> tick \<Rightarrow> (frame \<times> tick) result"
where
  "live_attempts X E symb tf limit end_opt 0 n = Inl (DataProviderError ''Failed to fetch OHLCV'')"
| "live_attempts X E symb tf limit end_opt (Suc k) n =
     (case ex_fetch X n symb tf None (limit + 1) of
        Rate_limited \<Rightarrow> live_attempts X E symb tf limit end_opt k (Suc n)
      | Fetch_error \<Rightarrow> live_attempts X E symb tf limit end_opt k (Suc n)
      | Bars ohlcv \<Rightarrow>
          and_then (to_dataframe ohlcv) (\<lambda>df0.
            let df = drop_forming_candle X tf (wall_clock E (Suc n)) df0
            in case end_opt of
                 None \<Rightarrow> Inr (tail_rows limit df, Suc (Suc n))
               | Some e \<Rightarrow>
                   (let upto = filter (\<lambda>r. fst r \<le> e) df
                    in if upto = [] then Inl (DataProviderError ''No OHLCV rows on or before end time'')
                       else Inr (tail_rows limit upto, Suc (Suc n)))))"

definition live_get_latest ::
  "exchange \<Rightarrow> env \<Rightarrow> string \<Rightarrow> string \<Rightarrow> nat \<Rightarrow> datetime option \<Rightarrow> tick \<Rightarrow> (frame \<times> tick) result" where
  "live_get_latest X E symb tf limit end_opt n = live_attempts X E symb tf limit end_opt 3 n"

definition live_latest ::
  "exchange \<Rightarrow> env \<Rightarrow> string \<Rightarrow> string \<Rightarrow> datetime \<Rightarrow> tick \<Rightarrow> (frame \<times> tick) result" where
  "live_latest X E symb tf e n = live_get_latest X E symb tf 200 (Some e) n"

lemma live_attempts_upto:
  "live_attempts X E symb tf limit (Some e) m n = Inr (df, k) \<Longrightarrow>
   n \<le> k \<and> length df \<le> limit \<and>
   (\<exists>j ohlcv. n \<le> j \<and> k = Suc (Suc j) \<and> ex_fetch X j symb tf None (limit + 1) = Bars ohlcv \<and> ohlcv \<noteq> [] \<and>
     df = tail_rows limit (filter (\<lambda>r. fst r \<le> e) (drop_forming_candle X tf (wall_clock E (Suc j))
            (sort_frame (map (\<lambda>(ms, b). (ms * 1000, b)) ohlcv))))
     \<and> filter (\<lambda>r. fst r \<le> e) (drop_forming_candle X tf (wall_clock E (Suc j))
            (sort_frame (map (\<lambda>(ms, b). (ms * 1000, b)) ohlcv))) \<noteq> [])"
proof (induction m arbitrary: n)
  case (Suc m)
  show ?case
  proof (cases "ex_fetch X n symb tf None (limit + 1)")
    case (Bars ohlcv)
    with Suc.prems show ?thesis
      by (auto simp: to_dataframe_def Let_def split: if_splits)
  next
    case Rate_limited
    with Suc.prems have "live_attempts X E symb tf limit (Some e) m (Suc n) = Inr (df, k)" by simp
    from Suc.IH [OF this] show ?thesis by (elim conjE exE, intro conjI exI) (assumption | erule Suc_leD)+
  next
    case Fetch_error
    with Suc.prems have "live_attempts X E symb tf limit (Some e) m (Suc n) = Inr (df, k)" by simp
    from Suc.IH [OF this] show ?thesis by (elim conjE exE, intro conjI exI) (assumption | erule Suc_leD)+
  qed
qed simp

interpretation live: market_data "live_latest X E" for X E
proof
  fix s tf e n df k assume r: "live_latest X E s tf e n = Inr (df, k)"
  note u = live_attempts_upto [OF r [unfolded live_latest_def live_get_latest_def]]
  from u show "df \<noteq> []" by auto
  from u show "n \<le> k" by simp
  from u show "fst r \<le> e" if "r \<in> set df" for r
    using that by (auto dest!: set_tail_rows)
qed

text \<open>Bars at least one timeframe apart, none of which opens in the future: all but the last have closed.\<close>

lemma drop_forming_is_filter:
  assumes "sorted_wrt (\<lambda>a b. fst a + ex_timeframe_seconds X tf * 1000000 \<le> fst b) rows"
    and "\<forall>r \<in> set rows. fst r \<le> now"
  shows "drop_forming_candle X tf now rows = filter (\<lambda>r. fst r + ex_timeframe_seconds X tf * 1000000 \<le> now) rows"
proof (cases rows rule: rev_cases)
  case Nil
  then show ?thesis by (simp add: drop_forming_candle_def)
next
  case (snoc ys y)
  have "\<forall>a \<in> set ys. fst a + ex_timeframe_seconds X tf * 1000000 \<le> now"
    using assms unfolding snoc by (fastforce simp: sorted_wrt_append)
  then have "filter (\<lambda>r. fst r + ex_timeframe_seconds X tf * 1000000 \<le> now) ys = ys" by (simp add: filter_id_conv)
  then show ?thesis unfolding snoc by (simp add: drop_forming_candle_def)
qed

text \<open>C34: a live frame holds the closed bars, and no other. If the exchange's bars are at least one timeframe
  apart and none opens after the clock reading that follows their answer, the frame the provider
  returns is exactly the last two hundred of the bars answered that had closed at that reading, the
  last one before it returned, and are not after the requested end: a signal never reads a bar that
  is still forming, and none that has closed is left out. They are in time order.\<close>

theorem live_latest_only_closed_bars:
  assumes "live_latest X E s tf e n = Inr (df, k)"
    and "0 < ex_timeframe_seconds X tf"
    and "\<And>j bs. ex_fetch X j s tf None 201 = Bars bs \<Longrightarrow>
           sorted_wrt (\<lambda>a b. fst a + ex_timeframe_seconds X tf * 1000 \<le> fst b) bs
           \<and> (\<forall>b \<in> set bs. fst b * 1000 \<le> wall_clock E (Suc j))"
  shows "\<exists>j bs. n \<le> j \<and> k = Suc (Suc j) \<and> ex_fetch X j s tf None 201 = Bars bs
    \<and> df = tail_rows 200 (filter (\<lambda>r. fst r + ex_timeframe_seconds X tf * 1000000 \<le> wall_clock E (Suc j) \<and> fst r \<le> e)
        (map (\<lambda>(ms, b). (ms * 1000, b)) bs))
    \<and> (\<forall>r \<in> set df. fst r + ex_timeframe_seconds X tf * 1000000 \<le> wall_clock E (k - 1) \<and> fst r \<le> e)
    \<and> sorted (map fst df) \<and> df \<noteq> []"
proof -
  let ?T = "ex_timeframe_seconds X tf"
  note u = live_attempts_upto [OF assms(1) [unfolded live_latest_def live_get_latest_def]]
  then obtain j bs where k: "n \<le> j" "k = Suc (Suc j)" and f: "ex_fetch X j s tf None 201 = Bars bs"
    and df: "df = tail_rows 200 (filter (\<lambda>r. fst r \<le> e) (drop_forming_candle X tf (wall_clock E (Suc j))
            (sort_frame (map (\<lambda>(ms, b). (ms * 1000, b)) bs))))"
    and ne: "df \<noteq> []" by auto
  let ?rows = "map (\<lambda>(ms, b). (ms * 1000, b)) bs" and ?now = "wall_clock E (Suc j)"
  from assms(3) [OF f] have gap: "sorted_wrt (\<lambda>a b. fst a + ?T * 1000 \<le> fst b) bs" by blast
  have gap2: "sorted_wrt (\<lambda>a b. fst a + ?T * 1000000 \<le> fst b) ?rows"
    unfolding sorted_wrt_map by (rule sorted_wrt_mono_rel [OF _ gap]) auto
  have srt: "sorted (map fst ?rows)"
    unfolding sorted_map by (rule sorted_wrt_mono_rel [OF _ gap2]) (use assms(2) in auto)
  then have sf: "sort_frame ?rows = ?rows"
    by (simp add: sort_frame_def sort_key_id_if_sorted)
  have "\<forall>r \<in> set ?rows. fst r \<le> ?now" using assms(3) [OF f] by auto
  note closed = drop_forming_is_filter [OF gap2 this]
  have eq: "df = tail_rows 200 (filter (\<lambda>r. fst r + ?T * 1000000 \<le> ?now \<and> fst r \<le> e) ?rows)"
    unfolding df sf closed filter_filter by (rule refl)
  have "sorted (map fst (filter (\<lambda>r. fst r + ?T * 1000000 \<le> ?now \<and> fst r \<le> e) ?rows))" by (rule sorted_filter [OF srt])
  then have "sorted (map fst df)" unfolding eq tail_rows_def drop_map [symmetric] by (rule sorted_wrt_drop)
  moreover have "\<forall>r \<in> set df. fst r + ?T * 1000000 \<le> ?now \<and> fst r \<le> e"
  proof
    fix r assume "r \<in> set df"
    then have "r \<in> set (filter (\<lambda>r. fst r + ?T * 1000000 \<le> ?now \<and> fst r \<le> e) ?rows)" unfolding eq by (rule set_tail_rows)
    then show "fst r + ?T * 1000000 \<le> ?now \<and> fst r \<le> e" by simp
  qed
  moreover have "k - 1 = Suc j" by (simp add: k(2))
  ultimately have "\<forall>r \<in> set df. fst r + ?T * 1000000 \<le> wall_clock E (k - 1) \<and> fst r \<le> e" "sorted (map fst df)" by simp_all
  with k f eq ne show ?thesis by blast
qed

definition demo_candle :: bar where
  "demo_candle = \<lparr>bar_open = 1, bar_high = 2, bar_low = 1, bar_close = 2, bar_volume = 1\<rparr>"

definition demo_exchange :: exchange where
  "demo_exchange = \<lparr>ex_fetch = (\<lambda>_ _ _ _ _. Bars [(1000, demo_candle), (2000, demo_candle)]),
     ex_timeframe_seconds = (\<lambda>_. 1)\<rparr>"

theorem live_latest_only_closed_bars_witness:
  "\<exists>df k. live_latest demo_exchange (unary_env\<lparr>wall_clock := (\<lambda>n. 2500000)\<rparr>) ''BTC'' ''1s'' 9000000 0 = Inr (df, k)
     \<and> df = [(1000000, demo_candle)]"
proof -
  let ?E = "unary_env\<lparr>wall_clock := (\<lambda>n. 2500000)\<rparr>"
  obtain df k where r: "live_latest demo_exchange ?E ''BTC'' ''1s'' 9000000 0 = Inr (df, k)"
    by (simp add: live_latest_def live_get_latest_def numeral_3_eq_3 demo_exchange_def to_dataframe_def
        drop_forming_candle_def sort_frame_def Let_def)
  have "\<exists>j bs. 0 \<le> j \<and> k = Suc (Suc j) \<and> ex_fetch demo_exchange j ''BTC'' ''1s'' None 201 = Bars bs
    \<and> df = tail_rows 200 (filter (\<lambda>r. fst r + ex_timeframe_seconds demo_exchange ''1s'' * 1000000 \<le> wall_clock ?E (Suc j) \<and> fst r \<le> 9000000)
        (map (\<lambda>(ms, b). (ms * 1000, b)) bs))
    \<and> (\<forall>r \<in> set df. fst r + ex_timeframe_seconds demo_exchange ''1s'' * 1000000 \<le> wall_clock ?E (k - 1) \<and> fst r \<le> 9000000)
    \<and> sorted (map fst df) \<and> df \<noteq> []"
    by (rule live_latest_only_closed_bars [OF r]) (auto simp: demo_exchange_def)
  with r show ?thesis by (auto simp: demo_exchange_def tail_rows_def)
qed


subsection \<open>Downloading a range\<close>

text \<open>\<^verbatim>\<open>fetch_ohlcv_range\<close>: up to three attempts per page, then the next page starts one
  timeframe after the last bar received.\<close>

fun fetch_page ::
  "exchange \<Rightarrow> string \<Rightarrow> string \<Rightarrow> int \<Rightarrow> nat \<Rightarrow> nat \<Rightarrow> tick \<Rightarrow> (int \<times> bar) list option \<times> tick"
where
  "fetch_page X symb tf since limit 0 n = (None, n)"
| "fetch_page X symb tf since limit (Suc k) n =
     (case ex_fetch X n symb tf (Some since) limit of
        Bars batch \<Rightarrow> (Some batch, Suc n)
      | Rate_limited \<Rightarrow> fetch_page X symb tf since limit k (Suc n)
      | Fetch_error \<Rightarrow> fetch_page X symb tf since limit k (Suc n))"

function fetch_pages ::
  "exchange \<Rightarrow> string \<Rightarrow> string \<Rightarrow> nat \<Rightarrow> int \<Rightarrow> int \<Rightarrow> (int \<times> bar) list \<Rightarrow> tick
   \<Rightarrow> ((int \<times> bar) list \<times> tick) result"
where
  "fetch_pages X symb tf limit end_ms since rows n =
     (if since \<le> end_ms then
        (case fetch_page X symb tf since limit 3 n of
           (None, k) \<Rightarrow> Inl (DataProviderError ''Failed to fetch historical OHLCV'')
         | (Some batch, k) \<Rightarrow>
             if batch = [] then Inr (rows, k)
             else if fst (last batch) \<ge> end_ms then Inr (rows @ batch, k)
             else if fst (last batch) + ex_timeframe_seconds X tf * 1000 \<le> since then Inr (rows @ batch, k)
             else fetch_pages X symb tf limit end_ms (fst (last batch) + ex_timeframe_seconds X tf * 1000)
                    (rows @ batch) k)
      else Inr (rows, n))"
  by pat_completeness auto
termination
  by (relation "measure (\<lambda>(X, symb, tf, limit, end_ms, since, rows, n). nat (end_ms + 1 - since))") auto

declare fetch_pages.simps [simp del]

text \<open>\<^verbatim>\<open>drop_duplicates\<close> on the timestamp keeps the first row of each.\<close>

fun drop_duplicates :: "frame \<Rightarrow> frame" where
  "drop_duplicates [] = []"
| "drop_duplicates (r # df) = r # filter (\<lambda>x. fst x \<noteq> fst r) (drop_duplicates df)"

definition fetch_ohlcv_range ::
  "exchange \<Rightarrow> string \<Rightarrow> string \<Rightarrow> nat \<Rightarrow> datetime \<Rightarrow> datetime \<Rightarrow> tick \<Rightarrow> (frame \<times> tick) result" where
  "fetch_ohlcv_range X symb tf limit start end n =
     (if start > end then Inl (DataProviderError ''Start date must be on or before end date'')
      else and_then (fetch_pages X symb tf limit (ms_of end) (ms_of start) [] n) (\<lambda>(rows, k).
        if rows = [] then Inl (DataProviderError ''No OHLCV data returned for '')
        else and_then (to_dataframe rows) (\<lambda>df.
          let filtered = filter (\<lambda>r. start \<le> fst r \<and> fst r \<le> end) (sort_frame (drop_duplicates df))
          in if filtered = [] then Inl (DataProviderError ''No OHLCV bars in range for '')
             else Inr (filtered, k))))"

lemma image_other_keys: "fst ` {x \<in> S. fst x \<noteq> a} = fst ` S - {a}"
  by auto

lemma drop_duplicates_set: "set (drop_duplicates df) \<subseteq> set df \<and> fst ` set (drop_duplicates df) = fst ` set df"
  by (induction df) (auto simp: image_other_keys)

lemma drop_duplicates_distinct: "distinct (map fst (drop_duplicates df))"
  by (induction df) (auto simp: distinct_map_filter)

lemma drop_duplicates_id: "distinct (map fst df) \<Longrightarrow> drop_duplicates df = df"
  by (induction df) (force simp: filter_id_conv)+

lemma sort_frame_id: "sorted (map fst df) \<Longrightarrow> sort_frame df = df"
  by (simp add: sort_frame_def sort_key_id_if_sorted)

text \<open>
  An exchange that serves a fixed series: a page holds the first bars of the series that
  open at or after the requested time, up to the page limit, and no request fails.
\<close>

definition serves :: "exchange \<Rightarrow> string \<Rightarrow> string \<Rightarrow> (int \<times> bar) list \<Rightarrow> bool" where
  "serves X symb tf series \<longleftrightarrow>
     (\<forall>n since limit. ex_fetch X n symb tf (Some since) limit
        = Bars (take limit (filter (\<lambda>r. since \<le> fst r) series)))
     \<and> 0 < ex_timeframe_seconds X tf
     \<and> sorted_wrt (\<lambda>a b. fst a + ex_timeframe_seconds X tf * 1000 \<le> fst b) series"

lemma sorted_wrt_split:
  assumes "sorted_wrt (\<lambda>a b. fst a + d \<le> fst b) xs" and "0 < (d::int)"
  shows "sorted (map fst xs) \<and> distinct (map fst xs)"
  using assms(1)
proof (induction xs)
  case (Cons x xs)
  with assms(2) show ?case by fastforce
qed simp

lemma pages_cover:
  assumes "serves X symb tf series" and "0 < limit"
  shows "\<exists>got k. fetch_pages X symb tf limit e since rows n = Inr (rows @ got, k)
    \<and> filter (\<lambda>r. fst r \<le> e) got = filter (\<lambda>r. since \<le> fst r \<and> fst r \<le> e) series
    \<and> prefix got (filter (\<lambda>r. since \<le> fst r) series)"
proof (induction "nat (e + 1 - since)" arbitrary: since rows n rule: less_induct)
  case less
  let ?d = "ex_timeframe_seconds X tf * 1000"
  let ?rest = "filter (\<lambda>r. since \<le> fst r) series"
  let ?b = "take limit ?rest"
  from assms(1) have d: "0 < ?d" and gap: "sorted_wrt (\<lambda>a b. fst a + ?d \<le> fst b) series"
    and page: "fetch_page X symb tf since limit 3 n = (Some ?b, Suc n)"
    by (simp_all add: serves_def numeral_3_eq_3)
  have both: "filter (\<lambda>r. fst r \<le> e) ?rest = filter (\<lambda>r. since \<le> fst r \<and> fst r \<le> e) series"
    by (simp add: conj_commute)
  note gap' = sorted_wrt_filter [OF gap, of "\<lambda>r. since \<le> fst r"]
  show ?case
  proof (cases "since \<le> e \<and> ?rest \<noteq> []")
    case False
    then have "filter (\<lambda>r. since \<le> fst r \<and> fst r \<le> e) series = []"
      by (auto simp: filter_empty_conv)
    moreover have "\<exists>k. fetch_pages X symb tf limit e since rows n = Inr (rows, k)"
      using False page by (subst fetch_pages.simps) auto
    ultimately show ?thesis by (intro exI [of _ "[]"]) auto
  next
    case True
    then have ne: "?b \<noteq> []" using assms(2) by simp
    let ?l = "fst (last ?b)"
    have split: "?rest = ?b @ drop limit ?rest" by simp
    have after: "?l + ?d \<le> fst r" if "r \<in> set (drop limit ?rest)" for r
      using gap' that last_in_set [OF ne] by (subst (asm) split) (simp only: sorted_wrt_append)
    have before: "fst r \<le> ?l" if "r \<in> set ?b" for r
    proof -
      from gap' have "sorted_wrt (\<lambda>a b. fst a + ?d \<le> fst b) ?b" by (rule sorted_wrt_take)
      then have "sorted_wrt (\<lambda>a b. fst a + ?d \<le> fst b) (butlast ?b @ [last ?b])" using ne by simp
      then have "\<forall>x \<in> set (butlast ?b). fst x + ?d \<le> ?l" by (simp only: sorted_wrt_append) simp
      moreover from that ne have "r \<in> set (butlast ?b) \<or> r = last ?b"
        by (metis append_butlast_last_id in_set_conv_decomp_last set_ConsD rotate1.simps(2) set_rotate1)
      ultimately show ?thesis using d by auto
    qed
    from last_in_set [OF ne] have ge: "since \<le> ?l" by (auto dest: in_set_takeD)
    show ?thesis
    proof (cases "?l \<ge> e")
      case True
      have "filter (\<lambda>r. fst r \<le> e) (drop limit ?rest) = []"
        using after True d by (fastforce simp: filter_empty_conv)
      then have "filter (\<lambda>r. fst r \<le> e) ?b = filter (\<lambda>r. since \<le> fst r \<and> fst r \<le> e) series"
        by (subst both [symmetric], subst (2) split) (simp only: filter_append append_Nil2)
      moreover have "fetch_pages X symb tf limit e since rows n = Inr (rows @ ?b, Suc n)"
        using \<open>since \<le> e \<and> _\<close> page ne True by (subst fetch_pages.simps) simp
      ultimately show ?thesis by (intro exI [of _ ?b]) (auto simp: take_is_prefix)
    next
      case False
      let ?next = "?l + ?d"
      have nx: "since < ?next" using ge d by simp
      have rest': "filter (\<lambda>r. ?next \<le> fst r) series = drop limit ?rest"
      proof -
        have "filter (\<lambda>r. ?next \<le> fst r) series = filter (\<lambda>r. ?next \<le> fst r) ?rest"
          using nx by (auto intro!: filter_cong)
        also have "\<dots> = filter (\<lambda>r. ?next \<le> fst r) ?b @ filter (\<lambda>r. ?next \<le> fst r) (drop limit ?rest)"
          by (subst split) (simp only: filter_append)
        also have "filter (\<lambda>r. ?next \<le> fst r) ?b = []"
          using before d by (fastforce simp: filter_empty_conv)
        also have "filter (\<lambda>r. ?next \<le> fst r) (drop limit ?rest) = drop limit ?rest"
          using after by (auto intro!: filter_True)
        finally show ?thesis by simp
      qed
      have "nat (e + 1 - ?next) < nat (e + 1 - since)" using nx \<open>since \<le> e \<and> _\<close> by simp
      from less [OF this, of "rows @ ?b" "Suc n"] obtain got k where
        g: "fetch_pages X symb tf limit e ?next (rows @ ?b) (Suc n) = Inr ((rows @ ?b) @ got, k)"
        "filter (\<lambda>r. fst r \<le> e) got = filter (\<lambda>r. ?next \<le> fst r \<and> fst r \<le> e) series"
        "prefix got (filter (\<lambda>r. ?next \<le> fst r) series)" by blast
      have "fetch_pages X symb tf limit e since rows n = Inr (rows @ (?b @ got), k)"
        using \<open>since \<le> e \<and> _\<close> page ne False nx g(1) by (subst fetch_pages.simps) simp
      moreover have "filter (\<lambda>r. fst r \<le> e) (?b @ got) = filter (\<lambda>r. since \<le> fst r \<and> fst r \<le> e) series"
      proof -
        have "filter (\<lambda>r. ?next \<le> fst r \<and> fst r \<le> e) series = filter (\<lambda>r. fst r \<le> e) (drop limit ?rest)"
          by (simp add: rest' [symmetric] conj_commute)
        then show ?thesis
          using arg_cong [OF split, of "filter (\<lambda>r. fst r \<le> e)"] by (simp only: filter_append g(2) both)
      qed
      moreover have "prefix (?b @ got) ?rest"
        using g(3) unfolding rest' by (subst (2) split) (simp only: same_prefix_prefix)
      ultimately show ?thesis by blast
    qed
  qed
qed

lemma serves_rows:
  assumes "serves X symb tf series"
  shows "sorted (map fst series)" and "distinct (map fst series)"
  using sorted_wrt_split [of "ex_timeframe_seconds X tf * 1000" series] assms by (auto simp: serves_def)

text \<open>The series as rows of a frame, whose timestamps are microseconds, and what a range fetch
  makes of it for bounds between the milliseconds too.\<close>

definition series_frame :: "(int \<times> bar) list \<Rightarrow> frame" where
  "series_frame series = map (\<lambda>(t, b). (t * 1000, b)) series"

lemma series_frame_rows:
  assumes "serves X symb tf series"
  shows "sorted (map fst (series_frame series))" and "distinct (map fst (series_frame series))"
proof -
  have m: "map fst (series_frame series) = map (\<lambda>x. x * 1000) (map fst series)"
    by (auto simp: series_frame_def comp_def split_def)
  show "sorted (map fst (series_frame series))"
    unfolding m using serves_rows(1) [OF assms] by (auto simp: sorted_map intro: sorted_wrt_mono_rel)
  show "distinct (map fst (series_frame series))"
    unfolding m using serves_rows(2) [OF assms] by (simp add: distinct_map inj_on_def)
qed

lemma ms_of_bounds: "s \<le> t * 1000 \<Longrightarrow> ms_of s \<le> t" "t * 1000 \<le> e \<Longrightarrow> t \<le> ms_of e"
  by (auto simp: ms_of_def)

lemma range_rows:
  assumes "serves X symb tf series" and "0 < limit" and "s \<le> e"
  shows "case fetch_ohlcv_range X symb tf limit s e n of
      Inl err \<Rightarrow> filter (\<lambda>r. s \<le> fst r \<and> fst r \<le> e) (series_frame series) = []
        \<and> (\<exists>m. err = DataProviderError m)
    | Inr (df, k) \<Rightarrow> df \<noteq> [] \<and> df = filter (\<lambda>r. s \<le> fst r \<and> fst r \<le> e) (series_frame series)"
proof -
  let ?in = "filter (\<lambda>r. s \<le> fst r \<and> fst r \<le> e)"
  let ?S = "ms_of s" and ?E = "ms_of e"
  from pages_cover [OF assms(1,2), of ?E ?S "[]" n] obtain got k where
    g: "fetch_pages X symb tf limit ?E ?S [] n = Inr (got, k)"
      "filter (\<lambda>r. fst r \<le> ?E) got = filter (\<lambda>r. ?S \<le> fst r \<and> fst r \<le> ?E) series"
      "prefix got (filter (\<lambda>r. ?S \<le> fst r) series)" by auto
  from g(3) obtain ys where ys: "filter (\<lambda>r. ?S \<le> fst r) series = got @ ys" by (rule prefixE)
  have "sorted (map fst (filter (\<lambda>r. ?S \<le> fst r) series))" "distinct (map fst (filter (\<lambda>r. ?S \<le> fst r) series))"
    using serves_rows [OF assms(1)] by (simp_all add: sorted_filter distinct_map_filter)
  then have so: "sorted (map fst got)" and di: "distinct (map fst got)"
    unfolding ys by (simp_all add: sorted_append)
  have m: "map fst (series_frame got) = map (\<lambda>x. x * 1000) (map fst got)"
    by (auto simp: series_frame_def comp_def split_def)
  have so': "sorted (map fst (series_frame got))"
    unfolding m using so by (auto simp: sorted_map intro: sorted_wrt_mono_rel)
  have di': "distinct (map fst (series_frame got))"
    unfolding m using di by (simp add: distinct_map inj_on_def)
  have cut: "?in (series_frame xs) = series_frame (filter (\<lambda>r. s \<le> fst r * 1000 \<and> fst r * 1000 \<le> e) xs)" for xs
    by (simp add: series_frame_def filter_map comp_def split_def)
  have "filter (\<lambda>r. s \<le> fst r * 1000 \<and> fst r * 1000 \<le> e) got =
      filter (\<lambda>r. s \<le> fst r * 1000 \<and> fst r * 1000 \<le> e) (filter (\<lambda>r. fst r \<le> ?E) got)"
    by (auto simp: ms_of_bounds intro: filter_cong)
  also have "\<dots> = filter (\<lambda>r. s \<le> fst r * 1000 \<and> fst r * 1000 \<le> e) series"
    unfolding g(2) by (auto simp: ms_of_bounds intro: filter_cong)
  finally have "?in (series_frame got) = ?in (series_frame series)" by (simp only: cut)
  then have df: "?in (sort_frame (drop_duplicates (sort_frame (series_frame got)))) = ?in (series_frame series)"
    by (simp only: sort_frame_id [OF so'] drop_duplicates_id [OF di'])
  show ?thesis
  proof (cases "got = []")
    case True
    with df have "?in (series_frame series) = []"
      by (simp add: series_frame_def sort_frame_def)
    with True g(1) assms(3) show ?thesis by (simp add: fetch_ohlcv_range_def)
  next
    case False
    with g(1) assms(3) df show ?thesis
      by (simp add: fetch_ohlcv_range_def to_dataframe_def Let_def series_frame_def)
  qed
qed

text \<open>C33: a range download is complete and exact. Against an exchange that serves a fixed
  series of bars at least one timeframe apart, at most a page at a time, the paging loop
  ends and the frame holds precisely the bars of the series inside the range, in time
  order and once each, whatever the page size; when the series has no bar in the range the
  call raises instead of returning an empty frame.\<close>

theorem fetch_range_complete:
  assumes "serves X symb tf series" and "0 < limit" and "s \<le> e"
  shows "case fetch_ohlcv_range X symb tf limit (s * 1000) (e * 1000) n of
      Inl err \<Rightarrow> filter (\<lambda>r. s \<le> fst r \<and> fst r \<le> e) series = []
        \<and> (\<exists>m. err = DataProviderError m)
    | Inr (df, k) \<Rightarrow> df \<noteq> []
        \<and> df = map (\<lambda>(t, b). (t * 1000, b)) (filter (\<lambda>r. s \<le> fst r \<and> fst r \<le> e) series)"
proof -
  have "filter (\<lambda>r. s * 1000 \<le> fst r \<and> fst r \<le> e * 1000) (series_frame series)
      = map (\<lambda>(t, b). (t * 1000, b)) (filter (\<lambda>r. s \<le> fst r \<and> fst r \<le> e) series)"
    by (simp add: series_frame_def filter_map comp_def split_def)
  with range_rows [OF assms(1,2), of "s * 1000" "e * 1000" n] assms(3) show ?thesis
    by (auto split: sum.splits)
qed

definition serving_exchange :: "(int \<times> bar) list \<Rightarrow> exchange" where
  "serving_exchange series = \<lparr>ex_fetch = (\<lambda>_ _ _ since_opt limit. case since_opt of
       None \<Rightarrow> Bars series | Some t \<Rightarrow> Bars (take limit (filter (\<lambda>r. t \<le> fst r) series))),
     ex_timeframe_seconds = (\<lambda>_. 1)\<rparr>"

theorem fetch_range_complete_witness:
  "\<exists>k. fetch_ohlcv_range (serving_exchange (map (\<lambda>t. (t, demo_candle)) [1000, 2000, 3000, 4000])) ''BTC'' ''1s''
      1 (1500 * 1000) (3500 * 1000) 0
    = Inr (map (\<lambda>t. (t, demo_candle)) [2000000, 3000000], k)"
proof -
  let ?s = "map (\<lambda>t. (t, demo_candle)) [1000, 2000, 3000, 4000]"
  have "serves (serving_exchange ?s) ''BTC'' ''1s'' ?s"
    by (simp add: serves_def serving_exchange_def)
  from fetch_range_complete [OF this, of 1 1500 3500 0] show ?thesis
    by (auto split: sum.splits)
qed

end
