(* ===== verification/Features.thy ===== *)
theory Features
  imports MarketData "HOL-Library.List_Lexorder" "HOL-Library.Char_ord"
begin

text \<open>
  \<^verbatim>\<open>backend/src/features/\<close>: flag expressions and their evaluation (registry.py), the market
  context derived from indicators (context_deriver.py), the feature store (store.py), the
  builder that puts them together (builder.py) and the drift report (drift.py). The
  indicators themselves are a parameter of the builder here: a function from an indicator
  definition and a frame to a number or an error.
\<close>


subsection \<open>Flag expressions (registry.py)\<close>

datatype comparator = Cmp_ge | Cmp_le | Cmp_gt | Cmp_lt | Cmp_eq

definition comparator_text :: "comparator \<Rightarrow> string" where
  "comparator_text c = (case c of Cmp_ge \<Rightarrow> ''>='' | Cmp_le \<Rightarrow> ''<='' | Cmp_gt \<Rightarrow> ''>''
     | Cmp_lt \<Rightarrow> ''<'' | Cmp_eq \<Rightarrow> ''=='')"

definition compare_with :: "comparator \<Rightarrow> real \<Rightarrow> real \<Rightarrow> bool" where
  "compare_with c a b = (case c of Cmp_ge \<Rightarrow> b \<le> a | Cmp_le \<Rightarrow> a \<le> b | Cmp_gt \<Rightarrow> b < a
     | Cmp_lt \<Rightarrow> a < b | Cmp_eq \<Rightarrow> a = b)"

text \<open>The regular expression: a name, an operator and a name, with white space around the
  operator; the whole expression is stripped first.\<close>

definition is_space :: "char \<Rightarrow> bool" where
  "is_space c \<longleftrightarrow> (let k = of_char c :: nat in (9 \<le> k \<and> k \<le> 13) \<or> (28 \<le> k \<and> k \<le> 32) \<or> k = 133 \<or> k = 160)"

definition is_letter :: "char \<Rightarrow> bool" where
  "is_letter c \<longleftrightarrow> (let k = of_char c :: nat in (65 \<le> k \<and> k \<le> 90) \<or> (97 \<le> k \<and> k \<le> 122) \<or> k = 95)"

definition is_digit :: "char \<Rightarrow> bool" where
  "is_digit c \<longleftrightarrow> (let k = of_char c :: nat in 48 \<le> k \<and> k \<le> 57)"

definition is_word :: "char \<Rightarrow> bool" where
  "is_word c \<longleftrightarrow> is_letter c \<or> is_digit c"

definition is_name :: "string \<Rightarrow> bool" where
  "is_name s \<longleftrightarrow> s \<noteq> [] \<and> is_letter (hd s) \<and> list_all is_word s"

definition py_strip :: "string \<Rightarrow> string" where
  "py_strip s = rev (dropWhile is_space (rev (dropWhile is_space s)))"

definition take_operator :: "string \<Rightarrow> (comparator \<times> string) option" where
  "take_operator s =
     (case s of
        a # b # r \<Rightarrow>
          if a = CHR ''>'' then (if b = CHR ''='' then Some (Cmp_ge, r) else Some (Cmp_gt, b # r))
          else if a = CHR ''<'' then (if b = CHR ''='' then Some (Cmp_le, r) else Some (Cmp_lt, b # r))
          else if a = CHR ''='' \<and> b = CHR ''='' then Some (Cmp_eq, r)
          else None
      | _ \<Rightarrow> None)"

definition parse_flag :: "string \<Rightarrow> (string \<times> comparator \<times> string) option" where
  "parse_flag s =
     (let t = py_strip s; left = takeWhile is_word t; rest = dropWhile is_space (dropWhile is_word t)
      in case take_operator rest of
           None \<Rightarrow> None
         | Some (c, rest2) \<Rightarrow>
             (let right = dropWhile is_space rest2
              in if is_name left \<and> is_name right then Some (left, c, right) else None))"

record flag_def =
  flag_name :: string
  flag_expr :: string

type_synonym indicator_values = "(string, real) dict"

definition evaluate_flag :: "flag_def \<Rightarrow> indicator_values \<Rightarrow> bool result" where
  "evaluate_flag f ind =
     (case parse_flag (flag_expr f) of
        None \<Rightarrow> Inl (ValueError ''Unsupported flag expression'')
      | Some (l, c, r) \<Rightarrow>
          (case (dict_get ind l, dict_get ind r) of
             (Some a, Some b) \<Rightarrow> Inr (compare_with c a b)
           | _ \<Rightarrow> Inl (KeyError ''Flag references unknown indicator'')))"

fun evaluate_flags :: "flag_def list \<Rightarrow> indicator_values \<Rightarrow> (string, bool) dict \<Rightarrow> (string, bool) dict result" where
  "evaluate_flags [] ind acc = Inr acc"
| "evaluate_flags (f # fs) ind acc =
     and_then (evaluate_flag f ind) (\<lambda>v. evaluate_flags fs ind (dict_set acc (flag_name f) v))"

lemma word_not_space: "is_word c \<Longrightarrow> \<not> is_space c"
  by (auto simp: is_word_def is_letter_def is_digit_def is_space_def Let_def)

lemma operator_chars [simp]:
  "\<not> is_word (CHR ''>'')" "\<not> is_word (CHR ''<'')" "\<not> is_word (CHR ''='')" "\<not> is_word (CHR '' '')"
  "\<not> is_space (CHR ''>'')" "\<not> is_space (CHR ''<'')" "\<not> is_space (CHR ''='')" "is_space (CHR '' '')"
  by (simp_all add: is_word_def is_letter_def is_digit_def is_space_def Let_def)

lemma is_name_parts: "is_name s \<Longrightarrow> s \<noteq> [] \<and> list_all is_word s \<and> is_word (hd s) \<and> is_word (last s)"
  by (auto simp: is_name_def list_all_iff)

lemma py_strip_trim:
  assumes "list_all is_space a" "list_all is_space b" "t \<noteq> []" "\<not> is_space (hd t)" "\<not> is_space (last t)"
  shows "py_strip (a @ t @ b) = t"
proof -
  have d: "dropWhile is_space (xs @ ys) = ys" if "list_all is_space xs" "ys \<noteq> []" "\<not> is_space (hd ys)" for xs ys
    using that by (induction xs) (auto simp: neq_Nil_conv)
  have "dropWhile is_space (a @ t @ b) = t @ b"
    by (rule d) (use assms in auto)
  moreover have "dropWhile is_space (rev b @ rev t) = rev t"
    by (rule d) (use assms in \<open>auto simp: list_all_iff hd_rev\<close>)
  ultimately show ?thesis by (simp add: py_strip_def)
qed

lemma takeWhile_word:
  assumes "list_all is_word l" "r \<noteq> []" "\<not> is_word (hd r)"
  shows "takeWhile is_word (l @ r) = l" "dropWhile is_word (l @ r) = r"
  using assms by (induction l) (auto simp: neq_Nil_conv)

lemma dropWhile_spaces:
  assumes "list_all is_space a" "r \<noteq> []" "\<not> is_space (hd r)"
  shows "dropWhile is_space (a @ r) = r"
  using assms by (induction a) (auto simp: neq_Nil_conv)

lemma take_operator_text:
  assumes "r \<noteq> []" "hd r \<noteq> CHR ''=''"
  shows "take_operator (comparator_text c @ r) = Some (c, r)"
  using assms by (cases r; cases c) (simp_all add: take_operator_def comparator_text_def)

text \<open>Flag expressions survive printing: an operator between two names, with any white
  space around it and around the whole, is read back as the same two names and the same
  operator, and is then evaluated as that comparison of the two indicators.\<close>

theorem flag_expression_roundtrip:
  assumes "is_name l" "is_name r"
    and "list_all is_space w1" "list_all is_space w2" "list_all is_space w3" "list_all is_space w4"
  shows "parse_flag (w1 @ l @ w2 @ comparator_text c @ w3 @ r @ w4) = Some (l, c, r)"
proof -
  note L = is_name_parts [OF assms(1)] and R = is_name_parts [OF assms(2)]
  let ?op = "comparator_text c"
  have op: "?op \<noteq> []" "\<not> is_word (hd ?op)" "\<not> is_space (hd ?op)"
    by (cases c; simp add: comparator_text_def)+
  have sp: "\<not> is_word x" if "x \<in> set w2" for x
    using assms(4) that word_not_space by (auto simp: list_all_iff)
  have "py_strip (w1 @ (l @ w2 @ ?op @ w3 @ r) @ w4) = l @ w2 @ ?op @ w3 @ r"
    by (rule py_strip_trim) (use assms L R word_not_space in auto)
  then have strip: "py_strip (w1 @ l @ w2 @ ?op @ w3 @ r @ w4) = l @ w2 @ ?op @ w3 @ r" by simp
  have hw: "\<not> is_word (hd (w2 @ ?op @ w3 @ r))"
    using op sp by (cases w2) auto
  have ne: "w3 @ r \<noteq> []" "hd (w3 @ r) \<noteq> CHR ''=''"
    using L R assms(5) by (cases w3; auto)+
  have tw: "takeWhile is_word (l @ w2 @ ?op @ w3 @ r) = l"
    "dropWhile is_word (l @ w2 @ ?op @ w3 @ r) = w2 @ ?op @ w3 @ r"
    by (rule takeWhile_word; use L op hw in auto)+
  have "dropWhile is_space (w2 @ ?op @ w3 @ r) = ?op @ w3 @ r"
    by (rule dropWhile_spaces) (use assms op in auto)
  moreover have "take_operator (?op @ w3 @ r) = Some (c, w3 @ r)"
    by (rule take_operator_text [OF ne])
  moreover have "dropWhile is_space (w3 @ r) = r"
    by (rule dropWhile_spaces) (use assms R word_not_space in auto)
  ultimately show ?thesis using assms(1,2) by (simp add: parse_flag_def Let_def strip tw)
qed

theorem flag_expression_roundtrip_witness: "parse_flag '' ema_cross >= zero '' = Some (''ema_cross'', Cmp_ge, ''zero'')"
proof -
  have "is_name ''ema_cross''" "is_name ''zero''" "list_all is_space '' ''"
    by (simp_all add: is_name_def is_letter_def is_digit_def is_word_def is_space_def Let_def)
  from flag_expression_roundtrip [OF this(1,2,3,3,3,3), of Cmp_ge] show ?thesis
    by (simp add: comparator_text_def)
qed


subsection \<open>Market context (config.py, context_deriver.py)\<close>

record trend_config =
  tc_fast :: string
  tc_slow :: string

record volatility_config =
  vc_atr :: string
  vc_low :: real
  vc_high :: real

record context_config =
  cc_trend :: trend_config
  cc_volatility :: volatility_config

text \<open>An indicator definition; its parameters are whatever the indicator reads.\<close>

record 'p indicator_def =
  ind_name :: string
  ind_type :: string
  ind_params :: 'p

record 'p features_config =
  fc_version :: string
  fc_indicators :: "'p indicator_def list"
  fc_flags :: "flag_def list"
  fc_context :: context_config

definition dict_at :: "(string, 'v) dict \<Rightarrow> string \<Rightarrow> 'v result" where
  "dict_at d k = (case dict_get d k of None \<Rightarrow> Inl (KeyError k) | Some v \<Rightarrow> Inr v)"

definition derive_trend :: "context_config \<Rightarrow> indicator_values \<Rightarrow> trend result" where
  "derive_trend c ind =
     and_then (dict_at ind (tc_fast (cc_trend c))) (\<lambda>fast.
     and_then (dict_at ind (tc_slow (cc_trend c))) (\<lambda>slow.
       Inr (if fast > slow then UP else if fast < slow then DOWN else SIDEWAYS)))"

definition derive_atr_metrics :: "context_config \<Rightarrow> real \<Rightarrow> indicator_values \<Rightarrow> (real \<times> real) result" where
  "derive_atr_metrics c close ind =
     and_then (dict_at ind (vc_atr (cc_volatility c))) (\<lambda>a.
       Inr (a, py_round 4 (if close \<noteq> 0 then a / close * 100 else 0)))"

definition derive_volatility :: "context_config \<Rightarrow> real \<Rightarrow> volatility" where
  "derive_volatility c p =
     (if p < vc_low (cc_volatility c) then LOW
      else if p > vc_high (cc_volatility c) then HIGH else NORMAL)"

definition hour_of :: "datetime \<Rightarrow> int" where
  "hour_of t = t mod 86400000000 div 3600000000"

definition derive_session :: "datetime \<Rightarrow> session" where
  "derive_session t =
     (let hour = hour_of t
      in if 12 \<le> hour \<and> hour < 16 then OVERLAP
         else if 7 \<le> hour \<and> hour < 12 then EUROPE
         else if 16 \<le> hour \<and> hour < 21 then US
         else ASIA)"

definition derive_context ::
  "context_config \<Rightarrow> string \<Rightarrow> string \<Rightarrow> real \<Rightarrow> indicator_values \<Rightarrow> datetime \<Rightarrow> market_context result" where
  "derive_context c symb tf close ind t =
     and_then (derive_trend c ind) (\<lambda>tr.
     and_then (derive_atr_metrics c close ind) (\<lambda>(a, p).
       Inr \<lparr>mc_symbol = symb, mc_timeframe = tf, current_price = close, mc_trend = tr,
         mc_volatility = derive_volatility c p, atr = a, atr_pct = p,
         mc_session = derive_session t, mc_event_time = t\<rparr>))"

lemma derive_session_hours:
  "derive_session t = (if hour_of t \<in> {12..15} then OVERLAP else if hour_of t \<in> {7..11} then EUROPE
     else if hour_of t \<in> {16..20} then US else ASIA)"
  by (auto simp: derive_session_def Let_def)

lemma derive_context_cases:
  "derive_context c symb tf close ind t =
    (case (dict_get ind (tc_fast (cc_trend c)), dict_get ind (tc_slow (cc_trend c)), dict_get ind (vc_atr (cc_volatility c))) of
       (Some f, Some s, Some a) \<Rightarrow>
         (let p = py_round 4 (if close \<noteq> 0 then a / close * 100 else 0)
          in Inr \<lparr>mc_symbol = symb, mc_timeframe = tf, current_price = close,
               mc_trend = (if f > s then UP else if f < s then DOWN else SIDEWAYS),
               mc_volatility = derive_volatility c p, atr = a, atr_pct = p,
               mc_session = derive_session t, mc_event_time = t\<rparr>)
     | (None, _, _) \<Rightarrow> Inl (KeyError (tc_fast (cc_trend c)))
     | (Some _, None, _) \<Rightarrow> Inl (KeyError (tc_slow (cc_trend c)))
     | (Some _, Some _, None) \<Rightarrow> Inl (KeyError (vc_atr (cc_volatility c))))"
  by (simp add: derive_context_def derive_trend_def derive_atr_metrics_def dict_at_def Let_def
      split: option.splits)

text \<open>A market context reports exactly what its inputs say: the trend is the sign of fast
  minus slow, the volatility class is the class of the very percentage reported, which is
  the ATR in per cent of the price rounded to four places, and the session is the one whose
  hours contain the bar's hour; deriving fails exactly when one of the three indicators the
  configuration names is missing.\<close>

theorem derive_context_correct:
  "(case derive_context c symb tf close ind t of
      Inl e \<Rightarrow> dict_get ind (tc_fast (cc_trend c)) = None \<or> dict_get ind (tc_slow (cc_trend c)) = None
        \<or> dict_get ind (vc_atr (cc_volatility c)) = None
    | Inr m \<Rightarrow> \<exists>f s a. dict_get ind (tc_fast (cc_trend c)) = Some f \<and> dict_get ind (tc_slow (cc_trend c)) = Some s
        \<and> dict_get ind (vc_atr (cc_volatility c)) = Some a
        \<and> mc_trend m = (if s < f then UP else if f < s then DOWN else SIDEWAYS)
        \<and> atr m = a \<and> current_price m = close \<and> mc_event_time m = t
        \<and> \<bar>atr_pct m - (if close = 0 then 0 else a / close * 100)\<bar> \<le> 1 / 20000
        \<and> mc_volatility m = (if atr_pct m < vc_low (cc_volatility c) then LOW
             else if atr_pct m > vc_high (cc_volatility c) then HIGH else NORMAL)
        \<and> mc_session m = (if hour_of t \<in> {12..15} then OVERLAP else if hour_of t \<in> {7..11} then EUROPE
             else if hour_of t \<in> {16..20} then US else ASIA))"
proof (cases "dict_get ind (tc_fast (cc_trend c)) = None \<or> dict_get ind (tc_slow (cc_trend c)) = None
        \<or> dict_get ind (vc_atr (cc_volatility c)) = None")
  case True
  then have "\<exists>k. derive_context c symb tf close ind t = Inl k"
    unfolding derive_context_cases by (elim disjE) (simp_all split: option.split)
  then obtain k where k: "derive_context c symb tf close ind t = Inl k" ..
  show ?thesis unfolding k sum.case by (rule True)
next
  case False
  then obtain f s a where v: "dict_get ind (tc_fast (cc_trend c)) = Some f"
    "dict_get ind (tc_slow (cc_trend c)) = Some s" "dict_get ind (vc_atr (cc_volatility c)) = Some a" by auto
  have "1 / (2 * 10 ^ 4) = (1 / 20000 :: real)" by simp
  then have err: "\<bar>py_round 4 x - x\<bar> \<le> 1 / 20000" for x
    using py_round_error [of 4 x] by (simp only:)
  let ?x = "if close \<noteq> 0 then a / close * 100 else 0"
  have x: "\<bar>py_round 4 ?x - (if close = 0 then 0 else a / close * 100)\<bar> \<le> 1 / 20000"
  proof (cases "close = 0")
    case True
    then show ?thesis by simp
  next
    case False
    then show ?thesis using err [of "a / close * 100"] by (simp only: if_True if_False not_False_eq_True)
  qed
  let ?p = "py_round 4 ?x"
  have r: "derive_context c symb tf close ind t = Inr \<lparr>mc_symbol = symb, mc_timeframe = tf, current_price = close,
      mc_trend = (if f > s then UP else if f < s then DOWN else SIDEWAYS),
      mc_volatility = derive_volatility c ?p, atr = a, atr_pct = ?p,
      mc_session = derive_session t, mc_event_time = t\<rparr>"
    unfolding derive_context_cases v prod.case option.case Let_def ..
  show ?thesis
    unfolding r sum.case v derive_session_hours derive_volatility_def market_context.simps
    using x by blast
qed


subsection \<open>The feature store (store.py)\<close>

type_synonym lookup_key = "string \<times> string \<times> datetime \<times> string"

record feature_store =
  by_id :: "(string, feature_set_record) dict"
  by_lookup :: "(lookup_key, string) dict"

definition empty_features :: feature_store where
  "empty_features = \<lparr>by_id = [], by_lookup = []\<rparr>"

definition lookup_key :: "feature_set_record \<Rightarrow> lookup_key" where
  "lookup_key r = (fs_symbol r, fs_timeframe r, fs_event_time r, feature_version r)"

definition put_features :: "feature_set_record \<Rightarrow> feature_store \<Rightarrow> feature_store" where
  "put_features r s = \<lparr>by_id = dict_set (by_id s) (feature_set_id r) r,
     by_lookup = dict_set (by_lookup s) (lookup_key r) (feature_set_id r)\<rparr>"

definition get_features :: "feature_store \<Rightarrow> string \<Rightarrow> feature_set_record result" where
  "get_features s i = (case dict_get (by_id s) i of
     None \<Rightarrow> Inl (KeyError ''FeatureSetRecord not found'') | Some r \<Rightarrow> Inr r)"

definition get_features_at ::
  "feature_store \<Rightarrow> string \<Rightarrow> string \<Rightarrow> datetime \<Rightarrow> string \<Rightarrow> feature_set_record option" where
  "get_features_at s symb tf t ver =
     (case dict_get (by_lookup s) (symb, tf, t, ver) of
        None \<Rightarrow> None | Some i \<Rightarrow> dict_get (by_id s) i)"

definition clear_features :: "feature_store \<Rightarrow> feature_store" where
  "clear_features s = empty_features"

definition features_size :: "feature_store \<Rightarrow> nat" where
  "features_size s = length (by_id s)"

text \<open>What a user of the store relies on.\<close>

locale record_store =
  fixes put :: "feature_set_record \<Rightarrow> 's \<Rightarrow> 's" and get :: "'s \<Rightarrow> string \<Rightarrow> feature_set_record result"
    and at_key :: "'s \<Rightarrow> lookup_key \<Rightarrow> feature_set_record option"
  assumes get_put_same: "get (put r s) (feature_set_id r) = Inr r"
    and get_put_other: "i \<noteq> feature_set_id r \<Longrightarrow> get (put r s) i = get s i"
    and at_put_same: "at_key (put r s) (lookup_key r) = Some r"
begin

lemma get_after_puts:
  "r \<in> set rs \<Longrightarrow> distinct (map feature_set_id rs) \<Longrightarrow> get (fold put rs s) (feature_set_id r) = Inr r"
proof (induction rs arbitrary: s rule: rev_induct)
  case (snoc x rs)
  then show ?case
    by (cases "r = x") (auto simp: get_put_same get_put_other image_iff)
qed simp

end

interpretation features: record_store put_features get_features
  "\<lambda>s (symb, tf, t, ver). get_features_at s symb tf t ver"
  by unfold_locales
    (auto simp: put_features_def get_features_def get_features_at_def lookup_key_def)

text \<open>The feature store keeps every record: after any number of puts of records with
  distinct identifiers each of them is found under its identifier, the size has grown by
  their number over an empty store, and a lookup by symbol, timeframe, event time and
  version finds the record put last for that key.\<close>

theorem feature_store_keeps_records:
  assumes "distinct (map feature_set_id rs)" and "r \<in> set rs"
  shows "get_features (fold put_features rs empty_features) (feature_set_id r) = Inr r
    \<and> features_size (fold put_features rs empty_features) = length rs
    \<and> (rs \<noteq> [] \<longrightarrow> get_features_at (fold put_features rs empty_features) (fs_symbol (last rs)) (fs_timeframe (last rs))
        (fs_event_time (last rs)) (feature_version (last rs)) = Some (last rs))"
proof -
  have "dict_keys (by_id (fold put_features rs s)) = dict_keys (by_id s) @ map feature_set_id rs"
    if "distinct (dict_keys (by_id s) @ map feature_set_id rs)" for s
    using that
  proof (induction rs arbitrary: s)
    case (Cons x rs)
    then have "dict_keys (by_id (put_features x s)) = dict_keys (by_id s) @ [feature_set_id x]"
      by (simp add: put_features_def dict_keys_set_fresh)
    with Cons show ?case by simp
  qed simp
  from arg_cong [OF this [of empty_features], of length] assms(1)
  have size: "features_size (fold put_features rs empty_features) = length rs"
    by (simp add: features_size_def dict_keys_def empty_features_def)
  have "get_features_at (fold put_features rs s) (fs_symbol (last rs)) (fs_timeframe (last rs))
        (fs_event_time (last rs)) (feature_version (last rs)) = Some (last rs)" if "rs \<noteq> []" for s
    using that features.at_put_same by (cases rs rule: rev_cases) (auto simp: lookup_key_def)
  with size features.get_after_puts [OF assms(2,1)] show ?thesis by blast
qed

definition demo_record :: "string \<Rightarrow> feature_set_record" where
  "demo_record i = \<lparr>feature_set_id = i, fs_symbol = ''BTC'', fs_timeframe = ''1h'', fs_event_time = 7,
     fs_processing_time = 8, feature_version = ''v2'', config_hash = ''h'', fs_close = 100,
     indicators = [], flags = [], levels = [], fsr_schema_version = ''v1'', fsr_market_context = None\<rparr>"

theorem feature_store_keeps_records_witness:
  "get_features (fold put_features [demo_record ''a'', demo_record ''b''] empty_features) ''a'' = Inr (demo_record ''a'')
   \<and> get_features_at (fold put_features [demo_record ''a'', demo_record ''b''] empty_features) ''BTC'' ''1h'' 7 ''v2''
       = Some (demo_record ''b'')"
proof -
  have "distinct (map feature_set_id [demo_record ''a'', demo_record ''b''])"
    and "demo_record ''a'' \<in> set [demo_record ''a'', demo_record ''b'']"
    by (simp_all add: demo_record_def)
  from feature_store_keeps_records [OF this]
  have "get_features (fold put_features [demo_record ''a'', demo_record ''b''] empty_features)
        (feature_set_id (demo_record ''a'')) = Inr (demo_record ''a'')"
    and "get_features_at (fold put_features [demo_record ''a'', demo_record ''b''] empty_features)
        (fs_symbol (demo_record ''b'')) (fs_timeframe (demo_record ''b''))
        (fs_event_time (demo_record ''b'')) (feature_version (demo_record ''b'')) = Some (demo_record ''b'')"
    by simp_all
  moreover have "feature_set_id (demo_record ''a'') = ''a''" "fs_symbol (demo_record ''b'') = ''BTC''"
    "fs_timeframe (demo_record ''b'') = ''1h''" "fs_event_time (demo_record ''b'') = 7"
    "feature_version (demo_record ''b'') = ''v2''"
    by (simp_all add: demo_record_def)
  ultimately show ?thesis by (simp only:)
qed


subsection \<open>The builder (builder.py)\<close>

type_synonym 'p indicator_fun = "'p indicator_def \<Rightarrow> frame \<Rightarrow> real result"

definition normalize_ohlcv :: "frame \<Rightarrow> frame result" where
  "normalize_ohlcv df =
     (if df = [] then Inl (DataProviderError ''OHLCV DataFrame is empty'') else Inr (sort_frame df))"

text \<open>An indicator that has not enough data is left out; any other error ends the build.\<close>

fun build_indicators ::
  "'p indicator_fun \<Rightarrow> 'p indicator_def list \<Rightarrow> frame \<Rightarrow> indicator_values \<Rightarrow> indicator_values result"
where
  "build_indicators compute [] df acc = Inr acc"
| "build_indicators compute (d # ds) df acc =
     (case compute d df of
        Inr v \<Rightarrow> build_indicators compute ds df (dict_set acc (ind_name d) v)
      | Inl (InsufficientDataError _) \<Rightarrow> build_indicators compute ds df acc
      | Inl e \<Rightarrow> Inl e)"

definition feature_record :: "feature_set \<Rightarrow> market_context \<Rightarrow> feature_set_record" where
  "feature_record fs ctx = feature_set.extend fs \<lparr>fsr_schema_version = ''v1'', fsr_market_context = Some ctx\<rparr>"

definition build_features ::
  "env \<Rightarrow> 'p indicator_fun \<Rightarrow> 'p features_config \<Rightarrow> string \<Rightarrow> frame \<Rightarrow> string \<Rightarrow> string \<Rightarrow> datetime \<Rightarrow> bool
   \<Rightarrow> feature_store \<times> tick \<Rightarrow> (feature_set \<times> market_context \<times> feature_store \<times> tick) result"
where
  "build_features E compute cfg hash df symb tf proc_time persist = (\<lambda>(store, n).
     and_then (normalize_ohlcv df) (\<lambda>work.
     and_then (build_indicators compute (fc_indicators cfg) work []) (\<lambda>ind.
     and_then (evaluate_flags (fc_flags cfg) ind []) (\<lambda>fl.
       let event_time = fst (last work); close = bar_close (snd (last work))
       in and_then (derive_context (fc_context cfg) symb tf close ind event_time) (\<lambda>ctx.
            let fs = \<lparr>feature_set_id = fresh_id E ''fs_'' n, fs_symbol = symb, fs_timeframe = tf,
                      fs_event_time = event_time, fs_processing_time = proc_time,
                      feature_version = fc_version cfg, config_hash = hash, fs_close = close,
                      indicators = ind, flags = fl, levels = []\<rparr>
            in Inr (fs, ctx, if persist then put_features (feature_record fs ctx) store else store, Suc n))))))"

lemma build_indicators_keys:
  "build_indicators compute ds df acc = Inr ind \<Longrightarrow>
   set (dict_keys ind) = set (dict_keys acc) \<union> {ind_name d |d. d \<in> set ds \<and> (\<exists>v. compute d df = Inr v)}"
proof (induction ds arbitrary: acc)
  case (Cons d ds)
  show ?case
  proof (cases "compute d df")
    case (Inl e)
    with Cons.prems have "build_indicators compute ds df acc = Inr ind"
      by (cases e) auto
    from Cons.IH [OF this] Inl show ?thesis by auto
  next
    case (Inr v)
    with Cons.prems have "build_indicators compute ds df (dict_set acc (ind_name d) v) = Inr ind" by simp
    from Cons.IH [OF this] Inr show ?thesis by auto
  qed
qed simp

lemma dict_key_iff: "dict_get d k \<noteq> None \<longleftrightarrow> k \<in> set (dict_keys d)"
  by (simp add: dict_keys_def map_of_eq_None_iff)

lemma evaluate_flags_names:
  "evaluate_flags fs ind acc = Inr fl \<Longrightarrow> f \<in> set fs \<Longrightarrow>
   \<exists>l c r. parse_flag (flag_expr f) = Some (l, c, r) \<and> l \<in> set (dict_keys ind) \<and> r \<in> set (dict_keys ind)"
proof (induction fs arbitrary: acc)
  case (Cons g fs)
  then show ?case
    by (auto simp: evaluate_flag_def dict_key_iff [symmetric] split: option.splits)
qed simp

text \<open>The names a configuration needs: the indicators its flags compare and the three its
  context reads.\<close>

definition needed_names :: "'p features_config \<Rightarrow> string set" where
  "needed_names cfg = {tc_fast (cc_trend (fc_context cfg)), tc_slow (cc_trend (fc_context cfg)),
      vc_atr (cc_volatility (fc_context cfg))}
    \<union> (\<Union>f \<in> set (fc_flags cfg). case parse_flag (flag_expr f) of None \<Rightarrow> {} | Some (l, c, r) \<Rightarrow> {l, r})"

lemma needed_computed:
  assumes "build_features E compute cfg hash df symb tf pt persist (store, n) = Inr (fs, ctx, store', k)"
    and "i \<in> needed_names cfg"
  shows "\<exists>d \<in> set (fc_indicators cfg). ind_name d = i \<and> (\<exists>v. compute d (sort_frame df) = Inr v)"
proof -
  from assms(1) obtain work ind fl where w: "normalize_ohlcv df = Inr work"
    and b: "build_indicators compute (fc_indicators cfg) work [] = Inr ind"
    and f: "evaluate_flags (fc_flags cfg) ind [] = Inr fl"
    and c: "derive_context (fc_context cfg) symb tf (bar_close (snd (last work))) ind (fst (last work)) = Inr ctx"
    by (auto simp: build_features_def Let_def)
  from w have "work = sort_frame df" by (auto simp: normalize_ohlcv_def split: if_splits)
  note keys = build_indicators_keys [OF b, unfolded this]
  have "i \<in> set (dict_keys ind)"
  proof (cases "\<exists>f \<in> set (fc_flags cfg). i \<in> (case parse_flag (flag_expr f) of None \<Rightarrow> {} | Some (l, c, r) \<Rightarrow> {l, r})")
    case True
    then show ?thesis by (auto dest!: evaluate_flags_names [OF f] split: option.splits)
  next
    case False
    with assms(2) have "i \<in> {tc_fast (cc_trend (fc_context cfg)), tc_slow (cc_trend (fc_context cfg)),
      vc_atr (cc_volatility (fc_context cfg))}" by (auto simp: needed_names_def)
    moreover from c have "dict_get ind j \<noteq> None" if "j \<in> {tc_fast (cc_trend (fc_context cfg)),
        tc_slow (cc_trend (fc_context cfg)), vc_atr (cc_volatility (fc_context cfg))}" for j
      using that unfolding derive_context_cases by (auto split: option.splits)
    ultimately show ?thesis by (simp only: dict_key_iff)
  qed
  with keys show ?thesis by (auto simp: dict_keys_def)
qed

text \<open>Leaving an indicator out during warm-up does not keep the build alive. A build
  succeeds only when every indicator a flag or the context names was computed; if one of
  them has too little data, the whole build raises instead.\<close>

theorem warm_up_fails_build:
  assumes "i \<in> needed_names cfg"
    and "\<forall>d \<in> set (fc_indicators cfg). ind_name d = i \<longrightarrow> (\<exists>m. compute d (sort_frame df) = Inl (InsufficientDataError m))"
  shows "\<exists>e. build_features E compute cfg hash df symb tf pt persist (store, n) = Inl e"
proof (rule ccontr)
  assume "\<not> ?thesis"
  then obtain r where "build_features E compute cfg hash df symb tf pt persist (store, n) = Inr r"
    by (metis sum.exhaust)
  then obtain fs ctx store' k where
    "build_features E compute cfg hash df symb tf pt persist (store, n) = Inr (fs, ctx, store', k)"
    by (metis prod_cases4)
  from needed_computed [OF this assms(1)] assms(2) show False by fastforce
qed

definition demo_features :: "unit features_config" where
  "demo_features = \<lparr>fc_version = ''v2'',
     fc_indicators = [\<lparr>ind_name = ''ema_12'', ind_type = ''ema'', ind_params = ()\<rparr>,
       \<lparr>ind_name = ''ema_26'', ind_type = ''ema'', ind_params = ()\<rparr>,
       \<lparr>ind_name = ''atr_14'', ind_type = ''atr'', ind_params = ()\<rparr>],
     fc_flags = [],
     fc_context = \<lparr>cc_trend = \<lparr>tc_fast = ''ema_12'', tc_slow = ''ema_26''\<rparr>,
       cc_volatility = \<lparr>vc_atr = ''atr_14'', vc_low = 0.3, vc_high = 1\<rparr>\<rparr>\<rparr>"

theorem warm_up_fails_build_witness:
  "\<exists>e. build_features unary_env (\<lambda>d df. if ind_name d = ''ema_26'' then Inl (InsufficientDataError ''ema'') else Inr 1)
     demo_features ''h'' demo_rows ''BTC'' ''1h'' 0 True (empty_features, 0) = Inl e"
  by (rule warm_up_fails_build [where i = "''ema_26''"]) (auto simp: demo_features_def needed_names_def)


subsection \<open>Drift (drift.py)\<close>

text \<open>A stored value is whatever JSON held: a number, a boolean (which Python counts as a
  number), a text, or null.\<close>

datatype json_value = J_num real | J_bool bool | J_text string | J_null

definition as_number :: "json_value \<Rightarrow> real option" where
  "as_number v = (case v of J_num x \<Rightarrow> Some x | J_bool b \<Rightarrow> Some (if b then 1 else 0) | _ \<Rightarrow> None)"

datatype drift_reason = Missing | Delta real | Unequal

record drift_entry =
  drift_key :: string
  drift_stored :: json_value
  drift_rebuilt :: json_value
  drift_reason :: drift_reason

definition value_of :: "(string, json_value) dict \<Rightarrow> string \<Rightarrow> json_value" where
  "value_of d k = dict_get_or d k J_null"

definition compare_values :: "real \<Rightarrow> json_value \<Rightarrow> json_value \<Rightarrow> drift_reason option" where
  "compare_values tol a b =
     (if a = J_null \<or> b = J_null then Some Missing
      else case (as_number a, as_number b) of
        (Some x, Some y) \<Rightarrow> if \<bar>x - y\<bar> > tol then Some (Delta (y - x)) else None
      | _ \<Rightarrow> if a \<noteq> b then Some Unequal else None)"

definition compare_maps ::
  "(string, json_value) dict \<Rightarrow> (string, json_value) dict \<Rightarrow> real \<Rightarrow> drift_entry list" where
  "compare_maps stored rebuilt tol =
     concat (map (\<lambda>k. case compare_values tol (value_of stored k) (value_of rebuilt k) of
         None \<Rightarrow> []
       | Some r \<Rightarrow> [\<lparr>drift_key = k, drift_stored = value_of stored k,
                    drift_rebuilt = value_of rebuilt k, drift_reason = r\<rparr>])
       (sort (remdups (dict_keys stored @ dict_keys rebuilt))))"

record drift_report =
  drift_detected :: bool
  drift_count :: nat
  drifts :: "drift_entry list"

definition compare_features ::
  "(string, json_value) dict \<Rightarrow> (string, json_value) dict \<Rightarrow> real
   \<Rightarrow> (string, json_value) dict option \<Rightarrow> (string, json_value) dict option \<Rightarrow> drift_report" where
  "compare_features stored rebuilt tol stored_flags rebuilt_flags =
     (let d = compare_maps stored rebuilt tol
            @ (if stored_flags \<noteq> None \<or> rebuilt_flags \<noteq> None
               then compare_maps (case stored_flags of None \<Rightarrow> [] | Some f \<Rightarrow> f)
                      (case rebuilt_flags of None \<Rightarrow> [] | Some f \<Rightarrow> f) tol
               else [])
      in \<lparr>drift_detected = length d > 0, drift_count = length d, drifts = d\<rparr>)"

text \<open>Two values agree when both are numbers within the tolerance, or equal texts.\<close>

definition agree :: "real \<Rightarrow> json_value \<Rightarrow> json_value \<Rightarrow> bool" where
  "agree tol a b = (case (as_number a, as_number b) of
     (Some x, Some y) \<Rightarrow> \<bar>x - y\<bar> \<le> tol | (None, None) \<Rightarrow> a \<noteq> J_null \<and> a = b | _ \<Rightarrow> False)"

lemma compare_values_None: "compare_values tol a b = None \<longleftrightarrow> agree tol a b"
  by (cases a; cases b) (auto simp: compare_values_def agree_def as_number_def)

lemma compare_maps_filter:
  "map drift_key (compare_maps stored rebuilt tol) =
     filter (\<lambda>k. \<not> agree tol (value_of stored k) (value_of rebuilt k))
       (sort (remdups (dict_keys stored @ dict_keys rebuilt)))"
proof -
  have "map drift_key (concat (map (\<lambda>k. case compare_values tol (value_of stored k) (value_of rebuilt k) of
         None \<Rightarrow> []
       | Some r \<Rightarrow> [\<lparr>drift_key = k, drift_stored = value_of stored k,
                    drift_rebuilt = value_of rebuilt k, drift_reason = r\<rparr>]) ks)) =
     filter (\<lambda>k. \<not> agree tol (value_of stored k) (value_of rebuilt k)) ks" for ks
    by (induction ks) (auto simp: compare_values_None [symmetric] split: option.splits)
  then show ?thesis by (simp only: compare_maps_def)
qed

lemma compare_maps_keys:
  "set (map drift_key (compare_maps stored rebuilt tol)) =
     {k \<in> set (dict_keys stored) \<union> set (dict_keys rebuilt). \<not> agree tol (value_of stored k) (value_of rebuilt k)}"
  by (simp only: compare_maps_filter) auto

lemma compare_maps_sorted: "sorted (map drift_key (compare_maps stored rebuilt tol))"
  by (simp only: compare_maps_filter) (simp add: sorted_filter [of "\<lambda>x. x", simplified])

lemma compare_maps_empty:
  "compare_maps stored rebuilt tol = [] \<longleftrightarrow> (\<forall>k \<in> set (dict_keys stored) \<union> set (dict_keys rebuilt).
      agree tol (value_of stored k) (value_of rebuilt k))"
proof -
  have "compare_maps stored rebuilt tol = [] \<longleftrightarrow> map drift_key (compare_maps stored rebuilt tol) = []" by simp
  also have "\<dots> \<longleftrightarrow> (\<forall>k \<in> set (dict_keys stored) \<union> set (dict_keys rebuilt).
      agree tol (value_of stored k) (value_of rebuilt k))"
    unfolding compare_maps_filter by (auto simp: filter_empty_conv)
  finally show ?thesis .
qed

text \<open>The drift report is exact. Its entries are, for indicators and then for flags, the
  keys of either side whose values do not agree within the tolerance, in alphabetical
  order; nothing is detected exactly when both sides have the same keys with agreeing
  values, and the count is the number of entries.\<close>

theorem drift_report_exact:
  "let R = compare_features stored rebuilt tol (Some sf) (Some rf)
   in (\<exists>a b. drifts R = a @ b
        \<and> sorted (map drift_key a) \<and> sorted (map drift_key b)
        \<and> set (map drift_key a) = {k \<in> set (dict_keys stored) \<union> set (dict_keys rebuilt).
            \<not> agree tol (value_of stored k) (value_of rebuilt k)}
        \<and> set (map drift_key b) = {k \<in> set (dict_keys sf) \<union> set (dict_keys rf).
            \<not> agree tol (value_of sf k) (value_of rf k)})
      \<and> drift_count R = length (drifts R)
      \<and> (drift_detected R = False) = ((\<forall>k \<in> set (dict_keys stored) \<union> set (dict_keys rebuilt).
            agree tol (value_of stored k) (value_of rebuilt k))
          \<and> (\<forall>k \<in> set (dict_keys sf) \<union> set (dict_keys rf). agree tol (value_of sf k) (value_of rf k)))"
proof -
  let ?a = "compare_maps stored rebuilt tol" and ?b = "compare_maps sf rf tol"
  note e = compare_maps_empty [of stored rebuilt tol] and f = compare_maps_empty [of sf rf tol]
  have R: "compare_features stored rebuilt tol (Some sf) (Some rf) =
      \<lparr>drift_detected = length (?a @ ?b) > 0, drift_count = length (?a @ ?b), drifts = ?a @ ?b\<rparr>"
    by (simp add: compare_features_def Let_def)
  show ?thesis
    unfolding R Let_def e [symmetric] f [symmetric]
    by (rule conjI, rule exI [of _ ?a], rule exI [of _ ?b])
      (simp_all only: drift_report.simps compare_maps_sorted compare_maps_keys length_append add_gr_0, auto)
qed

theorem drift_report_exact_witness:
  "drift_detected (compare_features [(''rsi'', J_num 50), (''ema'', J_num 1)] [(''ema'', J_num 1)] (1 / 1000000)
      (Some [(''up'', J_bool True)]) (Some [(''up'', J_num 1)]))"
  using drift_report_exact [of "[(''rsi'', J_num 50), (''ema'', J_num 1)]" "[(''ema'', J_num 1)]" "1 / 1000000"
      "[(''up'', J_bool True)]" "[(''up'', J_num 1)]"]
  by (simp add: Let_def dict_keys_def value_of_def dict_get_or_def agree_def as_number_def)

end
