(* ===== verification/RuntimeModel.thy ===== *)
theory RuntimeModel
  imports DecisionEngine Execution EventBus Features
begin

text \<open>
  \<^verbatim>\<open>backend/src/runtime/platform_runtime.py\<close> and \<^verbatim>\<open>clocks.py\<close>: one cycle of the platform,
  from the latest bars to the published events. A phase is a function from the state to
  the new state and either a value or the error it raised, so that what a failing cycle
  has already changed is kept, as it is in the program.
\<close>


subsection \<open>Phases\<close>

type_synonym ('s, 'a) phase = "'s \<Rightarrow> 's \<times> 'a result"

definition return :: "'a \<Rightarrow> ('s, 'a) phase" where
  "return x s = (s, Inr x)"

definition raise :: "py_error \<Rightarrow> ('s, 'a) phase" where
  "raise e s = (s, Inl e)"

definition seq :: "('s, 'a) phase \<Rightarrow> ('a \<Rightarrow> ('s, 'b) phase) \<Rightarrow> ('s, 'b) phase" where
  "seq f g s = (case f s of (s', Inl e) \<Rightarrow> (s', Inl e) | (s', Inr x) \<Rightarrow> g x s')"

lemma phase_simps [simp]:
  "return x s = (s, Inr x)" "raise e s = (s, Inl e)"
  by (simp_all add: return_def raise_def)

lemma seq_Inr: "seq f g s = (t, Inr y) \<longleftrightarrow> (\<exists>u x. f s = (u, Inr x) \<and> g x u = (t, Inr y))"
  by (auto simp: seq_def split: prod.splits sum.splits)

lemma seq_run: "f s = (u, Inr x) \<Longrightarrow> seq f g s = g x u"
  by (simp add: seq_def)

text \<open>A property of the state that both phases keep is kept by their sequence, errors
  included.\<close>

lemma seq_keeps:
  assumes "P s" and "\<And>u r. P s \<Longrightarrow> f s = (u, r) \<Longrightarrow> P u"
    and "\<And>u x t r. P u \<Longrightarrow> f s = (u, Inr x) \<Longrightarrow> g x u = (t, r) \<Longrightarrow> P t"
    and "seq f g s = (t, r)"
  shows "P t"
proof -
  obtain u q where f: "f s = (u, q)" by fastforce
  show ?thesis
  proof (cases q)
    case (Inl e)
    with f assms(4) have "t = u" by (simp add: seq_def)
    with assms(1,2) f show ?thesis by blast
  next
    case (Inr x)
    with f assms(4) have "g x u = (t, r)" by (simp add: seq_def)
    with assms(2) [OF assms(1) f] assms(3) f Inr show ?thesis by blast
  qed
qed


subsection \<open>Clocks (clocks.py)\<close>

datatype clock = Wall_clock "datetime option" | Simulated_clock datetime datetime

definition simulated_clock :: "datetime \<Rightarrow> datetime option \<Rightarrow> int \<Rightarrow> clock" where
  "simulated_clock t processing offset =
     Simulated_clock t (case processing of None \<Rightarrow> t + offset | Some p \<Rightarrow> p)"

definition now_event_time :: "env \<Rightarrow> clock \<Rightarrow> tick \<Rightarrow> datetime \<times> tick" where
  "now_event_time E c n =
     (case c of Wall_clock (Some t) \<Rightarrow> (t, n)
      | Wall_clock None \<Rightarrow> (wall_clock E n, Suc n)
      | Simulated_clock t p \<Rightarrow> (t, n))"

definition now_processing_time :: "env \<Rightarrow> clock \<Rightarrow> tick \<Rightarrow> datetime \<times> tick" where
  "now_processing_time E c n =
     (case c of Wall_clock _ \<Rightarrow> (wall_clock E n, Suc n) | Simulated_clock t p \<Rightarrow> (p, n))"

definition set_event_time :: "datetime \<Rightarrow> clock \<Rightarrow> clock" where
  "set_event_time t c = (case c of Wall_clock _ \<Rightarrow> Wall_clock (Some t) | Simulated_clock _ p \<Rightarrow> Simulated_clock t p)"

definition set_processing_time :: "datetime \<Rightarrow> clock \<Rightarrow> clock" where
  "set_processing_time p c = (case c of Wall_clock t \<Rightarrow> Wall_clock t | Simulated_clock t _ \<Rightarrow> Simulated_clock t p)"


subsection \<open>The runtime and its state\<close>

text \<open>A signal provider: its identifier, whether it is enabled, and its analysis.\<close>

record provider =
  prov_id :: string
  prov_enabled :: bool
  prov_analyze :: "feature_set \<Rightarrow> market_context \<Rightarrow> strategy_signal result"

text \<open>What the constructor fixes: the collaborators and the flags. \<open>rt_latest\<close> is the data
  provider, \<open>rt_compute\<close> the indicators and \<open>rt_publish\<close> the event bus.\<close>

record ('p, 'w) runtime =
  rt_latest :: "string \<Rightarrow> string \<Rightarrow> datetime \<Rightarrow> tick \<Rightarrow> (frame \<times> tick) result"
  rt_compute :: "'p indicator_fun"
  rt_features :: "'p features_config"
  rt_hash :: string
  rt_providers :: "provider list"
  rt_engine :: engine_config
  rt_exec :: "exec_setup option"
  rt_publish :: "event \<Rightarrow> 'w \<Rightarrow> 'w \<times> unit result"
  rt_portfolio_id :: string
  rt_mode :: run_mode
  rt_persist :: bool
  rt_emit :: bool

record 'w platform =
  pl_store :: store
  pl_exec :: exec_state
  pl_features :: feature_store
  pl_clock :: clock
  pl_signals_day :: "int option"
  pl_bus :: 'w
  pl_tick :: tick

text \<open>The context of one cycle; the last three fields grow during it.\<close>

record cycle =
  cy_id :: string
  cy_symbol :: string
  cy_timeframe :: string
  cy_revision_id :: "string option"
  cy_experiment_id :: "string option"
  cy_bar :: bar
  cy_event_time :: datetime
  cy_processing_time :: datetime
  cy_df :: frame
  cy_events :: "event list"
  cy_causation :: "string option"
  cy_exec_events :: "event list"

record cycle_result =
  cr_correlation_id :: string
  cr_feature_set :: feature_set
  cr_context :: market_context
  cr_snapshot :: state_snapshot
  cr_signals :: "strategy_signal list"
  cr_decision :: decision
  cr_events :: "event list"
  cr_execution_events :: "event list"

record cycle_args =
  ca_symbol :: string
  ca_timeframe :: string
  ca_correlation_id :: "string option"
  ca_revision_id :: "string option"
  ca_experiment_id :: "string option"

type_synonym 'w running = "'w platform \<times> cycle"


subsection \<open>Steps shared by the phases\<close>

text \<open>An operation of the state store inside a phase.\<close>

definition with_store :: "(store \<times> tick \<Rightarrow> ('a \<times> store \<times> tick) result) \<Rightarrow> ('w running, 'a) phase" where
  "with_store f = (\<lambda>(p, c). case f (pl_store p, pl_tick p) of
     Inl e \<Rightarrow> ((p, c), Inl e)
   | Inr (x, s, n) \<Rightarrow> ((p\<lparr>pl_store := s, pl_tick := n\<rparr>, c), Inr x))"

definition take_snapshot :: "env \<Rightarrow> ('p, 'w) runtime \<Rightarrow> ('w running, state_snapshot) phase" where
  "take_snapshot E R = (\<lambda>(p, c). with_store (snapshot E (rt_portfolio_id R) (Some (cy_id c))) (p, c))"

fun apply_each :: "env \<Rightarrow> state_transition list \<Rightarrow> ('w running, unit) phase" where
  "apply_each E [] pc = (pc, Inr ())"
| "apply_each E (tr # trs) pc =
     (case with_store (apply_transition E tr) pc of
        (pc', Inl e) \<Rightarrow> (pc', Inl e)
      | (pc', Inr _) \<Rightarrow> apply_each E trs pc')"

definition cycle_meta :: "('p, 'w) runtime \<Rightarrow> cycle \<Rightarrow> envelope_meta" where
  "cycle_meta R c = \<lparr>em_event_time = cy_event_time c, em_processing_time = cy_processing_time c,
     em_correlation_id = cy_id c, em_symbol = cy_symbol c, em_timeframe = cy_timeframe c,
     em_mode = rt_mode R, em_experiment_id = cy_experiment_id c, em_revision_id = cy_revision_id c\<rparr>"

text \<open>Building an envelope and appending it to the cycle's events, when events are on;
  \<open>chain\<close> says whether it becomes the cause of what follows.\<close>

definition emit ::
  "env \<Rightarrow> ('p, 'w) runtime \<Rightarrow> bool \<Rightarrow> event_family \<Rightarrow> event_type \<Rightarrow> payload \<Rightarrow> ('w running, unit) phase" where
  "emit E R chain fam typ pl = (\<lambda>(p, c).
     if \<not> rt_emit R then ((p, c), Inr ())
     else (case build_envelope E (cycle_meta R c) fam typ pl (cy_causation c) (pl_tick p) of
        (e, n) \<Rightarrow> ((p\<lparr>pl_tick := n\<rparr>,
           c\<lparr>cy_events := cy_events c @ [e],
             cy_causation := (if chain then Some (event_id e) else cy_causation c)\<rparr>), Inr ())))"

definition cycle_exec_args :: "cycle \<Rightarrow> exec_args" where
  "cycle_exec_args c = \<lparr>xa_symbol = cy_symbol c, xa_timeframe = cy_timeframe c,
     xa_correlation_id = cy_id c, xa_event_time = cy_event_time c,
     xa_processing_time = cy_processing_time c\<rparr>"

text \<open>\<^verbatim>\<open>ctx.execution_events.extend(...)\<close>, after the transitions were applied.\<close>

definition note_exec_events :: "event list \<Rightarrow> ('w running, unit) phase" where
  "note_exec_events evs = (\<lambda>(p, c). ((p, c\<lparr>cy_exec_events := cy_exec_events c @ evs\<rparr>), Inr ()))"

definition bar_evaluation ::
  "env \<Rightarrow> exec_setup \<Rightarrow> state_snapshot \<Rightarrow> side option \<Rightarrow> bool \<Rightarrow> ('w running, unit) phase" where
  "bar_evaluation E X snap so inc = (\<lambda>(p, c).
     case evaluate_bar E X (cycle_exec_args c) (cy_bar c) snap so inc (pl_exec p, pl_tick p) of
       (res, st, n) \<Rightarrow>
         seq (apply_each E (er_transitions res)) (\<lambda>_. note_exec_events (er_events res))
           (p\<lparr>pl_exec := st, pl_tick := n\<rparr>, c))"


subsection \<open>The phases of a cycle\<close>

definition prepare_bar ::
  "env \<Rightarrow> ('p, 'w) runtime \<Rightarrow> cycle_args \<Rightarrow> 'w platform \<Rightarrow> 'w platform \<times> cycle result" where
  "prepare_bar E R a p =
     (let (cid, n1) = (case ca_correlation_id a of
            Some i \<Rightarrow> if i \<noteq> [] then (i, pl_tick p) else (fresh_id E ''cycle_'' (pl_tick p), Suc (pl_tick p))
          | None \<Rightarrow> (fresh_id E ''cycle_'' (pl_tick p), Suc (pl_tick p)));
          (end, n2) = now_event_time E (pl_clock p) n1
      in case rt_latest R (ca_symbol a) (ca_timeframe a) end n2 of
           Inl e \<Rightarrow> (p\<lparr>pl_tick := n2\<rparr>, Inl e)
         | Inr (df, n3) \<Rightarrow>
             if df = [] then (p\<lparr>pl_tick := n3\<rparr>, Inl IndexError)
             else
               (let t = fst (last df); (proc, n4) = now_processing_time E (pl_clock p) n3
                in (p\<lparr>pl_clock := set_event_time t (pl_clock p), pl_tick := n4\<rparr>,
                    Inr \<lparr>cy_id = cid, cy_symbol = ca_symbol a, cy_timeframe = ca_timeframe a,
                      cy_revision_id = ca_revision_id a, cy_experiment_id = ca_experiment_id a,
                      cy_bar = snd (last df), cy_event_time = t, cy_processing_time = proc, cy_df = df,
                      cy_events = [], cy_causation = None, cy_exec_events = []\<rparr>)))"

definition pre_decision_evaluate :: "env \<Rightarrow> ('p, 'w) runtime \<Rightarrow> ('w running, unit) phase" where
  "pre_decision_evaluate E R =
     (case rt_exec R of
        None \<Rightarrow> return ()
      | Some X \<Rightarrow> seq (take_snapshot E R) (\<lambda>snap. bar_evaluation E X snap None True))"

definition emit_candle_received :: "env \<Rightarrow> ('p, 'w) runtime \<Rightarrow> ('w running, unit) phase" where
  "emit_candle_received E R = (\<lambda>(p, c).
     emit E R True Fam_market CandleReceived (P_candle (cy_bar c)) (p, c))"

definition features_phase ::
  "env \<Rightarrow> ('p, 'w) runtime \<Rightarrow> ('w running, feature_set \<times> market_context) phase" where
  "features_phase E R = (\<lambda>(p, c).
     case build_features E (rt_compute R) (rt_features R) (rt_hash R) (cy_df c) (cy_symbol c) (cy_timeframe c)
            (cy_processing_time c) (rt_persist R) (pl_features p, pl_tick p) of
       Inl e \<Rightarrow> ((p, c), Inl e)
     | Inr (fs, ctx, fstore, n) \<Rightarrow>
         (let p' = p\<lparr>pl_features := fstore, pl_tick := n\<rparr>;
              check = (if rt_persist R then
                         (case get_features fstore (feature_set_id fs) of
                            Inl e \<Rightarrow> raise e
                          | Inr r \<Rightarrow> if fsr_market_context r \<noteq> Some ctx
                              then raise (RuntimeError ''FeatureStore record does not match built MarketContext'')
                              else return ())
                       else return ())
          in seq check (\<lambda>_.
             seq (emit E R True Fam_market FeatureSetBuilt
                    (P_features (feature_set_id fs) (feature_version fs) (config_hash fs) (indicators fs) (flags fs)))
               (\<lambda>_. seq (emit E R True Fam_market MarketContextDerived (P_context ctx))
               (\<lambda>_. return (fs, ctx)))) (p', c)))"

text \<open>\<^verbatim>\<open>_maybe_reset_daily_risk\<close>. The first cycle only notes the day.\<close>

definition reset_updates :: "real \<Rightarrow> risk_update list" where
  "reset_updates current_equity =
     [RU_signals_today 0, RU_daily_pnl 0, RU_daily_drawdown_pct 0, RU_daily_start_equity current_equity]"

definition maybe_reset_daily_risk :: "env \<Rightarrow> ('p, 'w) runtime \<Rightarrow> ('w running, unit) phase" where
  "maybe_reset_daily_risk E R = (\<lambda>(p, c).
     let today = date_of (cy_event_time c)
     in case pl_signals_day p of
          None \<Rightarrow> ((p\<lparr>pl_signals_day := Some today\<rparr>, c), Inr ())
        | Some d \<Rightarrow>
            if today = d then ((p, c), Inr ())
            else
              (let p1 = p\<lparr>pl_signals_day := Some today\<rparr>
               in case get_risk (rt_portfolio_id R) (pl_store p1) of
                    Inl e \<Rightarrow> ((p1, c), Inl e)
                  | Inr risk \<Rightarrow>
                     (case get_portfolio (rt_portfolio_id R) (pl_store p1) of
                        Inl e \<Rightarrow> ((p1, c), Inl e)
                      | Inr pf \<Rightarrow>
                          if signals_today risk = 0 \<and> daily_pnl risk = 0 \<and> daily_drawdown_pct risk = 0
                             \<and> daily_start_equity risk = equity pf
                          then ((p1, c), Inr ())
                          else apply_each E [\<lparr>transition_id = fresh_id E ''trans_'' (pl_tick p1),
                                 tr_portfolio_id = rt_portfolio_id R, tr_body = Risk_updated (reset_updates (equity pf)),
                                 tr_event_time = cy_event_time c, tr_correlation_id = cy_id c\<rparr>]
                               (p1\<lparr>pl_tick := Suc (pl_tick p1)\<rparr>, c))))"

definition mark_to_market_phase :: "env \<Rightarrow> ('p, 'w) runtime \<Rightarrow> ('w running, unit) phase" where
  "mark_to_market_phase E R = (\<lambda>(p, c).
     case get_portfolio (rt_portfolio_id R) (pl_store p) of
       Inl e \<Rightarrow> ((p, c), Inl e)
     | Inr pf \<Rightarrow>
         if open_positions pf = [] then ((p, c), Inr ())
         else apply_each E [\<lparr>transition_id = fresh_id E ''trans_'' (pl_tick p),
                tr_portfolio_id = rt_portfolio_id R,
                tr_body = Mark_to_market [cy_symbol c \<mapsto> bar_close (cy_bar c)],
                tr_event_time = cy_event_time c, tr_correlation_id = cy_id c\<rparr>]
              (p\<lparr>pl_tick := Suc (pl_tick p)\<rparr>, c))"

fun collect_signals ::
  "env \<Rightarrow> ('p, 'w) runtime \<Rightarrow> feature_set \<Rightarrow> market_context \<Rightarrow> provider list
   \<Rightarrow> ('w running, strategy_signal list) phase"
where
  "collect_signals E R fs ctx [] = return []"
| "collect_signals E R fs ctx (pv # pvs) =
     (if \<not> prov_enabled pv then
        seq (emit E R False Fam_signal ProviderSkipped (P_skipped (prov_id pv) ''disabled''))
          (\<lambda>_. collect_signals E R fs ctx pvs)
      else
        (case prov_analyze pv fs ctx of
           Inl e \<Rightarrow> raise e
         | Inr sig \<Rightarrow>
             seq (emit E R False Fam_signal ProviderOpinion
                    (P_opinion (prov_id pv) (sig_side sig) (sig_confidence sig) (sig_rationale sig)))
               (\<lambda>_. seq (collect_signals E R fs ctx pvs) (\<lambda>sigs. return (sig # sigs)))))"

definition decision_events :: "env \<Rightarrow> ('p, 'w) runtime \<Rightarrow> state_snapshot \<Rightarrow> decision \<Rightarrow> ('w running, unit) phase" where
  "decision_events E R snap d =
     seq (emit E R True Fam_decision DecisionMade
            (P_decision_made (decision_id d) (dr_value (dec_result d)) (snapshot_id snap) (dec_log d)))
       (\<lambda>_. seq (if is_approved d
              then emit E R True Fam_decision DecisionApproved
                     (P_approved (decision_id d) (snapshot_id snap) (dec_final_signal d))
              else emit E R True Fam_decision DecisionRejected
                     (P_rejected (decision_id d) (snapshot_id snap) (dr_rejection_stage (dec_result d))
                        (dr_rejection_reason (dec_result d)) (dec_log d)))
       (\<lambda>_. case (if is_approved d then dec_final_signal d else None) of
              None \<Rightarrow> return ()
            | Some fs \<Rightarrow> emit E R False Fam_execution SignalPublished
                (P_signal (decision_id d) (fin_side fs) (fin_entry_price fs) (fin_stop_loss fs)
                   (fin_take_profit fs) (fin_confidence fs) (risk_reward fs) (contributing_providers fs))))"

definition decide ::
  "env \<Rightarrow> ('p, 'w) runtime \<Rightarrow> strategy_signal list \<Rightarrow> market_context \<Rightarrow> state_snapshot \<Rightarrow> ('w running, decision) phase" where
  "decide E R sigs ctx snap = (\<lambda>(p, c).
     case process E (rt_engine R) sigs ctx snap
            \<lparr>dm_correlation_id = cy_id c, dm_event_time = cy_event_time c,
             dm_decision_time = cy_processing_time c, dm_revision_id = cy_revision_id c,
             dm_experiment_id = cy_experiment_id c\<rparr> (pl_tick p) of
       Inl e \<Rightarrow> ((p, c), Inl e)
     | Inr (d, n) \<Rightarrow>
         seq (decision_events E R snap d)
           (\<lambda>_. if is_approved d then
              (\<lambda>(q, c'). seq (apply_each E [\<lparr>transition_id = fresh_id E ''trans_'' (pl_tick q),
                     tr_portfolio_id = rt_portfolio_id R,
                     tr_body = Risk_updated [RU_signals_today (signals_today (snap_risk snap) + 1)],
                     tr_event_time = cy_event_time c', tr_correlation_id = cy_id c'\<rparr>])
                   (\<lambda>_. return d) (q\<lparr>pl_tick := Suc (pl_tick q)\<rparr>, c'))
            else return d)
           (p\<lparr>pl_tick := n\<rparr>, c))"

definition signal_exit :: "env \<Rightarrow> ('p, 'w) runtime \<Rightarrow> exec_setup \<Rightarrow> decision \<Rightarrow> ('w running, unit) phase" where
  "signal_exit E R X d = (\<lambda>(p, c).
     case get_portfolio (rt_portfolio_id R) (pl_store p) of
       Inl e \<Rightarrow> ((p, c), Inl e)
     | Inr pf \<Rightarrow>
         (case dec_final_signal d of
            Some fs \<Rightarrow>
              if open_positions pf \<noteq> [] then
                seq (take_snapshot E R) (\<lambda>snap. bar_evaluation E X snap (Some (fin_side fs)) False) (p, c)
              else ((p, c), Inr ())
          | None \<Rightarrow> ((p, c), Inr ())))"

definition execute_decision :: "env \<Rightarrow> exec_setup \<Rightarrow> decision \<Rightarrow> state_snapshot \<Rightarrow> ('w running, unit) phase" where
  "execute_decision E X d snap = (\<lambda>(p, c).
     case execute E X (cycle_exec_args c) d snap (cy_bar c) (pl_exec p, pl_tick p) of
       Inl e \<Rightarrow> ((p, c), Inl e)
     | Inr (res, st, n) \<Rightarrow>
         seq (apply_each E (er_transitions res)) (\<lambda>_. note_exec_events (er_events res))
           (p\<lparr>pl_exec := st, pl_tick := n\<rparr>, c))"

definition same_bar_exit_and_execute :: "env \<Rightarrow> ('p, 'w) runtime \<Rightarrow> decision \<Rightarrow> ('w running, unit) phase" where
  "same_bar_exit_and_execute E R d =
     (case (if is_approved d then rt_exec R else None) of
        None \<Rightarrow> return ()
      | Some X \<Rightarrow>
          seq (signal_exit E R X d)
            (\<lambda>_. seq (take_snapshot E R) (execute_decision E X d)))"

definition publish_events :: "('p, 'w) runtime \<Rightarrow> ('w running, unit) phase" where
  "publish_events R = (\<lambda>(p, c).
     let evs = cy_events c @ cy_exec_events c; c' = c\<lparr>cy_events := evs\<rparr>
     in case publish_many (rt_publish R) evs (pl_bus p) of
          (w, r) \<Rightarrow> ((p\<lparr>pl_bus := w\<rparr>, c'), r))"

definition cycle_body :: "env \<Rightarrow> ('p, 'w) runtime \<Rightarrow> ('w running, cycle_result) phase" where
  "cycle_body E R =
     seq (pre_decision_evaluate E R) (\<lambda>_.
     seq (emit_candle_received E R) (\<lambda>_.
     seq (features_phase E R) (\<lambda>(fs, ctx).
     seq (maybe_reset_daily_risk E R) (\<lambda>_.
     seq (mark_to_market_phase E R) (\<lambda>_.
     seq (take_snapshot E R) (\<lambda>snap.
     seq (collect_signals E R fs ctx (rt_providers R)) (\<lambda>sigs.
     seq (decide E R sigs ctx snap) (\<lambda>d.
     seq (same_bar_exit_and_execute E R d) (\<lambda>_.
     seq (publish_events R) (\<lambda>_ (p, c).
       ((p, c), Inr \<lparr>cr_correlation_id = cy_id c, cr_feature_set = fs, cr_context = ctx,
          cr_snapshot = snap, cr_signals = sigs, cr_decision = d, cr_events = cy_events c,
          cr_execution_events = cy_exec_events c\<rparr>)))))))))))"

definition run_cycle ::
  "env \<Rightarrow> ('p, 'w) runtime \<Rightarrow> cycle_args \<Rightarrow> 'w platform \<Rightarrow> 'w platform \<times> cycle_result result" where
  "run_cycle E R a p =
     (case prepare_bar E R a p of
        (p1, Inl e) \<Rightarrow> (p1, Inl e)
      | (p1, Inr c) \<Rightarrow> (case cycle_body E R (p1, c) of ((p2, c2), r) \<Rightarrow> (p2, r)))"

text \<open>The constructor: the state store of the given portfolio, an engine with no positions, an
  empty feature store.\<close>

definition new_platform :: "store \<Rightarrow> clock \<Rightarrow> 'w \<Rightarrow> tick \<Rightarrow> 'w platform" where
  "new_platform s c w n = \<lparr>pl_store = s, pl_exec = init_exec_state, pl_features = empty_features,
     pl_clock = c, pl_signals_day = None, pl_bus = w, pl_tick = n\<rparr>"

end
