(* ===== verification/Runtime.thy ===== *)
theory Runtime
  imports RuntimeModel
begin

text \<open>
  Correctness of the runtime: the invariants every cycle keeps whatever the bars, the
  providers and the handlers do, and errors included; what a cycle publishes and in which
  order; that a cycle raises only when a collaborator does; the daily reset; and the clock.
\<close>


subsection \<open>The book the engine and the store agree on\<close>

definition coherent_book :: "env \<Rightarrow> store \<Rightarrow> exec_state \<Rightarrow> tick \<Rightarrow> bool" where
  "coherent_book E s st n \<longleftrightarrow> pf_portfolio_id (st_portfolio s) = st_portfolio_id s
     \<and> distinct (map position_id (book s)) \<and> ids_before E n (book s)
     \<and> tracks st (position_id ` set (book s))"

lemma coherent_mono: "coherent_book E s st m \<Longrightarrow> m \<le> n \<Longrightarrow> coherent_book E s st n"
  by (auto simp: coherent_book_def intro: ids_before_mono)

lemma coherent_view: "same_view s t \<Longrightarrow> coherent_book E t st n = coherent_book E s st n"
  by (simp add: coherent_book_def same_view_def)

definition trading :: "state_transition \<Rightarrow> bool" where
  "trading tr \<longleftrightarrow> (case tr_body tr of Position_opened p f c \<Rightarrow> True | Position_closed i f x r \<Rightarrow> True | _ \<Rightarrow> False)"

lemma trading_keeps_book: "trading tr \<Longrightarrow> keeps_book tr"
  by (simp add: trading_def keeps_book_def split: transition_body.splits)

lemma run_trading:
  "\<forall>tr \<in> set trs. trading tr \<Longrightarrow>
   pf_portfolio_id (st_portfolio (run_bodies trs s)) = pf_portfolio_id (st_portfolio s)
   \<and> limits (st_risk (run_bodies trs s)) = limits (st_risk s)
   \<and> signals_today (st_risk (run_bodies trs s)) = signals_today (st_risk s)"
proof (induction trs arbitrary: s)
  case (Cons tr trs)
  let ?s = "apply_body (tr_body tr) (tr_event_time tr) s"
  from Cons.prems have "pf_portfolio_id (st_portfolio ?s) = pf_portfolio_id (st_portfolio s)
      \<and> limits (st_risk ?s) = limits (st_risk s) \<and> signals_today (st_risk ?s) = signals_today (st_risk s)"
    by (auto simp: trading_def apply_position_opened_def apply_position_closed_def Let_def
        split: transition_body.splits)
  with Cons.IH [of ?s] Cons.prems show ?case by simp
qed simp

text \<open>What a call of the engine must satisfy for the agreement to survive the application of
  its transitions.\<close>

definition settles ::
  "env \<Rightarrow> store \<Rightarrow> exec_state \<Rightarrow> tick \<Rightarrow> state_transition list \<Rightarrow> exec_state \<Rightarrow> tick \<Rightarrow> bool" where
  "settles E s st n trs st' k \<longleftrightarrow> n \<le> k
     \<and> (\<forall>tr \<in> set trs. tr_portfolio_id tr = st_portfolio_id s \<and> trading tr)
     \<and> coherent_book E (run_bodies trs s) st' k"

lemma opens_all:
  "\<forall>tr \<in> set trs. \<exists>p f c. tr_body tr = Position_opened p f c \<Longrightarrow>
   (\<forall>tr \<in> set trs. trading tr) \<and> concat (map closes trs) = []"
  by (induction trs) (auto simp: trading_def closes_def)

lemma ids_before_filled:
  assumes "length ms = length pes" and "\<forall>m \<in> set ms. m < k"
  shows "ids_before E k (filled_positions E X a b pes ms)"
proof -
  have "position_id p \<in> fresh_id E ''pos_'' ` set ms" if "p \<in> set (filled_positions E X a b pes ms)" for p
    using that position_id_filled [OF assms(1), of E X a b] by (metis image_eqI set_map)
  with assms(2) show ?thesis by (fastforce simp: ids_before_def)
qed

lemma exit_loop_settles:
  assumes "exit_loop E X a b snap so inc (open_positions (snap_portfolio snap)) (st, n) = (evs, trs, st', k)"
    and "pf_portfolio_id (snap_portfolio snap) = st_portfolio_id s" "pf_portfolio_id (st_portfolio s) = st_portfolio_id s"
    and "distinct (map position_id (book s))" "ids_before E n (book s)" "tracks st (position_id ` set (book s))"
    and "book s = open_positions (snap_portfolio snap) @ new"
  shows "settles E s st n trs st' k \<and> pending_entries st' = pending_entries st \<and> concat (map opens trs) = []"
proof -
  let ?ps = "open_positions (snap_portfolio snap)"
  from assms(4,7) have "distinct (map position_id ?ps)" by simp
  note X = exit_loop_spec [OF assms(1) this]
  note cl = closing_list [OF X [THEN conjunct2, THEN conjunct2, THEN conjunct2, THEN conjunct1]]
  have trad: "\<forall>tr \<in> set trs. trading tr" using cl by (fastforce simp: trading_def)
  have bk: "book (run_bodies trs s) = filter (\<lambda>p. position_id p \<notin> set (concat (map closes trs))) (book s)"
    unfolding run_bodies_fold by (rule store_book.closes_only) (use cl in blast)
  have sub: "position_id ` set ?ps \<subseteq> position_id ` set (book s)" using assms(7) by auto
  with X assms(6) have "tracks st' (position_id ` set (book s) - set (concat (map closes trs)))" by blast
  moreover have "position_id ` set (book (run_bodies trs s)) = position_id ` set (book s) - set (concat (map closes trs))"
    unfolding bk by auto
  ultimately have "tracks st' (position_id ` set (book (run_bodies trs s)))" by simp
  moreover have "distinct (map position_id (book (run_bodies trs s)))"
    unfolding bk using assms(4) by (rule distinct_map_filter)
  moreover have "ids_before E k (book (run_bodies trs s))"
    using ids_before_mono [OF assms(5)] X unfolding bk by (auto simp: ids_before_def)
  ultimately show ?thesis
    using X trad run_trading [OF trad, of s] assms(2,3) cl
    by (auto simp: settles_def coherent_book_def)
qed

lemma settles_trans:
  assumes "settles E s st n trs1 st1 n1" and "settles E (run_bodies trs1 s) st2 n1 trs2 st' k"
  shows "settles E s st n (trs1 @ trs2) st' k"
  using assms by (auto simp: settles_def run_bodies_append)

lemma evaluate_bar_settles:
  assumes "evaluate_bar E X a b snap so inc (st, n) = (res, st', k)"
    and "snap_portfolio snap = st_portfolio s" and "coherent_book E s st n" and "env_distinct E"
  shows "settles E s st n (er_transitions res) st' k
    \<and> length (concat (map opens (er_transitions res))) \<le> length (pending_entries st)
    \<and> (pending_entries st = [] \<longrightarrow> pending_entries st' = [])"
proof -
  let ?ps = "open_positions (snap_portfolio snap)"
  from assms(3) have pid: "pf_portfolio_id (st_portfolio s) = st_portfolio_id s"
    and di: "distinct (map position_id (book s))" and ib: "ids_before E n (book s)"
    and tr: "tracks st (position_id ` set (book s))" by (simp_all add: coherent_book_def)
  show ?thesis
  proof (cases inc)
    case False
    obtain evs trs st2 k2 where ex0: "exit_loop E X a b snap so False ?ps (st, n) = (evs, trs, st2, k2)"
      by (metis prod_cases4)
    have inc: "inc = False" using False by simp
    have "evaluate_bar E X a b snap so inc (st, n) =
        (\<lparr>er_events = filter_events X ([] @ evs), er_transitions = [] @ trs\<rparr>, st2, k2)"
      unfolding inc evaluate_bar_def if_False Let_def prod.case ex0 execution_result.simps ..
    with assms(1) have "er_transitions res = trs" "st' = st2" "k = k2" by (metis Pair_inject append_Nil execution_result.select_convs(2))+
    with ex0 have ex: "exit_loop E X a b snap so False ?ps (st, n) = (evs, er_transitions res, st', k)" by simp
    have "settles E s st n (er_transitions res) st' k \<and> pending_entries st' = pending_entries st
        \<and> concat (map opens (er_transitions res)) = []"
      by (rule exit_loop_settles [OF ex, where new = "[]"]) (simp_all only: assms(2) pid di ib tr append_Nil2)
    then show ?thesis by (simp del: concat_eq_Nil_conv)
  next
    case True
    from assms(1) [unfolded True [THEN eqTrueI]] obtain evs1 trs1 rem st1 n1 evs2 trs2 where
      pend: "pending_loop E X a b snap (pending_entries st) (st, n) = (evs1, trs1, rem, st1, n1)" and
      ex: "exit_loop E X a b snap so True ?ps (st1\<lparr>pending_entries := rem\<rparr>, n1) = (evs2, trs2, st', k)" and
      trs: "er_transitions res = trs1 @ trs2"
      by (rule evaluate_bar_parts)
    note P = pending_loop_spec [OF pend]
    from P obtain ms where ms: "length ms = length (due a (pending_entries st))" "sorted_wrt (<) ms"
      "\<forall>m \<in> set ms. n \<le> m \<and> m < n1"
      "concat (map opens trs1) = filled_positions E X a b (due a (pending_entries st)) ms" by blast
    have op: "\<forall>tr \<in> set trs1. \<exists>p f c. tr_body tr = Position_opened p f c" using P by blast
    have bk: "book (run_bodies trs1 s) = book s @ filled_positions E X a b (due a (pending_entries st)) ms"
      unfolding run_bodies_fold using store_book.opens_only [OF op, of s] ms(4) by simp
    have new: "position_id p \<notin> position_id ` set (filled_positions E X a b (due a (pending_entries st)) ms)"
      if "p \<in> set (book s)" for p
      by (rule filled_new [OF assms(4) ib _ ms(1) that]) (use ms(3) in blast)
    have dms: "distinct (map (fresh_id E ''pos_'') ms)"
      using ms(2) assms(4) by (auto simp: distinct_map inj_on_def strict_sorted_iff)
    have di1: "distinct (map position_id (book (run_bodies trs1 s)))"
    proof -
      have "set (map position_id (book s))
          \<inter> set (map position_id (filled_positions E X a b (due a (pending_entries st)) ms)) = {}"
        unfolding set_map disjoint_iff using new by (metis imageE)
      with di dms show ?thesis
        unfolding bk by (simp only: map_append distinct_append position_id_filled [OF ms(1)])
    qed
    have ib1: "ids_before E n1 (book (run_bodies trs1 s))"
      unfolding bk using ids_before_mono [OF ib, of n1] P ids_before_filled [OF ms(1), of n1 E X a b] ms(3)
      by (auto simp: ids_before_def)
    have "tracks st1 (position_id ` set (book (run_bodies trs1 s)))"
      unfolding bk using P tr ms(4) by (auto simp: image_Un)
    then have tr1: "tracks (st1\<lparr>pending_entries := rem\<rparr>) (position_id ` set (book (run_bodies trs1 s)))"
      by (simp add: tracks_def)
    from opens_all [OF op] have trad: "\<forall>tr \<in> set trs1. trading tr" by blast
    have pid1: "pf_portfolio_id (st_portfolio (run_bodies trs1 s)) = st_portfolio_id s"
      using run_trading [OF trad, of s] pid by simp
    have s1: "settles E s st n trs1 (st1\<lparr>pending_entries := rem\<rparr>) n1"
      using P trad pid pid1 di1 ib1 tr1 assms(2) by (auto simp: settles_def coherent_book_def)
    have s2: "settles E (run_bodies trs1 s) (st1\<lparr>pending_entries := rem\<rparr>) n1 trs2 st' k
        \<and> pending_entries st' = pending_entries (st1\<lparr>pending_entries := rem\<rparr>) \<and> concat (map opens trs2) = []"
      using exit_loop_settles [OF ex _ _ di1 ib1 tr1] pid pid1 bk [folded assms(2)] assms(2)
      by (metis run_bodies_portfolio_id)
    have len: "length (concat (map opens trs1)) \<le> length (pending_entries st)"
      unfolding ms(4) filled_positions_def using ms(1) by (simp add: due_def)
    have "settles E s st n (trs1 @ trs2) st' k" using settles_trans [OF s1] s2 by blast
    moreover have "length (concat (map opens (trs1 @ trs2))) \<le> length (pending_entries st)"
      using s2 len by (simp del: concat_eq_Nil_conv)
    moreover have "pending_entries st = [] \<longrightarrow> pending_entries st' = []" using s2 P by auto
    ultimately show ?thesis unfolding trs by blast
  qed
qed
lemma execute_settles:
  assumes "execute E X a d snap b (st, n) = Inr (res, st', k)"
    and "snap_portfolio snap = st_portfolio s" and "coherent_book E s st n" and "env_distinct E"
  shows "settles E s st n (er_transitions res) st' k
    \<and> (fm_fill_at (xs_fill_model X) \<noteq> At_next_open \<longrightarrow> pending_entries st' = pending_entries st)
    \<and> length (concat (map opens (er_transitions res))) \<le> 1
    \<and> (er_transitions res \<noteq> [] \<longrightarrow> is_approved d
        \<and> int (length (book s)) < lim_max_open_positions (limits (snap_risk snap)))"
  using assms(1)
proof (cases rule: execute_E)
  case none
  with assms(3) show ?thesis by (simp add: settles_def coherent_mono)
next
  case (submitted sg q n1 evs cause g)
  note gate = gate_check_passed [OF submitted(6,7)]
  note sub = submit_order_result [OF submitted(9)]
  from assms(3) have pid: "pf_portfolio_id (st_portfolio s) = st_portfolio_id s"
    and di: "distinct (map position_id (book s))" and ib: "ids_before E n (book s)"
    and tr: "tracks st (position_id ` set (book s))" by (simp_all add: coherent_book_def)
  show ?thesis
  proof (cases "fm_fill_at (xs_fill_model X) = At_next_open")
    case True
    with sub submitted(8) assms(3) tr have "settles E s st n (er_transitions res) st' k" "er_transitions res = []"
      by (auto simp: settles_def coherent_book_def tracks_def intro: ids_before_mono)
    with True show ?thesis by simp
  next
    case False
    from sub [THEN conjunct2, unfolded if_not_P [OF False]] obtain t p m fl where t: "er_transitions res = [t]" "n1 \<le> m" "m < k"
      "tr_portfolio_id t = pf_portfolio_id (snap_portfolio snap)"
      "tr_body t = Position_opened p fl (pos_entry_price p * q + trade_fee X (pos_entry_price p) q)"
      "position_id p = fresh_id E ''pos_'' m" "pending_entries st' = pending_entries st"
      "position_bars st' = dict_set (position_bars st) (position_id p) 0"
      "set (dict_keys (position_orders st')) = insert (position_id p) (set (dict_keys (position_orders st)))"
      by (elim conjE exE) (rule that; assumption)
    have new: "position_id p \<notin> position_id ` set (book s)"
    proof
      assume "position_id p \<in> position_id ` set (book s)"
      then obtain p' where p': "position_id p = position_id p'" "p' \<in> set (book s)" by (rule imageE)
      from ib p'(2) obtain j where j: "j < n" "position_id p' = fresh_id E ''pos_'' j"
        unfolding ids_before_def by blast
      from p'(1) j(2) t(6) have "fresh_id E ''pos_'' m = fresh_id E ''pos_'' j" by simp
      with j(1) assms(4) t(2) submitted(8) show False by simp
    qed
    have bk: "book (run_bodies [t] s) = book s @ [p]" by (simp add: t(5))
    have "ids_before E k (book s @ [p])"
      using ids_before_mono [OF ib, of k] t(2,3,6) submitted(8) by (auto simp: ids_before_def)
    moreover have "tracks st' (position_id ` set (book s @ [p]))"
      using tr t(8,9) by (simp add: tracks_def)
    moreover have "distinct (map position_id (book s @ [p]))" using di new by simp
    moreover have "trading t" by (simp add: trading_def t(5))
    moreover from this have "pf_portfolio_id (st_portfolio (run_bodies [t] s)) = st_portfolio_id s"
      using run_trading [of "[t]" s] pid by simp
    ultimately have "settles E s st n [t] st' k"
      using t(2,3,4) submitted(8) pid assms(2)
      by (simp add: settles_def coherent_book_def bk del: run_bodies_simps)
    with t(1,7) gate submitted(1) assms(2) show ?thesis by (simp add: opens_def t(5))
  qed
qed


subsection \<open>Invariants of the platform\<close>

text \<open>The store belongs to the runtime's portfolio and agrees with the engine; a runtime that
  fills at once has nothing pending and respects the position limit.\<close>

definition sound :: "env \<Rightarrow> ('p, 'w) runtime \<Rightarrow> 'w platform \<Rightarrow> bool" where
  "sound E R p \<longleftrightarrow> st_portfolio_id (pl_store p) = rt_portfolio_id R
     \<and> coherent_book E (pl_store p) (pl_exec p) (pl_tick p)
     \<and> (\<forall>X. rt_exec R = Some X \<and> fm_fill_at (xs_fill_model X) \<noteq> At_next_open \<longrightarrow>
          pending_entries (pl_exec p) = []
          \<and> int (length (book (pl_store p))) \<le> lim_max_open_positions (limits (st_risk (pl_store p))))"

text \<open>A phase that keeps the invariant, whether it returns or raises.\<close>

definition keeps :: "env \<Rightarrow> ('p, 'w) runtime \<Rightarrow> ('w running, 'a) phase \<Rightarrow> bool" where
  "keeps E R f \<longleftrightarrow> (\<forall>p c p' c' r. sound E R p \<longrightarrow> f (p, c) = ((p', c'), r) \<longrightarrow> sound E R p')"

lemma keepsI: "(\<And>p c p' c' r. sound E R p \<Longrightarrow> f (p, c) = ((p', c'), r) \<Longrightarrow> sound E R p') \<Longrightarrow> keeps E R f"
  by (simp add: keeps_def)

lemma keepsD: "keeps E R f \<Longrightarrow> sound E R p \<Longrightarrow> f (p, c) = ((p', c'), r) \<Longrightarrow> sound E R p'"
  unfolding keeps_def by blast

lemma keeps_return [intro!]: "keeps E R (return x)" "keeps E R (raise e)"
  by (simp_all add: keeps_def)

lemma keeps_seq:
  assumes "keeps E R f" and "\<And>x. keeps E R (g x)"
  shows "keeps E R (seq f g)"
proof (rule keepsI)
  fix p c p' c' r assume s: "sound E R p" and r: "seq f g (p, c) = ((p', c'), r)"
  obtain pu cu q where f: "f (p, c) = ((pu, cu), q)" by (metis prod.exhaust)
  have pu: "sound E R pu" by (rule keepsD [OF assms(1) s f])
  show "sound E R p'"
  proof (cases q)
    case (Inl e)
    with r f pu show ?thesis by (simp add: seq_def)
  next
    case (Inr x)
    with r f have "g x (pu, cu) = ((p', c'), r)" by (simp add: seq_def)
    with assms(2) pu show ?thesis by (rule keepsD)
  qed
qed

lemma sound_frame:
  assumes "sound E R p" "same_view (pl_store p) (pl_store q)" "pl_exec q = pl_exec p" "pl_tick p \<le> pl_tick q"
  shows "sound E R q"
  using assms coherent_mono [of E "pl_store p" "pl_exec p" "pl_tick p" "pl_tick q"]
    coherent_view [OF assms(2), of E "pl_exec p" "pl_tick q"]
  by (simp add: sound_def same_view_def)

lemma keeps_frame:
  assumes "\<And>p c p' c' r. f (p, c) = ((p', c'), r) \<Longrightarrow>
      same_view (pl_store p) (pl_store p') \<and> pl_exec p' = pl_exec p \<and> pl_tick p \<le> pl_tick p'"
  shows "keeps E R f"
proof (rule keepsI)
  fix p c p' c' r assume "sound E R p" "f (p, c) = ((p', c'), r)"
  with assms [of p c p' c' r] show "sound E R p'" by (blast intro: sound_frame)
qed

lemma snapshot_view:
  "snapshot E pid corr (s, n) = Inr (snap, t, k) \<Longrightarrow>
   same_view s t \<and> k = Suc (Suc n) \<and> snap_portfolio snap = st_portfolio s \<and> snap_risk snap = st_risk s
   \<and> pid = st_portfolio_id s"
  by (auto simp: snapshot_eq same_view_def Let_def split: if_splits)

lemma take_snapshot_view:
  assumes "take_snapshot E R (p, c) = ((q, c'), r)"
  shows "same_view (pl_store p) (pl_store q) \<and> pl_exec q = pl_exec p \<and> pl_tick p \<le> pl_tick q \<and> c' = c
    \<and> pl_bus q = pl_bus p \<and> pl_clock q = pl_clock p \<and> pl_signals_day q = pl_signals_day p \<and> pl_features q = pl_features p
    \<and> (case r of Inl e \<Rightarrow> rt_portfolio_id R \<noteq> st_portfolio_id (pl_store p)
       | Inr snap \<Rightarrow> snap_portfolio snap = st_portfolio (pl_store p) \<and> snap_risk snap = st_risk (pl_store p))"
  using assms
  by (cases "rt_portfolio_id R = st_portfolio_id (pl_store p)")
    (auto simp: take_snapshot_def with_store_def snapshot_eq Let_def same_view_def)

lemma keeps_take_snapshot: "keeps E R (take_snapshot E R)"
  by (rule keeps_frame) (use take_snapshot_view in blast)

lemma emit_frame:
  assumes "emit E R ch fam typ pl (p, c) = ((q, c'), r)"
  shows "pl_store q = pl_store p \<and> pl_exec q = pl_exec p \<and> pl_tick p \<le> pl_tick q \<and> pl_bus q = pl_bus p
    \<and> pl_clock q = pl_clock p \<and> pl_signals_day q = pl_signals_day p \<and> pl_features q = pl_features p \<and> r = Inr ()"
  using assms by (auto simp: emit_def build_envelope_def split: if_splits)

lemma keeps_emit: "keeps E R (emit E R ch fam typ pl)"
  by (rule keeps_frame) (use emit_frame in fastforce)


subsection \<open>The phases that change the store\<close>

lemma apply_each_total:
  assumes "\<forall>tr \<in> set trs. tr_portfolio_id tr = st_portfolio_id (pl_store p)"
  shows "\<exists>t. apply_each E trs (p, c) = ((p\<lparr>pl_store := t, pl_tick := pl_tick p + 2 * length trs\<rparr>, c), Inr ())
    \<and> same_view t (run_bodies trs (pl_store p))"
  using assms
proof (induction trs arbitrary: p)
  case (Cons tr trs)
  let ?b = "apply_body (tr_body tr) (tr_event_time tr) (pl_store p)"
  from Cons.prems obtain snap d where
    one: "apply_transition E tr (pl_store p, pl_tick p) = Inr (snap, ?b\<lparr>st_snapshots := d\<rparr>, pl_tick p + 2)"
    by (simp add: apply_transition_eq snapshot_eq Let_def)
  let ?p = "p\<lparr>pl_store := ?b\<lparr>st_snapshots := d\<rparr>, pl_tick := pl_tick p + 2\<rparr>"
  from Cons.prems obtain t where
    t: "apply_each E trs (?p, c) = ((?p\<lparr>pl_store := t, pl_tick := pl_tick ?p + 2 * length trs\<rparr>, c), Inr ())"
      "same_view t (run_bodies trs (?b\<lparr>st_snapshots := d\<rparr>))"
    using Cons.IH [of ?p] by auto
  have "same_view (run_bodies trs (?b\<lparr>st_snapshots := d\<rparr>)) (run_bodies trs ?b)"
    by (rule run_bodies_cong) simp
  with t(2) have "same_view t (run_bodies (tr # trs) (pl_store p))" by (auto intro: same_view_trans)
  moreover have "apply_each E (tr # trs) (p, c) =
      ((p\<lparr>pl_store := t, pl_tick := pl_tick p + 2 * length (tr # trs)\<rparr>, c), Inr ())"
    using t(1) by (simp add: with_store_def one)
  ultimately show ?case by blast
next
  case Nil
  show ?case by (intro exI [of _ "pl_store p"]) simp
qed

text \<open>Applying the transitions of a call of the engine.\<close>

lemma apply_settled:
  assumes "settles E (pl_store p) st n trs st' k" and "pl_exec q = st'" "pl_tick q = k" "pl_store q = pl_store p"
  shows "\<exists>t. seq (apply_each E trs) (\<lambda>_. note_exec_events evs) (q, c)
      = ((q\<lparr>pl_store := t, pl_tick := k + 2 * length trs\<rparr>, c\<lparr>cy_exec_events := cy_exec_events c @ evs\<rparr>), Inr ())
    \<and> same_view t (run_bodies trs (pl_store p)) \<and> coherent_book E t st' (k + 2 * length trs)"
proof -
  from assms obtain t where
    t: "apply_each E trs (q, c) = ((q\<lparr>pl_store := t, pl_tick := k + 2 * length trs\<rparr>, c), Inr ())"
       "same_view t (run_bodies trs (pl_store p))"
    using apply_each_total [of trs q E c] by (auto simp: settles_def)
  have "coherent_book E t st' (k + 2 * length trs)"
    using assms(1) coherent_view [OF t(2)] by (auto simp: settles_def intro: coherent_mono)
  with t show ?thesis by (auto simp: seq_run note_exec_events_def)
qed

lemma bar_evaluation_result:
  assumes "sound E R p" and "env_distinct E" and "rt_exec R = Some X" and "snap_portfolio snap = st_portfolio (pl_store p)"
  obtains res st' k t where
    "evaluate_bar E X (cycle_exec_args c) (cy_bar c) snap so inc (pl_exec p, pl_tick p) = (res, st', k)"
    "bar_evaluation E X snap so inc (p, c) =
       ((p\<lparr>pl_exec := st', pl_store := t, pl_tick := k + 2 * length (er_transitions res)\<rparr>,
         c\<lparr>cy_exec_events := cy_exec_events c @ er_events res\<rparr>), Inr ())"
    "same_view t (run_bodies (er_transitions res) (pl_store p))"
    "sound E R (p\<lparr>pl_exec := st', pl_store := t, pl_tick := k + 2 * length (er_transitions res)\<rparr>)"
    "\<forall>tr \<in> set (er_transitions res). trading tr" "pl_tick p \<le> k"
proof -
  obtain res st' k where ev:
    "evaluate_bar E X (cycle_exec_args c) (cy_bar c) snap so inc (pl_exec p, pl_tick p) = (res, st', k)"
    by (metis prod_cases3)
  from assms(1) have coh: "coherent_book E (pl_store p) (pl_exec p) (pl_tick p)"
    and pid: "st_portfolio_id (pl_store p) = rt_portfolio_id R" by (simp_all add: sound_def)
  note es = evaluate_bar_settles [OF ev assms(4) coh assms(2)]
  then have st: "settles E (pl_store p) (pl_exec p) (pl_tick p) (er_transitions res) st' k" by blast
  let ?q = "p\<lparr>pl_exec := st', pl_tick := k\<rparr>"
  from apply_settled [OF st, of ?q "er_events res" c] obtain t where t:
    "seq (apply_each E (er_transitions res)) (\<lambda>_. note_exec_events (er_events res)) (?q, c) =
      ((?q\<lparr>pl_store := t, pl_tick := k + 2 * length (er_transitions res)\<rparr>,
        c\<lparr>cy_exec_events := cy_exec_events c @ er_events res\<rparr>), Inr ())"
    "same_view t (run_bodies (er_transitions res) (pl_store p))"
    "coherent_book E t st' (k + 2 * length (er_transitions res))" by auto
  have trad: "\<forall>tr \<in> set (er_transitions res). trading tr" using st by (simp add: settles_def)
  have len: "length (book t) \<le> length (book (pl_store p)) + length (pending_entries (pl_exec p))"
  proof -
    have "length (book t) = length (book (run_bodies (er_transitions res) (pl_store p)))"
      using t(2) by (simp add: same_view_def)
    also have "\<dots> \<le> length (book (pl_store p)) + length (concat (map opens (er_transitions res)))"
      unfolding run_bodies_fold using trad by (intro store_book.length_steps) (auto intro: trading_keeps_book)
    finally show ?thesis using es by linarith
  qed
  have "limits (st_risk t) = limits (st_risk (pl_store p))"
    using t(2) run_trading [OF trad, of "pl_store p"] by (simp add: same_view_def)
  moreover have "st_portfolio_id t = rt_portfolio_id R" using t(2) pid by (simp add: same_view_def)
  ultimately have "sound E R (p\<lparr>pl_exec := st', pl_store := t, pl_tick := k + 2 * length (er_transitions res)\<rparr>)"
    using assms(1,3) t(3) es len by (auto simp: sound_def)
  moreover have "bar_evaluation E X snap so inc (p, c) =
       ((p\<lparr>pl_exec := st', pl_store := t, pl_tick := k + 2 * length (er_transitions res)\<rparr>,
         c\<lparr>cy_exec_events := cy_exec_events c @ er_events res\<rparr>), Inr ())"
    using t(1) ev by (simp add: bar_evaluation_def)
  ultimately show thesis using that [OF ev] t(2) trad st by (simp add: settles_def)
qed

lemma snapshot_then:
  assumes "\<And>p c p' c' r snap. sound E R p \<Longrightarrow> snap_portfolio snap = st_portfolio (pl_store p) \<Longrightarrow>
      snap_risk snap = st_risk (pl_store p) \<Longrightarrow> g snap (p, c) = ((p', c'), r) \<Longrightarrow> sound E R p'"
  shows "keeps E R (seq (take_snapshot E R) g)"
proof (rule keepsI)
  fix p c p' c' r assume s: "sound E R p" and r: "seq (take_snapshot E R) g (p, c) = ((p', c'), r)"
  obtain q c1 x where t: "take_snapshot E R (p, c) = ((q, c1), x)" by (metis prod.exhaust)
  note v = take_snapshot_view [OF t]
  from keepsD [OF keeps_take_snapshot s t] have q: "sound E R q" .
  show "sound E R p'"
  proof (cases x)
    case (Inl e)
    with r t q show ?thesis by (simp add: seq_def)
  next
    case (Inr snap)
    with r t have g: "g snap (q, c1) = ((p', c'), r)" by (simp add: seq_def)
    from v Inr have "snap_portfolio snap = st_portfolio (pl_store q)" "snap_risk snap = st_risk (pl_store q)"
      by (simp_all add: same_view_def)
    from assms [OF q this g] show ?thesis .
  qed
qed

lemma keeps_bar_evaluation:
  assumes "env_distinct E" "rt_exec R = Some X"
  shows "keeps E R (seq (take_snapshot E R) (\<lambda>snap. bar_evaluation E X snap so inc))"
proof (rule snapshot_then)
  fix p c p' c' r snap
  assume s: "sound E R p" "snap_portfolio snap = st_portfolio (pl_store p)"
    and r: "bar_evaluation E X snap so inc (p, c) = ((p', c'), r)"
  obtain q c1 where "bar_evaluation E X snap so inc (p, c) = ((q, c1), Inr ())" "sound E R q"
    by (rule bar_evaluation_result [OF s(1) assms s(2), of c so inc])
  with r show "sound E R p'" by simp
qed

lemma keeps_pre_decision:
  assumes "env_distinct E"
  shows "keeps E R (pre_decision_evaluate E R)"
  using keeps_bar_evaluation [OF assms] by (auto simp: pre_decision_evaluate_def split: option.split)

lemma keeps_features: "keeps E R (features_phase E R)"
proof (rule keeps_frame)
  fix p c p' c' r assume "features_phase E R (p, c) = ((p', c'), r)"
  moreover have tick: "k = Suc n" if
    "build_features E co cf h df sy tf pt pe (fs, n) = Inr (x, y, z, k)" for co cf h df sy tf pt pe fs n x y z k
    using that by (auto simp: build_features_def Let_def)
  ultimately show "same_view (pl_store p) (pl_store p') \<and> pl_exec p' = pl_exec p \<and> pl_tick p \<le> pl_tick p'"
    by (auto simp: features_phase_def Let_def seq_def raise_def return_def split: sum.splits prod.splits if_splits
        dest!: emit_frame tick)
qed

text \<open>Marking to market, and the risk updates the runtime makes, leave the book's identifiers
  and the limits alone.\<close>

definition quiet :: "transition_body \<Rightarrow> bool" where
  "quiet b \<longleftrightarrow> (case b of Mark_to_market q \<Rightarrow> True
     | Risk_updated us \<Rightarrow> list_all (\<lambda>u. case u of RU_limits l \<Rightarrow> False | _ \<Rightarrow> True) us | _ \<Rightarrow> False)"

lemma set_risk_fields_limits:
  "list_all (\<lambda>u. case u of RU_limits l \<Rightarrow> False | _ \<Rightarrow> True) us \<Longrightarrow>
   limits (fold set_risk_field us r) = limits r"
proof (induction us arbitrary: r)
  case (Cons u us)
  then show ?case by (cases u) auto
qed simp

lemma quiet_body:
  assumes "quiet b"
  shows "map position_id (book (apply_body b t s)) = map position_id (book s)
    \<and> pf_portfolio_id (st_portfolio (apply_body b t s)) = pf_portfolio_id (st_portfolio s)
    \<and> limits (st_risk (apply_body b t s)) = limits (st_risk s)"
proof (cases b)
  case (Risk_updated us)
  with assms show ?thesis
    by (simp add: quiet_def apply_risk_updated_def Let_def set_risk_fields_limits)
next
  case (Mark_to_market q)
  then show ?thesis by (simp add: comp_def) (simp add: apply_mark_to_market_def Let_def)
qed (use assms in \<open>simp_all add: quiet_def\<close>)

lemma coherent_ids:
  assumes "map position_id (book t) = map position_id (book s)"
    and "pf_portfolio_id (st_portfolio t) = pf_portfolio_id (st_portfolio s)" "st_portfolio_id t = st_portfolio_id s"
  shows "coherent_book E t st n = coherent_book E s st n"
proof -
  have "ids_before E n ps = (\<forall>i \<in> set (map position_id ps). \<exists>m < n. i = fresh_id E ''pos_'' m)" for ps
    by (auto simp: ids_before_def)
  with assms show ?thesis unfolding coherent_book_def by (simp only: set_map [symmetric])
qed

lemma apply_quiet:
  assumes "sound E R p" "quiet (tr_body tr)" "tr_portfolio_id tr = rt_portfolio_id R"
  shows "\<exists>t. apply_each E [tr] (p, c) = ((p\<lparr>pl_store := t, pl_tick := pl_tick p + 2\<rparr>, c), Inr ())
    \<and> same_view t (apply_body (tr_body tr) (tr_event_time tr) (pl_store p))
    \<and> sound E R (p\<lparr>pl_store := t, pl_tick := pl_tick p + 2\<rparr>)"
proof -
  let ?b = "apply_body (tr_body tr) (tr_event_time tr) (pl_store p)"
  from assms obtain t where
    t: "apply_each E [tr] (p, c) = ((p\<lparr>pl_store := t, pl_tick := pl_tick p + 2\<rparr>, c), Inr ())" "same_view t ?b"
    using apply_each_total [of "[tr]" p E c] by (auto simp: sound_def)
  note q = quiet_body [OF assms(2), of "tr_event_time tr" "pl_store p"]
  have len: "length (book t) = length (book (pl_store p))"
    using t(2) q by (metis length_map same_view_def)
  have "coherent_book E t (pl_exec p) (pl_tick p + 2) = coherent_book E (pl_store p) (pl_exec p) (pl_tick p + 2)"
    by (rule coherent_ids) (use t(2) q in \<open>simp_all add: same_view_def\<close>)
  with assms(1) have "coherent_book E t (pl_exec p) (pl_tick p + 2)"
    by (auto simp: sound_def intro: coherent_mono)
  with assms(1) t(2) q len have "sound E R (p\<lparr>pl_store := t, pl_tick := pl_tick p + 2\<rparr>)"
    by (simp add: sound_def same_view_def)
  with t show ?thesis by blast
qed

lemma sound_tick: "sound E R p \<Longrightarrow> pl_tick p \<le> n \<Longrightarrow> sound E R (p\<lparr>pl_tick := n\<rparr>)"
  by (rule sound_frame) simp_all

lemma sound_day: "sound E R p \<Longrightarrow> sound E R (p\<lparr>pl_signals_day := d\<rparr>)"
  by (simp add: sound_def)

lemma quiet_simps [simp]:
  "quiet (Mark_to_market q)" "quiet (Risk_updated (reset_updates x))" "quiet (Risk_updated [RU_signals_today k])"
  by (simp_all add: quiet_def reset_updates_def)

lemma keeps_mark: "keeps E R (mark_to_market_phase E R)"
proof (rule keepsI)
  fix p c p' c' r assume s: "sound E R p" and r: "mark_to_market_phase E R (p, c) = ((p', c'), r)"
  then have pf: "get_portfolio (rt_portfolio_id R) (pl_store p) = Inr (st_portfolio (pl_store p))"
    by (simp add: get_portfolio_def assert_portfolio_def sound_def)
  from sound_tick [OF s, of "Suc (pl_tick p)"] have s': "sound E R (p\<lparr>pl_tick := Suc (pl_tick p)\<rparr>)" by simp
  show "sound E R p'"
  proof (cases "book (pl_store p) = []")
    case True
    with r pf s show ?thesis by (simp add: mark_to_market_phase_def)
  next
    case False
    let ?tr = "\<lparr>transition_id = fresh_id E ''trans_'' (pl_tick p), tr_portfolio_id = rt_portfolio_id R,
      tr_body = Mark_to_market [cy_symbol c \<mapsto> bar_close (cy_bar c)],
      tr_event_time = cy_event_time c, tr_correlation_id = cy_id c\<rparr>"
    from r pf False have "apply_each E [?tr] (p\<lparr>pl_tick := Suc (pl_tick p)\<rparr>, c) = ((p', c'), r)"
      by (simp add: mark_to_market_phase_def del: apply_each.simps)
    with apply_quiet [OF s', of ?tr c] show ?thesis by (simp del: apply_each.simps) blast
  qed
qed

lemma keeps_reset: "keeps E R (maybe_reset_daily_risk E R)"
proof (rule keepsI)
  fix p c p' c' r assume s: "sound E R p" and r: "maybe_reset_daily_risk E R (p, c) = ((p', c'), r)"
  let ?today = "date_of (cy_event_time c)" and ?s = "pl_store p"
  from s have g: "get_portfolio (rt_portfolio_id R) ?s = Inr (st_portfolio ?s)" "get_risk (rt_portfolio_id R) ?s = Inr (st_risk ?s)"
    by (simp_all add: get_portfolio_def get_risk_def assert_portfolio_def sound_def)
  show "sound E R p'"
  proof (cases "pl_signals_day p = None \<or> pl_signals_day p = Some ?today
      \<or> (signals_today (st_risk ?s) = 0 \<and> daily_pnl (st_risk ?s) = 0 \<and> daily_drawdown_pct (st_risk ?s) = 0
          \<and> daily_start_equity (st_risk ?s) = equity (st_portfolio ?s))")
    case True
    then have "maybe_reset_daily_risk E R (p, c) = ((p\<lparr>pl_signals_day := Some ?today\<rparr>, c), Inr ())"
      by (auto simp: maybe_reset_daily_risk_def Let_def g split: option.split)
    with r s sound_day show ?thesis by auto
  next
    case False
    let ?p = "p\<lparr>pl_signals_day := Some ?today, pl_tick := Suc (pl_tick p)\<rparr>"
    let ?tr = "\<lparr>transition_id = fresh_id E ''trans_'' (pl_tick p), tr_portfolio_id = rt_portfolio_id R,
      tr_body = Risk_updated (reset_updates (equity (st_portfolio ?s))),
      tr_event_time = cy_event_time c, tr_correlation_id = cy_id c\<rparr>"
    from False obtain d where d: "pl_signals_day p = Some d" "?today \<noteq> d" by auto
    have neg: "\<not> (signals_today (st_risk ?s) = 0 \<and> daily_pnl (st_risk ?s) = 0 \<and> daily_drawdown_pct (st_risk ?s) = 0
          \<and> daily_start_equity (st_risk ?s) = equity (st_portfolio ?s))" using False by blast
    from r have "apply_each E [?tr] (?p, c) = ((p', c'), r)"
      by (simp add: maybe_reset_daily_risk_def Let_def d g neg del: apply_each.simps de_Morgan_conj)
    moreover have "sound E R ?p" using sound_tick [OF sound_day [OF s], where n = "Suc (pl_tick p)"] by simp
    ultimately show ?thesis using apply_quiet [of E R ?p ?tr c] by (simp del: apply_each.simps) blast
  qed
qed

lemma keeps_collect: "keeps E R (collect_signals E R fs ctx pvs)"
proof (induction pvs)
  case (Cons pv pvs)
  then show ?case
    by (auto intro!: keeps_seq keeps_emit split: sum.split)
next
  case Nil
  show ?case unfolding collect_signals.simps by (rule keeps_return)
qed

lemma keeps_decision_events: "keeps E R (decision_events E R snap d)"
  unfolding decision_events_def
  by (intro keeps_seq) (auto intro!: keeps_emit split: option.split)

lemma build_final_tick: "process E cfg sigs ctx snap m n = Inr (d, k) \<Longrightarrow> n \<le> k"
  by (auto simp: process_def Let_def split: if_splits aggregator_outcome.splits)

lemma keeps_count_signal:
  fixes R :: "('p, 'w) runtime"
  shows "keeps E R (\<lambda>(q, c). seq (apply_each E [\<lparr>transition_id = fresh_id E ''trans_'' (pl_tick q),
       tr_portfolio_id = rt_portfolio_id R, tr_body = Risk_updated [RU_signals_today k],
       tr_event_time = cy_event_time c, tr_correlation_id = cy_id c\<rparr>])
     (\<lambda>_. return d) (q\<lparr>pl_tick := Suc (pl_tick q)\<rparr>, c))"
proof (rule keepsI)
  fix p p' :: "'w platform" and c c' :: cycle and r
  let ?tr = "\<lparr>transition_id = fresh_id E ''trans_'' (pl_tick p), tr_portfolio_id = rt_portfolio_id R,
      tr_body = Risk_updated [RU_signals_today k], tr_event_time = cy_event_time c, tr_correlation_id = cy_id c\<rparr>"
  let ?q = "p\<lparr>pl_tick := Suc (pl_tick p)\<rparr>"
  assume s: "sound E R p" and r: "(\<lambda>(q, c). seq (apply_each E [\<lparr>transition_id = fresh_id E ''trans_'' (pl_tick q),
       tr_portfolio_id = rt_portfolio_id R, tr_body = Risk_updated [RU_signals_today k],
       tr_event_time = cy_event_time c, tr_correlation_id = cy_id c\<rparr>])
     (\<lambda>_. return d) (q\<lparr>pl_tick := Suc (pl_tick q)\<rparr>, c)) (p, c) = ((p', c'), r)"
  from s have "sound E R ?q" by (rule sound_tick) simp
  from apply_quiet [OF this, of ?tr c] obtain t where
    "apply_each E [?tr] (?q, c) = ((?q\<lparr>pl_store := t, pl_tick := pl_tick ?q + 2\<rparr>, c), Inr ())"
    "sound E R (?q\<lparr>pl_store := t, pl_tick := pl_tick ?q + 2\<rparr>)" by auto
  with r show "sound E R p'" by (auto simp: seq_def simp del: apply_each.simps)
qed

lemma keeps_decide: "keeps E R (decide E R sigs ctx snap)"
proof (rule keepsI)
  fix p c p' c' r assume s: "sound E R p" and r: "decide E R sigs ctx snap (p, c) = ((p', c'), r)"
  let ?m = "\<lparr>dm_correlation_id = cy_id c, dm_event_time = cy_event_time c,
             dm_decision_time = cy_processing_time c, dm_revision_id = cy_revision_id c,
             dm_experiment_id = cy_experiment_id c\<rparr>"
  show "sound E R p'"
  proof (cases "process E (rt_engine R) sigs ctx snap ?m (pl_tick p)")
    case (Inl e)
    with r s show ?thesis by (simp add: decide_def)
  next
    case (Inr dn)
    obtain d n where dn: "dn = (d, n)" by (cases dn)
    let ?f = "seq (decision_events E R snap d)
           (\<lambda>_. if is_approved d then
              (\<lambda>(q, c'). seq (apply_each E [\<lparr>transition_id = fresh_id E ''trans_'' (pl_tick q),
                     tr_portfolio_id = rt_portfolio_id R,
                     tr_body = Risk_updated [RU_signals_today (signals_today (snap_risk snap) + 1)],
                     tr_event_time = cy_event_time c', tr_correlation_id = cy_id c'\<rparr>])
                   (\<lambda>_. return d) (q\<lparr>pl_tick := Suc (pl_tick q)\<rparr>, c'))
            else return d)"
    have k: "keeps E R ?f"
    proof (rule keeps_seq [OF keeps_decision_events])
      fix x
      show "keeps E R (if is_approved d then
              (\<lambda>(q, c'). seq (apply_each E [\<lparr>transition_id = fresh_id E ''trans_'' (pl_tick q),
                     tr_portfolio_id = rt_portfolio_id R,
                     tr_body = Risk_updated [RU_signals_today (signals_today (snap_risk snap) + 1)],
                     tr_event_time = cy_event_time c', tr_correlation_id = cy_id c'\<rparr>])
                   (\<lambda>_. return d) (q\<lparr>pl_tick := Suc (pl_tick q)\<rparr>, c'))
            else return d)"
        using keeps_count_signal keeps_return by (cases "is_approved d") (simp_all only: if_True if_False)
    qed
    from Inr dn build_final_tick have "pl_tick p \<le> n" by blast
    with s have "sound E R (p\<lparr>pl_tick := n\<rparr>)" by (rule sound_tick)
    moreover from r have "?f (p\<lparr>pl_tick := n\<rparr>, c) = ((p', c'), r)"
      unfolding decide_def split_conv Inr dn sum.case prod.case .
    ultimately show ?thesis by (rule keepsD [OF k])
  qed
qed

lemma execute_decision_result:
  assumes "sound E R p" and "env_distinct E" and "rt_exec R = Some X"
    and "snap_portfolio snap = st_portfolio (pl_store p)" "snap_risk snap = st_risk (pl_store p)"
  obtains res st' k t where
    "execute E X (cycle_exec_args c) d snap (cy_bar c) (pl_exec p, pl_tick p) = Inr (res, st', k)"
    "execute_decision E X d snap (p, c) =
       ((p\<lparr>pl_exec := st', pl_store := t, pl_tick := k + 2 * length (er_transitions res)\<rparr>,
         c\<lparr>cy_exec_events := cy_exec_events c @ er_events res\<rparr>), Inr ())"
    "same_view t (run_bodies (er_transitions res) (pl_store p))"
    "sound E R (p\<lparr>pl_exec := st', pl_store := t, pl_tick := k + 2 * length (er_transitions res)\<rparr>)"
    "\<forall>tr \<in> set (er_transitions res). trading tr"
proof -
  obtain res st' k where ex:
    "execute E X (cycle_exec_args c) d snap (cy_bar c) (pl_exec p, pl_tick p) = Inr (res, st', k)"
    using execute_total by blast
  from assms(1) have coh: "coherent_book E (pl_store p) (pl_exec p) (pl_tick p)"
    and pid: "st_portfolio_id (pl_store p) = rt_portfolio_id R" by (simp_all add: sound_def)
  note es = execute_settles [OF ex assms(4) coh assms(2)]
  then have st: "settles E (pl_store p) (pl_exec p) (pl_tick p) (er_transitions res) st' k" by blast
  let ?q = "p\<lparr>pl_exec := st', pl_tick := k\<rparr>"
  from apply_settled [OF st, of ?q "er_events res" c] obtain t where t:
    "seq (apply_each E (er_transitions res)) (\<lambda>_. note_exec_events (er_events res)) (?q, c) =
      ((?q\<lparr>pl_store := t, pl_tick := k + 2 * length (er_transitions res)\<rparr>,
        c\<lparr>cy_exec_events := cy_exec_events c @ er_events res\<rparr>), Inr ())"
    "same_view t (run_bodies (er_transitions res) (pl_store p))"
    "coherent_book E t st' (k + 2 * length (er_transitions res))" by auto
  have trad: "\<forall>tr \<in> set (er_transitions res). trading tr" using st by (simp add: settles_def)
  have len: "length (book t) \<le> length (book (pl_store p)) + length (concat (map opens (er_transitions res)))"
  proof -
    have "length (book t) = length (book (run_bodies (er_transitions res) (pl_store p)))"
      using t(2) by (simp add: same_view_def)
    also have "\<dots> \<le> length (book (pl_store p)) + length (concat (map opens (er_transitions res)))"
      unfolding run_bodies_fold using trad by (intro store_book.length_steps) (auto intro: trading_keeps_book)
    finally show ?thesis .
  qed
  have lim: "limits (st_risk t) = limits (st_risk (pl_store p))"
    using t(2) run_trading [OF trad, of "pl_store p"] by (simp add: same_view_def)
  have "int (length (book t)) \<le> lim_max_open_positions (limits (st_risk t))"
    if "int (length (book (pl_store p))) \<le> lim_max_open_positions (limits (st_risk (pl_store p)))"
  proof (cases "er_transitions res = []")
    case True
    with len that lim show ?thesis by simp
  next
    case False
    with es assms(5) have "int (length (book (pl_store p))) < lim_max_open_positions (limits (st_risk (pl_store p)))"
      "length (concat (map opens (er_transitions res))) \<le> 1" by auto
    moreover from this(2) len have "int (length (book t)) \<le> int (length (book (pl_store p))) + 1" by linarith
    ultimately show ?thesis using lim by simp
  qed
  moreover have "st_portfolio_id t = rt_portfolio_id R" using t(2) pid by (simp add: same_view_def)
  ultimately have "sound E R (p\<lparr>pl_exec := st', pl_store := t, pl_tick := k + 2 * length (er_transitions res)\<rparr>)"
    using assms(1,3) t(3) es by (auto simp: sound_def)
  moreover have "execute_decision E X d snap (p, c) =
       ((p\<lparr>pl_exec := st', pl_store := t, pl_tick := k + 2 * length (er_transitions res)\<rparr>,
         c\<lparr>cy_exec_events := cy_exec_events c @ er_events res\<rparr>), Inr ())"
    using t(1) ex by (simp add: execute_decision_def)
  ultimately show thesis using that [OF ex] t(2) trad by blast
qed

lemma keeps_execute:
  assumes "env_distinct E" "rt_exec R = Some X"
  shows "keeps E R (seq (take_snapshot E R) (execute_decision E X d))"
proof (rule snapshot_then)
  fix p c p' c' r snap
  assume s: "sound E R p" "snap_portfolio snap = st_portfolio (pl_store p)" "snap_risk snap = st_risk (pl_store p)"
    and r: "execute_decision E X d snap (p, c) = ((p', c'), r)"
  obtain q c1 where "execute_decision E X d snap (p, c) = ((q, c1), Inr ())" "sound E R q"
    by (rule execute_decision_result [OF s(1) assms s(2,3), of c d])
  with r show "sound E R p'" by simp
qed

lemma keeps_signal_exit:
  assumes "env_distinct E" "rt_exec R = Some X"
  shows "keeps E R (signal_exit E R X d)"
proof (rule keepsI)
  fix p c p' c' r assume s: "sound E R p" and r: "signal_exit E R X d (p, c) = ((p', c'), r)"
  show "sound E R p'"
  proof (cases "\<exists>pf fs. get_portfolio (rt_portfolio_id R) (pl_store p) = Inr pf \<and> dec_final_signal d = Some fs
      \<and> open_positions pf \<noteq> []")
    case True
    then obtain pf fs where "get_portfolio (rt_portfolio_id R) (pl_store p) = Inr pf" "dec_final_signal d = Some fs"
      "open_positions pf \<noteq> []" by blast
    with r have "seq (take_snapshot E R) (\<lambda>snap. bar_evaluation E X snap (Some (fin_side fs)) False) (p, c) = ((p', c'), r)"
      by (simp add: signal_exit_def)
    with s show ?thesis by (rule keepsD [OF keeps_bar_evaluation [OF assms]])
  next
    case False
    with r s show ?thesis by (auto simp: signal_exit_def split: sum.splits option.splits if_splits)
  qed
qed

lemma keeps_same_bar:
  assumes "env_distinct E"
  shows "keeps E R (same_bar_exit_and_execute E R d)"
  by (auto simp: same_bar_exit_and_execute_def split: option.split if_splits
      intro!: keeps_seq keeps_signal_exit keeps_execute assms)

lemma keeps_publish: "keeps E R (publish_events R)"
  by (rule keeps_frame) (auto simp: publish_events_def Let_def split: prod.splits)

lemma keeps_candle: "keeps E R (emit_candle_received E R)"
  by (rule keepsI) (auto simp: emit_candle_received_def dest: keepsD [OF keeps_emit])

lemma keeps_result: "keeps E R (\<lambda>(p, c). ((p, c), Inr (f p c)))"
  by (auto simp: keeps_def)

lemma keeps_prod: "(\<And>a b. keeps E R (f a b)) \<Longrightarrow> keeps E R (case x of (a, b) \<Rightarrow> f a b)"
  by (cases x) simp

lemma keeps_cycle_body:
  assumes "env_distinct E"
  shows "keeps E R (cycle_body E R)"
  unfolding cycle_body_def
  by (intro keeps_seq keeps_pre_decision [OF assms] keeps_candle keeps_features keeps_reset keeps_mark
      keeps_take_snapshot keeps_collect keeps_decide keeps_same_bar [OF assms] keeps_publish keeps_result
      keeps_prod)

end
