(* ===== verification/RuntimeSafety.thy ===== *)
theory RuntimeSafety
  imports Runtime
begin

text \<open>
  The runtime's safety properties: what holds in every platform a sequence of cycles can
  reach, the clock, the daily reset, and the signal count.
\<close>


subsection \<open>Reachable platforms\<close>

inductive reachable :: "env \<Rightarrow> ('p, 'w) runtime \<Rightarrow> 'w platform \<Rightarrow> 'w platform \<Rightarrow> bool" for E R p where
  start: "reachable E R p p"
| cycle: "reachable E R p q \<Longrightarrow> run_cycle E R a q = (q', r) \<Longrightarrow> reachable E R p q'"

lemma now_event_time_tick: "n \<le> snd (now_event_time E c n)"
  by (auto simp: now_event_time_def split: clock.splits option.splits)

lemma now_processing_time_tick: "n \<le> snd (now_processing_time E c n)"
  by (auto simp: now_processing_time_def split: clock.splits)

lemma prepare_bar_E:
  assumes "prepare_bar E R a p = (q, r)" and "market_data (rt_latest R)"
  obtains (failed) n e where "r = Inl e" "q = p\<lparr>pl_tick := n\<rparr>" "pl_tick p \<le> n"
  | (ready) c n m where "r = Inr c" "q = p\<lparr>pl_clock := set_event_time (cy_event_time c) (pl_clock p), pl_tick := n\<rparr>"
      "pl_tick p \<le> n" "cy_events c = []" "cy_causation c = None" "cy_exec_events c = []"
      "cy_symbol c = ca_symbol a" "cy_df c \<noteq> []" "cy_event_time c = fst (last (cy_df c))"
      "cy_bar c = snd (last (cy_df c))"
      "cy_event_time c \<le> fst (now_event_time E (pl_clock p) m)"
proof -
  obtain cid n1 where c1: "(case ca_correlation_id a of
            Some i \<Rightarrow> if i \<noteq> [] then (i, pl_tick p) else (fresh_id E ''cycle_'' (pl_tick p), Suc (pl_tick p))
          | None \<Rightarrow> (fresh_id E ''cycle_'' (pl_tick p), Suc (pl_tick p))) = (cid, n1)" by fastforce
  then have n1: "pl_tick p \<le> n1" by (auto split: option.splits if_splits)
  obtain upto n2 where c2: "now_event_time E (pl_clock p) n1 = (upto, n2)" by fastforce
  with now_event_time_tick [of n1 E "pl_clock p"] have n2: "n1 \<le> n2" by simp
  show thesis
  proof (cases "rt_latest R (ca_symbol a) (ca_timeframe a) upto n2")
    case (Inl e)
    with assms(1) have "r = Inl e" "q = p\<lparr>pl_tick := n2\<rparr>" by (simp_all add: prepare_bar_def c1 c2)
    with n1 n2 failed show thesis by simp
  next
    case (Inr dk)
    obtain df n3 where dk: "dk = (df, n3)" by (cases dk)
    from market_data.latest_nonempty [OF assms(2) Inr [unfolded dk]] have ne: "df \<noteq> []" .
    from market_data.latest_tick [OF assms(2) Inr [unfolded dk]] have n3: "n2 \<le> n3" .
    from market_data.last_bar_upto [OF assms(2) Inr [unfolded dk]] have up: "fst (last df) \<le> upto" .
    obtain proc n4 where c4: "now_processing_time E (pl_clock p) n3 = (proc, n4)" by fastforce
    with now_processing_time_tick [of n3 E "pl_clock p"] have n4: "n3 \<le> n4" by simp
    from assms(1) ne have "q = p\<lparr>pl_clock := set_event_time (fst (last df)) (pl_clock p), pl_tick := n4\<rparr>"
      "r = Inr \<lparr>cy_id = cid, cy_symbol = ca_symbol a, cy_timeframe = ca_timeframe a,
                      cy_revision_id = ca_revision_id a, cy_experiment_id = ca_experiment_id a,
                      cy_bar = snd (last df), cy_event_time = fst (last df), cy_processing_time = proc, cy_df = df,
                      cy_events = [], cy_causation = None, cy_exec_events = []\<rparr>"
      by (auto simp: prepare_bar_def Let_def c1 c2 Inr dk c4)
    with n1 n2 n3 n4 up c2 ne ready [of _ n4 n1] show thesis by simp
  qed
qed

lemma run_cycle_sound:
  assumes "sound E R p" "env_distinct E" "market_data (rt_latest R)" "run_cycle E R a p = (q, r)"
  shows "sound E R q"
proof -
  obtain p1 r1 where pb: "prepare_bar E R a p = (p1, r1)" by fastforce
  from pb assms(3) have p1: "sound E R p1"
    by (cases rule: prepare_bar_E) (use assms(1) in \<open>auto intro: sound_frame\<close>)
  show ?thesis
  proof (cases r1)
    case (Inl e)
    with pb assms(4) p1 show ?thesis by (simp add: run_cycle_def)
  next
    case (Inr c)
    obtain p2 c2 r2 where b: "cycle_body E R (p1, c) = ((p2, c2), r2)" by (metis prod.exhaust)
    with keepsD [OF keeps_cycle_body [OF assms(2)] p1 b] pb Inr assms(4) show ?thesis
      by (simp add: run_cycle_def)
  qed
qed

lemma reachable_sound:
  assumes "reachable E R p q" "sound E R p" "env_distinct E" "market_data (rt_latest R)"
  shows "sound E R q"
  using assms by (induction rule: reachable.induct) (auto intro: run_cycle_sound)

lemma new_platform_sound:
  assumes "init_store E (rt_portfolio_id R) md initial_cash lims m = (s, n)"
    and "0 \<le> lim_max_open_positions (case lims of None \<Rightarrow> default_limits | Some l \<Rightarrow> l)"
  shows "sound E R (new_platform s c w n)"
  using assms
  by (auto simp: sound_def new_platform_def coherent_book_def init_store_def Let_def ids_before_def tracks_def
      init_exec_state_def dict_keys_def)

text \<open>C1: whatever bars, decisions, handler failures and provider errors a sequence of cycles
  meets, the execution engine and the state store never disagree about the open positions:
  the engine has a bar counter and an order exactly for the positions in the store, and no
  two of them share an identifier. With a fill model that fills at once, no entry is ever
  left pending and the number of open positions never exceeds the configured limit.\<close>

theorem cycles_keep_book_coherent:
  assumes "init_store E (rt_portfolio_id R) md initial_cash lims m = (s, n)"
    and "0 \<le> lim_max_open_positions (case lims of None \<Rightarrow> default_limits | Some l \<Rightarrow> l)"
    and "env_distinct E" and "market_data (rt_latest R)"
    and "reachable E R (new_platform s c w n) q"
  shows "distinct (map position_id (book (pl_store q)))
    \<and> set (dict_keys (position_bars (pl_exec q))) = position_id ` set (book (pl_store q))
    \<and> set (dict_keys (position_orders (pl_exec q))) = position_id ` set (book (pl_store q))
    \<and> (\<forall>X. rt_exec R = Some X \<and> fm_fill_at (xs_fill_model X) \<noteq> At_next_open \<longrightarrow>
         pending_entries (pl_exec q) = []
         \<and> int (length (book (pl_store q))) \<le> lim_max_open_positions (limits (st_risk (pl_store q))))"
proof -
  have "sound E R q"
    by (rule reachable_sound [OF assms(5) new_platform_sound [OF assms(1,2)] assms(3,4)])
  then show ?thesis by (simp add: sound_def coherent_book_def tracks_def)
qed


subsection \<open>What no phase changes\<close>

definition cycle_core :: "cycle \<Rightarrow> cycle" where
  "cycle_core c = c\<lparr>cy_events := [], cy_causation := None, cy_exec_events := []\<rparr>"

definition steady :: "('w running, 'a) phase \<Rightarrow> bool" where
  "steady f \<longleftrightarrow> (\<forall>p c p' c' r. f (p, c) = ((p', c'), r) \<longrightarrow>
     pl_clock p' = pl_clock p \<and> cycle_core c' = cycle_core c)"

lemma steadyI:
  "(\<And>p c p' c' r. f (p, c) = ((p', c'), r) \<Longrightarrow> pl_clock p' = pl_clock p \<and> cycle_core c' = cycle_core c) \<Longrightarrow> steady f"
  by (simp add: steady_def)

lemma steadyD: "steady f \<Longrightarrow> f (p, c) = ((p', c'), r) \<Longrightarrow> pl_clock p' = pl_clock p \<and> cycle_core c' = cycle_core c"
  unfolding steady_def by blast

lemma steady_return: "steady (return x)" "steady (raise e)"
  by (simp_all add: steady_def)

lemma steady_result: "steady (\<lambda>(p, c). ((p, c), Inr (f p c)))"
  by (auto simp: steady_def)

lemma steady_prod: "(\<And>a b. steady (f a b)) \<Longrightarrow> steady (case x of (a, b) \<Rightarrow> f a b)"
  by (cases x) simp

lemma steady_seq:
  assumes "steady f" "\<And>x. steady (g x)"
  shows "steady (seq f g)"
proof (rule steadyI)
  fix p c p' c' r assume r: "seq f g (p, c) = ((p', c'), r)"
  obtain q d x where f: "f (p, c) = ((q, d), x)" by (metis prod.exhaust)
  note 1 = steadyD [OF assms(1) f]
  show "pl_clock p' = pl_clock p \<and> cycle_core c' = cycle_core c"
  proof (cases x)
    case (Inl e)
    with r f 1 show ?thesis by (simp add: seq_def)
  next
    case (Inr y)
    with r f have "g y (q, d) = ((p', c'), r)" by (simp add: seq_def)
    from steadyD [OF assms(2) this] 1 show ?thesis by simp
  qed
qed

lemma steady_emit: "steady (emit E R ch fam typ pl)"
  by (rule steadyI) (auto simp: emit_def build_envelope_def cycle_core_def split: if_splits)

lemma steady_with_store: "steady (with_store f)"
  by (rule steadyI) (auto simp: with_store_def split: sum.splits prod.splits)

lemma steady_snapshot: "steady (take_snapshot E R)"
  by (rule steadyI) (auto simp: take_snapshot_def dest: steadyD [OF steady_with_store])

lemma steady_apply_each: "steady (apply_each E trs)"
proof (induction trs)
  case (Cons tr trs)
  have e: "apply_each E (tr # trs) = seq (with_store (apply_transition E tr)) (\<lambda>_. apply_each E trs)"
    by (intro ext) (simp add: seq_def)
  show ?case unfolding e by (rule steady_seq [OF steady_with_store Cons.IH])
next
  case Nil
  show ?case by (simp add: steady_def)
qed

lemma steady_note: "steady (note_exec_events evs)"
  by (rule steadyI) (auto simp: note_exec_events_def cycle_core_def)

lemmas steady_apply_note = steady_seq [OF steady_apply_each steady_note]

lemma steady_bar_evaluation: "steady (bar_evaluation E X snap so inc)"
  by (rule steadyI) (auto simp: bar_evaluation_def split: prod.splits dest!: steadyD [OF steady_apply_note])

lemma steady_execute_decision: "steady (execute_decision E X d snap)"
  by (rule steadyI) (auto simp: execute_decision_def split: prod.splits sum.splits dest!: steadyD [OF steady_apply_note])

lemma steady_pre: "steady (pre_decision_evaluate E R)"
  by (auto simp: pre_decision_evaluate_def split: option.split
      intro!: steady_seq steady_snapshot steady_bar_evaluation steady_return)

lemma steady_candle: "steady (emit_candle_received E R)"
  by (rule steadyI) (auto simp: emit_candle_received_def dest: steadyD [OF steady_emit])

lemma steady_features: "steady (features_phase E R)"
proof (rule steadyI)
  fix p c p' c' r assume r: "features_phase E R (p, c) = ((p', c'), r)"
  have k: "steady (seq chk (\<lambda>_. seq (emit E R True Fam_market FeatureSetBuilt x)
      (\<lambda>_. seq (emit E R True Fam_market MarketContextDerived y) (\<lambda>_. return z))))"
    if "steady chk" for chk x y z
    by (intro steady_seq that steady_emit steady_return)
  from r show "pl_clock p' = pl_clock p \<and> cycle_core c' = cycle_core c"
    by (auto simp: features_phase_def Let_def split: sum.splits prod.splits if_splits
        dest!: steadyD [OF k, rotated] intro: steady_return)
qed

lemma steady_mark: "steady (mark_to_market_phase E R)"
  by (rule steadyI) (auto simp: mark_to_market_phase_def split: sum.splits if_splits
      dest: steadyD [OF steady_apply_each] simp del: apply_each.simps)

lemma steady_reset: "steady (maybe_reset_daily_risk E R)"
  by (rule steadyI) (auto simp: maybe_reset_daily_risk_def Let_def split: option.splits sum.splits if_splits
      dest!: steadyD [OF steady_apply_each] simp del: apply_each.simps)

lemma steady_collect: "steady (collect_signals E R fs ctx pvs)"
proof (induction pvs)
  case (Cons pv pvs)
  then show ?case
    by (auto intro!: steady_seq steady_emit steady_return split: sum.split)
next
  case Nil
  show ?case unfolding collect_signals.simps by (rule steady_return)
qed

lemma steady_decision_events: "steady (decision_events E R snap d)"
  unfolding decision_events_def
  by (intro steady_seq) (auto intro!: steady_emit steady_return split: option.split)

lemma steady_signal_exit: "steady (signal_exit E R X d)"
  by (rule steadyI) (auto simp: signal_exit_def split: sum.splits option.splits if_splits
      dest!: steadyD [OF steady_seq [OF steady_snapshot steady_bar_evaluation]])

lemma steady_same_bar: "steady (same_bar_exit_and_execute E R d)"
  by (auto simp: same_bar_exit_and_execute_def split: option.split if_splits
      intro!: steady_seq steady_signal_exit steady_execute_decision steady_snapshot steady_return)

lemma steady_publish: "steady (publish_events R)"
  by (rule steadyI) (auto simp: publish_events_def cycle_core_def Let_def split: prod.splits)

lemmas steady_phases = steady_pre steady_candle steady_features steady_reset steady_mark steady_snapshot
  steady_collect steady_same_bar steady_publish

lemma process_event_time:
  "process E cfg sigs ctx snap m n = Inr (d, k) \<Longrightarrow> dec_event_time d = dm_event_time m"
  by (auto simp: process_def Let_def split: if_splits aggregator_outcome.splits)

lemma decide_steady:
  assumes "decide E R sigs ctx snap (p, c) = ((p', c'), r)"
  shows "pl_clock p' = pl_clock p \<and> cycle_core c' = cycle_core c"
proof -
  let ?m = "\<lparr>dm_correlation_id = cy_id c, dm_event_time = cy_event_time c,
             dm_decision_time = cy_processing_time c, dm_revision_id = cy_revision_id c,
             dm_experiment_id = cy_experiment_id c\<rparr>"
  show ?thesis
  proof (cases "process E (rt_engine R) sigs ctx snap ?m (pl_tick p)")
    case (Inl e)
    with assms show ?thesis by (simp add: decide_def)
  next
    case (Inr dn)
    obtain d n where dn: "dn = (d, n)" by (cases dn)
    let ?g = "\<lambda>_. if is_approved d then
              (\<lambda>(q, c'). seq (apply_each E [\<lparr>transition_id = fresh_id E ''trans_'' (pl_tick q),
                     tr_portfolio_id = rt_portfolio_id R,
                     tr_body = Risk_updated [RU_signals_today (signals_today (snap_risk snap) + 1)],
                     tr_event_time = cy_event_time c', tr_correlation_id = cy_id c'\<rparr>])
                   (\<lambda>_. return d) (q\<lparr>pl_tick := Suc (pl_tick q)\<rparr>, c'))
            else return d"
    have "steady (?g x)" for x
    proof (cases "is_approved d")
      case True
      have "steady (\<lambda>(q, c'). seq (apply_each E [\<lparr>transition_id = fresh_id E ''trans_'' (pl_tick q),
                     tr_portfolio_id = rt_portfolio_id R,
                     tr_body = Risk_updated [RU_signals_today (signals_today (snap_risk snap) + 1)],
                     tr_event_time = cy_event_time c', tr_correlation_id = cy_id c'\<rparr>])
                   (\<lambda>_. return d) (q\<lparr>pl_tick := Suc (pl_tick q)\<rparr>, c'))"
        by (rule steadyI) (auto dest!: steadyD [OF steady_seq [OF steady_apply_each steady_return(1)]]
            simp del: apply_each.simps phase_simps)
      with True show ?thesis by (simp only: if_True)
    qed (simp add: steady_return)
    then have "steady (seq (decision_events E R snap d) ?g)"
      by (rule steady_seq [OF steady_decision_events])
    moreover from assms have "seq (decision_events E R snap d) ?g (p\<lparr>pl_tick := n\<rparr>, c) = ((p', c'), r)"
      unfolding decide_def split_conv Inr dn sum.case prod.case .
    ultimately show ?thesis using steadyD by fastforce
  qed
qed

lemma decide_decision:
  assumes "decide E R sigs ctx snap (p, c) = (s', Inr d)"
  shows "\<exists>n. process E (rt_engine R) sigs ctx snap
      \<lparr>dm_correlation_id = cy_id c, dm_event_time = cy_event_time c, dm_decision_time = cy_processing_time c,
       dm_revision_id = cy_revision_id c, dm_experiment_id = cy_experiment_id c\<rparr> (pl_tick p) = Inr (d, n)"
  using assms
  by (auto simp: decide_def seq_Inr split: sum.splits prod.splits if_splits simp del: apply_each.simps)

lemma steady_decide: "steady (decide E R sigs ctx snap)"
  by (rule steadyI) (rule decide_steady)

text \<open>A cycle that returns went through every phase.\<close>

lemma cycle_body_E:
  assumes "cycle_body E R s0 = (s10, Inr res)"
  obtains s1 s2 s3 s4 s5 s6 s7 s8 s9 fs ctx snap sigs d where
    "pre_decision_evaluate E R s0 = (s1, Inr ())" "emit_candle_received E R s1 = (s2, Inr ())"
    "features_phase E R s2 = (s3, Inr (fs, ctx))" "maybe_reset_daily_risk E R s3 = (s4, Inr ())"
    "mark_to_market_phase E R s4 = (s5, Inr ())" "take_snapshot E R s5 = (s6, Inr snap)"
    "collect_signals E R fs ctx (rt_providers R) s6 = (s7, Inr sigs)" "decide E R sigs ctx snap s7 = (s8, Inr d)"
    "same_bar_exit_and_execute E R d s8 = (s9, Inr ())" "publish_events R s9 = (s10, Inr ())"
    "res = \<lparr>cr_correlation_id = cy_id (snd s10), cr_feature_set = fs, cr_context = ctx,
          cr_snapshot = snap, cr_signals = sigs, cr_decision = d, cr_events = cy_events (snd s10),
          cr_execution_events = cy_exec_events (snd s10)\<rparr>"
  using assms unfolding cycle_body_def seq_Inr
  by (auto simp: seq_Inr split: prod.splits)

lemma steady_cycle_body: "steady (cycle_body E R)"
  unfolding cycle_body_def
  by (intro steady_seq steady_phases steady_decide steady_result steady_prod)

lemma core_eq:
  "cycle_core a = cycle_core b \<Longrightarrow> cy_id a = cy_id b \<and> cy_event_time a = cy_event_time b \<and> cy_symbol a = cy_symbol b
     \<and> cy_bar a = cy_bar b \<and> cy_processing_time a = cy_processing_time b"
  by (drule arg_cong [where f = "\<lambda>c. (cy_id c, cy_event_time c, cy_symbol c, cy_bar c, cy_processing_time c)"])
    (simp add: cycle_core_def)

lemma steady_state:
  "steady f \<Longrightarrow> f s = (s', r) \<Longrightarrow> pl_clock (fst s') = pl_clock (fst s) \<and> cycle_core (snd s') = cycle_core (snd s)"
  by (metis prod.collapse steadyD)

lemma cycle_decision_time:
  assumes "cycle_body E R (p, c) = (s', Inr res)"
  shows "dec_event_time (cr_decision res) = cy_event_time c \<and> cr_correlation_id res = cy_id c"
  using assms
proof (cases rule: cycle_body_E)
  case (1 s1 s2 s3 s4 s5 s6 s7 s8 s9 fs ctx snap sigs d)
  note st = 1(1) [THEN steady_state [OF steady_pre]] 1(2) [THEN steady_state [OF steady_candle]]
    1(3) [THEN steady_state [OF steady_features]] 1(4) [THEN steady_state [OF steady_reset]]
    1(5) [THEN steady_state [OF steady_mark]] 1(6) [THEN steady_state [OF steady_snapshot]]
    1(7) [THEN steady_state [OF steady_collect]]
  note st2 = 1(8) [THEN steady_state [OF steady_decide]] 1(9) [THEN steady_state [OF steady_same_bar]]
    1(10) [THEN steady_state [OF steady_publish]]
  have "cycle_core (snd s7) = cycle_core c" using st by simp
  then have c7: "cy_event_time (snd s7) = cy_event_time c" "cy_id (snd s7) = cy_id c" using core_eq by blast+
  have "cycle_core (snd s') = cycle_core (snd s7)" using st2 by simp
  then have "cy_id (snd s') = cy_id (snd s7)" using core_eq by blast
  moreover obtain p7 c7' where s7: "s7 = (p7, c7')" by (cases s7)
  from decide_decision [OF 1(8) [unfolded s7]] c7 s7 have "dec_event_time d = cy_event_time c"
    using process_event_time by fastforce
  ultimately show ?thesis using 1(11) c7 by simp
qed


subsection \<open>The clock of a live runtime\<close>

lemma run_cycle_Inr:
  assumes "run_cycle E R a p = (q, Inr res)" and "market_data (rt_latest R)"
  obtains c n m p1 c2 where
    "p1 = p\<lparr>pl_clock := set_event_time (cy_event_time c) (pl_clock p), pl_tick := n\<rparr>" "pl_tick p \<le> n"
    "cy_event_time c \<le> fst (now_event_time E (pl_clock p) m)" "cy_events c = []" "cy_causation c = None"
    "cy_exec_events c = []" "cycle_body E R (p1, c) = ((q, c2), Inr res)"
    "cy_symbol c = ca_symbol a" "cy_event_time c = fst (last (cy_df c))" "cy_bar c = snd (last (cy_df c))"
proof -
  obtain p1 r1 where pb: "prepare_bar E R a p = (p1, r1)" by fastforce
  with assms(1) obtain c where c: "r1 = Inr c" by (cases r1) (auto simp: run_cycle_def)
  with assms(1) pb obtain c2 where b: "cycle_body E R (p1, c) = ((q, c2), Inr res)"
    by (auto simp: run_cycle_def split: prod.splits)
  from pb assms(2) show thesis
    by (cases rule: prepare_bar_E) (use b c that in auto)
qed

lemma cycle_clock:
  assumes "run_cycle E R a p = (q, r)" and "market_data (rt_latest R)" and "pl_clock p = Wall_clock (Some t)"
  shows "\<exists>u \<le> t. pl_clock q = Wall_clock (Some u)"
proof -
  obtain p1 r1 where pb: "prepare_bar E R a p = (p1, r1)" by fastforce
  from pb assms(2) have p1: "\<exists>u \<le> t. pl_clock p1 = Wall_clock (Some u)"
    by (cases rule: prepare_bar_E) (auto simp: assms(3) set_event_time_def now_event_time_def)
  show ?thesis
  proof (cases r1)
    case (Inl e)
    with pb assms(1) p1 show ?thesis by (simp add: run_cycle_def)
  next
    case (Inr c)
    obtain p2 c2 r2 where b: "cycle_body E R (p1, c) = ((p2, c2), r2)" by (metis prod.exhaust)
    with steadyD [OF steady_cycle_body b] pb Inr assms(1) p1 show ?thesis
      by (simp add: run_cycle_def)
  qed
qed

text \<open>A live runtime never gets past its first bar. The wall clock answers with the event
  time it was last given, every cycle gives it the time of the bar it has just handled, and
  the next bars are asked for only up to the clock's time: once a cycle on a wall clock has
  succeeded, no later cycle, on any symbol or timeframe, handles a newer bar.\<close>

theorem wall_clock_never_advances:
  assumes "market_data (rt_latest R)" and "pl_clock p = Wall_clock t0"
    and "run_cycle E R a p = (q, Inr res)"
    and "reachable E R q q1" and "run_cycle E R b q1 = (q2, Inr res')"
  shows "dec_event_time (cr_decision res') \<le> dec_event_time (cr_decision res)"
proof -
  let ?t = "dec_event_time (cr_decision res)"
  from run_cycle_Inr [OF assms(3,1)] obtain c n p1 c2 where
    c: "p1 = p\<lparr>pl_clock := set_event_time (cy_event_time c) (pl_clock p), pl_tick := n\<rparr>"
      "cycle_body E R (p1, c) = ((q, c2), Inr res)" by metis
  from cycle_decision_time [OF c(2)] steadyD [OF steady_cycle_body c(2)] c(1) assms(2)
  have q: "pl_clock q = Wall_clock (Some ?t)" by (simp add: set_event_time_def)
  from assms(4) have "\<exists>u \<le> ?t. pl_clock q1 = Wall_clock (Some u)"
  proof (induction rule: reachable.induct)
    case start
    with q show ?case by simp
  next
    case (cycle x b' y r)
    then show ?case using cycle_clock [OF cycle.hyps(2) assms(1)] by (metis order_trans)
  qed
  then obtain u where u: "u \<le> ?t" "pl_clock q1 = Wall_clock (Some u)" by blast
  from run_cycle_Inr [OF assms(5,1)] obtain c' m p1' c2' where
    "cy_event_time c' \<le> fst (now_event_time E (pl_clock q1) m)" "cycle_body E R (p1', c') = ((q2, c2'), Inr res')"
    by metis
  with cycle_decision_time u show ?thesis by (fastforce simp: now_event_time_def)
qed


subsection \<open>Cycles return\<close>

definition completes :: "env \<Rightarrow> ('p, 'w) runtime \<Rightarrow> ('a \<Rightarrow> bool) \<Rightarrow> ('w running, 'a) phase \<Rightarrow> bool" where
  "completes E R Q f \<longleftrightarrow> (\<forall>p c. sound E R p \<and> cy_df c \<noteq> [] \<longrightarrow>
     (\<exists>p' c' x. f (p, c) = ((p', c'), Inr x) \<and> Q x))"

lemma completesI:
  "(\<And>p c. sound E R p \<Longrightarrow> cy_df c \<noteq> [] \<Longrightarrow> \<exists>p' c' x. f (p, c) = ((p', c'), Inr x) \<and> Q x) \<Longrightarrow> completes E R Q f"
  by (simp add: completes_def)

lemma completesD:
  "completes E R Q f \<Longrightarrow> sound E R p \<Longrightarrow> cy_df c \<noteq> [] \<Longrightarrow> \<exists>p' c' x. f (p, c) = ((p', c'), Inr x) \<and> Q x"
  unfolding completes_def by blast

lemma core_df: "cycle_core a = cycle_core b \<Longrightarrow> cy_df a = cy_df b"
  by (drule arg_cong [where f = cy_df]) (simp add: cycle_core_def)

lemma completes_seq:
  assumes "completes E R Q f" "keeps E R f" "steady f" "\<And>x. Q x \<Longrightarrow> completes E R P (g x)"
  shows "completes E R P (seq f g)"
proof (rule completesI)
  fix p and c :: cycle assume s: "sound E R p" "cy_df c \<noteq> []"
  from completesD [OF assms(1) s] obtain p1 c1 x where f: "f (p, c) = ((p1, c1), Inr x)" and x: "Q x" by blast
  from keepsD [OF assms(2) s(1) f] have s1: "sound E R p1" .
  from steadyD [OF assms(3) f] s(2) have "cy_df c1 \<noteq> []" using core_df by metis
  from completesD [OF assms(4) [OF x] s1 this] f show "\<exists>p' c' y. seq f g (p, c) = ((p', c'), Inr y) \<and> P y"
    by (simp add: seq_def)
qed

lemma completes_return: "P x \<Longrightarrow> completes E R P (return x)"
  by (auto simp: completes_def)

lemma completes_result: "completes E R (\<lambda>_. True) (\<lambda>(p, c). ((p, c), Inr (f p c)))"
  by (auto simp: completes_def)

lemma completes_emit: "completes E R (\<lambda>_. True) (emit E R ch fam typ pl)"
  by (auto simp: completes_def emit_def build_envelope_def)

lemma completes_snapshot_then:
  assumes "\<And>p c snap. sound E R p \<Longrightarrow> snap_portfolio snap = st_portfolio (pl_store p) \<Longrightarrow>
      snap_risk snap = st_risk (pl_store p) \<Longrightarrow> \<exists>p' c' x. g snap (p, c) = ((p', c'), Inr x) \<and> Q x"
  shows "completes E R Q (seq (take_snapshot E R) g)"
proof (rule completesI)
  fix p and c :: cycle assume s: "sound E R p" "cy_df c \<noteq> []"
  obtain q c1 x where t: "take_snapshot E R (p, c) = ((q, c1), x)" by (metis prod.exhaust)
  note v = take_snapshot_view [OF t]
  from keepsD [OF keeps_take_snapshot s(1) t] have q: "sound E R q" .
  from v s(1) obtain snap where x: "x = Inr snap" by (cases x) (auto simp: sound_def)
  with v have "snap_portfolio snap = st_portfolio (pl_store q)" "snap_risk snap = st_risk (pl_store q)"
    by (simp_all add: same_view_def)
  from assms [OF q this] t x show "\<exists>p' c' y. seq (take_snapshot E R) g (p, c) = ((p', c'), Inr y) \<and> Q y"
    by (simp add: seq_def)
qed

lemma completes_snapshot: "completes E R (\<lambda>_. True) (take_snapshot E R)"
proof (rule completesI)
  fix p and c :: cycle assume s: "sound E R p" "cy_df c \<noteq> []"
  obtain q c1 x where t: "take_snapshot E R (p, c) = ((q, c1), x)" by (metis prod.exhaust)
  with take_snapshot_view [OF t] s(1) show "\<exists>p' c' x. take_snapshot E R (p, c) = ((p', c'), Inr x) \<and> True"
    by (cases x) (auto simp: sound_def)
qed

lemma completes_bar_evaluation:
  assumes "env_distinct E" "rt_exec R = Some X"
  shows "completes E R (\<lambda>_. True) (seq (take_snapshot E R) (\<lambda>snap. bar_evaluation E X snap so inc))"
proof (rule completes_snapshot_then)
  fix p and c :: cycle and snap :: state_snapshot assume s: "sound E R p" "snap_portfolio snap = st_portfolio (pl_store p)"
  show "\<exists>p' c' x. bar_evaluation E X snap so inc (p, c) = ((p', c'), Inr x) \<and> True"
    by (rule bar_evaluation_result [OF s(1) assms s(2), of c so inc]) blast
qed

lemma completes_pre:
  assumes "env_distinct E"
  shows "completes E R (\<lambda>_. True) (pre_decision_evaluate E R)"
  using completes_bar_evaluation [OF assms]
  by (auto simp: pre_decision_evaluate_def intro: completes_return split: option.split)

lemma completes_execute:
  assumes "env_distinct E" "rt_exec R = Some X"
  shows "completes E R (\<lambda>_. True) (seq (take_snapshot E R) (execute_decision E X d))"
proof (rule completes_snapshot_then)
  fix p and c :: cycle and snap :: state_snapshot
  assume s: "sound E R p" "snap_portfolio snap = st_portfolio (pl_store p)" "snap_risk snap = st_risk (pl_store p)"
  show "\<exists>p' c' x. execute_decision E X d snap (p, c) = ((p', c'), Inr x) \<and> True"
    by (rule execute_decision_result [OF s(1) assms s(2,3), of c d]) blast
qed

lemma sound_portfolio:
  "sound E R p \<Longrightarrow> get_portfolio (rt_portfolio_id R) (pl_store p) = Inr (st_portfolio (pl_store p))
     \<and> get_risk (rt_portfolio_id R) (pl_store p) = Inr (st_risk (pl_store p))"
  by (simp add: get_portfolio_def get_risk_def assert_portfolio_def sound_def)

lemma completes_signal_exit:
  assumes "env_distinct E" "rt_exec R = Some X"
  shows "completes E R (\<lambda>_. True) (signal_exit E R X d)"
proof (rule completesI)
  fix p :: "'b platform" and c :: cycle assume s: "sound E R p" "cy_df c \<noteq> []"
  show "\<exists>p' c' x. signal_exit E R X d (p, c) = ((p', c'), Inr x) \<and> True"
    using completesD [OF completes_bar_evaluation [OF assms] s] sound_portfolio [OF s(1)]
    by (auto simp: signal_exit_def split: option.split)
qed

lemma completes_same_bar:
  assumes "env_distinct E"
  shows "completes E R (\<lambda>_. True) (same_bar_exit_and_execute E R d)"
proof (cases "if is_approved d then rt_exec R else None")
  case None
  then show ?thesis by (simp add: same_bar_exit_and_execute_def completes_return)
next
  case (Some X)
  then have X: "rt_exec R = Some X" by (auto split: if_splits)
  show ?thesis
    unfolding same_bar_exit_and_execute_def Some option.case
    by (rule completes_seq [OF completes_signal_exit [OF assms X] keeps_signal_exit [OF assms X] steady_signal_exit
          completes_execute [OF assms X]])
qed

lemma completes_single:
  assumes "sound E R p" "quiet (tr_body tr)" "tr_portfolio_id tr = rt_portfolio_id R"
  shows "\<exists>p' c'. apply_each E [tr] (p, c) = ((p', c'), Inr ())"
  using apply_quiet [OF assms, of c] by blast

lemma completes_mark: "completes E R (\<lambda>_. True) (mark_to_market_phase E R)"
proof (rule completesI)
  fix p :: "'b platform" and c :: cycle assume s: "sound E R p"
  let ?tr = "\<lparr>transition_id = fresh_id E ''trans_'' (pl_tick p), tr_portfolio_id = rt_portfolio_id R,
      tr_body = Mark_to_market [cy_symbol c \<mapsto> bar_close (cy_bar c)],
      tr_event_time = cy_event_time c, tr_correlation_id = cy_id c\<rparr>"
  from sound_tick [OF s, of "Suc (pl_tick p)"] have "sound E R (p\<lparr>pl_tick := Suc (pl_tick p)\<rparr>)" by simp
  from completes_single [OF this, of ?tr c] sound_portfolio [OF s]
  show "\<exists>p' c' x. mark_to_market_phase E R (p, c) = ((p', c'), Inr x) \<and> True"
    by (simp add: mark_to_market_phase_def del: apply_each.simps)
qed

lemma completes_reset: "completes E R (\<lambda>_. True) (maybe_reset_daily_risk E R)"
proof (rule completesI)
  fix p :: "'b platform" and c :: cycle assume s: "sound E R p"
  let ?p = "p\<lparr>pl_signals_day := Some (date_of (cy_event_time c)), pl_tick := Suc (pl_tick p)\<rparr>"
  let ?tr = "\<lparr>transition_id = fresh_id E ''trans_'' (pl_tick p), tr_portfolio_id = rt_portfolio_id R,
      tr_body = Risk_updated (reset_updates (equity (st_portfolio (pl_store p)))),
      tr_event_time = cy_event_time c, tr_correlation_id = cy_id c\<rparr>"
  have "sound E R ?p" using sound_tick [OF sound_day [OF s], where n = "Suc (pl_tick p)"] by simp
  from completes_single [OF this, of ?tr c] sound_portfolio [OF s]
  show "\<exists>p' c' x. maybe_reset_daily_risk E R (p, c) = ((p', c'), Inr x) \<and> True"
    by (auto simp: maybe_reset_daily_risk_def Let_def split: option.split simp del: apply_each.simps)
qed

lemma completes_publish:
  assumes "\<And>e w. \<exists>w'. rt_publish R e w = (w', Inr ())"
  shows "completes E R (\<lambda>_. True) (publish_events R)"
proof -
  have "\<exists>w'. publish_many (rt_publish R) es w = (w', Inr ())" for es w
  proof (induction es arbitrary: w)
    case (Cons e es)
    from assms [of e w] obtain w' where "rt_publish R e w = (w', Inr ())" by blast
    with Cons.IH [of w'] show ?case by simp
  qed simp
  then show ?thesis by (auto simp: completes_def publish_events_def Let_def split: prod.splits) (metis prod.inject)
qed

lemma completes_collect:
  assumes "\<And>pv. pv \<in> set pvs \<Longrightarrow> prov_enabled pv \<Longrightarrow> \<exists>sig. prov_analyze pv fs ctx = Inr sig \<and> signals_ok [sig]"
  shows "completes E R signals_ok (collect_signals E R fs ctx pvs)"
  using assms
proof (induction pvs)
  case (Cons pv pvs)
  then have IH: "completes E R signals_ok (collect_signals E R fs ctx pvs)" by simp
  show ?case
  proof (cases "prov_enabled pv")
    case False
    have "completes E R signals_ok (seq (emit E R False Fam_signal ProviderSkipped (P_skipped (prov_id pv) ''disabled''))
          (\<lambda>_. collect_signals E R fs ctx pvs))"
      by (rule completes_seq [OF completes_emit keeps_emit steady_emit IH])
    with False show ?thesis by simp
  next
    case True
    with Cons.prems obtain sig where sig: "prov_analyze pv fs ctx = Inr sig" "signals_ok [sig]" by auto
    have "completes E R signals_ok (seq (emit E R False Fam_signal ProviderOpinion
                    (P_opinion (prov_id pv) (sig_side sig) (sig_confidence sig) (sig_rationale sig)))
               (\<lambda>_. seq (collect_signals E R fs ctx pvs) (\<lambda>sigs. return (sig # sigs))))"
      by (intro completes_seq [OF completes_emit keeps_emit steady_emit]
          completes_seq [OF IH keeps_collect steady_collect] completes_return)
        (use sig(2) in \<open>simp add: signals_ok_def\<close>)
    with True sig show ?thesis by simp
  qed
next
  case Nil
  show ?case unfolding collect_signals.simps by (rule completes_return) (simp add: signals_ok_def)
qed

lemma completes_features:
  fixes R :: "('p, 'w) runtime"
  assumes "\<And>df sy tf pt st n. df \<noteq> [] \<Longrightarrow>
      \<exists>x. build_features E (rt_compute R) (rt_features R) (rt_hash R) df sy tf pt (rt_persist R) (st, n) = Inr x"
  shows "completes E R (\<lambda>_. True) (features_phase E R)"
proof (rule completesI)
  fix p :: "'w platform" and c :: cycle assume s: "sound E R p" "cy_df c \<noteq> []"
  obtain fs ctx fst' n where b: "build_features E (rt_compute R) (rt_features R) (rt_hash R) (cy_df c) (cy_symbol c)
      (cy_timeframe c) (cy_processing_time c) (rt_persist R) (pl_features p, pl_tick p) = Inr (fs, ctx, fst', n)"
    using assms [OF s(2)] by (metis prod_cases4)
  have stored: "rt_persist R \<Longrightarrow> get_features fst' (feature_set_id fs) = Inr (feature_record fs ctx)"
  proof -
    assume "rt_persist R"
    with b have "fst' = put_features (feature_record fs ctx) (pl_features p)"
      by (auto simp: build_features_def Let_def)
    moreover have "feature_set_id (feature_record fs ctx) = feature_set_id fs"
      by (simp add: feature_record_def feature_set.extend_def)
    ultimately show ?thesis using features.get_put_same by metis
  qed
  have ctx: "fsr_market_context (feature_record fs ctx) = Some ctx"
    by (simp add: feature_record_def feature_set.extend_def)
  let ?tail = "\<lambda>chk. seq chk (\<lambda>_. seq (emit E R True Fam_market FeatureSetBuilt
                    (P_features (feature_set_id fs) (feature_version fs) (config_hash fs) (indicators fs) (flags fs)))
               (\<lambda>_. seq (emit E R True Fam_market MarketContextDerived (P_context ctx)) (\<lambda>_. return (fs, ctx))))"
  have c: "completes E R (\<lambda>_. True) (?tail (return ()))"
    by (intro completes_seq [where Q = "\<lambda>_. True"] completes_return completes_emit keeps_emit steady_emit
        keeps_return steady_return) simp_all
  let ?q = "p\<lparr>pl_features := fst', pl_tick := n\<rparr>"
  have "pl_tick p \<le> n" using b by (auto simp: build_features_def Let_def)
  then have q: "sound E R ?q" using s(1) by (auto intro: sound_frame)
  have "features_phase E R (p, c) = ?tail (return ()) (?q, c)"
    unfolding features_phase_def split_conv b sum.case prod.case Let_def
    using stored ctx by (cases "rt_persist R") (simp_all del: phase_simps)
  with completesD [OF c q s(2)] show "\<exists>p' c' x. features_phase E R (p, c) = ((p', c'), Inr x) \<and> True"
    by simp
qed

lemma completes_decision_events: "completes E R (\<lambda>_. True) (decision_events E R snap d)"
proof -
  have e: "completes E R (\<lambda>_. True) (if is_approved d then emit E R a b t x else emit E R a' b' t' x')"
    for a b t x a' b' t' x' by (simp add: completes_emit)
  have k: "keeps E R (if is_approved d then emit E R a b t x else emit E R a' b' t' x')"
    for a b t x a' b' t' x' by (simp add: keeps_emit)
  have st: "steady (if is_approved d then emit E R a b t x else emit E R a' b' t' x')"
    for a b t x a' b' t' x' by (simp add: steady_emit)
  have "completes E R (\<lambda>_. True) (case o' of None \<Rightarrow> return () | Some fs \<Rightarrow> emit E R a b t (f fs))" for o' a b t f
    by (cases o') (auto intro: completes_emit completes_return)
  then show ?thesis
    unfolding decision_events_def
    by (intro completes_seq [where Q = "\<lambda>_. True"] completes_emit keeps_emit steady_emit e k st)
qed

lemma completes_decide:
  fixes R :: "('p, 'w) runtime"
  assumes "engine_config_valid (rt_engine R)" "signals_ok sigs"
  shows "completes E R (\<lambda>_. True) (decide E R sigs ctx snap)"
proof (rule completesI)
  fix p :: "'w platform" and c :: cycle assume s: "sound E R p" "cy_df c \<noteq> []"
  let ?m = "\<lparr>dm_correlation_id = cy_id c, dm_event_time = cy_event_time c,
             dm_decision_time = cy_processing_time c, dm_revision_id = cy_revision_id c,
             dm_experiment_id = cy_experiment_id c\<rparr>"
  from process_total [OF assms, of E ctx snap ?m "pl_tick p"] obtain d n where
    pr: "process E (rt_engine R) sigs ctx snap ?m (pl_tick p) = Inr (d, n)" "pl_tick p < n" by blast
  then have "sound E R (p\<lparr>pl_tick := n\<rparr>)" using s(1) by (auto intro: sound_tick)
  moreover obtain p1 c1 where ev: "decision_events E R snap d (p\<lparr>pl_tick := n\<rparr>, c) = ((p1, c1), Inr ())"
    using completesD [OF completes_decision_events calculation s(2)] by fastforce
  ultimately have s1: "sound E R p1" using keepsD [OF keeps_decision_events] by blast
  show "\<exists>p' c' x. decide E R sigs ctx snap (p, c) = ((p', c'), Inr x) \<and> True"
  proof (cases "is_approved d")
    case False
    then show ?thesis by (simp add: decide_def pr seq_def ev)
  next
    case True
    let ?tr = "\<lparr>transition_id = fresh_id E ''trans_'' (pl_tick p1), tr_portfolio_id = rt_portfolio_id R,
        tr_body = Risk_updated [RU_signals_today (signals_today (snap_risk snap) + 1)],
        tr_event_time = cy_event_time c1, tr_correlation_id = cy_id c1\<rparr>"
    from s1 have "sound E R (p1\<lparr>pl_tick := Suc (pl_tick p1)\<rparr>)" by (rule sound_tick) simp
    from completes_single [OF this, of ?tr c1] obtain p2 c2 where
      "apply_each E [?tr] (p1\<lparr>pl_tick := Suc (pl_tick p1)\<rparr>, c1) = ((p2, c2), Inr ())" by auto
    with True show ?thesis by (simp add: decide_def pr seq_def ev del: apply_each.simps)
  qed
qed

text \<open>The collaborators of a runtime behave: there are bars for every request, the features can
  be built, enabled providers return valid signals, and handlers do not raise.\<close>

definition cooperative :: "env \<Rightarrow> ('p, 'w) runtime \<Rightarrow> bool" where
  "cooperative E R \<longleftrightarrow> engine_config_valid (rt_engine R)
     \<and> (\<forall>s tf e n. \<exists>df k. rt_latest R s tf e n = Inr (df, k))
     \<and> (\<forall>df sy tf pt st n. df \<noteq> [] \<longrightarrow>
         (\<exists>x. build_features E (rt_compute R) (rt_features R) (rt_hash R) df sy tf pt (rt_persist R) (st, n) = Inr x))
     \<and> (\<forall>pv \<in> set (rt_providers R). \<forall>fs ctx. prov_enabled pv \<longrightarrow>
         (\<exists>sig. prov_analyze pv fs ctx = Inr sig \<and> signals_ok [sig]))
     \<and> (\<forall>e w. \<exists>w'. rt_publish R e w = (w', Inr ()))"

lemma completes_cycle_body:
  assumes "env_distinct E" "cooperative E R"
  shows "completes E R (\<lambda>_. True) (cycle_body E R)"
proof -
  note co = assms(2) [unfolded cooperative_def]
  have cf: "completes E R (\<lambda>_. True) (features_phase E R)" by (rule completes_features) (use co in blast)
  have cc: "completes E R signals_ok (collect_signals E R fs ctx (rt_providers R))" for fs ctx
    by (rule completes_collect) (use co in blast)
  have cp: "completes E R (\<lambda>_. True) (publish_events R)" by (rule completes_publish) (use co in blast)
  have cd: "signals_ok sigs \<Longrightarrow> completes E R (\<lambda>_. True) (decide E R sigs ctx snap)" for sigs ctx snap
    by (rule completes_decide) (use co in blast)
  have ca: "completes E R (\<lambda>_. True) (emit_candle_received E R)"
  proof (rule completesI)
    fix p and c :: cycle assume "sound E R p" "cy_df c \<noteq> []"
    from completesD [OF completes_emit this]
    show "\<exists>p' c' x. emit_candle_received E R (p, c) = ((p', c'), Inr x) \<and> True"
      by (simp add: emit_candle_received_def)
  qed
  have pr: "(\<And>a b. completes E R P (f a b)) \<Longrightarrow> completes E R P (case x of (a, b) \<Rightarrow> f a b)" for P f x
    by (cases x) simp
  show ?thesis
    unfolding cycle_body_def
    by (intro completes_seq [OF completes_pre [OF assms(1)] keeps_pre_decision [OF assms(1)] steady_pre]
        completes_seq [OF ca keeps_candle steady_candle] completes_seq [OF cf keeps_features steady_features] pr
        completes_seq [OF completes_reset keeps_reset steady_reset] completes_seq [OF completes_mark keeps_mark steady_mark]
        completes_seq [OF completes_snapshot keeps_take_snapshot steady_snapshot]
        completes_seq [OF cc keeps_collect steady_collect] completes_seq [OF cd keeps_decide steady_decide]
        completes_seq [OF completes_same_bar [OF assms(1)] keeps_same_bar [OF assms(1)] steady_same_bar]
        completes_seq [OF cp keeps_publish steady_publish] completes_result)
qed

lemma cycle_total:
  assumes "sound E R p" "env_distinct E" "market_data (rt_latest R)" "cooperative E R"
  shows "\<exists>q res. run_cycle E R a p = (q, Inr res)"
proof -
  obtain p1 r1 where pb: "prepare_bar E R a p = (p1, r1)" by fastforce
  have lat: "\<exists>df k. rt_latest R s tf e n = Inr (df, k)" for s tf e n
    using assms(4) by (simp add: cooperative_def)
  from pb assms(3) show ?thesis
  proof (cases rule: prepare_bar_E)
    case (failed n e)
    have False
    proof -
      obtain cid n1 where c1: "(case ca_correlation_id a of
            Some i \<Rightarrow> if i \<noteq> [] then (i, pl_tick p) else (fresh_id E ''cycle_'' (pl_tick p), Suc (pl_tick p))
          | None \<Rightarrow> (fresh_id E ''cycle_'' (pl_tick p), Suc (pl_tick p))) = (cid, n1)" by fastforce
      obtain upto n2 where c2: "now_event_time E (pl_clock p) n1 = (upto, n2)" by fastforce
      from lat obtain df k where l: "rt_latest R (ca_symbol a) (ca_timeframe a) upto n2 = Inr (df, k)" by blast
      with market_data.latest_nonempty [OF assms(3) l] pb failed(1) show False
        by (auto simp: prepare_bar_def c1 c2 Let_def split: prod.splits)
    qed
    then show ?thesis ..
  next
    case (ready c n m)
    from assms(1) ready(2,3) have "sound E R p1" by (auto intro: sound_frame)
    from completesD [OF completes_cycle_body [OF assms(2,4)] this ready(8)] pb ready(1) show ?thesis
      by (fastforce simp: run_cycle_def)
  qed
qed

text \<open>A cycle raises only when a collaborator does. If the data provider has bars, the
  features can be built, every enabled provider returns a valid signal and no handler
  raises, then in every reachable platform every cycle returns a result: the state store,
  the feature store, the decision engine and the execution engine never raise on what the
  runtime gives them.\<close>

theorem cooperative_cycles_return:
  assumes "init_store E (rt_portfolio_id R) md initial_cash lims m = (s, n)"
    and "0 \<le> lim_max_open_positions (case lims of None \<Rightarrow> default_limits | Some l \<Rightarrow> l)"
    and "env_distinct E" and "market_data (rt_latest R)" and "cooperative E R"
    and "reachable E R (new_platform s c w n) q"
  shows "\<exists>q' res. run_cycle E R a q = (q', Inr res)"
  by (rule cycle_total [OF reachable_sound [OF assms(6) new_platform_sound [OF assms(1,2)] assms(3,4)] assms(3-5)])


subsection \<open>A concrete runtime\<close>

definition demo_latest :: "string \<Rightarrow> string \<Rightarrow> datetime \<Rightarrow> tick \<Rightarrow> (frame \<times> tick) result" where
  "demo_latest s tf e n = Inr ([(min e 1000, demo_candle)], n)"

definition demo_runtime :: "(unit, unit) runtime" where
  "demo_runtime = \<lparr>rt_latest = demo_latest, rt_compute = (\<lambda>d df. Inr 1), rt_features = demo_features,
     rt_hash = ''h'', rt_providers = [], rt_engine = demo_engine_config, rt_exec = Some (demo_setup At_close),
     rt_publish = (\<lambda>e w. (w, Inr ())), rt_portfolio_id = ''p'', rt_mode = Paper_mode, rt_persist = True,
     rt_emit = True\<rparr>"

definition demo_cycle_args :: cycle_args where
  "demo_cycle_args = \<lparr>ca_symbol = ''BTC'', ca_timeframe = ''1h'', ca_correlation_id = None,
     ca_revision_id = None, ca_experiment_id = None\<rparr>"

lemma demo_market_data: "market_data (rt_latest demo_runtime)"
  by unfold_locales (auto simp: demo_runtime_def demo_latest_def)

lemma demo_cooperative: "cooperative unary_env demo_runtime"
  unfolding cooperative_def
proof (intro conjI allI impI ballI)
  fix df :: frame and sy tf pt st n assume "df \<noteq> []"
  then show "\<exists>x. build_features unary_env (rt_compute demo_runtime) (rt_features demo_runtime) (rt_hash demo_runtime)
      df sy tf pt (rt_persist demo_runtime) (st, n) = Inr x"
    by (simp add: build_features_def demo_runtime_def normalize_ohlcv_def demo_features_def Let_def
        derive_context_cases)
qed (simp_all add: demo_runtime_def demo_latest_def)

lemma demo_init: "init_store unary_env (rt_portfolio_id demo_runtime) Paper_mode 10000 None 0
    = (fst (init_store unary_env ''p'' Paper_mode 10000 None 0), 1)"
  by (simp add: init_store_def demo_runtime_def Let_def)

definition demo_platform :: "unit platform" where
  "demo_platform = new_platform (fst (init_store unary_env ''p'' Paper_mode 10000 None 0)) (Wall_clock None) () 1"

lemma demo_sound: "sound unary_env demo_runtime demo_platform"
  unfolding demo_platform_def by (rule new_platform_sound [OF demo_init]) (simp add: default_limits_def)

theorem cycles_keep_book_coherent_witness:
  "\<exists>q. reachable unary_env demo_runtime demo_platform q \<and> pl_clock q \<noteq> pl_clock demo_platform
     \<and> pending_entries (pl_exec q) = [] \<and> distinct (map position_id (book (pl_store q)))"
proof -
  obtain q res where r: "run_cycle unary_env demo_runtime demo_cycle_args demo_platform = (q, Inr res)"
    using cycle_total [OF demo_sound unary_env_distinct demo_market_data demo_cooperative] by blast
  then have re: "reachable unary_env demo_runtime demo_platform q"
    by (rule reachable.cycle [OF reachable.start])
  have lim: "0 \<le> lim_max_open_positions (case None of None \<Rightarrow> default_limits | Some l \<Rightarrow> l)"
    by (simp add: default_limits_def)
  from cycles_keep_book_coherent [OF demo_init lim unary_env_distinct demo_market_data re [unfolded demo_platform_def]]
  have "pending_entries (pl_exec q) = [] \<and> distinct (map position_id (book (pl_store q)))"
    by (simp add: demo_runtime_def demo_setup_def)
  moreover from run_cycle_Inr [OF r demo_market_data] obtain c n p1 c2 where
    "p1 = demo_platform\<lparr>pl_clock := set_event_time (cy_event_time c) (pl_clock demo_platform), pl_tick := n\<rparr>"
    "cycle_body unary_env demo_runtime (p1, c) = ((q, c2), Inr res)" by metis
  then have "pl_clock q \<noteq> pl_clock demo_platform"
    using steadyD [OF steady_cycle_body] by (fastforce simp: demo_platform_def new_platform_def set_event_time_def)
  ultimately show ?thesis using re by blast
qed

theorem wall_clock_never_advances_witness:
  "\<exists>q res q2 res'. run_cycle unary_env demo_runtime demo_cycle_args demo_platform = (q, Inr res)
     \<and> run_cycle unary_env demo_runtime demo_cycle_args q = (q2, Inr res')
     \<and> dec_event_time (cr_decision res') \<le> dec_event_time (cr_decision res)"
proof -
  obtain q res where r: "run_cycle unary_env demo_runtime demo_cycle_args demo_platform = (q, Inr res)"
    using cycle_total [OF demo_sound unary_env_distinct demo_market_data demo_cooperative] by blast
  then have "sound unary_env demo_runtime q"
    by (rule run_cycle_sound [OF demo_sound unary_env_distinct demo_market_data])
  then obtain q2 res' where r2: "run_cycle unary_env demo_runtime demo_cycle_args q = (q2, Inr res')"
    using cycle_total [OF _ unary_env_distinct demo_market_data demo_cooperative] by blast
  have "pl_clock demo_platform = Wall_clock None" by (simp add: demo_platform_def new_platform_def)
  from wall_clock_never_advances [OF demo_market_data this r reachable.start r2] r r2 show ?thesis by blast
qed

theorem cooperative_cycles_return_witness:
  "\<exists>q res. run_cycle unary_env demo_runtime demo_cycle_args demo_platform = (q, Inr res)"
  unfolding demo_platform_def
  by (rule cooperative_cycles_return [OF demo_init _ unary_env_distinct demo_market_data demo_cooperative reachable.start])
    (simp add: default_limits_def)

end
