(* ===== verification/RuntimeEvents.thy ===== *)
theory RuntimeEvents
  imports RuntimeSafety
begin

text \<open>
  What a cycle publishes: which phases emit nothing, and the chain of events and causes of a
  cycle that returns.
\<close>


subsection \<open>Events\<close>

lemma emit_on:
  assumes "rt_emit R" "emit E R ch fam typ pl s = (s', Inr ())"
  shows "\<exists>e. cy_events (snd s') = cy_events (snd s) @ [e] \<and> ev_type e = typ
    \<and> ev_causation_id e = cy_causation (snd s) \<and> ev_cycle_id e = cy_id (snd s)
    \<and> cy_causation (snd s') = (if ch then Some (event_id e) else cy_causation (snd s))
    \<and> cy_id (snd s') = cy_id (snd s)"
  using assms
  by (cases s) (auto simp: emit_def build_envelope_def cycle_meta_def)

text \<open>A phase that emits nothing.\<close>

definition silent :: "('w running, 'a) phase \<Rightarrow> bool" where
  "silent f \<longleftrightarrow> (\<forall>s s' r. f s = (s', r) \<longrightarrow>
     cy_events (snd s') = cy_events (snd s) \<and> cy_causation (snd s') = cy_causation (snd s))"

lemma silentI:
  "(\<And>p c s' r. f (p, c) = (s', r) \<Longrightarrow> cy_events (snd s') = cy_events c \<and> cy_causation (snd s') = cy_causation c)
   \<Longrightarrow> silent f"
  by (auto simp: silent_def)

lemma silentD:
  "silent f \<Longrightarrow> f s = (s', r) \<Longrightarrow> cy_events (snd s') = cy_events (snd s) \<and> cy_causation (snd s') = cy_causation (snd s)"
  unfolding silent_def by blast

lemma silent_return: "silent (return x)" "silent (raise e)"
  by (auto intro: silentI)

lemma silent_seq:
  assumes "silent f" "\<And>x. silent (g x)"
  shows "silent (seq f g)"
proof (rule silentI)
  fix p c s' r assume r: "seq f g (p, c) = (s', r)"
  obtain u x where f: "f (p, c) = (u, x)" by fastforce
  note 1 = silentD [OF assms(1) f]
  show "cy_events (snd s') = cy_events c \<and> cy_causation (snd s') = cy_causation c"
  proof (cases x)
    case (Inl e)
    with r f 1 show ?thesis by (simp add: seq_def)
  next
    case (Inr y)
    with r f have "g y u = (s', r)" by (simp add: seq_def)
    from silentD [OF assms(2) this] 1 show ?thesis by simp
  qed
qed

lemma silent_with_store: "silent (with_store f)"
  by (rule silentI) (auto simp: with_store_def split: sum.splits prod.splits)

lemma silent_snapshot: "silent (take_snapshot E R)"
  by (rule silentI) (auto simp: take_snapshot_def dest!: silentD [OF silent_with_store])

lemma silent_apply_each: "silent (apply_each E trs)"
proof (induction trs)
  case (Cons tr trs)
  have e: "apply_each E (tr # trs) = seq (with_store (apply_transition E tr)) (\<lambda>_. apply_each E trs)"
    by (intro ext) (simp add: seq_def)
  show ?case unfolding e by (rule silent_seq [OF silent_with_store Cons.IH])
next
  case Nil
  show ?case by (simp add: silent_def)
qed

lemma silent_note: "silent (note_exec_events evs)"
  by (rule silentI) (auto simp: note_exec_events_def)

lemmas silent_apply_note = silent_seq [OF silent_apply_each silent_note]

lemma silent_bar_evaluation: "silent (bar_evaluation E X snap so inc)"
  by (rule silentI) (auto simp: bar_evaluation_def split: prod.splits dest!: silentD [OF silent_apply_note])

lemma silent_execute_decision: "silent (execute_decision E X d snap)"
  by (rule silentI) (auto simp: execute_decision_def split: prod.splits sum.splits dest!: silentD [OF silent_apply_note])

lemma silent_pre: "silent (pre_decision_evaluate E R)"
  by (auto simp: pre_decision_evaluate_def split: option.split
      intro!: silent_seq silent_snapshot silent_bar_evaluation silent_return)

lemma silent_mark: "silent (mark_to_market_phase E R)"
  by (rule silentI) (auto simp: mark_to_market_phase_def split: sum.splits if_splits
      dest!: silentD [OF silent_apply_each] simp del: apply_each.simps)

lemma silent_reset: "silent (maybe_reset_daily_risk E R)"
  by (rule silentI) (auto simp: maybe_reset_daily_risk_def Let_def split: option.splits sum.splits if_splits
      dest!: silentD [OF silent_apply_each] simp del: apply_each.simps)

lemma silent_signal_exit: "silent (signal_exit E R X d)"
  by (rule silentI) (auto simp: signal_exit_def split: sum.splits option.splits if_splits
      dest!: silentD [OF silent_seq [OF silent_snapshot silent_bar_evaluation]])

lemma silent_same_bar: "silent (same_bar_exit_and_execute E R d)"
  by (auto simp: same_bar_exit_and_execute_def split: option.split if_splits
      intro!: silent_seq silent_signal_exit silent_execute_decision silent_snapshot silent_return)

lemma collect_events:
  assumes "rt_emit R" "collect_signals E R fs ctx pvs s = (s', Inr sigs)"
  shows "\<exists>ops. cy_events (snd s') = cy_events (snd s) @ ops
    \<and> map ev_type ops = map (\<lambda>pv. if prov_enabled pv then ProviderOpinion else ProviderSkipped) pvs
    \<and> (\<forall>e \<in> set ops. ev_causation_id e = cy_causation (snd s) \<and> ev_cycle_id e = cy_id (snd s))
    \<and> cy_causation (snd s') = cy_causation (snd s) \<and> cy_id (snd s') = cy_id (snd s)"
  using assms(2)
proof (induction pvs arbitrary: s sigs)
  case (Cons pv pvs)
  show ?case
  proof (cases "prov_enabled pv")
    case False
    with Cons.prems obtain u where
      u: "emit E R False Fam_signal ProviderSkipped (P_skipped (prov_id pv) ''disabled'') s = (u, Inr ())"
      "collect_signals E R fs ctx pvs u = (s', Inr sigs)" by (auto simp: seq_Inr)
    from emit_on [OF assms(1) u(1)] Cons.IH [OF u(2)] False show ?thesis by fastforce
  next
    case True
    then obtain sig where sig: "prov_analyze pv fs ctx = Inr sig"
      using Cons.prems by (cases "prov_analyze pv fs ctx") auto
    with Cons.prems True have "\<exists>u sigs'. emit E R False Fam_signal ProviderOpinion
             (P_opinion (prov_id pv) (sig_side sig) (sig_confidence sig) (sig_rationale sig)) s = (u, Inr ())
        \<and> collect_signals E R fs ctx pvs u = (s', Inr sigs')"
      by (simp add: seq_Inr split_paired_Ex) blast
    then obtain u sigs' where
      u: "emit E R False Fam_signal ProviderOpinion
             (P_opinion (prov_id pv) (sig_side sig) (sig_confidence sig) (sig_rationale sig)) s = (u, Inr ())"
      "collect_signals E R fs ctx pvs u = (s', Inr sigs')" by blast
    from emit_on [OF assms(1) u(1)] Cons.IH [OF u(2)] True show ?thesis by fastforce
  qed
qed (simp add: return_def)

lemma features_events:
  assumes "rt_emit R" "features_phase E R s = (s', Inr (fs, ctx))"
  shows "\<exists>e1 e2. cy_events (snd s') = cy_events (snd s) @ [e1, e2]
    \<and> ev_type e1 = FeatureSetBuilt \<and> ev_type e2 = MarketContextDerived
    \<and> ev_causation_id e1 = cy_causation (snd s) \<and> ev_causation_id e2 = Some (event_id e1)
    \<and> ev_cycle_id e1 = cy_id (snd s) \<and> ev_cycle_id e2 = cy_id (snd s)
    \<and> cy_causation (snd s') = Some (event_id e2) \<and> cy_id (snd s') = cy_id (snd s)"
proof -
  obtain p c where s: "s = (p, c)" by (cases s)
  from assms(2) obtain u v u1 chk where
    u: "cy_events (snd u) = cy_events c" "cy_causation (snd u) = cy_causation c" "cy_id (snd u) = cy_id c"
    and 1: "emit E R True Fam_market FeatureSetBuilt chk u = (u1, Inr ())"
    and 2: "emit E R True Fam_market MarketContextDerived v u1 = (s', Inr ())"
    unfolding s features_phase_def
    by (auto simp: seq_Inr Let_def split: sum.splits prod.splits if_splits)
  from emit_on [OF assms(1) 1] emit_on [OF assms(1) 2] u s show ?thesis by fastforce
qed

lemma decision_chain:
  assumes "rt_emit R" "decision_events E R snap d s = (s', Inr ())"
  shows "\<exists>e1 e2 pub. cy_events (snd s') = cy_events (snd s) @ [e1, e2] @ pub
    \<and> ev_type e1 = DecisionMade \<and> ev_type e2 = (if is_approved d then DecisionApproved else DecisionRejected)
    \<and> map ev_type pub = (if is_approved d \<and> dec_final_signal d \<noteq> None then [SignalPublished] else [])
    \<and> ev_causation_id e1 = cy_causation (snd s) \<and> ev_causation_id e2 = Some (event_id e1)
    \<and> (\<forall>e \<in> set pub. ev_causation_id e = Some (event_id e2))
    \<and> (\<forall>e \<in> set ([e1, e2] @ pub). ev_cycle_id e = cy_id (snd s)) \<and> cy_id (snd s') = cy_id (snd s)"
proof -
  obtain u v x ty pl where
    1: "emit E R True Fam_decision DecisionMade x s = (u, Inr ())"
    and 2: "emit E R True Fam_decision ty pl u = (v, Inr ())"
    and ty: "ty = (if is_approved d then DecisionApproved else DecisionRejected)"
    and 3: "(case (if is_approved d then dec_final_signal d else None) of
              None \<Rightarrow> return ()
            | Some fs \<Rightarrow> emit E R False Fam_execution SignalPublished
                (P_signal (decision_id d) (fin_side fs) (fin_entry_price fs) (fin_stop_loss fs)
                   (fin_take_profit fs) (fin_confidence fs) (risk_reward fs) (contributing_providers fs))) v = (s', Inr ())"
    using assms(2) unfolding decision_events_def seq_Inr by (cases "is_approved d") auto
  obtain e1 where e1: "cy_events (snd u) = cy_events (snd s) @ [e1]" "ev_type e1 = DecisionMade"
    "ev_causation_id e1 = cy_causation (snd s)" "ev_cycle_id e1 = cy_id (snd s)"
    "cy_causation (snd u) = Some (event_id e1)" "cy_id (snd u) = cy_id (snd s)"
    using emit_on [OF assms(1) 1] by auto
  obtain e2 where e2: "cy_events (snd v) = cy_events (snd u) @ [e2]" "ev_type e2 = ty"
    "ev_causation_id e2 = cy_causation (snd u)" "ev_cycle_id e2 = cy_id (snd u)"
    "cy_causation (snd v) = Some (event_id e2)" "cy_id (snd v) = cy_id (snd u)"
    using emit_on [OF assms(1) 2] by auto
  have "\<exists>pub. cy_events (snd s') = cy_events (snd v) @ pub
      \<and> map ev_type pub = (if is_approved d \<and> dec_final_signal d \<noteq> None then [SignalPublished] else [])
      \<and> (\<forall>e \<in> set pub. ev_causation_id e = Some (event_id e2) \<and> ev_cycle_id e = cy_id (snd v))
      \<and> cy_id (snd s') = cy_id (snd v)"
  proof (cases "if is_approved d then dec_final_signal d else None")
    case None
    with 3 show ?thesis by (auto split: if_splits)
  next
    case (Some fs)
    with 3 obtain y where "emit E R False Fam_execution SignalPublished y v = (s', Inr ())" by auto
    from emit_on [OF assms(1) this] Some e2(5) show ?thesis by (auto split: if_splits)
  qed
  then obtain pub where "cy_events (snd s') = cy_events (snd v) @ pub"
      "map ev_type pub = (if is_approved d \<and> dec_final_signal d \<noteq> None then [SignalPublished] else [])"
      "\<forall>e \<in> set pub. ev_causation_id e = Some (event_id e2) \<and> ev_cycle_id e = cy_id (snd v)"
      "cy_id (snd s') = cy_id (snd v)" by blast
  with e1 e2 ty show ?thesis
    by - (rule exI [of _ e1], rule exI [of _ e2], rule exI [of _ pub], simp)
qed

text \<open>What \<^verbatim>\<open>_decide\<close> does after the decision is made.\<close>

definition count_signal ::
  "env \<Rightarrow> ('p, 'w) runtime \<Rightarrow> state_snapshot \<Rightarrow> decision \<Rightarrow> ('w running, decision) phase" where
  "count_signal E R snap d =
     (if is_approved d then
        (\<lambda>(q, c'). seq (apply_each E [\<lparr>transition_id = fresh_id E ''trans_'' (pl_tick q),
                     tr_portfolio_id = rt_portfolio_id R,
                     tr_body = Risk_updated [RU_signals_today (signals_today (snap_risk snap) + 1)],
                     tr_event_time = cy_event_time c', tr_correlation_id = cy_id c'\<rparr>])
                   (\<lambda>_. return d) (q\<lparr>pl_tick := Suc (pl_tick q)\<rparr>, c'))
      else return d)"

lemma decide_split:
  "decide E R sigs ctx snap (p, c) =
     (case process E (rt_engine R) sigs ctx snap
            \<lparr>dm_correlation_id = cy_id c, dm_event_time = cy_event_time c,
             dm_decision_time = cy_processing_time c, dm_revision_id = cy_revision_id c,
             dm_experiment_id = cy_experiment_id c\<rparr> (pl_tick p) of
       Inl e \<Rightarrow> ((p, c), Inl e)
     | Inr (d, n) \<Rightarrow> seq (decision_events E R snap d) (\<lambda>_. count_signal E R snap d) (p\<lparr>pl_tick := n\<rparr>, c))"
  unfolding decide_def count_signal_def split_conv ..

lemma silent_count: "silent (count_signal E R snap d)"
proof (cases "is_approved d")
  case True
  show ?thesis
    by (rule silentI) (auto simp: count_signal_def True dest!: silentD [OF silent_seq [OF silent_apply_each silent_return(1)]]
        simp del: apply_each.simps phase_simps)
qed (simp add: count_signal_def silent_return)

lemma decide_chain:
  assumes "rt_emit R" "decide E R sigs ctx snap s = (s', Inr d)"
  shows "\<exists>e1 e2 pub. cy_events (snd s') = cy_events (snd s) @ [e1, e2] @ pub
    \<and> ev_type e1 = DecisionMade \<and> ev_type e2 = (if is_approved d then DecisionApproved else DecisionRejected)
    \<and> map ev_type pub = (if is_approved d \<and> dec_final_signal d \<noteq> None then [SignalPublished] else [])
    \<and> ev_causation_id e1 = cy_causation (snd s) \<and> ev_causation_id e2 = Some (event_id e1)
    \<and> (\<forall>e \<in> set pub. ev_causation_id e = Some (event_id e2))
    \<and> (\<forall>e \<in> set ([e1, e2] @ pub). ev_cycle_id e = cy_id (snd s))"
proof -
  obtain p c where s: "s = (p, c)" by (cases s)
  from assms(2) obtain d' n u where
    u: "decision_events E R snap d' (p\<lparr>pl_tick := n\<rparr>, c) = (u, Inr ())" and
    v: "count_signal E R snap d' u = (s', Inr d)"
    unfolding s decide_split by (auto simp: seq_Inr split: sum.splits prod.splits)
  have "d' = d" using v by (auto simp: count_signal_def seq_Inr split: prod.splits if_splits)
  with silentD [OF silent_count v] have ev: "cy_events (snd s') = cy_events (snd u)" by simp
  show ?thesis using decision_chain [OF assms(1) u] unfolding ev \<open>d' = d\<close> s by (auto 0 3)
qed

text \<open>Every phase before the features leaves the cycle's events as they are.\<close>

lemma candle_events:
  assumes "rt_emit R" "emit_candle_received E R s = (s', Inr ())"
  shows "\<exists>e. cy_events (snd s') = cy_events (snd s) @ [e] \<and> ev_type e = CandleReceived
    \<and> ev_causation_id e = cy_causation (snd s) \<and> ev_cycle_id e = cy_id (snd s)
    \<and> cy_causation (snd s') = Some (event_id e)"
proof -
  obtain p c where s: "s = (p, c)" by (cases s)
  with assms(2) have "emit E R True Fam_market CandleReceived (P_candle (cy_bar c)) s = (s', Inr ())"
    by (simp add: emit_candle_received_def)
  from emit_on [OF assms(1) this] show ?thesis by auto
qed

lemma publish_result:
  assumes "publish_events R s = (s', Inr ())"
  shows "cy_events (snd s') = cy_events (snd s) @ cy_exec_events (snd s)"
    and "cy_exec_events (snd s') = cy_exec_events (snd s)"
  using assms by (auto simp: publish_events_def Let_def split: prod.splits)

lemma steady_id: "steady f \<Longrightarrow> f s = (s', r) \<Longrightarrow> cy_id (snd s') = cy_id (snd s)"
  by (metis core_eq prod.collapse steadyD)

text \<open>A cycle that returns publishes one chain of events, whatever was decided. In this
  order: the candle, the feature set, the market context, one opinion or skip for every
  registered provider in the registry's order, the decision, its approval or rejection, the
  published signal if there is one, and then what the execution engine reported. Each is
  caused by the one before it, except that all opinions are caused by the context, which
  is also the cause of the decision; and all carry the cycle's identifier.\<close>

theorem cycle_event_chain:
  assumes "rt_emit R" and "market_data (rt_latest R)" and "run_cycle E R a p = (q, Inr res)"
  shows "\<exists>candle feat ctx opinions made outcome pub.
    cr_events res = [candle, feat, ctx] @ opinions @ [made, outcome] @ pub @ cr_execution_events res
    \<and> map ev_type [candle, feat, ctx, made] = [CandleReceived, FeatureSetBuilt, MarketContextDerived, DecisionMade]
    \<and> ev_type outcome = (if is_approved (cr_decision res) then DecisionApproved else DecisionRejected)
    \<and> map ev_type opinions =
        map (\<lambda>pv. if prov_enabled pv then ProviderOpinion else ProviderSkipped) (rt_providers R)
    \<and> map ev_type pub =
        (if is_approved (cr_decision res) \<and> dec_final_signal (cr_decision res) \<noteq> None then [SignalPublished] else [])
    \<and> ev_causation_id candle = None \<and> ev_causation_id feat = Some (event_id candle)
    \<and> ev_causation_id ctx = Some (event_id feat)
    \<and> (\<forall>e \<in> set (opinions @ [made]). ev_causation_id e = Some (event_id ctx))
    \<and> ev_causation_id outcome = Some (event_id made)
    \<and> (\<forall>e \<in> set pub. ev_causation_id e = Some (event_id outcome))
    \<and> (\<forall>e \<in> set ([candle, feat, ctx] @ opinions @ [made, outcome] @ pub).
         ev_cycle_id e = cr_correlation_id res)"
proof -
  from run_cycle_Inr [OF assms(3,2)] obtain c p1 c2 where
    c: "cy_events c = []" "cy_causation c = None" and body: "cycle_body E R (p1, c) = ((q, c2), Inr res)" by metis
  from body show ?thesis
  proof (cases rule: cycle_body_E)
    case (1 s1 s2 s3 s4 s5 s6 s7 s8 s9 fs mc snap sigs d)
    note quiet1 = silentD [OF silent_pre 1(1)] and quiet4 = silentD [OF silent_reset 1(4)]
      and quiet5 = silentD [OF silent_mark 1(5)] and quiet6 = silentD [OF silent_snapshot 1(6)]
      and quiet9 = silentD [OF silent_same_bar 1(9)]
    note ids = steady_id [OF steady_pre 1(1)] steady_id [OF steady_candle 1(2)] steady_id [OF steady_features 1(3)]
      steady_id [OF steady_reset 1(4)] steady_id [OF steady_mark 1(5)] steady_id [OF steady_snapshot 1(6)]
      steady_id [OF steady_collect 1(7)]
    have cid: "cy_id c = cr_correlation_id res" using cycle_decision_time [OF body] by simp
    obtain candle where e1: "cy_events (snd s2) = cy_events (snd s1) @ [candle]" "ev_type candle = CandleReceived"
      "ev_causation_id candle = cy_causation (snd s1)" "ev_cycle_id candle = cy_id (snd s1)"
      "cy_causation (snd s2) = Some (event_id candle)"
      using candle_events [OF assms(1) 1(2)] by blast
    obtain feat ctx where e2: "cy_events (snd s3) = cy_events (snd s2) @ [feat, ctx]"
      "ev_type feat = FeatureSetBuilt" "ev_type ctx = MarketContextDerived"
      "ev_causation_id feat = cy_causation (snd s2)" "ev_causation_id ctx = Some (event_id feat)"
      "ev_cycle_id feat = cy_id (snd s2)" "ev_cycle_id ctx = cy_id (snd s2)"
      "cy_causation (snd s3) = Some (event_id ctx)"
      using features_events [OF assms(1) 1(3)] by blast
    obtain opinions where e3: "cy_events (snd s7) = cy_events (snd s6) @ opinions"
      "map ev_type opinions = map (\<lambda>pv. if prov_enabled pv then ProviderOpinion else ProviderSkipped) (rt_providers R)"
      "\<forall>e \<in> set opinions. ev_causation_id e = cy_causation (snd s6) \<and> ev_cycle_id e = cy_id (snd s6)"
      "cy_causation (snd s7) = cy_causation (snd s6)"
      using collect_events [OF assms(1) 1(7)] by blast
    obtain made outcome pub where e4: "cy_events (snd s8) = cy_events (snd s7) @ [made, outcome] @ pub"
      "ev_type made = DecisionMade" "ev_type outcome = (if is_approved d then DecisionApproved else DecisionRejected)"
      "map ev_type pub = (if is_approved d \<and> dec_final_signal d \<noteq> None then [SignalPublished] else [])"
      "ev_causation_id made = cy_causation (snd s7)" "ev_causation_id outcome = Some (event_id made)"
      "\<forall>e \<in> set pub. ev_causation_id e = Some (event_id outcome)"
      "\<forall>e \<in> set ([made, outcome] @ pub). ev_cycle_id e = cy_id (snd s7)"
      using decide_chain [OF assms(1) 1(8)] by blast
    have evs: "cr_events res = [candle, feat, ctx] @ opinions @ [made, outcome] @ pub @ cr_execution_events res"
      using publish_result [OF 1(10)] 1(11) quiet1 quiet4 quiet5 quiet6 quiet9 c e1(1) e2(1) e3(1) e4(1) by simp
    have dec: "cr_decision res = d" using 1(11) by simp
    show ?thesis
      by (rule exI [of _ candle], rule exI [of _ feat], rule exI [of _ ctx], rule exI [of _ opinions],
          rule exI [of _ made], rule exI [of _ outcome], rule exI [of _ pub])
        (use evs dec c e1(2-5) e2(2-8) e3(2-4) e4(2-8) quiet1 quiet4 quiet5 quiet6 ids cid in \<open>simp add: ball_Un\<close>)
  qed
qed

theorem cycle_event_chain_witness:
  "\<exists>q res candle feat ctx made outcome pub. run_cycle unary_env demo_runtime demo_cycle_args demo_platform = (q, Inr res)
     \<and> cr_events res = [candle, feat, ctx, made, outcome] @ pub @ cr_execution_events res
     \<and> ev_causation_id made = Some (event_id ctx) \<and> ev_causation_id outcome = Some (event_id made)"
proof -
  obtain q res where r: "run_cycle unary_env demo_runtime demo_cycle_args demo_platform = (q, Inr res)"
    using cycle_total [OF demo_sound unary_env_distinct demo_market_data demo_cooperative] by blast
  have on: "rt_emit demo_runtime" and no: "rt_providers demo_runtime = []" by (simp_all add: demo_runtime_def)
  from cycle_event_chain [OF on demo_market_data r] r show ?thesis by (auto simp: no)
qed

end
