(* ===== verification/RuntimeRisk.thy ===== *)
theory RuntimeRisk
  imports RuntimeEvents
begin

text \<open>
  The daily risk state across cycles: the number of approved signals of the day, the limit it
  never passes, and the reset at the first bar of a new day.
\<close>


subsection \<open>Phases that leave the day's count alone\<close>

definition day_count :: "'w platform \<Rightarrow> int \<times> int option" where
  "day_count p = (signals_today (st_risk (pl_store p)), pl_signals_day p)"

definition counts :: "env \<Rightarrow> ('p, 'w) runtime \<Rightarrow> ('w running, 'a) phase \<Rightarrow> bool" where
  "counts E R f \<longleftrightarrow> (\<forall>p c p' c' r. sound E R p \<longrightarrow> f (p, c) = ((p', c'), r) \<longrightarrow> day_count p' = day_count p)"

lemma countsI:
  "(\<And>p c p' c' r. sound E R p \<Longrightarrow> f (p, c) = ((p', c'), r) \<Longrightarrow> day_count p' = day_count p) \<Longrightarrow> counts E R f"
  by (simp add: counts_def)

lemma countsD: "counts E R f \<Longrightarrow> sound E R p \<Longrightarrow> f (p, c) = ((p', c'), r) \<Longrightarrow> day_count p' = day_count p"
  unfolding counts_def by blast

lemma counts_return: "counts E R (return x)" "counts E R (raise e)"
  by (simp_all add: counts_def)

lemma counts_seq:
  assumes "counts E R f" "keeps E R f" "\<And>x. counts E R (g x)"
  shows "counts E R (seq f g)"
proof (rule countsI)
  fix p c p' c' r assume s: "sound E R p" and r: "seq f g (p, c) = ((p', c'), r)"
  obtain q d x where f: "f (p, c) = ((q, d), x)" by (metis prod.exhaust)
  note 1 = countsD [OF assms(1) s f] and q = keepsD [OF assms(2) s f]
  show "day_count p' = day_count p"
  proof (cases x)
    case (Inl e)
    with r f 1 show ?thesis by (simp add: seq_def)
  next
    case (Inr y)
    with r f have "g y (q, d) = ((p', c'), r)" by (simp add: seq_def)
    from countsD [OF assms(3) q this] 1 show ?thesis by simp
  qed
qed

lemma counts_view:
  "same_view (pl_store p) (pl_store q) \<Longrightarrow> pl_signals_day q = pl_signals_day p \<Longrightarrow> day_count q = day_count p"
  by (simp add: day_count_def same_view_def)

lemma counts_emit: "counts E R (emit E R ch fam ty pl)"
  by (rule countsI) (auto simp: day_count_def dest!: emit_frame)

lemma counts_snapshot: "counts E R (take_snapshot E R)"
  by (rule countsI) (use take_snapshot_view counts_view in blast)

lemma counts_snapshot_then:
  assumes "\<And>p c p' c' r snap. sound E R p \<Longrightarrow> snap_portfolio snap = st_portfolio (pl_store p) \<Longrightarrow>
      snap_risk snap = st_risk (pl_store p) \<Longrightarrow> g snap (p, c) = ((p', c'), r) \<Longrightarrow> day_count p' = day_count p"
  shows "counts E R (seq (take_snapshot E R) g)"
proof (rule countsI)
  fix p c p' c' r assume s: "sound E R p" and r: "seq (take_snapshot E R) g (p, c) = ((p', c'), r)"
  obtain q c1 x where t: "take_snapshot E R (p, c) = ((q, c1), x)" by (metis prod.exhaust)
  note v = take_snapshot_view [OF t] and d = countsD [OF counts_snapshot s t]
  from keepsD [OF keeps_take_snapshot s t] have q: "sound E R q" .
  show "day_count p' = day_count p"
  proof (cases x)
    case (Inl e)
    with r t d show ?thesis by (simp add: seq_def)
  next
    case (Inr snap)
    with r t have g: "g snap (q, c1) = ((p', c'), r)" by (simp add: seq_def)
    from v Inr have "snap_portfolio snap = st_portfolio (pl_store q)" "snap_risk snap = st_risk (pl_store q)"
      by (simp_all add: same_view_def)
    from assms [OF q this g] d show ?thesis by simp
  qed
qed

lemma traded_count:
  assumes "same_view t (run_bodies trs (pl_store p))" "\<forall>tr \<in> set trs. trading tr"
  shows "day_count (p\<lparr>pl_exec := st, pl_store := t, pl_tick := k\<rparr>) = day_count p"
  using assms(1) run_trading [OF assms(2)] by (simp add: day_count_def same_view_def)

lemma counts_bar_evaluation:
  assumes "env_distinct E" "rt_exec R = Some X"
  shows "counts E R (seq (take_snapshot E R) (\<lambda>snap. bar_evaluation E X snap so inc))"
proof (rule counts_snapshot_then)
  fix p c p' c' r snap
  assume s: "sound E R p" "snap_portfolio snap = st_portfolio (pl_store p)"
    and r: "bar_evaluation E X snap so inc (p, c) = ((p', c'), r)"
  show "day_count p' = day_count p"
    by (rule bar_evaluation_result [OF s(1) assms s(2), of c so inc]) (use r traded_count in auto)
qed

lemma counts_execute:
  assumes "env_distinct E" "rt_exec R = Some X"
  shows "counts E R (seq (take_snapshot E R) (execute_decision E X d))"
proof (rule counts_snapshot_then)
  fix p c p' c' r snap
  assume s: "sound E R p" "snap_portfolio snap = st_portfolio (pl_store p)" "snap_risk snap = st_risk (pl_store p)"
    and r: "execute_decision E X d snap (p, c) = ((p', c'), r)"
  show "day_count p' = day_count p"
    by (rule execute_decision_result [OF s(1) assms s(2,3), of c d]) (use r traded_count in auto)
qed

lemma counts_pre:
  assumes "env_distinct E"
  shows "counts E R (pre_decision_evaluate E R)"
  using counts_bar_evaluation [OF assms] counts_return
  by (auto simp: pre_decision_evaluate_def split: option.split)

lemma counts_candle: "counts E R (emit_candle_received E R)"
  by (rule countsI) (auto simp: emit_candle_received_def dest: countsD [OF counts_emit])

lemma counts_features: "counts E R (features_phase E R)"
  by (rule countsI)
    (auto simp: features_phase_def Let_def seq_def raise_def return_def day_count_def
      split: sum.splits prod.splits if_splits dest!: emit_frame)

lemma counts_collect: "counts E R (collect_signals E R fs ctx pvs)"
proof (induction pvs)
  case (Cons pv pvs)
  then show ?case
    by (auto intro!: counts_seq counts_emit counts_return keeps_emit keeps_collect split: sum.split)
next
  case Nil
  show ?case unfolding collect_signals.simps by (rule counts_return)
qed

lemma counts_decision_events: "counts E R (decision_events E R snap d)"
  unfolding decision_events_def
  by (intro counts_seq) (auto intro!: counts_emit counts_return keeps_emit split: option.split)

lemma counts_signal_exit:
  assumes "env_distinct E" "rt_exec R = Some X"
  shows "counts E R (signal_exit E R X d)"
proof (rule countsI)
  fix p c p' c' r assume s: "sound E R p" and r: "signal_exit E R X d (p, c) = ((p', c'), r)"
  show "day_count p' = day_count p"
  proof (cases "\<exists>pf fs. get_portfolio (rt_portfolio_id R) (pl_store p) = Inr pf \<and> dec_final_signal d = Some fs
      \<and> open_positions pf \<noteq> []")
    case True
    then obtain pf fs where "get_portfolio (rt_portfolio_id R) (pl_store p) = Inr pf" "dec_final_signal d = Some fs"
      "open_positions pf \<noteq> []" by blast
    with r have "seq (take_snapshot E R) (\<lambda>snap. bar_evaluation E X snap (Some (fin_side fs)) False) (p, c) = ((p', c'), r)"
      by (simp add: signal_exit_def)
    with s show ?thesis by (rule countsD [OF counts_bar_evaluation [OF assms]])
  next
    case False
    with r show ?thesis by (auto simp: signal_exit_def split: sum.splits option.splits if_splits)
  qed
qed

lemma counts_same_bar:
  assumes "env_distinct E"
  shows "counts E R (same_bar_exit_and_execute E R d)"
  by (auto simp: same_bar_exit_and_execute_def split: option.split if_splits
      intro!: counts_seq counts_signal_exit counts_execute keeps_signal_exit counts_return assms)

lemma counts_publish: "counts E R (publish_events R)"
  by (rule countsI) (auto simp: publish_events_def Let_def day_count_def split: prod.splits)

lemma counts_mark: "counts E R (mark_to_market_phase E R)"
proof (rule countsI)
  fix p c p' c' r assume s: "sound E R p" and r: "mark_to_market_phase E R (p, c) = ((p', c'), r)"
  then have pf: "get_portfolio (rt_portfolio_id R) (pl_store p) = Inr (st_portfolio (pl_store p))"
    by (simp add: get_portfolio_def assert_portfolio_def sound_def)
  from sound_tick [OF s, of "Suc (pl_tick p)"] have s': "sound E R (p\<lparr>pl_tick := Suc (pl_tick p)\<rparr>)" by simp
  show "day_count p' = day_count p"
  proof (cases "book (pl_store p) = []")
    case True
    with r pf show ?thesis by (simp add: mark_to_market_phase_def)
  next
    case False
    let ?tr = "\<lparr>transition_id = fresh_id E ''trans_'' (pl_tick p), tr_portfolio_id = rt_portfolio_id R,
      tr_body = Mark_to_market [cy_symbol c \<mapsto> bar_close (cy_bar c)],
      tr_event_time = cy_event_time c, tr_correlation_id = cy_id c\<rparr>"
    from r pf False have "apply_each E [?tr] (p\<lparr>pl_tick := Suc (pl_tick p)\<rparr>, c) = ((p', c'), r)"
      by (simp add: mark_to_market_phase_def del: apply_each.simps)
    with apply_quiet [OF s', of ?tr c] show ?thesis
      by (auto simp: day_count_def same_view_def simp del: apply_each.simps)
  qed
qed


subsection \<open>The phases that change it\<close>

lemma reset_result:
  assumes "sound E R p" "maybe_reset_daily_risk E R (p, c) = ((p', c'), r)"
  shows "pl_signals_day p' = Some (date_of (cy_event_time c))
    \<and> (if pl_signals_day p \<in> {None, Some (date_of (cy_event_time c))}
       then st_risk (pl_store p') = st_risk (pl_store p)
       else signals_today (st_risk (pl_store p')) = 0 \<and> daily_pnl (st_risk (pl_store p')) = 0
          \<and> daily_start_equity (st_risk (pl_store p')) = equity (st_portfolio (pl_store p)))
    \<and> st_portfolio (pl_store p') = st_portfolio (pl_store p)"
proof -
  let ?today = "date_of (cy_event_time c)" and ?s = "pl_store p"
  from assms(1) have g: "get_portfolio (rt_portfolio_id R) ?s = Inr (st_portfolio ?s)"
    "get_risk (rt_portfolio_id R) ?s = Inr (st_risk ?s)"
    by (simp_all add: get_portfolio_def get_risk_def assert_portfolio_def sound_def)
  show ?thesis
  proof (cases "pl_signals_day p = None \<or> pl_signals_day p = Some ?today
      \<or> (signals_today (st_risk ?s) = 0 \<and> daily_pnl (st_risk ?s) = 0 \<and> daily_drawdown_pct (st_risk ?s) = 0
          \<and> daily_start_equity (st_risk ?s) = equity (st_portfolio ?s))")
    case True
    then have "maybe_reset_daily_risk E R (p, c) = ((p\<lparr>pl_signals_day := Some ?today\<rparr>, c), Inr ())"
      by (auto simp: maybe_reset_daily_risk_def Let_def g split: option.split)
    with assms(2) True show ?thesis by auto
  next
    case False
    let ?p = "p\<lparr>pl_signals_day := Some ?today, pl_tick := Suc (pl_tick p)\<rparr>"
    let ?tr = "\<lparr>transition_id = fresh_id E ''trans_'' (pl_tick p), tr_portfolio_id = rt_portfolio_id R,
      tr_body = Risk_updated (reset_updates (equity (st_portfolio ?s))),
      tr_event_time = cy_event_time c, tr_correlation_id = cy_id c\<rparr>"
    from False obtain d where d: "pl_signals_day p = Some d" "?today \<noteq> d" by auto
    have neg: "\<not> (signals_today (st_risk ?s) = 0 \<and> daily_pnl (st_risk ?s) = 0 \<and> daily_drawdown_pct (st_risk ?s) = 0
          \<and> daily_start_equity (st_risk ?s) = equity (st_portfolio ?s))" using False by blast
    from assms(2) have "apply_each E [?tr] (?p, c) = ((p', c'), r)"
      by (simp add: maybe_reset_daily_risk_def Let_def d g neg del: apply_each.simps de_Morgan_conj)
    moreover have "sound E R ?p" using sound_tick [OF sound_day [OF assms(1)], where n = "Suc (pl_tick p)"] by simp
    then obtain t where "p' = ?p\<lparr>pl_store := t, pl_tick := pl_tick ?p + 2\<rparr>"
      "same_view t (apply_body (tr_body ?tr) (tr_event_time ?tr) (pl_store p))"
      using apply_quiet [of E R ?p ?tr c] calculation by (auto simp del: apply_each.simps)
    with d show ?thesis by (simp add: same_view_def apply_risk_updated_def reset_updates_def Let_def)
  qed
qed

lemma count_signal_result:
  assumes "sound E R p" "count_signal E R snap d (p, c) = ((p', c'), r)"
  shows "pl_signals_day p' = pl_signals_day p \<and> r = Inr d
    \<and> signals_today (st_risk (pl_store p')) =
        (if is_approved d then signals_today (snap_risk snap) + 1 else signals_today (st_risk (pl_store p)))"
proof (cases "is_approved d")
  case True
  let ?q = "p\<lparr>pl_tick := Suc (pl_tick p)\<rparr>"
  let ?tr = "\<lparr>transition_id = fresh_id E ''trans_'' (pl_tick p), tr_portfolio_id = rt_portfolio_id R,
    tr_body = Risk_updated [RU_signals_today (signals_today (snap_risk snap) + 1)],
    tr_event_time = cy_event_time c, tr_correlation_id = cy_id c\<rparr>"
  from assms(1) have "sound E R ?q" by (rule sound_tick) simp
  from apply_quiet [OF this, of ?tr c] obtain t where
    "apply_each E [?tr] (?q, c) = ((?q\<lparr>pl_store := t, pl_tick := pl_tick ?q + 2\<rparr>, c), Inr ())"
    "same_view t (apply_body (tr_body ?tr) (tr_event_time ?tr) (pl_store p))" by auto
  with assms(2) True show ?thesis
    by (auto simp: count_signal_def seq_def same_view_def apply_risk_updated_def Let_def simp del: apply_each.simps)
qed (use assms in \<open>simp add: count_signal_def\<close>)

lemma decide_result:
  fixes R :: "('p, 'w) runtime" and p :: "'w platform"
  assumes "sound E R p" "decide E R sigs ctx snap (p, c) = ((p', c'), r)"
  shows "pl_signals_day p' = pl_signals_day p
    \<and> (case r of Inr d \<Rightarrow> signals_today (st_risk (pl_store p')) =
          (if is_approved d then signals_today (snap_risk snap) + 1 else signals_today (st_risk (pl_store p)))
        | Inl e \<Rightarrow> signals_today (st_risk (pl_store p')) = signals_today (st_risk (pl_store p)))"
proof -
  let ?m = "\<lparr>dm_correlation_id = cy_id c, dm_event_time = cy_event_time c,
             dm_decision_time = cy_processing_time c, dm_revision_id = cy_revision_id c,
             dm_experiment_id = cy_experiment_id c\<rparr>"
  show ?thesis
  proof (cases "process E (rt_engine R) sigs ctx snap ?m (pl_tick p)")
    case (Inl e)
    with assms(2) show ?thesis by (auto simp: decide_split)
  next
    case (Inr dn)
    obtain d n where dn: "dn = (d, n)" by (cases dn)
    from Inr dn build_final_tick have "pl_tick p \<le> n" by blast
    with assms(1) have s: "sound E R (p\<lparr>pl_tick := n\<rparr>)" by (rule sound_tick)
    obtain q c1 x where ev: "decision_events E R snap d (p\<lparr>pl_tick := n\<rparr>, c) = ((q, c1), x)" by (metis prod.exhaust)
    from countsD [OF counts_decision_events s ev] have q: "signals_today (st_risk (pl_store q)) = signals_today (st_risk (pl_store p))"
      "pl_signals_day q = pl_signals_day p" by (simp_all add: day_count_def)
    have sq: "sound E R q" by (rule keepsD [OF keeps_decision_events s ev])
    from assms(2) have r: "seq (decision_events E R snap d) (\<lambda>_. count_signal E R snap d) (p\<lparr>pl_tick := n\<rparr>, c) = ((p', c'), r)"
      by (simp add: decide_split Inr dn)
    show ?thesis
    proof (cases x)
      case (Inl e)
      with r ev q show ?thesis by (auto simp: seq_def)
    next
      case (Inr y)
      with r ev have "count_signal E R snap d (q, c1) = ((p', c'), r)" by (simp add: seq_def)
      from count_signal_result [OF sq this] q show ?thesis by simp
    qed
  qed
qed

lemma mark_risk:
  assumes "sound E R p" "mark_to_market_phase E R (p, c) = ((p', c'), r)"
  shows "daily_pnl (st_risk (pl_store p')) = daily_pnl (st_risk (pl_store p))"
proof -
  from assms have pf: "get_portfolio (rt_portfolio_id R) (pl_store p) = Inr (st_portfolio (pl_store p))"
    by (simp add: get_portfolio_def assert_portfolio_def sound_def)
  from sound_tick [OF assms(1), of "Suc (pl_tick p)"] have s': "sound E R (p\<lparr>pl_tick := Suc (pl_tick p)\<rparr>)" by simp
  show ?thesis
  proof (cases "book (pl_store p) = []")
    case True
    with assms(2) pf show ?thesis by (simp add: mark_to_market_phase_def)
  next
    case False
    let ?tr = "\<lparr>transition_id = fresh_id E ''trans_'' (pl_tick p), tr_portfolio_id = rt_portfolio_id R,
      tr_body = Mark_to_market [cy_symbol c \<mapsto> bar_close (cy_bar c)],
      tr_event_time = cy_event_time c, tr_correlation_id = cy_id c\<rparr>"
    from assms(2) pf False have "apply_each E [?tr] (p\<lparr>pl_tick := Suc (pl_tick p)\<rparr>, c) = ((p', c'), r)"
      by (simp add: mark_to_market_phase_def del: apply_each.simps)
    with apply_quiet [OF s', of ?tr c] show ?thesis
      by (auto simp: same_view_def simp del: apply_each.simps)
  qed
qed


subsection \<open>The count never passes the limit\<close>

definition capped :: "int \<Rightarrow> 'w platform \<Rightarrow> bool" where
  "capped m p \<longleftrightarrow> 0 \<le> signals_today (st_risk (pl_store p)) \<and> signals_today (st_risk (pl_store p)) \<le> m"

definition caps :: "env \<Rightarrow> ('p, 'w) runtime \<Rightarrow> ('a \<Rightarrow> bool) \<Rightarrow> ('w running, 'a) phase \<Rightarrow> bool" where
  "caps E R Q f \<longleftrightarrow> (\<forall>p c p' c' r. sound E R p \<and> capped (max_signals_per_day (ec_risk (rt_engine R))) p
     \<longrightarrow> f (p, c) = ((p', c'), r)
     \<longrightarrow> capped (max_signals_per_day (ec_risk (rt_engine R))) p' \<and> (\<forall>x. r = Inr x \<longrightarrow> Q x))"

lemma capsI:
  "(\<And>p c p' c' r. sound E R p \<Longrightarrow> capped (max_signals_per_day (ec_risk (rt_engine R))) p
     \<Longrightarrow> f (p, c) = ((p', c'), r)
     \<Longrightarrow> capped (max_signals_per_day (ec_risk (rt_engine R))) p' \<and> (\<forall>x. r = Inr x \<longrightarrow> Q x)) \<Longrightarrow> caps E R Q f"
  unfolding caps_def by blast

lemma capsD:
  "caps E R Q f \<Longrightarrow> sound E R p \<Longrightarrow> capped (max_signals_per_day (ec_risk (rt_engine R))) p \<Longrightarrow> f (p, c) = ((p', c'), r)
   \<Longrightarrow> capped (max_signals_per_day (ec_risk (rt_engine R))) p' \<and> (\<forall>x. r = Inr x \<longrightarrow> Q x)"
  unfolding caps_def by blast

lemma caps_seq:
  assumes "caps E R Q f" "keeps E R f" "\<And>x. Q x \<Longrightarrow> caps E R P (g x)"
  shows "caps E R P (seq f g)"
proof (rule capsI)
  fix p c p' c' r
  let ?m = "max_signals_per_day (ec_risk (rt_engine R))"
  assume s: "sound E R p" "capped ?m p" and r: "seq f g (p, c) = ((p', c'), r)"
  obtain q d x where f: "f (p, c) = ((q, d), x)" by (metis prod.exhaust)
  note 1 = capsD [OF assms(1) s f] and q = keepsD [OF assms(2) s(1) f]
  show "capped ?m p' \<and> (\<forall>y. r = Inr y \<longrightarrow> P y)"
  proof (cases x)
    case (Inl e)
    with r f 1 show ?thesis by (auto simp: seq_def)
  next
    case (Inr y)
    with r f have "g y (q, d) = ((p', c'), r)" by (simp add: seq_def)
    with 1 Inr assms(3) q show ?thesis by (blast dest: capsD)
  qed
qed

lemma caps_counts: "counts E R f \<Longrightarrow> caps E R (\<lambda>_. True) f"
  by (rule capsI) (auto simp: capped_def day_count_def dest!: countsD)

lemma caps_reset: "caps E R (\<lambda>_. True) (maybe_reset_daily_risk E R)"
  by (rule capsI) (drule reset_result, assumption, auto simp: capped_def split: if_splits)

lemma caps_snapshot: "caps E R (\<lambda>snap. 0 \<le> signals_today (snap_risk snap)) (take_snapshot E R)"
proof (rule capsI)
  fix p c p' c' r
  let ?m = "max_signals_per_day (ec_risk (rt_engine R))"
  assume "sound E R p" "capped ?m p" and r: "take_snapshot E R (p, c) = ((p', c'), r)"
  with take_snapshot_view [OF r]
  show "capped ?m p' \<and> (\<forall>x. r = Inr x \<longrightarrow> 0 \<le> signals_today (snap_risk x))"
    by (auto simp: capped_def same_view_def)
qed

lemma approved_below_limit:
  assumes "process E cfg sigs ctx snap m n = Inr (d, k)" "is_approved d"
  shows "signals_today (snap_risk snap) < max_signals_per_day (ec_risk cfg)"
  using assms(1)
  by (cases rule: process_cases) (use assms(2) in \<open>simp_all add: is_approved_def risk_evaluate_passes_iff\<close>)

lemma caps_decide:
  assumes "0 \<le> signals_today (snap_risk snap)"
  shows "caps E R (\<lambda>_. True) (decide E R sigs ctx snap)"
proof (rule capsI)
  fix p c p' c' r
  let ?m = "max_signals_per_day (ec_risk (rt_engine R))"
  assume s: "sound E R p" "capped ?m p" and r: "decide E R sigs ctx snap (p, c) = ((p', c'), r)"
  note res = decide_result [OF s(1) r]
  show "capped ?m p' \<and> (\<forall>x. r = Inr x \<longrightarrow> True)"
  proof (cases r)
    case (Inl e)
    with res s(2) show ?thesis by (simp add: capped_def)
  next
    case (Inr d)
    from decide_decision [OF r [unfolded Inr]] have "is_approved d \<Longrightarrow> signals_today (snap_risk snap) < ?m"
      using approved_below_limit by blast
    with Inr res s(2) assms show ?thesis by (auto simp: capped_def split: if_splits)
  qed
qed

lemma caps_prod: "(\<And>a b. caps E R P (f a b)) \<Longrightarrow> caps E R P (case x of (a, b) \<Rightarrow> f a b)"
  by (cases x) simp

lemma caps_cycle_body:
  assumes "env_distinct E"
  shows "caps E R (\<lambda>_. True) (cycle_body E R)"
  unfolding cycle_body_def
  by (intro caps_seq [OF caps_counts [OF counts_pre [OF assms]] keeps_pre_decision [OF assms]]
      caps_seq [OF caps_counts [OF counts_candle] keeps_candle]
      caps_seq [OF caps_counts [OF counts_features] keeps_features] caps_prod
      caps_seq [OF caps_reset keeps_reset] caps_seq [OF caps_counts [OF counts_mark] keeps_mark]
      caps_seq [OF caps_snapshot keeps_take_snapshot]
      caps_seq [OF caps_counts [OF counts_collect] keeps_collect]
      caps_seq [OF caps_decide keeps_decide] caps_seq [OF caps_counts [OF counts_same_bar [OF assms]] keeps_same_bar [OF assms]]
      caps_seq [OF caps_counts [OF counts_publish] keeps_publish]) (auto simp: caps_def)

lemma run_cycle_capped:
  assumes "sound E R p" "env_distinct E" "market_data (rt_latest R)" "run_cycle E R a p = (q, r)"
    and "capped (max_signals_per_day (ec_risk (rt_engine R))) p"
  shows "capped (max_signals_per_day (ec_risk (rt_engine R))) q"
proof -
  let ?m = "max_signals_per_day (ec_risk (rt_engine R))"
  obtain p1 r1 where pb: "prepare_bar E R a p = (p1, r1)" by fastforce
  from pb assms(3) have p1: "sound E R p1 \<and> capped ?m p1"
    by (cases rule: prepare_bar_E) (use assms(1,5) in \<open>auto simp: capped_def intro: sound_frame\<close>)
  show ?thesis
  proof (cases r1)
    case (Inl e)
    with pb assms(4) p1 show ?thesis by (simp add: run_cycle_def)
  next
    case (Inr c)
    obtain p2 c2 r2 where b: "cycle_body E R (p1, c) = ((p2, c2), r2)" by (metis prod.exhaust)
    with capsD [OF caps_cycle_body [OF assms(2)] _ _ b] p1 pb Inr assms(4) show ?thesis
      by (simp add: run_cycle_def)
  qed
qed

text \<open>C13: the daily signal limit is never passed. In every platform that cycles can reach from
  a new one, failing cycles included, the number of signals counted for the day is between
  zero and the engine's \<open>max_signals_per_day\<close>.\<close>

theorem daily_signal_limit_holds:
  assumes "init_store E (rt_portfolio_id R) md initial_cash lims m = (s, n)"
    and "0 \<le> lim_max_open_positions (case lims of None \<Rightarrow> default_limits | Some l \<Rightarrow> l)"
    and "env_distinct E" and "market_data (rt_latest R)" and "engine_config_valid (rt_engine R)"
    and "reachable E R (new_platform s c w n) q"
  shows "0 \<le> signals_today (st_risk (pl_store q))
    \<and> signals_today (st_risk (pl_store q)) \<le> max_signals_per_day (ec_risk (rt_engine R))"
proof -
  let ?m = "max_signals_per_day (ec_risk (rt_engine R))"
  note start = new_platform_sound [OF assms(1,2)]
  have zero: "capped ?m (new_platform s c w n)"
    using assms(1,5) by (auto simp: capped_def new_platform_def init_store_def Let_def engine_config_valid_def
        risk_config_valid_def)
  from assms(6) have "sound E R q \<and> capped ?m q"
  proof (induction rule: reachable.induct)
    case start
    show ?case using new_platform_sound [OF assms(1,2)] zero by blast
  next
    case (cycle x a y r)
    then show ?case using run_cycle_sound run_cycle_capped assms(3,4) by blast
  qed
  then show ?thesis by (simp add: capped_def)
qed


subsection \<open>The first bar of a new day\<close>

lemma counted: "counts E R f \<Longrightarrow> sound E R (fst s) \<Longrightarrow> f s = (s', r) \<Longrightarrow> day_count (fst s') = day_count (fst s)"
  by (metis prod.collapse countsD)

lemma kept: "keeps E R f \<Longrightarrow> f s = (s', r) \<Longrightarrow> sound E R (fst s) \<Longrightarrow> sound E R (fst s')"
  by (metis prod.collapse keepsD)

text \<open>The day's count is exact. The first cycle, and every cycle on a bar of the day last
  seen, goes on counting from the store; a cycle whose bar is of another day starts from
  zero, and its decision sees no realised loss of the day, whatever was closed on that same
  bar before it. The decision's snapshot shows that count, and when the cycle returns the
  store holds it, plus one if the decision was an approval.\<close>

theorem daily_count_exact:
  assumes "sound E R p" and "env_distinct E" and "market_data (rt_latest R)"
    and "run_cycle E R a p = (q, Inr res)"
    and "today = date_of (dec_event_time (cr_decision res))"
    and "before = (if pl_signals_day p \<in> {None, Some today} then signals_today (st_risk (pl_store p)) else 0)"
  shows "signals_today (snap_risk (cr_snapshot res)) = before
    \<and> signals_today (st_risk (pl_store q)) = (if is_approved (cr_decision res) then before + 1 else before)
    \<and> pl_signals_day q = Some today
    \<and> (pl_signals_day p \<in> {None, Some today} \<or> daily_pnl (snap_risk (cr_snapshot res)) = 0)"
proof -
  from run_cycle_Inr [OF assms(4,3)] obtain c n p1 c2 where
    c: "p1 = p\<lparr>pl_clock := set_event_time (cy_event_time c) (pl_clock p), pl_tick := n\<rparr>" "pl_tick p \<le> n"
    and body: "cycle_body E R (p1, c) = ((q, c2), Inr res)" by metis
  from assms(1) c have s0: "sound E R p1" by (auto intro: sound_frame)
  have d0: "day_count p1 = day_count p" by (simp add: c day_count_def)
  from cycle_decision_time [OF body] assms(5) have today: "today = date_of (cy_event_time c)" by simp
  from body show ?thesis
  proof (cases rule: cycle_body_E)
    case (1 s1 s2 s3 s4 s5 s6 s7 s8 s9 fs mc snap sigs d)
    have S1: "sound E R (fst s1)" using kept [OF keeps_pre_decision [OF assms(2)] 1(1)] s0 by simp
    have S2: "sound E R (fst s2)" by (rule kept [OF keeps_candle 1(2) S1])
    have S3: "sound E R (fst s3)" by (rule kept [OF keeps_features 1(3) S2])
    have S4: "sound E R (fst s4)" by (rule kept [OF keeps_reset 1(4) S3])
    have S5: "sound E R (fst s5)" by (rule kept [OF keeps_mark 1(5) S4])
    have S6: "sound E R (fst s6)" by (rule kept [OF keeps_take_snapshot 1(6) S5])
    have S7: "sound E R (fst s7)" by (rule kept [OF keeps_collect 1(7) S6])
    have S8: "sound E R (fst s8)" by (rule kept [OF keeps_decide 1(8) S7])
    have S9: "sound E R (fst s9)" by (rule kept [OF keeps_same_bar [OF assms(2)] 1(9) S8])
    have D1: "day_count (fst s3) = day_count p"
      using counted [OF counts_pre [OF assms(2)] _ 1(1)] counted [OF counts_candle S1 1(2)]
        counted [OF counts_features S2 1(3)] s0 d0 by simp
    have D2: "day_count (fst s5) = day_count (fst s4)" by (rule counted [OF counts_mark S4 1(5)])
    have D3: "day_count (fst s7) = day_count (fst s5)"
      using counted [OF counts_snapshot S5 1(6)] counted [OF counts_collect S6 1(7)] by simp
    have D4: "day_count q = day_count (fst s8)"
      using counted [OF counts_same_bar [OF assms(2)] S8 1(9)] counted [OF counts_publish S9 1(10)] by simp
    have core: "cycle_core (snd s3) = cycle_core c"
      using steady_state [OF steady_pre 1(1)] steady_state [OF steady_candle 1(2)]
        steady_state [OF steady_features 1(3)] by simp
    then have t3: "cy_event_time (snd s3) = cy_event_time c" using core_eq by blast
    have "maybe_reset_daily_risk E R (fst s3, snd s3) = ((fst s4, snd s4), Inr ())" using 1(4) by simp
    note reset = reset_result [OF S3 this, unfolded t3 today [symmetric]]
    have mark: "daily_pnl (st_risk (pl_store (fst s5))) = daily_pnl (st_risk (pl_store (fst s4)))"
      using mark_risk [OF S4, of "snd s4" "fst s5" "snd s5"] 1(5) by simp
    have "take_snapshot E R (fst s5, snd s5) = ((fst s6, snd s6), Inr snap)" using 1(6) by simp
    from take_snapshot_view [OF this] have snap: "snap_risk snap = st_risk (pl_store (fst s5))" by simp
    have "decide E R sigs mc snap (fst s7, snd s7) = ((fst s8, snd s8), Inr d)" using 1(8) by simp
    note dec = decide_result [OF S7 this]
    have before: "signals_today (st_risk (pl_store (fst s4))) = before"
      using reset D1 assms(6) by (auto simp: day_count_def)
    have "signals_today (snap_risk snap) = before" using snap before D2 by (simp add: day_count_def)
    moreover have "signals_today (st_risk (pl_store q)) = (if is_approved d then before + 1 else before)"
      using dec D2 D3 D4 before calculation by (simp add: day_count_def)
    moreover have "pl_signals_day q = Some today" using D2 D3 D4 dec reset by (simp add: day_count_def)
    moreover have "pl_signals_day p \<in> {None, Some today} \<or> daily_pnl (snap_risk snap) = 0"
      using reset snap mark D1 by (auto simp: day_count_def split: if_splits)
    ultimately show ?thesis using 1(11) by simp
  qed
qed

theorem daily_signal_limit_holds_witness:
  "\<exists>q. reachable unary_env demo_runtime demo_platform q \<and> pl_clock q \<noteq> pl_clock demo_platform
     \<and> signals_today (st_risk (pl_store q)) \<le> 10"
proof -
  obtain q res where r: "run_cycle unary_env demo_runtime demo_cycle_args demo_platform = (q, Inr res)"
    using cycle_total [OF demo_sound unary_env_distinct demo_market_data demo_cooperative] by blast
  then have re: "reachable unary_env demo_runtime demo_platform q"
    by (rule reachable.cycle [OF reachable.start])
  have lim: "0 \<le> lim_max_open_positions (case None of None \<Rightarrow> default_limits | Some l \<Rightarrow> l)"
    and cfg: "engine_config_valid (rt_engine demo_runtime)"
    and m: "max_signals_per_day (ec_risk (rt_engine demo_runtime)) = 10"
    by (simp_all add: default_limits_def demo_runtime_def) (simp add: demo_engine_config_def)
  from daily_signal_limit_holds [OF demo_init lim unary_env_distinct demo_market_data cfg re [unfolded demo_platform_def]] m
  have "signals_today (st_risk (pl_store q)) \<le> 10" by simp
  moreover from run_cycle_Inr [OF r demo_market_data] obtain c n p1 c2 where
    "p1 = demo_platform\<lparr>pl_clock := set_event_time (cy_event_time c) (pl_clock demo_platform), pl_tick := n\<rparr>"
    "cycle_body unary_env demo_runtime (p1, c) = ((q, c2), Inr res)" by metis
  then have "pl_clock q \<noteq> pl_clock demo_platform"
    using steadyD [OF steady_cycle_body] by (fastforce simp: demo_platform_def new_platform_def set_event_time_def)
  ultimately show ?thesis using re by blast
qed

theorem daily_count_exact_witness:
  "\<exists>q res. run_cycle unary_env demo_runtime demo_cycle_args (demo_platform\<lparr>pl_signals_day := Some 7\<rparr>) = (q, Inr res)
     \<and> signals_today (snap_risk (cr_snapshot res)) = 0"
proof -
  let ?p = "demo_platform\<lparr>pl_signals_day := Some 7\<rparr>"
  have s: "sound unary_env demo_runtime ?p" by (rule sound_day [OF demo_sound])
  obtain q res where r: "run_cycle unary_env demo_runtime demo_cycle_args ?p = (q, Inr res)"
    using cycle_total [OF s unary_env_distinct demo_market_data demo_cooperative] by blast
  have "signals_today (st_risk (pl_store ?p)) = 0"
    by (simp add: demo_platform_def new_platform_def init_store_def Let_def)
  with daily_count_exact [OF s unary_env_distinct demo_market_data r refl refl] r show ?thesis
    by (auto split: if_splits)
qed

end
