(* ===== verification/StrategyBase.thy ===== *)
theory StrategyBase
  imports Contracts
begin

text \<open>
  \<^verbatim>\<open>backend/src/providers/base.py\<close> and what the strategies share: a provider's
  configuration, the construction of a signal, stops and targets at multiples of the ATR,
  the filters and the closing steps that several strategies repeat literally; and the
  contract of a strategy as a locale.

  The parameters of a provider, a YAML mapping, are kept by the type each key is read
  with: numbers, booleans, strings and lists of strings. The dashes of the summaries are
  the UTF-8 bytes of the source.
\<close>


subsection \<open>Configuration\<close>

record provider_params =
  par_nums :: "(string, real) dict"
  par_flags :: "(string, bool) dict"
  par_texts :: "(string, string) dict"
  par_lists :: "(string, string list) dict"

record provider_config =
  pc_provider_id :: string
  pc_version :: string
  pc_enabled :: bool
  pc_weight :: real
  pc_params :: provider_params

definition provider_config_valid :: "provider_config \<Rightarrow> bool" where
  "provider_config_valid cfg \<longleftrightarrow> 0 \<le> pc_weight cfg"

definition num_param :: "provider_config \<Rightarrow> string \<Rightarrow> real \<Rightarrow> real" where
  "num_param cfg k d = dict_get_or (par_nums (pc_params cfg)) k d"

definition flag_param :: "provider_config \<Rightarrow> string \<Rightarrow> bool \<Rightarrow> bool" where
  "flag_param cfg k d = dict_get_or (par_flags (pc_params cfg)) k d"

definition text_param :: "provider_config \<Rightarrow> string \<Rightarrow> string \<Rightarrow> string" where
  "text_param cfg k d = dict_get_or (par_texts (pc_params cfg)) k d"

definition list_param :: "provider_config \<Rightarrow> string \<Rightarrow> string list" where
  "list_param cfg k = dict_get_or (par_lists (pc_params cfg)) k []"

definition indicator :: "feature_set \<Rightarrow> string \<Rightarrow> real \<Rightarrow> real" where
  "indicator fs k d = dict_get_or (indicators fs) k d"


subsection \<open>Building a signal (BaseSignalProvider)\<close>

definition build_signal ::
  "provider_config \<Rightarrow> feature_set \<Rightarrow> market_context \<Rightarrow> side \<Rightarrow> real \<Rightarrow> provider_rationale
   \<Rightarrow> real option \<Rightarrow> real option \<Rightarrow> strategy_signal result" where
  "build_signal cfg fs ctx sd conf rat sl tp = mk_strategy_signal
     \<lparr>provider_id = pc_provider_id cfg, sig_symbol = fs_symbol fs, sig_side = sd, sig_confidence = conf,
      sig_rationale = rat, sig_feature_set_id = feature_set_id fs, sig_entry_price = Some (current_price ctx),
      sig_stop_loss = sl, sig_take_profit = tp, sig_timeframe = fs_timeframe fs,
      sig_event_time = fs_event_time fs, sig_valid_until = None\<rparr>"

definition atr_stops ::
  "provider_config \<Rightarrow> market_context \<Rightarrow> side \<Rightarrow> real option \<Rightarrow> real option \<Rightarrow> real \<times> real" where
  "atr_stops cfg ctx sd sl_atr_mult tp_atr_mult =
     (let sl_mult = (case sl_atr_mult of Some m \<Rightarrow> m | None \<Rightarrow> num_param cfg ''sl_atr_mult'' (3/2));
          tp_mult = (case tp_atr_mult of Some m \<Rightarrow> m | None \<Rightarrow> num_param cfg ''tp_atr_mult'' 3);
          price = current_price ctx
      in if sd = BUY then (price - sl_mult * atr ctx, price + tp_mult * atr ctx)
         else (price + sl_mult * atr ctx, price - tp_mult * atr ctx))"

definition mk_rationale ::
  "provider_config \<Rightarrow> rich_text \<Rightarrow> (string, real) dict \<Rightarrow> rationale_factor list \<Rightarrow> provider_rationale" where
  "mk_rationale cfg summary refs factors =
     \<lparr>rat_summary = summary, rat_factors = factors, rat_feature_refs = refs,
      rat_metadata = [(''weight'', pc_weight cfg)]\<rparr>"


subsection \<open>Steps the strategies repeat\<close>

definition em_dash :: string where "em_dash = [CHR 0xE2, CHR 0x80, CHR 0x94]"
definition en_dash :: string where "en_dash = [CHR 0xE2, CHR 0x80, CHR 0x93]"

definition dashed :: "string \<Rightarrow> text_part" where
  "dashed s = Lit ('' '' @ em_dash @ '' '' @ s)"

definition clamp :: "real \<Rightarrow> real \<Rightarrow> real \<Rightarrow> real" where
  "clamp v low high = max low (min high v)"

definition direction_of :: "side \<Rightarrow> direction" where
  "direction_of sd = (case sd of BUY \<Rightarrow> Bullish | SELL \<Rightarrow> Bearish | HOLD \<Rightarrow> Neutral)"

text \<open>\<^verbatim>\<open>if bullish and not bearish ... elif bearish and not bullish ... else\<close>.\<close>

definition choose_side :: "bool \<Rightarrow> bool \<Rightarrow> side" where
  "choose_side bullish bearish =
     (if bullish \<and> \<not> bearish then BUY else if bearish \<and> \<not> bullish then SELL else HOLD)"

text \<open>The trend filter: no trade against the context's trend.\<close>

definition against_trend :: "market_context \<Rightarrow> side \<Rightarrow> bool" where
  "against_trend ctx sd \<longleftrightarrow> sd = BUY \<and> mc_trend ctx = DOWN \<or> sd = SELL \<and> mc_trend ctx = UP"

definition trend_filter :: "bool \<Rightarrow> market_context \<Rightarrow> side \<times> rich_text \<Rightarrow> side \<times> rich_text" where
  "trend_filter require_trend ctx x =
     (case x of (sd, summary) \<Rightarrow>
        if require_trend \<and> against_trend ctx sd then (HOLD, summary @ [dashed ''trend filter''])
        else (sd, summary))"

text \<open>The volatility filter of the reversion strategies.\<close>

definition volatility_filter :: "bool \<Rightarrow> market_context \<Rightarrow> side \<times> rich_text \<Rightarrow> side \<times> rich_text" where
  "volatility_filter avoid_high_vol ctx x =
     (case x of (sd, summary) \<Rightarrow>
        if avoid_high_vol \<and> mc_volatility ctx = HIGH \<and> sd \<noteq> HOLD
        then (HOLD, summary @ [dashed ''high volatility filter'']) else (sd, summary))"

text \<open>The closing steps: a side that lost or lacks confidence becomes HOLD, anything else gets
  its stop and target.\<close>

definition finish_signal ::
  "provider_config \<Rightarrow> feature_set \<Rightarrow> market_context \<Rightarrow> real \<Rightarrow> real \<Rightarrow> (string, real) dict
   \<Rightarrow> rationale_factor list \<Rightarrow> side \<times> rich_text \<Rightarrow> strategy_signal result" where
  "finish_signal cfg fs ctx conf min_conf refs factors x =
     (case x of (sd, summary) \<Rightarrow>
        if sd = HOLD \<or> conf < min_conf then
          build_signal cfg fs ctx HOLD (if sd = HOLD then conf else min_conf - 1/100)
            (mk_rationale cfg (if sd = HOLD then summary else summary @ [dashed ''below min confidence'']) refs factors)
            None None
        else
          (case atr_stops cfg ctx sd None None of (sl, tp) \<Rightarrow>
             build_signal cfg fs ctx sd conf (mk_rationale cfg summary refs factors) (Some sl) (Some tp)))"


subsection \<open>The contract of a strategy\<close>

text \<open>What a signal says about the request it answers.\<close>

definition answers :: "provider_config \<Rightarrow> feature_set \<Rightarrow> market_context \<Rightarrow> strategy_signal \<Rightarrow> bool" where
  "answers cfg fs ctx s \<longleftrightarrow> provider_id s = pc_provider_id cfg \<and> sig_symbol s = fs_symbol fs
     \<and> sig_timeframe s = fs_timeframe fs \<and> sig_event_time s = fs_event_time fs
     \<and> sig_feature_set_id s = feature_set_id fs \<and> sig_entry_price s = Some (current_price ctx)
     \<and> rat_metadata (sig_rationale s) = [(''weight'', pc_weight cfg)]"

definition levels_from_atr :: "provider_config \<Rightarrow> market_context \<Rightarrow> strategy_signal \<Rightarrow> bool" where
  "levels_from_atr cfg ctx s \<longleftrightarrow>
     (sig_stop_loss s = None \<and> sig_take_profit s = None)
     \<or> sig_side s \<noteq> HOLD \<and> sig_stop_loss s = Some (fst (atr_stops cfg ctx (sig_side s) None None))
       \<and> sig_take_profit s = Some (snd (atr_stops cfg ctx (sig_side s) None None))"

locale strategy =
  fixes analyze :: "provider_config \<Rightarrow> feature_set \<Rightarrow> market_context \<Rightarrow> strategy_signal result"
    and threshold :: "provider_config \<Rightarrow> real"
    and accepts :: "provider_config \<Rightarrow> bool"
  assumes returns: "accepts cfg \<Longrightarrow> \<exists>s. analyze cfg fs ctx = Inr s"
    and valid: "analyze cfg fs ctx = Inr s \<Longrightarrow> strategy_signal_valid s"
    and answer: "analyze cfg fs ctx = Inr s \<Longrightarrow> answers cfg fs ctx s"
    and from_atr: "analyze cfg fs ctx = Inr s \<Longrightarrow> levels_from_atr cfg ctx s"
    and confident: "analyze cfg fs ctx = Inr s \<Longrightarrow> sig_side s \<noteq> HOLD \<Longrightarrow> threshold cfg \<le> sig_confidence s"
begin

lemma hold_has_no_levels:
  "analyze cfg fs ctx = Inr s \<Longrightarrow> sig_side s = HOLD \<Longrightarrow> sig_stop_loss s = None \<and> sig_take_profit s = None"
  using from_atr [of cfg fs ctx s] by (auto simp: levels_from_atr_def)

lemma contract:
  "analyze cfg fs ctx = Inr s \<Longrightarrow> strategy_signal_valid s \<and> answers cfg fs ctx s \<and> levels_from_atr cfg ctx s
    \<and> (sig_side s \<noteq> HOLD \<longrightarrow> threshold cfg \<le> sig_confidence s)"
  using valid answer from_atr confident by blast

lemma nothing_above_one: "analyze cfg fs ctx = Inr s \<Longrightarrow> 1 < threshold cfg \<Longrightarrow> sig_side s = HOLD"
  using confident [of cfg fs ctx s] valid [of cfg fs ctx s] by (auto simp: strategy_signal_valid_def)

end


subsection \<open>The shared steps meet the contract\<close>

lemma build_signal_Inr:
  "build_signal cfg fs ctx sd conf rat sl tp = Inr s \<longleftrightarrow>
     0 \<le> conf \<and> conf \<le> 1 \<and>
     s = \<lparr>provider_id = pc_provider_id cfg, sig_symbol = fs_symbol fs, sig_side = sd, sig_confidence = conf,
      sig_rationale = rat, sig_feature_set_id = feature_set_id fs, sig_entry_price = Some (current_price ctx),
      sig_stop_loss = sl, sig_take_profit = tp, sig_timeframe = fs_timeframe fs,
      sig_event_time = fs_event_time fs, sig_valid_until = None\<rparr>"
  by (auto simp: build_signal_def mk_strategy_signal_Inr strategy_signal_valid_def)

lemma built_valid: "build_signal cfg fs ctx sd conf rat sl tp = Inr s \<Longrightarrow> strategy_signal_valid s"
  by (auto simp: build_signal_Inr strategy_signal_valid_def)

lemma built_answers:
  "build_signal cfg fs ctx sd conf (mk_rationale cfg su re fa) sl tp = Inr s \<Longrightarrow> answers cfg fs ctx s"
  by (auto simp: build_signal_Inr answers_def mk_rationale_def)

lemma clamp_bounds: "low \<le> high \<Longrightarrow> low \<le> clamp v low high \<and> clamp v low high \<le> high"
  by (simp add: clamp_def)

text \<open>One statement for everything the closing steps can return.\<close>

lemma finished:
  assumes "finish_signal cfg fs ctx conf min_conf refs factors (sd, summary) = Inr s"
  shows "strategy_signal_valid s \<and> answers cfg fs ctx s \<and> levels_from_atr cfg ctx s
    \<and> (sig_side s \<noteq> HOLD \<longrightarrow> min_conf \<le> sig_confidence s \<and> sig_side s = sd \<and> sig_confidence s = conf)
    \<and> (sig_side s = HOLD \<longleftrightarrow> sd = HOLD \<or> conf < min_conf)
    \<and> rat_factors (sig_rationale s) = factors \<and> rat_feature_refs (sig_rationale s) = refs"
  using assms
  by (auto simp: finish_signal_def build_signal_Inr strategy_signal_valid_def answers_def mk_rationale_def
      levels_from_atr_def split: if_splits prod.splits)

lemma finish_returns:
  assumes "0 \<le> conf" "conf \<le> 1" "min_conf \<le> 101/100" "1/100 \<le> min_conf \<or> min_conf \<le> conf"
  shows "\<exists>s. finish_signal cfg fs ctx conf min_conf refs factors x = Inr s"
proof (cases x)
  case (Pair sd summary)
  show ?thesis
  proof (cases "sd = HOLD \<or> conf < min_conf")
    case True
    with assms Pair show ?thesis by (auto simp: finish_signal_def build_signal_Inr)
  next
    case False
    with assms Pair show ?thesis by (auto simp: finish_signal_def build_signal_Inr split: prod.split)
  qed
qed

lemma finish_contract:
  assumes "finish_signal cfg fs ctx conf min_conf refs factors x = Inr s"
  shows "strategy_signal_valid s" "answers cfg fs ctx s" "levels_from_atr cfg ctx s"
    "sig_side s \<noteq> HOLD \<Longrightarrow> min_conf \<le> sig_confidence s \<and> sig_side s = fst x \<and> sig_confidence s = conf"
    "sig_side s = HOLD \<longleftrightarrow> fst x = HOLD \<or> conf < min_conf"
  using finished [of cfg fs ctx conf min_conf refs factors "fst x" "snd x" s] assms by auto

text \<open>The acceptance condition the strategies with a clamped confidence share: a threshold
  above 1.01 would make a rejected signal's confidence exceed one.\<close>

definition threshold_ok :: "real \<Rightarrow> bool" where
  "threshold_ok m \<longleftrightarrow> m \<le> 101/100"

lemma clamped_returns:
  assumes "threshold_ok m" "1/2 \<le> conf" "conf \<le> 95/100"
  shows "\<exists>s. finish_signal cfg fs ctx conf m refs factors x = Inr s"
  by (rule finish_returns) (use assms in \<open>auto simp: threshold_ok_def\<close>)

end
