(* ===== verification/Strategies.thy ===== *)
theory Strategies
  imports StrategyBase
begin

text \<open>
  The nine strategies of \<^verbatim>\<open>backend/src/providers/\<close>, each with its confidence
  function and its \<^verbatim>\<open>analyze\<close>, and the interpretation of the strategy contract on
  each of them.
\<close>


subsection \<open>EMA crossover (ema_crossover.py)\<close>

definition ema_confidence :: "feature_set \<Rightarrow> market_context \<Rightarrow> bool \<Rightarrow> bool \<Rightarrow> real" where
  "ema_confidence fs ctx bullish bearish =
     (if \<not> bullish \<and> \<not> bearish then 1/2
      else
        (let ema_fast = indicator fs ''ema_12'' (current_price ctx);
             ema_slow = indicator fs ''ema_26'' (current_price ctx);
             spread_ratio = \<bar>ema_fast - ema_slow\<bar> / max (atr ctx) (1 / 10 ^ 9)
         in min (95/100) (max (55/100) (55/100 + 1/2 * spread_ratio))))"

definition ema_crossover ::
  "provider_config \<Rightarrow> feature_set \<Rightarrow> market_context \<Rightarrow> strategy_signal result" where
  "ema_crossover cfg fs ctx =
     (let bullish = dict_get_or (flags fs) ''ema_cross_bullish'' False;
          bearish = dict_get_or (flags fs) ''ema_cross_bearish'' False;
          min_confidence = num_param cfg ''min_confidence'' (6/10);
          require_trend = flag_param cfg ''require_trend'' True;
          crossed = choose_side bullish bearish;
          stopped = require_trend \<and> against_trend ctx crossed;
          sd = (if stopped then HOLD else crossed);
          confidence = (if stopped then 1/2 else ema_confidence fs ctx bullish bearish);
          refs = [(''ema_cross_bullish'', if bullish then 1 else 0), (''ema_cross_bearish'', if bearish then 1 else 0)]
      in if sd = HOLD \<or> confidence < min_confidence then
           build_signal cfg fs ctx HOLD (if sd = HOLD then confidence else min_confidence - 1/100)
             (mk_rationale cfg [Lit (if sd \<noteq> HOLD then ''EMA cross below min confidence'' else ''No EMA cross'')] refs
                [\<lparr>factor_name = ''ema_cross'', factor_weight = 1,
                  factor_direction = (if bullish then Bullish else if bearish then Bearish else Neutral),
                  factor_evidence = [Lit ''ema fast vs slow cross'']\<rparr>])
             None None
         else
           (case atr_stops cfg ctx sd None None of (sl, tp) \<Rightarrow>
              build_signal cfg fs ctx sd confidence
                (mk_rationale cfg [Lit (''EMA cross '' @ (if sd = BUY then ''buy'' else ''sell''))] refs
                   [\<lparr>factor_name = ''ema_cross'', factor_weight = 1,
                     factor_direction = (if sd = BUY then Bullish else Bearish),
                     factor_evidence = [Lit ''ema_12 vs ema_26 cross'']\<rparr>])
                (Some sl) (Some tp)))"


subsection \<open>RSI reversion (rsi_divergence.py)\<close>

definition rsi_confidence :: "real \<Rightarrow> real \<Rightarrow> real \<Rightarrow> side \<Rightarrow> real" where
  "rsi_confidence rsi oversold overbought sd =
     (if sd = HOLD then 1/2
      else
        (let distance = (if sd = BUY then max 0 (oversold - rsi) else max 0 (rsi - overbought))
         in min (95/100) (max (55/100) (55/100 + distance / 40))))"

definition rsi_divergence ::
  "provider_config \<Rightarrow> feature_set \<Rightarrow> market_context \<Rightarrow> strategy_signal result" where
  "rsi_divergence cfg fs ctx =
     (let rsi = indicator fs ''rsi_14'' 50;
          oversold = num_param cfg ''oversold'' 30;
          overbought = num_param cfg ''overbought'' 70;
          min_confidence = num_param cfg ''min_confidence'' (65/100);
          avoid_high_vol = flag_param cfg ''avoid_high_vol'' True;
          sd0 = (if rsi < oversold then BUY else if rsi > overbought then SELL else HOLD);
          summary0 = [Lit (if sd0 = BUY then ''RSI oversold ('' else if sd0 = SELL then ''RSI overbought (''
                           else ''RSI neutral (''), Fixed 1 rsi, Lit '')''];
          confidence = rsi_confidence rsi oversold overbought sd0;
          (sd1, summary1) = volatility_filter avoid_high_vol ctx (sd0, summary0);
          (sd, summary) = (if sd1 \<noteq> HOLD \<and> confidence < min_confidence
                           then (HOLD, summary1 @ [dashed ''below min confidence'']) else (sd1, summary1));
          rat = mk_rationale cfg summary [(''rsi_14'', rsi)]
            [\<lparr>factor_name = ''rsi_14'', factor_weight = 1, factor_direction = direction_of sd0,
              factor_evidence = [Lit ''rsi='', Fixed 1 rsi, Lit '', oversold='', Plain oversold,
                Lit '', overbought='', Plain overbought]\<rparr>]
      in if sd = HOLD then build_signal cfg fs ctx HOLD confidence rat None None
         else (case atr_stops cfg ctx sd None None of (sl, tp) \<Rightarrow>
                 build_signal cfg fs ctx sd confidence rat (Some sl) (Some tp)))"


subsection \<open>MACD momentum (macd_momentum.py)\<close>

definition macd_confidence :: "real \<Rightarrow> real \<Rightarrow> real \<Rightarrow> real" where
  "macd_confidence histogram slope a =
     clamp (55/100 + 35/100 * (\<bar>histogram\<bar> / max a (1 / 10 ^ 9)) + 1/2 * (\<bar>slope\<bar> / max a (1 / 10 ^ 9)))
       (55/100) (95/100)"

definition macd_momentum ::
  "provider_config \<Rightarrow> feature_set \<Rightarrow> market_context \<Rightarrow> strategy_signal result" where
  "macd_momentum cfg fs ctx =
     (let macd_line = indicator fs ''macd'' 0;
          macd_signal = indicator fs ''macd_signal'' 0;
          histogram = indicator fs ''macd_histogram'' 0;
          slope = indicator fs ''macd_histogram_slope'' 0;
          min_confidence = num_param cfg ''min_confidence'' (6/10);
          align = flag_param cfg ''require_signal_align'' True;
          min_slope = num_param cfg ''min_histogram_slope'' 0;
          require_trend = flag_param cfg ''require_trend'' False;
          bullish = (histogram > 0 \<and> slope > min_slope \<and> (align \<longrightarrow> macd_line > macd_signal));
          bearish = (histogram < 0 \<and> slope < - min_slope \<and> (align \<longrightarrow> macd_line < macd_signal));
          sd = choose_side bullish bearish;
          summary = [Lit (case sd of BUY \<Rightarrow> ''MACD histogram momentum bullish''
                       | SELL \<Rightarrow> ''MACD histogram momentum bearish'' | HOLD \<Rightarrow> ''No MACD momentum'')];
          confidence = macd_confidence histogram slope (atr ctx)
      in finish_signal cfg fs ctx confidence min_confidence
           [(''macd'', macd_line), (''macd_signal'', macd_signal), (''macd_histogram'', histogram),
            (''macd_histogram_slope'', slope)]
           [\<lparr>factor_name = ''macd_momentum'', factor_weight = 1, factor_direction = direction_of sd,
             factor_evidence = [Lit ''histogram='', Fixed 6 histogram, Lit '', slope='', Fixed 6 slope,
               Lit '', line='', Fixed 6 macd_line, Lit '', signal='', Fixed 6 macd_signal]\<rparr>]
           (trend_filter require_trend ctx (sd, summary)))"


subsection \<open>ADX trend strength (adx_trend_strength.py)\<close>

definition adx_confidence :: "real \<Rightarrow> real \<Rightarrow> real" where
  "adx_confidence adx di_spread =
     clamp (55/100 + 2/10 * (max 0 (adx - 20) / 40) + 15/100 * min (di_spread / 20) 1) (55/100) (95/100)"

text \<open>The regime of a context as the parameter lists spell it.\<close>

definition regime_name :: "market_context \<Rightarrow> string" where
  "regime_name ctx = trend_name (mc_trend ctx) @ ''_'' @ volatility_name (mc_volatility ctx)"

definition regime_filter :: "string list \<Rightarrow> market_context \<Rightarrow> side \<times> rich_text \<Rightarrow> side \<times> rich_text" where
  "regime_filter allowed ctx x =
     (case x of (sd, summary) \<Rightarrow>
        if allowed \<noteq> [] \<and> sd \<noteq> HOLD \<and> regime_name ctx \<notin> set allowed
        then (HOLD, summary @ [dashed (''regime filter ('' @ regime_name ctx @ '')'')]) else (sd, summary))"

definition adx_trend_strength ::
  "provider_config \<Rightarrow> feature_set \<Rightarrow> market_context \<Rightarrow> strategy_signal result" where
  "adx_trend_strength cfg fs ctx =
     (let adx = indicator fs ''adx_14'' 0;
          plus_di = indicator fs ''plus_di_14'' 0;
          minus_di = indicator fs ''minus_di_14'' 0;
          min_confidence = num_param cfg ''min_confidence'' (6/10);
          min_adx = num_param cfg ''min_adx'' 25;
          min_di_spread = num_param cfg ''min_di_spread'' 5;
          require_trend = flag_param cfg ''require_trend'' False;
          allowed = list_param cfg ''regime_filter'';
          di_spread = \<bar>plus_di - minus_di\<bar>;
          strong = (adx \<ge> min_adx \<and> di_spread \<ge> min_di_spread);
          sd = choose_side (strong \<and> plus_di > minus_di) (strong \<and> minus_di > plus_di);
          summary = [Lit (case sd of BUY \<Rightarrow> ''ADX trend strength bullish''
                       | SELL \<Rightarrow> ''ADX trend strength bearish''
                       | HOLD \<Rightarrow> if adx < min_adx then ''ADX below minimum '' @ em_dash @ '' weak trend''
                                 else if di_spread < min_di_spread
                                      then ''DI spread too narrow '' @ em_dash @ '' no conviction''
                                      else ''No ADX trend signal'')];
          confidence = adx_confidence adx di_spread
      in finish_signal cfg fs ctx confidence min_confidence
           [(''adx_14'', adx), (''plus_di_14'', plus_di), (''minus_di_14'', minus_di)]
           [\<lparr>factor_name = ''adx_trend_strength'', factor_weight = 1, factor_direction = direction_of sd,
             factor_evidence = [Lit ''adx='', Fixed 2 adx, Lit '', plus_di='', Fixed 2 plus_di,
               Lit '', minus_di='', Fixed 2 minus_di, Lit '', spread='', Fixed 2 di_spread]\<rparr>]
           (regime_filter allowed ctx (trend_filter require_trend ctx (sd, summary))))"


subsection \<open>Bollinger reversion (bollinger_reversion.py)\<close>

definition bb_confidence :: "real \<Rightarrow> real \<Rightarrow> real \<Rightarrow> side \<Rightarrow> real" where
  "bb_confidence close upper lower sd =
     (if sd = HOLD then 1/2
      else
        (let band_width = max (upper - lower) (1 / 10 ^ 9);
             penetration = (if sd = BUY then max 0 ((lower - close) / band_width)
                            else max 0 ((close - upper) / band_width))
         in clamp (55/100 + 12/10 * penetration) (55/100) (95/100)))"

definition adx_ceiling :: "real \<Rightarrow> feature_set \<Rightarrow> side \<times> rich_text \<Rightarrow> side \<times> rich_text" where
  "adx_ceiling max_adx fs x =
     (case x of (sd, summary) \<Rightarrow>
        if max_adx > 0 \<and> sd \<noteq> HOLD \<and> indicator fs ''adx_14'' 0 > max_adx
        then (HOLD, summary @ [dashed ''ADX too high for reversion ('', Fixed 1 (indicator fs ''adx_14'' 0),
                Lit '' > '', Fixed 1 max_adx, Lit '')''])
        else (sd, summary))"

definition bollinger_reversion ::
  "provider_config \<Rightarrow> feature_set \<Rightarrow> market_context \<Rightarrow> strategy_signal result" where
  "bollinger_reversion cfg fs ctx =
     (let close = fs_close fs;
          upper = indicator fs ''bb_upper'' close;
          lower = indicator fs ''bb_lower'' close;
          middle = indicator fs ''bb_middle'' close;
          min_confidence = num_param cfg ''min_confidence'' (6/10);
          avoid_high_vol = flag_param cfg ''avoid_high_vol'' True;
          max_adx = num_param cfg ''max_adx'' 0;
          sd = (if close \<le> lower then BUY else if close \<ge> upper then SELL else HOLD);
          summary = (case sd of
              BUY \<Rightarrow> [Lit ''Price at/below lower Bollinger band ('', Fixed 2 close, Lit '' <= '', Fixed 2 lower, Lit '')'']
            | SELL \<Rightarrow> [Lit ''Price at/above upper Bollinger band ('', Fixed 2 close, Lit '' >= '', Fixed 2 upper, Lit '')'']
            | HOLD \<Rightarrow> [Lit ''Price inside Bollinger bands ('', Fixed 2 lower, Lit en_dash, Fixed 2 upper, Lit '')'']);
          confidence = bb_confidence close upper lower sd
      in finish_signal cfg fs ctx confidence min_confidence
           [(''close'', close), (''bb_upper'', upper), (''bb_lower'', lower), (''bb_middle'', middle)]
           [\<lparr>factor_name = ''bollinger_reversion'', factor_weight = 1, factor_direction = direction_of sd,
             factor_evidence = [Lit ''close='', Fixed 2 close, Lit '', upper='', Fixed 2 upper,
               Lit '', lower='', Fixed 2 lower, Lit '', middle='', Fixed 2 middle]\<rparr>]
           (adx_ceiling max_adx fs (volatility_filter avoid_high_vol ctx (sd, summary))))"


subsection \<open>SuperTrend (supertrend_trend.py)\<close>

definition supertrend_confidence :: "real \<Rightarrow> real \<Rightarrow> real \<Rightarrow> real" where
  "supertrend_confidence close line a =
     clamp (55/100 + 12/100 * (\<bar>close - line\<bar> / max a (1 / 10 ^ 9))) (55/100) (95/100)"

definition supertrend_trend ::
  "provider_config \<Rightarrow> feature_set \<Rightarrow> market_context \<Rightarrow> strategy_signal result" where
  "supertrend_trend cfg fs ctx =
     (let line = indicator fs ''supertrend'' (current_price ctx);
          dir = indicator fs ''supertrend_direction'' 0;
          close = fs_close fs;
          min_confidence = num_param cfg ''min_confidence'' (6/10);
          require_trend = flag_param cfg ''require_trend'' False;
          sd = (if dir > 0 then BUY else if dir < 0 then SELL else HOLD);
          summary = [Lit (case sd of BUY \<Rightarrow> ''SuperTrend bullish '' @ em_dash @ '' price above line''
                       | SELL \<Rightarrow> ''SuperTrend bearish '' @ em_dash @ '' price below line''
                       | HOLD \<Rightarrow> ''SuperTrend neutral'')];
          confidence = supertrend_confidence close line (atr ctx)
      in finish_signal cfg fs ctx confidence min_confidence
           [(''close'', close), (''supertrend'', line), (''supertrend_direction'', dir)]
           [\<lparr>factor_name = ''supertrend_trend'', factor_weight = 1, factor_direction = direction_of sd,
             factor_evidence = [Lit ''close='', Fixed 2 close, Lit '', line='', Fixed 2 line,
               Lit '', direction='', Fixed 0 dir]\<rparr>]
           (trend_filter require_trend ctx (sd, summary)))"


subsection \<open>Market structure (market_structure.py)\<close>

definition market_structure_confidence :: "real \<Rightarrow> real \<Rightarrow> real \<Rightarrow> real \<Rightarrow> real" where
  "market_structure_confidence bias bos a close =
     (let structure_strength = min \<bar>bias\<bar> 1;
          bos_strength = min \<bar>bos\<bar> 1;
          distance = \<bar>close\<bar> / max a (1 / 10 ^ 9) * (1/100) * bos_strength
      in clamp (55/100 + 15/100 * structure_strength + 2/10 * bos_strength + 1/10 * distance) (55/100) (95/100))"

definition market_structure ::
  "provider_config \<Rightarrow> feature_set \<Rightarrow> market_context \<Rightarrow> strategy_signal result" where
  "market_structure cfg fs ctx =
     (let bias = indicator fs ''ms_bias'' 0;
          bos = indicator fs ''ms_bos'' 0;
          close = fs_close fs;
          min_confidence = num_param cfg ''min_confidence'' (6/10);
          require_bos = flag_param cfg ''require_bos'' True;
          require_trend = flag_param cfg ''require_trend'' False;
          sd = choose_side (bias > 0 \<and> (\<not> require_bos \<or> bos > 0)) (bias < 0 \<and> (\<not> require_bos \<or> bos < 0));
          summary = (case sd of
              BUY \<Rightarrow> [Lit (''Market structure bullish '' @ em_dash @ '' HH/HL'')]
                @ (if bos > 0 then [Lit '' with bullish BOS''] else [])
            | SELL \<Rightarrow> [Lit (''Market structure bearish '' @ em_dash @ '' LH/LL'')]
                @ (if bos < 0 then [Lit '' with bearish BOS''] else [])
            | HOLD \<Rightarrow> [Lit (if bias = 0 then ''Neutral/choppy market structure''
                else if require_bos \<and> bos = 0 then ''Structure bias without BOS confirmation''
                else ''No market structure signal'')]);
          confidence = market_structure_confidence bias bos (atr ctx) close
      in finish_signal cfg fs ctx confidence min_confidence
           [(''close'', close), (''ms_bias'', bias), (''ms_bos'', bos)]
           [\<lparr>factor_name = ''market_structure'', factor_weight = 1, factor_direction = direction_of sd,
             factor_evidence = [Lit ''bias='', Fixed 0 bias, Lit '', bos='', Fixed 0 bos,
               Lit '', close='', Fixed 2 close]\<rparr>]
           (trend_filter require_trend ctx (sd, summary)))"


subsection \<open>Volume order flow (volume_order_flow.py)\<close>

text \<open>\<^verbatim>\<open>int(x)\<close> drops the fraction, and an int is printed in decimal.\<close>

definition py_int :: "real \<Rightarrow> int" where
  "py_int x = (if 0 \<le> x then \<lfloor>x\<rfloor> else \<lceil>x\<rceil>)"

fun show_nat :: "nat \<Rightarrow> string" where
  "show_nat n = (if n < 10 then [char_of (48 + n)] else show_nat (n div 10) @ [char_of (48 + n mod 10)])"

declare show_nat.simps [simp del]

definition show_int :: "int \<Rightarrow> string" where
  "show_int i = (if i < 0 then ''-'' @ show_nat (nat (- i)) else show_nat (nat i))"

definition volume_flow_confidence :: "real \<Rightarrow> real \<Rightarrow> real \<Rightarrow> real" where
  "volume_flow_confidence cmf volume_ratio min_cmf =
     (let cmf_strength = min (\<bar>cmf\<bar> / max min_cmf (1 / 10 ^ 9)) 2 / 2;
          vol_strength = min (max (volume_ratio - 1) 0 / 1) 1
      in clamp (55/100 + 2/10 * cmf_strength + 2/10 * vol_strength) (55/100) (95/100))"

definition price_alignment :: "bool \<Rightarrow> real \<Rightarrow> side \<times> rich_text \<Rightarrow> side \<times> rich_text" where
  "price_alignment require_price_align close_delta x =
     (case x of (sd, summary) \<Rightarrow>
        if require_price_align \<and> (sd = BUY \<and> close_delta \<le> 0 \<or> sd = SELL \<and> close_delta \<ge> 0)
        then (HOLD, summary @ [dashed ''price alignment filter'']) else (sd, summary))"

definition volume_order_flow ::
  "provider_config \<Rightarrow> feature_set \<Rightarrow> market_context \<Rightarrow> strategy_signal result" where
  "volume_order_flow cfg fs ctx =
     (let period = py_int (num_param cfg ''period'' 20);
          cmf_key = ''cmf_'' @ show_int period;
          ratio_key = ''volume_ratio_'' @ show_int period;
          cmf = indicator fs cmf_key (indicator fs ''cmf_20'' 0);
          volume_ratio = indicator fs ratio_key (indicator fs ''volume_ratio_20'' 1);
          close_delta = indicator fs ''close_delta'' 0;
          min_confidence = num_param cfg ''min_confidence'' (5/10);
          min_cmf = num_param cfg ''min_cmf'' (5/100);
          min_volume_ratio = num_param cfg ''min_volume_ratio'' (12/10);
          require_price_align = flag_param cfg ''require_price_align'' True;
          volume_confirmed = (volume_ratio \<ge> min_volume_ratio);
          sd = choose_side (cmf \<ge> min_cmf \<and> volume_confirmed) (cmf \<le> - min_cmf \<and> volume_confirmed);
          summary = [Lit (case sd of
              BUY \<Rightarrow> ''Volume flow bullish '' @ em_dash @ '' accumulation with elevated volume''
            | SELL \<Rightarrow> ''Volume flow bearish '' @ em_dash @ '' distribution with elevated volume''
            | HOLD \<Rightarrow> if \<not> volume_confirmed then ''Volume below threshold '' @ em_dash @ '' weak participation''
                else if \<bar>cmf\<bar> < min_cmf then ''CMF neutral '' @ em_dash @ '' no clear money flow''
                else ''No volume flow signal'')];
          confidence = volume_flow_confidence cmf volume_ratio min_cmf
      in finish_signal cfg fs ctx confidence min_confidence
           [(cmf_key, cmf), (ratio_key, volume_ratio), (''close_delta'', close_delta)]
           [\<lparr>factor_name = ''volume_order_flow'', factor_weight = 1, factor_direction = direction_of sd,
             factor_evidence = [Lit ''cmf='', Fixed 4 cmf, Lit '', volume_ratio='', Fixed 2 volume_ratio,
               Lit '', close_delta='', Fixed 2 close_delta]\<rparr>]
           (price_alignment require_price_align close_delta (sd, summary)))"


subsection \<open>Core long (core_long.py)\<close>

definition side_of_name :: "string \<Rightarrow> side option" where
  "side_of_name s = (if s = ''BUY'' then Some BUY else if s = ''SELL'' then Some SELL
     else if s = ''HOLD'' then Some HOLD else None)"

definition core_hold ::
  "provider_config \<Rightarrow> feature_set \<Rightarrow> market_context \<Rightarrow> rich_text \<Rightarrow> string \<Rightarrow> real \<Rightarrow> real
   \<Rightarrow> rationale_factor list \<Rightarrow> strategy_signal result" where
  "core_hold cfg fs ctx summary sma_name sma_value price factors =
     build_signal cfg fs ctx HOLD (1/2)
       (mk_rationale cfg summary (dict_set [(sma_name, sma_value)] ''price'' price) factors) None None"

text \<open>The side of a closed regime is a free string of the configuration; only when a signal is
  built from it does it have to be one of the three sides.\<close>

definition core_long ::
  "provider_config \<Rightarrow> feature_set \<Rightarrow> market_context \<Rightarrow> strategy_signal result" where
  "core_long cfg fs ctx =
     (let sma_name = text_param cfg ''sma_indicator'' ''sma_200'';
          confidence = num_param cfg ''confidence'' (9/10);
          min_confidence = num_param cfg ''min_confidence'' (6/10);
          regime_off_side = text_param cfg ''regime_off_side'' ''HOLD'';
          use_atr_stops = flag_param cfg ''use_atr_stops'' True;
          price = current_price ctx
      in case dict_get (indicators fs) sma_name of
           None \<Rightarrow> core_hold cfg fs ctx
             [Lit (sma_name @ '' not available '' @ em_dash @ '' insufficient history for regime gate'')]
             sma_name 0 price []
         | Some sma \<Rightarrow>
             (let regime_on = price > sma;
                  sd = (if regime_on then ''BUY'' else regime_off_side);
                  summary = (if regime_on
                    then [Lit (''Uptrend regime '' @ em_dash @ '' price ''), Fixed 2 price, Lit ('' > '' @ sma_name @ '' ''), Fixed 2 sma]
                    else [Lit (''Risk-off '' @ em_dash @ '' price ''), Fixed 2 price, Lit ('' <= '' @ sma_name @ '' ''), Fixed 2 sma]);
                  dir = (if regime_on then Bullish else if sd = ''SELL'' then Bearish else Neutral);
                  conf = (if sd \<noteq> ''HOLD'' then confidence else 1/2);
                  factors = [\<lparr>factor_name = ''trend_regime'', factor_weight = 1, factor_direction = dir,
                    factor_evidence = [Lit ''price='', Fixed 2 price, Lit ('', '' @ sma_name @ ''=''), Fixed 2 sma,
                      Lit ('', regime='' @ (if regime_on then ''on'' else ''off''))]\<rparr>]
              in if sd = ''HOLD'' \<or> conf < min_confidence then
                   core_hold cfg fs ctx
                     (if sd = ''HOLD'' then summary else summary @ [dashed ''below min confidence''])
                     sma_name sma price factors
                 else
                   (case side_of_name sd of
                      None \<Rightarrow> Inl (ValidationError ''StrategySignal'')
                    | Some side \<Rightarrow>
                        (let (sl, tp) = (if use_atr_stops
                               then (case atr_stops cfg ctx side None None of (l, t) \<Rightarrow> (Some l, Some t))
                               else (None, None))
                         in build_signal cfg fs ctx side conf
                              (mk_rationale cfg summary (dict_set [(sma_name, sma)] ''price'' price) factors) sl tp))))"


subsection \<open>Every confidence lies between one half and 0.95\<close>

lemma clamp_half: "1/2 \<le> clamp v (55/100) (95/100)" "clamp v (55/100) (95/100) \<le> 95/100"
  by (simp_all add: clamp_def)

lemma boxed_half: "1/2 \<le> min (95/100) (max (55/100) v)" "min (95/100) (max (55/100) v) \<le> (95/100 :: real)"
  by (simp_all add: min_def max_def)

lemma half_bounds: "(1/2 :: real) \<le> 1/2" "(1/2 :: real) \<le> 95/100"
  by simp_all

lemma confidence_bounds:
  "1/2 \<le> ema_confidence fs ctx b c" "ema_confidence fs ctx b c \<le> 95/100"
  "1/2 \<le> rsi_confidence r x y sd" "rsi_confidence r x y sd \<le> 95/100"
  "1/2 \<le> macd_confidence h sl a" "macd_confidence h sl a \<le> 95/100"
  "1/2 \<le> adx_confidence h sl" "adx_confidence h sl \<le> 95/100"
  "1/2 \<le> bb_confidence cl u l sd" "bb_confidence cl u l sd \<le> 95/100"
  "1/2 \<le> supertrend_confidence cl li a" "supertrend_confidence cl li a \<le> 95/100"
  "1/2 \<le> market_structure_confidence bi bo a cl" "market_structure_confidence bi bo a cl \<le> 95/100"
  "1/2 \<le> volume_flow_confidence cm vr mc" "volume_flow_confidence cm vr mc \<le> 95/100"
  unfolding ema_confidence_def rsi_confidence_def macd_confidence_def adx_confidence_def bb_confidence_def
    supertrend_confidence_def market_structure_confidence_def volume_flow_confidence_def Let_def
  by (simp_all only: clamp_half boxed_half half_bounds split: if_split) simp_all


subsection \<open>The strategies meet the contract\<close>

interpretation macd: strategy macd_momentum "\<lambda>cfg. num_param cfg ''min_confidence'' (6/10)"
  "\<lambda>cfg. threshold_ok (num_param cfg ''min_confidence'' (6/10))"
proof
  fix cfg fs ctx
  assume "threshold_ok (num_param cfg ''min_confidence'' (6/10))"
  then show "\<exists>s. macd_momentum cfg fs ctx = Inr s"
    unfolding macd_momentum_def Let_def by (rule clamped_returns) (rule confidence_bounds)+
next
  fix cfg fs ctx s
  assume "macd_momentum cfg fs ctx = Inr s"
  note fin = finish_contract [OF this [unfolded macd_momentum_def Let_def]]
  show "strategy_signal_valid s" "answers cfg fs ctx s" "levels_from_atr cfg ctx s" by (fact fin)+
  show "num_param cfg ''min_confidence'' (6/10) \<le> sig_confidence s" if "sig_side s \<noteq> HOLD"
    using fin(4) [OF that] by simp
qed

interpretation adx: strategy adx_trend_strength "\<lambda>cfg. num_param cfg ''min_confidence'' (6/10)"
  "\<lambda>cfg. threshold_ok (num_param cfg ''min_confidence'' (6/10))"
proof
  fix cfg fs ctx
  assume "threshold_ok (num_param cfg ''min_confidence'' (6/10))"
  then show "\<exists>s. adx_trend_strength cfg fs ctx = Inr s"
    unfolding adx_trend_strength_def Let_def by (rule clamped_returns) (rule confidence_bounds)+
next
  fix cfg fs ctx s
  assume "adx_trend_strength cfg fs ctx = Inr s"
  note fin = finish_contract [OF this [unfolded adx_trend_strength_def Let_def]]
  show "strategy_signal_valid s" "answers cfg fs ctx s" "levels_from_atr cfg ctx s" by (fact fin)+
  show "num_param cfg ''min_confidence'' (6/10) \<le> sig_confidence s" if "sig_side s \<noteq> HOLD"
    using fin(4) [OF that] by simp
qed

interpretation bollinger: strategy bollinger_reversion "\<lambda>cfg. num_param cfg ''min_confidence'' (6/10)"
  "\<lambda>cfg. threshold_ok (num_param cfg ''min_confidence'' (6/10))"
proof
  fix cfg fs ctx
  assume "threshold_ok (num_param cfg ''min_confidence'' (6/10))"
  then show "\<exists>s. bollinger_reversion cfg fs ctx = Inr s"
    unfolding bollinger_reversion_def Let_def by (rule clamped_returns) (rule confidence_bounds)+
next
  fix cfg fs ctx s
  assume "bollinger_reversion cfg fs ctx = Inr s"
  note fin = finish_contract [OF this [unfolded bollinger_reversion_def Let_def]]
  show "strategy_signal_valid s" "answers cfg fs ctx s" "levels_from_atr cfg ctx s" by (fact fin)+
  show "num_param cfg ''min_confidence'' (6/10) \<le> sig_confidence s" if "sig_side s \<noteq> HOLD"
    using fin(4) [OF that] by simp
qed

interpretation supertrend: strategy supertrend_trend "\<lambda>cfg. num_param cfg ''min_confidence'' (6/10)"
  "\<lambda>cfg. threshold_ok (num_param cfg ''min_confidence'' (6/10))"
proof
  fix cfg fs ctx
  assume "threshold_ok (num_param cfg ''min_confidence'' (6/10))"
  then show "\<exists>s. supertrend_trend cfg fs ctx = Inr s"
    unfolding supertrend_trend_def Let_def by (rule clamped_returns) (rule confidence_bounds)+
next
  fix cfg fs ctx s
  assume "supertrend_trend cfg fs ctx = Inr s"
  note fin = finish_contract [OF this [unfolded supertrend_trend_def Let_def]]
  show "strategy_signal_valid s" "answers cfg fs ctx s" "levels_from_atr cfg ctx s" by (fact fin)+
  show "num_param cfg ''min_confidence'' (6/10) \<le> sig_confidence s" if "sig_side s \<noteq> HOLD"
    using fin(4) [OF that] by simp
qed

interpretation marketstr: strategy market_structure "\<lambda>cfg. num_param cfg ''min_confidence'' (6/10)"
  "\<lambda>cfg. threshold_ok (num_param cfg ''min_confidence'' (6/10))"
proof
  fix cfg fs ctx
  assume "threshold_ok (num_param cfg ''min_confidence'' (6/10))"
  then show "\<exists>s. market_structure cfg fs ctx = Inr s"
    unfolding market_structure_def Let_def by (rule clamped_returns) (rule confidence_bounds)+
next
  fix cfg fs ctx s
  assume "market_structure cfg fs ctx = Inr s"
  note fin = finish_contract [OF this [unfolded market_structure_def Let_def]]
  show "strategy_signal_valid s" "answers cfg fs ctx s" "levels_from_atr cfg ctx s" by (fact fin)+
  show "num_param cfg ''min_confidence'' (6/10) \<le> sig_confidence s" if "sig_side s \<noteq> HOLD"
    using fin(4) [OF that] by simp
qed

interpretation volume: strategy volume_order_flow "\<lambda>cfg. num_param cfg ''min_confidence'' (5/10)"
  "\<lambda>cfg. threshold_ok (num_param cfg ''min_confidence'' (5/10))"
proof
  fix cfg fs ctx
  assume "threshold_ok (num_param cfg ''min_confidence'' (5/10))"
  then show "\<exists>s. volume_order_flow cfg fs ctx = Inr s"
    unfolding volume_order_flow_def Let_def by (rule clamped_returns) (rule confidence_bounds)+
next
  fix cfg fs ctx s
  assume "volume_order_flow cfg fs ctx = Inr s"
  note fin = finish_contract [OF this [unfolded volume_order_flow_def Let_def]]
  show "strategy_signal_valid s" "answers cfg fs ctx s" "levels_from_atr cfg ctx s" by (fact fin)+
  show "num_param cfg ''min_confidence'' (5/10) \<le> sig_confidence s" if "sig_side s \<noteq> HOLD"
    using fin(4) [OF that] by simp
qed

lemma built_levels:
  "build_signal cfg fs ctx HOLD conf rat None None = Inr s \<Longrightarrow> levels_from_atr cfg ctx s"
  "sd \<noteq> HOLD \<Longrightarrow> atr_stops cfg ctx sd None None = (sl, tp) \<Longrightarrow>
     build_signal cfg fs ctx sd conf rat (Some sl) (Some tp) = Inr s \<Longrightarrow> levels_from_atr cfg ctx s"
  "build_signal cfg fs ctx sd conf rat None None = Inr s \<Longrightarrow> levels_from_atr cfg ctx s"
  by (auto simp: build_signal_Inr levels_from_atr_def)

lemma built_side:
  "build_signal cfg fs ctx sd conf rat sl tp = Inr s \<Longrightarrow> sig_side s = sd \<and> sig_confidence s = conf"
  by (auto simp: build_signal_Inr)

interpretation ema: strategy ema_crossover "\<lambda>cfg. num_param cfg ''min_confidence'' (6/10)"
  "\<lambda>cfg. threshold_ok (num_param cfg ''min_confidence'' (6/10))"
proof
  fix cfg fs ctx
  let ?c = "ema_confidence fs ctx (dict_get_or (flags fs) ''ema_cross_bullish'' False)
      (dict_get_or (flags fs) ''ema_cross_bearish'' False)"
  assume "threshold_ok (num_param cfg ''min_confidence'' (6/10))"
  moreover have "1/2 \<le> ?c" "?c \<le> 95/100" by (rule confidence_bounds)+
  ultimately show "\<exists>s. ema_crossover cfg fs ctx = Inr s"
    by (auto simp: ema_crossover_def Let_def build_signal_Inr threshold_ok_def split: prod.split)
next
  fix cfg fs ctx s
  assume r: "ema_crossover cfg fs ctx = Inr s"
  show "strategy_signal_valid s" "answers cfg fs ctx s"
    using r by (auto simp: ema_crossover_def Let_def dest: built_valid built_answers split: if_splits prod.splits)
  show "levels_from_atr cfg ctx s"
    using r unfolding ema_crossover_def Let_def
    by (auto intro: built_levels split: if_splits prod.splits)
  show "num_param cfg ''min_confidence'' (6/10) \<le> sig_confidence s" if "sig_side s \<noteq> HOLD"
    using r that by (auto simp: ema_crossover_def Let_def dest!: built_side split: if_splits prod.splits)
qed

interpretation rsi: strategy rsi_divergence "\<lambda>cfg. num_param cfg ''min_confidence'' (65/100)" "\<lambda>cfg. True"
proof
  fix cfg fs ctx
  let ?c = "\<lambda>sd. rsi_confidence (indicator fs ''rsi_14'' 50) (num_param cfg ''oversold'' 30) (num_param cfg ''overbought'' 70) sd"
  have "0 \<le> ?c sd" "?c sd \<le> 1" for sd
    using confidence_bounds(3,4) [of "indicator fs ''rsi_14'' 50" "num_param cfg ''oversold'' 30" "num_param cfg ''overbought'' 70" sd]
    by linarith+
  then show "\<exists>s. rsi_divergence cfg fs ctx = Inr s"
    by (auto simp: rsi_divergence_def Let_def build_signal_Inr split: prod.split)
next
  fix cfg fs ctx s
  assume r: "rsi_divergence cfg fs ctx = Inr s"
  show "strategy_signal_valid s" "answers cfg fs ctx s"
    using r by (auto simp: rsi_divergence_def Let_def dest: built_valid built_answers split: if_splits prod.splits)
  show "levels_from_atr cfg ctx s"
    using r unfolding rsi_divergence_def Let_def
    by (auto intro: built_levels split: if_splits prod.splits)
  show "num_param cfg ''min_confidence'' (65/100) \<le> sig_confidence s" if "sig_side s \<noteq> HOLD"
    using r that by (auto simp: rsi_divergence_def Let_def dest!: built_side split: if_splits prod.splits)
qed

text \<open>The side of a closed regime, when it is used, must name a side.\<close>

definition core_long_ok :: "provider_config \<Rightarrow> bool" where
  "core_long_ok cfg \<longleftrightarrow> side_of_name (text_param cfg ''regime_off_side'' ''HOLD'') \<noteq> None
     \<and> 0 \<le> num_param cfg ''confidence'' (9/10) \<and> num_param cfg ''confidence'' (9/10) \<le> 1"

interpretation core: strategy core_long "\<lambda>cfg. num_param cfg ''min_confidence'' (6/10)" core_long_ok
proof
  fix cfg fs ctx
  assume "core_long_ok cfg"
  then show "\<exists>s. core_long cfg fs ctx = Inr s"
    by (auto simp: core_long_def core_long_ok_def Let_def core_hold_def build_signal_Inr side_of_name_def
        split: option.split prod.split if_splits)
next
  fix cfg fs ctx s
  assume r: "core_long cfg fs ctx = Inr s"
  show "strategy_signal_valid s" "answers cfg fs ctx s"
    using r by (auto simp: core_long_def core_hold_def Let_def dest: built_valid built_answers
        split: if_splits prod.splits option.splits)
  have sd: "side_of_name x = Some y \<Longrightarrow> x \<noteq> ''HOLD'' \<Longrightarrow> y \<noteq> HOLD" for x y
    by (auto simp: side_of_name_def split: if_splits)
  show "levels_from_atr cfg ctx s"
    using r unfolding core_long_def core_hold_def Let_def
    by (auto intro: built_levels(1,3) built_levels(2) [OF sd] split: if_splits prod.splits option.splits)
  show "num_param cfg ''min_confidence'' (6/10) \<le> sig_confidence s" if "sig_side s \<noteq> HOLD"
    using r that by (auto simp: core_long_def core_hold_def Let_def dest!: built_side
        split: if_splits prod.splits option.splits)
qed

end
