(* ===== verification/ProviderRegistry.thy ===== *)
theory ProviderRegistry
  imports Strategies RuntimeSafety
begin

text \<open>
  \<^verbatim>\<open>backend/src/providers/registry.py\<close>: from configuration files to the providers of a
  runtime, and what the strategy contract gives the decision engine and the runtime:
  signals that are always valid, levels that bracket the price, cycles that return.
\<close>


subsection \<open>The registry\<close>

type_synonym analysis = "provider_config \<Rightarrow> feature_set \<Rightarrow> market_context \<Rightarrow> strategy_signal result"

definition provider_classes :: "(string, analysis) dict" where
  "provider_classes =
     [(''ema_crossover'', ema_crossover), (''rsi_divergence'', rsi_divergence),
      (''macd_momentum'', macd_momentum), (''adx_trend_strength'', adx_trend_strength),
      (''bollinger_reversion'', bollinger_reversion), (''supertrend_trend'', supertrend_trend),
      (''volume_order_flow'', volume_order_flow), (''market_structure'', market_structure),
      (''core_long'', core_long)]"

definition register_provider :: "string \<Rightarrow> analysis \<Rightarrow> (string, analysis) dict \<Rightarrow> (string, analysis) dict" where
  "register_provider i cls classes = dict_set classes i cls"

text \<open>The directory of configuration files, when there is one: file names and what is parsed
  from them.\<close>

definition discover_provider_configs :: "(string \<times> provider_config) list option \<Rightarrow> provider_config list" where
  "discover_provider_configs files = (case files of None \<Rightarrow> [] | Some fs \<Rightarrow> map snd (sort_key fst fs))"

fun joined :: "string list \<Rightarrow> string" where
  "joined [] = []"
| "joined [x] = x"
| "joined (x # y # ys) = x @ '', '' @ joined (y # ys)"

definition instantiate_provider :: "(string, analysis) dict \<Rightarrow> provider_config \<Rightarrow> provider result" where
  "instantiate_provider classes cfg =
     (case dict_get classes (pc_provider_id cfg) of
        None \<Rightarrow> Inl (ValueError (''Unknown provider_id '' @ [CHR 39] @ pc_provider_id cfg @ [CHR 39]
                  @ ''. Known: '' @ joined (sort (dict_keys classes))))
      | Some cls \<Rightarrow> Inr \<lparr>prov_id = pc_provider_id cfg, prov_enabled = pc_enabled cfg, prov_analyze = cls cfg\<rparr>)"

fun instantiate_all :: "(string, analysis) dict \<Rightarrow> provider_config list \<Rightarrow> provider list result" where
  "instantiate_all classes [] = Inr []"
| "instantiate_all classes (cfg # cfgs) =
     and_then (instantiate_provider classes cfg) (\<lambda>p.
     and_then (instantiate_all classes cfgs) (\<lambda>ps. Inr (p # ps)))"

definition load_providers ::
  "(string, analysis) dict \<Rightarrow> (string \<times> provider_config) list option \<Rightarrow> provider list result" where
  "load_providers classes files = instantiate_all classes (discover_provider_configs files)"

lemma lookup_class:
  "dict_get provider_classes i = Some cls \<Longrightarrow>
     (i, cls) \<in> {(''ema_crossover'', ema_crossover), (''rsi_divergence'', rsi_divergence),
      (''macd_momentum'', macd_momentum), (''adx_trend_strength'', adx_trend_strength),
      (''bollinger_reversion'', bollinger_reversion), (''supertrend_trend'', supertrend_trend),
      (''volume_order_flow'', volume_order_flow), (''market_structure'', market_structure),
      (''core_long'', core_long)}"
  by (drule map_of_SomeD) (simp add: provider_classes_def)

lemma instantiate_all_Inr:
  "instantiate_all classes cfgs = Inr ps \<longleftrightarrow> list_all2 (\<lambda>cfg p. instantiate_provider classes cfg = Inr p) cfgs ps"
  by (induction cfgs arbitrary: ps) (auto simp: list_all2_Cons1 and_then_Inr_iff)

lemma instantiated:
  "instantiate_provider classes cfg = Inr p \<longleftrightarrow> (\<exists>cls. dict_get classes (pc_provider_id cfg) = Some cls
     \<and> p = \<lparr>prov_id = pc_provider_id cfg, prov_enabled = pc_enabled cfg, prov_analyze = cls cfg\<rparr>)"
  by (auto simp: instantiate_provider_def split: option.splits)


subsection \<open>What every built-in strategy promises\<close>

text \<open>The confidence a strategy needs to trade, and the configurations it accepts.\<close>

definition threshold_of :: "provider_config \<Rightarrow> real" where
  "threshold_of cfg = num_param cfg ''min_confidence''
     (if pc_provider_id cfg = ''rsi_divergence'' then 65/100
      else if pc_provider_id cfg = ''volume_order_flow'' then 5/10 else 6/10)"

definition accepted :: "provider_config \<Rightarrow> bool" where
  "accepted cfg \<longleftrightarrow> provider_config_valid cfg \<and> pc_provider_id cfg \<in> set (dict_keys provider_classes)
     \<and> (if pc_provider_id cfg = ''core_long'' then core_long_ok cfg
        else pc_provider_id cfg = ''rsi_divergence'' \<or> threshold_ok (threshold_of cfg))"

text \<open>The contract holds for every class of the registry, whichever the identifier selects.\<close>

lemma class_contract:
  assumes "dict_get provider_classes (pc_provider_id cfg) = Some cls" "cls cfg fs ctx = Inr s"
  shows "strategy_signal_valid s \<and> answers cfg fs ctx s \<and> levels_from_atr cfg ctx s
    \<and> (sig_side s \<noteq> HOLD \<longrightarrow> threshold_of cfg \<le> sig_confidence s)"
  using lookup_class [OF assms(1)] assms(2)
  apply (simp only: insert_iff empty_iff prod.inject simp_thms)
  apply (elim disjE conjE; simp add: threshold_of_def)
          apply (drule ema.contract rsi.contract macd.contract adx.contract bollinger.contract supertrend.contract
      volume.contract marketstr.contract core.contract; simp)+
  done

lemma class_returns:
  assumes "dict_get provider_classes (pc_provider_id cfg) = Some cls" "accepted cfg"
  shows "\<exists>s. cls cfg fs ctx = Inr s"
  using lookup_class [OF assms(1)] assms(2)
  apply (simp only: insert_iff empty_iff prod.inject simp_thms accepted_def)
  apply (elim disjE conjE)
          apply (simp_all add: threshold_of_def ema.returns rsi.returns macd.returns adx.returns bollinger.returns
      supertrend.returns volume.returns marketstr.returns core.returns)
  done

lemma provider_signal:
  assumes "instantiate_provider provider_classes cfg = Inr pv" "prov_analyze pv fs ctx = Inr s"
  shows "strategy_signal_valid s \<and> answers cfg fs ctx s \<and> levels_from_atr cfg ctx s
    \<and> (sig_side s \<noteq> HOLD \<longrightarrow> threshold_of cfg \<le> sig_confidence s)"
  using assms class_contract by (auto simp: instantiated)

lemma accepted_instance:
  assumes "accepted cfg"
  shows "\<exists>pv. instantiate_provider provider_classes cfg = Inr pv \<and> prov_id pv = pc_provider_id cfg
    \<and> (\<forall>fs ctx. \<exists>s. prov_analyze pv fs ctx = Inr s)"
proof -
  from assms obtain cls where cls: "dict_get provider_classes (pc_provider_id cfg) = Some cls"
    by (auto simp: accepted_def dict_keys_def dest!: weak_map_of_SomeI)
  with class_returns [OF cls assms] show ?thesis by (simp add: instantiate_provider_def)
qed

lemma answers_ok: "answers cfg fs ctx s \<Longrightarrow> 0 \<le> pc_weight cfg \<Longrightarrow> strategy_signal_valid s \<Longrightarrow> signals_ok [s]"
  by (simp add: answers_def signals_ok_def provider_weight_def dict_get_or_def)

text \<open>C27: every built-in strategy is well typed. Take a valid configuration (its weight not negative)
  that names one of the nine: for core_long its side for a regime that is off is a side and its
  confidence lies between zero and one, for rsi_divergence nothing more is asked, and for the other
  seven the threshold is at most 1.01. It always gives a provider, and whatever the features and the
  context, the analysis returns a signal: for the symbol, timeframe, time and feature set it was
  given, priced at the context's price, with a confidence between zero and one that reaches the
  strategy's threshold unless the signal is HOLD, a HOLD without levels, and a non-negative weight.\<close>

theorem strategies_well_typed:
  assumes "accepted cfg"
  shows "\<exists>pv. instantiate_provider provider_classes cfg = Inr pv \<and> prov_id pv = pc_provider_id cfg
    \<and> (\<forall>fs ctx. \<exists>s. prov_analyze pv fs ctx = Inr s \<and> answers cfg fs ctx s
         \<and> 0 \<le> sig_confidence s \<and> sig_confidence s \<le> 1 \<and> 0 \<le> provider_weight s
         \<and> (if sig_side s = HOLD then sig_stop_loss s = None \<and> sig_take_profit s = None
            else threshold_of cfg \<le> sig_confidence s))"
proof -
  from accepted_instance [OF assms] obtain pv where
    pv: "instantiate_provider provider_classes cfg = Inr pv" "prov_id pv = pc_provider_id cfg"
      "\<And>fs ctx. \<exists>s. prov_analyze pv fs ctx = Inr s" by blast
  from assms have w: "0 \<le> pc_weight cfg" by (simp add: accepted_def provider_config_valid_def)
  have "\<exists>s. prov_analyze pv fs ctx = Inr s \<and> answers cfg fs ctx s
         \<and> 0 \<le> sig_confidence s \<and> sig_confidence s \<le> 1 \<and> 0 \<le> provider_weight s
         \<and> (if sig_side s = HOLD then sig_stop_loss s = None \<and> sig_take_profit s = None
            else threshold_of cfg \<le> sig_confidence s)" for fs ctx
  proof -
    obtain s where s: "prov_analyze pv fs ctx = Inr s" using pv(3) by blast
    from provider_signal [OF pv(1) s] answers_ok [OF _ w] s show ?thesis
      by (fastforce simp: strategy_signal_valid_def signals_ok_def levels_from_atr_def)
  qed
  with pv show ?thesis by blast
qed


subsection \<open>Levels\<close>

definition positive_levels :: "provider_config \<Rightarrow> bool" where
  "positive_levels cfg \<longleftrightarrow> 0 < num_param cfg ''sl_atr_mult'' (3/2) \<and> 0 < num_param cfg ''tp_atr_mult'' 3"

lemma atr_levels_ordered:
  assumes "levels_from_atr cfg ctx s" "positive_levels cfg" "0 < atr ctx"
  shows "levels_ordered (current_price ctx) s"
  using assms
  by (auto simp: levels_from_atr_def levels_ordered_def atr_stops_def positive_levels_def Let_def split: side.splits)

text \<open>Where the signals of a cycle come from: one analysis per enabled provider, in order.\<close>

lemma collect_signals_from:
  "collect_signals E R fs ctx pvs s = (s', Inr sigs) \<Longrightarrow>
   list_all2 (\<lambda>pv sig. prov_analyze pv fs ctx = Inr sig) (filter prov_enabled pvs) sigs"
proof (induction pvs arbitrary: s sigs)
  case (Cons pv pvs)
  show ?case
  proof (cases "prov_enabled pv")
    case False
    with Cons show ?thesis by (auto simp: seq_Inr)
  next
    case True
    then obtain sig where "prov_analyze pv fs ctx = Inr sig"
      using Cons.prems by (cases "prov_analyze pv fs ctx") auto
    with Cons True show ?thesis by (auto simp: seq_Inr)
  qed
qed simp

lemma loaded_providers:
  assumes "load_providers provider_classes files = Inr pvs"
  shows "list_all2 (\<lambda>cfg pv. instantiate_provider provider_classes cfg = Inr pv) (discover_provider_configs files) pvs"
  using assms by (simp add: load_providers_def instantiate_all_Inr)

lemma loaded_provider:
  assumes "load_providers provider_classes files = Inr pvs" "pv \<in> set pvs"
  obtains cfg where "cfg \<in> set (discover_provider_configs files)" "instantiate_provider provider_classes cfg = Inr pv"
proof -
  from assms(2) obtain i where i: "i < length pvs" "pvs ! i = pv" by (auto simp: in_set_conv_nth)
  with loaded_providers [OF assms(1)] have "i < length (discover_provider_configs files)"
    "instantiate_provider provider_classes (discover_provider_configs files ! i) = Inr pv"
    by (auto simp: list_all2_conv_all_nth)
  with that nth_mem show thesis by blast
qed

lemma loaded_ids:
  assumes "load_providers provider_classes files = Inr pvs"
  shows "map prov_id pvs = map pc_provider_id (discover_provider_configs files)"
  using loaded_providers [OF assms]
  by (auto simp: list_all2_conv_all_nth instantiated intro!: nth_equalityI)

lemma collected_signals:
  assumes "load_providers provider_classes files = Inr pvs"
    and "list_all2 (\<lambda>pv sig. prov_analyze pv fs ctx = Inr sig) (filter prov_enabled pvs) sigs"
  shows "sig \<in> set sigs \<Longrightarrow> \<exists>cfg \<in> set (discover_provider_configs files).
      strategy_signal_valid sig \<and> answers cfg fs ctx sig \<and> levels_from_atr cfg ctx sig"
    and "map provider_id sigs = map prov_id (filter prov_enabled pvs)"
proof -
  have each: "\<exists>cfg \<in> set (discover_provider_configs files).
      strategy_signal_valid sig \<and> answers cfg fs ctx sig \<and> levels_from_atr cfg ctx sig \<and> provider_id sig = prov_id pv"
    if "pv \<in> set pvs" "prov_analyze pv fs ctx = Inr sig" for pv sig
  proof -
    from loaded_provider [OF assms(1) that(1)] obtain cfg where
      cfg: "cfg \<in> set (discover_provider_configs files)" "instantiate_provider provider_classes cfg = Inr pv" .
    from provider_signal [OF cfg(2) that(2)] cfg show ?thesis by (auto simp: answers_def instantiated)
  qed
  show "map provider_id sigs = map prov_id (filter prov_enabled pvs)"
  proof (rule nth_equalityI)
    show "length (map provider_id sigs) = length (map prov_id (filter prov_enabled pvs))"
      using assms(2) by (simp add: list_all2_conv_all_nth)
    fix i assume "i < length (map provider_id sigs)"
    with assms(2) have i: "i < length sigs" "i < length (filter prov_enabled pvs)"
      "prov_analyze (filter prov_enabled pvs ! i) fs ctx = Inr (sigs ! i)"
      by (auto simp: list_all2_conv_all_nth)
    from nth_mem [OF i(2)] have "filter prov_enabled pvs ! i \<in> set pvs" by simp
    from each [OF this i(3)] have "provider_id (sigs ! i) = prov_id (filter prov_enabled pvs ! i)" by blast
    with i show "map provider_id sigs ! i = map prov_id (filter prov_enabled pvs) ! i" by simp
  qed
  assume "sig \<in> set sigs"
  then obtain i where i: "i < length sigs" "sigs ! i = sig" by (auto simp: in_set_conv_nth)
  with assms(2) have j: "i < length (filter prov_enabled pvs)" "prov_analyze (filter prov_enabled pvs ! i) fs ctx = Inr sig"
    by (auto simp: list_all2_conv_all_nth)
  from nth_mem [OF j(1)] have "filter prov_enabled pvs ! i \<in> set pvs" by simp
  from each [OF this j(2)] show "\<exists>cfg \<in> set (discover_provider_configs files).
      strategy_signal_valid sig \<and> answers cfg fs ctx sig \<and> levels_from_atr cfg ctx sig" by blast
qed

lemma collected_decision:
  assumes "load_providers provider_classes files = Inr (rt_providers R)"
    and "distinct (map pc_provider_id (discover_provider_configs files))"
    and "\<forall>cfg \<in> set (discover_provider_configs files). provider_config_valid cfg \<and> positive_levels cfg"
    and "collect_signals E R feats ctx (rt_providers R) s = (s', Inr sigs)"
    and "0 < atr ctx" and "0 < current_price ctx"
    and "process E ec sigs ctx snap m n = Inr (d, k)" and "engine_config_valid ec"
    and "dec_final_signal d = Some fs"
  shows "fin_entry_price fs = current_price ctx
    \<and> (fin_side fs = BUY \<longrightarrow> fin_stop_loss fs < fin_entry_price fs \<and> fin_entry_price fs < fin_take_profit fs)
    \<and> (fin_side fs = SELL \<longrightarrow> fin_take_profit fs < fin_entry_price fs \<and> fin_entry_price fs < fin_stop_loss fs)"
proof -
  note sigs = collected_signals [OF assms(1) collect_signals_from [OF assms(4)]]
  have each: "signals_ok [s] \<and> levels_ordered (current_price ctx) s" if "s \<in> set sigs" for s
    using sigs(1) [OF that] assms(3,5) atr_levels_ordered answers_ok unfolding provider_config_valid_def by blast
  then have valid: "signals_ok sigs" and ordered: "\<forall>s \<in> set sigs. levels_ordered (current_price ctx) s"
    by (simp_all add: signals_ok_def)
  have "distinct (map prov_id (rt_providers R))" using assms(2) loaded_ids [OF assms(1)] by simp
  then have "distinct (map provider_id sigs)" unfolding sigs(2) by (rule distinct_map_filter)
  with merged_levels_bracket [OF assms(7,9,8) valid _ ordered assms(6)] show ?thesis by blast
qed

text \<open>C28: strategies and decision engine together never approve levels on the wrong side. If
  providers are loaded from configurations with distinct identifiers, non-negative weights
  and positive ATR multiples, their signals are collected on a context with a positive
  price and a positive ATR, and the engine makes a final signal of them, then its entry is
  the context's price, a BUY has its stop below and its target above it, and a SELL the
  other way round.\<close>

theorem strategy_decision_brackets_price:
  assumes "load_providers provider_classes files = Inr (rt_providers R)"
    and "distinct (map pc_provider_id (discover_provider_configs files))"
    and "\<forall>cfg \<in> set (discover_provider_configs files). provider_config_valid cfg \<and> positive_levels cfg"
    and "collect_signals E R feats ctx (rt_providers R) s = (s', Inr sigs)"
    and "0 < atr ctx" and "0 < current_price ctx"
    and "process E ec sigs ctx snap m n = Inr (d, k)" and "engine_config_valid ec"
    and "dec_final_signal d = Some fs"
  shows "fin_entry_price fs = current_price ctx
    \<and> (fin_side fs = BUY \<longrightarrow> fin_stop_loss fs < fin_entry_price fs \<and> fin_entry_price fs < fin_take_profit fs)
    \<and> (fin_side fs = SELL \<longrightarrow> fin_take_profit fs < fin_entry_price fs \<and> fin_entry_price fs < fin_stop_loss fs)"
  by (rule collected_decision [OF assms])

text \<open>The same for a whole cycle of the runtime, whose signals and decision are these.\<close>

lemma cycle_signal_brackets_price:
  assumes "market_data (rt_latest R)" and "run_cycle E R a p = (q, Inr res)"
    and "load_providers provider_classes files = Inr (rt_providers R)"
    and "distinct (map pc_provider_id (discover_provider_configs files))"
    and "\<forall>cfg \<in> set (discover_provider_configs files). provider_config_valid cfg \<and> positive_levels cfg"
    and "engine_config_valid (rt_engine R)"
    and "0 < atr (cr_context res)" and "0 < current_price (cr_context res)"
    and "dec_final_signal (cr_decision res) = Some fs"
  shows "fin_entry_price fs = current_price (cr_context res)
    \<and> (fin_side fs = BUY \<longrightarrow> fin_stop_loss fs < fin_entry_price fs \<and> fin_entry_price fs < fin_take_profit fs)
    \<and> (fin_side fs = SELL \<longrightarrow> fin_take_profit fs < fin_entry_price fs \<and> fin_entry_price fs < fin_stop_loss fs)"
proof -
  from run_cycle_Inr [OF assms(2,1)] obtain c p1 c2 where body: "cycle_body E R (p1, c) = ((q, c2), Inr res)" by metis
  from body show ?thesis
  proof (cases rule: cycle_body_E)
    case (1 s1 s2 s3 s4 s5 s6 s7 s8 s9 fset ctx snap sigs d)
    have ctx: "cr_context res = ctx" and d: "cr_decision res = d" using 1(11) by simp_all
    obtain p7 c7 where s7: "s7 = (p7, c7)" by (cases s7)
    from decide_decision [OF 1(8) [unfolded s7]] obtain k m where
      pr: "process E (rt_engine R) sigs ctx snap m (pl_tick p7) = Inr (d, k)" by blast
    show ?thesis
      using collected_decision [OF assms(3-5) 1(7) _ _ pr assms(6)] assms(7-9) unfolding ctx d by blast
  qed
qed



subsection \<open>Bulls and bears are treated alike\<close>

definition opposite :: "side \<Rightarrow> side" where
  "opposite sd = (case sd of BUY \<Rightarrow> SELL | SELL \<Rightarrow> BUY | HOLD \<Rightarrow> HOLD)"

text \<open>The same market seen upside down: momentum, structure and flow change sign, the
  directional indicators and the cross flags swap, levels and sizes stay.\<close>

definition negated :: "feature_set \<Rightarrow> feature_set \<Rightarrow> string \<Rightarrow> bool" where
  "negated fs gs k \<longleftrightarrow> (\<forall>d. indicator gs k (- d) = - indicator fs k d)"

definition kept_at :: "feature_set \<Rightarrow> feature_set \<Rightarrow> string \<Rightarrow> bool" where
  "kept_at fs gs k \<longleftrightarrow> (\<forall>d. indicator gs k d = indicator fs k d)"

definition mirrored :: "provider_config \<Rightarrow> feature_set \<Rightarrow> feature_set \<Rightarrow> bool" where
  "mirrored cfg fs gs \<longleftrightarrow> fs_close gs = fs_close fs
     \<and> negated fs gs ''macd''
     \<and> negated fs gs ''macd_signal''
     \<and> negated fs gs ''macd_histogram''
     \<and> negated fs gs ''macd_histogram_slope''
     \<and> negated fs gs ''ms_bias''
     \<and> negated fs gs ''ms_bos''
     \<and> negated fs gs ''supertrend_direction''
     \<and> negated fs gs ''cmf_20''
     \<and> negated fs gs (''cmf_'' @ show_int (py_int (num_param cfg ''period'' 20)))
     \<and> negated fs gs ''close_delta''
     \<and> kept_at fs gs ''ema_12''
     \<and> kept_at fs gs ''ema_26''
     \<and> kept_at fs gs ''adx_14''
     \<and> kept_at fs gs ''supertrend''
     \<and> kept_at fs gs ''volume_ratio_20''
     \<and> kept_at fs gs (''volume_ratio_'' @ show_int (py_int (num_param cfg ''period'' 20)))
     \<and> indicator gs ''plus_di_14'' 0 = indicator fs ''minus_di_14'' 0
     \<and> indicator gs ''minus_di_14'' 0 = indicator fs ''plus_di_14'' 0
     \<and> dict_get_or (flags gs) ''ema_cross_bullish'' False = dict_get_or (flags fs) ''ema_cross_bearish'' False
     \<and> dict_get_or (flags gs) ''ema_cross_bearish'' False = dict_get_or (flags fs) ''ema_cross_bullish'' False"

definition flipped :: "market_context \<Rightarrow> market_context" where
  "flipped ctx = ctx\<lparr>mc_trend := (case mc_trend ctx of UP \<Rightarrow> DOWN | DOWN \<Rightarrow> UP | SIDEWAYS \<Rightarrow> SIDEWAYS)\<rparr>"

lemma opposite_simps [simp]:
  "opposite BUY = SELL" "opposite SELL = BUY" "opposite HOLD = HOLD" "opposite (opposite sd) = sd"
  "opposite sd = HOLD \<longleftrightarrow> sd = HOLD" "opposite sd = BUY \<longleftrightarrow> sd = SELL" "opposite sd = SELL \<longleftrightarrow> sd = BUY"
  by (simp_all add: opposite_def split: side.splits)

lemma opposite_choose: "choose_side a b = opposite (choose_side b a)"
  by (simp add: choose_side_def)

lemma flipped_simps [simp]:
  "atr (flipped ctx) = atr ctx" "current_price (flipped ctx) = current_price ctx"
  "mc_volatility (flipped ctx) = mc_volatility ctx"
  "against_trend (flipped ctx) sd = against_trend ctx (opposite sd)"
  by (auto simp: flipped_def against_trend_def split: trend.splits)

lemma finish_outcome:
  assumes "finish_signal cfg fs ctx conf min_conf refs factors x = Inr s"
  shows "sig_side s = (if fst x = HOLD \<or> conf < min_conf then HOLD else fst x)"
    and "sig_confidence s = (if fst x = HOLD then conf else if conf < min_conf then min_conf - 1/100 else conf)"
  using assms by (cases x; auto simp: finish_signal_def build_signal_Inr split: prod.splits if_splits)+

lemma filter_sides:
  "fst (trend_filter r ctx x) = (if r \<and> against_trend ctx (fst x) then HOLD else fst x)"
  "fst (price_alignment r d x) = (if r \<and> (fst x = BUY \<and> d \<le> 0 \<or> fst x = SELL \<and> d \<ge> 0) then HOLD else fst x)"
  "fst (regime_filter [] ctx x) = fst x"
  by (cases x; auto simp: trend_filter_def price_alignment_def regime_filter_def)+

definition directional :: "(string \<times> analysis) set" where
  "directional = {(''ema_crossover'', ema_crossover), (''macd_momentum'', macd_momentum),
     (''adx_trend_strength'', adx_trend_strength), (''supertrend_trend'', supertrend_trend),
     (''volume_order_flow'', volume_order_flow), (''market_structure'', market_structure)}"

lemma mirror_indicators:
  assumes "mirrored cfg fs gs"
  shows "fs_close gs = fs_close fs" "indicator gs ''macd'' 0 = - indicator fs ''macd'' 0"
    "indicator gs ''macd_signal'' 0 = - indicator fs ''macd_signal'' 0"
    "indicator gs ''macd_histogram'' 0 = - indicator fs ''macd_histogram'' 0"
    "indicator gs ''macd_histogram_slope'' 0 = - indicator fs ''macd_histogram_slope'' 0"
    "indicator gs ''ms_bias'' 0 = - indicator fs ''ms_bias'' 0" "indicator gs ''ms_bos'' 0 = - indicator fs ''ms_bos'' 0"
    "indicator gs ''supertrend_direction'' 0 = - indicator fs ''supertrend_direction'' 0"
    "indicator gs ''close_delta'' 0 = - indicator fs ''close_delta'' 0"
    "indicator gs (''cmf_'' @ show_int (py_int (num_param cfg ''period'' 20))) (indicator gs ''cmf_20'' 0)
     = - indicator fs (''cmf_'' @ show_int (py_int (num_param cfg ''period'' 20))) (indicator fs ''cmf_20'' 0)"
    "indicator gs ''ema_12'' d = indicator fs ''ema_12'' d" "indicator gs ''ema_26'' d = indicator fs ''ema_26'' d"
    "indicator gs ''adx_14'' d = indicator fs ''adx_14'' d" "indicator gs ''supertrend'' d = indicator fs ''supertrend'' d"
    "indicator gs (''volume_ratio_'' @ show_int (py_int (num_param cfg ''period'' 20))) (indicator gs ''volume_ratio_20'' 1)
     = indicator fs (''volume_ratio_'' @ show_int (py_int (num_param cfg ''period'' 20))) (indicator fs ''volume_ratio_20'' 1)"
    "indicator gs ''plus_di_14'' 0 = indicator fs ''minus_di_14'' 0"
    "indicator gs ''minus_di_14'' 0 = indicator fs ''plus_di_14'' 0"
    "dict_get_or (flags gs) ''ema_cross_bullish'' False = dict_get_or (flags fs) ''ema_cross_bearish'' False"
    "dict_get_or (flags gs) ''ema_cross_bearish'' False = dict_get_or (flags fs) ''ema_cross_bullish'' False"
proof -
  note m = assms [unfolded mirrored_def]
  have neg: "negated fs gs k \<Longrightarrow> indicator gs k (- d) = - indicator fs k d" for k d by (simp add: negated_def)
  note neg0 = neg [where d = 0, unfolded minus_zero]
  have same: "kept_at fs gs k \<Longrightarrow> indicator gs k d = indicator fs k d" for k d by (simp add: kept_at_def)
  show "indicator gs ''macd'' 0 = - indicator fs ''macd'' 0"
    "indicator gs ''macd_signal'' 0 = - indicator fs ''macd_signal'' 0"
    "indicator gs ''macd_histogram'' 0 = - indicator fs ''macd_histogram'' 0"
    "indicator gs ''macd_histogram_slope'' 0 = - indicator fs ''macd_histogram_slope'' 0"
    "indicator gs ''ms_bias'' 0 = - indicator fs ''ms_bias'' 0" "indicator gs ''ms_bos'' 0 = - indicator fs ''ms_bos'' 0"
    "indicator gs ''supertrend_direction'' 0 = - indicator fs ''supertrend_direction'' 0"
    "indicator gs ''close_delta'' 0 = - indicator fs ''close_delta'' 0"
    using m by - (rule neg0, elim conjE, assumption)+
  have "indicator gs ''cmf_20'' 0 = - indicator fs ''cmf_20'' 0"
    using m by - (rule neg0, elim conjE, assumption)
  then show "indicator gs (''cmf_'' @ show_int (py_int (num_param cfg ''period'' 20))) (indicator gs ''cmf_20'' 0) = - indicator fs (''cmf_'' @ show_int (py_int (num_param cfg ''period'' 20))) (indicator fs ''cmf_20'' 0)"
    using m by (simp only:) (rule neg, elim conjE, assumption)
  show "indicator gs ''ema_12'' d = indicator fs ''ema_12'' d" "indicator gs ''ema_26'' d = indicator fs ''ema_26'' d"
    "indicator gs ''adx_14'' d = indicator fs ''adx_14'' d" "indicator gs ''supertrend'' d = indicator fs ''supertrend'' d"
    using m by - (rule same, elim conjE, assumption)+
  have "indicator gs ''volume_ratio_20'' 1 = indicator fs ''volume_ratio_20'' 1"
    using m by - (rule same, elim conjE, assumption)
  then show "indicator gs (''volume_ratio_'' @ show_int (py_int (num_param cfg ''period'' 20))) (indicator gs ''volume_ratio_20'' 1) = indicator fs (''volume_ratio_'' @ show_int (py_int (num_param cfg ''period'' 20))) (indicator fs ''volume_ratio_20'' 1)"
    using m by (simp only:) (rule same, elim conjE, assumption)
qed (insert assms [unfolded mirrored_def], (elim conjE, assumption)+)

lemma finish_mirror:
  assumes "finish_signal cfg fs ctx conf mc refs fa x = Inr s" "finish_signal cfg gs ctx' conf' mc refs' fa' y = Inr t"
    and "conf' = conf" "fst y = opposite (fst x)"
  shows "sig_side t = opposite (sig_side s) \<and> sig_confidence t = sig_confidence s"
  using finish_outcome [OF assms(1)] finish_outcome [OF assms(2)] assms(3,4) by simp

lemma choose_swap: "(b' \<longleftrightarrow> a) \<Longrightarrow> (a' \<longleftrightarrow> b) \<Longrightarrow> choose_side a' b' = opposite (choose_side a b)"
  by (auto simp: choose_side_def)

lemma side_filters:
  "sd' = opposite sd \<Longrightarrow> fst (trend_filter r (flipped ctx) (sd', u)) = opposite (fst (trend_filter r ctx (sd, v)))"
  "sd' = opposite sd \<Longrightarrow> e = - d \<Longrightarrow>
     fst (price_alignment r e (sd', u)) = opposite (fst (price_alignment r d (sd, v)))"
  by (auto simp: filter_sides)

lemma mirror_macd:
  assumes "mirrored cfg fs gs" "macd_momentum cfg fs ctx = Inr s" "macd_momentum cfg gs (flipped ctx) = Inr t"
  shows "sig_side t = opposite (sig_side s) \<and> sig_confidence t = sig_confidence s"
proof (rule finish_mirror [OF assms(2,3) [unfolded macd_momentum_def Let_def]], goal_cases)
  case 1
  show ?case by (simp add: mirror_indicators [OF assms(1)] macd_confidence_def)
next
  case 2
  show ?case unfolding mirror_indicators [OF assms(1)] by (rule side_filters choose_swap; auto)+
qed

lemma mirror_supertrend:
  assumes "mirrored cfg fs gs" "supertrend_trend cfg fs ctx = Inr s" "supertrend_trend cfg gs (flipped ctx) = Inr t"
  shows "sig_side t = opposite (sig_side s) \<and> sig_confidence t = sig_confidence s"
proof (rule finish_mirror [OF assms(2,3) [unfolded supertrend_trend_def Let_def]], goal_cases)
  case 1
  show ?case by (simp add: mirror_indicators [OF assms(1)] supertrend_confidence_def)
next
  case 2
  show ?case unfolding mirror_indicators [OF assms(1)] by (rule side_filters; auto)+
qed

lemma mirror_structure:
  assumes "mirrored cfg fs gs" "market_structure cfg fs ctx = Inr s" "market_structure cfg gs (flipped ctx) = Inr t"
  shows "sig_side t = opposite (sig_side s) \<and> sig_confidence t = sig_confidence s"
proof (rule finish_mirror [OF assms(2,3) [unfolded market_structure_def Let_def]], goal_cases)
  case 1
  show ?case by (simp add: mirror_indicators [OF assms(1)] market_structure_confidence_def)
next
  case 2
  show ?case unfolding mirror_indicators [OF assms(1)] by (rule side_filters choose_swap; auto)+
qed

lemma mirror_volume:
  assumes "mirrored cfg fs gs" "volume_order_flow cfg fs ctx = Inr s" "volume_order_flow cfg gs (flipped ctx) = Inr t"
  shows "sig_side t = opposite (sig_side s) \<and> sig_confidence t = sig_confidence s"
proof (rule finish_mirror [OF assms(2,3) [unfolded volume_order_flow_def Let_def]], goal_cases)
  case 1
  show ?case unfolding mirror_indicators [OF assms(1)] by (simp add: volume_flow_confidence_def)
next
  case 2
  show ?case unfolding mirror_indicators [OF assms(1)] by (rule side_filters choose_swap; auto)+
qed

lemma mirror_adx:
  assumes "mirrored cfg fs gs" "list_param cfg ''regime_filter'' = []"
    and "adx_trend_strength cfg fs ctx = Inr s" "adx_trend_strength cfg gs (flipped ctx) = Inr t"
  shows "sig_side t = opposite (sig_side s) \<and> sig_confidence t = sig_confidence s"
proof (rule finish_mirror [OF assms(3,4) [unfolded adx_trend_strength_def Let_def assms(2)]], goal_cases)
  case 1
  show ?case by (simp add: mirror_indicators [OF assms(1)] abs_minus_commute)
next
  case 2
  show ?case unfolding mirror_indicators [OF assms(1)] filter_sides(3)
    by (rule side_filters choose_swap; auto simp: abs_minus_commute)+
qed

lemma mirror_ema:
  assumes "mirrored cfg fs gs" "ema_crossover cfg fs ctx = Inr s" "ema_crossover cfg gs (flipped ctx) = Inr t"
  shows "sig_side t = opposite (sig_side s) \<and> sig_confidence t = sig_confidence s"
proof -
  let ?bull = "dict_get_or (flags fs) ''ema_cross_bullish'' False"
  let ?bear = "dict_get_or (flags fs) ''ema_cross_bearish'' False"
  have conf: "ema_confidence gs (flipped ctx) ?bear ?bull = ema_confidence fs ctx ?bull ?bear"
    by (simp add: ema_confidence_def mirror_indicators [OF assms(1)])
  have swap: "choose_side ?bear ?bull = opposite (choose_side ?bull ?bear)" by (rule choose_swap) auto
  show ?thesis
    using assms(2,3)
    by (auto simp: ema_crossover_def Let_def mirror_indicators [OF assms(1)] conf swap dest!: built_side
        split: if_splits prod.splits)
qed

text \<open>The directional strategies have no bias. On a market seen upside down, with momentum,
  structure and flow negated, directional indicators, cross flags and trend swapped, each
  of the six answers with the opposite side and the very same confidence (for the ADX
  strategy, when no regime list is configured, since regimes are named by their trend).\<close>

theorem strategies_mirror:
  assumes "(i, analyze) \<in> directional" and "mirrored cfg fs gs"
    and "list_param cfg ''regime_filter'' = []"
    and "analyze cfg fs ctx = Inr s" and "analyze cfg gs (flipped ctx) = Inr t"
  shows "sig_side t = opposite (sig_side s) \<and> sig_confidence t = sig_confidence s"
proof -
  from assms(1) have "analyze \<in> {ema_crossover, macd_momentum, adx_trend_strength, supertrend_trend,
      volume_order_flow, market_structure}"
    unfolding directional_def insert_iff prod.inject by blast
  then show ?thesis
  proof (elim insertE emptyE)
    assume a: "analyze = ema_crossover"
    show ?thesis by (rule mirror_ema [OF assms(2) assms(4,5) [unfolded a]])
  next
    assume a: "analyze = macd_momentum"
    show ?thesis by (rule mirror_macd [OF assms(2) assms(4,5) [unfolded a]])
  next
    assume a: "analyze = adx_trend_strength"
    show ?thesis by (rule mirror_adx [OF assms(2,3) assms(4,5) [unfolded a]])
  next
    assume a: "analyze = supertrend_trend"
    show ?thesis by (rule mirror_supertrend [OF assms(2) assms(4,5) [unfolded a]])
  next
    assume a: "analyze = volume_order_flow"
    show ?thesis by (rule mirror_volume [OF assms(2) assms(4,5) [unfolded a]])
  next
    assume a: "analyze = market_structure"
    show ?thesis by (rule mirror_structure [OF assms(2) assms(4,5) [unfolded a]])
  qed
qed


subsection \<open>A concrete provider\<close>

definition demo_provider_config :: provider_config where
  "demo_provider_config = \<lparr>pc_provider_id = ''macd_momentum'', pc_version = ''v1'', pc_enabled = True, pc_weight = 1,
     pc_params = \<lparr>par_nums = [], par_flags = [], par_texts = [], par_lists = []\<rparr>\<rparr>"

definition demo_files :: "(string \<times> provider_config) list option" where
  "demo_files = Some [(''macd.yaml'', demo_provider_config)]"

definition demo_momentum :: "real \<Rightarrow> feature_set" where
  "demo_momentum x = \<lparr>feature_set_id = ''fs'', fs_symbol = ''BTC'', fs_timeframe = ''1h'', fs_event_time = 0,
     fs_processing_time = 0, feature_version = ''v2'', config_hash = ''h'', fs_close = 100,
     indicators = [(''macd'', 2 * x), (''macd_signal'', x), (''macd_histogram'', x), (''macd_histogram_slope'', x)],
     flags = [], levels = []\<rparr>"

definition demo_strategy_runtime :: "(unit, unit) runtime" where
  "demo_strategy_runtime = demo_runtime\<lparr>rt_emit := False, rt_providers := [\<lparr>prov_id = ''macd_momentum'',
     prov_enabled = True, prov_analyze = macd_momentum demo_provider_config\<rparr>]\<rparr>"

lemmas demo_provider_simps = demo_provider_config_def demo_momentum_def num_param_def flag_param_def
  indicator_def dict_get_or_def

lemma demo_accepted: "accepted demo_provider_config"
  by (simp add: accepted_def demo_provider_simps provider_config_valid_def threshold_of_def threshold_ok_def
      provider_classes_def dict_keys_def)

lemma demo_loaded: "load_providers provider_classes demo_files = Inr (rt_providers demo_strategy_runtime)"
  by (simp add: load_providers_def discover_provider_configs_def demo_files_def instantiate_provider_def
      provider_classes_def demo_strategy_runtime_def demo_provider_config_def)

lemma demo_discovered: "discover_provider_configs demo_files = [demo_provider_config]"
  by (simp add: discover_provider_configs_def demo_files_def)

lemma demo_buy:
  "\<exists>s. macd_momentum demo_provider_config (demo_momentum 1) demo_context = Inr s \<and> sig_side s = BUY
     \<and> sig_confidence s = 0.95 \<and> sig_stop_loss s = Some 97 \<and> sig_take_profit s = Some 106
     \<and> provider_id s = ''macd_momentum'' \<and> provider_weight s = 1"
  by (simp add: macd_momentum_def demo_provider_simps choose_side_def macd_confidence_def clamp_def
      demo_context_def trend_filter_def finish_signal_def atr_stops_def build_signal_Inr mk_rationale_def
      provider_weight_def Let_def)

theorem strategies_well_typed_witness:
  "\<exists>pv. instantiate_provider provider_classes demo_provider_config = Inr pv
     \<and> (\<exists>s. prov_analyze pv (demo_momentum 1) demo_context = Inr s \<and> sig_confidence s \<le> 1)"
  using strategies_well_typed [OF demo_accepted] by blast


definition demo_single :: engine_config where
  "demo_single = demo_engine_config\<lparr>ec_aggregation := \<lparr>min_agreeing_providers = 1, ac_method = Majority\<rparr>\<rparr>"

lemma demo_single_approves:
  assumes "sig_side s = BUY" "sig_confidence s = 0.95" "sig_stop_loss s = Some 97" "sig_take_profit s = Some 106"
    and "provider_id s = ''macd_momentum''" "provider_weight s = 1"
  shows "\<exists>d k fs. process unary_env demo_single [s] demo_context demo_snapshot demo_meta 0 = Inr (d, k)
     \<and> dec_final_signal d = Some fs"
proof -
  have on: "on_side BUY [s] = [s]" "on_side SELL [s] = []" using assms by (simp_all add: on_side_def)
  let ?a = "\<lparr>as_side = BUY, as_confidence = 0.95, as_weights = [(''macd_momentum'', 1)], as_dissent = []\<rparr>"
  have c: "combine (ec_aggregation demo_single) [s] = Inr (Agg_success ?a)"
    using assms by (simp add: combine_def demo_single_def
        combine_majority_cases [OF refl refl] on agg_success_def agg_confidence_of_def Let_def
        weight_dict_def dict_set_def)
  have f: "sr_passed (market_filter_check (ec_filter demo_single) demo_context)"
    by (simp add: market_filter_passes_iff demo_single_def demo_engine_simps session_name_def)
  have r: "rv_passed (risk_evaluate (ec_risk demo_single) ?a demo_snapshot)"
    by (simp add: risk_evaluate_passes_iff demo_single_def demo_engine_simps)
  have rr: "risk_reward_of 100 97 106 = 2"
    by (simp add: risk_reward_of_def py_round_def)
  obtain fs where b: "build_final_signal unary_env (ec_risk demo_single) ?a [s] demo_context
      demo_snapshot (dm_decision_time demo_meta) (dm_revision_id demo_meta) (Suc 0) = Inr fs" "risk_reward fs = 2"
    using assms by (simp add: build_final_signal_def demo_single_def demo_engine_simps merge_levels_def level_values_def
        level_or_default_def weighted_avg_def Let_def dict_keys_def dict_get_or_def
        mk_final_signal_def final_signal_valid_def vol_multiplier_def rr)
  have "rv_passed (finalize_verdict (ec_risk demo_single)
      (risk_evaluate (ec_risk demo_single) ?a demo_snapshot) fs demo_snapshot)"
    using r b by (simp add: finalize_verdict_def Let_def demo_single_def demo_engine_config_def)
  with f c r b show ?thesis by (simp add: process_def Let_def)
qed

theorem strategy_decision_brackets_price_witness:
  "\<forall>c. \<exists>s' sigs d k fs. collect_signals unary_env demo_strategy_runtime (demo_momentum 1) demo_context
       (rt_providers demo_strategy_runtime) (demo_platform, c) = (s', Inr sigs)
     \<and> process unary_env demo_single sigs demo_context demo_snapshot demo_meta 0 = Inr (d, k)
     \<and> dec_final_signal d = Some fs \<and> fin_entry_price fs = 100"
proof
  fix c
  obtain s where s: "macd_momentum demo_provider_config (demo_momentum 1) demo_context = Inr s" "sig_side s = BUY"
    "sig_confidence s = 0.95" "sig_stop_loss s = Some 97" "sig_take_profit s = Some 106"
    "provider_id s = ''macd_momentum''" "provider_weight s = 1"
    using demo_buy by blast
  have col: "collect_signals unary_env demo_strategy_runtime (demo_momentum 1) demo_context
       (rt_providers demo_strategy_runtime) (demo_platform, c) = ((demo_platform, c), Inr [s])"
    by (simp add: demo_strategy_runtime_def s(1) seq_def emit_def)
  from demo_single_approves [OF s(2-)] obtain d k fs where
    pr: "process unary_env demo_single [s] demo_context demo_snapshot demo_meta 0 = Inr (d, k)"
      "dec_final_signal d = Some fs" by blast
  have dis: "distinct (map pc_provider_id (discover_provider_configs demo_files))"
    and pos: "\<forall>cfg \<in> set (discover_provider_configs demo_files). provider_config_valid cfg \<and> positive_levels cfg"
    and cfg: "engine_config_valid demo_single"
    by (simp_all add: demo_discovered provider_config_valid_def positive_levels_def demo_provider_simps demo_single_def
        demo_engine_config_def demo_agg_config_def engine_config_valid_def risk_config_valid_def aggregation_config_valid_def)
  have "fin_entry_price fs = current_price demo_context"
    using strategy_decision_brackets_price [OF demo_loaded dis pos col _ _ pr(1) cfg pr(2)]
    by (simp add: demo_context_def)
  with col pr show "\<exists>s' sigs d k fs. collect_signals unary_env demo_strategy_runtime (demo_momentum 1) demo_context
       (rt_providers demo_strategy_runtime) (demo_platform, c) = (s', Inr sigs)
     \<and> process unary_env demo_single sigs demo_context demo_snapshot demo_meta 0 = Inr (d, k)
     \<and> dec_final_signal d = Some fs \<and> fin_entry_price fs = 100"
    by (fastforce simp: demo_context_def)
qed

theorem strategies_mirror_witness:
  "\<exists>s t. macd_momentum demo_provider_config (demo_momentum 1) demo_context = Inr s \<and> sig_side s = BUY
     \<and> macd_momentum demo_provider_config (demo_momentum (- 1)) (flipped demo_context) = Inr t
     \<and> sig_side t = SELL \<and> sig_confidence t = sig_confidence s"
proof -
  obtain s where s: "macd_momentum demo_provider_config (demo_momentum 1) demo_context = Inr s" "sig_side s = BUY"
    using demo_buy by blast
  obtain t where t: "macd_momentum demo_provider_config (demo_momentum (- 1)) (flipped demo_context) = Inr t"
    using macd.returns [of demo_provider_config]
    by (auto simp: demo_provider_simps threshold_ok_def)
  have m: "mirrored demo_provider_config (demo_momentum 1) (demo_momentum (- 1))"
    by (simp add: mirrored_def demo_provider_simps negated_def kept_at_def)
  have l: "list_param demo_provider_config ''regime_filter'' = []"
    by (simp add: list_param_def demo_provider_simps)
  have d: "(''macd_momentum'', macd_momentum) \<in> directional" by (simp add: directional_def)
  from strategies_mirror [OF d m l s(1) t] s t show ?thesis by auto
qed

end
