(* ===== verification/MarketCache.thy ===== *)
theory MarketCache
  imports MarketData
begin

text \<open>
  \<^verbatim>\<open>backend/src/data/market_cache.py\<close>: calendar arithmetic on the requested range, and the
  continuous cache, one CSV per exchange, symbol and timeframe, extended by fetching the
  gaps. The file is its rows, or absent; the fetch of a range is a parameter.
\<close>


subsection \<open>Months back\<close>

record civil_date =
  year :: int
  month :: int
  day :: int

definition leap_year :: "int \<Rightarrow> bool" where
  "leap_year y \<longleftrightarrow> y mod 4 = 0 \<and> (y mod 100 \<noteq> 0 \<or> y mod 400 = 0)"

definition days_in_month :: "int \<Rightarrow> int \<Rightarrow> int" where
  "days_in_month y m =
     (if m = 2 then (if leap_year y then 29 else 28)
      else if m \<in> {4, 6, 9, 11} then 30 else 31)"

definition valid_date :: "civil_date \<Rightarrow> bool" where
  "valid_date d \<longleftrightarrow> 1 \<le> year d \<and> year d \<le> 9999 \<and> 1 \<le> month d \<and> month d \<le> 12
     \<and> 1 \<le> day d \<and> day d \<le> days_in_month (year d) (month d)"

function carry_months :: "int \<Rightarrow> int \<Rightarrow> int \<times> int" where
  "carry_months y m = (if m < 1 then carry_months (y - 1) (m + 12) else (y, m))"
  by pat_completeness auto
termination by (relation "measure (\<lambda>(y, m). nat (1 - m))") auto

declare carry_months.simps [simp del]

text \<open>\<^verbatim>\<open>dt.replace\<close> raises when the year leaves the range of the datetime class, and so does
  \<^verbatim>\<open>calendar.monthrange\<close> for year zero or less. Subtracting a negative number of
  months is an error of monthrange once the month passes twelve.\<close>

definition subtract_months :: "civil_date \<Rightarrow> int \<Rightarrow> civil_date result" where
  "subtract_months d months =
     (case carry_months (year d) (month d - months) of (y, m) \<Rightarrow>
        if m > 12 then Inl (ValueError ''bad month number'')
        else if y < 1 \<or> 9999 < y then Inl (ValueError ''year is out of range'')
        else Inr (d\<lparr>year := y, month := m, day := min (day d) (days_in_month y m)\<rparr>))"

definition month_index :: "civil_date \<Rightarrow> int" where
  "month_index d = year d * 12 + month d"

lemma carry_months_spec:
  "carry_months y m = (y', m') \<Longrightarrow>
   y' * 12 + m' = y * 12 + m \<and> 1 \<le> m' \<and> (m \<le> 12 \<longrightarrow> m' \<le> 12) \<and> y' \<le> y"
proof (induction y m arbitrary: y' m' rule: carry_months.induct)
  case (1 y m)
  show ?case
  proof (cases "m < 1")
    case True
    from "1.prems" True have "carry_months (y - 1) (m + 12) = (y', m')"
      by (subst (asm) carry_months.simps) simp
    from "1.IH" [OF True this] True show ?thesis by auto
  next
    case False
    with "1.prems" show ?thesis by (subst (asm) carry_months.simps) simp
  qed
qed

lemma days_in_month_bounds: "28 \<le> days_in_month y m \<and> days_in_month y m \<le> 31"
  by (simp add: days_in_month_def)

text \<open>Going back a number of months lands exactly that many calendar months earlier, on
  a day that exists there: the same day, or the month's last day when the month is too
  short. It fails only when the year would leave the calendar.\<close>

theorem subtract_months_exact:
  assumes "valid_date d" and "0 \<le> months"
  shows "case subtract_months d months of
      Inr d' \<Rightarrow> valid_date d' \<and> month_index d' = month_index d - months \<and> day d' \<le> day d
        \<and> (day d \<le> days_in_month (year d') (month d') \<longrightarrow> day d' = day d)
        \<and> (day d' < day d \<longrightarrow> day d' = days_in_month (year d') (month d'))
    | Inl e \<Rightarrow> month_index d - months < 13"
proof -
  obtain y m where c: "carry_months (year d) (month d - months) = (y, m)" by fastforce
  from carry_months_spec [OF c] assms have
    s: "y * 12 + m = year d * 12 + (month d - months)" "1 \<le> m" "m \<le> 12" "y \<le> year d"
    by (auto simp: valid_date_def)
  show ?thesis
  proof (cases "y < 1")
    case True
    with s show ?thesis by (simp add: subtract_months_def c month_index_def)
  next
    case False
    with s assms days_in_month_bounds [of y m] show ?thesis
      by (auto simp: subtract_months_def c month_index_def valid_date_def min_def)
  qed
qed

theorem subtract_months_exact_witness:
  "\<exists>d. subtract_months \<lparr>year = 2024, month = 3, day = 31\<rparr> 13 = Inr d \<and> valid_date d
     \<and> month_index d = 2023 * 12 + 2 \<and> day d = 28"
proof -
  have v: "valid_date \<lparr>year = 2024, month = 3, day = 31\<rparr>"
    by (simp add: valid_date_def days_in_month_def)
  obtain d where r: "subtract_months \<lparr>year = 2024, month = 3, day = 31\<rparr> 13 = Inr d" and "day d = 28"
    by (simp add: subtract_months_def carry_months.simps days_in_month_def leap_year_def)
  moreover from subtract_months_exact [OF v, of 13] r have "valid_date d \<and> month_index d = 2023 * 12 + 2"
    by (simp add: month_index_def)
  ultimately show ?thesis by auto
qed


subsection \<open>The cache file\<close>

type_synonym cache_file = "frame option"

text \<open>\<^verbatim>\<open>read_coverage\<close> over \<^verbatim>\<open>csv_summary\<close>: the timestamps of the first and the last line.\<close>

definition read_coverage :: "cache_file \<Rightarrow> (datetime \<times> datetime) option" where
  "read_coverage f =
     (case f of None \<Rightarrow> None
      | Some rows \<Rightarrow> if rows = [] then None else Some (fst (hd rows), fst (last rows)))"

text \<open>\<^verbatim>\<open>drop_duplicates(keep="last")\<close> and the sort.\<close>

definition keep_last :: "frame \<Rightarrow> frame" where
  "keep_last df = rev (drop_duplicates (rev df))"

definition merge_ohlcv :: "frame \<Rightarrow> frame \<Rightarrow> frame" where
  "merge_ohlcv existing new =
     (let combined = (if existing = [] then new else if new = [] then existing else existing @ new)
      in if combined = [] then combined else sort_frame (keep_last combined))"

definition contains :: "string \<Rightarrow> string \<Rightarrow> bool" where
  "contains needle hay \<longleftrightarrow> sublist needle hay"

type_synonym fetcher = "datetime \<Rightarrow> datetime \<Rightarrow> frame result"

text \<open>\<^verbatim>\<open>_fetch_ohlcv_df\<close>: a range fetch of a live provider with its default page size, taken at the
  clock reading \<^verbatim>\<open>n\<close>.\<close>

definition fetch_ohlcv_df :: "exchange \<Rightarrow> string \<Rightarrow> string \<Rightarrow> tick \<Rightarrow> fetcher" where
  "fetch_ohlcv_df X symb tf n start end =
     and_then (fetch_ohlcv_range X symb tf 1000 start end n) (\<lambda>(df, _). Inr df)"

definition try_fetch_gap :: "fetcher \<Rightarrow> datetime \<Rightarrow> datetime \<Rightarrow> frame option result" where
  "try_fetch_gap fetch start end =
     (if start > end then Inr None
      else (case fetch start end of
          Inr df \<Rightarrow> Inr (Some df)
        | Inl (DataProviderError m) \<Rightarrow>
            if contains ''No OHLCV bars'' m then Inr None else Inl (DataProviderError m)
        | Inl e \<Rightarrow> Inl e))"

text \<open>A gap counts when it came back with rows.\<close>

definition gap_frames :: "frame option \<Rightarrow> frame list" where
  "gap_frames gap = (case gap of None \<Rightarrow> [] | Some df \<Rightarrow> if df = [] then [] else [df])"

definition download_body ::
  "fetcher \<Rightarrow> bool \<Rightarrow> datetime \<Rightarrow> datetime \<Rightarrow> cache_file \<Rightarrow> (cache_file \<times> bool) result" where
  "download_body fetch force start end f =
     (let coverage = read_coverage f; existing = (case f of None \<Rightarrow> [] | Some rows \<Rightarrow> rows)
      in case coverage of
           None \<Rightarrow> and_then (fetch start end) (\<lambda>new. Inr (Some new, True))
         | Some (first, final) \<Rightarrow>
             if \<not> force \<and> first \<le> start \<and> final \<ge> end then Inr (f, False)
             else if force then
               and_then (fetch start end) (\<lambda>new. Inr (Some (merge_ohlcv existing new), True))
             else
               and_then (if start < first then try_fetch_gap fetch start first else Inr None) (\<lambda>g1.
               and_then (if end > final then try_fetch_gap fetch final end else Inr None) (\<lambda>g2.
                 let frames = gap_frames g1 @ gap_frames g2
                 in if frames = [] then Inr (f, False)
                    else Inr (Some (foldl merge_ohlcv existing frames), True))))"

definition download_csv ::
  "fetcher \<Rightarrow> bool \<Rightarrow> datetime \<Rightarrow> datetime \<Rightarrow> cache_file \<Rightarrow> (cache_file \<times> bool) result" where
  "download_csv fetch force start end f =
     (case download_body fetch force start end f of
        Inr r \<Rightarrow> Inr r
      | Inl (DataProviderError m) \<Rightarrow> Inl (DataProviderError m)
      | Inl e \<Rightarrow> Inl (DataProviderError ''Failed to download market data from ''))"

text \<open>\<^verbatim>\<open>get_or_download_csv\<close>.\<close>

definition get_or_download ::
  "fetcher \<Rightarrow> datetime \<Rightarrow> datetime \<Rightarrow> cache_file \<Rightarrow> cache_file result" where
  "get_or_download fetch start end f =
     and_then (download_csv fetch False start end f) (\<lambda>(f', _). Inr f')"


subsection \<open>What a download leaves in the cache\<close>

text \<open>A fixed series, the rows of it in a range, and a fetch that serves it: the rows of the range,
  or a provider error, whatever its message, when there are none.\<close>

definition between :: "datetime \<Rightarrow> datetime \<Rightarrow> frame \<Rightarrow> frame" where
  "between s e series = filter (\<lambda>r. s \<le> fst r \<and> fst r \<le> e) series"

definition fetches :: "fetcher \<Rightarrow> frame \<Rightarrow> bool" where
  "fetches fetch series \<longleftrightarrow> sorted (map fst series) \<and> distinct (map fst series)
     \<and> (\<forall>s e. s \<le> e \<longrightarrow> (if between s e series = []
          then \<exists>m. fetch s e = Inl (DataProviderError m) else fetch s e = Inr (between s e series)))"

text \<open>The program's own fetcher is one, on an exchange that serves the series.\<close>

lemma own_fetcher_fetches:
  assumes "serves X symb tf series"
  shows "fetches (fetch_ohlcv_df X symb tf n) (series_frame series)"
  unfolding fetches_def
proof (intro conjI allI impI)
  show "sorted (map fst (series_frame series))" "distinct (map fst (series_frame series))"
    by (rule series_frame_rows [OF assms])+
  fix s e :: datetime
  assume "s \<le> e"
  from range_rows [OF assms _ this, of 1000 n]
  show "if between s e (series_frame series) = []
    then \<exists>m. fetch_ohlcv_df X symb tf n s e = Inl (DataProviderError m)
    else fetch_ohlcv_df X symb tf n s e = Inr (between s e (series_frame series))"
    by (auto simp: fetch_ohlcv_df_def between_def split: sum.splits)
qed

text \<open>The cache has no hole: it holds the whole series between its first and last row.\<close>

definition hole_free :: "frame \<Rightarrow> cache_file \<Rightarrow> bool" where
  "hole_free series f =
     (case read_coverage f of None \<Rightarrow> True
      | Some (first, final) \<Rightarrow> f = Some (between first final series))"

lemma frame_eqI:
  assumes "sorted (map fst xs)" "distinct (map fst xs)" "sorted (map fst ys)" "distinct (map fst ys)"
    and "set xs = set (ys :: frame)"
  shows "xs = ys"
  using assms
proof (induction xs arbitrary: ys)
  case (Cons x xs)
  then obtain y ys' where ys: "ys = y # ys'" by (cases ys) auto
  have "x = y"
  proof (rule ccontr)
    assume "x \<noteq> y"
    with Cons.prems(5) ys have "x \<in> set ys'" "y \<in> set xs" by auto
    with Cons.prems ys have "fst x = fst y" by fastforce
    with \<open>y \<in> set xs\<close> Cons.prems(2) show False by (auto simp: image_iff)
  qed
  moreover have "x \<notin> set xs" "y \<notin> set ys'" using Cons.prems ys by (auto simp: distinct_map)
  ultimately have "set xs = set ys'" using Cons.prems(5) ys by (auto simp: insert_ident)
  with Cons ys \<open>x = y\<close> show ?case by simp
qed simp

lemma between_simps:
  assumes "sorted (map fst series)" "distinct (map fst series)"
  shows "sorted (map fst (between s e series))" "distinct (map fst (between s e series))"
  using assms by (simp_all add: between_def sorted_filter distinct_map_filter)

lemma keep_last_set:
  assumes "set df \<subseteq> set series" and "distinct (map fst series)"
  shows "set (keep_last df) = set df" and "distinct (map fst (keep_last df))"
proof -
  let ?r = "drop_duplicates (rev df)"
  have sub: "set ?r \<subseteq> set df" "fst ` set ?r = fst ` set df" using drop_duplicates_set [of "rev df"] by auto
  have inj: "inj_on fst (set series)" using assms(2) by (simp add: distinct_map)
  have "set df \<subseteq> set ?r"
  proof
    fix x assume x: "x \<in> set df"
    then have "fst x \<in> fst ` set ?r" by (simp add: sub)
    then obtain y where "y \<in> set ?r" "fst y = fst x" by auto
    moreover with sub x assms(1) inj have "y = x" by (meson inj_onD subsetD)
    ultimately show "x \<in> set ?r" by simp
  qed
  with sub show "set (keep_last df) = set df" by (auto simp: keep_last_def)
  show "distinct (map fst (keep_last df))"
    by (simp add: keep_last_def rev_map [symmetric] drop_duplicates_distinct)
qed

lemma merge_ohlcv_series:
  assumes "set a \<subseteq> set series" "set b \<subseteq> set series" "distinct (map fst series)"
  shows "set (merge_ohlcv a b) = set a \<union> set b" "sorted (map fst (merge_ohlcv a b))"
    "distinct (map fst (merge_ohlcv a b))"
proof -
  let ?c = "if a = [] then b else if b = [] then a else a @ b"
  have m: "merge_ohlcv a b = sort_frame (keep_last ?c)"
    by (auto simp: merge_ohlcv_def Let_def keep_last_def)
  have sub: "set ?c \<subseteq> set series" and c: "set ?c = set a \<union> set b" using assms(1,2) by auto
  show "set (merge_ohlcv a b) = set a \<union> set b" "sorted (map fst (merge_ohlcv a b))"
    unfolding m using keep_last_set(1) [OF sub assms(3)] c by simp_all
  have "distinct (map fst (sort_key fst xs))" if "distinct (map fst xs)" for xs :: frame
    using that by (simp add: distinct_map)
  then show "distinct (map fst (merge_ohlcv a b))"
    unfolding m sort_frame_def using keep_last_set(2) [OF sub assms(3)] by blast
qed

text \<open>The window of a gap includes the cached bar at its end, so it is never empty and the error of an
  empty range does not arise.\<close>

lemma gap_series:
  assumes "fetches fetch series" and "s < e \<Longrightarrow> between s e series \<noteq> []"
  shows "\<exists>g. (if s < e then try_fetch_gap fetch s e else Inr None) = Inr g
    \<and> concat (gap_frames g) = (if s < e then between s e series else [])"
  using assms by (auto simp: fetches_def try_fetch_gap_def gap_frames_def)

lemma foldl_merge_series:
  assumes "\<forall>g \<in> set gs. set g \<subseteq> set series" "set a \<subseteq> set series" "distinct (map fst series)" "gs \<noteq> []"
  shows "set (foldl merge_ohlcv a gs) = set a \<union> set (concat gs)
    \<and> sorted (map fst (foldl merge_ohlcv a gs)) \<and> distinct (map fst (foldl merge_ohlcv a gs))"
  using assms(1,2,4)
proof (induction gs arbitrary: a)
  case (Cons g gs)
  from Cons.prems have g: "set g \<subseteq> set series" and gs: "\<forall>g \<in> set gs. set g \<subseteq> set series" by auto
  note m = merge_ohlcv_series [OF Cons.prems(2) g assms(3)]
  show ?case
  proof (cases "gs = []")
    case True
    with m show ?thesis by simp
  next
    case False
    have "set (merge_ohlcv a g) \<subseteq> set series" using m(1) g Cons.prems(2) by simp
    from Cons.IH [OF gs this False] m(1) show ?thesis by (simp add: Un_assoc)
  qed
qed simp

lemma coverage_between:
  assumes "hole_free series (Some rows)" "rows \<noteq> []"
  shows "rows = between (fst (hd rows)) (fst (last rows)) series"
  using assms by (simp add: hole_free_def read_coverage_def)

lemma between_continuous:
  assumes srt: "sorted (map fst series)" "distinct (map fst series)"
  shows "hole_free series (Some (between s e series))"
proof (cases "between s e series = []")
    case False
    let ?B = "between s e series"
    have "?B = between (fst (hd ?B)) (fst (last ?B)) series"
    proof (rule frame_eqI)
      have so: "sorted (map fst ?B)" by (rule between_simps [OF srt])
      have lo: "fst (hd ?B) \<le> fst r" and hi: "fst r \<le> fst (last ?B)" if "r \<in> set ?B" for r
      proof -
        from that obtain i where i: "i < length ?B" "r = ?B ! i" by (auto simp: in_set_conv_nth)
        show "fst (hd ?B) \<le> fst r"
          using sorted_nth_mono [OF so, of 0 i] i False by (simp add: hd_conv_nth)
        show "fst r \<le> fst (last ?B)"
          using sorted_nth_mono [OF so, of i "length ?B - 1"] i False by (simp add: last_conv_nth)
      qed
      have "hd ?B \<in> set ?B" "last ?B \<in> set ?B" using False by simp_all
      then have "s \<le> fst (hd ?B)" "fst (last ?B) \<le> e" by (auto simp: between_def)
      then show "set ?B = set (between (fst (hd ?B)) (fst (last ?B)) series)"
        using lo hi by (auto simp: between_def)
    qed (use between_simps [OF srt] in auto)
    then show ?thesis by (simp add: hole_free_def read_coverage_def)
  qed (simp add: hole_free_def read_coverage_def)

lemma in_frame_ne: "r \<in> set (df :: frame) \<Longrightarrow> df \<noteq> []"
  by auto

lemma download_continuous:
  assumes "fetches fetch series" and "hole_free series f" and "s \<le> e"
  shows "case download_csv fetch False s e f of
      Inl err \<Rightarrow> read_coverage f = None \<and> between s e series = []
    | Inr (f', refreshed) \<Rightarrow> hole_free series f'
        \<and> (\<exists>rows. f' = Some rows \<and> set (between s e series) \<subseteq> set rows
             \<and> (\<forall>old. f = Some old \<longrightarrow> set old \<subseteq> set rows))"
proof (cases "read_coverage f")
  case None
  have f: "f = None \<or> f = Some []" using None by (auto simp: read_coverage_def split: option.splits if_splits)
  have srt: "sorted (map fst series)" "distinct (map fst series)" using assms(1) by (simp_all add: fetches_def)
  note c = between_continuous [OF srt, of s e]
  have "if between s e series = [] then \<exists>m. fetch s e = Inl (DataProviderError m)
      else fetch s e = Inr (between s e series)"
    using assms(1,3) unfolding fetches_def by blast
  with None f c show ?thesis
    by (auto simp: download_csv_def download_body_def Let_def split: if_splits)
next
  case (Some cov)
  then obtain rows where f: "f = Some rows" and ne: "rows \<noteq> []" and cov: "cov = (fst (hd rows), fst (last rows))"
    by (auto simp: read_coverage_def split: option.splits if_splits)
  let ?a = "fst (hd rows)" and ?z = "fst (last rows)"
  have srt: "sorted (map fst series)" "distinct (map fst series)" using assms(1) by (simp_all add: fetches_def)
  have rows: "rows = between ?a ?z series" by (rule coverage_between [OF assms(2) [unfolded f] ne])
  have mem: "r \<in> set rows \<longleftrightarrow> r \<in> set series \<and> ?a \<le> fst r \<and> fst r \<le> ?z" for r
    using arg_cong [OF rows, of set] unfolding between_def by auto
  have ends: "hd rows \<in> set (between ?a ?z series)" "last rows \<in> set (between ?a ?z series)"
    using hd_in_set [OF ne] last_in_set [OF ne] rows by simp_all
  then have az: "?a \<le> ?z" by (simp add: between_def)
  have in1: "between s ?a series \<noteq> []" if "s < ?a"
    using ends(1) that by (intro in_frame_ne [of "hd rows"]) (auto simp: between_def)
  have in2: "between ?z e series \<noteq> []" if "?z < e"
    using ends(2) that by (intro in_frame_ne [of "last rows"]) (auto simp: between_def)
  show ?thesis
  proof (cases "?a \<le> s \<and> ?z \<ge> e")
    case True
    have "set (between s e series) \<subseteq> set rows"
      using True by (auto simp: between_def mem)
    with True Some cov f assms(2) show ?thesis
      by (auto simp: download_csv_def download_body_def Let_def)
  next
    case no: False
    obtain g1 where g1: "(if s < ?a then try_fetch_gap fetch s ?a else Inr None) = Inr g1"
      "concat (gap_frames g1) = (if s < ?a then between s ?a series else [])"
      using gap_series [OF assms(1) in1] by blast
    obtain g2 where g2: "(if e > ?z then try_fetch_gap fetch ?z e else Inr None) = Inr g2"
      "concat (gap_frames g2) = (if e > ?z then between ?z e series else [])"
      using gap_series [OF assms(1) in2] by blast
    let ?gs = "gap_frames g1 @ gap_frames g2"
    let ?L = "min s ?a" and ?U = "max e ?z"
    have gaps: "set (concat ?gs) = (if s < ?a then set (between s ?a series) else {})
        \<union> (if e > ?z then set (between ?z e series) else {})"
      by (simp only: concat_append set_append g1(2) g2(2)) auto
    have all: "set rows \<union> set (concat ?gs) = set (between ?L ?U series)"
      unfolding gaps using az by (auto simp: between_def mem)
    have d: "download_csv fetch False s e f =
        Inr (if ?gs = [] then f else Some (foldl merge_ohlcv rows ?gs), ?gs \<noteq> [])"
      using no Some cov f
      by (auto simp: download_csv_def download_body_def Let_def g1(1) g2(1))
    have new: "(if ?gs = [] then f else Some (foldl merge_ohlcv rows ?gs)) = Some (between ?L ?U series)"
    proof (cases "?gs = []")
      case True
      with all have "set rows = set (between ?L ?U series)" by simp
      moreover have "sorted (map fst rows) \<and> distinct (map fst rows)"
        using between_simps [OF srt, of ?a ?z] by (simp only: rows [symmetric])
      ultimately have "rows = between ?L ?U series"
        by (intro frame_eqI) (simp_all add: between_simps [OF srt])
      with True f show ?thesis by simp
    next
      case False
      have "set rows \<subseteq> set series" by (auto simp: mem)
      moreover have "\<forall>g \<in> set ?gs. set g \<subseteq> set series"
      proof
        fix g assume "g \<in> set ?gs"
        then have "set g \<subseteq> set (concat ?gs)" by auto
        also have "\<dots> \<subseteq> set series" unfolding gaps by (auto simp: between_def)
        finally show "set g \<subseteq> set series" .
      qed
      ultimately have "set (foldl merge_ohlcv rows ?gs) = set (between ?L ?U series)
          \<and> sorted (map fst (foldl merge_ohlcv rows ?gs)) \<and> distinct (map fst (foldl merge_ohlcv rows ?gs))"
        using foldl_merge_series [OF _ _ srt(2) False] all by blast
      then have "foldl merge_ohlcv rows ?gs = between ?L ?U series"
        by (intro frame_eqI) (simp_all add: between_simps [OF srt])
      with False show ?thesis by auto
    qed
    have "set (between s e series) \<subseteq> set (between ?L ?U series)" by (auto simp: between_def)
    moreover have "set rows \<subseteq> set (between ?L ?U series)" using all by blast
    ultimately show ?thesis
      unfolding d new using between_continuous [OF srt, of ?L ?U] f by simp
  qed
qed

text \<open>C35: an extending download keeps the cache free of holes and covers the request. The download
  fetches through the program's own range fetch, from an exchange that serves a fixed series of
  bars at least one timeframe apart. If the cache has no hole with respect to that series, then
  after a download that is not forced it still has none, it has lost no row, and it holds every
  bar of the series in the requested range; the call fails only when there was nothing cached
  and the exchange has no bar in the range.\<close>

theorem download_keeps_cache_continuous:
  assumes "serves X symb tf series" and "hole_free (series_frame series) f" and "s \<le> e"
  shows "case download_csv (fetch_ohlcv_df X symb tf n) False s e f of
      Inl err \<Rightarrow> read_coverage f = None \<and> between s e (series_frame series) = []
    | Inr (f', refreshed) \<Rightarrow> hole_free (series_frame series) f'
        \<and> (\<exists>rows. f' = Some rows \<and> set (between s e (series_frame series)) \<subseteq> set rows
             \<and> (\<forall>old. f = Some old \<longrightarrow> set old \<subseteq> set rows))"
  by (rule download_continuous [OF own_fetcher_fetches [OF assms(1)] assms(2,3)])

definition demo_bars :: "(int \<times> bar) list" where
  "demo_bars = map (\<lambda>t. (t, demo_candle)) [10000, 20000, 30000, 40000, 50000, 60000]"

definition demo_series :: frame where
  "demo_series = series_frame demo_bars"

lemma demo_serves: "serves (serving_exchange demo_bars) symb tf demo_bars"
  by (simp add: serves_def serving_exchange_def demo_bars_def)

lemma demo_series_rows:
  "demo_series = map (\<lambda>t. (t, demo_candle)) [10000000, 20000000, 30000000, 40000000, 50000000, 60000000]"
  by (simp add: demo_series_def series_frame_def demo_bars_def)

theorem download_keeps_cache_continuous_witness:
  "\<exists>f' r. download_csv (fetch_ohlcv_df (serving_exchange demo_bars) ''BTC'' ''1s'' 0) False 20000000 50000000
       (Some (between 30000000 40000000 demo_series)) = Inr (f', r)
     \<and> hole_free demo_series f'"
proof -
  have "hole_free demo_series (Some (between 30000000 40000000 demo_series))"
    by (rule between_continuous) (simp_all add: demo_series_rows)
  then have h: "hole_free (series_frame demo_bars) (Some (between 30000000 40000000 demo_series))"
    by (simp only: demo_series_def)
  have "read_coverage (Some (between 30000000 40000000 demo_series)) \<noteq> None"
    by (simp add: read_coverage_def demo_series_rows between_def)
  with download_keeps_cache_continuous [OF demo_serves h, of 20000000 50000000 "''BTC''" "''1s''" 0]
  show ?thesis unfolding demo_series_def [symmetric] by (auto split: sum.splits)
qed

definition serving_fetch :: "frame \<Rightarrow> fetcher" where
  "serving_fetch series s e = (if between s e series = []
     then Inl (DataProviderError ''No OHLCV bars in range for '') else Inr (between s e series))"

text \<open>A forced download can leave a hole that every later request overlooks. With the bars of
  seconds 10 and 20 cached, a forced download of 50 to 60 merges them into one file, and a request for 10
  to 60, or for the missing bars alone, is then answered from the file unchanged, although
  the exchange has bars 30 and 40.\<close>

theorem forced_download_leaves_hole:
  "\<exists>f. download_csv (serving_fetch demo_series) True 50000000 60000000 (Some (between 10000000 20000000 demo_series)) = Inr (f, True)
     \<and> download_csv (serving_fetch demo_series) False 30000000 40000000 f = Inr (f, False)
     \<and> (\<exists>rows. f = Some rows \<and> between 30000000 40000000 rows = [])
     \<and> between 30000000 40000000 demo_series \<noteq> []"
proof -
  let ?f = "Some (map (\<lambda>t. (t, demo_candle)) [10000000, 20000000, 50000000, 60000000])"
  have "download_csv (serving_fetch demo_series) True 50000000 60000000 (Some (between 10000000 20000000 demo_series)) = Inr (?f, True)"
    by (simp add: download_csv_def download_body_def read_coverage_def demo_series_rows between_def
        serving_fetch_def merge_ohlcv_def keep_last_def sort_frame_def Let_def)
  moreover have "download_csv (serving_fetch demo_series) False 30000000 40000000 ?f = Inr (?f, False)"
    by (simp add: download_csv_def download_body_def read_coverage_def Let_def)
  ultimately show ?thesis by (auto simp: between_def demo_series_rows)
qed

end
