(* ===== verification/Ledger.thy ===== *)
theory Ledger
  imports StateStore
begin

text \<open>
  What the store's money fields mean: an abstract ledger that \<open>apply_transition\<close> refines
  (cash, realised profit, fees and locked notional are conserved), the loss streak as a
  function of the history of closes, and marking to market, including what closing a
  position does to an equity that already contains its unrealised profit.
\<close>


subsection \<open>Conservation\<close>

definition locked :: "store \<Rightarrow> real" where
  "locked s = sum_list (map notional (book s))"

definition market_value :: "position_state \<Rightarrow> real" where
  "market_value p = notional p + unrealized_pnl p"

definition entry_fee :: "transition_body \<Rightarrow> real" where
  "entry_fee b = (case b of Position_opened p f c \<Rightarrow> c - notional p | _ \<Rightarrow> 0)"

definition entry_fees :: "state_transition list \<Rightarrow> real" where
  "entry_fees trs = sum_list (map (entry_fee \<circ> tr_body) trs)"

text \<open>A history in which no identifier is opened while it is open.\<close>

fun ids_fresh :: "string list \<Rightarrow> state_transition list \<Rightarrow> bool" where
  "ids_fresh ids [] = True"
| "ids_fresh ids (tr # trs) =
     (keeps_book tr
      \<and> (\<forall>p \<in> set (opens tr). position_id p \<notin> set ids)
      \<and> ids_fresh (filter (\<lambda>i. i \<notin> set (closes tr)) ids @ map position_id (opens tr)) trs)"

lemma sum_filter_found:
  assumes "distinct (map position_id ps)"
  shows "sum_list (map f ps) = (sum_list (map f (filter (\<lambda>p. position_id p \<noteq> i) ps))
     + (case List.find (\<lambda>p. position_id p = i) ps of None \<Rightarrow> 0 | Some c \<Rightarrow> f c) :: real)"
  using assms
proof (induction ps)
  case (Cons p ps)
  show ?case
  proof (cases "position_id p = i")
    case True
    with Cons.prems have "\<forall>q \<in> set ps. position_id q \<noteq> i" by (auto simp: image_iff)
    then have "filter (\<lambda>q. position_id q \<noteq> i) ps = ps" by simp
    with True show ?thesis by (simp add: algebra_simps)
  next
    case False
    with Cons show ?thesis by (simp add: algebra_simps)
  qed
qed simp

lemma find_by_id:
  "distinct (map position_id ps) \<Longrightarrow> p \<in> set ps \<Longrightarrow>
   List.find (\<lambda>q. position_id q = position_id p) ps = Some p"
  by (induction ps) (auto simp: image_iff)

definition balance :: "store \<Rightarrow> real" where
  "balance s = cash (st_portfolio s) + locked s - realized_pnl (st_portfolio s)"

lemma balance_step:
  assumes "keeps_book tr" and "distinct (map position_id (book s))"
  shows "balance (step_of tr s) = balance s - entry_fee (tr_body tr)"
proof (cases "tr_body tr")
  case (Position_closed i f x r)
  then show ?thesis
    using sum_filter_found [OF assms(2), of notional i]
    by (simp add: step_of_def balance_def locked_def entry_fee_def cash_closed)
qed (use assms in \<open>simp_all add: step_of_def balance_def locked_def entry_fee_def comp_def
       keeps_book_def\<close>)

lemma balance_steps:
  assumes "ids_fresh (map position_id (book s)) trs" and "distinct (map position_id (book s))"
  shows "balance (run_bodies trs s) = balance s - entry_fees trs"
  using assms
proof (induction trs arbitrary: s)
  case (Cons tr trs)
  then have kb: "keeps_book tr" and fresh: "\<forall>p \<in> set (opens tr). position_id p \<notin> position_id ` set (book s)"
    by simp_all
  have "distinct (map position_id (book (step_of tr s)))"
    by (rule store_book.ids_distinct_step [OF kb Cons.prems(2) fresh])
  moreover have "ids_fresh (map position_id (book (step_of tr s))) trs"
    using Cons.prems(1) by (simp add: store_book.ids_step [OF kb])
  ultimately have "balance (run_bodies trs (step_of tr s)) = balance (step_of tr s) - entry_fees trs"
    using Cons.IH by blast
  with balance_step [OF kb Cons.prems(2)] show ?case
    by (simp add: step_of_def entry_fees_def)
qed (simp add: entry_fees_def)

text \<open>C2: money is conserved by histories of openings, closings, revaluations and risk updates in
  which no position is opened under an identifier that is open at that moment, from a store whose
  open positions have distinct identifiers: the store applies the whole history, and cash, plus the
  notional locked in open positions, minus the realised profit, only falls by the fees paid on entry
  (the cost of an opening beyond its notional). In particular a flat store that started flat holds
  its initial cash plus realised profit less entry fees. The store itself does not check identifiers:
  it accepts an opening under one that is open, and then closes both positions for the cash of one.\<close>

theorem cash_conservation:
  assumes "ids_fresh (map position_id (book s)) trs" and "distinct (map position_id (book s))"
    and "\<forall>tr \<in> set trs. tr_portfolio_id tr = st_portfolio_id s"
  shows "\<exists>t. apply_transitions E trs (s, n) = Inr (t, n + 2 * length trs)
    \<and> cash (st_portfolio t) + locked t - realized_pnl (st_portfolio t) =
      cash (st_portfolio s) + locked s - realized_pnl (st_portfolio s) - entry_fees trs"
proof -
  obtain t where t: "apply_transitions E trs (s, n) = Inr (t, n + 2 * length trs)"
    "same_view t (run_bodies trs s)"
    using apply_transitions_total [OF assms(3)] by blast
  from t(2) balance_steps [OF assms(1,2)] have "balance t = balance s - entry_fees trs"
    by (simp add: same_view_def balance_def locked_def)
  with t(1) show ?thesis by (simp add: balance_def)
qed

definition demo_position :: position_state where
  "demo_position = \<lparr>position_id = ''pos'', pos_symbol = ''BTC'', pos_side = LONG, pos_quantity = 2,
     pos_entry_price = 100, pos_entry_time = 0, pos_stop_loss = Some 90, pos_take_profit = Some 120,
     unrealized_pnl = 0, pos_status = Pos_open\<rparr>"

definition demo_fill :: fill where
  "demo_fill = \<lparr>fill_id = ''f'', fill_order_id = ''o'', fill_price_paid = 100, fill_quantity = 2,
     fill_fee = 1, fill_slippage_bps = 0, fill_time = 0, fill_is_partial = False\<rparr>"

definition demo_history :: "state_transition list" where
  "demo_history = map demo_transition
     [Position_opened demo_position demo_fill 201, Mark_to_market [''BTC'' \<mapsto> 110],
      Position_closed ''pos'' demo_fill 19 Exit_signal]"

lemmas demo_simps = demo_position_def demo_fill_def demo_history_def demo_transition_def
  demo_store_def init_store_def Let_def

theorem cash_conservation_witness:
  "\<exists>t. apply_transitions unary_env demo_history (demo_store, 0) = Inr (t, 6)
     \<and> cash (st_portfolio t) + locked t - realized_pnl (st_portfolio t) = 9999"
  using cash_conservation [where E = unary_env and n = 0 and s = demo_store and trs = demo_history]
  by (simp add: demo_simps keeps_book_def opens_def closes_def locked_def entry_fees_def
      entry_fee_def notional_def)


subsection \<open>The loss streak\<close>

definition closed_pnls :: "state_transition list \<Rightarrow> real list" where
  "closed_pnls trs =
     concat (map (\<lambda>tr. case tr_body tr of Position_closed i f x r \<Rightarrow> [x] | _ \<Rightarrow> []) trs)"

definition trailing_losses :: "real list \<Rightarrow> nat" where
  "trailing_losses xs = length (takeWhile (\<lambda>x. x < 0) (rev xs))"

lemma trailing_losses_append:
  "trailing_losses (xs @ [x]) = (if x < 0 then Suc (trailing_losses xs) else 0)"
  by (simp add: trailing_losses_def)

definition keeps_streak :: "state_transition \<Rightarrow> bool" where
  "keeps_streak tr = (case tr_body tr of
     Risk_updated us \<Rightarrow> (\<forall>u \<in> set us. case u of RU_consecutive_losses k \<Rightarrow> False | _ \<Rightarrow> True)
   | _ \<Rightarrow> True)"

lemma fold_risk_field_streak:
  "(\<forall>u \<in> set us. case u of RU_consecutive_losses k \<Rightarrow> False | _ \<Rightarrow> True) \<Longrightarrow>
   consecutive_losses (fold set_risk_field us rs) = consecutive_losses rs"
proof (induction us arbitrary: rs)
  case (Cons u us)
  then have "consecutive_losses (set_risk_field u rs) = consecutive_losses rs"
    by (cases u) simp_all
  with Cons show ?case by simp
qed simp

lemma streak_step:
  assumes "keeps_streak tr"
  shows "consecutive_losses (st_risk (step_of tr s)) =
    (case tr_body tr of Position_closed i f x r \<Rightarrow> (if x < 0 then consecutive_losses (st_risk s) + 1 else 0)
      | _ \<Rightarrow> consecutive_losses (st_risk s))"
  using assms
  by (cases "tr_body tr")
    (simp_all add: step_of_def keeps_streak_def apply_risk_updated_def Let_def fold_risk_field_streak)

text \<open>The consecutive_losses counter is exactly the number of losing closes at the end of
  the history: with no loss on record at the start, after any transitions that do not write
  the counter directly it equals the length of the longest suffix of negative closing
  results, so one non-negative close resets it.\<close>

theorem consecutive_losses_is_trailing_losses:
  assumes "\<forall>tr \<in> set trs. keeps_streak tr" and "consecutive_losses (st_risk s) = 0"
  shows "consecutive_losses (st_risk (run_bodies trs s)) = int (trailing_losses (closed_pnls trs))"
  using assms(1)
proof (induction trs rule: rev_induct)
  case Nil
  then show ?case using assms(2) by (simp add: closed_pnls_def trailing_losses_def)
next
  case (snoc tr trs)
  have "run_bodies (trs @ [tr]) s = step_of tr (run_bodies trs s)"
    by (simp add: run_bodies_append step_of_def)
  with snoc streak_step [of tr "run_bodies trs s"] show ?case
    by (cases "tr_body tr") (simp_all add: closed_pnls_def trailing_losses_append)
qed

theorem consecutive_losses_is_trailing_losses_witness:
  "consecutive_losses (st_risk (run_bodies (map demo_transition
      [Position_closed ''a'' demo_fill 5 Exit_signal, Position_closed ''b'' demo_fill (-1) Exit_stop_loss,
       Risk_updated [RU_signals_today 1], Position_closed ''c'' demo_fill (-2) Exit_timeout]) demo_store)) = 2"
  by (subst consecutive_losses_is_trailing_losses)
    (simp_all add: demo_simps keeps_streak_def closed_pnls_def trailing_losses_def)


subsection \<open>Marking to market\<close>

text \<open>The store is marked when equity is cash plus the market value of the open positions.\<close>

definition marked :: "store \<Rightarrow> bool" where
  "marked s \<longleftrightarrow> equity (st_portfolio s) =
     cash (st_portfolio s) + sum_list (map market_value (book s))"

lemma market_value_revalue: "snd (revalue q p) = market_value (fst (revalue q p))"
  by (simp add: market_value_def snd_revalue)

lemma marked_mark: "marked (apply_mark_to_market q t s)"
  by (simp add: marked_def comp_def market_value_revalue)

lemma revalue_idem: "revalue q (fst (revalue q p)) = (fst (revalue q p), snd (revalue q p))"
  by (cases "pos_side p") (simp_all add: revalue_def notional_def mark_pnl_def split: option.splits)

lemma drawdown_nonneg: "0 \<le> drawdown_pct a b"
  by (simp add: drawdown_pct_def)

lemma drawdown_pos_iff: "0 < a \<Longrightarrow> 0 < drawdown_pct a b \<longleftrightarrow> b < a"
  by (simp add: drawdown_pct_def less_max_iff_disj zero_less_divide_iff)

text \<open>Marking to market makes equity equal to cash plus the market value of every open
  position, touches neither cash nor realised profit nor the identity, side, size, prices
  and levels of a position, and leaves the risk gate a drawdown that is never negative and
  is positive exactly when equity is below the day's starting equity.\<close>

theorem mark_to_market_correct:
  assumes "0 < daily_start_equity (st_risk s)"
  shows "marked (apply_mark_to_market q t s)
    \<and> cash (st_portfolio (apply_mark_to_market q t s)) = cash (st_portfolio s)
    \<and> realized_pnl (st_portfolio (apply_mark_to_market q t s)) = realized_pnl (st_portfolio s)
    \<and> map (\<lambda>p. p\<lparr>unrealized_pnl := 0\<rparr>) (book (apply_mark_to_market q t s)) =
         map (\<lambda>p. p\<lparr>unrealized_pnl := 0\<rparr>) (book s)
    \<and> 0 \<le> daily_drawdown_pct (st_risk (apply_mark_to_market q t s))
    \<and> (0 < daily_drawdown_pct (st_risk (apply_mark_to_market q t s)) \<longleftrightarrow>
         equity (st_portfolio (apply_mark_to_market q t s)) < daily_start_equity (st_risk s))"
proof -
  have dd: "daily_drawdown_pct (st_risk (apply_mark_to_market q t s)) =
      drawdown_pct (daily_start_equity (st_risk s)) (equity (st_portfolio (apply_mark_to_market q t s)))"
    using assms by (auto simp: apply_mark_to_market_def Let_def start_equity_or_def)
  have frame: "map (\<lambda>p. p\<lparr>unrealized_pnl := 0\<rparr>) (book (apply_mark_to_market q t s)) =
         map (\<lambda>p. p\<lparr>unrealized_pnl := 0\<rparr>) (book s)"
    by (simp add: revalue_def split: option.splits)
  from dd frame show ?thesis
    using drawdown_pos_iff [OF assms] drawdown_nonneg marked_mark by simp
qed

theorem mark_to_market_correct_witness:
  "marked (apply_mark_to_market [''BTC'' \<mapsto> 90] 1 (apply_position_opened demo_position 201 0 demo_store))"
  by (rule mark_to_market_correct [THEN conjunct1]) (simp add: demo_simps)

text \<open>Closing a position on a marked store counts its unrealised profit twice: equity ends
  up above cash plus market value by exactly the unrealised profit the position had at the
  last mark, and nothing corrects it while no position is left, since the runtime marks a
  non-empty book only.\<close>

theorem close_after_mark_overstates_equity:
  assumes "marked s" and "distinct (map position_id (book s))" and "p \<in> set (book s)"
  shows "equity (st_portfolio (apply_position_closed (position_id p) x t s)) =
     cash (st_portfolio (apply_position_closed (position_id p) x t s))
     + sum_list (map market_value (book (apply_position_closed (position_id p) x t s)))
     + unrealized_pnl p"
proof -
  have "List.find (\<lambda>q. position_id q = position_id p) (book s) = Some p"
    by (rule find_by_id [OF assms(2,3)])
  with assms(1) sum_filter_found [OF assms(2), of market_value "position_id p"] show ?thesis
    by (simp add: marked_def cash_closed market_value_def)
qed

theorem close_after_mark_overstates_equity_witness:
  "equity (st_portfolio (apply_position_closed ''pos'' 20 2
      (apply_mark_to_market [''BTC'' \<mapsto> 110] 1
        (apply_position_opened demo_position 200 0 demo_store)))) = 10040
   \<and> cash (st_portfolio (apply_position_closed ''pos'' 20 2
      (apply_mark_to_market [''BTC'' \<mapsto> 110] 1
        (apply_position_opened demo_position 200 0 demo_store)))) = 10020"
proof -
  let ?s = "apply_mark_to_market [''BTC'' \<mapsto> 110] 1
      (apply_position_opened demo_position 200 0 demo_store)"
  let ?p = "demo_position\<lparr>unrealized_pnl := 20\<rparr>"
  have b: "book ?s = [?p]"
    by (simp add: demo_simps revalue_def mark_pnl_def)
  have c: "cash (st_portfolio ?s) = 9800" by (simp add: demo_simps)
  have "marked ?s" by (rule marked_mark)
  from close_after_mark_overstates_equity [OF this, of ?p 20 2] b c
  show ?thesis by (simp add: cash_closed demo_position_def notional_def)
qed


text \<open>Exposure is released at the equity of the closing moment, not of the opening one. A
  position opened on a flat store without exposure, marked, and closed leaves exposure
  behind exactly when the mark raised equity, although no position is open any more; it
  leaves none when equity did not rise.\<close>

theorem exposure_left_after_close:
  assumes "book s = []" and "open_exposure_pct (st_risk s) = 0"
    and "0 < equity (st_portfolio s)" and "0 < notional p"
    and "m = apply_mark_to_market q t2 (apply_position_opened p c t1 s)"
    and "0 < equity (st_portfolio m)"
  shows "book (apply_position_closed (position_id p) x t3 m) = []
    \<and> open_exposure_pct (st_risk (apply_position_closed (position_id p) x t3 m)) =
        max 0 (100 * notional p / equity (st_portfolio s) - 100 * notional p / equity (st_portfolio m))
    \<and> (0 < open_exposure_pct (st_risk (apply_position_closed (position_id p) x t3 m)) \<longleftrightarrow>
         equity (st_portfolio s) < equity (st_portfolio m))"
proof -
  have bm: "book m = [fst (revalue q p)]"
    using assms(1,5) by simp
  have "open_exposure_pct (st_risk m) = notional p / equity (st_portfolio s) * 100"
    using assms(2,3) by (simp add: assms(5) apply_position_opened_def Let_def)
  then have e: "open_exposure_pct (st_risk (apply_position_closed (position_id p) x t3 m)) =
      max 0 (100 * notional p / equity (st_portfolio s) - 100 * notional p / equity (st_portfolio m))"
    using bm assms(6) by (simp add: apply_position_closed_def Let_def mult.commute)
  have "100 * notional p / equity (st_portfolio m) < 100 * notional p / equity (st_portfolio s)
      \<longleftrightarrow> equity (st_portfolio s) < equity (st_portfolio m)"
    using assms(3,4,6) by (simp add: divide_simps)
  with bm e show ?thesis by (simp add: less_max_iff_disj)
qed

theorem exposure_left_after_close_witness:
  "0 < open_exposure_pct (st_risk (apply_position_closed ''pos'' 20 1
      (apply_mark_to_market [''BTC'' \<mapsto> 110] 1 (apply_position_opened demo_position 200 1 demo_store))))"
  using exposure_left_after_close [where s = demo_store and p = demo_position and c = 200 and ?t1.0 = 1 and ?t2.0 = 1 and ?t3.0 = 1
      and q = "[''BTC'' \<mapsto> 110]" and x = 20, OF _ _ _ _ refl]
  by (simp add: demo_simps notional_def revalue_def mark_pnl_def)

end
