(* ===== verification/EventLog.thy ===== *)
theory EventLog
  imports RuntimeModel "HOL-Library.Multiset"
begin

text \<open>
  Event handlers and what they store: \<^verbatim>\<open>backend/src/events/handlers/\<close> (the in-memory log and
  the database handler) and the repositories behind them, \<^verbatim>\<open>backend/src/db/repositories/\<close>
  (\<^verbatim>\<open>event_log.py\<close>, \<^verbatim>\<open>order.py\<close>, the projections of \<^verbatim>\<open>decision.py\<close>, \<^verbatim>\<open>persist_event\<close> of
  \<^verbatim>\<open>backtest.py\<close>). A table is the list of its rows in insertion order, a session works on
  a copy of the tables, and its commit fails when a primary key occurs twice. A JSON
  column gives back the value that was put in.
\<close>


subsection \<open>Rows (db/models.py)\<close>

record event_row =
  row_event_id :: string
  row_family :: event_family
  row_type :: event_type
  row_event_time :: datetime
  row_processing_time :: datetime
  row_correlation_id :: string
  row_symbol :: string
  row_timeframe :: string
  row_mode :: run_mode
  row_revision_id :: "string option"
  row_experiment_id :: "string option"
  row_causation_id :: "string option"
  row_payload :: payload

record decision_row =
  drow_decision_id :: string
  drow_correlation_id :: string
  drow_result :: decision_value
  drow_state_snapshot_id :: string
  drow_log :: decision_log
  drow_mode :: "run_mode option"
  drow_revision_id :: "string option"
  drow_experiment_id :: "string option"
  drow_created_at :: datetime

text \<open>A feature set is stored with the payload of its event, or as a whole.\<close>

datatype feature_payload = From_event payload | From_set feature_set

record feature_row =
  frow_feature_set_id :: string
  frow_version :: string
  frow_config_hash :: string
  frow_payload :: feature_payload
  frow_created_at :: datetime

record snapshot_row =
  srow_snapshot_id :: string
  srow_correlation_id :: "string option"
  srow_portfolio :: portfolio_state
  srow_risk :: risk_state
  srow_version :: int
  srow_created_at :: datetime

record order_row =
  orow_order_id :: string
  orow_intent_id :: string
  orow_decision_id :: string
  orow_correlation_id :: string
  orow_status :: order_status
  orow_venue :: string
  orow_payload :: payload
  orow_created_at :: datetime

record fill_row =
  flrow_fill_id :: string
  flrow_order_id :: string
  flrow_price :: real
  flrow_quantity :: real
  flrow_fee :: real
  flrow_slippage_bps :: real
  flrow_fill_time :: datetime
  flrow_fill_model_id :: "string option"
  flrow_created_at :: datetime

record trade_row =
  trow_trade_id :: string
  trow_run_id :: string
  trow_position_id :: string
  trow_correlation_id :: string
  trow_symbol :: string
  trow_pnl :: real
  trow_exit_reason :: exit_reason
  trow_payload :: payload

text \<open>A query that orders events by their time says nothing of events of equal time: in which order the
  server answers the rows it found is a part of the database.\<close>

record database =
  db_order :: "event_row list \<Rightarrow> event_row list"
  db_events :: "event_row list"
  db_decisions :: "decision_row list"
  db_features :: "feature_row list"
  db_snapshots :: "snapshot_row list"
  db_orders :: "order_row list"
  db_fills :: "fill_row list"
  db_trades :: "trade_row list"

definition empty_database :: database where
  "empty_database = \<lparr>db_order = sort_key row_event_time, db_events = [], db_decisions = [], db_features = [], db_snapshots = [],
     db_orders = [], db_fills = [], db_trades = []\<rparr>"

text \<open>What \<^verbatim>\<open>ORDER BY event_time\<close> promises: the rows found, by their times.\<close>

definition orders_by_time :: "database \<Rightarrow> bool" where
  "orders_by_time db \<longleftrightarrow> (\<forall>rows. mset (db_order db rows) = mset rows \<and> sorted (map row_event_time (db_order db rows)))"

lemma empty_database_orders [simp]: "orders_by_time empty_database"
  by (simp add: orders_by_time_def empty_database_def)

definition keys_unique :: "database \<Rightarrow> bool" where
  "keys_unique db \<longleftrightarrow>
     distinct (map row_event_id (db_events db)) \<and> distinct (map drow_decision_id (db_decisions db))
     \<and> distinct (map frow_feature_set_id (db_features db)) \<and> distinct (map srow_snapshot_id (db_snapshots db))
     \<and> distinct (map orow_order_id (db_orders db)) \<and> distinct (map flrow_fill_id (db_fills db))
     \<and> distinct (map trow_trade_id (db_trades db))"

definition commit :: "database \<Rightarrow> database result" where
  "commit db = (if keys_unique db then Inr db else Inl (IntegrityError ''primary key''))"


subsection \<open>The event log (persist_event, repositories/event_log.py)\<close>

definition event_to_row :: "event \<Rightarrow> event_row" where
  "event_to_row e = \<lparr>row_event_id = event_id e, row_family = ev_family e, row_type = ev_type e,
     row_event_time = ev_event_time e, row_processing_time = ev_processing_time e,
     row_correlation_id = ev_correlation_id e, row_symbol = ev_symbol e, row_timeframe = ev_timeframe e,
     row_mode = ev_mode e, row_revision_id = ev_revision_id e, row_experiment_id = ev_experiment_id e,
     row_causation_id = ev_causation_id e, row_payload = ev_payload e\<rparr>"

definition persist_event :: "event \<Rightarrow> database \<Rightarrow> database" where
  "persist_event e db = db\<lparr>db_events := db_events db @ [event_to_row e]\<rparr>"

text \<open>The envelope rebuilt from a row: the cycle is the correlation, the schema the default.\<close>

definition row_to_envelope :: "event_row \<Rightarrow> event" where
  "row_to_envelope r = \<lparr>event_id = row_event_id r, ev_family = row_family r, ev_type = row_type r,
     ev_schema_version = ''v1'', ev_event_time = row_event_time r,
     ev_processing_time = row_processing_time r, ev_correlation_id = row_correlation_id r,
     ev_causation_id = row_causation_id r, ev_cycle_id = row_correlation_id r,
     ev_symbol = row_symbol r, ev_timeframe = row_timeframe r, ev_mode = row_mode r,
     ev_experiment_id = row_experiment_id r, ev_revision_id = row_revision_id r,
     ev_payload = row_payload r\<rparr>"

definition fetch_events_by_correlation :: "string \<Rightarrow> database \<Rightarrow> event list" where
  "fetch_events_by_correlation cid db =
     map row_to_envelope (db_order db (filter (\<lambda>r. row_correlation_id r = cid) (db_events db)))"

definition fetch_all_events :: "database \<Rightarrow> event list" where
  "fetch_all_events db = map row_to_envelope (db_order db (db_events db))"


subsection \<open>Projections (repositories/decision.py, repositories/order.py)\<close>

text \<open>\<^verbatim>\<open>payload["decision_id"]\<close>, for the payloads that have one.\<close>

definition payload_decision_id :: "payload \<Rightarrow> string option" where
  "payload_decision_id pl = (case pl of
     P_decision_made d _ _ _ \<Rightarrow> Some d | P_approved d _ _ \<Rightarrow> Some d | P_rejected d _ _ _ _ \<Rightarrow> Some d
   | P_signal d _ _ _ _ _ _ _ \<Rightarrow> Some d | P_submitted _ _ d \<Rightarrow> Some d | _ \<Rightarrow> None)"

definition persist_decision_from_event :: "event \<Rightarrow> database \<Rightarrow> database result" where
  "persist_decision_from_event e db =
     (if ev_type e \<noteq> DecisionMade then Inr db
      else case payload_decision_id (ev_payload e) of
          None \<Rightarrow> Inl (KeyError ''decision_id'')
        | Some d \<Rightarrow>
            if d \<in> set (map drow_decision_id (db_decisions db)) then Inr db
            else (case ev_payload e of
                P_decision_made _ v snap lg \<Rightarrow>
                  Inr (db\<lparr>db_decisions := db_decisions db @
                    [\<lparr>drow_decision_id = d, drow_correlation_id = ev_correlation_id e, drow_result = v,
                      drow_state_snapshot_id = snap, drow_log = lg, drow_mode = Some (ev_mode e),
                      drow_revision_id = ev_revision_id e, drow_experiment_id = ev_experiment_id e,
                      drow_created_at = ev_event_time e\<rparr>]\<rparr>)
              | _ \<Rightarrow> Inl (KeyError ''result'')))"

definition persist_feature_set_from_event :: "event \<Rightarrow> database \<Rightarrow> database result" where
  "persist_feature_set_from_event e db =
     (if ev_type e \<noteq> FeatureSetBuilt then Inr db
      else case ev_payload e of
          P_features i v h ind fl \<Rightarrow>
            if i \<in> set (map frow_feature_set_id (db_features db)) then Inr db
            else Inr (db\<lparr>db_features := db_features db @
              [\<lparr>frow_feature_set_id = i, frow_version = v, frow_config_hash = h,
                frow_payload = From_event (ev_payload e), frow_created_at = ev_event_time e\<rparr>]\<rparr>)
        | _ \<Rightarrow> Inl (KeyError ''feature_set_id''))"

definition persist_order :: "event \<Rightarrow> database \<Rightarrow> database result" where
  "persist_order e db = (case ev_payload e of
     P_submitted ord ven d \<Rightarrow>
       Inr (db\<lparr>db_orders := db_orders db @
         [\<lparr>orow_order_id = order_id ord, orow_intent_id = ord_intent_id ord, orow_decision_id = d,
           orow_correlation_id = ev_correlation_id e, orow_status = ord_status ord, orow_venue = ven,
           orow_payload = ev_payload e, orow_created_at = ev_processing_time e\<rparr>]\<rparr>)
   | _ \<Rightarrow> Inl (KeyError ''order_id''))"

text \<open>The row of a fill is stamped with the wall clock.\<close>

definition persist_fill :: "env \<Rightarrow> event \<Rightarrow> database \<times> tick \<Rightarrow> (database \<times> tick) result" where
  "persist_fill E e = (\<lambda>(db, n). case ev_payload e of
     P_fill fl model _ \<Rightarrow>
       Inr (db\<lparr>db_fills := db_fills db @
         [\<lparr>flrow_fill_id = fill_id fl, flrow_order_id = fill_order_id fl, flrow_price = fill_price_paid fl,
           flrow_quantity = fill_quantity fl, flrow_fee = fill_fee fl, flrow_slippage_bps = fill_slippage_bps fl,
           flrow_fill_time = fill_time fl, flrow_fill_model_id = Some model,
           flrow_created_at = wall_clock E n\<rparr>]\<rparr>, Suc n)
   | _ \<Rightarrow> Inl (KeyError ''fill''))"

definition persist_execution_event :: "env \<Rightarrow> event \<Rightarrow> database \<times> tick \<Rightarrow> (database \<times> tick) result" where
  "persist_execution_event E e = (\<lambda>(db, n).
     if ev_type e = OrderSubmitted then and_then (persist_order e db) (\<lambda>db'. Inr (db', n))
     else if ev_type e = FillReceived then persist_fill E e (db, n)
     else Inr (db, n))"


subsection \<open>The handlers (events/handlers/)\<close>

text \<open>The database handler. The event is buffered first; the session's changes are kept only if
  its commit succeeds.\<close>

record db_world =
  dw_buffer :: "event list"
  dw_db :: database
  dw_tick :: tick

definition persist_all :: "env \<Rightarrow> event \<Rightarrow> database \<times> tick \<Rightarrow> (database \<times> tick) result" where
  "persist_all E e = (\<lambda>(db, n).
     and_then (persist_feature_set_from_event e (persist_event e db)) (\<lambda>db1.
     and_then (persist_decision_from_event e db1) (\<lambda>db2.
     and_then (persist_execution_event E e (db2, n)) (\<lambda>(db3, n').
     and_then (commit db3) (\<lambda>db4. Inr (db4, n'))))))"

definition database_handle :: "env \<Rightarrow> event \<Rightarrow> db_world \<Rightarrow> db_world \<times> unit result" where
  "database_handle E e w =
     (let w1 = w\<lparr>dw_buffer := dw_buffer w @ [e]\<rparr>
      in case persist_all E e (dw_db w, dw_tick w) of
           Inl err \<Rightarrow> (w1, Inl err)
         | Inr (db, n) \<Rightarrow> (w1\<lparr>dw_db := db, dw_tick := n\<rparr>, Inr ()))"

definition clear_buffer :: "db_world \<Rightarrow> db_world" where
  "clear_buffer w = w\<lparr>dw_buffer := []\<rparr>"

definition database_handler :: "env \<Rightarrow> db_world handler" where
  "database_handler E = ([], database_handle E)"

text \<open>The in-memory log keeps the families it was built for, or everything.\<close>

definition log_handle :: "event_family set option \<Rightarrow> event \<Rightarrow> event list \<Rightarrow> event list \<times> unit result" where
  "log_handle families e evs =
     (case families of
        Some F \<Rightarrow> if ev_family e \<notin> F then (evs, Inr ()) else (evs @ [e], Inr ())
      | None \<Rightarrow> (evs @ [e], Inr ()))"

definition event_log_handler :: "event_family set option \<Rightarrow> event list handler" where
  "event_log_handler families = ([], log_handle families)"


subsection \<open>Storing and fetching\<close>

text \<open>What \<^verbatim>\<open>build_envelope\<close> makes: the schema in use, the cycle as correlation.\<close>

definition well_stamped :: "event \<Rightarrow> bool" where
  "well_stamped e \<longleftrightarrow> ev_schema_version e = ''v1'' \<and> ev_cycle_id e = ev_correlation_id e"

lemma well_stamped_built [simp]: "well_stamped (fst (build_envelope E m fam typ pl c n))"
  by (simp add: well_stamped_def build_envelope_def)

lemma row_roundtrip: "well_stamped e \<Longrightarrow> row_to_envelope (event_to_row e) = e"
  by (simp add: well_stamped_def row_to_envelope_def event_to_row_def)

lemma event_to_row_simps [simp]:
  "row_correlation_id (event_to_row e) = ev_correlation_id e"
  "row_event_time (event_to_row e) = ev_event_time e"
  "row_event_id (event_to_row e) = event_id e"
  by (simp_all add: event_to_row_def)

lemma projections_keep_events:
  "persist_feature_set_from_event e db = Inr db' \<Longrightarrow> db_events db' = db_events db \<and> db_order db' = db_order db"
  "persist_decision_from_event e db = Inr db' \<Longrightarrow> db_events db' = db_events db \<and> db_order db' = db_order db"
  "persist_execution_event E e (db, n) = Inr (db', n') \<Longrightarrow> db_events db' = db_events db \<and> db_order db' = db_order db"
  by (auto simp: persist_feature_set_from_event_def persist_decision_from_event_def
      persist_execution_event_def persist_order_def persist_fill_def
      split: if_splits payload.splits option.splits)

lemma persist_all_events:
  "persist_all E e (db, n) = Inr (db', n') \<Longrightarrow>
     db_events db' = db_events db @ [event_to_row e] \<and> db_order db' = db_order db \<and> keys_unique db'"
  by (auto simp: persist_all_def commit_def persist_event_def split: if_splits dest!: projections_keep_events)

text \<open>A table whose rows were written from well-stamped events.\<close>

lemma envelopes_written:
  assumes "mset rows = mset (map event_to_row es)" and "\<forall>e \<in> set es. well_stamped e"
  shows "mset (map row_to_envelope rows) = mset es" and "sorted (map ev_event_time (map row_to_envelope rows)) = sorted (map row_event_time rows)"
proof -
  have "mset (map row_to_envelope rows) = image_mset row_to_envelope (mset (map event_to_row es))"
    by (simp only: mset_map assms(1))
  also have "\<dots> = mset (map row_to_envelope (map event_to_row es))" by (simp only: mset_map)
  also have "\<dots> = mset (map (row_to_envelope \<circ> event_to_row) es)" by (simp only: map_map)
  also have "map (row_to_envelope \<circ> event_to_row) es = es" using assms(2) by (intro map_idI) (simp add: row_roundtrip)
  finally show "mset (map row_to_envelope rows) = mset es" .
  show "sorted (map ev_event_time (map row_to_envelope rows)) = sorted (map row_event_time rows)"
    by (simp add: row_to_envelope_def comp_def)
qed

lemma fetch_written:
  assumes "db_events db = map event_to_row es" and "\<forall>e \<in> set es. well_stamped e" and "orders_by_time db"
  shows "mset (fetch_events_by_correlation cid db) = mset (filter (\<lambda>e. ev_correlation_id e = cid) es)
      \<and> sorted (map ev_event_time (fetch_events_by_correlation cid db))"
    and "mset (fetch_all_events db) = mset es \<and> sorted (map ev_event_time (fetch_all_events db))"
proof -
  have o: "mset (db_order db rows) = mset rows" "sorted (map row_event_time (db_order db rows))" for rows
    using assms(3) by (simp_all add: orders_by_time_def)
  let ?es = "filter (\<lambda>e. ev_correlation_id e = cid) es" and ?rows = "filter (\<lambda>r. row_correlation_id r = cid) (db_events db)"
  have "mset (db_order db ?rows) = mset (map event_to_row ?es)" by (simp add: o(1) assms(1) filter_map o_def)
  from envelopes_written [OF this] assms(2) o(2) [of ?rows]
  show "mset (fetch_events_by_correlation cid db) = mset ?es \<and> sorted (map ev_event_time (fetch_events_by_correlation cid db))"
    by (simp add: fetch_events_by_correlation_def)
  have "mset (db_order db (db_events db)) = mset (map event_to_row es)" by (simp add: o(1) assms(1))
  from envelopes_written [OF this] assms(2) o(2) [of "db_events db"]
  show "mset (fetch_all_events db) = mset es \<and> sorted (map ev_event_time (fetch_all_events db))"
    by (simp add: fetch_all_events_def)
qed

lemma publish_one:
  "memory_publish e (\<lparr>bus_handlers = [database_handler E], bus_published = ps\<rparr>, w) =
     (case persist_all E e (dw_db w, dw_tick w) of
        Inl err \<Rightarrow> ((\<lparr>bus_handlers = [database_handler E], bus_published = ps @ [e]\<rparr>,
                       w\<lparr>dw_buffer := dw_buffer w @ [e]\<rparr>), Inl err)
      | Inr (db, n) \<Rightarrow> ((\<lparr>bus_handlers = [database_handler E], bus_published = ps @ [e]\<rparr>,
                       w\<lparr>dw_buffer := dw_buffer w @ [e], dw_db := db, dw_tick := n\<rparr>), Inr ()))"
  by (simp add: memory_publish_def database_handler_def wants_def database_handle_def Let_def
      split: sum.splits prod.splits)

lemma publish_stores:
  assumes "publish_many memory_publish es (\<lparr>bus_handlers = [database_handler E], bus_published = ps\<rparr>, w)
      = ((b, w'), Inr ())"
  shows "db_events (dw_db w') = db_events (dw_db w) @ map event_to_row es \<and> db_order (dw_db w') = db_order (dw_db w)
    \<and> b = \<lparr>bus_handlers = [database_handler E], bus_published = ps @ es\<rparr> \<and> dw_buffer w' = dw_buffer w @ es"
  using assms
proof (induction es arbitrary: ps w)
  case (Cons e es)
  from Cons.prems obtain db n where
    p: "persist_all E e (dw_db w, dw_tick w) = Inr (db, n)" and
    rest: "publish_many memory_publish es (\<lparr>bus_handlers = [database_handler E], bus_published = ps @ [e]\<rparr>,
       w\<lparr>dw_buffer := dw_buffer w @ [e], dw_db := db, dw_tick := n\<rparr>) = ((b, w'), Inr ())"
    by (auto simp: publish_one split: sum.splits prod.splits)
  from Cons.IH [OF rest] persist_all_events [OF p] show ?case by simp
qed simp

text \<open>A handler that fails leaves the tables as they were.\<close>

lemma failed_handle_keeps_tables:
  "database_handle E e w = (w', Inl err) \<Longrightarrow> dw_db w' = dw_db w \<and> dw_buffer w' = dw_buffer w @ [e]"
  by (auto simp: database_handle_def Let_def split: sum.splits prod.splits)

subsection \<open>What the handler accepts\<close>

text \<open>An event whose payload is the one its type announces.\<close>

definition projectable :: "event \<Rightarrow> bool" where
  "projectable e = (case ev_type e of
     FeatureSetBuilt \<Rightarrow> (case ev_payload e of P_features _ _ _ _ _ \<Rightarrow> True | _ \<Rightarrow> False)
   | DecisionMade \<Rightarrow> (case ev_payload e of P_decision_made _ _ _ _ \<Rightarrow> True | _ \<Rightarrow> False)
   | OrderSubmitted \<Rightarrow> (case ev_payload e of P_submitted _ _ _ \<Rightarrow> True | _ \<Rightarrow> False)
   | FillReceived \<Rightarrow> (case ev_payload e of P_fill _ _ _ \<Rightarrow> True | _ \<Rightarrow> False)
   | _ \<Rightarrow> True)"

definition new_order_ids :: "event \<Rightarrow> string list" where
  "new_order_ids e = (if ev_type e = OrderSubmitted
     then (case ev_payload e of P_submitted ord _ _ \<Rightarrow> [order_id ord] | _ \<Rightarrow> []) else [])"

definition new_fill_ids :: "event \<Rightarrow> string list" where
  "new_fill_ids e = (if ev_type e = FillReceived
     then (case ev_payload e of P_fill fl _ _ \<Rightarrow> [fill_id fl] | _ \<Rightarrow> []) else [])"

definition fresh_keys :: "event list \<Rightarrow> database \<Rightarrow> bool" where
  "fresh_keys es db \<longleftrightarrow> distinct (map row_event_id (db_events db) @ map event_id es)
     \<and> distinct (map orow_order_id (db_orders db) @ concat (map new_order_ids es))
     \<and> distinct (map flrow_fill_id (db_fills db) @ concat (map new_fill_ids es))"

lemma persist_accepts:
  assumes "projectable e" "keys_unique db" "fresh_keys (e # es) db"
  shows "\<exists>db' n'. persist_all E e (db, n) = Inr (db', n') \<and> keys_unique db' \<and> fresh_keys es db'"
proof -
  consider (feature) i v h ind fl where "ev_type e = FeatureSetBuilt" "ev_payload e = P_features i v h ind fl"
    | (made) d v sn lg where "ev_type e = DecisionMade" "ev_payload e = P_decision_made d v sn lg"
    | (submitted) ord ven d where "ev_type e = OrderSubmitted" "ev_payload e = P_submitted ord ven d"
    | (fill) fl m b where "ev_type e = FillReceived" "ev_payload e = P_fill fl m b"
    | (other) "ev_type e \<noteq> FeatureSetBuilt" "ev_type e \<noteq> DecisionMade" "ev_type e \<noteq> OrderSubmitted" "ev_type e \<noteq> FillReceived"
    using assms(1) unfolding projectable_def by (auto split: event_type.splits payload.splits)
  then show ?thesis
    by cases (use assms(2,3) in \<open>auto simp: persist_all_def persist_event_def persist_feature_set_from_event_def
      persist_decision_from_event_def persist_execution_event_def persist_order_def persist_fill_def
      payload_decision_id_def commit_def keys_unique_def fresh_keys_def new_order_ids_def new_fill_ids_def\<close>)
qed

lemma publish_accepts:
  assumes "\<forall>e \<in> set es. projectable e" "keys_unique (dw_db w)" "fresh_keys es (dw_db w)"
  shows "\<exists>b w'. publish_many memory_publish es (\<lparr>bus_handlers = [database_handler E], bus_published = ps\<rparr>, w) = ((b, w'), Inr ())"
  using assms
proof (induction es arbitrary: ps w)
  case (Cons e es)
  then obtain db n where p: "persist_all E e (dw_db w, dw_tick w) = Inr (db, n)" "keys_unique db" "fresh_keys es db"
    using persist_accepts [of e "dw_db w" es E "dw_tick w"] by auto
  let ?w = "w\<lparr>dw_buffer := dw_buffer w @ [e], dw_db := db, dw_tick := n\<rparr>"
  from Cons.IH [of ?w "ps @ [e]"] Cons.prems(1) p(2,3) show ?case by (simp add: publish_one p(1))
qed simp

text \<open>Nothing is lost in the database. Events published on a bus with the database handler,
  with no error, are read back exactly as they were: for each correlation all of its
  events and no others, each once, ordered by time, whatever order the server has for events
  of one time; provided they were built by the envelope builder.\<close>

theorem event_log_roundtrip:
  assumes "\<forall>e \<in> set es. well_stamped e" and "orders_by_time db" and "db_events db = []"
    and "publish_many memory_publish es (new_bus [database_handler E], \<lparr>dw_buffer = [], dw_db = db, dw_tick = n\<rparr>)
      = ((b, w), Inr ())"
  shows "mset (fetch_events_by_correlation cid (dw_db w)) = mset (filter (\<lambda>e. ev_correlation_id e = cid) es)
    \<and> sorted (map ev_event_time (fetch_events_by_correlation cid (dw_db w)))
    \<and> mset (fetch_all_events (dw_db w)) = mset es \<and> sorted (map ev_event_time (fetch_all_events (dw_db w)))"
proof -
  from publish_stores [OF assms(4) [unfolded new_bus_def]] assms(2,3)
  have "db_events (dw_db w) = map event_to_row es" "orders_by_time (dw_db w)" by (simp_all add: orders_by_time_def)
  from fetch_written [OF this(1) assms(1) this(2)] show ?thesis by simp
qed

definition demo_envelope :: "event_type \<Rightarrow> payload \<Rightarrow> nat \<Rightarrow> event" where
  "demo_envelope typ pl n = fst (build_envelope unary_env
     \<lparr>em_event_time = 0, em_processing_time = 0, em_correlation_id = ''c'', em_symbol = ''BTC'',
      em_timeframe = ''1h'', em_mode = Paper_mode, em_experiment_id = None, em_revision_id = None\<rparr>
     Fam_execution typ pl None n)"

lemma demo_envelope_stamped [simp]: "well_stamped (demo_envelope typ pl n)"
  by (simp add: demo_envelope_def)

theorem event_log_roundtrip_witness:
  "\<exists>b w. publish_many memory_publish
       [demo_envelope OrderAcknowledged (P_acknowledged ''o'' ''simulator'') 1,
        demo_envelope OrderSubmitted (P_submitted \<lparr>order_id = ''o'', ord_intent_id = ''i'',
          ord_status = Ord_submitted, ord_submitted_at = 0, ord_venue = Venue_simulator\<rparr> ''simulator'' ''d'') 2]
       (new_bus [database_handler unary_env], \<lparr>dw_buffer = [], dw_db = empty_database, dw_tick = 9\<rparr>) = ((b, w), Inr ())
     \<and> mset (map event_id (fetch_events_by_correlation ''c'' (dw_db w))) = {#''evt_a'', ''evt_aa''#}"
proof -
  let ?es = "[demo_envelope OrderAcknowledged (P_acknowledged ''o'' ''simulator'') 1,
        demo_envelope OrderSubmitted (P_submitted \<lparr>order_id = ''o'', ord_intent_id = ''i'',
          ord_status = Ord_submitted, ord_submitted_at = 0, ord_venue = Venue_simulator\<rparr> ''simulator'' ''d'') 2]"
  obtain b w where r: "publish_many memory_publish ?es
       (new_bus [database_handler unary_env], \<lparr>dw_buffer = [], dw_db = empty_database, dw_tick = 9\<rparr>) = ((b, w), Inr ())"
    by (simp add: new_bus_def publish_one persist_all_def persist_feature_set_from_event_def
        persist_decision_from_event_def persist_execution_event_def persist_order_def persist_event_def
        commit_def keys_unique_def empty_database_def demo_envelope_def build_envelope_def
        event_to_row_def fresh_id_def unary_env_def numeral_2_eq_2)
  have "\<forall>e \<in> set ?es. well_stamped e" by simp
  from event_log_roundtrip [OF this empty_database_orders _ r, of "''c''"]
  have "mset (fetch_events_by_correlation ''c'' (dw_db w)) = mset (filter (\<lambda>e. ev_correlation_id e = ''c'') ?es)"
    by (simp add: empty_database_def)
  then have "mset (map event_id (fetch_events_by_correlation ''c'' (dw_db w))) = {#''evt_a'', ''evt_aa''#}"
    by (simp add: demo_envelope_def build_envelope_def fresh_id_def unary_env_def numeral_2_eq_2)
  with r show ?thesis by - (rule exI [of _ b], rule exI [of _ w], rule conjI)
qed

end
