(* ===== verification/CycleLog.thy ===== *)
theory CycleLog
  imports EventLog RuntimeEvents
begin

text \<open>
  The runtime over the database handler: every event of a cycle, the execution engine's
  included, carries the cycle's identifier and time, so that the event log gives a cycle
  back as it was published.
\<close>


subsection \<open>Stamps\<close>

definition stamp :: "string \<Rightarrow> datetime \<Rightarrow> datetime \<Rightarrow> event \<Rightarrow> bool" where
  "stamp i t u e \<longleftrightarrow> well_stamped e \<and> ev_correlation_id e = i \<and> ev_event_time e = t \<and> ev_processing_time e = u"

definition engine_made :: "event \<Rightarrow> bool" where
  "engine_made e \<longleftrightarrow> ev_family e = Fam_execution \<and> ev_type e \<in> {OrderIntentCreated, OrderSubmitted,
     OrderAcknowledged, FillReceived, PositionOpened, PositionClosed, OrderRejected, ExecutionFailed}"

definition stamp_args :: "exec_args \<Rightarrow> event \<Rightarrow> bool" where
  "stamp_args a e \<longleftrightarrow> stamp (xa_correlation_id a) (xa_event_time a) (xa_processing_time a) e \<and> engine_made e"

lemma stamp_exec_event [simp]:
  "stamp_args a (fst (exec_event E X a OrderIntentCreated pl c n))"
  "stamp_args a (fst (exec_event E X a OrderSubmitted pl c n))"
  "stamp_args a (fst (exec_event E X a OrderAcknowledged pl c n))"
  "stamp_args a (fst (exec_event E X a FillReceived pl c n))"
  "stamp_args a (fst (exec_event E X a PositionOpened pl c n))"
  "stamp_args a (fst (exec_event E X a PositionClosed pl c n))"
  "stamp_args a (fst (exec_event E X a OrderRejected pl c n))"
  "stamp_args a (fst (exec_event E X a ExecutionFailed pl c n))"
  by (simp_all add: stamp_args_def engine_made_def stamp_def well_stamped_def exec_event_def exec_meta_def build_envelope_def)

lemma exec_event_eq:
  "exec_event E X a PositionOpened pl c n = (e, k) \<Longrightarrow> stamp_args a e"
  "exec_event E X a PositionClosed pl c n = (e, k) \<Longrightarrow> stamp_args a e"
  "exec_event E X a OrderRejected pl c n = (e, k) \<Longrightarrow> stamp_args a e"
  "exec_event E X a ExecutionFailed pl c n = (e, k) \<Longrightarrow> stamp_args a e"
  by (metis fst_conv stamp_exec_event)+

lemma emit_if_stamp:
  assumes "emit_if on mk oth (evs, cause, n) = (evs', cause', n')" and "\<forall>e \<in> set evs. P e" and "\<And>k. P (fst (mk k))"
  shows "\<forall>e \<in> set evs'. P e"
  using assms(1,2) assms(3) [of n] by (auto simp: emit_if_def split: if_splits prod.splits)

lemma open_stamp:
  assumes "open_position E X a r b snap cause nxt (st, n) = (evs, tr, st', k)"
  shows "\<forall>e \<in> set evs. stamp_args a e"
proof -
  from assms obtain evs0 c0 k0 mk oth m pl c e where
    "emit_if (xs_emit_events X) mk oth ([], None, m) = (evs0, c0, k0)" "\<And>k. stamp_args a (fst (mk k))"
    "evs = evs0 @ [e]" "stamp_args a e"
    by (auto simp: open_position_def Let_def split: prod.splits dest: exec_event_eq)
  with emit_if_stamp [of _ mk oth "[]" None m evs0 c0 k0 "stamp_args a"] show ?thesis by auto
qed

lemma close_stamp:
  assumes "close_position E X a p px reason snap (st, n) = (evs, tr, st', k)"
  shows "\<forall>e \<in> set evs. stamp_args a e"
proof -
  from assms obtain evs0 c0 k0 mk oth m pl c e where
    "emit_if (xs_emit_events X) mk oth ([], None, m) = (evs0, c0, k0)" "\<And>k. stamp_args a (fst (mk k))"
    "evs = evs0 @ [e]" "stamp_args a e"
    by (auto simp: close_position_def Let_def split: prod.splits dest: exec_event_eq)
  with emit_if_stamp [of _ mk oth "[]" None m evs0 c0 k0 "stamp_args a"] show ?thesis by auto
qed

lemma pending_stamp:
  "pending_loop E X a b snap pes (st, n) = (evs, trs, rest, st', k) \<Longrightarrow> \<forall>e \<in> set evs. stamp_args a e"
proof (induction pes arbitrary: st n evs trs rest st' k)
  case (Cons pe pes)
  then show ?case
    by (auto split: if_splits prod.splits dest!: open_stamp)
qed simp

lemma exit_stamp:
  "exit_loop E X a b snap so inc ps (st, n) = (evs, trs, st', k) \<Longrightarrow> \<forall>e \<in> set evs. stamp_args a e"
proof (induction ps arbitrary: inc st n evs trs st' k)
  case (Cons p ps)
  from Cons.prems show ?case
    by (auto simp: Let_def split: if_splits prod.splits option.splits dest!: close_stamp)
      (drule Cons.IH, blast)+
qed simp

lemma filter_events_all: "\<forall>e \<in> set evs. P e \<Longrightarrow> \<forall>e \<in> set (filter_events X evs). P e"
  by (auto simp: filter_events_def)

lemma evaluate_stamp:
  assumes "evaluate_bar E X a b snap so inc (st, n) = (res, st', k)"
  shows "\<forall>e \<in> set (er_events res). stamp_args a e"
proof -
  obtain pr w1 where pr: "(if inc then (case process_pending_entries E X a b snap (st, n) of (r, st, n) \<Rightarrow> (r, st, n))
      else (\<lparr>er_events = [], er_transitions = []\<rparr>, (st, n))) = (pr, w1)" by (meson surj_pair)
  have 1: "\<forall>e \<in> set (er_events pr). stamp_args a e"
    using pr
    by (auto simp: process_pending_entries_def split: if_splits prod.splits
        dest!: pending_stamp [THEN filter_events_all])
  obtain evs trs st1 k1 where x: "exit_loop E X a b snap so inc (open_positions (snap_portfolio snap)) w1 = (evs, trs, st1, k1)"
    by (metis prod_cases4)
  with exit_stamp [of E X a b snap so inc _ "fst w1" "snd w1"] have 2: "\<forall>e \<in> set evs. stamp_args a e" by auto
  from assms have "er_events res = filter_events X (er_events pr @ evs)"
    unfolding evaluate_bar_def pr Let_def split_conv x by auto
  with 1 2 filter_events_all [of "er_events pr @ evs" "stamp_args a" X] show ?thesis by auto
qed

lemma submit_stamp:
  assumes "submit_order E X a d sg q oi b snap (evs0, c0) (st, n) = (res, st', k)" and "\<forall>e \<in> set evs0. stamp_args a e"
  shows "\<forall>e \<in> set (er_events res). stamp_args a e"
proof -
  let ?ord = "\<lparr>order_id = fresh_id E ''ord_'' n, ord_intent_id = intent_id oi,
                ord_status = Ord_submitted, ord_submitted_at = xa_processing_time a,
                ord_venue = Venue_simulator\<rparr>"
  obtain evs1 c1 n1 where 1: "emit_if (xs_emit_events X)
            (exec_event E X a OrderSubmitted (P_submitted ?ord ''simulator'' (decision_id d)) c0)
            c0 (evs0, c0, Suc n) = (evs1, c1, n1)" by (metis prod_cases3)
  obtain evs2 c2 n2 where 2: "emit_if (xs_emit_events X)
            (exec_event E X a OrderAcknowledged (P_acknowledged (order_id ?ord) ''simulator'') c1)
            c1 (evs1, c1, n1) = (evs2, c2, n2)" by (metis prod_cases3)
  from emit_if_stamp [OF 1 assms(2)] have "\<forall>e \<in> set evs1. stamp_args a e" by simp
  from emit_if_stamp [OF 2 this] have e2: "\<forall>e \<in> set evs2. stamp_args a e" by simp
  show ?thesis
  proof (cases "fm_fill_at (xs_fill_model X) = At_next_open")
    case True
    with assms(1) have "er_events res = filter_events X evs2"
      unfolding submit_order_def Let_def split_conv 1 2 by auto
    with e2 show ?thesis by (simp add: filter_events_all)
  next
    case False
    let ?r = "\<lparr>or_order = ?ord, or_quantity = q, or_side = fin_side sg,
       or_position_side = (if fin_side sg = BUY then LONG else SHORT),
       or_symbol = xa_symbol a, or_stop_loss = fin_stop_loss sg, or_take_profit = fin_take_profit sg\<rparr>"
    obtain evs tr st1 k1 where o: "open_position E X a ?r b snap c2 False (st, n2) = (evs, tr, st1, k1)"
      by (metis prod_cases4)
    with assms(1) False have "er_events res = filter_events X (evs2 @ evs)"
      unfolding submit_order_def Let_def split_conv 1 2 by auto
    with e2 open_stamp [OF o] filter_events_all [of "evs2 @ evs" "stamp_args a" X] show ?thesis by auto
  qed
qed

lemma execute_stamp:
  assumes "execute E X a d snap b (st, n) = Inr (res, st', k)" and "dec_event_time d = xa_event_time a"
  shows "\<forall>e \<in> set (er_events res). stamp_args a e"
proof (cases "if is_approved d then dec_final_signal d else None")
  case None
  with assms(1) show ?thesis by (auto simp: execute_def no_result_def)
next
  case (Some sg)
  have a: "a\<lparr>xa_event_time := dec_event_time d\<rparr> = a" using assms(2) by simp
  let ?q = "position_size X snap (fin_entry_price sg) (fin_stop_loss sg) (size_multiplier sg)"
  let ?oi = "build_intent E a d sg ?q snap n"
  consider (long) "long_only (xs_config X) \<and> fin_side sg = SELL"
    | (size) "\<not> (long_only (xs_config X) \<and> fin_side sg = SELL)" "?q \<le> 0"
    | (order) "\<not> (long_only (xs_config X) \<and> fin_side sg = SELL)" "\<not> ?q \<le> 0" by blast
  then show ?thesis
  proof cases
    case long
    with assms(1) show ?thesis unfolding execute_def Let_def split_conv a Some by (auto simp: no_result_def)
  next
    case size
    obtain e m where e: "execution_failed E X a ''invalid_position_size'' ''sizing'' n = (e, m)" by fastforce
    then have "\<forall>x \<in> set [e]. stamp_args a x" unfolding execution_failed_def by (simp add: exec_event_eq)
    moreover from assms(1) size have er: "er_events res = filter_events X [e]"
      unfolding execute_def Let_def split_conv a Some by (auto simp: e)
    ultimately show ?thesis unfolding er by (intro filter_events_all)
  next
    case order
    obtain evs c m where em: "emit_if (xs_emit_events X)
        (exec_event E X a OrderIntentCreated (P_intent ?oi) None) None ([], None, Suc n) = (evs, c, m)" by (metis prod_cases3)
    from emit_if_stamp [OF em, of "stamp_args a"] have evs: "\<forall>e \<in> set evs. stamp_args a e" by simp
    obtain gate where g: "gate_check ?oi snap = Inr gate"
      using assms(1) order unfolding execute_def Let_def split_conv a Some
      by (cases "gate_check ?oi snap") (auto simp: em)
    show ?thesis
    proof (cases "xr_passed gate")
      case False
      obtain e k' where e: "exec_event E X a OrderRejected (P_order_rejected (xr_reason gate) ''pre_trade'') c m = (e, k')" by fastforce
      have "execute E X a d snap b (st, n) = Inr (\<lparr>er_events = filter_events X (evs @ [e]), er_transitions = []\<rparr>, st, k')"
        unfolding execute_def Let_def split_conv a Some option.case if_not_P [OF order(1)] if_not_P [OF order(2)] em g
        using False by (simp add: e)
      with assms(1) have er: "er_events res = filter_events X (evs @ [e])" by auto
      have "stamp_args a e" by (rule exec_event_eq(3) [OF e])
      with evs have "\<forall>x \<in> set (evs @ [e]). stamp_args a x" by (simp only: set_append ball_Un) simp
      then show ?thesis unfolding er by (rule filter_events_all)
    next
      case True
      have "execute E X a d snap b (st, n) = Inr (submit_order E X a d sg ?q ?oi b snap (evs, c) (st, m))"
        unfolding execute_def Let_def split_conv a Some option.case if_not_P [OF order(1)] if_not_P [OF order(2)] em g
        using True by simp
      with assms(1) have "submit_order E X a d sg ?q ?oi b snap (evs, c) (st, m) = (res, st', k)" by simp
      from submit_stamp [OF this evs] show ?thesis .
    qed
  qed
qed


subsection \<open>A cycle stamps its events\<close>

definition stamped :: "cycle \<Rightarrow> bool" where
  "stamped c \<longleftrightarrow> (\<forall>e \<in> set (cy_events c). stamp (cy_id c) (cy_event_time c) (cy_processing_time c) e)
     \<and> (\<forall>e \<in> set (cy_exec_events c). stamp (cy_id c) (cy_event_time c) (cy_processing_time c) e \<and> engine_made e)"

definition stamping :: "('w running, 'a) phase \<Rightarrow> bool" where
  "stamping f \<longleftrightarrow> (\<forall>s s' r. stamped (snd s) \<longrightarrow> f s = (s', r) \<longrightarrow> stamped (snd s'))"

lemma stampingI:
  "(\<And>p c p' c' r. stamped c \<Longrightarrow> f (p, c) = ((p', c'), r) \<Longrightarrow> stamped c') \<Longrightarrow> stamping f"
  by (auto simp: stamping_def)

lemma stampingD: "stamping f \<Longrightarrow> f s = (s', r) \<Longrightarrow> stamped (snd s) \<Longrightarrow> stamped (snd s')"
  unfolding stamping_def by blast

lemma stamping_return: "stamping (return x)" "stamping (raise e)"
  by (auto intro: stampingI)

lemma stamping_seq: "stamping f \<Longrightarrow> (\<And>x. stamping (g x)) \<Longrightarrow> stamping (seq f g)"
proof (unfold stamping_def, intro allI impI)
  fix s s' r assume f: "\<forall>s s' r. stamped (snd s) \<longrightarrow> f s = (s', r) \<longrightarrow> stamped (snd s')"
    and g: "\<And>x. \<forall>s s' r. stamped (snd s) \<longrightarrow> g x s = (s', r) \<longrightarrow> stamped (snd s')"
    and s: "stamped (snd s)" and run: "seq f g s = (s', r)"
  obtain u x where u: "f s = (u, x)" by fastforce
  with f s have "stamped (snd u)" by blast
  show "stamped (snd s')"
  proof (cases x)
    case (Inl e)
    with run u \<open>stamped (snd u)\<close> show ?thesis by (simp add: seq_def)
  next
    case (Inr y)
    with run u have "g y u = (s', r)" by (simp add: seq_def)
    with g [of y] \<open>stamped (snd u)\<close> show ?thesis by blast
  qed
qed

lemma stamping_context: "(\<And>p c p' c' r. f (p, c) = ((p', c'), r) \<Longrightarrow> c' = c) \<Longrightarrow> stamping f"
  by (rule stampingI) metis

lemma with_store_context: "with_store f (p, c) = ((p', c'), r) \<Longrightarrow> c' = c"
  by (auto simp: with_store_def split: sum.splits prod.splits)

lemma apply_each_context: "apply_each E trs (p, c) = ((p', c'), r) \<Longrightarrow> c' = c"
proof (induction trs arbitrary: p)
  case (Cons tr trs)
  obtain p1 c1 x where w: "with_store (apply_transition E tr) (p, c) = ((p1, c1), x)" by (metis prod_cases3 surj_pair)
  from with_store_context [OF w] have "c1 = c" .
  with Cons w show ?case by (auto split: sum.splits)
qed simp

lemma snapshot_context: "take_snapshot E R (p, c) = ((p', c'), r) \<Longrightarrow> c' = c"
  by (auto simp: take_snapshot_def dest: with_store_context)

lemmas stamping_quiet = stamping_context [OF with_store_context] stamping_context [OF apply_each_context]
  stamping_context [OF snapshot_context]

lemma stamping_emit: "stamping (emit E R ch fam typ pl)"
  by (rule stampingI)
    (auto simp: emit_def stamped_def stamp_def build_envelope_def cycle_meta_def well_stamped_def split: if_splits)

lemma note_stamp:
  "\<forall>e \<in> set evs. stamp (cy_id c) (cy_event_time c) (cy_processing_time c) e \<and> engine_made e \<Longrightarrow> stamped c \<Longrightarrow>
   note_exec_events evs (p, c) = ((p', c'), r) \<Longrightarrow> stamped c'"
  by (auto simp: note_exec_events_def stamped_def)

lemma apply_note_stamp:
  assumes "seq (apply_each E trs) (\<lambda>_. note_exec_events evs) (p, c) = ((p', c'), r)" and "stamped c"
    and "\<forall>e \<in> set evs. stamp (cy_id c) (cy_event_time c) (cy_processing_time c) e \<and> engine_made e"
  shows "stamped c'"
proof -
  obtain p1 c1 x where a: "apply_each E trs (p, c) = ((p1, c1), x)" by (metis prod_cases3 surj_pair)
  from apply_each_context [OF a] have "c1 = c" .
  with assms a note_stamp [OF assms(3,2)] show ?thesis by (auto simp: seq_def split: sum.splits)
qed

lemma stamping_evaluation: "stamping (bar_evaluation E X snap so inc)"
proof (rule stampingI)
  fix p c p' c' r assume st: "stamped c" and run: "bar_evaluation E X snap so inc (p, c) = ((p', c'), r)"
  obtain res st' n where e: "evaluate_bar E X (cycle_exec_args c) (cy_bar c) snap so inc (pl_exec p, pl_tick p) = (res, st', n)"
    by (metis prod_cases3)
  with run have "seq (apply_each E (er_transitions res)) (\<lambda>_. note_exec_events (er_events res))
      (p\<lparr>pl_exec := st', pl_tick := n\<rparr>, c) = ((p', c'), r)" by (simp add: bar_evaluation_def)
  from apply_note_stamp [OF this st] evaluate_stamp [OF e] show "stamped c'" by (simp add: cycle_exec_args_def stamp_args_def)
qed

lemma execute_decision_stamp:
  assumes "execute_decision E X d snap (p, c) = ((p', c'), r)" and "stamped c" and "dec_event_time d = cy_event_time c"
  shows "stamped c'"
proof (cases "execute E X (cycle_exec_args c) d snap (cy_bar c) (pl_exec p, pl_tick p)")
  case (Inl e)
  with assms show ?thesis by (simp add: execute_decision_def)
next
  case (Inr x)
  obtain res st n where x: "x = (res, st, n)" by (metis prod_cases3)
  with assms(1) Inr have "seq (apply_each E (er_transitions res)) (\<lambda>_. note_exec_events (er_events res))
      (p\<lparr>pl_exec := st, pl_tick := n\<rparr>, c) = ((p', c'), r)" by (simp add: execute_decision_def)
  from apply_note_stamp [OF this assms(2)] execute_stamp [OF Inr [unfolded x]] assms(3)
  show ?thesis by (simp add: cycle_exec_args_def stamp_args_def)
qed

lemma stamping_prod: "(\<And>a b. stamping (f a b)) \<Longrightarrow> stamping (case x of (a, b) \<Rightarrow> f a b)"
  by (cases x) simp

lemma stamping_apply_each: "stamping (apply_each E trs)"
  by (rule stamping_quiet(2))

lemma stamping_snapshot: "stamping (take_snapshot E R)"
  by (rule stamping_quiet(3))

lemma stamping_pre: "stamping (pre_decision_evaluate E R)"
  by (auto simp: pre_decision_evaluate_def split: option.split
      intro!: stamping_seq stamping_snapshot stamping_evaluation stamping_return)

lemma stamping_candle: "stamping (emit_candle_received E R)"
  by (rule stampingI) (auto simp: emit_candle_received_def dest: stampingD [OF stamping_emit])

lemma stamping_features: "stamping (features_phase E R)"
proof (rule stampingI)
  fix p c p' c' r assume st: "stamped c" and run: "features_phase E R (p, c) = ((p', c'), r)"
  show "stamped c'"
  proof (cases "build_features E (rt_compute R) (rt_features R) (rt_hash R) (cy_df c) (cy_symbol c) (cy_timeframe c)
            (cy_processing_time c) (rt_persist R) (pl_features p, pl_tick p)")
    case (Inl e)
    with run st show ?thesis by (simp add: features_phase_def)
  next
    case (Inr x)
    obtain fs ctx fstore n where x: "x = (fs, ctx, fstore, n)" by (metis prod_cases4)
    let ?check = "if rt_persist R then
                         (case get_features fstore (feature_set_id fs) of
                            Inl e \<Rightarrow> raise e
                          | Inr r \<Rightarrow> if fsr_market_context r \<noteq> Some ctx
                              then raise (RuntimeError ''FeatureStore record does not match built MarketContext'')
                              else return ())
                       else return ()"
    have "stamping ?check" by (auto intro: stamping_return split: sum.split)
    then have "stamping (seq ?check (\<lambda>_.
             seq (emit E R True Fam_market FeatureSetBuilt
                    (P_features (feature_set_id fs) (feature_version fs) (config_hash fs) (indicators fs) (flags fs)))
               (\<lambda>_. seq (emit E R True Fam_market MarketContextDerived (P_context ctx))
               (\<lambda>_. return (fs, ctx)))))" (is "stamping ?f")
      by (intro stamping_seq stamping_emit stamping_return)
    moreover have "?f (p\<lparr>pl_features := fstore, pl_tick := n\<rparr>, c) = ((p', c'), r)"
      using run unfolding features_phase_def split_conv Inr x sum.case Let_def .
    ultimately show ?thesis using st by (auto dest: stampingD)
  qed
qed

lemma stamping_reset: "stamping (maybe_reset_daily_risk E R)"
  by (rule stamping_context)
    (auto simp: maybe_reset_daily_risk_def Let_def split: option.splits sum.splits if_splits
      dest: apply_each_context simp del: apply_each.simps)

lemma stamping_mark: "stamping (mark_to_market_phase E R)"
  by (rule stamping_context)
    (auto simp: mark_to_market_phase_def split: sum.splits if_splits dest: apply_each_context simp del: apply_each.simps)

lemma stamping_collect: "stamping (collect_signals E R fs ctx pvs)"
proof (induction pvs)
  case (Cons pv pvs)
  then show ?case
    by (cases "prov_analyze pv fs ctx")
      (auto intro!: stamping_seq stamping_emit stamping_return split: if_splits)
qed (auto intro: stampingI)

lemma stamping_count: "stamping (count_signal E R snap d)"
proof (cases "is_approved d")
  case True
  show ?thesis
    by (rule stampingI) (auto simp: count_signal_def True simp del: apply_each.simps
        dest: stampingD [OF stamping_seq [OF stamping_apply_each stamping_return(1)]])
qed (simp add: count_signal_def stamping_return)

lemma stamping_decision_events: "stamping (decision_events E R snap d)"
  unfolding decision_events_def
  by (auto intro!: stamping_seq stamping_emit stamping_return split: option.split if_splits)

lemma stamping_decide: "stamping (decide E R sigs ctx snap)"
  by (rule stampingI)
    (auto simp: decide_split split: sum.splits prod.splits
      dest: stampingD [OF stamping_seq [OF stamping_decision_events stamping_count]])

lemma stamping_signal_exit: "stamping (signal_exit E R X d)"
  by (rule stampingI) (auto simp: signal_exit_def split: sum.splits option.splits if_splits
      dest: stampingD [OF stamping_seq [OF stamping_snapshot stamping_evaluation]])

lemma same_bar_stamp:
  assumes "same_bar_exit_and_execute E R d s = (s', Inr ())" and "stamped (snd s)" and "dec_event_time d = cy_event_time (snd s)"
  shows "stamped (snd s')"
proof (cases "if is_approved d then rt_exec R else None")
  case None
  with assms show ?thesis by (simp add: same_bar_exit_and_execute_def)
next
  case (Some X)
  with assms(1) obtain u v snap where u: "signal_exit E R X d s = (u, Inr ())"
    and v: "take_snapshot E R u = (v, Inr snap)" and e: "execute_decision E X d snap v = (s', Inr ())"
    unfolding same_bar_exit_and_execute_def Some by (auto simp: seq_Inr)
  have st: "stamped (snd v)"
    using stampingD [OF stamping_snapshot v stampingD [OF stamping_signal_exit u assms(2)]] .
  have "cycle_core (snd v) = cycle_core (snd s)"
    using steady_state [OF steady_signal_exit u] steady_state [OF steady_snapshot v] by simp
  then have "dec_event_time d = cy_event_time (snd v)" using core_eq assms(3) by metis
  with execute_decision_stamp [of E X d snap "fst v" "snd v" "fst s'" "snd s'"] e st show ?thesis by simp
qed

text \<open>A cycle that returns has stamped everything it publishes.\<close>

lemma cycle_stamped:
  assumes "run_cycle E R a p = (q, Inr res)" and "market_data (rt_latest R)"
  shows "\<exists>t u. \<forall>e \<in> set (cr_events res). stamp (cr_correlation_id res) t u e"
    and "\<forall>e \<in> set (cr_execution_events res). engine_made e"
proof -
  from run_cycle_Inr [OF assms] obtain c p1 c2 where c: "cy_events c = []" "cy_exec_events c = []"
    and body: "cycle_body E R (p1, c) = ((q, c2), Inr res)" by metis
  from body have "stamped c2 \<and> cr_events res = cy_events c2 \<and> cr_execution_events res = cy_exec_events c2
      \<and> cr_correlation_id res = cy_id c2"
  proof (cases rule: cycle_body_E)
    case (1 s1 s2 s3 s4 s5 s6 s7 s8 s9 fs mc snap sigs d)
    have 0: "stamped (snd (p1, c))" using c by (simp add: stamped_def)
    note s8 = stampingD [OF stamping_decide 1(8) stampingD [OF stamping_collect 1(7) stampingD [OF stamping_snapshot 1(6)
      stampingD [OF stamping_mark 1(5) stampingD [OF stamping_reset 1(4) stampingD [OF stamping_features 1(3)
      stampingD [OF stamping_candle 1(2) stampingD [OF stamping_pre 1(1) 0]]]]]]]]
    have "dec_event_time d = cy_event_time c" using cycle_decision_time [OF body] 1(11) by simp
    moreover have "cycle_core (snd s8) = cycle_core c"
      using steady_state [OF steady_pre 1(1)] steady_state [OF steady_candle 1(2)] steady_state [OF steady_features 1(3)]
        steady_state [OF steady_reset 1(4)] steady_state [OF steady_mark 1(5)] steady_state [OF steady_snapshot 1(6)]
        steady_state [OF steady_collect 1(7)] steady_state [OF steady_decide 1(8)] by simp
    ultimately have "dec_event_time d = cy_event_time (snd s8)" using core_eq by metis
    from same_bar_stamp [OF 1(9) s8 this] have "stamped (snd s9)" .
    then have "stamped c2"
      using 1(10) by (auto simp: publish_events_def stamped_def Let_def split: prod.splits)
    with 1(11) show ?thesis by simp
  qed
  then show "\<exists>t u. \<forall>e \<in> set (cr_events res). stamp (cr_correlation_id res) t u e"
    and "\<forall>e \<in> set (cr_execution_events res). engine_made e"
    by (auto simp: stamped_def)
qed


subsection \<open>Before publication the bus is left alone, and a silent platform adds no event\<close>

definition offline :: "('p, 'w) runtime \<Rightarrow> ('w running, 'a) phase \<Rightarrow> bool" where
  "offline R f \<longleftrightarrow> (\<forall>s s' r. f s = (s', r) \<longrightarrow> pl_bus (fst s') = pl_bus (fst s)
     \<and> (\<not> rt_emit R \<longrightarrow> cy_events (snd s') = cy_events (snd s)))"

lemma offlineI:
  "(\<And>p c p' c' r. f (p, c) = ((p', c'), r) \<Longrightarrow> pl_bus p' = pl_bus p \<and> (\<not> rt_emit R \<longrightarrow> cy_events c' = cy_events c))
   \<Longrightarrow> offline R f"
  by (auto simp: offline_def)

lemma offlineD:
  "offline R f \<Longrightarrow> f s = (s', r) \<Longrightarrow> pl_bus (fst s') = pl_bus (fst s)
     \<and> (\<not> rt_emit R \<longrightarrow> cy_events (snd s') = cy_events (snd s))"
  unfolding offline_def by blast

lemma offline_pair:
  "offline R f \<Longrightarrow> f (p, c) = ((p', c'), r) \<Longrightarrow> pl_bus p' = pl_bus p \<and> (\<not> rt_emit R \<longrightarrow> cy_events c' = cy_events c)"
  using offlineD [of R f "(p, c)" "(p', c')" r] by simp

lemma offline_return: "offline R (return x)" "offline R (raise e)"
  by (simp_all add: offline_def)

lemma offline_seq:
  assumes "offline R f" "\<And>x. offline R (g x)"
  shows "offline R (seq f g)"
proof (rule offlineI)
  fix p c p' c' r assume run: "seq f g (p, c) = ((p', c'), r)"
  obtain u x where u: "f (p, c) = (u, x)" by fastforce
  note 1 = offlineD [OF assms(1) u]
  show "pl_bus p' = pl_bus p \<and> (\<not> rt_emit R \<longrightarrow> cy_events c' = cy_events c)"
  proof (cases x)
    case (Inl e)
    with run u 1 show ?thesis by (simp add: seq_def)
  next
    case (Inr y)
    with run u have "g y u = ((p', c'), r)" by (simp add: seq_def)
    from offlineD [OF assms(2) this] 1 show ?thesis by simp
  qed
qed

lemma offline_store: "offline R (with_store f)"
  by (rule offlineI) (auto simp: with_store_def split: sum.splits prod.splits)

lemma offline_apply: "offline R (apply_each E trs)"
proof (induction trs)
  case (Cons tr trs)
  have e: "apply_each E (tr # trs) = seq (with_store (apply_transition E tr)) (\<lambda>_. apply_each E trs)"
    by (intro ext) (simp add: seq_def)
  show ?case unfolding e by (rule offline_seq [OF offline_store Cons.IH])
qed (simp add: offline_def)

lemma offline_snapshot: "offline R (take_snapshot E R)"
  by (rule offlineI) (auto simp: take_snapshot_def dest: offline_pair [OF offline_store])

lemma offline_note: "offline R (note_exec_events evs)"
  by (rule offlineI) (auto simp: note_exec_events_def)

lemma offline_emit: "offline R (emit E R ch fam typ pl)"
  by (rule offlineI) (auto simp: emit_def split: if_splits prod.splits)

lemmas offline_apply_note = offline_pair [OF offline_seq [OF offline_apply offline_note]]

lemma offline_evaluation: "offline R (bar_evaluation E X snap so inc)"
  by (rule offlineI) (auto simp: bar_evaluation_def split: prod.splits dest!: offline_apply_note)

lemma offline_execution: "offline R (execute_decision E X d snap)"
  by (rule offlineI) (auto simp: execute_decision_def split: prod.splits sum.splits dest!: offline_apply_note)

lemma offline_pre: "offline R (pre_decision_evaluate E R)"
  by (auto simp: pre_decision_evaluate_def split: option.split
      intro!: offline_seq offline_snapshot offline_evaluation offline_return)

lemma offline_candle: "offline R (emit_candle_received E R)"
  by (rule offlineI) (auto simp: emit_candle_received_def dest: offline_pair [OF offline_emit])

lemma offline_features: "offline R (features_phase E R)"
proof (rule offlineI)
  fix p c p' c' r assume run: "features_phase E R (p, c) = ((p', c'), r)"
  show "pl_bus p' = pl_bus p \<and> (\<not> rt_emit R \<longrightarrow> cy_events c' = cy_events c)"
  proof (cases "build_features E (rt_compute R) (rt_features R) (rt_hash R) (cy_df c) (cy_symbol c) (cy_timeframe c)
            (cy_processing_time c) (rt_persist R) (pl_features p, pl_tick p)")
    case (Inl e)
    with run show ?thesis by (simp add: features_phase_def)
  next
    case (Inr x)
    obtain fs ctx fstore n where x: "x = (fs, ctx, fstore, n)" by (metis prod_cases4)
    let ?check = "if rt_persist R then
                         (case get_features fstore (feature_set_id fs) of
                            Inl e \<Rightarrow> raise e
                          | Inr r \<Rightarrow> if fsr_market_context r \<noteq> Some ctx
                              then raise (RuntimeError ''FeatureStore record does not match built MarketContext'')
                              else return ())
                       else return ()"
    have "offline R ?check" by (auto intro: offline_return split: sum.split)
    then have "offline R (seq ?check (\<lambda>_.
             seq (emit E R True Fam_market FeatureSetBuilt
                    (P_features (feature_set_id fs) (feature_version fs) (config_hash fs) (indicators fs) (flags fs)))
               (\<lambda>_. seq (emit E R True Fam_market MarketContextDerived (P_context ctx))
               (\<lambda>_. return (fs, ctx)))))" (is "offline R ?f")
      by (intro offline_seq offline_emit offline_return)
    moreover have "?f (p\<lparr>pl_features := fstore, pl_tick := n\<rparr>, c) = ((p', c'), r)"
      using run unfolding features_phase_def split_conv Inr x sum.case Let_def .
    ultimately show ?thesis by (auto dest: offline_pair)
  qed
qed

lemma offline_reset: "offline R (maybe_reset_daily_risk E R)"
  by (rule offlineI)
    (auto simp: maybe_reset_daily_risk_def Let_def split: option.splits sum.splits if_splits
      dest: offline_pair [OF offline_apply] simp del: apply_each.simps)

lemma offline_mark: "offline R (mark_to_market_phase E R)"
  by (rule offlineI)
    (auto simp: mark_to_market_phase_def split: sum.splits if_splits dest: offline_pair [OF offline_apply]
      simp del: apply_each.simps)

lemma offline_collect: "offline R (collect_signals E R fs ctx pvs)"
proof (induction pvs)
  case (Cons pv pvs)
  then show ?case
    by (cases "prov_analyze pv fs ctx")
      (auto intro!: offline_seq offline_emit offline_return split: if_splits)
qed (auto intro: offlineI)

lemma offline_count: "offline R (count_signal E R snap d)"
proof (cases "is_approved d")
  case True
  show ?thesis
    by (rule offlineI) (auto simp: count_signal_def True simp del: apply_each.simps
        dest: offline_pair [OF offline_seq [OF offline_apply offline_return(1)]])
qed (simp add: count_signal_def offline_return)

lemma offline_decision_events: "offline R (decision_events E R snap d)"
  unfolding decision_events_def
  by (auto intro!: offline_seq offline_emit offline_return split: option.split if_splits)

lemma offline_decide: "offline R (decide E R sigs ctx snap)"
  by (rule offlineI)
    (auto simp: decide_split split: sum.splits prod.splits
      dest!: offline_pair [OF offline_seq [OF offline_decision_events offline_count]])

lemma offline_signal_exit: "offline R (signal_exit E R X d)"
  by (rule offlineI) (auto simp: signal_exit_def split: sum.splits option.splits if_splits
      dest: offline_pair [OF offline_seq [OF offline_snapshot offline_evaluation]])

lemma offline_same_bar: "offline R (same_bar_exit_and_execute E R d)"
  by (auto simp: same_bar_exit_and_execute_def split: option.split if_splits
      intro!: offline_seq offline_signal_exit offline_execution offline_snapshot offline_return)

text \<open>What a cycle hands to the bus is what it reports.\<close>

lemma cycle_publishes:
  assumes "run_cycle E R a p = (q, Inr res)" and "market_data (rt_latest R)"
  shows "publish_many (rt_publish R) (cr_events res) (pl_bus p) = (pl_bus q, Inr ())"
proof -
  from run_cycle_Inr [OF assms] obtain c n p1 c2 where
    p1: "p1 = p\<lparr>pl_clock := set_event_time (cy_event_time c) (pl_clock p), pl_tick := n\<rparr>"
    and body: "cycle_body E R (p1, c) = ((q, c2), Inr res)" by metis
  from body show ?thesis
  proof (cases rule: cycle_body_E)
    case (1 s1 s2 s3 s4 s5 s6 s7 s8 s9 fs mc snap sigs d)
    have "pl_bus (fst s9) = pl_bus p"
      using offlineD [OF offline_pre 1(1)] offlineD [OF offline_candle 1(2)] offlineD [OF offline_features 1(3)]
        offlineD [OF offline_reset 1(4)] offlineD [OF offline_mark 1(5)] offlineD [OF offline_snapshot 1(6)]
        offlineD [OF offline_collect 1(7)] offlineD [OF offline_decide 1(8)] offlineD [OF offline_same_bar 1(9)] p1
      by simp
    with 1(10,11) show ?thesis by (auto simp: publish_events_def Let_def split: prod.splits)
  qed
qed

text \<open>A platform that emits no event publishes those of the execution engine only.\<close>

lemma silent_cycle_events:
  assumes "run_cycle E R a p = (q, Inr res)" and "market_data (rt_latest R)" and "\<not> rt_emit R"
  shows "cr_events res = cr_execution_events res"
proof -
  from run_cycle_Inr [OF assms(1,2)] obtain c p1 c2 where c: "cy_events c = []"
    and body: "cycle_body E R (p1, c) = ((q, c2), Inr res)" by metis
  from body show ?thesis
  proof (cases rule: cycle_body_E)
    case (1 s1 s2 s3 s4 s5 s6 s7 s8 s9 fs mc snap sigs d)
    have "cy_events (snd s9) = []"
      using offlineD [OF offline_pre 1(1)] offlineD [OF offline_candle 1(2)] offlineD [OF offline_features 1(3)]
        offlineD [OF offline_reset 1(4)] offlineD [OF offline_mark 1(5)] offlineD [OF offline_snapshot 1(6)]
        offlineD [OF offline_collect 1(7)] offlineD [OF offline_decide 1(8)] offlineD [OF offline_same_bar 1(9)] assms(3) c
      by simp
    with 1(10,11) show ?thesis by (cases s9) (auto simp: publish_events_def Let_def split: prod.splits)
  qed
qed


subsection \<open>The log gives cycles back\<close>

text \<open>The rows of a cycle: those its events were written to, and of every other cycle those there were.\<close>

lemma cycle_rows:
  assumes "market_data (rt_latest R)" and "rt_publish R = memory_publish"
    and "pl_bus p = (\<lparr>bus_handlers = [database_handler E], bus_published = ps\<rparr>, w)"
    and "run_cycle E R a p = (q, Inr res)"
    and "\<forall>r \<in> set (db_events (dw_db w)). row_correlation_id r \<noteq> cr_correlation_id res"
  shows "filter (\<lambda>r. row_correlation_id r = cr_correlation_id res) (db_events (dw_db (snd (pl_bus q)))) = map event_to_row (cr_events res)"
    and "i \<noteq> cr_correlation_id res \<Longrightarrow>
        fetch_events_by_correlation i (dw_db (snd (pl_bus q))) = fetch_events_by_correlation i (dw_db w)"
    and "db_order (dw_db (snd (pl_bus q))) = db_order (dw_db w)"
    and "\<forall>e \<in> set (cr_events res). well_stamped e"
    and "\<exists>t. \<forall>e \<in> set (cr_events res). ev_event_time e = t"
proof -
  obtain b w' where q: "pl_bus q = (b, w')" by fastforce
  from cycle_publishes [OF assms(4,1)] assms(2,3) q have
    "publish_many memory_publish (cr_events res) (\<lparr>bus_handlers = [database_handler E], bus_published = ps\<rparr>, w)
      = ((b, w'), Inr ())" by simp
  from publish_stores [OF this] have rows: "db_events (dw_db w') = db_events (dw_db w) @ map event_to_row (cr_events res)"
    and order: "db_order (dw_db w') = db_order (dw_db w)" by simp_all
  from cycle_stamped(1) [OF assms(4,1)] obtain t u where
    st: "\<forall>e \<in> set (cr_events res). stamp (cr_correlation_id res) t u e" by blast
  have old: "filter (\<lambda>r. row_correlation_id r = cr_correlation_id res) (db_events (dw_db w)) = []"
    using assms(5) by (simp add: filter_empty_conv)
  have mine: "filter (\<lambda>r. row_correlation_id r = cr_correlation_id res) (map event_to_row (cr_events res))
      = map event_to_row (cr_events res)"
    using st by (auto simp: filter_map o_def stamp_def intro!: filter_True)
  show "filter (\<lambda>r. row_correlation_id r = cr_correlation_id res) (db_events (dw_db (snd (pl_bus q)))) = map event_to_row (cr_events res)"
    using old mine q by (simp add: rows)
  show "db_order (dw_db (snd (pl_bus q))) = db_order (dw_db w)" using order q by simp
  show "\<forall>e \<in> set (cr_events res). well_stamped e" "\<exists>t. \<forall>e \<in> set (cr_events res). ev_event_time e = t"
    using st by (auto simp: stamp_def)
  show "fetch_events_by_correlation i (dw_db (snd (pl_bus q))) = fetch_events_by_correlation i (dw_db w)"
    if "i \<noteq> cr_correlation_id res"
  proof -
    have "filter (\<lambda>r. row_correlation_id r = i) (map event_to_row (cr_events res)) = []"
      using st that by (auto simp: filter_empty_conv stamp_def)
    then show ?thesis by (simp add: fetch_events_by_correlation_def rows order q)
  qed
qed

text \<open>A server that answers rows of equal time as they were inserted gives them in the order of publication.\<close>

lemma cycle_recovered:
  assumes "market_data (rt_latest R)" and "rt_publish R = memory_publish"
    and "pl_bus p = (\<lparr>bus_handlers = [database_handler E], bus_published = ps\<rparr>, w)"
    and "run_cycle E R a p = (q, Inr res)"
    and "\<forall>r \<in> set (db_events (dw_db w)). row_correlation_id r \<noteq> cr_correlation_id res"
    and "db_order (dw_db w) = sort_key row_event_time"
  shows "fetch_events_by_correlation (cr_correlation_id res) (dw_db (snd (pl_bus q))) = cr_events res"
proof -
  note r = cycle_rows [OF assms(1-5)]
  have "sort_key row_event_time (map event_to_row (cr_events res)) = map event_to_row (cr_events res)"
    using r(5) by (intro sort_key_id_if_sorted) (auto simp: sorted_iff_nth_mono event_to_row_def)
  moreover have "map row_to_envelope (map event_to_row (cr_events res)) = cr_events res"
    using r(4) by (auto simp: o_def row_roundtrip intro!: map_idI)
  ultimately show ?thesis by (simp only: fetch_events_by_correlation_def r(1,3) assms(6))
qed



subsection \<open>A concrete runtime over the database\<close>

text \<open>It has no provider and no execution engine; its first cycle, in the Asian session, is
  rejected by the market filter.\<close>

definition logged_runtime :: "(unit, db_world bus \<times> db_world) runtime" where
  "logged_runtime = \<lparr>rt_latest = demo_latest, rt_compute = (\<lambda>d df. Inr 1), rt_features = demo_features,
     rt_hash = ''h'', rt_providers = [], rt_engine = demo_engine_config, rt_exec = None,
     rt_publish = memory_publish, rt_portfolio_id = ''p'', rt_mode = Paper_mode, rt_persist = False,
     rt_emit = True\<rparr>"

definition logged_platform :: "(db_world bus \<times> db_world) platform" where
  "logged_platform = new_platform (fst (init_store unary_env ''p'' Paper_mode 10000 None 0)) (Wall_clock None)
     (new_bus [database_handler unary_env], \<lparr>dw_buffer = [], dw_db = empty_database, dw_tick = 99\<rparr>) 1"

lemma logged_market_data: "market_data (rt_latest logged_runtime)"
  by unfold_locales (auto simp: logged_runtime_def demo_latest_def)

lemma emit_run:
  assumes "rt_emit R"
  shows "\<exists>e. emit E R ch fam typ pl (p, c) = ((p\<lparr>pl_tick := Suc (pl_tick p)\<rparr>,
      c\<lparr>cy_events := cy_events c @ [e], cy_causation := (if ch then Some (event_id e) else cy_causation c)\<rparr>), Inr ())
    \<and> event_id e = fresh_id E ''evt_'' (pl_tick p) \<and> ev_type e = typ \<and> ev_payload e = pl"
  using assms
  by - (rule exI [of _ "fst (build_envelope E (cycle_meta R c) fam typ pl (cy_causation c) (pl_tick p))"],
    simp add: emit_def case_prod_beta)

lemma logged_prepare:
  "\<exists>c. prepare_bar unary_env logged_runtime demo_cycle_args logged_platform =
       (logged_platform\<lparr>pl_clock := Wall_clock (Some 2), pl_tick := 4\<rparr>, Inr c)
     \<and> cy_df c = [(2, demo_candle)] \<and> cy_event_time c = 2 \<and> cy_events c = [] \<and> cy_exec_events c = []
     \<and> cy_id c = ''cycle_a''"
  by (simp add: prepare_bar_def logged_runtime_def logged_platform_def demo_cycle_args_def new_platform_def
      now_event_time_def now_processing_time_def demo_latest_def set_event_time_def fresh_id_def unary_env_def
      Let_def)

lemma logged_features:
  assumes "cy_df c = [(2, demo_candle)]"
  shows "\<exists>fs ctx p' c' e1 e2. features_phase unary_env logged_runtime (p, c) = ((p', c'), Inr (fs, ctx))
    \<and> cy_events c' = cy_events c @ [e1, e2] \<and> ev_type e1 = FeatureSetBuilt \<and> ev_type e2 = MarketContextDerived
    \<and> event_id e1 = fresh_id unary_env ''evt_'' (Suc (pl_tick p))
    \<and> event_id e2 = fresh_id unary_env ''evt_'' (Suc (Suc (pl_tick p)))
    \<and> projectable e1 \<and> mc_session ctx = ASIA \<and> pl_tick p' = Suc (Suc (Suc (pl_tick p)))
    \<and> pl_store p' = pl_store p \<and> pl_signals_day p' = pl_signals_day p \<and> pl_bus p' = pl_bus p
    \<and> cy_exec_events c' = cy_exec_events c \<and> cy_event_time c' = cy_event_time c \<and> cy_id c' = cy_id c"
  using assms
  by (simp add: features_phase_def build_features_def logged_runtime_def demo_features_def normalize_ohlcv_def
      sort_frame_def derive_context_cases seq_def emit_def build_envelope_def derive_session_def hour_of_def
      dict_set_def projectable_def cycle_meta_def Let_def)

lemma logged_decision:
  assumes "mc_session ctx = ASIA"
  shows "\<exists>d p' c' e1 e2. decide unary_env logged_runtime [] ctx snap (p, c) = ((p', c'), Inr d)
    \<and> \<not> is_approved d \<and> cy_events c' = cy_events c @ [e1, e2] \<and> ev_type e1 = DecisionMade \<and> ev_type e2 = DecisionRejected
    \<and> event_id e1 = fresh_id unary_env ''evt_'' (Suc (pl_tick p))
    \<and> event_id e2 = fresh_id unary_env ''evt_'' (Suc (Suc (pl_tick p)))
    \<and> projectable e1 \<and> pl_bus p' = pl_bus p \<and> cy_exec_events c' = cy_exec_events c \<and> cy_id c' = cy_id c"
proof -
  have mf: "\<not> sr_passed (market_filter_check (ec_filter demo_engine_config) ctx)"
    using assms by (simp add: market_filter_check_def demo_engine_config_def session_name_def)
  show ?thesis
    by (simp add: decide_def process_def mf logged_runtime_def decision_events_def seq_def emit_def build_envelope_def
      projectable_def Let_def)
qed

lemma logged_cycle:
  "\<exists>q res. run_cycle unary_env logged_runtime demo_cycle_args logged_platform = (q, Inr res)
     \<and> map ev_type (cr_events res) = [CandleReceived, FeatureSetBuilt, MarketContextDerived, DecisionMade, DecisionRejected]
     \<and> cr_correlation_id res = ''cycle_a''"
proof -
  let ?E = unary_env and ?R = logged_runtime
  let ?p = "logged_platform\<lparr>pl_clock := Wall_clock (Some 2), pl_tick := 4\<rparr>"
  have on: "rt_emit ?R" and none: "rt_exec ?R = None" and no: "rt_providers ?R = []"
    by (simp_all add: logged_runtime_def)
  from logged_prepare obtain c where c: "prepare_bar ?E ?R demo_cycle_args logged_platform = (?p, Inr c)"
    "cy_df c = [(2, demo_candle)]" "cy_event_time c = 2" "cy_events c = []" "cy_exec_events c = []" "cy_id c = ''cycle_a''"
    by blast
  have 1: "pre_decision_evaluate ?E ?R (?p, c) = ((?p, c), Inr ())"
    by (simp add: pre_decision_evaluate_def none)
  from emit_run [OF on, of ?E True Fam_market CandleReceived "P_candle (cy_bar c)" ?p c] obtain e1 where
    e1: "emit_candle_received ?E ?R (?p, c) = ((?p\<lparr>pl_tick := 5\<rparr>, c\<lparr>cy_events := [e1], cy_causation := Some (event_id e1)\<rparr>), Inr ())"
    "event_id e1 = fresh_id ?E ''evt_'' 4" "ev_type e1 = CandleReceived"
    by (auto simp: emit_candle_received_def c(4))
  let ?c = "c\<lparr>cy_events := [e1], cy_causation := Some (event_id e1)\<rparr>"
  let ?p5 = "logged_platform\<lparr>pl_clock := Wall_clock (Some 2), pl_tick := 5\<rparr>"
  from logged_features [of ?c ?p5] c(2) obtain fs ctx p3 c3 e2 e3 where
    f: "features_phase ?E ?R (?p5, ?c) = ((p3, c3), Inr (fs, ctx))"
    "cy_events c3 = [e1, e2, e3]" "ev_type e2 = FeatureSetBuilt" "ev_type e3 = MarketContextDerived"
    "event_id e2 = fresh_id ?E ''evt_'' 6" "event_id e3 = fresh_id ?E ''evt_'' 7" "projectable e2" "mc_session ctx = ASIA"
    "pl_tick p3 = 8" "pl_store p3 = pl_store logged_platform" "pl_signals_day p3 = None" "pl_bus p3 = pl_bus logged_platform"
    "cy_exec_events c3 = []" "cy_event_time c3 = 2" "cy_id c3 = ''cycle_a''"
    using c(3,5,6) by (auto simp: logged_platform_def new_platform_def)
  let ?p4 = "p3\<lparr>pl_signals_day := Some 0\<rparr>"
  have 4: "maybe_reset_daily_risk ?E ?R (p3, c3) = ((?p4, c3), Inr ())"
    by (simp add: maybe_reset_daily_risk_def f(11,14) date_of_def)
  have 5: "mark_to_market_phase ?E ?R (?p4, c3) = ((?p4, c3), Inr ())"
    by (simp add: mark_to_market_phase_def f(10) get_portfolio_def assert_portfolio_def logged_platform_def
        new_platform_def init_store_def logged_runtime_def Let_def)
  obtain snap s6 where 6: "take_snapshot ?E ?R (?p4, c3) = ((?p4\<lparr>pl_store := s6, pl_tick := 10\<rparr>, c3), Inr snap)"
    by (simp add: take_snapshot_def with_store_def snapshot_def f(9,10) assert_portfolio_def logged_platform_def
        new_platform_def init_store_def logged_runtime_def Let_def)
  let ?p6 = "?p4\<lparr>pl_store := s6, pl_tick := 10\<rparr>"
  from logged_decision [OF f(8), of snap ?p6 c3] obtain d p8 c8 e4 e5 where
    d: "decide ?E ?R [] ctx snap (?p6, c3) = ((p8, c8), Inr d)" "\<not> is_approved d"
    "cy_events c8 = [e1, e2, e3, e4, e5]" "ev_type e4 = DecisionMade" "ev_type e5 = DecisionRejected"
    "event_id e4 = fresh_id ?E ''evt_'' 11" "event_id e5 = fresh_id ?E ''evt_'' 12" "projectable e4"
    "pl_bus p8 = pl_bus logged_platform" "cy_exec_events c8 = []" "cy_id c8 = ''cycle_a''"
    by (auto simp: f)
  have 9: "same_bar_exit_and_execute ?E ?R d (p8, c8) = ((p8, c8), Inr ())"
    by (simp add: same_bar_exit_and_execute_def d(2))
  let ?es = "[e1, e2, e3, e4, e5]"
  have "\<forall>e \<in> set ?es. projectable e"
    using f(4,7) e1(3) d(5,8) by (simp add: projectable_def)
  moreover have "fresh_keys ?es empty_database"
    using f(3-6) e1(2,3) d(4-7)
    by (simp add: fresh_keys_def empty_database_def new_order_ids_def new_fill_ids_def)
  moreover have "keys_unique empty_database" by (simp add: keys_unique_def empty_database_def)
  ultimately obtain b w' where "publish_many memory_publish ?es (pl_bus logged_platform) = ((b, w'), Inr ())"
    using publish_accepts [of ?es "\<lparr>dw_buffer = [], dw_db = empty_database, dw_tick = 99\<rparr>" ?E "[]"]
    by (auto simp: logged_platform_def new_platform_def new_bus_def)
  then have "publish_events ?R (p8, c8) = ((p8\<lparr>pl_bus := (b, w')\<rparr>, c8), Inr ())"
    using d(3,9,10) by (simp add: publish_events_def logged_runtime_def Let_def)
  then have "cycle_body ?E ?R (?p, c) = ((p8\<lparr>pl_bus := (b, w')\<rparr>, c8),
      Inr \<lparr>cr_correlation_id = cy_id c8, cr_feature_set = fs, cr_context = ctx, cr_snapshot = snap,
          cr_signals = [], cr_decision = d, cr_events = cy_events c8, cr_execution_events = cy_exec_events c8\<rparr>)"
    unfolding cycle_body_def
    by (simp add: 1 e1(1) f(1) 4 5 6 no d(1) 9
        seq_run [where f = "pre_decision_evaluate ?E ?R"] seq_run [where f = "emit_candle_received ?E ?R"]
        seq_run [where f = "features_phase ?E ?R"] seq_run [where f = "maybe_reset_daily_risk ?E ?R"]
        seq_run [where f = "mark_to_market_phase ?E ?R"] seq_run [where f = "take_snapshot ?E ?R"]
        seq_run [where f = "decide ?E ?R [] ctx snap"] seq_run [where f = "same_bar_exit_and_execute ?E ?R d"]
        seq_run [where f = "publish_events ?R"] seq_run [where f = "return []"])
  then show ?thesis using c(1) d(3,4,5,11) e1(3) f(3,4) by (simp add: run_cycle_def)
qed


end
