(* ===== verification/CycleTrace.thy ===== *)
theory CycleTrace
  imports CycleLog
begin

text \<open>
  The events of a cycle with their contents: what each phase writes into the envelope it
  emits. Replay, the decision repository and the metrics read a run back from these
  payloads.
\<close>


subsection \<open>Envelopes of a cycle\<close>

definition bears :: "('p, 'w) runtime \<Rightarrow> cycle \<Rightarrow> event_family \<Rightarrow> event_type \<Rightarrow> payload \<Rightarrow> event \<Rightarrow> bool" where
  "bears R c fam typ pl e \<longleftrightarrow> ev_family e = fam \<and> ev_type e = typ \<and> ev_payload e = pl
     \<and> ev_symbol e = cy_symbol c \<and> ev_timeframe e = cy_timeframe c \<and> ev_mode e = rt_mode R
     \<and> ev_correlation_id e = cy_id c \<and> ev_event_time e = cy_event_time c
     \<and> ev_processing_time e = cy_processing_time c
     \<and> ev_revision_id e = cy_revision_id c \<and> ev_experiment_id e = cy_experiment_id c"

lemma bears_core: "cycle_core a = cycle_core b \<Longrightarrow> bears R a = bears R b"
  by (intro ext, drule arg_cong [where f = "\<lambda>c. (cy_symbol c, cy_timeframe c, cy_id c, cy_event_time c,
      cy_processing_time c, cy_revision_id c, cy_experiment_id c)"]) (simp add: cycle_core_def bears_def)

lemma emit_bears:
  assumes "rt_emit R" "emit E R ch fam typ pl s = (s', Inr ())"
  shows "\<exists>e. cy_events (snd s') = cy_events (snd s) @ [e] \<and> bears R (snd s) fam typ pl e
    \<and> cycle_core (snd s') = cycle_core (snd s)"
  using assms
  by (cases s) (auto simp: emit_def build_envelope_def cycle_meta_def bears_def cycle_core_def)

text \<open>What the providers said, in the order they were asked.\<close>

fun told :: "provider list \<Rightarrow> strategy_signal list \<Rightarrow> (event_type \<times> payload) list" where
  "told [] sigs = []"
| "told (pv # pvs) sigs =
     (if \<not> prov_enabled pv then (ProviderSkipped, P_skipped (prov_id pv) ''disabled'') # told pvs sigs
      else (case sigs of
          [] \<Rightarrow> []
        | s # ss \<Rightarrow> (ProviderOpinion, P_opinion (prov_id pv) (sig_side s) (sig_confidence s) (sig_rationale s))
                     # told pvs ss))"

abbreviation content :: "event \<Rightarrow> event_type \<times> payload" where
  "content e \<equiv> (ev_type e, ev_payload e)"

lemma collect_bears:
  assumes "rt_emit R" "collect_signals E R fs ctx pvs s = (s', Inr sigs)"
  shows "\<exists>ops. cy_events (snd s') = cy_events (snd s) @ ops \<and> map content ops = told pvs sigs
    \<and> (\<forall>e \<in> set ops. bears R (snd s) Fam_signal (ev_type e) (ev_payload e) e)
    \<and> cycle_core (snd s') = cycle_core (snd s)"
  using assms(2)
proof (induction pvs arbitrary: s sigs)
  case (Cons pv pvs)
  show ?case
  proof (cases "prov_enabled pv")
    case False
    with Cons.prems obtain u where
      u: "emit E R False Fam_signal ProviderSkipped (P_skipped (prov_id pv) ''disabled'') s = (u, Inr ())"
      "collect_signals E R fs ctx pvs u = (s', Inr sigs)" by (auto simp: seq_Inr)
    from emit_bears [OF assms(1) u(1)] obtain e where e: "cy_events (snd u) = cy_events (snd s) @ [e]"
      "bears R (snd s) Fam_signal ProviderSkipped (P_skipped (prov_id pv) ''disabled'') e"
      "cycle_core (snd u) = cycle_core (snd s)" by blast
    from Cons.IH [OF u(2)] obtain ops where ops: "cy_events (snd s') = cy_events (snd u) @ ops"
      "map content ops = told pvs sigs" "\<forall>e \<in> set ops. bears R (snd u) Fam_signal (ev_type e) (ev_payload e) e"
      "cycle_core (snd s') = cycle_core (snd u)" by blast
    have "content e = (ProviderSkipped, P_skipped (prov_id pv) ''disabled'')"
      "bears R (snd s) Fam_signal (ev_type e) (ev_payload e) e" using e(2) by (simp_all add: bears_def)
    with e(1,3) ops bears_core [OF e(3), of R] False show ?thesis by (intro exI [of _ "e # ops"]) simp
  next
    case True
    then obtain sig where sig: "prov_analyze pv fs ctx = Inr sig"
      using Cons.prems by (cases "prov_analyze pv fs ctx") auto
    let ?pl = "P_opinion (prov_id pv) (sig_side sig) (sig_confidence sig) (sig_rationale sig)"
    from sig Cons.prems True have "\<exists>u sigs'. emit E R False Fam_signal ProviderOpinion ?pl s = (u, Inr ())
        \<and> collect_signals E R fs ctx pvs u = (s', Inr sigs') \<and> sigs = sig # sigs'"
      by (simp add: seq_Inr split_paired_Ex) blast
    then obtain u sigs' where u: "emit E R False Fam_signal ProviderOpinion ?pl s = (u, Inr ())"
      "collect_signals E R fs ctx pvs u = (s', Inr sigs')" "sigs = sig # sigs'" by blast
    from emit_bears [OF assms(1) u(1)] obtain e where e: "cy_events (snd u) = cy_events (snd s) @ [e]"
      "bears R (snd s) Fam_signal ProviderOpinion ?pl e" "cycle_core (snd u) = cycle_core (snd s)" by blast
    from Cons.IH [OF u(2)] obtain ops where ops: "cy_events (snd s') = cy_events (snd u) @ ops"
      "map content ops = told pvs sigs'" "\<forall>e \<in> set ops. bears R (snd u) Fam_signal (ev_type e) (ev_payload e) e"
      "cycle_core (snd s') = cycle_core (snd u)" by blast
    have "content e = (ProviderOpinion, ?pl)"
      "bears R (snd s) Fam_signal (ev_type e) (ev_payload e) e" using e(2) by (simp_all add: bears_def)
    with e(1,3) ops bears_core [OF e(3), of R] True u(3) show ?thesis by (intro exI [of _ "e # ops"]) simp
  qed
qed (simp add: return_def)

lemma features_bears:
  assumes "rt_emit R" "features_phase E R s = (s', Inr (fs, ctx))"
  shows "\<exists>e1 e2. cy_events (snd s') = cy_events (snd s) @ [e1, e2]
    \<and> bears R (snd s) Fam_market FeatureSetBuilt
        (P_features (feature_set_id fs) (feature_version fs) (config_hash fs) (indicators fs) (flags fs)) e1
    \<and> bears R (snd s) Fam_market MarketContextDerived (P_context ctx) e2"
proof -
  obtain p c where s: "s = (p, c)" by (cases s)
  from assms(2) obtain u u1 where
    u: "cy_events (snd u) = cy_events c" "cycle_core (snd u) = cycle_core c"
    and 1: "emit E R True Fam_market FeatureSetBuilt
        (P_features (feature_set_id fs) (feature_version fs) (config_hash fs) (indicators fs) (flags fs)) u = (u1, Inr ())"
    and 2: "emit E R True Fam_market MarketContextDerived (P_context ctx) u1 = (s', Inr ())"
    unfolding s features_phase_def
    by (auto simp: seq_Inr Let_def split: sum.splits prod.splits if_splits)
  from emit_bears [OF assms(1) 1] obtain e1 where e1: "cy_events (snd u1) = cy_events (snd u) @ [e1]"
    "bears R (snd u) Fam_market FeatureSetBuilt
        (P_features (feature_set_id fs) (feature_version fs) (config_hash fs) (indicators fs) (flags fs)) e1"
    "cycle_core (snd u1) = cycle_core (snd u)" by blast
  from emit_bears [OF assms(1) 2] obtain e2 where e2: "cy_events (snd s') = cy_events (snd u1) @ [e2]"
    "bears R (snd u1) Fam_market MarketContextDerived (P_context ctx) e2" by blast
  from e1 e2 u bears_core [OF u(2), of R] bears_core [OF e1(3), of R] s show ?thesis
    by (intro exI [of _ e1] exI [of _ e2]) simp
qed

definition outcome_content :: "state_snapshot \<Rightarrow> decision \<Rightarrow> event_type \<times> payload" where
  "outcome_content snap d =
     (if is_approved d then (DecisionApproved, P_approved (decision_id d) (snapshot_id snap) (dec_final_signal d))
      else (DecisionRejected, P_rejected (decision_id d) (snapshot_id snap) (dr_rejection_stage (dec_result d))
              (dr_rejection_reason (dec_result d)) (dec_log d)))"

definition published_content :: "decision \<Rightarrow> (event_type \<times> payload) list" where
  "published_content d =
     (case (if is_approved d then dec_final_signal d else None) of
        None \<Rightarrow> []
      | Some fs \<Rightarrow> [(SignalPublished, P_signal (decision_id d) (fin_side fs) (fin_entry_price fs) (fin_stop_loss fs)
                   (fin_take_profit fs) (fin_confidence fs) (risk_reward fs) (contributing_providers fs))])"

lemma decision_bears:
  assumes "rt_emit R" "decision_events E R snap d s = (s', Inr ())"
  shows "\<exists>e1 e2 pub. cy_events (snd s') = cy_events (snd s) @ [e1, e2] @ pub
    \<and> bears R (snd s) Fam_decision DecisionMade
        (P_decision_made (decision_id d) (dr_value (dec_result d)) (snapshot_id snap) (dec_log d)) e1
    \<and> bears R (snd s) Fam_decision (fst (outcome_content snap d)) (snd (outcome_content snap d)) e2
    \<and> map content pub = published_content d
    \<and> (\<forall>e \<in> set pub. bears R (snd s) Fam_execution (ev_type e) (ev_payload e) e)"
proof -
  obtain u v where
    1: "emit E R True Fam_decision DecisionMade
        (P_decision_made (decision_id d) (dr_value (dec_result d)) (snapshot_id snap) (dec_log d)) s = (u, Inr ())"
    and 2: "emit E R True Fam_decision (fst (outcome_content snap d)) (snd (outcome_content snap d)) u = (v, Inr ())"
    and 3: "(case (if is_approved d then dec_final_signal d else None) of
              None \<Rightarrow> return ()
            | Some fs \<Rightarrow> emit E R False Fam_execution SignalPublished
                (P_signal (decision_id d) (fin_side fs) (fin_entry_price fs) (fin_stop_loss fs)
                   (fin_take_profit fs) (fin_confidence fs) (risk_reward fs) (contributing_providers fs))) v = (s', Inr ())"
    using assms(2) unfolding decision_events_def seq_Inr outcome_content_def by (cases "is_approved d") auto
  obtain e1 where e1: "cy_events (snd u) = cy_events (snd s) @ [e1]"
    "bears R (snd s) Fam_decision DecisionMade
        (P_decision_made (decision_id d) (dr_value (dec_result d)) (snapshot_id snap) (dec_log d)) e1"
    "cycle_core (snd u) = cycle_core (snd s)" using emit_bears [OF assms(1) 1] by blast
  obtain e2 where e2: "cy_events (snd v) = cy_events (snd u) @ [e2]"
    "bears R (snd u) Fam_decision (fst (outcome_content snap d)) (snd (outcome_content snap d)) e2"
    "cycle_core (snd v) = cycle_core (snd u)" using emit_bears [OF assms(1) 2] by blast
  have "\<exists>pub. cy_events (snd s') = cy_events (snd v) @ pub \<and> map content pub = published_content d
      \<and> (\<forall>e \<in> set pub. bears R (snd v) Fam_execution (ev_type e) (ev_payload e) e)"
  proof (cases "if is_approved d then dec_final_signal d else None")
    case None
    with 3 show ?thesis by (auto simp: published_content_def split: if_splits)
  next
    case (Some fs)
    with 3 have "emit E R False Fam_execution SignalPublished
                (P_signal (decision_id d) (fin_side fs) (fin_entry_price fs) (fin_stop_loss fs)
                   (fin_take_profit fs) (fin_confidence fs) (risk_reward fs) (contributing_providers fs)) v = (s', Inr ())"
      by simp
    from emit_bears [OF assms(1) this] obtain e where e: "cy_events (snd s') = cy_events (snd v) @ [e]"
      "bears R (snd v) Fam_execution SignalPublished
        (P_signal (decision_id d) (fin_side fs) (fin_entry_price fs) (fin_stop_loss fs)
           (fin_take_profit fs) (fin_confidence fs) (risk_reward fs) (contributing_providers fs)) e" by blast
    then show ?thesis
      by (intro exI [of _ "[e]"]) (use Some in \<open>simp add: published_content_def bears_def\<close>)
  qed
  then obtain pub where "cy_events (snd s') = cy_events (snd v) @ pub" "map content pub = published_content d"
      "\<forall>e \<in> set pub. bears R (snd v) Fam_execution (ev_type e) (ev_payload e) e" by blast
  with e1 e2 bears_core [OF e1(3), of R] bears_core [OF e2(3), of R] show ?thesis
    by - (rule exI [of _ e1], rule exI [of _ e2], rule exI [of _ pub], simp)
qed

lemma decide_bears:
  assumes "rt_emit R" "decide E R sigs ctx snap s = (s', Inr d)"
  shows "\<exists>e1 e2 pub. cy_events (snd s') = cy_events (snd s) @ [e1, e2] @ pub
    \<and> bears R (snd s) Fam_decision DecisionMade
        (P_decision_made (decision_id d) (dr_value (dec_result d)) (snapshot_id snap) (dec_log d)) e1
    \<and> bears R (snd s) Fam_decision (fst (outcome_content snap d)) (snd (outcome_content snap d)) e2
    \<and> map content pub = published_content d
    \<and> (\<forall>e \<in> set pub. bears R (snd s) Fam_execution (ev_type e) (ev_payload e) e)"
proof -
  obtain p c where s: "s = (p, c)" by (cases s)
  from assms(2) obtain d' n u where
    u: "decision_events E R snap d' (p\<lparr>pl_tick := n\<rparr>, c) = (u, Inr ())" and
    v: "count_signal E R snap d' u = (s', Inr d)"
    unfolding s decide_split by (auto simp: seq_Inr split: sum.splits prod.splits)
  have "d' = d" using v by (auto simp: count_signal_def seq_Inr split: prod.splits if_splits)
  with silentD [OF silent_count v] have ev: "cy_events (snd s') = cy_events (snd u)" by simp
  show ?thesis using decision_bears [OF assms(1) u] unfolding ev \<open>d' = d\<close> s snd_conv .
qed

lemma candle_bears:
  assumes "rt_emit R" "emit_candle_received E R s = (s', Inr ())"
  shows "\<exists>e. cy_events (snd s') = cy_events (snd s) @ [e]
    \<and> bears R (snd s) Fam_market CandleReceived (P_candle (cy_bar (snd s))) e"
proof -
  obtain p c where s: "s = (p, c)" by (cases s)
  with assms(2) have "emit E R True Fam_market CandleReceived (P_candle (cy_bar c)) s = (s', Inr ())"
    by (simp add: emit_candle_received_def)
  from emit_bears [OF assms(1) this] s show ?thesis by auto
qed

lemma prepared_cycle:
  "prepare_bar E R a p = (q, Inr c) \<Longrightarrow> cy_symbol c = ca_symbol a \<and> cy_timeframe c = ca_timeframe a
     \<and> cy_revision_id c = ca_revision_id a \<and> cy_experiment_id c = ca_experiment_id a \<and> cy_events c = []"
  by (auto simp: prepare_bar_def Let_def split: prod.splits sum.splits if_splits)

text \<open>The trace of a cycle that returns: its events with their contents, and the call of the
  decision engine that made its decision.\<close>

lemma cycle_trace:
  assumes "rt_emit R" and "market_data (rt_latest R)" and "run_cycle E R a p = (q, Inr res)"
  obtains c candle feat mctx ops made outcome pub n k where
    "cr_events res = [candle, feat, mctx] @ ops @ [made, outcome] @ pub @ cr_execution_events res"
    "bears R c Fam_market CandleReceived (P_candle (cy_bar c)) candle"
    "bears R c Fam_market FeatureSetBuilt
       (P_features (feature_set_id (cr_feature_set res)) (feature_version (cr_feature_set res))
          (config_hash (cr_feature_set res)) (indicators (cr_feature_set res)) (flags (cr_feature_set res))) feat"
    "bears R c Fam_market MarketContextDerived (P_context (cr_context res)) mctx"
    "map content ops = told (rt_providers R) (cr_signals res)"
    "\<forall>e \<in> set ops. bears R c Fam_signal (ev_type e) (ev_payload e) e"
    "bears R c Fam_decision DecisionMade
        (P_decision_made (decision_id (cr_decision res)) (dr_value (dec_result (cr_decision res)))
           (snapshot_id (cr_snapshot res)) (dec_log (cr_decision res))) made"
    "bears R c Fam_decision (fst (outcome_content (cr_snapshot res) (cr_decision res)))
       (snd (outcome_content (cr_snapshot res) (cr_decision res))) outcome"
    "map content pub = published_content (cr_decision res)"
    "\<forall>e \<in> set pub. bears R c Fam_execution (ev_type e) (ev_payload e) e"
    "cy_symbol c = ca_symbol a" "cy_timeframe c = ca_timeframe a" "cy_revision_id c = ca_revision_id a"
    "cy_experiment_id c = ca_experiment_id a" "cy_id c = cr_correlation_id res"
    "process E (rt_engine R) (cr_signals res) (cr_context res) (cr_snapshot res)
      \<lparr>dm_correlation_id = cy_id c, dm_event_time = cy_event_time c, dm_decision_time = cy_processing_time c,
       dm_revision_id = cy_revision_id c, dm_experiment_id = cy_experiment_id c\<rparr> n = Inr (cr_decision res, k)"
proof -
  obtain p1 r1 where pb: "prepare_bar E R a p = (p1, r1)" by fastforce
  with assms(3) obtain c where c: "r1 = Inr c" by (cases r1) (auto simp: run_cycle_def)
  with assms(3) pb obtain c2 where body: "cycle_body E R (p1, c) = ((q, c2), Inr res)"
    by (auto simp: run_cycle_def split: prod.splits)
  note prep = prepared_cycle [OF pb [unfolded c]]
  from body show thesis
  proof (cases rule: cycle_body_E)
    case (1 s1 s2 s3 s4 s5 s6 s7 s8 s9 fs mc snap sigs d)
    note quiet = silentD [OF silent_pre 1(1)] silentD [OF silent_reset 1(4)] silentD [OF silent_mark 1(5)]
      silentD [OF silent_snapshot 1(6)] silentD [OF silent_same_bar 1(9)]
    note st = steady_state [OF steady_pre 1(1)] steady_state [OF steady_candle 1(2)] steady_state [OF steady_features 1(3)]
      steady_state [OF steady_reset 1(4)] steady_state [OF steady_mark 1(5)] steady_state [OF steady_snapshot 1(6)]
      steady_state [OF steady_collect 1(7)]
    have core: "cycle_core (snd s1) = cycle_core c" "cycle_core (snd s2) = cycle_core c" "cycle_core (snd s6) = cycle_core c"
      "cycle_core (snd s7) = cycle_core c" using st by simp_all
    note same = core(1) [THEN bears_core, of R] core(2) [THEN bears_core, of R] core(3) [THEN bears_core, of R]
      core(4) [THEN bears_core, of R]
    have bar: "cy_bar (snd s1) = cy_bar c" using core_eq [OF core(1)] by simp
    obtain candle where e1: "cy_events (snd s2) = cy_events (snd s1) @ [candle]"
      "bears R c Fam_market CandleReceived (P_candle (cy_bar c)) candle"
      using candle_bears [OF assms(1) 1(2)] unfolding same bar by blast
    obtain feat mctx where e2: "cy_events (snd s3) = cy_events (snd s2) @ [feat, mctx]"
      "bears R c Fam_market FeatureSetBuilt
         (P_features (feature_set_id fs) (feature_version fs) (config_hash fs) (indicators fs) (flags fs)) feat"
      "bears R c Fam_market MarketContextDerived (P_context mc) mctx"
      using features_bears [OF assms(1) 1(3)] unfolding same by blast
    obtain ops where e3: "cy_events (snd s7) = cy_events (snd s6) @ ops" "map content ops = told (rt_providers R) sigs"
      "\<forall>e \<in> set ops. bears R c Fam_signal (ev_type e) (ev_payload e) e"
      using collect_bears [OF assms(1) 1(7)] unfolding same by blast
    obtain made outcome pub where e4: "cy_events (snd s8) = cy_events (snd s7) @ [made, outcome] @ pub"
      "bears R c Fam_decision DecisionMade
          (P_decision_made (decision_id d) (dr_value (dec_result d)) (snapshot_id snap) (dec_log d)) made"
      "bears R c Fam_decision (fst (outcome_content snap d)) (snd (outcome_content snap d)) outcome"
      "map content pub = published_content d"
      "\<forall>e \<in> set pub. bears R c Fam_execution (ev_type e) (ev_payload e) e"
      using decide_bears [OF assms(1) 1(8)] unfolding same by blast
    have evs: "cr_events res = [candle, feat, mctx] @ ops @ [made, outcome] @ pub @ cr_execution_events res"
      using publish_result [OF 1(10)] 1(11) quiet prep e1(1) e2(1) e3(1) e4(1) by simp
    obtain p7 c7 where s7: "s7 = (p7, c7)" by (cases s7)
    have "cycle_core c7 = cycle_core c" using core(4) s7 by simp
    then have "cy_id c7 = cy_id c" "cy_event_time c7 = cy_event_time c" "cy_processing_time c7 = cy_processing_time c"
      "cy_revision_id c7 = cy_revision_id c" "cy_experiment_id c7 = cy_experiment_id c"
      by (drule_tac arg_cong [where f = "\<lambda>c. (cy_id c, cy_event_time c, cy_processing_time c, cy_revision_id c, cy_experiment_id c)"],
          simp add: cycle_core_def)+
    with decide_decision [OF 1(8) [unfolded s7]] obtain k where proc: "process E (rt_engine R) sigs mc snap
      \<lparr>dm_correlation_id = cy_id c, dm_event_time = cy_event_time c, dm_decision_time = cy_processing_time c,
       dm_revision_id = cy_revision_id c, dm_experiment_id = cy_experiment_id c\<rparr> (pl_tick p7) = Inr (d, k)" by auto
    have cid: "cy_id c = cr_correlation_id res" using cycle_decision_time [OF body] by simp
    have r: "cr_feature_set res = fs" "cr_context res = mc" "cr_snapshot res = snap" "cr_signals res = sigs" "cr_decision res = d"
      using 1(11) by simp_all
    show thesis
      by (rule that [of candle feat mctx ops made outcome pub c "pl_tick p7" k])
        (use evs e1 e2 e3 e4 prep cid proc in \<open>simp_all add: r\<close>)
  qed
qed


text \<open>What a cycle that returns was given: the bars of the provider, the features built on
  them, and the answers of the enabled providers, in their order.\<close>

lemma collect_answers:
  "collect_signals E R fs ctx pvs s = (s', Inr sigs) \<Longrightarrow>
   list_all2 (\<lambda>pv sig. prov_analyze pv fs ctx = Inr sig) (filter prov_enabled pvs) sigs"
proof (induction pvs arbitrary: s sigs)
  case (Cons pv pvs)
  show ?case
  proof (cases "prov_enabled pv")
    case False
    with Cons.prems show ?thesis by (auto simp: seq_Inr intro: Cons.IH)
  next
    case True
    then obtain sig where "prov_analyze pv fs ctx = Inr sig"
      using Cons.prems by (cases "prov_analyze pv fs ctx") auto
    with Cons True show ?thesis by (auto simp: seq_Inr split_paired_Ex)
  qed
qed (simp add: return_def)

lemma cycle_inputs:
  assumes "run_cycle E R a p = (q, Inr res)"
  obtains df upto n k t st fst' n' where
    "rt_latest R (ca_symbol a) (ca_timeframe a) upto n = Inr (df, k)"
    "build_features E (rt_compute R) (rt_features R) (rt_hash R) df (ca_symbol a) (ca_timeframe a)
       t (rt_persist R) st = Inr (cr_feature_set res, cr_context res, fst', n')"
    "list_all2 (\<lambda>pv sig. prov_analyze pv (cr_feature_set res) (cr_context res) = Inr sig)
       (filter prov_enabled (rt_providers R)) (cr_signals res)"
proof -
  obtain p1 r1 where pb: "prepare_bar E R a p = (p1, r1)" by fastforce
  with assms obtain c where c: "r1 = Inr c" by (cases r1) (auto simp: run_cycle_def)
  with assms pb obtain c2 where body: "cycle_body E R (p1, c) = ((q, c2), Inr res)"
    by (auto simp: run_cycle_def split: prod.splits)
  from pb c obtain upto n k where
    lat: "rt_latest R (ca_symbol a) (ca_timeframe a) upto n = Inr (cy_df c, k)"
      "cy_symbol c = ca_symbol a" "cy_timeframe c = ca_timeframe a"
    by (auto simp: prepare_bar_def Let_def split: prod.splits sum.splits if_splits)
  from body show thesis
  proof (cases rule: cycle_body_E)
    case (1 s1 s2 s3 s4 s5 s6 s7 s8 s9 fs mc snap sigs d)
    obtain p2 c2 where s2: "s2 = (p2, c2)" by (cases s2)
    have "cycle_core c2 = cycle_core c"
      using steady_state [OF steady_pre 1(1)] steady_state [OF steady_candle 1(2)] by (simp add: s2)
    then have eq: "cy_df c2 = cy_df c" "cy_symbol c2 = cy_symbol c" "cy_timeframe c2 = cy_timeframe c"
      by (drule_tac arg_cong [where f = "\<lambda>c. (cy_df c, cy_symbol c, cy_timeframe c)"], simp add: cycle_core_def)+
    from 1(3) obtain fst' n' where "build_features E (rt_compute R) (rt_features R) (rt_hash R) (cy_df c2) (cy_symbol c2)
        (cy_timeframe c2) (cy_processing_time c2) (rt_persist R) (pl_features p2, pl_tick p2) = Inr (fs, mc, fst', n')"
      by (auto simp: s2 features_phase_def seq_Inr Let_def return_def split: sum.splits prod.splits if_splits)
    with lat eq collect_answers [OF 1(7)] 1(11) show thesis by (intro that) simp_all
  qed
qed

end
