(* ===== verification/DecisionRecords.thy ===== *)
theory DecisionRecords
  imports CycleTrace
begin

text \<open>
  \<^verbatim>\<open>backend/src/db/repositories/decision.py\<close>: what the dashboard shows of the stored
  decisions. The list and its filters, the detail of one decision, the statistics, and the
  two functions that read the stage and the reason of a rejection back from the log of the
  decision.
\<close>


subsection \<open>Reading a rejection back from the log\<close>

definition extract_rejection_stage :: "decision_log \<Rightarrow> rejection_stage option" where
  "extract_rejection_stage lg =
     (if \<not> sr_passed (log_market_filter lg) then Some Stage_market_filter
      else if agg_side (log_aggregation lg) = HOLD then Some Stage_aggregator
      else if \<not> rv_passed (log_risk_check lg) then Some Stage_risk_manager
      else None)"

text \<open>\<^verbatim>\<open>x or default\<close> on texts: absent and empty texts count as false.\<close>

definition or_else :: "string option \<Rightarrow> string \<Rightarrow> string" where
  "or_else x d = (case x of Some s \<Rightarrow> if s = [] then d else s | None \<Rightarrow> d)"

definition extract_rejection_reason :: "decision_log \<Rightarrow> string" where
  "extract_rejection_reason lg =
     (if \<not> sr_passed (log_market_filter lg) then or_else (sr_reason (log_market_filter lg)) ''market_filter''
      else if agg_side (log_aggregation lg) = HOLD then ''insufficient_consensus''
      else if \<not> rv_passed (log_risk_check lg) then
        (case rv_checks (log_risk_check lg) of [] \<Rightarrow> ''risk'' | c # _ \<Rightarrow> check_name c)
      else ''unknown'')"


subsection \<open>Summaries\<close>

record decision_summary =
  ds_id :: string
  ds_symbol :: string
  ds_timeframe :: string
  ds_result :: decision_value
  ds_side :: "side option"
  ds_confidence :: "real option"
  ds_rejection_reason :: "string option"
  ds_rejection_stage :: "rejection_stage option"
  ds_provider_ids :: "string list"
  ds_timestamp :: datetime
  ds_correlation_id :: string
  ds_revision_id :: "string option"
  ds_experiment_id :: "string option"

text \<open>\<^verbatim>\<open>limit(1)\<close> takes the first row the table has.\<close>

definition decision_meta_of :: "database \<Rightarrow> decision_row \<Rightarrow> string \<times> string" where
  "decision_meta_of db row =
     (case List.find (\<lambda>r. row_correlation_id r = drow_correlation_id row \<and> row_type r = DecisionMade) (db_events db) of
        Some r \<Rightarrow> (row_symbol r, row_timeframe r)
      | None \<Rightarrow>
          (case List.find (\<lambda>r. row_correlation_id r = drow_correlation_id row) (db_events db) of
             Some r \<Rightarrow> (row_symbol r, row_timeframe r)
           | None \<Rightarrow> (''UNKNOWN'', ''1h'')))"

definition outcome_event :: "event list \<Rightarrow> string \<Rightarrow> payload option" where
  "outcome_event evs did =
     map_option ev_payload (List.find (\<lambda>e. payload_decision_id (ev_payload e) = Some did
        \<and> ev_type e \<in> {DecisionApproved, DecisionRejected}) evs)"

definition payload_reason :: "payload option \<Rightarrow> string option" where
  "payload_reason pl = (case pl of Some (P_rejected _ _ _ reason _) \<Rightarrow> reason | _ \<Rightarrow> None)"

definition payload_stage :: "payload option \<Rightarrow> rejection_stage option" where
  "payload_stage pl = (case pl of Some (P_rejected _ _ stage _ _) \<Rightarrow> stage | _ \<Rightarrow> None)"

definition row_to_summary :: "decision_row \<Rightarrow> string \<times> string \<Rightarrow> event list \<Rightarrow> decision_summary" where
  "row_to_summary row meta evs =
     (let lg = drow_log row; ok = (drow_result row = Approved);
          outcome = outcome_event evs (drow_decision_id row)
      in \<lparr>ds_id = drow_decision_id row, ds_symbol = fst meta, ds_timeframe = snd meta,
          ds_result = drow_result row,
          ds_side = (if ok then Some (agg_side (log_aggregation lg)) else None),
          ds_confidence = (if ok then Some (agg_confidence (log_aggregation lg)) else None),
          ds_rejection_reason = (if ok then None else Some (or_else (payload_reason outcome) (extract_rejection_reason lg))),
          ds_rejection_stage = (if ok then None else
             (case payload_stage outcome of None \<Rightarrow> extract_rejection_stage lg | Some s \<Rightarrow> Some s)),
          ds_provider_ids = filter (\<lambda>i. i \<noteq> []) (map provider_id (log_provider_signals lg)),
          ds_timestamp = drow_created_at row, ds_correlation_id = drow_correlation_id row,
          ds_revision_id = drow_revision_id row, ds_experiment_id = drow_experiment_id row\<rparr>)"


subsection \<open>The list\<close>

text \<open>A filter that is absent or empty lets everything pass.\<close>

record decision_filters =
  df_symbol :: string
  df_result :: "decision_value option"
  df_side :: "side option"
  df_rejection_reason :: string
  df_provider :: string
  df_start_date :: "datetime option"
  df_end_date :: "datetime option"
  df_modes :: "run_mode list"

definition no_filters :: decision_filters where
  "no_filters = \<lparr>df_symbol = [], df_result = None, df_side = None, df_rejection_reason = [], df_provider = [],
     df_start_date = None, df_end_date = None, df_modes = []\<rparr>"

definition matches_filters :: "decision_summary \<Rightarrow> decision_row \<Rightarrow> decision_filters \<Rightarrow> bool" where
  "matches_filters s row f \<longleftrightarrow>
     (df_symbol f = [] \<or> ds_symbol s = df_symbol f)
     \<and> (df_side f = None \<or> ds_side s = df_side f)
     \<and> (df_provider f = [] \<or> df_provider f \<in> set (ds_provider_ids s))
     \<and> (df_rejection_reason f = []
         \<or> or_else (ds_rejection_reason s) (extract_rejection_reason (drow_log row)) = df_rejection_reason f)"

definition row_selected :: "decision_filters \<Rightarrow> decision_row \<Rightarrow> bool" where
  "row_selected f row \<longleftrightarrow>
     (case df_result f of None \<Rightarrow> True | Some v \<Rightarrow> drow_result row = v)
     \<and> (df_modes f = [] \<or> (case drow_mode row of None \<Rightarrow> False | Some m \<Rightarrow> m \<in> set (df_modes f)))
     \<and> (case df_start_date f of None \<Rightarrow> True | Some t \<Rightarrow> t \<le> drow_created_at row)
     \<and> (case df_end_date f of None \<Rightarrow> True | Some t \<Rightarrow> drow_created_at row \<le> t)"

definition summary_of :: "database \<Rightarrow> decision_row \<Rightarrow> decision_summary" where
  "summary_of db row =
     row_to_summary row (decision_meta_of db row) (fetch_events_by_correlation (drow_correlation_id row) db)"

fun collect_items :: "database \<Rightarrow> decision_filters \<Rightarrow> decision_row list \<Rightarrow> decision_summary list" where
  "collect_items db f [] = []"
| "collect_items db f (row # rows) =
     (let s = summary_of db row
      in if matches_filters s row f then s # collect_items db f rows else collect_items db f rows)"

definition list_decisions ::
  "database \<Rightarrow> decision_filters \<Rightarrow> int \<Rightarrow> nat \<Rightarrow> decision_summary list \<times> nat" where
  "list_decisions db f page limit =
     (let offset = nat (max (page - 1) 0) * limit;
          rows = sort_key (\<lambda>r. - drow_created_at r) (filter (row_selected f) (db_decisions db));
          items = collect_items db f rows
      in (take limit (drop offset items), length items))"

lemma collect_items_filter:
  "collect_items db f rows = map (summary_of db) (filter (\<lambda>r. matches_filters (summary_of db r) r f) rows)"
  by (induction rows) (simp_all add: Let_def)


subsection \<open>One decision\<close>

record decision_detail =
  dd_summary :: decision_summary
  dd_rejection_reason :: "string option"
  dd_rejection_stage :: "rejection_stage option"
  dd_final_signal :: "final_signal option"
  dd_features :: "(string option \<times> (string, real) dict \<times> (string, bool) dict) option"
  dd_context :: "payload option"
  dd_provider_signals :: "payload list"
  dd_log :: decision_log
  dd_explanation :: rich_text
  dd_snapshot_id :: string

definition side_name :: "side \<Rightarrow> string" where
  "side_name sd = (case sd of BUY \<Rightarrow> ''BUY'' | SELL \<Rightarrow> ''SELL'' | HOLD \<Rightarrow> ''HOLD'')"

definition stage_name :: "rejection_stage \<Rightarrow> string" where
  "stage_name st = (case st of Stage_market_filter \<Rightarrow> ''market_filter'' | Stage_aggregator \<Rightarrow> ''aggregator''
     | Stage_risk_manager \<Rightarrow> ''risk_manager'')"

definition explain_summary :: "decision_row \<Rightarrow> string option \<Rightarrow> rich_text" where
  "explain_summary row reason =
     (if drow_result row = Approved then
        [Lit ''Approved: '', Fixed 0 (of_nat (length (log_provider_signals (drow_log row)))),
         Lit ('' provider(s) agree '' @ side_name (agg_side (log_aggregation (drow_log row))))]
      else
        [Lit (''Rejected'' @ (case extract_rejection_stage (drow_log row) of
            None \<Rightarrow> [] | Some st \<Rightarrow> '' at '' @ stage_name st) @ '': '' @ or_else reason ''unknown'')])"

definition feature_snapshot :: "event list \<Rightarrow> (string option \<times> (string, real) dict \<times> (string, bool) dict) option" where
  "feature_snapshot evs =
     (case List.find (\<lambda>e. ev_type e = FeatureSetBuilt) evs of
        None \<Rightarrow> None
      | Some e \<Rightarrow> (case ev_payload e of P_features _ v _ ind fl \<Rightarrow> Some (Some v, ind, fl) | _ \<Rightarrow> Some (None, [], [])))"

definition market_context_payload :: "event list \<Rightarrow> payload option" where
  "market_context_payload evs = map_option ev_payload (List.find (\<lambda>e. ev_type e = MarketContextDerived) evs)"

definition get_decision :: "database \<Rightarrow> string \<Rightarrow> decision_detail option" where
  "get_decision db did =
     (case List.find (\<lambda>r. drow_decision_id r = did) (db_decisions db) of
        None \<Rightarrow> None
      | Some row \<Rightarrow>
          (let evs = fetch_events_by_correlation (drow_correlation_id row) db;
               outcome = outcome_event evs did; s = summary_of db row;
               reason = (case outcome of Some pl \<Rightarrow> payload_reason (Some pl) | None \<Rightarrow> ds_rejection_reason s)
           in Some \<lparr>dd_summary = s, dd_rejection_reason = reason,
                dd_rejection_stage = (case outcome of Some pl \<Rightarrow> payload_stage (Some pl) | None \<Rightarrow> ds_rejection_stage s),
                dd_final_signal = (case outcome of Some (P_approved _ _ fs) \<Rightarrow> fs | _ \<Rightarrow> None),
                dd_features = feature_snapshot evs, dd_context = market_context_payload evs,
                dd_provider_signals = map ev_payload
                  (filter (\<lambda>e. ev_family e = Fam_signal \<and> ev_type e = ProviderOpinion) evs),
                dd_log = drow_log row, dd_explanation = explain_summary row reason,
                dd_snapshot_id = drow_state_snapshot_id row\<rparr>))"


subsection \<open>Statistics\<close>

record engine_stats =
  es_decisions :: nat
  es_approval_rate :: real
  es_breakdown :: "(string, nat) dict"
  es_active_providers :: nat

definition in_modes :: "run_mode list \<Rightarrow> decision_row \<Rightarrow> bool" where
  "in_modes modes row \<longleftrightarrow> modes = [] \<or> (case drow_mode row of None \<Rightarrow> False | Some m \<Rightarrow> m \<in> set modes)"

definition count_in :: "(string, nat) dict \<Rightarrow> string \<Rightarrow> (string, nat) dict" where
  "count_in d k = dict_set d k (dict_get_or d k 0 + 1)"

definition compute_engine_stats :: "database \<Rightarrow> run_mode list \<Rightarrow> engine_stats" where
  "compute_engine_stats db modes =
     (let rows = filter (in_modes modes) (db_decisions db); total = length rows
      in if total = 0 then
           \<lparr>es_decisions = 0, es_approval_rate = 0, es_breakdown = [], es_active_providers = 0\<rparr>
         else
           \<lparr>es_decisions = total,
            es_approval_rate = of_nat (length (filter (\<lambda>r. drow_result r = Approved) rows)) / of_nat total,
            es_breakdown = fold (\<lambda>r d. if drow_result r \<noteq> Rejected then d
               else count_in d (extract_rejection_reason (drow_log r))) rows [],
            es_active_providers = card (set (concat (map (\<lambda>r. map provider_id (log_provider_signals (drow_log r))) rows)) - {[]})\<rparr>)"


subsection \<open>What can be read back from a log\<close>

lemma combine_not_hold: "combine cfg sigs = Inr (Agg_success a) \<Longrightarrow> as_side a \<noteq> HOLD"
  by (auto simp: combine_def combine_majority_def combine_unanimous_def agg_success_Inr Let_def
      split: method_kind.splits if_splits list.splits)

lemma risk_checks_first: "hd (rv_checks (risk_evaluate cfg a snap)) =
   risk_check ''daily_drawdown'' (daily_drawdown_pct (snap_risk snap) < max_daily_drawdown_pct cfg)
     (daily_drawdown_pct (snap_risk snap)) (max_daily_drawdown_pct cfg)
     ''daily drawdown within limit'' ''daily drawdown limit breached''"
  "rv_checks (risk_evaluate cfg a snap) \<noteq> []"
  by (simp_all add: risk_evaluate_def Let_def)

lemma process_log:
  assumes "process E cfg sigs ctx snap m n = Inr (d, k)"
  obtains
    (filtered) "log_market_filter (dec_log d) = market_filter_check (ec_filter cfg) ctx"
      "\<not> sr_passed (market_filter_check (ec_filter cfg) ctx)"
      "dec_result d = rejected (sr_reason (market_filter_check (ec_filter cfg) ctx)) Stage_market_filter"
  | (no_side) reason where "sr_passed (log_market_filter (dec_log d))" "agg_side (log_aggregation (dec_log d)) = HOLD"
      "dec_result d = rejected (Some reason) Stage_aggregator"
  | (risk) reason where "sr_passed (log_market_filter (dec_log d))" "agg_side (log_aggregation (dec_log d)) \<noteq> HOLD"
      "\<not> rv_passed (log_risk_check (dec_log d))" "dec_result d = rejected (Some reason) Stage_risk_manager"
      "rv_checks (log_risk_check (dec_log d)) \<noteq> []" "check_name (hd (rv_checks (log_risk_check (dec_log d)))) = ''daily_drawdown''"
  | (approved) fs where "sr_passed (log_market_filter (dec_log d))" "agg_side (log_aggregation (dec_log d)) = fin_side fs"
      "fin_side fs \<noteq> HOLD" "rv_passed (log_risk_check (dec_log d))" "dec_result d = approved" "dec_final_signal d = Some fs"
      "agg_confidence (log_aggregation (dec_log d)) = fin_confidence fs"
proof (cases "sr_passed (market_filter_check (ec_filter cfg) ctx)")
  case False
  with assms filtered show ?thesis by (auto simp: process_def Let_def mk_log_def)
next
  case True
  note passed = this
  from assms passed obtain r where r: "combine (ec_aggregation cfg) sigs = Inr r"
    by (auto simp: process_def Let_def and_then_Inr_iff)
  show ?thesis
  proof (cases r)
    case (Agg_failure reason)
    with assms passed r no_side [of reason] show ?thesis by (auto simp: process_def Let_def mk_log_def)
  next
    case (Agg_success a)
    note side = combine_not_hold [OF r [unfolded Agg_success]]
    let ?rv = "risk_evaluate (ec_risk cfg) a snap"
    show ?thesis
    proof (cases "rv_passed ?rv")
      case False
      with assms passed r Agg_success risk side risk_checks_first [of "ec_risk cfg" a snap] show ?thesis
        by (auto simp: process_def Let_def mk_log_def)
    next
      case True
      with assms passed r Agg_success obtain fs where
        fs: "build_final_signal E (ec_risk cfg) a sigs ctx snap (dm_decision_time m) (dm_revision_id m) (Suc n) = Inr fs"
        by (auto simp: process_def Let_def)
      then have fin: "fin_side fs = as_side a" "fin_confidence fs = as_confidence a"
        by (auto simp: build_final_signal_def Let_def mk_final_signal_Inr split: prod.splits)
      let ?rv2 = "finalize_verdict (ec_risk cfg) ?rv fs snap"
      have hd2: "rv_checks ?rv2 \<noteq> []" "check_name (hd (rv_checks ?rv2)) = ''daily_drawdown''"
        using risk_checks_first [of "ec_risk cfg" a snap] by (simp_all add: finalize_verdict_def Let_def)
      show ?thesis
      proof (cases "rv_passed ?rv2")
        case False
        with assms passed r Agg_success True fs risk side hd2 show ?thesis
          by (auto simp: process_def Let_def mk_log_def)
      next
        case ok: True
        with assms passed r Agg_success True fs approved [of fs] side fin show ?thesis
          by (auto simp: process_def Let_def mk_log_def)
      qed
    qed
  qed
qed

text \<open>The stage of a rejection can be read back from the log of the decision alone. For every
  decision the engine makes, the dashboard's function returns from its log exactly the
  stage the engine recorded, and nothing for an approved decision.\<close>

theorem rejection_stage_recovered:
  assumes "process E cfg sigs ctx snap m n = Inr (d, k)"
  shows "extract_rejection_stage (dec_log d) = dr_rejection_stage (dec_result d)"
  using assms
  by (cases rule: process_log) (simp_all add: extract_rejection_stage_def approved_def)

text \<open>The reason of a rejection cannot. Read back from the log, every rejection by the risk
  manager is blamed on the daily drawdown, the first of its checks, whichever check failed,
  and every rejection by the aggregator on insufficient consensus; only the reasons of the
  market filter come back as they were. The statistics count these reasons.\<close>

theorem extracted_reason_is_first_check:
  assumes "process E cfg sigs ctx snap m n = Inr (d, k)"
  shows "(dr_rejection_stage (dec_result d) = Some Stage_risk_manager \<longrightarrow>
            extract_rejection_reason (dec_log d) = ''daily_drawdown'')
    \<and> (dr_rejection_stage (dec_result d) = Some Stage_aggregator \<longrightarrow>
            extract_rejection_reason (dec_log d) = ''insufficient_consensus'')
    \<and> (dr_rejection_stage (dec_result d) = Some Stage_market_filter \<longrightarrow>
            Some (extract_rejection_reason (dec_log d)) = dr_rejection_reason (dec_result d))"
  using assms
proof (cases rule: process_log)
  case filtered
  then show ?thesis
    by (auto simp: extract_rejection_reason_def or_else_def market_filter_check_def split: if_splits)
next
  case (risk reason)
  then show ?thesis
    by (cases "rv_checks (log_risk_check (dec_log d))") (simp_all add: extract_rejection_reason_def)
qed (simp_all add: extract_rejection_reason_def approved_def)

theorem rejection_stage_recovered_witness:
  "\<exists>d k. process unary_env demo_engine_config [] demo_context demo_snapshot demo_meta 0 = Inr (d, k)
     \<and> extract_rejection_stage (dec_log d) = Some Stage_aggregator"
proof -
  obtain d k where p: "process unary_env demo_engine_config [] demo_context demo_snapshot demo_meta 0 = Inr (d, k)"
    "dec_result d = rejected (Some ''no_active_signals'') Stage_aggregator"
    by (simp add: process_def Let_def market_filter_check_def demo_engine_simps session_name_def
        combine_def combine_majority_def active_signals_def)
  then show ?thesis using rejection_stage_recovered [OF p(1)] by simp
qed

text \<open>A book with three open positions: the position limit is what stops the next signal.\<close>

definition crowded_snapshot :: state_snapshot where
  "crowded_snapshot = demo_snapshot\<lparr>snap_risk := demo_risk\<lparr>signals_today := 10\<rparr>\<rparr>"

theorem extracted_reason_is_first_check_witness:
  "\<exists>d k. process unary_env demo_engine_config demo_signals demo_context crowded_snapshot demo_meta 0 = Inr (d, k)
     \<and> dr_rejection_reason (dec_result d) = Some ''max_signals_per_day''
     \<and> extract_rejection_reason (dec_log d) = ''daily_drawdown''"
proof -
  obtain d k fs a where ok: "combine (ec_aggregation demo_engine_config) demo_signals = Inr (Agg_success a)"
    "sr_passed (market_filter_check (ec_filter demo_engine_config) demo_context)"
    using demo_approved by (auto elim!: process_cases simp: is_approved_def)
  have ff: "first_failed (risk_evaluate (ec_risk demo_engine_config) a crowded_snapshot) =
      Inr (risk_check ''max_signals_per_day'' False 10 10 ''signals today within limit'' ''max signals per day reached'')"
    by (simp add: first_failed_def risk_evaluate_def Let_def crowded_snapshot_def demo_engine_simps)
  then have "\<not> rv_passed (risk_evaluate (ec_risk demo_engine_config) a crowded_snapshot)"
    by (auto simp: risk_evaluate_passes_iff crowded_snapshot_def demo_engine_simps)
  with ok ff obtain d k where p: "process unary_env demo_engine_config demo_signals demo_context crowded_snapshot demo_meta 0 = Inr (d, k)"
    "dec_result d = rejected (Some ''max_signals_per_day'') Stage_risk_manager"
    by (simp add: process_def Let_def)
  with extracted_reason_is_first_check [OF p(1)] show ?thesis by auto
qed


subsection \<open>Pages\<close>

text \<open>Paging neither loses nor repeats a decision. The pages of a list, one after the other,
  are all stored decisions that pass the filters, newest first, each exactly once; every
  page reports their number; and no page is longer than the limit.\<close>

theorem pages_partition_decisions:
  assumes "0 < limit"
  shows "concat (map (\<lambda>i. fst (list_decisions db f (int i) limit))
           [1..<2 + snd (list_decisions db f page limit) div limit])
      = map (summary_of db) (sort_key (\<lambda>r. - drow_created_at r)
          (filter (\<lambda>r. row_selected f r \<and> matches_filters (summary_of db r) r f) (db_decisions db)))
    \<and> snd (list_decisions db f page limit)
        = length (filter (\<lambda>r. row_selected f r \<and> matches_filters (summary_of db r) r f) (db_decisions db))
    \<and> length (fst (list_decisions db f page limit)) \<le> limit"
proof -
  let ?sorted = "sort_key (\<lambda>r. - drow_created_at r) (filter (row_selected f) (db_decisions db))"
  define items where "items = collect_items db f ?sorted"
  have items: "items = map (summary_of db) (sort_key (\<lambda>r. - drow_created_at r)
          (filter (\<lambda>r. row_selected f r \<and> matches_filters (summary_of db r) r f) (db_decisions db)))"
    by (simp add: items_def collect_items_filter filter_sort [symmetric] conj_commute)
  have page: "list_decisions db f p limit = (take limit (drop (nat (max (p - 1) 0) * limit) items), length items)" for p
    by (simp add: list_decisions_def Let_def items_def)
  have chunks: "concat (map (\<lambda>i. take limit (drop (i * limit) items)) [0..<k]) = take (k * limit) items" for k
  proof (induction k)
    case (Suc k)
    then show ?case by (simp add: add.commute [of limit] take_add)
  qed simp
  let ?k = "1 + length items div limit"
  have "map (\<lambda>i. fst (list_decisions db f (int i) limit)) [1..<1 + ?k]
      = map (\<lambda>i. take limit (drop (i * limit) items)) [0..<?k]"
  proof -
    have "[1..<1 + ?k] = map Suc [0..<?k]" by (simp add: map_Suc_upt)
    then show ?thesis by (simp add: page del: upt_Suc)
  qed
  then have "concat (map (\<lambda>i. fst (list_decisions db f (int i) limit)) [1..<1 + ?k]) = take (?k * limit) items"
    by (simp only: chunks)
  moreover have "length items \<le> ?k * limit"
    using dividend_less_div_times [OF assms, of "length items"] by simp
  ultimately have "concat (map (\<lambda>i. fst (list_decisions db f (int i) limit)) [1..<1 + ?k]) = items" by simp
  then show ?thesis by (simp add: page items del: upt_Suc)
qed

theorem pages_partition_decisions_witness:
  "\<forall>db. concat (map (\<lambda>i. fst (list_decisions db no_filters (int i) 50))
       [1..<2 + snd (list_decisions db no_filters 1 50) div 50])
     = map (summary_of db) (sort_key (\<lambda>r. - drow_created_at r) (db_decisions db))"
proof
  fix db
  have "row_selected no_filters r \<and> matches_filters s r no_filters" for r s
    by (simp add: row_selected_def matches_filters_def no_filters_def)
  then show "concat (map (\<lambda>i. fst (list_decisions db no_filters (int i) 50))
       [1..<2 + snd (list_decisions db no_filters 1 50) div 50])
     = map (summary_of db) (sort_key (\<lambda>r. - drow_created_at r) (db_decisions db))"
    using pages_partition_decisions [of 50 db no_filters 1, THEN conjunct1] by simp
qed


subsection \<open>Statistics add up\<close>

lemma sum_count_in: "sum_list (map snd (count_in d k)) = sum_list (map snd d) + 1" if "distinct (dict_keys d)"
  using that
proof (induction d)
  case (Cons x d)
  obtain a b where x: "x = (a, b)" by (cases x)
  show ?case
  proof (cases "a = k")
    case True
    then show ?thesis by (simp add: x count_in_def dict_set_def dict_get_or_def)
  next
    case False
    with Cons show ?thesis by (simp add: x count_in_def dict_set_def dict_get_or_def dict_keys_def)
  qed
qed (simp add: count_in_def dict_set_def dict_get_or_def)

lemma breakdown_sum:
  assumes "distinct (dict_keys d)"
  shows "distinct (dict_keys (fold (\<lambda>r d. if drow_result r \<noteq> Rejected then d
       else count_in d (extract_rejection_reason (drow_log r))) rows d))
    \<and> sum_list (map snd (fold (\<lambda>r d. if drow_result r \<noteq> Rejected then d
       else count_in d (extract_rejection_reason (drow_log r))) rows d))
      = sum_list (map snd d) + length (filter (\<lambda>r. drow_result r = Rejected) rows)"
  using assms
proof (induction rows arbitrary: d)
  case (Cons r rows)
  show ?case
  proof (cases "drow_result r = Rejected")
    case True
    have "distinct (dict_keys (count_in d (extract_rejection_reason (drow_log r))))"
      using Cons.prems by (simp add: count_in_def distinct_dict_set)
    from Cons.IH [OF this] True sum_count_in [OF Cons.prems] show ?thesis by simp
  next
    case False
    with Cons show ?thesis by simp
  qed
qed simp

lemma approved_or_rejected:
  "length (filter (\<lambda>r. drow_result r = Approved) rows) + length (filter (\<lambda>r. drow_result r = Rejected) rows)
     = length rows"
proof (induction rows)
  case (Cons r rows)
  then show ?case by (cases "drow_result r") simp_all
qed simp

lemma rate_arith:
  "a + b = t \<Longrightarrow> 0 < real t \<Longrightarrow> real a / real t * real t + real b = real t \<and> real a / real t \<le> 1"
  by (auto simp: divide_le_eq)

text \<open>The statistics are consistent. The approval rate times the number of decisions plus the
  counts of the rejection breakdown is the number of decisions, the rate lies between zero
  and one, and every reason is listed once.\<close>

theorem engine_stats_add_up:
  "es_approval_rate (compute_engine_stats db modes) * of_nat (es_decisions (compute_engine_stats db modes))
     + of_nat (sum_list (map snd (es_breakdown (compute_engine_stats db modes))))
     = of_nat (es_decisions (compute_engine_stats db modes))
   \<and> 0 \<le> es_approval_rate (compute_engine_stats db modes) \<and> es_approval_rate (compute_engine_stats db modes) \<le> 1
   \<and> distinct (dict_keys (es_breakdown (compute_engine_stats db modes)))
   \<and> es_decisions (compute_engine_stats db modes) = length (filter (in_modes modes) (db_decisions db))"
proof (cases "filter (in_modes modes) (db_decisions db) = []")
  case True
  then show ?thesis by (simp add: compute_engine_stats_def Let_def dict_keys_def)
next
  case False
  let ?rows = "filter (in_modes modes) (db_decisions db)"
  have b: "distinct (dict_keys ([] :: (string, nat) dict))" by (simp add: dict_keys_def)
  let ?A = "length (filter (\<lambda>r. drow_result r = Approved) ?rows)"
    and ?B = "length (filter (\<lambda>r. drow_result r = Rejected) ?rows)" and ?s = "compute_engine_stats db modes"
  have split: "?A + ?B = length ?rows" by (rule approved_or_rejected)
  have s: "es_decisions ?s = length ?rows" "es_approval_rate ?s = of_nat ?A / of_nat (length ?rows)"
    "es_breakdown ?s = fold (\<lambda>r d. if drow_result r \<noteq> Rejected then d
       else count_in d (extract_rejection_reason (drow_log r))) ?rows []"
    using False by (simp_all add: compute_engine_stats_def Let_def del: length_filter_conv_card)
  have sum: "sum_list (map snd (es_breakdown ?s)) = ?B" "distinct (dict_keys (es_breakdown ?s))"
    unfolding s(3) using breakdown_sum [OF b, of ?rows] by simp_all
  have pos: "0 < real (length ?rows)" using False by simp
  note rate = rate_arith [OF split pos]
  show ?thesis unfolding sum(1) s(1,2) using sum(2) rate by (intro conjI) simp_all
qed


subsection \<open>What the dashboard says of a cycle\<close>

lemma publish_many_append:
  "publish_many f (xs @ ys) s = (case publish_many f xs s of
     (t, Inl err) \<Rightarrow> (t, Inl err) | (t, Inr _) \<Rightarrow> publish_many f ys t)"
  by (induction xs arbitrary: s) (auto split: prod.splits sum.splits)

lemma persist_keeps_decisions:
  assumes "persist_all E e (db, n) = Inr (db', n')" and "ev_type e \<noteq> DecisionMade"
  shows "db_decisions db' = db_decisions db"
  using assms
  by (auto simp: persist_all_def commit_def persist_event_def persist_feature_set_from_event_def
      persist_decision_from_event_def persist_execution_event_def persist_order_def persist_fill_def
      split: if_splits payload.splits)

lemma publish_keeps_decisions:
  assumes "publish_many memory_publish es (\<lparr>bus_handlers = [database_handler E], bus_published = ps\<rparr>, w) = ((b, w'), Inr ())"
    and "\<forall>e \<in> set es. ev_type e \<noteq> DecisionMade"
  shows "db_decisions (dw_db w') = db_decisions (dw_db w)"
  using assms
proof (induction es arbitrary: ps w)
  case (Cons e es)
  from Cons.prems obtain db n where p: "persist_all E e (dw_db w, dw_tick w) = Inr (db, n)" and
    rest: "publish_many memory_publish es (\<lparr>bus_handlers = [database_handler E], bus_published = ps @ [e]\<rparr>,
       w\<lparr>dw_buffer := dw_buffer w @ [e], dw_db := db, dw_tick := n\<rparr>) = ((b, w'), Inr ())"
    by (auto simp: publish_one split: sum.splits prod.splits)
  from Cons.IH [OF rest] persist_keeps_decisions [OF p] Cons.prems(2) show ?case by simp
qed simp

definition row_of_decision :: "event \<Rightarrow> string \<Rightarrow> decision_value \<Rightarrow> string \<Rightarrow> decision_log \<Rightarrow> decision_row" where
  "row_of_decision e did v snap lg = \<lparr>drow_decision_id = did, drow_correlation_id = ev_correlation_id e, drow_result = v,
     drow_state_snapshot_id = snap, drow_log = lg, drow_mode = Some (ev_mode e),
     drow_revision_id = ev_revision_id e, drow_experiment_id = ev_experiment_id e,
     drow_created_at = ev_event_time e\<rparr>"

lemma persist_made:
  assumes "persist_all E e (db, n) = Inr (db', n')" and "ev_type e = DecisionMade"
    and "ev_payload e = P_decision_made did v snap lg" and "did \<notin> drow_decision_id ` set (db_decisions db)"
  shows "db_decisions db' = db_decisions db @ [row_of_decision e did v snap lg]"
  using assms
  by (auto simp: persist_all_def commit_def persist_event_def persist_feature_set_from_event_def
      persist_decision_from_event_def persist_execution_event_def payload_decision_id_def row_of_decision_def
      split: if_splits)

lemma publish_decision:
  assumes "publish_many memory_publish (xs @ e # ys) (\<lparr>bus_handlers = [database_handler E], bus_published = ps\<rparr>, w)
      = ((b, w'), Inr ())"
    and "\<forall>x \<in> set (xs @ ys). ev_type x \<noteq> DecisionMade" and "ev_type e = DecisionMade"
    and "ev_payload e = P_decision_made did v snap lg" and "did \<notin> drow_decision_id ` set (db_decisions (dw_db w))"
  shows "db_decisions (dw_db w') = db_decisions (dw_db w) @ [row_of_decision e did v snap lg]"
proof -
  let ?bus = "\<lambda>ps. \<lparr>bus_handlers = [database_handler E], bus_published = ps\<rparr>"
  from assms(1) obtain b1 w1 where 1: "publish_many memory_publish xs (?bus ps, w) = ((b1, w1), Inr ())"
    and 2: "publish_many memory_publish (e # ys) (b1, w1) = ((b, w'), Inr ())"
    by (auto simp: publish_many_append split: prod.splits sum.splits)
  from publish_stores [OF 1] have b1: "b1 = ?bus (ps @ xs)" by simp
  from publish_keeps_decisions [OF 1] assms(2) have w1: "db_decisions (dw_db w1) = db_decisions (dw_db w)" by simp
  from 2 obtain db n where p: "persist_all E e (dw_db w1, dw_tick w1) = Inr (db, n)" and
    rest: "publish_many memory_publish ys (?bus (ps @ xs @ [e]),
       w1\<lparr>dw_buffer := dw_buffer w1 @ [e], dw_db := db, dw_tick := n\<rparr>) = ((b, w'), Inr ())"
    unfolding b1 by (auto simp: publish_one split: sum.splits prod.splits)
  from persist_made [OF p assms(3,4)] assms(5) w1 publish_keeps_decisions [OF rest] assms(2) show ?thesis by simp
qed

lemma rejection_has_no_signal:
  assumes "process E cfg sigs ctx snap m n = Inr (d, k)" and "\<not> is_approved d"
  shows "dec_final_signal d = None"
  using assms by (cases rule: process_cases) (simp_all add: is_approved_def)

lemma told_types: "fst ` set (told pvs sigs) \<subseteq> {ProviderSkipped, ProviderOpinion}"
proof (induction pvs arbitrary: sigs)
  case (Cons pv pvs)
  show ?case
  proof (cases sigs)
    case Nil
    with Cons.IH [of sigs] show ?thesis by simp
  next
    case (Cons s ss)
    with Cons.IH [of ss] Cons.IH [of sigs] show ?thesis by simp
  qed
qed simp

lemma published_types: "fst ` set (published_content d) \<subseteq> {SignalPublished}"
  by (auto simp: published_content_def split: option.splits)

lemma outcome_types: "fst (outcome_content snap d) \<in> {DecisionApproved, DecisionRejected}"
  by (simp add: outcome_content_def)

lemma find_skip: "\<forall>x \<in> set xs. \<not> P x \<Longrightarrow> List.find P (xs @ ys) = List.find P ys"
  by (induction xs) auto

text \<open>The dashboard reports a decision as it was made. After a cycle that returned, over the
  database handler, with new identifiers and on a server that answers rows of equal time as they
  were inserted, the detail of its decision exists and gives
  the cycle's symbol and timeframe, the result, the stage and the reason of a rejection as
  the engine recorded them, the final signal, the side and the confidence of an approval,
  the log, the market context and the feature values it was made from, and one opinion for
  every enabled provider.\<close>

theorem decision_reported:
  assumes "rt_emit R" and "market_data (rt_latest R)" and "rt_publish R = memory_publish"
    and "pl_bus p = (\<lparr>bus_handlers = [database_handler E], bus_published = ps\<rparr>, w)"
    and "run_cycle E R a p = (q, Inr res)"
    and "\<forall>r \<in> set (db_events (dw_db w)). row_correlation_id r \<noteq> cr_correlation_id res"
    and "decision_id (cr_decision res) \<notin> drow_decision_id ` set (db_decisions (dw_db w))"
    and "db_order (dw_db w) = sort_key row_event_time"
  shows "\<exists>det. get_decision (dw_db (snd (pl_bus q))) (decision_id (cr_decision res)) = Some det
    \<and> ds_symbol (dd_summary det) = ca_symbol a \<and> ds_timeframe (dd_summary det) = ca_timeframe a
    \<and> ds_result (dd_summary det) = dr_value (dec_result (cr_decision res))
    \<and> dd_rejection_reason det = dr_rejection_reason (dec_result (cr_decision res))
    \<and> dd_rejection_stage det = dr_rejection_stage (dec_result (cr_decision res))
    \<and> dd_final_signal det = dec_final_signal (cr_decision res)
    \<and> (\<forall>fs. dec_final_signal (cr_decision res) = Some fs \<longrightarrow>
         ds_side (dd_summary det) = Some (fin_side fs) \<and> ds_confidence (dd_summary det) = Some (fin_confidence fs))
    \<and> dd_log det = dec_log (cr_decision res) \<and> dd_context det = Some (P_context (cr_context res))
    \<and> dd_features det = Some (Some (feature_version (cr_feature_set res)), indicators (cr_feature_set res), flags (cr_feature_set res))
    \<and> dd_provider_signals det = map snd (filter (\<lambda>x. fst x = ProviderOpinion) (told (rt_providers R) (cr_signals res)))"
proof -
  let ?d = "cr_decision res" and ?snap = "cr_snapshot res" and ?cid = "cr_correlation_id res"
  obtain c candle feat mctx ops made outcome pub n k where
    evs: "cr_events res = [candle, feat, mctx] @ ops @ [made, outcome] @ pub @ cr_execution_events res"
    and candle: "bears R c Fam_market CandleReceived (P_candle (cy_bar c)) candle"
    and feat: "bears R c Fam_market FeatureSetBuilt
       (P_features (feature_set_id (cr_feature_set res)) (feature_version (cr_feature_set res))
          (config_hash (cr_feature_set res)) (indicators (cr_feature_set res)) (flags (cr_feature_set res))) feat"
    and mctx: "bears R c Fam_market MarketContextDerived (P_context (cr_context res)) mctx"
    and ops: "map content ops = told (rt_providers R) (cr_signals res)"
      "\<forall>e \<in> set ops. bears R c Fam_signal (ev_type e) (ev_payload e) e"
    and made: "bears R c Fam_decision DecisionMade
        (P_decision_made (decision_id ?d) (dr_value (dec_result ?d)) (snapshot_id ?snap) (dec_log ?d)) made"
    and outcome: "bears R c Fam_decision (fst (outcome_content ?snap ?d)) (snd (outcome_content ?snap ?d)) outcome"
    and pub: "map content pub = published_content ?d" "\<forall>e \<in> set pub. bears R c Fam_execution (ev_type e) (ev_payload e) e"
    and args: "cy_symbol c = ca_symbol a" "cy_timeframe c = ca_timeframe a" "cy_id c = ?cid"
    and proc: "process E (rt_engine R) (cr_signals res) (cr_context res) ?snap
      \<lparr>dm_correlation_id = cy_id c, dm_event_time = cy_event_time c, dm_decision_time = cy_processing_time c,
       dm_revision_id = cy_revision_id c, dm_experiment_id = cy_experiment_id c\<rparr> n = Inr (?d, k)"
    by (rule cycle_trace [OF assms(1,2,5)]) (rule that; assumption)
  have op_types: "ev_type e \<in> {ProviderSkipped, ProviderOpinion}" if "e \<in> set ops" for e
    using told_types [of "rt_providers R" "cr_signals res"] that unfolding ops(1) [symmetric] by force
  have pub_types: "ev_type e = SignalPublished" if "e \<in> set pub" for e
    using published_types [of ?d] that unfolding pub(1) [symmetric] by force
  have exec_types: "engine_made e" if "e \<in> set (cr_execution_events res)" for e
    using cycle_stamped(2) [OF assms(5,2)] that by blast
  have outcome_type: "ev_type outcome \<in> {DecisionApproved, DecisionRejected}"
    using outcome outcome_types [of ?snap ?d] by (simp add: bears_def)
  obtain b w' where q: "pl_bus q = (b, w')" by fastforce
  from cycle_publishes [OF assms(5,2)] assms(3,4) q have
    publish: "publish_many memory_publish (cr_events res) (\<lparr>bus_handlers = [database_handler E], bus_published = ps\<rparr>, w)
      = ((b, w'), Inr ())" by simp
  let ?row = "row_of_decision made (decision_id ?d) (dr_value (dec_result ?d)) (snapshot_id ?snap) (dec_log ?d)"
  have rows: "db_decisions (dw_db w') = db_decisions (dw_db w) @ [?row]"
  proof (rule publish_decision [OF _ _ _ _ assms(7)])
    show "publish_many memory_publish (([candle, feat, mctx] @ ops) @ made # ([outcome] @ pub @ cr_execution_events res))
      (\<lparr>bus_handlers = [database_handler E], bus_published = ps\<rparr>, w) = ((b, w'), Inr ())"
      using publish by (simp add: evs)
    show "\<forall>x \<in> set (([candle, feat, mctx] @ ops) @ [outcome] @ pub @ cr_execution_events res). ev_type x \<noteq> DecisionMade"
      using candle feat mctx op_types pub_types exec_types outcome_type
      by (fastforce simp: bears_def engine_made_def)
  qed (use made in \<open>simp_all add: bears_def\<close>)
  have find_row: "List.find (\<lambda>r. drow_decision_id r = decision_id ?d) (db_decisions (dw_db w')) = Some ?row"
    unfolding rows using assms(7) by (subst find_skip) (auto simp: row_of_decision_def image_iff)
  have cid: "drow_correlation_id ?row = ?cid" using made args(3) by (simp add: row_of_decision_def bears_def)
  have fetched: "fetch_events_by_correlation ?cid (dw_db w') = cr_events res"
    using cycle_recovered [OF assms(2-6,8)] q by simp
  have log: "db_events (dw_db w') = db_events (dw_db w) @ map event_to_row (cr_events res)"
    using publish_stores [OF publish] by simp
  have meta: "decision_meta_of (dw_db w') ?row = (ca_symbol a, ca_timeframe a)"
  proof -
    let ?P = "\<lambda>r. row_correlation_id r = ?cid \<and> row_type r = DecisionMade"
    have "List.find ?P (db_events (dw_db w) @ map event_to_row (cr_events res))
        = List.find ?P (map event_to_row ([candle, feat, mctx] @ ops) @ map event_to_row ([made, outcome] @ pub @ cr_execution_events res))"
      using assms(6) by (subst find_skip) (auto simp: evs)
    also have "\<dots> = List.find ?P (map event_to_row ([made, outcome] @ pub @ cr_execution_events res))"
      using candle feat mctx op_types by (intro find_skip) (fastforce simp: bears_def event_to_row_def)
    also have "\<dots> = Some (event_to_row made)"
      using made args(3) by (simp add: bears_def event_to_row_def)
    finally show ?thesis
      using made args(1,2) unfolding decision_meta_of_def cid log by (simp add: bears_def event_to_row_def)
  qed
  have out: "outcome_event (cr_events res) (decision_id ?d) = Some (snd (outcome_content ?snap ?d))"
  proof -
    let ?P = "\<lambda>e. payload_decision_id (ev_payload e) = Some (decision_id ?d) \<and> ev_type e \<in> {DecisionApproved, DecisionRejected}"
    have "List.find ?P (([candle, feat, mctx] @ ops @ [made]) @ [outcome] @ pub @ cr_execution_events res)
        = List.find ?P ([outcome] @ pub @ cr_execution_events res)"
      using candle feat mctx op_types made by (intro find_skip) (fastforce simp: bears_def)
    also have "\<dots> = Some outcome"
      using outcome outcome_type by (simp add: bears_def outcome_content_def payload_decision_id_def)
    finally show ?thesis using outcome by (simp add: outcome_event_def evs bears_def)
  qed
  have signals: "map ev_payload (filter (\<lambda>e. ev_family e = Fam_signal \<and> ev_type e = ProviderOpinion) (cr_events res))
      = map snd (filter (\<lambda>x. fst x = ProviderOpinion) (told (rt_providers R) (cr_signals res)))"
  proof -
    let ?F = "filter (\<lambda>e. ev_family e = Fam_signal \<and> ev_type e = ProviderOpinion)"
    have "?F [candle, feat, mctx] = []" "?F [made, outcome] = []" using candle feat mctx made outcome by (simp_all add: bears_def)
    moreover have "?F pub = []" using pub(2) by (auto simp: filter_empty_conv bears_def)
    moreover have "?F (cr_execution_events res) = []" using exec_types by (auto simp: filter_empty_conv engine_made_def)
    moreover have "?F ops = filter (\<lambda>e. ev_type e = ProviderOpinion) ops"
      using ops(2) by (intro filter_cong) (auto simp: bears_def)
    ultimately have "?F (cr_events res) = filter (\<lambda>e. ev_type e = ProviderOpinion) ops" by (simp only: evs filter_append append_Nil append_Nil2)
    then show ?thesis unfolding ops(1) [symmetric] by (simp add: filter_map o_def)
  qed
  have mkt: "market_context_payload (cr_events res) = Some (P_context (cr_context res))"
    using candle feat mctx by (simp add: market_context_payload_def evs bears_def)
  have features: "feature_snapshot (cr_events res) =
      Some (Some (feature_version (cr_feature_set res)), indicators (cr_feature_set res), flags (cr_feature_set res))"
    using candle feat by (simp add: feature_snapshot_def evs bears_def)
  have summary: "summary_of (dw_db w') ?row = row_to_summary ?row (ca_symbol a, ca_timeframe a) (cr_events res)"
    by (simp only: summary_of_def cid fetched meta)
  have stage: "(case dr_value (dec_result ?d) of Approved \<Rightarrow> dr_rejection_reason (dec_result ?d) = None \<and> dr_rejection_stage (dec_result ?d) = None
         \<and> (\<exists>fs. dec_final_signal ?d = Some fs \<and> agg_side (log_aggregation (dec_log ?d)) = fin_side fs
              \<and> agg_confidence (log_aggregation (dec_log ?d)) = fin_confidence fs)
     | Rejected \<Rightarrow> dec_final_signal ?d = None)"
    using proc
  proof (cases rule: process_log)
    case (approved fs)
    then show ?thesis by (simp add: approved_def)
  qed (use rejection_has_no_signal [OF proc] in \<open>simp_all add: is_approved_def\<close>)
  show ?thesis
    unfolding q snd_conv get_decision_def find_row option.case cid fetched summary
    using stage
    by (cases "dr_value (dec_result ?d)")
      (auto simp: out mkt features signals [simplified] row_to_summary_def row_of_decision_def Let_def outcome_content_def is_approved_def
        payload_reason_def payload_stage_def)
qed

theorem decision_reported_witness:
  "\<exists>q res det. run_cycle unary_env logged_runtime demo_cycle_args logged_platform = (q, Inr res)
     \<and> get_decision (dw_db (snd (pl_bus q))) (decision_id (cr_decision res)) = Some det
     \<and> ds_symbol (dd_summary det) = ''BTC''
     \<and> dd_rejection_reason det = dr_rejection_reason (dec_result (cr_decision res))"
proof -
  obtain q res where r: "run_cycle unary_env logged_runtime demo_cycle_args logged_platform = (q, Inr res)"
    using logged_cycle by (elim exE conjE) (rule that)
  have pub: "rt_emit logged_runtime" "rt_publish logged_runtime = memory_publish" by (simp_all add: logged_runtime_def)
  have bus: "pl_bus logged_platform = (\<lparr>bus_handlers = [database_handler unary_env], bus_published = []\<rparr>,
      \<lparr>dw_buffer = [], dw_db = empty_database, dw_tick = 99\<rparr>)"
    by (simp add: logged_platform_def new_platform_def new_bus_def)
  have order: "db_order (dw_db \<lparr>dw_buffer = [], dw_db = empty_database, dw_tick = 99\<rparr>) = sort_key row_event_time"
    by (simp add: empty_database_def)
  from decision_reported [OF pub(1) logged_market_data pub(2) bus r _ _ order] obtain det where
    "get_decision (dw_db (snd (pl_bus q))) (decision_id (cr_decision res)) = Some det"
    "ds_symbol (dd_summary det) = ca_symbol demo_cycle_args"
    "dd_rejection_reason det = dr_rejection_reason (dec_result (cr_decision res))"
    by (auto simp: empty_database_def)
  with r show ?thesis
    by - (rule exI [of _ q], rule exI [of _ res], rule exI [of _ det], simp add: demo_cycle_args_def)
qed

end
