(* ===== verification/Lookback.thy ===== *)
theory Lookback
  imports Features
begin

text \<open>
  \<^verbatim>\<open>backend/src/validation/lookback.py\<close>: how many bars a run skips so that every configured
  indicator has enough data. Indicator parameters are kept by the type they are read at.
\<close>

record indicator_params =
  ip_ints :: "(string, int) dict"
  ip_nums :: "(string, real) dict"
  ip_texts :: "(string, string) dict"

abbreviation int_param :: "indicator_params \<Rightarrow> string \<Rightarrow> int \<Rightarrow> int" where
  "int_param ps k d \<equiv> dict_get_or (ip_ints ps) k d"

abbreviation str_param :: "indicator_params \<Rightarrow> string \<Rightarrow> string \<Rightarrow> string" where
  "str_param ps k d \<equiv> dict_get_or (ip_texts ps) k d"

text \<open>Bars one indicator needs, by its type.\<close>

definition bars_needed :: "indicator_params indicator_def \<Rightarrow> int" where
  "bars_needed d =
     (let ps = ind_params d; typ = ind_type d
      in if typ = ''macd'' then
           int_param ps ''slow'' 26 + int_param ps ''signal'' 9
             + (if str_param ps ''component'' ''line'' = ''histogram_slope'' then 1 else 0)
         else if typ = ''bollinger'' then int_param ps ''period'' 20
         else if typ = ''adx'' then 2 * int_param ps ''period'' 14
         else if typ = ''supertrend'' then 2 * int_param ps ''period'' 10
         else if typ = ''volume_flow'' then
           (if str_param ps ''component'' ''cmf'' = ''close_delta'' then 2 else int_param ps ''period'' 20)
         else if typ = ''market_structure'' then 4 * int_param ps ''pivot_bars'' 5 + 1
         else int_param ps ''period'' 14)"

definition compute_min_lookback_bars :: "indicator_params features_config \<Rightarrow> int" where
  "compute_min_lookback_bars cfg = fold (\<lambda>d m. max m (bars_needed d)) (fc_indicators cfg) 1 + 1"

lemma fold_max_ge: "(\<forall>d \<in> set ds. f d \<le> fold (\<lambda>d m. max m (f d)) ds (m :: int)) \<and> m \<le> fold (\<lambda>d m. max m (f d)) ds m"
proof (induction ds arbitrary: m)
  case (Cons d ds)
  from Cons.IH [of "max m (f d)"] show ?case by auto
qed simp

lemma lookback_covers: "d \<in> set (fc_indicators cfg) \<Longrightarrow> bars_needed d < compute_min_lookback_bars cfg"
  using fold_max_ge [of "fc_indicators cfg" bars_needed 1] by (auto simp: compute_min_lookback_bars_def)

lemma lookback_at_least_two: "2 \<le> compute_min_lookback_bars cfg"
  using fold_max_ge [of "fc_indicators cfg" bars_needed 1] by (auto simp: compute_min_lookback_bars_def)

end
