(* ===== verification/Replay.thy ===== *)
theory Replay
  imports DecisionRecords Lookback "HOL-Library.Product_Lexorder"
begin

text \<open>
  \<^verbatim>\<open>backend/src/replay/\<close>: reading a cycle back from the event log. Timeline, causal graph, the
  check for a complete chain, the difference between two decisions, and the re-execution
  of a cycle's decision from its events, with the drift of its features.
\<close>


subsection \<open>Timeline (timeline.py)\<close>

definition event_type_name :: "event_type \<Rightarrow> string" where
  "event_type_name t = (case t of
     CandleReceived \<Rightarrow> ''CandleReceived'' | FeatureSetBuilt \<Rightarrow> ''FeatureSetBuilt''
   | MarketContextDerived \<Rightarrow> ''MarketContextDerived'' | ProviderOpinion \<Rightarrow> ''ProviderOpinion''
   | ProviderSkipped \<Rightarrow> ''ProviderSkipped'' | DecisionMade \<Rightarrow> ''DecisionMade''
   | DecisionApproved \<Rightarrow> ''DecisionApproved'' | DecisionRejected \<Rightarrow> ''DecisionRejected''
   | OrderIntentCreated \<Rightarrow> ''OrderIntentCreated'' | OrderSubmitted \<Rightarrow> ''OrderSubmitted''
   | OrderAcknowledged \<Rightarrow> ''OrderAcknowledged'' | FillReceived \<Rightarrow> ''FillReceived''
   | PositionOpened \<Rightarrow> ''PositionOpened'' | PositionClosed \<Rightarrow> ''PositionClosed''
   | SignalPublished \<Rightarrow> ''SignalPublished'' | OrderRejected \<Rightarrow> ''OrderRejected''
   | ExecutionFailed \<Rightarrow> ''ExecutionFailed'')"

text \<open>The keys the summaries read, each for the payloads that have it. An absent key is
  rendered as Python renders \<^verbatim>\<open>None\<close>.\<close>

definition rendered :: "('a \<Rightarrow> text_part) \<Rightarrow> 'a option \<Rightarrow> text_part" where
  "rendered f x = (case x of None \<Rightarrow> Lit ''None'' | Some v \<Rightarrow> f v)"

definition key_close :: "payload \<Rightarrow> real option" where
  "key_close pl = (case pl of P_candle b \<Rightarrow> Some (bar_close b) | _ \<Rightarrow> None)"

definition key_feature_version :: "payload \<Rightarrow> string option" where
  "key_feature_version pl = (case pl of P_features _ v _ _ _ \<Rightarrow> Some v | _ \<Rightarrow> None)"

definition key_provider_id :: "payload \<Rightarrow> string option" where
  "key_provider_id pl = (case pl of P_opinion i _ _ _ \<Rightarrow> Some i | P_skipped i _ \<Rightarrow> Some i | _ \<Rightarrow> None)"

definition position_side_name :: "position_side \<Rightarrow> string" where
  "position_side_name s = (case s of LONG \<Rightarrow> ''LONG'' | SHORT \<Rightarrow> ''SHORT'')"

definition key_side :: "payload \<Rightarrow> string option" where
  "key_side pl = (case pl of P_opinion _ sd _ _ \<Rightarrow> Some (side_name sd) | P_signal _ sd _ _ _ _ _ _ \<Rightarrow> Some (side_name sd)
     | P_closed ci \<Rightarrow> Some (position_side_name (ci_side ci)) | _ \<Rightarrow> None)"

definition key_confidence :: "payload \<Rightarrow> real option" where
  "key_confidence pl = (case pl of P_opinion _ _ c _ \<Rightarrow> Some c | P_signal _ _ _ _ _ c _ _ \<Rightarrow> Some c | _ \<Rightarrow> None)"

definition key_result :: "payload \<Rightarrow> decision_value option" where
  "key_result pl = (case pl of P_decision_made _ v _ _ \<Rightarrow> Some v | _ \<Rightarrow> None)"

definition key_quantity :: "payload \<Rightarrow> real option" where
  "key_quantity pl = (case pl of P_closed ci \<Rightarrow> Some (ci_quantity ci) | _ \<Rightarrow> None)"

definition key_price :: "payload \<Rightarrow> real option" where
  "key_price pl = None"

definition decision_value_name :: "decision_value \<Rightarrow> string" where
  "decision_value_name v = (case v of Approved \<Rightarrow> ''approved'' | Rejected \<Rightarrow> ''rejected'')"

definition event_summary :: "event \<Rightarrow> rich_text result" where
  "event_summary e =
     (let pl = ev_payload e
      in case ev_type e of
           CandleReceived \<Rightarrow> Inr [Lit ''Candle close '', rendered Plain (key_close pl)]
         | FeatureSetBuilt \<Rightarrow> Inr [Lit ''Features built ('', rendered Lit (key_feature_version pl), Lit '')'']
         | MarketContextDerived \<Rightarrow>
             Inr [Lit (''Context: trend='' @ (case pl of P_context c \<Rightarrow> trend_name (mc_trend c) | _ \<Rightarrow> ''?'')
                    @ '', vol='' @ (case pl of P_context c \<Rightarrow> volatility_name (mc_volatility c) | _ \<Rightarrow> ''?''))]
         | ProviderOpinion \<Rightarrow>
             Inr [rendered Lit (key_provider_id pl), Lit '': '', rendered Lit (key_side pl), Lit '' ('',
                  rendered Plain (key_confidence pl), Lit '')'']
         | ProviderSkipped \<Rightarrow> Inr [rendered Lit (key_provider_id pl), Lit '' skipped'']
         | DecisionMade \<Rightarrow>
             Inr [Lit ''Decision made ('', rendered (\<lambda>v. Lit (decision_value_name v)) (key_result pl), Lit '')'']
         | DecisionApproved \<Rightarrow>
             (case pl of
                P_approved _ _ (Some fs) \<Rightarrow> Inr [Lit (''Approved '' @ side_name (fin_side fs))]
              | P_approved _ _ None \<Rightarrow> Inl (AttributeError ''get'')
              | _ \<Rightarrow> Inr [Lit ''Approved '', rendered Lit (key_side pl)])
         | DecisionRejected \<Rightarrow>
             Inr [Lit ''Rejected: '', (case pl of P_rejected _ _ _ reason _ \<Rightarrow> rendered Lit reason | _ \<Rightarrow> Lit ''unknown'')]
         | OrderIntentCreated \<Rightarrow>
             Inr [Lit ''Order intent '', rendered Lit (key_side pl), Lit '' qty='', rendered Plain (key_quantity pl)]
         | FillReceived \<Rightarrow>
             Inr [Lit ''Fill '', rendered Lit (key_side pl), Lit '' @ '', rendered Plain (key_price pl)]
         | PositionOpened \<Rightarrow> Inr [Lit ''Position opened'']
         | PositionClosed \<Rightarrow> Inr [Lit ''Position closed'']
         | t \<Rightarrow> Inr [Lit (event_type_name t)])"

record timeline_entry =
  tl_event_id :: string
  tl_family :: event_family
  tl_type :: event_type
  tl_event_time :: datetime
  tl_processing_time :: datetime
  tl_correlation_id :: string
  tl_causation_id :: "string option"
  tl_summary :: rich_text

definition family_order :: "event_family \<Rightarrow> nat" where
  "family_order f = (case f of Fam_market \<Rightarrow> 0 | Fam_signal \<Rightarrow> 1 | Fam_decision \<Rightarrow> 2 | Fam_execution \<Rightarrow> 3
     | Fam_operational \<Rightarrow> 99)"

definition timeline_key :: "event \<Rightarrow> int \<times> nat \<times> int" where
  "timeline_key e = (ev_event_time e, family_order (ev_family e), ev_processing_time e)"

fun timeline_entries :: "event list \<Rightarrow> timeline_entry list result" where
  "timeline_entries [] = Inr []"
| "timeline_entries (e # es) =
     and_then (event_summary e) (\<lambda>s.
     and_then (timeline_entries es) (\<lambda>tl.
       Inr (\<lparr>tl_event_id = event_id e, tl_family = ev_family e, tl_type = ev_type e,
             tl_event_time = ev_event_time e, tl_processing_time = ev_processing_time e,
             tl_correlation_id = ev_correlation_id e, tl_causation_id = ev_causation_id e, tl_summary = s\<rparr> # tl)))"

definition build_timeline :: "event list \<Rightarrow> timeline_entry list result" where
  "build_timeline evs = timeline_entries (sort_key timeline_key evs)"


subsection \<open>Causal graph (graph.py)\<close>

record graph_node =
  gn_id :: string
  gn_type :: event_type
  gn_family :: event_family
  gn_event_time :: datetime

record graph_edge =
  ge_from :: string
  ge_to :: string

record causal_graph =
  cg_nodes :: "graph_node list"
  cg_edges :: "graph_edge list"
  cg_roots :: "string list"

definition graph_node_of :: "event \<Rightarrow> graph_node" where
  "graph_node_of e = \<lparr>gn_id = event_id e, gn_type = ev_type e, gn_family = ev_family e, gn_event_time = ev_event_time e\<rparr>"

text \<open>Whether the cause was seen before makes no difference to the edge.\<close>

definition causal_edges :: "event \<Rightarrow> graph_edge list" where
  "causal_edges e = (case ev_causation_id e of
     None \<Rightarrow> [] | Some c \<Rightarrow> if c = [] then [] else [\<lparr>ge_from = c, ge_to = event_id e\<rparr>])"

definition build_causal_graph :: "event list \<Rightarrow> causal_graph" where
  "build_causal_graph evs =
     (let nodes = map graph_node_of evs; edges = concat (map causal_edges evs)
      in \<lparr>cg_nodes = nodes, cg_edges = edges,
          cg_roots = map gn_id (filter (\<lambda>n. \<not> list_ex (\<lambda>g. ge_to g = gn_id n) edges) nodes)\<rparr>)"


subsection \<open>Comparing decisions (diff.py)\<close>

record decision_diff =
  di_correlation_id :: string
  di_original_result :: decision_value
  di_reexecuted_result :: decision_value
  di_original_side :: "side option"
  di_reexecuted_side :: "side option"
  di_original_reason :: "string option"
  di_reexecuted_reason :: "string option"
  di_original_confidence :: "real option"
  di_reexecuted_confidence :: "real option"
  di_changed :: bool
  di_revision_id :: "string option"

definition approved_signal :: "decision \<Rightarrow> final_signal option" where
  "approved_signal d = (if is_approved d then dec_final_signal d else None)"

definition build_decision_diff :: "string \<Rightarrow> decision \<Rightarrow> decision \<Rightarrow> string option \<Rightarrow> decision_diff" where
  "build_decision_diff cid original reexecuted revision =
     (let so = map_option fin_side (approved_signal original); sr = map_option fin_side (approved_signal reexecuted)
      in \<lparr>di_correlation_id = cid,
          di_original_result = dr_value (dec_result original), di_reexecuted_result = dr_value (dec_result reexecuted),
          di_original_side = so, di_reexecuted_side = sr,
          di_original_reason = dr_rejection_reason (dec_result original),
          di_reexecuted_reason = dr_rejection_reason (dec_result reexecuted),
          di_original_confidence = map_option fin_confidence (approved_signal original),
          di_reexecuted_confidence = map_option fin_confidence (approved_signal reexecuted),
          di_changed = (dr_value (dec_result original) \<noteq> dr_value (dec_result reexecuted) \<or> so \<noteq> sr
             \<or> dr_rejection_reason (dec_result original) \<noteq> dr_rejection_reason (dec_result reexecuted)),
          di_revision_id = revision\<rparr>)"


subsection \<open>Re-execution (reexecutor.py, feature_rebuild.py)\<close>

definition find_event :: "event list \<Rightarrow> event_type \<Rightarrow> event option" where
  "find_event evs t = List.find (\<lambda>e. ev_type e = t) evs"

definition logged_feature_set_id :: "event list \<Rightarrow> string" where
  "logged_feature_set_id evs = (case find_event evs FeatureSetBuilt of
     None \<Rightarrow> [] | Some e \<Rightarrow> (case ev_payload e of P_features i _ _ _ _ \<Rightarrow> i | _ \<Rightarrow> []))"

text \<open>A signal rebuilt from its opinion: the opinion has no price, no stop and no target.\<close>

definition signal_of_opinion :: "event list \<Rightarrow> event \<Rightarrow> strategy_signal result" where
  "signal_of_opinion evs e = (case ev_payload e of
     P_opinion pid sd conf rat \<Rightarrow> mk_strategy_signal
       \<lparr>provider_id = pid, sig_symbol = ev_symbol e, sig_side = sd, sig_confidence = conf, sig_rationale = rat,
        sig_feature_set_id = logged_feature_set_id evs, sig_entry_price = None, sig_stop_loss = None,
        sig_take_profit = None, sig_timeframe = ev_timeframe e, sig_event_time = ev_event_time e,
        sig_valid_until = None\<rparr>
   | _ \<Rightarrow> Inl (KeyError ''provider_id''))"

fun signals_from :: "event list \<Rightarrow> event list \<Rightarrow> strategy_signal list result" where
  "signals_from evs [] = Inr []"
| "signals_from evs (e # es) =
     (if ev_family e \<noteq> Fam_signal \<or> ev_type e \<noteq> ProviderOpinion then signals_from evs es
      else and_then (signal_of_opinion evs e) (\<lambda>s. and_then (signals_from evs es) (\<lambda>ss. Inr (s # ss))))"

definition signals_from_events :: "event list \<Rightarrow> strategy_signal list result" where
  "signals_from_events evs = signals_from evs evs"

definition load_snapshot :: "database \<Rightarrow> string \<Rightarrow> state_snapshot result" where
  "load_snapshot db sid =
     (case List.find (\<lambda>r. srow_snapshot_id r = sid) (db_snapshots db) of
        None \<Rightarrow> Inl (ReExecuteError (''State snapshot not found: '' @ sid))
      | Some r \<Rightarrow> Inr \<lparr>snapshot_id = srow_snapshot_id r, snap_portfolio = srow_portfolio r, snap_risk = srow_risk r,
          snap_version = srow_version r, snap_created_at = srow_created_at r, snap_correlation_id = None\<rparr>)"

text \<open>What is configured now: the engine and the features on disk, the hash of the current
  features configuration, the engine part of every stored revision, the parsed price file
  if one of the known paths exists, and the computation of an indicator.\<close>

record replay_env =
  re_engine :: engine_config
  re_features :: "indicator_params features_config"
  re_features_hash :: string
  re_current_hash :: string
  re_revisions :: "(string, engine_config) dict"
  re_file :: "(string list \<times> frame) option"
  re_compute :: "indicator_params indicator_fun"

definition engine_for_revision :: "replay_env \<Rightarrow> string option \<Rightarrow> engine_config" where
  "engine_for_revision V rid =
     (case rid of None \<Rightarrow> re_engine V
      | Some r \<Rightarrow> if r = [] then re_engine V else dict_get_or (re_revisions V) r (re_engine V))"

text \<open>Every exception on the way makes the rebuild unavailable.\<close>

definition rebuild_indicators ::
  "env \<Rightarrow> replay_env \<Rightarrow> event \<Rightarrow> tick \<Rightarrow> ((string, real) dict \<times> (string, bool) dict) option" where
  "rebuild_indicators E V e n =
     (case re_file V of
        None \<Rightarrow> None
      | Some file \<Rightarrow>
          (let limit = nat (max (compute_min_lookback_bars (re_features V) + 10) 200)
           in case and_then (csv_open (Some file) (ev_symbol e) (ev_timeframe e)) (\<lambda>p.
                   and_then (csv_get_latest p (ev_symbol e) (ev_timeframe e) limit (Some (ev_event_time e))) (\<lambda>df.
                   build_features E (re_compute V) (re_features V) (re_features_hash V) df (ev_symbol e) (ev_timeframe e)
                     (ev_processing_time e) False (empty_features, n))) of
                Inl _ \<Rightarrow> None
              | Inr (fs, _) \<Rightarrow> Some (indicators fs, flags fs)))"

definition as_json_numbers :: "(string, real) dict \<Rightarrow> (string, json_value) dict" where
  "as_json_numbers d = map (\<lambda>(k, v). (k, J_num v)) d"

definition as_json_flags :: "(string, bool) dict \<Rightarrow> (string, json_value) dict" where
  "as_json_flags d = map (\<lambda>(k, v). (k, J_bool v)) d"

record feature_drift =
  fdr_report :: drift_report
  fdr_detected :: bool
  fdr_rebuild_skipped :: bool
  fdr_reason :: "string option"
  fdr_drifted_features :: "string list"
  fdr_hashes :: "(string \<times> string) option"

definition no_drift :: drift_report where
  "no_drift = \<lparr>drift_detected = False, drift_count = 0, drifts = []\<rparr>"

definition detect_feature_drift :: "env \<Rightarrow> replay_env \<Rightarrow> event \<Rightarrow> tick \<Rightarrow> feature_drift" where
  "detect_feature_drift E V e n =
     (let (ind, fl, hash) = (case ev_payload e of P_features _ _ h ind fl \<Rightarrow> (ind, fl, h) | _ \<Rightarrow> ([], [], []));
          (report, skipped, reason) = (case rebuild_indicators E V e n of
             Some (ind', fl') \<Rightarrow> (compare_features (as_json_numbers ind) (as_json_numbers ind') (1 / 10 ^ 6)
                                  (Some (as_json_flags fl)) (Some (as_json_flags fl')), False, None)
           | None \<Rightarrow> (no_drift, True, Some ''ohlcv_unavailable''));
          names = map drift_key (drifts report)
      in if hash \<noteq> [] \<and> hash \<noteq> re_current_hash V then
           \<lparr>fdr_report = report, fdr_detected = True, fdr_rebuild_skipped = skipped,
            fdr_reason = Some (or_else reason ''config_hash_mismatch''), fdr_drifted_features = names,
            fdr_hashes = Some (hash, re_current_hash V)\<rparr>
         else \<lparr>fdr_report = report, fdr_detected = drift_detected report, fdr_rebuild_skipped = skipped,
            fdr_reason = reason, fdr_drifted_features = names, fdr_hashes = None\<rparr>)"

text \<open>The original decision is rebuilt from the event of its making: result and log, but no
  final signal and no reason.\<close>

definition original_decision :: "event \<Rightarrow> string \<Rightarrow> string \<Rightarrow> decision_value \<Rightarrow> decision_log \<Rightarrow> decision" where
  "original_decision made cid did v lg =
     \<lparr>decision_id = did, dec_result = \<lparr>dr_value = v, dr_rejection_reason = None, dr_rejection_stage = None\<rparr>,
      dec_final_signal = None, dec_log = lg, dec_correlation_id = cid, dec_event_time = ev_event_time made,
      dec_decision_time = ev_processing_time made, dec_revision_id = ev_revision_id made,
      dec_experiment_id = ev_experiment_id made\<rparr>"

definition revision_or :: "string option \<Rightarrow> string option \<Rightarrow> string option" where
  "revision_or r d = (case r of None \<Rightarrow> d | Some s \<Rightarrow> if s = [] then d else r)"

definition re_execute_cycle ::
  "env \<Rightarrow> replay_env \<Rightarrow> database \<Rightarrow> event list \<Rightarrow> string option \<Rightarrow> tick
   \<Rightarrow> (decision \<times> decision_diff \<times> feature_drift \<times> tick) result" where
  "re_execute_cycle E V db evs rid n =
     (case evs of [] \<Rightarrow> Inl (ReExecuteError ''No events for cycle'') | e0 # _ \<Rightarrow>
      (case (find_event evs DecisionMade, find_event evs MarketContextDerived, find_event evs FeatureSetBuilt) of
         (Some made, Some mctx, Some feat) \<Rightarrow>
           (case ev_payload made of
              P_decision_made did v sid lg \<Rightarrow>
                and_then (load_snapshot db sid) (\<lambda>snap.
                and_then (signals_from_events evs) (\<lambda>sigs.
                if sigs = [] then Inl (ReExecuteError ''No provider opinions found for re-execute'')
                else (case ev_payload mctx of
                    P_context ctx \<Rightarrow>
                      and_then (process E (engine_for_revision V rid) sigs ctx snap
                          \<lparr>dm_correlation_id = ev_correlation_id e0, dm_event_time = ev_event_time made,
                           dm_decision_time = ev_processing_time made,
                           dm_revision_id = revision_or rid (ev_revision_id made),
                           dm_experiment_id = ev_experiment_id made\<rparr> n) (\<lambda>(d, k).
                        Inr (d, build_decision_diff (ev_correlation_id e0)
                                  (original_decision made (ev_correlation_id e0) did v lg) d rid,
                             detect_feature_drift E V feat k, Suc k))
                  | _ \<Rightarrow> Inl (ValidationError ''MarketContext''))))
            | _ \<Rightarrow> Inl (KeyError ''state_snapshot_id''))
       | _ \<Rightarrow> Inl (ReExecuteError ''Cycle missing required events for re-execute'')))"


subsection \<open>The replay engine (engine.py)\<close>

datatype replay_mode = Strict | Re_execute

record replay_result =
  rr_correlation_id :: string
  rr_events :: "event list"
  rr_timeline :: "timeline_entry list"
  rr_families :: "event_family set"
  rr_mode :: replay_mode
  rr_decision_diff :: "decision_diff option"
  rr_feature_drift :: "feature_drift option"
  rr_graph :: causal_graph

definition cycle_events_of :: "event list \<Rightarrow> string \<Rightarrow> event list" where
  "cycle_events_of evs cid =
     sort_key (\<lambda>e. (ev_event_time e, ev_processing_time e)) (filter (\<lambda>e. ev_correlation_id e = cid) evs)"

text \<open>A graph that was passed in is kept unless it is empty.\<close>

definition replay_cycle ::
  "event list \<Rightarrow> string \<Rightarrow> replay_mode \<Rightarrow> decision_diff option \<Rightarrow> feature_drift option \<Rightarrow> causal_graph option
   \<Rightarrow> replay_result result" where
  "replay_cycle evs cid md diff drift graph =
     (let ces = cycle_events_of evs cid
      in and_then (build_timeline ces) (\<lambda>tl.
           Inr \<lparr>rr_correlation_id = cid, rr_events = ces, rr_timeline = tl, rr_families = ev_family ` set ces,
                rr_mode = md, rr_decision_diff = diff, rr_feature_drift = drift,
                rr_graph = (case graph of None \<Rightarrow> build_causal_graph ces | Some g \<Rightarrow> g)\<rparr>))"

definition replay_cycle_async ::
  "env \<Rightarrow> replay_env \<Rightarrow> database \<Rightarrow> event list \<Rightarrow> string \<Rightarrow> replay_mode \<Rightarrow> string option \<Rightarrow> tick
   \<Rightarrow> (replay_result \<times> tick) result" where
  "replay_cycle_async E V db evs cid md rid n =
     (let ces = cycle_events_of evs cid
      in if ces = [] then and_then (replay_cycle evs cid md None None None) (\<lambda>r. Inr (r, n))
         else if md = Re_execute then
           and_then (re_execute_cycle E V db ces rid n) (\<lambda>(d, diff, drift, k).
           and_then (replay_cycle evs cid md (Some diff) (Some drift) None) (\<lambda>r. Inr (r, k)))
         else and_then (replay_cycle evs cid md None None None) (\<lambda>r. Inr (r, n)))"

definition has_full_chain :: "event list \<Rightarrow> string \<Rightarrow> bool result" where
  "has_full_chain evs cid =
     and_then (replay_cycle evs cid Strict None None None) (\<lambda>r.
       let types = set (map ev_type (rr_events r));
           has_market = CandleReceived \<in> types; has_decision = DecisionMade \<in> types;
           has_execution = (OrderIntentCreated \<in> types \<or> \<not> list_ex (\<lambda>e. ev_type e = DecisionApproved) (rr_events r))
       in if list_ex (\<lambda>e. ev_type e = DecisionApproved) (rr_events r)
          then Inr (has_market \<and> has_decision \<and> OrderIntentCreated \<in> types)
          else Inr (has_market \<and> has_decision \<and> has_execution))"

definition replay_from_db :: "database \<Rightarrow> string \<Rightarrow> event list" where
  "replay_from_db db cid = fetch_events_by_correlation cid db"


subsection \<open>A re-execution always reports a change\<close>

lemma decided_result:
  assumes "process E cfg sigs ctx snap m n = Inr (d, k)"
  shows "(is_approved d \<and> (\<exists>fs. dec_final_signal d = Some fs \<and> dec_result d = approved))
    \<or> (\<not> is_approved d \<and> (\<exists>r st. dec_result d = rejected (Some r) st))"
  using assms
proof (cases rule: process_cases)
  case filtered
  then show ?thesis by (auto simp: market_filter_check_def is_approved_def split: if_splits)
qed (auto simp: is_approved_def)

lemma re_execute_parts:
  assumes "re_execute_cycle E V db evs rid n = Inr (d, diff, drift, k)"
  shows "\<exists>(e0 :: event) made mctx feat did v sid lg snap sigs ctx j.
    find_event evs DecisionMade = Some made \<and> find_event evs MarketContextDerived = Some mctx
    \<and> find_event evs FeatureSetBuilt = Some feat \<and> ev_payload made = P_decision_made did v sid lg
    \<and> load_snapshot db sid = Inr snap \<and> signals_from_events evs = Inr sigs \<and> sigs \<noteq> []
    \<and> ev_payload mctx = P_context ctx
    \<and> process E (engine_for_revision V rid) sigs ctx snap
        \<lparr>dm_correlation_id = ev_correlation_id e0, dm_event_time = ev_event_time made,
         dm_decision_time = ev_processing_time made, dm_revision_id = revision_or rid (ev_revision_id made),
         dm_experiment_id = ev_experiment_id made\<rparr> n = Inr (d, j)
    \<and> diff = build_decision_diff (ev_correlation_id e0) (original_decision made (ev_correlation_id e0) did v lg) d rid
    \<and> drift = detect_feature_drift E V feat j"
  using assms unfolding re_execute_cycle_def
  by (auto split: list.splits option.splits payload.splits if_splits)
    (rule exI, rule exI, rule conjI, assumption, rule conjI, rule refl, rule refl)

text \<open>Re-executing a cycle always reports a changed decision. Whatever the events, the
  snapshot and the configuration, when a re-execution succeeds its difference says
  "changed": the original is rebuilt without its final signal and without its reason, so an
  approval always shows a new side and a rejection a new reason.\<close>

theorem reexecution_always_changed:
  assumes "re_execute_cycle E V db evs rid n = Inr (d, diff, drift, k)"
  shows "di_changed diff \<and> di_original_side diff = None \<and> di_original_reason diff = None
    \<and> di_reexecuted_result diff = dr_value (dec_result d)
    \<and> (di_reexecuted_side diff \<noteq> None \<or> di_reexecuted_reason diff \<noteq> None)"
proof -
  from re_execute_parts [OF assms] obtain e0 :: event and made did v lg snap sigs ctx m j where
    p: "process E (engine_for_revision V rid) sigs ctx snap m n = Inr (d, j)"
    and diff: "diff = build_decision_diff (ev_correlation_id e0) (original_decision made (ev_correlation_id e0) did v lg) d rid"
    by (elim exE conjE) (rule that; assumption)
  from decided_result [OF p] show ?thesis
    unfolding diff
    by (auto simp: build_decision_diff_def Let_def approved_signal_def original_decision_def is_approved_def)
qed


subsection \<open>What a re-execution reproduces\<close>

definition keeps_vote :: "(strategy_signal \<Rightarrow> strategy_signal) \<Rightarrow> bool" where
  "keeps_vote f \<longleftrightarrow> (\<forall>s. provider_id (f s) = provider_id s \<and> sig_side (f s) = sig_side s
     \<and> sig_confidence (f s) = sig_confidence s \<and> sig_rationale (f s) = sig_rationale s)"

lemma keeps_vote_simps:
  assumes "keeps_vote f"
  shows "provider_id (f s) = provider_id s" "sig_side (f s) = sig_side s" "sig_confidence (f s) = sig_confidence s"
    "provider_weight (f s) = provider_weight s"
  using assms by (simp_all add: keeps_vote_def provider_weight_def)

lemma combine_map:
  assumes f: "keeps_vote f"
  shows "combine cfg (map f sigs) = combine cfg sigs"
proof -
  note [simp] = keeps_vote_simps [OF f]
  have act: "active_signals (map f sigs) = map f (active_signals sigs)"
    and side: "on_side sd (map f ss) = map f (on_side sd ss)" for sd ss
    by (simp_all add: active_signals_def on_side_def filter_map o_def)
  have fold: "fold (\<lambda>s d. dict_set d (provider_id s) (w s)) (map f ss) d = fold (\<lambda>s d. dict_set d (provider_id s) (w s)) ss d"
    if "\<And>s. w (f s) = w s" for w :: "strategy_signal \<Rightarrow> real" and ss d
    by (induction ss arbitrary: d) (simp_all add: that)
  have succ: "agg_success (map f win) (map f los) sd wt = agg_success win los sd wt" for win los sd wt
    by (simp add: agg_success_def agg_confidence_of_def weight_dict_def fold o_def)
  have "combine_unanimous cfg (map f sigs) = combine_unanimous cfg sigs"
  proof (cases "active_signals sigs")
    case Nil
    then show ?thesis by (simp add: combine_unanimous_def act)
  next
    case (Cons a rest)
    have "agg_success (f a # map f rest) [] sd wt = agg_success (a # rest) [] sd wt" for sd wt
      using succ [of "a # rest" "[]"] by simp
    moreover have "map sig_side (f a # map f rest) = map sig_side (a # rest)" by simp
    moreover have "length (f a # map f rest) = length (a # rest)" by simp
    ultimately show ?thesis
      by (simp only: combine_unanimous_def act Cons list.map list.case Let_def keeps_vote_simps [OF f])
  qed
  moreover have "combine_majority cfg wt (map f sigs) = combine_majority cfg wt sigs" for wt
    by (simp add: combine_majority_def act side succ Let_def)
  ultimately show ?thesis by (simp add: combine_def)
qed


lemma default_reward:
  assumes "0 < price" and "\<forall>s \<in> set win. sig_stop_loss s = None \<and> sig_take_profit s = None"
    and "merge_levels sd win price weights = (sl, tp)"
  shows "risk_reward_of price sl tp = 2"
proof -
  have "level_values sig_stop_loss weights win = []" "level_values sig_take_profit weights win = []"
    using assms(2) by (auto simp: level_values_def)
  then have "(sl = price * 0.99 \<and> tp = price * 1.02) \<or> (sl = price * 1.01 \<and> tp = price * 0.98)"
    using assms(3) by (auto simp: merge_levels_def level_or_default_def weighted_avg_def Let_def split: if_splits)
  then have r: "\<bar>tp - price\<bar> = \<bar>price - sl\<bar> * 2" "\<bar>price - sl\<bar> \<noteq> 0" using assms(1) by auto
  then have "\<bar>tp - price\<bar> / \<bar>price - sl\<bar> = 2" by simp
  then show ?thesis using r(2) by (simp add: risk_reward_of_def Let_def py_round_def)
qed

lemma process_agg_log:
  assumes "process E cfg sigs ctx snap m n = Inr (d, k)"
  shows "log_market_filter (dec_log d) = market_filter_check (ec_filter cfg) ctx
    \<and> log_aggregation (dec_log d) =
       (let meth = method_name (ac_method (ec_aggregation cfg))
        in if \<not> sr_passed (market_filter_check (ec_filter cfg) ctx) then skipped_aggregation meth
           else case combine (ec_aggregation cfg) sigs of
             Inr (Agg_success a) \<Rightarrow> \<lparr>agg_method = meth, agg_side = as_side a, agg_confidence = as_confidence a,
                 agg_weights = as_weights a, agg_dissent = as_dissent a\<rparr>
           | _ \<Rightarrow> \<lparr>agg_method = meth, agg_side = HOLD, agg_confidence = 0, agg_weights = [],
                 agg_dissent = map provider_id (filter (\<lambda>s. sig_side s \<noteq> HOLD) sigs)\<rparr>)"
  using assms
  by (auto simp: process_def Let_def mk_log_def split: if_splits aggregator_outcome.splits)

lemma combine_reasons: "combine cfg sigs = Inr (Agg_failure r) \<Longrightarrow> r \<noteq> ''min_risk_reward''"
  by (auto simp: combine_def combine_majority_def combine_unanimous_def agg_success_def Let_def
      split: if_splits list.splits)

lemma filter_reasons: "sr_reason (market_filter_check cfg ctx) \<noteq> Some ''min_risk_reward''"
  by (simp add: market_filter_check_def)

lemma first_failed_reason:
  "first_failed (risk_evaluate cfg a snap) = Inr c \<Longrightarrow> check_name c \<noteq> ''min_risk_reward''"
  by (auto simp: first_failed_def risk_evaluate_def Let_def split: option.splits if_splits)

text \<open>A re-run of the engine on the votes of a decision, without their levels.\<close>

lemma process_votes:
  assumes "process E cfg sigs ctx snap m n = Inr (d, k)"
    and "process E' cfg (map f sigs) ctx snap' m' n' = Inr (d', k')"
    and f: "keeps_vote f" "\<And>s. sig_stop_loss (f s) = None \<and> sig_take_profit (f s) = None"
    and snap: "snap_portfolio snap' = snap_portfolio snap" "snap_risk snap' = snap_risk snap"
    and price: "0 < current_price ctx"
  shows "log_market_filter (dec_log d') = log_market_filter (dec_log d)"
    and "log_aggregation (dec_log d') = log_aggregation (dec_log d)"
    and "dec_result d' =
      (if is_approved d \<or> dr_rejection_reason (dec_result d) = Some ''min_risk_reward''
       then (if min_risk_reward (ec_risk cfg) \<le> 2 then approved else rejected (Some ''min_risk_reward'') Stage_risk_manager)
       else dec_result d)"
proof -
  note keep = keeps_vote_simps [OF f(1)]
  have comb: "combine (ec_aggregation cfg) (map f sigs) = combine (ec_aggregation cfg) sigs" by (rule combine_map [OF f(1)])
  have diss: "map provider_id (filter (\<lambda>s. sig_side s \<noteq> HOLD) (map f sigs))
      = map provider_id (filter (\<lambda>s. sig_side s \<noteq> HOLD) sigs)"
    by (simp add: filter_map o_def keep)
  show "log_market_filter (dec_log d') = log_market_filter (dec_log d)"
    using process_agg_log [OF assms(1)] process_agg_log [OF assms(2)] by simp
  show "log_aggregation (dec_log d') = log_aggregation (dec_log d)"
    using process_agg_log [OF assms(1)] process_agg_log [OF assms(2)] unfolding comb diss by simp
  have passes: "rv_passed (risk_evaluate (ec_risk cfg) a snap') = rv_passed (risk_evaluate (ec_risk cfg) a snap)"
    and checks: "first_failed (risk_evaluate (ec_risk cfg) a snap') = first_failed (risk_evaluate (ec_risk cfg) a snap)" for a
    by (simp_all add: risk_evaluate_def first_failed_def Let_def snap)
  have two: "risk_reward fs = 2"
    if b: "build_final_signal E' (ec_risk cfg) a (map f sigs) ctx snap' t r i = Inr fs" for fs a t r i
  proof -
    let ?win = "filter (\<lambda>s. provider_id s \<in> set (dict_keys (as_weights a))) (map f sigs)"
    obtain sl tp where ml: "merge_levels (as_side a) ?win (current_price ctx) (as_weights a) = (sl, tp)" by fastforce
    with b have "risk_reward fs = risk_reward_of (current_price ctx) sl tp"
      by (auto simp: build_final_signal_def Let_def mk_final_signal_Inr)
    moreover have "\<forall>s \<in> set ?win. sig_stop_loss s = None \<and> sig_take_profit s = None" using f(2) by auto
    ultimately show ?thesis using default_reward [OF price _ ml] by simp
  qed
  let ?goal = "dec_result d' =
      (if is_approved d \<or> dr_rejection_reason (dec_result d) = Some ''min_risk_reward''
       then (if min_risk_reward (ec_risk cfg) \<le> 2 then approved else rejected (Some ''min_risk_reward'') Stage_risk_manager)
       else dec_result d)"
  from assms(2) show ?goal
  proof (cases rule: process_cases)
    case filtered
    from assms(1) show ?thesis
      by (cases rule: process_cases) (use filtered filter_reasons in \<open>simp_all add: is_approved_def\<close>)
  next
    case (no_side reason)
    from assms(1) show ?thesis
      by (cases rule: process_cases) (use no_side combine_reasons in \<open>auto simp: is_approved_def comb\<close>)
  next
    case (risk a c)
    from assms(1) show ?thesis
      by (cases rule: process_cases)
        (use risk first_failed_reason passes checks in \<open>auto simp: is_approved_def comb\<close>)
  next
    case (reward a fs)
    from assms(1) show ?thesis
      by (cases rule: process_cases) (use reward two [OF reward(4)] passes in \<open>auto simp: is_approved_def comb\<close>)
  next
    case (approved a fs)
    from assms(1) show ?thesis
      by (cases rule: process_cases) (use approved two [OF approved(4)] passes in \<open>auto simp: is_approved_def comb\<close>)
  qed
qed


subsection \<open>Re-executing the events of a cycle\<close>

definition rebuilt_signal :: "cycle \<Rightarrow> string \<Rightarrow> strategy_signal \<Rightarrow> strategy_signal" where
  "rebuilt_signal c fsid s = s\<lparr>sig_symbol := cy_symbol c, sig_feature_set_id := fsid, sig_entry_price := None,
     sig_stop_loss := None, sig_take_profit := None, sig_timeframe := cy_timeframe c,
     sig_event_time := cy_event_time c, sig_valid_until := None\<rparr>"

lemma rebuilt_signal_votes:
  "keeps_vote (rebuilt_signal c fsid)"
  "sig_stop_loss (rebuilt_signal c fsid s) = None \<and> sig_take_profit (rebuilt_signal c fsid s) = None"
  by (simp_all add: keeps_vote_def rebuilt_signal_def)

lemma rebuilt_signals_ok: "signals_ok (map (rebuilt_signal c fsid) sigs) \<longleftrightarrow> signals_ok sigs"
  by (auto simp: signals_ok_def rebuilt_signal_def strategy_signal_valid_def provider_weight_def)

lemma signals_from_skip:
  "\<forall>e \<in> set xs. ev_type e \<noteq> ProviderOpinion \<Longrightarrow> signals_from evs (xs @ ys) = signals_from evs ys"
  "\<forall>e \<in> set ys. ev_type e \<noteq> ProviderOpinion \<Longrightarrow> signals_from evs (xs @ ys) = signals_from evs xs"
proof -
  show "\<forall>e \<in> set xs. ev_type e \<noteq> ProviderOpinion \<Longrightarrow> signals_from evs (xs @ ys) = signals_from evs ys"
    by (induction xs) auto
  have none: "\<forall>e \<in> set ys. ev_type e \<noteq> ProviderOpinion \<Longrightarrow> signals_from evs ys = Inr []" for ys
    by (induction ys) auto
  show "\<forall>e \<in> set ys. ev_type e \<noteq> ProviderOpinion \<Longrightarrow> signals_from evs (xs @ ys) = signals_from evs xs"
    by (induction xs) (auto simp: none)
qed

lemma signals_from_told:
  assumes "map content ops = told pvs sigs"
    and "\<forall>e \<in> set ops. bears R c Fam_signal (ev_type e) (ev_payload e) e"
    and "map provider_id sigs = map prov_id (filter prov_enabled pvs)" and "signals_ok sigs"
  shows "signals_from evs ops = Inr (map (rebuilt_signal c (logged_feature_set_id evs)) sigs)"
  using assms
proof (induction pvs arbitrary: ops sigs)
  case (Cons pv pvs)
  show ?case
  proof (cases "prov_enabled pv")
    case False
    with Cons.prems(1) obtain e es where ops: "ops = e # es" "ev_type e = ProviderSkipped"
      "map content es = told pvs sigs" by auto
    with Cons False show ?thesis by simp
  next
    case True
    with Cons.prems(3) obtain s ss where sigs: "sigs = s # ss" "provider_id s = prov_id pv"
      "map provider_id ss = map prov_id (filter prov_enabled pvs)" by (cases sigs) auto
    with Cons.prems(1) True obtain e es where ops: "ops = e # es" "ev_type e = ProviderOpinion"
      "ev_payload e = P_opinion (provider_id s) (sig_side s) (sig_confidence s) (sig_rationale s)"
      "map content es = told pvs ss" by auto
    have "signals_from evs es = Inr (map (rebuilt_signal c (logged_feature_set_id evs)) ss)"
      using Cons.IH [OF ops(4) _ sigs(3)] Cons.prems(2,4) by (simp add: ops(1) sigs(1) signals_ok_def)
    moreover have "signal_of_opinion evs e = Inr (rebuilt_signal c (logged_feature_set_id evs) s)"
      using Cons.prems(2,4) ops(1-3) sigs(1)
      by (simp add: signal_of_opinion_def bears_def mk_strategy_signal_Inr signals_ok_def rebuilt_signal_def
          strategy_signal_valid_def)
    moreover have "ev_family e = Fam_signal" using Cons.prems(2) by (simp add: ops(1) bears_def)
    ultimately show ?thesis by (simp add: ops(1,2) sigs(1))
  qed
qed simp

text \<open>The events a re-execution starts from.\<close>

lemma cycle_finds:
  assumes "rt_emit R" and "market_data (rt_latest R)" and "run_cycle E R a p = (q, Inr res)"
  obtains c made mctx feat where
    "find_event (cr_events res) DecisionMade = Some made" "find_event (cr_events res) MarketContextDerived = Some mctx"
    "find_event (cr_events res) FeatureSetBuilt = Some feat"
    "ev_payload made = P_decision_made (decision_id (cr_decision res)) (dr_value (dec_result (cr_decision res)))
       (snapshot_id (cr_snapshot res)) (dec_log (cr_decision res))"
    "ev_payload mctx = P_context (cr_context res)" "cr_events res \<noteq> []"
    "map provider_id (cr_signals res) = map prov_id (filter prov_enabled (rt_providers R)) \<Longrightarrow> signals_ok (cr_signals res)
     \<Longrightarrow> signals_from_events (cr_events res)
           = Inr (map (rebuilt_signal c (logged_feature_set_id (cr_events res))) (cr_signals res))"
    "\<exists>m n k. process E (rt_engine R) (cr_signals res) (cr_context res) (cr_snapshot res) m n = Inr (cr_decision res, k)"
proof -
  obtain c candle feat mctx ops made outcome pub n0 k0 where
    evs: "cr_events res = [candle, feat, mctx] @ ops @ [made, outcome] @ pub @ cr_execution_events res"
    and candle: "bears R c Fam_market CandleReceived (P_candle (cy_bar c)) candle"
    and feat: "bears R c Fam_market FeatureSetBuilt
       (P_features (feature_set_id (cr_feature_set res)) (feature_version (cr_feature_set res))
          (config_hash (cr_feature_set res)) (indicators (cr_feature_set res)) (flags (cr_feature_set res))) feat"
    and mctx: "bears R c Fam_market MarketContextDerived (P_context (cr_context res)) mctx"
    and ops: "map content ops = told (rt_providers R) (cr_signals res)"
      "\<forall>e \<in> set ops. bears R c Fam_signal (ev_type e) (ev_payload e) e"
    and made: "bears R c Fam_decision DecisionMade
        (P_decision_made (decision_id (cr_decision res)) (dr_value (dec_result (cr_decision res)))
           (snapshot_id (cr_snapshot res)) (dec_log (cr_decision res))) made"
    and outcome: "bears R c Fam_decision (fst (outcome_content (cr_snapshot res) (cr_decision res)))
       (snd (outcome_content (cr_snapshot res) (cr_decision res))) outcome"
    and pub: "map content pub = published_content (cr_decision res)"
    and proc: "process E (rt_engine R) (cr_signals res) (cr_context res) (cr_snapshot res)
      \<lparr>dm_correlation_id = cy_id c, dm_event_time = cy_event_time c, dm_decision_time = cy_processing_time c,
       dm_revision_id = cy_revision_id c, dm_experiment_id = cy_experiment_id c\<rparr> n0 = Inr (cr_decision res, k0)"
    by (rule cycle_trace [OF assms]) (rule that; assumption)
  have op_types: "ev_type e \<in> {ProviderSkipped, ProviderOpinion}" if "e \<in> set ops" for e
    using told_types [of "rt_providers R" "cr_signals res"] that unfolding ops(1) [symmetric] by force
  have pub_types: "ev_type e = SignalPublished" if "e \<in> set pub" for e
    using published_types [of "cr_decision res"] that unfolding pub(1) [symmetric] by force
  have tail: "\<forall>e \<in> set ([made, outcome] @ pub @ cr_execution_events res). ev_type e \<noteq> ProviderOpinion"
    using cycle_stamped(2) [OF assms(3,2)] made outcome outcome_types [of "cr_snapshot res" "cr_decision res"]
      pub_types by (auto simp: bears_def engine_made_def)
  let ?f = "rebuilt_signal c (logged_feature_set_id (cr_events res))"
  have head: "\<forall>e \<in> set [candle, feat, mctx]. ev_type e \<noteq> ProviderOpinion"
    using candle feat mctx by (simp add: bears_def)
  have "signals_from (cr_events res) ([candle, feat, mctx] @ ops @ ([made, outcome] @ pub @ cr_execution_events res))
      = signals_from (cr_events res) ops"
    by (rule trans [OF signals_from_skip(1) [OF head] signals_from_skip(2) [OF tail]])
  then have sigs: "signals_from_events (cr_events res) = Inr (map ?f (cr_signals res))"
    if "map provider_id (cr_signals res) = map prov_id (filter prov_enabled (rt_providers R))" "signals_ok (cr_signals res)"
    using signals_from_told [OF ops that] by (simp only: signals_from_events_def evs [symmetric] append_assoc)
  have found: "find_event (cr_events res) FeatureSetBuilt = Some feat" "find_event (cr_events res) MarketContextDerived = Some mctx"
    using candle feat mctx by (simp_all add: find_event_def evs bears_def)
  have "find_event (cr_events res) DecisionMade = List.find (\<lambda>e. ev_type e = DecisionMade)
      (([candle, feat, mctx] @ ops) @ [made, outcome] @ pub @ cr_execution_events res)"
    by (simp add: find_event_def evs)
  also have "\<dots> = Some made"
    using candle feat mctx op_types made by (subst find_skip) (fastforce simp: bears_def, simp add: bears_def)
  finally have fm: "find_event (cr_events res) DecisionMade = Some made" .
  show thesis
    by (rule that [OF fm found(2,1) _ _ _ sigs]) (use made mctx proc in \<open>auto simp: bears_def evs\<close>)
qed

lemma cycle_reexecuted:
  assumes "rt_emit R" and "market_data (rt_latest R)" and "run_cycle E R a p = (q, Inr res)"
    and "engine_config_valid (rt_engine R)" and "engine_for_revision V rid = rt_engine R"
    and "signals_ok (cr_signals res)" and "cr_signals res \<noteq> []" and "0 < current_price (cr_context res)"
    and "map provider_id (cr_signals res) = map prov_id (filter prov_enabled (rt_providers R))"
    and "load_snapshot db (snapshot_id (cr_snapshot res)) = Inr snap"
    and "snap_portfolio snap = snap_portfolio (cr_snapshot res)" and "snap_risk snap = snap_risk (cr_snapshot res)"
  shows "\<exists>d diff drift k. re_execute_cycle E' V db (cr_events res) rid n = Inr (d, diff, drift, k)
    \<and> log_market_filter (dec_log d) = log_market_filter (dec_log (cr_decision res))
    \<and> log_aggregation (dec_log d) = log_aggregation (dec_log (cr_decision res))
    \<and> dec_result d =
      (if is_approved (cr_decision res) \<or> dr_rejection_reason (dec_result (cr_decision res)) = Some ''min_risk_reward''
       then (if min_risk_reward (ec_risk (rt_engine R)) \<le> 2 then approved
             else rejected (Some ''min_risk_reward'') Stage_risk_manager)
       else dec_result (cr_decision res))"
proof -
  obtain c made mctx feat where
    find: "find_event (cr_events res) DecisionMade = Some made" "find_event (cr_events res) MarketContextDerived = Some mctx"
      "find_event (cr_events res) FeatureSetBuilt = Some feat"
    and made: "ev_payload made = P_decision_made (decision_id (cr_decision res)) (dr_value (dec_result (cr_decision res)))
       (snapshot_id (cr_snapshot res)) (dec_log (cr_decision res))"
    and mctx: "ev_payload mctx = P_context (cr_context res)" and ne: "cr_events res \<noteq> []"
    and sigs: "signals_from_events (cr_events res)
           = Inr (map (rebuilt_signal c (logged_feature_set_id (cr_events res))) (cr_signals res))"
    and proc: "\<exists>m n k. process E (rt_engine R) (cr_signals res) (cr_context res) (cr_snapshot res) m n = Inr (cr_decision res, k)"
    by (rule cycle_finds [OF assms(1-3)]) (rule that, assumption+, use assms(6,9) in blast, assumption)
  let ?f = "rebuilt_signal c (logged_feature_set_id (cr_events res))"
  from proc obtain m0 n0 k0 where
    proc: "process E (rt_engine R) (cr_signals res) (cr_context res) (cr_snapshot res) m0 n0 = Inr (cr_decision res, k0)"
    by blast
  obtain e0 es where e0: "cr_events res = e0 # es" using ne by (cases "cr_events res") auto
  let ?m = "\<lparr>dm_correlation_id = ev_correlation_id e0, dm_event_time = ev_event_time made,
     dm_decision_time = ev_processing_time made, dm_revision_id = revision_or rid (ev_revision_id made),
     dm_experiment_id = ev_experiment_id made\<rparr>"
  from process_total [OF assms(4), of "map ?f (cr_signals res)" E' "cr_context res" snap ?m n] assms(6)
  obtain d k where d: "process E' (rt_engine R) (map ?f (cr_signals res)) (cr_context res) snap ?m n = Inr (d, k)"
    by (auto simp: rebuilt_signals_ok)
  have "re_execute_cycle E' V db (cr_events res) rid n =
    Inr (d, build_decision_diff (ev_correlation_id e0) (original_decision made (ev_correlation_id e0)
           (decision_id (cr_decision res)) (dr_value (dec_result (cr_decision res))) (dec_log (cr_decision res))) d rid,
         detect_feature_drift E' V feat k, Suc k)"
    using find sigs made mctx assms(7,10) d
    by (simp add: re_execute_cycle_def e0 bears_def assms(5))
  with process_votes [OF proc d rebuilt_signal_votes assms(11,12,8)] show ?thesis
    by (intro exI conjI)
qed

text \<open>C15: a re-execution repeats the votes of a cycle. Take the events of a cycle that returned and
  emitted them, in the order they were published, with its snapshot stored and a valid engine
  configuration that is still the same; let the cycle have had a positive price and at least one
  signal, its signals being valid and one from each enabled provider under that provider's own
  identifier. Then the re-execution succeeds, and its market filter and its aggregation (side,
  confidence, weights, dissent) are those of the original decision. The opinions carry no levels, so
  the reward-to-risk ratio of the rebuilt signal is always 2: the result is the original's, except
  that an approval or a rejection for its ratio becomes an approval exactly when the configured
  minimum is at most 2. A cycle without enabled providers is not covered: its re-execution raises.\<close>

theorem reexecution_reproduces_votes:
  assumes "rt_emit R" and "market_data (rt_latest R)" and "run_cycle E R a p = (q, Inr res)"
    and "engine_config_valid (rt_engine R)" and "engine_for_revision V rid = rt_engine R"
    and "signals_ok (cr_signals res)" and "cr_signals res \<noteq> []" and "0 < current_price (cr_context res)"
    and "map provider_id (cr_signals res) = map prov_id (filter prov_enabled (rt_providers R))"
    and "load_snapshot db (snapshot_id (cr_snapshot res)) = Inr snap"
    and "snap_portfolio snap = snap_portfolio (cr_snapshot res)" and "snap_risk snap = snap_risk (cr_snapshot res)"
  shows "\<exists>d diff drift k. re_execute_cycle E' V db (cr_events res) rid n = Inr (d, diff, drift, k)
    \<and> log_market_filter (dec_log d) = log_market_filter (dec_log (cr_decision res))
    \<and> log_aggregation (dec_log d) = log_aggregation (dec_log (cr_decision res))
    \<and> dec_result d =
      (if is_approved (cr_decision res) \<or> dr_rejection_reason (dec_result (cr_decision res)) = Some ''min_risk_reward''
       then (if min_risk_reward (ec_risk (rt_engine R)) \<le> 2 then approved
             else rejected (Some ''min_risk_reward'') Stage_risk_manager)
       else dec_result (cr_decision res))"
  by (rule cycle_reexecuted [OF assms])


subsection \<open>Replaying a cycle from its events\<close>

lemma timeline_total:
  "\<forall>e \<in> set evs. event_summary e = Inr (smry e) \<Longrightarrow> \<exists>tl. timeline_entries evs = Inr tl
     \<and> map tl_event_id tl = map event_id evs \<and> map tl_summary tl = map smry evs"
  by (induction evs) auto

lemma summary_total:
  "ev_type e = DecisionApproved \<longrightarrow> (\<exists>i j fs. ev_payload e = P_approved i j (Some fs)) \<Longrightarrow> \<exists>s. event_summary e = Inr s"
  by (cases "ev_type e") (auto simp: event_summary_def Let_def)

text \<open>On distinct identifiers, the roots are the events without a cause.\<close>

lemma distinct_map_eqD: "distinct (map f xs) \<Longrightarrow> x \<in> set xs \<Longrightarrow> y \<in> set xs \<Longrightarrow> f x = f y \<Longrightarrow> x = y"
  unfolding distinct_map by (drule conjunct2, erule inj_onD)

lemma map_constant: "(\<And>x. x \<in> set xs \<Longrightarrow> f x = k) \<Longrightarrow> map f xs = replicate (length xs) k"
  by (induction xs) auto

lemma causal_edge_iff:
  "g \<in> set (causal_edges e) \<longleftrightarrow> (\<exists>c. ev_causation_id e = Some c \<and> c \<noteq> [] \<and> g = \<lparr>ge_from = c, ge_to = event_id e\<rparr>)"
  by (cases "ev_causation_id e") (simp_all add: causal_edges_def)

lemma causal_roots:
  assumes "distinct (map event_id evs)"
  shows "cg_roots (build_causal_graph evs) =
    map event_id (filter (\<lambda>e. ev_causation_id e = None \<or> ev_causation_id e = Some []) evs)"
proof -
  have target: "list_ex (\<lambda>g. ge_to g = event_id e) (concat (map causal_edges evs)) \<longleftrightarrow>
      \<not> (ev_causation_id e = None \<or> ev_causation_id e = Some [])" if e: "e \<in> set evs" for e
  proof
    assume "list_ex (\<lambda>g. ge_to g = event_id e) (concat (map causal_edges evs))"
    then obtain x g where x: "x \<in> set evs" "g \<in> set (causal_edges x)" "ge_to g = event_id e"
      by (auto simp: list_ex_iff)
    then have "event_id x = event_id e" by (auto simp: causal_edge_iff)
    with distinct_map_eqD [OF assms x(1) e] have "x = e" by simp
    with x(2) show "\<not> (ev_causation_id e = None \<or> ev_causation_id e = Some [])" by (auto simp: causal_edge_iff)
  next
    assume "\<not> (ev_causation_id e = None \<or> ev_causation_id e = Some [])"
    then obtain c where "\<lparr>ge_from = c, ge_to = event_id e\<rparr> \<in> set (causal_edges e)" by (auto simp: causal_edge_iff)
    with e show "list_ex (\<lambda>g. ge_to g = event_id e) (concat (map causal_edges evs))"
      unfolding list_ex_iff by (intro bexI [of _ "\<lparr>ge_from = c, ge_to = event_id e\<rparr>"]) auto
  qed
  have "filter (\<lambda>n. \<not> list_ex (\<lambda>g. ge_to g = gn_id n) (concat (map causal_edges evs))) (map graph_node_of evs)
      = map graph_node_of (filter (\<lambda>e. ev_causation_id e = None \<or> ev_causation_id e = Some []) evs)"
    unfolding filter_map o_def by (rule arg_cong [where f = "map graph_node_of"], rule filter_cong)
      (use target in \<open>simp_all add: graph_node_of_def\<close>)
  then show ?thesis by (simp add: build_causal_graph_def Let_def graph_node_of_def o_def)
qed

text \<open>The timeline of a cycle, its completeness and its roots.\<close>

lemma cycle_timeline:
  assumes "rt_emit R" and "market_data (rt_latest R)" and "run_cycle E R a p = (q, Inr res)"
  obtains tl where "sort_key timeline_key (cr_events res) = cr_events res"
    "timeline_entries (cr_events res) = Inr tl" "map tl_event_id tl = map event_id (cr_events res)"
    "cycle_events_of (cr_events res) (cr_correlation_id res) = cr_events res"
    "\<exists>e \<in> set (cr_events res). ev_type e = CandleReceived" "\<exists>e \<in> set (cr_events res). ev_type e = DecisionMade"
    "(\<exists>e \<in> set (cr_events res). ev_type e = DecisionApproved) \<longleftrightarrow> is_approved (cr_decision res)"
    "(\<exists>e \<in> set (cr_events res). ev_type e = OrderIntentCreated)
       \<longleftrightarrow> (\<exists>e \<in> set (cr_execution_events res). ev_type e = OrderIntentCreated)"
proof -
  obtain c candle feat mctx ops made outcome pub n0 k0 where
    evs: "cr_events res = [candle, feat, mctx] @ ops @ [made, outcome] @ pub @ cr_execution_events res"
    and candle: "bears R c Fam_market CandleReceived (P_candle (cy_bar c)) candle"
    and feat: "bears R c Fam_market FeatureSetBuilt
       (P_features (feature_set_id (cr_feature_set res)) (feature_version (cr_feature_set res))
          (config_hash (cr_feature_set res)) (indicators (cr_feature_set res)) (flags (cr_feature_set res))) feat"
    and mctx: "bears R c Fam_market MarketContextDerived (P_context (cr_context res)) mctx"
    and ops: "map content ops = told (rt_providers R) (cr_signals res)"
      "\<forall>e \<in> set ops. bears R c Fam_signal (ev_type e) (ev_payload e) e"
    and made: "bears R c Fam_decision DecisionMade
        (P_decision_made (decision_id (cr_decision res)) (dr_value (dec_result (cr_decision res)))
           (snapshot_id (cr_snapshot res)) (dec_log (cr_decision res))) made"
    and outcome: "bears R c Fam_decision (fst (outcome_content (cr_snapshot res) (cr_decision res)))
       (snd (outcome_content (cr_snapshot res) (cr_decision res))) outcome"
    and pub: "map content pub = published_content (cr_decision res)"
      "\<forall>e \<in> set pub. bears R c Fam_execution (ev_type e) (ev_payload e) e"
    and proc: "process E (rt_engine R) (cr_signals res) (cr_context res) (cr_snapshot res)
      \<lparr>dm_correlation_id = cy_id c, dm_event_time = cy_event_time c, dm_decision_time = cy_processing_time c,
       dm_revision_id = cy_revision_id c, dm_experiment_id = cy_experiment_id c\<rparr> n0 = Inr (cr_decision res, k0)"
    by (rule cycle_trace [OF assms]) (rule that; assumption)
  have op_types: "ev_type e \<in> {ProviderSkipped, ProviderOpinion}" if "e \<in> set ops" for e
    using told_types [of "rt_providers R" "cr_signals res"] that unfolding ops(1) [symmetric] by force
  have pub_types: "ev_type e = SignalPublished" if "e \<in> set pub" for e
    using published_types [of "cr_decision res"] that unfolding pub(1) [symmetric] by force
  have exec: "engine_made e" if "e \<in> set (cr_execution_events res)" for e
    using cycle_stamped(2) [OF assms(3,2)] that by blast
  obtain t u where st: "\<forall>e \<in> set (cr_events res). stamp (cr_correlation_id res) t u e"
    using cycle_stamped(1) [OF assms(3,2)] by blast
  have out_type: "ev_type outcome = (if is_approved (cr_decision res) then DecisionApproved else DecisionRejected)"
    using outcome by (simp add: bears_def outcome_content_def)
  let ?ord = "\<lambda>e. family_order (ev_family e)"
  have fams: "map ?ord ops = replicate (length ops) 1" "map ?ord pub = replicate (length pub) 3"
    "map ?ord (cr_execution_events res) = replicate (length (cr_execution_events res)) 3"
    using ops(2) pub(2) exec by (auto intro!: map_constant simp: bears_def engine_made_def family_order_def)
  have "map ?ord (cr_events res) = [0, 0, 0] @ replicate (length ops) 1 @ [2, 2]
      @ replicate (length pub) 3 @ replicate (length (cr_execution_events res)) 3"
    unfolding evs map_append fams using candle feat mctx made outcome by (simp add: bears_def family_order_def)
  then have "sorted (map ?ord (cr_events res))" by (auto simp: sorted_append)
  then have "sorted_wrt (\<lambda>x y. ?ord x \<le> ?ord y) (cr_events res)" by (simp add: sorted_wrt_map)
  then have "sorted_wrt (\<lambda>x y. timeline_key x \<le> timeline_key y) (cr_events res)"
    by (rule sorted_wrt_mono_rel [rotated]) (use st in \<open>auto simp: timeline_key_def stamp_def\<close>)
  then have 1: "sort_key timeline_key (cr_events res) = cr_events res"
    by (intro sort_key_id_if_sorted) (simp add: sorted_wrt_map)
  have approved: "\<exists>fs. dec_final_signal (cr_decision res) = Some fs" if "is_approved (cr_decision res)"
    using decided_result [OF proc] that by auto
  have "\<forall>e \<in> set (cr_events res). \<exists>s. event_summary e = Inr s"
  proof (intro ballI summary_total impI)
    fix e assume e: "e \<in> set (cr_events res)" "ev_type e = DecisionApproved"
    then have "e = outcome"
      using candle feat mctx op_types made pub_types exec by (fastforce simp: evs bears_def engine_made_def)
    with e(2) out_type approved outcome show "\<exists>i j fs. ev_payload e = P_approved i j (Some fs)"
      by (auto simp: bears_def outcome_content_def split: if_splits)
  qed
  then obtain smry where "\<forall>e \<in> set (cr_events res). event_summary e = Inr (smry e)" by metis
  from timeline_total [OF this] obtain tl where tl: "timeline_entries (cr_events res) = Inr tl"
    "map tl_event_id tl = map event_id (cr_events res)" by blast
  have "sorted (map (\<lambda>e. (ev_event_time e, ev_processing_time e)) (cr_events res))"
    by (rule sorted_wrt_mono_rel [of _ "\<lambda>_ _. True", unfolded sorted_wrt_map, THEN sorted_wrt_map [THEN iffD2]])
      (use st in \<open>auto simp: stamp_def sorted_wrt_iff_nth_less\<close>)
  then have 2: "cycle_events_of (cr_events res) (cr_correlation_id res) = cr_events res"
    unfolding cycle_events_of_def using st by (subst filter_True) (auto simp: stamp_def sort_key_id_if_sorted)
  show thesis
    by (rule that [OF 1 tl 2])
      (use candle feat mctx op_types made pub_types exec out_type in
        \<open>fastforce simp: evs bears_def engine_made_def split: if_splits\<close>)+
qed


text \<open>A cycle is replayed as it happened. Of the events of a cycle that returned the replay
  keeps all, its timeline lists them in the order they were published, a candle and a
  decision are always found, and the chain is reported complete exactly if the decision was
  not approved or the execution engine made an order intent. On distinct event identifiers
  the roots of the causal graph are exactly the events without a cause.\<close>

theorem cycle_replayed:
  assumes "rt_emit R" and "market_data (rt_latest R)" and "run_cycle E R a p = (q, Inr res)"
  shows "\<exists>r. replay_cycle (cr_events res) (cr_correlation_id res) Strict None None None = Inr r
    \<and> rr_events r = cr_events res \<and> map tl_event_id (rr_timeline r) = map event_id (cr_events res)
    \<and> has_full_chain (cr_events res) (cr_correlation_id res) =
        Inr (is_approved (cr_decision res) \<longrightarrow> (\<exists>e \<in> set (cr_execution_events res). ev_type e = OrderIntentCreated))
    \<and> (distinct (map event_id (cr_events res)) \<longrightarrow> cg_roots (rr_graph r) =
         map event_id (filter (\<lambda>e. ev_causation_id e = None \<or> ev_causation_id e = Some []) (cr_events res)))"
proof -
  obtain tl where 1: "sort_key timeline_key (cr_events res) = cr_events res"
    "timeline_entries (cr_events res) = Inr tl" "map tl_event_id tl = map event_id (cr_events res)"
    "cycle_events_of (cr_events res) (cr_correlation_id res) = cr_events res"
    and t: "\<exists>e \<in> set (cr_events res). ev_type e = CandleReceived" "\<exists>e \<in> set (cr_events res). ev_type e = DecisionMade"
      "(\<exists>e \<in> set (cr_events res). ev_type e = DecisionApproved) \<longleftrightarrow> is_approved (cr_decision res)"
      "(\<exists>e \<in> set (cr_events res). ev_type e = OrderIntentCreated)
         \<longleftrightarrow> (\<exists>e \<in> set (cr_execution_events res). ev_type e = OrderIntentCreated)"
    by (rule cycle_timeline [OF assms]) (rule that; assumption)
  have img: "x \<in> ev_type ` set (cr_events res) \<longleftrightarrow> (\<exists>e \<in> set (cr_events res). ev_type e = x)" for x by auto
  have 2: "CandleReceived \<in> ev_type ` set (cr_events res)" "DecisionMade \<in> ev_type ` set (cr_events res)"
      "list_ex (\<lambda>e. ev_type e = DecisionApproved) (cr_events res) \<longleftrightarrow> is_approved (cr_decision res)"
      "OrderIntentCreated \<in> ev_type ` set (cr_events res)
         \<longleftrightarrow> (\<exists>e \<in> set (cr_execution_events res). ev_type e = OrderIntentCreated)"
    unfolding img list_ex_iff by (rule t)+
  let ?r = "\<lparr>rr_correlation_id = cr_correlation_id res, rr_events = cr_events res, rr_timeline = tl,
     rr_families = ev_family ` set (cr_events res), rr_mode = Strict, rr_decision_diff = None,
     rr_feature_drift = None, rr_graph = build_causal_graph (cr_events res)\<rparr>"
  have r: "replay_cycle (cr_events res) (cr_correlation_id res) Strict None None None = Inr ?r"
    using 1 by (simp add: replay_cycle_def build_timeline_def Let_def)
  moreover have "has_full_chain (cr_events res) (cr_correlation_id res) =
        Inr (is_approved (cr_decision res) \<longrightarrow> (\<exists>e \<in> set (cr_execution_events res). ev_type e = OrderIntentCreated))"
    by (simp add: has_full_chain_def r Let_def 2 del: bex_simps)
  moreover have "distinct (map event_id (cr_events res)) \<longrightarrow> cg_roots (rr_graph ?r) =
         map event_id (filter (\<lambda>e. ev_causation_id e = None \<or> ev_causation_id e = Some []) (cr_events res))"
    using causal_roots by simp
  ultimately show ?thesis using 1(3) by (intro exI [of _ ?r]) simp
qed

theorem cycle_replayed_witness:
  "\<exists>q res r. run_cycle unary_env logged_runtime demo_cycle_args logged_platform = (q, Inr res)
     \<and> replay_cycle (cr_events res) (cr_correlation_id res) Strict None None None = Inr r
     \<and> map ev_type (rr_events r) = [CandleReceived, FeatureSetBuilt, MarketContextDerived, DecisionMade, DecisionRejected]
     \<and> length (rr_timeline r) = 5"
proof -
  obtain q res where r: "run_cycle unary_env logged_runtime demo_cycle_args logged_platform = (q, Inr res)"
    "map ev_type (cr_events res) = [CandleReceived, FeatureSetBuilt, MarketContextDerived, DecisionMade, DecisionRejected]"
    using logged_cycle by (elim exE conjE) (rule that)
  have on: "rt_emit logged_runtime" by (simp add: logged_runtime_def)
  from cycle_replayed [OF on logged_market_data r(1)] obtain x where
    x: "replay_cycle (cr_events res) (cr_correlation_id res) Strict None None None = Inr x"
    "rr_events x = cr_events res" "map tl_event_id (rr_timeline x) = map event_id (cr_events res)" by blast
  have "length (cr_events res) = 5" using arg_cong [OF r(2), of length] by simp
  with map_eq_imp_length_eq [OF x(3)] r x show ?thesis
    by - (rule exI [of _ q], rule exI [of _ res], rule exI [of _ x], simp)
qed


subsection \<open>What is missing to re-execute a live cycle\<close>

lemma persist_all_snapshots: "persist_all E e (db, n) = Inr (db', n') \<Longrightarrow> db_snapshots db' = db_snapshots db"
  by (auto simp: persist_all_def commit_def persist_event_def persist_feature_set_from_event_def
      persist_decision_from_event_def persist_execution_event_def persist_order_def persist_fill_def
      split: if_splits payload.splits option.splits prod.splits)

lemma publish_keeps_snapshots:
  "publish_many memory_publish es (\<lparr>bus_handlers = [database_handler E], bus_published = ps\<rparr>, w) = ((b, w'), Inr ())
   \<Longrightarrow> db_snapshots (dw_db w') = db_snapshots (dw_db w)"
proof (induction es arbitrary: ps w)
  case (Cons e es)
  then obtain db n where
    p: "persist_all E e (dw_db w, dw_tick w) = Inr (db, n)" and
    rest: "publish_many memory_publish es (\<lparr>bus_handlers = [database_handler E], bus_published = ps @ [e]\<rparr>,
       w\<lparr>dw_buffer := dw_buffer w @ [e], dw_db := db, dw_tick := n\<rparr>) = ((b, w'), Inr ())"
    by (auto simp: publish_one split: sum.splits prod.splits)
  from Cons.IH [OF rest] persist_all_snapshots [OF p] show ?case by simp
qed simp

text \<open>A cycle recorded by the database handler cannot be re-executed. The handler writes no
  snapshot, so after a live cycle, with a new identifier and a new snapshot, reading its
  events back and re-executing them always fails for want of the snapshot, whatever the
  configuration; said for a database that gives rows of one time in the order of insertion.\<close>

theorem live_cycle_not_reexecutable:
  assumes "rt_emit R" and "market_data (rt_latest R)" and "rt_publish R = memory_publish"
    and "pl_bus p = (\<lparr>bus_handlers = [database_handler E], bus_published = ps\<rparr>, w)"
    and "run_cycle E R a p = (q, Inr res)"
    and "\<forall>r \<in> set (db_events (dw_db w)). row_correlation_id r \<noteq> cr_correlation_id res"
    and "\<forall>r \<in> set (db_snapshots (dw_db w)). srow_snapshot_id r \<noteq> snapshot_id (cr_snapshot res)"
    and "db_order (dw_db w) = sort_key row_event_time"
  shows "re_execute_cycle E' V (dw_db (snd (pl_bus q)))
      (replay_from_db (dw_db (snd (pl_bus q))) (cr_correlation_id res)) rid n =
    Inl (ReExecuteError (''State snapshot not found: '' @ snapshot_id (cr_snapshot res)))"
proof -
  obtain b w' where q: "pl_bus q = (b, w')" by fastforce
  from cycle_publishes [OF assms(5,2)] assms(3,4) q have
    publish: "publish_many memory_publish (cr_events res) (\<lparr>bus_handlers = [database_handler E], bus_published = ps\<rparr>, w)
      = ((b, w'), Inr ())" by simp
  have "load_snapshot (dw_db w') (snapshot_id (cr_snapshot res))
      = Inl (ReExecuteError (''State snapshot not found: '' @ snapshot_id (cr_snapshot res)))"
    using assms(7) by (simp add: load_snapshot_def publish_keeps_snapshots [OF publish] find_None_iff split: option.split)
  moreover have "replay_from_db (dw_db w') (cr_correlation_id res) = cr_events res"
    using cycle_recovered [OF assms(2-6,8)] by (simp add: replay_from_db_def q)
  moreover obtain made mctx feat :: event where
    "find_event (cr_events res) DecisionMade = Some made" "find_event (cr_events res) MarketContextDerived = Some mctx"
    "find_event (cr_events res) FeatureSetBuilt = Some feat"
    "ev_payload made = P_decision_made (decision_id (cr_decision res)) (dr_value (dec_result (cr_decision res)))
       (snapshot_id (cr_snapshot res)) (dec_log (cr_decision res))" "cr_events res \<noteq> []"
    by (rule cycle_finds [OF assms(1,2,5)]) (rule that; assumption)
  moreover from this obtain e0 es where "cr_events res = e0 # es" by (cases "cr_events res") auto
  ultimately show ?thesis by (simp add: re_execute_cycle_def q)
qed


theorem live_cycle_not_reexecutable_witness:
  "\<exists>q res. run_cycle unary_env logged_runtime demo_cycle_args logged_platform = (q, Inr res)
     \<and> (\<forall>V. re_execute_cycle unary_env V (dw_db (snd (pl_bus q)))
          (replay_from_db (dw_db (snd (pl_bus q))) (cr_correlation_id res)) None 0 =
        Inl (ReExecuteError (''State snapshot not found: '' @ snapshot_id (cr_snapshot res))))"
proof -
  obtain q res where r: "run_cycle unary_env logged_runtime demo_cycle_args logged_platform = (q, Inr res)"
    using logged_cycle by (elim exE conjE) (rule that)
  have pub: "rt_emit logged_runtime" "rt_publish logged_runtime = memory_publish" by (simp_all add: logged_runtime_def)
  have bus: "pl_bus logged_platform = (\<lparr>bus_handlers = [database_handler unary_env], bus_published = []\<rparr>,
      \<lparr>dw_buffer = [], dw_db = empty_database, dw_tick = 99\<rparr>)"
    by (simp add: logged_platform_def new_platform_def new_bus_def)
  have "re_execute_cycle unary_env V (dw_db (snd (pl_bus q)))
          (replay_from_db (dw_db (snd (pl_bus q))) (cr_correlation_id res)) None 0 =
        Inl (ReExecuteError (''State snapshot not found: '' @ snapshot_id (cr_snapshot res)))" for V
    by (rule live_cycle_not_reexecutable [OF pub(1) logged_market_data pub(2) bus r]) (simp_all add: empty_database_def)
  with r show ?thesis by - (rule exI [of _ q], rule exI [of _ res], rule conjI, simp_all)
qed


subsection \<open>A concrete re-execution\<close>

text \<open>The runtime of the earlier examples with one provider, which always buys, a configuration
  that has not changed, and the snapshot of the cycle in the table.\<close>

definition voting_provider :: provider where
  "voting_provider = \<lparr>prov_id = ''p1'', prov_enabled = True, prov_analyze = (\<lambda>fs ctx. Inr (demo_signal ''p1'' BUY 0.8 1))\<rparr>"

definition voting_runtime :: "(unit, unit) runtime" where
  "voting_runtime = demo_runtime\<lparr>rt_providers := [voting_provider]\<rparr>"

definition unchanged_env :: replay_env where
  "unchanged_env = \<lparr>re_engine = demo_engine_config, re_features = \<lparr>fc_version = ''v2'', fc_indicators = [], fc_flags = [],
     fc_context = fc_context demo_features\<rparr>, re_features_hash = ''h'', re_current_hash = ''h'', re_revisions = [],
     re_file = None, re_compute = (\<lambda>d df. Inr 1)\<rparr>"

definition snapshot_table :: "state_snapshot \<Rightarrow> database" where
  "snapshot_table snap = empty_database\<lparr>db_snapshots := [\<lparr>srow_snapshot_id = snapshot_id snap, srow_correlation_id = None,
     srow_portfolio = snap_portfolio snap, srow_risk = snap_risk snap, srow_version = snap_version snap,
     srow_created_at = snap_created_at snap\<rparr>]\<rparr>"

lemma voting_market_data: "market_data (rt_latest voting_runtime)"
  using demo_market_data by (simp add: voting_runtime_def)

lemma voting_cycle:
  obtains q res where "run_cycle unary_env voting_runtime demo_cycle_args demo_platform = (q, Inr res)"
    "cr_signals res = [demo_signal ''p1'' BUY 0.8 1]" "0 < current_price (cr_context res)"
proof -
  have "cooperative unary_env voting_runtime"
    using demo_cooperative
    by (simp add: cooperative_def voting_runtime_def voting_provider_def signals_ok_def demo_signal_def
        strategy_signal_valid_def provider_weight_def dict_get_or_def)
  moreover have "init_store unary_env (rt_portfolio_id voting_runtime) Paper_mode 10000 None 0
      = (fst (init_store unary_env ''p'' Paper_mode 10000 None 0), 1)"
    using demo_init by (simp add: voting_runtime_def)
  then have "sound unary_env voting_runtime demo_platform"
    unfolding demo_platform_def by (rule new_platform_sound) (simp add: default_limits_def)
  ultimately obtain q res where r: "run_cycle unary_env voting_runtime demo_cycle_args demo_platform = (q, Inr res)"
    using cycle_total unary_env_distinct voting_market_data by blast
  obtain df upto n k t st fst' n' where in':
    "rt_latest voting_runtime (ca_symbol demo_cycle_args) (ca_timeframe demo_cycle_args) upto n = Inr (df, k)"
    "build_features unary_env (rt_compute voting_runtime) (rt_features voting_runtime) (rt_hash voting_runtime) df
       (ca_symbol demo_cycle_args) (ca_timeframe demo_cycle_args) t (rt_persist voting_runtime) st
       = Inr (cr_feature_set res, cr_context res, fst', n')"
    "list_all2 (\<lambda>pv sig. prov_analyze pv (cr_feature_set res) (cr_context res) = Inr sig)
       (filter prov_enabled (rt_providers voting_runtime)) (cr_signals res)"
    by (rule cycle_inputs [OF r]) (rule that; assumption)
  from in'(1) have df: "df = [(min upto 1000, demo_candle)]" by (simp add: voting_runtime_def demo_runtime_def demo_latest_def)
  from in'(2) have "current_price (cr_context res) = bar_close demo_candle"
    by (cases st) (auto simp: build_features_def df normalize_ohlcv_def sort_frame_def derive_context_def Let_def
        and_then_Inr_iff dest!: arg_cong [where f = current_price])
  moreover from in'(3) have "cr_signals res = [demo_signal ''p1'' BUY 0.8 1]"
    by (simp add: voting_runtime_def voting_provider_def list_all2_Cons1)
  moreover have "0 < bar_close demo_candle" by (simp add: demo_candle_def)
  ultimately show thesis using r that by metis
qed

lemma voting_facts:
  "rt_emit voting_runtime" "engine_config_valid (rt_engine voting_runtime)"
  "engine_for_revision unchanged_env None = rt_engine voting_runtime"
  "signals_ok [demo_signal ''p1'' BUY 0.8 1]"
  "map provider_id [demo_signal ''p1'' BUY 0.8 1] = map prov_id (filter prov_enabled (rt_providers voting_runtime))"
  by (simp_all add: voting_runtime_def demo_runtime_def engine_for_revision_def unchanged_env_def signals_ok_def
      demo_signal_def strategy_signal_valid_def provider_weight_def dict_get_or_def voting_provider_def)

lemma stored_snapshot:
  "\<exists>snap. load_snapshot (snapshot_table s) (snapshot_id s) = Inr snap
     \<and> snap_portfolio snap = snap_portfolio s \<and> snap_risk snap = snap_risk s"
  by (simp add: load_snapshot_def snapshot_table_def)

theorem reexecution_reproduces_votes_witness:
  "\<exists>q res d diff drift k. run_cycle unary_env voting_runtime demo_cycle_args demo_platform = (q, Inr res)
     \<and> re_execute_cycle unary_env unchanged_env (snapshot_table (cr_snapshot res)) (cr_events res) None 0 = Inr (d, diff, drift, k)
     \<and> log_aggregation (dec_log d) = log_aggregation (dec_log (cr_decision res))"
proof -
  obtain q res where r: "run_cycle unary_env voting_runtime demo_cycle_args demo_platform = (q, Inr res)"
    "cr_signals res = [demo_signal ''p1'' BUY 0.8 1]" "0 < current_price (cr_context res)" by (rule voting_cycle)
  obtain snap where s: "load_snapshot (snapshot_table (cr_snapshot res)) (snapshot_id (cr_snapshot res)) = Inr snap"
    "snap_portfolio snap = snap_portfolio (cr_snapshot res)" "snap_risk snap = snap_risk (cr_snapshot res)"
    using stored_snapshot by blast
  obtain d diff drift k where "re_execute_cycle unary_env unchanged_env (snapshot_table (cr_snapshot res)) (cr_events res) None 0
      = Inr (d, diff, drift, k)" "log_aggregation (dec_log d) = log_aggregation (dec_log (cr_decision res))"
    using reexecution_reproduces_votes [OF voting_facts(1) voting_market_data r(1) voting_facts(2,3) _ _ r(3) _ s] r(2)
      voting_facts(4,5) by fastforce
  with r(1) show ?thesis
    by - (rule exI [of _ q], rule exI [of _ res], rule exI [of _ d], rule exI [of _ diff], rule exI [of _ drift],
        rule exI [of _ k], intro conjI)
qed

theorem reexecution_always_changed_witness:
  "\<exists>q res d diff drift k. run_cycle unary_env voting_runtime demo_cycle_args demo_platform = (q, Inr res)
     \<and> re_execute_cycle unary_env unchanged_env (snapshot_table (cr_snapshot res)) (cr_events res) None 0 = Inr (d, diff, drift, k)
     \<and> di_changed diff"
proof -
  obtain q res where r: "run_cycle unary_env voting_runtime demo_cycle_args demo_platform = (q, Inr res)"
    "cr_signals res = [demo_signal ''p1'' BUY 0.8 1]" "0 < current_price (cr_context res)" by (rule voting_cycle)
  obtain snap where s: "load_snapshot (snapshot_table (cr_snapshot res)) (snapshot_id (cr_snapshot res)) = Inr snap"
    "snap_portfolio snap = snap_portfolio (cr_snapshot res)" "snap_risk snap = snap_risk (cr_snapshot res)"
    using stored_snapshot by blast
  obtain d diff drift k where x: "re_execute_cycle unary_env unchanged_env (snapshot_table (cr_snapshot res)) (cr_events res) None 0
      = Inr (d, diff, drift, k)"
    using cycle_reexecuted [OF voting_facts(1) voting_market_data r(1) voting_facts(2,3) _ _ r(3) _ s] r(2)
      voting_facts(4,5) by fastforce
  from reexecution_always_changed [OF x] r(1) x show ?thesis
    by - (rule exI [of _ q], rule exI [of _ res], rule exI [of _ d], rule exI [of _ diff], rule exI [of _ drift],
        rule exI [of _ k], intro conjI, assumption, assumption, elim conjE)
qed

end
