(* ===== verification/Calendar.thy ===== *)
theory Calendar
  imports Prelude
begin

text \<open>
  What the code uses of Python's \<^verbatim>\<open>datetime\<close> and of the decimal rendering of an integer: the
  calendar date of a day and the ISO form of a moment in UTC.
\<close>

subsection \<open>Decimal digits\<close>

definition digit :: "nat \<Rightarrow> char" where
  "digit n = char_of (48 + n mod 10)"

fun show_nat :: "nat \<Rightarrow> string" where
  "show_nat n = (if n < 10 then [digit n] else show_nat (n div 10) @ [digit n])"

declare show_nat.simps [simp del]

definition read_digits :: "string \<Rightarrow> nat" where
  "read_digits s = foldl (\<lambda>k c. 10 * k + (of_char c - 48)) 0 s"

lemma of_digit: "of_char (digit n) - 48 = n mod 10"
  by (simp add: digit_def of_char_of)

lemma read_show [simp]: "read_digits (show_nat n) = n"
proof (induction n rule: show_nat.induct)
  case (1 n)
  show ?case
  proof (cases "n < 10")
    case True
    then show ?thesis by (simp add: show_nat.simps [of n] read_digits_def of_digit)
  next
    case False
    with 1 have "read_digits (show_nat (n div 10)) = n div 10" by simp
    with False show ?thesis by (simp add: show_nat.simps [of n] read_digits_def of_digit)
  qed
qed

lemma show_nat_inject [simp]: "show_nat m = show_nat n \<longleftrightarrow> m = n"
  by (metis read_show)

lemma digit_char: "of_char (digit n) \<in> {48 ..< 58 :: nat}"
  by (simp add: digit_def of_char_of)

lemma show_nat_digits: "c \<in> set (show_nat n) \<Longrightarrow> of_char c \<in> {48 ..< 58 :: nat}"
proof (induction n rule: show_nat.induct)
  case (1 n)
  from "1.prems" have "c = digit n \<or> (\<not> n < 10 \<and> c \<in> set (show_nat (n div 10)))"
    by (subst (asm) show_nat.simps) (auto split: if_splits)
  with "1.IH" digit_char show ?case by blast
qed

definition pad :: "nat \<Rightarrow> nat \<Rightarrow> string" where
  "pad w n = (let s = show_nat n in replicate (w - length s) (CHR ''0'') @ s)"


subsection \<open>Dates\<close>

text \<open>The proleptic Gregorian calendar: years are counted from March, in eras of four
  centuries of 146097 days.\<close>

definition civil_of_day :: "int \<Rightarrow> int \<times> int \<times> int" where
  "civil_of_day d =
     (let z = d + 719468; era = z div 146097; doe = z mod 146097;
          yoe = (doe - doe div 1460 + doe div 36524 - doe div 146096) div 365;
          doy = doe - (365 * yoe + yoe div 4 - yoe div 100); mp = (5 * doy + 2) div 153;
          m = (if mp < 10 then mp + 3 else mp - 9); y = yoe + era * 400
      in (if m \<le> 2 then y + 1 else y, m, doy - (153 * mp + 2) div 5 + 1))"

definition month_of_day :: "int \<Rightarrow> int \<times> int" where
  "month_of_day d = (case civil_of_day d of (y, m, _) \<Rightarrow> (y, m))"

lemma civil_examples:
  "civil_of_day 0 = (1970, 1, 1)" "civil_of_day 19782 = (2024, 2, 29)" "civil_of_day 19783 = (2024, 3, 1)"
  "civil_of_day (- 1) = (1969, 12, 31)" "civil_of_day 11016 = (2000, 2, 29)"
  by code_simp+

definition iso_date :: "int \<Rightarrow> string" where
  "iso_date d = (case civil_of_day d of (y, m, k) \<Rightarrow> pad 4 (nat y) @ ''-'' @ pad 2 (nat m) @ ''-'' @ pad 2 (nat k))"

definition iso_format :: "datetime \<Rightarrow> string" where
  "iso_format t =
     (let us = t mod 86400000000; secs = us div 1000000; frac = us mod 1000000
      in iso_date (date_of t) @ ''T'' @ pad 2 (nat (secs div 3600)) @ '':'' @ pad 2 (nat (secs div 60 mod 60)) @ '':''
         @ pad 2 (nat (secs mod 60)) @ (if frac = 0 then [] else ''.'' @ pad 6 (nat frac)) @ ''+00:00'')"

end
