(* ===== verification/Metrics.thy ===== *)
theory Metrics
  imports Replay Calendar
begin

text \<open>
  \<^verbatim>\<open>backend/src/validation/metrics.py\<close>: the figures of a validation run, computed from its
  events. Buckets of trades, equity curves (realised and marked to market), drawdowns,
  returns and ratios, the breakdowns by month, exit, session, side and regime, the scores,
  and the figures of the engine, kept incrementally. A day is its number since the epoch, a
  month the pair of year and month.
\<close>


subsection \<open>Buckets and ratios\<close>

definition clamp_to :: "real \<Rightarrow> real \<Rightarrow> real \<Rightarrow> real" where
  "clamp_to v low high = max low (min high v)"

definition derive_session_utc :: "datetime \<Rightarrow> session" where
  "derive_session_utc t =
     (let hour = hour_of t
      in if 12 \<le> hour \<and> hour < 16 then OVERLAP
         else if 7 \<le> hour \<and> hour < 12 then EUROPE
         else if 16 \<le> hour \<and> hour < 21 then US
         else ASIA)"

record bucket =
  bk_trades :: nat
  bk_wins :: nat
  bk_losses :: nat
  bk_win_rate :: real
  bk_pnl :: real
  bk_gross_profit :: real
  bk_gross_loss :: real

definition won :: "real list \<Rightarrow> real list" where
  "won pnls = filter (\<lambda>p. p > 0) pnls"

definition lost :: "real list \<Rightarrow> real list" where
  "lost pnls = filter (\<lambda>p. p \<le> 0) pnls"

definition win_rate_of :: "real list \<Rightarrow> real" where
  "win_rate_of pnls = (if pnls \<noteq> [] then of_nat (length (won pnls)) / of_nat (length pnls) else 0)"

definition bucket_stats :: "real list \<Rightarrow> bucket" where
  "bucket_stats pnls =
     \<lparr>bk_trades = length pnls, bk_wins = length (won pnls), bk_losses = length (lost pnls),
      bk_win_rate = win_rate_of pnls, bk_pnl = sum_list pnls, bk_gross_profit = sum_list (won pnls),
      bk_gross_loss = \<bar>sum_list (lost pnls)\<bar>\<rparr>"

definition average :: "real list \<Rightarrow> real" where
  "average xs = sum_list xs / of_nat (length xs)"

definition annualized_sharpe :: "real list \<Rightarrow> real" where
  "annualized_sharpe rs =
     (if length rs < 2 then 0
      else (let mean = average rs;
                var = sum_list (map (\<lambda>r. (r - mean)\<^sup>2) rs) / of_nat (length rs - 1);
                std = sqrt var
            in if std \<le> 0 then 0 else mean / std * sqrt 252))"

definition annualized_sortino :: "real list \<Rightarrow> real" where
  "annualized_sortino rs =
     (if length rs < 2 then 0
      else (let mean = average rs;
                downside_var = sum_list (map (\<lambda>r. (min 0 r)\<^sup>2) rs) / of_nat (length rs);
                std = sqrt downside_var
            in if std \<le> 0 then 0 else mean / std * sqrt 252))"


subsection \<open>Closed trades\<close>

definition of_type :: "event_type \<Rightarrow> event list \<Rightarrow> event list" where
  "of_type t evs = filter (\<lambda>e. ev_type e = t) evs"

definition payload_pnl :: "payload \<Rightarrow> real" where
  "payload_pnl pl = (case pl of P_closed ci \<Rightarrow> ci_pnl ci | _ \<Rightarrow> 0)"

definition event_pnl :: "event \<Rightarrow> real" where
  "event_pnl e = payload_pnl (ev_payload e)"

text \<open>A \<^verbatim>\<open>defaultdict(list)\<close>.\<close>

definition bucket_add :: "('k, real list) dict \<Rightarrow> 'k \<Rightarrow> real \<Rightarrow> ('k, real list) dict" where
  "bucket_add d k p = dict_set d k (dict_get_or d k [] @ [p])"

definition bucket_pnls :: "(event \<Rightarrow> 'k) \<Rightarrow> event list \<Rightarrow> ('k, real list) dict" where
  "bucket_pnls key evs = fold (\<lambda>e d. bucket_add d (key e) (event_pnl e)) evs []"

definition bucket_table :: "('k, real list) dict \<Rightarrow> ('k, bucket) dict" where
  "bucket_table d = map (\<lambda>(k, ps). (k, bucket_stats ps)) d"

text \<open>The relative change of an equity, if it has one.\<close>

definition change :: "real \<Rightarrow> real \<Rightarrow> real list" where
  "change prev eq = (if prev \<noteq> 0 then [(eq - prev) / \<bar>prev\<bar>] else if eq \<noteq> 0 then [1] else [])"

fun daily_changes :: "real \<Rightarrow> real list \<Rightarrow> real list" where
  "daily_changes eq [] = []"
| "daily_changes eq (p # ps) = change eq (eq + p) @ daily_changes (eq + p) ps"

definition compute_daily_equity_returns :: "event list \<Rightarrow> real \<Rightarrow> real list \<times> int list" where
  "compute_daily_equity_returns evs cap =
     (let closed = sort_key ev_event_time (of_type PositionClosed evs)
      in if closed = [] then ([], [])
         else (let by_day = fold (\<lambda>e d. dict_set d (date_of (ev_event_time e))
                     (dict_get_or d (date_of (ev_event_time e)) 0 + event_pnl e)) closed [];
                   days = sort (dict_keys by_day)
               in (daily_changes cap (map (\<lambda>k. dict_get_or by_day k 0) days), days)))"


subsection \<open>Marking to market\<close>

record ledger =
  lg_realised :: real
  lg_open :: "(string, real \<times> int \<times> real) dict"
  lg_last_close :: real

definition empty_ledger :: ledger where
  "empty_ledger = \<lparr>lg_realised = 0, lg_open = [], lg_last_close = 0\<rparr>"

definition ledger_step :: "event \<Rightarrow> ledger \<Rightarrow> ledger" where
  "ledger_step e L =
     (case ev_type e of
        CandleReceived \<Rightarrow> (case ev_payload e of P_candle b \<Rightarrow> L\<lparr>lg_last_close := bar_close b\<rparr> | _ \<Rightarrow> L)
      | PositionOpened \<Rightarrow>
          (case ev_payload e of
             P_opened i _ p \<Rightarrow>
               L\<lparr>lg_open := dict_set (lg_open L) (if i \<noteq> [] then i else position_id p)
                  (pos_quantity p, if pos_side p = LONG then 1 else - 1, pos_entry_price p)\<rparr>
           | _ \<Rightarrow> L\<lparr>lg_open := dict_set (lg_open L) [] (0, - 1, lg_last_close L)\<rparr>)
      | PositionClosed \<Rightarrow>
          L\<lparr>lg_realised := lg_realised L + event_pnl e,
            lg_open := dict_pop (lg_open L) (case ev_payload e of P_closed ci \<Rightarrow> ci_position_id ci | _ \<Rightarrow> [])\<rparr>
      | _ \<Rightarrow> L)"

definition unrealised :: "ledger \<Rightarrow> real" where
  "unrealised L = sum_list (map (\<lambda>(k, (q, s, entry)). of_int s * q * (lg_last_close L - entry)) (lg_open L))"

definition ledger_equity :: "real \<Rightarrow> ledger \<Rightarrow> real" where
  "ledger_equity cap L = cap + lg_realised L + unrealised L"

definition ledger_events :: "event list \<Rightarrow> event list" where
  "ledger_events evs =
     sort_key ev_event_time (filter (\<lambda>e. ev_type e \<in> {CandleReceived, PositionOpened, PositionClosed}) evs)"

text \<open>The walk notes, for every day, the last equity and the last close of it.\<close>

definition ledger_walk :: "real \<Rightarrow> event list \<Rightarrow> ledger \<times> (int, real \<times> real) dict \<Rightarrow> ledger \<times> (int, real \<times> real) dict" where
  "ledger_walk cap evs = fold (\<lambda>e (L, d). let L' = ledger_step e L
     in (L', dict_set d (date_of (ev_event_time e)) (ledger_equity cap L', lg_last_close L'))) evs"

definition days_walked :: "real \<Rightarrow> event list \<Rightarrow> (int \<times> real \<times> real) list" where
  "days_walked cap evs =
     (let d = snd (ledger_walk cap evs (empty_ledger, []))
      in map (\<lambda>k. (k, the (dict_get d k))) (sort (dict_keys d)))"

fun positive_changes :: "real list \<Rightarrow> real list" where
  "positive_changes (a # b # xs) = (if a > 0 then [(b - a) / a] else []) @ positive_changes (b # xs)"
| "positive_changes _ = []"

definition compute_mark_to_market_series :: "event list \<Rightarrow> real \<Rightarrow> real list \<times> real list" where
  "compute_mark_to_market_series evs cap =
     (let relevant = ledger_events evs
      in if \<not> list_ex (\<lambda>e. ev_type e = CandleReceived) relevant then ([], [])
         else (let curve = cap # map (\<lambda>(k, eq, c). eq) (days_walked cap relevant)
               in (curve, positive_changes curve)))"


subsection \<open>Drawdowns\<close>

fun pct_drawdown_loop :: "real \<Rightarrow> real \<Rightarrow> real list \<Rightarrow> real" where
  "pct_drawdown_loop peak worst [] = worst"
| "pct_drawdown_loop peak worst (v # vs) =
     (let pk = max peak v
      in pct_drawdown_loop pk (if pk > 0 then max worst ((pk - v) / pk * 100) else worst) vs)"

definition max_drawdown_pct :: "real list \<Rightarrow> real" where
  "max_drawdown_pct curve = (case curve of [] \<Rightarrow> 0 | v # _ \<Rightarrow> pct_drawdown_loop v 0 curve)"

fun drawdown_loop :: "real \<Rightarrow> real \<times> real \<Rightarrow> real list \<Rightarrow> real \<times> real" where
  "drawdown_loop peak w [] = w"
| "drawdown_loop peak (dd_abs, dd_pct) (v # vs) =
     (let pk = max peak v; dd = pk - v
      in drawdown_loop pk (max dd_abs dd, if pk > 0 then max dd_pct (dd / pk * 100) else dd_pct) vs)"


subsection \<open>The timeline against buy and hold\<close>

record timeline_point =
  tp_day :: int
  tp_strategy :: real
  tp_benchmark :: real

record equity_timeline =
  et_points :: "timeline_point list"
  et_return_pct :: real
  et_max_drawdown_pct :: real
  et_sharpe :: real

text \<open>\<^verbatim>\<open>full[::stride]\<close>.\<close>

definition every :: "nat \<Rightarrow> 'a list \<Rightarrow> 'a list" where
  "every n xs = map snd (filter (\<lambda>(i, x). i mod n = 0) (enumerate 0 xs))"

definition thin_points :: "nat \<Rightarrow> timeline_point list \<Rightarrow> timeline_point list" where
  "thin_points max_points full =
     (let points = every (length full div max_points + 1) full
      in if tp_day (last points) \<noteq> tp_day (last full) then points @ [last full] else points)"

text \<open>None stands for the empty dictionary.\<close>

definition compute_equity_timeline :: "event list \<Rightarrow> real \<Rightarrow> nat \<Rightarrow> equity_timeline option result" where
  "compute_equity_timeline evs cap max_points =
     (let relevant = ledger_events evs
      in if \<not> list_ex (\<lambda>e. ev_type e = CandleReceived) relevant then Inr None
         else (let days = days_walked cap relevant;
                   first_close = (case List.find (\<lambda>(k, eq, c). c > 0) days of None \<Rightarrow> 0 | Some (k, eq, c) \<Rightarrow> c)
               in if first_close \<le> 0 then Inr None
                  else (let full = map (\<lambda>(k, eq, c). \<lparr>tp_day = k, tp_strategy = py_round 2 eq,
                              tp_benchmark = py_round 2 (cap * c / first_close)\<rparr>) days;
                            bench = map tp_benchmark full; returns = positive_changes bench
                        in if length full > max_points \<and> max_points = 0 then Inl ZeroDivisionError
                           else if cap = 0 then Inl ZeroDivisionError
                           else Inr (Some \<lparr>et_points = (if length full > max_points then thin_points max_points full else full),
                              et_return_pct = (last bench - cap) / cap * 100,
                              et_max_drawdown_pct = max_drawdown_pct bench,
                              et_sharpe = (if returns \<noteq> [] then annualized_sharpe returns else 0)\<rparr>))))"


subsection \<open>Months\<close>

record month_row =
  mo_month :: "int \<times> int"
  mo_trades :: nat
  mo_win_rate :: real
  mo_pnl :: real
  mo_return_pct :: real
  mo_max_drawdown_pct :: real
  mo_start_equity :: real
  mo_end_equity :: real

fun equity_curve_from :: "real \<Rightarrow> real list \<Rightarrow> real list" where
  "equity_curve_from eq [] = [eq]"
| "equity_curve_from eq (p # ps) = eq # equity_curve_from (eq + p) ps"

definition month_row_of :: "int \<times> int \<Rightarrow> real \<Rightarrow> real list \<Rightarrow> month_row" where
  "month_row_of mo start pnls =
     (let curve = equity_curve_from start pnls; eq = last curve
      in \<lparr>mo_month = mo, mo_trades = length pnls, mo_win_rate = win_rate_of pnls, mo_pnl = sum_list pnls,
          mo_return_pct = (if start > 0 then (eq - start) / start * 100 else 0),
          mo_max_drawdown_pct = pct_drawdown_loop start 0 curve,
          mo_start_equity = start, mo_end_equity = eq\<rparr>)"

fun month_rows :: "(int \<times> int \<Rightarrow> real list) \<Rightarrow> (int \<times> int) list \<Rightarrow> real \<Rightarrow> month_row list" where
  "month_rows by_month [] eq = []"
| "month_rows by_month (mo # mos) eq =
     (let row = month_row_of mo eq (by_month mo) in row # month_rows by_month mos (mo_end_equity row))"

definition event_month :: "event \<Rightarrow> int \<times> int" where
  "event_month e = month_of_day (date_of (ev_event_time e))"

definition compute_monthly_breakdown :: "event list \<Rightarrow> real \<Rightarrow> month_row list" where
  "compute_monthly_breakdown evs cap =
     (let closed = sort_key ev_event_time (of_type PositionClosed evs);
          by_month = bucket_pnls event_month closed
      in month_rows (\<lambda>mo. dict_get_or by_month mo []) (sort (dict_keys by_month)) cap)"


subsection \<open>Breakdowns by exit, session, side and regime\<close>

definition exit_reason_name :: "exit_reason \<Rightarrow> string" where
  "exit_reason_name r = (case r of Exit_signal \<Rightarrow> ''signal'' | Exit_stop_loss \<Rightarrow> ''stop_loss''
     | Exit_take_profit \<Rightarrow> ''take_profit'' | Exit_timeout \<Rightarrow> ''timeout'' | Exit_end_of_run \<Rightarrow> ''end_of_run'')"

definition exit_key :: "event \<Rightarrow> string" where
  "exit_key e = (case ev_payload e of P_closed ci \<Rightarrow> exit_reason_name (ci_exit_reason ci) | _ \<Rightarrow> ''unknown'')"

definition side_key :: "event \<Rightarrow> string" where
  "side_key e = or_else (key_side (ev_payload e)) ''unknown''"

record diagnostics =
  dg_by_exit_reason :: "(string, bucket) dict"
  dg_by_session :: "(session, bucket) dict"
  dg_by_side :: "(string, bucket) dict"

definition compute_diagnostics :: "event list \<Rightarrow> diagnostics" where
  "compute_diagnostics evs =
     (let closed = of_type PositionClosed evs
      in \<lparr>dg_by_exit_reason = bucket_table (bucket_pnls exit_key closed),
          dg_by_session = bucket_table (bucket_pnls (\<lambda>e. derive_session_utc (ev_event_time e)) closed),
          dg_by_side = bucket_table (bucket_pnls side_key closed)\<rparr>)"

text \<open>\<^verbatim>\<open>payload.get("position_id")\<close>, for the payloads that have one.\<close>

definition key_position_id :: "payload \<Rightarrow> string" where
  "key_position_id pl = (case pl of P_opened i _ _ \<Rightarrow> i | P_closed ci \<Rightarrow> ci_position_id ci | _ \<Rightarrow> [])"

definition entry_correlation_by_position :: "event list \<Rightarrow> (string, string) dict" where
  "entry_correlation_by_position evs =
     fold (\<lambda>e d. if ev_type e \<noteq> PositionOpened then d
       else let i = key_position_id (ev_payload e) in if i \<noteq> [] then dict_set d i (ev_correlation_id e) else d) evs []"

definition classify_regime :: "payload \<Rightarrow> string" where
  "classify_regime pl = (case pl of
     P_context c \<Rightarrow> trend_name (mc_trend c) @ ''_'' @ volatility_name (mc_volatility c)
   | _ \<Rightarrow> ''UNKNOWN_UNKNOWN'')"

definition confidence_band :: "real \<Rightarrow> string" where
  "confidence_band c =
     (if c \<ge> 0.8 then ''0.80-1.00'' else if c \<ge> 0.7 then ''0.70-0.79''
      else if c \<ge> 0.6 then ''0.60-0.69'' else ''below_0.60'')"

record regime_breakdown =
  rg_by_regime :: "(string, bucket) dict"
  rg_by_confidence :: "(string, bucket) dict"
  rg_unattributed :: nat

definition contexts_by_correlation :: "event list \<Rightarrow> (string, payload) dict" where
  "contexts_by_correlation evs = fold (\<lambda>e d. if ev_type e = MarketContextDerived
     then dict_set d (ev_correlation_id e) (ev_payload e) else d) evs []"

definition confidences_by_correlation :: "event list \<Rightarrow> (string, real) dict" where
  "confidences_by_correlation evs = fold (\<lambda>e d. if ev_type e = DecisionMade
     then (case key_confidence (ev_payload e) of None \<Rightarrow> d | Some c \<Rightarrow> dict_set d (ev_correlation_id e) c)
     else d) evs []"

text \<open>Each closed trade with the context and the confidence of the cycle that opened it. An
  empty correlation counts as none.\<close>

definition entry_context :: "event list \<Rightarrow> event \<Rightarrow> (payload \<times> real option) option" where
  "entry_context evs e =
     (let i = key_position_id (ev_payload e)
      in case (if i \<noteq> [] then dict_get (entry_correlation_by_position evs) i else None) of
           None \<Rightarrow> None
         | Some cid \<Rightarrow>
             if cid = [] then None
             else (case dict_get (contexts_by_correlation evs) cid of
                 None \<Rightarrow> None
               | Some pl \<Rightarrow> Some (pl, dict_get (confidences_by_correlation evs) cid)))"

fun regime_loop ::
  "event list \<Rightarrow> event list \<Rightarrow> (string, real list) dict \<times> (string, real list) dict \<times> nat
   \<Rightarrow> (string, real list) dict \<times> (string, real list) dict \<times> nat"
where
  "regime_loop evs [] s = s"
| "regime_loop evs (e # es) (rg, cf, u) =
     (case entry_context evs e of
        None \<Rightarrow> regime_loop evs es (rg, cf, Suc u)
      | Some (pl, conf) \<Rightarrow>
          regime_loop evs es
            (bucket_add rg (classify_regime pl) (event_pnl e),
             (case conf of None \<Rightarrow> cf | Some c \<Rightarrow> bucket_add cf (confidence_band c) (event_pnl e)), u))"

definition compute_regime_breakdown :: "event list \<Rightarrow> regime_breakdown" where
  "compute_regime_breakdown evs =
     (case regime_loop evs (of_type PositionClosed evs) ([], [], 0) of
        (rg, cf, u) \<Rightarrow> \<lparr>rg_by_regime = bucket_table rg, rg_by_confidence = bucket_table cf, rg_unattributed = u\<rparr>)"


subsection \<open>Scores and failures\<close>

text \<open>A profit without any loss has the factor infinity.\<close>

datatype profit_factor = Ratio real | Infinite_factor

record failure_summary =
  fsu_total_losses :: nat
  fsu_loss_share_by_regime :: "(string, real) dict"
  fsu_low_confidence_loss_share :: real
  fsu_avg_win :: real
  fsu_avg_loss :: real
  fsu_unattributed :: nat

definition sum_of :: "('a \<Rightarrow> 'b :: comm_monoid_add) \<Rightarrow> ('k, 'a) dict \<Rightarrow> 'b" where
  "sum_of f d = sum_list (map (\<lambda>(k, x). f x) d)"

definition summarize_failures :: "regime_breakdown \<Rightarrow> failure_summary" where
  "summarize_failures rg =
     (let by_regime = rg_by_regime rg; by_confidence = rg_by_confidence rg;
          total_losses = sum_of bk_losses by_regime;
          low = sum_of bk_losses (filter (\<lambda>(band, b). band \<in> {''below_0.60'', ''0.60-0.69''}) by_confidence);
          total_confidence = sum_of bk_losses by_confidence;
          win_count = sum_of bk_wins by_regime
      in \<lparr>fsu_total_losses = total_losses,
          fsu_loss_share_by_regime = map (\<lambda>(k, b). (k, py_round 4 (of_nat (bk_losses b) / of_nat total_losses)))
            (filter (\<lambda>(k, b). total_losses > 0 \<and> bk_losses b > 0) by_regime),
          fsu_low_confidence_loss_share = (if total_confidence > 0 then py_round 4 (of_nat low / of_nat total_confidence) else 0),
          fsu_avg_win = py_round 4 (if win_count \<noteq> 0 then sum_of bk_gross_profit by_regime / of_nat win_count else 0),
          fsu_avg_loss = py_round 4 (if total_losses \<noteq> 0 then - sum_of bk_gross_loss by_regime / of_nat total_losses else 0),
          fsu_unattributed = rg_unattributed rg\<rparr>)"

text \<open>What the outcome has before its scores are computed, and after.\<close>

record outcome_figures =
  oc_total_trades :: nat
  oc_win_rate :: real
  oc_profit_factor :: profit_factor
  oc_max_drawdown :: real
  oc_max_drawdown_pct :: real
  oc_sharpe :: real
  oc_sortino :: real
  oc_trade_sharpe :: real
  oc_daily_return_count :: nat
  oc_gross_profit :: real
  oc_gross_loss :: real
  oc_total_pnl :: real
  oc_initial_capital :: real
  oc_ending_equity :: real
  oc_return_pct :: real
  oc_equity_curve :: "real list"
  oc_orders_rejected :: nat
  oc_positions_opened :: nat
  oc_positions_closed :: nat
  oc_mtm :: "(real list \<times> real \<times> real \<times> real \<times> real) option"
  oc_timeline :: "equity_timeline option"
  oc_monthly :: "month_row list"
  oc_diagnostics :: diagnostics
  oc_regime :: regime_breakdown

record outcome_metrics = outcome_figures +
  oc_score :: real
  oc_optimization_score :: real
  oc_failures :: failure_summary

definition compute_strategy_score :: "'a outcome_figures_scheme \<Rightarrow> real" where
  "compute_strategy_score oc =
     (let pf_term = (case oc_profit_factor oc of Ratio f \<Rightarrow> f - 1 | Infinite_factor \<Rightarrow> 1);
          score = 100 * (0.45 * clamp_to (oc_return_pct oc / 10) (- 1) 1
                         + 0.20 * clamp_to (oc_sharpe oc / 2) (- 1) 1
                         + 0.15 * clamp_to ((oc_win_rate oc - 0.5) * 2) (- 1) 1
                         + 0.20 * clamp_to pf_term 0 1)
                  - 1.5 * oc_max_drawdown_pct oc
      in py_round 2 score)"

definition compute_optimization_score :: "'a outcome_figures_scheme \<Rightarrow> real" where
  "compute_optimization_score oc =
     (let score = compute_strategy_score oc in if oc_total_trades oc < 10 then min score (- 50) else score)"


subsection \<open>The outcome of a run\<close>

fun curve_changes :: "real list \<Rightarrow> real list" where
  "curve_changes (a # b # xs) = change a b @ curve_changes (b # xs)"
| "curve_changes _ = []"

definition profit_factor_of :: "real \<Rightarrow> real \<Rightarrow> profit_factor" where
  "profit_factor_of gp gl = (if gl > 0 then Ratio (gp / gl) else if gp \<noteq> 0 then Infinite_factor else Ratio 0)"

definition trade_sharpe_of :: "real list \<Rightarrow> real" where
  "trade_sharpe_of rs =
     (if length rs > 1
      then (let mean = average rs;
                var = sum_list (map (\<lambda>r. (r - mean)\<^sup>2) rs) / of_nat (length rs - 1);
                std = sqrt var
            in if std > 0 then mean / std * sqrt 252 else 0)
      else 0)"

text \<open>The marked figures: curve, return, drawdown, Sharpe and Sortino, if the run has candles.\<close>

definition mtm_figures ::
  "event list \<Rightarrow> real \<Rightarrow> (real list \<times> real \<times> real \<times> real \<times> real) option result" where
  "mtm_figures evs cap =
     (case compute_mark_to_market_series evs cap of (curve, rs) \<Rightarrow>
        if curve = [] then Inr None
        else if cap = 0 then Inl ZeroDivisionError
        else Inr (Some (curve, (last curve - cap) / cap * 100, max_drawdown_pct curve,
               if rs \<noteq> [] then annualized_sharpe rs else 0, if rs \<noteq> [] then annualized_sortino rs else 0)))"

definition compute_outcome_metrics :: "event list \<Rightarrow> real \<Rightarrow> real option \<Rightarrow> outcome_metrics result" where
  "compute_outcome_metrics evs cap ending =
     (let closed = of_type PositionClosed evs; pnls = map event_pnl closed;
          gross_profit = sum_list (won pnls); gross_loss = \<bar>sum_list (lost pnls)\<bar>;
          curve = equity_curve_from cap pnls;
          (dd, dd_pct) = drawdown_loop cap (0, 0) curve;
          daily = fst (compute_daily_equity_returns evs cap);
          final = (case ending of Some x \<Rightarrow> x | None \<Rightarrow> last curve)
      in and_then (mtm_figures evs cap) (\<lambda>mtm.
         and_then (compute_equity_timeline evs cap 400) (\<lambda>timeline.
           let figures = \<lparr>oc_total_trades = length closed, oc_win_rate = win_rate_of pnls,
                 oc_profit_factor = profit_factor_of gross_profit gross_loss,
                 oc_max_drawdown = dd, oc_max_drawdown_pct = dd_pct,
                 oc_sharpe = (if daily \<noteq> [] then annualized_sharpe daily else 0),
                 oc_sortino = (if daily \<noteq> [] then annualized_sortino daily else 0),
                 oc_trade_sharpe = trade_sharpe_of (curve_changes curve),
                 oc_daily_return_count = length daily, oc_gross_profit = gross_profit, oc_gross_loss = gross_loss,
                 oc_total_pnl = sum_list pnls, oc_initial_capital = cap, oc_ending_equity = final,
                 oc_return_pct = (if cap > 0 then (final - cap) / cap * 100 else 0), oc_equity_curve = curve,
                 oc_orders_rejected = length (of_type OrderRejected evs),
                 oc_positions_opened = length (of_type PositionOpened evs), oc_positions_closed = length closed,
                 oc_mtm = mtm, oc_timeline = timeline, oc_monthly = compute_monthly_breakdown evs cap,
                 oc_diagnostics = compute_diagnostics evs, oc_regime = compute_regime_breakdown evs\<rparr>
           in Inr (outcome_figures.extend figures (outcome_metrics.fields
                (compute_strategy_score figures) (compute_optimization_score figures)
                (summarize_failures (oc_regime figures)))))))"


subsection \<open>The figures of the engine\<close>

record engine_acc =
  ea_total :: nat
  ea_approved :: nat
  ea_reasons :: "(string, nat) dict"
  ea_stages :: "(string, nat) dict"
  ea_provider_hits :: "(string, nat) dict"

definition new_engine_acc :: engine_acc where
  "new_engine_acc = \<lparr>ea_total = 0, ea_approved = 0, ea_reasons = [], ea_stages = [], ea_provider_hits = []\<rparr>"

definition observe_decision :: "decision \<Rightarrow> engine_acc \<Rightarrow> engine_acc" where
  "observe_decision d acc0 =
     (let acc = acc0\<lparr>ea_total := Suc (ea_total acc0)\<rparr>
      in if is_approved d then
           (let acc' = acc\<lparr>ea_approved := Suc (ea_approved acc)\<rparr>
            in case dec_final_signal d of
                 Some fs \<Rightarrow> acc'\<lparr>ea_provider_hits := fold (\<lambda>i h. count_in h i) (contributing_providers fs) (ea_provider_hits acc')\<rparr>
               | None \<Rightarrow> acc')
         else acc\<lparr>ea_reasons := count_in (ea_reasons acc) (or_else (dr_rejection_reason (dec_result d)) ''unknown''),
                  ea_stages := count_in (ea_stages acc)
                    (case dr_rejection_stage (dec_result d) of None \<Rightarrow> ''unknown'' | Some st \<Rightarrow> stage_name st)\<rparr>)"

definition observe :: "cycle_result \<Rightarrow> engine_acc \<Rightarrow> engine_acc" where
  "observe c acc = observe_decision (cr_decision c) acc"

record engine_metrics =
  em_total_cycles :: nat
  em_approved :: nat
  em_rejected :: int
  em_approval_rate :: real
  em_by_reason :: "(string, nat) dict"
  em_by_stage :: "(string, nat) dict"
  em_provider_contribution :: "(string, nat) dict"
  em_with_snapshot :: nat
  em_snapshot_coverage :: real

definition key_snapshot_id :: "payload \<Rightarrow> string" where
  "key_snapshot_id pl = (case pl of P_decision_made _ _ s _ \<Rightarrow> s | P_approved _ s _ \<Rightarrow> s
     | P_rejected _ s _ _ _ \<Rightarrow> s | _ \<Rightarrow> [])"

definition finalize_metrics :: "event list \<Rightarrow> engine_acc \<Rightarrow> engine_metrics" where
  "finalize_metrics evs acc =
     (let decisions = filter (\<lambda>e. ev_family e = Fam_decision) evs;
          with_snapshot = length (filter (\<lambda>e. ev_type e \<in> {DecisionMade, DecisionApproved}
            \<and> key_snapshot_id (ev_payload e) \<noteq> []) decisions)
      in \<lparr>em_total_cycles = ea_total acc, em_approved = ea_approved acc,
          em_rejected = int (ea_total acc) - int (ea_approved acc),
          em_approval_rate = (if ea_total acc \<noteq> 0 then of_nat (ea_approved acc) / of_nat (ea_total acc) else 0),
          em_by_reason = ea_reasons acc, em_by_stage = ea_stages acc,
          em_provider_contribution = ea_provider_hits acc, em_with_snapshot = with_snapshot,
          em_snapshot_coverage = (if decisions \<noteq> [] then of_nat with_snapshot / of_nat (length decisions) else 1)\<rparr>)"

definition compute_engine_metrics :: "cycle_result list \<Rightarrow> event list \<Rightarrow> engine_metrics" where
  "compute_engine_metrics cycles evs = finalize_metrics evs (fold observe cycles new_engine_acc)"


subsection \<open>A reference for the drawdown\<close>

text \<open>The fall from one value of a curve to a later one, in per cent of the first.\<close>

definition fall :: "real \<Rightarrow> real \<Rightarrow> real" where
  "fall p v = (p - v) / p * 100"

lemma fall_mono: "0 < p \<Longrightarrow> p \<le> q \<Longrightarrow> 0 \<le> v \<Longrightarrow> fall p v \<le> fall q v"
proof -
  assume a: "0 < p" "p \<le> q" "0 \<le> v"
  then have "v / q \<le> v / p" by (intro divide_left_mono) auto
  then have "(1 - v / p) * 100 \<le> (1 - v / q) * 100" by (intro mult_right_mono) auto
  moreover have "fall x v = (1 - v / x) * 100" if "0 < x" for x
    using that by (simp add: fall_def diff_divide_distrib)
  ultimately show ?thesis using a by simp
qed

lemma pct_loop_Cons:
  "pct_drawdown_loop peak w (v # vs) =
     pct_drawdown_loop (max peak v) (if 0 < max peak v then max w (fall (max peak v) v) else w) vs"
  by (simp add: Let_def fall_def)

lemma pct_loop_ge: "w \<le> pct_drawdown_loop peak w vs"
proof (induction vs arbitrary: peak w)
  case (Cons v vs)
  let ?w = "if 0 < max peak v then max w (fall (max peak v) v) else w"
  have "w \<le> ?w" by simp
  also have "?w \<le> pct_drawdown_loop (max peak v) ?w vs" by (rule Cons.IH)
  finally show ?case unfolding pct_loop_Cons .
qed simp

lemma pct_loop_upper:
  assumes "\<forall>x \<in> set vs. 0 \<le> x" and "j < length vs" and "p \<in> insert peak (set (take (Suc j) vs))" and "0 < p"
  shows "fall p (vs ! j) \<le> pct_drawdown_loop peak w vs"
  using assms
proof (induction vs arbitrary: peak w j p)
  case (Cons v vs)
  let ?pk = "max peak v"
  let ?w = "if 0 < ?pk then max w (fall ?pk v) else w"
  show ?case
  proof (cases j)
    case 0
    with Cons.prems have p: "p \<le> ?pk" "0 \<le> v" "0 < ?pk" by (auto simp: less_max_iff_disj)
    then have "fall p v \<le> ?w" using fall_mono [OF Cons.prems(4) p(1,2)] by auto
    also have "?w \<le> pct_drawdown_loop ?pk ?w vs" by (rule pct_loop_ge)
    finally show ?thesis unfolding pct_loop_Cons 0 by simp
  next
    case (Suc i)
    then have i: "i < length vs" "\<forall>x \<in> set vs. 0 \<le> x" using Cons.prems by simp_all
    have "fall p (vs ! i) \<le> pct_drawdown_loop ?pk ?w vs"
    proof (cases "p \<in> {peak, v}")
      case True
      then have "p \<le> ?pk" by auto
      moreover have "0 \<le> vs ! i" using i by simp
      ultimately have "fall p (vs ! i) \<le> fall ?pk (vs ! i)" using Cons.prems(4) by (intro fall_mono)
      also have "\<dots> \<le> pct_drawdown_loop ?pk ?w vs"
        using i True Cons.prems(4) by (intro Cons.IH) auto
      finally show ?thesis .
    next
      case False
      with Cons.prems(3) Suc have "p \<in> set (take (Suc i) vs)" by auto
      with i Cons.prems(4) show ?thesis by (intro Cons.IH) auto
    qed
    then show ?thesis unfolding pct_loop_Cons Suc by simp
  qed
qed simp

lemma pct_loop_attained:
  "pct_drawdown_loop peak w vs = w \<or>
   (\<exists>j < length vs. \<exists>p \<in> insert peak (set (take (Suc j) vs)). 0 < p \<and> pct_drawdown_loop peak w vs = fall p (vs ! j))"
proof (induction vs arbitrary: peak w)
  case (Cons v vs)
  let ?pk = "max peak v"
  let ?w = "if 0 < ?pk then max w (fall ?pk v) else w"
  from Cons.IH [of ?pk ?w] show ?case
  proof
    assume eq: "pct_drawdown_loop ?pk ?w vs = ?w"
    show ?thesis
    proof (cases "?w = w")
      case True
      with eq show ?thesis unfolding pct_loop_Cons by simp
    next
      case False
      then have "0 < ?pk" "?w = fall ?pk v" by (auto split: if_splits)
      moreover have "?pk \<in> insert peak (set (take (Suc 0) (v # vs)))" by (auto simp: max_def)
      ultimately show ?thesis unfolding pct_loop_Cons eq
        by (intro disjI2 exI [of _ 0] conjI bexI [of _ ?pk]) auto
    qed
  next
    assume "\<exists>j < length vs. \<exists>p \<in> insert ?pk (set (take (Suc j) vs)). 0 < p \<and> pct_drawdown_loop ?pk ?w vs = fall p (vs ! j)"
    then obtain j p where j: "j < length vs" "p \<in> insert ?pk (set (take (Suc j) vs))" "0 < p"
      "pct_drawdown_loop ?pk ?w vs = fall p (vs ! j)" by blast
    then have "p \<in> insert peak (set (take (Suc (Suc j)) (v # vs)))" by (auto simp: max_def split: if_splits)
    with j show ?thesis unfolding pct_loop_Cons
      by (intro disjI2 exI [of _ "Suc j"] conjI bexI [of _ p]) auto
  qed
qed simp

text \<open>C30: the maximal drawdown is the worst fall. On a curve without negative values the running
  computation gives the maximum, over all pairs of a value and a later one, of the fall from
  the first to the second in per cent of the first, or zero if the curve never falls; so it
  lies between 0 and 100.\<close>

theorem max_drawdown_is_worst_fall:
  assumes "\<forall>v \<in> set curve. 0 \<le> v"
  shows "max_drawdown_pct curve =
      Max (insert 0 {fall (curve ! i) (curve ! j) |i j. i \<le> j \<and> j < length curve \<and> 0 < curve ! i})
    \<and> 0 \<le> max_drawdown_pct curve \<and> max_drawdown_pct curve \<le> 100"
proof (cases curve)
  case Nil
  then show ?thesis by (simp add: max_drawdown_pct_def)
next
  case (Cons v vs)
  let ?F = "{fall (curve ! i) (curve ! j) |i j. i \<le> j \<and> j < length curve \<and> 0 < curve ! i}"
  let ?m = "pct_drawdown_loop v 0 curve"
  have m: "max_drawdown_pct curve = ?m" by (simp add: max_drawdown_pct_def Cons)
  have "?F \<subseteq> (\<lambda>(i, j). fall (curve ! i) (curve ! j)) ` ({..< length curve} \<times> {..< length curve})" by force
  then have fin: "finite ?F" by (rule finite_subset) simp
  have mem: "p \<in> set (take (Suc j) curve)" if "p \<in> insert v (set (take (Suc j) curve))" for p j
    using that by (auto simp: Cons)
  have idx: "\<exists>i \<le> j. curve ! i = p" if "j < length curve" "p \<in> set (take (Suc j) curve)" for p j
    using that by (auto simp: in_set_conv_nth less_Suc_eq_le)
  have upper: "x \<le> ?m" if "x \<in> insert 0 ?F" for x
  proof (cases "x = 0")
    case True
    then show ?thesis using pct_loop_ge by simp
  next
    case False
    with that obtain i j where ij: "x = fall (curve ! i) (curve ! j)" "i \<le> j" "j < length curve" "0 < curve ! i" by auto
    then have "curve ! i \<in> set (take (Suc j) curve)"
      by (auto simp: in_set_conv_nth intro!: exI [of _ i])
    with ij assms show ?thesis by (auto intro: pct_loop_upper)
  qed
  have attained: "?m \<in> insert 0 ?F"
  proof (rule disjE [OF pct_loop_attained [of v 0 curve]])
    assume "\<exists>j < length curve. \<exists>p \<in> insert v (set (take (Suc j) curve)). 0 < p \<and> ?m = fall p (curve ! j)"
    then obtain j p where jp: "j < length curve" "p \<in> set (take (Suc j) curve)" "0 < p" "?m = fall p (curve ! j)"
      using mem by blast
    from idx [OF jp(1,2)] obtain i where "i \<le> j" "curve ! i = p" by blast
    with jp show ?thesis by blast
  qed simp
  have "?m \<le> 100"
    using attained
  proof
    assume "?m \<in> ?F"
    then obtain i j where ij: "?m = fall (curve ! i) (curve ! j)" "j < length curve" "0 < curve ! i" by auto
    moreover have "0 \<le> curve ! j * 100 / curve ! i" using ij assms by simp
    ultimately show ?thesis by (simp add: fall_def diff_divide_distrib)
  qed simp
  moreover have "?m = Max (insert 0 ?F)"
    using fin upper attained by (intro Max_eqI [symmetric]) auto
  ultimately show ?thesis using pct_loop_ge [of 0 v curve] by (simp add: m)
qed

theorem max_drawdown_is_worst_fall_witness:
  "max_drawdown_pct [100, 120, 90, 110] = 25 \<and> max_drawdown_pct [100, 120, 90, 110] \<le> 100
   \<and> 25 \<in> insert 0 {fall ([100, 120, 90, 110] ! i) ([100, 120, 90, 110] ! j) |i j.
        i \<le> j \<and> j < length [100, 120, 90, 110 :: real] \<and> 0 < [100, 120, 90, 110 :: real] ! i}"
proof -
  have "max_drawdown_pct [100, 120, 90, 110] = 25" by (simp add: max_drawdown_pct_def)
  moreover have "fall ([100, 120, 90, 110] ! 1) ([100, 120, 90, 110] ! 2) = 25" by (simp add: fall_def)
  moreover have "max_drawdown_pct [100, 120, 90, 110] \<le> 100"
    using max_drawdown_is_worst_fall [of "[100, 120, 90, 110]"] by simp
  ultimately show ?thesis
    by (intro conjI insertI2 CollectI exI [of _ "1 :: nat"] exI [of _ "2 :: nat"]) simp_all
qed

end
