(* ===== verification/OutcomeMetrics.thy ===== *)
theory OutcomeMetrics
  imports Metrics
begin

text \<open>
  What the figures of a validation run add up to: every breakdown accounts for every closed
  trade, the realised curve and the marked one end at the same equity once the book is
  flat, and the scores stay in their range.
\<close>


subsection \<open>Buckets partition the trades\<close>

text \<open>A measure of a bucket that grows by what is appended.\<close>

definition additive :: "(real list \<Rightarrow> 'b :: ab_group_add) \<Rightarrow> bool" where
  "additive f \<longleftrightarrow> (\<forall>xs ys. f (xs @ ys) = f xs + f ys)"

lemma additive_Nil: "additive f \<Longrightarrow> f [] = 0"
proof -
  assume "additive f"
  then have "f ([] @ []) = f [] + f []" unfolding additive_def by blast
  then show ?thesis by simp
qed

lemma additive_measures:
  "additive sum_list" "additive (\<lambda>ps. int (length ps))" "additive (\<lambda>ps. int (length (won ps)))"
  "additive (\<lambda>ps. int (length (lost ps)))" "additive (\<lambda>ps. sum_list (won ps))" "additive (\<lambda>ps. sum_list (lost ps))"
  by (simp_all add: additive_def won_def lost_def)

lemma sum_of_simps [simp]:
  "sum_of f [] = 0" "sum_of f ((k, x) # d) = f x + sum_of f d"
  by (simp_all add: sum_of_def)

lemma sum_update:
  assumes "distinct (map fst d)"
  shows "sum_of f (AList.update k v d) =
    (sum_of f d + f v - (case map_of d k of None \<Rightarrow> 0 | Some x \<Rightarrow> f x) :: 'b :: ab_group_add)"
  using assms
proof (induction d)
  case (Cons y d)
  obtain a b where y: "y = (a, b)" by (cases y)
  show ?case
  proof (cases "a = k")
    case True
    with Cons.prems have "map_of d k = None" by (auto simp: y map_of_eq_None_iff)
    with True show ?thesis by (simp add: y)
  next
    case False
    with Cons show ?thesis by (simp add: y algebra_simps)
  qed
qed simp

lemma bucket_add_measure:
  assumes "additive f" and "distinct (dict_keys d)"
  shows "sum_of f (bucket_add d k p) = sum_of f d + f [p]"
proof -
  from assms(1) have "f (xs @ [p]) = f xs + f [p]" for xs unfolding additive_def by blast
  with sum_update [of d f k "dict_get_or d k [] @ [p]"] assms additive_Nil [OF assms(1)] show ?thesis
    by (simp add: bucket_add_def dict_set_def dict_keys_def dict_get_or_def split: option.splits)
qed

lemma bucket_add_distinct: "distinct (dict_keys d) \<Longrightarrow> distinct (dict_keys (bucket_add d k p))"
  by (simp add: bucket_add_def distinct_dict_set)

lemma additive_Cons: "additive f \<Longrightarrow> f (p # ps) = f [p] + f ps"
  unfolding additive_def by (metis append_Cons append_Nil)

lemma bucket_pnls_fold:
  assumes "additive f" and "distinct (dict_keys d)"
  shows "distinct (dict_keys (fold (\<lambda>e d. bucket_add d (key e) (event_pnl e)) evs d))
    \<and> sum_of f (fold (\<lambda>e d. bucket_add d (key e) (event_pnl e)) evs d) = sum_of f d + f (map event_pnl evs)"
  using assms(2)
proof (induction evs arbitrary: d)
  case Nil
  then show ?case by (simp add: additive_Nil [OF assms(1)])
next
  case (Cons e evs)
  from Cons.IH [OF bucket_add_distinct [OF Cons.prems]] bucket_add_measure [OF assms(1) Cons.prems] show ?case
    by (simp add: additive_Cons [OF assms(1), of "event_pnl e" "map event_pnl evs"])
qed

lemma no_keys: "distinct (dict_keys [])"
  by (simp add: dict_keys_def)

lemma bucket_pnls_measure:
  "distinct (dict_keys (bucket_pnls key evs))"
  "additive f \<Longrightarrow> sum_of f (bucket_pnls key evs) = f (map event_pnl evs)"
  unfolding bucket_pnls_def
  by (rule bucket_pnls_fold [OF additive_measures(1) no_keys, THEN conjunct1])
    (use bucket_pnls_fold [OF _ no_keys, of f key evs] in simp)

lemma bucket_table_keys: "dict_keys (bucket_table d) = dict_keys d"
  by (simp add: bucket_table_def dict_keys_def case_prod_beta o_def)

text \<open>A table accounts for a list of results: what its buckets say adds up to it.\<close>

definition accounts_for :: "('k, bucket) dict \<Rightarrow> real list \<Rightarrow> bool" where
  "accounts_for tb pnls \<longleftrightarrow> distinct (dict_keys tb)
     \<and> sum_of bk_trades tb = length pnls \<and> sum_of bk_wins tb = length (won pnls)
     \<and> sum_of bk_losses tb = length (lost pnls) \<and> sum_of bk_pnl tb = sum_list pnls
     \<and> sum_of bk_gross_profit tb = sum_list (won pnls) \<and> sum_of bk_gross_loss tb = \<bar>sum_list (lost pnls)\<bar>"

lemma lost_nonpos: "sum_list (lost ps) \<le> 0"
  by (induction ps) (auto simp: lost_def)

lemma won_lost: "sum_list (won ps) + sum_list (lost ps) = sum_list ps" "length (won ps) + length (lost ps) = length ps"
  by (induction ps) (auto simp: won_def lost_def)

lemma sum_of_table: "sum_of f (bucket_table d) = sum_of (\<lambda>ps. f (bucket_stats ps)) d"
  by (induction d) (auto simp: bucket_table_def)

lemma sum_of_int: "int (sum_of f d) = sum_of (\<lambda>x. int (f x)) d"
  by (induction d) auto

lemma sum_of_abs_lost: "sum_of (\<lambda>ps. \<bar>sum_list (lost ps)\<bar>) d = - sum_of (\<lambda>ps. sum_list (lost ps)) d"
proof (induction d)
  case (Cons x d)
  obtain k ps where "x = (k, ps)" by (cases x)
  with Cons lost_nonpos [of ps] show ?case by simp
qed simp

lemma table_accounts:
  assumes "distinct (dict_keys d)"
    and "\<And>f :: real list \<Rightarrow> int. additive f \<Longrightarrow> sum_of f d = f pnls"
    and "\<And>f :: real list \<Rightarrow> real. additive f \<Longrightarrow> sum_of f d = f pnls"
  shows "accounts_for (bucket_table d) pnls"
proof -
  have nat: "sum_of g d = g pnls" if "additive (\<lambda>ps. int (g ps))" for g :: "real list \<Rightarrow> nat"
    using assms(2) [OF that] sum_of_int [of g d] by simp
  have "sum_of (\<lambda>ps. \<bar>sum_list (lost ps)\<bar>) d = \<bar>sum_list (lost pnls)\<bar>"
    using assms(3) [OF additive_measures(6)] lost_nonpos [of pnls] by (simp add: sum_of_abs_lost)
  then show ?thesis
    using assms(1) nat [OF additive_measures(2)] nat [OF additive_measures(3)] nat [OF additive_measures(4)]
      assms(3) [OF additive_measures(1)] assms(3) [OF additive_measures(5)]
    by (simp add: accounts_for_def bucket_table_keys sum_of_table bucket_stats_def)
qed

lemma bucket_pnls_accounts: "accounts_for (bucket_table (bucket_pnls key evs)) (map event_pnl evs)"
  by (rule table_accounts) (rule bucket_pnls_measure; assumption)+


subsection \<open>The regimes and the unattributed trades\<close>

lemma regime_loop_spec:
  assumes "regime_loop evs es (rg, cf, u) = (rg', cf', u')" and "distinct (dict_keys rg)" "additive f"
  shows "distinct (dict_keys rg')
    \<and> sum_of f rg' = sum_of f rg + f (map event_pnl (filter (\<lambda>e. entry_context evs e \<noteq> None) es))
    \<and> u' = u + length (filter (\<lambda>e. entry_context evs e = None) es)"
  using assms(1,2)
proof (induction es arbitrary: rg cf u)
  case Nil
  then show ?case by (simp add: additive_Nil [OF assms(3)])
next
  case (Cons e es)
  show ?case
  proof (cases "entry_context evs e")
    case None
    with Cons.prems have "regime_loop evs es (rg, cf, Suc u) = (rg', cf', u')" by simp
    from Cons.IH [OF this Cons.prems(2)] None show ?thesis by simp
  next
    case (Some pc)
    obtain pl conf where pc: "pc = (pl, conf)" by (cases pc)
    let ?rg = "bucket_add rg (classify_regime pl) (event_pnl e)"
    from Cons.prems Some have "regime_loop evs es
        (?rg, (case conf of None \<Rightarrow> cf | Some c \<Rightarrow> bucket_add cf (confidence_band c) (event_pnl e)), u) = (rg', cf', u')"
      by (simp add: pc)
    from Cons.IH [OF this bucket_add_distinct [OF Cons.prems(2)]] bucket_add_measure [OF assms(3) Cons.prems(2)] Some
      additive_Cons [OF assms(3), of "event_pnl e" "map event_pnl (filter (\<lambda>e. entry_context evs e \<noteq> None) es)"]
    show ?thesis by simp
  qed
qed

abbreviation attributed :: "event list \<Rightarrow> event list" where
  "attributed evs \<equiv> filter (\<lambda>e. entry_context evs e \<noteq> None) (of_type PositionClosed evs)"

lemma regime_accounts:
  "accounts_for (rg_by_regime (compute_regime_breakdown evs)) (map event_pnl (attributed evs))"
  "rg_unattributed (compute_regime_breakdown evs) = length (filter (\<lambda>e. entry_context evs e = None) (of_type PositionClosed evs))"
proof -
  obtain rg cf u where l: "regime_loop evs (of_type PositionClosed evs) ([], [], 0) = (rg, cf, u)" by (metis prod_cases3)
  have "accounts_for (bucket_table rg) (map event_pnl (attributed evs))"
  proof (rule table_accounts)
    show "distinct (dict_keys rg)" using regime_loop_spec [OF l no_keys additive_measures(1)] by simp
    show "sum_of f rg = f (map event_pnl (attributed evs))" if "additive f" for f :: "real list \<Rightarrow> int"
      using regime_loop_spec [OF l no_keys that] by simp
    show "sum_of f rg = f (map event_pnl (attributed evs))" if "additive f" for f :: "real list \<Rightarrow> real"
      using regime_loop_spec [OF l no_keys that] by simp
  qed
  then show "accounts_for (rg_by_regime (compute_regime_breakdown evs)) (map event_pnl (attributed evs))"
    by (simp add: compute_regime_breakdown_def l)
  show "rg_unattributed (compute_regime_breakdown evs) = length (filter (\<lambda>e. entry_context evs e = None) (of_type PositionClosed evs))"
    using regime_loop_spec [OF l no_keys additive_measures(1)] by (simp add: compute_regime_breakdown_def l)
qed


subsection \<open>Months\<close>

lemma curve_ends: "equity_curve_from eq ps \<noteq> [] \<and> hd (equity_curve_from eq ps) = eq
    \<and> last (equity_curve_from eq ps) = eq + sum_list ps \<and> length (equity_curve_from eq ps) = Suc (length ps)"
  by (induction eq ps rule: equity_curve_from.induct) auto

lemma month_row_fields:
  "mo_month (month_row_of m eq ps) = m" "mo_trades (month_row_of m eq ps) = length ps" "mo_pnl (month_row_of m eq ps) = sum_list ps"
  "mo_start_equity (month_row_of m eq ps) = eq" "mo_end_equity (month_row_of m eq ps) = eq + sum_list ps"
  using curve_ends [of eq ps] by (simp_all add: month_row_of_def Let_def)

text \<open>Each month starts with the equity the month before ended with.\<close>

fun chained :: "real \<Rightarrow> month_row list \<Rightarrow> real \<Rightarrow> bool" where
  "chained a [] b \<longleftrightarrow> a = b"
| "chained a (r # rs) b \<longleftrightarrow> mo_start_equity r = a \<and> chained (mo_end_equity r) rs b"

lemma month_rows_spec:
  "map mo_month (month_rows by_month mos eq) = mos
   \<and> sum_list (map mo_trades (month_rows by_month mos eq)) = sum_list (map (\<lambda>m. length (by_month m)) mos)
   \<and> sum_list (map mo_pnl (month_rows by_month mos eq)) = sum_list (map (\<lambda>m. sum_list (by_month m)) mos)
   \<and> chained eq (month_rows by_month mos eq) (eq + sum_list (map (\<lambda>m. sum_list (by_month m)) mos))"
  by (induction by_month mos eq rule: month_rows.induct) (simp_all add: Let_def month_row_fields add.assoc)

lemma sum_over_keys:
  assumes "distinct (dict_keys d)"
  shows "sum_list (map (\<lambda>k. f (dict_get_or d k x)) (dict_keys d)) = sum_of f d"
  using assms
proof (induction d)
  case (Cons y d)
  obtain a b where y: "y = (a, b)" by (cases y)
  have keys: "map (\<lambda>k. f (dict_get_or (y # d) k x)) (dict_keys d) = map (\<lambda>k. f (dict_get_or d k x)) (dict_keys d)"
    using Cons.prems by (intro map_cong) (auto simp: y dict_get_or_def dict_keys_def)
  have "dict_keys (y # d) = a # dict_keys d" by (simp add: y dict_keys_def)
  then have "sum_list (map (\<lambda>k. f (dict_get_or (y # d) k x)) (dict_keys (y # d)))
      = f (dict_get_or (y # d) a x) + sum_list (map (\<lambda>k. f (dict_get_or d k x)) (dict_keys d))"
    by (simp only: list.map sum_list.Cons keys)
  with Cons show ?case by (simp add: y dict_keys_def dict_get_or_def)
qed (simp add: dict_keys_def)

lemma sum_over_sorted: "sum_list (map f (sort xs)) = (sum_list (map f xs) :: 'b :: comm_monoid_add)"
  by (metis mset_map mset_sort sum_mset_sum_list)

lemma sum_sorted_events:
  "sum_list (map event_pnl (sort_key f evs)) = sum_list (map event_pnl evs)"
  by (metis mset_map mset_sort sum_mset_sum_list)

lemma monthly_spec:
  "sorted_wrt (<) (map mo_month (compute_monthly_breakdown evs cap))
   \<and> sum_list (map mo_trades (compute_monthly_breakdown evs cap)) = length (of_type PositionClosed evs)
   \<and> chained cap (compute_monthly_breakdown evs cap) (cap + sum_list (map event_pnl (of_type PositionClosed evs)))"
proof -
  let ?closed = "sort_key ev_event_time (of_type PositionClosed evs)"
  let ?d = "bucket_pnls event_month ?closed"
  let ?by = "\<lambda>mo. dict_get_or ?d mo []"
  have dk: "distinct (dict_keys ?d)" by (rule bucket_pnls_measure(1))
  have len: "sum_list (map (\<lambda>m. length (?by m)) (sort (dict_keys ?d))) = length (of_type PositionClosed evs)"
    using bucket_pnls_measure(2) [OF additive_measures(2), of event_month ?closed] sum_of_int [of length ?d]
    by (simp add: sum_over_sorted sum_over_keys [OF dk, of length])
  have tot: "sum_list (map (\<lambda>m. sum_list (?by m)) (sort (dict_keys ?d))) = sum_list (map event_pnl (of_type PositionClosed evs))"
    using bucket_pnls_measure(2) [OF additive_measures(1), of event_month ?closed]
    by (simp add: sum_over_sorted sum_over_keys [OF dk, of sum_list] sum_sorted_events)
  from month_rows_spec [of ?by "sort (dict_keys ?d)" cap] len tot dk show ?thesis
    by (simp add: compute_monthly_breakdown_def Let_def strict_sorted_iff)
qed


subsection \<open>The outcome adds up\<close>

lemma outcome_fields:
  assumes "compute_outcome_metrics evs cap fin = Inr om" and "pnls = map event_pnl (of_type PositionClosed evs)"
  shows "oc_total_trades om = length pnls" "oc_total_pnl om = sum_list pnls" "oc_gross_profit om = sum_list (won pnls)"
    "oc_gross_loss om = \<bar>sum_list (lost pnls)\<bar>" "oc_equity_curve om = equity_curve_from cap pnls"
    "oc_monthly om = compute_monthly_breakdown evs cap" "oc_diagnostics om = compute_diagnostics evs"
    "oc_regime om = compute_regime_breakdown evs" "oc_failures om = summarize_failures (oc_regime om)"
    "oc_max_drawdown_pct om = snd (drawdown_loop cap (0, 0) (equity_curve_from cap pnls))"
    "oc_score om = compute_strategy_score om" "oc_optimization_score om = compute_optimization_score om"
  using assms
  by (auto simp: compute_outcome_metrics_def Let_def case_prod_beta and_then_Inr_iff outcome_figures.defs outcome_metrics.defs
      compute_strategy_score_def compute_optimization_score_def)

text \<open>The figures of a run add up. Gross profit less gross loss is the total result; the
  realised curve leads from the initial capital to the initial capital plus that result, one
  step per closed trade; the tables by exit reason, session and side each account for every
  closed trade, the table by regime for every trade that can be attributed, the others are
  counted; and the months are in order, each starting where the last ended, from the initial
  capital to the end of the curve.\<close>

theorem outcome_adds_up:
  assumes "compute_outcome_metrics evs cap fin = Inr om" and "pnls = map event_pnl (of_type PositionClosed evs)"
  shows "oc_total_trades om = length pnls \<and> oc_gross_profit om - oc_gross_loss om = sum_list pnls
    \<and> length (oc_equity_curve om) = Suc (length pnls) \<and> last (oc_equity_curve om) = cap + sum_list pnls
    \<and> accounts_for (dg_by_exit_reason (oc_diagnostics om)) pnls
    \<and> accounts_for (dg_by_session (oc_diagnostics om)) pnls
    \<and> accounts_for (dg_by_side (oc_diagnostics om)) pnls
    \<and> accounts_for (rg_by_regime (oc_regime om)) (map event_pnl (attributed evs))
    \<and> length (attributed evs) + rg_unattributed (oc_regime om) = length pnls
    \<and> sorted_wrt (<) (map mo_month (oc_monthly om)) \<and> sum_list (map mo_trades (oc_monthly om)) = length pnls
    \<and> chained cap (oc_monthly om) (last (oc_equity_curve om))"
proof -
  note f = outcome_fields [OF assms]
  have p: "oc_gross_profit om - oc_gross_loss om = sum_list pnls"
    using won_lost(1) [of pnls] lost_nonpos [of pnls] by (simp add: f)
  have t: "accounts_for (dg_by_exit_reason (compute_diagnostics evs)) pnls"
    "accounts_for (dg_by_session (compute_diagnostics evs)) pnls" "accounts_for (dg_by_side (compute_diagnostics evs)) pnls"
    by (simp_all add: compute_diagnostics_def Let_def assms(2) bucket_pnls_accounts)
  have "length (attributed evs) + length (filter (\<lambda>e. entry_context evs e = None) (of_type PositionClosed evs)) = length pnls"
    using sum_length_filter_compl [of "\<lambda>e. entry_context evs e = None" "of_type PositionClosed evs"]
    by (simp add: assms(2) add.commute del: not_None_eq)
  with p t regime_accounts [of evs] monthly_spec [of evs cap] curve_ends [of cap pnls] assms(2) show ?thesis
    by (simp add: f)
qed

text \<open>Two closed trades, a win and a loss.\<close>

definition demo_trade :: "real \<Rightarrow> nat \<Rightarrow> event" where
  "demo_trade pnl n = demo_envelope PositionClosed (P_closed \<lparr>ci_position_id = ''pos'', ci_exit_reason = Exit_signal,
     ci_exit_price = 1, ci_pnl = pnl, ci_fill_id = ''f'', ci_entry_price = 1, ci_side = LONG, ci_quantity = 1,
     ci_stop_loss = None, ci_take_profit = None, ci_bars_held = 1\<rparr>) n"

lemma demo_trade_simps [simp]:
  "ev_type (demo_trade x n) = PositionClosed" "event_pnl (demo_trade x n) = x"
  by (simp_all add: demo_trade_def demo_envelope_def event_pnl_def payload_pnl_def)

lemma demo_outcome:
  obtains om where "compute_outcome_metrics [demo_trade 200 0, demo_trade (- 100) 1] 10000 None = Inr om"
  by (simp add: compute_outcome_metrics_def mtm_figures_def compute_mark_to_market_series_def compute_equity_timeline_def
      ledger_events_def Let_def case_prod_beta)

theorem outcome_adds_up_witness:
  "\<exists>om. compute_outcome_metrics [demo_trade 200 0, demo_trade (- 100) 1] 10000 None = Inr om
     \<and> oc_gross_profit om - oc_gross_loss om = 100 \<and> last (oc_equity_curve om) = 10100
     \<and> sum_list (map mo_trades (oc_monthly om)) = 2 \<and> chained 10000 (oc_monthly om) 10100"
proof -
  obtain om where om: "compute_outcome_metrics [demo_trade 200 0, demo_trade (- 100) 1] 10000 None = Inr om"
    by (rule demo_outcome)
  have "map event_pnl (of_type PositionClosed [demo_trade 200 0, demo_trade (- 100) 1]) = [200, - 100]"
    by (simp add: of_type_def)
  from outcome_adds_up [OF om this [symmetric]] om show ?thesis
    by (elim conjE, intro exI [of _ om] conjI) simp_all
qed


subsection \<open>Scores\<close>

lemma drawdown_loop_pct: "snd (drawdown_loop pk w vs) = pct_drawdown_loop pk (snd w) vs"
  by (induction pk w vs rule: drawdown_loop.induct) (simp_all add: Let_def)

lemma outcome_drawdown:
  assumes "compute_outcome_metrics evs cap fin = Inr om"
  shows "oc_max_drawdown_pct om = max_drawdown_pct (oc_equity_curve om)"
proof -
  have "equity_curve_from cap ps = cap # tl (equity_curve_from cap ps)" for ps
    by (cases ps) simp_all
  then have "max_drawdown_pct (equity_curve_from cap ps) = pct_drawdown_loop cap 0 (equity_curve_from cap ps)" for ps
    by (metis list.simps(5) max_drawdown_pct_def)
  then show ?thesis by (simp add: outcome_fields [OF assms refl] drawdown_loop_pct)
qed

lemma max_drawdown_nonneg: "0 \<le> max_drawdown_pct c"
  using pct_loop_ge by (auto simp: max_drawdown_pct_def split: list.splits)

lemma score_range:
  "- 80 - 1.5 * oc_max_drawdown_pct oc - 0.005 \<le> compute_strategy_score oc
   \<and> compute_strategy_score oc \<le> 100 - 1.5 * oc_max_drawdown_pct oc + 0.005"
proof -
  let ?pf = "case oc_profit_factor oc of Ratio f \<Rightarrow> f - 1 | Infinite_factor \<Rightarrow> 1"
  let ?s = "100 * (0.45 * clamp_to (oc_return_pct oc / 10) (- 1) 1 + 0.20 * clamp_to (oc_sharpe oc / 2) (- 1) 1
     + 0.15 * clamp_to ((oc_win_rate oc - 0.5) * 2) (- 1) 1 + 0.20 * clamp_to ?pf 0 1) - 1.5 * oc_max_drawdown_pct oc"
  have c: "a \<le> clamp_to v a b \<and> clamp_to v a b \<le> b" if "a \<le> b" for v a b
    using that by (simp add: clamp_to_def)
  have "- 80 - 1.5 * oc_max_drawdown_pct oc \<le> ?s \<and> ?s \<le> 100 - 1.5 * oc_max_drawdown_pct oc"
    using c [of "- 1" 1 "oc_return_pct oc / 10"] c [of "- 1" 1 "oc_sharpe oc / 2"]
      c [of "- 1" 1 "(oc_win_rate oc - 0.5) * 2"] c [of 0 1 ?pf] by (simp add: field_simps)
  moreover have "\<bar>compute_strategy_score oc - ?s\<bar> \<le> 0.005"
    using py_round_error [of 2 ?s] by (simp add: compute_strategy_score_def Let_def)
  ultimately show ?thesis unfolding abs_le_iff by linarith
qed

text \<open>C31: the scores stay in their range. The strategy score of a run lies between -80 and 100
  less one and a half times the drawdown of its curve, to half a cent; the optimisation score
  never exceeds it, equals it from ten trades on, and is -50 at most below ten.\<close>

theorem scores_bounded:
  assumes "compute_outcome_metrics evs cap fin = Inr om" and "d = max_drawdown_pct (oc_equity_curve om)"
  shows "oc_max_drawdown_pct om = d \<and> 0 \<le> d
    \<and> - 80 - 1.5 * d - 0.005 \<le> oc_score om \<and> oc_score om \<le> 100 - 1.5 * d + 0.005
    \<and> oc_optimization_score om \<le> oc_score om
    \<and> (10 \<le> oc_total_trades om \<longrightarrow> oc_optimization_score om = oc_score om)
    \<and> (oc_total_trades om < 10 \<longrightarrow> oc_optimization_score om \<le> - 50)"
  using score_range [of om] outcome_drawdown [OF assms(1)] max_drawdown_nonneg [of "oc_equity_curve om"]
  by (simp add: outcome_fields(11,12) [OF assms(1) refl] compute_optimization_score_def Let_def assms(2))

theorem scores_bounded_witness:
  "\<exists>om. compute_outcome_metrics [demo_trade 200 0, demo_trade (- 100) 1] 10000 None = Inr om
     \<and> oc_total_trades om = 2 \<and> oc_optimization_score om \<le> - 50 \<and> oc_score om \<le> 100.005"
proof -
  obtain om where om: "compute_outcome_metrics [demo_trade 200 0, demo_trade (- 100) 1] 10000 None = Inr om"
    by (rule demo_outcome)
  have "oc_total_trades om = 2" by (simp add: outcome_fields(1) [OF om refl] of_type_def)
  with scores_bounded [OF om refl] om show ?thesis by auto
qed

end
