(* ===== verification/Harness.thy ===== *)
theory Harness
  imports OutcomeMetrics
begin

text \<open>
  \<^verbatim>\<open>backend/src/validation/harness.py\<close>: a validation run replays the bars of a file through
  the platform runtime, one cycle per bar with the simulated clock set to the bar, closes
  what is left open at the last bar, and computes the figures of the run. The reports of
  progress are left out. An exception ends the run and nothing of it is kept.
\<close>


subsection \<open>Configuration and result\<close>

record validation_config =
  vc_symbol :: string
  vc_timeframe :: string
  vc_start :: datetime
  vc_end :: datetime
  vc_csv_path :: "string option"
  vc_initial_capital :: real

record validation_result =
  vr_run_id :: string
  vr_config :: validation_config
  vr_cycles :: "cycle_result list"
  vr_events :: "event list"
  vr_engine_metrics :: engine_metrics
  vr_outcome_metrics :: outcome_metrics
  vr_revision_id :: "string option"
  vr_experiment_id :: "string option"
  vr_experiment_run_id :: "string option"

text \<open>What the constructor is given: the runtime with its data provider, the event log as its
  two operations on the world of the bus, and the features configuration the lookback is
  computed from.\<close>

record ('p, 'w) harness =
  ha_runtime :: "('p, 'w) runtime"
  ha_data :: csv_provider
  ha_logged :: "'w \<Rightarrow> event list"
  ha_clear :: "'w \<Rightarrow> 'w"
  ha_disk_features :: "indicator_params features_config"
  ha_config :: validation_config
  ha_revision_id :: "string option"
  ha_experiment_id :: "string option"


subsection \<open>The run\<close>

definition two_seconds :: datetime where
  "two_seconds = 2000000"

definition cycle_name :: "nat \<Rightarrow> datetime \<Rightarrow> string" where
  "cycle_name i t = ''val_'' @ show_nat i @ ''_'' @ iso_format t"

definition bar_args :: "('p, 'w) harness \<Rightarrow> nat \<Rightarrow> datetime \<Rightarrow> cycle_args" where
  "bar_args H i t = \<lparr>ca_symbol = vc_symbol (ha_config H), ca_timeframe = vc_timeframe (ha_config H),
     ca_correlation_id = Some (cycle_name i t), ca_revision_id = ha_revision_id H,
     ca_experiment_id = ha_experiment_id H\<rparr>"

definition at_bar :: "datetime \<Rightarrow> 'w platform \<Rightarrow> 'w platform" where
  "at_bar t p = p\<lparr>pl_clock := set_processing_time (t + two_seconds) (set_event_time t (pl_clock p))\<rparr>"

fun run_bars ::
  "env \<Rightarrow> ('p, 'w) harness \<Rightarrow> bool \<Rightarrow> nat \<Rightarrow> datetime list \<Rightarrow> 'w platform \<times> cycle_result list \<times> engine_acc
   \<Rightarrow> ('w platform \<times> cycle_result list \<times> engine_acc) result"
where
  "run_bars E H retain i [] s = Inr s"
| "run_bars E H retain i (t # ts) (p, cycles, acc) =
     (case run_cycle E (ha_runtime H) (bar_args H i t) (at_bar t p) of
        (q, Inl e) \<Rightarrow> Inl e
      | (q, Inr res) \<Rightarrow>
          run_bars E H retain (Suc i) ts
            (q, if retain then cycles @ [res] else cycles, if retain then acc else observe res acc))"

definition liquidate_args :: "('p, 'w) harness \<Rightarrow> datetime \<Rightarrow> exec_args" where
  "liquidate_args H t = \<lparr>xa_symbol = vc_symbol (ha_config H), xa_timeframe = vc_timeframe (ha_config H),
     xa_correlation_id = ''val_liquidate_'' @ iso_format t, xa_event_time = t,
     xa_processing_time = t + two_seconds\<rparr>"

definition liquidate_open_run :: "env \<Rightarrow> ('p, 'w) harness \<Rightarrow> datetime \<Rightarrow> 'w platform \<Rightarrow> 'w platform result" where
  "liquidate_open_run E H t p =
     (case rt_exec (ha_runtime H) of
        None \<Rightarrow> Inr p
      | Some X \<Rightarrow>
          and_then (get_portfolio (rt_portfolio_id (ha_runtime H)) (pl_store p)) (\<lambda>pf.
          if filter (\<lambda>q. pos_symbol q = vc_symbol (ha_config H)) (open_positions pf) = [] then Inr p
          else
            and_then (csv_get_latest (ha_data H) (vc_symbol (ha_config H)) (vc_timeframe (ha_config H)) 200 (Some t)) (\<lambda>df.
            if df = [] then Inl IndexError
            else
              and_then (snapshot E (rt_portfolio_id (ha_runtime H)) (Some (''val_liquidate_'' @ iso_format t))
                  (pl_store p, pl_tick p)) (\<lambda>(snap, s1, n1).
              case liquidate_open_positions E X (liquidate_args H t) (snd (last df)) snap (pl_exec p, n1) of
                (res, st, n2) \<Rightarrow>
                  and_then (apply_transitions E (er_transitions res) (s1, n2)) (\<lambda>(s2, n3).
                  let q = p\<lparr>pl_store := s2, pl_exec := st, pl_tick := n3\<rparr>
                  in if er_events res = [] then Inr q
                     else (case publish_many (rt_publish (ha_runtime H)) (er_events res) (pl_bus q) of
                             (w, Inl e) \<Rightarrow> Inl e
                           | (w, Inr _) \<Rightarrow> Inr (q\<lparr>pl_bus := w\<rparr>)))))))"

definition validation_bars :: "('p, 'w) harness \<Rightarrow> datetime list result" where
  "validation_bars H =
     and_then (csv_timestamps (ha_data H) (vc_symbol (ha_config H)) (vc_timeframe (ha_config H))
         (vc_start (ha_config H)) (vc_end (ha_config H))) (\<lambda>ts.
       let skip = compute_min_lookback_bars (ha_disk_features H)
       in if int (length ts) \<le> skip then Inl (ValueError ''Not enough bars in range'')
          else Inr (drop (nat skip) ts))"

definition run_validation ::
  "env \<Rightarrow> ('p, 'w) harness \<Rightarrow> bool \<Rightarrow> 'w platform \<Rightarrow> (validation_result \<times> 'w platform) result" where
  "run_validation E H retain p0 =
     (let run_id = fresh_id E ''run_'' (pl_tick p0);
          p1 = p0\<lparr>pl_tick := Suc (pl_tick p0), pl_bus := ha_clear H (pl_bus p0)\<rparr>
      in and_then (validation_bars H) (\<lambda>ts.
         and_then (run_bars E H retain 0 ts (p1, [], new_engine_acc)) (\<lambda>(p2, cycles, acc).
         and_then (liquidate_open_run E H (last ts) p2) (\<lambda>p3.
         let evs = ha_logged H (pl_bus p3)
         in and_then (get_portfolio (rt_portfolio_id (ha_runtime H)) (pl_store p3)) (\<lambda>pf.
            let em = (if retain then compute_engine_metrics cycles evs else finalize_metrics evs acc)
            in and_then (compute_outcome_metrics evs (vc_initial_capital (ha_config H)) (Some (equity pf))) (\<lambda>om.
               Inr (\<lparr>vr_run_id = run_id, vr_config = ha_config H, vr_cycles = cycles, vr_events = evs,
                   vr_engine_metrics = em, vr_outcome_metrics = om, vr_revision_id = ha_revision_id H,
                   vr_experiment_id = ha_experiment_id H, vr_experiment_run_id = None\<rparr>, p3)))))))"

end
