(* ===== verification/HarnessRuns.thy ===== *)
theory HarnessRuns
  imports Harness Ledger
begin

text \<open>
  What a validation run guarantees: it never looks at a bar later than the one it is
  simulating, every bar of the range gets exactly one cycle, the figures of the engine do
  not depend on whether the cycles are kept, and nothing stays open at its end.
\<close>


subsection \<open>A cycle looks at the data once\<close>

lemma phases_ignore_data:
  "pre_decision_evaluate E (R\<lparr>rt_latest := f\<rparr>) = pre_decision_evaluate E R"
  "emit_candle_received E (R\<lparr>rt_latest := f\<rparr>) = emit_candle_received E R"
  "features_phase E (R\<lparr>rt_latest := f\<rparr>) = features_phase E R"
  "maybe_reset_daily_risk E (R\<lparr>rt_latest := f\<rparr>) = maybe_reset_daily_risk E R"
  "mark_to_market_phase E (R\<lparr>rt_latest := f\<rparr>) = mark_to_market_phase E R"
  "take_snapshot E (R\<lparr>rt_latest := f\<rparr>) = take_snapshot E R"
  "decide E (R\<lparr>rt_latest := f\<rparr>) = decide E R"
  "same_bar_exit_and_execute E (R\<lparr>rt_latest := f\<rparr>) = same_bar_exit_and_execute E R"
  "publish_events (R\<lparr>rt_latest := f\<rparr>) = publish_events R"
proof -
  have r: "rt_compute (R\<lparr>rt_latest := f\<rparr>) = rt_compute R"
    "rt_features (R\<lparr>rt_latest := f\<rparr>) = rt_features R"
    "rt_hash (R\<lparr>rt_latest := f\<rparr>) = rt_hash R"
    "rt_providers (R\<lparr>rt_latest := f\<rparr>) = rt_providers R"
    "rt_engine (R\<lparr>rt_latest := f\<rparr>) = rt_engine R"
    "rt_exec (R\<lparr>rt_latest := f\<rparr>) = rt_exec R"
    "rt_publish (R\<lparr>rt_latest := f\<rparr>) = rt_publish R"
    "rt_portfolio_id (R\<lparr>rt_latest := f\<rparr>) = rt_portfolio_id R"
    "rt_mode (R\<lparr>rt_latest := f\<rparr>) = rt_mode R"
    "rt_persist (R\<lparr>rt_latest := f\<rparr>) = rt_persist R"
    "rt_emit (R\<lparr>rt_latest := f\<rparr>) = rt_emit R"
    by simp_all
  note defs = take_snapshot_def decision_events_def signal_exit_def emit_def cycle_meta_def r
  show "pre_decision_evaluate E (R\<lparr>rt_latest := f\<rparr>) = pre_decision_evaluate E R"
    unfolding pre_decision_evaluate_def defs by (rule refl)
  show "emit_candle_received E (R\<lparr>rt_latest := f\<rparr>) = emit_candle_received E R"
    unfolding emit_candle_received_def defs by (rule refl)
  show "features_phase E (R\<lparr>rt_latest := f\<rparr>) = features_phase E R"
    unfolding features_phase_def defs by (rule refl)
  show "maybe_reset_daily_risk E (R\<lparr>rt_latest := f\<rparr>) = maybe_reset_daily_risk E R"
    unfolding maybe_reset_daily_risk_def defs by (rule refl)
  show "mark_to_market_phase E (R\<lparr>rt_latest := f\<rparr>) = mark_to_market_phase E R"
    unfolding mark_to_market_phase_def defs by (rule refl)
  show "take_snapshot E (R\<lparr>rt_latest := f\<rparr>) = take_snapshot E R"
    unfolding take_snapshot_def defs by (rule refl)
  show "decide E (R\<lparr>rt_latest := f\<rparr>) = decide E R"
    unfolding decide_def defs by (rule refl)
  show "same_bar_exit_and_execute E (R\<lparr>rt_latest := f\<rparr>) = same_bar_exit_and_execute E R"
    unfolding same_bar_exit_and_execute_def defs by (rule refl)
  show "publish_events (R\<lparr>rt_latest := f\<rparr>) = publish_events R"
    unfolding publish_events_def defs by (rule refl)
qed

lemma collect_ignores_data: "collect_signals E (R\<lparr>rt_latest := f\<rparr>) fs ctx pvs s = collect_signals E R fs ctx pvs s"
proof (induction pvs arbitrary: s)
  case (Cons pv pvs)
  have m: "cycle_meta (R\<lparr>rt_latest := f\<rparr>) = cycle_meta R" by (simp add: cycle_meta_def fun_eq_iff)
  have e: "emit E (R\<lparr>rt_latest := f\<rparr>) = emit E R" by (simp add: emit_def fun_eq_iff m)
  show ?case by (simp add: e Cons.IH fun_eq_iff seq_def split: sum.splits prod.splits)
qed simp

lemma body_ignores_data: "cycle_body E (R\<lparr>rt_latest := f\<rparr>) = cycle_body E R"
proof -
  have c: "collect_signals E (R\<lparr>rt_latest := f\<rparr>) = collect_signals E R" by (intro ext) (rule collect_ignores_data)
  show ?thesis unfolding cycle_body_def phases_ignore_data c by simp
qed

lemma run_cycle_data:
  assumes "\<forall>m. fst (now_event_time E (pl_clock p) m) = t"
    and "\<forall>n. f (ca_symbol a) (ca_timeframe a) t n = rt_latest R (ca_symbol a) (ca_timeframe a) t n"
  shows "run_cycle E (R\<lparr>rt_latest := f\<rparr>) a p = run_cycle E R a p"
proof -
  have "prepare_bar E (R\<lparr>rt_latest := f\<rparr>) a p = prepare_bar E R a p"
    using assms by (simp add: prepare_bar_def Let_def case_prod_beta)
  then show ?thesis unfolding run_cycle_def body_ignores_data by simp
qed


subsection \<open>No look at a later bar\<close>

lemma csv_latest_agree:
  assumes "csv_symbol d' = csv_symbol d" "csv_timeframe d' = csv_timeframe d"
    and "csv_df d \<noteq> []" "csv_df d' \<noteq> []" and "t \<le> T"
    and "takeWhile (\<lambda>r. fst r \<le> T) (csv_df d') = takeWhile (\<lambda>r. fst r \<le> T) (csv_df d)"
  shows "csv_get_latest d' s tf limit (Some t) = csv_get_latest d s tf limit (Some t)"
proof -
  have cut: "takeWhile (\<lambda>r. fst r \<le> t) (takeWhile (\<lambda>r. fst r \<le> T) df) = takeWhile (\<lambda>r. fst r \<le> t) df" for df :: frame
    using assms(5) by (induction df) auto
  then have w: "takeWhile (\<lambda>r. fst r \<le> t) (csv_df d') = takeWhile (\<lambda>r. fst r \<le> t) (csv_df d)"
    using assms(6) by metis
  then have i: "search_right (csv_df d') t = search_right (csv_df d) t" by (simp add: search_right_def)
  have "iloc k (search_right (csv_df d') t) (csv_df d') = iloc k (search_right (csv_df d) t) (csv_df d)" for k
    unfolding iloc_def take_search_right w by simp
  with i assms(1-4) show ?thesis by (simp add: csv_get_latest_def csv_validate_def Let_def)
qed

text \<open>The harness over another file.\<close>

definition over_file :: "csv_provider \<Rightarrow> ('p, 'w) harness \<Rightarrow> ('p, 'w) harness" where
  "over_file d H = H\<lparr>ha_data := d, ha_runtime := (ha_runtime H)\<lparr>rt_latest := csv_latest d\<rparr>\<rparr>"

text \<open>C17: a validation run never looks ahead. Take two files that agree on all rows up to a
  time, whatever they hold later: simulating bars up to that time gives the same cycles, the
  same state, the same events, or the same error, and so does closing what is open at such a
  bar.\<close>

theorem run_never_looks_ahead:
  assumes "csv_symbol d' = csv_symbol d" and "csv_timeframe d' = csv_timeframe d"
    and "csv_df d \<noteq> []" and "csv_df d' \<noteq> []" and "\<forall>t \<in> set ts. t \<le> T" and "t0 \<le> T"
    and "takeWhile (\<lambda>r. fst r \<le> T) (csv_df d') = takeWhile (\<lambda>r. fst r \<le> T) (csv_df d)"
    and "pl_clock p = Simulated_clock c1 c2"
  shows "run_bars E (over_file d' H) retain i ts (p, cs, acc) = run_bars E (over_file d H) retain i ts (p, cs, acc)
    \<and> liquidate_open_run E (over_file d' H) t0 p = liquidate_open_run E (over_file d H) t0 p"
proof
  have agree: "csv_latest d' s tf t n = csv_latest d s tf t n" if "t \<le> T" for s tf t n
    by (simp add: csv_latest_def csv_latest_agree [OF assms(1-4) that assms(7)])
  show "run_bars E (over_file d' H) retain i ts (p, cs, acc) = run_bars E (over_file d H) retain i ts (p, cs, acc)"
    using assms(5,8)
  proof (induction ts arbitrary: i p cs acc c1 c2)
    case (Cons t ts)
    let ?R = "(ha_runtime H)\<lparr>rt_latest := csv_latest d\<rparr>" and ?a = "bar_args (over_file d H) i t"
    have args: "bar_args (over_file d' H) i t = ?a" by (simp add: bar_args_def over_file_def)
    have clock: "pl_clock (at_bar t p) = Simulated_clock t (t + two_seconds)"
      using Cons.prems(2) by (simp add: at_bar_def set_event_time_def set_processing_time_def)
    have "run_cycle E (?R\<lparr>rt_latest := csv_latest d'\<rparr>) ?a (at_bar t p) = run_cycle E ?R ?a (at_bar t p)"
      using Cons.prems(1) by (intro run_cycle_data [where t = t]) (simp_all add: clock now_event_time_def agree)
    then have same: "run_cycle E (ha_runtime (over_file d' H)) (bar_args (over_file d' H) i t) (at_bar t p)
        = run_cycle E (ha_runtime (over_file d H)) ?a (at_bar t p)"
      unfolding args by (simp add: over_file_def)
    obtain q r where q: "run_cycle E (ha_runtime (over_file d H)) ?a (at_bar t p) = (q, r)" by fastforce
    show ?case
    proof (cases r)
      case (Inl e)
      then show ?thesis by (simp add: same q)
    next
      case (Inr res)
      have "market_data (rt_latest (ha_runtime (over_file d H)))"
        by (simp add: over_file_def csv.market_data_axioms)
      from run_cycle_Inr [OF q [unfolded Inr] this] obtain c n p1 c2' where
        "p1 = (at_bar t p)\<lparr>pl_clock := set_event_time (cy_event_time c) (pl_clock (at_bar t p)), pl_tick := n\<rparr>"
        "cycle_body E (ha_runtime (over_file d H)) (p1, c) = ((q, c2'), Inr res)" by metis
      then have "pl_clock q = Simulated_clock (cy_event_time c) (t + two_seconds)"
        using steadyD [OF steady_cycle_body] by (fastforce simp: clock set_event_time_def)
      from Cons.IH [OF _ this] Cons.prems(1) show ?thesis by (simp add: same q Inr)
    qed
  qed simp
  show "liquidate_open_run E (over_file d' H) t0 p = liquidate_open_run E (over_file d H) t0 p"
  proof -
    have f: "rt_exec (ha_runtime (over_file d H)) = rt_exec (ha_runtime H)"
      "rt_portfolio_id (ha_runtime (over_file d H)) = rt_portfolio_id (ha_runtime H)"
      "rt_publish (ha_runtime (over_file d H)) = rt_publish (ha_runtime H)"
      "ha_config (over_file d H) = ha_config H" "ha_data (over_file d H) = d"
      "liquidate_args (over_file d H) = liquidate_args H" for d
      by (simp_all add: over_file_def liquidate_args_def fun_eq_iff)
    show ?thesis unfolding liquidate_open_run_def f csv_latest_agree [OF assms(1-4,6,7)] by simp
  qed
qed


subsection \<open>Kept or not kept\<close>

lemma run_bars_retain:
  "run_bars E H False i ts (p, c0, fold observe cs acc) =
     and_then (run_bars E H True i ts (p, cs, acc)) (\<lambda>(q, cs', a). Inr (q, c0, fold observe cs' acc))"
proof (induction ts arbitrary: i p cs)
  case (Cons t ts)
  obtain q r where q: "run_cycle E (ha_runtime H) (bar_args H i t) (at_bar t p) = (q, r)" by fastforce
  show ?case
  proof (cases r)
    case (Inr res)
    from Cons.IH [of "Suc i" q "cs @ [res]"] show ?thesis by (simp add: q Inr)
  qed (simp add: q)
qed simp

text \<open>C19: the figures of the engine do not depend on whether the cycles are kept. A run that
  discards its cycles and observes them one by one fails exactly when, and as, the run that
  keeps them does, and otherwise returns the same result without the list of cycles, and
  leaves the same platform.\<close>

theorem discarding_cycles_changes_nothing:
  "run_validation E H False p0 =
     and_then (run_validation E H True p0) (\<lambda>(vr, q). Inr (vr\<lparr>vr_cycles := []\<rparr>, q))"
proof (cases "validation_bars H")
  case (Inl e)
  then show ?thesis by (simp add: run_validation_def Let_def)
next
  case (Inr ts)
  let ?p1 = "p0\<lparr>pl_tick := Suc (pl_tick p0), pl_bus := ha_clear H (pl_bus p0)\<rparr>"
  have two: "run_bars E H False 0 ts (?p1, [], new_engine_acc) =
      and_then (run_bars E H True 0 ts (?p1, [], new_engine_acc)) (\<lambda>(q, cs', a). Inr (q, [], fold observe cs' new_engine_acc))"
    using run_bars_retain [of E H 0 ts ?p1 "[]" "[]" new_engine_acc] by simp
  have case2: "and_then (case x of (vr, q) \<Rightarrow> f vr q) g = (case x of (vr, q) \<Rightarrow> and_then (f vr q) g)" for x f g
    by (cases x) simp
  have assoc: "and_then (and_then m f) g = and_then m (\<lambda>x. and_then (f x) g)" for m f g
    by (cases m) simp_all
  show ?thesis
    unfolding run_validation_def Let_def Inr and_then_simps two
    by (cases "run_bars E H True 0 ts (?p1, [], new_engine_acc)")
      (auto simp: assoc compute_engine_metrics_def case_prod_beta and_then_def split: sum.split)
qed


subsection \<open>One cycle per bar\<close>

lemma cycle_at_bar:
  assumes "run_cycle E R a (at_bar t p) = (q, Inr res)" and "rt_latest R = csv_latest d"
    and "sorted (map fst (csv_df d))" and "t \<in> fst ` set (csv_df d)"
    and "pl_clock p = Simulated_clock c1 c2" and "ca_correlation_id a = Some i" "i \<noteq> []"
  shows "dec_event_time (cr_decision res) = t \<and> cr_correlation_id res = i
    \<and> pl_clock q = Simulated_clock t (t + two_seconds)"
proof -
  have clock: "pl_clock (at_bar t p) = Simulated_clock t (t + two_seconds)"
    using assms(5) by (simp add: at_bar_def set_event_time_def set_processing_time_def)
  obtain p1 r1 where pb: "prepare_bar E R a (at_bar t p) = (p1, r1)" by fastforce
  with assms(1) obtain c where c: "r1 = Inr c" by (cases r1) (auto simp: run_cycle_def)
  with assms(1) pb obtain c2' where body: "cycle_body E R (p1, c) = ((q, c2'), Inr res)"
    by (auto simp: run_cycle_def split: prod.splits)
  from pb c assms(2,6,7) obtain df n k where
    df: "csv_latest d (ca_symbol a) (ca_timeframe a) t n = Inr (df, k)" and
    cy: "cy_id c = i" "cy_event_time c = fst (last df)" "p1 = (at_bar t p)\<lparr>pl_clock := set_event_time (fst (last df)) (pl_clock (at_bar t p)), pl_tick := k\<rparr>"
    by (auto simp: prepare_bar_def Let_def clock now_event_time_def now_processing_time_def split: prod.splits sum.splits if_splits)
  let ?w = "takeWhile (\<lambda>r. fst r \<le> t) (csv_df d)"
  from df have w: "?w \<noteq> []" "df = tail_rows 200 ?w"
    by (auto simp: csv_latest_def csv_get_latest_end)
  then have "last df = last ?w" by (simp add: last_tail_rows)
  moreover have "fst (last ?w) = t"
  proof (rule antisym)
    show "fst (last ?w) \<le> t" using w(1) set_takeWhileD last_in_set by metis
    obtain r where r: "r \<in> set (csv_df d)" "fst r = t" using assms(4) by auto
    then have "r \<in> set ?w" by (simp add: sorted_takeWhile_le [OF assms(3)])
    moreover have "sorted (map fst ?w)"
      unfolding sorted_takeWhile_le [OF assms(3)] by (rule sorted_filter [OF assms(3)])
    ultimately show "t \<le> fst (last ?w)" using r(2) by (cases ?w rule: rev_cases) (auto simp: sorted_append)
  qed
  ultimately have t: "cy_event_time c = t" "fst (last df) = t" using cy(2) by simp_all
  from steadyD [OF steady_cycle_body body] have "pl_clock q = pl_clock p1" by simp
  with cycle_decision_time [OF body] cy t show ?thesis by (simp add: clock set_event_time_def)
qed


lemma bars_one_cycle_each:
  assumes "run_bars E H True i ts (p, cs, acc) = Inr (q, cs', acc')"
    and "rt_latest (ha_runtime H) = csv_latest (ha_data H)" and "sorted (map fst (csv_df (ha_data H)))"
    and "set ts \<subseteq> fst ` set (csv_df (ha_data H))" and "pl_clock p = Simulated_clock c1 c2"
  shows "\<exists>new. cs' = cs @ new \<and> map (\<lambda>c. dec_event_time (cr_decision c)) new = ts
    \<and> map cr_correlation_id new = map (\<lambda>k. cycle_name (i + k) (ts ! k)) [0..<length ts]"
  using assms(1,4,5)
proof (induction ts arbitrary: i p cs c1 c2)
  case (Cons t ts)
  from Cons.prems(1) obtain p1 res where
    c: "run_cycle E (ha_runtime H) (bar_args H i t) (at_bar t p) = (p1, Inr res)" and
    rest: "run_bars E H True (Suc i) ts (p1, cs @ [res], acc) = Inr (q, cs', acc')"
    by (auto split: prod.splits sum.splits)
  have at: "dec_event_time (cr_decision res) = t \<and> cr_correlation_id res = cycle_name i t
      \<and> pl_clock p1 = Simulated_clock t (t + two_seconds)"
    by (rule cycle_at_bar [OF c assms(2,3) _ Cons.prems(3)])
      (use Cons.prems(2) in \<open>simp_all add: bar_args_def cycle_name_def\<close>)
  from Cons.IH [OF rest] Cons.prems(2) at obtain new where
    n: "cs' = (cs @ [res]) @ new" "map (\<lambda>c. dec_event_time (cr_decision c)) new = ts"
    "map cr_correlation_id new = map (\<lambda>k. cycle_name (Suc i + k) (ts ! k)) [0..<length ts]" by auto
  have "map (\<lambda>k. cycle_name (i + k) ((t # ts) ! k)) [0..<length (t # ts)]
      = cycle_name i t # map (\<lambda>k. cycle_name (Suc i + k) (ts ! k)) [0..<length ts]"
    by (simp add: upt_conv_Cons map_Suc_upt [symmetric] o_def del: upt_Suc)
  with n at show ?case by (intro exI [of _ "res # new"]) simp
qed simp

lemma digits_no_underscore: "CHR ''_'' \<notin> set (show_nat n)"
  using show_nat_digits [of "CHR ''_''" n] by auto

lemma takeWhile_show: "takeWhile (\<lambda>c. c \<noteq> CHR ''_'') (show_nat n @ CHR ''_'' # xs) = show_nat n"
  using digits_no_underscore [of n] by (subst takeWhile_append2) auto

lemma cycle_name_inject: "cycle_name i s = cycle_name j t \<Longrightarrow> i = j"
proof -
  assume "cycle_name i s = cycle_name j t"
  then have "show_nat i @ CHR ''_'' # iso_format s = show_nat j @ CHR ''_'' # iso_format t"
    by (simp add: cycle_name_def)
  then have "show_nat i = show_nat j" by (metis takeWhile_show)
  then show "i = j" by simp
qed

text \<open>A validation run simulates every bar of its range exactly once and in order. If the
  runtime reads the same file as the harness, with its rows in time order, then a run that
  succeeds has one cycle per bar after the lookback, the decision of the k-th cycle is dated
  by the k-th bar, and the identifiers of the cycles are all different.\<close>

theorem one_cycle_per_bar:
  assumes "run_validation E H True p0 = Inr (vr, q)"
    and "rt_latest (ha_runtime H) = csv_latest (ha_data H)" and "sorted (map fst (csv_df (ha_data H)))"
    and "pl_clock p0 = Simulated_clock c1 c2"
  shows "\<exists>ts. validation_bars H = Inr ts \<and> ts \<noteq> []
    \<and> map (\<lambda>c. dec_event_time (cr_decision c)) (vr_cycles vr) = ts
    \<and> distinct (map cr_correlation_id (vr_cycles vr))"
proof -
  let ?p1 = "p0\<lparr>pl_tick := Suc (pl_tick p0), pl_bus := ha_clear H (pl_bus p0)\<rparr>"
  from assms(1) obtain ts p2 cycles acc where ts: "validation_bars H = Inr ts"
    and run: "run_bars E H True 0 ts (?p1, [], new_engine_acc) = Inr (p2, cycles, acc)"
    and cyc: "vr_cycles vr = cycles"
    by (auto simp: run_validation_def Let_def and_then_Inr_iff split: prod.splits)
  from ts lookback_at_least_two [of "ha_disk_features H"]
  have sub: "set ts \<subseteq> fst ` set (csv_df (ha_data H))" and ne: "ts \<noteq> []"
    by (auto simp: validation_bars_def csv_timestamps_def and_then_Inr_iff Let_def iloc_def
        dest!: in_set_dropD in_set_takeD split: prod.splits if_splits)
  from bars_one_cycle_each [OF run assms(2,3) sub] assms(4) have
    c: "map (\<lambda>c. dec_event_time (cr_decision c)) cycles = ts"
    "map cr_correlation_id cycles = map (\<lambda>k. cycle_name k (ts ! k)) [0..<length ts]" by auto
  have "distinct (map cr_correlation_id cycles)"
    unfolding c(2) distinct_map by (auto intro: inj_onI cycle_name_inject)
  with ts ne c(1) show ?thesis by (simp add: cyc)
qed


subsection \<open>Liquidation\<close>

lemma liquidate_loop_spec:
  assumes "liquidate_loop E X a b snap ps (st, n) = (evs, trs, st', k)"
  shows "list_all2 (\<lambda>p tr. \<exists>fl x r. tr_body tr = Position_closed (position_id p) fl x r)
      (filter (\<lambda>p. pos_symbol p = xa_symbol a) ps) trs
    \<and> (\<forall>tr \<in> set trs. tr_portfolio_id tr = pf_portfolio_id (snap_portfolio snap))"
  using assms
proof (induction ps arbitrary: st n evs trs st' k)
  case (Cons p ps)
  show ?case
  proof (cases "pos_symbol p = xa_symbol a")
    case False
    with Cons show ?thesis by simp
  next
    case True
    obtain evs1 tr st1 n1 where 1: "close_position E X a p (bar_close b) Exit_end_of_run snap (st, n) = (evs1, tr, st1, n1)"
      by (metis prod_cases4)
    obtain evs2 trs2 st2 k2 where 2: "liquidate_loop E X a b snap ps (st1, n1) = (evs2, trs2, st2, k2)"
      by (metis prod_cases4)
    from Cons.prems True 1 2 have "trs = tr # trs2" by simp
    with Cons.IH [OF 2] close_position_spec [OF 1] True show ?thesis by auto
  qed
qed simp

lemma closing_bodies:
  assumes "list_all2 (\<lambda>p tr. \<exists>fl x r. tr_body tr = Position_closed (position_id p) fl x r) ps trs"
    and "distinct (map position_id (book s))" and "distinct ps" and "set ps \<subseteq> set (book s)"
  shows "book (run_bodies trs s) = filter (\<lambda>p. p \<notin> set ps) (book s)
    \<and> equity (st_portfolio (run_bodies trs s)) - cash (st_portfolio (run_bodies trs s))
      = equity (st_portfolio s) - cash (st_portfolio s) - sum_list (map notional ps)"
  using assms
proof (induction ps trs arbitrary: s rule: list_all2_induct)
  case (Cons p ps tr trs)
  obtain fl x r where tr: "tr_body tr = Position_closed (position_id p) fl x r" using Cons.hyps(1) by blast
  let ?s = "apply_body (tr_body tr) (tr_event_time tr) s"
  have same: "position_id y = position_id p \<longleftrightarrow> y = p" if "y \<in> set (book s)" for y
    using distinct_map_eqD [OF Cons.prems(1) that, of p] Cons.prems(3) by auto
  have b: "book ?s = filter (\<lambda>y. y \<noteq> p) (book s)"
    using same by (simp add: tr apply_body_def cong: filter_cong)
  have d: "distinct (map position_id (book ?s))" unfolding b by (rule distinct_map_filter [OF Cons.prems(1)])
  from find_by_id [OF Cons.prems(1)] Cons.prems(3)
  have f: "List.find (\<lambda>y. position_id y = position_id p) (book s) = Some p" by simp
  have "set ps \<subseteq> set (book ?s)" using Cons.prems(2,3) unfolding b by auto
  from Cons.IH [OF d _ this] Cons.prems(2) have
    "book (run_bodies trs ?s) = filter (\<lambda>y. y \<notin> set ps) (book ?s)"
    "equity (st_portfolio (run_bodies trs ?s)) - cash (st_portfolio (run_bodies trs ?s))
      = equity (st_portfolio ?s) - cash (st_portfolio ?s) - sum_list (map notional ps)" by simp_all
  moreover have "equity (st_portfolio ?s) - cash (st_portfolio ?s)
      = equity (st_portfolio s) - cash (st_portfolio s) - notional p"
    by (simp add: tr apply_body_def cash_closed f)
  moreover have "filter (\<lambda>y. y \<notin> set ps) (book ?s) = filter (\<lambda>y. y \<notin> set (p # ps)) (book s)"
    unfolding b by (simp add: conj_commute)
  ultimately show ?case by simp
qed simp

text \<open>C37: a run closes its book, and counts the open profit twice. Liquidating a marked platform
  (equity is cash plus the market value of the positions) leaves no position of the run's
  symbol and touches no other; but its equity ends above cash plus market value by the
  unrealised profit of everything it closed, so the ending equity and the return of a run
  that ends with open positions are too high by exactly that profit (too low for a loss).\<close>

theorem liquidation_counts_profit_twice:
  assumes "liquidate_open_run E H t p = Inr q" and "rt_exec (ha_runtime H) = Some X"
    and "marked (pl_store p)" and "distinct (map position_id (book (pl_store p)))"
    and "pf_portfolio_id (st_portfolio (pl_store p)) = st_portfolio_id (pl_store p)"
  shows "book (pl_store q) = filter (\<lambda>y. pos_symbol y \<noteq> vc_symbol (ha_config H)) (book (pl_store p))
    \<and> equity (st_portfolio (pl_store q)) = cash (st_portfolio (pl_store q))
        + sum_list (map market_value (book (pl_store q)))
        + sum_list (map unrealized_pnl (filter (\<lambda>y. pos_symbol y = vc_symbol (ha_config H)) (book (pl_store p))))"
proof -
  let ?sym = "vc_symbol (ha_config H)" and ?s = "pl_store p"
  let ?out = "filter (\<lambda>y. pos_symbol y = ?sym) (book ?s)" and ?in = "filter (\<lambda>y. pos_symbol y \<noteq> ?sym) (book ?s)"
  have "sum_list (map market_value xs) = sum_list (map market_value (filter (\<lambda>y. pos_symbol y \<noteq> ?sym) xs))
      + sum_list (map market_value (filter (\<lambda>y. pos_symbol y = ?sym) xs))" for xs
    by (induction xs) auto
  note split = this [of "book ?s"]
  have mv: "sum_list (map market_value ?out) = sum_list (map notional ?out) + sum_list (map unrealized_pnl ?out)"
    by (simp add: sum_list_addf [symmetric] market_value_def [abs_def] add.commute)
  show ?thesis
  proof (cases "?out = []")
    case True
    with assms(1,2) have "q = p" by (auto simp: liquidate_open_run_def get_portfolio_def and_then_Inr_iff)
    moreover from True have "?in = book ?s" by (auto simp: filter_empty_conv filter_id_conv)
    ultimately show ?thesis using assms(3) True by (simp add: marked_def)
  next
    case False
    from assms(1,2) False obtain df where df: "df \<noteq> []"
      "csv_get_latest (ha_data H) ?sym (vc_timeframe (ha_config H)) 200 (Some t) = Inr df"
      by (auto simp: liquidate_open_run_def get_portfolio_def and_then_Inr_iff split: if_splits simp del: append.simps)
    with assms(1,2) False obtain snap s1 n1 where
      sn: "snapshot E (rt_portfolio_id (ha_runtime H)) (Some (''val_liquidate_'' @ iso_format t)) (?s, pl_tick p) = Inr (snap, s1, n1)"
      by (auto simp: liquidate_open_run_def get_portfolio_def and_then_Inr_iff split: if_splits simp del: append.simps)
    obtain bar where bar: "bar = snd (last df)" by simp
    have rest: "(case liquidate_open_positions E X (liquidate_args H t) bar snap (pl_exec p, n1) of
          (res, st, n2) \<Rightarrow> and_then (apply_transitions E (er_transitions res) (s1, n2)) (\<lambda>(s2, n3).
            let q = p\<lparr>pl_store := s2, pl_exec := st, pl_tick := n3\<rparr>
            in if er_events res = [] then Inr q
               else (case publish_many (rt_publish (ha_runtime H)) (er_events res) (pl_bus q) of
                       (w, Inl e) \<Rightarrow> Inl e
                     | (w, Inr _) \<Rightarrow> Inr (q\<lparr>pl_bus := w\<rparr>)))) = Inr q"
      using assms(1,2) False df sn
      by (simp add: bar liquidate_open_run_def get_portfolio_def and_then_Inr_iff split: if_splits del: append.simps)
    obtain res st n2 where lq: "liquidate_open_positions E X (liquidate_args H t) (bar) snap (pl_exec p, n1) = (res, st, n2)"
      by (metis prod_cases3)
    from rest lq obtain s2 n3 where
      ap: "apply_transitions E (er_transitions res) (s1, n2) = Inr (s2, n3)" and
      q: "pl_store q = s2"
      by (auto simp: and_then_Inr_iff Let_def split: if_splits prod.splits sum.splits)
    from sn have s1: "same_view s1 ?s" "snap_portfolio snap = st_portfolio ?s" "st_portfolio s1 = st_portfolio ?s"
      "st_portfolio_id s1 = st_portfolio_id ?s"
      by (auto simp: snapshot_eq same_view_def Let_def split: if_splits)
    from lq obtain evs trs st' where l:
      "liquidate_loop E X (liquidate_args H t) (bar) snap (book ?s) (pl_exec p, n1) = (evs, trs, st', n2)"
      "er_transitions res = trs"
      by (auto simp: liquidate_open_positions_def s1 split: prod.splits)
    from liquidate_loop_spec [OF l(1)] assms(5) have
      all2: "list_all2 (\<lambda>p tr. \<exists>fl x r. tr_body tr = Position_closed (position_id p) fl x r) ?out trs"
      and ids: "\<forall>tr \<in> set trs. tr_portfolio_id tr = st_portfolio_id s1"
      by (simp_all add: liquidate_args_def s1)
    from apply_transitions_total [OF ids, of E n2] ap l(2) have "same_view s2 (run_bodies trs s1)" by auto
    then have "st_portfolio s2 = st_portfolio (run_bodies trs s1)" by (simp add: same_view_def)
    moreover from closing_bodies [OF all2, of s1] assms(4) have
      "book (run_bodies trs s1) = filter (\<lambda>y. y \<notin> set ?out) (book ?s)
       \<and> equity (st_portfolio (run_bodies trs s1)) - cash (st_portfolio (run_bodies trs s1))
         = equity (st_portfolio ?s) - cash (st_portfolio ?s) - sum_list (map notional ?out)"
      by (simp add: s1 distinct_map)
    moreover have "filter (\<lambda>y. y \<notin> set ?out) (book ?s) = ?in" by (rule filter_cong) auto
    ultimately show ?thesis using assms(3) split mv by (simp add: q marked_def)
  qed
qed


subsection \<open>Runs that return\<close>

text \<open>The collaborators of a runtime behave, whatever its data provider does.\<close>

definition willing :: "env \<Rightarrow> ('p, 'w) runtime \<Rightarrow> bool" where
  "willing E R \<longleftrightarrow> cooperative E (R\<lparr>rt_latest := \<lambda>s tf e n. Inr ([], n)\<rparr>)"

lemma willing_total:
  "willing E R \<Longrightarrow> (\<And>s tf e n. \<exists>df k. f s tf e n = Inr (df, k)) \<Longrightarrow> cooperative E (R\<lparr>rt_latest := f\<rparr>)"
  unfolding willing_def cooperative_def by simp

lemma file_cycle_returns:
  assumes "sound E R p" and "env_distinct E" and "willing E R" and "rt_latest R = csv_latest d"
    and "pl_clock p = Simulated_clock t c2" and "csv_symbol d = ca_symbol a" and "csv_timeframe d = ca_timeframe a"
    and "r \<in> set (csv_df d)" and "fst r = t" and "sorted (map fst (csv_df d))"
  shows "\<exists>q res. run_cycle E R a p = (q, Inr res)"
proof -
  obtain b where b: "b = snd r" by simp
  let ?f = "\<lambda>s tf e n. case csv_latest d s tf e n of Inr x \<Rightarrow> Inr x | Inl _ \<Rightarrow> Inr ([(e, b)], n)"
  have md: "market_data ?f"
    using csv.latest_nonempty [of d] csv.latest_upto [of d] csv.latest_tick [of d]
    by unfold_locales (fastforce split: sum.splits)+
  have co: "cooperative E (R\<lparr>rt_latest := ?f\<rparr>)"
    by (rule willing_total [OF assms(3)]) (auto split: sum.splits)
  have so: "sound E (R\<lparr>rt_latest := ?f\<rparr>) p" using assms(1) by (simp add: sound_def)
  have "r \<in> set (takeWhile (\<lambda>r. fst r \<le> t) (csv_df d))"
    using assms(8,9) by (simp add: sorted_takeWhile_le [OF assms(10)])
  then have some: "\<exists>x. csv_latest d (ca_symbol a) (ca_timeframe a) t n = Inr x" for n
    using assms(6,7,8) by (auto simp: csv_latest_def csv_get_latest_def csv_validate_def search_right_def Let_def)
  have "?f (ca_symbol a) (ca_timeframe a) t n = rt_latest R (ca_symbol a) (ca_timeframe a) t n" for n
    using some [of n] assms(4) by auto
  then have "run_cycle E (R\<lparr>rt_latest := ?f\<rparr>) a p = run_cycle E R a p"
    by (intro run_cycle_data [where t = t]) (simp_all add: assms(5) now_event_time_def)
  with cycle_total [OF so assms(2) _ co, of a] md show ?thesis by simp
qed

lemma bars_return:
  assumes "env_distinct E" and "willing E (ha_runtime H)" and "rt_latest (ha_runtime H) = csv_latest (ha_data H)"
    and "csv_symbol (ha_data H) = vc_symbol (ha_config H)" and "csv_timeframe (ha_data H) = vc_timeframe (ha_config H)"
    and "sorted (map fst (csv_df (ha_data H)))" and "set ts \<subseteq> fst ` set (csv_df (ha_data H))"
    and "sound E (ha_runtime H) p" and "pl_clock p = Simulated_clock c1 c2"
  shows "\<exists>q cs' acc'. run_bars E H retain i ts (p, cs, acc) = Inr (q, cs', acc') \<and> sound E (ha_runtime H) q"
  using assms(7-9)
proof (induction ts arbitrary: i p cs acc c1 c2)
  case (Cons t ts)
  let ?a = "bar_args H i t"
  have args: "ca_symbol ?a = vc_symbol (ha_config H)" "ca_timeframe ?a = vc_timeframe (ha_config H)"
    "ca_correlation_id ?a = Some (cycle_name i t)" "cycle_name i t \<noteq> []"
    by (simp_all add: bar_args_def cycle_name_def)
  have so: "sound E (ha_runtime H) (at_bar t p)"
    by (rule sound_frame [OF Cons.prems(2)]) (simp_all add: at_bar_def)
  have clock: "pl_clock (at_bar t p) = Simulated_clock t (t + two_seconds)"
    using Cons.prems(3) by (simp add: at_bar_def set_event_time_def set_processing_time_def)
  from Cons.prems(1) obtain r where r: "r \<in> set (csv_df (ha_data H))" "fst r = t" by auto
  obtain q res where q: "run_cycle E (ha_runtime H) ?a (at_bar t p) = (q, Inr res)"
    using file_cycle_returns [OF so assms(1,2,3) clock _ _ r assms(6), of ?a] args assms(4,5) by auto
  have md: "market_data (rt_latest (ha_runtime H))" by (simp add: assms(3) csv.market_data_axioms)
  have "sound E (ha_runtime H) q" by (rule run_cycle_sound [OF so assms(1) md q])
  moreover have "pl_clock q = Simulated_clock t (t + two_seconds)"
    using cycle_at_bar [OF q assms(3,6) _ Cons.prems(3) args(3,4)] r by auto
  ultimately show ?case using Cons.IH Cons.prems(1) by (simp add: q)
qed simp

lemma willing_publishes:
  "willing E R \<Longrightarrow> \<exists>w'. publish_many (rt_publish R) evs w = (w', Inr ())"
proof (induction evs arbitrary: w)
  case (Cons e evs)
  then have "\<exists>w'. rt_publish R e w = (w', Inr ())" by (simp add: willing_def cooperative_def)
  with Cons show ?case by fastforce
qed simp

lemma liquidation_returns:
  assumes "sound E (ha_runtime H) p" and "willing E (ha_runtime H)"
    and "csv_symbol (ha_data H) = vc_symbol (ha_config H)" and "csv_timeframe (ha_data H) = vc_timeframe (ha_config H)"
    and "r \<in> set (csv_df (ha_data H))" and "fst r = t" and "sorted (map fst (csv_df (ha_data H)))"
  shows "\<exists>q. liquidate_open_run E H t p = Inr q \<and> st_portfolio_id (pl_store q) = rt_portfolio_id (ha_runtime H)"
proof -
  let ?s = "pl_store p" and ?id = "rt_portfolio_id (ha_runtime H)"
  have ids: "st_portfolio_id ?s = ?id" "pf_portfolio_id (st_portfolio ?s) = ?id"
    using assms(1) by (simp_all add: sound_def coherent_book_def)
  then have pf: "get_portfolio ?id ?s = Inr (st_portfolio ?s)" by (simp add: get_portfolio_def assert_portfolio_def)
  show ?thesis
  proof (cases "rt_exec (ha_runtime H)")
    case (Some X)
    show ?thesis
    proof (cases "filter (\<lambda>q. pos_symbol q = vc_symbol (ha_config H)) (book ?s) = []")
      case False
      have "r \<in> set (takeWhile (\<lambda>r. fst r \<le> t) (csv_df (ha_data H)))"
        using assms(5,6) by (simp add: sorted_takeWhile_le [OF assms(7)])
      then have "takeWhile (\<lambda>r. fst r \<le> t) (csv_df (ha_data H)) \<noteq> []" by (metis empty_iff empty_set)
      with csv_get_latest_end [of "ha_data H" "vc_symbol (ha_config H)" "vc_timeframe (ha_config H)" 200 t] assms(3-5)
      obtain df where df: "csv_get_latest (ha_data H) (vc_symbol (ha_config H)) (vc_timeframe (ha_config H)) 200 (Some t) = Inr df" "df \<noteq> []"
        by (fastforce simp: csv_validate_def)
      obtain snap s1 n1 where sn: "snapshot E ?id (Some (''val_liquidate_'' @ iso_format t)) (?s, pl_tick p) = Inr (snap, s1, n1)"
        using ids(1) by (auto simp: snapshot_eq Let_def)
      from snapshot_view [OF this] ids have v: "same_view ?s s1" "snap_portfolio snap = st_portfolio ?s"
        "st_portfolio_id s1 = ?id" by (auto simp: same_view_def)
      obtain res st n2 where lq: "liquidate_open_positions E X (liquidate_args H t) (snd (last df)) snap (pl_exec p, n1) = (res, st, n2)"
        by (metis prod_cases3)
      from lq obtain evs st' where "liquidate_loop E X (liquidate_args H t) (snd (last df)) snap (book ?s) (pl_exec p, n1)
          = (evs, er_transitions res, st', n2)"
        by (auto simp: liquidate_open_positions_def v split: prod.splits)
      from liquidate_loop_spec [OF this] v ids have "\<forall>tr \<in> set (er_transitions res). tr_portfolio_id tr = st_portfolio_id s1" by simp
      from apply_transitions_total [OF this, of E n2] obtain s2 where
        ap: "apply_transitions E (er_transitions res) (s1, n2) = Inr (s2, n2 + 2 * length (er_transitions res))"
          "same_view s2 (run_bodies (er_transitions res) s1)" by blast
      have "st_portfolio_id s2 = ?id" using ap(2) v(3) by (simp add: same_view_def)
      moreover obtain w where "publish_many (rt_publish (ha_runtime H)) (er_events res) (pl_bus p) = (w, Inr ())"
        using willing_publishes [OF assms(2)] by blast
      ultimately show ?thesis
        using False by (simp add: liquidate_open_run_def Some pf df sn lq ap(1) Let_def del: append.simps)
    qed (simp add: liquidate_open_run_def Some pf ids)
  qed (simp add: liquidate_open_run_def ids)
qed

lemma outcome_returns: "cap \<noteq> 0 \<Longrightarrow> \<exists>om. compute_outcome_metrics evs cap fin = Inr om"
  by (auto simp: compute_outcome_metrics_def mtm_figures_def compute_equity_timeline_def Let_def case_prod_beta
      split: prod.splits)

lemma validation_total:
  assumes "sound E (ha_runtime H) p0" and "pl_clock p0 = Simulated_clock c1 c2" and "env_distinct E"
    and "willing E (ha_runtime H)" and "rt_latest (ha_runtime H) = csv_latest (ha_data H)"
    and "sorted (map fst (csv_df (ha_data H)))" and "validation_bars H = Inr ts"
    and "vc_initial_capital (ha_config H) \<noteq> 0"
  shows "\<exists>vr q. run_validation E H retain p0 = Inr (vr, q) \<and> (retain \<longrightarrow> length (vr_cycles vr) = length ts)"
proof -
  let ?p1 = "p0\<lparr>pl_tick := Suc (pl_tick p0), pl_bus := ha_clear H (pl_bus p0)\<rparr>"
  from assms(7) lookback_at_least_two [of "ha_disk_features H"]
  have sub: "set ts \<subseteq> fst ` set (csv_df (ha_data H))" and ne: "ts \<noteq> []"
    and keys: "csv_symbol (ha_data H) = vc_symbol (ha_config H)" "csv_timeframe (ha_data H) = vc_timeframe (ha_config H)"
    by (auto simp: validation_bars_def csv_timestamps_def and_then_Inr_iff Let_def iloc_def csv_validate_def
        dest!: in_set_dropD in_set_takeD split: prod.splits if_splits)
  have "sound E (ha_runtime H) ?p1" by (rule sound_frame [OF assms(1)]) simp_all
  from bars_return [OF assms(3-5) keys assms(6) sub this, of c1 c2 retain 0 "[]" new_engine_acc] assms(2)
  obtain p2 cycles acc where run: "run_bars E H retain 0 ts (?p1, [], new_engine_acc) = Inr (p2, cycles, acc)"
    and p2: "sound E (ha_runtime H) p2" by auto
  from sub ne obtain r where "r \<in> set (csv_df (ha_data H))" "fst r = last ts"
    by (metis (no_types, opaque_lifting) image_iff last_in_set subsetD)
  from liquidation_returns [OF p2 assms(4) keys this assms(6)] obtain p3 where
    lq: "liquidate_open_run E H (last ts) p2 = Inr p3" "st_portfolio_id (pl_store p3) = rt_portfolio_id (ha_runtime H)"
    by blast
  have pf: "get_portfolio (rt_portfolio_id (ha_runtime H)) (pl_store p3) = Inr (st_portfolio (pl_store p3))"
    using lq(2) by (simp add: get_portfolio_def assert_portfolio_def)
  have len: "retain \<Longrightarrow> length cycles = length ts"
  proof -
    assume retain
    with run bars_one_cycle_each [OF _ assms(5,6) sub, of E 0 ?p1 "[]" new_engine_acc p2 cycles acc c1 c2] assms(2)
    show "length cycles = length ts" by (auto dest: arg_cong [where f = length])
  qed
  obtain om where "compute_outcome_metrics (ha_logged H (pl_bus p3)) (vc_initial_capital (ha_config H))
      (Some (equity (st_portfolio (pl_store p3)))) = Inr om"
    using outcome_returns [OF assms(8)] by blast
  with len show ?thesis by (simp add: run_validation_def Let_def assms(7) run lq(1) pf)
qed



subsection \<open>A concrete harness\<close>

definition demo_file :: csv_provider where
  "demo_file = \<lparr>csv_symbol = ''BTC'', csv_timeframe = ''1h'',
     csv_df = [(0, demo_candle), (3600, demo_candle), (7200, demo_candle), (10800, demo_candle)]\<rparr>"

definition demo_harness :: "(unit, unit) harness" where
  "demo_harness = \<lparr>ha_runtime = demo_runtime\<lparr>rt_latest := csv_latest demo_file\<rparr>, ha_data = demo_file,
     ha_logged = (\<lambda>_. []), ha_clear = id, ha_disk_features = \<lparr>fc_version = ''1'', fc_indicators = [], fc_flags = [],
       fc_context = fc_context demo_features\<rparr>,
     ha_config = \<lparr>vc_symbol = ''BTC'', vc_timeframe = ''1h'', vc_start = 0, vc_end = 7200, vc_csv_path = None,
       vc_initial_capital = 10000\<rparr>, ha_revision_id = None, ha_experiment_id = None\<rparr>"

definition demo_start :: "unit platform" where
  "demo_start = demo_platform\<lparr>pl_clock := Simulated_clock 0 0\<rparr>"

lemma demo_harness_facts:
  "sound unary_env (ha_runtime demo_harness) demo_start" "willing unary_env (ha_runtime demo_harness)"
  "rt_latest (ha_runtime demo_harness) = csv_latest (ha_data demo_harness)"
  "sorted (map fst (csv_df (ha_data demo_harness)))" "validation_bars demo_harness = Inr [7200]"
  "vc_initial_capital (ha_config demo_harness) \<noteq> 0"
proof -
  show "sound unary_env (ha_runtime demo_harness) demo_start"
    using demo_sound by (simp add: sound_def demo_start_def demo_harness_def)
  show "willing unary_env (ha_runtime demo_harness)"
    using demo_cooperative by (simp add: willing_def cooperative_def demo_harness_def)
  show "validation_bars demo_harness = Inr [7200]"
    by (simp add: validation_bars_def csv_timestamps_def csv_validate_def demo_harness_def demo_file_def
        range_slice_def search_left_def search_right_def iloc_def compute_min_lookback_bars_def)
qed (simp_all add: demo_harness_def demo_file_def)

lemma demo_start_clock: "pl_clock demo_start = Simulated_clock 0 0"
  by (simp add: demo_start_def)


lemma demo_run:
  obtains vr q where "run_validation unary_env demo_harness True demo_start = Inr (vr, q)"
  using validation_total [OF demo_harness_facts(1) demo_start_clock unary_env_distinct demo_harness_facts(2-6), of True] by blast

theorem one_cycle_per_bar_witness:
  "\<exists>vr q. run_validation unary_env demo_harness True demo_start = Inr (vr, q)
     \<and> map (\<lambda>c. dec_event_time (cr_decision c)) (vr_cycles vr) = [7200]"
proof -
  obtain vr q where r: "run_validation unary_env demo_harness True demo_start = Inr (vr, q)" by (rule demo_run)
  from one_cycle_per_bar [OF r demo_harness_facts(3,4) demo_start_clock] r demo_harness_facts(5) show ?thesis by simp
qed

text \<open>The same file with another last row.\<close>

definition demo_later_file :: csv_provider where
  "demo_later_file = demo_file\<lparr>csv_df := take 3 (csv_df demo_file) @ [(10800, demo_candle\<lparr>bar_close := 1\<rparr>)]\<rparr>"

theorem run_never_looks_ahead_witness:
  "run_bars unary_env (over_file demo_later_file demo_harness) True 0 [3600, 7200] (demo_start, [], new_engine_acc)
     = run_bars unary_env (over_file demo_file demo_harness) True 0 [3600, 7200] (demo_start, [], new_engine_acc)
   \<and> csv_df demo_later_file \<noteq> csv_df demo_file"
proof
  show "run_bars unary_env (over_file demo_later_file demo_harness) True 0 [3600, 7200] (demo_start, [], new_engine_acc)
     = run_bars unary_env (over_file demo_file demo_harness) True 0 [3600, 7200] (demo_start, [], new_engine_acc)"
    by (rule run_never_looks_ahead [where T = 7200 and ?t0.0 = 0, OF _ _ _ _ _ _ _ demo_start_clock, THEN conjunct1])
      (simp_all add: demo_later_file_def demo_file_def)
  show "csv_df demo_later_file \<noteq> csv_df demo_file"
    by (simp add: demo_later_file_def demo_file_def demo_candle_def)
qed

text \<open>A platform with one position, in profit at the last mark.\<close>

definition demo_held :: position_state where
  "demo_held = demo_position\<lparr>position_id := fresh_id unary_env ''pos_'' 0\<rparr>"

definition demo_invested :: "unit platform" where
  "demo_invested = demo_start\<lparr>pl_exec := init_exec_state\<lparr>position_bars := [(position_id demo_held, 0)],
       position_orders := [(position_id demo_held, ''o'')]\<rparr>,
     pl_store := apply_mark_to_market [''BTC'' \<mapsto> 110] 1 (apply_position_opened demo_held 201 0 (pl_store demo_start))\<rparr>"

theorem liquidation_counts_profit_twice_witness:
  "\<exists>q. liquidate_open_run unary_env demo_harness 7200 demo_invested = Inr q
     \<and> equity (st_portfolio (pl_store q)) = cash (st_portfolio (pl_store q)) + 20"
proof -
  let ?s = "pl_store demo_invested"
  have b: "book ?s = [demo_held\<lparr>unrealized_pnl := 20\<rparr>]"
    by (simp add: demo_invested_def demo_held_def demo_start_def demo_platform_def new_platform_def demo_simps revalue_def mark_pnl_def)
  have sy: "pos_symbol demo_held = vc_symbol (ha_config demo_harness)"
    by (simp add: demo_held_def demo_position_def demo_harness_def)
  have m: "marked ?s" by (simp add: demo_invested_def marked_mark)
  have s: "sound unary_env (ha_runtime demo_harness) demo_invested"
    using demo_harness_facts(1) b
    by (auto simp: sound_def coherent_book_def tracks_def ids_before_def demo_invested_def demo_held_def demo_start_def
        demo_platform_def new_platform_def init_exec_state_def dict_keys_def demo_simps demo_harness_def demo_runtime_def
        demo_setup_def apply_mark_to_market_def apply_position_opened_def default_limits_def)
  obtain q where q: "liquidate_open_run unary_env demo_harness 7200 demo_invested = Inr q"
    using liquidation_returns [OF s demo_harness_facts(2), of "(7200, demo_candle)" 7200]
    by (auto simp: demo_harness_def demo_file_def)
  have x: "rt_exec (ha_runtime demo_harness) = Some (demo_setup At_close)" by (simp add: demo_harness_def demo_runtime_def)
  have i: "pf_portfolio_id (st_portfolio ?s) = st_portfolio_id ?s" using s by (simp add: sound_def coherent_book_def)
  from liquidation_counts_profit_twice [OF q x m _ i] b sy q show ?thesis by simp
qed

end
