(* ===== verification/RunFigures.thy ===== *)
theory RunFigures
  imports OutcomeMetrics
begin

text \<open>
  The figures of a validation run, for the events the platform really publishes: what the
  engine counts over the cycles of a run, and the two figures that do not measure what they
  are named after, the snapshot coverage and the breakdown by confidence.
\<close>


subsection \<open>The decision events of a cycle\<close>

lemma cycle_snapshot_id:
  assumes "market_data (rt_latest R)" and "run_cycle E R a p = (q, Inr res)"
  shows "snapshot_id (cr_snapshot res) \<noteq> []"
proof -
  from run_cycle_Inr [OF assms(2,1)] obtain c p1 c2 where "cycle_body E R (p1, c) = ((q, c2), Inr res)" by metis
  then show ?thesis
  proof (cases rule: cycle_body_E)
    case (1 s1 s2 s3 s4 s5 s6 s7 s8 s9 fs mc snap sigs d)
    have "snapshot_id snap \<noteq> []"
      using 1(6) by (cases s5) (auto simp: take_snapshot_def with_store_def snapshot_eq Let_def fresh_id_def split: if_splits sum.splits)
    then show ?thesis by (simp add: 1(11))
  qed
qed

lemma cycle_decision_events:
  assumes "rt_emit R" and "market_data (rt_latest R)" and "run_cycle E R a p = (q, Inr res)"
  shows "\<exists>made outcome. filter (\<lambda>e. ev_family e = Fam_decision) (cr_events res) = [made, outcome]
    \<and> (ev_type made, ev_payload made) = (DecisionMade, P_decision_made (decision_id (cr_decision res))
         (dr_value (dec_result (cr_decision res))) (snapshot_id (cr_snapshot res)) (dec_log (cr_decision res)))
    \<and> (ev_type outcome, ev_payload outcome) = outcome_content (cr_snapshot res) (cr_decision res)"
proof -
  obtain c candle feat mctx ops made outcome pub n k where
    evs: "cr_events res = [candle, feat, mctx] @ ops @ [made, outcome] @ pub @ cr_execution_events res" and
    b: "bears R c Fam_market CandleReceived (P_candle (cy_bar c)) candle"
    "bears R c Fam_market FeatureSetBuilt
       (P_features (feature_set_id (cr_feature_set res)) (feature_version (cr_feature_set res))
          (config_hash (cr_feature_set res)) (indicators (cr_feature_set res)) (flags (cr_feature_set res))) feat"
    "bears R c Fam_market MarketContextDerived (P_context (cr_context res)) mctx" and
    ops: "\<forall>e \<in> set ops. bears R c Fam_signal (ev_type e) (ev_payload e) e" and
    m: "bears R c Fam_decision DecisionMade
        (P_decision_made (decision_id (cr_decision res)) (dr_value (dec_result (cr_decision res)))
           (snapshot_id (cr_snapshot res)) (dec_log (cr_decision res))) made" and
    o: "bears R c Fam_decision (fst (outcome_content (cr_snapshot res) (cr_decision res)))
       (snd (outcome_content (cr_snapshot res) (cr_decision res))) outcome" and
    pub: "\<forall>e \<in> set pub. bears R c Fam_execution (ev_type e) (ev_payload e) e"
    by (rule cycle_trace [OF assms]) (rule that; assumption)
  have ex: "\<forall>e \<in> set (cr_execution_events res). ev_family e = Fam_execution"
    using cycle_stamped(2) [OF assms(3,2)] by (simp add: engine_made_def)
  from ops pub ex have "filter (\<lambda>e. ev_family e = Fam_decision) ops = []"
    "filter (\<lambda>e. ev_family e = Fam_decision) pub = []"
    "filter (\<lambda>e. ev_family e = Fam_decision) (cr_execution_events res) = []" by (simp_all add: filter_empty_conv bears_def)
  with b m o show ?thesis unfolding evs by (intro exI [of _ made] exI [of _ outcome]) (simp add: bears_def)
qed

text \<open>The cycles of a run: each was returned by the runtime.\<close>

definition cycles_of :: "env \<Rightarrow> ('p, 'w) runtime \<Rightarrow> cycle_result list \<Rightarrow> bool" where
  "cycles_of E R cs \<longleftrightarrow> (\<forall>c \<in> set cs. \<exists>a p q. run_cycle E R a p = (q, Inr c))"

abbreviation approved_in :: "cycle_result list \<Rightarrow> nat" where
  "approved_in cs \<equiv> length (filter (\<lambda>c. is_approved (cr_decision c)) cs)"

abbreviation counts :: "event \<Rightarrow> bool" where
  "counts e \<equiv> ev_type e \<in> {DecisionMade, DecisionApproved} \<and> key_snapshot_id (ev_payload e) \<noteq> []"

lemma run_decision_events:
  assumes "rt_emit R" and "market_data (rt_latest R)" and "cycles_of E R cs"
  shows "length (filter (\<lambda>e. ev_family e = Fam_decision) (concat (map cr_events cs))) = 2 * length cs
    \<and> length (filter counts (filter (\<lambda>e. ev_family e = Fam_decision) (concat (map cr_events cs)))) = length cs + approved_in cs
    \<and> (\<forall>e \<in> set (filter (\<lambda>e. ev_family e = Fam_decision) (concat (map cr_events cs))). key_snapshot_id (ev_payload e) \<noteq> [])"
  using assms(3)
proof (induction cs)
  case (Cons c cs)
  then obtain a p q where r: "run_cycle E R a p = (q, Inr c)" by (auto simp: cycles_of_def)
  obtain made outcome where d: "filter (\<lambda>e. ev_family e = Fam_decision) (cr_events c) = [made, outcome]"
    "(ev_type made, ev_payload made) = (DecisionMade, P_decision_made (decision_id (cr_decision c))
         (dr_value (dec_result (cr_decision c))) (snapshot_id (cr_snapshot c)) (dec_log (cr_decision c)))"
    "(ev_type outcome, ev_payload outcome) = outcome_content (cr_snapshot c) (cr_decision c)"
    using cycle_decision_events [OF assms(1,2) r] by blast
  have i: "snapshot_id (cr_snapshot c) \<noteq> []" by (rule cycle_snapshot_id [OF assms(2) r])
  have "key_snapshot_id (ev_payload made) \<noteq> []" "key_snapshot_id (ev_payload outcome) \<noteq> []" "counts made"
    "counts outcome = is_approved (cr_decision c)"
    using d(2,3) i by (auto simp: outcome_content_def key_snapshot_id_def split: if_splits)
  moreover from Cons have "cycles_of E R cs" by (simp add: cycles_of_def)
  ultimately show ?case using Cons.IH d(1) by (simp del: insert_iff)
qed simp


subsection \<open>What the engine counts\<close>

lemma sum_counts: "sum_list (map snd (count_in d k)) = sum_list (map snd d) + 1 \<and> distinct (dict_keys (count_in d k))"
  if "distinct (dict_keys d)"
  using sum_count_in [OF that] distinct_dict_set [OF that] by (simp add: count_in_def)

lemma observe_fold:
  assumes "distinct (dict_keys (ea_reasons acc))" and "distinct (dict_keys (ea_stages acc))"
  shows "ea_total (fold observe cs acc) = ea_total acc + length cs
    \<and> ea_approved (fold observe cs acc) = ea_approved acc + approved_in cs
    \<and> sum_list (map snd (ea_reasons (fold observe cs acc))) = sum_list (map snd (ea_reasons acc)) + (length cs - approved_in cs)
    \<and> sum_list (map snd (ea_stages (fold observe cs acc))) = sum_list (map snd (ea_stages acc)) + (length cs - approved_in cs)"
  using assms
proof (induction cs arbitrary: acc)
  case (Cons c cs)
  have keep: "ea_total (observe c acc) = Suc (ea_total acc)"
    "ea_approved (observe c acc) = ea_approved acc + (if is_approved (cr_decision c) then 1 else 0)"
    "distinct (dict_keys (ea_reasons (observe c acc)))" "distinct (dict_keys (ea_stages (observe c acc)))"
    "sum_list (map snd (ea_reasons (observe c acc))) = sum_list (map snd (ea_reasons acc)) + (if is_approved (cr_decision c) then 0 else 1)"
    "sum_list (map snd (ea_stages (observe c acc))) = sum_list (map snd (ea_stages acc)) + (if is_approved (cr_decision c) then 0 else 1)"
    using Cons.prems sum_counts
    by (auto simp: observe_def observe_decision_def Let_def split: option.splits)
  from Cons.IH [OF keep(3,4)] keep show ?case by (auto simp: Suc_diff_le trans_le_add2)
qed simp

text \<open>The figures of the engine count the cycles of a run: all of them, the approved ones,
  and the rejected ones both by reason and by stage. But the coverage of snapshots is not
  one: although every decision event of the run names its snapshot, the coverage is one half
  plus half the rate of approval, because the events of rejections are counted in the
  denominator only.\<close>

theorem engine_figures_of_run:
  assumes "rt_emit R" and "market_data (rt_latest R)" and "cycles_of E R cs" and "cs \<noteq> []"
    and "evs = concat (map cr_events cs)" and "em = compute_engine_metrics cs evs"
  shows "em_total_cycles em = length cs \<and> em_approved em = approved_in cs
    \<and> em_rejected em = int (length cs - approved_in cs)
    \<and> sum_list (map snd (em_by_reason em)) = length cs - approved_in cs
    \<and> sum_list (map snd (em_by_stage em)) = length cs - approved_in cs
    \<and> (\<forall>e \<in> set evs. ev_family e = Fam_decision \<longrightarrow> key_snapshot_id (ev_payload e) \<noteq> [])
    \<and> em_snapshot_coverage em = (1 + em_approval_rate em) / 2"
proof -
  note d = run_decision_events [OF assms(1-3), folded assms(5)]
  have "distinct (dict_keys (ea_reasons new_engine_acc))" "distinct (dict_keys (ea_stages new_engine_acc))"
    by (simp_all add: new_engine_acc_def dict_keys_def)
  note o = observe_fold [OF this, of cs]
  have le: "approved_in cs \<le> length cs" by simp
  have ne: "filter (\<lambda>e. ev_family e = Fam_decision) evs \<noteq> []"
    using d assms(4) by (metis length_0_conv mult_is_0 zero_neq_numeral)
  have cov: "em_snapshot_coverage em = of_nat (length cs + approved_in cs) / of_nat (2 * length cs)"
    unfolding assms(6) compute_engine_metrics_def finalize_metrics_def Let_def
    using d ne by (simp del: filter_filter)
  have rate: "em_approval_rate em = of_nat (approved_in cs) / of_nat (length cs)"
    using o assms(4) by (simp add: assms(6) compute_engine_metrics_def finalize_metrics_def new_engine_acc_def Let_def)
  have "em_snapshot_coverage em = (1 + em_approval_rate em) / 2"
    using assms(4) by (simp add: cov rate field_simps)
  with o d le show ?thesis
    by (simp add: assms(6) compute_engine_metrics_def finalize_metrics_def Let_def new_engine_acc_def of_nat_diff)
qed

theorem engine_figures_of_run_witness:
  "\<exists>res. cycles_of unary_env demo_runtime [res]
     \<and> em_total_cycles (compute_engine_metrics [res] (cr_events res)) = 1
     \<and> em_snapshot_coverage (compute_engine_metrics [res] (cr_events res))
         = (1 + em_approval_rate (compute_engine_metrics [res] (cr_events res))) / 2"
proof -
  obtain q res where r: "run_cycle unary_env demo_runtime demo_cycle_args demo_platform = (q, Inr res)"
    using cycle_total [OF demo_sound unary_env_distinct demo_market_data demo_cooperative] by blast
  then have c: "cycles_of unary_env demo_runtime [res]" by (auto simp: cycles_of_def)
  have "rt_emit demo_runtime" by (simp add: demo_runtime_def)
  from engine_figures_of_run [OF this demo_market_data c _ refl refl] c show ?thesis by (intro exI [of _ res]) simp
qed


subsection \<open>Confidence\<close>

text \<open>The events of a run: those of its cycles, and those of the execution engine that closes
  what is left.\<close>

definition run_events :: "env \<Rightarrow> ('p, 'w) runtime \<Rightarrow> event list \<Rightarrow> bool" where
  "run_events E R evs \<longleftrightarrow>
     (\<forall>e \<in> set evs. engine_made e \<or> (\<exists>a p q res. run_cycle E R a p = (q, Inr res) \<and> e \<in> set (cr_events res)))"

lemma made_without_confidence:
  assumes "rt_emit R" and "market_data (rt_latest R)" and "run_events E R evs" and "e \<in> set evs"
    and "ev_type e = DecisionMade"
  shows "key_confidence (ev_payload e) = None"
proof -
  have "\<not> engine_made e" using assms(5) by (simp add: engine_made_def)
  with assms(3,4) obtain a p q res where r: "run_cycle E R a p = (q, Inr res)" "e \<in> set (cr_events res)"
    by (auto simp: run_events_def)
  obtain c candle feat mctx ops made outcome pub n k where
    evs: "cr_events res = [candle, feat, mctx] @ ops @ [made, outcome] @ pub @ cr_execution_events res" and
    b: "bears R c Fam_market CandleReceived (P_candle (cy_bar c)) candle"
    "bears R c Fam_market FeatureSetBuilt
       (P_features (feature_set_id (cr_feature_set res)) (feature_version (cr_feature_set res))
          (config_hash (cr_feature_set res)) (indicators (cr_feature_set res)) (flags (cr_feature_set res))) feat"
    "bears R c Fam_market MarketContextDerived (P_context (cr_context res)) mctx" and
    ops: "map content ops = told (rt_providers R) (cr_signals res)" and
    m: "bears R c Fam_decision DecisionMade
        (P_decision_made (decision_id (cr_decision res)) (dr_value (dec_result (cr_decision res)))
           (snapshot_id (cr_snapshot res)) (dec_log (cr_decision res))) made" and
    o: "bears R c Fam_decision (fst (outcome_content (cr_snapshot res) (cr_decision res)))
       (snd (outcome_content (cr_snapshot res) (cr_decision res))) outcome" and
    pub: "map content pub = published_content (cr_decision res)"
    by (rule cycle_trace [OF assms(1,2) r(1)]) (rule that; assumption)
  have told: "fst y \<in> {ProviderSkipped, ProviderOpinion}" if "y \<in> set (told pvs sigs)" for y pvs sigs
    using that by (induction pvs sigs rule: told.induct) (auto split: if_splits list.splits)
  have "ev_type x \<noteq> DecisionMade" if "x \<in> set ops" for x
    using told [of "content x" "rt_providers R" "cr_signals res"] that unfolding ops [symmetric] by force
  moreover have "ev_type x \<noteq> DecisionMade" if "x \<in> set pub" for x
  proof -
    have "content x \<in> set (published_content (cr_decision res))" using that unfolding pub [symmetric] by force
    then show ?thesis by (auto simp: published_content_def split: option.splits if_splits)
  qed
  moreover have "ev_type x \<noteq> DecisionMade" if "x \<in> set (cr_execution_events res)" for x
    using cycle_stamped(2) [OF r(1) assms(2)] that by (auto simp: engine_made_def)
  moreover have "ev_type outcome \<noteq> DecisionMade" using o by (auto simp: bears_def outcome_content_def)
  ultimately have "e = made" using r(2) assms(5) b unfolding evs by (auto simp: bears_def)
  with m show ?thesis by (simp add: bears_def key_confidence_def)
qed

lemma no_confidences:
  assumes "\<forall>e \<in> set evs. ev_type e = DecisionMade \<longrightarrow> key_confidence (ev_payload e) = None"
  shows "confidences_by_correlation evs = []"
proof -
  have "fold (\<lambda>e d. if ev_type e = DecisionMade
     then (case key_confidence (ev_payload e) of None \<Rightarrow> d | Some c \<Rightarrow> dict_set d (ev_correlation_id e) c)
     else d) evs d = d" for d
    using assms by (induction evs arbitrary: d) auto
  then show ?thesis by (simp add: confidences_by_correlation_def)
qed

lemma regime_loop_no_confidence:
  assumes "confidences_by_correlation evs = []"
  shows "fst (snd (regime_loop evs es (rg, cf, u))) = cf"
proof (induction es arbitrary: rg u)
  case (Cons e es)
  have "conf = None" if "entry_context evs e = Some (pl, conf)" for pl conf
    using that assms by (auto simp: entry_context_def Let_def split: option.splits if_splits)
  with Cons show ?case by (auto split: option.splits)
qed simp

text \<open>The breakdown by confidence is always empty. It is built from the confidence of the
  events DecisionMade, but the platform publishes none in them: for the events of any run no
  band ever has a trade, and the share of losses at low confidence is zero, even when every
  trade lost at low confidence.\<close>

theorem confidence_breakdown_empty:
  assumes "rt_emit R" and "market_data (rt_latest R)" and "run_events E R evs"
  shows "rg_by_confidence (compute_regime_breakdown evs) = []
    \<and> fsu_low_confidence_loss_share (summarize_failures (compute_regime_breakdown evs)) = 0"
proof -
  have "confidences_by_correlation evs = []"
    by (rule no_confidences) (use made_without_confidence [OF assms] in blast)
  from regime_loop_no_confidence [OF this, of "of_type PositionClosed evs" "[]" "[]" 0]
  have "rg_by_confidence (compute_regime_breakdown evs) = []"
    by (simp add: compute_regime_breakdown_def case_prod_beta bucket_table_def)
  then show ?thesis by (simp add: summarize_failures_def Let_def)
qed

theorem confidence_breakdown_empty_witness:
  "\<exists>q res. run_cycle unary_env demo_runtime demo_cycle_args demo_platform = (q, Inr res)
     \<and> rg_by_confidence (compute_regime_breakdown (cr_events res @ [demo_trade (- 100) 1])) = []"
proof -
  obtain q res where r: "run_cycle unary_env demo_runtime demo_cycle_args demo_platform = (q, Inr res)"
    using cycle_total [OF demo_sound unary_env_distinct demo_market_data demo_cooperative] by blast
  have e: "rt_emit demo_runtime" by (simp add: demo_runtime_def)
  have "engine_made (demo_trade (- 100) 1)"
    by (simp add: engine_made_def demo_trade_def demo_envelope_def)
  with r have "run_events unary_env demo_runtime (cr_events res @ [demo_trade (- 100) 1])"
    by (auto simp: run_events_def)
  from confidence_breakdown_empty [OF e demo_market_data this] r show ?thesis by blast
qed

end
