(* ===== verification/TrialConfig.thy ===== *)
theory TrialConfig
  imports ProviderRegistry Lookback
begin

text \<open>
  \<^verbatim>\<open>backend/src/validation/trial_config.py\<close>: what a trial of the optimiser means for the
  engine, the providers, the execution and the features, in memory and as patches of the
  configuration files; and the writers of \<^verbatim>\<open>api/services/config_service.py\<close> that apply
  the patches. A trial has numbers by key and a session preset; the files are kept as what
  is parsed from them, and the hash of a dictionary is a parameter.
\<close>


subsection \<open>Trials\<close>

record trial_params =
  tp_nums :: "(string, real) dict"
  tp_session :: "string option"

definition trial_num :: "trial_params \<Rightarrow> string \<Rightarrow> real \<Rightarrow> real" where
  "trial_num t k d = dict_get_or (tp_nums t) k d"

definition trial_int :: "trial_params \<Rightarrow> string \<Rightarrow> int \<Rightarrow> int" where
  "trial_int t k d = py_int (trial_num t k (of_int d))"

definition trial_flag :: "trial_params \<Rightarrow> string \<Rightarrow> bool \<Rightarrow> bool" where
  "trial_flag t k d = (trial_int t k (if d then 1 else 0) \<noteq> 0)"

definition session_presets :: "(string, string list) dict" where
  "session_presets = [(''eu_us'', [''EUROPE'', ''US'', ''OVERLAP'']), (''us_only'', [''US'']),
     (''all'', [''ASIA'', ''EUROPE'', ''US'', ''OVERLAP''])]"

definition session_preset :: "string \<Rightarrow> string list" where
  "session_preset p = dict_get_or session_presets p [''EUROPE'', ''US'', ''OVERLAP'']"

definition trial_sessions :: "trial_params \<Rightarrow> string list" where
  "trial_sessions t = session_preset (case tp_session t of None \<Rightarrow> ''eu_us'' | Some p \<Rightarrow> p)"


subsection \<open>In memory\<close>

definition build_engine_config_from_trial :: "trial_params \<Rightarrow> engine_config \<Rightarrow> engine_config" where
  "build_engine_config_from_trial t cfg = cfg
     \<lparr>ec_aggregation := (ec_aggregation cfg)
        \<lparr>min_agreeing_providers := trial_int t ''min_agreeing_providers'' (min_agreeing_providers (ec_aggregation cfg))\<rparr>,
      ec_risk := (ec_risk cfg)
        \<lparr>min_confidence := trial_num t ''min_confidence'' (min_confidence (ec_risk cfg)),
         min_risk_reward := trial_num t ''min_risk_reward'' (min_risk_reward (ec_risk cfg)),
         max_signals_per_day := trial_int t ''max_signals_per_day'' (max_signals_per_day (ec_risk cfg))\<rparr>,
      ec_filter := (ec_filter cfg)
        \<lparr>min_atr_pct := trial_num t ''min_atr_pct'' (min_atr_pct (ec_filter cfg)),
         allowed_sessions := trial_sessions t\<rparr>\<rparr>"

text \<open>One entry of the override map: the parameters are those next to \<^verbatim>\<open>enabled\<close> and
  \<^verbatim>\<open>weight\<close>.\<close>

record provider_override =
  ov_enabled :: "bool option"
  ov_weight :: "real option"
  ov_params :: provider_params

definition trial_override ::
  "trial_params \<Rightarrow> string \<Rightarrow> bool \<Rightarrow> string \<Rightarrow> (string, real) dict \<Rightarrow> (string, bool) dict \<Rightarrow> provider_override" where
  "trial_override t enabled_key enabled weight_key nums flags_of =
     \<lparr>ov_enabled = Some (trial_flag t enabled_key enabled), ov_weight = Some (trial_num t weight_key 1),
      ov_params = \<lparr>par_nums = (''min_confidence'', trial_num t ''min_confidence'' (65/100))
          # (''sl_atr_mult'', trial_num t ''sl_atr_mult'' (15/10)) # (''tp_atr_mult'', trial_num t ''tp_atr_mult'' 3) # nums,
        par_flags = flags_of, par_texts = [], par_lists = []\<rparr>\<rparr>"

definition build_provider_overrides :: "trial_params \<Rightarrow> (string, provider_override) dict" where
  "build_provider_overrides t =
     [(''ema_crossover'', trial_override t ''ema_enabled'' True ''ema_weight'' []
         [(''require_trend'', trial_flag t ''require_trend'' True)]),
      (''rsi_divergence'', trial_override t ''rsi_enabled'' True ''rsi_weight''
         [(''oversold'', trial_num t ''oversold'' 30), (''overbought'', trial_num t ''overbought'' 70)]
         [(''avoid_high_vol'', trial_flag t ''avoid_high_vol'' True)]),
      (''macd_momentum'', trial_override t ''macd_enabled'' True ''macd_weight''
         [(''min_histogram_slope'', trial_num t ''min_histogram_slope'' 0)]
         [(''require_signal_align'', trial_flag t ''require_signal_align'' True),
          (''require_trend'', trial_flag t ''macd_require_trend'' False)]),
      (''adx_trend_strength'', trial_override t ''adx_enabled'' False ''adx_weight''
         [(''min_adx'', trial_num t ''min_adx'' 25), (''min_di_spread'', trial_num t ''min_di_spread'' 5)]
         [(''require_trend'', trial_flag t ''adx_require_trend'' False)]),
      (''bollinger_reversion'', trial_override t ''bb_enabled'' False ''bb_weight''
         [(''max_adx'', trial_num t ''bb_max_adx'' 0)]
         [(''avoid_high_vol'', trial_flag t ''bb_avoid_high_vol'' True)]),
      (''supertrend_trend'', trial_override t ''st_enabled'' False ''st_weight'' []
         [(''require_trend'', trial_flag t ''st_require_trend'' False)]),
      (''volume_order_flow'', trial_override t ''vol_enabled'' False ''vol_weight''
         [(''period'', of_int (trial_int t ''vol_period'' 20)), (''min_cmf'', trial_num t ''min_cmf'' (5/100)),
          (''min_volume_ratio'', trial_num t ''min_volume_ratio'' (12/10))]
         [(''require_price_align'', trial_flag t ''vol_require_price_align'' True)]),
      (''market_structure'', trial_override t ''ms_enabled'' False ''ms_weight''
         [(''pivot_bars'', of_int (trial_int t ''ms_pivot_bars'' 5))]
         [(''require_bos'', trial_flag t ''ms_require_bos'' True),
          (''require_trend'', trial_flag t ''ms_require_trend'' False)])]"

definition build_execution_config_from_trial :: "trial_params \<Rightarrow> exec_config \<Rightarrow> exec_config" where
  "build_execution_config_from_trial t cfg = cfg
     \<lparr>max_bars_in_trade := trial_int t ''max_bars_in_trade'' (max_bars_in_trade cfg),
      risk_pct_per_trade := trial_num t ''risk_pct_per_trade'' (risk_pct_per_trade cfg),
      long_only := (trial_num t ''long_only'' (if long_only cfg then 1 else 0) \<noteq> 0),
      exposure_pct_per_trade := trial_num t ''exposure_pct_per_trade'' (exposure_pct_per_trade cfg)\<rparr>"

text \<open>The thirteen periods of the features, in the order of the hashed payload's source.\<close>

record feature_periods =
  fp_ema_fast :: int
  fp_ema_slow :: int
  fp_rsi_period :: int
  fp_macd_fast :: int
  fp_macd_slow :: int
  fp_macd_signal :: int
  fp_adx_period :: int
  fp_bb_period :: int
  fp_bb_std :: real
  fp_st_period :: int
  fp_st_multiplier :: real
  fp_vol_period :: int
  fp_ms_pivot_bars :: int

definition build_features_write_kwargs :: "trial_params \<Rightarrow> feature_periods" where
  "build_features_write_kwargs t =
     \<lparr>fp_ema_fast = trial_int t ''ema_fast'' 12, fp_ema_slow = trial_int t ''ema_slow'' 26,
      fp_rsi_period = trial_int t ''rsi_period'' 14, fp_macd_fast = trial_int t ''macd_fast'' 12,
      fp_macd_slow = trial_int t ''macd_slow'' 26, fp_macd_signal = trial_int t ''macd_signal_period'' 9,
      fp_adx_period = trial_int t ''adx_period'' 14, fp_bb_period = trial_int t ''bb_period'' 20,
      fp_bb_std = trial_num t ''bb_std'' 2, fp_st_period = trial_int t ''st_period'' 10,
      fp_st_multiplier = trial_num t ''st_multiplier'' 3, fp_vol_period = trial_int t ''vol_period'' 20,
      fp_ms_pivot_bars = trial_int t ''ms_pivot_bars'' 5\<rparr>"

type_synonym indicator = "indicator_params indicator_def"
type_synonym features_file = "indicator_params features_config"

definition set_int :: "string \<Rightarrow> int \<Rightarrow> indicator \<Rightarrow> indicator" where
  "set_int k v d = d\<lparr>ind_params := (ind_params d)\<lparr>ip_ints := dict_set (ip_ints (ind_params d)) k v\<rparr>\<rparr>"

definition set_num :: "string \<Rightarrow> real \<Rightarrow> indicator \<Rightarrow> indicator" where
  "set_num k v d = d\<lparr>ind_params := (ind_params d)\<lparr>ip_nums := dict_set (ip_nums (ind_params d)) k v\<rparr>\<rparr>"

definition period_only :: "string \<Rightarrow> string \<Rightarrow> int \<Rightarrow> indicator" where
  "period_only nm ty p = \<lparr>ind_name = nm, ind_type = ty, ind_params = \<lparr>ip_ints = [(''period'', p)], ip_nums = [], ip_texts = []\<rparr>\<rparr>"

definition macd_names :: "string list" where
  "macd_names = [''macd'', ''macd_signal'', ''macd_histogram'', ''macd_histogram_slope'']"

definition adx_names :: "string list" where
  "adx_names = [''adx_14'', ''plus_di_14'', ''minus_di_14'']"

definition bb_names :: "string list" where
  "bb_names = [''bb_upper'', ''bb_lower'', ''bb_middle'']"

definition st_names :: "string list" where
  "st_names = [''supertrend'', ''supertrend_direction'']"

definition vol_names :: "string list" where
  "vol_names = [''cmf_20'', ''volume_ratio_20'']"

definition ms_names :: "string list" where
  "ms_names = [''ms_bias'', ''ms_bos'']"

text \<open>What both the in-memory configuration and the file writer do to the composite
  indicators.\<close>

definition tuned_family :: "feature_periods \<Rightarrow> indicator \<Rightarrow> indicator" where
  "tuned_family fp d =
     (if ind_name d \<in> set macd_names then
        set_int ''signal'' (fp_macd_signal fp) (set_int ''slow'' (fp_macd_slow fp) (set_int ''fast'' (fp_macd_fast fp) d))
      else if ind_name d \<in> set adx_names then set_int ''period'' (fp_adx_period fp) d
      else if ind_name d \<in> set bb_names then set_num ''std'' (fp_bb_std fp) (set_int ''period'' (fp_bb_period fp) d)
      else if ind_name d \<in> set st_names then
        set_num ''multiplier'' (fp_st_multiplier fp) (set_int ''period'' (fp_st_period fp) d)
      else if ind_name d \<in> set vol_names then set_int ''period'' (fp_vol_period fp) d
      else if ind_name d \<in> set ms_names then set_int ''pivot_bars'' (fp_ms_pivot_bars fp) d
      else d)"

definition tuned_indicator :: "feature_periods \<Rightarrow> indicator \<Rightarrow> indicator" where
  "tuned_indicator fp d =
     (if ind_name d = ''ema_12'' then period_only ''ema_12'' ''ema'' (fp_ema_fast fp)
      else if ind_name d = ''ema_26'' then period_only ''ema_26'' ''ema'' (fp_ema_slow fp)
      else if ind_name d = ''rsi_14'' then period_only ''rsi_14'' ''rsi'' (fp_rsi_period fp)
      else tuned_family fp d)"

definition build_features_config_from_trial ::
  "(feature_periods \<Rightarrow> string) \<Rightarrow> trial_params \<Rightarrow> features_file \<Rightarrow> features_file \<times> string" where
  "build_features_config_from_trial digest t base =
     (let fp = build_features_write_kwargs t
      in (\<lparr>fc_version = fc_version base, fc_indicators = map (tuned_indicator fp) (fc_indicators base),
           fc_flags = fc_flags base, fc_context = fc_context base\<rparr>, digest fp))"

definition update_params :: "provider_params \<Rightarrow> provider_params \<Rightarrow> provider_params" where
  "update_params p q =
     \<lparr>par_nums = fold (\<lambda>(k, v) d. dict_set d k v) (par_nums q) (par_nums p),
      par_flags = fold (\<lambda>(k, v) d. dict_set d k v) (par_flags q) (par_flags p),
      par_texts = fold (\<lambda>(k, v) d. dict_set d k v) (par_texts q) (par_texts p),
      par_lists = fold (\<lambda>(k, v) d. dict_set d k v) (par_lists q) (par_lists p)\<rparr>"

definition overridden :: "(string, provider_override) dict option \<Rightarrow> provider_config \<Rightarrow> provider_config" where
  "overridden overrides cfg =
     (case overrides of
        None \<Rightarrow> cfg
      | Some ovs \<Rightarrow>
          (case dict_get ovs (pc_provider_id cfg) of
             None \<Rightarrow> cfg
           | Some ov \<Rightarrow> cfg
               \<lparr>pc_enabled := (case ov_enabled ov of None \<Rightarrow> pc_enabled cfg | Some b \<Rightarrow> b),
                pc_weight := (case ov_weight ov of None \<Rightarrow> pc_weight cfg | Some w \<Rightarrow> w),
                pc_params := update_params (pc_params cfg) (ov_params ov)\<rparr>))"

definition build_providers_from_overrides ::
  "(string, analysis) dict \<Rightarrow> (string \<times> provider_config) list option \<Rightarrow> (string, provider_override) dict option
   \<Rightarrow> provider list result" where
  "build_providers_from_overrides classes files overrides =
     instantiate_all classes (filter pc_enabled (map (overridden overrides) (discover_provider_configs files)))"

definition synthetic_revision_id :: "(trial_params \<Rightarrow> string) \<Rightarrow> trial_params \<Rightarrow> string" where
  "synthetic_revision_id digest t = ''rev_opt_'' @ digest t"


subsection \<open>As patches of the files\<close>

record engine_patch =
  ep_min_agreeing_providers :: int
  ep_min_atr_pct :: real
  ep_allowed_sessions :: "string list"
  ep_min_confidence :: real
  ep_min_risk_reward :: real
  ep_max_signals_per_day :: int

definition build_engine_write_patch :: "trial_params \<Rightarrow> engine_patch" where
  "build_engine_write_patch t =
     \<lparr>ep_min_agreeing_providers = trial_int t ''min_agreeing_providers'' 1,
      ep_min_atr_pct = trial_num t ''min_atr_pct'' (3/10), ep_allowed_sessions = trial_sessions t,
      ep_min_confidence = trial_num t ''min_confidence'' (65/100),
      ep_min_risk_reward = trial_num t ''min_risk_reward'' 2,
      ep_max_signals_per_day = trial_int t ''max_signals_per_day'' 10\<rparr>"

record provider_patch =
  pp_enabled :: bool
  pp_weight :: real
  pp_params :: provider_params

definition build_provider_write_patches :: "trial_params \<Rightarrow> (string, provider_patch) dict" where
  "build_provider_write_patches t =
     map (\<lambda>(i, ov). (i, \<lparr>pp_enabled = the (ov_enabled ov), pp_weight = the (ov_weight ov), pp_params = ov_params ov\<rparr>))
       (build_provider_overrides t)"

record settings_patch =
  sp_max_bars_in_trade :: int
  sp_risk_pct_per_trade :: real

definition build_validation_settings_patch :: "trial_params \<Rightarrow> settings_patch" where
  "build_validation_settings_patch t =
     \<lparr>sp_max_bars_in_trade = trial_int t ''max_bars_in_trade'' 48,
      sp_risk_pct_per_trade = trial_num t ''risk_pct_per_trade'' 1\<rparr>"


subsection \<open>The configuration files\<close>

record config_files =
  cf_engine :: engine_config
  cf_features :: features_file
  cf_providers :: "(string \<times> provider_config) list option"
  cf_execution :: exec_config

definition patch_engine :: "engine_patch \<Rightarrow> engine_config \<Rightarrow> engine_config" where
  "patch_engine ep cfg =
     cfg\<lparr>ec_aggregation := (ec_aggregation cfg)\<lparr>min_agreeing_providers := ep_min_agreeing_providers ep\<rparr>,
         ec_filter := (ec_filter cfg)\<lparr>min_atr_pct := ep_min_atr_pct ep, allowed_sessions := ep_allowed_sessions ep\<rparr>,
         ec_risk := (ec_risk cfg)\<lparr>min_confidence := ep_min_confidence ep, min_risk_reward := ep_min_risk_reward ep,
           max_signals_per_day := ep_max_signals_per_day ep\<rparr>\<rparr>"

text \<open>Each writer of an engine or provider file loads the file again at its end, which checks what was written.\<close>

definition write_engine_config :: "engine_patch \<Rightarrow> config_files \<Rightarrow> config_files result" where
  "write_engine_config ep fs =
     (let fs' = fs\<lparr>cf_engine := patch_engine ep (cf_engine fs)\<rparr>
      in if engine_config_valid (cf_engine fs') then Inr fs' else Inl (ValidationError ''EngineConfig''))"

definition provider_file :: "string \<Rightarrow> string" where
  "provider_file i = i @ ''.yaml''"

definition patch_provider :: "provider_patch \<Rightarrow> provider_config \<Rightarrow> provider_config" where
  "patch_provider pp cfg = cfg\<lparr>pc_enabled := pp_enabled pp, pc_weight := pp_weight pp,
     pc_params := update_params (pc_params cfg) (pp_params pp)\<rparr>"

definition write_provider_config :: "string \<times> provider_patch \<Rightarrow> config_files \<Rightarrow> config_files result" where
  "write_provider_config ip fs =
     (case ip of (i, pp) \<Rightarrow>
       (case cf_providers fs of
          None \<Rightarrow> Inl (FileNotFoundError (''Provider config not found: '' @ i))
        | Some pcs \<Rightarrow>
            if provider_file i \<notin> fst ` set pcs then Inl (FileNotFoundError (''Provider config not found: '' @ i))
            else
              let pcs' = map (\<lambda>(f, cfg). (f, if f = provider_file i then patch_provider pp cfg else cfg)) pcs in
              if list_all (\<lambda>(f, cfg). f = provider_file i \<longrightarrow> provider_config_valid cfg) pcs'
              then Inr (fs\<lparr>cf_providers := Some pcs'\<rparr>) else Inl (ValidationError ''ProviderConfig'')))"

definition write_validation_settings :: "settings_patch \<Rightarrow> config_files \<Rightarrow> config_files" where
  "write_validation_settings sp fs = fs\<lparr>cf_execution := (cf_execution fs)
     \<lparr>max_bars_in_trade := sp_max_bars_in_trade sp, risk_pct_per_trade := sp_risk_pct_per_trade sp\<rparr>\<rparr>"

definition written_indicator :: "feature_periods \<Rightarrow> indicator \<Rightarrow> indicator" where
  "written_indicator fp d =
     (if ind_name d = ''ema_12'' then set_int ''period'' (fp_ema_fast fp) d
      else if ind_name d = ''ema_26'' then set_int ''period'' (fp_ema_slow fp) d
      else if ind_name d = ''rsi_14'' then set_int ''period'' (fp_rsi_period fp) d
      else tuned_family fp d)"

definition write_features_config :: "feature_periods \<Rightarrow> config_files \<Rightarrow> config_files" where
  "write_features_config fp fs = fs\<lparr>cf_features := (cf_features fs)
     \<lparr>fc_indicators := map (written_indicator fp) (fc_indicators (cf_features fs))\<rparr>\<rparr>"

definition apply_trial_params :: "trial_params \<Rightarrow> config_files \<Rightarrow> config_files result" where
  "apply_trial_params t fs =
     and_then (write_engine_config (build_engine_write_patch t) fs) (\<lambda>fs1.
     and_then (for_each write_provider_config (build_provider_write_patches t) fs1) (\<lambda>fs2.
     Inr (write_features_config (build_features_write_kwargs t)
         (write_validation_settings (build_validation_settings_patch t) fs2))))"


subsection \<open>What is written is what was swept\<close>

lemma sort_key_on_keys: "sort_key fst (map (\<lambda>(f, c). (f, g f c)) xs) = map (\<lambda>(f, c). (f, g f c)) (sort_key fst xs)"
proof -
  have ins: "insort_key fst (f, g f c) (map (\<lambda>(f, c). (f, g f c)) ys)
      = map (\<lambda>(f, c). (f, g f c)) (insort_key fst (f, c) ys)" for f c ys
    by (induction ys) auto
  show ?thesis by (induction xs) (auto simp: ins)
qed

fun patched :: "(string \<times> provider_patch) list \<Rightarrow> string \<Rightarrow> provider_config \<Rightarrow> provider_config" where
  "patched [] f cfg = cfg"
| "patched ((i, pp) # ps) f cfg = patched ps f (if f = provider_file i then patch_provider pp cfg else cfg)"

lemma write_providers_spec:
  assumes "for_each write_provider_config ps fs = Inr fs'" and "cf_providers fs = Some pcs"
  shows "fs' = fs\<lparr>cf_providers := Some (map (\<lambda>(f, cfg). (f, patched ps f cfg)) pcs)\<rparr>"
  using assms
proof (induction ps arbitrary: fs pcs)
  case Nil
  then show ?case by (cases fs) simp
next
  case (Cons ip ps)
  obtain i pp where ip: "ip = (i, pp)" by (cases ip)
  let ?pcs = "map (\<lambda>(f, cfg). (f, if f = provider_file i then patch_provider pp cfg else cfg)) pcs"
  from Cons.prems(1) obtain fs1 where fs1: "write_provider_config ip fs = Inr fs1" "for_each write_provider_config ps fs1 = Inr fs'"
    by auto
  from fs1(1) Cons.prems(2) have "fs1 = fs\<lparr>cf_providers := Some ?pcs\<rparr>"
    by (auto simp: ip write_provider_config_def Let_def split: if_splits)
  with fs1(2) have "for_each write_provider_config ps (fs\<lparr>cf_providers := Some ?pcs\<rparr>) = Inr fs'" by simp
  from Cons.IH [OF this, of ?pcs] show ?case by (simp add: ip o_def case_prod_beta)
qed

lemma provider_file_inject [simp]: "provider_file i = provider_file j \<longleftrightarrow> i = j"
  by (simp add: provider_file_def)

lemma patched_once:
  "distinct (map fst ps) \<Longrightarrow> patched ps (provider_file j) cfg =
     (case map_of ps j of None \<Rightarrow> cfg | Some pp \<Rightarrow> patch_provider pp cfg)"
proof (induction ps arbitrary: cfg)
  case (Cons ip ps)
  obtain i pp where ip: "ip = (i, pp)" by (cases ip)
  show ?case
  proof (cases "j = i")
    case True
    with Cons.prems have "map_of ps j = None" by (simp add: ip map_of_eq_None_iff)
    with True Cons show ?thesis by (simp add: ip)
  qed (use Cons in \<open>simp add: ip\<close>)
qed simp

lemma override_keys: "map fst (build_provider_overrides t) =
    [''ema_crossover'', ''rsi_divergence'', ''macd_momentum'', ''adx_trend_strength'', ''bollinger_reversion'',
     ''supertrend_trend'', ''volume_order_flow'', ''market_structure'']"
  by (simp add: build_provider_overrides_def)

lemma override_complete:
  "\<forall>(i, ov) \<in> set (build_provider_overrides t). ov_enabled ov \<noteq> None \<and> ov_weight ov \<noteq> None"
  by (simp add: build_provider_overrides_def trial_override_def)

lemma patch_is_override:
  "(case map_of (build_provider_write_patches t) (pc_provider_id cfg) of None \<Rightarrow> cfg | Some pp \<Rightarrow> patch_provider pp cfg)
     = overridden (Some (build_provider_overrides t)) cfg"
proof -
  have m: "map_of (build_provider_write_patches t) i = map_option
      (\<lambda>ov. \<lparr>pp_enabled = the (ov_enabled ov), pp_weight = the (ov_weight ov), pp_params = ov_params ov\<rparr>)
      (map_of (build_provider_overrides t) i)" for i
    unfolding build_provider_write_patches_def by (induction "build_provider_overrides t") (auto simp: map_of_map)
  show ?thesis
    using override_complete [of t]
    by (auto simp: m overridden_def patch_provider_def split: option.splits dest!: map_of_SomeD)
qed

text \<open>What the trial must name for its patches and its in-memory configurations to agree: the
  defaults of the two differ.\<close>

definition names_all :: "trial_params \<Rightarrow> bool" where
  "names_all t \<longleftrightarrow> {''min_agreeing_providers'', ''min_confidence'', ''min_risk_reward'', ''max_signals_per_day'',
      ''min_atr_pct'', ''max_bars_in_trade'', ''risk_pct_per_trade''} \<subseteq> set (dict_keys (tp_nums t))
    \<and> ''long_only'' \<notin> set (dict_keys (tp_nums t)) \<and> ''exposure_pct_per_trade'' \<notin> set (dict_keys (tp_nums t))"

definition plain_periods :: "features_file \<Rightarrow> bool" where
  "plain_periods base \<longleftrightarrow> (\<forall>d \<in> set (fc_indicators base).
     (ind_name d = ''ema_12'' \<longrightarrow> (\<exists>p. d = period_only ''ema_12'' ''ema'' p))
     \<and> (ind_name d = ''ema_26'' \<longrightarrow> (\<exists>p. d = period_only ''ema_26'' ''ema'' p))
     \<and> (ind_name d = ''rsi_14'' \<longrightarrow> (\<exists>p. d = period_only ''rsi_14'' ''rsi'' p)))"

definition named_by_id :: "config_files \<Rightarrow> bool" where
  "named_by_id fs \<longleftrightarrow> (\<exists>pcs. cf_providers fs = Some pcs
     \<and> (\<forall>(f, cfg) \<in> set pcs. f = provider_file (pc_provider_id cfg)))"

lemma named_value: "k \<in> set (dict_keys (tp_nums t)) \<Longrightarrow> trial_num t k d = the (dict_get (tp_nums t) k)"
  using map_of_eq_None_iff [of "tp_nums t" k]
  by (cases "dict_get (tp_nums t) k") (simp_all add: trial_num_def dict_get_or_def dict_keys_def)

lemma unnamed_default: "k \<notin> set (dict_keys (tp_nums t)) \<Longrightarrow> trial_num t k d = d"
  using map_of_eq_None_iff [of "tp_nums t" k] by (simp add: trial_num_def dict_get_or_def dict_keys_def)

lemma written_is_tuned: "plain_periods base \<Longrightarrow> d \<in> set (fc_indicators base) \<Longrightarrow> written_indicator fp d = tuned_indicator fp d"
  by (auto simp: plain_periods_def written_indicator_def tuned_indicator_def period_only_def set_int_def dict_set_def)

text \<open>C38: applying a trial writes exactly the configuration that was swept. For a trial that names
  the values whose defaults differ, the files written hold the engine, execution and feature
  configuration the sweep ran with, and loading the enabled providers from them gives the
  providers of the sweep.\<close>

theorem applied_trial_is_swept_trial:
  assumes "apply_trial_params t fs = Inr fs'" and "names_all t" and "plain_periods (cf_features fs)"
    and "named_by_id fs"
  shows "cf_engine fs' = build_engine_config_from_trial t (cf_engine fs)
    \<and> cf_execution fs' = build_execution_config_from_trial t (cf_execution fs)
    \<and> cf_features fs' = fst (build_features_config_from_trial digest t (cf_features fs))
    \<and> instantiate_all classes (filter pc_enabled (discover_provider_configs (cf_providers fs')))
        = build_providers_from_overrides classes (cf_providers fs) (Some (build_provider_overrides t))"
proof -
  obtain pcs where pcs: "cf_providers fs = Some pcs" "\<forall>(f, cfg) \<in> set pcs. f = provider_file (pc_provider_id cfg)"
    using assms(4) by (auto simp: named_by_id_def)
  let ?ps = "build_provider_write_patches t"
  let ?new = "map (\<lambda>(f, cfg). (f, patched ?ps f cfg)) pcs"
  let ?fs0 = "fs\<lparr>cf_engine := patch_engine (build_engine_write_patch t) (cf_engine fs)\<rparr>"
  from assms(1) obtain fs1 where fs1: "for_each write_provider_config ?ps ?fs0 = Inr fs1"
    "fs' = write_features_config (build_features_write_kwargs t) (write_validation_settings (build_validation_settings_patch t) fs1)"
    by (auto simp: apply_trial_params_def write_engine_config_def Let_def split: if_splits)
  have "cf_providers ?fs0 = Some pcs" using pcs(1) by simp
  from write_providers_spec [OF fs1(1) this] fs1(2) have fs': "fs' = write_features_config (build_features_write_kwargs t)
      (write_validation_settings (build_validation_settings_patch t) (?fs0\<lparr>cf_providers := Some ?new\<rparr>))"
    by simp
  note keys = assms(2) [unfolded names_all_def]
  have e: "cf_engine fs' = build_engine_config_from_trial t (cf_engine fs)"
    using keys
    by (simp add: fs' write_features_config_def write_validation_settings_def patch_engine_def Let_def
        build_engine_config_from_trial_def build_engine_write_patch_def trial_int_def named_value)
  have x: "cf_execution fs' = build_execution_config_from_trial t (cf_execution fs)"
    using keys
    by (simp add: fs' write_features_config_def write_validation_settings_def patch_engine_def Let_def
        build_execution_config_from_trial_def build_validation_settings_patch_def trial_int_def
        unnamed_default named_value)
  have f: "cf_features fs' = fst (build_features_config_from_trial digest t (cf_features fs))"
    using written_is_tuned [OF assms(3)]
    by (simp add: fs' write_features_config_def write_validation_settings_def patch_engine_def Let_def
        build_features_config_from_trial_def)
  have ov: "patched ?ps f cfg = overridden (Some (build_provider_overrides t)) cfg" if "(f, cfg) \<in> set pcs" for f cfg
  proof -
    have "distinct (map fst ?ps)"
      using override_keys [of t] by (simp add: build_provider_write_patches_def case_prod_beta o_def)
    from patched_once [OF this, of "pc_provider_id cfg" cfg] patch_is_override [where t = t and cfg = cfg] that pcs(2) show ?thesis by auto
  qed
  have "map (\<lambda>x. snd (case x of (f, cfg) \<Rightarrow> (f, patched ?ps f cfg))) (sort_key fst pcs)
      = map (\<lambda>x. overridden (Some (build_provider_overrides t)) (snd x)) (sort_key fst pcs)"
    using ov by (intro map_cong) auto
  then have "discover_provider_configs (Some ?new)
      = map (overridden (Some (build_provider_overrides t))) (discover_provider_configs (Some pcs))"
    using sort_key_on_keys [of "patched ?ps" pcs] by (simp add: discover_provider_configs_def o_def)
  moreover have "cf_providers fs' = Some ?new"
    by (simp add: fs' write_features_config_def write_validation_settings_def patch_engine_def Let_def)
  ultimately show ?thesis using e x f by (simp add: build_providers_from_overrides_def pcs(1))
qed

lemma write_providers_total:
  assumes "cf_providers fs = Some pcs" and "\<forall>i \<in> fst ` set ps. provider_file i \<in> fst ` set pcs"
    and "\<forall>pp \<in> snd ` set ps. 0 \<le> pp_weight pp"
  shows "\<exists>fs'. for_each write_provider_config ps fs = Inr fs'"
  using assms
proof (induction ps arbitrary: fs pcs)
  case (Cons ip ps)
  obtain i pp where ip: "ip = (i, pp)" by (cases ip)
  let ?pcs = "map (\<lambda>(f, cfg). (f, if f = provider_file i then patch_provider pp cfg else cfg)) pcs"
  have "fst ` set ?pcs = fst ` set pcs" by force
  moreover have "list_all (\<lambda>(f, cfg). f = provider_file i \<longrightarrow> provider_config_valid cfg) ?pcs"
    using Cons.prems(3) by (auto simp: ip list_all_iff patch_provider_def provider_config_valid_def)
  ultimately show ?case using Cons.IH [of "fs\<lparr>cf_providers := Some ?pcs\<rparr>" ?pcs] Cons.prems
    by (simp add: ip write_provider_config_def Let_def)
qed simp

definition demo_trial :: trial_params where
  "demo_trial = \<lparr>tp_nums = [(''min_agreeing_providers'', 2), (''min_confidence'', 7/10), (''min_risk_reward'', 1),
     (''max_signals_per_day'', 5), (''min_atr_pct'', 1/10), (''max_bars_in_trade'', 24), (''risk_pct_per_trade'', 1/2),
     (''ema_fast'', 9), (''ema_slow'', 21)], tp_session = Some ''all''\<rparr>"

definition cross_indicator :: indicator where
  "cross_indicator = \<lparr>ind_name = ''ema_cross'', ind_type = ''ema_cross'',
     ind_params = \<lparr>ip_ints = [(''fast'', 12), (''slow'', 26)], ip_nums = [], ip_texts = []\<rparr>\<rparr>"

definition zero_indicator :: indicator where
  "zero_indicator = \<lparr>ind_name = ''zero'', ind_type = ''constant'',
     ind_params = \<lparr>ip_ints = [(''value'', 0)], ip_nums = [], ip_texts = []\<rparr>\<rparr>"

definition atr_indicator :: indicator where
  "atr_indicator = \<lparr>ind_name = ''atr_14'', ind_type = ''atr'',
     ind_params = \<lparr>ip_ints = [(''period'', 14)], ip_nums = [], ip_texts = []\<rparr>\<rparr>"

definition demo_features_file :: features_file where
  "demo_features_file = \<lparr>fc_version = ''v2'',
     fc_indicators = [period_only ''ema_12'' ''ema'' 12, period_only ''ema_26'' ''ema'' 26, cross_indicator, zero_indicator,
       atr_indicator],
     fc_flags = [\<lparr>flag_name = ''ema_cross_bullish'', flag_expr = ''ema_cross > zero''\<rparr>,
       \<lparr>flag_name = ''ema_cross_bearish'', flag_expr = ''ema_cross < zero''\<rparr>],
     fc_context = fc_context demo_features\<rparr>"

definition demo_config_files :: config_files where
  "demo_config_files = \<lparr>cf_engine = demo_engine_config, cf_features = demo_features_file,
     cf_providers = Some (map (\<lambda>i. (provider_file i, demo_provider_config\<lparr>pc_provider_id := i\<rparr>))
       (map fst (build_provider_overrides demo_trial))),
     cf_execution = \<lparr>max_bars_in_trade = 48, risk_pct_per_trade = 1, long_only = False, exposure_pct_per_trade = 0\<rparr>\<rparr>"

theorem applied_trial_is_swept_trial_witness:
  "\<exists>fs'. apply_trial_params demo_trial demo_config_files = Inr fs'
     \<and> cf_engine fs' = build_engine_config_from_trial demo_trial demo_engine_config
     \<and> max_bars_in_trade (cf_execution fs') = 24"
proof -
  have k: "fst ` set (build_provider_write_patches demo_trial) = set (map fst (build_provider_overrides demo_trial))"
    by (force simp: build_provider_write_patches_def)
  let ?fs0 = "demo_config_files\<lparr>cf_engine := patch_engine (build_engine_write_patch demo_trial) (cf_engine demo_config_files)\<rparr>"
  have w: "\<forall>pp \<in> snd ` set (build_provider_write_patches demo_trial). 0 \<le> pp_weight pp"
    by (simp add: build_provider_write_patches_def build_provider_overrides_def trial_override_def trial_num_def
        demo_trial_def dict_get_or_def)
  obtain fs1 where f1: "for_each write_provider_config (build_provider_write_patches demo_trial) ?fs0 = Inr fs1"
    using write_providers_total [of ?fs0 "the (cf_providers demo_config_files)" "build_provider_write_patches demo_trial"] w
    by (auto simp: k demo_config_files_def image_image)
  have "engine_config_valid (cf_engine ?fs0)"
    by (simp add: engine_config_valid_def aggregation_config_valid_def risk_config_valid_def patch_engine_def
        build_engine_write_patch_def trial_int_def trial_num_def demo_trial_def dict_get_or_def py_int_def
        demo_config_files_def demo_engine_simps)
  then have "write_engine_config (build_engine_write_patch demo_trial) demo_config_files = Inr ?fs0"
    by (simp add: write_engine_config_def)
  then obtain fs' where a: "apply_trial_params demo_trial demo_config_files = Inr fs'"
    using f1 by (simp add: apply_trial_params_def)
  have n: "names_all demo_trial" by (simp add: names_all_def demo_trial_def dict_keys_def)
  have p: "plain_periods (cf_features demo_config_files)"
    by (simp add: plain_periods_def demo_config_files_def demo_features_file_def period_only_def cross_indicator_def
        zero_indicator_def atr_indicator_def)
  have i: "named_by_id demo_config_files" by (auto simp: named_by_id_def demo_config_files_def)
  note sw = applied_trial_is_swept_trial [OF a n p i]
  have "cf_engine fs' = build_engine_config_from_trial demo_trial demo_engine_config"
    using sw [THEN conjunct1] by (simp add: demo_config_files_def)
  moreover have "max_bars_in_trade (cf_execution fs') = 24"
    using sw [THEN conjunct2, THEN conjunct1]
    by (simp add: demo_config_files_def build_execution_config_from_trial_def trial_int_def trial_num_def demo_trial_def
        dict_get_or_def py_int_def)
  ultimately show ?thesis using a by blast
qed


subsection \<open>What a trial cannot move\<close>

definition tuned_names :: "string set" where
  "tuned_names = {''ema_12'', ''ema_26'', ''rsi_14''} \<union> set (macd_names @ adx_names @ bb_names @ st_names @ vol_names @ ms_names)"

lemma tuned_name [simp]: "ind_name (tuned_indicator fp d) = ind_name d"
  by (simp add: tuned_indicator_def tuned_family_def period_only_def set_int_def set_num_def)

lemma untuned: "ind_name d \<notin> tuned_names \<Longrightarrow> tuned_indicator fp d = d"
  by (simp add: tuned_names_def tuned_indicator_def tuned_family_def)

lemma build_untuned:
  assumes "build_indicators compute (map (tuned_indicator fp) ds) df acc = Inr ind"
    and "build_indicators compute (map (tuned_indicator fp') ds) df acc' = Inr ind'"
    and "k \<notin> tuned_names" and "dict_get acc k = dict_get acc' k"
  shows "dict_get ind k = dict_get ind' k"
  using assms(1,2,4)
proof (induction ds arbitrary: acc acc')
  case (Cons d ds)
  let ?next = "\<lambda>fp acc. case compute (tuned_indicator fp d) df of Inr v \<Rightarrow> dict_set acc (ind_name d) v | Inl _ \<Rightarrow> acc"
  have step: "build_indicators compute (map (tuned_indicator fp) ds) df (?next fp acc) = Inr ind"
    if "build_indicators compute (map (tuned_indicator fp) (d # ds)) df acc = Inr ind" for fp acc ind
    using that by (auto split: sum.splits py_error.splits)
  have "dict_get (?next fp acc) k = dict_get (?next fp' acc') k"
    using Cons.prems(3) assms(3) untuned [of d] by (cases "ind_name d = k") (auto split: sum.splits)
  with Cons.IH [OF step [OF Cons.prems(1)] step [OF Cons.prems(2)]] show ?case by simp
qed simp

lemma flags_untuned:
  assumes "evaluate_flags fls ind acc = Inr fl" and "evaluate_flags fls ind' acc' = Inr fl'"
    and "\<forall>f \<in> set fls. flag_name f = k \<longrightarrow> (\<exists>l c r. parse_flag (flag_expr f) = Some (l, c, r)
          \<and> dict_get ind l = dict_get ind' l \<and> dict_get ind r = dict_get ind' r)"
    and "dict_get acc k = dict_get acc' k"
  shows "dict_get fl k = dict_get fl' k"
  using assms
proof (induction fls arbitrary: acc acc')
  case (Cons f fls)
  from Cons.prems(1,2) obtain v v' where v: "evaluate_flag f ind = Inr v" "evaluate_flags fls ind (dict_set acc (flag_name f) v) = Inr fl"
    "evaluate_flag f ind' = Inr v'" "evaluate_flags fls ind' (dict_set acc' (flag_name f) v') = Inr fl'" by auto
  have "flag_name f = k \<Longrightarrow> v = v'" using v(1,3) Cons.prems(3) by (auto simp: evaluate_flag_def split: option.splits)
  with Cons.IH [OF v(2,4)] Cons.prems(3,4) show ?case by simp
qed simp

text \<open>Sweeping the periods of the moving averages does not move the cross they trade on. A flag
  that compares indicators the trial does not tune, as the flags of the EMA cross do, has the
  same value on the same bars for every two trials, so whatever \<^verbatim>\<open>ema_fast\<close> and
  \<^verbatim>\<open>ema_slow\<close> are, the EMA provider sees the cross of the periods in the file.\<close>

theorem swept_periods_keep_the_cross:
  assumes "build_features E compute (fst (build_features_config_from_trial dg t base)) h df symb tf pt ps (st, n)
      = Inr (fs, ctx, st1, n1)"
    and "build_features E compute (fst (build_features_config_from_trial dg t' base)) h' df symb tf pt ps (st', n')
      = Inr (fs', ctx', st1', n1')"
    and "\<forall>f \<in> set (fc_flags base). flag_name f = k \<longrightarrow>
      (\<exists>l c r. parse_flag (flag_expr f) = Some (l, c, r) \<and> l \<notin> tuned_names \<and> r \<notin> tuned_names)"
  shows "dict_get (flags fs) k = dict_get (flags fs') k"
proof -
  from assms(1) obtain work where w: "normalize_ohlcv df = Inr work"
    and 1: "build_indicators compute (map (tuned_indicator (build_features_write_kwargs t)) (fc_indicators base)) work [] = Inr (indicators fs)"
    "evaluate_flags (fc_flags base) (indicators fs) [] = Inr (flags fs)"
    by (auto simp: build_features_def build_features_config_from_trial_def Let_def)
  from assms(2) w have
    2: "build_indicators compute (map (tuned_indicator (build_features_write_kwargs t')) (fc_indicators base)) work [] = Inr (indicators fs')"
    "evaluate_flags (fc_flags base) (indicators fs') [] = Inr (flags fs')"
    by (auto simp: build_features_def build_features_config_from_trial_def Let_def)
  show ?thesis
    by (rule flags_untuned [OF 1(2) 2(2)]) (use assms(3) build_untuned [OF 1(1) 2(1)] in fastforce)+
qed

definition demo_compute :: "indicator_params indicator_fun" where
  "demo_compute d df = Inr (if ind_name d = ''ema_cross'' then 3 else 0)"

lemma demo_flags_parse:
  "parse_flag ''ema_cross > zero'' = Some (''ema_cross'', Cmp_gt, ''zero'')"
  "parse_flag ''ema_cross < zero'' = Some (''ema_cross'', Cmp_lt, ''zero'')"
  by code_simp+

lemma demo_build:
  obtains fs ctx st where "build_features unary_env demo_compute
    (fst (build_features_config_from_trial dg t demo_features_file)) ''h'' [(1, demo_candle)] ''BTC'' ''1h'' 2 False
    (empty_features, 0) = Inr (fs, ctx, st, Suc 0)"
proof -
  have n: "tuned_indicator fp cross_indicator = cross_indicator" "tuned_indicator fp zero_indicator = zero_indicator"
    "tuned_indicator fp atr_indicator = atr_indicator" for fp
    by (rule untuned; simp add: tuned_names_def cross_indicator_def zero_indicator_def atr_indicator_def
        macd_names_def adx_names_def bb_names_def st_names_def vol_names_def ms_names_def)+
  have "\<exists>fs ctx st. build_features unary_env demo_compute
    (fst (build_features_config_from_trial dg t demo_features_file)) ''h'' [(1, demo_candle)] ''BTC'' ''1h'' 2 False
    (empty_features, 0) = Inr (fs, ctx, st, Suc 0)"
    by (simp add: build_features_def build_features_config_from_trial_def demo_features_file_def demo_compute_def n
        normalize_ohlcv_def evaluate_flag_def demo_flags_parse derive_context_cases Let_def demo_features_def
        period_only_def tuned_indicator_def [of _ "\<lparr>ind_name = ''ema_12'', ind_type = x, ind_params = y\<rparr>" for x y]
        tuned_indicator_def [of _ "\<lparr>ind_name = ''ema_26'', ind_type = x, ind_params = y\<rparr>" for x y]
        cross_indicator_def zero_indicator_def atr_indicator_def)
  then show thesis using that by blast
qed

theorem swept_periods_keep_the_cross_witness:
  "\<exists>fs fs' ctx ctx' st st'.
     build_features unary_env demo_compute (fst (build_features_config_from_trial (\<lambda>_. ''h'') demo_trial demo_features_file))
       ''h'' [(1, demo_candle)] ''BTC'' ''1h'' 2 False (empty_features, 0) = Inr (fs, ctx, st, Suc 0)
     \<and> build_features unary_env demo_compute
       (fst (build_features_config_from_trial (\<lambda>_. ''h'') (demo_trial\<lparr>tp_nums := []\<rparr>) demo_features_file))
       ''h'' [(1, demo_candle)] ''BTC'' ''1h'' 2 False (empty_features, 0) = Inr (fs', ctx', st', Suc 0)
     \<and> dict_get (flags fs) ''ema_cross_bullish'' = dict_get (flags fs') ''ema_cross_bullish''"
proof -
  obtain fs ctx st where 1: "build_features unary_env demo_compute
      (fst (build_features_config_from_trial (\<lambda>_. ''h'') demo_trial demo_features_file))
      ''h'' [(1, demo_candle)] ''BTC'' ''1h'' 2 False (empty_features, 0) = Inr (fs, ctx, st, Suc 0)" by (rule demo_build)
  obtain fs' ctx' st' where 2: "build_features unary_env demo_compute
      (fst (build_features_config_from_trial (\<lambda>_. ''h'') (demo_trial\<lparr>tp_nums := []\<rparr>) demo_features_file))
      ''h'' [(1, demo_candle)] ''BTC'' ''1h'' 2 False (empty_features, 0) = Inr (fs', ctx', st', Suc 0)" by (rule demo_build)
  have "\<forall>f \<in> set (fc_flags demo_features_file). flag_name f = ''ema_cross_bullish'' \<longrightarrow>
      (\<exists>l c r. parse_flag (flag_expr f) = Some (l, c, r) \<and> l \<notin> tuned_names \<and> r \<notin> tuned_names)"
    by (simp add: demo_features_file_def demo_flags_parse tuned_names_def
        macd_names_def adx_names_def bb_names_def st_names_def vol_names_def ms_names_def)
  from swept_periods_keep_the_cross [OF 1 2 this] 1 2 show ?thesis
    by - (rule exI [of _ fs], rule exI [of _ fs'], rule exI [of _ ctx], rule exI [of _ ctx'], rule exI [of _ st],
        rule exI [of _ st'], intro conjI)
qed

end
