(* ===== verification/OptimizationSpace.thy ===== *)
theory OptimizationSpace
  imports TrialConfig Metrics
begin

text \<open>
  \<^verbatim>\<open>backend/src/validation/optimization_space.py\<close>: the search spaces of the optimiser and
  the four generators of trials, the grid, the sampler without feedback, the sampler with
  feedback and the refinement around the best trials. A space has the numbers to try by key
  and the session presets to try. The random generator and the Optuna study are parameters.
\<close>


subsection \<open>Spaces\<close>

definition trial_param_keys :: "string list" where
  "trial_param_keys = [
     ''min_confidence'', ''min_risk_reward'', ''min_agreeing_providers'', ''sl_atr_mult'', ''tp_atr_mult'',
     ''max_bars_in_trade'', ''oversold'', ''overbought'', ''risk_pct_per_trade'', ''min_atr_pct'',
     ''session_preset'', ''max_signals_per_day'', ''ema_fast'', ''ema_slow'', ''rsi_period'', ''ema_weight'',
     ''rsi_weight'', ''ema_enabled'', ''rsi_enabled'', ''macd_fast'', ''macd_slow'', ''macd_signal_period'',
     ''macd_weight'', ''macd_enabled'', ''require_signal_align'', ''min_histogram_slope'', ''adx_period'',
     ''adx_weight'', ''adx_enabled'', ''min_adx'', ''min_di_spread'', ''adx_require_trend'', ''bb_period'',
     ''bb_std'', ''bb_weight'', ''bb_enabled'', ''bb_avoid_high_vol'', ''bb_max_adx'', ''st_period'',
     ''st_multiplier'', ''st_weight'', ''st_enabled'', ''st_require_trend'', ''vol_period'', ''vol_weight'',
     ''vol_enabled'', ''min_cmf'', ''min_volume_ratio'', ''vol_require_price_align'', ''ms_pivot_bars'',
     ''ms_weight'', ''ms_enabled'', ''ms_require_bos'', ''ms_require_trend'']"

definition provider_enabled_keys :: "string list" where
  "provider_enabled_keys = [
     ''ema_enabled'', ''rsi_enabled'', ''macd_enabled'', ''adx_enabled'', ''bb_enabled'', ''st_enabled'',
     ''vol_enabled'', ''ms_enabled'']"

definition trend_family_keys :: "string list" where
  "trend_family_keys = [''ema_enabled'', ''macd_enabled'', ''adx_enabled'', ''st_enabled'', ''ms_enabled'']"

definition reversion_family_keys :: "string list" where
  "reversion_family_keys = [''bb_enabled'', ''rsi_enabled'']"

record optimization_space =
  os_nums :: "(string, real list) dict"
  os_session :: "string list"

definition default_space :: optimization_space where
  "default_space = \<lparr>os_nums = [
       (''min_confidence'', [3/5, 13/20, 7/10, 39/50]), (''min_risk_reward'', [1, 6/5, 3/2, 2]),
       (''min_agreeing_providers'', [1, 2]), (''sl_atr_mult'', [1, 3/2, 2]), (''tp_atr_mult'', [2, 3, 4]),
       (''max_bars_in_trade'', [12, 24, 48]), (''oversold'', [25, 30, 35]), (''overbought'', [65, 70, 75]),
       (''risk_pct_per_trade'', [1/2, 1, 3/2]), (''min_atr_pct'', [1/10, 3/10, 1/2]),
       (''max_signals_per_day'', [5, 10, 20]), (''ema_fast'', [12]), (''ema_slow'', [26]),
       (''rsi_period'', [14]), (''ema_weight'', [1]), (''rsi_weight'', [1]), (''ema_enabled'', [1]),
       (''rsi_enabled'', [1]), (''macd_fast'', [12]), (''macd_slow'', [26]), (''macd_signal_period'', [9]),
       (''macd_weight'', [1]), (''macd_enabled'', [1]), (''require_signal_align'', [1]),
       (''min_histogram_slope'', [0]), (''adx_period'', [14]), (''adx_weight'', [1]), (''adx_enabled'', [0]),
       (''min_adx'', [25]), (''min_di_spread'', [5]), (''adx_require_trend'', [0]), (''bb_period'', [20]),
       (''bb_std'', [2]), (''bb_weight'', [1]), (''bb_enabled'', [0]), (''bb_avoid_high_vol'', [1]),
       (''bb_max_adx'', [0]), (''st_period'', [10]), (''st_multiplier'', [3]), (''st_weight'', [1]),
       (''st_enabled'', [0]), (''st_require_trend'', [0]), (''vol_period'', [20]), (''vol_weight'', [1]),
       (''vol_enabled'', [0]), (''min_cmf'', [1/20]), (''min_volume_ratio'', [6/5]),
       (''vol_require_price_align'', [1]), (''ms_pivot_bars'', [5]), (''ms_weight'', [1]),
       (''ms_enabled'', [0]), (''ms_require_bos'', [1]), (''ms_require_trend'', [0])],
     os_session = [''eu_us'', ''all'']\<rparr>"

definition space_values :: "optimization_space \<Rightarrow> string \<Rightarrow> real list" where
  "space_values sp k = dict_get_or (os_nums sp) k []"

text \<open>\<^verbatim>\<open>from_dict\<close>: the lists given, by key, and the presets when they are given.\<close>

definition space_from_dict :: "(string, real list) dict \<Rightarrow> string list option \<Rightarrow> optimization_space" where
  "space_from_dict data session =
     (if data = [] \<and> session = None then default_space
      else \<lparr>os_nums = map (\<lambda>k. (k, case dict_get data k of Some vs \<Rightarrow> vs | None \<Rightarrow> space_values default_space k))
              (filter (\<lambda>k. k \<noteq> ''session_preset'') trial_param_keys),
            os_session = (case session of Some ps \<Rightarrow> ps | None \<Rightarrow> os_session default_space)\<rparr>)"

definition provider_discovery_space :: "(string, real list) dict" where
  "provider_discovery_space = [
       (''min_confidence'', [13/20]), (''min_risk_reward'', [6/5]), (''min_agreeing_providers'', [1, 2, 3]),
       (''sl_atr_mult'', [3/2]), (''tp_atr_mult'', [3]), (''max_bars_in_trade'', [24]), (''oversold'', [30]),
       (''overbought'', [70]), (''risk_pct_per_trade'', [1]), (''min_atr_pct'', [3/10]),
       (''max_signals_per_day'', [10]), (''ema_fast'', [12]), (''ema_slow'', [26]), (''rsi_period'', [14]),
       (''ema_weight'', [1]), (''rsi_weight'', [1]), (''ema_enabled'', [0, 1]), (''rsi_enabled'', [0, 1]),
       (''macd_fast'', [12]), (''macd_slow'', [26]), (''macd_signal_period'', [9]), (''macd_weight'', [1]),
       (''macd_enabled'', [0, 1]), (''require_signal_align'', [1]), (''min_histogram_slope'', [0]),
       (''adx_period'', [14]), (''adx_weight'', [1]), (''adx_enabled'', [0, 1]), (''min_adx'', [25]),
       (''min_di_spread'', [5]), (''adx_require_trend'', [0]), (''bb_period'', [20]), (''bb_std'', [2]),
       (''bb_weight'', [1]), (''bb_enabled'', [0, 1]), (''bb_avoid_high_vol'', [1]), (''bb_max_adx'', [0]),
       (''st_period'', [10]), (''st_multiplier'', [3]), (''st_weight'', [1]), (''st_enabled'', [0, 1]),
       (''st_require_trend'', [0]), (''vol_period'', [20]), (''vol_weight'', [1]), (''vol_enabled'', [0, 1]),
       (''min_cmf'', [1/20]), (''min_volume_ratio'', [6/5]), (''vol_require_price_align'', [1]),
       (''ms_pivot_bars'', [5]), (''ms_weight'', [1]), (''ms_enabled'', [0, 1]), (''ms_require_bos'', [1]),
       (''ms_require_trend'', [0])]"

definition overlay :: "('k, 'v) dict \<Rightarrow> ('k, 'v) dict \<Rightarrow> ('k, 'v) dict" where
  "overlay base news = fold (\<lambda>(k, v) d. dict_set d k v) news base"

definition provider_discovery_constrained_space :: "(string, real list) dict" where
  "provider_discovery_constrained_space = overlay provider_discovery_space [(''min_agreeing_providers'', [1, 2])]"

definition bb_solo_tuning_space :: "(string, real list) dict" where
  "bb_solo_tuning_space = overlay provider_discovery_space [
       (''min_confidence'', [11/20, 3/5, 13/20, 7/10, 39/50]), (''min_agreeing_providers'', [1]),
       (''sl_atr_mult'', [1, 3/2, 2]), (''tp_atr_mult'', [2, 3, 4]), (''max_bars_in_trade'', [12, 24, 48]),
       (''min_atr_pct'', [1/10, 3/10, 1/2]), (''ema_enabled'', [0]), (''rsi_enabled'', [0]),
       (''macd_enabled'', [0]), (''adx_enabled'', [0]), (''bb_period'', [14, 20, 26]),
       (''bb_std'', [3/2, 2, 5/2]), (''bb_enabled'', [1]), (''bb_avoid_high_vol'', [0, 1]),
       (''bb_max_adx'', [0, 20, 25, 30]), (''st_enabled'', [0]), (''vol_enabled'', [0]), (''ms_enabled'', [0])]"

definition provider_discovery :: optimization_space where
  "provider_discovery = space_from_dict provider_discovery_space (Some [''all''])"

definition provider_discovery_constrained :: "string list option \<Rightarrow> optimization_space" where
  "provider_discovery_constrained keep_shortlist =
     (let keep = filter (\<lambda>k. k \<in> set provider_enabled_keys) (case keep_shortlist of None \<Rightarrow> [] | Some ks \<Rightarrow> ks);
          space = (if keep = [] then provider_discovery_constrained_space
                   else overlay provider_discovery_constrained_space
                     (map (\<lambda>k. (k, if k \<in> set keep then [0, 1] else [0])) provider_enabled_keys))
      in space_from_dict space (Some [''all'']))"

definition bb_solo_tuning :: optimization_space where
  "bb_solo_tuning = space_from_dict bb_solo_tuning_space (Some [''all''])"


subsection \<open>Valid trials\<close>

definition switched_on :: "trial_params \<Rightarrow> string \<Rightarrow> bool" where
  "switched_on t k = (trial_int t k 0 \<noteq> 0)"

definition has_any_provider_enabled :: "trial_params \<Rightarrow> bool" where
  "has_any_provider_enabled t = list_ex (switched_on t) provider_enabled_keys"

definition has_compatible_provider_family :: "trial_params \<Rightarrow> bool" where
  "has_compatible_provider_family t =
     (\<not> (list_ex (switched_on t) trend_family_keys \<and> list_ex (switched_on t) reversion_family_keys))"

definition is_valid_provider_trial :: "bool \<Rightarrow> trial_params \<Rightarrow> bool" where
  "is_valid_provider_trial require_compatible_family t =
     (if \<not> has_any_provider_enabled t then False
      else if require_compatible_family \<and> \<not> has_compatible_provider_family t then False
      else True)"

definition space_requires_family_filter :: "optimization_space \<Rightarrow> bool" where
  "space_requires_family_filter sp =
     (length (filter (\<lambda>k. length (space_values sp k) > 1) provider_enabled_keys) \<ge> 2)"

definition enforced_family :: "optimization_space \<Rightarrow> bool option \<Rightarrow> bool" where
  "enforced_family sp require = (case require of None \<Rightarrow> space_requires_family_filter sp | Some b \<Rightarrow> b)"

definition provider_chip_labels :: "(string, string) dict" where
  "provider_chip_labels = [(''ema_enabled'', ''EMA''), (''rsi_enabled'', ''RSI''), (''macd_enabled'', ''MACD''),
     (''adx_enabled'', ''ADX''), (''bb_enabled'', ''BB''), (''st_enabled'', ''ST''), (''vol_enabled'', ''VOL''),
     (''ms_enabled'', ''MS'')]"

definition enabled_provider_labels :: "trial_params \<Rightarrow> string list" where
  "enabled_provider_labels t = map snd (filter (\<lambda>(k, l). trial_int t k 0 = 1) provider_chip_labels)"


subsection \<open>The grid\<close>

text \<open>The session preset is in the middle of the keys, and the product runs over the keys in
  their order.\<close>

definition keys_before :: "string list" where
  "keys_before = takeWhile (\<lambda>k. k \<noteq> ''session_preset'') trial_param_keys"

definition keys_after :: "string list" where
  "keys_after = tl (dropWhile (\<lambda>k. k \<noteq> ''session_preset'') trial_param_keys)"

definition make_combo :: "real list \<Rightarrow> string \<Rightarrow> real list \<Rightarrow> trial_params" where
  "make_combo a s b = \<lparr>tp_nums = zip keys_before a @ zip keys_after b, tp_session = Some s\<rparr>"

definition space_combos :: "optimization_space \<Rightarrow> trial_params list" where
  "space_combos sp =
     concat (map (\<lambda>a. concat (map (\<lambda>s. map (make_combo a s) (product_lists (map (space_values sp) keys_after)))
       (os_session sp))) (product_lists (map (space_values sp) keys_before)))"

definition trial_key :: "trial_params \<Rightarrow> (string \<times> real) list \<times> string option" where
  "trial_key t = (sort_key fst (tp_nums t), tp_session t)"

type_synonym seen_keys = "((string \<times> real) list \<times> string option) list"

fun pick_strided :: "int \<Rightarrow> trial_params list \<Rightarrow> trial_params list \<times> seen_keys \<Rightarrow> trial_params list \<times> seen_keys" where
  "pick_strided m [] ps = ps"
| "pick_strided m (c # cs) (picked, seen) =
     (let ps = (if trial_key c \<notin> set seen then (picked @ [c], trial_key c # seen) else (picked, seen))
      in if int (length (fst ps)) \<ge> m then ps else pick_strided m cs ps)"

text \<open>The random phase draws from what is left; the answers of the generator are read modulo the
  number of choices.\<close>

function pick_random ::
  "(nat \<Rightarrow> nat) \<Rightarrow> int \<Rightarrow> nat \<Rightarrow> trial_params list \<Rightarrow> trial_params list \<times> seen_keys \<Rightarrow> trial_params list"
where
  "pick_random draw m n remaining (picked, seen) =
     (if int (length picked) < m \<and> remaining \<noteq> [] then
        (let choice = remaining ! (draw n mod length remaining)
         in if trial_key choice \<in> set seen then pick_random draw m (Suc n) (remove1 choice remaining) (picked, seen)
            else pick_random draw m (Suc n) (remove1 choice remaining) (picked @ [choice], trial_key choice # seen))
      else picked)"
  by pat_completeness auto
termination
  by (relation "measure (\<lambda>(draw, m, n, remaining, ps). length remaining)") (auto simp: length_remove1)

definition generate_trials ::
  "(nat \<Rightarrow> nat) \<Rightarrow> optimization_space \<Rightarrow> int \<Rightarrow> bool option \<Rightarrow> trial_params list result" where
  "generate_trials draw sp max_trials require =
     (let combos = filter (is_valid_provider_trial (enforced_family sp require)) (space_combos sp)
      in if combos = [] then Inl (ValueError ''Optimization space has no valid provider combinations'')
         else if int (length combos) \<le> max_trials then Inr combos
         else if max_trials = 0 then Inl ZeroDivisionError
         else
           (let stride = nat (max 1 (int (length combos) div max_trials));
                (picked, seen) = pick_strided max_trials (every stride combos) ([], []);
                remaining = filter (\<lambda>c. trial_key c \<notin> set seen) combos
            in Inr (pick_random draw max_trials 0 remaining (picked, seen))))"


subsection \<open>The sampler\<close>

text \<open>An Optuna study, as the state it keeps: what it suggests for a key, and what it is told.\<close>

record 's sampler =
  sm_ask :: "'s \<Rightarrow> 's"
  sm_number :: "string \<Rightarrow> real list \<Rightarrow> 's \<Rightarrow> real \<times> 's"
  sm_preset :: "string \<Rightarrow> string list \<Rightarrow> 's \<Rightarrow> string \<times> 's"
  sm_tell :: "real option \<Rightarrow> 's \<Rightarrow> 's"

text \<open>A key with one value is not suggested; the index of an empty list is an error of the
  sampler.\<close>

fun suggest_key :: "'s sampler \<Rightarrow> optimization_space \<Rightarrow> string \<Rightarrow> trial_params \<times> 's \<Rightarrow> trial_params \<times> 's" where
  "suggest_key S sp k (t, s) =
     (if k = ''session_preset'' then
        (case os_session sp of
           [p] \<Rightarrow> (t\<lparr>tp_session := Some p\<rparr>, s)
         | ps \<Rightarrow> (case sm_preset S k ps s of (p, s') \<Rightarrow> (t\<lparr>tp_session := Some p\<rparr>, s')))
      else
        (case space_values sp k of
           [v] \<Rightarrow> (t\<lparr>tp_nums := tp_nums t @ [(k, v)]\<rparr>, s)
         | vs \<Rightarrow> (case sm_number S k vs s of (v, s') \<Rightarrow> (t\<lparr>tp_nums := tp_nums t @ [(k, v)]\<rparr>, s'))))"

definition suggest_params :: "'s sampler \<Rightarrow> optimization_space \<Rightarrow> 's \<Rightarrow> trial_params \<times> 's" where
  "suggest_params S sp s = fold (suggest_key S sp) trial_param_keys (\<lparr>tp_nums = [], tp_session = None\<rparr>, s)"

definition max_attempts :: "int \<Rightarrow> nat" where
  "max_attempts max_trials = nat (max (max_trials * 20) max_trials)"

fun ask_loop ::
  "'s sampler \<Rightarrow> optimization_space \<Rightarrow> bool \<Rightarrow> int \<Rightarrow> nat \<Rightarrow> 's \<Rightarrow> trial_params list \<times> seen_keys \<Rightarrow> trial_params list"
where
  "ask_loop S sp family m 0 s (picked, seen) = picked"
| "ask_loop S sp family m (Suc left) s (picked, seen) =
     (if int (length picked) < m then
        (case suggest_params S sp (sm_ask S s) of
           (t, s') \<Rightarrow>
             if \<not> is_valid_provider_trial family t then ask_loop S sp family m left s' (picked, seen)
             else if trial_key t \<in> set seen then ask_loop S sp family m left s' (picked, seen)
             else ask_loop S sp family m left s' (picked @ [t], trial_key t # seen))
      else picked)"

definition generate_trials_optuna ::
  "'s sampler \<Rightarrow> optimization_space \<Rightarrow> int \<Rightarrow> bool option \<Rightarrow> 's \<Rightarrow> trial_params list" where
  "generate_trials_optuna S sp max_trials require s =
     ask_loop S sp (enforced_family sp require) max_trials (max_attempts max_trials) s ([], [])"

text \<open>With feedback: the evaluation changes a state of its own and may raise.\<close>

fun tell_loop ::
  "'s sampler \<Rightarrow> optimization_space \<Rightarrow> bool \<Rightarrow> int \<Rightarrow> (trial_params \<Rightarrow> 'w \<Rightarrow> ((real \<times> 'r) \<times> 'w) result) \<Rightarrow> nat
   \<Rightarrow> 's \<times> 'w \<Rightarrow> 'r list \<times> seen_keys \<Rightarrow> ('r list \<times> 's \<times> 'w) result"
where
  "tell_loop S sp family m evaluate 0 (s, w) (results, seen) = Inr (results, s, w)"
| "tell_loop S sp family m evaluate (Suc left) (s, w) (results, seen) =
     (if int (length results) < m then
        (case suggest_params S sp (sm_ask S s) of
           (t, s') \<Rightarrow>
             if \<not> is_valid_provider_trial family t
             then tell_loop S sp family m evaluate left (sm_tell S None s', w) (results, seen)
             else if trial_key t \<in> set seen
             then tell_loop S sp family m evaluate left (sm_tell S None s', w) (results, seen)
             else
               (case evaluate t w of
                  Inl e \<Rightarrow> Inl e
                | Inr ((score, r), w') \<Rightarrow>
                    tell_loop S sp family m evaluate left (sm_tell S (Some score) s', w')
                      (results @ [r], trial_key t # seen)))
      else Inr (results, s, w))"

definition run_optuna_trials ::
  "'s sampler \<Rightarrow> optimization_space \<Rightarrow> (trial_params \<Rightarrow> 'w \<Rightarrow> ((real \<times> 'r) \<times> 'w) result) \<Rightarrow> int \<Rightarrow> bool option
   \<Rightarrow> 's \<Rightarrow> 'w \<Rightarrow> ('r list \<times> 's \<times> 'w) result" where
  "run_optuna_trials S sp evaluate max_trials require s w =
     tell_loop S sp (enforced_family sp require) max_trials evaluate (max_attempts max_trials) (s, w) ([], [])"


subsection \<open>Refinement around the best trials\<close>

definition refine_keys :: "string list" where
  "refine_keys = [''sl_atr_mult'', ''tp_atr_mult'', ''oversold'', ''overbought'', ''min_atr_pct'']"

definition list_index :: "'a list \<Rightarrow> 'a \<Rightarrow> nat option" where
  "list_index xs x = (if x \<in> set xs then Some (length (takeWhile (\<lambda>y. y \<noteq> x) xs)) else None)"

definition with_num :: "trial_params \<Rightarrow> string \<Rightarrow> real \<Rightarrow> trial_params" where
  "with_num t k v = t\<lparr>tp_nums := dict_set (tp_nums t) k v\<rparr>"

text \<open>The neighbours of a trial along one key, the lower one first.\<close>

definition key_neighbours :: "optimization_space \<Rightarrow> trial_params \<Rightarrow> string \<Rightarrow> trial_params list" where
  "key_neighbours sp t k =
     (let values = space_values sp k
      in case dict_get (tp_nums t) k of
           None \<Rightarrow> []
         | Some current \<Rightarrow>
             if length values < 2 then []
             else (case list_index values current of
                     None \<Rightarrow> []
                   | Some i \<Rightarrow> (if i > 0 then [with_num t k (values ! (i - 1))] else [])
                       @ (if i + 1 < length values then [with_num t k (values ! (i + 1))] else [])))"

definition trial_neighbours :: "optimization_space \<Rightarrow> trial_params \<Rightarrow> trial_params list" where
  "trial_neighbours sp t = concat (map (key_neighbours sp t) refine_keys)"

text \<open>Proposing candidates in order; the flag says that the maximum was reached.\<close>

fun propose :: "int \<Rightarrow> trial_params list \<Rightarrow> trial_params list \<times> seen_keys \<Rightarrow> bool \<times> trial_params list \<times> seen_keys" where
  "propose m [] (refined, seen) = (False, refined, seen)"
| "propose m (c # cs) (refined, seen) =
     (if trial_key c \<notin> set seen then
        (if int (length (refined @ [c])) \<ge> m then (True, refined @ [c], trial_key c # seen)
         else propose m cs (refined @ [c], trial_key c # seen))
      else propose m cs (refined, seen))"

fun refine_loop :: "optimization_space \<Rightarrow> int \<Rightarrow> trial_params list \<Rightarrow> trial_params list \<times> seen_keys \<Rightarrow> trial_params list" where
  "refine_loop sp m [] (refined, seen) = refined"
| "refine_loop sp m (t # ts) (refined, seen) =
     (case propose m (trial_neighbours sp t) (refined, trial_key t # seen) of
        (full, refined', seen') \<Rightarrow> if full then refined' else refine_loop sp m ts (refined', seen'))"

definition refine_trials_around :: "trial_params list \<Rightarrow> optimization_space \<Rightarrow> int \<Rightarrow> trial_params list" where
  "refine_trials_around top_trials sp max_refine = refine_loop sp max_refine top_trials ([], [])"


subsection \<open>The trials of a space\<close>

lemma keys_before_after: "trial_param_keys = keys_before @ ''session_preset'' # keys_after"
  by code_simp

lemma distinct_trial_keys: "distinct trial_param_keys"
  by code_simp

lemma distinct_num_keys: "distinct (keys_before @ keys_after)"
  using distinct_trial_keys by (auto simp: keys_before_after)

text \<open>A trial of the space: one value of each key's list, in the order of the keys.\<close>

definition in_space :: "optimization_space \<Rightarrow> trial_params \<Rightarrow> bool" where
  "in_space sp t \<longleftrightarrow> map fst (tp_nums t) = keys_before @ keys_after
     \<and> (\<forall>(k, v) \<in> set (tp_nums t). v \<in> set (space_values sp k))
     \<and> (\<exists>p \<in> set (os_session sp). tp_session t = Some p)"

lemma product_lists_members: "a \<in> set (product_lists (map f ks)) \<longleftrightarrow> length a = length ks \<and> (\<forall>(k, v) \<in> set (zip ks a). v \<in> set (f k))"
proof (induction ks arbitrary: a)
  case (Cons k ks)
  show ?case using Cons by (cases a) auto
qed auto

lemma combo_in_space: "t \<in> set (space_combos sp) \<longleftrightarrow> in_space sp t"
proof
  assume "t \<in> set (space_combos sp)"
  then show "in_space sp t"
    by (auto simp: space_combos_def in_space_def make_combo_def product_lists_members split: prod.splits)
next
  assume i: "in_space sp t"
  let ?n = "length keys_before"
  let ?a = "take ?n (map snd (tp_nums t))" and ?b = "drop ?n (map snd (tp_nums t))"
  from i obtain p where p: "p \<in> set (os_session sp)" "tp_session t = Some p" by (auto simp: in_space_def)
  have "length (map fst (tp_nums t)) = length (keys_before @ keys_after)" using i by (simp only: in_space_def)
  then have len: "length (tp_nums t) = ?n + length keys_after" by simp
  have keys: "map fst (take ?n (tp_nums t)) = keys_before" "map fst (drop ?n (tp_nums t)) = keys_after"
    using i by (simp_all add: in_space_def flip: take_map drop_map)
  have z: "zip keys_before ?a = take ?n (tp_nums t)" "zip keys_after ?b = drop ?n (tp_nums t)"
    using zip_map_fst_snd [of "take ?n (tp_nums t)"] zip_map_fst_snd [of "drop ?n (tp_nums t)"] keys
    by (simp_all add: take_map drop_map)
  have t: "t = make_combo ?a p ?b"
    by (rule trial_params.equality) (simp_all add: make_combo_def z p(2))
  have v: "\<forall>(k, v) \<in> set (tp_nums t). v \<in> set (space_values sp k)" using i by (simp add: in_space_def)
  have "?a \<in> set (product_lists (map (space_values sp) keys_before))"
    using v len set_take_subset [of ?n "tp_nums t"] by (auto simp: product_lists_members z)
  moreover have "?b \<in> set (product_lists (map (space_values sp) keys_after))"
    using v len set_drop_subset [of ?n "tp_nums t"] by (auto simp: product_lists_members z)
  ultimately have "make_combo ?a p ?b \<in> set (space_combos sp)"
    using p(1) unfolding space_combos_def by auto
  then show "t \<in> set (space_combos sp)" using t by simp
qed

lemma keyed_list: "map (\<lambda>k. (k, the (map_of xs k))) (map fst xs) = xs" if "distinct (map fst xs)"
  using that
proof (induction xs)
  case (Cons x xs)
  obtain k v where x: "x = (k, v)" by (cases x)
  have "map (\<lambda>j. (j, the (map_of (x # xs) j))) (map fst xs) = map (\<lambda>j. (j, the (map_of xs j))) (map fst xs)"
    using Cons.prems by (intro map_cong) (auto simp: x)
  with Cons show ?case by (simp add: x)
qed simp

lemma trial_key_inject:
  assumes "in_space sp t" and "in_space sp u" and "trial_key t = trial_key u"
  shows "t = u"
proof -
  have k: "map fst (tp_nums t) = map fst (tp_nums u)" using assms(1,2) by (simp add: in_space_def)
  have d: "distinct (map fst (tp_nums t))" "distinct (map fst (tp_nums u))"
    using assms(1,2) distinct_num_keys by (simp_all add: in_space_def)
  have "set (tp_nums t) = set (tp_nums u)"
    using assms(3) by (metis trial_key_def fst_conv set_sort)
  with d have "map_of (tp_nums t) = map_of (tp_nums u)" by (simp add: map_of_inject_set)
  with keyed_list [OF d(1)] keyed_list [OF d(2)] k have "tp_nums t = tp_nums u" by metis
  with assms(3) show ?thesis by (cases t, cases u) (simp add: trial_key_def)
qed

definition plain_space :: "optimization_space \<Rightarrow> bool" where
  "plain_space sp \<longleftrightarrow> list_all (\<lambda>k. distinct (space_values sp k)) trial_param_keys \<and> distinct (os_session sp)"

lemma distinct_concat_map:
  assumes "distinct xs" and "\<And>x. x \<in> set xs \<Longrightarrow> distinct (f x)"
    and "\<And>x y. x \<in> set xs \<Longrightarrow> y \<in> set xs \<Longrightarrow> x \<noteq> y \<Longrightarrow> set (f x) \<inter> set (f y) = {}"
  shows "distinct (concat (map f xs))"
  using assms by (induction xs) auto

lemma make_combo_inject:
  assumes "length a = length keys_before" "length a' = length keys_before" "length b = length keys_after" "length b' = length keys_after"
  shows "make_combo a s b = make_combo a' s' b' \<longleftrightarrow> a = a' \<and> s = s' \<and> b = b'"
proof
  assume "make_combo a s b = make_combo a' s' b'"
  then have z: "zip keys_before a = zip keys_before a'" "zip keys_after b = zip keys_after b'" "s = s'"
    using assms by (simp_all add: make_combo_def)
  from arg_cong [OF z(1), of "map snd"] arg_cong [OF z(2), of "map snd"] z(3) assms
  show "a = a' \<and> s = s' \<and> b = b'" by simp
qed simp

lemma distinct_combos:
  assumes "plain_space sp"
  shows "distinct (space_combos sp)"
proof -
  let ?A = "product_lists (map (space_values sp) keys_before)" and ?B = "product_lists (map (space_values sp) keys_after)"
  have d: "distinct ?A" "distinct ?B"
    using assms by (auto intro!: distinct_product_lists simp: plain_space_def keys_before_after list_all_iff)
  have l: "a \<in> set ?A \<Longrightarrow> length a = length keys_before" "b \<in> set ?B \<Longrightarrow> length b = length keys_after" for a b
    by (simp_all add: product_lists_members)
  have i: "make_combo a s b = make_combo a' s' b' \<longleftrightarrow> a = a' \<and> s = s' \<and> b = b'"
    if "a \<in> set ?A" "a' \<in> set ?A" "b \<in> set ?B" "b' \<in> set ?B" for a s b a' s' b'
    using make_combo_inject [of a a' b b' s s'] l that by blast
  show ?thesis unfolding space_combos_def
  proof (intro distinct_concat_map d(1))
    fix a assume a: "a \<in> set ?A"
    show "distinct (os_session sp)" using assms by (simp add: plain_space_def)
    fix s show "distinct (map (make_combo a s) ?B)"
      using a i by (intro distinct_map [THEN iffD2] conjI d(2) inj_onI) blast
    fix s' assume "s \<noteq> s'"
    then show "set (map (make_combo a s) ?B) \<inter> set (map (make_combo a s') ?B) = {}" using a i by auto
  next
    fix a a' assume "a \<in> set ?A" "a' \<in> set ?A" "a \<noteq> a'"
    then show "set (concat (map (\<lambda>s. map (make_combo a s) ?B) (os_session sp)))
        \<inter> set (concat (map (\<lambda>s. map (make_combo a' s) ?B) (os_session sp))) = {}" using i by auto
  qed
qed

lemma distinct_combo_keys: "plain_space sp \<Longrightarrow> distinct (map trial_key (filter P (space_combos sp)))"
  using trial_key_inject [of sp] distinct_combos [of sp]
  by (simp add: distinct_map combo_in_space inj_on_def)

lemma every_nth: "every n xs = map ((!) xs) (filter (\<lambda>i. i mod n = 0) [0..<length xs])"
proof -
  have "enumerate 0 xs = map (\<lambda>i. (i, xs ! i)) [0..<length xs]"
    by (rule nth_equalityI) (simp_all add: nth_enumerate_eq)
  then show ?thesis by (simp add: every_def filter_map o_def)
qed

lemma set_every: "set (every n xs) \<subseteq> set xs"
  by (auto simp: every_nth)

lemma distinct_map_every: "distinct (map f xs) \<Longrightarrow> distinct (map f (every n xs))"
  by (simp add: every_nth distinct_map inj_on_def Ball_def in_set_conv_nth) (metis nth_eq_iff_index_eq)

lemma every_one [simp]: "every (Suc 0) xs = xs"
  by (simp add: every_nth map_nth)

lemma length_every:
  assumes "0 < n" and "m * n \<le> length xs"
  shows "m \<le> length (every n xs)"
proof -
  have "(\<lambda>j. j * n) ` {..<m} \<subseteq> set (filter (\<lambda>i. i mod n = 0) [0..<length xs])"
  proof
    fix i assume "i \<in> (\<lambda>j. j * n) ` {..<m}"
    then obtain j where j: "i = j * n" "j < m" by auto
    then have "j * n < m * n" using assms(1) by simp
    then have "i < length xs" using j(1) assms(2) by linarith
    with j show "i \<in> set (filter (\<lambda>i. i mod n = 0) [0..<length xs])" by simp
  qed
  moreover have "inj_on (\<lambda>j. j * n) {..<m}" using assms(1) by (simp add: inj_on_def)
  ultimately have "m \<le> card (set (filter (\<lambda>i. i mod n = 0) [0..<length xs]))"
    by (metis card_image card_lessThan card_mono List.finite_set)
  also have "card (set (filter (\<lambda>i. i mod n = 0) [0..<length xs])) = length (filter (\<lambda>i. i mod n = 0) [0..<length xs])"
    by (rule distinct_card) simp
  finally show ?thesis by (simp only: every_nth length_map)
qed

lemma pick_strided_distinct:
  assumes "distinct (map trial_key cs)" and "set (map trial_key cs) \<inter> set seen = {}" and "int (length p) < m"
  shows "fst (pick_strided m cs (p, seen)) = p @ take (nat m - length p) cs"
  using assms
proof (induction cs arbitrary: p seen)
  case (Cons c cs)
  show ?case
  proof (cases "int (length (p @ [c])) \<ge> m")
    case True
    with Cons.prems(3) have "nat m - length p = 1" by simp
    with True Cons.prems(2) show ?thesis by simp
  next
    case False
    then have "nat m - length p = Suc (nat m - length (p @ [c]))" by simp
    with False Cons.IH [of "trial_key c # seen" "p @ [c]"] Cons.prems show ?thesis by auto
  qed
qed simp

lemma pick_random_full: "int (length p) \<ge> m \<Longrightarrow> pick_random draw m n rem (p, seen) = p"
  by (subst pick_random.simps) simp

lemma grid_search_prefix:
  assumes "plain_space sp" and "0 < m" and "m < int (length combos)"
    and "combos = filter (is_valid_provider_trial (enforced_family sp require)) (space_combos sp)"
  shows "generate_trials draw sp m require = Inr (take (nat m) (every (length combos div nat m) combos))"
proof -
  let ?n = "length combos div nat m"
  have stride: "nat (max 1 (int (length combos) div m)) = ?n" "0 < ?n"
  proof -
    have le: "nat m \<le> length combos" using assms(3) by simp
    with assms(2) show p: "0 < ?n" by (simp add: div_greater_zero_iff)
    have "int (length combos) div m = int ?n" using assms(2) by (simp add: zdiv_int)
    with p show "nat (max 1 (int (length combos) div m)) = ?n" by simp
  qed
  have d: "distinct (map trial_key (every ?n combos))"
    unfolding assms(4) by (rule distinct_map_every [OF distinct_combo_keys [OF assms(1)]])
  have len: "nat m \<le> length (every ?n combos)"
    by (rule length_every [OF stride(2)]) (metis div_times_less_eq_dividend mult.commute)
  have p: "fst (pick_strided m (every ?n combos) ([], [])) = take (nat m) (every ?n combos)"
    using pick_strided_distinct [OF d, of "[]" "[]" m] assms(2) by simp
  obtain seen where ps: "pick_strided m (every ?n combos) ([], []) = (take (nat m) (every ?n combos), seen)"
    using p by (metis prod.collapse)
  have "combos \<noteq> []" using assms(2,3) by auto
  then show ?thesis
    using assms(2,3) stride len
    by (simp add: generate_trials_def Let_def ps pick_random_full flip: assms(4))
qed

text \<open>The search ignores its seed. When no list of the space has a value twice and there are
  more valid trials than asked for, the trials of the grid are the first of every n-th valid
  combination, whatever the random generator answers: the strided pass always fills the
  quota, and the random phase never draws. With less than twice as many combinations as
  trials the stride is one, and only the combinations at the front are ever tried.\<close>

theorem grid_search_ignores_its_seed:
  assumes "plain_space sp" and "0 < m" and "m < int (length combos)"
    and "combos = filter (is_valid_provider_trial (enforced_family sp require)) (space_combos sp)"
  shows "generate_trials draw sp m require = Inr (take (nat m) (every (length combos div nat m) combos))
    \<and> (int (length combos) < 2 * m \<longrightarrow> generate_trials draw sp m require = Inr (take (nat m) combos))"
proof -
  have "length combos div nat m = Suc 0" if "int (length combos) < 2 * m"
    using that assms(2,3) by (intro div_nat_eqI) simp_all
  with grid_search_prefix [OF assms, of draw] show ?thesis by simp
qed

text \<open>The grid is sound. What it returns are valid combinations of the space, no two the
  same, as many as asked for or as there are.\<close>

theorem generated_trials_sound:
  assumes "plain_space sp" and "0 < m" and "generate_trials draw sp m require = Inr ts"
  shows "length ts = min (nat m) (length (filter (is_valid_provider_trial (enforced_family sp require)) (space_combos sp)))
    \<and> distinct (map trial_key ts)
    \<and> (\<forall>t \<in> set ts. in_space sp t \<and> has_any_provider_enabled t
        \<and> (enforced_family sp require \<longrightarrow> has_compatible_provider_family t))"
proof -
  let ?combos = "filter (is_valid_provider_trial (enforced_family sp require)) (space_combos sp)"
  have sub: "length ts = min (nat m) (length ?combos) \<and> distinct (map trial_key ts) \<and> set ts \<subseteq> set ?combos"
  proof (cases "m < int (length ?combos)")
    case True
    let ?n = "length ?combos div nat m"
    have "nat m \<le> length ?combos" using True by simp
    with assms(2) have n: "0 < ?n" by (simp add: div_greater_zero_iff)
    have "nat m \<le> length (every ?n ?combos)"
      by (rule length_every [OF n]) (metis div_times_less_eq_dividend mult.commute)
    moreover have "ts = take (nat m) (every ?n ?combos)"
      using grid_search_prefix [OF assms(1,2) True refl, of draw] assms(3) by simp
    moreover have "distinct (map trial_key (every ?n ?combos))"
      by (rule distinct_map_every [OF distinct_combo_keys [OF assms(1)]])
    ultimately show ?thesis
      using True set_every [of ?n ?combos] set_take_subset [of "nat m" "every ?n ?combos"]
      by (auto simp: distinct_take simp flip: take_map)
  next
    case False
    with assms(3) have "ts = ?combos" by (simp add: generate_trials_def Let_def split: if_splits)
    with False distinct_combo_keys [OF assms(1)] show ?thesis by simp
  qed
  moreover have "\<forall>t \<in> set ?combos. in_space sp t \<and> has_any_provider_enabled t
      \<and> (enforced_family sp require \<longrightarrow> has_compatible_provider_family t)"
    by (simp add: combo_in_space is_valid_provider_trial_def)
  ultimately show ?thesis by blast
qed


subsection \<open>What the sampler proposes\<close>

text \<open>Optuna answers with one of the choices it is given; a space it samples from names at least
  one value for every key.\<close>

definition answers_choices :: "'s sampler \<Rightarrow> bool" where
  "answers_choices S \<longleftrightarrow> (\<forall>k vs s. vs \<noteq> [] \<longrightarrow> fst (sm_number S k vs s) \<in> set vs)
     \<and> (\<forall>k ps s. ps \<noteq> [] \<longrightarrow> fst (sm_preset S k ps s) \<in> set ps)"

definition full_space :: "optimization_space \<Rightarrow> bool" where
  "full_space sp \<longleftrightarrow> list_all (\<lambda>k. space_values sp k \<noteq> []) (keys_before @ keys_after) \<and> os_session sp \<noteq> []"

lemma suggest_number:
  assumes "answers_choices S" and "k \<noteq> ''session_preset''" and "space_values sp k \<noteq> []"
  obtains v s' where "suggest_key S sp k (t, s) = (t\<lparr>tp_nums := tp_nums t @ [(k, v)]\<rparr>, s')" and "v \<in> set (space_values sp k)"
proof -
  have ch: "fst (sm_number S k (space_values sp k) s) \<in> set (space_values sp k)"
    using assms(1,3) by (simp add: answers_choices_def)
  obtain v s' where vs: "sm_number S k (space_values sp k) s = (v, s')" by fastforce
  show thesis
  proof (cases "\<exists>x. space_values sp k = [x]")
    case True
    then obtain x where x: "space_values sp k = [x]" by blast
    show thesis by (rule that [of x s]) (simp_all add: assms(2) x)
  next
    case False
    with assms(3) obtain x y zs where x: "space_values sp k = x # y # zs" by (metis neq_Nil_conv)
    show thesis by (rule that [of v s']) (use assms(2) ch vs in \<open>simp_all add: x\<close>)
  qed
qed

lemma suggest_preset:
  assumes "answers_choices S" and "os_session sp \<noteq> []"
  obtains p s' where "suggest_key S sp ''session_preset'' (t, s) = (t\<lparr>tp_session := Some p\<rparr>, s')" and "p \<in> set (os_session sp)"
proof -
  have ch: "fst (sm_preset S ''session_preset'' (os_session sp) s) \<in> set (os_session sp)"
    using assms by (simp add: answers_choices_def)
  obtain p s' where ps: "sm_preset S ''session_preset'' (os_session sp) s = (p, s')" by fastforce
  show thesis
  proof (cases "\<exists>x. os_session sp = [x]")
    case True
    then obtain x where x: "os_session sp = [x]" by blast
    show thesis by (rule that [of x s]) (simp_all add: x)
  next
    case False
    with assms(2) obtain x y zs where x: "os_session sp = x # y # zs" by (metis neq_Nil_conv)
    show thesis by (rule that [of p s']) (use ch ps in \<open>simp_all add: x\<close>)
  qed
qed

declare suggest_key.simps [simp del]

lemma suggest_numbers:
  assumes "answers_choices S" and "''session_preset'' \<notin> set ks" and "\<forall>k \<in> set ks. space_values sp k \<noteq> []"
  shows "\<exists>vs s'. fold (suggest_key S sp) ks (t, s) = (t\<lparr>tp_nums := tp_nums t @ zip ks vs\<rparr>, s')
    \<and> length vs = length ks \<and> (\<forall>(k, v) \<in> set (zip ks vs). v \<in> set (space_values sp k))"
  using assms(2,3)
proof (induction ks arbitrary: t s)
  case Nil
  show ?case by (intro exI [of _ "[]"]) simp
next
  case (Cons k ks)
  obtain v s1 where v: "suggest_key S sp k (t, s) = (t\<lparr>tp_nums := tp_nums t @ [(k, v)]\<rparr>, s1)" "v \<in> set (space_values sp k)"
    using suggest_number [OF assms(1), of k sp t s] Cons.prems by auto
  from Cons.IH [of "t\<lparr>tp_nums := tp_nums t @ [(k, v)]\<rparr>" s1] Cons.prems obtain vs s'
    where "fold (suggest_key S sp) ks (t\<lparr>tp_nums := tp_nums t @ [(k, v)]\<rparr>, s1)
        = (t\<lparr>tp_nums := tp_nums t @ (k, v) # zip ks vs\<rparr>, s')"
      "length vs = length ks" "\<forall>(k, v) \<in> set (zip ks vs). v \<in> set (space_values sp k)" by auto
  with v show ?case by (intro exI [of _ "v # vs"] exI [of _ s']) simp
qed

lemma suggested_in_space:
  assumes "answers_choices S" and "full_space sp"
  shows "in_space sp (fst (suggest_params S sp s))"
proof -
  have d: "''session_preset'' \<notin> set keys_before" "''session_preset'' \<notin> set keys_after"
    using distinct_trial_keys by (auto simp: keys_before_after)
  let ?e = "\<lparr>tp_nums = [], tp_session = None\<rparr>"
  obtain vs s1 where 1: "fold (suggest_key S sp) keys_before (?e, s) = (?e\<lparr>tp_nums := zip keys_before vs\<rparr>, s1)"
      "length vs = length keys_before" "\<forall>(k, v) \<in> set (zip keys_before vs). v \<in> set (space_values sp k)"
    using suggest_numbers [OF assms(1) d(1), of sp ?e s] assms(2) by (auto simp: full_space_def list_all_iff)
  obtain p s2 where 2: "suggest_key S sp ''session_preset'' (?e\<lparr>tp_nums := zip keys_before vs\<rparr>, s1)
      = (?e\<lparr>tp_nums := zip keys_before vs, tp_session := Some p\<rparr>, s2)" "p \<in> set (os_session sp)"
    using suggest_preset [OF assms(1), of sp "?e\<lparr>tp_nums := zip keys_before vs\<rparr>" s1] assms(2)
    by (auto simp: full_space_def)
  obtain us s3 where 3: "fold (suggest_key S sp) keys_after (?e\<lparr>tp_nums := zip keys_before vs, tp_session := Some p\<rparr>, s2)
      = (?e\<lparr>tp_nums := zip keys_before vs @ zip keys_after us, tp_session := Some p\<rparr>, s3)"
      "length us = length keys_after" "\<forall>(k, v) \<in> set (zip keys_after us). v \<in> set (space_values sp k)"
    using suggest_numbers [OF assms(1) d(2), of sp "?e\<lparr>tp_nums := zip keys_before vs, tp_session := Some p\<rparr>" s2] assms(2)
    by (auto simp: full_space_def list_all_iff)
  have "fst (suggest_params S sp s) = ?e\<lparr>tp_nums := zip keys_before vs @ zip keys_after us, tp_session := Some p\<rparr>"
    using 1(1) 2(1) 3(1) by (simp add: suggest_params_def keys_before_after)
  with 1 2 3 show ?thesis by (auto simp: in_space_def)
qed

definition good_results :: "optimization_space \<Rightarrow> bool \<Rightarrow> int \<Rightarrow> ('r \<Rightarrow> trial_params) \<Rightarrow> 'r list \<Rightarrow> bool" where
  "good_results sp family m par rs \<longleftrightarrow> length rs \<le> nat m \<and> distinct (map (trial_key \<circ> par) rs)
     \<and> (\<forall>r \<in> set rs. in_space sp (par r) \<and> is_valid_provider_trial family (par r))"

lemma tell_loop_sound:
  assumes "answers_choices S" and "full_space sp"
    and "\<And>t w score r w'. evaluate t w = Inr ((score, r), w') \<Longrightarrow> par r = t"
    and "tell_loop S sp family m evaluate n (s, w) (rs, seen) = Inr (rs', s', w')"
    and "set seen = (trial_key \<circ> par) ` set rs" and "good_results sp family m par rs"
  shows "good_results sp family m par rs'"
  using assms(4-6)
proof (induction n arbitrary: s w rs seen)
  case (Suc n)
  show ?case
  proof (cases "int (length rs) < m")
    case True
    obtain t s1 where t: "suggest_params S sp (sm_ask S s) = (t, s1)" by fastforce
    with suggested_in_space [OF assms(1,2), of "sm_ask S s"] have i: "in_space sp t" by simp
    show ?thesis
    proof (cases "is_valid_provider_trial family t \<and> trial_key t \<notin> set seen")
      case go: True
      with Suc.prems(1) True t obtain score r w1 where e: "evaluate t w = Inr ((score, r), w1)"
        "tell_loop S sp family m evaluate n (sm_tell S (Some score) s1, w1) (rs @ [r], trial_key t # seen) = Inr (rs', s', w')"
        by (auto split: sum.splits)
      note pr = assms(3) [OF e(1)]
      have "good_results sp family m par (rs @ [r])"
        using Suc.prems(2,3) go i True by (auto simp: good_results_def pr)
      with Suc.IH [OF e(2)] Suc.prems(2) show ?thesis by (simp add: pr)
    next
      case skip: False
      with Suc.prems(1) True t have "tell_loop S sp family m evaluate n (sm_tell S None s1, w) (rs, seen) = Inr (rs', s', w')"
        by (auto split: if_splits)
      with Suc.IH Suc.prems(2,3) show ?thesis by blast
    qed
  qed (use Suc.prems in simp)
qed simp

text \<open>C39: the search with feedback is sound. Whatever the sampler suggests among the choices it is
  given and however often it is asked, the evaluated trials are combinations of the space, valid for
  the family filter, no two the same, and at most as many as asked for.\<close>

theorem adaptive_search_sound:
  assumes "answers_choices S" and "full_space sp"
    and "\<And>t w score r w'. evaluate t w = Inr ((score, r), w') \<Longrightarrow> par r = t"
    and "run_optuna_trials S sp evaluate m require s w = Inr (rs, s', w')"
  shows "length rs \<le> nat m \<and> distinct (map par rs)
    \<and> (\<forall>r \<in> set rs. in_space sp (par r) \<and> has_any_provider_enabled (par r)
        \<and> (enforced_family sp require \<longrightarrow> has_compatible_provider_family (par r)))"
proof -
  have "good_results sp (enforced_family sp require) m par rs"
    by (rule tell_loop_sound [OF assms(1-3) assms(4) [unfolded run_optuna_trials_def]])
      (simp_all add: good_results_def)
  moreover from this have "distinct (map par rs)"
    using distinct_map [of trial_key "map par rs"] by (simp add: good_results_def)
  ultimately show ?thesis by (auto simp: good_results_def is_valid_provider_trial_def split: if_splits)
qed

text \<open>Without feedback the two searches are the same.\<close>

lemma ask_is_tell:
  assumes "\<And>x s. sm_tell S x s = s"
  shows "\<exists>s'. tell_loop S sp family m (\<lambda>t w. Inr ((0, t), w)) n (s, ()) (rs, seen)
    = Inr (ask_loop S sp family m n s (rs, seen), s', ())"
  using assms by (induction n arbitrary: s rs seen) (auto split: prod.splits)

text \<open>A search without feedback is the search with feedback whose sampler ignores what it is
  told: it proposes, in the same order, exactly the trials the other evaluates.\<close>

theorem unscored_search_is_deaf_search:
  "\<exists>s'. run_optuna_trials (S\<lparr>sm_tell := \<lambda>x s. s\<rparr>) sp (\<lambda>t w. Inr ((0, t), w)) m require s ()
     = Inr (generate_trials_optuna S sp m require s, s', ())"
proof -
  let ?S = "S\<lparr>sm_tell := \<lambda>x s. s\<rparr>"
  have "suggest_key ?S sp k ts = suggest_key S sp k ts" for k ts
    by (cases ts) (auto simp: suggest_key.simps split: list.split)
  then have k: "suggest_key ?S sp = suggest_key S sp" by (intro ext)
  have "suggest_params ?S sp s = suggest_params S sp s" for s
    by (simp only: suggest_params_def k)
  then have "ask_loop ?S sp family m n s rss = ask_loop S sp family m n s rss" for family n s rss
    by (cases rss, induction n arbitrary: s rss) (auto split: prod.splits)
  with ask_is_tell [of ?S sp "enforced_family sp require" m "max_attempts m" s "[]" "[]"] show ?thesis
    by (simp add: run_optuna_trials_def generate_trials_optuna_def)
qed


subsection \<open>What the refinement proposes\<close>

lemma neighbour_key: "trial_key (with_num t k v) = (sort_key fst (dict_set (tp_nums t) k v), tp_session t)"
  by (simp add: trial_key_def with_num_def)

lemma propose_spec:
  assumes "propose m cs (refined, seen) = (full, refined', seen')" and "int (length refined) < m"
    and "set (map trial_key refined) \<subseteq> set seen" and "distinct (map trial_key refined)"
  shows "\<exists>new. refined' = refined @ new \<and> set new \<subseteq> set cs \<and> distinct (map trial_key refined')
    \<and> set (map trial_key new) \<inter> set seen = {} \<and> set seen' = set seen \<union> set (map trial_key new)
    \<and> int (length refined') \<le> m \<and> length new \<le> length cs \<and> (full \<longleftrightarrow> int (length refined') \<ge> m)
    \<and> (\<not> full \<longrightarrow> set (map trial_key cs) \<subseteq> set seen')"
  using assms
proof (induction cs arbitrary: refined seen)
  case (Cons c cs)
  show ?case
  proof (cases "trial_key c \<in> set seen")
    case True
    with Cons.IH [of refined seen] Cons.prems show ?thesis by fastforce
  next
    case new: False
    show ?thesis
    proof (cases "int (length (refined @ [c])) \<ge> m")
      case True
      with new Cons.prems show ?thesis by (intro exI [of _ "[c]"]) auto
    next
      case False
      from False new Cons.prems(1) have 1: "propose m cs (refined @ [c], trial_key c # seen) = (full, refined', seen')" by simp
      have "\<exists>new. refined' = (refined @ [c]) @ new \<and> set new \<subseteq> set cs \<and> distinct (map trial_key refined')
        \<and> set (map trial_key new) \<inter> set (trial_key c # seen) = {}
        \<and> set seen' = set (trial_key c # seen) \<union> set (map trial_key new)
        \<and> int (length refined') \<le> m \<and> length new \<le> length cs \<and> (full \<longleftrightarrow> int (length refined') \<ge> m)
        \<and> (\<not> full \<longrightarrow> set (map trial_key cs) \<subseteq> set seen')"
        by (rule Cons.IH [OF 1]) (use False new Cons.prems in auto)
      then obtain new' where n: "refined' = (refined @ [c]) @ new'" "set new' \<subseteq> set cs" "distinct (map trial_key refined')"
        "set (map trial_key new') \<inter> set (trial_key c # seen) = {}"
        "set seen' = set (trial_key c # seen) \<union> set (map trial_key new')"
        "int (length refined') \<le> m" "length new' \<le> length cs" "full \<longleftrightarrow> int (length refined') \<ge> m"
        "\<not> full \<longrightarrow> set (map trial_key cs) \<subseteq> set seen'"
        by blast
      with new show ?thesis by (intro exI [of _ "c # new'"]) auto
    qed
  qed
qed auto

lemma refine_loop_sound:
  assumes "0 < m" and "int (length refined) < m" and "set (map trial_key refined) \<subseteq> set seen"
    and "distinct (map trial_key refined)"
  shows "int (length (refine_loop sp m ts (refined, seen))) \<le> m
    \<and> distinct (map trial_key (refine_loop sp m ts (refined, seen)))
    \<and> (\<exists>new. refine_loop sp m ts (refined, seen) = refined @ new
        \<and> set new \<subseteq> (\<Union>t \<in> set ts. set (trial_neighbours sp t)))"
  using assms(2-4)
proof (induction ts arbitrary: refined seen)
  case (Cons t ts)
  obtain full refined' seen' where p: "propose m (trial_neighbours sp t) (refined, trial_key t # seen) = (full, refined', seen')"
    by (metis prod_cases3)
  have "set (map trial_key refined) \<subseteq> set (trial_key t # seen)" using Cons.prems(2) by auto
  from propose_spec [OF p Cons.prems(1) this Cons.prems(3)] obtain new where n: "refined' = refined @ new"
    "set new \<subseteq> set (trial_neighbours sp t)" "distinct (map trial_key refined')"
    "set seen' = set (trial_key t # seen) \<union> set (map trial_key new)" "int (length refined') \<le> m"
    "full \<longleftrightarrow> int (length refined') \<ge> m" by blast
  show ?case
  proof (cases full)
    case True
    with p n show ?thesis by auto
  next
    case False
    have "set (map trial_key refined') \<subseteq> set seen'" using n Cons.prems(2) by auto
    with Cons.IH [of refined' seen'] n False obtain new' where
      "int (length (refine_loop sp m ts (refined', seen'))) \<le> m"
      "distinct (map trial_key (refine_loop sp m ts (refined', seen')))"
      "refine_loop sp m ts (refined', seen') = refined' @ new'"
      "set new' \<subseteq> (\<Union>t \<in> set ts. set (trial_neighbours sp t))" by auto
    with p n False show ?thesis by auto
  qed
qed simp

text \<open>The refinement proposes at most the asked number of distinct trials, each of them a best
  trial with one of the five refined values moved to a neighbour in its list. It can
  propose a best trial again: a neighbour of the first best trial is proposed also when it is itself
  one of the later ones.\<close>

theorem refinement_proposes_neighbours:
  assumes "0 < m"
  shows "int (length (refine_trials_around tops sp m)) \<le> m
    \<and> distinct (map trial_key (refine_trials_around tops sp m))
    \<and> (\<forall>c \<in> set (refine_trials_around tops sp m). \<exists>t \<in> set tops. c \<in> set (trial_neighbours sp t))
    \<and> (\<forall>t ts u. tops = t # ts \<longrightarrow> u \<in> set (trial_neighbours sp t) \<longrightarrow> trial_key u \<noteq> trial_key t
        \<longrightarrow> int (length (trial_neighbours sp t)) < m
        \<longrightarrow> trial_key u \<in> trial_key ` set (refine_trials_around tops sp m))"
proof -
  note l = refine_loop_sound [of m "[]" "[]" sp tops, OF assms]
  have "trial_key u \<in> trial_key ` set (refine_trials_around (t # ts) sp m)"
    if u: "u \<in> set (trial_neighbours sp t)" "trial_key u \<noteq> trial_key t" and len: "int (length (trial_neighbours sp t)) < m" for t ts u
  proof -
    obtain full refined seen where p: "propose m (trial_neighbours sp t) ([], [trial_key t]) = (full, refined, seen)"
      by (metis prod_cases3)
    from propose_spec [OF p] assms obtain new where n: "refined = new" "distinct (map trial_key new)"
      "set seen = {trial_key t} \<union> set (map trial_key new)" "length new \<le> length (trial_neighbours sp t)"
      "full \<longleftrightarrow> int (length new) \<ge> m" "\<not> full \<longrightarrow> set (map trial_key (trial_neighbours sp t)) \<subseteq> set seen"
      by auto
    with len have f: "\<not> full" by simp
    with n u have k: "trial_key u \<in> trial_key ` set new" by auto
    have "refine_loop sp m (t # ts) ([], []) = refine_loop sp m ts (new, seen)"
      using f n(1) p by simp
    moreover have "\<exists>more. refine_loop sp m ts (new, seen) = new @ more"
      using refine_loop_sound [OF assms, of new seen sp ts] n f by auto
    ultimately show ?thesis using k by (auto simp: refine_trials_around_def)
  qed
  moreover have "int (length (refine_trials_around tops sp m)) \<le> m
      \<and> distinct (map trial_key (refine_trials_around tops sp m))
      \<and> set (refine_trials_around tops sp m) \<subseteq> (\<Union>t \<in> set tops. set (trial_neighbours sp t))"
    using l assms by (simp add: refine_trials_around_def)
  ultimately show ?thesis by blast
qed


subsection \<open>Examples\<close>

text \<open>A small space: three confidences, two stop multiples and every provider on.\<close>

definition demo_values :: "string \<Rightarrow> real list" where
  "demo_values k = (if k = ''min_confidence'' then [3/5, 7/10, 4/5] else if k = ''sl_atr_mult'' then [1, 3/2] else [1])"

definition demo_space :: optimization_space where
  "demo_space = \<lparr>os_nums = map (\<lambda>k. (k, demo_values k)) (keys_before @ keys_after), os_session = [''all'']\<rparr>"

lemma keyed_map: "map_of (map (\<lambda>k. (k, f k)) ks) k = (if k \<in> set ks then Some (f k) else None)"
  by (induction ks) auto

lemma key_lists: "keys_before = [''min_confidence'', ''min_risk_reward'', ''min_agreeing_providers'', ''sl_atr_mult'',
     ''tp_atr_mult'', ''max_bars_in_trade'', ''oversold'', ''overbought'', ''risk_pct_per_trade'', ''min_atr_pct'']"
  "length keys_after = 43" "''ema_enabled'' \<in> set keys_after" "''sl_atr_mult'' \<notin> set keys_after"
  "''min_confidence'' \<notin> set keys_after"
  by code_simp+

lemma demo_space_values: "k \<in> set (keys_before @ keys_after) \<Longrightarrow> space_values demo_space k = demo_values k"
  by (simp add: demo_space_def space_values_def dict_get_or_def keyed_map del: map_append set_append)

lemma demo_plain: "plain_space demo_space"
  using demo_space_values
  by (auto simp: plain_space_def list_all_iff keys_before_after demo_values_def demo_space_def space_values_def
      dict_get_or_def keyed_map simp del: map_append)

lemma demo_full: "full_space demo_space"
  by (simp add: full_space_def list_all_iff demo_space_values demo_values_def) (simp add: demo_space_def)

lemma demo_ema: "in_space demo_space t \<Longrightarrow> has_any_provider_enabled t"
proof -
  assume i: "in_space demo_space t"
  then have "''ema_enabled'' \<in> set (map fst (tp_nums t))"
    using key_lists(3) by (simp add: in_space_def del: set_map)
  then obtain v where v: "(''ema_enabled'', v) \<in> set (tp_nums t)" by auto
  with i have "v \<in> set (space_values demo_space ''ema_enabled'')" by (auto simp: in_space_def)
  with key_lists(3) have v1: "v = 1" by (simp add: demo_space_values demo_values_def)
  have "distinct (map fst (tp_nums t))" using i distinct_num_keys by (simp add: in_space_def)
  with v v1 have "trial_int t ''ema_enabled'' 0 = 1"
    by (simp add: trial_int_def trial_num_def dict_get_or_def py_int_def)
  then show ?thesis by (simp add: has_any_provider_enabled_def provider_enabled_keys_def switched_on_def)
qed

lemma demo_valid: "filter (is_valid_provider_trial (enforced_family demo_space (Some False))) (space_combos demo_space)
    = space_combos demo_space"
  by (simp add: filter_id_conv combo_in_space is_valid_provider_trial_def enforced_family_def demo_ema)

lemma demo_space_size: "length (space_combos demo_space) = 6"
proof -
  have b: "length (product_lists (map (space_values demo_space) keys_before)) = 6"
    by (simp add: length_product_lists demo_space_values key_lists demo_values_def)
  have "map (length \<circ> space_values demo_space) keys_after = map (\<lambda>_. 1) keys_after"
    using key_lists(4,5) by (intro map_cong) (auto simp: demo_space_values demo_values_def)
  then have "length (product_lists (map (space_values demo_space) keys_after)) = foldr (*) (map (\<lambda>_. 1) keys_after) 1"
    by (simp only: length_product_lists map_map)
  also have "foldr (*) (map (\<lambda>_. 1) ks) 1 = (1::nat)" for ks :: "string list" by (induction ks) auto
  finally have a: "length (product_lists (map (space_values demo_space) keys_after)) = 1" .
  have s: "os_session demo_space = [''all'']" by (simp add: demo_space_def)
  show ?thesis using a b
    by (simp add: space_combos_def length_concat s o_def) (simp add: map_replicate_const sum_list_replicate)
qed

theorem grid_search_ignores_its_seed_witness:
  "\<forall>draw. generate_trials draw demo_space 4 (Some False) = Inr (take 4 (space_combos demo_space))"
  using grid_search_ignores_its_seed [of demo_space 4 "space_combos demo_space" "Some False"] demo_plain
  by (simp add: demo_valid demo_space_size)

theorem generated_trials_sound_witness:
  "\<exists>ts. generate_trials (\<lambda>_. 0) demo_space 4 (Some False) = Inr ts \<and> length ts = 4 \<and> distinct (map trial_key ts)"
proof -
  have "generate_trials (\<lambda>_. 0) demo_space 4 (Some False)
      = Inr (take (nat 4) (every (length (space_combos demo_space) div nat 4) (space_combos demo_space)))"
    by (rule grid_search_prefix) (simp_all add: demo_plain demo_valid demo_space_size)
  then obtain ts where ts: "generate_trials (\<lambda>_. 0) demo_space 4 (Some False) = Inr ts" by blast
  from generated_trials_sound [OF demo_plain _ this] ts show ?thesis by (simp add: demo_valid demo_space_size)
qed

definition first_choice :: "unit sampler" where
  "first_choice = \<lparr>sm_ask = id, sm_number = (\<lambda>k vs s. (hd vs, s)), sm_preset = (\<lambda>k ps s. (hd ps, s)), sm_tell = (\<lambda>x s. s)\<rparr>"

lemma first_choice_answers: "answers_choices first_choice"
  by (simp add: answers_choices_def first_choice_def)

theorem adaptive_search_sound_witness:
  "\<exists>t. run_optuna_trials first_choice demo_space (\<lambda>t w. Inr ((0, t), w)) 1 (Some False) () () = Inr ([t], (), ())
     \<and> in_space demo_space t"
proof -
  let ?run = "tell_loop first_choice demo_space False 1 (\<lambda>t w. Inr ((0, t), w))"
  obtain t where t: "suggest_params first_choice demo_space () = (t, ())" by (metis old.unit.exhaust surj_pair)
  have "in_space demo_space t"
    using suggested_in_space [OF first_choice_answers demo_full, of "()"] by (simp add: t)
  then have v: "is_valid_provider_trial False t" by (simp add: is_valid_provider_trial_def demo_ema)
  have "?run n ((), ()) ([t], seen) = Inr ([t], (), ())" for n seen by (cases n) simp_all
  then have "?run (Suc 19) ((), ()) ([], []) = Inr ([t], (), ())" using t v by (simp del: One_nat_def Suc_numeral add: add.commute)
  then have r: "run_optuna_trials first_choice demo_space (\<lambda>t w. Inr ((0, t), w)) 1 (Some False) () () = Inr ([t], (), ())"
    by (simp add: run_optuna_trials_def max_attempts_def enforced_family_def numeral_eq_Suc)
  from adaptive_search_sound [of first_choice demo_space "\<lambda>t w. Inr ((0, t), w)" "\<lambda>t. t",
      OF first_choice_answers demo_full _ r]
  show ?thesis using r by auto
qed

definition demo_top :: trial_params where
  "demo_top = \<lparr>tp_nums = map (\<lambda>k. (k, 1)) (keys_before @ keys_after), tp_session = Some ''all''\<rparr>"

lemma demo_top_num: "k \<in> set (keys_before @ keys_after) \<Longrightarrow> dict_get (tp_nums demo_top) k = Some 1"
  by (simp add: demo_top_def keyed_map del: map_append set_append)

lemma demo_neighbours: "trial_neighbours demo_space demo_top = [with_num demo_top ''sl_atr_mult'' (3/2)]"
  by (simp add: trial_neighbours_def refine_keys_def key_neighbours_def demo_space_values demo_top_num key_lists
      demo_values_def list_index_def)

theorem refinement_proposes_neighbours_witness:
  "trial_key (with_num demo_top ''sl_atr_mult'' (3/2))
     \<in> trial_key ` set (refine_trials_around [demo_top, with_num demo_top ''sl_atr_mult'' (3/2)] demo_space 9)"
proof -
  have "map_of (tp_nums (with_num demo_top ''sl_atr_mult'' (3/2))) ''sl_atr_mult'' \<noteq> map_of (tp_nums demo_top) ''sl_atr_mult''"
    by (simp add: with_num_def demo_top_num key_lists)
  moreover have "distinct (map fst (tp_nums demo_top))"
    using distinct_num_keys by (simp add: demo_top_def o_def del: map_append distinct_append)
  moreover from this have "distinct (map fst (tp_nums (with_num demo_top ''sl_atr_mult'' (3/2))))"
    using distinct_dict_set [of "tp_nums demo_top"] by (simp add: with_num_def dict_keys_def)
  ultimately have ne: "trial_key (with_num demo_top ''sl_atr_mult'' (3/2)) \<noteq> trial_key demo_top"
    unfolding trial_key_def by (metis fst_conv map_of_inject_set set_sort)
  from refinement_proposes_neighbours [of 9 "[demo_top, with_num demo_top ''sl_atr_mult'' (3/2)]" demo_space] ne
  show ?thesis by (simp add: demo_neighbours)
qed

end
