(* ===== verification/OptimizationScoring.thy ===== *)
theory OptimizationScoring
  imports OptimizationSpace OutcomeMetrics
begin

text \<open>
  \<^verbatim>\<open>backend/src/validation/optimization_scoring.py\<close>: the result of a trial, the score
  its test is ranked by, the Pareto front of the finalists and the choice of the best one. The trials
  are objects the code updates in place; the functions here return them updated, in the same
  order, and the chosen one as its position.
\<close>


subsection \<open>Scores\<close>

text \<open>A float that may be minus infinity.\<close>

datatype score = Minus_infinity | Finite real

instantiation score :: linorder
begin

definition less_eq_score :: "score \<Rightarrow> score \<Rightarrow> bool" where
  "less_eq_score a b = (case a of Minus_infinity \<Rightarrow> True
     | Finite x \<Rightarrow> (case b of Minus_infinity \<Rightarrow> False | Finite y \<Rightarrow> x \<le> y))"

definition less_score :: "score \<Rightarrow> score \<Rightarrow> bool" where
  "less_score a b = (\<not> b \<le> (a :: score))"

instance
  by standard (auto simp: less_eq_score_def less_score_def split: score.splits)

end

lemma score_order [simp]:
  "Minus_infinity \<le> b" "Finite x \<le> Finite y \<longleftrightarrow> x \<le> y" "\<not> Finite x \<le> Minus_infinity"
  "Minus_infinity < Finite x" "\<not> b < Minus_infinity" "Finite x < Finite y \<longleftrightarrow> x < y"
  by (auto simp: less_eq_score_def less_score_def split: score.split)


subsection \<open>Trials and results\<close>

text \<open>The dictionary of figures: empty, or the outcome of a run.\<close>

datatype outcome_dict = No_figures | Figures outcome_metrics

definition figure_or :: "(outcome_metrics \<Rightarrow> 'a) \<Rightarrow> outcome_dict \<Rightarrow> 'a \<Rightarrow> 'a" where
  "figure_or f oc d = (case oc of No_figures \<Rightarrow> d | Figures m \<Rightarrow> f m)"

record trial_result =
  ot_trial_id :: string
  ot_params :: trial_params
  ot_train_score :: real
  ot_train_outcome :: outcome_dict
  ot_test_score :: "real option"
  ot_test_outcome :: "outcome_dict option"
  ot_stability :: "real option"
  ot_revision_id :: "string option"
  ot_composite :: "score option"
  ot_fold_scores :: "real list"
  ot_fold_std :: "real option"
  ot_pareto_rank :: "nat option"

definition compute_stability :: "outcome_dict \<Rightarrow> real" where
  "compute_stability oc =
     (let months = figure_or oc_monthly oc []
      in if months = [] then 0
         else of_nat (length (filter (\<lambda>m. mo_pnl m > 0) months)) / of_nat (length months))"

definition trial_test_trades :: "trial_result \<Rightarrow> nat" where
  "trial_test_trades t = (case ot_test_outcome t of None \<Rightarrow> 0 | Some oc \<Rightarrow> figure_or oc_total_trades oc 0)"

definition composite_score :: "int \<Rightarrow> real \<Rightarrow> trial_result \<Rightarrow> score" where
  "composite_score min_trades min_return_pct t =
     (case ot_test_outcome t of
        None \<Rightarrow> Minus_infinity
      | Some oc \<Rightarrow>
          (let trades = int (figure_or oc_total_trades oc 0); return_pct = figure_or oc_return_pct oc 0;
               train_return_pct = figure_or oc_return_pct (ot_train_outcome t) 0
           in if trades < min_trades \<or> return_pct < min_return_pct then Minus_infinity
              else if train_return_pct < min_return_pct then Minus_infinity
              else
                (case ot_test_score t of
                   None \<Rightarrow> Minus_infinity
                 | Some test_score \<Rightarrow>
                     (let stability = (case ot_stability t of None \<Rightarrow> 0 | Some s \<Rightarrow> s);
                          return_term = clamp_to (return_pct / 10) (- 1) 1 * 100;
                          fold_penalty = (case ot_fold_std t of None \<Rightarrow> 0 | Some s \<Rightarrow> s) * 10
                      in Finite (0.6 * test_score + 0.25 * stability * 100 + 0.15 * return_term - fold_penalty)))))"


subsection \<open>The Pareto front\<close>

definition pareto_metrics :: "outcome_dict \<Rightarrow> real \<times> real \<times> real" where
  "pareto_metrics oc = (figure_or oc_return_pct oc 0, - figure_or oc_max_drawdown_pct oc 0,
     case figure_or oc_profit_factor oc (Ratio 0) of Ratio f \<Rightarrow> f | Infinite_factor \<Rightarrow> 10)"

definition dominates :: "real \<times> real \<times> real \<Rightarrow> real \<times> real \<times> real \<Rightarrow> bool" where
  "dominates others values =
     (case others of (a, b, c) \<Rightarrow> case values of (x, y, z) \<Rightarrow>
        (a \<ge> x \<and> b \<ge> y \<and> c \<ge> z) \<and> (a > x \<or> b > y \<or> c > z))"

text \<open>A trial without a test outcome keeps its rank and dominates nobody; that no trial dominates
  itself makes the comparison of the indices redundant.\<close>

definition tested_metrics :: "trial_result list \<Rightarrow> (real \<times> real \<times> real) list" where
  "tested_metrics ts = map (\<lambda>t. pareto_metrics (the (ot_test_outcome t))) (filter (\<lambda>t. ot_test_outcome t \<noteq> None) ts)"

definition assign_pareto_ranks :: "trial_result list \<Rightarrow> trial_result list" where
  "assign_pareto_ranks finalists =
     map (\<lambda>t. case ot_test_outcome t of
                None \<Rightarrow> t
              | Some oc \<Rightarrow> t\<lparr>ot_pareto_rank :=
                  Some (if list_ex (\<lambda>v. dominates v (pareto_metrics oc)) (tested_metrics finalists) then 1 else 0)\<rparr>)
       finalists"


subsection \<open>The choice\<close>

text \<open>Python's \<^verbatim>\<open>max\<close> with a key: the position of the first largest.\<close>

fun first_max :: "('a \<Rightarrow> 'k::linorder) \<Rightarrow> 'a \<Rightarrow> 'a list \<Rightarrow> 'a" where
  "first_max key b [] = b"
| "first_max key b (x # xs) = first_max key (if key b < key x then x else b) xs"

text \<open>\<^verbatim>\<open>trial.composite_score or float("-inf")\<close>: zero is falsy.\<close>

definition score_or_worst :: "score option \<Rightarrow> score" where
  "score_or_worst s = (case s of None \<Rightarrow> Minus_infinity | Some v \<Rightarrow> if v = Finite 0 then Minus_infinity else v)"

definition select_best :: "int \<Rightarrow> real \<Rightarrow> trial_result list \<Rightarrow> trial_result list \<times> nat option" where
  "select_best min_trades min_return_pct finalists =
     (if finalists = [] then ([], None)
      else
        (let ranked = assign_pareto_ranks
               (map (\<lambda>t. t\<lparr>ot_composite := Some (composite_score min_trades min_return_pct t)\<rparr>) finalists);
             eligible = filter (\<lambda>i. case ot_composite (ranked ! i) of None \<Rightarrow> False | Some s \<Rightarrow> s > Minus_infinity)
               [0..<length ranked];
             pareto_eligible = filter (\<lambda>i. ot_pareto_rank (ranked ! i) = Some 0) eligible;
             pool = (if pareto_eligible \<noteq> [] then pareto_eligible else eligible)
         in (ranked, if eligible = [] then None
               else Some (first_max (\<lambda>i. score_or_worst (ot_composite (ranked ! i))) (hd pool) (tl pool)))))"

definition show_int :: "int \<Rightarrow> string" where
  "show_int i = (if i < 0 then CHR ''-'' # show_nat (nat (- i)) else show_nat (nat i))"

fun join_with :: "string \<Rightarrow> string list \<Rightarrow> string" where
  "join_with sep [] = []"
| "join_with sep [x] = x"
| "join_with sep (x # y # xs) = x @ sep @ join_with sep (y # xs)"

text \<open>The message when nothing was selected. The text of a float is a parameter.\<close>

definition build_selection_message :: "(real \<Rightarrow> string) \<Rightarrow> trial_result list \<Rightarrow> int \<Rightarrow> real \<Rightarrow> string" where
  "build_selection_message show_float finalists min_trades min_return_pct =
     (if finalists = [] then ''No finalists were evaluated on test data.''
      else
        (let max_trades = Max (set (map trial_test_trades finalists));
             agreeing_two = length (filter (\<lambda>t. trial_int (ot_params t) ''min_agreeing_providers'' 1 \<ge> 2) finalists);
             negative_train = length (filter (\<lambda>t. figure_or oc_return_pct (ot_train_outcome t) 0 < min_return_pct) finalists);
             hints = [''No trial reached '' @ show_int min_trades @ '' test trades (max seen: '' @ show_nat max_trades @ '').'']
               @ (if min_return_pct > 0 then [''Minimum return filter: '' @ show_float min_return_pct @ ''%.''] else [])
               @ (if agreeing_two \<noteq> 0 then [show_nat agreeing_two @ '' finalist(s) require 2+ agreeing providers '' @ em_dash
                    @ '' high agreement often chokes trade count to near zero.''] else [])
               @ (if negative_train \<noteq> 0 then [show_nat negative_train @ '' finalist(s) lost money on train '' @ em_dash
                    @ '' composite score now requires non-negative train return.''] else [])
               @ [''Try: min_agreeing_providers=1, family-constrained discovery (no trend+reversion mix), longer date range, or a provider edge scorecard first.'']
         in join_with '' '' hints))"


subsection \<open>Folds\<close>

definition average_of :: "(outcome_metrics \<Rightarrow> real) \<Rightarrow> outcome_metrics list \<Rightarrow> real" where
  "average_of f ms = sum_list (map f ms) / of_nat (length ms)"

definition finite_factors :: "outcome_metrics list \<Rightarrow> real list" where
  "finite_factors ms = concat (map (\<lambda>m. case oc_profit_factor m of Ratio f \<Rightarrow> [f] | Infinite_factor \<Rightarrow> []) ms)"

text \<open>Every fold has figures: counts are added, the scalars averaged, the months joined, and the
  rest is that of the last fold.\<close>

definition merge_folds :: "outcome_metrics list \<Rightarrow> outcome_metrics" where
  "merge_folds ms = (last ms)
     \<lparr>oc_total_trades := sum_list (map oc_total_trades ms),
      oc_positions_opened := sum_list (map oc_positions_opened ms),
      oc_positions_closed := sum_list (map oc_positions_closed ms),
      oc_orders_rejected := sum_list (map oc_orders_rejected ms),
      oc_return_pct := average_of oc_return_pct ms, oc_win_rate := average_of oc_win_rate ms,
      oc_profit_factor := (if finite_factors ms \<noteq> [] then Ratio (sum_list (finite_factors ms) / of_nat (length (finite_factors ms)))
        else oc_profit_factor (last ms)),
      oc_max_drawdown_pct := average_of oc_max_drawdown_pct ms, oc_max_drawdown := average_of oc_max_drawdown ms,
      oc_sharpe := average_of oc_sharpe ms, oc_sortino := average_of oc_sortino ms,
      oc_trade_sharpe := average_of oc_trade_sharpe ms, oc_score := average_of oc_score ms,
      oc_optimization_score := average_of oc_optimization_score ms,
      oc_monthly := (let months = concat (map oc_monthly ms) in if months \<noteq> [] then months else oc_monthly (last ms))\<rparr>"

definition aggregate_fold_outcomes :: "outcome_metrics list \<Rightarrow> outcome_dict" where
  "aggregate_fold_outcomes ms =
     (case ms of [] \<Rightarrow> No_figures | [m] \<Rightarrow> Figures m | _ \<Rightarrow> Figures (merge_folds ms))"


subsection \<open>What is selected\<close>

lemma first_max_mem: "first_max key b xs \<in> insert b (set xs)"
  by (induction xs arbitrary: b) (auto split: if_splits)

lemma first_max_ge: "x \<in> insert b (set xs) \<Longrightarrow> key x \<le> key (first_max key b xs)"
proof (induction xs arbitrary: b x)
  case (Cons y ys)
  let ?c = "if key b < key y then y else b"
  have c: "key b \<le> key ?c" "key y \<le> key ?c" by auto
  have g: "key ?c \<le> key (first_max key ?c ys)" by (rule Cons.IH) simp
  from Cons.prems have "x = b \<or> x = y \<or> x \<in> set ys" by auto
  then show ?case
  proof (elim disjE)
    assume "x \<in> set ys"
    with Cons.IH [of x ?c] show ?thesis by simp
  qed (use order_trans [OF c(1) g] order_trans [OF c(2) g] in simp_all)
qed simp

text \<open>A trial passes the gates when its test has trades and return enough, its training
  return enough, and a test score.\<close>

definition passes_gates :: "int \<Rightarrow> real \<Rightarrow> trial_result \<Rightarrow> bool" where
  "passes_gates min_trades min_return_pct t \<longleftrightarrow> (\<exists>oc. ot_test_outcome t = Some oc
     \<and> min_trades \<le> int (trial_test_trades t) \<and> min_return_pct \<le> figure_or oc_return_pct oc 0)
     \<and> min_return_pct \<le> figure_or oc_return_pct (ot_train_outcome t) 0 \<and> ot_test_score t \<noteq> None"

lemma composite_finite: "composite_score mt mr t > Minus_infinity \<longleftrightarrow> passes_gates mt mr t"
  by (auto simp: composite_score_def passes_gates_def trial_test_trades_def Let_def not_less split: option.splits)

text \<open>The trials as they stand when the choice is made.\<close>

definition scored :: "int \<Rightarrow> real \<Rightarrow> trial_result list \<Rightarrow> trial_result list" where
  "scored mt mr fs = assign_pareto_ranks (map (\<lambda>t. t\<lparr>ot_composite := Some (composite_score mt mr t)\<rparr>) fs)"

lemma tested_metrics_scored [simp]:
  "tested_metrics (map (\<lambda>t. t\<lparr>ot_composite := f t\<rparr>) fs) = tested_metrics fs"
  by (simp add: tested_metrics_def filter_map o_def)

definition beaten :: "trial_result list \<Rightarrow> trial_result \<Rightarrow> bool" where
  "beaten fs t \<longleftrightarrow> list_ex (\<lambda>v. dominates v (pareto_metrics (the (ot_test_outcome t)))) (tested_metrics fs)"

lemma scored_nth:
  assumes "i < length fs"
  shows "ot_composite (scored mt mr fs ! i) = Some (composite_score mt mr (fs ! i))"
    and "ot_test_outcome (fs ! i) \<noteq> None \<Longrightarrow> ot_pareto_rank (scored mt mr fs ! i) = Some (if beaten fs (fs ! i) then 1 else 0)"
  using assms by (auto simp: scored_def assign_pareto_ranks_def beaten_def split: option.split)

lemma scored_length [simp]: "length (scored mt mr fs) = length fs"
  by (simp add: scored_def assign_pareto_ranks_def)

lemma select_best_unfold:
  assumes "fs \<noteq> []"
  shows "select_best mt mr fs =
    (let eligible = filter (\<lambda>i. passes_gates mt mr (fs ! i)) [0..<length fs];
         front = filter (\<lambda>i. \<not> beaten fs (fs ! i)) eligible;
         pool = (if front \<noteq> [] then front else eligible)
     in (scored mt mr fs, if eligible = [] then None
           else Some (first_max (\<lambda>i. score_or_worst (Some (composite_score mt mr (fs ! i)))) (hd pool) (tl pool))))"
proof -
  have e: "filter (\<lambda>i. case ot_composite (scored mt mr fs ! i) of None \<Rightarrow> False | Some s \<Rightarrow> s > Minus_infinity) [0..<length fs]
      = filter (\<lambda>i. passes_gates mt mr (fs ! i)) [0..<length fs]" (is "?e = ?e'")
    by (intro filter_cong) (auto simp: scored_nth composite_finite)
  have f: "filter (\<lambda>i. ot_pareto_rank (scored mt mr fs ! i) = Some 0) ?e' = filter (\<lambda>i. \<not> beaten fs (fs ! i)) ?e'" (is "?f = ?f'")
    by (intro filter_cong) (auto simp: scored_nth passes_gates_def)
  have cong: "first_max k b xs = first_max k' b xs" if "\<forall>x \<in> insert b (set xs). k x = k' x" for k k' :: "nat \<Rightarrow> score" and b xs
    using that by (induction xs arbitrary: b) auto
  have k: "first_max (\<lambda>i. score_or_worst (ot_composite (scored mt mr fs ! i))) (hd pool) (tl pool)
      = first_max (\<lambda>i. score_or_worst (Some (composite_score mt mr (fs ! i)))) (hd pool) (tl pool)"
    if "pool \<noteq> []" "set pool \<subseteq> {..<length fs}" for pool
  proof (rule cong)
    from that(1) have "insert (hd pool) (set (tl pool)) = set pool" by (cases pool) auto
    with that(2) show "\<forall>x \<in> insert (hd pool) (set (tl pool)). score_or_worst (ot_composite (scored mt mr fs ! x))
        = score_or_worst (Some (composite_score mt mr (fs ! x)))" by (auto simp: scored_nth)
  qed
  let ?pool = "if ?f' \<noteq> [] then ?f' else ?e'"
  have "?e' \<noteq> [] \<Longrightarrow> ?pool \<noteq> [] \<and> set ?pool \<subseteq> {..<length fs}" by auto
  with k [of ?pool] show ?thesis using assms
    unfolding select_best_def Let_def scored_def [symmetric] scored_length e f by (simp split: if_splits)
qed

lemma first_max_list:
  assumes "xs \<noteq> []"
  shows "first_max key (hd xs) (tl xs) \<in> set xs" and "x \<in> set xs \<Longrightarrow> key x \<le> key (first_max key (hd xs) (tl xs))"
proof -
  have e: "insert (hd xs) (set (tl xs)) = set xs" using assms by (cases xs) auto
  show "first_max key (hd xs) (tl xs) \<in> set xs" using first_max_mem [of key "hd xs" "tl xs"] e by simp
  show "x \<in> set xs \<Longrightarrow> key x \<le> key (first_max key (hd xs) (tl xs))"
    using first_max_ge [of x "hd xs" "tl xs" key] e by simp
qed

lemma chosen_from_pool:
  assumes "E = filter P [0..<n]" and "F = filter (\<lambda>j. \<not> B j) E" and "E \<noteq> []"
    and "pool = (if F \<noteq> [] then F else E)" and "i = first_max key (hd pool) (tl pool)"
  shows "i < n \<and> P i \<and> (\<forall>j<n. P j \<longrightarrow> (B i \<longrightarrow> B j) \<and> (B j = B i \<longrightarrow> key j \<le> key i))"
proof (cases "F = []")
  case True
  then have "pool = E" by (simp add: assms(4))
  moreover have "\<forall>j<n. P j \<longrightarrow> B j" using True by (auto simp: assms(1,2) filter_empty_conv)
  ultimately show ?thesis using first_max_list [OF assms(3), where key = key] assms(1,5) by auto
next
  case False
  then have "pool = F" by (simp add: assms(4))
  with first_max_list [OF False, where key = key] assms(5) show ?thesis by (auto simp: assms(1,2))
qed

lemma selection_sound:
  "(snd (select_best mt mr fs) = None \<longleftrightarrow> (\<forall>t \<in> set fs. \<not> passes_gates mt mr t))
   \<and> (\<forall>i. snd (select_best mt mr fs) = Some i \<longrightarrow> i < length fs \<and> passes_gates mt mr (fs ! i)
       \<and> (\<forall>t \<in> set fs. passes_gates mt mr t \<longrightarrow> (beaten fs (fs ! i) \<longrightarrow> beaten fs t)
            \<and> (beaten fs t = beaten fs (fs ! i) \<longrightarrow>
                composite_score mt mr t \<le> composite_score mt mr (fs ! i) \<or> composite_score mt mr t = Finite 0)))"
proof (cases "fs = []")
  case True
  then show ?thesis by (simp add: select_best_def)
next
  case False
  let ?e = "filter (\<lambda>i. passes_gates mt mr (fs ! i)) [0..<length fs]"
  let ?f = "filter (\<lambda>i. \<not> beaten fs (fs ! i)) ?e"
  let ?pool = "if ?f \<noteq> [] then ?f else ?e"
  define key where "key = (\<lambda>i. score_or_worst (Some (composite_score mt mr (fs ! i))))"
  define i where "i = first_max key (hd ?pool) (tl ?pool)"
  have s: "snd (select_best mt mr fs) = (if ?e = [] then None else Some i)"
    by (simp add: select_best_unfold [OF False] Let_def i_def key_def)
  have none: "?e = [] \<longleftrightarrow> (\<forall>t \<in> set fs. \<not> passes_gates mt mr t)"
    by (auto simp: filter_empty_conv all_set_conv_all_nth)
  have c: "i < length fs \<and> passes_gates mt mr (fs ! i)
      \<and> (\<forall>j<length fs. passes_gates mt mr (fs ! j) \<longrightarrow> (beaten fs (fs ! i) \<longrightarrow> beaten fs (fs ! j))
            \<and> (beaten fs (fs ! j) = beaten fs (fs ! i) \<longrightarrow> key j \<le> key i))" if "?e \<noteq> []"
    by (rule chosen_from_pool [OF refl refl that refl i_def])
  have k: "key j \<le> key i \<Longrightarrow>
      composite_score mt mr (fs ! j) \<le> composite_score mt mr (fs ! i) \<or> composite_score mt mr (fs ! j) = Finite 0" for j
    by (cases "composite_score mt mr (fs ! j)"; cases "composite_score mt mr (fs ! i)")
      (auto simp: key_def score_or_worst_def split: if_splits)
  show ?thesis
  proof (cases "?e = []")
    case True
    with s none show ?thesis by simp
  next
    case ne: False
    with s have "snd (select_best mt mr fs) = Some i" by simp
    with none ne c [OF ne] k show ?thesis unfolding all_set_conv_all_nth by (simp only: option.inject option.distinct) blast
  qed
qed

text \<open>The selected trial is one that passed the gates. A best trial exists exactly when
  some finalist has trades and return enough in its test and return enough in its training; it
  passes the gates itself, it is on the Pareto front when an eligible trial is, and no eligible trial of
  the same pool has a better composite score, except one of zero.\<close>

theorem selection_respects_gates:
  "(snd (select_best mt mr fs) = None \<longleftrightarrow> (\<forall>t \<in> set fs. \<not> passes_gates mt mr t))
   \<and> (\<forall>i. snd (select_best mt mr fs) = Some i \<longrightarrow> i < length fs \<and> passes_gates mt mr (fs ! i)
       \<and> (\<forall>t \<in> set fs. passes_gates mt mr t \<longrightarrow> (beaten fs (fs ! i) \<longrightarrow> beaten fs t)
            \<and> (beaten fs t = beaten fs (fs ! i) \<longrightarrow>
                composite_score mt mr t \<le> composite_score mt mr (fs ! i) \<or> composite_score mt mr t = Finite 0)))"
  by (rule selection_sound)

text \<open>A composite score of zero loses to a negative one. Of two eligible trials of which
  neither dominates the other, the first with a score of zero and the second below zero, the second is
  selected: the key of the maximum reads zero as no score.\<close>

theorem zero_score_loses:
  assumes "composite_score mt mr a = Finite 0" and "composite_score mt mr b = Finite x" and "x < 0"
    and "\<not> beaten [a, b] a" and "\<not> beaten [a, b] b"
  shows "snd (select_best mt mr [a, b]) = Some 1"
proof -
  have "passes_gates mt mr a" "passes_gates mt mr b"
    using assms(1,2) by (simp_all flip: composite_finite)
  with assms show ?thesis by (simp add: select_best_unfold Let_def score_or_worst_def numeral_2_eq_2)
qed

text \<open>A trial that cannot be selected decides between those that can. When two eligible
  trials are on the front, the one with the better (positive) score is selected; with a third trial
  that fails the gates but dominates it, the other one is.\<close>

theorem ineligible_trial_decides:
  assumes "composite_score mt mr a = Finite x" and "composite_score mt mr b = Finite y" and "0 < x" and "y < x"
    and "\<not> passes_gates mt mr c"
    and "\<not> beaten [a, b] a" and "\<not> beaten [a, b] b" and "beaten [a, b, c] a" and "\<not> beaten [a, b, c] b"
  shows "snd (select_best mt mr [a, b]) = Some 0 \<and> snd (select_best mt mr [a, b, c]) = Some 1"
proof -
  have "passes_gates mt mr a" "passes_gates mt mr b"
    using assms(1,2) by (simp_all flip: composite_finite)
  with assms show ?thesis
    by (simp add: select_best_unfold Let_def score_or_worst_def numeral_2_eq_2 numeral_3_eq_3)
qed

text \<open>Folds are merged fairly. The outcome a sweep over several windows is judged by has the trades
  of all folds, the mean of their returns, which lies between their smallest and largest, and the
  share of winning months over the months of all folds.\<close>

theorem folds_merged_fairly:
  assumes "ms \<noteq> []"
  shows "\<exists>m. aggregate_fold_outcomes ms = Figures m
    \<and> oc_total_trades m = sum_list (map oc_total_trades ms)
    \<and> oc_return_pct m = sum_list (map oc_return_pct ms) / of_nat (length ms)
    \<and> Min (oc_return_pct ` set ms) \<le> oc_return_pct m \<and> oc_return_pct m \<le> Max (oc_return_pct ` set ms)
    \<and> compute_stability (Figures m) * of_nat (length (concat (map oc_monthly ms)))
        = of_nat (length (filter (\<lambda>r. 0 < mo_pnl r) (concat (map oc_monthly ms))))"
proof -
  define m where "m = (case ms of [m] \<Rightarrow> m | _ \<Rightarrow> merge_folds ms)"
  have f: "aggregate_fold_outcomes ms = Figures m"
    using assms by (auto simp: aggregate_fold_outcomes_def m_def split: list.split)
  have t: "oc_total_trades m = sum_list (map oc_total_trades ms)"
    using assms by (auto simp: m_def merge_folds_def split: list.split)
  have r: "oc_return_pct m = sum_list (map oc_return_pct ms) / of_nat (length ms)"
    using assms by (auto simp: m_def merge_folds_def average_of_def split: list.split)
  have "Min (oc_return_pct ` set ms) \<le> oc_return_pct x \<and> oc_return_pct x \<le> Max (oc_return_pct ` set ms)" if "x \<in> set ms" for x
    using that by simp
  from plain_average_bounds [of ms _ oc_return_pct, OF this assms] r
  have b: "Min (oc_return_pct ` set ms) \<le> oc_return_pct m" "oc_return_pct m \<le> Max (oc_return_pct ` set ms)" by auto
  have last: "concat (map oc_monthly ms) = [] \<Longrightarrow> oc_monthly (last ms) = []" using assms by simp
  have "oc_monthly m = concat (map oc_monthly ms)"
    using assms last by (auto simp: m_def merge_folds_def Let_def split: list.split)
  then have "compute_stability (Figures m) * of_nat (length (concat (map oc_monthly ms)))
        = of_nat (length (filter (\<lambda>r. 0 < mo_pnl r) (concat (map oc_monthly ms))))"
    by (simp add: compute_stability_def figure_or_def Let_def)
  with f t r b show ?thesis by blast
qed


subsection \<open>Examples\<close>

definition demo_outcome :: "nat \<Rightarrow> real \<Rightarrow> real \<Rightarrow> real \<Rightarrow> outcome_metrics" where
  "demo_outcome trades ret dd factor = \<lparr>oc_total_trades = trades, oc_win_rate = 1/2, oc_profit_factor = Ratio factor,
     oc_max_drawdown = dd * 100, oc_max_drawdown_pct = dd, oc_sharpe = 0, oc_sortino = 0, oc_trade_sharpe = 0,
     oc_daily_return_count = 0, oc_gross_profit = 0, oc_gross_loss = 0, oc_total_pnl = ret * 100, oc_initial_capital = 10000,
     oc_ending_equity = 10000 + ret * 100, oc_return_pct = ret, oc_equity_curve = [], oc_orders_rejected = 0,
     oc_positions_opened = trades, oc_positions_closed = trades, oc_mtm = None, oc_timeline = None, oc_monthly = [],
     oc_diagnostics = \<lparr>dg_by_exit_reason = [], dg_by_session = [], dg_by_side = []\<rparr>,
     oc_regime = \<lparr>rg_by_regime = [], rg_by_confidence = [], rg_unattributed = trades\<rparr>, oc_score = 0, oc_optimization_score = 0,
     oc_failures = \<lparr>fsu_total_losses = 0, fsu_loss_share_by_regime = [], fsu_low_confidence_loss_share = 0, fsu_avg_win = 0,
       fsu_avg_loss = 0, fsu_unattributed = trades\<rparr>\<rparr>"

definition demo_tested :: "real \<Rightarrow> outcome_metrics \<Rightarrow> trial_result" where
  "demo_tested sc m = \<lparr>ot_trial_id = ''trial_1'', ot_params = \<lparr>tp_nums = [], tp_session = None\<rparr>, ot_train_score = 0,
     ot_train_outcome = Figures m, ot_test_score = Some sc, ot_test_outcome = Some (Figures m), ot_stability = Some 0,
     ot_revision_id = None, ot_composite = None, ot_fold_scores = [], ot_fold_std = None, ot_pareto_rank = None\<rparr>"

lemma demo_composite:
  "composite_score mt mr (demo_tested sc (demo_outcome n r d f)) =
     (if int n < mt \<or> r < mr then Minus_infinity else Finite (0.6 * sc + 15 * clamp_to (r / 10) (- 1) 1))"
  by (simp add: composite_score_def demo_tested_def demo_outcome_def figure_or_def Let_def)

lemma demo_beaten:
  "beaten (map (\<lambda>(sc, n, r, d, f). demo_tested sc (demo_outcome n r d f)) xs) (demo_tested sc (demo_outcome n r d f)) =
     list_ex (\<lambda>(_, _, a, b, c). dominates (a, - b, c) (r, - d, f)) xs"
  by (induction xs) (auto simp: beaten_def tested_metrics_def demo_tested_def demo_outcome_def pareto_metrics_def figure_or_def)

lemma demo_gates: "passes_gates mt mr (demo_tested sc (demo_outcome n r d f)) \<longleftrightarrow> mt \<le> int n \<and> mr \<le> r"
  by (auto simp: passes_gates_def demo_tested_def demo_outcome_def figure_or_def trial_test_trades_def)

theorem zero_score_loses_witness:
  "snd (select_best 1 0 [demo_tested 0 (demo_outcome 5 0 10 2), demo_tested (- 1) (demo_outcome 5 0 5 1)]) = Some 1"
  by (rule zero_score_loses [where x = "- 0.6"])
    (use demo_beaten [of "[(0, 5, 0, 10, 2), (- 1, 5, 0, 5, 1)]"] in
      \<open>simp_all add: demo_composite clamp_to_def dominates_def\<close>)

theorem ineligible_trial_decides_witness:
  "snd (select_best 1 0 [demo_tested 10 (demo_outcome 5 1 10 2), demo_tested 1 (demo_outcome 5 1 5 1)]) = Some 0
   \<and> snd (select_best 1 0 [demo_tested 10 (demo_outcome 5 1 10 2), demo_tested 1 (demo_outcome 5 1 5 1),
        demo_tested 9 (demo_outcome 0 2 10 3)]) = Some 1"
  by (rule ineligible_trial_decides [where x = "7.5" and y = "2.1"])
    (use demo_beaten [of "[(10, 5, 1, 10, 2), (1, 5, 1, 5, 1)]"]
        demo_beaten [of "[(10, 5, 1, 10, 2), (1, 5, 1, 5, 1), (9, 0, 2, 10, 3)]"] in
      \<open>simp_all add: demo_composite demo_gates clamp_to_def dominates_def\<close>)

theorem selection_respects_gates_witness:
  "snd (select_best 10 0 [demo_tested 1 (demo_outcome 5 1 5 1), demo_tested 1 (demo_outcome 20 1 5 1)]) = Some 1"
proof -
  let ?fs = "[demo_tested 1 (demo_outcome 5 1 5 1), demo_tested 1 (demo_outcome 20 1 5 1)]"
  note g = selection_respects_gates [of 10 0 ?fs]
  from g [THEN conjunct1] obtain i where i: "snd (select_best 10 0 ?fs) = Some i" by (auto simp: demo_gates)
  with g [THEN conjunct2] have "i < 2" "passes_gates 10 0 (?fs ! i)" by auto
  with i show ?thesis by (auto simp: less_Suc_eq numeral_2_eq_2 demo_gates)
qed

theorem folds_merged_fairly_witness:
  "\<exists>m. aggregate_fold_outcomes [demo_outcome 5 1 5 1, demo_outcome 7 3 5 1] = Figures m
     \<and> oc_total_trades m = 12 \<and> oc_return_pct m = 2"
  using folds_merged_fairly [of "[demo_outcome 5 1 5 1, demo_outcome 7 3 5 1]"] by (auto simp: demo_outcome_def)

end
