(* ===== verification/Windows.thy ===== *)
theory Windows
  imports Harness
begin

text \<open>
  \<^verbatim>\<open>backend/src/validation/optimization_windows.py\<close> and
  \<^verbatim>\<open>walk_forward.py\<close>: how a range of time is cut into training, test and holdout. Times and
  spans are microseconds; dividing a span by an integer, and making a span of a float of
  seconds, rounds to the nearest microsecond, ties to even.
\<close>


subsection \<open>Spans\<close>

definition span_scaled :: "int \<Rightarrow> real \<Rightarrow> int" where
  "span_scaled dur x = round_half_even (of_int dur * x)"

definition span_over :: "int \<Rightarrow> int \<Rightarrow> int" where
  "span_over dur n = round_half_even (of_int dur / of_int n)"

type_synonym segment = "datetime \<times> datetime"

definition split_train_test :: "datetime \<Rightarrow> datetime \<Rightarrow> real \<Rightarrow> (segment \<times> segment) result" where
  "split_train_test start finish ratio =
     (if \<not> (0 < ratio \<and> ratio < 1) then Inl (ValueError ''train_ratio must be between 0 and 1'')
      else if finish - start \<le> 0 then Inl (ValueError ''end must be after start'')
      else (let train_end = start + span_scaled (finish - start) ratio in Inr ((start, train_end), (train_end, finish))))"

definition split_holdout :: "datetime \<Rightarrow> datetime \<Rightarrow> real \<Rightarrow> (segment \<times> segment option) result" where
  "split_holdout start finish ratio =
     (if ratio \<le> 0 then Inr ((start, finish), None)
      else if \<not> (0 < ratio \<and> ratio < 1) then Inl (ValueError ''holdout_ratio must be between 0 and 1'')
      else if finish - start \<le> 0 then Inl (ValueError ''end must be after start'')
      else (let opt_end = start + span_scaled (finish - start) (1 - ratio) in Inr ((start, opt_end), Some (opt_end, finish))))"

record walk_forward_window =
  ww_index :: nat
  ww_train_start :: datetime
  ww_train_end :: datetime
  ww_test_start :: datetime
  ww_test_end :: datetime

definition walk_window :: "datetime \<Rightarrow> int \<Rightarrow> real \<Rightarrow> (datetime \<Rightarrow> datetime) \<Rightarrow> nat \<Rightarrow> walk_forward_window" where
  "walk_window start width ratio train_from i =
     (let w_start = start + width * int i; w_end = start + width * (int i + 1);
          train_end = w_start + span_scaled (w_end - w_start) ratio
      in \<lparr>ww_index = i, ww_train_start = train_from w_start, ww_train_end = train_end, ww_test_start = train_end,
          ww_test_end = w_end\<rparr>)"

definition cut_windows :: "datetime \<Rightarrow> datetime \<Rightarrow> int \<Rightarrow> real \<Rightarrow> (datetime \<Rightarrow> datetime) \<Rightarrow> walk_forward_window list result" where
  "cut_windows start finish windows ratio train_from =
     (if windows < 1 then Inl (ValueError ''windows must be >= 1'')
      else if \<not> (0 < ratio \<and> ratio < 1) then Inl (ValueError ''train_ratio must be between 0 and 1'')
      else if finish - start \<le> 0 then Inl (ValueError ''end must be after start'')
      else Inr (map (walk_window start (span_over (finish - start) windows) ratio train_from) [0..<nat windows]))"

definition build_walk_forward_windows :: "datetime \<Rightarrow> datetime \<Rightarrow> int \<Rightarrow> real \<Rightarrow> walk_forward_window list result" where
  "build_walk_forward_windows start finish windows ratio = cut_windows start finish windows ratio (\<lambda>w. w)"

definition build_anchored_walk_forward_windows :: "datetime \<Rightarrow> datetime \<Rightarrow> int \<Rightarrow> real \<Rightarrow> walk_forward_window list result" where
  "build_anchored_walk_forward_windows start finish windows ratio = cut_windows start finish windows ratio (\<lambda>_. start)"

definition window_to_validation_config :: "walk_forward_window \<Rightarrow> string \<Rightarrow> string \<Rightarrow> validation_config" where
  "window_to_validation_config w symb tf = \<lparr>vc_symbol = symb, vc_timeframe = tf, vc_start = ww_test_start w,
     vc_end = ww_test_end w, vc_csv_path = None, vc_initial_capital = 10000\<rparr>"


subsection \<open>The cuts cover the range\<close>

lemma span_scaled_bounds:
  assumes "0 \<le> dur" and "0 \<le> x" and "x \<le> 1"
  shows "0 \<le> span_scaled dur x" and "span_scaled dur x \<le> dur"
proof -
  have "round_half_even 0 \<le> round_half_even (of_int dur * x)"
    using assms by (intro round_half_even_mono) simp
  then show "0 \<le> span_scaled dur x" by (simp add: span_scaled_def)
  have "round_half_even (of_int dur * x) \<le> round_half_even (of_int dur)"
    using assms by (intro round_half_even_mono) (simp add: mult_left_le)
  then show "span_scaled dur x \<le> dur" by (simp add: span_scaled_def)
qed

lemma span_over_nonneg: "0 \<le> dur \<Longrightarrow> 1 \<le> n \<Longrightarrow> 0 \<le> span_over dur n"
  using round_half_even_mono [of 0 "of_int dur / of_int n"] by (simp add: span_over_def)

lemma span_over_error:
  assumes "1 \<le> n"
  shows "2 * \<bar>span_over dur n * n - dur\<bar> \<le> n"
proof -
  let ?x = "of_int dur / of_int n :: real"
  have "\<bar>of_int (span_over dur n) - ?x\<bar> \<le> 1/2" unfolding span_over_def by (rule round_half_even_error)
  then have "\<bar>of_int (span_over dur n) - ?x\<bar> * of_int n \<le> 1/2 * of_int n"
    using assms by (intro mult_right_mono) simp_all
  moreover have "\<bar>of_int (span_over dur n) - ?x\<bar> * of_int n = \<bar>of_int (span_over dur n) * of_int n - of_int dur\<bar>"
    using assms by (subst abs_mult_pos) (simp_all add: left_diff_distrib)
  ultimately have "of_int (2 * \<bar>span_over dur n * n - dur\<bar>) \<le> (of_int n :: real)" by simp
  then show ?thesis by (simp only: of_int_le_iff)
qed

lemma splits_in_order:
  assumes "split_holdout start finish holdout_ratio = Inr (opt, holdout)"
    and "split_train_test (fst opt) (snd opt) train_ratio = Inr (train, test)"
  shows "fst train = start \<and> snd train = fst test \<and> fst train \<le> snd train \<and> fst test \<le> snd test
    \<and> (case holdout of None \<Rightarrow> snd test = finish
         | Some h \<Rightarrow> snd test = fst h \<and> snd h = finish \<and> fst h \<le> snd h)"
proof -
  have t: "fst train = fst opt \<and> snd train = fst test \<and> fst train \<le> snd train \<and> fst test \<le> snd test \<and> snd test = snd opt"
    using assms(2) span_scaled_bounds [of "snd opt - fst opt" train_ratio]
    by (auto simp: split_train_test_def Let_def split: if_splits)
  have "fst opt = start \<and> (case holdout of None \<Rightarrow> snd opt = finish
      | Some h \<Rightarrow> snd opt = fst h \<and> snd h = finish \<and> fst h \<le> snd h)"
    using assms(1) span_scaled_bounds [of "finish - start" "1 - holdout_ratio"]
    by (auto simp: split_holdout_def Let_def split: if_splits)
  with t show ?thesis by (auto split: option.splits)
qed

text \<open>The splits lose no time. Training ends where the test begins, in between the ends of the
  range, and the optimisation ends where the holdout begins.\<close>

theorem splits_partition_range:
  assumes "split_holdout start finish holdout_ratio = Inr (opt, holdout)"
    and "split_train_test (fst opt) (snd opt) train_ratio = Inr (train, test)"
  shows "fst train = start \<and> snd train = fst test \<and> fst train \<le> snd train \<and> fst test \<le> snd test
    \<and> (case holdout of None \<Rightarrow> snd test = finish
         | Some h \<Rightarrow> snd test = fst h \<and> snd h = finish \<and> fst h \<le> snd h)"
  by (rule splits_in_order [OF assms])

theorem splits_partition_range_witness:
  "\<exists>train test. split_holdout 0 100 (1/5) = Inr ((0, 80), Some (80, 100))
     \<and> split_train_test 0 80 (1/2) = Inr (train, test) \<and> snd train = fst test \<and> snd test = 80"
proof -
  have h: "split_holdout 0 100 (1/5) = Inr ((0, 80), Some (80, 100))"
    by (simp add: split_holdout_def span_scaled_def)
  have t: "split_train_test (fst (0, 80)) (snd (0::int, 80::int)) (1/2) = Inr ((0, 40), (40, 80))"
    by (simp add: split_train_test_def span_scaled_def)
  from splits_partition_range [OF h t] h t show ?thesis by auto
qed

text \<open>C40: the windows of a walk forward follow each other. There are as many as asked for; each tests on
  what follows its training, the next one begins where it ends, none ends before it begins, so the test
  periods do not overlap; an anchored window trains from the start of the range through
  every earlier test; and the last one ends within half a microsecond per window of the end.\<close>

theorem windows_tile_range:
  assumes "(if anchored then build_anchored_walk_forward_windows else build_walk_forward_windows) start finish n ratio = Inr ws"
  shows "int (length ws) = n \<and> ww_train_start (hd ws) = start
    \<and> (\<forall>i < length ws. ww_index (ws ! i) = i \<and> ww_test_start (ws ! i) = ww_train_end (ws ! i)
        \<and> ww_train_start (ws ! i) \<le> ww_train_end (ws ! i) \<and> ww_test_start (ws ! i) \<le> ww_test_end (ws ! i))
    \<and> (\<forall>j < length ws. \<forall>i < j. ww_test_end (ws ! i) \<le> ww_test_start (ws ! j)
        \<and> (if anchored then ww_train_start (ws ! j) = start \<and> ww_test_end (ws ! i) \<le> ww_train_end (ws ! j)
           else ww_test_end (ws ! i) \<le> ww_train_start (ws ! j) \<and> (j = Suc i \<longrightarrow> ww_train_start (ws ! j) = ww_test_end (ws ! i))))
    \<and> 2 * \<bar>ww_test_end (last ws) - finish\<bar> \<le> n"
proof -
  define origin where "origin = (if anchored then (\<lambda>_. start) else (\<lambda>w::int. w))"
  define z where "z = span_over (finish - start) n"
  have "cut_windows start finish n ratio origin = Inr ws"
    using assms by (auto simp: build_anchored_walk_forward_windows_def build_walk_forward_windows_def origin_def)
  then have n: "1 \<le> n" and r: "0 < ratio" "ratio < 1" and dur: "0 < finish - start"
    and ws: "ws = map (walk_window start z ratio origin) [0..<nat n]"
    by (auto simp: cut_windows_def z_def split: if_splits)
  have z: "0 \<le> z" using span_over_nonneg [of "finish - start" n] n dur by (simp add: z_def)
  note b = span_scaled_bounds [OF z, of ratio]
  have w: "ww_index (ws ! i) = i" "ww_test_start (ws ! i) = ww_train_end (ws ! i)"
    "ww_train_end (ws ! i) = start + z * int i + span_scaled z ratio" "ww_test_end (ws ! i) = start + z * int i + z"
    "ww_train_start (ws ! i) = origin (start + z * int i)" if "i < length ws" for i
    using that by (simp_all add: ws walk_window_def Let_def algebra_simps)
  have len: "int (length ws) = n" using n by (simp add: ws)
  have step: "z * int i + z \<le> z * int j" if "i < j" for i j
  proof -
    have "z * (int i + 1) \<le> z * int j" using that z by (intro mult_left_mono) auto
    then show ?thesis by (simp add: algebra_simps)
  qed
  have nonneg: "0 \<le> z * int i" for i using z by simp
  have ne: "ws \<noteq> []" using len n by auto
  have l: "last ws = ws ! (length ws - 1)" "length ws - 1 < length ws" using ne by (auto simp: last_conv_nth)
  have "ww_test_end (last ws) = start + z * n"
    unfolding l(1) w(4) [OF l(2)] using len n by (simp add: algebra_simps of_nat_diff)
  then have e: "2 * \<bar>ww_test_end (last ws) - finish\<bar> \<le> n"
    using span_over_error [OF n, of "finish - start"] by (simp add: z_def algebra_simps)
  have h: "ww_train_start (hd ws) = start"
    using ne w(5) [of 0] by (simp add: hd_conv_nth origin_def)
  show ?thesis
    using len h e b r w step nonneg by (auto simp: origin_def add_increasing algebra_simps)
qed

theorem windows_tile_range_witness:
  "\<exists>ws. build_anchored_walk_forward_windows 0 101 2 (1/2) = Inr ws \<and> length ws = 2
     \<and> ww_test_end (ws ! 0) \<le> ww_test_start (ws ! 1) \<and> \<bar>ww_test_end (last ws) - 101\<bar> \<le> 1"
proof -
  obtain ws where ws: "build_anchored_walk_forward_windows 0 101 2 (1/2) = Inr ws"
    by (auto simp: build_anchored_walk_forward_windows_def cut_windows_def)
  from windows_tile_range [of True 0 101 2 "1/2" ws] ws show ?thesis by force
qed

end
