(* ===== verification/JobRunner.thy ===== *)
theory JobRunner
  imports HarnessRuns RunFigures TrialConfig MarketCache
begin

text \<open>
  \<^verbatim>\<open>backend/src/validation/job_runner.py\<close>: from a request to a validation run. The data
  are found or downloaded, the platform is put together from the request and the configuration
  files, and the harness runs it. The entries a persisted run makes in the database are left out: a
  request carries the identifiers of its revision and experiment. A date is the time its text
  is parsed to, and the files of the disk are kept by path.
\<close>


subsection \<open>Requests and the disk\<close>

datatype data_source = Exchange_source | Csv_source

record job_request =
  jr_symbol :: "string option"
  jr_timeframe :: "string option"
  jr_start :: "datetime option"
  jr_end :: "datetime option"
  jr_csv_path :: "string option"
  jr_source :: data_source
  jr_capital :: real
  jr_persist_db :: bool
  jr_retain_events :: "bool option"
  jr_experiment_id :: "string option"
  jr_revision_id :: "string option"
  jr_engine :: "engine_config option"
  jr_overrides :: "(string, provider_override) dict option"
  jr_execution :: "exec_config option"
  jr_features :: "(features_file \<times> string) option"
  jr_max_losses :: "int option"
  jr_limits :: "risk_limits option"

record job_disk =
  jd_default_symbol :: string
  jd_default_timeframe :: string
  jd_default_start :: datetime
  jd_config :: config_files
  jd_features_hash :: string
  jd_fill_model :: fill_model
  jd_csv :: "string \<Rightarrow> (string list \<times> frame) option"
  jd_fixtures :: "string list"
  jd_exchange :: "string \<Rightarrow> string \<Rightarrow> fetcher"
  jd_cache :: "string \<Rightarrow> string \<Rightarrow> cache_file"
  jd_cache_path :: "string \<Rightarrow> string \<Rightarrow> string"


subsection \<open>Data\<close>

definition nonempty_or :: "string option \<Rightarrow> string \<Rightarrow> string" where
  "nonempty_or s d = (case s of None \<Rightarrow> d | Some x \<Rightarrow> if x = [] then d else x)"

definition resolve_csv :: "job_disk \<Rightarrow> string option \<Rightarrow> string result" where
  "resolve_csv D path =
     (if path \<noteq> None \<and> path \<noteq> Some [] then Inr (the path)
      else (case List.find (\<lambda>p. jd_csv D p \<noteq> None) (jd_fixtures D) of
          None \<Rightarrow> Inl (FileNotFoundError ''No CSV fixture found'')
        | Some p \<Rightarrow> Inr p))"

definition resolve_data_csv ::
  "job_disk \<Rightarrow> data_source \<Rightarrow> string \<Rightarrow> string \<Rightarrow> datetime \<Rightarrow> datetime \<Rightarrow> string option
   \<Rightarrow> (string \<times> (string list \<times> frame) option \<times> job_disk) result" where
  "resolve_data_csv D src symb tf start finish path =
     (case src of
        Csv_source \<Rightarrow> and_then (resolve_csv D path) (\<lambda>p. Inr (p, jd_csv D p, D))
      | Exchange_source \<Rightarrow>
          and_then (get_or_download (jd_exchange D symb tf) start finish (jd_cache D symb tf)) (\<lambda>f.
          Inr (jd_cache_path D symb tf, map_option (Pair required_columns) f,
            D\<lparr>jd_cache := (jd_cache D)(symb := (jd_cache D symb)(tf := f))\<rparr>)))"


subsection \<open>The platform of a job\<close>

definition emit_all :: "job_request \<Rightarrow> bool" where
  "emit_all J = (case jr_retain_events J of None \<Rightarrow> jr_persist_db J | Some b \<Rightarrow> jr_persist_db J \<or> b)"

definition logged_families :: "job_request \<Rightarrow> event_family set option" where
  "logged_families J = (if emit_all J then None else Some {Fam_execution})"

definition effective_limits :: "job_request \<Rightarrow> risk_limits option" where
  "effective_limits J =
     (case jr_limits J of
        Some l \<Rightarrow> Some l
      | None \<Rightarrow> map_option (\<lambda>n. \<lparr>lim_max_daily_drawdown_pct = 5, lim_max_open_positions = 3, lim_max_exposure_pct = 50,
          lim_max_consecutive_losses = n\<rparr>) (jr_max_losses J))"

text \<open>The bus of a job has the log handler and no other, for good: what changes is what was
  published and what was logged.\<close>

type_synonym job_world = "event list \<times> event list"

definition job_publish :: "event_family set option \<Rightarrow> event \<Rightarrow> job_world \<Rightarrow> job_world \<times> unit result" where
  "job_publish fam e = (\<lambda>(published, log).
     case memory_publish e (\<lparr>bus_handlers = [event_log_handler fam], bus_published = published\<rparr>, log) of
       ((b, log'), r) \<Rightarrow> ((bus_published b, log'), r))"

definition job_setup :: "job_request \<Rightarrow> job_disk \<Rightarrow> exec_setup" where
  "job_setup J D = \<lparr>xs_fill_model = jd_fill_model D,
     xs_config = (case jr_execution J of Some x \<Rightarrow> x | None \<Rightarrow> cf_execution (jd_config D)),
     xs_mode = Validation_mode, xs_emit_events = emit_all J\<rparr>"

definition job_providers :: "job_request \<Rightarrow> job_disk \<Rightarrow> provider list result" where
  "job_providers J D =
     (case jr_overrides J of
        Some ovs \<Rightarrow> build_providers_from_overrides provider_classes (cf_providers (jd_config D)) (Some ovs)
      | None \<Rightarrow> load_providers provider_classes (cf_providers (jd_config D)))"

definition job_features :: "job_request \<Rightarrow> job_disk \<Rightarrow> features_file \<times> string" where
  "job_features J D = (case jr_features J of Some x \<Rightarrow> x | None \<Rightarrow> (cf_features (jd_config D), jd_features_hash D))"

definition job_runtime ::
  "indicator_params indicator_fun \<Rightarrow> job_request \<Rightarrow> job_disk \<Rightarrow> csv_provider \<Rightarrow> provider list
   \<Rightarrow> (indicator_params, job_world) runtime" where
  "job_runtime compute J D data pvs =
     \<lparr>rt_latest = csv_latest data, rt_compute = compute, rt_features = fst (job_features J D),
      rt_hash = snd (job_features J D), rt_providers = pvs,
      rt_engine = (case jr_engine J of Some c \<Rightarrow> c | None \<Rightarrow> cf_engine (jd_config D)),
      rt_exec = Some (job_setup J D), rt_publish = job_publish (logged_families J), rt_portfolio_id = ''portfolio_default'',
      rt_mode = Validation_mode, rt_persist = False, rt_emit = emit_all J\<rparr>"

definition job_platform :: "env \<Rightarrow> job_request \<Rightarrow> datetime \<Rightarrow> tick \<Rightarrow> job_world platform" where
  "job_platform E J start n =
     (case init_store E ''portfolio_default'' Validation_mode (jr_capital J) (effective_limits J) n of
        (s, n') \<Rightarrow> new_platform s (simulated_clock start None 1000000) ([], []) n')"

definition job_harness ::
  "indicator_params indicator_fun \<Rightarrow> job_request \<Rightarrow> job_disk \<Rightarrow> string \<Rightarrow> csv_provider \<Rightarrow> provider list \<Rightarrow> datetime list
   \<Rightarrow> (indicator_params, job_world) harness" where
  "job_harness compute J D path data pvs ts =
     \<lparr>ha_runtime = job_runtime compute J D data pvs, ha_data = data, ha_logged = snd, ha_clear = (\<lambda>(published, log). (published, [])),
      ha_disk_features = cf_features (jd_config D),
      ha_config = \<lparr>vc_symbol = csv_symbol data, vc_timeframe = csv_timeframe data, vc_start = hd ts, vc_end = last ts,
        vc_csv_path = Some path, vc_initial_capital = jr_capital J\<rparr>,
      ha_revision_id = jr_revision_id J, ha_experiment_id = jr_experiment_id J\<rparr>"

text \<open>\<^verbatim>\<open>run_validation_job\<close>. A missing end is now for an exchange, the last bar for a file; events are
  not streamed to the database.\<close>

definition run_validation_job ::
  "env \<Rightarrow> indicator_params indicator_fun \<Rightarrow> job_request \<Rightarrow> job_disk \<Rightarrow> tick
   \<Rightarrow> (validation_result \<times> job_world platform \<times> job_disk) result" where
  "run_validation_job E compute J D n =
     (let symb = nonempty_or (jr_symbol J) (jd_default_symbol D);
          tf = nonempty_or (jr_timeframe J) (jd_default_timeframe D);
          start = (case jr_start J of Some t \<Rightarrow> t | None \<Rightarrow> jd_default_start D);
          finish = (case jr_end J of Some t \<Rightarrow> Some t
                    | None \<Rightarrow> if jr_source J = Exchange_source then Some (wall_clock E n) else None)
      in and_then (resolve_data_csv D (jr_source J) symb tf start
             (case finish of Some t \<Rightarrow> t | None \<Rightarrow> wall_clock E (Suc n)) (jr_csv_path J)) (\<lambda>(path, file, D').
         and_then (csv_open file symb tf) (\<lambda>data.
         and_then (case finish of Some t \<Rightarrow> Inr t
                   | None \<Rightarrow> if csv_df data = [] then Inl IndexError else Inr (fst (last (csv_df data)))) (\<lambda>until.
         and_then (csv_timestamps data symb tf start until) (\<lambda>ts.
         if ts = [] then Inl (ValueError ''No bars in range'')
         else and_then (job_providers J D) (\<lambda>pvs.
              and_then (run_validation E (job_harness compute J D path data pvs ts) (jr_persist_db J)
                  (job_platform E J (hd ts) (Suc (Suc n)))) (\<lambda>(vr, q).
              Inr (vr, q, D'))))))))"


subsection \<open>What the log of a job holds\<close>

definition kept_by :: "event_family set option \<Rightarrow> event \<Rightarrow> bool" where
  "kept_by fam e = (case fam of None \<Rightarrow> True | Some F \<Rightarrow> ev_family e \<in> F)"

lemma job_publish_eq: "job_publish fam e w = ((fst w @ [e], snd w @ filter (kept_by fam) [e]), Inr ())"
  by (cases w) (auto simp: job_publish_def memory_publish_def Let_def event_log_handler_def log_handle_def kept_by_def wants_def
      split: option.splits)

lemma publish_to_log:
  "publish_many (job_publish fam) es w = ((fst w @ es, snd w @ filter (kept_by fam) es), Inr ())"
  by (induction es arbitrary: w) (simp_all add: job_publish_eq)

lemma silent_bars_log:
  assumes "run_bars E H retain i ts (p, cycles, acc) = Inr (q, cycles', acc')" and "rt_latest (ha_runtime H) = csv_latest d"
    and "rt_publish (ha_runtime H) = job_publish fam" and "\<not> rt_emit (ha_runtime H)"
    and "\<forall>e \<in> set (snd (pl_bus p)). engine_made e"
  shows "\<forall>e \<in> set (snd (pl_bus q)). engine_made e"
  using assms(1,5)
proof (induction ts arbitrary: i p cycles acc)
  case (Cons t ts)
  from Cons.prems(1) obtain p1 res where r: "run_cycle E (ha_runtime H) (bar_args H i t) (at_bar t p) = (p1, Inr res)"
    and rest: "run_bars E H retain (Suc i) ts
            (p1, if retain then cycles @ [res] else cycles, if retain then acc else observe res acc) = Inr (q, cycles', acc')"
    by (auto split: prod.splits sum.splits)
  have md: "market_data (rt_latest (ha_runtime H))" by (simp add: assms(2) csv.market_data_axioms)
  have "publish_many (job_publish fam) (cr_execution_events res) (pl_bus p) = (pl_bus p1, Inr ())"
    using cycle_publishes [OF r md] silent_cycle_events [OF r md assms(4)] by (simp add: assms(3) at_bar_def)
  then have "snd (pl_bus p1) = snd (pl_bus p) @ filter (kept_by fam) (cr_execution_events res)"
    by (simp only: publish_to_log) (metis Pair_inject snd_conv)
  with cycle_stamped(2) [OF r md] Cons.prems(2) have "\<forall>e \<in> set (snd (pl_bus p1)). engine_made e" by auto
  from Cons.IH [OF rest this] show ?case .
qed simp

lemma liquidate_stamp:
  "liquidate_loop E X a b snap ps (st, n) = (evs, trs, st', k) \<Longrightarrow> \<forall>e \<in> set evs. engine_made e"
proof (induction ps arbitrary: st n evs trs st' k)
  case (Cons p ps)
  show ?case
  proof (cases "pos_symbol p \<noteq> xa_symbol a")
    case True
    with Cons.IH [of st n evs trs st' k] Cons.prems show ?thesis by simp
  next
    case False
    obtain evs1 tr st1 n1 where c: "close_position E X a p (bar_close b) Exit_end_of_run snap (st, n) = (evs1, tr, st1, n1)"
      by (metis prod_cases4)
    obtain evs2 trs2 st2 k2 where l: "liquidate_loop E X a b snap ps (st1, n1) = (evs2, trs2, st2, k2)" by (metis prod_cases4)
    from Cons.IH [OF l] close_stamp [OF c] Cons.prems False c l show ?thesis by (auto simp: stamp_args_def)
  qed
qed simp

lemma liquidation_log:
  assumes "liquidate_open_run E H t p = Inr q" and "rt_publish (ha_runtime H) = job_publish fam"
    and "\<forall>e \<in> set (snd (pl_bus p)). engine_made e"
  shows "\<forall>e \<in> set (snd (pl_bus q)). engine_made e"
proof -
  have made: "\<forall>e \<in> set (er_events res). engine_made e"
    if "liquidate_open_positions E X a b snap w = (res, st, k)" for X a b snap w res st k
    using that by (cases w) (auto simp: liquidate_open_positions_def split: prod.splits dest!: liquidate_stamp)
  have "pl_bus q = pl_bus p \<or> (\<exists>res :: execution_result. (\<forall>e \<in> set (er_events res). engine_made e)
      \<and> publish_many (job_publish fam) (er_events res) (pl_bus p) = (pl_bus q, Inr ()))"
  proof (cases "rt_exec (ha_runtime H)")
    case (Some X)
    from assms(1) obtain pf :: portfolio_state where "(if filter (\<lambda>q. pos_symbol q = vc_symbol (ha_config H)) (open_positions pf) = [] then Inr p
          else
            and_then (csv_get_latest (ha_data H) (vc_symbol (ha_config H)) (vc_timeframe (ha_config H)) 200 (Some t)) (\<lambda>df.
            if df = [] then Inl IndexError
            else
              and_then (snapshot E (rt_portfolio_id (ha_runtime H)) (Some (''val_liquidate_'' @ iso_format t))
                  (pl_store p, pl_tick p)) (\<lambda>(snap, s1, n1).
              case liquidate_open_positions E X (liquidate_args H t) (snd (last df)) snap (pl_exec p, n1) of
                (res, st, n2) \<Rightarrow>
                  and_then (apply_transitions E (er_transitions res) (s1, n2)) (\<lambda>(s2, n3).
                  let q = p\<lparr>pl_store := s2, pl_exec := st, pl_tick := n3\<rparr>
                  in if er_events res = [] then Inr q
                     else (case publish_many (rt_publish (ha_runtime H)) (er_events res) (pl_bus q) of
                             (w, Inl e) \<Rightarrow> Inl e
                           | (w, Inr _) \<Rightarrow> Inr (q\<lparr>pl_bus := w\<rparr>)))))) = Inr q"
      unfolding liquidate_open_run_def Some option.case by (rule and_then_Inr_E) (rule that; assumption)
    then consider "pl_bus q = pl_bus p" | df :: frame and snap :: state_snapshot and n1 res st n2 where
      "liquidate_open_positions E X (liquidate_args H t) (snd (last df)) snap (pl_exec p, n1) = (res, st, n2)"
      "publish_many (job_publish fam) (er_events res) (pl_bus p) = (pl_bus q, Inr ())"
      using assms(2) by (auto simp: Let_def split: if_splits prod.splits sum.splits)
    then show ?thesis
    proof cases
      case (2 df snap n1 res st n2)
      show ?thesis by (intro disjI2 exI [of _ res] conjI made [OF 2(1)] 2(2))
    qed simp
  qed (use assms(1) in \<open>simp add: liquidate_open_run_def\<close>)
  then show ?thesis
  proof (elim disjE exE conjE)
    fix res :: execution_result assume res: "\<forall>e \<in> set (er_events res). engine_made e"
      "publish_many (job_publish fam) (er_events res) (pl_bus p) = (pl_bus q, Inr ())"
    then have "snd (pl_bus q) = snd (pl_bus p) @ filter (kept_by fam) (er_events res)"
      by (simp only: publish_to_log) (metis Pair_inject snd_conv)
    with assms(3) res(1) show ?thesis by auto
  qed (use assms(3) in simp)
qed

lemma quiet_job_log:
  assumes "run_validation_job E compute J D n = Inr (vr, q, D')" and "\<not> emit_all J"
  shows "(\<forall>e \<in> set (vr_events vr). engine_made e)
    \<and> compute_outcome_metrics (vr_events vr) (jr_capital J) (Some (equity (st_portfolio (pl_store q)))) = Inr (vr_outcome_metrics vr)"
proof -
  from assms(1) obtain path data pvs ts where
    run: "run_validation E (job_harness compute J D path data pvs ts) (jr_persist_db J) (job_platform E J (hd ts) (Suc (Suc n))) = Inr (vr, q)"
    by (auto simp: run_validation_job_def Let_def and_then_Inr_iff split: if_splits prod.splits)
  let ?H = "job_harness compute J D path data pvs ts"
  let ?p0 = "job_platform E J (hd ts) (Suc (Suc n))"
  let ?p1 = "?p0\<lparr>pl_tick := Suc (pl_tick ?p0), pl_bus := ha_clear ?H (pl_bus ?p0)\<rparr>"
  from run obtain bars p2 cycles acc pf where
    bars: "run_bars E ?H (jr_persist_db J) 0 bars (?p1, [], new_engine_acc) = Inr (p2, cycles, acc)"
    and lq: "liquidate_open_run E ?H (last bars) p2 = Inr q"
    and pf: "get_portfolio (rt_portfolio_id (ha_runtime ?H)) (pl_store q) = Inr pf"
    and om: "compute_outcome_metrics (ha_logged ?H (pl_bus q)) (vc_initial_capital (ha_config ?H)) (Some (equity pf)) = Inr (vr_outcome_metrics vr)"
    and evs: "vr_events vr = ha_logged ?H (pl_bus q)"
    by (auto simp: run_validation_def Let_def and_then_Inr_iff split: prod.splits)
  have f: "rt_latest (ha_runtime ?H) = csv_latest data" "rt_publish (ha_runtime ?H) = job_publish (logged_families J)" "\<not> rt_emit (ha_runtime ?H)"
    "ha_logged ?H = snd" "vc_initial_capital (ha_config ?H) = jr_capital J"
    using assms(2) by (simp_all add: job_harness_def job_runtime_def)
  have p1: "snd (pl_bus ?p1) = []"
    by (simp add: job_harness_def job_platform_def new_platform_def split: prod.splits)
  have "\<forall>e \<in> set (snd (pl_bus p2)). engine_made e" by (rule silent_bars_log [OF bars f(1-3)]) (simp only: p1 empty_iff list.set ball_simps)
  from liquidation_log [OF lq f(2) this] evs om pf f(4,5) show ?thesis
    by (auto simp: get_portfolio_def and_then_Inr_iff)
qed

lemma no_contexts:
  assumes "\<forall>e \<in> set evs. engine_made e"
  shows "contexts_by_correlation evs = []"
proof -
  have "fold (\<lambda>e d. if ev_type e = MarketContextDerived then dict_set d (ev_correlation_id e) (ev_payload e) else d) evs d = d" for d
    using assms by (induction evs arbitrary: d) (auto simp: engine_made_def)
  then show ?thesis by (simp add: contexts_by_correlation_def)
qed

lemma quiet_job_figures:
  assumes "run_validation_job E compute J D n = Inr (vr, q, D')" and "\<not> emit_all J"
  shows "rg_by_regime (oc_regime (vr_outcome_metrics vr)) = [] \<and> rg_by_confidence (oc_regime (vr_outcome_metrics vr)) = []
    \<and> rg_unattributed (oc_regime (vr_outcome_metrics vr)) = oc_total_trades (vr_outcome_metrics vr)
    \<and> fsu_total_losses (oc_failures (vr_outcome_metrics vr)) = 0"
proof -
  note log = quiet_job_log [OF assms]
  have c: "contexts_by_correlation (vr_events vr) = []" by (rule no_contexts) (rule log [THEN conjunct1])
  have "regime_loop (vr_events vr) es (rg, cf, u) = (rg, cf, u + length es)" for es rg cf u
    by (induction es arbitrary: u) (auto simp: entry_context_def Let_def c split: option.splits)
  then have r: "compute_regime_breakdown (vr_events vr) = \<lparr>rg_by_regime = [], rg_by_confidence = [],
      rg_unattributed = length (of_type PositionClosed (vr_events vr))\<rparr>"
    by (simp add: compute_regime_breakdown_def bucket_table_def)
  note f = outcome_fields [OF log [THEN conjunct2] refl]
  have "oc_regime (vr_outcome_metrics vr) = compute_regime_breakdown (vr_events vr)"
    "oc_failures (vr_outcome_metrics vr) = summarize_failures (compute_regime_breakdown (vr_events vr))"
    "oc_total_trades (vr_outcome_metrics vr) = length (of_type PositionClosed (vr_events vr))"
    using f by simp_all
  with r show ?thesis by (simp add: summarize_failures_def Let_def sum_of_def)
qed

text \<open>A job that keeps no events attributes no trade. Without persistence and without asking for the
  events, as the optimiser and the evaluation of candidates run their trials, the log
  holds the events of the execution engine only; so the breakdown by regime and by confidence
  is empty, every trade is unattributed, and no loss is counted in the summary of the failures,
  whatever the trades were.\<close>

theorem quiet_job_attributes_nothing:
  assumes "run_validation_job E compute J D n = Inr (vr, q, D')" and "\<not> emit_all J"
  shows "rg_by_regime (oc_regime (vr_outcome_metrics vr)) = [] \<and> rg_by_confidence (oc_regime (vr_outcome_metrics vr)) = []
    \<and> rg_unattributed (oc_regime (vr_outcome_metrics vr)) = oc_total_trades (vr_outcome_metrics vr)
    \<and> fsu_total_losses (oc_failures (vr_outcome_metrics vr)) = 0"
  by (rule quiet_job_figures [OF assms])


subsection \<open>A job returns\<close>

lemma csv_open_facts:
  "csv_open file symb tf = Inr data \<Longrightarrow> csv_symbol data = symb \<and> csv_timeframe data = tf \<and> sorted (map fst (csv_df data))"
  by (auto simp: csv_open_def csv_load_def and_then_Inr_iff sort_frame_def split: option.splits if_splits)

lemma timestamps_filter:
  assumes "sorted (map fst (csv_df data))"
  shows "csv_timestamps data symb tf s e = (if symb = csv_symbol data \<and> tf = csv_timeframe data
     then Inr (map fst (filter (\<lambda>r. s \<le> fst r \<and> fst r \<le> e) (csv_df data)))
     else csv_timestamps data symb tf s e)"
  using iloc_range [OF assms] by (simp add: csv_timestamps_def csv_validate_def range_slice_def)

text \<open>The range of the first and last bar found holds the same bars.\<close>

lemma same_timestamps:
  assumes "csv_timestamps data symb tf s e = Inr ts" and "ts \<noteq> []" and "sorted (map fst (csv_df data))"
  shows "symb = csv_symbol data" and "tf = csv_timeframe data" and "csv_timestamps data symb tf (hd ts) (last ts) = Inr ts"
proof -
  from assms(1) show k: "symb = csv_symbol data" "tf = csv_timeframe data"
    by (auto simp: csv_timestamps_def csv_validate_def and_then_Inr_iff split: if_splits)
  let ?rs = "filter (\<lambda>r. s \<le> fst r \<and> fst r \<le> e) (csv_df data)"
  have ts: "ts = map fst ?rs" using assms(1) timestamps_filter [OF assms(3), of symb tf s e] k by simp
  have srt: "sorted ts" unfolding ts by (rule sorted_filter [OF assms(3)])
  have ends: "hd ts \<in> set ts" "last ts \<in> set ts" using assms(2) by auto
  have lo: "hd ts \<le> t" if "t \<in> set ts" for t
    using srt that by (cases ts) auto
  have hi: "t \<le> last ts" if "t \<in> set ts" for t
    using srt that by (induction ts) auto
  have "filter (\<lambda>r. hd ts \<le> fst r \<and> fst r \<le> last ts) (csv_df data) = ?rs"
  proof (intro filter_cong refl)
    fix r assume r: "r \<in> set (csv_df data)"
    have "fst r \<in> set ts" if "s \<le> fst r \<and> fst r \<le> e" using r that by (auto simp: ts)
    moreover have "s \<le> hd ts" "last ts \<le> e" using ends by (auto simp: ts)
    ultimately show "(hd ts \<le> fst r \<and> fst r \<le> last ts) = (s \<le> fst r \<and> fst r \<le> e)"
      using lo hi by (meson order.trans)
  qed
  then show "csv_timestamps data symb tf (hd ts) (last ts) = Inr ts"
    using timestamps_filter [OF assms(3), of symb tf "hd ts" "last ts"] k ts by simp
qed

lemma job_runs:
  assumes "env_distinct E" and "jr_source J = Csv_source" and "jr_start J = Some start" and "jr_end J = Some until"
    and "resolve_csv D (jr_csv_path J) = Inr path"
    and "csv_open (jd_csv D path) (nonempty_or (jr_symbol J) (jd_default_symbol D)) (nonempty_or (jr_timeframe J) (jd_default_timeframe D))
           = Inr data"
    and "csv_timestamps data (csv_symbol data) (csv_timeframe data) start until = Inr ts"
    and "compute_min_lookback_bars (cf_features (jd_config D)) < int (length ts)"
    and "job_providers J D = Inr pvs" and "willing E (job_runtime compute J D data pvs)"
    and "0 \<le> lim_max_open_positions (case effective_limits J of None \<Rightarrow> default_limits | Some l \<Rightarrow> l)"
    and "jr_capital J \<noteq> 0"
  shows "\<exists>vr q. run_validation_job E compute J D n = Inr (vr, q, D) \<and> (jr_persist_db J \<longrightarrow>
    int (length (vr_cycles vr)) = int (length ts) - compute_min_lookback_bars (cf_features (jd_config D)))"
proof -
  let ?H = "job_harness compute J D path data pvs ts"
  let ?skip = "compute_min_lookback_bars (cf_features (jd_config D))"
  note data = csv_open_facts [OF assms(6)]
  have two: "2 \<le> ?skip" by (rule lookback_at_least_two)
  with assms(8) have ne: "ts \<noteq> []" by auto
  have bars: "validation_bars ?H = Inr (drop (nat ?skip) ts)"
    using same_timestamps(3) [OF assms(7) ne] data assms(8)
    by (simp add: validation_bars_def job_harness_def Let_def)
  have plat: "sound E (ha_runtime ?H) (job_platform E J (hd ts) (Suc (Suc n)))"
  proof -
    obtain s k where i: "init_store E ''portfolio_default'' Validation_mode (jr_capital J) (effective_limits J) (Suc (Suc n)) = (s, k)"
      by fastforce
    have "sound E (ha_runtime ?H) (new_platform s c w k)" for c w
      by (rule new_platform_sound [OF _ assms(11)]) (use i in \<open>simp add: job_harness_def job_runtime_def\<close>)
    then show ?thesis by (simp add: job_platform_def i)
  qed
  have clock: "pl_clock (job_platform E J (hd ts) (Suc (Suc n))) = Simulated_clock (hd ts) (hd ts + 1000000)"
    by (simp add: job_platform_def new_platform_def simulated_clock_def split: prod.splits)
  have w: "willing E (ha_runtime ?H)" using assms(10) by (simp add: job_harness_def)
  have h: "rt_latest (ha_runtime ?H) = csv_latest (ha_data ?H)" "sorted (map fst (csv_df (ha_data ?H)))"
    "vc_initial_capital (ha_config ?H) \<noteq> 0"
    using data assms(12) by (simp_all add: job_harness_def job_runtime_def)
  obtain vr q where r: "run_validation E ?H (jr_persist_db J) (job_platform E J (hd ts) (Suc (Suc n))) = Inr (vr, q)"
    and len: "jr_persist_db J \<longrightarrow> length (vr_cycles vr) = length (drop (nat ?skip) ts)"
    using validation_total [OF plat clock assms(1) w h(1,2) bars h(3)] by blast
  have "run_validation_job E compute J D n = Inr (vr, q, D)"
    using assms(2-7,9) data ne r
    by (simp add: run_validation_job_def Let_def resolve_data_csv_def)
  moreover have "jr_persist_db J \<longrightarrow> int (length (vr_cycles vr)) = int (length ts) - ?skip"
    using len two assms(8) by simp
  ultimately show ?thesis by blast
qed

text \<open>A job returns. When its file has the columns and, in the range, more bars than the lookback of
  the configured features, its providers load and its collaborators behave, the job returns a
  result; a persisted one has a cycle for every bar after the lookback.\<close>

theorem job_returns:
  assumes "env_distinct E" and "jr_source J = Csv_source" and "jr_start J = Some start" and "jr_end J = Some until"
    and "resolve_csv D (jr_csv_path J) = Inr path"
    and "csv_open (jd_csv D path) (nonempty_or (jr_symbol J) (jd_default_symbol D)) (nonempty_or (jr_timeframe J) (jd_default_timeframe D))
           = Inr data"
    and "csv_timestamps data (csv_symbol data) (csv_timeframe data) start until = Inr ts"
    and "compute_min_lookback_bars (cf_features (jd_config D)) < int (length ts)"
    and "job_providers J D = Inr pvs" and "willing E (job_runtime compute J D data pvs)"
    and "0 \<le> lim_max_open_positions (case effective_limits J of None \<Rightarrow> default_limits | Some l \<Rightarrow> l)"
    and "jr_capital J \<noteq> 0"
  shows "\<exists>vr q. run_validation_job E compute J D n = Inr (vr, q, D) \<and> (jr_persist_db J \<longrightarrow>
    int (length (vr_cycles vr)) = int (length ts) - compute_min_lookback_bars (cf_features (jd_config D)))"
  by (rule job_runs [OF assms])

definition demo_job :: "bool \<Rightarrow> job_request" where
  "demo_job persist = \<lparr>jr_symbol = Some ''BTC'', jr_timeframe = None, jr_start = Some 0, jr_end = Some 10800,
     jr_csv_path = Some ''f.csv'', jr_source = Csv_source, jr_capital = 10000, jr_persist_db = persist, jr_retain_events = None,
     jr_experiment_id = None, jr_revision_id = None, jr_engine = None, jr_overrides = Some [], jr_execution = None,
     jr_features = None, jr_max_losses = Some 5, jr_limits = None\<rparr>"

definition demo_disk :: job_disk where
  "demo_disk = \<lparr>jd_default_symbol = ''BTC'', jd_default_timeframe = ''1h'', jd_default_start = 0,
     jd_config = demo_config_files\<lparr>cf_providers := None,
       cf_features := \<lparr>fc_version = ''v2'', fc_indicators = map (\<lambda>i. period_only i ''ema'' 1) [''ema_12'', ''ema_26'', ''atr_14''],
         fc_flags = [], fc_context = fc_context demo_features\<rparr>\<rparr>,
     jd_features_hash = ''h'', jd_fill_model = xs_fill_model (demo_setup At_close),
     jd_csv = (\<lambda>p. Some (required_columns, csv_df demo_file)), jd_fixtures = [], jd_exchange = (\<lambda>s tf a b. Inr []),
     jd_cache = (\<lambda>s tf. None), jd_cache_path = (\<lambda>s tf. ''cache'')\<rparr>"

lemma demo_job_willing: "willing unary_env (job_runtime (\<lambda>d df. Inr 1) (demo_job persist) demo_disk demo_file [])"
  unfolding willing_def cooperative_def
proof (intro conjI allI impI ballI)
  fix df :: frame and sy tf pt st n assume "df \<noteq> []"
  then show "\<exists>x. build_features unary_env (rt_compute (job_runtime (\<lambda>d df. Inr 1) (demo_job persist) demo_disk demo_file []
      \<lparr>rt_latest := \<lambda>s tf e n. Inr ([], n)\<rparr>)) (rt_features (job_runtime (\<lambda>d df. Inr 1) (demo_job persist) demo_disk demo_file []
      \<lparr>rt_latest := \<lambda>s tf e n. Inr ([], n)\<rparr>)) (rt_hash (job_runtime (\<lambda>d df. Inr 1) (demo_job persist) demo_disk demo_file []
      \<lparr>rt_latest := \<lambda>s tf e n. Inr ([], n)\<rparr>)) df sy tf pt (rt_persist (job_runtime (\<lambda>d df. Inr 1) (demo_job persist) demo_disk demo_file []
      \<lparr>rt_latest := \<lambda>s tf e n. Inr ([], n)\<rparr>)) (st, n) = Inr x"
    by (simp add: build_features_def job_runtime_def job_features_def demo_job_def demo_disk_def demo_config_files_def
        normalize_ohlcv_def demo_features_def period_only_def Let_def derive_context_cases)
qed (simp_all add: job_runtime_def job_publish_eq demo_job_def demo_disk_def demo_config_files_def)

lemma demo_job_facts:
  "csv_open (jd_csv demo_disk ''f.csv'') (nonempty_or (jr_symbol (demo_job persist)) (jd_default_symbol demo_disk))
      (nonempty_or (jr_timeframe (demo_job persist)) (jd_default_timeframe demo_disk)) = Inr demo_file"
  "csv_timestamps demo_file (csv_symbol demo_file) (csv_timeframe demo_file) 0 10800 = Inr [0, 3600, 7200, 10800]"
  "compute_min_lookback_bars (cf_features (jd_config demo_disk)) = 2"
  "job_providers (demo_job persist) demo_disk = Inr []"
  "resolve_csv demo_disk (jr_csv_path (demo_job persist)) = Inr ''f.csv''"
proof -
  have f: "sort_frame (csv_df demo_file) = csv_df demo_file"
    by (rule sort_frame_id) (simp add: demo_file_def)
  show "csv_open (jd_csv demo_disk ''f.csv'') (nonempty_or (jr_symbol (demo_job persist)) (jd_default_symbol demo_disk))
      (nonempty_or (jr_timeframe (demo_job persist)) (jd_default_timeframe demo_disk)) = Inr demo_file"
    using f by (simp add: csv_open_def csv_load_def demo_disk_def demo_job_def nonempty_or_def filter_empty_conv)
      (simp add: demo_file_def)
  show "compute_min_lookback_bars (cf_features (jd_config demo_disk)) = 2"
    by (simp add: compute_min_lookback_bars_def demo_disk_def bars_needed_def period_only_def dict_get_or_def Let_def)
  show "csv_timestamps demo_file (csv_symbol demo_file) (csv_timeframe demo_file) 0 10800 = Inr [0, 3600, 7200, 10800]"
    by (simp add: csv_timestamps_def csv_validate_def range_slice_def search_left_def search_right_def iloc_def demo_file_def)
  show "job_providers (demo_job persist) demo_disk = Inr []"
    by (simp add: job_providers_def demo_job_def demo_disk_def build_providers_from_overrides_def discover_provider_configs_def)
  show "resolve_csv demo_disk (jr_csv_path (demo_job persist)) = Inr ''f.csv''"
    by (simp add: resolve_csv_def demo_job_def)
qed

lemma demo_job_plain:
  "jr_source (demo_job persist) = Csv_source" "jr_start (demo_job persist) = Some 0" "jr_end (demo_job persist) = Some 10800"
  "0 \<le> lim_max_open_positions (case effective_limits (demo_job persist) of None \<Rightarrow> default_limits | Some l \<Rightarrow> l)"
  "jr_capital (demo_job persist) \<noteq> 0" "jr_persist_db (demo_job persist) = persist"
  by (simp_all add: demo_job_def effective_limits_def)

theorem job_returns_witness:
  "\<exists>vr q. run_validation_job unary_env (\<lambda>d df. Inr 1) (demo_job True) demo_disk 0 = Inr (vr, q, demo_disk)
     \<and> length (vr_cycles vr) = 2"
  using job_returns [OF unary_env_distinct demo_job_plain(1-3) demo_job_facts(5,1,2) _ demo_job_facts(4) demo_job_willing
      demo_job_plain(4,5), of True]
  by (auto simp: demo_job_facts(3) demo_job_plain(6))

theorem quiet_job_attributes_nothing_witness:
  "\<exists>vr q. run_validation_job unary_env (\<lambda>d df. Inr 1) (demo_job False) demo_disk 0 = Inr (vr, q, demo_disk)
     \<and> rg_by_regime (oc_regime (vr_outcome_metrics vr)) = []"
proof -
  obtain vr q where r: "run_validation_job unary_env (\<lambda>d df. Inr 1) (demo_job False) demo_disk 0 = Inr (vr, q, demo_disk)"
    using job_runs [OF unary_env_distinct demo_job_plain(1-3) demo_job_facts(5,1,2) _ demo_job_facts(4) demo_job_willing
      demo_job_plain(4,5), of False 0] by (auto simp: demo_job_facts(3))
  from quiet_job_attributes_nothing [OF r] r show ?thesis by (auto simp: emit_all_def demo_job_def)
qed

end
