(* ===== verification/OptimizationRunner.thy ===== *)
theory OptimizationRunner
  imports JobRunner OptimizationScoring Windows
begin

text \<open>
  \<^verbatim>\<open>backend/src/validation/optimization_runner.py\<close>: the parameter sweep. Trials are
  trained, the best are refined and tested, one of the tested is selected and checked on the
  holdout. Trials are objects that the list of trials and the finalists share; here they are the
  entries of one list, and the finalists are positions in it. Trials that train concurrently share
  nothing but the files they read, and their results are kept by their index; the model trains them in
  that order. What is reported while the sweep runs is left out.
\<close>


subsection \<open>A sweep\<close>

record sweep =
  sw_symbol :: string
  sw_timeframe :: string
  sw_start :: datetime
  sw_end :: datetime
  sw_source :: data_source
  sw_capital :: real
  sw_train_ratio :: real
  sw_max_trials :: int
  sw_top_k :: int
  sw_space :: "optimization_space option"
  sw_csv_path :: "string option"
  sw_min_trades :: int
  sw_min_return :: real
  sw_holdout_ratio :: real
  sw_windows :: int
  sw_anchored :: bool
  sw_refine :: bool
  sw_optuna :: bool
  sw_min_trades_holdout :: "int option"
  sw_parallel :: int

text \<open>What a sweep uses of its environment: identifiers and clock, the indicators, the two
  hashes, the random generator and the sampler (both seeded), and the text of a float.\<close>

record 's sweep_tools =
  to_env :: env
  to_compute :: "indicator_params indicator_fun"
  to_revision :: "trial_params \<Rightarrow> string"
  to_digest :: "feature_periods \<Rightarrow> string"
  to_draw :: "nat \<Rightarrow> nat"
  to_sampler :: "'s sampler"
  to_study :: 's
  to_show :: "real \<Rightarrow> string"
  to_show2 :: "real \<Rightarrow> string"

type_synonym sweep_world = "job_disk \<times> tick"

text \<open>Where the trials read their bars.\<close>

type_synonym sweep_data = "data_source \<times> string option"


subsection \<open>One trial\<close>

text \<open>\<^verbatim>\<open>start.date().isoformat()\<close>, as the job parses it: the midnight before.\<close>

definition midnight :: "datetime \<Rightarrow> datetime" where
  "midnight t = date_of t * 86400000000"

definition trial_request ::
  "'s sweep_tools \<Rightarrow> sweep \<Rightarrow> sweep_data \<Rightarrow> config_files \<Rightarrow> trial_params \<Rightarrow> segment \<Rightarrow> job_request" where
  "trial_request T Q sd files t seg =
     \<lparr>jr_symbol = Some (sw_symbol Q), jr_timeframe = Some (sw_timeframe Q), jr_start = Some (midnight (fst seg)),
      jr_end = Some (midnight (snd seg)), jr_csv_path = snd sd, jr_source = fst sd, jr_capital = sw_capital Q,
      jr_persist_db = False, jr_retain_events = None, jr_experiment_id = None,
      jr_revision_id = Some (synthetic_revision_id (to_revision T) t),
      jr_engine = Some (build_engine_config_from_trial t (cf_engine files)),
      jr_overrides = Some (build_provider_overrides t),
      jr_execution = Some (build_execution_config_from_trial t (cf_execution files)),
      jr_features = Some (build_features_config_from_trial (to_digest T) t (cf_features files)),
      jr_max_losses = None, jr_limits = None\<rparr>"

definition run_trial ::
  "'s sweep_tools \<Rightarrow> sweep \<Rightarrow> sweep_data \<Rightarrow> trial_params \<Rightarrow> segment \<Rightarrow> sweep_world
   \<Rightarrow> ((real \<times> outcome_metrics) \<times> sweep_world) result" where
  "run_trial T Q sd t seg = (\<lambda>(D, n).
     and_then (run_validation_job (to_env T) (to_compute T) (trial_request T Q sd (jd_config D) t seg) D n) (\<lambda>(vr, q, D').
     Inr ((oc_optimization_score (vr_outcome_metrics vr), vr_outcome_metrics vr), (D', pl_tick q))))"

definition mean_score :: "real list \<Rightarrow> real" where
  "mean_score xs = (if xs = [] then 0 else sum_list xs / of_nat (length xs))"

definition fold_deviation :: "real list \<Rightarrow> real" where
  "fold_deviation xs =
     (if length xs > 1 then sqrt (sum_list (map (\<lambda>x. (x - mean_score xs)\<^sup>2) xs) / of_nat (length xs - 1)) else 0)"

definition score_windows ::
  "'s sweep_tools \<Rightarrow> sweep \<Rightarrow> sweep_data \<Rightarrow> trial_params \<Rightarrow> segment list \<Rightarrow> sweep_world
   \<Rightarrow> ((real list \<times> outcome_metrics list) \<times> sweep_world) result" where
  "score_windows T Q sd t segs w =
     for_each (\<lambda>seg ((scores, outcomes), w).
       and_then (run_trial T Q sd t seg w) (\<lambda>((score, outcome), w').
       Inr ((scores @ [score], outcomes @ [outcome]), w'))) segs (([], []), w)"

text \<open>A phase of a trial: over the windows, or over the one range when there are none. The result is
  the score, the figures, the scores of the folds and their deviation.\<close>

definition run_segments ::
  "'s sweep_tools \<Rightarrow> sweep \<Rightarrow> sweep_data \<Rightarrow> trial_params \<Rightarrow> segment list \<Rightarrow> segment \<Rightarrow> sweep_world
   \<Rightarrow> ((real \<times> outcome_dict \<times> real list \<times> real option) \<times> sweep_world) result" where
  "run_segments T Q sd t segs seg w =
     (if segs \<noteq> [] then
        and_then (score_windows T Q sd t segs w) (\<lambda>((scores, outcomes), w').
        Inr ((mean_score scores, aggregate_fold_outcomes outcomes, scores, Some (fold_deviation scores)), w'))
      else
        and_then (run_trial T Q sd t seg w) (\<lambda>((score, outcome), w').
        Inr ((score, Figures outcome, [], None), w')))"


subsection \<open>The phases\<close>

text \<open>The ranges a sweep trains and tests on: the windows, if any, and the one cut.\<close>

record sweep_plan =
  pn_train_folds :: "segment list"
  pn_test_folds :: "segment list"
  pn_train :: segment
  pn_test :: segment

definition plan_ranges :: "sweep \<Rightarrow> segment \<Rightarrow> sweep_plan result" where
  "plan_ranges Q opt =
     and_then (if sw_windows Q > 1
               then (if sw_anchored Q then build_anchored_walk_forward_windows else build_walk_forward_windows)
                      (fst opt) (snd opt) (sw_windows Q) (sw_train_ratio Q)
               else Inr []) (\<lambda>ws.
     if ws \<noteq> [] then
       Inr \<lparr>pn_train_folds = map (\<lambda>w. (ww_train_start w, ww_train_end w)) ws,
            pn_test_folds = map (\<lambda>w. (ww_test_start w, ww_test_end w)) ws,
            pn_train = (ww_train_start (hd ws), Max (set (map ww_train_end ws))),
            pn_test = (Min (set (map ww_test_start ws)), ww_test_end (last ws))\<rparr>
     else
       and_then (split_train_test (fst opt) (snd opt) (sw_train_ratio Q)) (\<lambda>(train, test).
       Inr \<lparr>pn_train_folds = [], pn_test_folds = [], pn_train = train, pn_test = test\<rparr>))"

definition train_one ::
  "'s sweep_tools \<Rightarrow> sweep \<Rightarrow> sweep_data \<Rightarrow> sweep_plan \<Rightarrow> trial_params \<Rightarrow> sweep_world
   \<Rightarrow> ((real \<times> trial_result) \<times> sweep_world) result" where
  "train_one T Q sd P t w =
     and_then (run_segments T Q sd t (pn_train_folds P) (pn_train P) w) (\<lambda>((score, outcome, scores, dev), (D, n)).
     Inr ((score, \<lparr>ot_trial_id = fresh_id (to_env T) ''trial_'' n, ot_params = t, ot_train_score = score,
                  ot_train_outcome = outcome, ot_test_score = None, ot_test_outcome = None, ot_stability = None,
                  ot_revision_id = Some (synthetic_revision_id (to_revision T) t), ot_composite = None,
                  ot_fold_scores = scores, ot_fold_std = dev, ot_pareto_rank = None\<rparr>), (D, Suc n)))"

definition train_each ::
  "'s sweep_tools \<Rightarrow> sweep \<Rightarrow> sweep_data \<Rightarrow> sweep_plan \<Rightarrow> trial_params list \<Rightarrow> trial_result list \<times> sweep_world
   \<Rightarrow> (trial_result list \<times> sweep_world) result" where
  "train_each T Q sd P =
     for_each (\<lambda>t (rs, w). and_then (train_one T Q sd P t w) (\<lambda>((_, r), w'). Inr (rs @ [r], w')))"

definition sweep_space :: "sweep \<Rightarrow> optimization_space" where
  "sweep_space Q = (case sw_space Q of None \<Rightarrow> default_space | Some sp \<Rightarrow> sp)"

text \<open>Only a sequential sweep feeds the scores back to the sampler.\<close>

definition train_phase ::
  "'s sweep_tools \<Rightarrow> sweep \<Rightarrow> sweep_data \<Rightarrow> sweep_plan \<Rightarrow> sweep_world \<Rightarrow> (trial_result list \<times> sweep_world) result" where
  "train_phase T Q sd P w =
     (if sw_optuna Q \<and> max 1 (sw_parallel Q) = 1 then
        and_then (run_optuna_trials (to_sampler T) (sweep_space Q) (train_one T Q sd P) (sw_max_trials Q) None (to_study T) w)
          (\<lambda>(rs, _, w'). Inr (rs, w'))
      else
        and_then (if sw_optuna Q
                  then Inr (generate_trials_optuna (to_sampler T) (sweep_space Q) (sw_max_trials Q) None (to_study T))
                  else generate_trials (to_draw T) (sweep_space Q) (sw_max_trials Q) None) (\<lambda>ts.
        train_each T Q sd P ts ([], w)))"

text \<open>\<^verbatim>\<open>xs[:k]\<close>, also for a negative bound, and \<^verbatim>\<open>sorted\<close> by the
  score, best first; a tie keeps its order.\<close>

definition slice_to :: "int \<Rightarrow> 'a list \<Rightarrow> 'a list" where
  "slice_to k xs = (if k < 0 then take (length xs - nat (- k)) xs else take (nat k) xs)"

definition by_train_score :: "trial_result list \<Rightarrow> nat list \<Rightarrow> nat list" where
  "by_train_score rs = sort_key (\<lambda>i. - ot_train_score (rs ! i))"

definition refine_phase ::
  "'s sweep_tools \<Rightarrow> sweep \<Rightarrow> sweep_data \<Rightarrow> sweep_plan \<Rightarrow> trial_result list \<Rightarrow> nat list \<Rightarrow> sweep_world
   \<Rightarrow> ((trial_result list \<times> nat list) \<times> sweep_world) result" where
  "refine_phase T Q sd P rs finalists w =
     (if sw_refine Q \<and> finalists \<noteq> [] then
        and_then (train_each T Q sd P
            (refine_trials_around (map (\<lambda>i. ot_params (rs ! i)) (take 3 finalists)) (sweep_space Q) (min 9 (sw_max_trials Q)))
            (rs, w)) (\<lambda>(rs', w').
        Inr ((rs', slice_to (sw_top_k Q) (by_train_score rs' (finalists @ [length rs..<length rs']))), w'))
      else Inr ((rs, finalists), w))"

definition tested :: "sweep \<Rightarrow> real \<Rightarrow> outcome_dict \<Rightarrow> trial_result \<Rightarrow> trial_result" where
  "tested Q score outcome r =
     (let r1 = r\<lparr>ot_test_score := Some score, ot_test_outcome := Some outcome, ot_stability := Some (compute_stability outcome)\<rparr>
      in r1\<lparr>ot_composite := Some (composite_score (sw_min_trades Q) (sw_min_return Q) r1)\<rparr>)"

definition test_one ::
  "'s sweep_tools \<Rightarrow> sweep \<Rightarrow> sweep_data \<Rightarrow> sweep_plan \<Rightarrow> nat \<Rightarrow> trial_result list \<times> sweep_world
   \<Rightarrow> (trial_result list \<times> sweep_world) result" where
  "test_one T Q sd P i = (\<lambda>(rs, w).
     and_then (run_segments T Q sd (ot_params (rs ! i)) (pn_test_folds P) (pn_test P) w) (\<lambda>((score, outcome, scores, dev), w').
     Inr (rs[i := tested Q score outcome
            (if pn_test_folds P \<noteq> [] then (rs ! i)\<lparr>ot_fold_scores := scores, ot_fold_std := dev\<rparr> else rs ! i)], w')))"


subsection \<open>The result\<close>

record optimization_result =
  or_sweep_id :: string
  or_train :: segment
  or_test :: segment
  or_trials :: "trial_result list"
  or_best :: "nat option"
  or_best_valid :: bool
  or_message :: "string option"
  or_fallback :: "nat option"
  or_holdout :: "segment option"
  or_optimization_end :: datetime
  or_holdout_score :: "real option"
  or_holdout_outcome :: "outcome_metrics option"
  or_holdout_valid :: bool

definition most_traded :: "trial_result list \<Rightarrow> nat list \<Rightarrow> nat option" where
  "most_traded rs finalists =
     (if finalists = [] then None else Some (first_max (\<lambda>i. trial_test_trades (rs ! i)) (hd finalists) (tl finalists)))"

definition holdout_min_trades :: "sweep \<Rightarrow> int" where
  "holdout_min_trades Q = (case sw_min_trades_holdout Q of None \<Rightarrow> max 1 (sw_min_trades Q div 2) | Some k \<Rightarrow> k)"

definition holdout_message :: "'s sweep_tools \<Rightarrow> sweep \<Rightarrow> outcome_metrics \<Rightarrow> string" where
  "holdout_message T Q m =
     ''Holdout check failed: '' @ show_nat (oc_total_trades m) @ '' trades, '' @ to_show2 T (oc_return_pct m)
     @ ''% return (need >='' @ show_int (holdout_min_trades Q) @ '' trades and >='' @ to_show T (sw_min_return Q)
     @ ''% return). Pass use_fallback=true to apply the closest candidate.''"

text \<open>\<^verbatim>\<open>csv_path\<close> may be empty, and is then none. The bars of an exchange are
  downloaded for the whole range, before anything runs, and read from the cache.\<close>

definition prefetch :: "sweep \<Rightarrow> job_disk \<Rightarrow> (sweep_data \<times> job_disk) result" where
  "prefetch Q D =
     (if sw_source Q = Exchange_source \<and> (sw_csv_path Q = None \<or> sw_csv_path Q = Some []) then
        and_then (get_or_download (jd_exchange D (sw_symbol Q) (sw_timeframe Q)) (sw_start Q) (sw_end Q)
            (jd_cache D (sw_symbol Q) (sw_timeframe Q))) (\<lambda>f.
        let path = jd_cache_path D (sw_symbol Q) (sw_timeframe Q)
        in Inr ((Csv_source, Some path),
             D\<lparr>jd_cache := (jd_cache D)(sw_symbol Q := (jd_cache D (sw_symbol Q))(sw_timeframe Q := f)),
               jd_csv := (jd_csv D)(path := map_option (Pair required_columns) f)\<rparr>))
      else Inr ((sw_source Q, sw_csv_path Q), D))"

text \<open>The trials and the finalists when the tests are done.\<close>

definition run_phases ::
  "'s sweep_tools \<Rightarrow> sweep \<Rightarrow> sweep_data \<Rightarrow> sweep_plan \<Rightarrow> sweep_world
   \<Rightarrow> ((trial_result list \<times> nat list) \<times> sweep_world) result" where
  "run_phases T Q sd P w =
     and_then (train_phase T Q sd P w) (\<lambda>(rs, w1).
     and_then (refine_phase T Q sd P rs (slice_to (min (sw_top_k Q) (int (length rs))) (by_train_score rs [0..<length rs])) w1)
       (\<lambda>((rs1, finalists), w2).
     and_then (for_each (test_one T Q sd P) finalists (rs1, w2)) (\<lambda>(rs2, w3).
     Inr ((rs2, finalists), w3))))"

definition update_at :: "nat list \<Rightarrow> 'a list \<Rightarrow> 'a list \<Rightarrow> 'a list" where
  "update_at is ys xs = fold (\<lambda>(i, y) xs. xs[i := y]) (zip is ys) xs"

text \<open>The check of the selected trial on the holdout: its score and figures, if there is a
  holdout and a selected trial.\<close>

definition run_holdout ::
  "'s sweep_tools \<Rightarrow> sweep \<Rightarrow> sweep_data \<Rightarrow> segment option \<Rightarrow> trial_result option \<Rightarrow> sweep_world
   \<Rightarrow> ((real \<times> outcome_metrics) option \<times> sweep_world) result" where
  "run_holdout T Q sd holdout best w =
     (case (best, holdout) of
        (Some b, Some h) \<Rightarrow> and_then (run_trial T Q sd (ot_params b) h w) (\<lambda>(so, w'). Inr (Some so, w'))
      | _ \<Rightarrow> Inr (None, w))"

definition holdout_passes :: "sweep \<Rightarrow> outcome_metrics \<Rightarrow> bool" where
  "holdout_passes Q m \<longleftrightarrow> int (oc_total_trades m) \<ge> holdout_min_trades Q \<and> oc_return_pct m \<ge> sw_min_return Q"

definition run_optimization ::
  "'s sweep_tools \<Rightarrow> sweep \<Rightarrow> sweep_world \<Rightarrow> (optimization_result \<times> sweep_world) result" where
  "run_optimization T Q = (\<lambda>(D, n).
     and_then (split_holdout (sw_start Q) (sw_end Q) (sw_holdout_ratio Q)) (\<lambda>(opt, holdout).
     and_then (prefetch Q D) (\<lambda>(sd, D1).
     and_then (plan_ranges Q opt) (\<lambda>P.
     and_then (run_phases T Q sd P (D1, n)) (\<lambda>((rs, finalists), w).
     let (chosen, pick) = select_best (sw_min_trades Q) (sw_min_return Q) (map ((!) rs) finalists);
         trials = update_at finalists chosen rs;
         best = map_option ((!) finalists) pick;
         message = (if best = None \<and> finalists \<noteq> []
                    then Some (build_selection_message (to_show T) chosen (sw_min_trades Q) (sw_min_return Q)) else None);
         fallback = (if best = None then most_traded trials finalists else None)
     in and_then (run_holdout T Q sd holdout (map_option ((!) trials) best) w) (\<lambda>(checked, (D2, n2)).
        let failed = (case checked of None \<Rightarrow> False | Some so \<Rightarrow> \<not> holdout_passes Q (snd so))
        in Inr (\<lparr>or_sweep_id = fresh_id (to_env T) ''sweep_'' n2, or_train = pn_train P, or_test = pn_test P,
                 or_trials = trials, or_best = best, or_best_valid = (best \<noteq> None \<and> \<not> failed),
                 or_message = (if failed then map_option (holdout_message T Q \<circ> snd) checked else message),
                 or_fallback = (if failed then most_traded trials finalists else fallback),
                 or_holdout = holdout, or_optimization_end = snd opt,
                 or_holdout_score = map_option fst checked, or_holdout_outcome = map_option snd checked,
                 or_holdout_valid = (case checked of None \<Rightarrow> False | Some so \<Rightarrow> holdout_passes Q (snd so))\<rparr>,
               (D2, Suc n2))))))))"


subsection \<open>Who is trained and who is tested\<close>

abbreviation untested :: "trial_result \<Rightarrow> bool" where
  "untested r \<equiv> ot_test_outcome r = None"

lemma train_one_untested:
  "train_one T Q sd P t w = Inr ((s, r), w') \<Longrightarrow> untested r \<and> ot_params r = t \<and> ot_train_score r = s"
  by (auto simp: train_one_def)

lemma train_each_untested:
  "train_each T Q sd P ts (rs, w) = Inr (rs', w') \<Longrightarrow> \<exists>new. rs' = rs @ new \<and> map ot_params new = ts \<and> (\<forall>r \<in> set new. untested r)"
proof (induction ts arbitrary: rs w)
  case (Cons t ts)
  from Cons.prems obtain s r w1 where one: "train_one T Q sd P t w = Inr ((s, r), w1)"
    and rest: "train_each T Q sd P ts (rs @ [r], w1) = Inr (rs', w')"
    by (auto simp: train_each_def)
  from Cons.IH [OF rest] obtain new where "rs' = (rs @ [r]) @ new" "map ot_params new = ts" "\<forall>r \<in> set new. untested r"
    by blast
  with train_one_untested [OF one] show ?case by (intro exI [of _ "r # new"]) simp
qed (simp add: train_each_def)

lemma tell_loop_all:
  assumes "tell_loop S sp family m evaluate n (s, w) (rs, seen) = Inr (rs', s', w')" and "\<forall>r \<in> set rs. p r"
    and "\<And>t w score r w'. evaluate t w = Inr ((score, r), w') \<Longrightarrow> p r"
  shows "\<forall>r \<in> set rs'. p r"
  using assms(1,2)
proof (induction n arbitrary: s w rs seen)
  case (Suc n)
  obtain t s1 where t: "suggest_params S sp (sm_ask S s) = (t, s1)" by fastforce
  show ?case
  proof (cases "int (length rs) < m \<and> is_valid_provider_trial family t \<and> trial_key t \<notin> set seen")
    case True
    with Suc.prems(1) t obtain score r w1 where e: "evaluate t w = Inr ((score, r), w1)"
      and rest: "tell_loop S sp family m evaluate n (sm_tell S (Some score) s1, w1) (rs @ [r], trial_key t # seen) = Inr (rs', s', w')"
      by (auto split: sum.splits)
    have "\<forall>r \<in> set (rs @ [r]). p r" using Suc.prems(2) assms(3) [OF e] by auto
    from Suc.IH [OF rest this] show ?thesis .
  next
    case False
    with Suc t show ?thesis by (auto split: if_splits)
  qed
qed simp

lemma train_phase_untested:
  assumes "train_phase T Q sd P w = Inr (rs, w')"
  shows "\<forall>r \<in> set rs. untested r"
proof (cases "sw_optuna Q \<and> max 1 (sw_parallel Q) = 1")
  case True
  with assms obtain s where
    "run_optuna_trials (to_sampler T) (sweep_space Q) (train_one T Q sd P) (sw_max_trials Q) None (to_study T) w = Inr (rs, s, w')"
    by (auto simp: train_phase_def)
  then show ?thesis
    unfolding run_optuna_trials_def by (rule tell_loop_all) (auto dest: train_one_untested)
next
  case False
  with assms obtain ts where "train_each T Q sd P ts ([], w) = Inr (rs, w')"
    by (auto simp: train_phase_def)
  from train_each_untested [OF this] show ?thesis by auto
qed

lemma slice_facts:
  "set (slice_to k xs) \<subseteq> set xs" "distinct xs \<Longrightarrow> distinct (slice_to k xs)" "0 \<le> k \<Longrightarrow> length (slice_to k xs) \<le> nat k"
  by (auto simp: slice_to_def dest: in_set_takeD)

lemma ranked_facts [simp]:
  "set (by_train_score rs is) = set is" "distinct (by_train_score rs is) = distinct is"
  by (simp_all add: by_train_score_def)

lemma ranked_empty [simp]: "by_train_score rs is = [] \<longleftrightarrow> is = []"
  by (metis ranked_facts(1) set_empty)

text \<open>After training and refinement nothing is tested, and the finalists are some of the trials.\<close>

lemma refined_finalists:
  assumes "refine_phase T Q sd P rs fin w = Inr ((rs', fin'), w')" and "\<forall>r \<in> set rs. untested r"
    and "distinct fin" and "set fin \<subseteq> {..<length rs}" and "0 \<le> sw_top_k Q \<Longrightarrow> length fin \<le> nat (sw_top_k Q)"
  shows "(\<forall>r \<in> set rs'. untested r) \<and> distinct fin' \<and> set fin' \<subseteq> {..<length rs'}
    \<and> (0 \<le> sw_top_k Q \<longrightarrow> length fin' \<le> nat (sw_top_k Q))"
proof (cases "sw_refine Q \<and> fin \<noteq> []")
  case True
  with assms(1) obtain ts where t: "train_each T Q sd P ts (rs, w) = Inr (rs', w')"
    and f: "fin' = slice_to (sw_top_k Q) (by_train_score rs' (fin @ [length rs..<length rs']))"
    by (auto simp: refine_phase_def)
  from train_each_untested [OF t] obtain new where new: "rs' = rs @ new" "\<forall>r \<in> set new. untested r" by blast
  have "distinct (fin @ [length rs..<length rs'])" using assms(3,4) by auto
  then have "distinct fin'" unfolding f by (intro slice_facts(2)) simp
  moreover have "set fin' \<subseteq> {..<length rs'}"
    unfolding f by (rule order.trans [OF slice_facts(1)]) (use assms(4) new(1) in auto)
  ultimately show ?thesis using assms(2) new slice_facts(3) [of "sw_top_k Q"] by (auto simp: f)
next
  case False
  with assms show ?thesis by (auto simp: refine_phase_def split: if_splits)
qed

text \<open>The tests change the finalists only, and only their test.\<close>

lemma tests_done:
  assumes "for_each (test_one T Q sd P) is (rs, w) = Inr (rs', w')" and "distinct is" and "set is \<subseteq> {..<length rs}"
  shows "length rs' = length rs \<and> (\<forall>i < length rs. if i \<in> set is then \<not> untested (rs' ! i) else rs' ! i = rs ! i)"
  using assms
proof (induction "is" arbitrary: rs w)
  case (Cons i js)
  from Cons.prems(1) obtain rs1 w1 where one: "test_one T Q sd P i (rs, w) = Inr (rs1, w1)"
    and rest: "for_each (test_one T Q sd P) js (rs1, w1) = Inr (rs', w')" by auto
  from one obtain r where r: "rs1 = rs[i := r]" "\<not> untested r"
    by (auto simp: test_one_def tested_def Let_def)
  have "length rs' = length rs1 \<and> (\<forall>k < length rs1. if k \<in> set js then \<not> untested (rs' ! k) else rs' ! k = rs1 ! k)"
    by (rule Cons.IH [OF rest]) (use Cons.prems(2,3) r in auto)
  with Cons.prems(2,3) r show ?case by auto
qed simp

lemma phases_done:
  assumes "run_phases T Q sd P w = Inr ((rs, finalists), w')"
  shows "distinct finalists \<and> set finalists \<subseteq> {..<length rs} \<and> (0 \<le> sw_top_k Q \<longrightarrow> length finalists \<le> nat (sw_top_k Q))
    \<and> (\<forall>i < length rs. untested (rs ! i) \<longleftrightarrow> i \<notin> set finalists)"
proof -
  from assms obtain rs0 w1 rs1 w2 where
    1: "train_phase T Q sd P w = Inr (rs0, w1)" and
    2: "refine_phase T Q sd P rs0 (slice_to (min (sw_top_k Q) (int (length rs0))) (by_train_score rs0 [0..<length rs0])) w1
      = Inr ((rs1, finalists), w2)" and
    3: "for_each (test_one T Q sd P) finalists (rs1, w2) = Inr (rs, w')"
    by (auto simp: run_phases_def)
  let ?fin = "slice_to (min (sw_top_k Q) (int (length rs0))) (by_train_score rs0 [0..<length rs0])"
  have d: "distinct ?fin" by (rule slice_facts(2)) simp
  have s: "set ?fin \<subseteq> {..<length rs0}" using slice_facts(1) by fastforce
  have l: "length ?fin \<le> nat (sw_top_k Q)" if "0 \<le> sw_top_k Q"
    by (rule order.trans [OF slice_facts(3) nat_mono]) (use that in simp_all)
  note r = refined_finalists [OF 2 train_phase_untested [OF 1] d s l]
  with tests_done [OF 3] show ?thesis by (auto split: if_splits)
qed


subsection \<open>What a sweep selects\<close>

lemma update_at_facts:
  assumes "length ys = length is" and "distinct is" and "set is \<subseteq> {..<length xs}"
  shows "length (update_at is ys xs) = length xs \<and> (\<forall>k < length is. update_at is ys xs ! (is ! k) = ys ! k)
    \<and> (\<forall>j. j \<notin> set is \<longrightarrow> update_at is ys xs ! j = xs ! j)"
  using assms
proof (induction "is" arbitrary: ys xs)
  case (Cons i js)
  then obtain z zs where ys: "ys = z # zs" by (cases ys) auto
  note IH = Cons.IH [of zs "xs[i := z]"]
  show ?case
    using IH Cons.prems by (auto simp: ys update_at_def less_Suc_eq_0_disj)
qed (simp add: update_at_def)

lemma passes_gates_scored [simp]: "passes_gates mt mr (scored mt mr fs ! k) = passes_gates mt mr (fs ! k)"
  "trial_test_trades (scored mt mr fs ! k) = trial_test_trades (fs ! k)"
  "ot_test_outcome (scored mt mr fs ! k) = ot_test_outcome (fs ! k)" "ot_params (scored mt mr fs ! k) = ot_params (fs ! k)"
  if "k < length fs"
  using that by (auto simp: scored_def assign_pareto_ranks_def passes_gates_def trial_test_trades_def split: option.split)

lemma choice_facts:
  assumes "distinct fin" and "set fin \<subseteq> {..<length rs}" and "\<forall>i < length rs. untested (rs ! i) \<longleftrightarrow> i \<notin> set fin"
    and "select_best mt mr (map ((!) rs) fin) = (chosen, pick)"
    and "trials = update_at fin chosen rs" and "best = map_option ((!) fin) pick"
  shows "length trials = length rs \<and> (\<forall>i < length rs. untested (trials ! i) \<longleftrightarrow> i \<notin> set fin)
    \<and> (best = None \<longleftrightarrow> (\<forall>r \<in> set trials. \<not> passes_gates mt mr r))
    \<and> (\<forall>i. best = Some i \<longrightarrow> i \<in> set fin \<and> passes_gates mt mr (trials ! i))
    \<and> (\<forall>i < length rs. ot_params (trials ! i) = ot_params (rs ! i))"
proof -
  let ?fs = "map ((!) rs) fin"
  have c: "chosen = scored mt mr ?fs"
    using assms(4) by (cases "fin = []") (auto simp: select_best_unfold Let_def, simp_all add: select_best_def scored_def assign_pareto_ranks_def)
  have u: "length trials = length rs" "k < length fin \<Longrightarrow> trials ! (fin ! k) = chosen ! k" "j \<notin> set fin \<Longrightarrow> trials ! j = rs ! j" for j k
    using update_at_facts [of chosen fin rs] assms(1,2,5) c by auto
  have g: "passes_gates mt mr (trials ! (fin ! k)) = passes_gates mt mr (?fs ! k)"
    "ot_test_outcome (trials ! (fin ! k)) = ot_test_outcome (?fs ! k)" if "k < length fin" for k
    using that u(2) [OF that] by (simp_all add: c)
  have o: "untested (trials ! i) \<longleftrightarrow> i \<notin> set fin" if "i < length rs" for i
  proof (cases "i \<in> set fin")
    case True
    then obtain k where k: "k < length fin" "fin ! k = i" by (auto simp: in_set_conv_nth)
    with g(2) [OF k(1)] assms(3) that show ?thesis by simp
  qed (use u(3) assms(3) that in simp)
  have n: "(\<forall>r \<in> set trials. \<not> passes_gates mt mr r) \<longleftrightarrow> (\<forall>t \<in> set ?fs. \<not> passes_gates mt mr t)"
  proof -
    have "\<not> passes_gates mt mr (trials ! i)" if "i < length rs" "i \<notin> set fin" for i
      using o [OF that(1)] that(2) by (simp add: passes_gates_def)
    then have "(\<forall>r \<in> set trials. \<not> passes_gates mt mr r) \<longleftrightarrow> (\<forall>i \<in> set fin. \<not> passes_gates mt mr (trials ! i))"
      using assms(2) u(1) by (auto simp: all_set_conv_all_nth [of trials])
    also have "\<dots> \<longleftrightarrow> (\<forall>k < length fin. \<not> passes_gates mt mr (trials ! (fin ! k)))"
      by (rule all_set_conv_all_nth)
    also have "\<dots> \<longleftrightarrow> (\<forall>t \<in> set ?fs. \<not> passes_gates mt mr t)"
      using g(1) unfolding all_set_conv_all_nth [of ?fs] by simp
    finally show ?thesis .
  qed
  have pa: "ot_params (trials ! i) = ot_params (rs ! i)" if "i < length rs" for i
  proof (cases "i \<in> set fin")
    case True
    then obtain k where k: "k < length fin" "fin ! k = i" by (auto simp: in_set_conv_nth)
    with u(2) [OF k(1)] show ?thesis by (simp add: c)
  qed (use u(3) in simp)
  note s = selection_sound [of mt mr ?fs, unfolded assms(4) snd_conv]
  have "pick = None \<longleftrightarrow> (\<forall>t \<in> set ?fs. \<not> passes_gates mt mr t)" using s by blast
  moreover have "k < length fin \<and> passes_gates mt mr (?fs ! k)" if "pick = Some k" for k
    using s that by auto
  ultimately show ?thesis using u(1) o n g(1) assms(6) pa by auto
qed

lemma most_traded_facts:
  assumes "length trials = n" and "set fin \<subseteq> {..<n}" and "\<forall>i < n. untested (trials ! i) \<longleftrightarrow> i \<notin> set fin"
  shows "(most_traded trials fin = None \<longleftrightarrow> (\<forall>r \<in> set trials. untested r))
    \<and> (\<forall>i. most_traded trials fin = Some i \<longrightarrow> i < n \<and> \<not> untested (trials ! i)
        \<and> (\<forall>r \<in> set trials. \<not> untested r \<longrightarrow> trial_test_trades r \<le> trial_test_trades (trials ! i)))"
proof (cases "fin = []")
  case True
  with assms show ?thesis by (auto simp: most_traded_def all_set_conv_all_nth)
next
  case False
  let ?i = "first_max (\<lambda>i. trial_test_trades (trials ! i)) (hd fin) (tl fin)"
  have m: "most_traded trials fin = Some ?i" using False by (simp add: most_traded_def)
  note f = first_max_list [OF False, where key = "\<lambda>i. trial_test_trades (trials ! i)"]
  have "?i < n \<and> \<not> untested (trials ! ?i)" using f(1) assms by auto
  moreover have "trial_test_trades (trials ! j) \<le> trial_test_trades (trials ! ?i)" if "j < n" "\<not> untested (trials ! j)" for j
    using f(2) [of j] that assms(3) by auto
  ultimately show ?thesis using assms(1) unfolding m by (auto simp: all_set_conv_all_nth)
qed

lemma sweep_parts:
  assumes "run_optimization T Q w = Inr (R, w')"
  obtains D n opt sd D1 P rs fin w1 chosen pick checked D2 n2 where "w = (D, n)"
    and "split_holdout (sw_start Q) (sw_end Q) (sw_holdout_ratio Q) = Inr (opt, or_holdout R)"
    and "prefetch Q D = Inr (sd, D1)" and "plan_ranges Q opt = Inr P"
    and "run_phases T Q sd P (D1, n) = Inr ((rs, fin), w1)"
    and "select_best (sw_min_trades Q) (sw_min_return Q) (map ((!) rs) fin) = (chosen, pick)"
    and "or_trials R = update_at fin chosen rs" and "or_best R = map_option ((!) fin) pick"
    and "run_holdout T Q sd (or_holdout R) (map_option ((!) (or_trials R)) (or_best R)) w1 = Inr (checked, (D2, n2))"
    and "or_holdout_outcome R = map_option snd checked" and "or_holdout_score R = map_option fst checked"
    and "or_holdout_valid R = (case checked of None \<Rightarrow> False | Some so \<Rightarrow> holdout_passes Q (snd so))"
    and "or_best_valid R \<longleftrightarrow> or_best R \<noteq> None \<and> (\<forall>so. checked = Some so \<longrightarrow> holdout_passes Q (snd so))"
    and "or_fallback R = (if or_best_valid R then None else most_traded (or_trials R) fin)"
    and "or_train R = pn_train P" and "or_test R = pn_test P" and "or_optimization_end R = snd opt"
proof -
  obtain D n where w: "w = (D, n)" by (cases w)
  from assms obtain opt h sd D1 P rs fin w1 chosen pick checked D2 n2 where parts:
    "split_holdout (sw_start Q) (sw_end Q) (sw_holdout_ratio Q) = Inr (opt, h)"
    "prefetch Q D = Inr (sd, D1)" "plan_ranges Q opt = Inr P" "run_phases T Q sd P (D1, n) = Inr ((rs, fin), w1)"
    "select_best (sw_min_trades Q) (sw_min_return Q) (map ((!) rs) fin) = (chosen, pick)"
    "run_holdout T Q sd h (map_option ((!) (update_at fin chosen rs)) (map_option ((!) fin) pick)) w1 = Inr (checked, (D2, n2))"
    and R: "R = \<lparr>or_sweep_id = fresh_id (to_env T) ''sweep_'' n2, or_train = pn_train P, or_test = pn_test P,
        or_trials = update_at fin chosen rs, or_best = map_option ((!) fin) pick,
        or_best_valid = (map_option ((!) fin) pick \<noteq> None
          \<and> \<not> (case checked of None \<Rightarrow> False | Some so \<Rightarrow> \<not> holdout_passes Q (snd so))),
        or_message = or_message R,
        or_fallback = (if (case checked of None \<Rightarrow> False | Some so \<Rightarrow> \<not> holdout_passes Q (snd so))
          then most_traded (update_at fin chosen rs) fin
          else if map_option ((!) fin) pick = None then most_traded (update_at fin chosen rs) fin else None),
        or_holdout = h, or_optimization_end = snd opt, or_holdout_score = map_option fst checked,
        or_holdout_outcome = map_option snd checked,
        or_holdout_valid = (case checked of None \<Rightarrow> False | Some so \<Rightarrow> holdout_passes Q (snd so))\<rparr>"
    by (auto simp: run_optimization_def w Let_def split: prod.splits)
  have f: "or_holdout R = h" "or_trials R = update_at fin chosen rs" "or_best R = map_option ((!) fin) pick"
    "or_holdout_outcome R = map_option snd checked" "or_holdout_score R = map_option fst checked"
    "or_holdout_valid R = (case checked of None \<Rightarrow> False | Some so \<Rightarrow> holdout_passes Q (snd so))"
    "or_best_valid R \<longleftrightarrow> or_best R \<noteq> None \<and> (\<forall>so. checked = Some so \<longrightarrow> holdout_passes Q (snd so))"
    "or_fallback R = (if or_best_valid R then None else most_traded (or_trials R) fin)"
    "or_train R = pn_train P" "or_test R = pn_test P" "or_optimization_end R = snd opt"
    by (subst R, simp split: option.split)+
  show thesis
    by (rule that [OF w parts(1) [folded f(1)] parts(2-5) f(2,3) _ f(4-11)]) (use parts(6) f(1-3) in simp)
qed

text \<open>C8: a sweep selects what it promises. A valid best trial was tested, has trades and return enough in its
  test and return enough in its training, and when a holdout is kept its run on the holdout
  has trades and return enough as well. No best trial is named exactly when no trial of the sweep
  passes; unless the best is valid, the fallback is the tested trial with most trades, and
  there is one as soon as a trial was tested; and at most \<^verbatim>\<open>top_k\<close> trials are tested.\<close>

theorem sweep_selects_soundly:
  assumes "run_optimization T Q w = Inr (R, w')"
  shows "(or_best_valid R \<longrightarrow> (\<exists>i < length (or_trials R). or_best R = Some i
          \<and> passes_gates (sw_min_trades Q) (sw_min_return Q) (or_trials R ! i)
          \<and> (0 < sw_holdout_ratio Q \<longrightarrow> or_holdout_valid R \<and> (\<exists>m. or_holdout_outcome R = Some m
               \<and> holdout_min_trades Q \<le> int (oc_total_trades m) \<and> sw_min_return Q \<le> oc_return_pct m))))
    \<and> (or_best R = None \<longleftrightarrow> (\<forall>r \<in> set (or_trials R). \<not> passes_gates (sw_min_trades Q) (sw_min_return Q) r))
    \<and> (or_fallback R = None \<longleftrightarrow> or_best_valid R \<or> (\<forall>r \<in> set (or_trials R). ot_test_outcome r = None))
    \<and> (\<forall>i. or_fallback R = Some i \<longrightarrow> i < length (or_trials R) \<and> ot_test_outcome (or_trials R ! i) \<noteq> None
         \<and> (\<forall>r \<in> set (or_trials R). ot_test_outcome r \<noteq> None \<longrightarrow> trial_test_trades r \<le> trial_test_trades (or_trials R ! i)))
    \<and> (0 \<le> sw_top_k Q \<longrightarrow> length (filter (\<lambda>r. ot_test_outcome r \<noteq> None) (or_trials R)) \<le> nat (sw_top_k Q))"
proof -
  obtain D n opt sd D1 P rs fin w1 chosen pick checked D2 n2 where
    split: "split_holdout (sw_start Q) (sw_end Q) (sw_holdout_ratio Q) = Inr (opt, or_holdout R)"
    and ph: "run_phases T Q sd P (D1, n) = Inr ((rs, fin), w1)"
    and sel: "select_best (sw_min_trades Q) (sw_min_return Q) (map ((!) rs) fin) = (chosen, pick)"
    and tr: "or_trials R = update_at fin chosen rs" and be: "or_best R = map_option ((!) fin) pick"
    and ho: "run_holdout T Q sd (or_holdout R) (map_option ((!) (or_trials R)) (or_best R)) w1 = Inr (checked, (D2, n2))"
    and out: "or_holdout_outcome R = map_option snd checked"
    and ok: "or_holdout_valid R = (case checked of None \<Rightarrow> False | Some so \<Rightarrow> holdout_passes Q (snd so))"
    and va: "or_best_valid R \<longleftrightarrow> or_best R \<noteq> None \<and> (\<forall>so. checked = Some so \<longrightarrow> holdout_passes Q (snd so))"
    and fb: "or_fallback R = (if or_best_valid R then None else most_traded (or_trials R) fin)"
    using assms by (rule sweep_parts)
  from phases_done [OF ph] have f: "distinct fin" "set fin \<subseteq> {..<length rs}"
    "\<forall>i < length rs. untested (rs ! i) \<longleftrightarrow> i \<notin> set fin" "0 \<le> sw_top_k Q \<Longrightarrow> length fin \<le> nat (sw_top_k Q)" by auto
  from choice_facts [OF f(1-3) sel tr be] have c: "length (or_trials R) = length rs"
    "\<forall>i < length rs. untested (or_trials R ! i) \<longleftrightarrow> i \<notin> set fin"
    "or_best R = None \<longleftrightarrow> (\<forall>r \<in> set (or_trials R). \<not> passes_gates (sw_min_trades Q) (sw_min_return Q) r)"
    "or_best R = Some i \<Longrightarrow> i \<in> set fin \<and> passes_gates (sw_min_trades Q) (sw_min_return Q) (or_trials R ! i)" for i
    by blast+
  have m: "(most_traded (or_trials R) fin = None \<longleftrightarrow> (\<forall>r \<in> set (or_trials R). untested r))
    \<and> (\<forall>i. most_traded (or_trials R) fin = Some i \<longrightarrow> i < length rs \<and> \<not> untested (or_trials R ! i)
        \<and> (\<forall>r \<in> set (or_trials R). \<not> untested r \<longrightarrow> trial_test_trades r \<le> trial_test_trades (or_trials R ! i)))"
    by (rule most_traded_facts [OF c(1) f(2) c(2)])
  have held: "or_holdout_valid R \<and> (\<exists>m. or_holdout_outcome R = Some m \<and> holdout_passes Q m)"
    if "or_best_valid R" "0 < sw_holdout_ratio Q"
  proof -
    have "or_holdout R \<noteq> None"
      using split that(2) by (auto simp: split_holdout_def Let_def split: if_splits dest: sym)
    then obtain h where h: "or_holdout R = Some h" by blast
    from that(1) va obtain i where "or_best R = Some i" by auto
    with ho h obtain so where "checked = Some so" by (auto simp: run_holdout_def)
    with that(1) va ok out show ?thesis by simp
  qed
  have best: "\<exists>i < length (or_trials R). or_best R = Some i \<and> passes_gates (sw_min_trades Q) (sw_min_return Q) (or_trials R ! i)"
    if valid: "or_best_valid R"
  proof -
    from valid va obtain i where i: "or_best R = Some i" by auto
    with c(4) [OF i] f(2) c(1) show ?thesis by (intro exI [of _ i]) auto
  qed
  have few: "length (filter (\<lambda>r. \<not> untested r) (or_trials R)) \<le> nat (sw_top_k Q)" if k: "0 \<le> sw_top_k Q"
  proof -
    have "length (filter (\<lambda>r. \<not> untested r) (or_trials R)) = card {i. i < length rs \<and> \<not> untested (or_trials R ! i)}"
      by (simp add: length_filter_conv_card c(1))
    also have "{i. i < length rs \<and> \<not> untested (or_trials R ! i)} = set fin" using c(2) f(2) by auto
    also have "card (set fin) \<le> nat (sw_top_k Q)" using f(4) [OF k] f(1) by (simp add: distinct_card)
    finally show ?thesis .
  qed
  from best held have 1: "or_best_valid R \<longrightarrow> (\<exists>i < length (or_trials R). or_best R = Some i
          \<and> passes_gates (sw_min_trades Q) (sw_min_return Q) (or_trials R ! i)
          \<and> (0 < sw_holdout_ratio Q \<longrightarrow> or_holdout_valid R \<and> (\<exists>m. or_holdout_outcome R = Some m
               \<and> holdout_min_trades Q \<le> int (oc_total_trades m) \<and> sw_min_return Q \<le> oc_return_pct m)))"
    by (meson holdout_passes_def)
  show ?thesis
    using 1 c(3) m few unfolding fb c(1) by (intro conjI) auto
qed

subsection \<open>A sweep returns\<close>

text \<open>Every trial of a space can be run on every given range, on the same disk.\<close>

definition trials_return ::
  "'s sweep_tools \<Rightarrow> sweep \<Rightarrow> sweep_data \<Rightarrow> optimization_space \<Rightarrow> segment set \<Rightarrow> job_disk \<Rightarrow> bool" where
  "trials_return T Q sd sp S D \<longleftrightarrow>
     (\<forall>t seg n. in_space sp t \<longrightarrow> seg \<in> S \<longrightarrow> (\<exists>so n'. run_trial T Q sd t seg (D, n) = Inr (so, (D, n'))))"

lemma windows_return:
  assumes "trials_return T Q sd sp S D" and "in_space sp t" and "set segs \<subseteq> S"
  shows "\<exists>x n'. score_windows T Q sd t segs (D, n) = Inr (x, (D, n'))"
proof -
  have "\<exists>x n'. for_each (\<lambda>seg ((scores, outcomes), w).
       and_then (run_trial T Q sd t seg w) (\<lambda>((score, outcome), w').
       Inr ((scores @ [score], outcomes @ [outcome]), w'))) segs (acc, (D, n)) = Inr (x, (D, n'))" for acc
    using assms(3)
  proof (induction segs arbitrary: acc n)
    case (Cons seg segs)
    have "seg \<in> S" using Cons.prems by simp
    with assms(1,2) obtain so n1 where "run_trial T Q sd t seg (D, n) = Inr (so, (D, n1))"
      unfolding trials_return_def by blast
    with Cons.IH [of "(fst acc @ [fst so], snd acc @ [snd so])" n1] Cons.prems show ?case
      by (cases acc, cases so) simp
  qed simp
  then show ?thesis by (simp add: score_windows_def)
qed

lemma segments_return:
  assumes "trials_return T Q sd sp S D" and "in_space sp t" and "set segs \<subseteq> S" and "segs = [] \<Longrightarrow> seg \<in> S"
  shows "\<exists>x n'. run_segments T Q sd t segs seg (D, n) = Inr (x, (D, n'))"
proof (cases "segs = []")
  case True
  with assms(4) have "seg \<in> S" by simp
  with assms(1,2) obtain so n1 where "run_trial T Q sd t seg (D, n) = Inr (so, (D, n1))" unfolding trials_return_def by blast
  with True show ?thesis by (cases so) (simp add: run_segments_def)
next
  case False
  obtain x n1 where "score_windows T Q sd t segs (D, n) = Inr (x, (D, n1))"
    using windows_return [OF assms(1-3)] by blast
  with False show ?thesis by (cases x) (simp add: run_segments_def)
qed

definition plan_segments :: "sweep_plan \<Rightarrow> segment option \<Rightarrow> segment set" where
  "plan_segments P holdout = set (pn_train_folds P) \<union> set (pn_test_folds P) \<union> {pn_train P, pn_test P} \<union> set_option holdout"

lemma plan_segments_simps [simp]:
  "set (pn_train_folds P) \<subseteq> plan_segments P h" "set (pn_test_folds P) \<subseteq> plan_segments P h"
  "pn_train P \<in> plan_segments P h" "pn_test P \<in> plan_segments P h" "seg \<in> plan_segments P (Some seg)"
  by (auto simp: plan_segments_def)

lemma train_one_returns:
  assumes "trials_return T Q sd sp (plan_segments P h) D" and "in_space sp t"
  shows "\<exists>s r n'. train_one T Q sd P t (D, n) = Inr ((s, r), (D, n')) \<and> ot_params r = t"
proof -
  have "\<exists>x n1. run_segments T Q sd t (pn_train_folds P) (pn_train P) (D, n) = Inr (x, (D, n1))"
    by (rule segments_return [OF assms]) simp_all
  then obtain x n1 where "run_segments T Q sd t (pn_train_folds P) (pn_train P) (D, n) = Inr (x, (D, n1))" by (elim exE)
  then show ?thesis by (cases x) (simp add: train_one_def)
qed

lemma train_each_returns:
  assumes "trials_return T Q sd sp (plan_segments P h) D" and "\<forall>t \<in> set ts. in_space sp t"
  shows "\<exists>rs' n'. train_each T Q sd P ts (rs, (D, n)) = Inr (rs', (D, n'))"
  using assms(2)
proof (induction ts arbitrary: rs n)
  case (Cons t ts)
  then have "in_space sp t" by simp
  from train_one_returns [OF assms(1) this] obtain s r n1 where one: "train_one T Q sd P t (D, n) = Inr ((s, r), (D, n1))" by blast
  have "\<exists>rs' n'. train_each T Q sd P ts (rs @ [r], (D, n1)) = Inr (rs', (D, n'))" by (rule Cons.IH) (use Cons.prems in simp)
  with one show ?case by (simp add: train_each_def)
qed (simp add: train_each_def)

lemma tell_loop_returns:
  assumes "trials_return T Q sd sp (plan_segments P h) D" and "\<And>s. in_space sp (fst (suggest_params S sp s))"
    and "\<forall>r \<in> set rs. in_space sp (ot_params r)"
  shows "\<exists>rs' s' n'. tell_loop S sp family m (train_one T Q sd P) k (s, (D, n)) (rs, seen) = Inr (rs', s', (D, n'))
    \<and> (\<forall>r \<in> set rs'. in_space sp (ot_params r))"
  using assms(3)
proof (induction k arbitrary: s n rs seen)
  case (Suc k)
  obtain t s1 where t: "suggest_params S sp (sm_ask S s) = (t, s1)" by fastforce
  with assms(2) [of "sm_ask S s"] have i: "in_space sp t" by simp
  from train_one_returns [OF assms(1) this] obtain v r n1
    where one: "train_one T Q sd P t (D, n) = Inr ((v, r), (D, n1))" "ot_params r = t" by blast
  have "\<forall>x \<in> set (rs @ [r]). in_space sp (ot_params x)" using Suc.prems i one(2) by simp
  note told = Suc.IH [OF this, of "sm_tell S (Some v) s1" n1 "trial_key t # seen"]
  note pruned = Suc.IH [OF Suc.prems, of "sm_tell S None s1" n seen]
  show ?case
  proof (cases "int (length rs) < m \<and> is_valid_provider_trial family t \<and> trial_key t \<notin> set seen")
    case True
    with told t one(1) show ?thesis by simp
  next
    case False
    then consider "\<not> int (length rs) < m" | "int (length rs) < m" "\<not> is_valid_provider_trial family t \<or> trial_key t \<in> set seen" by blast
    then show ?thesis using pruned t Suc.prems by cases auto
  qed
qed simp

lemma test_one_returns:
  assumes "trials_return T Q sd sp (plan_segments P h) D" and "in_space sp (ot_params (rs ! i))"
  shows "\<exists>r n'. test_one T Q sd P i (rs, (D, n)) = Inr (rs[i := r], (D, n')) \<and> ot_params r = ot_params (rs ! i)"
proof -
  have "\<exists>x n1. run_segments T Q sd (ot_params (rs ! i)) (pn_test_folds P) (pn_test P) (D, n) = Inr (x, (D, n1))"
    by (rule segments_return [OF assms]) simp_all
  then obtain x n1 where "run_segments T Q sd (ot_params (rs ! i)) (pn_test_folds P) (pn_test P) (D, n) = Inr (x, (D, n1))" by (elim exE)
  moreover obtain score outcome scores dev where x: "x = (score, outcome, scores, dev)" by (cases x)
  ultimately have "test_one T Q sd P i (rs, (D, n)) = Inr (rs[i := tested Q score outcome
      (if pn_test_folds P \<noteq> [] then (rs ! i)\<lparr>ot_fold_scores := scores, ot_fold_std := dev\<rparr> else rs ! i)], (D, n1))"
    by (simp add: test_one_def)
  then show ?thesis by (intro exI conjI) (assumption, simp add: tested_def Let_def)
qed

lemma tests_return:
  assumes "trials_return T Q sd sp (plan_segments P h) D" and "\<forall>r \<in> set rs. in_space sp (ot_params r)"
    and "set is \<subseteq> {..<length rs}"
  shows "\<exists>rs' n'. for_each (test_one T Q sd P) is (rs, (D, n)) = Inr (rs', (D, n'))
    \<and> (\<forall>r \<in> set rs'. in_space sp (ot_params r)) \<and> length rs' = length rs"
  using assms(2,3)
proof (induction "is" arbitrary: rs n)
  case (Cons i js)
  then have i: "in_space sp (ot_params (rs ! i))" by simp
  from test_one_returns [OF assms(1) i] obtain r n1
    where one: "test_one T Q sd P i (rs, (D, n)) = Inr (rs[i := r], (D, n1))" and p: "ot_params r = ot_params (rs ! i)" by blast
  have "\<forall>r \<in> set (rs[i := r]). in_space sp (ot_params r)"
    using Cons.prems(1) p i set_update_subset_insert [of rs i r] by auto
  with Cons.IH [of "rs[i := r]" n1] Cons.prems(2) one show ?case by simp
qed simp

lemma set_update_subset: "set (AList.update k v d) \<subseteq> insert (k, v) (set d)"
  by (induction d) auto

lemma takeWhile_other_less: "x \<in> set xs \<Longrightarrow> length (takeWhile (\<lambda>y. y \<noteq> x) xs) < length xs"
  by (induction xs) auto

lemma key_neighbour:
  assumes "u \<in> set (key_neighbours sp t k)"
  shows "\<exists>v \<in> set (space_values sp k). u = with_num t k v \<and> dict_get (tp_nums t) k \<noteq> None"
proof -
  from assms obtain current i where c: "dict_get (tp_nums t) k = Some current" "list_index (space_values sp k) current = Some i"
    by (cases "dict_get (tp_nums t) k"; cases "list_index (space_values sp k) (the (dict_get (tp_nums t) k))")
      (auto simp: key_neighbours_def Let_def split: if_splits)
  from c(2) have "i < length (space_values sp k)"
    by (auto simp: list_index_def takeWhile_other_less split: if_splits)
  with assms c show ?thesis by (auto simp: key_neighbours_def Let_def split: if_splits)
qed

lemma neighbours_in_space:
  assumes "in_space sp t" and "u \<in> set (trial_neighbours sp t)"
  shows "in_space sp u"
proof -
  from assms(2) obtain k where "u \<in> set (key_neighbours sp t k)" by (auto simp: trial_neighbours_def)
  from key_neighbour [OF this] obtain v where u: "u = with_num t k v" and v: "v \<in> set (space_values sp k)"
    and k: "dict_get (tp_nums t) k \<noteq> None" by blast
  from k have m: "k \<in> set (map fst (tp_nums t))" by (metis dom_map_of_conv_image_fst domIff set_map)
  have "map fst (tp_nums u) = map fst (tp_nums t)"
    using m by (simp add: u with_num_def dict_keys_set_old flip: dict_keys_def)
  moreover have "\<forall>(j, w) \<in> set (tp_nums u). w \<in> set (space_values sp j)"
    using assms(1) v set_update_subset [of k v "tp_nums t"] by (fastforce simp: u with_num_def in_space_def dict_set_def)
  ultimately show ?thesis using assms(1) by (simp add: in_space_def u with_num_def)
qed

lemma refine_params_in_space:
  assumes "\<forall>t \<in> set tops. in_space sp t" and "0 < m"
  shows "\<forall>u \<in> set (refine_trials_around tops sp m). in_space sp u"
proof -
  have "set (refine_trials_around tops sp m) \<subseteq> (\<Union>t \<in> set tops. set (trial_neighbours sp t))"
    using refine_loop_sound [of m "[]" "[]" sp tops] assms(2) by (auto simp: refine_trials_around_def)
  with assms(1) show ?thesis using neighbours_in_space by blast
qed

lemma strided_from:
  "\<exists>new. fst (pick_strided m cs (p, seen)) = p @ new \<and> set new \<subseteq> set cs
     \<and> (cs \<noteq> [] \<and> trial_key (hd cs) \<notin> set seen \<longrightarrow> new \<noteq> [])"
proof (induction cs arbitrary: p seen)
  case (Cons c cs)
  show ?case
  proof (cases "trial_key c \<in> set seen")
    case True
    with Cons.IH [of p seen] show ?thesis by (cases "int (length p) \<ge> m") auto
  next
    case False
    from Cons.IH [of "p @ [c]" "trial_key c # seen"] obtain new
      where "fst (pick_strided m cs (p @ [c], trial_key c # seen)) = (p @ [c]) @ new" "set new \<subseteq> set cs" by blast
    with False show ?thesis
      by (cases "int (length (p @ [c])) \<ge> m") (auto intro: exI [of _ "[c]"] exI [of _ "c # new"])
  qed
qed simp

lemma random_from: "\<exists>new. pick_random draw m n left (p, seen) = p @ new \<and> set new \<subseteq> set left"
proof (induction "length left" arbitrary: n left p seen)
  case 0
  then show ?case by (subst pick_random.simps) simp
next
  case (Suc k)
  note stop = pick_random.simps [of draw m n left p seen]
  let ?c = "left ! (draw n mod length left)"
  from Suc(2) have "0 < length left" by (metis zero_less_Suc)
  then have c: "?c \<in> set left" by (intro nth_mem mod_less_divisor)
  then have k: "k = length (remove1 ?c left)" using Suc(2) by (simp add: length_remove1)
  obtain new new' where n: "pick_random draw m (Suc n) (remove1 ?c left) (p, seen) = p @ new" "set new \<subseteq> set (remove1 ?c left)"
    "pick_random draw m (Suc n) (remove1 ?c left) (p @ [?c], trial_key ?c # seen) = (p @ [?c]) @ new'" "set new' \<subseteq> set (remove1 ?c left)"
    using Suc(1) [OF k, of "Suc n" p seen] Suc(1) [OF k, of "Suc n" "p @ [?c]" "trial_key ?c # seen"] by blast
  have r: "set (remove1 ?c left) \<subseteq> set left" by (rule set_remove1_subset)
  show ?case
  proof (cases "int (length p) < m \<and> left \<noteq> []")
    case True
    then have "pick_random draw m n left (p, seen) = (if trial_key ?c \<in> set seen then p @ new else p @ (?c # new'))"
      using n(1,3) by (subst pick_random.simps) (simp add: Let_def)
    with n(2,4) r c show ?thesis by (cases "trial_key ?c \<in> set seen") auto
  next
    case False
    have "pick_random draw m n left (p, seen) = p" by (simp only: stop if_not_P [OF False])
    then show ?thesis by simp
  qed
qed

lemma every_nonempty: "xs \<noteq> [] \<Longrightarrow> every n xs \<noteq> []"
  by (cases xs) (auto simp: every_nth filter_empty_conv intro!: bexI [of _ 0])

lemma grid_returns:
  assumes "0 < m" and "t \<in> set (space_combos sp)" and "is_valid_provider_trial (enforced_family sp require) t"
  shows "\<exists>ts. generate_trials draw sp m require = Inr ts \<and> ts \<noteq> [] \<and> set ts \<subseteq> set (space_combos sp)"
proof -
  let ?combos = "filter (is_valid_provider_trial (enforced_family sp require)) (space_combos sp)"
  have ne: "?combos \<noteq> []" using assms(2,3) by (auto simp: filter_empty_conv)
  show ?thesis
  proof (cases "int (length ?combos) \<le> m")
    case True
    with ne show ?thesis by (simp add: generate_trials_def Let_def)
  next
    case False
    let ?stride = "nat (max 1 (int (length ?combos) div m))"
    obtain picked seen where p: "pick_strided m (every ?stride ?combos) ([], []) = (picked, seen)" by fastforce
    have "every ?stride ?combos \<noteq> []" by (rule every_nonempty [OF ne])
    with strided_from [of m "every ?stride ?combos" "[]" "[]"] p
    have new: "picked \<noteq> []" "set picked \<subseteq> set (every ?stride ?combos)" by auto
    let ?rem = "filter (\<lambda>c. trial_key c \<notin> set seen) ?combos"
    have g: "generate_trials draw sp m require = Inr (pick_random draw m 0 ?rem (picked, seen))"
      using ne False assms(1) p by (simp add: generate_trials_def Let_def)
    obtain more where more: "pick_random draw m 0 ?rem (picked, seen) = picked @ more" "set more \<subseteq> set ?rem"
      using random_from [of draw m 0 ?rem picked seen] by blast
    with new set_every [of ?stride ?combos] have "set (picked @ more) \<subseteq> set (space_combos sp)" by auto
    with g more(1) new(1) show ?thesis by simp
  qed
qed

lemma asked_in_space:
  assumes "answers_choices S" and "full_space sp" and "\<forall>t \<in> set picked. in_space sp t"
  shows "\<forall>t \<in> set (ask_loop S sp family m k s (picked, seen)). in_space sp t"
  using assms(3)
proof (induction k arbitrary: s picked seen)
  case (Suc k)
  obtain t s1 where t: "suggest_params S sp (sm_ask S s) = (t, s1)" by fastforce
  with suggested_in_space [OF assms(1,2), of "sm_ask S s"] have "in_space sp t" by simp
  then have "\<forall>t \<in> set (picked @ [t]). in_space sp t" using Suc.prems by simp
  from Suc.IH [OF this, of s1 "trial_key t # seen"] Suc.IH [OF Suc.prems, of s1 seen] Suc.prems t show ?case by simp
qed simp

lemma train_phase_returns:
  assumes "trials_return T Q sd (sweep_space Q) (plan_segments P h) D" and "0 < sw_max_trials Q"
    and "answers_choices (to_sampler T)" and "full_space (sweep_space Q)"
    and "\<exists>t. in_space (sweep_space Q) t \<and> is_valid_provider_trial (enforced_family (sweep_space Q) None) t"
  shows "\<exists>rs n'. train_phase T Q sd P (D, n) = Inr (rs, (D, n')) \<and> (\<forall>r \<in> set rs. in_space (sweep_space Q) (ot_params r))
    \<and> (\<not> sw_optuna Q \<longrightarrow> rs \<noteq> [])"
proof (cases "sw_optuna Q \<and> max 1 (sw_parallel Q) = 1")
  case True
  obtain rs s n1 where "run_optuna_trials (to_sampler T) (sweep_space Q) (train_one T Q sd P) (sw_max_trials Q) None (to_study T) (D, n)
      = Inr (rs, s, (D, n1))" "\<forall>r \<in> set rs. in_space (sweep_space Q) (ot_params r)"
    using tell_loop_returns [OF assms(1) suggested_in_space [OF assms(3,4)], of "[]"] unfolding run_optuna_trials_def by force
  with True show ?thesis by (simp add: train_phase_def)
next
  case False
  let ?sp = "sweep_space Q"
  have "\<exists>ts. (if sw_optuna Q then Inr (generate_trials_optuna (to_sampler T) ?sp (sw_max_trials Q) None (to_study T))
      else generate_trials (to_draw T) ?sp (sw_max_trials Q) None) = Inr ts \<and> (\<forall>t \<in> set ts. in_space ?sp t)
      \<and> (\<not> sw_optuna Q \<longrightarrow> ts \<noteq> [])"
  proof (cases "sw_optuna Q")
    case True
    have "\<forall>t \<in> set (generate_trials_optuna (to_sampler T) ?sp (sw_max_trials Q) None (to_study T)). in_space ?sp t"
      unfolding generate_trials_optuna_def by (rule asked_in_space [OF assms(3,4)]) simp
    with True show ?thesis by simp
  next
    case False
    from assms(5) obtain t where t: "t \<in> set (space_combos ?sp)" "is_valid_provider_trial (enforced_family ?sp None) t"
      by (auto simp: combo_in_space)
    from grid_returns [OF assms(2) t, of "to_draw T"] False show ?thesis
      by (auto simp: combo_in_space subset_iff)
  qed
  then obtain ts where ts: "(if sw_optuna Q then Inr (generate_trials_optuna (to_sampler T) ?sp (sw_max_trials Q) None (to_study T))
      else generate_trials (to_draw T) ?sp (sw_max_trials Q) None) = Inr ts" "\<forall>t \<in> set ts. in_space ?sp t"
      "\<not> sw_optuna Q \<longrightarrow> ts \<noteq> []" by blast
  from train_each_returns [OF assms(1) ts(2), of "[]" n] obtain rs n1
    where tr: "train_each T Q sd P ts ([], (D, n)) = Inr (rs, (D, n1))" by blast
  from train_each_untested [OF tr] have "map ot_params rs = ts" by auto
  then have "\<forall>r \<in> set rs. in_space ?sp (ot_params r)" "ts \<noteq> [] \<longrightarrow> rs \<noteq> []" using ts(2) by auto
  with False ts tr show ?thesis by (auto simp: train_phase_def)
qed

lemma slice_nonempty: "0 < k \<Longrightarrow> xs \<noteq> [] \<Longrightarrow> slice_to k xs \<noteq> []"
  by (simp add: slice_to_def)

text \<open>The finalists of a sweep whose trials return.\<close>

lemma refine_phase_returns:
  assumes "trials_return T Q sd (sweep_space Q) (plan_segments P h) D" and "0 < sw_max_trials Q"
    and "\<forall>r \<in> set rs. in_space (sweep_space Q) (ot_params r)" and "set fin \<subseteq> {..<length rs}"
  shows "\<exists>rs' fin' n'. refine_phase T Q sd P rs fin (D, n) = Inr ((rs', fin'), (D, n'))
    \<and> (\<forall>r \<in> set rs'. in_space (sweep_space Q) (ot_params r)) \<and> (0 < sw_top_k Q \<and> fin \<noteq> [] \<longrightarrow> fin' \<noteq> [])"
proof (cases "sw_refine Q \<and> fin \<noteq> []")
  case True
  let ?ts = "refine_trials_around (map (\<lambda>i. ot_params (rs ! i)) (take 3 fin)) (sweep_space Q) (min 9 (sw_max_trials Q))"
  have "in_space (sweep_space Q) (ot_params (rs ! i))" if "i \<in> set (take 3 fin)" for i
    using assms(3,4) in_set_takeD [OF that] by auto
  then have i: "\<forall>t \<in> set ?ts. in_space (sweep_space Q) t"
    using assms(2) by (intro refine_params_in_space) auto
  from train_each_returns [OF assms(1) i, of rs n] obtain rs' n1 where tr: "train_each T Q sd P ?ts (rs, (D, n)) = Inr (rs', (D, n1))" by blast
  from train_each_untested [OF tr] obtain new where "rs' = rs @ new" "map ot_params new = ?ts" by blast
  then have "\<forall>r \<in> set rs'. in_space (sweep_space Q) (ot_params r)"
    using assms(3) i by (metis (no_types, lifting) Un_iff imageI list.set_map set_append)
  moreover have "0 < sw_top_k Q \<Longrightarrow> slice_to (sw_top_k Q) (by_train_score rs' (fin @ [length rs..<length rs'])) \<noteq> []"
    using True by (intro slice_nonempty) simp_all
  ultimately show ?thesis using True tr by (simp add: refine_phase_def)
next
  case False
  with assms(3) show ?thesis by (auto simp: refine_phase_def)
qed

lemma phases_return:
  assumes "trials_return T Q sd (sweep_space Q) (plan_segments P h) D" and "0 < sw_max_trials Q"
    and "answers_choices (to_sampler T)" and "full_space (sweep_space Q)"
    and "\<exists>t. in_space (sweep_space Q) t \<and> is_valid_provider_trial (enforced_family (sweep_space Q) None) t"
  shows "\<exists>rs fin n'. run_phases T Q sd P (D, n) = Inr ((rs, fin), (D, n')) \<and> (\<forall>r \<in> set rs. in_space (sweep_space Q) (ot_params r))
    \<and> (\<not> sw_optuna Q \<and> 0 < sw_top_k Q \<longrightarrow> fin \<noteq> [])"
proof -
  obtain rs n1 where tr: "train_phase T Q sd P (D, n) = Inr (rs, (D, n1))"
    and i: "\<forall>r \<in> set rs. in_space (sweep_space Q) (ot_params r)" and ne: "\<not> sw_optuna Q \<longrightarrow> rs \<noteq> []"
    using train_phase_returns [OF assms] by blast
  let ?fin = "slice_to (min (sw_top_k Q) (int (length rs))) (by_train_score rs [0..<length rs])"
  have s: "set ?fin \<subseteq> {..<length rs}" using slice_facts(1) by fastforce
  have f: "\<not> sw_optuna Q \<and> 0 < sw_top_k Q \<Longrightarrow> ?fin \<noteq> []"
    using ne by (intro slice_nonempty) auto
  obtain rs1 fin n2 where rf: "refine_phase T Q sd P rs ?fin (D, n1) = Inr ((rs1, fin), (D, n2))"
    and i1: "\<forall>r \<in> set rs1. in_space (sweep_space Q) (ot_params r)" and ne1: "0 < sw_top_k Q \<and> ?fin \<noteq> [] \<longrightarrow> fin \<noteq> []"
    using refine_phase_returns [OF assms(1,2) i s] by blast
  have "set fin \<subseteq> {..<length rs1}"
  proof -
    have "distinct ?fin" by (rule slice_facts(2)) simp
    moreover have "0 \<le> sw_top_k Q \<Longrightarrow> length ?fin \<le> nat (sw_top_k Q)"
      by (rule order.trans [OF slice_facts(3) nat_mono]) simp_all
    ultimately show ?thesis using refined_finalists [OF rf train_phase_untested [OF tr] _ s] by simp
  qed
  from tests_return [OF assms(1) i1 this, of n2] obtain rs2 n3 where
    "for_each (test_one T Q sd P) fin (rs1, (D, n2)) = Inr (rs2, (D, n3))" "\<forall>r \<in> set rs2. in_space (sweep_space Q) (ot_params r)" by blast
  with tr rf f ne1 show ?thesis by (simp add: run_phases_def)
qed

text \<open>A trial of a sweep over a file returns.\<close>

lemma trial_returns:
  assumes "env_distinct (to_env T)" and "path \<noteq> []"
    and "csv_open (jd_csv D path) (nonempty_or (Some (sw_symbol Q)) (jd_default_symbol D))
      (nonempty_or (Some (sw_timeframe Q)) (jd_default_timeframe D)) = Inr data"
    and "compute_min_lookback_bars (cf_features (jd_config D))
      < int (length (filter (\<lambda>r. midnight (fst seg) \<le> fst r \<and> fst r \<le> midnight (snd seg)) (csv_df data)))"
    and "job_providers (trial_request T Q (Csv_source, Some path) (jd_config D) t seg) D = Inr pvs"
    and "willing (to_env T) (job_runtime (to_compute T) (trial_request T Q (Csv_source, Some path) (jd_config D) t seg) D data pvs)"
    and "sw_capital Q \<noteq> 0"
  shows "\<exists>so n'. run_trial T Q (Csv_source, Some path) t seg (D, n) = Inr (so, (D, n'))"
proof -
  let ?J = "trial_request T Q (Csv_source, Some path) (jd_config D) t seg"
  let ?rs = "filter (\<lambda>r. midnight (fst seg) \<le> fst r \<and> fst r \<le> midnight (snd seg)) (csv_df data)"
  have J: "jr_source ?J = Csv_source" "jr_start ?J = Some (midnight (fst seg))" "jr_end ?J = Some (midnight (snd seg))"
    "resolve_csv D (jr_csv_path ?J) = Inr path" "jr_symbol ?J = Some (sw_symbol Q)" "jr_timeframe ?J = Some (sw_timeframe Q)"
    "0 \<le> lim_max_open_positions (case effective_limits ?J of None \<Rightarrow> default_limits | Some l \<Rightarrow> l)" "jr_capital ?J \<noteq> 0"
    using assms(2,7) by (simp_all add: trial_request_def resolve_csv_def effective_limits_def default_limits_def)
  have srt: "sorted (map fst (csv_df data))" using csv_open_facts [OF assms(3)] by simp
  have ts: "csv_timestamps data (csv_symbol data) (csv_timeframe data) (midnight (fst seg)) (midnight (snd seg)) = Inr (map fst ?rs)"
    using timestamps_filter [OF srt, of "csv_symbol data" "csv_timeframe data"] by simp
  have "compute_min_lookback_bars (cf_features (jd_config D)) < int (length (map fst ?rs))" using assms(4) by simp
  from job_runs [OF assms(1) J(1-4) assms(3) [folded J(5,6)] ts this assms(5,6) J(7,8), of n] obtain vr q
    where "run_validation_job (to_env T) (to_compute T) ?J D n = Inr (vr, q, D)" by blast
  then show ?thesis by (simp add: run_trial_def)
qed

lemma sweep_comes_back:
  assumes "env_distinct (to_env T)" and "sw_source Q = Csv_source" and "sw_csv_path Q = Some path" and "path \<noteq> []"
    and "csv_open (jd_csv D path) (nonempty_or (Some (sw_symbol Q)) (jd_default_symbol D))
      (nonempty_or (Some (sw_timeframe Q)) (jd_default_timeframe D)) = Inr data"
    and "split_holdout (sw_start Q) (sw_end Q) (sw_holdout_ratio Q) = Inr (opt, holdout)" and "plan_ranges Q opt = Inr P"
    and "\<forall>seg \<in> plan_segments P holdout. compute_min_lookback_bars (cf_features (jd_config D))
      < int (length (filter (\<lambda>r. midnight (fst seg) \<le> fst r \<and> fst r \<le> midnight (snd seg)) (csv_df data)))"
    and "0 < sw_max_trials Q" and "sw_capital Q \<noteq> 0" and "answers_choices (to_sampler T)" and "full_space (sweep_space Q)"
    and "\<exists>t. in_space (sweep_space Q) t \<and> is_valid_provider_trial (enforced_family (sweep_space Q) None) t"
    and "\<forall>t seg. in_space (sweep_space Q) t \<longrightarrow>
      (\<exists>pvs. job_providers (trial_request T Q (Csv_source, Some path) (jd_config D) t seg) D = Inr pvs
        \<and> willing (to_env T) (job_runtime (to_compute T) (trial_request T Q (Csv_source, Some path) (jd_config D) t seg) D data pvs))"
  shows "\<exists>R n'. run_optimization T Q (D, n) = Inr (R, (D, n'))
    \<and> (\<not> sw_optuna Q \<and> 0 < sw_top_k Q \<longrightarrow> or_best_valid R \<or> or_fallback R \<noteq> None)"
proof -
  let ?sd = "(Csv_source, Some path)"
  have ret: "trials_return T Q ?sd (sweep_space Q) (plan_segments P holdout) D"
    unfolding trials_return_def
  proof (intro allI impI)
    fix t seg n assume t: "in_space (sweep_space Q) t" and seg: "seg \<in> plan_segments P holdout"
    from assms(14) t obtain pvs where "job_providers (trial_request T Q ?sd (jd_config D) t seg) D = Inr pvs"
      "willing (to_env T) (job_runtime (to_compute T) (trial_request T Q ?sd (jd_config D) t seg) D data pvs)" by blast
    from trial_returns [OF assms(1,4,5) bspec [OF assms(8) seg] this assms(10)]
    show "\<exists>so n'. run_trial T Q ?sd t seg (D, n) = Inr (so, (D, n'))" .
  qed
  obtain rs fin n1 where ph: "run_phases T Q ?sd P (D, n) = Inr ((rs, fin), (D, n1))"
    and i: "\<forall>r \<in> set rs. in_space (sweep_space Q) (ot_params r)" and ne: "\<not> sw_optuna Q \<and> 0 < sw_top_k Q \<longrightarrow> fin \<noteq> []"
    using phases_return [OF ret assms(9,11-13)] by blast
  obtain chosen pick where sel: "select_best (sw_min_trades Q) (sw_min_return Q) (map ((!) rs) fin) = (chosen, pick)" by fastforce
  let ?trials = "update_at fin chosen rs"
  let ?best = "map_option ((!) fin) pick"
  note f = phases_done [OF ph]
  have c: "length ?trials = length rs" "\<forall>i. ?best = Some i \<longrightarrow> i \<in> set fin" "\<forall>i < length rs. ot_params (?trials ! i) = ot_params (rs ! i)"
    using choice_facts [OF _ _ _ sel refl refl] f by blast+
  have "\<exists>x n2. run_holdout T Q ?sd holdout (map_option ((!) ?trials) ?best) (D, n1) = Inr (x, (D, n2))"
  proof (cases "\<exists>i h. ?best = Some i \<and> holdout = Some h")
    case True
    then obtain j h where b: "?best = Some j" "holdout = Some h" by blast
    with c(2) f have j: "j < length rs" by auto
    with c(3) i have "in_space (sweep_space Q) (ot_params (?trials ! j))" by simp
    with ret b(2) obtain so n2 where "run_trial T Q ?sd (ot_params (?trials ! j)) h (D, n1) = Inr (so, (D, n2))"
      unfolding trials_return_def by (metis plan_segments_simps(5))
    with b(2) show ?thesis unfolding b(1) by (simp add: run_holdout_def)
  next
    case False
    then show ?thesis by (auto simp: run_holdout_def split: option.splits)
  qed
  then obtain checked n2 where ho: "run_holdout T Q ?sd holdout (map_option ((!) ?trials) ?best) (D, n1) = Inr (checked, (D, n2))" by blast
  have pre: "prefetch Q D = Inr (?sd, D)" using assms(2,3) by (simp add: prefetch_def)
  have "\<exists>R. run_optimization T Q (D, n) = Inr (R, (D, Suc n2)) \<and> or_trials R = ?trials \<and> or_best R = ?best
      \<and> (or_best_valid R \<or> or_fallback R = most_traded ?trials fin)"
    using assms(6,7) pre ph sel ho by (simp add: run_optimization_def Let_def split: option.split)
  then obtain R where R: "run_optimization T Q (D, n) = Inr (R, (D, Suc n2))"
    and fb: "or_best_valid R \<or> or_fallback R = most_traded ?trials fin" by blast
  have "\<not> sw_optuna Q \<and> 0 < sw_top_k Q \<longrightarrow> or_best_valid R \<or> or_fallback R \<noteq> None"
    using fb ne by (auto simp: most_traded_def)
  with R show ?thesis by blast
qed



subsection \<open>What the ranges share\<close>

lemma midnight_mono: "a \<le> b \<Longrightarrow> midnight a \<le> midnight b"
  by (simp add: midnight_def date_of_def zdiv_mono1)

lemma midnight_le: "midnight t \<le> t"
  by (simp add: midnight_def date_of_def)

text \<open>The bars a trial simulates on a range: those the job loads for its dates, less the lookback bars
  the harness skips.\<close>

definition simulated_bars ::
  "'s sweep_tools \<Rightarrow> sweep \<Rightarrow> sweep_data \<Rightarrow> job_disk \<Rightarrow> string \<Rightarrow> csv_provider \<Rightarrow> provider list \<Rightarrow> trial_params \<Rightarrow> segment
   \<Rightarrow> datetime list result" where
  "simulated_bars T Q sd D path data pvs t seg =
     (let J = trial_request T Q sd (jd_config D) t seg
      in and_then (csv_timestamps data (csv_symbol data) (csv_timeframe data) (the (jr_start J)) (the (jr_end J))) (\<lambda>ts.
         if ts = [] then Inl (ValueError ''No bars in range'')
         else validation_bars (job_harness (to_compute T) J D path data pvs ts)))"

text \<open>They are the bars its cycles run on.\<close>

lemma trial_runs_simulated:
  assumes "run_trial T Q sd t seg (D, n) = Inr r"
  shows "\<exists>path data pvs ts bars p q. simulated_bars T Q sd D path data pvs t seg = Inr bars
    \<and> run_bars (to_env T) (job_harness (to_compute T) (trial_request T Q sd (jd_config D) t seg) D path data pvs ts) False 0 bars
        (p, [], new_engine_acc) = Inr q"
proof -
  let ?J = "trial_request T Q sd (jd_config D) t seg"
  have J: "jr_start ?J = Some (midnight (fst seg))" "jr_end ?J = Some (midnight (snd seg))" "\<not> jr_persist_db ?J"
    "jr_symbol ?J = Some (sw_symbol Q)" "jr_timeframe ?J = Some (sw_timeframe Q)"
    by (simp_all add: trial_request_def)
  from assms obtain vr q D' where "run_validation_job (to_env T) (to_compute T) ?J D n = Inr (vr, q, D')"
    by (auto simp: run_trial_def and_then_Inr_iff split: prod.splits)
  then obtain path found D1 data ts pvs where
    o: "csv_open found (nonempty_or (jr_symbol ?J) (jd_default_symbol D)) (nonempty_or (jr_timeframe ?J) (jd_default_timeframe D)) = Inr data"
    and ts: "csv_timestamps data (nonempty_or (jr_symbol ?J) (jd_default_symbol D)) (nonempty_or (jr_timeframe ?J) (jd_default_timeframe D))
      (midnight (fst seg)) (midnight (snd seg)) = Inr ts" "ts \<noteq> []"
    and run: "run_validation (to_env T) (job_harness (to_compute T) ?J D path data pvs ts) False
      (job_platform (to_env T) ?J (hd ts) (Suc (Suc n))) = Inr (vr, q)"
    using J by (auto simp: run_validation_job_def Let_def and_then_Inr_iff split: if_splits prod.splits)
  have ts': "csv_timestamps data (csv_symbol data) (csv_timeframe data) (midnight (fst seg)) (midnight (snd seg)) = Inr ts"
    using ts(1) csv_open_facts [OF o] by simp
  from run obtain bars p2 where
    "validation_bars (job_harness (to_compute T) ?J D path data pvs ts) = Inr bars"
    "run_bars (to_env T) (job_harness (to_compute T) ?J D path data pvs ts) False 0 bars
      ((job_platform (to_env T) ?J (hd ts) (Suc (Suc n)))\<lparr>pl_tick := Suc (pl_tick (job_platform (to_env T) ?J (hd ts) (Suc (Suc n)))),
        pl_bus := ha_clear (job_harness (to_compute T) ?J D path data pvs ts) (pl_bus (job_platform (to_env T) ?J (hd ts) (Suc (Suc n))))\<rparr>,
       [], new_engine_acc) = Inr p2"
    by (auto simp: run_validation_def Let_def and_then_Inr_iff)
  moreover from this(1) have "simulated_bars T Q sd D path data pvs t seg = Inr bars"
    using ts' ts(2) J by (simp add: simulated_bars_def Let_def)
  ultimately show ?thesis by blast
qed

lemma simulated_rows:
  assumes "simulated_bars T Q sd D path data pvs t seg = Inr bars" and "sorted (map fst (csv_df data))"
  shows "bars = drop (nat (compute_min_lookback_bars (cf_features (jd_config D))))
    (map fst (filter (\<lambda>r. midnight (fst seg) \<le> fst r \<and> fst r \<le> midnight (snd seg)) (csv_df data)))"
proof -
  let ?J = "trial_request T Q sd (jd_config D) t seg"
  have J: "jr_start ?J = Some (midnight (fst seg))" "jr_end ?J = Some (midnight (snd seg))"
    by (simp_all add: trial_request_def)
  from assms(1) J obtain ts where
    ts: "csv_timestamps data (csv_symbol data) (csv_timeframe data) (midnight (fst seg)) (midnight (snd seg)) = Inr ts" "ts \<noteq> []"
    and v: "validation_bars (job_harness (to_compute T) ?J D path data pvs ts) = Inr bars"
    by (auto simp: simulated_bars_def Let_def and_then_Inr_iff split: if_splits)
  have "bars = drop (nat (compute_min_lookback_bars (cf_features (jd_config D)))) ts"
    using v same_timestamps(3) [OF ts(1,2) assms(2)]
    by (simp add: validation_bars_def job_harness_def Let_def split: if_splits)
  with ts(1) timestamps_filter [OF assms(2), of "csv_symbol data" "csv_timeframe data" "midnight (fst seg)" "midnight (snd seg)"]
  show ?thesis by simp
qed

lemma skipped_rows_below:
  assumes "sorted (xs :: int list)" and "distinct xs" and "\<forall>x \<in> set xs. m \<le> x" and "0 < k" and "y \<in> set (drop k xs)"
  shows "m < y"
proof -
  from assms(5) obtain i where "i < length (drop k xs)" "y = drop k xs ! i" by (auto simp only: in_set_conv_nth)
  then have i: "k + i < length xs" "y = xs ! (k + i)" by simp_all
  have ne: "xs \<noteq> []" using i by auto
  then have "xs ! 0 \<le> y" "xs ! 0 \<noteq> y"
    using i assms(1,2,4) sorted_nth_mono [of xs 0 "k + i"] nth_eq_iff_index_eq [of xs 0 "k + i"] by auto
  moreover have "m \<le> xs ! 0" using assms(3) ne by (simp add: hd_conv_nth [symmetric])
  ultimately show ?thesis by simp
qed



subsection \<open>What a trial knows of its trades\<close>

lemma quiet_trial:
  assumes "run_trial T Q sd t seg w = Inr ((score, m), w')"
  shows "rg_by_regime (oc_regime m) = [] \<and> rg_by_confidence (oc_regime m) = []
    \<and> rg_unattributed (oc_regime m) = oc_total_trades m \<and> fsu_total_losses (oc_failures m) = 0"
proof -
  obtain D n where w: "w = (D, n)" by (cases w)
  let ?J = "trial_request T Q sd (jd_config D) t seg"
  from assms obtain vr q D' where "run_validation_job (to_env T) (to_compute T) ?J D n = Inr (vr, q, D')"
    and m: "m = vr_outcome_metrics vr" by (auto simp: run_trial_def w)
  moreover have "\<not> emit_all ?J" by (simp add: emit_all_def trial_request_def)
  ultimately show ?thesis using quiet_job_figures unfolding m by blast
qed

lemma holdout_is_quiet:
  assumes "run_optimization T Q w = Inr (R, w')" and "or_holdout_outcome R = Some m"
  shows "rg_by_regime (oc_regime m) = []"
proof -
  obtain D n opt sd D1 P rs fin w1 chosen pick checked D2 n2 where
    "run_holdout T Q sd (or_holdout R) (map_option ((!) (or_trials R)) (or_best R)) w1 = Inr (checked, (D2, n2))"
    "or_holdout_outcome R = map_option snd checked"
    using assms(1) by (rule sweep_parts)
  with assms(2) obtain score where "run_holdout T Q sd (or_holdout R) (map_option ((!) (or_trials R)) (or_best R)) w1
      = Inr (Some (score, m), (D2, n2))" by auto
  then obtain b :: trial_result and h w2 where "run_trial T Q sd (ot_params b) h w1 = Inr ((score, m), w2)"
    by (auto simp: run_holdout_def split: option.splits)
  from quiet_trial [OF this] show ?thesis by simp
qed


subsection \<open>A concrete sweep\<close>

definition daily_bars :: frame where
  "daily_bars = map (\<lambda>t. (t, demo_candle)) [0, 86400000000, 172800000000, 259200000000, 345600000000, 432000000000, 518400000000, 604800000000, 691200000000, 777600000000, 864000000000, 950400000000, 1036800000000]"

definition daily_disk :: job_disk where
  "daily_disk = demo_disk\<lparr>jd_csv := (\<lambda>p. Some (required_columns, daily_bars))\<rparr>"

definition daily_file :: csv_provider where
  "daily_file = \<lparr>csv_symbol = ''BTC'', csv_timeframe = ''1h'', csv_df = daily_bars\<rparr>"

definition demo_sweep :: sweep where
  "demo_sweep = \<lparr>sw_symbol = ''BTC'', sw_timeframe = ''1h'', sw_start = 0, sw_end = 1036800000000, sw_source = Csv_source,
     sw_capital = 10000, sw_train_ratio = 2/3, sw_max_trials = 2, sw_top_k = 1, sw_space = Some demo_space,
     sw_csv_path = Some ''f.csv'', sw_min_trades = 0, sw_min_return = - 100, sw_holdout_ratio = 1/4, sw_windows = 1,
     sw_anchored = True, sw_refine = True, sw_optuna = False, sw_min_trades_holdout = Some 0, sw_parallel = 1\<rparr>"

definition demo_tools :: "unit sweep_tools" where
  "demo_tools = \<lparr>to_env = unary_env, to_compute = (\<lambda>d df. Inr 1), to_revision = (\<lambda>t. ''r''), to_digest = (\<lambda>fp. ''h''),
     to_draw = (\<lambda>n. 0), to_sampler = first_choice, to_study = (), to_show = (\<lambda>x. ''0''), to_show2 = (\<lambda>x. ''0.00'')\<rparr>"

lemma space_num:
  assumes "in_space sp t" and "k \<in> set (keys_before @ keys_after)"
  shows "trial_num t k d \<in> set (space_values sp k)"
proof -
  from assms have "k \<in> set (map fst (tp_nums t))" by (simp only: in_space_def)
  then obtain v where "(k, v) \<in> set (tp_nums t)" by auto
  moreover from this obtain v' where v': "map_of (tp_nums t) k = Some v'" by (metis option.exhaust weak_map_of_SomeI)
  ultimately have "v' \<in> set (space_values sp k)" using assms(1) map_of_SomeD [OF v'] by (auto simp: in_space_def)
  with v' show ?thesis by (simp add: trial_num_def dict_get_or_def)
qed

lemma demo_segments:
  "split_holdout (sw_start demo_sweep) (sw_end demo_sweep) (sw_holdout_ratio demo_sweep)
     = Inr ((0, 777600000000), Some (777600000000, 1036800000000))"
  "split_train_test 0 777600000000 (sw_train_ratio demo_sweep) = Inr ((0, 518400000000), (518400000000, 777600000000))"
  by (simp_all add: split_holdout_def split_train_test_def span_scaled_def demo_sweep_def)

lemma demo_plan:
  "plan_ranges demo_sweep (0, 777600000000) = Inr \<lparr>pn_train_folds = [], pn_test_folds = [], pn_train = (0, 518400000000),
     pn_test = (518400000000, 777600000000)\<rparr>"
  using demo_segments(2) by (simp add: plan_ranges_def) (simp add: demo_sweep_def)

lemma daily_open:
  "csv_open (jd_csv daily_disk ''f.csv'') (nonempty_or (Some (sw_symbol demo_sweep)) (jd_default_symbol daily_disk))
     (nonempty_or (Some (sw_timeframe demo_sweep)) (jd_default_timeframe daily_disk)) = Inr daily_file"
proof -
  have "sort_frame daily_bars = daily_bars" by (rule sort_frame_id) (simp add: daily_bars_def)
  then show ?thesis
    by (simp add: csv_open_def csv_load_def daily_disk_def nonempty_or_def filter_empty_conv demo_sweep_def)
      (simp add: daily_file_def daily_bars_def)
qed

lemma demo_engine_of_trial:
  assumes "in_space demo_space t"
  shows "engine_config_valid (build_engine_config_from_trial t demo_engine_config)"
proof -
  have v: "trial_num t k d \<in> set (demo_values k)" if "k \<in> set (keys_before @ keys_after)" for k d
    using space_num [OF assms that] demo_space_values [OF that] by simp
  have "''max_signals_per_day'' \<in> set keys_after" by code_simp
  then have k: "''min_agreeing_providers'' \<in> set (keys_before @ keys_after)" "''max_signals_per_day'' \<in> set (keys_before @ keys_after)"
    "''min_risk_reward'' \<in> set (keys_before @ keys_after)" "''min_atr_pct'' \<in> set (keys_before @ keys_after)"
    "''min_confidence'' \<in> set (keys_before @ keys_after)" by (simp_all add: key_lists(1))
  have "trial_num t ''min_agreeing_providers'' d = 1" "trial_num t ''max_signals_per_day'' d = 1"
    "trial_num t ''min_risk_reward'' d = 1" "trial_num t ''min_atr_pct'' d = 1"
    "0 \<le> trial_num t ''min_confidence'' d \<and> trial_num t ''min_confidence'' d \<le> 1" for d
    using v [OF k(1), of d] v [OF k(2), of d] v [OF k(3), of d] v [OF k(4), of d] v [OF k(5), of d]
    by (auto simp: demo_values_def)
  then show ?thesis
    by (auto simp: build_engine_config_from_trial_def engine_config_valid_def aggregation_config_valid_def risk_config_valid_def
        demo_engine_config_def demo_agg_config_def trial_int_def py_int_def)
qed

abbreviation demo_request :: "trial_params \<Rightarrow> segment \<Rightarrow> job_request" where
  "demo_request t seg \<equiv> trial_request demo_tools demo_sweep (Csv_source, Some ''f.csv'') (jd_config daily_disk) t seg"

lemma demo_trial_features:
  assumes "df \<noteq> []"
  shows "\<exists>x. build_features unary_env (\<lambda>d df. Inr 1) (fst (job_features (demo_request t seg) daily_disk)) hash df sy tf pt ps (st, n) = Inr x"
  using assms
  by (simp add: build_features_def job_features_def trial_request_def daily_disk_def demo_disk_def demo_config_files_def
      build_features_config_from_trial_def normalize_ohlcv_def demo_features_def period_only_def Let_def derive_context_cases
      tuned_indicator_def [of _ "\<lparr>ind_name = ''ema_12'', ind_type = x, ind_params = y\<rparr>" for x y]
      tuned_indicator_def [of _ "\<lparr>ind_name = ''ema_26'', ind_type = x, ind_params = y\<rparr>" for x y]
      tuned_indicator_def [of _ "\<lparr>ind_name = ''atr_14'', ind_type = x, ind_params = y\<rparr>" for x y]
      tuned_family_def macd_names_def adx_names_def bb_names_def st_names_def vol_names_def ms_names_def)

lemma demo_trial_willing:
  assumes "in_space demo_space t"
  shows "job_providers (demo_request t seg) daily_disk = Inr []
    \<and> willing (to_env demo_tools) (job_runtime (to_compute demo_tools) (demo_request t seg) daily_disk daily_file [])"
proof
  show "job_providers (demo_request t seg) daily_disk = Inr []"
    by (simp add: job_providers_def trial_request_def daily_disk_def demo_disk_def build_providers_from_overrides_def discover_provider_configs_def)
  let ?R = "job_runtime (\<lambda>d df. Inr 1) (demo_request t seg) daily_disk daily_file []"
  have "rt_compute ?R = (\<lambda>d df. Inr 1)" "rt_features ?R = fst (job_features (demo_request t seg) daily_disk)" "rt_providers ?R = []"
    "rt_engine ?R = build_engine_config_from_trial t demo_engine_config" "rt_publish ?R = job_publish (logged_families (demo_request t seg))"
    by (simp_all add: job_runtime_def trial_request_def daily_disk_def demo_disk_def demo_config_files_def)
  with demo_engine_of_trial [OF assms] demo_trial_features
  show "willing (to_env demo_tools) (job_runtime (to_compute demo_tools) (demo_request t seg) daily_disk daily_file [])"
    by (simp add: willing_def cooperative_def demo_tools_def job_publish_eq)
qed

lemma demo_lookback: "compute_min_lookback_bars (cf_features (jd_config daily_disk)) = 2"
  using demo_job_facts(3) by (simp add: daily_disk_def)

lemma demo_valid_trial:
  "\<exists>t. in_space (sweep_space demo_sweep) t \<and> is_valid_provider_trial (enforced_family (sweep_space demo_sweep) None) t"
proof -
  have "space_combos demo_space \<noteq> []" using demo_space_size by auto
  then obtain t where t: "in_space demo_space t" by (metis combo_in_space last_in_set)
  have "length (space_values demo_space k) = 1" if "k \<in> set provider_enabled_keys" for k
  proof -
    have "set provider_enabled_keys \<subseteq> set keys_after \<and> ''min_confidence'' \<notin> set provider_enabled_keys
        \<and> ''sl_atr_mult'' \<notin> set provider_enabled_keys" by code_simp
    with that have "k \<in> set (keys_before @ keys_after)" "k \<noteq> ''min_confidence''" "k \<noteq> ''sl_atr_mult''" by auto
    from this demo_space_values [OF this(1)] show ?thesis by (simp add: demo_values_def)
  qed
  then have "filter (\<lambda>k. length (space_values demo_space k) > 1) provider_enabled_keys = []"
    by (auto simp: filter_empty_conv)
  then have "\<not> enforced_family demo_space None" by (simp add: enforced_family_def space_requires_family_filter_def)
  with t show ?thesis
    by (intro exI [of _ t]) (simp add: sweep_space_def demo_sweep_def is_valid_provider_trial_def demo_ema)
qed

lemma demo_enough_bars:
  assumes "seg \<in> plan_segments \<lparr>pn_train_folds = [], pn_test_folds = [], pn_train = (0, 518400000000),
     pn_test = (518400000000, 777600000000)\<rparr> (Some (777600000000, 1036800000000))"
  shows "2 < int (length (filter (\<lambda>r. midnight (fst seg) \<le> fst r \<and> fst r \<le> midnight (snd seg)) (csv_df daily_file)))"
proof -
  have m: "midnight 0 = 0" "midnight 518400000000 = 518400000000" "midnight 777600000000 = 777600000000"
    "midnight 1036800000000 = 1036800000000" by (simp_all add: midnight_def date_of_def)
  from assms consider "seg = (0, 518400000000)" | "seg = (518400000000, 777600000000)" | "seg = (777600000000, 1036800000000)"
    unfolding plan_segments_def by (simp only: sweep_plan.simps list.set option.set Un_iff insert_iff empty_iff) blast
  then show ?thesis by cases (simp_all only: fst_conv snd_conv m, simp_all add: daily_file_def daily_bars_def)
qed

lemma demo_plain_sweep:
  "sw_source demo_sweep = Csv_source" "sw_csv_path demo_sweep = Some ''f.csv''" "0 < sw_max_trials demo_sweep"
  "sw_capital demo_sweep \<noteq> 0" "answers_choices (to_sampler demo_tools)" "full_space (sweep_space demo_sweep)"
  "env_distinct (to_env demo_tools)" "sweep_space demo_sweep = demo_space"
  by (simp_all add: demo_sweep_def demo_tools_def first_choice_answers demo_full sweep_space_def)

lemma demo_sweep_trials:
  "\<forall>t seg. in_space (sweep_space demo_sweep) t \<longrightarrow> (\<exists>pvs. job_providers (demo_request t seg) daily_disk = Inr pvs
      \<and> willing (to_env demo_tools) (job_runtime (to_compute demo_tools) (demo_request t seg) daily_disk daily_file pvs))"
  using demo_trial_willing unfolding demo_plain_sweep(8) by blast

lemma demo_sweep_bars:
  "\<forall>seg \<in> plan_segments \<lparr>pn_train_folds = [], pn_test_folds = [], pn_train = (0, 518400000000),
     pn_test = (518400000000, 777600000000)\<rparr> (Some (777600000000, 1036800000000)).
     compute_min_lookback_bars (cf_features (jd_config daily_disk))
      < int (length (filter (\<lambda>r. midnight (fst seg) \<le> fst r \<and> fst r \<le> midnight (snd seg)) (csv_df daily_file)))"
  unfolding demo_lookback using demo_enough_bars by blast


lemma demo_result:
  obtains R n' where "run_optimization demo_tools demo_sweep (daily_disk, 0) = Inr (R, (daily_disk, n'))"
    and "or_best_valid R \<or> or_fallback R \<noteq> None"
  using sweep_comes_back [OF demo_plain_sweep(7,1,2) _ daily_open demo_segments(1) demo_plan demo_sweep_bars demo_plain_sweep(3-6)
      demo_valid_trial demo_sweep_trials, of 0] by (auto simp: demo_sweep_def)

theorem sweep_selects_soundly_witness:
  "\<exists>R w'. run_optimization demo_tools demo_sweep (daily_disk, 0) = Inr (R, w') \<and> (\<exists>r \<in> set (or_trials R). ot_test_outcome r \<noteq> None)
     \<and> length (filter (\<lambda>r. ot_test_outcome r \<noteq> None) (or_trials R)) \<le> 1"
proof -
  obtain R n' where r: "run_optimization demo_tools demo_sweep (daily_disk, 0) = Inr (R, (daily_disk, n'))"
    and named: "or_best_valid R \<or> or_fallback R \<noteq> None" by (rule demo_result)
  note s = sweep_selects_soundly [OF r]
  have k: "sw_top_k demo_sweep = 1" by (simp add: demo_sweep_def)
  have "\<exists>r \<in> set (or_trials R). ot_test_outcome r \<noteq> None"
    using named s by (auto simp: passes_gates_def)
  with r s show ?thesis unfolding k by auto
qed


end
