(* ===== verification/Candidates.thy ===== *)
theory Candidates
  imports OptimizationRunner
begin

text \<open>
  \<^verbatim>\<open>backend/src/governance/\<close>: from the result of a sweep to a strategy that may go live. The checks
  a candidate is evaluated by (\<^verbatim>\<open>candidate_evaluator.py\<close>), the store of candidates and evaluations
  with its transitions (\<^verbatim>\<open>candidate_store.py\<close>), the stores of experiments, runs and revisions
  the others ask (\<^verbatim>\<open>experiment_store.py\<close>, \<^verbatim>\<open>revision_store.py\<close>) and the gate in front
  of live trading (\<^verbatim>\<open>live_gate.py\<close>). A table is the list of its rows in insertion order; a flush
  fails on a duplicate key; rows with the same time keep that order in a query. A row and the
  object read from it have the same fields and are one record.
\<close>


subsection \<open>The checks (candidate_evaluator.py)\<close>

record candidate_check =
  cc_name :: string
  cc_passed :: bool
  cc_detail :: string
  cc_current :: "real option"
  cc_threshold :: "real option"

definition min_trades_for_regime_check :: int where
  "min_trades_for_regime_check = 20"

definition max_single_regime_share :: real where
  "max_single_regime_share = 8/10"

definition check_out_of_sample :: "optimization_result \<Rightarrow> candidate_check" where
  "check_out_of_sample R = \<lparr>cc_name = ''out_of_sample'', cc_passed = or_holdout_valid R,
     cc_detail = (if or_holdout_valid R then ''Holdout period met minimum trades and return thresholds''
       else ''Holdout period failed minimum trades/return thresholds (see OptimizationResult.selection_message for the exact numbers)''),
     cc_current = None, cc_threshold = None\<rparr>"

definition holdout_trades :: "optimization_result \<Rightarrow> nat" where
  "holdout_trades R = (case or_holdout_outcome R of None \<Rightarrow> 0 | Some m \<Rightarrow> oc_total_trades m)"

definition check_minimum_sample :: "optimization_result \<Rightarrow> candidate_check" where
  "check_minimum_sample R = \<lparr>cc_name = ''minimum_sample'', cc_passed = int (holdout_trades R) \<ge> min_trades_for_regime_check,
     cc_detail = show_nat (holdout_trades R) @ '' holdout trades'', cc_current = Some (of_nat (holdout_trades R)),
     cc_threshold = Some (of_int min_trades_for_regime_check)\<rparr>"

text \<open>The text of a float with two decimals, and as a percentage, are parameters.\<close>

definition check_fold_stability :: "(real \<Rightarrow> string) \<Rightarrow> optimization_result \<Rightarrow> candidate_check" where
  "check_fold_stability show2 R =
     (case (case or_best R of Some i \<Rightarrow> Some i | None \<Rightarrow> or_fallback R) of
        None \<Rightarrow> \<lparr>cc_name = ''fold_stability'', cc_passed = False,
          cc_detail = ''not_evaluated: no walk-forward folds were run for this candidate'', cc_current = None, cc_threshold = None\<rparr>
      | Some i \<Rightarrow>
          (case ot_fold_std (or_trials R ! i) of
             None \<Rightarrow> \<lparr>cc_name = ''fold_stability'', cc_passed = False,
               cc_detail = ''not_evaluated: no walk-forward folds were run for this candidate'', cc_current = None, cc_threshold = None\<rparr>
           | Some dev \<Rightarrow>
               (let scores = ot_fold_scores (or_trials R ! i); threshold = \<bar>mean_score scores\<bar> * (1/2) + 5
                in \<lparr>cc_name = ''fold_stability'', cc_passed = dev \<le> threshold,
                     cc_detail = ''fold_std='' @ show2 dev @ '' across '' @ show_nat (length scores) @ '' folds'',
                     cc_current = Some dev, cc_threshold = Some threshold\<rparr>)))"

definition check_regime_concentration :: "(real \<Rightarrow> string) \<Rightarrow> optimization_result \<Rightarrow> candidate_check" where
  "check_regime_concentration show_pct R =
     (let by_regime = (case or_holdout_outcome R of None \<Rightarrow> [] | Some m \<Rightarrow> rg_by_regime (oc_regime m));
          total = sum_list (map (\<lambda>(_, b). bk_trades b) by_regime)
      in if int total < min_trades_for_regime_check then
           \<lparr>cc_name = ''regime_concentration'', cc_passed = False,
            cc_detail = ''not_evaluated: only '' @ show_nat total @ '' attributed holdout trades'', cc_current = None, cc_threshold = None\<rparr>
         else
           (let share = Max (set (map (\<lambda>(_, b). of_nat (bk_trades b) / of_nat total) by_regime))
            in \<lparr>cc_name = ''regime_concentration'', cc_passed = share \<le> max_single_regime_share,
                 cc_detail = ''largest single regime accounts for '' @ show_pct share @ '' of holdout trades'',
                 cc_current = Some share, cc_threshold = Some max_single_regime_share\<rparr>))"

datatype verdict = Accepted | Rejected_verdict

definition evaluate_candidate ::
  "(real \<Rightarrow> string) \<Rightarrow> (real \<Rightarrow> string) \<Rightarrow> optimization_result \<Rightarrow> candidate_check list \<times> verdict \<times> string" where
  "evaluate_candidate show2 show_pct R =
     (let checks = [check_out_of_sample R, check_minimum_sample R, check_fold_stability show2 R, check_regime_concentration show_pct R]
      in if list_all cc_passed checks then (checks, Accepted, ''All checks passed.'')
         else (checks, Rejected_verdict,
           ''Failed: '' @ join_with '', '' (map cc_name (filter (\<lambda>c. \<not> cc_passed c) checks))))"


subsection \<open>The tables\<close>

datatype candidate_state = Candidate_state | Challenger | Champion | Rejected | Archived

definition state_name :: "candidate_state \<Rightarrow> string" where
  "state_name s = (case s of Candidate_state \<Rightarrow> ''candidate'' | Challenger \<Rightarrow> ''challenger'' | Champion \<Rightarrow> ''champion''
     | Rejected \<Rightarrow> ''rejected'' | Archived \<Rightarrow> ''archived'')"

record candidate =
  cd_id :: string
  cd_experiment_id :: string
  cd_hypothesis_id :: "string option"
  cd_parent_id :: "string option"
  cd_state :: candidate_state
  cd_created_at :: datetime

record candidate_evaluation =
  ce_id :: string
  ce_candidate_id :: string
  ce_checks :: "candidate_check list"
  ce_decision :: verdict
  ce_reason :: string
  ce_created_at :: datetime

datatype run_status = Run_running | Run_completed | Run_failed | Run_cancelled

datatype experiment_status = Draft_experiment | Running_experiment | Completed_experiment | Archived_experiment

record experiment_row =
  ex_id :: string
  ex_name :: string
  ex_description :: string
  ex_revision_id :: string
  ex_status :: experiment_status
  ex_mode :: run_mode
  ex_symbols :: "string list"
  ex_timeframes :: "string list"
  ex_date_range :: "(datetime \<times> datetime) option"
  ex_created_by :: string
  ex_tags :: "string list"
  ex_hypothesis :: "string option"
  ex_created_at :: datetime

record experiment_run =
  xr_run_id :: string
  xr_experiment_id :: string
  xr_revision_id :: string
  xr_started_at :: datetime
  xr_completed_at :: "datetime option"
  xr_status :: run_status
  xr_summary :: "(string, real) dict option"

text \<open>Of a revision its files are left out: it is known by the hashes. Of a stored backtest only
  what the gate reads is kept.\<close>

record config_revision =
  rv_id :: string
  rv_created_at :: datetime
  rv_engine_hash :: string
  rv_features_hash :: string
  rv_providers_hash :: string
  rv_fill_model_id :: "string option"
  rv_risk_hash :: string
  rv_label :: string
  rv_parent_id :: "string option"

record backtest_run =
  bt_run_id :: string
  bt_revision_id :: "string option"
  bt_total_trades :: int
  bt_completed_at :: "datetime option"

record governance_db =
  gd_candidates :: "candidate list"
  gd_evaluations :: "candidate_evaluation list"
  gd_experiments :: "experiment_row list"
  gd_runs :: "experiment_run list"
  gd_revisions :: "config_revision list"
  gd_backtests :: "backtest_run list"

definition flush :: "governance_db \<Rightarrow> governance_db result" where
  "flush db =
     (if distinct (map cd_id (gd_candidates db)) \<and> distinct (map ce_id (gd_evaluations db))
         \<and> distinct (map ex_id (gd_experiments db)) \<and> distinct (map xr_run_id (gd_runs db))
         \<and> distinct (map rv_id (gd_revisions db)) \<and> distinct (map bt_run_id (gd_backtests db))
      then Inr db else Inl (IntegrityError ''primary key''))"

definition newest_first :: "('r \<Rightarrow> datetime) \<Rightarrow> 'r list \<Rightarrow> 'r list" where
  "newest_first made_at rows = sort_key (\<lambda>r. - made_at r) rows"

text \<open>An SQL limit; none for a negative one.\<close>

definition limited :: "int \<Rightarrow> 'r list \<Rightarrow> 'r list" where
  "limited k rows = (if k < 0 then rows else take (nat k) rows)"


subsection \<open>The store of candidates (candidate_store.py)\<close>

type_synonym governance_world = "governance_db \<times> tick"

definition create_candidate ::
  "env \<Rightarrow> string \<Rightarrow> string option \<Rightarrow> string option \<Rightarrow> governance_world \<Rightarrow> (candidate \<times> governance_world) result" where
  "create_candidate E experiment_id hypothesis_id parent_id = (\<lambda>(db, n).
     let row = \<lparr>cd_id = fresh_id E ''cand_'' n, cd_experiment_id = experiment_id, cd_hypothesis_id = hypothesis_id,
           cd_parent_id = parent_id, cd_state = Candidate_state, cd_created_at = wall_clock E (Suc n)\<rparr>
     in and_then (flush (db\<lparr>gd_candidates := gd_candidates db @ [row]\<rparr>)) (\<lambda>db'. Inr (row, (db', Suc (Suc n)))))"

definition get_candidate :: "string \<Rightarrow> governance_db \<Rightarrow> candidate option" where
  "get_candidate c db = List.find (\<lambda>r. cd_id r = c) (gd_candidates db)"

definition list_candidates :: "candidate_state option \<Rightarrow> int \<Rightarrow> governance_db \<Rightarrow> candidate list" where
  "list_candidates state limit db =
     limited limit (newest_first cd_created_at
       (filter (\<lambda>r. case state of None \<Rightarrow> True | Some s \<Rightarrow> cd_state r = s) (gd_candidates db)))"

definition set_state :: "(candidate \<Rightarrow> bool) \<Rightarrow> candidate_state \<Rightarrow> governance_db \<Rightarrow> governance_db" where
  "set_state p s db = db\<lparr>gd_candidates := map (\<lambda>r. if p r then r\<lparr>cd_state := s\<rparr> else r) (gd_candidates db)\<rparr>"

definition run_candidate_evaluation ::
  "env \<Rightarrow> (real \<Rightarrow> string) \<Rightarrow> (real \<Rightarrow> string) \<Rightarrow> string \<Rightarrow> optimization_result \<Rightarrow> governance_world
   \<Rightarrow> (candidate_evaluation option \<times> governance_world) result" where
  "run_candidate_evaluation E show2 show_pct c R = (\<lambda>(db, n).
     case get_candidate c db of
       None \<Rightarrow> Inr (None, (db, n))
     | Some _ \<Rightarrow>
         (case evaluate_candidate show2 show_pct R of (checks, decision, reason) \<Rightarrow>
            let row = \<lparr>ce_id = fresh_id E ''caneval_'' n, ce_candidate_id = c, ce_checks = checks, ce_decision = decision,
                  ce_reason = reason, ce_created_at = wall_clock E (Suc n)\<rparr>;
                db1 = db\<lparr>gd_evaluations := gd_evaluations db @ [row]\<rparr>;
                db2 = (if decision = Rejected_verdict then set_state (\<lambda>r. cd_id r = c) Rejected db1 else db1)
            in and_then (flush db2) (\<lambda>db3. Inr (Some row, (db3, Suc (Suc n))))))"

definition list_candidate_evaluations :: "string \<Rightarrow> governance_db \<Rightarrow> candidate_evaluation list" where
  "list_candidate_evaluations c db =
     newest_first ce_created_at (filter (\<lambda>r. ce_candidate_id r = c) (gd_evaluations db))"

definition quoted :: "string \<Rightarrow> string" where
  "quoted s = CHR 0x27 # s @ [CHR 0x27]"

definition valid_transitions :: "candidate_state \<Rightarrow> candidate_state list" where
  "valid_transitions s = (case s of
       Candidate_state \<Rightarrow> [Challenger, Rejected, Archived]
     | Challenger \<Rightarrow> [Champion, Rejected, Archived]
     | Champion \<Rightarrow> [Archived]
     | Rejected \<Rightarrow> [Archived]
     | Archived \<Rightarrow> [])"

definition promote_candidate ::
  "string \<Rightarrow> string \<Rightarrow> bool \<Rightarrow> governance_db \<Rightarrow> (candidate option \<times> governance_db) result" where
  "promote_candidate c to_state require_accepted db =
     (case get_candidate c db of
        None \<Rightarrow> Inr (None, db)
      | Some row \<Rightarrow>
          (case List.find (\<lambda>s. state_name s = to_state) (valid_transitions (cd_state row)) of
             None \<Rightarrow> Inl (ValueError (''Cannot transition candidate from '' @ quoted (state_name (cd_state row)) @ '' to '' @ quoted to_state))
           | Some s \<Rightarrow>
               and_then
                 (if require_accepted \<and> (s = Challenger \<or> s = Champion) then
                    (let evaluations = list_candidate_evaluations c db
                     in if evaluations = [] \<or> ce_decision (hd evaluations) \<noteq> Accepted
                        then Inl (ValueError (''Cannot promote a candidate without a most-recent '' @ quoted ''accepted'' @ '' evaluation''))
                        else Inr (if s = Champion then set_state (\<lambda>r. cd_state r = Champion) Archived db else db))
                  else Inr db) (\<lambda>db1.
               and_then (flush (set_state (\<lambda>r. cd_id r = c) s db1)) (\<lambda>db2.
               Inr (Some (row\<lparr>cd_state := s\<rparr>), db2)))))"

text \<open>A candidate belongs to a revision by its experiment, if that still exists.\<close>

definition revision_candidates :: "string \<Rightarrow> governance_db \<Rightarrow> candidate list" where
  "revision_candidates rid db =
     filter (\<lambda>r. \<exists>x \<in> set (gd_experiments db). ex_id x = cd_experiment_id r \<and> ex_revision_id x = rid) (gd_candidates db)"

definition revision_has_candidate_lineage :: "string \<Rightarrow> governance_db \<Rightarrow> bool" where
  "revision_has_candidate_lineage rid db \<longleftrightarrow> revision_candidates rid db \<noteq> []"

definition revision_has_champion :: "string \<Rightarrow> governance_db \<Rightarrow> bool" where
  "revision_has_champion rid db \<longleftrightarrow> (\<exists>r \<in> set (revision_candidates rid db). cd_state r = Champion)"


subsection \<open>Experiments, runs and revisions (experiment_store.py, revision_store.py)\<close>

definition create_experiment ::
  "env \<Rightarrow> string list \<Rightarrow> string list \<Rightarrow> string \<Rightarrow> string \<Rightarrow> run_mode \<Rightarrow> string list option \<Rightarrow> string list option
   \<Rightarrow> string \<Rightarrow> string option \<Rightarrow> governance_world \<Rightarrow> (experiment_row \<times> governance_world) result" where
  "create_experiment E default_symbols default_timeframes rid name mode symbs tfs descr hyp = (\<lambda>(db, n).
     let row = \<lparr>ex_id = fresh_id E ''exp_'' n, ex_name = name, ex_description = descr, ex_revision_id = rid,
           ex_status = Running_experiment, ex_mode = mode,
           ex_symbols = (case symbs of None \<Rightarrow> default_symbols | Some s \<Rightarrow> if s = [] then default_symbols else s),
           ex_timeframes = (case tfs of None \<Rightarrow> default_timeframes | Some t \<Rightarrow> if t = [] then default_timeframes else t),
           ex_date_range = None, ex_created_by = ''system'', ex_tags = [], ex_hypothesis = hyp, ex_created_at = wall_clock E (Suc n)\<rparr>
     in and_then (flush (db\<lparr>gd_experiments := gd_experiments db @ [row]\<rparr>)) (\<lambda>db'. Inr (row, (db', Suc (Suc n)))))"

definition get_experiment :: "string \<Rightarrow> governance_db \<Rightarrow> experiment_row option" where
  "get_experiment x db = List.find (\<lambda>r. ex_id r = x) (gd_experiments db)"

definition list_experiments :: "int \<Rightarrow> governance_db \<Rightarrow> experiment_row list" where
  "list_experiments limit db = limited limit (newest_first ex_created_at (gd_experiments db))"

definition delete_experiment :: "string \<Rightarrow> governance_db \<Rightarrow> (bool \<times> governance_db) result" where
  "delete_experiment x db =
     (if get_experiment x db = None then Inr (False, db)
      else and_then (flush (db\<lparr>gd_runs := filter (\<lambda>r. xr_experiment_id r \<noteq> x) (gd_runs db),
             gd_experiments := filter (\<lambda>r. ex_id r \<noteq> x) (gd_experiments db)\<rparr>)) (\<lambda>db'. Inr (True, db')))"

record deletion =
  dl_deleted :: "string list"
  dl_not_found :: "string list"
  dl_skipped :: "string list"

fun delete_each ::
  "string list \<Rightarrow> string list \<Rightarrow> string set \<Rightarrow> deletion \<times> governance_db \<Rightarrow> (deletion \<times> governance_db) result" where
  "delete_each [] skip seen (d, db) = Inr (d, db)"
| "delete_each (x # xs) skip seen (d, db) =
     (if x \<in> seen then delete_each xs skip seen (d, db)
      else if x \<in> set skip then delete_each xs skip (insert x seen) (d\<lparr>dl_skipped := dl_skipped d @ [x]\<rparr>, db)
      else and_then (delete_experiment x db) (\<lambda>(gone, db').
        delete_each xs skip (insert x seen)
          (if gone then d\<lparr>dl_deleted := dl_deleted d @ [x]\<rparr> else d\<lparr>dl_not_found := dl_not_found d @ [x]\<rparr>, db')))"

definition delete_experiments :: "string list \<Rightarrow> string list \<Rightarrow> governance_db \<Rightarrow> (deletion \<times> governance_db) result" where
  "delete_experiments xs skip db = delete_each xs skip {} (\<lparr>dl_deleted = [], dl_not_found = [], dl_skipped = []\<rparr>, db)"

definition create_experiment_run ::
  "env \<Rightarrow> string \<Rightarrow> string \<Rightarrow> string option \<Rightarrow> governance_world \<Rightarrow> (experiment_run \<times> governance_world) result" where
  "create_experiment_run E x rid run_id = (\<lambda>(db, n).
     case (case run_id of Some i \<Rightarrow> if i = [] then (fresh_id E ''erun_'' n, Suc n) else (i, n)
           | None \<Rightarrow> (fresh_id E ''erun_'' n, Suc n)) of
       (i, m) \<Rightarrow>
         (let row = \<lparr>xr_run_id = i, xr_experiment_id = x, xr_revision_id = rid, xr_started_at = wall_clock E m,
                xr_completed_at = None, xr_status = Run_running, xr_summary = None\<rparr>
          in and_then (flush (db\<lparr>gd_runs := gd_runs db @ [row]\<rparr>)) (\<lambda>db'. Inr (row, (db', Suc m)))))"

definition complete_experiment_run ::
  "env \<Rightarrow> string \<Rightarrow> run_status \<Rightarrow> (string, real) dict option \<Rightarrow> governance_world \<Rightarrow> governance_world" where
  "complete_experiment_run E run_id status summary = (\<lambda>(db, n).
     case List.find (\<lambda>r. xr_run_id r = run_id) (gd_runs db) of
       None \<Rightarrow> (db, n)
     | Some run \<Rightarrow>
         (db\<lparr>gd_runs := map (\<lambda>r. if xr_run_id r = run_id
               then r\<lparr>xr_status := status, xr_completed_at := Some (wall_clock E n), xr_summary := summary\<rparr> else r) (gd_runs db),
             gd_experiments := map (\<lambda>x. if ex_id x = xr_experiment_id run \<and> status = Run_completed
               then x\<lparr>ex_status := Completed_experiment\<rparr> else x) (gd_experiments db)\<rparr>, Suc n))"

definition has_successful_validation :: "int \<Rightarrow> string \<Rightarrow> governance_db \<Rightarrow> bool" where
  "has_successful_validation min_trades rid db \<longleftrightarrow>
     list_ex (\<lambda>b. bt_revision_id b = Some rid \<and> bt_completed_at b \<noteq> None \<and> bt_total_trades b \<ge> min_trades) (gd_backtests db)
     \<or> list_ex (\<lambda>r. xr_revision_id r = rid \<and> xr_status r = Run_completed
         \<and> py_int (dict_get_or (case xr_summary r of None \<Rightarrow> [] | Some d \<Rightarrow> d) ''total_trades'' 0) \<ge> min_trades) (gd_runs db)"

definition get_revision :: "string \<Rightarrow> governance_db \<Rightarrow> config_revision option" where
  "get_revision rid db = List.find (\<lambda>r. rv_id r = rid) (gd_revisions db)"

definition save_revision :: "config_revision \<Rightarrow> governance_db \<Rightarrow> (config_revision \<times> governance_db) result" where
  "save_revision rv db =
     (case get_revision (rv_id rv) db of
        Some old \<Rightarrow> Inr (old, db)
      | None \<Rightarrow> and_then (flush (db\<lparr>gd_revisions := gd_revisions db @ [rv]\<rparr>)) (\<lambda>db'. Inr (rv, db')))"

definition list_revisions :: "int \<Rightarrow> governance_db \<Rightarrow> config_revision list" where
  "list_revisions limit db = limited limit (newest_first rv_created_at (gd_revisions db))"


subsection \<open>The gate (live_gate.py)\<close>

record gate_settings =
  gs_production :: bool
  gs_require_champion :: bool
  gs_min_trades :: int

definition allow_start_dev :: "gate_settings \<Rightarrow> string option \<Rightarrow> bool" where
  "allow_start_dev G rid = (\<not> gs_production G \<or> (\<exists>i. rid = Some i \<and> i \<noteq> []))"

definition allow_start :: "gate_settings \<Rightarrow> governance_db \<Rightarrow> string option \<Rightarrow> bool" where
  "allow_start G db rid =
     (if \<not> gs_production G then True
      else (case rid of
          None \<Rightarrow> False
        | Some i \<Rightarrow>
            if i = [] then False
            else if get_revision i db = None then False
            else if \<not> has_successful_validation (gs_min_trades G) i db then False
            else if gs_require_champion G \<and> revision_has_candidate_lineage i db then revision_has_champion i db
            else True))"


subsection \<open>What the checks can find\<close>

lemma regime_check_needs_events:
  "(\<And>m. or_holdout_outcome R = Some m \<Longrightarrow> rg_by_regime (oc_regime m) = []) \<Longrightarrow>
    check_regime_concentration show_pct R = \<lparr>cc_name = ''regime_concentration'', cc_passed = False,
      cc_detail = ''not_evaluated: only '' @ show_nat 0 @ '' attributed holdout trades'', cc_current = None, cc_threshold = None\<rparr>"
  by (simp add: check_regime_concentration_def min_trades_for_regime_check_def split: option.split)

lemma sweep_rejected:
  assumes "run_optimization T Q w = Inr (R, w')"
  shows "\<exists>checks reason. evaluate_candidate show2 show_pct R = (checks, Rejected_verdict, reason)
    \<and> \<lparr>cc_name = ''regime_concentration'', cc_passed = False, cc_detail = ''not_evaluated: only 0 attributed holdout trades'',
         cc_current = None, cc_threshold = None\<rparr> \<in> set checks"
proof -
  have z: "show_nat 0 = ''0''" by code_simp
  have "check_regime_concentration show_pct R = \<lparr>cc_name = ''regime_concentration'', cc_passed = False,
      cc_detail = ''not_evaluated: only '' @ show_nat 0 @ '' attributed holdout trades'', cc_current = None, cc_threshold = None\<rparr>"
    by (rule regime_check_needs_events) (rule holdout_is_quiet [OF assms])
  then show ?thesis by (simp add: evaluate_candidate_def Let_def z)
qed

text \<open>C9: no sweep is ever accepted. The trials of a sweep keep no events, so the regimes of the
  holdout trades are unknown; the check for their concentration sees none of them, is counted as
  failed, and whatever the strategy earned, the evaluation of the candidate rejects it.\<close>

theorem sweeps_are_never_accepted:
  assumes "run_optimization T Q w = Inr (R, w')"
  shows "\<exists>checks reason. evaluate_candidate show2 show_pct R = (checks, Rejected_verdict, reason)
    \<and> \<lparr>cc_name = ''regime_concentration'', cc_passed = False, cc_detail = ''not_evaluated: only 0 attributed holdout trades'',
         cc_current = None, cc_threshold = None\<rparr> \<in> set checks"
  by (rule sweep_rejected [OF assms])

theorem sweeps_are_never_accepted_witness:
  "\<exists>R w' checks reason. run_optimization demo_tools demo_sweep (daily_disk, 0) = Inr (R, w')
     \<and> evaluate_candidate (\<lambda>x. ''0.00'') (\<lambda>x. ''0%'') R = (checks, Rejected_verdict, reason)"
proof -
  obtain R n' where r: "run_optimization demo_tools demo_sweep (daily_disk, 0) = Inr (R, (daily_disk, n'))"
    by (rule demo_result)
  from sweeps_are_never_accepted [OF r, of "\<lambda>x. ''0.00''" "\<lambda>x. ''0%''"] r show ?thesis by blast
qed


subsection \<open>The life of a candidate\<close>

text \<open>The tables after any sequence of operations, evaluations of the given results and promotions
  that ask for an accepted evaluation (as the HTTP interface does) among them.\<close>

inductive governed ::
  "env \<Rightarrow> (real \<Rightarrow> string) \<Rightarrow> (real \<Rightarrow> string) \<Rightarrow> (optimization_result \<Rightarrow> bool) \<Rightarrow> governance_world \<Rightarrow> bool"
  for E show2 show_pct results where
  start: "gd_candidates db = [] \<Longrightarrow> gd_evaluations db = [] \<Longrightarrow> governed E show2 show_pct results (db, n)"
| created: "governed E show2 show_pct results w \<Longrightarrow> create_candidate E x h p w = Inr (c, w')
    \<Longrightarrow> governed E show2 show_pct results w'"
| evaluated: "governed E show2 show_pct results w \<Longrightarrow> results R
    \<Longrightarrow> run_candidate_evaluation E show2 show_pct c R w = Inr (ev, w') \<Longrightarrow> governed E show2 show_pct results w'"
| promoted: "governed E show2 show_pct results (db, n) \<Longrightarrow> promote_candidate c to_state True db = Inr (r, db')
    \<Longrightarrow> governed E show2 show_pct results (db', n)"
| experiment_made: "governed E show2 show_pct results w
    \<Longrightarrow> create_experiment E ds dt rid name mode symbs tfs descr hyp w = Inr (x, w') \<Longrightarrow> governed E show2 show_pct results w'"
| experiments_deleted: "governed E show2 show_pct results (db, n) \<Longrightarrow> delete_experiments xs skip db = Inr (d, db')
    \<Longrightarrow> governed E show2 show_pct results (db', n)"
| run_started: "governed E show2 show_pct results w \<Longrightarrow> create_experiment_run E x rid i w = Inr (run, w')
    \<Longrightarrow> governed E show2 show_pct results w'"
| run_completed: "governed E show2 show_pct results w \<Longrightarrow> governed E show2 show_pct results (complete_experiment_run E i st summ w)"
| revision_saved: "governed E show2 show_pct results (db, n) \<Longrightarrow> save_revision rv db = Inr (rv', db')
    \<Longrightarrow> governed E show2 show_pct results (db', n)"
| backtest_stored: "governed E show2 show_pct results (db, n)
    \<Longrightarrow> governed E show2 show_pct results (db\<lparr>gd_backtests := bs\<rparr>, n)"

definition has_accepted :: "governance_db \<Rightarrow> string \<Rightarrow> bool" where
  "has_accepted db c \<longleftrightarrow> (\<exists>e \<in> set (gd_evaluations db). ce_candidate_id e = c \<and> ce_decision e = Accepted)"

text \<open>What every operation keeps: candidates have their own identifiers, at most one is the champion,
  and whoever rose had an accepted evaluation.\<close>

definition orderly :: "governance_db \<Rightarrow> bool" where
  "orderly db \<longleftrightarrow> distinct (map cd_id (gd_candidates db))
     \<and> length (filter (\<lambda>r. cd_state r = Champion) (gd_candidates db)) \<le> 1
     \<and> (\<forall>r \<in> set (gd_candidates db). cd_state r \<in> {Challenger, Champion} \<longrightarrow> has_accepted db (cd_id r))"

lemma orderly_frame: "gd_candidates db' = gd_candidates db \<Longrightarrow> gd_evaluations db' = gd_evaluations db \<Longrightarrow> orderly db' = orderly db"
  by (simp add: orderly_def has_accepted_def)

lemma flush_cases:
  assumes "flush db = Inr db'"
  obtains "db' = db" and "distinct (map cd_id (gd_candidates db))"
  using assms by (simp add: flush_def split: if_splits)

lemma set_state_simps [simp]:
  "gd_candidates (set_state p s db) = map (\<lambda>r. if p r then r\<lparr>cd_state := s\<rparr> else r) (gd_candidates db)"
  "gd_evaluations (set_state p s db) = gd_evaluations db" "gd_experiments (set_state p s db) = gd_experiments db"
  by (simp_all add: set_state_def)

lemma map_state_ids: "map cd_id (map (\<lambda>r. if p r then r\<lparr>cd_state := s\<rparr> else r) rows) = map cd_id rows"
  by (induction rows) auto

lemma one_of_one:
  "distinct (map cd_id rows) \<Longrightarrow> \<forall>r \<in> set rows. q r \<longrightarrow> cd_id r = c \<Longrightarrow> length (filter q rows) \<le> 1"
proof (induction rows)
  case (Cons r rows)
  show ?case
  proof (cases "q r")
    case True
    have "\<not> q x" if "x \<in> set rows" for x
    proof
      assume "q x"
      with Cons.prems(2) True that have "cd_id x = cd_id r" by simp
      with that have "cd_id r \<in> cd_id ` set rows" by (metis image_eqI)
      with Cons.prems(1) show False by simp
    qed
    then show ?thesis by (simp add: filter_empty_conv)
  qed (use Cons in simp)
qed simp

text \<open>Raising one candidate when nobody else is champion, and lowering one.\<close>

lemma orderly_raised:
  assumes "orderly db" and "s = Champion \<Longrightarrow> \<forall>r \<in> set (gd_candidates db). cd_state r \<noteq> Champion" and "has_accepted db c"
  shows "orderly (set_state (\<lambda>r. cd_id r = c) s db)"
proof -
  let ?db' = "set_state (\<lambda>r. cd_id r = c) s db"
  have d: "distinct (map cd_id (gd_candidates ?db'))" using assms(1) by (simp only: set_state_simps map_state_ids orderly_def)
  have "length (filter (\<lambda>r. cd_state r = Champion) (gd_candidates ?db')) \<le> 1"
  proof (cases "s = Champion")
    case True
    with assms(2) show ?thesis by (intro one_of_one [OF d, of _ c]) (auto split: if_splits)
  next
    case False
    have "length (filter (\<lambda>r. cd_state r = Champion) (map (\<lambda>r. if cd_id r = c then r\<lparr>cd_state := s\<rparr> else r) rows))
        \<le> length (filter (\<lambda>r. cd_state r = Champion) rows)" for rows
      using False by (induction rows) auto
    from this [of "gd_candidates db"] assms(1) show ?thesis unfolding orderly_def set_state_simps by linarith
  qed
  with d assms(1,3) show ?thesis by (auto simp: orderly_def has_accepted_def)
qed

lemma orderly_lowered:
  assumes "orderly db" and "s \<notin> {Challenger, Champion}"
  shows "orderly (set_state p s db)"
proof -
  have d: "distinct (map cd_id (gd_candidates (set_state p s db)))"
    using assms(1) by (simp only: set_state_simps map_state_ids orderly_def)
  have "length (filter (\<lambda>r. cd_state r = Champion) (map (\<lambda>r. if p r then r\<lparr>cd_state := s\<rparr> else r) rows))
      \<le> length (filter (\<lambda>r. cd_state r = Champion) rows)" for rows
    using assms(2) by (induction rows) auto
  from this [of "gd_candidates db"] assms(1)
  have "length (filter (\<lambda>r. cd_state r = Champion) (gd_candidates (set_state p s db))) \<le> 1"
    unfolding orderly_def set_state_simps by linarith
  with d assms show ?thesis by (auto simp: orderly_def has_accepted_def)
qed

lemma orderly_created:
  assumes "orderly (fst w)" and "create_candidate E x h p w = Inr (c, w')"
  shows "orderly (fst w')"
proof -
  obtain db n where w: "w = (db, n)" by (cases w)
  from assms(2) obtain row db1 where f: "flush (db\<lparr>gd_candidates := gd_candidates db @ [row]\<rparr>) = Inr db1" and w': "fst w' = db1"
    and st: "cd_state row = Candidate_state" by (auto simp: create_candidate_def w Let_def)
  have "orderly (db\<lparr>gd_candidates := gd_candidates db @ [row]\<rparr>)"
    if "distinct (map cd_id (gd_candidates (db\<lparr>gd_candidates := gd_candidates db @ [row]\<rparr>)))"
    using that assms(1) st unfolding w by (simp add: orderly_def has_accepted_def)
  moreover have "db1 = db\<lparr>gd_candidates := gd_candidates db @ [row]\<rparr>
      \<and> distinct (map cd_id (gd_candidates (db\<lparr>gd_candidates := gd_candidates db @ [row]\<rparr>)))"
    using f by (rule flush_cases) blast
  ultimately show ?thesis using w' by simp
qed

lemma orderly_evaluated:
  assumes "orderly (fst w)" and "run_candidate_evaluation E show2 show_pct c R w = Inr (ev, w')"
  shows "orderly (fst w')"
proof -
  obtain db n where w: "w = (db, n)" by (cases w)
  obtain checks dec reason where e: "evaluate_candidate show2 show_pct R = (checks, dec, reason)" by (metis prod_cases3)
  show ?thesis
  proof (cases "get_candidate c db")
    case None
    with assms w show ?thesis by (auto simp: run_candidate_evaluation_def)
  next
    case (Some cand)
    with assms(2) e obtain row db3 where f: "flush (if dec = Rejected_verdict then set_state (\<lambda>r. cd_id r = c) Rejected
        (db\<lparr>gd_evaluations := gd_evaluations db @ [row]\<rparr>) else db\<lparr>gd_evaluations := gd_evaluations db @ [row]\<rparr>) = Inr db3"
      and w': "fst w' = db3" by (auto simp: run_candidate_evaluation_def w Let_def)
    have "orderly (db\<lparr>gd_evaluations := gd_evaluations db @ [row]\<rparr>)"
      using assms(1) by (auto simp: w orderly_def has_accepted_def)
    then have o: "orderly (set_state (\<lambda>r. cd_id r = c) Rejected (db\<lparr>gd_evaluations := gd_evaluations db @ [row]\<rparr>))"
      "orderly (db\<lparr>gd_evaluations := gd_evaluations db @ [row]\<rparr>)" by (simp_all add: orderly_lowered)
    show ?thesis unfolding w' using f by (rule flush_cases) (cases "dec = Rejected_verdict"; simp only: o if_True if_False simp_thms)
  qed
qed

lemma evaluation_parts:
  assumes "run_candidate_evaluation E show2 show_pct c R (db, n) = Inr (ev, w')" and "get_candidate c db = Some cand"
    and "evaluate_candidate show2 show_pct R = (checks, dec, reason)"
  obtains row where "ce_decision row = dec" and "gd_evaluations (fst w') = gd_evaluations db @ [row]"
    and "gd_candidates (fst w') = (if dec = Rejected_verdict
      then map (\<lambda>r. if cd_id r = c then r\<lparr>cd_state := Rejected\<rparr> else r) (gd_candidates db) else gd_candidates db)"
proof -
  define row where "row = \<lparr>ce_id = fresh_id E ''caneval_'' n, ce_candidate_id = c, ce_checks = checks, ce_decision = dec,
                  ce_reason = reason, ce_created_at = wall_clock E (Suc n)\<rparr>"
  define db2 where "db2 = (if dec = Rejected_verdict then set_state (\<lambda>r. cd_id r = c) Rejected (db\<lparr>gd_evaluations := gd_evaluations db @ [row]\<rparr>)
      else db\<lparr>gd_evaluations := gd_evaluations db @ [row]\<rparr>)"
  from assms obtain db3 where f: "flush db2 = Inr db3" and w': "fst w' = db3"
    unfolding row_def db2_def by (auto simp: run_candidate_evaluation_def Let_def)
  have "db3 = db2" using f by (rule flush_cases)
  with w' show thesis by (intro that [of row]) (simp_all add: row_def db2_def)
qed

lemma newest_mem: "newest_first f rows \<noteq> [] \<Longrightarrow> hd (newest_first f rows) \<in> set rows"
  by (metis hd_in_set newest_first_def set_sort)

lemma promotion_parts:
  assumes "promote_candidate c to_state required db = Inr (r, db')" and "get_candidate c db = Some row"
  obtains s where "s \<in> set (valid_transitions (cd_state row))" and "state_name s = to_state" and "r = Some (row\<lparr>cd_state := s\<rparr>)"
    and "db' = set_state (\<lambda>r. cd_id r = c) s (if required \<and> s = Champion then set_state (\<lambda>r. cd_state r = Champion) Archived db else db)"
    and "required \<and> s \<in> {Challenger, Champion} \<longrightarrow> has_accepted db c"
proof -
  from assms obtain s where f: "List.find (\<lambda>s. state_name s = to_state) (valid_transitions (cd_state row)) = Some s"
    by (auto simp: promote_candidate_def split: option.splits)
  then have s: "s \<in> set (valid_transitions (cd_state row))" "state_name s = to_state"
    by (auto simp: find_Some_iff)
  from assms f obtain db1 where
    1: "(if required \<and> (s = Challenger \<or> s = Champion) then
                    (let evaluations = list_candidate_evaluations c db
                     in if evaluations = [] \<or> ce_decision (hd evaluations) \<noteq> Accepted
                        then Inl (ValueError (''Cannot promote a candidate without a most-recent '' @ quoted ''accepted'' @ '' evaluation''))
                        else Inr (if s = Champion then set_state (\<lambda>r. cd_state r = Champion) Archived db else db))
                  else Inr db) = Inr db1"
    and 2: "flush (set_state (\<lambda>r. cd_id r = c) s db1) = Inr db'" and r: "r = Some (row\<lparr>cd_state := s\<rparr>)"
    by (auto simp: promote_candidate_def)
  have d: "db1 = (if required \<and> s = Champion then set_state (\<lambda>r. cd_state r = Champion) Archived db else db)"
    using 1 by (auto simp: Let_def split: if_splits)
  have a: "has_accepted db c" if "required \<and> s \<in> {Challenger, Champion}"
  proof -
    have e: "list_candidate_evaluations c db \<noteq> []" "ce_decision (hd (list_candidate_evaluations c db)) = Accepted"
      using 1 that by (auto simp: Let_def split: if_splits)
    have "hd (list_candidate_evaluations c db) \<in> set (filter (\<lambda>r. ce_candidate_id r = c) (gd_evaluations db))"
      using newest_mem e(1) unfolding list_candidate_evaluations_def by blast
    with e(2) show ?thesis by (auto simp: has_accepted_def)
  qed
  show thesis by (rule flush_cases [OF 2]) (rule that [OF s r], use a in \<open>simp_all add: d\<close>)
qed

lemma orderly_promoted:
  assumes "orderly db" and "promote_candidate c to_state True db = Inr (r, db')"
  shows "orderly db'"
proof (cases "get_candidate c db")
  case None
  with assms show ?thesis by (simp add: promote_candidate_def)
next
  case (Some row)
  obtain s where s: "s \<in> set (valid_transitions (cd_state row))" and "state_name s = to_state" and "r = Some (row\<lparr>cd_state := s\<rparr>)"
    and db': "db' = set_state (\<lambda>r. cd_id r = c) s (if True \<and> s = Champion then set_state (\<lambda>r. cd_state r = Champion) Archived db else db)"
    and acc: "True \<and> s \<in> {Challenger, Champion} \<longrightarrow> has_accepted db c"
    using assms(2) Some by (rule promotion_parts)
  show ?thesis
  proof (cases "s = Champion")
    case True
    have o: "orderly (set_state (\<lambda>r. cd_state r = Champion) Archived db)" by (rule orderly_lowered [OF assms(1)]) simp
    show ?thesis unfolding db'
      by (simp only: True simp_thms if_True, rule orderly_raised [OF o]) (use acc True in \<open>auto simp: has_accepted_def\<close>)
  next
    case False
    show ?thesis
    proof (cases "s = Challenger")
      case True
      with acc have "has_accepted db c" by simp
      with False show ?thesis unfolding db' by (auto intro!: orderly_raised [OF assms(1)])
    next
      case nc: False
      with False show ?thesis unfolding db' by (simp add: orderly_lowered [OF assms(1)])
    qed
  qed
qed

lemma delete_experiment_frame:
  "delete_experiment x db = Inr (gone, db') \<Longrightarrow> gd_candidates db' = gd_candidates db \<and> gd_evaluations db' = gd_evaluations db
    \<and> gd_experiments db' = filter (\<lambda>r. ex_id r \<noteq> x) (gd_experiments db) \<and> gd_backtests db' = gd_backtests db
    \<and> gd_revisions db' = gd_revisions db \<and> (gone \<longleftrightarrow> x \<in> ex_id ` set (gd_experiments db))"
  by (auto simp: delete_experiment_def get_experiment_def find_None_iff find_Some_iff filter_id_conv
      elim!: flush_cases split: if_splits)

lemma deletion_parts:
  assumes "delete_each xs skip seen (d, db) = Inr (d', db')"
  shows "gd_candidates db' = gd_candidates db \<and> gd_evaluations db' = gd_evaluations db \<and> gd_backtests db' = gd_backtests db
    \<and> gd_revisions db' = gd_revisions db
    \<and> gd_experiments db' = filter (\<lambda>r. ex_id r \<notin> set xs \<or> ex_id r \<in> set skip \<or> ex_id r \<in> seen) (gd_experiments db)
    \<and> set (dl_deleted d') = set (dl_deleted d) \<union> {x \<in> set xs. x \<notin> seen \<and> x \<notin> set skip \<and> x \<in> ex_id ` set (gd_experiments db)}
    \<and> set (dl_not_found d') = set (dl_not_found d) \<union> {x \<in> set xs. x \<notin> seen \<and> x \<notin> set skip \<and> x \<notin> ex_id ` set (gd_experiments db)}
    \<and> set (dl_skipped d') = set (dl_skipped d) \<union> {x \<in> set xs. x \<notin> seen \<and> x \<in> set skip}"
  using assms
proof (induction xs arbitrary: seen d db)
  case (Cons x xs)
  consider "x \<in> seen" | "x \<notin> seen" "x \<in> set skip" | "x \<notin> seen" "x \<notin> set skip" by blast
  then show ?case
  proof cases
    case 1
    with Cons.prems have "delete_each xs skip seen (d, db) = Inr (d', db')" by simp
    from Cons.IH [OF this] 1 show ?thesis by (auto intro!: filter_cong)
  next
    case 2
    with Cons.prems have "delete_each xs skip (insert x seen) (d\<lparr>dl_skipped := dl_skipped d @ [x]\<rparr>, db) = Inr (d', db')" by simp
    from Cons.IH [OF this] 2 show ?thesis by (auto intro!: filter_cong)
  next
    case 3
    with Cons.prems obtain gone db1 where one: "delete_experiment x db = Inr (gone, db1)"
      and rest: "delete_each xs skip (insert x seen)
          (if gone then d\<lparr>dl_deleted := dl_deleted d @ [x]\<rparr> else d\<lparr>dl_not_found := dl_not_found d @ [x]\<rparr>, db1) = Inr (d', db')"
      by auto
    note f = delete_experiment_frame [OF one]
    have "filter (\<lambda>r. ex_id r \<notin> set xs \<or> ex_id r \<in> set skip \<or> ex_id r \<in> insert x seen) (filter (\<lambda>r. ex_id r \<noteq> x) rows)
        = filter (\<lambda>r. ex_id r \<notin> set (x # xs) \<or> ex_id r \<in> set skip \<or> ex_id r \<in> seen) rows" for rows
      using 3 by (auto intro!: filter_cong)
    with Cons.IH [OF rest] f 3 show ?thesis by (cases gone) auto
  qed
qed simp

lemma complete_frame:
  "gd_candidates (fst (complete_experiment_run E i st summ w)) = gd_candidates (fst w)
   \<and> gd_evaluations (fst (complete_experiment_run E i st summ w)) = gd_evaluations (fst w)"
  by (cases w) (simp add: complete_experiment_run_def split: option.split)

lemma governed_invariant:
  assumes "governed E show2 show_pct results w"
  shows "orderly (fst w) \<and> (\<forall>e \<in> set (gd_evaluations (fst w)). \<exists>R. results R \<and> ce_decision e = fst (snd (evaluate_candidate show2 show_pct R)))"
  using assms
proof induction
  case (start db n)
  then show ?case by (simp add: orderly_def)
next
  case (created w x h p c w')
  then have "gd_evaluations (fst w') = gd_evaluations (fst w)"
    by (cases w) (auto simp: create_candidate_def Let_def elim!: flush_cases)
  with created orderly_created show ?case by metis
next
  case (evaluated w R c ev w')
  obtain db n where w: "w = (db, n)" by (cases w)
  obtain checks dec reason where e: "evaluate_candidate show2 show_pct R = (checks, dec, reason)" by (metis prod_cases3)
  have "gd_evaluations (fst w') = gd_evaluations db \<or> (\<exists>row. ce_decision row = dec \<and> gd_evaluations (fst w') = gd_evaluations db @ [row])"
  proof (cases "get_candidate c db")
    case None
    with evaluated.hyps(3) show ?thesis by (auto simp: w run_candidate_evaluation_def)
  next
    case (Some cand)
    show ?thesis by (rule evaluation_parts [OF evaluated.hyps(3) [unfolded w] Some e]) blast
  qed
  then have "ce_decision x = fst (snd (evaluate_candidate show2 show_pct R)) \<or> x \<in> set (gd_evaluations db)"
    if "x \<in> set (gd_evaluations (fst w'))" for x using that e by auto
  then have "\<forall>x \<in> set (gd_evaluations (fst w')). \<exists>R. results R \<and> ce_decision x = fst (snd (evaluate_candidate show2 show_pct R))"
    using evaluated.IH evaluated.hyps(2) w by (metis fst_conv)
  moreover have "orderly (fst w')" using evaluated.IH orderly_evaluated [OF _ evaluated.hyps(3)] by blast
  ultimately show ?case by blast
next
  case (promoted db n c to_state r db')
  have "gd_evaluations db' = gd_evaluations db"
  proof (cases "get_candidate c db")
    case None
    with promoted.hyps(2) show ?thesis by (simp add: promote_candidate_def)
  next
    case (Some row)
    show ?thesis by (rule promotion_parts [OF promoted.hyps(2) Some]) simp
  qed
  with promoted.IH orderly_promoted [OF _ promoted.hyps(2)] show ?case by simp
next
  case (experiment_made w ds dt rid name mode symbs tfs descr hyp x w')
  then have "gd_candidates (fst w') = gd_candidates (fst w)" "gd_evaluations (fst w') = gd_evaluations (fst w)"
    by (cases w, auto simp: create_experiment_def Let_def elim!: flush_cases)+
  with experiment_made.IH show ?case using orderly_frame by metis
next
  case (experiments_deleted db n xs skip d db')
  from deletion_parts [OF this(2) [unfolded delete_experiments_def]] experiments_deleted.IH
  show ?case using orderly_frame by (metis fst_conv)
next
  case (run_started w x rid i run w')
  then have "gd_candidates (fst w') = gd_candidates (fst w)" "gd_evaluations (fst w') = gd_evaluations (fst w)"
    by (cases w, auto simp: create_experiment_run_def Let_def elim!: flush_cases split: option.splits if_splits)+
  with run_started.IH show ?case using orderly_frame by metis
next
  case (run_completed w i st summ)
  with complete_frame [of E i st summ w] show ?case using orderly_frame by metis
next
  case (revision_saved db n rv rv' db')
  then have "gd_candidates db' = gd_candidates db" "gd_evaluations db' = gd_evaluations db"
    by (auto simp: save_revision_def elim!: flush_cases split: option.splits)
  with revision_saved.IH show ?case using orderly_frame by (metis fst_conv)
next
  case (backtest_stored db n bs)
  then show ?case using orderly_frame [of "db\<lparr>gd_backtests := bs\<rparr>" db] by simp
qed

text \<open>C10: there is at most one champion, and nobody rises unexamined. Whatever results are evaluated and
  whatever the order of the operations, as long as promotions ask for an accepted evaluation, no two
  candidates are champions at once, and every challenger and champion has an accepted evaluation.\<close>

theorem one_champion_and_it_was_accepted:
  assumes "governed E show2 show_pct results (db, n)"
  shows "length (filter (\<lambda>r. cd_state r = Champion) (gd_candidates db)) \<le> 1
    \<and> (\<forall>r \<in> set (gd_candidates db). cd_state r \<in> {Challenger, Champion} \<longrightarrow>
        (\<exists>e \<in> set (gd_evaluations db). ce_candidate_id e = cd_id r \<and> ce_decision e = Accepted))"
  using governed_invariant [OF assms] by (simp add: orderly_def has_accepted_def)

text \<open>C21: no strategy that went through the candidates ever goes live. When the results that are
  evaluated come from sweeps, nobody becomes challenger or champion; so in production, with the
  champion required, the gate refuses every revision that has a candidate.\<close>

theorem governance_admits_nobody:
  assumes "governed E show2 show_pct results (db, n)"
    and "\<forall>R. results R \<longrightarrow> (\<exists>(T :: 's sweep_tools) Q w w'. run_optimization T Q w = Inr (R, w'))"
  shows "(\<forall>r \<in> set (gd_candidates db). cd_state r \<notin> {Challenger, Champion})
    \<and> (\<forall>G rid. gs_production G \<longrightarrow> gs_require_champion G \<longrightarrow> revision_has_candidate_lineage rid db
        \<longrightarrow> \<not> allow_start G db (Some rid))"
proof -
  have "ce_decision e \<noteq> Accepted" if "e \<in> set (gd_evaluations db)" for e
  proof -
    from governed_invariant [OF assms(1)] that obtain R where R: "results R" "ce_decision e = fst (snd (evaluate_candidate show2 show_pct R))"
      by auto
    from assms(2) R(1) obtain T :: "'s sweep_tools" and Q w w' where "run_optimization T Q w = Inr (R, w')" by blast
    from sweep_rejected [OF this, of show2 show_pct] R(2) show ?thesis by auto
  qed
  with governed_invariant [OF assms(1)] have "\<forall>r \<in> set (gd_candidates db). cd_state r \<notin> {Challenger, Champion}"
    by (auto simp: orderly_def has_accepted_def)
  then show ?thesis by (auto simp: allow_start_def revision_has_champion_def revision_candidates_def split: if_splits)
qed

text \<open>An evaluation moves a candidate where no transition leads. An evaluation that rejects makes any
  candidate it is run for rejected, an archived one and the champion too, though neither may
  become rejected by a transition.\<close>

theorem evaluation_bypasses_transitions:
  assumes "get_candidate c db = Some row" and "cd_state row \<in> {Archived, Champion}"
    and "evaluate_candidate show2 show_pct R = (checks, Rejected_verdict, reason)"
    and "run_candidate_evaluation E show2 show_pct c R (db, n) = Inr (ev, (db', n'))"
  shows "get_candidate c db' = Some (row\<lparr>cd_state := Rejected\<rparr>) \<and> Rejected \<notin> set (valid_transitions (cd_state row))
    \<and> (\<forall>required. \<exists>m. promote_candidate c ''rejected'' required db = Inl (ValueError m))"
proof -
  let ?P = "\<lambda>r. cd_id r = c"
  have find_map: "List.find ?P (map (\<lambda>r. if ?P r then r\<lparr>cd_state := s\<rparr> else r) rows)
      = map_option (\<lambda>r. r\<lparr>cd_state := s\<rparr>) (List.find ?P rows)" for s rows
    by (induction rows) auto
  have "gd_candidates db' = map (\<lambda>r. if ?P r then r\<lparr>cd_state := Rejected\<rparr> else r) (gd_candidates db)"
    by (rule evaluation_parts [OF assms(4,1,3)]) simp
  then have "get_candidate c db' = Some (row\<lparr>cd_state := Rejected\<rparr>)"
    using assms(1) by (simp add: get_candidate_def find_map)
  moreover have "List.find (\<lambda>s. state_name s = ''rejected'') (valid_transitions (cd_state row)) = None"
    using assms(2) by (auto simp: valid_transitions_def state_name_def)
  ultimately show ?thesis using assms(1,2) by (auto simp: valid_transitions_def promote_candidate_def)
qed

text \<open>Deleting an experiment frees its revision from the candidates. The candidates stay, but a
  revision all of whose experiments are deleted has no lineage any more, and with a stored
  backtest that has trades enough the gate lets it start, champion or not.\<close>

theorem deleted_experiments_lift_the_gate:
  assumes "get_revision rid db \<noteq> None" and "rid \<noteq> []"
    and "\<exists>b \<in> set (gd_backtests db). bt_revision_id b = Some rid \<and> bt_completed_at b \<noteq> None \<and> gs_min_trades G \<le> bt_total_trades b"
    and "\<forall>x \<in> set (gd_experiments db). ex_revision_id x = rid \<longrightarrow> ex_id x \<in> set xs"
    and "delete_experiments xs [] db = Inr (d, db')"
  shows "gd_candidates db' = gd_candidates db \<and> \<not> revision_has_candidate_lineage rid db' \<and> allow_start G db' (Some rid)"
proof -
  note f = deletion_parts [OF assms(5) [unfolded delete_experiments_def]]
  have "\<not> revision_has_candidate_lineage rid db'"
    using assms(4) f by (auto simp: revision_has_candidate_lineage_def revision_candidates_def filter_empty_conv)
  moreover have "get_revision rid db' \<noteq> None" using assms(1) f by (simp add: get_revision_def)
  moreover have "has_successful_validation (gs_min_trades G) rid db'"
    using assms(3) f by (auto simp: has_successful_validation_def list_ex_iff)
  ultimately show ?thesis using f assms(2) by (auto simp: allow_start_def)
qed


subsection \<open>Examples\<close>

definition empty_governance :: governance_db where
  "empty_governance = \<lparr>gd_candidates = [], gd_evaluations = [], gd_experiments = [], gd_runs = [], gd_revisions = [], gd_backtests = []\<rparr>"

definition demo_candidate :: "candidate_state \<Rightarrow> candidate" where
  "demo_candidate s = \<lparr>cd_id = ''cand_'', cd_experiment_id = ''exp'', cd_hypothesis_id = None, cd_parent_id = None, cd_state = s,
     cd_created_at = 1\<rparr>"

definition demo_revision :: config_revision where
  "demo_revision = \<lparr>rv_id = ''rev'', rv_created_at = 0, rv_engine_hash = [], rv_features_hash = [], rv_providers_hash = [],
     rv_fill_model_id = None, rv_risk_hash = [], rv_label = [], rv_parent_id = None\<rparr>"

definition demo_experiment :: experiment_row where
  "demo_experiment = \<lparr>ex_id = ''exp'', ex_name = [], ex_description = [], ex_revision_id = ''rev'', ex_status = Running_experiment,
     ex_mode = Validation_mode, ex_symbols = [], ex_timeframes = [], ex_date_range = None, ex_created_by = [], ex_tags = [],
     ex_hypothesis = None, ex_created_at = 0\<rparr>"

definition demo_governance :: "candidate_state \<Rightarrow> governance_db" where
  "demo_governance s = \<lparr>gd_candidates = [demo_candidate s], gd_evaluations = [], gd_experiments = [demo_experiment], gd_runs = [],
     gd_revisions = [demo_revision],
     gd_backtests = [\<lparr>bt_run_id = ''b'', bt_revision_id = Some ''rev'', bt_total_trades = 30, bt_completed_at = Some 1\<rparr>]\<rparr>"

text \<open>A result that passes every check: two folds, and thirty trades in two regimes.\<close>

definition demo_bucket :: bucket where
  "demo_bucket = \<lparr>bk_trades = 15, bk_wins = 0, bk_losses = 0, bk_win_rate = 0, bk_pnl = 0, bk_gross_profit = 0, bk_gross_loss = 0\<rparr>"

definition good_result :: optimization_result where
  "good_result = \<lparr>or_sweep_id = [], or_train = (0, 1), or_test = (1, 2),
     or_trials = [\<lparr>ot_trial_id = [], ot_params = demo_trial, ot_train_score = 1, ot_train_outcome = No_figures, ot_test_score = Some 1,
       ot_test_outcome = None, ot_stability = None, ot_revision_id = None, ot_composite = None, ot_fold_scores = [1, 1],
       ot_fold_std = Some 0, ot_pareto_rank = None\<rparr>],
     or_best = Some 0, or_best_valid = True, or_message = None, or_fallback = None, or_holdout = Some (2, 3), or_optimization_end = 2,
     or_holdout_score = Some 1,
     or_holdout_outcome = Some ((demo_outcome 30 1 1 1)\<lparr>oc_regime := \<lparr>rg_by_regime = [(''a'', demo_bucket), (''b'', demo_bucket)],
       rg_by_confidence = [], rg_unattributed = 0\<rparr>\<rparr>), or_holdout_valid = True\<rparr>"

lemma good_result_accepted: "\<exists>checks. evaluate_candidate (\<lambda>x. []) (\<lambda>x. []) good_result = (checks, Accepted, ''All checks passed.'')"
  by (simp add: evaluate_candidate_def Let_def check_out_of_sample_def check_minimum_sample_def check_fold_stability_def
      check_regime_concentration_def good_result_def holdout_trades_def demo_outcome_def demo_bucket_def
      min_trades_for_regime_check_def max_single_regime_share_def mean_score_def)

abbreviation demo_governed :: "(optimization_result \<Rightarrow> bool) \<Rightarrow> governance_world \<Rightarrow> bool" where
  "demo_governed \<equiv> governed unary_env (\<lambda>x. []) (\<lambda>x. [])"

lemma state_names: "List.find (\<lambda>s. state_name s = ''challenger'') (valid_transitions Candidate_state) = Some Challenger"
  "List.find (\<lambda>s. state_name s = ''champion'') (valid_transitions Challenger) = Some Champion"
  by code_simp+

lemma demo_evaluation:
  assumes "flush db = Inr db" and "gd_evaluations db = []" and "gd_candidates db = [demo_candidate s]"
    and "evaluate_candidate show2 show_pct R = (checks, dec, reason)"
  shows "\<exists>row. ce_decision row = dec \<and> ce_candidate_id row = ''cand_''
    \<and> run_candidate_evaluation unary_env show2 show_pct ''cand_'' R (db, n) = Inr (Some row,
        (db\<lparr>gd_evaluations := [row], gd_candidates := [demo_candidate (if dec = Rejected_verdict then Rejected else s)]\<rparr>, Suc (Suc n)))"
proof -
  define row where "row = \<lparr>ce_id = fresh_id unary_env ''caneval_'' n, ce_candidate_id = ''cand_'', ce_checks = checks, ce_decision = dec,
                  ce_reason = reason, ce_created_at = wall_clock unary_env (Suc n)\<rparr>"
  have d: "distinct (map ex_id (gd_experiments db))" "distinct (map xr_run_id (gd_runs db))" "distinct (map rv_id (gd_revisions db))"
    "distinct (map bt_run_id (gd_backtests db))" using assms(1) by (simp_all add: flush_def split: if_splits)
  have g: "get_candidate ''cand_'' db = Some (demo_candidate s)" by (simp add: get_candidate_def assms(3) demo_candidate_def)
  have x: "(if dec = Rejected_verdict then set_state (\<lambda>r. cd_id r = ''cand_'') Rejected (db\<lparr>gd_evaluations := gd_evaluations db @ [row]\<rparr>)
        else db\<lparr>gd_evaluations := gd_evaluations db @ [row]\<rparr>)
      = db\<lparr>gd_evaluations := [row], gd_candidates := [demo_candidate (if dec = Rejected_verdict then Rejected else s)]\<rparr>"
    using assms(3) by (auto simp: set_state_def assms(2) demo_candidate_def intro!: governance_db.equality)
  have f: "flush (db\<lparr>gd_evaluations := [row], gd_candidates := [demo_candidate u]\<rparr>)
      = Inr (db\<lparr>gd_evaluations := [row], gd_candidates := [demo_candidate u]\<rparr>)" for u
    using d by (simp add: flush_def)
  have "run_candidate_evaluation unary_env show2 show_pct ''cand_'' R (db, n) = Inr (Some row,
        (db\<lparr>gd_evaluations := [row], gd_candidates := [demo_candidate (if dec = Rejected_verdict then Rejected else s)]\<rparr>, Suc (Suc n)))"
    unfolding run_candidate_evaluation_def prod.case g option.case assms(4) Let_def row_def [symmetric] x f and_then_simps ..
  then show ?thesis by (intro exI [of _ row]) (simp add: row_def)
qed

lemma demo_promotion:
  assumes "flush db = Inr db" and "gd_candidates db = [demo_candidate s]" and "s \<noteq> Champion"
    and "List.find (\<lambda>s. state_name s = to_state) (valid_transitions s) = Some u"
    and "list_candidate_evaluations ''cand_'' db \<noteq> []" and "ce_decision (hd (list_candidate_evaluations ''cand_'' db)) = Accepted"
  shows "promote_candidate ''cand_'' to_state True db = Inr (Some (demo_candidate u), db\<lparr>gd_candidates := [demo_candidate u]\<rparr>)"
    and "flush (db\<lparr>gd_candidates := [demo_candidate u]\<rparr>) = Inr (db\<lparr>gd_candidates := [demo_candidate u]\<rparr>)"
proof -
  have g: "get_candidate ''cand_'' db = Some (demo_candidate s)" by (simp add: get_candidate_def assms(2) demo_candidate_def)
  have x: "set_state (\<lambda>r. cd_id r = ''cand_'') u db = db\<lparr>gd_candidates := [demo_candidate u]\<rparr>"
    "set_state (\<lambda>r. cd_state r = Champion) Archived db = db"
    using assms(2,3) by (simp_all add: set_state_def demo_candidate_def)
  show f: "flush (db\<lparr>gd_candidates := [demo_candidate u]\<rparr>) = Inr (db\<lparr>gd_candidates := [demo_candidate u]\<rparr>)"
    using assms(1) by (simp add: flush_def split: if_splits)
  have c: "cd_state (demo_candidate s) = s" "(demo_candidate s)\<lparr>cd_state := u\<rparr> = demo_candidate u" by (simp_all add: demo_candidate_def)
  show "promote_candidate ''cand_'' to_state True db = Inr (Some (demo_candidate u), db\<lparr>gd_candidates := [demo_candidate u]\<rparr>)"
    using assms(5,6) x f by (auto simp: promote_candidate_def g c assms(4) x(2) Let_def)
qed

theorem one_champion_and_it_was_accepted_witness:
  "\<exists>db n. demo_governed (\<lambda>R. R = good_result) (db, n) \<and> map cd_state (gd_candidates db) = [Champion]
     \<and> length (filter (\<lambda>r. cd_state r = Champion) (gd_candidates db)) \<le> 1"
proof -
  let ?g = "demo_governed (\<lambda>R. R = good_result)"
  have 0: "?g (empty_governance, 0)" by (rule governed.start) (simp_all add: empty_governance_def)
  let ?w1 = "(empty_governance\<lparr>gd_candidates := [demo_candidate Candidate_state]\<rparr>, Suc (Suc 0))"
  have 1: "create_candidate unary_env ''exp'' None None (empty_governance, 0) = Inr (demo_candidate Candidate_state, ?w1)"
    by (simp add: create_candidate_def empty_governance_def flush_def demo_candidate_def fresh_id_def unary_env_def Let_def)
  obtain w1 where w1e: "w1 = ?w1" by blast
  have w1: "gd_candidates (fst w1) = [demo_candidate Candidate_state]" "gd_evaluations (fst w1) = []" "flush (fst w1) = Inr (fst w1)"
    by (simp_all add: w1e empty_governance_def flush_def demo_candidate_def)
  note 1 = 1 [folded w1e]
  note g1 = governed.created [OF 0 1]
  obtain checks where e: "evaluate_candidate (\<lambda>x. []) (\<lambda>x. []) good_result = (checks, Accepted, ''All checks passed.'')"
    using good_result_accepted by blast
  obtain db1 n1 where p1: "w1 = (db1, n1)" by (cases w1)
  obtain row where r: "ce_decision row = Accepted" "ce_candidate_id row = ''cand_''"
    and 2: "run_candidate_evaluation unary_env (\<lambda>x. []) (\<lambda>x. []) ''cand_'' good_result (db1, n1)
      = Inr (Some row, (db1\<lparr>gd_evaluations := [row], gd_candidates := [demo_candidate Candidate_state]\<rparr>, Suc (Suc n1)))"
    using demo_evaluation [OF _ _ _ e, of db1 Candidate_state n1] w1 p1 by auto
  obtain db2 where db2: "db2 = db1\<lparr>gd_evaluations := [row], gd_candidates := [demo_candidate Candidate_state]\<rparr>" by blast
  note 2 = 2 [folded db2]
  have d2: "gd_candidates db2 = [demo_candidate Candidate_state]" "flush db2 = Inr db2"
      "list_candidate_evaluations ''cand_'' db2 \<noteq> []" "ce_decision (hd (list_candidate_evaluations ''cand_'' db2)) = Accepted"
    using w1(3) r by (simp_all add: db2 p1 flush_def list_candidate_evaluations_def newest_first_def split: if_splits)
  note g2 = governed.evaluated [OF g1 [unfolded p1] refl 2]
  note p3 = demo_promotion [OF d2(2,1) _ state_names(1) d2(3,4)]
  obtain db3 where db3: "db3 = db2\<lparr>gd_candidates := [demo_candidate Challenger]\<rparr>" by blast
  note g3 = governed.promoted [OF g2 p3(1) [folded db3]]
  have d3: "gd_candidates db3 = [demo_candidate Challenger]" "flush db3 = Inr db3"
    "list_candidate_evaluations ''cand_'' db3 = list_candidate_evaluations ''cand_'' db2"
    using p3(2) by (simp_all add: db3 list_candidate_evaluations_def)
  note p4 = demo_promotion [OF d3(2,1) _ state_names(2) d2(3,4) [folded d3(3)]]
  note g4 = governed.promoted [OF g3 p4(1)]
  from one_champion_and_it_was_accepted [OF g4] g4 show ?thesis by (intro exI conjI) (auto simp: demo_candidate_def)
qed

theorem evaluation_bypasses_transitions_witness:
  "\<exists>ev db' n'. run_candidate_evaluation unary_env (\<lambda>x. []) (\<lambda>x. []) ''cand_'' (good_result\<lparr>or_holdout_valid := False\<rparr>)
       (demo_governance Archived, 0) = Inr (ev, (db', n'))
     \<and> get_candidate ''cand_'' db' = Some (demo_candidate Rejected)"
proof -
  obtain checks reason where e: "evaluate_candidate (\<lambda>x. []) (\<lambda>x. []) (good_result\<lparr>or_holdout_valid := False\<rparr>) = (checks, Rejected_verdict, reason)"
    by (simp add: evaluate_candidate_def Let_def check_out_of_sample_def)
  have g: "get_candidate ''cand_'' (demo_governance Archived) = Some (demo_candidate Archived)"
    by (simp add: get_candidate_def demo_governance_def demo_candidate_def)
  have "flush (demo_governance Archived) = Inr (demo_governance Archived)" "gd_evaluations (demo_governance Archived) = []"
    "gd_candidates (demo_governance Archived) = [demo_candidate Archived]" by (simp_all add: demo_governance_def flush_def)
  from demo_evaluation [OF this e, of 0] obtain ev db' n'
    where r: "run_candidate_evaluation unary_env (\<lambda>x. []) (\<lambda>x. []) ''cand_'' (good_result\<lparr>or_holdout_valid := False\<rparr>)
       (demo_governance Archived, 0) = Inr (ev, (db', n'))" by blast
  have "cd_state (demo_candidate Archived) \<in> {Archived, Champion}" by (simp add: demo_candidate_def)
  from evaluation_bypasses_transitions [OF g this e r] r show ?thesis by (auto simp: demo_candidate_def)
qed

theorem deleted_experiments_lift_the_gate_witness:
  "\<exists>d db'. delete_experiments [''exp''] [] (demo_governance Rejected) = Inr (d, db')
     \<and> \<not> allow_start \<lparr>gs_production = True, gs_require_champion = True, gs_min_trades = 20\<rparr> (demo_governance Rejected) (Some ''rev'')
     \<and> allow_start \<lparr>gs_production = True, gs_require_champion = True, gs_min_trades = 20\<rparr> db' (Some ''rev'')"
proof -
  let ?G = "\<lparr>gs_production = True, gs_require_champion = True, gs_min_trades = 20\<rparr>"
  obtain d db' where d: "delete_experiments [''exp''] [] (demo_governance Rejected) = Inr (d, db')"
    by (simp add: delete_experiments_def delete_experiment_def get_experiment_def flush_def demo_governance_def demo_experiment_def)
  have h: "get_revision ''rev'' (demo_governance Rejected) \<noteq> None"
    "\<exists>b \<in> set (gd_backtests (demo_governance Rejected)). bt_revision_id b = Some ''rev'' \<and> bt_completed_at b \<noteq> None
      \<and> gs_min_trades ?G \<le> bt_total_trades b"
    "\<forall>x \<in> set (gd_experiments (demo_governance Rejected)). ex_revision_id x = ''rev'' \<longrightarrow> ex_id x \<in> set [''exp'']"
    by (simp_all add: get_revision_def demo_governance_def demo_revision_def demo_experiment_def)
  have "\<not> allow_start ?G (demo_governance Rejected) (Some ''rev'')"
    by (simp add: allow_start_def revision_has_candidate_lineage_def revision_has_champion_def revision_candidates_def
        demo_governance_def demo_candidate_def demo_experiment_def)
  with deleted_experiments_lift_the_gate [OF h(1) _ h(2,3) d] d show ?thesis by auto
qed

theorem governance_admits_nobody_witness:
  "\<exists>db n. demo_governed (\<lambda>R. \<exists>w'. run_optimization demo_tools demo_sweep (daily_disk, 0) = Inr (R, w')) (db, n)
     \<and> revision_has_candidate_lineage ''rev'' db
     \<and> \<not> allow_start \<lparr>gs_production = True, gs_require_champion = True, gs_min_trades = 20\<rparr> db (Some ''rev'')"
proof -
  let ?g = "demo_governed (\<lambda>R. \<exists>w'. run_optimization demo_tools demo_sweep (daily_disk, 0) = Inr (R, w'))"
  have 0: "?g ((demo_governance Archived)\<lparr>gd_candidates := []\<rparr>, 0)" by (rule governed.start) (simp_all add: demo_governance_def)
  obtain db1 where db1: "db1 = demo_governance Candidate_state" by blast
  have 1: "create_candidate unary_env ''exp'' None None ((demo_governance Archived)\<lparr>gd_candidates := []\<rparr>, 0)
      = Inr (demo_candidate Candidate_state, (db1, Suc (Suc 0)))"
    by (simp add: db1 create_candidate_def demo_governance_def flush_def demo_candidate_def fresh_id_def unary_env_def Let_def)
  have d1: "gd_candidates db1 = [demo_candidate Candidate_state]" "gd_evaluations db1 = []" "gd_experiments db1 = [demo_experiment]"
      "flush db1 = Inr db1"
    by (simp_all add: db1 demo_governance_def flush_def demo_candidate_def)
  note g1 = governed.created [OF 0 1]
  obtain R w' where R: "run_optimization demo_tools demo_sweep (daily_disk, 0) = Inr (R, w')" by (rule demo_result)
  obtain checks reason where e: "evaluate_candidate (\<lambda>x. []) (\<lambda>x. []) R = (checks, Rejected_verdict, reason)"
    using sweep_rejected [OF R] by blast
  obtain row where 2: "run_candidate_evaluation unary_env (\<lambda>x. []) (\<lambda>x. []) ''cand_'' R (db1, Suc (Suc 0))
      = Inr (Some row, (db1\<lparr>gd_evaluations := [row], gd_candidates := [demo_candidate Rejected]\<rparr>, Suc (Suc (Suc (Suc 0)))))"
    using demo_evaluation [OF d1(4,2,1) e, of "Suc (Suc 0)"] by auto
  obtain db2 where db2: "db2 = db1\<lparr>gd_evaluations := [row], gd_candidates := [demo_candidate Rejected]\<rparr>" by blast
  note 2 = 2 [folded db2]
  have d2: "gd_candidates db2 = [demo_candidate Rejected]" "gd_experiments db2 = [demo_experiment]"
    using d1(3) by (simp_all add: db2)
  have r: "\<exists>w'. run_optimization demo_tools demo_sweep (daily_disk, 0) = Inr (R, w')" using R by blast
  note g2 = governed.evaluated [OF g1 r 2]
  have l: "revision_has_candidate_lineage ''rev'' db2"
    by (simp add: revision_has_candidate_lineage_def revision_candidates_def d2 demo_candidate_def demo_experiment_def)
  have s: "\<forall>R. (\<exists>w'. run_optimization demo_tools demo_sweep (daily_disk, 0) = Inr (R, w')) \<longrightarrow>
      (\<exists>(T :: unit sweep_tools) Q w w'. run_optimization T Q w = Inr (R, w'))" by blast
  from governance_admits_nobody [OF g2 s] g2 l show ?thesis by auto
qed

end
