(* ===== verification/LiveManager.thy ===== *)
theory LiveManager
  imports RuntimeSafety JobRunner EventBus Calendar
begin

text \<open>
  \<^verbatim>\<open>backend/src/runtime/live_stack.py\<close>, \<^verbatim>\<open>live_manager.py\<close> and \<^verbatim>\<open>scheduler.py\<close>: live and paper trading. A
  stack is a runtime with its platform; the manager builds one when it starts or changes its mode,
  and a scheduler fires the cycles. Scheduled cycles wait for one lock (\<^verbatim>\<open>_cycle_lock\<close>) and read and
  write the manager's state under another (\<^verbatim>\<open>_lock\<close>), so a cycle has three atomic steps: it
  begins (reads the state), works (runs on the stack it read) and commits (writes the state).
  Between them the manager may be stopped, started or switched. Stacks and schedulers are objects:
  the world keeps all that were ever made, and refers to them by number.
\<close>

subsection \<open>Settings and the stack\<close>

record cron =
  cron_hour :: string
  cron_minute :: string

definition cron_for_timeframe :: "string \<Rightarrow> cron" where
  "cron_for_timeframe tf =
     (if tf = ''1h'' then \<lparr>cron_hour = ''*'', cron_minute = ''1''\<rparr>
      else if tf = ''4h'' then \<lparr>cron_hour = ''*/4'', cron_minute = ''1''\<rparr>
      else if tf = ''1d'' then \<lparr>cron_hour = ''0'', cron_minute = ''5''\<rparr>
      else \<lparr>cron_hour = ''*'', cron_minute = ''*/15''\<rparr>)"

text \<open>The configuration files and what is outside: the exchange, the handlers of the event bus, redis, the
  pinger of the alerts (none, or an answer), and the times at which a job would run next.\<close>

record 'x live_settings =
  ls_config :: config_files
  ls_features_hash :: string
  ls_fill_model :: fill_model
  ls_compute :: "indicator_params indicator_fun"
  ls_exchange :: exchange
  ls_exchange_known :: bool
  ls_websocket :: "'x handler"
  ls_database :: "'x handler option"
  ls_telegram :: "'x handler"
  ls_telegram_configured :: bool
  ls_development :: bool
  ls_redis :: "tick \<Rightarrow> 'x redis"
  ls_outside :: 'x
  ls_ping :: "tick \<Rightarrow> bool"
  ls_alert_pinger :: "(tick \<Rightarrow> bool result) option"
  ls_default_job :: "(string \<times> string) result"
  ls_next_run :: "string \<Rightarrow> tick \<Rightarrow> string option"
  ls_error_text :: "py_error \<Rightarrow> string"

type_synonym 'x live_world = "event list \<times> 'x"

type_synonym 'x live_stack = "(indicator_params, 'x live_world) runtime \<times> 'x live_world platform"

definition build_handlers :: "'x live_settings \<Rightarrow> run_mode \<Rightarrow> 'x handler list" where
  "build_handlers L m =
     [ls_websocket L] @ (case ls_database L of None \<Rightarrow> [] | Some h \<Rightarrow> [h])
     @ (if m = Live_mode \<or> (m = Paper_mode \<and> ls_telegram_configured L \<and> ls_development L) then [ls_telegram L] else [])"

text \<open>With redis the bus has a connection; without, it is the one in memory. The handlers of a bus are its
  own for good: what changes is what was published, and the world of the handlers.\<close>

definition create_event_bus :: "'x handler list \<Rightarrow> 'x redis \<Rightarrow> event \<Rightarrow> 'x live_world \<Rightarrow> 'x live_world \<times> unit result" where
  "create_event_bus hs conn e = (\<lambda>(published, x).
     let b = \<lparr>bus_handlers = hs, bus_published = published\<rparr>
     in case (case conn of None \<Rightarrow> memory_publish e (b, x) | Some send \<Rightarrow> redis_publish (Some send) e (b, x)) of
          ((b', x'), r) \<Rightarrow> ((bus_published b', x'), r))"

definition live_runtime :: "env \<Rightarrow> 'x live_settings \<Rightarrow> run_mode \<Rightarrow> provider list \<Rightarrow> 'x redis \<Rightarrow> (indicator_params, 'x live_world) runtime" where
  "live_runtime E L m pvs conn =
     \<lparr>rt_latest = live_latest (ls_exchange L) E, rt_compute = ls_compute L, rt_features = cf_features (ls_config L),
      rt_hash = ls_features_hash L, rt_providers = pvs, rt_engine = cf_engine (ls_config L),
      rt_exec = Some \<lparr>xs_fill_model = ls_fill_model L, xs_config = cf_execution (ls_config L), xs_mode = m, xs_emit_events = True\<rparr>,
      rt_publish = create_event_bus (build_handlers L m) conn, rt_portfolio_id = ''portfolio_default'', rt_mode = m, rt_persist = True, rt_emit = True\<rparr>"

text \<open>The store of a stack is new, and keeps the default mode of a store.\<close>

definition build_live_stack :: "env \<Rightarrow> 'x live_settings \<Rightarrow> run_mode \<Rightarrow> tick \<Rightarrow> ('x live_stack \<times> tick) result" where
  "build_live_stack E L m n =
     (if \<not> ls_exchange_known L then Inl (DataProviderError ''Unsupported exchange'')
      else
        case init_store E ''portfolio_default'' Validation_mode 10000 None n of
          (s, n1) \<Rightarrow>
            and_then (load_providers provider_classes (cf_providers (ls_config L))) (\<lambda>pvs.
              Inr ((live_runtime E L m pvs (ls_redis L n1),
                    new_platform s (Wall_clock None) ([], ls_outside L) n1), n1)))"

definition check_connectivity :: "'x live_settings \<Rightarrow> tick \<Rightarrow> (bool \<times> bool) result" where
  "check_connectivity L n =
     (case ls_alert_pinger L of
        None \<Rightarrow> Inr (ls_ping L n, False)
      | Some pinger \<Rightarrow> and_then (pinger n) (\<lambda>ok. Inr (ls_ping L n, ok)))"


subsection \<open>The manager\<close>

datatype live_status = Stopped_status | Running_status | Paused_status

record live_job =
  lj_symbol :: string
  lj_timeframe :: string
  lj_next_run_at :: "string option"

text \<open>A scheduler: its jobs by their identifiers, and whether it still fires them.\<close>

record live_scheduler =
  sd_jobs :: "(string, string \<times> string \<times> cron) dict"
  sd_alive :: bool

text \<open>A cycle that holds the cycle lock: what it read, and what its work gave.\<close>

record live_cycle =
  lc_symbol :: string
  lc_timeframe :: string
  lc_stack :: nat
  lc_revision_id :: "string option"
  lc_experiment_id :: "string option"
  lc_result :: "cycle_result result option"

record 'x live_manager =
  lm_status :: live_status
  lm_mode :: run_mode
  lm_last_run_at :: "datetime option"
  lm_last_signal_at :: "datetime option"
  lm_last_error :: "string option"
  lm_exchange_connected :: bool
  lm_alerts_connected :: bool
  lm_revision_id :: "string option"
  lm_experiment_id :: "string option"
  lm_jobs :: "live_job list"
  lm_scheduler :: "nat option"
  lm_stack :: "nat option"
  lm_schedulers :: "live_scheduler list"
  lm_stacks :: "'x live_stack list"
  lm_waiting :: "(string \<times> string) list"
  lm_cycle :: "live_cycle option"
  lm_cycles_total :: "run_mode list"
  lm_tick :: tick

definition new_live_manager :: "tick \<Rightarrow> 'x live_manager" where
  "new_live_manager n =
     \<lparr>lm_status = Stopped_status, lm_mode = Paper_mode, lm_last_run_at = None, lm_last_signal_at = None, lm_last_error = None,
      lm_exchange_connected = False, lm_alerts_connected = False, lm_revision_id = None, lm_experiment_id = None,
      lm_jobs = [], lm_scheduler = None, lm_stack = None, lm_schedulers = [], lm_stacks = [], lm_waiting = [],
      lm_cycle = None, lm_cycles_total = [], lm_tick = n\<rparr>"

definition job_id :: "string \<Rightarrow> string \<Rightarrow> string" where
  "job_id symb tf = ''live_'' @ map (\<lambda>ch. if ch = CHR ''/'' then CHR ''_'' else ch) symb @ ''_'' @ tf"

definition shutdown_scheduler :: "nat option \<Rightarrow> 'x live_manager \<Rightarrow> 'x live_manager" where
  "shutdown_scheduler k M =
     (case k of None \<Rightarrow> M
      | Some i \<Rightarrow> if i < length (lm_schedulers M)
          then M\<lparr>lm_schedulers := (lm_schedulers M)[i := (lm_schedulers M ! i)\<lparr>sd_alive := False\<rparr>]\<rparr> else M)"

definition stop_unlocked :: "'x live_manager \<Rightarrow> 'x live_manager \<times> nat option" where
  "stop_unlocked M = (M\<lparr>lm_status := Stopped_status, lm_scheduler := None, lm_stack := None, lm_jobs := []\<rparr>, lm_scheduler M)"

definition rebuild_stack :: "env \<Rightarrow> 'x live_settings \<Rightarrow> run_mode \<Rightarrow> 'x live_manager \<Rightarrow> 'x live_manager \<times> unit result" where
  "rebuild_stack E L m M =
     (case build_live_stack E L m (lm_tick M) of
        Inl e \<Rightarrow> (M, Inl e)
      | Inr (stack, n) \<Rightarrow>
          let M1 = M\<lparr>lm_stacks := lm_stacks M @ [stack], lm_stack := Some (length (lm_stacks M)), lm_tick := n\<rparr>
          in (case check_connectivity L n of
                Inl e \<Rightarrow> (M1, Inl e)
              | Inr (exchange_ok, alerts_ok) \<Rightarrow>
                  (M1\<lparr>lm_exchange_connected := exchange_ok, lm_alerts_connected := alerts_ok\<rparr>, Inr ())))"

definition scheduled :: "(string \<times> string) list \<Rightarrow> (string, string \<times> string \<times> cron) dict" where
  "scheduled jobs = foldl (\<lambda>d (symb, tf). dict_set d (job_id symb tf) (symb, tf, cron_for_timeframe tf)) [] jobs"

definition start_unlocked ::
  "env \<Rightarrow> 'x live_settings \<Rightarrow> run_mode \<Rightarrow> (string \<times> string) list \<Rightarrow> string option \<Rightarrow> string option
   \<Rightarrow> 'x live_manager \<Rightarrow> 'x live_manager \<times> unit result" where
  "start_unlocked E L m jobs revision experiment_id M =
     (if lm_scheduler M \<noteq> None \<and> lm_status M = Running_status then (M, Inr ())
      else
        case rebuild_stack E L m M of
          (M1, Inl e) \<Rightarrow> (M1, Inl e)
        | (M1, Inr _) \<Rightarrow>
            let M2 = M1\<lparr>lm_mode := m, lm_revision_id := revision, lm_experiment_id := experiment_id,
                        lm_status := Running_status, lm_jobs := []\<rparr>
            in (case (if jobs \<noteq> [] then Inr jobs else and_then (ls_default_job L) (\<lambda>j. Inr [j])) of
                  Inl e \<Rightarrow> (M2, Inl e)
                | Inr job_list \<Rightarrow>
                    (M2\<lparr>lm_schedulers := lm_schedulers M2 @ [\<lparr>sd_jobs = scheduled job_list, sd_alive = True\<rparr>],
                        lm_scheduler := Some (length (lm_schedulers M2)),
                        lm_jobs := map (\<lambda>(symb, tf). \<lparr>lj_symbol = symb, lj_timeframe = tf,
                          lj_next_run_at = ls_next_run L (job_id symb tf) (lm_tick M2)\<rparr>) job_list\<rparr>, Inr ())))"

definition stop_live :: "'x live_manager \<Rightarrow> 'x live_manager" where
  "stop_live M = (case stop_unlocked M of (M1, k) \<Rightarrow> shutdown_scheduler k M1)"

text \<open>When the start inside raises, the scheduler that was taken out is not shut down.\<close>

definition set_live_mode :: "env \<Rightarrow> 'x live_settings \<Rightarrow> run_mode \<Rightarrow> 'x live_manager \<Rightarrow> 'x live_manager \<times> unit result" where
  "set_live_mode E L m M =
     (let was_running = (lm_status M = Running_status);
          jobs = map (\<lambda>j. (lj_symbol j, lj_timeframe j)) (lm_jobs M)
      in case stop_unlocked M of (M1, k) \<Rightarrow>
         (if was_running \<and> jobs \<noteq> [] then
            (case start_unlocked E L m jobs (lm_revision_id M) (lm_experiment_id M) M1 of
               (M2, Inl e) \<Rightarrow> (M2, Inl e)
             | (M2, Inr _) \<Rightarrow> (shutdown_scheduler k M2, Inr ()))
          else (shutdown_scheduler k (M1\<lparr>lm_mode := m\<rparr>), Inr ())))"


subsection \<open>Scheduled cycles\<close>

text \<open>A live scheduler fires a job: a task that waits for the cycle lock.\<close>

definition fire_job :: "nat \<Rightarrow> string \<Rightarrow> 'x live_manager \<Rightarrow> 'x live_manager" where
  "fire_job k jid M =
     (if k < length (lm_schedulers M) \<and> sd_alive (lm_schedulers M ! k) then
        (case dict_get (sd_jobs (lm_schedulers M ! k)) jid of
           None \<Rightarrow> M
         | Some (symb, tf, _) \<Rightarrow> M\<lparr>lm_waiting := lm_waiting M @ [(symb, tf)]\<rparr>)
      else M)"

definition begin_cycle :: "env \<Rightarrow> 'x live_settings \<Rightarrow> 'x live_manager \<Rightarrow> 'x live_manager" where
  "begin_cycle E L M =
     (case (lm_cycle M, lm_waiting M) of
        (None, (symb, tf) # rest) \<Rightarrow>
          let M1 = M\<lparr>lm_waiting := rest\<rparr> in
          if lm_status M1 \<noteq> Running_status then M1
          else
            (case (if lm_stack M1 = None then rebuild_stack E L (lm_mode M1) M1 else (M1, Inr ())) of
               (M2, Inl _) \<Rightarrow> M2
             | (M2, Inr _) \<Rightarrow>
                 (case lm_stack M2 of
                    None \<Rightarrow> M2
                  | Some i \<Rightarrow> M2\<lparr>lm_cycle := Some \<lparr>lc_symbol = symb, lc_timeframe = tf, lc_stack = i,
                      lc_revision_id = lm_revision_id M, lc_experiment_id = lm_experiment_id M, lc_result = None\<rparr>\<rparr>))
      | _ \<Rightarrow> M)"

definition stamp_of :: "datetime \<Rightarrow> string" where
  "stamp_of t =
     (let secs = t mod 86400000000 div 1000000
      in filter (\<lambda>ch. ch \<noteq> CHR ''-'') (iso_date (date_of t))
         @ pad 2 (nat (secs div 3600)) @ pad 2 (nat (secs div 60 mod 60)) @ pad 2 (nat (secs mod 60)))"

definition live_correlation_id :: "string \<Rightarrow> string \<Rightarrow> datetime \<Rightarrow> string" where
  "live_correlation_id symb tf t = ''live_'' @ filter (\<lambda>ch. ch \<noteq> CHR ''/'') symb @ ''_'' @ tf @ ''_'' @ stamp_of t"

text \<open>The work of a cycle draws its identifiers after those drawn before it, whichever stack drew them.\<close>

definition work_cycle :: "env \<Rightarrow> 'x live_manager \<Rightarrow> 'x live_manager" where
  "work_cycle E M =
     (case lm_cycle M of
        None \<Rightarrow> M
      | Some c \<Rightarrow>
          if lc_result c = None \<and> lc_stack c < length (lm_stacks M) then
            (case lm_stacks M ! lc_stack c of (R, p) \<Rightarrow>
              let now = wall_clock E (lm_tick M);
                  a = \<lparr>ca_symbol = lc_symbol c, ca_timeframe = lc_timeframe c,
                       ca_correlation_id = Some (live_correlation_id (lc_symbol c) (lc_timeframe c) now),
                       ca_revision_id = lc_revision_id c, ca_experiment_id = lc_experiment_id c\<rparr>
              in (case run_cycle E R a (p\<lparr>pl_tick := Suc (lm_tick M)\<rparr>) of
                    (q, r) \<Rightarrow> M\<lparr>lm_stacks := (lm_stacks M)[lc_stack c := (R, q)], lm_tick := max (lm_tick M) (pl_tick q),
                               lm_cycle := Some (c\<lparr>lc_result := Some r\<rparr>)\<rparr>))
          else M)"

definition commit_cycle :: "env \<Rightarrow> 'x live_settings \<Rightarrow> 'x live_manager \<Rightarrow> 'x live_manager" where
  "commit_cycle E L M =
     (case lm_cycle M of
        None \<Rightarrow> M
      | Some c \<Rightarrow>
          (case lc_result c of
             None \<Rightarrow> M
           | Some r \<Rightarrow>
               let M1 = M\<lparr>lm_cycle := None\<rparr> in
               if lm_status M1 \<noteq> Running_status then M1
               else
                 (case r of
                    Inl e \<Rightarrow> M1\<lparr>lm_last_error := Some (ls_error_text L e)\<rparr>
                  | Inr res \<Rightarrow>
                      let M2 = M1\<lparr>lm_last_run_at := Some (wall_clock E (lm_tick M1)), lm_last_error := None,
                                  lm_cycles_total := lm_cycles_total M1 @ [lm_mode M1], lm_tick := Suc (lm_tick M1)\<rparr>
                      in if is_approved (cr_decision res)
                         then M2\<lparr>lm_last_signal_at := Some (wall_clock E (lm_tick M2)), lm_tick := Suc (lm_tick M2)\<rparr>
                         else M2)))"

datatype live_event =
    Start_live run_mode "(string \<times> string) list" "string option" "string option"
  | Stop_live
  | Switch_live run_mode
  | Fire_job nat string
  | Begin_cycle
  | Work_cycle
  | Commit_cycle

definition live_step :: "env \<Rightarrow> 'x live_settings \<Rightarrow> live_event \<Rightarrow> 'x live_manager \<Rightarrow> 'x live_manager" where
  "live_step E L ev M =
     (case ev of
        Start_live m jobs revision experiment_id \<Rightarrow> fst (start_unlocked E L m jobs revision experiment_id M)
      | Stop_live \<Rightarrow> stop_live M
      | Switch_live m \<Rightarrow> fst (set_live_mode E L m M)
      | Fire_job k jid \<Rightarrow> fire_job k jid M
      | Begin_cycle \<Rightarrow> begin_cycle E L M
      | Work_cycle \<Rightarrow> work_cycle E M
      | Commit_cycle \<Rightarrow> commit_cycle E L M)"

inductive live_reachable :: "env \<Rightarrow> 'x live_settings \<Rightarrow> 'x live_manager \<Rightarrow> 'x live_manager \<Rightarrow> bool" for E L M where
  begun: "live_reachable E L M M"
| step: "live_reachable E L M N \<Longrightarrow> live_reachable E L M (live_step E L ev N)"



subsection \<open>What every reachable manager keeps\<close>

definition stack_sound :: "env \<Rightarrow> tick \<Rightarrow> 'x live_stack \<Rightarrow> bool" where
  "stack_sound E n st \<longleftrightarrow> sound E (fst st) (snd st) \<and> pl_tick (snd st) \<le> n \<and> market_data (rt_latest (fst st))"

definition manager_sound :: "env \<Rightarrow> 'x live_manager \<Rightarrow> bool" where
  "manager_sound E M \<longleftrightarrow>
     (\<forall>st \<in> set (lm_stacks M). stack_sound E (lm_tick M) st)
     \<and> (\<forall>i. lm_stack M = Some i \<longrightarrow> i < length (lm_stacks M))
     \<and> (\<forall>k. lm_scheduler M = Some k \<longrightarrow> k < length (lm_schedulers M) \<and> sd_alive (lm_schedulers M ! k))
     \<and> (\<forall>c. lm_cycle M = Some c \<longrightarrow> lc_stack c < length (lm_stacks M))
     \<and> (lm_status M = Running_status \<longrightarrow> lm_stack M \<noteq> None)"

lemma stack_sound_mono: "stack_sound E m st \<Longrightarrow> m \<le> n \<Longrightarrow> stack_sound E n st"
  by (simp add: stack_sound_def)

lemma built_stack:
  assumes "build_live_stack E L m n = Inr (st, n1)"
  shows "n \<le> n1" and "stack_sound E n1 st" and "pl_clock (snd st) = Wall_clock None" and "book (pl_store (snd st)) = []"
proof -
  obtain s k where i: "init_store E ''portfolio_default'' Validation_mode 10000 None n = (s, k)" by fastforce
  from assms obtain pvs where st: "st = (live_runtime E L m pvs (ls_redis L k),
      new_platform s (Wall_clock None) ([], ls_outside L) k)" and n1: "n1 = k"
    by (auto simp: build_live_stack_def i and_then_Inr_iff split: if_splits)
  have k: "k = Suc n" "book s = []" using i by (auto simp: init_store_def Let_def)
  show "n \<le> n1" using k n1 by simp
  have "init_store E (rt_portfolio_id (live_runtime E L m pvs (ls_redis L k))) Validation_mode 10000 None n = (s, k)"
    using i by (simp add: live_runtime_def)
  then have "sound E (live_runtime E L m pvs (ls_redis L k)) (new_platform s (Wall_clock None) ([], ls_outside L) k)"
    by (rule new_platform_sound) (simp add: default_limits_def)
  then show "stack_sound E n1 st"
    by (simp add: stack_sound_def st n1 live_runtime_def new_platform_def live.market_data_axioms)
  show "pl_clock (snd st) = Wall_clock None" "book (pl_store (snd st)) = []" using k by (simp_all add: st new_platform_def)
qed

lemma new_manager_sound: "manager_sound E (new_live_manager n)"
  by (simp add: manager_sound_def new_live_manager_def)

lemma shutdown_sound: "manager_sound E M \<Longrightarrow> lm_scheduler M \<noteq> k \<or> k = None \<Longrightarrow> manager_sound E (shutdown_scheduler k M)"
  by (auto simp: manager_sound_def shutdown_scheduler_def nth_list_update split: option.splits)

lemma rebuild_facts:
  assumes "rebuild_stack E L m M = (M1, r)"
  shows "M1 = M\<lparr>lm_stacks := lm_stacks M1, lm_stack := lm_stack M1, lm_tick := lm_tick M1,
      lm_exchange_connected := lm_exchange_connected M1, lm_alerts_connected := lm_alerts_connected M1\<rparr>"
    and "manager_sound E M \<Longrightarrow> manager_sound E M1"
    and "r = Inr () \<Longrightarrow> lm_stack M1 = Some (length (lm_stacks M)) \<and> length (lm_stacks M1) = Suc (length (lm_stacks M))"
proof -
  have "M1 = M\<lparr>lm_stacks := lm_stacks M1, lm_stack := lm_stack M1, lm_tick := lm_tick M1,
      lm_exchange_connected := lm_exchange_connected M1, lm_alerts_connected := lm_alerts_connected M1\<rparr>
    \<and> (manager_sound E M \<longrightarrow> manager_sound E M1)
    \<and> (r = Inr () \<longrightarrow> lm_stack M1 = Some (length (lm_stacks M)) \<and> length (lm_stacks M1) = Suc (length (lm_stacks M)))"
  proof (cases "build_live_stack E L m (lm_tick M)")
    case (Inl e)
    with assms show ?thesis by (auto simp: rebuild_stack_def)
  next
    case (Inr x)
    obtain st n where x: "x = (st, n)" by (cases x)
    note b = built_stack [OF Inr [unfolded x]]
    let ?M = "M\<lparr>lm_stacks := lm_stacks M @ [st], lm_stack := Some (length (lm_stacks M)), lm_tick := n\<rparr>"
    have snd: "manager_sound E ?M" if "manager_sound E M"
      using that b(1,2) by (auto simp: manager_sound_def intro: stack_sound_mono less_SucI)
    have "M1 = ?M \<and> r \<noteq> Inr () \<or> (\<exists>u v. M1 = ?M\<lparr>lm_exchange_connected := u, lm_alerts_connected := v\<rparr>)"
      using assms by (cases "check_connectivity L n") (auto simp: rebuild_stack_def Inr x)
    then show ?thesis
    proof (elim disjE exE conjE)
      assume "M1 = ?M" "r \<noteq> Inr ()"
      then show ?thesis using snd by simp
    next
      fix u v assume m: "M1 = ?M\<lparr>lm_exchange_connected := u, lm_alerts_connected := v\<rparr>"
      have "manager_sound E M1 = manager_sound E ?M" by (simp add: m manager_sound_def)
      then show ?thesis using snd m by simp
    qed
  qed
  then show "M1 = M\<lparr>lm_stacks := lm_stacks M1, lm_stack := lm_stack M1, lm_tick := lm_tick M1,
      lm_exchange_connected := lm_exchange_connected M1, lm_alerts_connected := lm_alerts_connected M1\<rparr>"
    and "manager_sound E M \<Longrightarrow> manager_sound E M1"
    and "r = Inr () \<Longrightarrow> lm_stack M1 = Some (length (lm_stacks M)) \<and> length (lm_stacks M1) = Suc (length (lm_stacks M))"
    by auto
qed

lemma rebuild_frame:
  assumes "rebuild_stack E L m M = (M1, r)"
  shows "lm_status M1 = lm_status M" "lm_scheduler M1 = lm_scheduler M" "lm_schedulers M1 = lm_schedulers M"
    "lm_jobs M1 = lm_jobs M" "lm_cycle M1 = lm_cycle M" "lm_waiting M1 = lm_waiting M" "lm_cycles_total M1 = lm_cycles_total M"
    "lm_mode M1 = lm_mode M" "lm_last_run_at M1 = lm_last_run_at M"
  by (subst rebuild_facts(1) [OF assms], simp)+

lemma start_sound:
  assumes "manager_sound E M" and "start_unlocked E L m jobs rv ex M = (M', r)"
  shows "manager_sound E M'"
proof (cases "lm_scheduler M \<noteq> None \<and> lm_status M = Running_status")
  case True
  with assms show ?thesis by (auto simp: start_unlocked_def)
next
  case False
  obtain M1 r1 where b: "rebuild_stack E L m M = (M1, r1)" by fastforce
  note s = rebuild_facts(2) [OF b assms(1)] and f = rebuild_facts(3) [OF b]
  show ?thesis
  proof (cases r1)
    case (Inl e)
    with assms(2) b False s show ?thesis by (auto simp: start_unlocked_def)
  next
    case (Inr u)
    with f have "lm_stack M1 = Some (length (lm_stacks M))" by simp
    with assms(2) b False s Inr show ?thesis
      by (auto simp: start_unlocked_def manager_sound_def Let_def nth_append split: sum.splits if_splits intro: less_SucI)
  qed
qed

lemma stop_unlocked_sound: "manager_sound E M \<Longrightarrow> manager_sound E (fst (stop_unlocked M))"
  by (simp add: stop_unlocked_def manager_sound_def)


lemma switch_sound:
  assumes "manager_sound E M"
  shows "manager_sound E (fst (set_live_mode E L m M))"
proof -
  let ?k = "lm_scheduler M"
  obtain M1 where k: "stop_unlocked M = (M1, ?k)" "lm_scheduler M1 = None" "lm_schedulers M1 = lm_schedulers M"
    by (simp add: stop_unlocked_def)
  have s1: "manager_sound E M1" using stop_unlocked_sound [OF assms] k(1) by simp
  let ?jobs = "map (\<lambda>j. (lj_symbol j, lj_timeframe j)) (lm_jobs M)"
  show ?thesis
  proof (cases "lm_status M = Running_status \<and> ?jobs \<noteq> []")
    case False
    have "manager_sound E (M1\<lparr>lm_mode := m\<rparr>)" using s1 by (simp add: manager_sound_def)
    then have "manager_sound E (shutdown_scheduler ?k (M1\<lparr>lm_mode := m\<rparr>))" by (rule shutdown_sound) (use k in auto)
    with False k(1) show ?thesis by (auto simp: set_live_mode_def Let_def)
  next
    case True
    obtain M2 r where st: "start_unlocked E L m ?jobs (lm_revision_id M) (lm_experiment_id M) M1 = (M2, r)" by fastforce
    have s2: "manager_sound E M2" by (rule start_sound [OF s1 st])
    have "lm_scheduler M2 \<noteq> ?k \<or> ?k = None"
    proof -
      obtain M3 r1 where b: "rebuild_stack E L m M1 = (M3, r1)" by fastforce
      have n: "?k = Some i \<Longrightarrow> i < length (lm_schedulers M)" for i using assms by (simp add: manager_sound_def)
      show ?thesis
        using st b n rebuild_frame [OF b] k
        by (cases ?k) (auto simp: start_unlocked_def Let_def split: sum.splits if_splits)
    qed
    then have "manager_sound E (shutdown_scheduler ?k M2)" by (intro shutdown_sound [OF s2])
    with True k(1) st s2 show ?thesis by (cases r) (auto simp: set_live_mode_def Let_def)
  qed
qed

lemma begin_sound:
  assumes "manager_sound E M"
  shows "manager_sound E (begin_cycle E L M)"
proof (cases "\<exists>symb tf rest. lm_cycle M = None \<and> lm_waiting M = (symb, tf) # rest \<and> lm_status M = Running_status")
  case False
  then show ?thesis
    using assms by (auto simp: begin_cycle_def manager_sound_def Let_def split: option.splits list.splits prod.splits)
next
  case True
  then obtain symb tf rest where c: "lm_cycle M = None" "lm_waiting M = (symb, tf) # rest" "lm_status M = Running_status" by blast
  with assms obtain i where i: "lm_stack M = Some i" "i < length (lm_stacks M)" by (auto simp: manager_sound_def)
  have "begin_cycle E L M = M\<lparr>lm_waiting := rest, lm_cycle := Some \<lparr>lc_symbol = symb, lc_timeframe = tf, lc_stack = i,
      lc_revision_id = lm_revision_id M, lc_experiment_id = lm_experiment_id M, lc_result = None\<rparr>\<rparr>"
    using c i by (simp add: begin_cycle_def)
  then show ?thesis using assms i by (simp add: manager_sound_def)
qed

text \<open>What a cycle's work does to the world: one cycle of one stack.\<close>

lemma work_facts:
  assumes "manager_sound E M" and "lm_cycle M = Some c" and "lc_result c = None" and "env_distinct E"
  obtains R p q r a where "lm_stacks M ! lc_stack c = (R, p)" and "run_cycle E R a (p\<lparr>pl_tick := Suc (lm_tick M)\<rparr>) = (q, r)"
    and "work_cycle E M = M\<lparr>lm_stacks := (lm_stacks M)[lc_stack c := (R, q)], lm_tick := max (lm_tick M) (pl_tick q), lm_cycle := Some (c\<lparr>lc_result := Some r\<rparr>)\<rparr>"
    and "sound E R q" and "market_data (rt_latest R)" and "lc_stack c < length (lm_stacks M)"
proof -
  obtain R p where st: "lm_stacks M ! lc_stack c = (R, p)" by fastforce
  have lt: "lc_stack c < length (lm_stacks M)" using assms(1,2) by (simp add: manager_sound_def)
  then have "stack_sound E (lm_tick M) (R, p)" using assms(1) st by (metis manager_sound_def nth_mem)
  then have s: "sound E R (p\<lparr>pl_tick := Suc (lm_tick M)\<rparr>)" "market_data (rt_latest R)"
    by (auto simp: stack_sound_def intro: sound_tick)
  let ?a = "\<lparr>ca_symbol = lc_symbol c, ca_timeframe = lc_timeframe c,
     ca_correlation_id = Some (live_correlation_id (lc_symbol c) (lc_timeframe c) (wall_clock E (lm_tick M))),
     ca_revision_id = lc_revision_id c, ca_experiment_id = lc_experiment_id c\<rparr>"
  obtain q r where q: "run_cycle E R ?a (p\<lparr>pl_tick := Suc (lm_tick M)\<rparr>) = (q, r)" by fastforce
  have w: "work_cycle E M = M\<lparr>lm_stacks := (lm_stacks M)[lc_stack c := (R, q)], lm_tick := max (lm_tick M) (pl_tick q), lm_cycle := Some (c\<lparr>lc_result := Some r\<rparr>)\<rparr>"
    using assms(2,3) lt st q by (simp add: work_cycle_def Let_def)
  have "sound E R q" by (rule run_cycle_sound [OF s(1) assms(4) s(2) q])
  then show thesis using st q w s(2) lt that by blast
qed


lemma work_sound:
  assumes "manager_sound E M" and "env_distinct E"
  shows "manager_sound E (work_cycle E M)"
proof (cases "\<exists>c. lm_cycle M = Some c \<and> lc_result c = None")
  case False
  then have "work_cycle E M = M" by (auto simp: work_cycle_def split: option.splits)
  with assms show ?thesis by simp
next
  case True
  then obtain c where c: "lm_cycle M = Some c" "lc_result c = None" by blast
  obtain R p q r a where f: "work_cycle E M = M\<lparr>lm_stacks := (lm_stacks M)[lc_stack c := (R, q)], lm_tick := max (lm_tick M) (pl_tick q),
      lm_cycle := Some (c\<lparr>lc_result := Some r\<rparr>)\<rparr>" "sound E R q" "market_data (rt_latest R)" "lc_stack c < length (lm_stacks M)"
    by (rule work_facts [OF assms(1) c assms(2)])
  have "stack_sound E (max (lm_tick M) (pl_tick q)) st" if "st \<in> set ((lm_stacks M)[lc_stack c := (R, q)])" for st
  proof -
    from that set_update_subset_insert [of "lm_stacks M" "lc_stack c" "(R, q)"] have "st = (R, q) \<or> st \<in> set (lm_stacks M)" by blast
    then show ?thesis
      using assms(1) f(2,3) by (auto simp: manager_sound_def stack_sound_def intro: max.coboundedI1)
  qed
  then show ?thesis using assms(1) f(1,4) c(1) by (simp add: manager_sound_def)
qed

lemma commit_sound: "manager_sound E M \<Longrightarrow> manager_sound E (commit_cycle E L M)"
  by (auto simp: commit_cycle_def manager_sound_def Let_def intro: stack_sound_mono split: option.splits sum.splits)

lemma live_step_sound:
  assumes "manager_sound E M" and "env_distinct E"
  shows "manager_sound E (live_step E L ev M)"
proof (cases ev)
  case (Start_live m jobs rv ex)
  obtain M' r where s: "start_unlocked E L m jobs rv ex M = (M', r)" by fastforce
  with start_sound [OF assms(1) s] Start_live show ?thesis by (simp add: live_step_def)
next
  case Stop_live
  obtain M1 where k: "stop_unlocked M = (M1, lm_scheduler M)" "lm_scheduler M1 = None" by (simp add: stop_unlocked_def)
  have "manager_sound E M1" using stop_unlocked_sound [OF assms(1)] k(1) by simp
  with k Stop_live show ?thesis by (auto simp: live_step_def stop_live_def intro: shutdown_sound)
next
  case (Fire_job k jid)
  with assms(1) show ?thesis by (auto simp: live_step_def fire_job_def manager_sound_def split: option.splits prod.splits)
qed (simp_all add: live_step_def switch_sound begin_sound work_sound commit_sound assms)

lemma live_reachable_sound:
  assumes "live_reachable E L (new_live_manager n) M" and "env_distinct E"
  shows "manager_sound E M"
  using assms(1) by (induction rule: live_reachable.induct) (use new_manager_sound live_step_sound assms(2) in auto)

text \<open>However starts, stops, switches and scheduled cycles interleave, no two of which share a stack at
  one time, the book of every stack that was ever made stays coherent with its execution engine,
  within the limit of open positions when orders fill at once; and a manager that is running has a
  stack to run.\<close>

theorem live_books_coherent:
  assumes "live_reachable E L (new_live_manager n) M" and "env_distinct E" and "st \<in> set (lm_stacks M)"
  shows "distinct (map position_id (book (pl_store (snd st))))
    \<and> set (dict_keys (position_bars (pl_exec (snd st)))) = position_id ` set (book (pl_store (snd st)))
    \<and> set (dict_keys (position_orders (pl_exec (snd st)))) = position_id ` set (book (pl_store (snd st)))
    \<and> (\<forall>X. rt_exec (fst st) = Some X \<and> fm_fill_at (xs_fill_model X) \<noteq> At_next_open \<longrightarrow>
         pending_entries (pl_exec (snd st)) = []
         \<and> int (length (book (pl_store (snd st)))) \<le> lim_max_open_positions (limits (st_risk (pl_store (snd st)))))
    \<and> (lm_status M = Running_status \<longrightarrow> (\<exists>i < length (lm_stacks M). lm_stack M = Some i))"
proof -
  have ms: "manager_sound E M" by (rule live_reachable_sound [OF assms(1,2)])
  with assms(3) have "sound E (fst st) (snd st)" by (simp add: manager_sound_def stack_sound_def)
  with ms show ?thesis by (auto simp: sound_def coherent_book_def tracks_def manager_sound_def)
qed


subsection \<open>A session and its first bar\<close>

lemma rebuild_appends: "rebuild_stack E L m M = (M1, r) \<Longrightarrow> \<exists>xs. lm_stacks M1 = lm_stacks M @ xs"
  by (auto simp: rebuild_stack_def Let_def split: sum.splits prod.splits)

lemma start_appends: "start_unlocked E L m jobs rv ex M = (M1, r) \<Longrightarrow> \<exists>xs. lm_stacks M1 = lm_stacks M @ xs"
  by (auto simp: start_unlocked_def Let_def split: sum.splits prod.splits if_splits dest!: rebuild_appends)

lemma shutdown_stacks [simp]: "lm_stacks (shutdown_scheduler k M) = lm_stacks M"
  by (simp add: shutdown_scheduler_def split: option.split)

lemma step_appends:
  assumes "ev \<noteq> Work_cycle"
  shows "\<exists>xs. lm_stacks (live_step E L ev M) = lm_stacks M @ xs"
proof (cases ev)
  case (Start_live m jobs rv ex)
  obtain M' r where s: "start_unlocked E L m jobs rv ex M = (M', r)" by fastforce
  with start_appends [OF s] Start_live show ?thesis by (simp add: live_step_def)
next
  case (Switch_live m)
  obtain M1 where k: "stop_unlocked M = (M1, lm_scheduler M)" "lm_stacks M1 = lm_stacks M" by (simp add: stop_unlocked_def)
  let ?jobs = "map (\<lambda>j. (lj_symbol j, lj_timeframe j)) (lm_jobs M)"
  obtain M2 r where st: "start_unlocked E L m ?jobs (lm_revision_id M) (lm_experiment_id M) M1 = (M2, r)" by fastforce
  from start_appends [OF st] k Switch_live st show ?thesis
    by (auto simp: live_step_def set_live_mode_def Let_def split: sum.splits)
next
  case Begin_cycle
  then show ?thesis
    by (auto simp: live_step_def begin_cycle_def Let_def dest: rebuild_appends split: option.splits list.splits prod.splits sum.splits if_splits)
next
  case (Fire_job k jid)
  then show ?thesis by (auto simp: live_step_def fire_job_def split: option.splits prod.splits)
next
  case Stop_live
  then show ?thesis by (simp add: live_step_def stop_live_def stop_unlocked_def)
next
  case Commit_cycle
  then show ?thesis by (auto simp: live_step_def commit_cycle_def Let_def split: option.splits sum.splits)
qed (use assms in simp)

definition stack_clock :: "'x live_manager \<Rightarrow> nat \<Rightarrow> clock" where
  "stack_clock M i = pl_clock (snd (lm_stacks M ! i))"

lemma clock_kept:
  assumes "manager_sound E M" and "env_distinct E" and "i < length (lm_stacks M)" and "stack_clock M i = Wall_clock (Some u)"
  shows "i < length (lm_stacks (live_step E L ev M)) \<and> (\<exists>v \<le> u. stack_clock (live_step E L ev M) i = Wall_clock (Some v))"
proof (cases "ev = Work_cycle \<and> (\<exists>c. lm_cycle M = Some c \<and> lc_result c = None)")
  case False
  have "\<exists>xs. lm_stacks (live_step E L ev M) = lm_stacks M @ xs"
  proof (cases "ev = Work_cycle")
    case True
    with False have "work_cycle E M = M" by (auto simp: work_cycle_def split: option.splits)
    with True show ?thesis by (simp add: live_step_def)
  qed (rule step_appends)
  then show ?thesis using assms(3,4) by (auto simp: stack_clock_def nth_append)
next
  case True
  then obtain c where c: "lm_cycle M = Some c" "lc_result c = None" and w: "ev = Work_cycle" by blast
  obtain R p q r a where f: "lm_stacks M ! lc_stack c = (R, p)" "run_cycle E R a (p\<lparr>pl_tick := Suc (lm_tick M)\<rparr>) = (q, r)"
      "work_cycle E M = M\<lparr>lm_stacks := (lm_stacks M)[lc_stack c := (R, q)], lm_tick := max (lm_tick M) (pl_tick q),
      lm_cycle := Some (c\<lparr>lc_result := Some r\<rparr>)\<rparr>" "market_data (rt_latest R)" "lc_stack c < length (lm_stacks M)"
    by (rule work_facts [OF assms(1) c assms(2)])
  show ?thesis
  proof (cases "i = lc_stack c")
    case False
    then have "stack_clock (live_step E L ev M) i = stack_clock M i" by (simp add: w live_step_def f(3) stack_clock_def)
    with assms(3,4) show ?thesis by (auto simp: w live_step_def f(3))
  next
    case True
    then have "pl_clock (p\<lparr>pl_tick := Suc (lm_tick M)\<rparr>) = Wall_clock (Some u)" using assms(4) f(1) by (simp add: stack_clock_def)
    from cycle_clock [OF f(2,4) this] True assms(3) f(5) show ?thesis by (auto simp: w live_step_def f(3) stack_clock_def)
  qed
qed

text \<open>C4: a session repeats its first bar. The stack of a session runs on a wall clock that answers with the
  time of the bar it handled last; once it has handled one bar, no later cycle of the session,
  whatever job fires it and however much time has passed, decides on a newer bar.\<close>

theorem live_session_repeats_first_bar:
  assumes "live_reachable E L (new_live_manager n) M" and "env_distinct E"
    and "i < length (lm_stacks M)" and "stack_clock M i = Wall_clock (Some u)"
    and "live_reachable E L M N" and "lm_cycle N = Some c" and "lc_stack c = i" and "lc_result c = None"
    and "lm_cycle (live_step E L Work_cycle N) = Some c'" and "lc_result c' = Some (Inr res)"
  shows "dec_event_time (cr_decision res) \<le> u"
proof -
  have sM: "manager_sound E M" by (rule live_reachable_sound [OF assms(1,2)])
  from assms(5) have "manager_sound E N \<and> i < length (lm_stacks N) \<and> (\<exists>v \<le> u. stack_clock N i = Wall_clock (Some v))"
  proof (induction rule: live_reachable.induct)
    case begun
    with sM assms(3,4) show ?case by blast
  next
    case (step N ev)
    then obtain v where "v \<le> u" "stack_clock N i = Wall_clock (Some v)" by blast
    with step.IH clock_kept [of E N i v L ev] live_step_sound [of E N L ev] assms(2) show ?case by (meson order_trans)
  qed
  then obtain v where N: "manager_sound E N" "v \<le> u" "stack_clock N i = Wall_clock (Some v)" by blast
  obtain R p q r a where f: "lm_stacks N ! lc_stack c = (R, p)" "run_cycle E R a (p\<lparr>pl_tick := Suc (lm_tick N)\<rparr>) = (q, r)"
      "work_cycle E N = N\<lparr>lm_stacks := (lm_stacks N)[lc_stack c := (R, q)], lm_tick := max (lm_tick N) (pl_tick q),
      lm_cycle := Some (c\<lparr>lc_result := Some r\<rparr>)\<rparr>" "market_data (rt_latest R)"
    by (rule work_facts [OF N(1) assms(6,8,2)])
  have "r = Inr res" using assms(9,10) by (auto simp: live_step_def f(3))
  then obtain c1 m p1 c2 n1 where "p1 = (p\<lparr>pl_tick := Suc (lm_tick N)\<rparr>)\<lparr>pl_clock := set_event_time (cy_event_time c1) (pl_clock (p\<lparr>pl_tick := Suc (lm_tick N)\<rparr>)), pl_tick := n1\<rparr>"
    and t: "cy_event_time c1 \<le> fst (now_event_time E (pl_clock (p\<lparr>pl_tick := Suc (lm_tick N)\<rparr>)) m)" and b: "cycle_body E R (p1, c1) = ((q, c2), Inr res)"
    using run_cycle_Inr [OF f(2) [unfolded \<open>r = Inr res\<close>] f(4)] by metis
  have "pl_clock p = Wall_clock (Some v)" using N(3) f(1) assms(7) by (simp add: stack_clock_def)
  with t cycle_decision_time [OF b] N(2) show ?thesis by (simp add: now_event_time_def)
qed



subsection \<open>Schedulers\<close>

lemma started:
  assumes "start_unlocked E L m jobs rv ex M = (M', Inr ())" and "lm_scheduler M = None" and "jobs \<noteq> []"
  shows "lm_schedulers M' = lm_schedulers M @ [\<lparr>sd_jobs = scheduled jobs, sd_alive = True\<rparr>]"
    and "lm_scheduler M' = Some (length (lm_schedulers M))" and "lm_status M' = Running_status" and "lm_mode M' = m"
    and "lm_cycle M' = lm_cycle M" and "lm_cycles_total M' = lm_cycles_total M" and "lm_waiting M' = lm_waiting M"
    and "lm_stack M' = Some (length (lm_stacks M))"
proof -
  obtain M1 r1 where b: "rebuild_stack E L m M = (M1, r1)" by fastforce
  have r1: "r1 = Inr ()" using assms b by (cases r1) (auto simp: start_unlocked_def)
  have M': "M' = M1\<lparr>lm_mode := m, lm_revision_id := rv, lm_experiment_id := ex, lm_status := Running_status,
      lm_schedulers := lm_schedulers M1 @ [\<lparr>sd_jobs = scheduled jobs, sd_alive = True\<rparr>],
      lm_scheduler := Some (length (lm_schedulers M1)),
      lm_jobs := map (\<lambda>(symb, tf). \<lparr>lj_symbol = symb, lj_timeframe = tf,
        lj_next_run_at = ls_next_run L (job_id symb tf) (lm_tick M1)\<rparr>) jobs\<rparr>"
    using assms b r1 by (simp add: start_unlocked_def Let_def)
  note f = rebuild_frame [OF b]
  show "lm_schedulers M' = lm_schedulers M @ [\<lparr>sd_jobs = scheduled jobs, sd_alive = True\<rparr>]"
    "lm_scheduler M' = Some (length (lm_schedulers M))" "lm_status M' = Running_status" "lm_mode M' = m"
    "lm_cycle M' = lm_cycle M" "lm_cycles_total M' = lm_cycles_total M" "lm_waiting M' = lm_waiting M"
    unfolding M' using f by simp_all
  show "lm_stack M' = Some (length (lm_stacks M))" unfolding M' using rebuild_facts(3) [OF b r1] by simp
qed

lemma start_fails:
  assumes "start_unlocked E L m jobs rv ex M = (M', Inl e)" and "jobs \<noteq> []"
  shows "lm_schedulers M' = lm_schedulers M" and "lm_scheduler M' = lm_scheduler M" and "lm_status M' = lm_status M"
    and "lm_waiting M' = lm_waiting M"
proof -
  obtain M1 r1 where b: "rebuild_stack E L m M = (M1, r1)" by fastforce
  have "M' = M1" using assms b by (auto simp: start_unlocked_def Let_def split: sum.splits if_splits)
  then show "lm_schedulers M' = lm_schedulers M" "lm_scheduler M' = lm_scheduler M" "lm_status M' = lm_status M"
    "lm_waiting M' = lm_waiting M"
    using rebuild_frame [OF b] by simp_all
qed

lemma fired:
  assumes "k < length (lm_schedulers M)" and "sd_alive (lm_schedulers M ! k)"
    and "dict_get (sd_jobs (lm_schedulers M ! k)) jid = Some (symb, tf, cr)"
  shows "fire_job k jid M = M\<lparr>lm_waiting := lm_waiting M @ [(symb, tf)]\<rparr>"
  using assms by (simp add: fire_job_def)

text \<open>C22: a failed switch leaves the old scheduler firing. When switching the mode of a running manager
  raises, nobody shuts down the scheduler that was taken out; after the next start two schedulers
  are alive, and a job that both have is run twice each time it is due.\<close>

theorem failed_switch_leaks_scheduler:
  assumes "manager_sound E M" and "lm_status M = Running_status" and "lm_scheduler M = Some k" and "lm_jobs M \<noteq> []"
    and "set_live_mode E L m M = (M1, Inl e)"
    and "start_unlocked E L' m' jobs rv ex M1 = (M2, Inr ())" and "jobs \<noteq> []"
  shows "\<exists>k'. k' \<noteq> k \<and> lm_scheduler M2 = Some k' \<and> sd_alive (lm_schedulers M2 ! k) \<and> sd_alive (lm_schedulers M2 ! k')
    \<and> (\<forall>jid symb tf cr. dict_get (sd_jobs (lm_schedulers M ! k)) jid = Some (symb, tf, cr) \<and> dict_get (scheduled jobs) jid = Some (symb, tf, cr)
        \<longrightarrow> lm_waiting (fire_job k' jid (fire_job k jid M2)) = lm_waiting M2 @ [(symb, tf), (symb, tf)])"
proof -
  have k: "k < length (lm_schedulers M)" "sd_alive (lm_schedulers M ! k)" using assms(1,3) by (simp_all add: manager_sound_def)
  obtain M0 where st: "stop_unlocked M = (M0, Some k)" "lm_scheduler M0 = None" "lm_schedulers M0 = lm_schedulers M"
    using assms(3) by (simp add: stop_unlocked_def)
  let ?jobs = "map (\<lambda>j. (lj_symbol j, lj_timeframe j)) (lm_jobs M)"
  have ne: "?jobs \<noteq> []" using assms(4) by simp
  have "start_unlocked E L m ?jobs (lm_revision_id M) (lm_experiment_id M) M0 = (M1, Inl e)"
    using assms(2,4,5) st(1) by (auto simp: set_live_mode_def Let_def split: prod.splits sum.splits)
  note f = start_fails [OF this ne]
  note g = started [OF assms(6) _ assms(7)]
  let ?k = "length (lm_schedulers M)"
  have sch: "lm_schedulers M2 = lm_schedulers M @ [\<lparr>sd_jobs = scheduled jobs, sd_alive = True\<rparr>]" "lm_scheduler M2 = Some ?k"
    using g f st by simp_all
  have at: "lm_schedulers M2 ! k = lm_schedulers M ! k" "lm_schedulers M2 ! ?k = \<lparr>sd_jobs = scheduled jobs, sd_alive = True\<rparr>"
    "length (lm_schedulers M2) = Suc ?k"
    using k(1) by (simp_all add: sch nth_append)
  have "lm_waiting (fire_job ?k jid (fire_job k jid M2)) = lm_waiting M2 @ [(symb, tf), (symb, tf)]"
    if "dict_get (sd_jobs (lm_schedulers M ! k)) jid = Some (symb, tf, cr)" "dict_get (scheduled jobs) jid = Some (symb, tf, cr)" for jid symb tf cr
  proof -
    have "fire_job k jid M2 = M2\<lparr>lm_waiting := lm_waiting M2 @ [(symb, tf)]\<rparr>"
      by (rule fired [where cr = cr]) (use k at that in simp_all)
    then show ?thesis using at that(2) by (simp add: fire_job_def)
  qed
  then show ?thesis using k at sch by (intro exI [of _ ?k]) auto
qed

text \<open>The work of an old session is counted for the new one. A cycle that is under way while the manager is
  switched commits afterwards: it counts as a cycle of the new mode and sets the time of the last
  run, though the stack of the new mode has not run a cycle.\<close>

theorem stale_cycle_is_counted:
  assumes "manager_sound E M" and "lm_status M = Running_status" and "lm_jobs M \<noteq> []"
    and "lm_cycle M = Some c" and "lc_result c = Some (Inr res)" and "set_live_mode E L m M = (M1, Inr ())"
  shows "\<exists>j. lm_stack M1 = Some j \<and> j \<noteq> lc_stack c
    \<and> lm_cycles_total (commit_cycle E L M1) = lm_cycles_total M @ [m]
    \<and> lm_last_run_at (commit_cycle E L M1) = Some (wall_clock E (lm_tick M1))"
proof -
  obtain M0 where st: "stop_unlocked M = (M0, lm_scheduler M)" "lm_scheduler M0 = None" "lm_cycle M0 = lm_cycle M"
      "lm_cycles_total M0 = lm_cycles_total M" "lm_stacks M0 = lm_stacks M"
    by (simp add: stop_unlocked_def)
  let ?jobs = "map (\<lambda>j. (lj_symbol j, lj_timeframe j)) (lm_jobs M)"
  have ne: "?jobs \<noteq> []" using assms(3) by simp
  obtain M2 where s: "start_unlocked E L m ?jobs (lm_revision_id M) (lm_experiment_id M) M0 = (M2, Inr ())"
    and M1: "M1 = shutdown_scheduler (lm_scheduler M) M2"
    using assms(2,3,6) st(1) by (auto simp: set_live_mode_def Let_def split: prod.splits sum.splits)
  note g = started [OF s st(2) ne]
  have k: "lm_stack M1 = lm_stack M2" "lm_cycle M1 = lm_cycle M2" "lm_cycles_total M1 = lm_cycles_total M2"
    "lm_status M1 = lm_status M2" "lm_mode M1 = lm_mode M2"
    unfolding M1 by (simp_all add: shutdown_scheduler_def split: option.split)
  have "lc_stack c < length (lm_stacks M)" using assms(1,4) by (simp add: manager_sound_def)
  then show ?thesis using g k st assms(4,5) by (auto simp: commit_cycle_def Let_def)
qed



text \<open>When building a stack, checking the connections and reading the default job never fail, the schedulers
  that fire are those of the manager.\<close>

definition unfailing :: "env \<Rightarrow> 'x live_settings \<Rightarrow> bool" where
  "unfailing E L \<longleftrightarrow> (\<forall>m n. \<exists>x. build_live_stack E L m n = Inr x) \<and> (\<forall>n. \<exists>x. check_connectivity L n = Inr x)
     \<and> (\<exists>j. ls_default_job L = Inr j)"

definition own_scheduler :: "'x live_manager \<Rightarrow> bool" where
  "own_scheduler M \<longleftrightarrow> (\<forall>k < length (lm_schedulers M). sd_alive (lm_schedulers M ! k) \<longleftrightarrow> lm_scheduler M = Some k)
     \<and> (lm_scheduler M \<noteq> None \<longleftrightarrow> lm_status M = Running_status)"

lemma unfailing_rebuild: "unfailing E L \<Longrightarrow> \<exists>M1. rebuild_stack E L m M = (M1, Inr ())"
proof -
  assume u: "unfailing E L"
  then obtain a where "build_live_stack E L m (lm_tick M) = Inr a" unfolding unfailing_def by blast
  then obtain st n where b: "build_live_stack E L m (lm_tick M) = Inr (st, n)" by (cases a) simp
  from u obtain d where "check_connectivity L n = Inr d" unfolding unfailing_def by blast
  then obtain x y where c: "check_connectivity L n = Inr (x, y)" by (cases d) simp
  show ?thesis by (simp add: rebuild_stack_def b c Let_def)
qed

lemma unfailing_start:
  assumes "unfailing E L" and "lm_scheduler M = None"
  obtains M' jobs' where "start_unlocked E L m jobs rv ex M = (M', Inr ())"
    and "start_unlocked E L m jobs rv ex M = start_unlocked E L m jobs' rv ex M" and "jobs' \<noteq> []"
proof -
  obtain j where j: "ls_default_job L = Inr j" using assms(1) unfolding unfailing_def by blast
  let ?jobs = "if jobs \<noteq> [] then jobs else [j]"
  obtain M1 where r: "rebuild_stack E L m M = (M1, Inr ())" using unfailing_rebuild [OF assms(1)] by blast
  have "\<exists>M'. start_unlocked E L m jobs rv ex M = (M', Inr ())"
    using assms(2) r j by (cases "jobs \<noteq> []") (simp_all add: start_unlocked_def Let_def)
  moreover have "start_unlocked E L m jobs rv ex M = start_unlocked E L m ?jobs rv ex M"
    using assms(2) r j by (cases "jobs \<noteq> []") (simp_all add: start_unlocked_def Let_def)
  moreover have "?jobs \<noteq> []" by simp
  ultimately show thesis using that by blast
qed

lemma own_after_start:
  assumes "unfailing E L" and "\<forall>k < length (lm_schedulers M). \<not> sd_alive (lm_schedulers M ! k)" and "lm_scheduler M = None"
    and "start_unlocked E L m jobs rv ex M = (M', r)"
  shows "own_scheduler M'"
proof -
  obtain M2 jobs' where s: "start_unlocked E L m jobs rv ex M = (M2, Inr ())"
    and e: "start_unlocked E L m jobs rv ex M = start_unlocked E L m jobs' rv ex M" and ne: "jobs' \<noteq> []"
    by (rule unfailing_start [OF assms(1,3)])
  have "start_unlocked E L m jobs' rv ex M = (M2, Inr ())" using s e by simp
  note g = started [OF this assms(3) ne]
  have "M' = M2" using s assms(4) by simp
  then show ?thesis using g assms(2) by (auto simp: own_scheduler_def nth_append less_Suc_eq)
qed

lemma own_schedulers_step:
  assumes "unfailing E L" and "manager_sound E M" and "own_scheduler M"
  shows "own_scheduler (live_step E L ev M)"
proof (cases ev)
  case (Start_live m jobs rv ex)
  obtain M' r where s: "start_unlocked E L m jobs rv ex M = (M', r)" by fastforce
  show ?thesis
  proof (cases "lm_scheduler M = None")
    case True
    have "own_scheduler M'" by (rule own_after_start [OF assms(1) _ True s]) (use assms(3) True in \<open>auto simp: own_scheduler_def\<close>)
    with s Start_live show ?thesis by (simp add: live_step_def)
  next
    case False
    then have "M' = M" using assms(3) s by (auto simp: own_scheduler_def start_unlocked_def)
    with s Start_live assms(3) show ?thesis by (simp add: live_step_def)
  qed
next
  case Stop_live
  then show ?thesis
    using assms(2,3)
    by (auto simp: live_step_def stop_live_def stop_unlocked_def shutdown_scheduler_def own_scheduler_def manager_sound_def nth_list_update
        split: option.splits)
next
  case (Switch_live m)
  obtain M0 where st: "stop_unlocked M = (M0, lm_scheduler M)" "lm_scheduler M0 = None" "lm_schedulers M0 = lm_schedulers M"
      "lm_status M0 = Stopped_status" by (simp add: stop_unlocked_def)
  let ?jobs = "map (\<lambda>j. (lj_symbol j, lj_timeframe j)) (lm_jobs M)"
  have alive: "sd_alive (lm_schedulers M ! k) \<longleftrightarrow> lm_scheduler M = Some k" if "k < length (lm_schedulers M)" for k
    using assms(3) that by (simp add: own_scheduler_def)
  have inside: "k < length (lm_schedulers M)" if "lm_scheduler M = Some k" for k
    using assms(2) that by (simp add: manager_sound_def)
  show ?thesis
  proof (cases "lm_status M = Running_status \<and> ?jobs \<noteq> []")
    case False
    have "own_scheduler (shutdown_scheduler (lm_scheduler M) (M0\<lparr>lm_mode := m\<rparr>))"
      using st alive inside by (auto simp: own_scheduler_def shutdown_scheduler_def nth_list_update split: option.splits)
    with False st(1) Switch_live show ?thesis by (auto simp: live_step_def set_live_mode_def Let_def)
  next
    case True
    obtain M2 jobs' where "start_unlocked E L m ?jobs (lm_revision_id M) (lm_experiment_id M) M0 = (M2, Inr ())"
      by (rule unfailing_start [OF assms(1) st(2)])
    note s = this and g = started [OF this st(2) conjunct2 [OF True]]
    have "own_scheduler (shutdown_scheduler (lm_scheduler M) M2)"
      using g st alive inside
      by (auto simp: own_scheduler_def shutdown_scheduler_def nth_list_update nth_append less_Suc_eq split: option.splits)
    with True st(1) s Switch_live show ?thesis by (auto simp: live_step_def set_live_mode_def Let_def)
  qed
next
  case (Fire_job k jid)
  with assms(3) show ?thesis by (auto simp: live_step_def fire_job_def own_scheduler_def split: option.splits prod.splits)
next
  case Begin_cycle
  have "own_scheduler (begin_cycle E L M) = own_scheduler M"
    by (auto simp: begin_cycle_def own_scheduler_def Let_def rebuild_frame split: option.splits list.splits prod.splits sum.splits if_splits
        dest: rebuild_frame)
  with assms(3) Begin_cycle show ?thesis by (simp add: live_step_def)
next
  case Work_cycle
  with assms(3) show ?thesis by (auto simp: live_step_def work_cycle_def own_scheduler_def Let_def split: option.splits prod.splits)
next
  case Commit_cycle
  with assms(3) show ?thesis by (auto simp: live_step_def commit_cycle_def own_scheduler_def Let_def split: option.splits sum.splits)
qed

text \<open>C3: one scheduler fires. As long as no stack fails to build, no connection check raises and the
  configuration file that names the default job can be read, whatever is started, stopped and
  switched in whatever order, the scheduler that is alive is the manager's, and there is one exactly
  while the manager runs. The last condition is needed because a start takes the status running
  before it reads the default job.\<close>

theorem one_scheduler_fires:
  assumes "unfailing E L" and "env_distinct E" and "live_reachable E L (new_live_manager n) M"
  shows "(\<forall>k < length (lm_schedulers M). sd_alive (lm_schedulers M ! k) \<longleftrightarrow> lm_scheduler M = Some k)
    \<and> (lm_scheduler M \<noteq> None \<longleftrightarrow> lm_status M = Running_status)"
proof -
  from assms(3) have "manager_sound E M \<and> own_scheduler M"
  proof (induction rule: live_reachable.induct)
    case begun
    show ?case by (simp add: new_manager_sound) (simp add: own_scheduler_def new_live_manager_def)
  next
    case (step N ev)
    with live_step_sound [OF _ assms(2)] own_schedulers_step [OF assms(1)] show ?case by blast
  qed
  then show ?thesis by (simp add: own_scheduler_def)
qed



subsection \<open>A concrete session\<close>

definition demo_live_env :: env where
  "demo_live_env = unary_env\<lparr>wall_clock := (\<lambda>n. 2500000)\<rparr>"

definition demo_live :: "unit live_settings" where
  "demo_live = \<lparr>ls_config = jd_config demo_disk, ls_features_hash = ''h'', ls_fill_model = xs_fill_model (demo_setup At_close),
     ls_compute = (\<lambda>d df. Inr 1), ls_exchange = demo_exchange, ls_exchange_known = True, ls_websocket = ([], \<lambda>e w. (w, Inr ())),
     ls_database = None, ls_telegram = ([SignalPublished], \<lambda>e w. (w, Inr ())), ls_telegram_configured = False, ls_development = False,
     ls_redis = (\<lambda>_. None), ls_outside = (), ls_ping = (\<lambda>_. True), ls_alert_pinger = None, ls_default_job = Inr (''BTC'', ''1s''),
     ls_next_run = (\<lambda>_ _. None), ls_error_text = (\<lambda>_. ''error'')\<rparr>"

lemma demo_live_env_distinct [simp]: "env_distinct demo_live_env"
  using unary_env_distinct by (simp add: demo_live_env_def env_distinct_def)

lemma demo_live_builds:
  "\<exists>s k. init_store demo_live_env ''portfolio_default'' Validation_mode 10000 None n = (s, k)
     \<and> build_live_stack demo_live_env demo_live m n = Inr ((live_runtime demo_live_env demo_live m [] None,
         new_platform s (Wall_clock None) ([], ()) k), k)"
  by (simp add: build_live_stack_def demo_live_def demo_disk_def load_providers_def discover_provider_configs_def split: prod.split)

lemma demo_unfailing: "unfailing demo_live_env demo_live"
  using demo_live_builds by (fastforce simp: unfailing_def check_connectivity_def demo_live_def)

lemma demo_live_willing: "willing demo_live_env (live_runtime demo_live_env demo_live m [] None)"
  unfolding willing_def cooperative_def
proof (intro conjI allI impI ballI)
  let ?R = "live_runtime demo_live_env demo_live m [] None\<lparr>rt_latest := \<lambda>s tf e n. Inr ([], n)\<rparr>"
  fix df :: frame and sy tf pt st n assume "df \<noteq> []"
  then show "\<exists>x. build_features demo_live_env (rt_compute ?R) (rt_features ?R) (rt_hash ?R) df sy tf pt (rt_persist ?R) (st, n) = Inr x"
    by (simp add: build_features_def live_runtime_def demo_live_def demo_disk_def demo_config_files_def
        normalize_ohlcv_def demo_features_def period_only_def Let_def derive_context_cases)
next
  fix e and w :: "unit live_world"
  show "\<exists>w'. rt_publish (live_runtime demo_live_env demo_live m [] None\<lparr>rt_latest := \<lambda>s tf e n. Inr ([], n)\<rparr>) e w = (w', Inr ())"
    by (cases w) (simp add: live_runtime_def create_event_bus_def memory_publish_def build_handlers_def demo_live_def Let_def)
qed (simp_all add: live_runtime_def demo_live_def demo_disk_def demo_config_files_def)


lemma demo_live_bars:
  assumes "1000000 \<le> e"
  shows "live_latest demo_exchange demo_live_env symb tf e n = Inr ([(1000000, demo_candle)], Suc (Suc n))"
  using assms
  by (simp add: live_latest_def live_get_latest_def numeral_3_eq_3 demo_exchange_def demo_live_env_def to_dataframe_def
      drop_forming_candle_def sort_frame_def tail_rows_def Let_def)

lemma demo_live_cycle_runs:
  assumes "sound demo_live_env (live_runtime demo_live_env demo_live m [] None) p"
    and "pl_clock p = Wall_clock None \<or> pl_clock p = Wall_clock (Some 1000000)"
  shows "\<exists>q res. run_cycle demo_live_env (live_runtime demo_live_env demo_live m [] None) a p = (q, Inr res)
    \<and> pl_clock q = Wall_clock (Some 1000000)"
proof -
  let ?E = demo_live_env and ?R = "live_runtime demo_live_env demo_live m [] None"
  let ?f = "\<lambda>s tf e n. case live_latest demo_exchange ?E s tf e n of Inr x \<Rightarrow> Inr x | Inl _ \<Rightarrow> Inr ([(e, demo_candle)], n)"
  have rl: "rt_latest ?R = live_latest demo_exchange ?E" by (simp add: live_runtime_def demo_live_def)
  have md: "market_data ?f"
    using live.latest_nonempty [of demo_exchange ?E] live.latest_upto [of demo_exchange ?E] live.latest_tick [of demo_exchange ?E]
    by unfold_locales (fastforce split: sum.splits)+
  have co: "cooperative ?E (?R\<lparr>rt_latest := ?f\<rparr>)"
    by (rule willing_total [OF demo_live_willing]) (auto split: sum.splits)
  have so: "sound ?E (?R\<lparr>rt_latest := ?f\<rparr>) p" using assms(1) by (simp add: sound_def)
  obtain t where t: "1000000 \<le> t" "\<forall>k. fst (now_event_time ?E (pl_clock p) k) = t"
    using assms(2) by (auto simp: now_event_time_def demo_live_env_def)
  have same: "run_cycle ?E (?R\<lparr>rt_latest := ?f\<rparr>) a p = run_cycle ?E ?R a p"
    by (rule run_cycle_data [OF t(2)]) (simp add: rl demo_live_bars [OF t(1)])
  with cycle_total [OF so demo_live_env_distinct _ co, of a] md obtain q res where q: "run_cycle ?E ?R a p = (q, Inr res)" by auto
  obtain p1 r1 where pb: "prepare_bar ?E ?R a p = (p1, r1)" by fastforce
  have "pl_clock p1 = Wall_clock (Some 1000000) \<and> r1 \<noteq> Inl e" for e
  proof -
    obtain cid n1 where c1: "(case ca_correlation_id a of
            Some i \<Rightarrow> if i \<noteq> [] then (i, pl_tick p) else (fresh_id ?E ''cycle_'' (pl_tick p), Suc (pl_tick p))
          | None \<Rightarrow> (fresh_id ?E ''cycle_'' (pl_tick p), Suc (pl_tick p))) = (cid, n1)" by fastforce
    obtain n2 where c2: "now_event_time ?E (pl_clock p) n1 = (t, n2)" using t(2) by (metis prod.collapse)
    from pb show ?thesis
      using assms(2) by (auto simp: prepare_bar_def c1 c2 rl demo_live_bars [OF t(1)] set_event_time_def Let_def split: prod.splits)
  qed
  then obtain c where c: "pl_clock p1 = Wall_clock (Some 1000000)" "r1 = Inr c" by (cases r1) auto
  obtain p2 c2 r2 where b: "cycle_body ?E ?R (p1, c) = ((p2, c2), r2)" by (metis prod.exhaust)
  with q pb c have "p2 = q" by (simp add: run_cycle_def)
  with steadyD [OF steady_cycle_body b] c(1) q show ?thesis by simp
qed

text \<open>A manager between two cycles of the demo session.\<close>

definition demo_idle :: "unit live_manager \<Rightarrow> bool" where
  "demo_idle M \<longleftrightarrow> live_reachable demo_live_env demo_live (new_live_manager 0) M \<and> lm_status M = Running_status
     \<and> lm_cycle M = None \<and> lm_waiting M = [] \<and> lm_stack M = Some 0 \<and> lm_scheduler M = Some 0 \<and> lm_jobs M \<noteq> []
     \<and> lm_schedulers M = [\<lparr>sd_jobs = scheduled [(''BTC'', ''1s'')], sd_alive = True\<rparr>]
     \<and> (\<exists>p. lm_stacks M = [(live_runtime demo_live_env demo_live Paper_mode [] None, p)]
          \<and> (pl_clock p = Wall_clock None \<or> pl_clock p = Wall_clock (Some 1000000)))"

definition demo_working :: "unit live_manager \<Rightarrow> unit live_manager" where
  "demo_working M = live_step demo_live_env demo_live Begin_cycle (live_step demo_live_env demo_live (Fire_job 0 (job_id ''BTC'' ''1s'')) M)"

lemma demo_live_round:
  assumes "demo_idle M"
  shows "\<exists>c res. lm_cycle (demo_working M) = Some c \<and> lc_stack c = 0 \<and> lc_result c = None
    \<and> lm_cycle (live_step demo_live_env demo_live Work_cycle (demo_working M)) = Some (c\<lparr>lc_result := Some (Inr res)\<rparr>)
    \<and> lm_status (live_step demo_live_env demo_live Work_cycle (demo_working M)) = Running_status
    \<and> lm_jobs (live_step demo_live_env demo_live Work_cycle (demo_working M)) \<noteq> []
    \<and> length (lm_stacks (live_step demo_live_env demo_live Work_cycle (demo_working M))) = 1
    \<and> stack_clock (live_step demo_live_env demo_live Work_cycle (demo_working M)) 0 = Wall_clock (Some 1000000)
    \<and> demo_idle (live_step demo_live_env demo_live Commit_cycle (live_step demo_live_env demo_live Work_cycle (demo_working M)))"
proof -
  let ?E = demo_live_env and ?L = demo_live and ?R = "live_runtime demo_live_env demo_live Paper_mode [] None"
  obtain p where p: "lm_stacks M = [(?R, p)]" "pl_clock p = Wall_clock None \<or> pl_clock p = Wall_clock (Some 1000000)"
    and re: "live_reachable ?E ?L (new_live_manager 0) M" and ru: "lm_status M = Running_status" and cy: "lm_cycle M = None"
    and wa: "lm_waiting M = []" and sk: "lm_stack M = Some 0" and sd: "lm_scheduler M = Some 0" and jo: "lm_jobs M \<noteq> []"
    and sc: "lm_schedulers M = [\<lparr>sd_jobs = scheduled [(''BTC'', ''1s'')], sd_alive = True\<rparr>]"
    using assms by (auto simp: demo_idle_def)
  let ?M1 = "live_step ?E ?L (Fire_job 0 (job_id ''BTC'' ''1s'')) M"
  have m1: "?M1 = M\<lparr>lm_waiting := [(''BTC'', ''1s'')]\<rparr>"
    by (simp add: live_step_def fire_job_def sc wa scheduled_def)
  let ?c = "\<lparr>lc_symbol = ''BTC'', lc_timeframe = ''1s'', lc_stack = 0, lc_revision_id = lm_revision_id M,
      lc_experiment_id = lm_experiment_id M, lc_result = None\<rparr>"
  have m2: "demo_working M = M\<lparr>lm_waiting := [], lm_cycle := Some ?c\<rparr>"
    unfolding demo_working_def m1 by (simp add: live_step_def begin_cycle_def cy ru sk)
  have r2: "live_reachable ?E ?L (new_live_manager 0) (demo_working M)"
    unfolding demo_working_def by (intro live_reachable.step re)
  have ms: "manager_sound ?E (demo_working M)" by (rule live_reachable_sound [OF r2]) simp
  have cyc: "lm_cycle (demo_working M) = Some ?c" "lc_result ?c = None" by (simp_all add: m2)
  obtain R p' q r a where f: "lm_stacks (demo_working M) ! lc_stack ?c = (R, p')"
      "run_cycle ?E R a (p'\<lparr>pl_tick := Suc (lm_tick (demo_working M))\<rparr>) = (q, r)"
      "work_cycle ?E (demo_working M) = (demo_working M)\<lparr>lm_stacks := (lm_stacks (demo_working M))[lc_stack ?c := (R, q)],
        lm_tick := max (lm_tick (demo_working M)) (pl_tick q), lm_cycle := Some (?c\<lparr>lc_result := Some r\<rparr>)\<rparr>"
    by (rule work_facts [OF ms cyc]) simp
  have Rp: "R = ?R" "p' = p" using f(1) by (simp_all add: m2 p(1))
  have "stack_sound ?E (lm_tick (demo_working M)) (?R, p)" using ms p(1) by (simp add: manager_sound_def m2)
  then have "sound ?E ?R (p\<lparr>pl_tick := Suc (lm_tick (demo_working M))\<rparr>)" by (auto simp: stack_sound_def intro: sound_tick)
  from demo_live_cycle_runs [OF this, of a] p(2) f(2) Rp obtain res where r: "r = Inr res" "pl_clock q = Wall_clock (Some 1000000)" by auto
  let ?W = "live_step ?E ?L Work_cycle (demo_working M)"
  have w: "?W = M\<lparr>lm_waiting := [], lm_cycle := Some (?c\<lparr>lc_result := Some (Inr res)\<rparr>), lm_stacks := [(?R, q)],
      lm_tick := max (lm_tick M) (pl_tick q)\<rparr>"
  proof -
    have "?W = work_cycle ?E (demo_working M)" by (simp add: live_step_def)
    also note f(3)
    finally show ?thesis by (simp add: m2 p(1) Rp r(1))
  qed
  let ?C = "live_step ?E ?L Commit_cycle ?W"
  have rC: "live_reachable ?E ?L (new_live_manager 0) ?C" by (intro live_reachable.step r2)
  have "lm_status ?C = Running_status \<and> lm_cycle ?C = None \<and> lm_waiting ?C = [] \<and> lm_stack ?C = Some 0 \<and> lm_scheduler ?C = Some 0
      \<and> lm_jobs ?C = lm_jobs M \<and> lm_schedulers ?C = lm_schedulers M \<and> lm_stacks ?C = [(?R, q)]"
    unfolding w by (simp add: live_step_def commit_cycle_def ru sk sd Let_def)
  with rC jo sc r(2) have "demo_idle ?C" by (simp add: demo_idle_def)
  then show ?thesis using cyc w ru jo r(2) by (intro exI [of _ ?c] exI [of _ res]) (simp add: stack_clock_def)
qed

text \<open>The demo manager, started; and after one scheduled cycle has run to its commit.\<close>

definition demo_started :: "unit live_manager" where
  "demo_started = live_step demo_live_env demo_live (Start_live Paper_mode [(''BTC'', ''1s'')] None None) (new_live_manager 0)"

definition demo_worked :: "unit live_manager \<Rightarrow> unit live_manager" where
  "demo_worked M = live_step demo_live_env demo_live Work_cycle (demo_working M)"

definition demo_later :: "unit live_manager" where
  "demo_later = live_step demo_live_env demo_live Commit_cycle (demo_worked demo_started)"

lemma demo_started_idle: "demo_idle demo_started"
proof -
  let ?E = demo_live_env and ?L = demo_live and ?R = "live_runtime demo_live_env demo_live Paper_mode [] None"
  obtain s k where b: "build_live_stack ?E ?L Paper_mode 0 = Inr ((?R, new_platform s (Wall_clock None) ([], ()) k), k)"
    using demo_live_builds [of 0 Paper_mode] by blast
  have c: "check_connectivity ?L k = Inr (True, False)" by (simp add: check_connectivity_def demo_live_def)
  have r: "live_reachable ?E ?L (new_live_manager 0) demo_started"
    unfolding demo_started_def by (intro live_reachable.intros)
  have "lm_status demo_started = Running_status \<and> lm_cycle demo_started = None \<and> lm_waiting demo_started = []
      \<and> lm_stack demo_started = Some 0 \<and> lm_scheduler demo_started = Some 0 \<and> lm_jobs demo_started \<noteq> []
      \<and> lm_schedulers demo_started = [\<lparr>sd_jobs = scheduled [(''BTC'', ''1s'')], sd_alive = True\<rparr>]
      \<and> lm_stacks demo_started = [(?R, new_platform s (Wall_clock None) ([], ()) k)]"
    by (simp add: demo_started_def live_step_def start_unlocked_def rebuild_stack_def new_live_manager_def b c Let_def)
  then show ?thesis using r by (simp add: demo_idle_def new_platform_def)
qed

lemma demo_worked_facts:
  assumes "demo_idle M"
  shows "\<exists>c res. lm_cycle (demo_working M) = Some c \<and> lc_stack c = 0 \<and> lc_result c = None
    \<and> lm_cycle (demo_worked M) = Some (c\<lparr>lc_result := Some (Inr res)\<rparr>)"
    and "lm_status (demo_worked M) = Running_status" and "lm_jobs (demo_worked M) \<noteq> []"
    and "length (lm_stacks (demo_worked M)) = 1" and "stack_clock (demo_worked M) 0 = Wall_clock (Some 1000000)"
    and "demo_idle (live_step demo_live_env demo_live Commit_cycle (demo_worked M))"
    and "live_reachable demo_live_env demo_live (new_live_manager 0) (demo_worked M)"
proof -
  show "live_reachable demo_live_env demo_live (new_live_manager 0) (demo_worked M)"
    using assms unfolding demo_worked_def demo_working_def by (intro live_reachable.step) (simp add: demo_idle_def)
qed (use demo_live_round [OF assms] in \<open>unfold demo_worked_def, blast+\<close>)

theorem live_session_repeats_first_bar_witness:
  "\<exists>c res. lm_cycle (demo_worked demo_later) = Some c \<and> lc_result c = Some (Inr res) \<and> dec_event_time (cr_decision res) \<le> 1000000"
proof -
  note f = demo_worked_facts [OF demo_started_idle]
  have idle: "demo_idle demo_later" using f(6) by (simp add: demo_later_def)
  obtain c res where c: "lm_cycle (demo_working demo_later) = Some c" "lc_stack c = 0" "lc_result c = None"
      "lm_cycle (demo_worked demo_later) = Some (c\<lparr>lc_result := Some (Inr res)\<rparr>)"
    using demo_worked_facts(1) [OF idle] by blast
  have "live_reachable demo_live_env demo_live (demo_worked demo_started) (demo_working demo_later)"
    unfolding demo_later_def demo_working_def by (intro live_reachable.intros)
  from live_session_repeats_first_bar [OF f(7) _ _ f(5) this c(1,2,3) c(4) [unfolded demo_worked_def]] f(4)
  have "dec_event_time (cr_decision res) \<le> 1000000" by simp
  with c(4) show ?thesis by (intro exI conjI) (assumption, simp_all)
qed

theorem one_scheduler_fires_witness: "lm_scheduler demo_started = Some 0 \<and> sd_alive (lm_schedulers demo_started ! 0)"
proof -
  have "lm_status demo_started = Running_status" "live_reachable demo_live_env demo_live (new_live_manager 0) demo_started"
      "lm_scheduler demo_started = Some 0" "length (lm_schedulers demo_started) = 1"
    using demo_started_idle by (simp_all add: demo_idle_def)
  with one_scheduler_fires [OF demo_unfailing demo_live_env_distinct this(2)] show ?thesis by simp
qed

text \<open>Switching while the exchange of the settings is not known fails; the next start, with one that is,
  goes well.\<close>

theorem failed_switch_leaks_scheduler_witness:
  "\<exists>M1 M2 k' e. set_live_mode demo_live_env (demo_live\<lparr>ls_exchange_known := False\<rparr>) Live_mode demo_started = (M1, Inl e)
    \<and> start_unlocked demo_live_env demo_live Paper_mode [(''BTC'', ''1s'')] None None M1 = (M2, Inr ())
    \<and> k' \<noteq> 0 \<and> lm_scheduler M2 = Some k' \<and> sd_alive (lm_schedulers M2 ! 0) \<and> sd_alive (lm_schedulers M2 ! k')"
proof -
  let ?E = demo_live_env and ?L = "demo_live\<lparr>ls_exchange_known := False\<rparr>"
  have id: "lm_status demo_started = Running_status" "lm_scheduler demo_started = Some 0" "lm_jobs demo_started \<noteq> []"
      "live_reachable ?E demo_live (new_live_manager 0) demo_started"
    using demo_started_idle by (simp_all add: demo_idle_def)
  have ms: "manager_sound ?E demo_started" by (rule live_reachable_sound [OF id(4) demo_live_env_distinct])
  obtain M1 where s: "set_live_mode ?E ?L Live_mode demo_started = (M1, Inl (DataProviderError ''Unsupported exchange''))"
      and n: "lm_scheduler M1 = None"
    using id(1,3) by (simp add: set_live_mode_def stop_unlocked_def start_unlocked_def rebuild_stack_def build_live_stack_def Let_def)
  obtain M2 where t: "start_unlocked ?E demo_live Paper_mode [(''BTC'', ''1s'')] None None M1 = (M2, Inr ())"
    by (rule unfailing_start [OF demo_unfailing n])
  from failed_switch_leaks_scheduler [OF ms id(1,2,3) s t] s t show ?thesis by blast
qed

theorem stale_cycle_is_counted_witness:
  "\<exists>M1 j. set_live_mode demo_live_env demo_live Live_mode (demo_worked demo_started) = (M1, Inr ()) \<and> lm_stack M1 = Some j \<and> j \<noteq> 0
    \<and> Live_mode \<in> set (lm_cycles_total (commit_cycle demo_live_env demo_live M1))"
proof -
  let ?M = "demo_worked demo_started"
  note f = demo_worked_facts [OF demo_started_idle]
  obtain c res where c: "lm_cycle ?M = Some c" "lc_result c = Some (Inr res)" "lc_stack c = 0" using f(1) by auto
  have ms: "manager_sound demo_live_env ?M" by (rule live_reachable_sound [OF f(7) demo_live_env_distinct])
  obtain M0 where n: "stop_unlocked ?M = (M0, lm_scheduler ?M)" "lm_scheduler M0 = None" by (simp add: stop_unlocked_def)
  obtain M2 where "start_unlocked demo_live_env demo_live Live_mode (map (\<lambda>j. (lj_symbol j, lj_timeframe j)) (lm_jobs ?M))
      (lm_revision_id ?M) (lm_experiment_id ?M) M0 = (M2, Inr ())"
    by (rule unfailing_start [OF demo_unfailing n(2)])
  then have "\<exists>M1. set_live_mode demo_live_env demo_live Live_mode ?M = (M1, Inr ())"
    using f(2,3) by (simp add: set_live_mode_def n(1) Let_def)
  then obtain M1 where s: "set_live_mode demo_live_env demo_live Live_mode ?M = (M1, Inr ())" by blast
  from stale_cycle_is_counted [OF ms f(2,3) c(1,2) s] c(3) s show ?thesis by auto
qed

end
