(* ===== verification/Carry.thy ===== *)
theory Carry
  imports Prelude
begin

text \<open>
  \<^verbatim>\<open>backend/src/carry/position_manager.py\<close> and \<^verbatim>\<open>carry_runner.py\<close>: a long spot and a short
  perpetual position of the same size. The manager decides how large the pair should be, plans
  the trades that get there and books the fills; the runner does one cycle per snapshot of the
  market, with an executor that is either the paper one of this theory or the live one.
\<close>

subsection \<open>The position manager\<close>

record carry_config =
  capital_multiplier :: real
  min_trailing_funding_8h :: real
  rebalance_band :: real
  resize_band :: real

definition default_carry_config :: carry_config where
  "default_carry_config = \<lparr>capital_multiplier = 3/2, min_trailing_funding_8h = -1,
     rebalance_band = 2/100, resize_band = 15/100\<rparr>"

record carry_position =
  spot_qty :: real
  perp_qty :: real
  spot_entry_px :: real
  perp_entry_px :: real
  accrued_funding :: real
  flips :: int

definition flat_position :: carry_position where
  "flat_position = \<lparr>spot_qty = 0, perp_qty = 0, spot_entry_px = 0, perp_entry_px = 0,
     accrued_funding = 0, flips = 0\<rparr>"

definition in_market :: "carry_position \<Rightarrow> bool" where
  "in_market s \<longleftrightarrow> 0 < spot_qty s \<or> 0 < perp_qty s"

record carry_target =
  ct_hold :: bool
  target_notional :: real

datatype plan_reason = Plan_open | Plan_close | Plan_resize | Plan_rebalance | Plan_noop

record rebalance_plan =
  spot_delta_qty :: real
  perp_delta_qty :: real
  plan_reason_of :: plan_reason
  plan_details :: "(string, real) dict"

definition is_noop :: "rebalance_plan \<Rightarrow> bool" where
  "is_noop p \<longleftrightarrow> plan_reason_of p = Plan_noop"

definition net_delta :: "carry_position \<Rightarrow> real \<Rightarrow> real \<Rightarrow> real" where
  "net_delta s spot_px perp_px = spot_qty s * spot_px - perp_qty s * perp_px"

definition pair_notional :: "carry_position \<Rightarrow> real \<Rightarrow> real" where
  "pair_notional s spot_px = spot_qty s * spot_px"

definition carry_equity :: "carry_position \<Rightarrow> real \<Rightarrow> real \<Rightarrow> real \<Rightarrow> real" where
  "carry_equity s cash_held spot_px perp_px =
     (let spot_val = spot_qty s * spot_px;
          perp_pnl = perp_qty s * (perp_entry_px s - perp_px)
      in cash_held + spot_val + perp_pnl + accrued_funding s)"

definition decide_target :: "carry_config \<Rightarrow> real \<Rightarrow> real \<Rightarrow> carry_target result" where
  "decide_target cfg trailing equity_now =
     (if trailing \<ge> min_trailing_funding_8h cfg then
        (if capital_multiplier cfg = 0 then Inl ZeroDivisionError
         else Inr \<lparr>ct_hold = True, target_notional = max 0 equity_now / capital_multiplier cfg\<rparr>)
      else Inr \<lparr>ct_hold = False, target_notional = 0\<rparr>)"

definition noop_plan :: rebalance_plan where
  "noop_plan = \<lparr>spot_delta_qty = 0, perp_delta_qty = 0, plan_reason_of = Plan_noop, plan_details = []\<rparr>"

definition plan :: "carry_config \<Rightarrow> carry_position \<Rightarrow> carry_target \<Rightarrow> real \<Rightarrow> real \<Rightarrow> rebalance_plan" where
  "plan cfg s target spot_px perp_px =
     (let cur_notional = pair_notional s spot_px in
      if \<not> ct_hold target then
        (if in_market s then
           \<lparr>spot_delta_qty = - spot_qty s, perp_delta_qty = - perp_qty s, plan_reason_of = Plan_close, plan_details = []\<rparr>
         else noop_plan)
      else if \<not> in_market s then
        (let qty = (if spot_px > 0 then target_notional target / spot_px else 0) in
         if qty \<le> 0 then noop_plan
         else \<lparr>spot_delta_qty = qty, perp_delta_qty = qty, plan_reason_of = Plan_open, plan_details = []\<rparr>)
      else let delta = net_delta s spot_px perp_px in
      if cur_notional > 0 \<and> \<bar>delta\<bar> / cur_notional > rebalance_band cfg then
        (let desired = (if perp_px > 0 then spot_qty s * spot_px / perp_px else perp_qty s) in
         \<lparr>spot_delta_qty = 0, perp_delta_qty = desired - perp_qty s, plan_reason_of = Plan_rebalance,
          plan_details = [(''delta_frac'', delta / cur_notional)]\<rparr>)
      else if target_notional target > 0 \<and> cur_notional > 0
        \<and> \<bar>cur_notional - target_notional target\<bar> / target_notional target > resize_band cfg then
        (let d = target_notional target / spot_px - spot_qty s in
         \<lparr>spot_delta_qty = d, perp_delta_qty = d, plan_reason_of = Plan_resize,
          plan_details = [(''drift'', \<bar>cur_notional - target_notional target\<bar> / target_notional target)]\<rparr>)
      else noop_plan)"

record exec_report =
  spot_fill_qty :: real
  spot_fill_px :: real
  perp_fill_qty :: real
  perp_fill_px :: real
  fill_fee :: real
  report_reason :: plan_reason

text \<open>What a fill does to the position, and what it does to the cash.\<close>

definition apply_fill :: "carry_position \<Rightarrow> exec_report \<Rightarrow> carry_position \<times> real" where
  "apply_fill s r =
     (let new_spot = spot_qty s + spot_fill_qty r;
          new_perp = perp_qty s + perp_fill_qty r;
          cash_flow = - spot_fill_qty r * spot_fill_px r - fill_fee r;
          cash_flow = (if perp_fill_qty r < 0 \<and> perp_qty s > 0
                       then cash_flow + min (- perp_fill_qty r) (perp_qty s) * (perp_entry_px s - perp_fill_px r)
                       else cash_flow);
          spot_entry = (if spot_fill_qty r > 0 then
                          (if new_spot > 0
                           then (spot_qty s * spot_entry_px s + spot_fill_qty r * spot_fill_px r) / new_spot
                           else spot_fill_px r)
                        else spot_entry_px s);
          perp_entry = (if perp_fill_qty r > 0 then
                          (if new_perp > 0
                           then (perp_qty s * perp_entry_px s + perp_fill_qty r * perp_fill_px r) / new_perp
                           else perp_fill_px r)
                        else perp_entry_px s);
          n = flips s + (if \<not> in_market s \<and> (new_spot > 0 \<or> new_perp > 0) then 1 else 0);
          n = n + (if in_market s \<and> new_spot \<le> 1 / 10 ^ 12 \<and> new_perp \<le> 1 / 10 ^ 12 then 1 else 0)
      in (s\<lparr>spot_qty := max 0 new_spot, perp_qty := max 0 new_perp,
            spot_entry_px := (if new_spot > 0 then spot_entry else 0),
            perp_entry_px := (if new_perp > 0 then perp_entry else 0),
            flips := n\<rparr>, cash_flow))"

definition accrue_funding :: "carry_position \<Rightarrow> real \<Rightarrow> real \<Rightarrow> carry_position" where
  "accrue_funding s rate perp_px =
     (let received = rate * perp_qty s * perp_px in s\<lparr>accrued_funding := accrued_funding s + received\<rparr>)"


subsection \<open>The runner\<close>

record perp_snapshot =
  sn_ts :: datetime
  sn_symbol :: string
  sn_spot_px :: real
  sn_perp_mark_px :: real
  sn_funding_rate :: real
  sn_trailing_funding_8h :: real
  sn_is_funding_time :: bool

record carry_run_log =
  cl_ts :: "datetime list"
  cl_equity :: "real list"
  cl_actions :: "plan_reason list"

record carry_runner =
  cr_config :: carry_config
  cr_cash :: real
  cr_state :: carry_position
  cr_log :: carry_run_log

definition new_carry_runner :: "real \<Rightarrow> carry_config \<Rightarrow> carry_runner" where
  "new_carry_runner initial_capital cfg =
     \<lparr>cr_config = cfg, cr_cash = initial_capital, cr_state = flat_position,
      cr_log = \<lparr>cl_ts = [], cl_equity = [], cl_actions = []\<rparr>\<rparr>"

definition runner_equity :: "carry_runner \<Rightarrow> real \<Rightarrow> real \<Rightarrow> real" where
  "runner_equity c spot_px perp_px = carry_equity (cr_state c) (cr_cash c) spot_px perp_px"

text \<open>An executor turns a plan into a report of fills, or into none; it may raise, and it may change
  the world outside (the venues).\<close>

type_synonym 'w carry_executor = "rebalance_plan \<Rightarrow> real \<Rightarrow> real \<Rightarrow> 'w \<Rightarrow> exec_report option result \<times> 'w"

definition book_report :: "exec_report option \<Rightarrow> carry_runner \<Rightarrow> carry_runner" where
  "book_report report c =
     (case report of None \<Rightarrow> c
      | Some r \<Rightarrow> (case apply_fill (cr_state c) r of
          (s, cash_flow) \<Rightarrow> c\<lparr>cr_state := s, cr_cash := cr_cash c + cash_flow\<rparr>))"

definition settle_funding :: "perp_snapshot \<Rightarrow> carry_runner \<Rightarrow> carry_runner" where
  "settle_funding snap c =
     (if sn_is_funding_time snap \<and> in_market (cr_state c)
      then c\<lparr>cr_state := accrue_funding (cr_state c) (sn_funding_rate snap) (sn_perp_mark_px snap)\<rparr>
      else c)"

definition log_step :: "perp_snapshot \<Rightarrow> plan_reason \<Rightarrow> carry_runner \<Rightarrow> carry_runner" where
  "log_step snap action c =
     c\<lparr>cr_log := \<lparr>cl_ts = cl_ts (cr_log c) @ [sn_ts snap],
        cl_equity = cl_equity (cr_log c) @ [runner_equity c (sn_spot_px snap) (sn_perp_mark_px snap)],
        cl_actions = cl_actions (cr_log c) @ [action]\<rparr>\<rparr>"

definition carry_plan :: "perp_snapshot \<Rightarrow> carry_runner \<Rightarrow> rebalance_plan result" where
  "carry_plan snap c =
     and_then (decide_target (cr_config c) (sn_trailing_funding_8h snap)
                 (runner_equity c (sn_spot_px snap) (sn_perp_mark_px snap)))
       (\<lambda>target. Inr (plan (cr_config c) (cr_state c) target (sn_spot_px snap) (sn_perp_mark_px snap)))"

definition carry_step ::
  "'w carry_executor \<Rightarrow> perp_snapshot \<Rightarrow> carry_runner \<times> 'w \<Rightarrow> plan_reason result \<times> carry_runner \<times> 'w" where
  "carry_step execute snap cw =
     (case cw of (c, w) \<Rightarrow>
      case carry_plan snap c of
        Inl e \<Rightarrow> (Inl e, c, w)
      | Inr p \<Rightarrow>
        (case execute p (sn_spot_px snap) (sn_perp_mark_px snap) w of
           (Inl e, w') \<Rightarrow> (Inl e, c, w')
         | (Inr report, w') \<Rightarrow>
             (Inr (plan_reason_of p),
              log_step snap (plan_reason_of p) (settle_funding snap (book_report report c)), w')))"

fun carry_run ::
  "'w carry_executor \<Rightarrow> perp_snapshot list \<Rightarrow> carry_runner \<times> 'w \<Rightarrow> carry_run_log result \<times> carry_runner \<times> 'w" where
  "carry_run execute [] cw = (Inr (cr_log (fst cw)), cw)"
| "carry_run execute (snap # snaps) cw =
     (case carry_step execute snap cw of
        (Inl e, cw') \<Rightarrow> (Inl e, cw')
      | (Inr _, cw') \<Rightarrow> carry_run execute snaps cw')"

record paper_fees =
  taker_bps :: real
  slippage_bps :: real

definition default_paper_fees :: paper_fees where
  "default_paper_fees = \<lparr>taker_bps = 5, slippage_bps = 3\<rparr>"

definition paper_execute :: "paper_fees \<Rightarrow> 'w carry_executor" where
  "paper_execute F p spot_px perp_px w =
     (if is_noop p then (Inr None, w)
      else
        let cost_frac = (taker_bps F + slippage_bps F) / 10000 in
        (Inr (Some
          \<lparr>spot_fill_qty = spot_delta_qty p,
           spot_fill_px = (if spot_delta_qty p > 0 then spot_px * (1 + cost_frac) else spot_px * (1 - cost_frac)),
           perp_fill_qty = perp_delta_qty p,
           perp_fill_px = (if perp_delta_qty p > 0 then perp_px * (1 - cost_frac) else perp_px * (1 + cost_frac)),
           fill_fee = (\<bar>spot_delta_qty p\<bar> * spot_px + \<bar>perp_delta_qty p\<bar> * perp_px) * (taker_bps F / 10000),
           report_reason = plan_reason_of p\<rparr>), w))"


subsection \<open>What a fill is worth\<close>

text \<open>A fill moves the equity by the distance of its prices from the market, and by the fee; the
  price at which the pair was entered, and whether a leg grows or shrinks, do not matter.\<close>

lemma fill_equity:
  assumes "apply_fill s r = (s', flow)" and "0 \<le> perp_qty s"
    and "0 \<le> spot_qty s + spot_fill_qty r" and "0 \<le> perp_qty s + perp_fill_qty r"
  shows "carry_equity s' (held + flow) S P = carry_equity s held S P
    + spot_fill_qty r * (S - spot_fill_px r) + perp_fill_qty r * (perp_fill_px r - P) - fill_fee r"
proof -
  let ?n = "perp_qty s + perp_fill_qty r"
  have acc: "accrued_funding s' = accrued_funding s" and spot: "spot_qty s' = spot_qty s + spot_fill_qty r"
    and perp: "perp_qty s' = ?n"
    using assms by (auto simp: apply_fill_def Let_def)
  have flow: "flow = - spot_fill_qty r * spot_fill_px r - fill_fee r
      + (if perp_fill_qty r < 0 then - perp_fill_qty r * (perp_entry_px s - perp_fill_px r) else 0)"
    using assms by (auto simp: apply_fill_def Let_def min_def)
  have "perp_entry_px s' = perp_entry_px (fst (apply_fill s r))" by (simp add: assms(1))
  then have "perp_entry_px s' = (if ?n > 0 then (if perp_fill_qty r > 0
      then (perp_qty s * perp_entry_px s + perp_fill_qty r * perp_fill_px r) / ?n else perp_entry_px s) else 0)"
    by (simp add: apply_fill_def Let_def)
  moreover have "?n = 0 \<or> ?n > 0" using assms(4) by linarith
  moreover have "perp_qty s = 0" if "perp_fill_qty r > 0" "?n = 0" using that assms(2) by linarith
  ultimately have entry: "?n * perp_entry_px s' = (if perp_fill_qty r > 0
      then perp_qty s * perp_entry_px s + perp_fill_qty r * perp_fill_px r else ?n * perp_entry_px s)"
    using assms(2) by auto
  have "?n * (perp_entry_px s' - P) + (if perp_fill_qty r < 0 then - perp_fill_qty r * (perp_entry_px s - perp_fill_px r) else 0)
      = perp_qty s * (perp_entry_px s - P) + perp_fill_qty r * (perp_fill_px r - P)"
    unfolding right_diff_distrib entry by (auto simp: algebra_simps)
  then show ?thesis
    by (simp add: carry_equity_def Let_def acc spot perp flow algebra_simps)
qed

lemma fill_quantities:
  "apply_fill s r = (s', flow) \<Longrightarrow> spot_qty s' = max 0 (spot_qty s + spot_fill_qty r)"
  "apply_fill s r = (s', flow) \<Longrightarrow> perp_qty s' = max 0 (perp_qty s + perp_fill_qty r)"
  "apply_fill s r = (s', flow) \<Longrightarrow> accrued_funding s' = accrued_funding s"
  by (auto simp: apply_fill_def Let_def)

lemma accrue_simps [simp]:
  "spot_qty (accrue_funding s rate px) = spot_qty s" "perp_qty (accrue_funding s rate px) = perp_qty s"
  "perp_entry_px (accrue_funding s rate px) = perp_entry_px s"
  "accrued_funding (accrue_funding s rate px) = accrued_funding s + rate * perp_qty s * px"
  by (simp_all add: accrue_funding_def Let_def)

lemma log_simps [simp]:
  "cr_state (log_step snap a c) = cr_state c" "cr_cash (log_step snap a c) = cr_cash c"
  "cr_config (log_step snap a c) = cr_config c"
  "runner_equity (log_step snap a c) = runner_equity c"
  by (simp_all add: log_step_def runner_equity_def fun_eq_iff)

lemma settle_simps [simp]:
  "spot_qty (cr_state (settle_funding snap c)) = spot_qty (cr_state c)"
  "perp_qty (cr_state (settle_funding snap c)) = perp_qty (cr_state c)"
  "perp_entry_px (cr_state (settle_funding snap c)) = perp_entry_px (cr_state c)"
  "cr_cash (settle_funding snap c) = cr_cash c" "cr_config (settle_funding snap c) = cr_config c"
  by (simp_all add: settle_funding_def)

lemma settled_equity:
  "runner_equity (settle_funding snap c) S P
     = runner_equity c S P + (accrued_funding (cr_state (settle_funding snap c)) - accrued_funding (cr_state c))"
  by (simp add: settle_funding_def runner_equity_def carry_equity_def Let_def)

lemma book_none [simp]: "book_report None c = c"
  by (simp add: book_report_def)

lemma book_config [simp]: "cr_config (book_report r c) = cr_config c"
  by (auto simp: book_report_def split: option.split prod.split)

lemma book_accrued [simp]: "accrued_funding (cr_state (book_report r c)) = accrued_funding (cr_state c)"
  by (auto simp: book_report_def fill_quantities split: option.split prod.split)

lemma book_quantities:
  "spot_qty (cr_state (book_report (Some r) c)) = max 0 (spot_qty (cr_state c) + spot_fill_qty r)"
  "perp_qty (cr_state (book_report (Some r) c)) = max 0 (perp_qty (cr_state c) + perp_fill_qty r)"
  by (auto simp: book_report_def fill_quantities split: prod.split)


subsection \<open>The contract of an executor\<close>

text \<open>What the runner needs of every executor: a plan that does nothing is not executed, and a
  report belongs to its plan.\<close>

locale carry_venue =
  fixes execute :: "'w carry_executor"
  assumes noop_untouched: "is_noop p \<Longrightarrow> execute p S P w = (Inr None, w)"
    and report_of_plan: "execute p S P w = (Inr (Some r), w') \<Longrightarrow> report_reason r = plan_reason_of p \<and> \<not> is_noop p"
begin

lemma noop_step:
  assumes "carry_plan snap c = Inr p" and "is_noop p"
  shows "carry_step execute snap (c, w) = (Inr Plan_noop, log_step snap Plan_noop (settle_funding snap c), w)"
  using assms noop_untouched [OF assms(2)] by (simp add: carry_step_def is_noop_def)

lemma step_config: "carry_step execute snap (c, w) = (r, c', w') \<Longrightarrow> cr_config c' = cr_config c"
  by (auto simp: carry_step_def split: sum.splits prod.splits)

lemma failed_step: "carry_step execute snap (c, w) = (Inl e, c', w') \<Longrightarrow> c' = c"
  by (auto simp: carry_step_def split: sum.splits prod.splits)

text \<open>A short without its spot leg has no notional, so no plan ever closes the gap.\<close>

lemma naked_step:
  assumes "spot_qty (cr_state c) = 0" and "0 < perp_qty (cr_state c)" and "capital_multiplier (cr_config c) \<noteq> 0"
    and "min_trailing_funding_8h (cr_config c) \<le> sn_trailing_funding_8h snap"
  shows "carry_step execute snap (c, w) = (Inr Plan_noop, log_step snap Plan_noop (settle_funding snap c), w)"
proof (rule noop_step)
  show "carry_plan snap c = Inr noop_plan"
    using assms by (simp add: carry_plan_def decide_target_def plan_def in_market_def pair_notional_def Let_def)
qed (simp add: is_noop_def noop_plan_def)

lemma naked_run:
  assumes "spot_qty (cr_state c) = 0" and "0 < perp_qty (cr_state c)" and "capital_multiplier (cr_config c) \<noteq> 0"
    and "\<forall>snap \<in> set snaps. min_trailing_funding_8h (cr_config c) \<le> sn_trailing_funding_8h snap"
  shows "\<exists>c'. carry_run execute snaps (c, w) = (Inr (cr_log c'), c', w) \<and> cl_actions (cr_log c') = cl_actions (cr_log c) @ map (\<lambda>_. Plan_noop) snaps
    \<and> spot_qty (cr_state c') = 0 \<and> perp_qty (cr_state c') = perp_qty (cr_state c)"
  using assms
proof (induction snaps arbitrary: c)
  case (Cons snap snaps)
  note s = naked_step [OF Cons.prems(1-3), of snap w]
  let ?c = "log_step snap Plan_noop (settle_funding snap c)"
  have a: "cl_actions (cr_log ?c) = cl_actions (cr_log c) @ [Plan_noop]"
    by (simp add: log_step_def settle_funding_def)
  have "\<exists>c'. carry_run execute snaps (?c, w) = (Inr (cr_log c'), c', w)
      \<and> cl_actions (cr_log c') = cl_actions (cr_log ?c) @ map (\<lambda>_. Plan_noop) snaps
      \<and> spot_qty (cr_state c') = 0 \<and> perp_qty (cr_state c') = perp_qty (cr_state ?c)"
    using Cons.prems by (intro Cons.IH) simp_all
  with s Cons.prems(4) a show ?case by simp
qed simp

end

text \<open>The paper executor fills a plan exactly.\<close>

locale exact_venue = carry_venue execute for execute :: "'w carry_executor" +
  assumes exact_fill: "\<not> is_noop p \<Longrightarrow> \<exists>r. execute p S P w = (Inr (Some r), w)
      \<and> spot_fill_qty r = spot_delta_qty p \<and> perp_fill_qty r = perp_delta_qty p"
begin

lemma planned_step:
  assumes "carry_plan snap c = Inr p"
  obtains report where "carry_step execute snap (c, w) = (Inr (plan_reason_of p),
      log_step snap (plan_reason_of p) (settle_funding snap (book_report report c)), w)"
    and "execute p (sn_spot_px snap) (sn_perp_mark_px snap) w = (Inr report, w)"
    and "report = None \<longrightarrow> is_noop p"
    and "\<forall>r. report = Some r \<longrightarrow> \<not> is_noop p \<and> spot_fill_qty r = spot_delta_qty p \<and> perp_fill_qty r = perp_delta_qty p"
proof (cases "is_noop p")
  case True
  with assms noop_untouched [OF True] show ?thesis by (intro that [of None]) (simp_all add: carry_step_def)
next
  case False
  from exact_fill [OF this, of "sn_spot_px snap" "sn_perp_mark_px snap" w] assms False show ?thesis
    by (elim exE conjE) (rule that, auto simp: carry_step_def)
qed

end

interpretation paper: exact_venue "paper_execute F" for F
  by unfold_locales (auto simp: paper_execute_def Let_def split: if_splits)



subsection \<open>What each action achieves\<close>

definition sound_book :: "carry_position \<Rightarrow> bool" where
  "sound_book s \<longleftrightarrow> 0 \<le> spot_qty s \<and> 0 \<le> perp_qty s \<and> (0 < perp_qty s \<longrightarrow> 0 < spot_qty s)"

text \<open>The size the pair should have by the figures of a snapshot.\<close>

definition wanted :: "perp_snapshot \<Rightarrow> carry_runner \<Rightarrow> real" where
  "wanted snap c = (if min_trailing_funding_8h (cr_config c) \<le> sn_trailing_funding_8h snap
     then max 0 (runner_equity c (sn_spot_px snap) (sn_perp_mark_px snap)) / capital_multiplier (cr_config c) else 0)"

definition settled :: "perp_snapshot \<Rightarrow> plan_reason \<Rightarrow> carry_runner \<Rightarrow> carry_runner \<Rightarrow> bool" where
  "settled snap a c c' \<longleftrightarrow>
     (let S = sn_spot_px snap; P = sn_perp_mark_px snap; s = cr_state c; s' = cr_state c'; cfg = cr_config c;
          hold = (min_trailing_funding_8h cfg \<le> sn_trailing_funding_8h snap) in
      case a of
        Plan_open \<Rightarrow> hold \<and> \<not> in_market s \<and> spot_qty s' * S = wanted snap c \<and> perp_qty s' = spot_qty s'
      | Plan_close \<Rightarrow> \<not> hold \<and> in_market s \<and> \<not> in_market s'
      | Plan_rebalance \<Rightarrow> hold \<and> spot_qty s' = spot_qty s \<and> net_delta s' S P = 0
      | Plan_resize \<Rightarrow> hold \<and> spot_qty s' * S = wanted snap c
          \<and> perp_qty s' = max 0 (perp_qty s + (spot_qty s' - spot_qty s))
      | Plan_noop \<Rightarrow> spot_qty s' = spot_qty s \<and> perp_qty s' = perp_qty s
          \<and> (\<not> hold \<longrightarrow> \<not> in_market s')
          \<and> (hold \<and> in_market s \<longrightarrow> \<bar>net_delta s' S P\<bar> \<le> rebalance_band cfg * (spot_qty s' * S)
               \<and> (0 < wanted snap c \<longrightarrow> \<bar>spot_qty s' * S - wanted snap c\<bar> \<le> resize_band cfg * wanted snap c))
          \<and> (hold \<and> \<not> in_market s \<longrightarrow> wanted snap c \<le> 0))"

lemma plan_for:
  "carry_plan snap c = Inr p \<Longrightarrow> p = plan (cr_config c) (cr_state c)
     \<lparr>ct_hold = (min_trailing_funding_8h (cr_config c) \<le> sn_trailing_funding_8h snap), target_notional = wanted snap c\<rparr>
     (sn_spot_px snap) (sn_perp_mark_px snap)"
  by (auto simp: carry_plan_def decide_target_def wanted_def split: if_splits)

lemma plan_settles:
  assumes "carry_plan snap c = Inr p" and sound: "sound_book (cr_state c)"
    and px: "0 < sn_spot_px snap" "0 < sn_perp_mark_px snap"
    and q: "spot_qty (cr_state c') = max 0 (spot_qty (cr_state c) + spot_delta_qty p)"
      "perp_qty (cr_state c') = max 0 (perp_qty (cr_state c) + perp_delta_qty p)"
  shows "settled snap (plan_reason_of p) c c'"
proof -
  let ?S = "sn_spot_px snap" and ?P = "sn_perp_mark_px snap" and ?s = "cr_state c" and ?s' = "cr_state c'" and ?W = "wanted snap c"
  let ?hold = "min_trailing_funding_8h (cr_config c) \<le> sn_trailing_funding_8h snap"
  let ?N = "spot_qty ?s * ?S"
  note p = plan_for [OF assms(1)]
  have nonneg: "0 \<le> spot_qty ?s" "0 \<le> perp_qty ?s" using sound by (simp_all add: sound_book_def)
  consider "\<not> ?hold" | "?hold" "\<not> in_market ?s" | "?hold" "in_market ?s" by blast
  then show ?thesis
  proof cases
    case 1
    with p nonneg q show ?thesis by (auto simp: plan_def settled_def noop_plan_def in_market_def Let_def)
  next
    case 2
    then have flat: "spot_qty ?s = 0" "perp_qty ?s = 0" using nonneg by (auto simp: in_market_def)
    show ?thesis
    proof (cases "?W / ?S \<le> 0")
      case True
      then have "?W \<le> 0" using px by (simp add: divide_le_0_iff)
      with True 2 p px q flat show ?thesis by (simp add: plan_def settled_def noop_plan_def in_market_def Let_def)
    next
      case False
      with 2 p px have pe: "p = \<lparr>spot_delta_qty = ?W / ?S, perp_delta_qty = ?W / ?S, plan_reason_of = Plan_open, plan_details = []\<rparr>"
        by (simp add: plan_def Let_def)
      with q flat False have "spot_qty ?s' = ?W / ?S" "perp_qty ?s' = ?W / ?S" by simp_all
      with 2 pe px show ?thesis by (simp add: settled_def Let_def)
    qed
  next
    case 3
    then have N: "0 < ?N" using sound px by (auto simp: sound_book_def in_market_def)
    show ?thesis
    proof (cases "\<bar>net_delta ?s ?S ?P\<bar> / ?N > rebalance_band (cr_config c)")
      case True
      then have "p = \<lparr>spot_delta_qty = 0, perp_delta_qty = ?N / ?P - perp_qty ?s, plan_reason_of = Plan_rebalance,
          plan_details = [(''delta_frac'', net_delta ?s ?S ?P / ?N)]\<rparr>"
        using 3 p px N by (simp add: plan_def pair_notional_def Let_def)
      with 3 q nonneg px N show ?thesis by (simp add: settled_def net_delta_def Let_def)
    next
      case banded: False
      then have band: "\<bar>net_delta ?s ?S ?P\<bar> \<le> rebalance_band (cr_config c) * ?N"
        using N by (simp add: not_less pos_divide_le_eq)
      show ?thesis
      proof (cases "?W > 0 \<and> \<bar>?N - ?W\<bar> / ?W > resize_band (cr_config c)")
        case True
        then have pe: "p = \<lparr>spot_delta_qty = ?W / ?S - spot_qty ?s, perp_delta_qty = ?W / ?S - spot_qty ?s, plan_reason_of = Plan_resize,
            plan_details = [(''drift'', \<bar>?N - ?W\<bar> / ?W)]\<rparr>"
          using 3 p N banded by (simp add: plan_def pair_notional_def Let_def)
        have "0 < ?W / ?S" using True px by simp
        with q pe have "spot_qty ?s' = ?W / ?S" by simp
        with q pe 3 px show ?thesis by (simp add: settled_def Let_def)
      next
        case False
        then have pe: "p = noop_plan" using 3 p N banded by (auto simp: plan_def pair_notional_def Let_def)
        have "0 < ?W \<longrightarrow> \<bar>?N - ?W\<bar> \<le> resize_band (cr_config c) * ?W"
          using False by (auto simp: not_less pos_divide_le_eq)
        moreover have "spot_qty ?s' = spot_qty ?s" "perp_qty ?s' = perp_qty ?s" using q pe nonneg by (simp_all add: noop_plan_def)
        ultimately show ?thesis using 3 band pe by (simp add: settled_def noop_plan_def net_delta_def Let_def)
      qed
    qed
  qed
qed


lemma paper_step:
  assumes "carry_step (paper_execute F) snap (c, w) = (Inr a, c', w')"
  obtains p report where "carry_plan snap c = Inr p" and "a = plan_reason_of p" and "w' = w"
    and "c' = log_step snap a (settle_funding snap (book_report report c))"
    and "paper_execute F p (sn_spot_px snap) (sn_perp_mark_px snap) w = (Inr report, w)"
    and "report = None \<longrightarrow> is_noop p"
    and "\<forall>r. report = Some r \<longrightarrow> \<not> is_noop p \<and> spot_fill_qty r = spot_delta_qty p \<and> perp_fill_qty r = perp_delta_qty p"
proof -
  obtain p where p: "carry_plan snap c = Inr p"
    using assms by (cases "carry_plan snap c") (simp_all add: carry_step_def)
  from paper.planned_step [OF p, of F w] obtain report where
    "carry_step (paper_execute F) snap (c, w) = (Inr (plan_reason_of p),
      log_step snap (plan_reason_of p) (settle_funding snap (book_report report c)), w)"
    "paper_execute F p (sn_spot_px snap) (sn_perp_mark_px snap) w = (Inr report, w)"
    "report = None \<longrightarrow> is_noop p"
    "\<forall>r. report = Some r \<longrightarrow> \<not> is_noop p \<and> spot_fill_qty r = spot_delta_qty p \<and> perp_fill_qty r = perp_delta_qty p"
    by blast
  with p assms show ?thesis by (intro that [of p report]) auto
qed

lemma noop_deltas:
  assumes "carry_plan snap c = Inr p" and "is_noop p"
  shows "spot_delta_qty p = 0" "perp_delta_qty p = 0"
  using assms(2) unfolding plan_for [OF assms(1)]
  by (auto simp: plan_def noop_plan_def is_noop_def Let_def split: if_splits)

lemma paper_quantities:
  assumes "carry_step (paper_execute F) snap (c, w) = (Inr a, c', w')" and "sound_book (cr_state c)"
    and "carry_plan snap c = Inr p"
  shows "spot_qty (cr_state c') = max 0 (spot_qty (cr_state c) + spot_delta_qty p)"
    and "perp_qty (cr_state c') = max 0 (perp_qty (cr_state c) + perp_delta_qty p)"
    and "a = plan_reason_of p"
proof -
  from assms(1) obtain p' report where p': "carry_plan snap c = Inr p'" and a: "a = plan_reason_of p'"
    and c': "c' = log_step snap a (settle_funding snap (book_report report c))"
    and n: "report = None \<longrightarrow> is_noop p'"
    and r: "\<forall>r. report = Some r \<longrightarrow> \<not> is_noop p' \<and> spot_fill_qty r = spot_delta_qty p' \<and> perp_fill_qty r = perp_delta_qty p'"
    by (rule paper_step)
  from p' assms(3) have eq: "p' = p" by simp
  show "a = plan_reason_of p" using a eq by simp
  have d: "is_noop p \<Longrightarrow> spot_delta_qty p = 0 \<and> perp_delta_qty p = 0" using noop_deltas [OF assms(3)] by simp
  have nonneg: "0 \<le> spot_qty (cr_state c)" "0 \<le> perp_qty (cr_state c)" using assms(2) by (simp_all add: sound_book_def)
  have "spot_qty (cr_state c') = max 0 (spot_qty (cr_state c) + spot_delta_qty p)
    \<and> perp_qty (cr_state c') = max 0 (perp_qty (cr_state c) + perp_delta_qty p)"
  proof (cases report)
    case None
    with n d nonneg show ?thesis by (simp add: c' eq)
  next
    case (Some x)
    with r show ?thesis by (simp add: c' eq book_quantities)
  qed
  then show "spot_qty (cr_state c') = max 0 (spot_qty (cr_state c) + spot_delta_qty p)"
    "perp_qty (cr_state c') = max 0 (perp_qty (cr_state c) + perp_delta_qty p)" by simp_all
qed

lemma settled_sound:
  assumes "settled snap a c c'" and "sound_book (cr_state c)" and "0 < sn_spot_px snap" and "0 < sn_perp_mark_px snap"
    and "0 \<le> spot_qty (cr_state c')" and "0 \<le> perp_qty (cr_state c')" and "a = Plan_resize \<longrightarrow> 0 < wanted snap c"
  shows "sound_book (cr_state c')"
proof (cases a)
  case Plan_resize
  then have "0 < spot_qty (cr_state c') * sn_spot_px snap" using assms(1,7) by (simp add: settled_def Let_def)
  with assms(3-6) show ?thesis by (auto simp: sound_book_def zero_less_mult_iff)
next
  case Plan_rebalance
  then have "spot_qty (cr_state c') * sn_spot_px snap = perp_qty (cr_state c') * sn_perp_mark_px snap"
    using assms(1) by (auto simp: settled_def Let_def net_delta_def)
  moreover have "0 < perp_qty (cr_state c') * sn_perp_mark_px snap" if "0 < perp_qty (cr_state c')"
    using that assms(4) by simp
  ultimately have "0 < spot_qty (cr_state c')" if "0 < perp_qty (cr_state c')"
    using that assms(3) by (metis zero_less_mult_pos2)
  with assms(5,6) show ?thesis by (simp add: sound_book_def)
qed (use assms(1-6) in \<open>auto simp: settled_def sound_book_def in_market_def Let_def\<close>)

lemma resize_wanted:
  "carry_plan snap c = Inr p \<Longrightarrow> plan_reason_of p = Plan_resize \<Longrightarrow> 0 < wanted snap c"
  by (drule plan_for) (auto simp: plan_def noop_plan_def Let_def split: if_splits)

text \<open>C23: every action of a paper run achieves what it is named after, for a book whose short leg is
  covered by spot and positive prices. Opening makes both legs as large as wanted and equal, closing
  leaves nothing, rebalancing makes the net delta zero, resizing brings the spot leg to the wanted
  notional and changes the short leg by the same quantity, down to nothing at most. A cycle that does
  nothing while the pair is held has found the delta within the rebalance band, and the size within
  the resize band when the wanted size is positive; when it is not, as at an equity of zero or less,
  the pair is held as it is. And the short leg stays covered by spot.\<close>

theorem carry_actions_achieve:
  assumes "carry_step (paper_execute F) snap (c, w) = (Inr a, c', w')" and "sound_book (cr_state c)"
    and "0 < sn_spot_px snap" and "0 < sn_perp_mark_px snap"
  shows "settled snap a c c' \<and> sound_book (cr_state c')"
proof -
  obtain p where p: "carry_plan snap c = Inr p" using assms(1) by (rule paper_step)
  note q = paper_quantities [OF assms(1,2) p]
  have s: "settled snap a c c'" unfolding q(3) by (rule plan_settles [OF p assms(2-4) q(1,2)])
  moreover have "sound_book (cr_state c')"
    by (rule settled_sound [OF s assms(2-4)]) (use q resize_wanted [OF p] in simp_all)
  ultimately show ?thesis ..
qed



subsection \<open>What a paper run earns\<close>

definition paper_cost :: "paper_fees \<Rightarrow> real" where
  "paper_cost F = (2 * taker_bps F + slippage_bps F) / 10000"

lemma paper_fill_cost:
  assumes "paper_execute F p S P w = (Inr (Some r), w')"
  shows "spot_fill_qty r * (S - spot_fill_px r) + perp_fill_qty r * (perp_fill_px r - P) - fill_fee r
    = - paper_cost F * (\<bar>spot_delta_qty p\<bar> * S + \<bar>perp_delta_qty p\<bar> * P)"
proof -
  from assms show ?thesis
    by (auto simp: paper_execute_def paper_cost_def Let_def abs_real_def field_simps split: if_splits)
qed

text \<open>The cost of a cycle, as the equity shows it: the fee is charged on every trade, and once more in
  the price of the fill.\<close>

lemma paper_step_equity:
  assumes "carry_step (paper_execute F) snap (c, w) = (Inr a, c', w')" and "sound_book (cr_state c)"
    and "carry_plan snap c = Inr p" and "0 \<le> spot_qty (cr_state c) + spot_delta_qty p"
    and "0 \<le> perp_qty (cr_state c) + perp_delta_qty p"
  shows "runner_equity c' (sn_spot_px snap) (sn_perp_mark_px snap) = runner_equity c (sn_spot_px snap) (sn_perp_mark_px snap)
    + (accrued_funding (cr_state c') - accrued_funding (cr_state c))
    - paper_cost F * (\<bar>spot_qty (cr_state c') - spot_qty (cr_state c)\<bar> * sn_spot_px snap
        + \<bar>perp_qty (cr_state c') - perp_qty (cr_state c)\<bar> * sn_perp_mark_px snap)"
proof -
  let ?S = "sn_spot_px snap" and ?P = "sn_perp_mark_px snap"
  from assms(1) obtain p' report where p': "carry_plan snap c = Inr p'"
    and c': "c' = log_step snap a (settle_funding snap (book_report report c))"
    and e: "paper_execute F p' ?S ?P w = (Inr report, w)"
    and n: "report = None \<longrightarrow> is_noop p'"
    and r: "\<forall>r. report = Some r \<longrightarrow> \<not> is_noop p' \<and> spot_fill_qty r = spot_delta_qty p' \<and> perp_fill_qty r = perp_delta_qty p'"
    by (rule paper_step)
  from p' assms(3) have eq: "p' = p" by simp
  have q: "spot_qty (cr_state c') - spot_qty (cr_state c) = spot_delta_qty p"
    "perp_qty (cr_state c') - perp_qty (cr_state c) = perp_delta_qty p"
    using paper_quantities(1,2) [OF assms(1-3)] assms(4,5) by simp_all
  have "runner_equity (book_report report c) ?S ?P
      = runner_equity c ?S ?P - paper_cost F * (\<bar>spot_delta_qty p\<bar> * ?S + \<bar>perp_delta_qty p\<bar> * ?P)"
  proof (cases report)
    case None
    with n noop_deltas [OF assms(3)] show ?thesis by (simp add: eq)
  next
    case (Some x)
    obtain s' flow where f: "apply_fill (cr_state c) x = (s', flow)" by fastforce
    have "carry_equity s' (cr_cash c + flow) ?S ?P = carry_equity (cr_state c) (cr_cash c) ?S ?P
        + (spot_fill_qty x * (?S - spot_fill_px x) + perp_fill_qty x * (perp_fill_px x - ?P) - fill_fee x)"
      using fill_equity [OF f, of "cr_cash c" ?S ?P] r Some assms(2,4,5) by (simp add: eq sound_book_def)
    with paper_fill_cost [OF e [unfolded Some]] Some f show ?thesis
      by (simp add: book_report_def runner_equity_def eq)
  qed
  moreover have "runner_equity c' ?S ?P = runner_equity (book_report report c) ?S ?P
      + (accrued_funding (cr_state c') - accrued_funding (cr_state c))"
    unfolding c' by (simp add: settled_equity)
  ultimately show ?thesis unfolding q by simp
qed


definition paired :: "carry_position \<Rightarrow> bool" where
  "paired s \<longleftrightarrow> spot_qty s = perp_qty s \<and> 0 \<le> spot_qty s"

lemma paired_sound: "paired s \<Longrightarrow> sound_book s"
  by (simp add: paired_def sound_book_def)

lemma paired_plan:
  assumes "carry_plan snap c = Inr p" and "paired (cr_state c)" and "0 < sn_spot_px snap" and "sn_perp_mark_px snap = sn_spot_px snap"
  shows "perp_delta_qty p = spot_delta_qty p" and "0 \<le> spot_qty (cr_state c) + spot_delta_qty p"
proof -
  have "perp_delta_qty p = spot_delta_qty p \<and> 0 \<le> spot_qty (cr_state c) + spot_delta_qty p"
    unfolding plan_for [OF assms(1)]
    using assms(2-4) by (auto simp: plan_def noop_plan_def paired_def Let_def)
  then show "perp_delta_qty p = spot_delta_qty p" "0 \<le> spot_qty (cr_state c) + spot_delta_qty p" by simp_all
qed

lemma paired_never_rebalances:
  assumes "carry_plan snap c = Inr p" and "paired (cr_state c)" and "sn_perp_mark_px snap = sn_spot_px snap"
    and "0 \<le> rebalance_band (cr_config c)"
  shows "plan_reason_of p \<noteq> Plan_rebalance"
  using assms(2-4) unfolding plan_for [OF assms(1)]
  by (auto simp: plan_def noop_plan_def paired_def net_delta_def Let_def)

text \<open>With equal legs the equity is the same at every common price.\<close>

lemma paired_equity: "paired (cr_state c) \<Longrightarrow> runner_equity c x x = runner_equity c y y"
  by (simp add: runner_equity_def carry_equity_def paired_def Let_def algebra_simps)

lemma paired_step:
  assumes "carry_step (paper_execute F) snap (c, w) = (Inr a, c', w')" and "paired (cr_state c)"
    and "0 < sn_spot_px snap" and "sn_perp_mark_px snap = sn_spot_px snap"
  shows "paired (cr_state c')"
    and "runner_equity c' x x = runner_equity c x x + (accrued_funding (cr_state c') - accrued_funding (cr_state c))
      - paper_cost F * (2 * \<bar>spot_qty (cr_state c') - spot_qty (cr_state c)\<bar> * sn_spot_px snap)"
proof -
  obtain p where p: "carry_plan snap c = Inr p" using assms(1) by (rule paper_step)
  note d = paired_plan [OF p assms(2-4)] and q = paper_quantities [OF assms(1) paired_sound [OF assms(2)] p]
  have sq: "spot_qty (cr_state c) = perp_qty (cr_state c)" using assms(2) by (simp add: paired_def)
  show pr: "paired (cr_state c')" using q d sq by (simp add: paired_def)
  have sp: "perp_qty (cr_state c') = spot_qty (cr_state c')" using pr by (simp add: paired_def)
  have "runner_equity c' (sn_spot_px snap) (sn_perp_mark_px snap) = runner_equity c (sn_spot_px snap) (sn_perp_mark_px snap)
    + (accrued_funding (cr_state c') - accrued_funding (cr_state c))
    - paper_cost F * (\<bar>spot_qty (cr_state c') - spot_qty (cr_state c)\<bar> * sn_spot_px snap
        + \<bar>perp_qty (cr_state c') - perp_qty (cr_state c)\<bar> * sn_perp_mark_px snap)"
    by (rule paper_step_equity [OF assms(1) paired_sound [OF assms(2)] p]) (use d sq in simp_all)
  then show "runner_equity c' x x = runner_equity c x x + (accrued_funding (cr_state c') - accrued_funding (cr_state c))
      - paper_cost F * (2 * \<bar>spot_qty (cr_state c') - spot_qty (cr_state c)\<bar> * sn_spot_px snap)"
    unfolding assms(4) sp sq [symmetric]
    using paired_equity [OF pr, of x "sn_spot_px snap"] paired_equity [OF assms(2), of x "sn_spot_px snap"]
    by (simp add: algebra_simps)
qed

text \<open>The notional traded along a run, both legs counted.\<close>

fun traded_notional :: "'w carry_executor \<Rightarrow> perp_snapshot list \<Rightarrow> carry_runner \<times> 'w \<Rightarrow> real" where
  "traded_notional execute [] cw = 0"
| "traded_notional execute (snap # snaps) cw =
     (let cw' = snd (carry_step execute snap cw); s = cr_state (fst cw); s' = cr_state (fst cw') in
      \<bar>spot_qty s' - spot_qty s\<bar> * sn_spot_px snap + \<bar>perp_qty s' - perp_qty s\<bar> * sn_perp_mark_px snap
      + traded_notional execute snaps cw')"

definition flat_basis :: "perp_snapshot list \<Rightarrow> bool" where
  "flat_basis snaps \<longleftrightarrow> (\<forall>snap \<in> set snaps. 0 < sn_spot_px snap \<and> sn_perp_mark_px snap = sn_spot_px snap)"

lemma paired_run:
  assumes "flat_basis snaps" and "paired (cr_state c)" and "capital_multiplier (cr_config c) \<noteq> 0"
  shows "\<exists>c'. carry_run (paper_execute F) snaps (c, w) = (Inr (cr_log c'), c', w) \<and> paired (cr_state c')
    \<and> (0 \<le> rebalance_band (cr_config c) \<and> Plan_rebalance \<notin> set (cl_actions (cr_log c)) \<longrightarrow> Plan_rebalance \<notin> set (cl_actions (cr_log c')))
    \<and> (\<forall>x. runner_equity c' x x = runner_equity c x x + (accrued_funding (cr_state c') - accrued_funding (cr_state c))
        - paper_cost F * traded_notional (paper_execute F) snaps (c, w))"
  using assms
proof (induction snaps arbitrary: c)
  case (Cons snap snaps)
  have "\<exists>p. carry_plan snap c = Inr p"
    using Cons.prems(3)
    by (cases "min_trailing_funding_8h (cr_config c) \<le> sn_trailing_funding_8h snap") (simp_all add: carry_plan_def decide_target_def)
  then obtain p where p: "carry_plan snap c = Inr p" ..
  obtain report c1 where s: "carry_step (paper_execute F) snap (c, w) = (Inr (plan_reason_of p), c1, w)"
    and c1: "c1 = log_step snap (plan_reason_of p) (settle_funding snap (book_report report c))"
    using paper.planned_step [OF p, of F w] by metis
  have px: "0 < sn_spot_px snap" "sn_perp_mark_px snap = sn_spot_px snap" and rest: "flat_basis snaps"
    using Cons.prems(1) by (simp_all add: flat_basis_def)
  note one = paired_step [OF s Cons.prems(2) px]
  have cf: "cr_config c1 = cr_config c" by (simp add: c1)
  have act: "cl_actions (cr_log c1) = cl_actions (cr_log c) @ [plan_reason_of p]"
    by (simp add: c1 log_step_def settle_funding_def book_report_def split: option.split prod.split)
  from cf Cons.IH [OF rest one(1)] Cons.prems(3) obtain c' where
    r: "carry_run (paper_execute F) snaps (c1, w) = (Inr (cr_log c'), c', w)" "paired (cr_state c')"
    and nr: "0 \<le> rebalance_band (cr_config c) \<and> Plan_rebalance \<notin> set (cl_actions (cr_log c1)) \<longrightarrow> Plan_rebalance \<notin> set (cl_actions (cr_log c'))"
    and eq: "\<forall>x. runner_equity c' x x = runner_equity c1 x x + (accrued_funding (cr_state c') - accrued_funding (cr_state c1))
        - paper_cost F * traded_notional (paper_execute F) snaps (c1, w)" by auto
  have t: "traded_notional (paper_execute F) (snap # snaps) (c, w)
      = 2 * \<bar>spot_qty (cr_state c1) - spot_qty (cr_state c)\<bar> * sn_spot_px snap + traded_notional (paper_execute F) snaps (c1, w)"
    using one(1) Cons.prems(2) by (simp add: s px(2) Let_def paired_def)
  have "runner_equity c' x x = runner_equity c x x + (accrued_funding (cr_state c') - accrued_funding (cr_state c))
        - paper_cost F * traded_notional (paper_execute F) (snap # snaps) (c, w)" for x
    using spec [OF eq, of x] one(2) [of x] unfolding t distrib_left by linarith
  moreover have "0 \<le> rebalance_band (cr_config c) \<and> Plan_rebalance \<notin> set (cl_actions (cr_log c)) \<longrightarrow> Plan_rebalance \<notin> set (cl_actions (cr_log c'))"
    using nr paired_never_rebalances [OF p Cons.prems(2) px(2)] unfolding act by auto
  ultimately show ?case using r s by simp
qed simp

lemma neutral_run:
  assumes "flat_basis snaps" and "capital_multiplier cfg \<noteq> 0"
  shows "\<exists>c. carry_run (paper_execute F) snaps (new_carry_runner capital cfg, w) = (Inr (cr_log c), c, w)
    \<and> spot_qty (cr_state c) = perp_qty (cr_state c)
    \<and> (0 \<le> rebalance_band cfg \<longrightarrow> Plan_rebalance \<notin> set (cl_actions (cr_log c)))
    \<and> (\<forall>x. runner_equity c x x = capital + accrued_funding (cr_state c)
        - (taker_bps F + taker_bps F + slippage_bps F) / 10000
          * traded_notional (paper_execute F) snaps (new_carry_runner capital cfg, w))"
proof -
  have "paired (cr_state (new_carry_runner capital cfg))"
    by (simp add: new_carry_runner_def paired_def flat_position_def)
  from paired_run [OF assms(1) this, of F w] assms(2) show ?thesis
    by (auto simp: new_carry_runner_def paired_def flat_position_def runner_equity_def carry_equity_def paper_cost_def)
qed

text \<open>C12: a paper run earns funding and pays costs, and the price does not matter. Whatever the prices
  of the snapshots, as long as perpetual and spot are marked at the same price (as the snapshots of
  the history are), the run returns with both legs equal and without ever rebalancing them, and its equity at any price is the
  capital it began with, plus the funding, less a cost in proportion to what it traded; that cost
  counts the taker fee twice, once as a fee and once in the price of the fill.\<close>

theorem paper_carry_is_market_neutral:
  assumes "flat_basis snaps" and "capital_multiplier cfg \<noteq> 0"
  shows "\<exists>c. carry_run (paper_execute F) snaps (new_carry_runner capital cfg, w) = (Inr (cr_log c), c, w)
    \<and> spot_qty (cr_state c) = perp_qty (cr_state c)
    \<and> (0 \<le> rebalance_band cfg \<longrightarrow> Plan_rebalance \<notin> set (cl_actions (cr_log c)))
    \<and> (\<forall>x. runner_equity c x x = capital + accrued_funding (cr_state c)
        - (taker_bps F + taker_bps F + slippage_bps F) / 10000
          * traded_notional (paper_execute F) snaps (new_carry_runner capital cfg, w))"
  by (rule neutral_run [OF assms])

text \<open>The first cycle collects funding the position never earned, and the last forfeits its own. The
  cycle that opens the pair at once books the funding of the interval that ends with the snapshot,
  in which nothing was held; the cycle that closes a pair that was held in that interval books none.\<close>

theorem funding_of_the_wrong_interval:
  assumes "carry_step (paper_execute F) snap (c, w) = (Inr a, c', w')" and "sound_book (cr_state c)"
    and "0 < sn_spot_px snap" and "0 < sn_perp_mark_px snap" and "sn_is_funding_time snap"
  shows "(a = Plan_open \<longrightarrow> perp_qty (cr_state c) = 0 \<and> accrued_funding (cr_state c') = accrued_funding (cr_state c)
        + sn_funding_rate snap * (wanted snap c / sn_spot_px snap) * sn_perp_mark_px snap)
    \<and> (a = Plan_close \<longrightarrow> in_market (cr_state c) \<and> accrued_funding (cr_state c') = accrued_funding (cr_state c))"
proof -
  obtain p where p: "carry_plan snap c = Inr p" using assms(1) by (rule paper_step)
  note q = paper_quantities [OF assms(1,2) p]
  have s: "settled snap a c c'" unfolding q(3) by (rule plan_settles [OF p assms(2-4) q(1,2)])
  from assms(1) obtain p' report where c': "c' = log_step snap a (settle_funding snap (book_report report c))"
    by (rule paper_step)
  let ?b = "cr_state (book_report report c)"
  have b: "spot_qty (cr_state c') = spot_qty ?b" "perp_qty (cr_state c') = perp_qty ?b" unfolding c' by simp_all
  have acc: "accrued_funding (cr_state c') = accrued_funding (cr_state c)
      + (if in_market (cr_state c') then sn_funding_rate snap * perp_qty (cr_state c') * sn_perp_mark_px snap else 0)"
    unfolding b in_market_def unfolding c' using assms(5) by (simp add: settle_funding_def in_market_def)
  have "spot_qty (cr_state c') = wanted snap c / sn_spot_px snap" if "spot_qty (cr_state c') * sn_spot_px snap = wanted snap c"
    using that assms(3) by (simp add: eq_divide_eq)
  moreover have "perp_qty (cr_state c) = 0" if "\<not> in_market (cr_state c)"
    using that assms(2) by (simp add: in_market_def sound_book_def)
  moreover have "0 \<le> spot_qty (cr_state c')" "0 \<le> perp_qty (cr_state c')" using q by simp_all
  ultimately show ?thesis using s acc by (auto simp: settled_def Let_def in_market_def)
qed



subsection \<open>A concrete run\<close>

definition demo_snapshot :: "real \<Rightarrow> perp_snapshot" where
  "demo_snapshot px = \<lparr>sn_ts = 0, sn_symbol = ''BTC/USDT'', sn_spot_px = px, sn_perp_mark_px = px,
     sn_funding_rate = 1/1000, sn_trailing_funding_8h = 1/1000, sn_is_funding_time = True\<rparr>"

definition demo_runner :: carry_runner where
  "demo_runner = new_carry_runner 1200 default_carry_config"

lemma demo_opens:
  obtains c' where "carry_step (paper_execute default_paper_fees) (demo_snapshot 100) (demo_runner, ()) = (Inr Plan_open, c', ())"
proof -
  have "carry_plan (demo_snapshot 100) demo_runner = Inr \<lparr>spot_delta_qty = 8, perp_delta_qty = 8, plan_reason_of = Plan_open, plan_details = []\<rparr>"
    by (simp add: carry_plan_def demo_snapshot_def demo_runner_def decide_target_def new_carry_runner_def default_carry_config_def
        plan_def runner_equity_def carry_equity_def flat_position_def in_market_def)
  from paper.planned_step [OF this, of default_paper_fees "()"] that show ?thesis by auto
qed

lemma demo_px: "sn_spot_px (demo_snapshot px) = px" "sn_perp_mark_px (demo_snapshot px) = px" "sn_funding_rate (demo_snapshot px) = 1/1000"
  by (simp_all add: demo_snapshot_def)

lemma demo_book: "sound_book (cr_state demo_runner)" "wanted (demo_snapshot 100) demo_runner = 800"
  "accrued_funding (cr_state demo_runner) = 0"
  "0 < sn_spot_px (demo_snapshot 100)" "0 < sn_perp_mark_px (demo_snapshot 100)" "sn_is_funding_time (demo_snapshot 100)"
  by (simp_all add: sound_book_def demo_runner_def new_carry_runner_def flat_position_def wanted_def demo_snapshot_def
      default_carry_config_def runner_equity_def carry_equity_def)

theorem carry_actions_achieve_witness:
  "\<exists>c'. carry_step (paper_execute default_paper_fees) (demo_snapshot 100) (demo_runner, ()) = (Inr Plan_open, c', ())
     \<and> spot_qty (cr_state c') = 8 \<and> perp_qty (cr_state c') = 8"
proof -
  obtain c' where c': "carry_step (paper_execute default_paper_fees) (demo_snapshot 100) (demo_runner, ()) = (Inr Plan_open, c', ())"
    by (rule demo_opens)
  from carry_actions_achieve [OF c' demo_book(1,4,5)] c' show ?thesis
    by (intro exI [of _ c']) (simp add: settled_def demo_book demo_px Let_def)
qed

theorem paper_carry_is_market_neutral_witness:
  "\<exists>c. carry_run (paper_execute default_paper_fees) [demo_snapshot 100, demo_snapshot 7, demo_snapshot 450]
        (new_carry_runner 1200 default_carry_config, ()) = (Inr (cr_log c), c, ())
     \<and> spot_qty (cr_state c) = perp_qty (cr_state c)"
proof -
  have b: "flat_basis [demo_snapshot 100, demo_snapshot 7, demo_snapshot 450]" "capital_multiplier default_carry_config \<noteq> 0"
    by (simp_all add: flat_basis_def demo_snapshot_def default_carry_config_def)
  from paper_carry_is_market_neutral [OF b, of default_paper_fees 1200 "()"] show ?thesis by blast
qed

theorem funding_of_the_wrong_interval_witness:
  "\<exists>c'. carry_step (paper_execute default_paper_fees) (demo_snapshot 100) (demo_runner, ()) = (Inr Plan_open, c', ())
     \<and> accrued_funding (cr_state c') = 8/10"
proof -
  obtain c' where c': "carry_step (paper_execute default_paper_fees) (demo_snapshot 100) (demo_runner, ()) = (Inr Plan_open, c', ())"
    by (rule demo_opens)
  from funding_of_the_wrong_interval [OF c' demo_book(1,4-6)] c' show ?thesis
    by (intro exI [of _ c']) (simp add: demo_book demo_px)
qed

end
