(* ===== verification/CarryHistory.thy ===== *)
theory CarryHistory
  imports Carry MarketData
begin

text \<open>
  \<^verbatim>\<open>backend/src/carry/perp_provider.py\<close> (the replayed history) and \<^verbatim>\<open>basis_carry.py\<close> (the backtest
  without a book). Both look at the funding history through the mean of the prints of the last
  hours, taken at the end of a day and used on the next. A frame of funding is its list of rows,
  each a time and a rate.
\<close>

subsection \<open>The trailing funding\<close>

type_synonym funding_frame = "(datetime \<times> real) list"

text \<open>\<^verbatim>\<open>rolling("24h").mean()\<close>: the mean over the rows up to this one that are younger than the window.\<close>

definition rolling_window :: "int \<Rightarrow> funding_frame \<Rightarrow> nat \<Rightarrow> real list" where
  "rolling_window width rows i = map snd (filter (\<lambda>r. fst r > fst (rows ! i) - width) (take (Suc i) rows))"

definition window_mean :: "int \<Rightarrow> funding_frame \<Rightarrow> nat \<Rightarrow> datetime \<times> real" where
  "window_mean width rows i = (fst (rows ! i),
     sum_list (rolling_window width rows i) / real (length (rolling_window width rows i)))"

definition rolling_mean :: "int \<Rightarrow> funding_frame \<Rightarrow> funding_frame" where
  "rolling_mean width rows = map (window_mean width rows) [0..<length rows]"

text \<open>\<^verbatim>\<open>resample("D").last()\<close> of a day, and \<^verbatim>\<open>shift(1)\<close>: the value of the day before, on the days
  from the first to the last of the frame.\<close>

definition last_of_day :: "funding_frame \<Rightarrow> int \<Rightarrow> real option" where
  "last_of_day rows d = (case filter (\<lambda>r. date_of (fst r) = d) rows of [] \<Rightarrow> None | r # rs \<Rightarrow> Some (snd (last (r # rs))))"

definition trailing_mean :: "int \<Rightarrow> funding_frame \<Rightarrow> int \<Rightarrow> real option" where
  "trailing_mean prints rows d =
     (if rows = [] \<or> d < date_of (fst (hd rows)) \<or> date_of (fst (last rows)) < d then None
      else last_of_day (rolling_mean (prints * 8 * 3600000000) rows) (d - 1))"

text \<open>\<^verbatim>\<open>sort_values("timestamp")\<close>. The funding prints of an exchange have distinct times; on rows of equal time
  pandas' default sort, unlike this one, promises no order.\<close>

definition sort_funding :: "funding_frame \<Rightarrow> funding_frame" where
  "sort_funding f = sort_key fst f"

definition funding_days :: "funding_frame \<Rightarrow> int list" where
  "funding_days rows = remdups_adj (map (\<lambda>r. date_of (fst r)) rows)"

definition funding_on :: "funding_frame \<Rightarrow> int \<Rightarrow> real" where
  "funding_on rows d = sum_list (map snd (filter (\<lambda>r. date_of (fst r) = d) rows))"

definition daily_funding :: "funding_frame \<Rightarrow> (int, real) dict" where
  "daily_funding rows = map (\<lambda>d. (d, funding_on rows d)) (funding_days rows)"


subsection \<open>The replayed history\<close>

record historical_provider =
  hp_symbol :: string
  hp_close :: "(int \<times> real) list"
  hp_daily_funding :: "(int, real) dict"
  hp_trailing :: "int \<Rightarrow> real option"

definition historical_provider_of :: "string \<Rightarrow> frame \<Rightarrow> funding_frame \<Rightarrow> int \<Rightarrow> historical_provider" where
  "historical_provider_of symb ohlcv funding trail_prints =
     (let f = sort_funding funding in
      \<lparr>hp_symbol = symb,
       hp_close = map (\<lambda>r. (date_of (fst r), bar_close (snd r))) ohlcv,
       hp_daily_funding = daily_funding f,
       hp_trailing = trailing_mean trail_prints f\<rparr>)"

definition historical_snapshots :: "historical_provider \<Rightarrow> perp_snapshot list" where
  "historical_snapshots h =
     map (\<lambda>(day, close).
       \<lparr>sn_ts = day * 86400000000, sn_symbol = hp_symbol h, sn_spot_px = close, sn_perp_mark_px = close,
        sn_funding_rate = dict_get_or (hp_daily_funding h) day 0,
        sn_trailing_funding_8h = (case hp_trailing h day of None \<Rightarrow> 0 | Some t \<Rightarrow> t),
        sn_is_funding_time = (day \<in> set (dict_keys (hp_daily_funding h)))\<rparr>) (hp_close h)"


subsection \<open>The backtest\<close>

record basis_carry_config =
  bc_capital_multiplier :: real
  bc_flip_cost :: real
  bc_rebalance_drag_daily :: real
  bc_min_trailing_funding_8h :: real
  bc_trail_prints :: int

definition default_basis_carry :: basis_carry_config where
  "default_basis_carry = \<lparr>bc_capital_multiplier = 3/2, bc_flip_cost = 6/10000, bc_rebalance_drag_daily = 3/100000,
     bc_min_trailing_funding_8h = -1, bc_trail_prints = 3\<rparr>"

record basis_carry_result =
  bc_daily_returns :: "(int \<times> real) list"
  bc_gross_funding_annual :: real
  bc_net_annual :: real
  bc_days_in_market :: nat
  bc_n_flips :: int
  bc_pct_days_in_market :: real

definition hold_on :: "basis_carry_config \<Rightarrow> funding_frame \<Rightarrow> int \<Rightarrow> bool" where
  "hold_on cfg rows d = (case trailing_mean (bc_trail_prints cfg) rows d of
     None \<Rightarrow> False | Some t \<Rightarrow> t \<ge> bc_min_trailing_funding_8h cfg)"

definition flip_series :: "bool list \<Rightarrow> int list" where
  "flip_series hs = (case hs of [] \<Rightarrow> []
     | h # _ \<Rightarrow> of_bool h # map2 (\<lambda>a b. \<bar>of_bool b - of_bool a\<bar>) hs (tl hs))"

definition mean_of :: "real list \<Rightarrow> real" where
  "mean_of xs = sum_list xs / real (length xs)"

definition day_return :: "basis_carry_config \<Rightarrow> real \<Rightarrow> bool \<Rightarrow> int \<Rightarrow> real" where
  "day_return cfg gross hold flip =
     ((if hold then gross else 0)
       - (of_int flip * bc_flip_cost cfg + of_bool hold * bc_rebalance_drag_daily cfg)) / bc_capital_multiplier cfg"

definition simulate_basis_carry :: "funding_frame \<Rightarrow> basis_carry_config \<Rightarrow> basis_carry_result" where
  "simulate_basis_carry funding cfg =
     (if funding = [] then
        \<lparr>bc_daily_returns = [], bc_gross_funding_annual = 0, bc_net_annual = 0, bc_days_in_market = 0, bc_n_flips = 0,
         bc_pct_days_in_market = 0\<rparr>
      else
        let f = sort_funding funding;
            daily_gross = daily_funding f;
            hold = map (hold_on cfg f) (dict_keys daily_gross);
            flip = flip_series hold;
            returns = map2 (\<lambda>(d, g) (h, k). (d, day_return cfg g h k)) daily_gross (zip hold flip);
            days = length (filter id hold)
        in \<lparr>bc_daily_returns = returns,
            bc_gross_funding_annual = mean_of (map snd daily_gross) * 365,
            bc_net_annual = mean_of (map snd returns) * 365,
            bc_days_in_market = days,
            bc_n_flips = sum_list flip,
            bc_pct_days_in_market = (if hold = [] then 0 else real days / real (length hold))\<rparr>)"



subsection \<open>Decisions on the past\<close>

lemma date_of_mono: "s \<le> t \<Longrightarrow> date_of s \<le> date_of t"
  by (simp add: date_of_def zdiv_mono1)

lemma sorted_hd_last:
  "sorted (map fst rows) \<Longrightarrow> r \<in> set rows \<Longrightarrow> fst (hd rows) \<le> fst r \<and> fst r \<le> fst (last rows)"
  by (induction rows) auto

lemma split_at_day:
  "sorted (map fst rows) \<Longrightarrow> rows = filter (\<lambda>r. date_of (fst r) < d) rows @ filter (\<lambda>r. \<not> date_of (fst r) < d) rows"
proof (induction rows)
  case (Cons r rows)
  show ?case
  proof (cases "date_of (fst r) < d")
    case True
    with Cons show ?thesis by simp
  next
    case False
    have "date_of (fst r) \<le> date_of (fst x)" if "x \<in> set rows" for x
      using Cons.prems that by (auto intro: date_of_mono)
    with False have "\<forall>x \<in> set rows. \<not> date_of (fst x) < d" by fastforce
    then have "filter (\<lambda>r. date_of (fst r) < d) rows = []" "filter (\<lambda>r. \<not> date_of (fst r) < d) rows = rows"
      by (simp_all add: filter_empty_conv)
    with False show ?thesis by simp
  qed
qed simp

lemma rolling_append:
  "rolling_mean width (xs @ ys) = rolling_mean width xs @ map (window_mean width (xs @ ys)) [length xs..<length (xs @ ys)]"
proof -
  have "window_mean width (xs @ ys) i = window_mean width xs i" if "i < length xs" for i
    using that by (simp add: window_mean_def rolling_window_def nth_append)
  then have "map (window_mean width (xs @ ys)) [0..<length xs] = rolling_mean width xs"
    by (simp add: rolling_mean_def)
  moreover have "[0..<length (xs @ ys)] = [0..<length xs] @ [length xs..<length (xs @ ys)]"
    using upt_add_eq_append [of 0 "length xs" "length ys"] by simp
  ultimately show ?thesis unfolding rolling_mean_def [of width "xs @ ys"] by (simp only: map_append)
qed

lemma last_of_day_append:
  "\<forall>r \<in> set ys. date_of (fst r) \<noteq> d \<Longrightarrow> last_of_day (xs @ ys) d = last_of_day xs d"
  by (simp add: last_of_day_def)

text \<open>The trailing funding of a day is a function of the rows before it.\<close>

lemma trailing_past:
  assumes "sorted (map fst rows)"
  shows "trailing_mean n rows d = (if \<exists>r \<in> set rows. d \<le> date_of (fst r)
    then last_of_day (rolling_mean (n * 8 * 3600000000) (filter (\<lambda>r. date_of (fst r) < d) rows)) (d - 1) else None)"
proof (cases "\<exists>r \<in> set rows. d \<le> date_of (fst r)")
  case False
  then have "rows = [] \<or> date_of (fst (last rows)) < d" using last_in_set by force
  with False show ?thesis by (auto simp: trailing_mean_def)
next
  case True
  let ?w = "n * 8 * 3600000000"
  let ?p = "filter (\<lambda>r. date_of (fst r) < d) rows" and ?q = "filter (\<lambda>r. \<not> date_of (fst r) < d) rows"
  from True obtain r where r: "r \<in> set rows" "d \<le> date_of (fst r)" by blast
  then have ne: "rows \<noteq> []" by auto
  have late: "\<not> date_of (fst (last rows)) < d"
    using sorted_hd_last [OF assms r(1)] r(2) date_of_mono [of "fst r" "fst (last rows)"] by linarith
  have sp: "rows = ?p @ ?q" by (rule split_at_day [OF assms])
  have tail: "\<forall>r \<in> set (map (window_mean ?w (?p @ ?q)) [length ?p..<length (?p @ ?q)]). date_of (fst r) \<noteq> d - 1"
  proof
    fix r assume "r \<in> set (map (window_mean ?w (?p @ ?q)) [length ?p..<length (?p @ ?q)])"
    then obtain i where i: "length ?p \<le> i" "i - length ?p < length ?q" and r: "fst r = fst (?q ! (i - length ?p))"
      by (auto simp: window_mean_def nth_append)
    have "?q ! (i - length ?p) \<in> set ?q" using i(2) by (rule nth_mem)
    then have "\<not> date_of (fst r) < d" using r by simp
    then show "date_of (fst r) \<noteq> d - 1" by simp
  qed
  have "last_of_day (rolling_mean ?w (?p @ ?q)) (d - 1) = last_of_day (rolling_mean ?w ?p) (d - 1)"
    unfolding rolling_append by (rule last_of_day_append [OF tail])
  then have eq: "last_of_day (rolling_mean ?w rows) (d - 1) = last_of_day (rolling_mean ?w ?p) (d - 1)"
    using sp by metis
  have "last_of_day (rolling_mean ?w ?p) (d - 1) = None" if "d < date_of (fst (hd rows))"
  proof -
    have "\<forall>x \<in> set rows. \<not> date_of (fst x) < d"
      using sorted_hd_last [OF assms] date_of_mono that by fastforce
    then have "?p = []" by (simp add: filter_empty_conv)
    then show ?thesis by (simp add: rolling_mean_def last_of_day_def)
  qed
  with True ne late eq show ?thesis by (auto simp: trailing_mean_def)
qed

lemma sorted_funding [simp]: "sorted (map fst (sort_funding f))" "set (sort_funding f) = set f"
  by (simp_all add: sort_funding_def)

lemma funding_before: "filter P (sort_funding f) = sort_funding (filter P f)"
  by (simp add: sort_funding_def filter_sort)

lemma trailing_agrees:
  assumes "filter (\<lambda>r. date_of (fst r) < d) f = filter (\<lambda>r. date_of (fst r) < d) g"
    and "\<exists>r \<in> set f. d \<le> date_of (fst r)" and "\<exists>r \<in> set g. d \<le> date_of (fst r)"
  shows "trailing_mean n (sort_funding f) d = trailing_mean n (sort_funding g) d"
  using assms by (simp add: trailing_past funding_before)

text \<open>C25: the carry decides on the past. Two histories with the same prints before a day, both of which
  reach that day, give the same trailing funding in the replayed snapshot and the same decision
  in the backtest, whatever the prints of the day itself and of later days are.\<close>

theorem carry_decides_on_the_past:
  assumes "filter (\<lambda>r. date_of (fst r) < d) f = filter (\<lambda>r. date_of (fst r) < d) g"
    and "\<exists>r \<in> set f. d \<le> date_of (fst r)" and "\<exists>r \<in> set g. d \<le> date_of (fst r)"
  shows "hold_on cfg (sort_funding f) d = hold_on cfg (sort_funding g) d
    \<and> hp_trailing (historical_provider_of symb ohlcv f n) d = hp_trailing (historical_provider_of symb ohlcv g n) d"
  by (simp add: hold_on_def historical_provider_of_def Let_def trailing_agrees [OF assms])



subsection \<open>What the backtest adds up to\<close>

lemma flips_between:
  "even (sum_list (map2 (\<lambda>a b. \<bar>of_bool b - of_bool a\<bar>) (h # hs) hs) :: int) \<longleftrightarrow> last (h # hs) = h"
  by (induction hs arbitrary: h) auto

lemma flips_parity:
  "hs \<noteq> [] \<Longrightarrow> even (sum_list (flip_series hs)) \<longleftrightarrow> \<not> last hs"
proof (cases hs)
  case (Cons h tl)
  then show ?thesis using flips_between [of h tl] by (cases h) (auto simp: flip_series_def)
qed simp

lemma flips_length [simp]: "length (flip_series hs) = length hs"
  by (cases hs) (simp_all add: flip_series_def)

lemma returns_sum:
  assumes "length gs = length hs" and "length hs = length ks"
  shows "sum_list (map snd (map2 (\<lambda>(d, g) (h, k). (d, day_return cfg g h k)) gs (zip hs ks)))
    = (sum_list (map2 (\<lambda>(d, g) h. if h then g else 0) gs hs) - of_int (sum_list ks) * bc_flip_cost cfg
        - real (length (filter id hs)) * bc_rebalance_drag_daily cfg) / bc_capital_multiplier cfg"
  using assms
  by (induction gs hs ks rule: list_induct3) (auto simp: day_return_def field_simps add_divide_distrib diff_divide_distrib)

lemma held_gross:
  "sum_list (map2 (\<lambda>(d, g) h. if h then g else 0) (map (\<lambda>d. (d, G d)) ds) (map H ds)) = (sum_list (map G (filter H ds)) :: real)"
  by (induction ds) auto

text \<open>The backtest adds up. The daily returns sum to the funding of the days held, less the cost of
  the flips and the drag of the days it counts, on the capital deployed; and the flips it counts
  are even exactly when it ends out of the market, so a pair still held at the end is never
  charged for closing.\<close>

theorem backtest_adds_up:
  assumes "funding \<noteq> []"
  shows "sum_list (map snd (bc_daily_returns (simulate_basis_carry funding cfg)))
      = (sum_list (map (funding_on (sort_funding funding)) (filter (hold_on cfg (sort_funding funding)) (funding_days (sort_funding funding))))
         - of_int (bc_n_flips (simulate_basis_carry funding cfg)) * bc_flip_cost cfg
         - real (bc_days_in_market (simulate_basis_carry funding cfg)) * bc_rebalance_drag_daily cfg) / bc_capital_multiplier cfg
    \<and> bc_days_in_market (simulate_basis_carry funding cfg)
        = length (filter (hold_on cfg (sort_funding funding)) (funding_days (sort_funding funding)))
    \<and> (even (bc_n_flips (simulate_basis_carry funding cfg))
        \<longleftrightarrow> \<not> hold_on cfg (sort_funding funding) (last (funding_days (sort_funding funding))))"
proof -
  let ?f = "sort_funding funding" and ?R = "simulate_basis_carry funding cfg"
  let ?days = "funding_days ?f" and ?H = "hold_on cfg ?f"
  have k: "dict_keys (daily_funding ?f) = ?days" by (simp add: dict_keys_def daily_funding_def o_def)
  have len: "length (daily_funding ?f) = length (map ?H ?days)" by (simp add: daily_funding_def)
  have count: "length (filter id (map ?H ds)) = length (filter ?H ds)" for ds by (simp add: filter_map o_def)
  have ret: "bc_daily_returns ?R = map2 (\<lambda>(d, g) (h, k). (d, day_return cfg g h k)) (daily_funding ?f)
      (zip (map ?H ?days) (flip_series (map ?H ?days)))"
    using assms k by (simp add: simulate_basis_carry_def Let_def)
  have flips: "bc_n_flips ?R = sum_list (flip_series (map ?H ?days))"
    using assms k by (simp add: simulate_basis_carry_def Let_def)
  have days: "bc_days_in_market ?R = length (filter ?H ?days)"
    using assms k count by (simp add: simulate_basis_carry_def Let_def)
  have ne: "?days \<noteq> []" using assms by (simp add: funding_days_def sort_funding_def) (metis sort_key_const length_0_conv length_sort)
  have "even (bc_n_flips ?R) \<longleftrightarrow> \<not> ?H (last ?days)"
    unfolding flips using flips_parity [of "map ?H ?days"] ne by (simp add: last_map)
  moreover have "sum_list (map snd (bc_daily_returns ?R)) = (sum_list (map (funding_on ?f) (filter ?H ?days))
      - of_int (bc_n_flips ?R) * bc_flip_cost cfg - real (bc_days_in_market ?R) * bc_rebalance_drag_daily cfg) / bc_capital_multiplier cfg"
    unfolding ret flips days using returns_sum [OF len flips_length [symmetric], of cfg] held_gross [of "funding_on ?f" ?days ?H] count
    by (simp add: daily_funding_def)
  ultimately show ?thesis using days by blast
qed


subsection \<open>The history and the paper runner\<close>

lemma history_flat_basis:
  "\<forall>r \<in> set ohlcv. 0 < bar_close (snd r) \<Longrightarrow> flat_basis (historical_snapshots (historical_provider_of symb ohlcv funding n))"
  by (auto simp: flat_basis_def historical_snapshots_def historical_provider_of_def Let_def)


lemma history_run:
  assumes "\<forall>r \<in> set ohlcv. 0 < bar_close (snd r)" and "capital_multiplier cfg \<noteq> 0"
  shows "\<exists>c. carry_run (paper_execute F) (historical_snapshots (historical_provider_of symb ohlcv funding n))
      (new_carry_runner capital cfg, w) = (Inr (cr_log c), c, w) \<and> spot_qty (cr_state c) = perp_qty (cr_state c)"
  using neutral_run [OF history_flat_basis [OF assms(1)] assms(2), where F = F and capital = capital and w = w] by blast


subsection \<open>A concrete history\<close>

theorem carry_decides_on_the_past_witness:
  "hold_on default_basis_carry (sort_funding [(0, 1/1000), (86400000000, 2/1000)]) 1
     = hold_on default_basis_carry (sort_funding [(0, 1/1000), (86400000000, - 9/1000), (172800000000, 1)]) 1
   \<and> hold_on default_basis_carry (sort_funding [(0, 1/1000), (86400000000, 2/1000)]) 1"
proof -
  let ?f = "[(0, 1/1000), (86400000000, 2/1000)] :: funding_frame"
  let ?g = "[(0, 1/1000), (86400000000, - 9/1000), (172800000000, 1)] :: funding_frame"
  have "filter (\<lambda>r. date_of (fst r) < 1) ?f = filter (\<lambda>r. date_of (fst r) < 1) ?g" by (simp add: date_of_def)
  moreover have "\<exists>r \<in> set ?f. 1 \<le> date_of (fst r)" "\<exists>r \<in> set ?g. 1 \<le> date_of (fst r)" by (simp_all add: date_of_def)
  ultimately have e: "hold_on default_basis_carry (sort_funding ?f) 1 = hold_on default_basis_carry (sort_funding ?g) 1"
    using carry_decides_on_the_past [of 1 ?f ?g default_basis_carry "[]" "[]" 3] by blast
  have "sort_funding ?f = ?f" by (simp add: sort_funding_def)
  moreover have "hold_on default_basis_carry ?f 1"
    by (simp add: hold_on_def trailing_mean_def date_of_def last_of_day_def rolling_mean_def window_mean_def rolling_window_def
        default_basis_carry_def)
  ultimately show ?thesis using e by simp
qed

theorem backtest_adds_up_witness:
  "bc_days_in_market (simulate_basis_carry [(0, 1/1000), (86400000000, 2/1000)] default_basis_carry) = 1
   \<and> odd (bc_n_flips (simulate_basis_carry [(0, 1/1000), (86400000000, 2/1000)] default_basis_carry))"
proof -
  let ?f = "[(0, 1/1000), (86400000000, 2/1000)] :: funding_frame"
  have s: "sort_funding ?f = ?f" by (simp add: sort_funding_def)
  have "funding_days ?f = [0, 1]" by (simp add: funding_days_def date_of_def)
  moreover have "\<not> hold_on default_basis_carry ?f 0" "hold_on default_basis_carry ?f 1"
    by (simp_all add: hold_on_def trailing_mean_def date_of_def last_of_day_def rolling_mean_def window_mean_def rolling_window_def
        default_basis_carry_def)
  ultimately show ?thesis using backtest_adds_up [of ?f default_basis_carry] unfolding s by simp
qed

end
