(* ===== verification/CarryLive.thy ===== *)
theory CarryLive
  imports Carry
begin

text \<open>
  \<^verbatim>\<open>backend/src/carry/live_executor.py\<close> and \<^verbatim>\<open>live_state.py\<close>, and the cycle of
  \<^verbatim>\<open>scripts/run_carry_live.py\<close>: the carry against real venues. The two venues (clients of the ccxt
  package, one for spot and one for futures) are parameters: each call answers or raises and may
  change the world. The file of the runner's state is what it was last written with.
\<close>

subsection \<open>The venues\<close>

record venue_order =
  vo_id :: "string option"
  vo_filled :: "real option"
  vo_amount :: "real option"
  vo_average :: "real option"
  vo_price :: "real option"
  vo_fees :: "real option list"
  vo_fee :: "real option option"

record venue_position =
  vp_symbol :: string
  vp_contracts :: "real option"
  vp_contract_size :: "real option"

record 'w carry_client =
  cc_last :: "string \<Rightarrow> 'w \<Rightarrow> real result \<times> 'w"
  cc_funding :: "string \<Rightarrow> 'w \<Rightarrow> (real \<times> real option) result \<times> 'w"
  cc_funding_history :: "string \<Rightarrow> int \<Rightarrow> 'w \<Rightarrow> real list result \<times> 'w"
  cc_load_markets :: "'w \<Rightarrow> unit result \<times> 'w"
  cc_amount_to_precision :: "string \<Rightarrow> real \<Rightarrow> real result"
  cc_create_order :: "string \<Rightarrow> string \<Rightarrow> real \<Rightarrow> bool \<Rightarrow> 'w \<Rightarrow> venue_order result \<times> 'w"
  cc_fetch_order :: "string \<Rightarrow> string \<Rightarrow> 'w \<Rightarrow> venue_order result \<times> 'w"
  cc_free_balance :: "string \<Rightarrow> 'w \<Rightarrow> real option result \<times> 'w"
  cc_positions :: "string \<Rightarrow> 'w \<Rightarrow> venue_position list result \<times> 'w"

record 'w carry_exchange =
  cx_spot :: "'w carry_client"
  cx_fut :: "'w carry_client"
  cx_symbol :: string
  cx_base :: string
  cx_perp :: string
  cx_trail_prints :: int
  cx_transient :: "py_error \<Rightarrow> bool"
  cx_now :: "'w \<Rightarrow> datetime"

definition split_slash :: "string \<Rightarrow> (string \<times> string) result" where
  "split_slash s =
     (case dropWhile (\<lambda>ch. ch \<noteq> CHR ''/'') s of
        [] \<Rightarrow> Inl (ValueError ''not enough values to unpack'')
      | _ # rest \<Rightarrow>
          if CHR ''/'' \<in> set rest then Inl (ValueError ''too many values to unpack'')
          else Inr (takeWhile (\<lambda>ch. ch \<noteq> CHR ''/'') s, rest))"

definition carry_exchange_of ::
  "'w carry_client \<Rightarrow> 'w carry_client \<Rightarrow> (py_error \<Rightarrow> bool) \<Rightarrow> ('w \<Rightarrow> datetime) \<Rightarrow> string \<Rightarrow> int \<Rightarrow> 'w carry_exchange result" where
  "carry_exchange_of spot fut transient now symb trail_prints =
     and_then (split_slash symb) (\<lambda>(base, quote).
       Inr \<lparr>cx_spot = spot, cx_fut = fut, cx_symbol = symb, cx_base = base,
            cx_perp = base @ ''/'' @ quote @ '':'' @ quote, cx_trail_prints = trail_prints,
            cx_transient = transient, cx_now = now\<rparr>)"

text \<open>A read is tried four times, as long as its errors are those of the network.\<close>

fun retry_read :: "(py_error \<Rightarrow> bool) \<Rightarrow> ('w \<Rightarrow> 'a result \<times> 'w) \<Rightarrow> nat \<Rightarrow> 'w \<Rightarrow> 'a result \<times> 'w" where
  "retry_read transient fn 0 w = (Inl (TypeError ''exceptions must derive from BaseException''), w)"
| "retry_read transient fn (Suc k) w =
     (case fn w of
        (Inr x, w') \<Rightarrow> (Inr x, w')
      | (Inl e, w') \<Rightarrow> if transient e \<and> 0 < k then retry_read transient fn k w' else (Inl e, w'))"

definition read_venue :: "'w carry_exchange \<Rightarrow> ('w \<Rightarrow> 'a result \<times> 'w) \<Rightarrow> 'w \<Rightarrow> 'a result \<times> 'w" where
  "read_venue X fn w = retry_read (cx_transient X) fn 4 w"

text \<open>\<^verbatim>\<open>a or b or 0.0\<close>: the first of the values that is there and is not zero.\<close>

fun first_truthy :: "real option list \<Rightarrow> real" where
  "first_truthy [] = 0"
| "first_truthy (None # vs) = first_truthy vs"
| "first_truthy (Some v # vs) = (if v = 0 then first_truthy vs else v)"

definition bind_venue :: "'a result \<times> 'w \<Rightarrow> ('a \<Rightarrow> 'w \<Rightarrow> 'b result \<times> 'w) \<Rightarrow> 'b result \<times> 'w" where
  "bind_venue r f = (case r of (Inl e, w) \<Rightarrow> (Inl e, w) | (Inr x, w) \<Rightarrow> f x w)"

lemma bind_venue_simps [simp]:
  "bind_venue (Inl e, w) f = (Inl e, w)" "bind_venue (Inr x, w) f = f x w"
  by (simp_all add: bind_venue_def)

lemma bind_venue_Inr:
  "bind_venue r f = (Inr y, w') \<longleftrightarrow> (\<exists>x w. r = (Inr x, w) \<and> f x w = (Inr y, w'))"
  by (auto simp: bind_venue_def split: prod.splits sum.splits)

definition venue_snapshot :: "'w carry_exchange \<Rightarrow> 'w \<Rightarrow> perp_snapshot result \<times> 'w" where
  "venue_snapshot X w =
     bind_venue (read_venue X (cc_last (cx_spot X) (cx_symbol X)) w) (\<lambda>spot_px w.
     bind_venue (read_venue X (cc_funding (cx_fut X) (cx_perp X)) w) (\<lambda>(rate, mark) w.
     bind_venue (if first_truthy [mark] \<noteq> 0 then (Inr (first_truthy [mark]), w)
                 else read_venue X (cc_last (cx_fut X) (cx_perp X)) w) (\<lambda>perp_px w.
     bind_venue (read_venue X (cc_funding_history (cx_fut X) (cx_perp X) (cx_trail_prints X)) w) (\<lambda>hist w.
       (Inr \<lparr>sn_ts = cx_now X w, sn_symbol = cx_symbol X, sn_spot_px = spot_px, sn_perp_mark_px = perp_px,
             sn_funding_rate = rate,
             sn_trailing_funding_8h = (if hist \<noteq> [] then sum_list hist / real (length hist) else rate),
             sn_is_funding_time = True\<rparr>, w)))))"

text \<open>The world of an exchange: whether the markets are loaded, and the venues themselves.\<close>

type_synonym 'w exchange_state = "bool \<times> 'w"

definition ensure_markets :: "'w carry_exchange \<Rightarrow> 'w exchange_state \<Rightarrow> unit result \<times> 'w exchange_state" where
  "ensure_markets X st =
     (if fst st then (Inr (), st)
      else case read_venue X (cc_load_markets (cx_spot X)) (snd st) of
        (Inl e, w) \<Rightarrow> (Inl e, (False, w))
      | (Inr _, w) \<Rightarrow>
          (case read_venue X (cc_load_markets (cx_fut X)) w of
             (Inl e, w) \<Rightarrow> (Inl e, (False, w))
           | (Inr _, w) \<Rightarrow> (Inr (), (True, w))))"

definition round_qty :: "'w carry_exchange \<Rightarrow> real \<Rightarrow> 'w exchange_state \<Rightarrow> real \<times> 'w exchange_state" where
  "round_qty X qty st =
     (case ensure_markets X st of
        (Inl _, st) \<Rightarrow> (qty, st)
      | (Inr _, st) \<Rightarrow>
          (case (cc_amount_to_precision (cx_spot X) (cx_symbol X) \<bar>qty\<bar>,
                 cc_amount_to_precision (cx_fut X) (cx_perp X) \<bar>qty\<bar>) of
             (Inr s, Inr p) \<Rightarrow> (let coarser = min s p in (if qty \<ge> 0 then coarser else - coarser, st))
           | _ \<Rightarrow> (qty, st)))"

record venue_fill =
  vf_qty :: real
  vf_avg_price :: real
  vf_fee :: real

definition sum_fees :: "venue_order \<Rightarrow> real" where
  "sum_fees ord =
     sum_list (map (\<lambda>f. case f of None \<Rightarrow> 0 | Some cost \<Rightarrow> \<bar>cost\<bar>)
       (if vo_fees ord \<noteq> [] then vo_fees ord else case vo_fee ord of None \<Rightarrow> [] | Some f \<Rightarrow> [f]))"

definition resolve_fill ::
  "'w carry_exchange \<Rightarrow> 'w carry_client \<Rightarrow> venue_order \<Rightarrow> string \<Rightarrow> real \<Rightarrow> real \<Rightarrow> 'w \<Rightarrow> venue_fill \<times> 'w" where
  "resolve_fill X client ord symb ref_px taker w =
     (let qty = first_truthy [vo_filled ord, vo_amount ord];
          price = first_truthy [vo_average ord, vo_price ord];
          fee = sum_fees ord;
          ((price, fee), w) =
            (if price \<le> 0 then
               (case vo_id ord of
                  None \<Rightarrow> ((price, fee), w)
                | Some oid \<Rightarrow>
                    if oid = [] then ((price, fee), w)
                    else (case read_venue X (cc_fetch_order client oid symb) w of
                            (Inl _, w) \<Rightarrow> ((price, fee), w)
                          | (Inr back, w) \<Rightarrow>
                              ((first_truthy [vo_average back, vo_price back],
                                if fee = 0 then sum_fees back else fee), w)))
             else ((price, fee), w));
          price = (if price \<le> 0 then ref_px else price);
          fee = (if fee \<le> 0 then qty * price * taker / 10000 else fee)
      in (\<lparr>vf_qty = qty, vf_avg_price = price, vf_fee = fee\<rparr>, w))"

definition market_spot :: "'w carry_exchange \<Rightarrow> string \<Rightarrow> real \<Rightarrow> real \<Rightarrow> 'w \<Rightarrow> venue_fill result \<times> 'w" where
  "market_spot X side qty ref_px w =
     bind_venue (cc_create_order (cx_spot X) (cx_symbol X) side \<bar>qty\<bar> False w)
       (\<lambda>ord w. case resolve_fill X (cx_spot X) ord (cx_symbol X) ref_px 10 w of (f, w) \<Rightarrow> (Inr f, w))"

definition market_perp :: "'w carry_exchange \<Rightarrow> string \<Rightarrow> real \<Rightarrow> bool \<Rightarrow> real \<Rightarrow> 'w \<Rightarrow> venue_fill result \<times> 'w" where
  "market_perp X side qty reduce_only ref_px w =
     bind_venue (cc_create_order (cx_fut X) (cx_perp X) side \<bar>qty\<bar> reduce_only w)
       (\<lambda>ord w. case resolve_fill X (cx_fut X) ord (cx_perp X) ref_px 5 w of (f, w) \<Rightarrow> (Inr f, w))"

definition open_positions_at :: "'w carry_exchange \<Rightarrow> 'w \<Rightarrow> (real \<times> real) result \<times> 'w" where
  "open_positions_at X w =
     bind_venue (read_venue X (cc_free_balance (cx_spot X) (cx_base X)) w) (\<lambda>free w.
     bind_venue (read_venue X (cc_positions (cx_fut X) (cx_perp X)) w) (\<lambda>ps w.
       (Inr (first_truthy [free],
             foldl (\<lambda>perp p. if vp_symbol p = cx_perp X then \<bar>first_truthy [vp_contracts p, vp_contract_size p]\<bar> else perp) 0 ps), w)))"


subsection \<open>The live executor\<close>

definition min_order :: real where
  "min_order = 1 / 10 ^ 9"

definition spot_leg :: "'w carry_exchange \<Rightarrow> real \<Rightarrow> real \<Rightarrow> 'w \<Rightarrow> venue_fill option result \<times> 'w" where
  "spot_leg X spot_delta spot_px w =
     (if \<bar>spot_delta\<bar> > min_order then
        bind_venue (market_spot X (if spot_delta > 0 then ''buy'' else ''sell'') spot_delta spot_px w) (\<lambda>f w. (Inr (Some f), w))
      else (Inr None, w))"

definition perp_leg :: "'w carry_exchange \<Rightarrow> real \<Rightarrow> real \<Rightarrow> 'w \<Rightarrow> venue_fill option result \<times> 'w" where
  "perp_leg X perp_delta perp_px w =
     (if \<bar>perp_delta\<bar> > min_order then
        bind_venue (if perp_delta > 0 then market_perp X ''sell'' perp_delta False perp_px w
                    else market_perp X ''buy'' perp_delta True perp_px w) (\<lambda>f w. (Inr (Some f), w))
      else (Inr None, w))"

definition fill_of :: "venue_fill option \<Rightarrow> real \<Rightarrow> real \<times> real \<times> real" where
  "fill_of f px = (case f of None \<Rightarrow> (0, px, 0) | Some f \<Rightarrow> (vf_qty f, vf_avg_price f, vf_fee f))"

definition unwind_spot :: "'w carry_exchange \<Rightarrow> real \<Rightarrow> venue_fill option \<Rightarrow> real \<Rightarrow> 'w \<Rightarrow> unit result \<times> 'w" where
  "unwind_spot X spot_delta spot_fill spot_px w =
     (case spot_fill of
        None \<Rightarrow> (Inr (), w)
      | Some f \<Rightarrow>
          if vf_qty f > 0 then
            bind_venue (market_spot X (if spot_delta > 0 then ''sell'' else ''buy'') (vf_qty f) spot_px w) (\<lambda>_ w. (Inr (), w))
          else (Inr (), w))"

definition live_report :: "rebalance_plan \<Rightarrow> real \<Rightarrow> real \<Rightarrow> venue_fill option \<Rightarrow> venue_fill option \<Rightarrow> real \<Rightarrow> real \<Rightarrow> exec_report" where
  "live_report p spot_delta perp_delta sf pf spot_px perp_px =
     (case (fill_of sf spot_px, fill_of pf perp_px) of
        ((s_qty, s_px, s_fee), (p_qty, p_px, p_fee)) \<Rightarrow>
          \<lparr>spot_fill_qty = s_qty * (if spot_delta \<ge> 0 then 1 else -1), spot_fill_px = s_px,
           perp_fill_qty = p_qty * (if perp_delta \<ge> 0 then 1 else -1), perp_fill_px = p_px,
           fill_fee = s_fee + p_fee, report_reason = plan_reason_of p\<rparr>)"

definition place_legs ::
  "'w carry_exchange \<Rightarrow> rebalance_plan \<Rightarrow> real \<Rightarrow> real \<Rightarrow> real \<Rightarrow> real \<Rightarrow> 'w \<Rightarrow> exec_report option result \<times> 'w" where
  "place_legs X p spot_delta perp_delta spot_px perp_px w =
     bind_venue (spot_leg X spot_delta spot_px w) (\<lambda>sf w.
       case perp_leg X perp_delta perp_px w of
         (Inl e, w) \<Rightarrow>
           bind_venue (unwind_spot X spot_delta sf spot_px w)
             (\<lambda>_ w. (Inl (PartialCarryFill ''perp leg failed after spot filled; spot unwound''), w))
       | (Inr pf, w) \<Rightarrow> (Inr (Some (live_report p spot_delta perp_delta sf pf spot_px perp_px)), w))"

definition live_execute :: "'w carry_exchange \<Rightarrow> 'w exchange_state carry_executor" where
  "live_execute X p spot_px perp_px st =
     (if is_noop p then (Inr None, st)
      else
        case round_qty X (spot_delta_qty p) st of
          (spot_delta, st) \<Rightarrow>
        (case round_qty X (perp_delta_qty p) st of
           (perp_delta, (ready, w)) \<Rightarrow>
        (case place_legs X p spot_delta perp_delta spot_px perp_px w of (r, w) \<Rightarrow> (r, (ready, w)))))"

lemma live_report_reason: "report_reason (live_report p sd pd sf pf S P) = plan_reason_of p"
  by (simp add: live_report_def split: prod.split)

lemma placed_report:
  "place_legs X p sd pd S P w = (Inr r, w') \<Longrightarrow>
     \<exists>sf pf w1. spot_leg X sd S w = (Inr sf, w1) \<and> perp_leg X pd P w1 = (Inr pf, w') \<and> r = Some (live_report p sd pd sf pf S P)"
  by (auto simp: place_legs_def bind_venue_Inr bind_venue_def split: prod.splits sum.splits)

interpretation live: carry_venue "live_execute X" for X :: "'w carry_exchange"
proof unfold_locales
  fix p S P and st st' :: "'w exchange_state" and r
  show "is_noop p \<Longrightarrow> live_execute X p S P st = (Inr None, st)" by (simp add: live_execute_def)
  assume "live_execute X p S P st = (Inr (Some r), st')"
  then show "report_reason r = plan_reason_of p \<and> \<not> is_noop p"
    by (auto simp: live_execute_def live_report_reason dest!: placed_report split: if_splits prod.splits)
qed



subsection \<open>The file of the runner\<close>

record carry_mark =
  cm_at :: datetime
  cm_spot_px :: real
  cm_perp_px :: real
  cm_funding_8h :: real
  cm_equity :: real
  cm_action :: plan_reason
  cm_dry_run :: bool

record carry_payload =
  cp_ts :: datetime
  cp_symbol :: "string option"
  cp_cash :: real
  cp_spot_baseline :: "real option"
  cp_state :: carry_position
  cp_mark :: "carry_mark option"

text \<open>The file is missing, cannot be read as JSON, or holds what was last written.\<close>

datatype state_file = Missing_file | Broken_file | Written_file carry_payload

definition load_live_state :: "state_file \<Rightarrow> carry_payload option" where
  "load_live_state f = (case f of Missing_file \<Rightarrow> None | Broken_file \<Rightarrow> None | Written_file p \<Rightarrow> Some p)"

definition load_position :: "state_file \<Rightarrow> carry_position \<times> real \<times> real option" where
  "load_position f =
     (case load_live_state f of
        None \<Rightarrow> (flat_position, 0, None)
      | Some raw \<Rightarrow> (cp_state raw, cp_cash raw, cp_spot_baseline raw))"

definition save_live_state ::
  "datetime \<Rightarrow> carry_position \<Rightarrow> real \<Rightarrow> real option \<Rightarrow> string option \<Rightarrow> carry_mark option \<Rightarrow> state_file \<Rightarrow> state_file" where
  "save_live_state now s cash_held baseline symb mark f =
     (let prev = load_live_state f in
      Written_file
        \<lparr>cp_ts = now,
         cp_symbol = (if symb \<noteq> None \<and> symb \<noteq> Some [] then symb else case prev of None \<Rightarrow> None | Some raw \<Rightarrow> cp_symbol raw),
         cp_cash = cash_held, cp_spot_baseline = baseline, cp_state = s,
         cp_mark = (if mark = None then (case prev of None \<Rightarrow> None | Some raw \<Rightarrow> cp_mark raw) else mark)\<rparr>)"


subsection \<open>A cycle of the script\<close>

definition live_config :: carry_config where
  "live_config = default_carry_config\<lparr>capital_multiplier := 3/2, min_trailing_funding_8h := -1\<rparr>"

definition cycle_executor :: "'w carry_exchange \<Rightarrow> bool \<Rightarrow> 'w exchange_state carry_executor" where
  "cycle_executor X dry_run = (if dry_run then paper_execute default_paper_fees else live_execute X)"

definition cycle_baseline ::
  "'w carry_exchange \<Rightarrow> bool \<Rightarrow> carry_position \<Rightarrow> real option \<Rightarrow> 'w \<Rightarrow> real option result \<times> 'w" where
  "cycle_baseline X dry_run s baseline w =
     (if baseline = None \<and> \<not> dry_run
      then bind_venue (open_positions_at X w) (\<lambda>(held, _) w. (Inr (Some (held - spot_qty s)), w))
      else (Inr baseline, w))"

definition cycle_mark :: "perp_snapshot \<Rightarrow> carry_runner \<Rightarrow> plan_reason \<Rightarrow> bool \<Rightarrow> carry_mark" where
  "cycle_mark snap c action dry_run =
     \<lparr>cm_at = sn_ts snap, cm_spot_px = sn_spot_px snap, cm_perp_px = sn_perp_mark_px snap,
      cm_funding_8h = sn_trailing_funding_8h snap,
      cm_equity = runner_equity c (sn_spot_px snap) (sn_perp_mark_px snap), cm_action = action, cm_dry_run = dry_run\<rparr>"

definition loaded_runner :: "real \<Rightarrow> state_file \<Rightarrow> carry_runner" where
  "loaded_runner capital f =
     (case load_position f of (s, cash_held, _) \<Rightarrow>
        let cash_held = (if \<not> in_market s \<and> cash_held = 0 then capital else cash_held)
        in (new_carry_runner cash_held live_config)\<lparr>cr_state := s, cr_cash := cash_held\<rparr>)"

text \<open>Every cycle builds its exchange anew, so its markets are not loaded yet.\<close>

definition carry_cycle ::
  "'w carry_exchange \<Rightarrow> real \<Rightarrow> bool \<Rightarrow> state_file \<times> 'w \<Rightarrow> plan_reason result \<times> state_file \<times> 'w" where
  "carry_cycle X capital dry_run f_w =
     (case f_w of (f, w) \<Rightarrow>
      case cycle_baseline X dry_run (cr_state (loaded_runner capital f)) (snd (snd (load_position f))) w of
        (Inl e, w) \<Rightarrow> (Inl e, f, w)
      | (Inr baseline, w) \<Rightarrow>
      (case venue_snapshot X w of
        (Inl e, w) \<Rightarrow> (Inl e, f, w)
      | (Inr snap, w) \<Rightarrow>
      (case carry_step (cycle_executor X dry_run) snap (loaded_runner capital f, (False, w)) of
        (Inl e, c, (_, w)) \<Rightarrow> (Inl e, f, w)
      | (Inr action, c, (_, w)) \<Rightarrow>
          (Inr action,
           save_live_state (cx_now X w) (cr_state c) (cr_cash c) baseline (Some (cx_symbol X))
             (Some (cycle_mark snap c action dry_run)) f, w))))"

text \<open>The comparison of the file with the venues: does it find them in agreement?\<close>

definition reconcile :: "'w carry_exchange \<Rightarrow> state_file \<Rightarrow> 'w \<Rightarrow> bool result \<times> 'w" where
  "reconcile X f w =
     (case load_position f of (s, _, baseline) \<Rightarrow>
      bind_venue (open_positions_at X w) (\<lambda>(spot_held, perp_held) w.
        let base = (case baseline of None \<Rightarrow> 0 | Some b \<Rightarrow> b);
            runner_spot = spot_held - base;
            sd = \<bar>spot_qty s - runner_spot\<bar>;
            pd = \<bar>perp_qty s - perp_held\<bar>;
            tol = max (spot_qty s) (1 / 10 ^ 6) * (2 / 100)
        in (Inr (sd < tol \<and> pd < tol), w)))"


subsection \<open>What survives a restart\<close>

text \<open>What a cycle saves, the next one loads; and a write without symbol or mark keeps those of the
  write before.\<close>

theorem carry_state_roundtrip:
  "load_position (save_live_state now s cash_held baseline symb mark f) = (s, cash_held, baseline)
   \<and> load_live_state (save_live_state t2 s2 c2 b2 None None (save_live_state now s cash_held baseline (Some (ch # symb')) (Some m) f))
       = Some \<lparr>cp_ts = t2, cp_symbol = Some (ch # symb'), cp_cash = c2, cp_spot_baseline = b2, cp_state = s2, cp_mark = Some m\<rparr>"
  by (simp add: save_live_state_def load_position_def load_live_state_def Let_def)

lemma cycle_parts:
  assumes "carry_cycle X capital dry (f, w) = (Inr a, f', w')"
  obtains baseline snap c st1 ready where
    "\<exists>w w'. venue_snapshot X w = (Inr snap, w')"
    and "fst (cycle_baseline X dry (cr_state (loaded_runner capital f)) (snd (snd (load_position f))) w) = Inr baseline"
    and "carry_step (cycle_executor X dry) snap (loaded_runner capital f, st1) = (Inr a, c, (ready, w'))"
    and "load_position f' = (cr_state c, cr_cash c, baseline)"
proof -
  from assms obtain baseline w1 snap w2 c ready where
    b: "cycle_baseline X dry (cr_state (loaded_runner capital f)) (snd (snd (load_position f))) w = (Inr baseline, w1)"
    and s: "venue_snapshot X w1 = (Inr snap, w2)"
    and c: "carry_step (cycle_executor X dry) snap (loaded_runner capital f, (False, w2)) = (Inr a, c, (ready, w'))"
    and f: "f' = save_live_state (cx_now X w') (cr_state c) (cr_cash c) baseline (Some (cx_symbol X))
             (Some (cycle_mark snap c a dry)) f"
    unfolding carry_cycle_def by (auto split: prod.splits sum.splits)
  show ?thesis
    by (rule that [OF _ _ c]) (use b s f in \<open>auto simp: save_live_state_def load_position_def load_live_state_def Let_def\<close>)
qed

lemma snapshot_is_funding_time:
  "venue_snapshot X w = (Inr snap, w') \<Longrightarrow> sn_is_funding_time snap"
  by (auto simp: venue_snapshot_def bind_venue_Inr split: if_splits)

lemma step_accrues:
  assumes "carry_step ex snap (c, st) = (Inr a, c', st')"
  shows "accrued_funding (cr_state c') = accrued_funding (cr_state c)
    + (if sn_is_funding_time snap \<and> in_market (cr_state c') then sn_funding_rate snap * perp_qty (cr_state c') * sn_perp_mark_px snap else 0)"
proof -
  from assms obtain report where c': "c' = log_step snap a (settle_funding snap (book_report report c))"
    by (auto simp: carry_step_def split: sum.splits prod.splits)
  have "in_market (cr_state c') = in_market (cr_state (book_report report c))" unfolding c' by (simp add: in_market_def)
  then show ?thesis unfolding c' by (simp add: settle_funding_def)
qed

text \<open>Every cycle books a whole funding payment. However little time has passed since the cycle before,
  a cycle that ends with the pair held adds the current rate on the whole short leg to the funding
  in the file; so every restart of the loop, and every dry run, pays once more.\<close>

theorem every_cycle_books_funding:
  assumes "carry_cycle X capital dry (f, w0) = (Inr a, f', w1)"
  shows "\<exists>snap w w'. venue_snapshot X w = (Inr snap, w')
    \<and> (in_market (fst (load_position f')) \<longrightarrow>
        accrued_funding (fst (load_position f')) = accrued_funding (fst (load_position f))
          + sn_funding_rate snap * perp_qty (fst (load_position f')) * sn_perp_mark_px snap)"
proof -
  from assms obtain baseline snap c st1 ready where
    s: "\<exists>w w'. venue_snapshot X w = (Inr snap, w')"
    and step: "carry_step (cycle_executor X dry) snap (loaded_runner capital f, st1) = (Inr a, c, (ready, w1))"
    and l: "load_position f' = (cr_state c, cr_cash c, baseline)"
    by (rule cycle_parts)
  from s obtain w w' where w: "venue_snapshot X w = (Inr snap, w')" by blast
  have "cr_state (loaded_runner capital f) = fst (load_position f)"
    by (simp add: loaded_runner_def Let_def split: prod.split)
  with step_accrues [OF step] snapshot_is_funding_time [OF w] w l show ?thesis by auto
qed

lemma open_needs_flat:
  assumes "carry_step ex snap (c, st) = (Inr Plan_open, c', st')"
  shows "\<not> in_market (cr_state c)"
proof -
  from assms obtain p where p: "carry_plan snap c = Inr p" "plan_reason_of p = Plan_open"
    by (auto simp: carry_step_def split: sum.splits prod.splits)
  show ?thesis
    using p(2) unfolding plan_for [OF p(1)] by (auto simp: plan_def noop_plan_def Let_def split: if_splits)
qed

text \<open>A dry run poses as a position. Its paper fills are saved to the file of the live runner, so the live
  cycle that follows finds itself in the market, does not open the pair, and records as the
  balance it began with what the account holds less the fills that never happened.\<close>

theorem dry_run_poses_as_position:
  assumes "carry_cycle X capital True (Missing_file, w0) = (Inr Plan_open, f1, w1)" and "in_market (fst (load_position f1))"
    and "carry_cycle X capital False (f1, w2) = (Inr a, f2, w3)"
  shows "a \<noteq> Plan_open
    \<and> (\<exists>held perp w. open_positions_at X w2 = (Inr (held, perp), w)
        \<and> snd (snd (load_position f2)) = Some (held - spot_qty (fst (load_position f1))))"
proof -
  from assms(1) obtain b1 and c1 :: carry_runner where
    "fst (cycle_baseline X True (cr_state (loaded_runner capital Missing_file)) (snd (snd (load_position Missing_file))) w0) = Inr b1"
    and l1: "load_position f1 = (cr_state c1, cr_cash c1, b1)"
    by (rule cycle_parts) blast
  then have b1: "b1 = None" by (simp add: cycle_baseline_def load_position_def load_live_state_def)
  from assms(3) obtain snap2 st2' b2 ready and c2 :: carry_runner where
    b2: "fst (cycle_baseline X False (cr_state (loaded_runner capital f1)) (snd (snd (load_position f1))) w2) = Inr b2"
    and step: "carry_step (cycle_executor X False) snap2 (loaded_runner capital f1, st2') = (Inr a, c2, (ready, w3))"
    and l2: "load_position f2 = (cr_state c2, cr_cash c2, b2)"
    by (rule cycle_parts) blast
  have lr: "cr_state (loaded_runner capital f1) = fst (load_position f1)"
    by (simp add: loaded_runner_def Let_def split: prod.split)
  have "a \<noteq> Plan_open" using open_needs_flat step assms(2) lr by metis
  moreover have "\<exists>held perp w. open_positions_at X w2 = (Inr (held, perp), w) \<and> b2 = Some (held - spot_qty (fst (load_position f1)))"
    using b2 by (auto simp: cycle_baseline_def bind_venue_def lr l1 b1 split: prod.splits sum.splits)
  ultimately show ?thesis by (simp add: l2)
qed



subsection \<open>The book and the venues\<close>

text \<open>A venue that fills a market order wholly or fails it, and whose other calls trade nothing.\<close>

definition fills_wholly ::
  "'w carry_client \<Rightarrow> string \<Rightarrow> (string \<Rightarrow> real \<Rightarrow> real) \<Rightarrow> ('w \<Rightarrow> real) \<Rightarrow> ('w \<Rightarrow> real) \<Rightarrow> bool" where
  "fills_wholly client symb effect mine other \<longleftrightarrow>
     (\<forall>side q ro w r w'. 0 < q \<longrightarrow> cc_create_order client symb side q ro w = (r, w') \<longrightarrow> other w' = other w \<and>
        (case r of Inl e \<Rightarrow> mine w' = mine w \<and> (\<forall>m. e \<noteq> PartialCarryFill m)
         | Inr ord \<Rightarrow> vo_filled ord = Some q \<and> mine w' = mine w + effect side q))"

definition trades_nothing :: "'w carry_client \<Rightarrow> ('w \<Rightarrow> real) \<Rightarrow> bool" where
  "trades_nothing client amount \<longleftrightarrow>
     (\<forall>oid symb w. amount (snd (cc_fetch_order client oid symb w)) = amount w)
     \<and> (\<forall>w. amount (snd (cc_load_markets client w)) = amount w)"

definition honest_venue :: "'w carry_exchange \<Rightarrow> ('w \<Rightarrow> real) \<Rightarrow> ('w \<Rightarrow> real) \<Rightarrow> bool" where
  "honest_venue X spot_held perp_short \<longleftrightarrow>
     fills_wholly (cx_spot X) (cx_symbol X) (\<lambda>side q. if side = ''buy'' then q else - q) spot_held perp_short
     \<and> fills_wholly (cx_fut X) (cx_perp X) (\<lambda>side q. if side = ''sell'' then q else - q) perp_short spot_held
     \<and> (\<forall>client \<in> {cx_spot X, cx_fut X}. \<forall>amount \<in> {spot_held, perp_short}. trades_nothing client amount)"

lemma retry_keeps:
  "(\<And>w. amount (snd (fn w)) = amount w) \<Longrightarrow> amount (snd (retry_read transient fn k w)) = amount w"
proof (induction k arbitrary: w)
  case (Suc k)
  obtain r w1 where f: "fn w = (r, w1)" by fastforce
  then have "amount w1 = amount w" using Suc.prems by (metis snd_conv)
  with f Suc.IH [OF Suc.prems, of w1] show ?case by (auto split: sum.splits)
qed simp

lemma ensure_keeps:
  assumes "trades_nothing (cx_spot X) amount" and "trades_nothing (cx_fut X) amount"
  shows "amount (snd (snd (ensure_markets X st))) = amount (snd st)"
proof -
  have "amount (snd (read_venue X (cc_load_markets c) w)) = amount w" if "c = cx_spot X \<or> c = cx_fut X" for c w
    unfolding read_venue_def using that assms by (intro retry_keeps) (auto simp: trades_nothing_def)
  then show ?thesis
    by (auto simp: ensure_markets_def split: prod.split sum.split) (metis snd_conv)+
qed

lemma round_keeps:
  assumes "trades_nothing (cx_spot X) amount" and "trades_nothing (cx_fut X) amount"
    and "round_qty X q st = (d, st')"
  shows "amount (snd st') = amount (snd st)"
  using ensure_keeps [OF assms(1,2), of st] assms(3)
  by (auto simp: round_qty_def Let_def split: prod.splits sum.splits)

lemma resolve_keeps:
  assumes "trades_nothing client amount" and "resolve_fill X client ord symb ref taker w = (f, w')"
  shows "amount w' = amount w" and "vf_qty f = first_truthy [vo_filled ord, vo_amount ord]"
proof -
  have "amount (snd (read_venue X (cc_fetch_order client oid symb) w)) = amount w" for oid
    unfolding read_venue_def using assms(1) by (intro retry_keeps) (simp add: trades_nothing_def)
  then have r: "read_venue X (cc_fetch_order client oid symb) w = (x, w1) \<Longrightarrow> amount w1 = amount w" for oid x w1
    by (metis snd_conv)
  show "amount w' = amount w" "vf_qty f = first_truthy [vo_filled ord, vo_amount ord]"
    using assms(2) r by (auto simp: resolve_fill_def Let_def split: if_splits option.splits prod.splits sum.splits)
qed

text \<open>A market order on such a venue: what is reported is what changed hands.\<close>

lemma order_moves:
  assumes "fills_wholly client symb effect mine other" and "trades_nothing client mine" and "trades_nothing client other"
    and "q \<noteq> 0"
    and "bind_venue (cc_create_order client symb side \<bar>q\<bar> ro w)
           (\<lambda>ord w. case resolve_fill X client ord symb ref taker w of (f, w) \<Rightarrow> (Inr f, w)) = (r, w')"
  shows "other w' = other w"
    and "\<forall>e. r = Inl e \<longrightarrow> mine w' = mine w \<and> (\<forall>m. e \<noteq> PartialCarryFill m)"
    and "\<forall>f. r = Inr f \<longrightarrow> vf_qty f = \<bar>q\<bar> \<and> mine w' = mine w + effect side \<bar>q\<bar>"
proof -
  obtain x w1 where c: "cc_create_order client symb side \<bar>q\<bar> ro w = (x, w1)" by fastforce
  from assms(1,4) c have h: "other w1 = other w \<and>
      (case x of Inl e \<Rightarrow> mine w1 = mine w \<and> (\<forall>m. e \<noteq> PartialCarryFill m)
       | Inr ord \<Rightarrow> vo_filled ord = Some \<bar>q\<bar> \<and> mine w1 = mine w + effect side \<bar>q\<bar>)"
    unfolding fills_wholly_def by (metis zero_less_abs_iff)
  show "other w' = other w"
    and "\<forall>e. r = Inl e \<longrightarrow> mine w' = mine w \<and> (\<forall>m. e \<noteq> PartialCarryFill m)"
    and "\<forall>f. r = Inr f \<longrightarrow> vf_qty f = \<bar>q\<bar> \<and> mine w' = mine w + effect side \<bar>q\<bar>"
    using assms(4,5) c h resolve_keeps [OF assms(2), of X] resolve_keeps [OF assms(3), of X]
    by (auto split: sum.splits prod.splits)
qed


definition leg_quantity :: "real \<Rightarrow> real" where
  "leg_quantity d = (if \<bar>d\<bar> > min_order then d else 0)"

lemma min_order_pos: "0 < min_order"
  by (simp add: min_order_def)

lemma spot_leg_moves:
  assumes "honest_venue X spot_held perp_short" and "spot_leg X sd S w = (r, w')"
  shows "perp_short w' = perp_short w"
    and "\<forall>e. r = Inl e \<longrightarrow> spot_held w' = spot_held w \<and> (\<forall>m. e \<noteq> PartialCarryFill m)"
    and "\<forall>f. r = Inr f \<longrightarrow> spot_held w' = spot_held w + leg_quantity sd \<and> fst (fill_of f S) = \<bar>leg_quantity sd\<bar>"
proof -
  have "perp_short w' = perp_short w \<and> (\<forall>e. r = Inl e \<longrightarrow> spot_held w' = spot_held w \<and> (\<forall>m. e \<noteq> PartialCarryFill m))
    \<and> (\<forall>f. r = Inr f \<longrightarrow> spot_held w' = spot_held w + leg_quantity sd \<and> fst (fill_of f S) = \<bar>leg_quantity sd\<bar>)"
  proof (cases "\<bar>sd\<bar> > min_order")
    case False
    with assms(2) show ?thesis by (auto simp: spot_leg_def leg_quantity_def fill_of_def)
  next
    case True
    then have nz: "sd \<noteq> 0" using min_order_pos by auto
    let ?side = "if sd > 0 then ''buy'' else ''sell''"
    obtain x w1 where m: "market_spot X ?side sd S w = (x, w1)" by fastforce
    have h: "fills_wholly (cx_spot X) (cx_symbol X) (\<lambda>side q. if side = ''buy'' then q else - q) spot_held perp_short"
      "trades_nothing (cx_spot X) spot_held" "trades_nothing (cx_spot X) perp_short"
      using assms(1) by (simp_all add: honest_venue_def)
    note o = order_moves [OF h nz m [unfolded market_spot_def]]
    have "(if ?side = ''buy'' then \<bar>sd\<bar> else - \<bar>sd\<bar>) = sd" using nz by (simp add: abs_real_def)
    with o True assms(2) m show ?thesis
      by (cases x) (auto simp: spot_leg_def leg_quantity_def fill_of_def)
  qed
  then show "perp_short w' = perp_short w"
    and "\<forall>e. r = Inl e \<longrightarrow> spot_held w' = spot_held w \<and> (\<forall>m. e \<noteq> PartialCarryFill m)"
    and "\<forall>f. r = Inr f \<longrightarrow> spot_held w' = spot_held w + leg_quantity sd \<and> fst (fill_of f S) = \<bar>leg_quantity sd\<bar>"
    by simp_all
qed

lemma perp_leg_moves:
  assumes "honest_venue X spot_held perp_short" and "perp_leg X pd P w = (r, w')"
  shows "spot_held w' = spot_held w"
    and "\<forall>e. r = Inl e \<longrightarrow> perp_short w' = perp_short w"
    and "\<forall>f. r = Inr f \<longrightarrow> perp_short w' = perp_short w + leg_quantity pd \<and> fst (fill_of f P) = \<bar>leg_quantity pd\<bar>"
proof -
  have "spot_held w' = spot_held w \<and> (\<forall>e. r = Inl e \<longrightarrow> perp_short w' = perp_short w)
    \<and> (\<forall>f. r = Inr f \<longrightarrow> perp_short w' = perp_short w + leg_quantity pd \<and> fst (fill_of f P) = \<bar>leg_quantity pd\<bar>)"
  proof (cases "\<bar>pd\<bar> > min_order")
    case False
    with assms(2) show ?thesis by (auto simp: perp_leg_def leg_quantity_def fill_of_def)
  next
    case True
    then have nz: "pd \<noteq> 0" using min_order_pos by auto
    let ?side = "if pd > 0 then ''sell'' else ''buy''"
    have legs: "perp_leg X pd P w = bind_venue (market_perp X ?side pd (\<not> pd > 0) P w) (\<lambda>f w. (Inr (Some f), w))"
      using True by (simp add: perp_leg_def)
    obtain x w1 where m: "market_perp X ?side pd (\<not> pd > 0) P w = (x, w1)" by fastforce
    have h: "fills_wholly (cx_fut X) (cx_perp X) (\<lambda>side q. if side = ''sell'' then q else - q) perp_short spot_held"
      "trades_nothing (cx_fut X) perp_short" "trades_nothing (cx_fut X) spot_held"
      using assms(1) by (simp_all add: honest_venue_def)
    note o = order_moves [OF h nz m [unfolded market_perp_def]]
    have "(if ?side = ''sell'' then \<bar>pd\<bar> else - \<bar>pd\<bar>) = pd" using nz by (simp add: abs_real_def)
    with o True assms(2) m show ?thesis
      unfolding legs by (cases x) (auto simp: leg_quantity_def fill_of_def)
  qed
  then show "spot_held w' = spot_held w" and "\<forall>e. r = Inl e \<longrightarrow> perp_short w' = perp_short w"
    and "\<forall>f. r = Inr f \<longrightarrow> perp_short w' = perp_short w + leg_quantity pd \<and> fst (fill_of f P) = \<bar>leg_quantity pd\<bar>"
    by simp_all
qed

lemma unwind_moves:
  assumes "honest_venue X spot_held perp_short" and "unwind_spot X sd sf S w = (r, w')"
    and "fst (fill_of sf S) = \<bar>leg_quantity sd\<bar>"
  shows "perp_short w' = perp_short w"
    and "r = Inr () \<longrightarrow> spot_held w' = spot_held w - leg_quantity sd"
    and "\<forall>e. r = Inl e \<longrightarrow> spot_held w' = spot_held w \<and> (\<forall>m. e \<noteq> PartialCarryFill m)"
proof -
  have "perp_short w' = perp_short w \<and> (r = Inr () \<longrightarrow> spot_held w' = spot_held w - leg_quantity sd)
    \<and> (\<forall>e. r = Inl e \<longrightarrow> spot_held w' = spot_held w \<and> (\<forall>m. e \<noteq> PartialCarryFill m))"
  proof (cases "leg_quantity sd = 0")
    case True
    with assms(2,3) show ?thesis by (auto simp: unwind_spot_def fill_of_def split: option.splits)
  next
    case False
    then obtain f where f: "sf = Some f" "vf_qty f = \<bar>sd\<bar>" and sd: "leg_quantity sd = sd" "sd \<noteq> 0"
      using assms(3) by (auto simp: fill_of_def leg_quantity_def split: option.splits if_splits)
    let ?side = "if sd > 0 then ''sell'' else ''buy''"
    obtain x w1 where m: "market_spot X ?side (vf_qty f) S w = (x, w1)" by fastforce
    have h: "fills_wholly (cx_spot X) (cx_symbol X) (\<lambda>side q. if side = ''buy'' then q else - q) spot_held perp_short"
      "trades_nothing (cx_spot X) spot_held" "trades_nothing (cx_spot X) perp_short"
      using assms(1) by (simp_all add: honest_venue_def)
    have nz: "vf_qty f \<noteq> 0" using f sd by simp
    note o = order_moves [OF h nz m [unfolded market_spot_def]]
    have "(if ?side = ''buy'' then \<bar>vf_qty f\<bar> else - \<bar>vf_qty f\<bar>) = - sd" using sd f by (simp add: abs_real_def)
    with o f sd assms(2) m show ?thesis by (cases x) (auto simp: unwind_spot_def)
  qed
  then show "perp_short w' = perp_short w" and "r = Inr () \<longrightarrow> spot_held w' = spot_held w - leg_quantity sd"
    and "\<forall>e. r = Inl e \<longrightarrow> spot_held w' = spot_held w \<and> (\<forall>m. e \<noteq> PartialCarryFill m)"
    by simp_all
qed

text \<open>The unwinding failed: the order for the short leg was refused, and the order that takes back the
  whole quantity the spot venue moved was placed next, was refused with the error the executor
  raises, and was the last order of the run.\<close>

definition unwind_refused :: "'w carry_exchange \<Rightarrow> py_error \<Rightarrow> real \<Rightarrow> 'w \<Rightarrow> bool" where
  "unwind_refused X e spot_moved w' \<longleftrightarrow>
     (\<exists>side q reduce_only e1 w1 w2.
        cc_create_order (cx_fut X) (cx_perp X) side q reduce_only w1 = (Inl e1, w2)
      \<and> cc_create_order (cx_spot X) (cx_symbol X) (if spot_moved > 0 then ''sell'' else ''buy'') \<bar>spot_moved\<bar> False w2
          = (Inl e, w'))"

text \<open>How far the venues moved against what the executor answers, ending in the world \<^verbatim>\<open>w'\<close>.\<close>

definition agreed :: "'w carry_exchange \<Rightarrow> exec_report option result \<Rightarrow> real \<Rightarrow> real \<Rightarrow> 'w \<Rightarrow> bool" where
  "agreed X r spot_moved perp_moved w' \<longleftrightarrow>
     (case r of
        Inr None \<Rightarrow> spot_moved = 0 \<and> perp_moved = 0
      | Inr (Some rep) \<Rightarrow> spot_moved = spot_fill_qty rep \<and> perp_moved = perp_fill_qty rep
      | Inl (PartialCarryFill _) \<Rightarrow> spot_moved = 0 \<and> perp_moved = 0
      | Inl e \<Rightarrow> perp_moved = 0 \<and> (spot_moved = 0 \<or> unwind_refused X e spot_moved w'))"

lemma perp_leg_refused:
  "perp_leg X pd P w = (Inl e, w')
    \<Longrightarrow> \<exists>side q reduce_only. cc_create_order (cx_fut X) (cx_perp X) side q reduce_only w = (Inl e, w')"
  by (auto simp: perp_leg_def market_perp_def bind_venue_def split: if_splits prod.splits sum.splits)

lemma unwind_order_refused:
  assumes "unwind_spot X sd sf S w = (Inl e, w')" and "fst (fill_of sf S) = \<bar>leg_quantity sd\<bar>"
  shows "cc_create_order (cx_spot X) (cx_symbol X) (if leg_quantity sd > 0 then ''sell'' else ''buy'') \<bar>leg_quantity sd\<bar> False w
    = (Inl e, w')"
proof -
  from assms(1) obtain f where f: "sf = Some f" "vf_qty f > 0"
    by (auto simp: unwind_spot_def split: option.splits if_splits)
  with assms(2) have q: "vf_qty f = \<bar>sd\<bar>" "leg_quantity sd = sd"
    by (auto simp: fill_of_def leg_quantity_def split: if_splits)
  from assms(1) f show ?thesis
    by (auto simp: unwind_spot_def market_spot_def bind_venue_def q split: prod.splits sum.splits)
qed

lemma signed_leg: "\<bar>leg_quantity d\<bar> * (if d \<ge> 0 then 1 else -1) = leg_quantity d"
  by (simp add: leg_quantity_def abs_real_def)

lemma report_quantities:
  "spot_fill_qty (live_report p sd pd sf pf S P) = fst (fill_of sf S) * (if sd \<ge> 0 then 1 else -1)"
  "perp_fill_qty (live_report p sd pd sf pf S P) = fst (fill_of pf P) * (if pd \<ge> 0 then 1 else -1)"
  by (simp_all add: live_report_def split: prod.split)

lemma legs_agree:
  assumes "honest_venue X spot_held perp_short" and "place_legs X p sd pd S P w = (r, w')"
  shows "agreed X r (spot_held w' - spot_held w) (perp_short w' - perp_short w) w'"
proof -
  obtain x w1 where s: "spot_leg X sd S w = (x, w1)" by fastforce
  note sm = spot_leg_moves [OF assms(1) s]
  show ?thesis
  proof (cases x)
    case (Inl e)
    then have "r = Inl e" "w' = w1" using assms(2) s by (simp_all add: place_legs_def)
    with sm Inl show ?thesis by (cases e) (simp_all add: agreed_def)
  next
    case (Inr sf)
    obtain y w2 where q: "perp_leg X pd P w1 = (y, w2)" by fastforce
    note pm = perp_leg_moves [OF assms(1) q]
    show ?thesis
    proof (cases y)
      case ok: (Inr pf)
      then have "r = Inr (Some (live_report p sd pd sf pf S P))" "w' = w2"
        using assms(2) s q Inr by (simp_all add: place_legs_def)
      with sm pm Inr ok show ?thesis by (simp add: agreed_def report_quantities signed_leg)
    next
      case bad: (Inl e)
      obtain z w3 where u: "unwind_spot X sd sf S w2 = (z, w3)" by fastforce
      have filled: "fst (fill_of sf S) = \<bar>leg_quantity sd\<bar>" using sm(3) Inr by simp
      note um = unwind_moves [OF assms(1) u filled]
      show ?thesis
      proof (cases z)
        case (Inr v)
        with assms(2) s q u bad \<open>x = Inr sf\<close> have "r = Inl (PartialCarryFill ''perp leg failed after spot filled; spot unwound'')" "w' = w3"
          by (simp_all add: place_legs_def)
        with sm pm um Inr bad \<open>x = Inr sf\<close> show ?thesis by (simp add: agreed_def)
      next
        case (Inl e')
        with assms(2) s q u bad \<open>x = Inr sf\<close> have "r = Inl e'" "w' = w3"
          by (simp_all add: place_legs_def)
        moreover have "unwind_refused X e' (leg_quantity sd) w3"
          using perp_leg_refused [OF q [unfolded bad]] unwind_order_refused [OF u [unfolded Inl] filled]
          unfolding unwind_refused_def by blast
        moreover have "spot_held w3 - spot_held w = leg_quantity sd"
          using sm pm um Inl bad \<open>x = Inr sf\<close> by simp
        ultimately show ?thesis
          using sm pm um Inl bad \<open>x = Inr sf\<close> by (cases e') (simp_all add: agreed_def)
      qed
    qed
  qed
qed

text \<open>C11: the book and the venues agree. When every market order is filled wholly or fails, a report of the
  live executor is what the venues hold more or less of; a run that ends in a partial fill has
  unwound the spot leg, so nothing moved on either venue; and on any other error the short leg has
  not moved, and the spot leg has not either, unless the order of the short leg was refused, the
  order that takes the whole spot leg back was placed after it, and the venue refused that order
  with the very error the executor raises.\<close>

theorem venue_and_book_agree:
  assumes "honest_venue X spot_held perp_short" and "live_execute X p S P st = (r, st')"
  shows "agreed X r (spot_held (snd st') - spot_held (snd st)) (perp_short (snd st') - perp_short (snd st)) (snd st')"
proof (cases "is_noop p")
  case True
  with assms(2) show ?thesis by (auto simp: live_execute_def agreed_def)
next
  case False
  obtain sd st1 where s: "round_qty X (spot_delta_qty p) st = (sd, st1)" by (rule prod.exhaust)
  obtain pd rd w where q: "round_qty X (perp_delta_qty p) st1 = (pd, (rd, w))" by (metis prod.exhaust)
  obtain x w' where l: "place_legs X p sd pd S P w = (x, w')" by fastforce
  have k: "amount w = amount (snd st)" if "amount = spot_held \<or> amount = perp_short" for amount
  proof -
    have t: "trades_nothing (cx_spot X) amount" "trades_nothing (cx_fut X) amount"
      using assms(1) that by (auto simp: honest_venue_def)
    show ?thesis using round_keeps [OF t s] round_keeps [OF t q] by simp
  qed
  have "r = x" "st' = (rd, w')" using assms(2) False s q l by (simp_all add: live_execute_def)
  with legs_agree [OF assms(1) l] k [of spot_held] k [of perp_short] show ?thesis by simp
qed



subsection \<open>Where they part\<close>

text \<open>An order that filled nothing is booked as filled. When the venue accepts the market orders
  and reports zero filled of the amount ordered, the executor takes the amount for the fill, and the
  report has the whole quantity of both legs.\<close>

theorem unfilled_orders_are_booked:
  assumes "\<forall>client \<in> {cx_spot X, cx_fut X}. \<forall>symb side q ro w. \<exists>ord w'. cc_create_order client symb side q ro w = (Inr ord, w')
      \<and> vo_filled ord = Some 0 \<and> vo_amount ord = Some q"
    and "\<not> is_noop p" and "round_qty X (spot_delta_qty p) st = (sd, st1)" and "round_qty X (perp_delta_qty p) st1 = (pd, st2)"
  shows "\<exists>rep st'. live_execute X p S P st = (Inr (Some rep), st')
    \<and> spot_fill_qty rep = leg_quantity sd \<and> perp_fill_qty rep = leg_quantity pd"
proof -
  have taken: "\<exists>f w'. bind_venue (cc_create_order client symb side \<bar>q\<bar> ro w)
        (\<lambda>ord w. case resolve_fill X client ord symb ref taker w of (f, w) \<Rightarrow> (Inr f, w)) = (Inr f, w') \<and> vf_qty f = \<bar>q\<bar>"
    if "client = cx_spot X \<or> client = cx_fut X" for client symb side q ro w ref taker
  proof -
    from assms(1) that obtain ord w1 where o: "cc_create_order client symb side \<bar>q\<bar> ro w = (Inr ord, w1)"
      "vo_filled ord = Some 0" "vo_amount ord = Some \<bar>q\<bar>" by blast
    obtain f w2 where r: "resolve_fill X client ord symb ref taker w1 = (f, w2)" by (rule prod.exhaust)
    have "trades_nothing client (\<lambda>_. 0)" by (simp add: trades_nothing_def)
    from resolve_keeps(2) [OF this r] o r show ?thesis by simp
  qed
  obtain rd w where st2: "st2 = (rd, w)" by (rule prod.exhaust)
  have "\<exists>sf w1. spot_leg X sd S w = (Inr sf, w1) \<and> fst (fill_of sf S) = \<bar>leg_quantity sd\<bar>"
  proof (cases "\<bar>sd\<bar> > min_order")
    case True
    obtain f w1 where "market_spot X (if sd > 0 then ''buy'' else ''sell'') sd S w = (Inr f, w1)" "vf_qty f = \<bar>sd\<bar>"
      unfolding market_spot_def using taken by metis
    with True show ?thesis by (simp add: spot_leg_def fill_of_def leg_quantity_def)
  qed (simp add: spot_leg_def fill_of_def leg_quantity_def)
  then obtain sf w1 where s: "spot_leg X sd S w = (Inr sf, w1)" "fst (fill_of sf S) = \<bar>leg_quantity sd\<bar>" by blast
  have "\<exists>pf w2. perp_leg X pd P w1 = (Inr pf, w2) \<and> fst (fill_of pf P) = \<bar>leg_quantity pd\<bar>"
  proof (cases "\<bar>pd\<bar> > min_order")
    case True
    obtain f w2 where "market_perp X (if pd > 0 then ''sell'' else ''buy'') pd (\<not> pd > 0) P w1 = (Inr f, w2)" "vf_qty f = \<bar>pd\<bar>"
      unfolding market_perp_def using taken by metis
    with True show ?thesis by (auto simp: perp_leg_def fill_of_def leg_quantity_def)
  qed (simp add: perp_leg_def fill_of_def leg_quantity_def)
  then obtain pf w2 where q: "perp_leg X pd P w1 = (Inr pf, w2)" "fst (fill_of pf P) = \<bar>leg_quantity pd\<bar>" by blast
  have "place_legs X p sd pd S P w = (Inr (Some (live_report p sd pd sf pf S P)), w2)"
    using s q by (simp add: place_legs_def)
  then have "live_execute X p S P st = (Inr (Some (live_report p sd pd sf pf S P)), (rd, w2))"
    using assms(2-4) st2 by (simp add: live_execute_def)
  moreover have "spot_fill_qty (live_report p sd pd sf pf S P) = leg_quantity sd" "perp_fill_qty (live_report p sd pd sf pf S P) = leg_quantity pd"
    unfolding report_quantities s(2) q(2) by (rule signed_leg)+
  ultimately show ?thesis by blast
qed

text \<open>C24: a short that lost its spot leg is never covered. Once the book holds a short and no spot, as after a
  close whose short leg filled in part, every cycle in which the funding says hold does nothing,
  however large the exposure, for as long as it lasts.\<close>

theorem naked_short_is_never_covered:
  assumes "carry_step (live_execute X) snap (c, st) = (Inr Plan_close, c', st')"
    and "spot_qty (cr_state c') = 0" and "0 < perp_qty (cr_state c')" and "capital_multiplier (cr_config c) \<noteq> 0"
    and "\<forall>later \<in> set snaps. min_trailing_funding_8h (cr_config c) \<le> sn_trailing_funding_8h later"
  shows "\<exists>c2. carry_run (live_execute X) snaps (c', st') = (Inr (cr_log c2), c2, st')
    \<and> cl_actions (cr_log c2) = cl_actions (cr_log c') @ map (\<lambda>_. Plan_noop) snaps
    \<and> net_delta (cr_state c2) S P = - perp_qty (cr_state c') * P"
proof -
  have "cr_config c' = cr_config c" by (rule live.step_config [OF assms(1)])
  then have "capital_multiplier (cr_config c') \<noteq> 0"
    "\<forall>later \<in> set snaps. min_trailing_funding_8h (cr_config c') \<le> sn_trailing_funding_8h later"
    using assms(4,5) by simp_all
  from live.naked_run [OF assms(2,3) this, of X st'] show ?thesis
    by (auto simp: net_delta_def)
qed

lemma read_plain: "fn w = (Inr x, w') \<Longrightarrow> read_venue X fn w = (Inr x, w')"
  using retry_read.simps(2) [of "cx_transient X" fn 3 w] by (simp add: read_venue_def)

text \<open>A venue without a position reads as one. When the futures venue lists the symbol with no contracts,
  the reconciliation takes the size of a contract for the quantity held, and reports a mismatch
  for a runner that holds nothing.\<close>

theorem flat_perp_reads_as_contract_size:
  assumes "\<forall>w. cc_positions (cx_fut X) (cx_perp X) w = (Inr [\<lparr>vp_symbol = cx_perp X, vp_contracts = Some 0, vp_contract_size = Some z\<rparr>], w)"
    and "\<forall>w. \<exists>free. cc_free_balance (cx_spot X) (cx_base X) w = (Inr free, w)"
    and "spot_qty (fst (load_position f)) = 0" and "perp_qty (fst (load_position f)) = 0" and "\<bar>z\<bar> \<ge> 1 / 10 ^ 7"
  shows "reconcile X f w = (Inr False, w)"
proof -
  from assms(2) obtain free where free: "cc_free_balance (cx_spot X) (cx_base X) w = (Inr free, w)" by blast
  have "z \<noteq> 0" using assms(5) by auto
  then have o: "open_positions_at X w = (Inr (first_truthy [free], \<bar>z\<bar>), w)"
    using assms(1) by (simp add: open_positions_at_def read_plain [where fn = "cc_free_balance (cx_spot X) (cx_base X)" and w = w, OF free]
        read_plain [where fn = "cc_positions (cx_fut X) (cx_perp X)" and w = w])
  obtain s cash_held b where l: "load_position f = (s, cash_held, b)" by (metis prod.exhaust)
  have "\<not> \<bar>perp_qty s - \<bar>z\<bar>\<bar> < max (spot_qty s) (1 / 10 ^ 6) * (2 / 100)"
    using assms(3-5) l by simp
  then show ?thesis unfolding reconcile_def l by (simp add: o Let_def)
qed



subsection \<open>Concrete venues\<close>

text \<open>Two venues whose world is the spot held and the short: they fill a given share of every order, and
  the futures venue may refuse orders altogether.\<close>

definition demo_order :: "real \<Rightarrow> real \<Rightarrow> venue_order" where
  "demo_order filled q = \<lparr>vo_id = Some ''1'', vo_filled = Some filled, vo_amount = Some q, vo_average = Some 100, vo_price = None,
     vo_fees = [Some (1/10)], vo_fee = None\<rparr>"

definition demo_client :: "real \<Rightarrow> bool \<Rightarrow> (string \<Rightarrow> real \<Rightarrow> real \<times> real \<Rightarrow> real \<times> real) \<Rightarrow> (real \<times> real) carry_client" where
  "demo_client share refuses move =
     \<lparr>cc_last = (\<lambda>_ w. (Inr 100, w)), cc_funding = (\<lambda>_ w. (Inr (1/1000, Some 100), w)),
      cc_funding_history = (\<lambda>_ _ w. (Inr [], w)), cc_load_markets = (\<lambda>w. (Inr (), w)),
      cc_amount_to_precision = (\<lambda>_ q. Inr q),
      cc_create_order = (\<lambda>_ side q _ w. if refuses then (Inl (RuntimeError ''margin''), w)
        else (Inr (demo_order (share * q) q), move side (share * q) w)),
      cc_fetch_order = (\<lambda>_ _ w. (Inr (demo_order 0 0), w)),
      cc_free_balance = (\<lambda>_ w. (Inr (Some (fst w)), w)),
      cc_positions = (\<lambda>symb w. (Inr [\<lparr>vp_symbol = symb, vp_contracts = Some (snd w), vp_contract_size = Some 1\<rparr>], w))\<rparr>"

definition demo_venues :: "real \<Rightarrow> real \<Rightarrow> bool \<Rightarrow> (real \<times> real) carry_exchange" where
  "demo_venues a b refuses =
     \<lparr>cx_spot = demo_client a False (\<lambda>side q w. (fst w + (if side = ''buy'' then q else - q), snd w)),
      cx_fut = demo_client b refuses (\<lambda>side q w. (fst w, snd w + (if side = ''sell'' then q else - q))),
      cx_symbol = ''BTC/USDT'', cx_base = ''BTC'', cx_perp = ''BTC/USDT:USDT'', cx_trail_prints = 3,
      cx_transient = (\<lambda>_. False), cx_now = (\<lambda>_. 0)\<rparr>"

lemma demo_exchange_built:
  "carry_exchange_of (cx_spot (demo_venues a b r)) (cx_fut (demo_venues a b r)) (\<lambda>_. False) (\<lambda>_. 0) ''BTC/USDT'' 3 = Inr (demo_venues a b r)"
  by (simp add: carry_exchange_of_def split_slash_def demo_venues_def)

lemma demo_honest: "honest_venue (demo_venues 1 1 r) fst snd"
  by (auto simp: honest_venue_def demo_venues_def demo_client_def fills_wholly_def trades_nothing_def demo_order_def split: if_splits)

lemma demo_round: "\<exists>st'. round_qty (demo_venues a b r) q st = (q, st') \<and> snd st' = snd st"
  by (cases st) (auto simp: round_qty_def ensure_markets_def demo_venues_def demo_client_def Let_def read_plain abs_real_def
      split: prod.splits sum.splits)

lemma demo_snapshot_at:
  "venue_snapshot (demo_venues a b r) w = (Inr \<lparr>sn_ts = 0, sn_symbol = ''BTC/USDT'', sn_spot_px = 100, sn_perp_mark_px = 100,
     sn_funding_rate = 1/1000, sn_trailing_funding_8h = 1/1000, sn_is_funding_time = True\<rparr>, w)"
  by (simp add: venue_snapshot_def demo_venues_def demo_client_def read_plain)

lemma demo_positions: "open_positions_at (demo_venues a b r) w = (Inr (fst w, \<bar>if snd w = 0 then 1 else snd w\<bar>), w)"
  by (simp add: open_positions_at_def demo_venues_def demo_client_def read_plain)

definition demo_plan :: rebalance_plan where
  "demo_plan = \<lparr>spot_delta_qty = 8, perp_delta_qty = 8, plan_reason_of = Plan_open, plan_details = []\<rparr>"

theorem venue_and_book_agree_witness:
  "\<exists>st' m. live_execute (demo_venues 1 1 True) demo_plan 100 100 (False, (5, 0)) = (Inl (PartialCarryFill m), st') \<and> snd st' = (5, 0)"
proof -
  obtain st1 where r1: "round_qty (demo_venues 1 1 True) 8 (False, (5, 0)) = (8, st1)" "snd st1 = (5, 0)" using demo_round by fastforce
  obtain st2 where r2: "round_qty (demo_venues 1 1 True) 8 st1 = (8, st2)" "snd st2 = (5, 0)" using demo_round r1(2) by fastforce
  obtain rd where st2: "st2 = (rd, (5, 0))" using r2(2) by (cases st2) simp
  have "\<exists>m w. place_legs (demo_venues 1 1 True) demo_plan 8 8 100 100 (5, 0) = (Inl (PartialCarryFill m), w)"
    by (simp add: place_legs_def spot_leg_def perp_leg_def unwind_spot_def market_spot_def market_perp_def demo_venues_def demo_client_def
        min_order_def resolve_fill_def demo_order_def sum_fees_def)
  then obtain m w where "place_legs (demo_venues 1 1 True) demo_plan 8 8 100 100 (5, 0) = (Inl (PartialCarryFill m), w)" by blast
  then have e: "live_execute (demo_venues 1 1 True) demo_plan 100 100 (False, (5, 0)) = (Inl (PartialCarryFill m), (rd, w))"
    using r1(1) r2(1) st2 by (simp add: live_execute_def demo_plan_def is_noop_def)
  from venue_and_book_agree [OF demo_honest e] e show ?thesis by (simp add: agreed_def prod_eq_iff)
qed


theorem unfilled_orders_are_booked_witness:
  "\<exists>rep st'. live_execute (demo_venues 0 0 False) demo_plan 100 100 (False, (0, 0)) = (Inr (Some rep), st') \<and> spot_fill_qty rep = 8"
proof -
  obtain st1 where r1: "round_qty (demo_venues 0 0 False) (spot_delta_qty demo_plan) (False, (0, 0)) = (8, st1)"
    using demo_round [of 0 0 False 8 "(False, (0, 0))"] by (auto simp: demo_plan_def)
  obtain st2 where r2: "round_qty (demo_venues 0 0 False) (perp_delta_qty demo_plan) st1 = (8, st2)"
    using demo_round [of 0 0 False 8 st1] by (auto simp: demo_plan_def)
  have "\<forall>client \<in> {cx_spot (demo_venues 0 0 False), cx_fut (demo_venues 0 0 False)}. \<forall>symb side q ro w.
      \<exists>ord w'. cc_create_order client symb side q ro w = (Inr ord, w') \<and> vo_filled ord = Some 0 \<and> vo_amount ord = Some q"
    by (simp add: demo_venues_def demo_client_def demo_order_def)
  moreover have "\<not> is_noop demo_plan" by (simp add: demo_plan_def is_noop_def)
  ultimately show ?thesis
    using unfilled_orders_are_booked [OF _ _ r1 r2, of 100 100] by (auto simp: leg_quantity_def min_order_def)
qed

theorem flat_perp_reads_as_contract_size_witness:
  "reconcile (demo_venues 1 1 False) Missing_file (5, 0) = (Inr False, (5, 0))"
proof -
  let ?X = "demo_venues 1 1 False"
  let ?Y = "?X\<lparr>cx_fut := (cx_fut ?X)\<lparr>cc_positions := (\<lambda>symb w. (Inr [\<lparr>vp_symbol = symb, vp_contracts = Some 0, vp_contract_size = Some 1\<rparr>], w))\<rparr>\<rparr>"
  have "reconcile ?Y Missing_file (5, 0) = (Inr False, (5, 0))"
    by (rule flat_perp_reads_as_contract_size [where z = 1])
      (simp_all add: demo_venues_def demo_client_def load_position_def load_live_state_def flat_position_def)
  moreover have "reconcile ?X Missing_file (5, 0) = reconcile ?Y Missing_file (5, 0)"
    by (simp add: reconcile_def load_position_def load_live_state_def open_positions_at_def demo_venues_def demo_client_def read_plain)
  ultimately show ?thesis by simp
qed

definition demo_closing :: carry_runner where
  "demo_closing = (new_carry_runner 0 (default_carry_config\<lparr>min_trailing_funding_8h := 0\<rparr>))
     \<lparr>cr_state := flat_position\<lparr>spot_qty := 2, perp_qty := 2\<rparr>\<rparr>"

lemma demo_partial_close:
  "\<exists>c' st'. carry_step (live_execute (demo_venues 1 (1/2) False)) ((demo_snapshot 100)\<lparr>sn_trailing_funding_8h := -1\<rparr>) (demo_closing, (True, (2, 2)))
     = (Inr Plan_close, c', st') \<and> spot_qty (cr_state c') = 0 \<and> perp_qty (cr_state c') = 1"
proof -
  let ?X = "demo_venues 1 (1/2) False" and ?snap = "(demo_snapshot 100)\<lparr>sn_trailing_funding_8h := -1\<rparr>"
  let ?p = "\<lparr>spot_delta_qty = -2, perp_delta_qty = -2, plan_reason_of = Plan_close, plan_details = []\<rparr>"
  have p: "carry_plan ?snap demo_closing = Inr ?p"
    by (simp add: carry_plan_def demo_closing_def demo_snapshot_def decide_target_def new_carry_runner_def plan_def in_market_def default_carry_config_def flat_position_def)
  have r: "round_qty ?X (-2) (True, w) = (-2, (True, w))" for w
    by (simp add: round_qty_def ensure_markets_def demo_venues_def demo_client_def)
  obtain rep w where l: "place_legs ?X ?p (-2) (-2) 100 100 (2, 2) = (Inr (Some rep), w)" "spot_fill_qty rep = -2" "perp_fill_qty rep = -1"
    by (simp add: place_legs_def spot_leg_def perp_leg_def market_spot_def market_perp_def demo_venues_def demo_client_def
        min_order_def resolve_fill_def demo_order_def sum_fees_def report_quantities fill_of_def)
  then have e: "live_execute ?X ?p 100 100 (True, (2, 2)) = (Inr (Some rep), (True, w))"
    by (simp add: live_execute_def is_noop_def r)
  have px: "sn_spot_px ?snap = 100" "sn_perp_mark_px ?snap = 100" by (simp_all add: demo_snapshot_def)
  have s: "carry_step (live_execute ?X) ?snap (demo_closing, (True, (2, 2)))
      = (Inr Plan_close, log_step ?snap Plan_close (settle_funding ?snap (book_report (Some rep) demo_closing)), (True, w))"
    by (simp add: carry_step_def p px e)
  have q: "spot_qty (cr_state demo_closing) = 2" "perp_qty (cr_state demo_closing) = 2"
    by (simp_all add: demo_closing_def)
  show ?thesis unfolding s by (intro exI conjI, rule refl) (simp_all add: book_quantities l q)
qed

theorem naked_short_is_never_covered_witness:
  "\<exists>c' st' c2. carry_step (live_execute (demo_venues 1 (1/2) False)) ((demo_snapshot 100)\<lparr>sn_trailing_funding_8h := -1\<rparr>) (demo_closing, (True, (2, 2)))
       = (Inr Plan_close, c', st')
     \<and> carry_run (live_execute (demo_venues 1 (1/2) False)) [demo_snapshot 100, demo_snapshot 700] (c', st') = (Inr (cr_log c2), c2, st')
     \<and> net_delta (cr_state c2) 700 700 = -700"
proof -
  obtain c' st' where s: "carry_step (live_execute (demo_venues 1 (1/2) False)) ((demo_snapshot 100)\<lparr>sn_trailing_funding_8h := -1\<rparr>) (demo_closing, (True, (2, 2)))
      = (Inr Plan_close, c', st')" and q: "spot_qty (cr_state c') = 0" "perp_qty (cr_state c') = 1"
    using demo_partial_close by blast
  have m: "capital_multiplier (cr_config demo_closing) \<noteq> 0"
    "\<forall>later \<in> set [demo_snapshot 100, demo_snapshot 700]. min_trailing_funding_8h (cr_config demo_closing) \<le> sn_trailing_funding_8h later"
    by (simp_all add: demo_closing_def new_carry_runner_def default_carry_config_def demo_snapshot_def)
  from naked_short_is_never_covered [OF s q(1) _ m, of 700 700] s q show ?thesis by fastforce
qed


definition demo_dry :: state_file where
  "demo_dry = Written_file
     \<lparr>cp_ts = 0, cp_symbol = Some ''BTC/USDT'', cp_cash = 1200 - 8 * (100 * (1 + 8/10000)) - 8/10, cp_spot_baseline = None,
      cp_state = \<lparr>spot_qty = 8, perp_qty = 8, spot_entry_px = 100 * (1 + 8/10000), perp_entry_px = 100 * (1 - 8/10000),
        accrued_funding = 8/10, flips = 1\<rparr>,
      cp_mark = Some \<lparr>cm_at = 0, cm_spot_px = 100, cm_perp_px = 100, cm_funding_8h = 1/1000,
        cm_equity = 1200 - 8 * (100 * (1 + 8/10000)) - 8/10 + 8 * 100 + 8 * (100 * (1 - 8/10000) - 100) + 8/10,
        cm_action = Plan_open, cm_dry_run = True\<rparr>\<rparr>"

lemma cycle_evaluates:
  assumes "cycle_baseline X dry (cr_state (loaded_runner capital f)) (snd (snd (load_position f))) w = (Inr baseline, w1)"
    and "venue_snapshot X w1 = (Inr snap, w2)"
    and "carry_step (cycle_executor X dry) snap (loaded_runner capital f, (False, w2)) = (Inr a, c, (ready, w'))"
  shows "carry_cycle X capital dry (f, w) = (Inr a, save_live_state (cx_now X w') (cr_state c) (cr_cash c) baseline
    (Some (cx_symbol X)) (Some (cycle_mark snap c a dry)) f, w')"
  by (simp add: carry_cycle_def assms)

lemma demo_dry_cycle:
  "carry_cycle (demo_venues 1 1 False) 1200 True (Missing_file, (5, 0)) = (Inr Plan_open, demo_dry, (5, 0))"
proof -
  let ?snap = "\<lparr>sn_ts = 0, sn_symbol = ''BTC/USDT'', sn_spot_px = 100, sn_perp_mark_px = 100,
     sn_funding_rate = 1/1000, sn_trailing_funding_8h = 1/1000, sn_is_funding_time = True\<rparr>"
  let ?c = "new_carry_runner 1200 live_config"
  have c: "loaded_runner 1200 Missing_file = ?c"
    by (simp add: loaded_runner_def load_position_def load_live_state_def flat_position_def in_market_def new_carry_runner_def)
  have p: "carry_plan ?snap ?c = Inr demo_plan"
    by (simp add: carry_plan_def decide_target_def new_carry_runner_def live_config_def default_carry_config_def
        plan_def runner_equity_def carry_equity_def flat_position_def in_market_def demo_plan_def)
  have x: "paper_execute default_paper_fees demo_plan 100 100 st = (Inr (Some \<lparr>spot_fill_qty = 8, spot_fill_px = 100 * (1 + 8/10000),
      perp_fill_qty = 8, perp_fill_px = 100 * (1 - 8/10000), fill_fee = 8/10, report_reason = Plan_open\<rparr>), st)" for st :: "bool \<times> real \<times> real"
    by (simp add: paper_execute_def demo_plan_def is_noop_def default_paper_fees_def)
  let ?r = "\<lparr>spot_fill_qty = 8, spot_fill_px = 100 * (1 + 8/10000),
      perp_fill_qty = 8, perp_fill_px = 100 * (1 - 8/10000), fill_fee = 8/10, report_reason = Plan_open\<rparr>"
  let ?c1 = "log_step ?snap Plan_open (settle_funding ?snap (book_report (Some ?r) ?c))"
  have reason: "plan_reason_of demo_plan = Plan_open" by (simp add: demo_plan_def)
  have s: "carry_step (cycle_executor (demo_venues 1 1 False) True) ?snap (loaded_runner 1200 Missing_file, (False, (5, 0)))
      = (Inr Plan_open, ?c1, (False, (5, 0)))"
    unfolding c cycle_executor_def carry_step_def by (simp only: prod.case p sum.case if_True perp_snapshot.simps x reason)
  have b: "cycle_baseline (demo_venues 1 1 False) True (cr_state (loaded_runner 1200 Missing_file))
      (snd (snd (load_position Missing_file))) (5, 0) = (Inr None, (5, 0))"
    by (simp add: cycle_baseline_def load_position_def load_live_state_def)
  have st: "cr_state ?c1 = \<lparr>spot_qty = 8, perp_qty = 8, spot_entry_px = 100 * (1 + 8/10000), perp_entry_px = 100 * (1 - 8/10000),
        accrued_funding = 8/10, flips = 1\<rparr>"
    by (simp add: book_report_def apply_fill_def new_carry_runner_def flat_position_def in_market_def settle_funding_def accrue_funding_def Let_def)
  have cash: "cr_cash ?c1 = 1200 - 8 * (100 * (1 + 8/10000)) - 8/10"
    by (simp add: book_report_def apply_fill_def new_carry_runner_def flat_position_def Let_def)
  have "demo_dry = save_live_state (cx_now (demo_venues 1 1 False) (5::real, 0::real)) (cr_state ?c1) (cr_cash ?c1) None
    (Some (cx_symbol (demo_venues 1 1 False))) (Some (cycle_mark ?snap ?c1 Plan_open True)) Missing_file"
    unfolding save_live_state_def cycle_mark_def runner_equity_def carry_equity_def st cash demo_dry_def Let_def
    by (simp add: demo_venues_def)
  with cycle_evaluates [OF b demo_snapshot_at s] show ?thesis by simp
qed

theorem every_cycle_books_funding_witness:
  "\<exists>f' st'. carry_cycle (demo_venues 1 1 False) 1200 True (Missing_file, (5, 0)) = (Inr Plan_open, f', st')
     \<and> accrued_funding (fst (load_position f')) = 8/10"
proof -
  have "accrued_funding (fst (load_position demo_dry)) = 8/10"
    using every_cycle_books_funding [OF demo_dry_cycle]
    by (auto simp: demo_snapshot_at demo_dry_def load_position_def load_live_state_def in_market_def flat_position_def)
  then show ?thesis using demo_dry_cycle by blast
qed

lemma demo_live_cycle:
  "\<exists>f2 st3. carry_cycle (demo_venues 1 1 False) 1200 False (demo_dry, (5, 0)) = (Inr Plan_noop, f2, st3)"
proof -
  let ?X = "demo_venues 1 1 False" and ?c = "loaded_runner 1200 demo_dry"
  let ?snap = "\<lparr>sn_ts = 0, sn_symbol = ''BTC/USDT'', sn_spot_px = 100, sn_perp_mark_px = 100,
     sn_funding_rate = 1/1000, sn_trailing_funding_8h = 1/1000, sn_is_funding_time = True\<rparr>"
  have "carry_plan ?snap ?c = Inr noop_plan"
    by (simp add: carry_plan_def decide_target_def loaded_runner_def demo_dry_def load_position_def load_live_state_def new_carry_runner_def
        live_config_def default_carry_config_def plan_def runner_equity_def carry_equity_def in_market_def net_delta_def pair_notional_def
        Let_def noop_plan_def)
  moreover have "is_noop noop_plan" by (simp add: is_noop_def noop_plan_def)
  ultimately have "carry_step (live_execute ?X) ?snap (?c, w) = (Inr Plan_noop, log_step ?snap Plan_noop (settle_funding ?snap ?c), w)" for w
    by (rule live.noop_step)
  then have s: "carry_step (cycle_executor ?X False) ?snap (?c, w) = (Inr Plan_noop, log_step ?snap Plan_noop (settle_funding ?snap ?c), w)" for w
    by (simp add: cycle_executor_def)
  obtain b where "cycle_baseline ?X False (cr_state ?c) (snd (snd (load_position demo_dry))) (5, 0) = (Inr b, (5, 0))"
    by (simp add: cycle_baseline_def demo_positions load_position_def load_live_state_def demo_dry_def)
  from cycle_evaluates [OF this demo_snapshot_at s] show ?thesis by blast
qed

theorem dry_run_poses_as_position_witness:
  "\<exists>f1 f2 st1 st3. carry_cycle (demo_venues 1 1 False) 1200 True (Missing_file, (5, 0)) = (Inr Plan_open, f1, st1)
     \<and> carry_cycle (demo_venues 1 1 False) 1200 False (f1, (5, 0)) = (Inr Plan_noop, f2, st3)
     \<and> snd (snd (load_position f2)) = Some (-3)"
proof -
  obtain f2 st3 where l: "carry_cycle (demo_venues 1 1 False) 1200 False (demo_dry, (5, 0)) = (Inr Plan_noop, f2, st3)"
    using demo_live_cycle by blast
  have m: "in_market (fst (load_position demo_dry))" by (simp add: demo_dry_def load_position_def load_live_state_def in_market_def)
  have "spot_qty (fst (load_position demo_dry)) = 8" by (simp add: demo_dry_def load_position_def load_live_state_def)
  with dry_run_poses_as_position [OF demo_dry_cycle m l] have "snd (snd (load_position f2)) = Some (-3)"
    by (auto simp: demo_positions)
  with demo_dry_cycle l show ?thesis by blast
qed

end
