(* ===== verification/Spec2Isabelle.thy ===== *)
theory Spec2Isabelle
  imports RuntimeRisk RuntimeEvents ProviderRegistry MarketCache Ledger Replay HarnessRuns RunFigures
    TrialConfig OptimizationSpace OptimizationScoring Windows JobRunner OptimizationRunner Candidates LiveManager
    Carry CarryHistory CarryLive
begin

text \<open>
  A verification development of the trading platform in \<^verbatim>\<open>backend/src\<close>. Paths below
  are relative to that directory.

  \<^bold>\<open>The program.\<close> A runtime evaluates one bar of market data at a time: it fetches the bars known at
  the time of the bar, settles the open positions against the bar, computes features, asks every
  signal provider for its opinion, lets the decision engine combine the opinions and check the
  risk, hands an approved signal to the execution engine and records all of it in the state store
  and as events on a bus; database handlers write the events down. A validation run drives the
  same runtime over the bars of a file and computes the figures of the run; an optimisation sweeps
  the parameters of the strategies by many such runs; the governance of strategies judges the
  result of a sweep and decides which revision may trade live; replay reads a cycle back from the
  event log and repeats its decision. The carry book is a second, smaller program: a long spot and
  a short perpetual position of the same size that collects funding.

  \<^bold>\<open>Theories and code.\<close>

  \<^item> \<open>Prelude\<close>, \<open>Calendar\<close>: Python's errors as values (\<open>py_error\<close>, \<open>result\<close>), loops whose body may
    raise, dictionaries in insertion order, \<^verbatim>\<open>round\<close>, dates, decimal text.
  \<^item> \<open>Contracts\<close>: \<^verbatim>\<open>core/contracts/\<close>. Pydantic classes are records, \<^verbatim>\<open>Literal\<close> types are datatypes,
    field constraints are checked constructors.
  \<^item> \<open>StateStore\<close>, \<open>Ledger\<close>: \<^verbatim>\<open>state/store.py\<close> and \<^verbatim>\<open>transitions.py\<close>; the locale \<open>position_book\<close> is
    the contract of a book of positions, and \<open>Ledger\<close> says what the money fields mean.
  \<^item> \<open>MarketData\<close>, \<open>MarketCache\<close>: \<^verbatim>\<open>data/\<close>. The locale \<open>market_data\<close> is what the runtime relies on
    (bars, none of them later than asked for), interpreted for the file and for the live provider.
  \<^item> \<open>EventBus\<close>, \<open>EventLog\<close>, \<open>DecisionRecords\<close>: \<^verbatim>\<open>events/\<close> and \<^verbatim>\<open>db/repositories/\<close>. The locale
    \<open>event_bus\<close> is interpreted for the in-memory bus and for the redis bus.
  \<^item> \<open>Features\<close>: \<^verbatim>\<open>features/\<close>, with the store as an interpretation of \<open>record_store\<close>.
  \<^item> \<open>StrategyBase\<close>, \<open>Strategies\<close>, \<open>ProviderRegistry\<close>: \<^verbatim>\<open>providers/\<close>. The locale \<open>strategy\<close> is what
    the engine relies on (a well-formed signal, stops and targets on the right side of the price)
    and is interpreted for each of the nine strategies.
  \<^item> \<open>Aggregator\<close>, \<open>DecisionEngine\<close>: \<^verbatim>\<open>engine/\<close>.
  \<^item> \<open>ExecutionModel\<close> (operations) and \<open>Execution\<close> (their correctness): \<^verbatim>\<open>execution/\<close>.
  \<^item> \<open>RuntimeModel\<close> (operations), \<open>Runtime\<close>, \<open>RuntimeSafety\<close>, \<open>RuntimeRisk\<close>, \<open>RuntimeEvents\<close>,
    \<open>CycleTrace\<close>, \<open>CycleLog\<close>: \<^verbatim>\<open>runtime/platform_runtime.py\<close> and \<^verbatim>\<open>clocks.py\<close>. The state of the
    platform is the record of its collaborators' states; \<open>run_cycle\<close> is one bar.
  \<^item> \<open>LiveManager\<close>: \<^verbatim>\<open>runtime/live_stack.py\<close>, \<^verbatim>\<open>live_manager.py\<close>, \<^verbatim>\<open>scheduler.py\<close> and the factories
    of \<^verbatim>\<open>events/\<close>. A world of stacks and schedulers; \<open>live_step\<close> is one operation, or one of the three
    steps of a scheduled cycle, and \<open>live_reachable\<close> says what any sequence of them can reach.
  \<^item> \<open>Replay\<close>: \<^verbatim>\<open>replay/\<close>.
  \<^item> \<open>Lookback\<close>, \<open>Harness\<close>, \<open>HarnessRuns\<close>, \<open>Metrics\<close>, \<open>OutcomeMetrics\<close>, \<open>RunFigures\<close>:
    \<^verbatim>\<open>validation/harness.py\<close>, \<^verbatim>\<open>lookback.py\<close> and \<^verbatim>\<open>metrics.py\<close>; \<open>run_validation\<close> is a whole run.
  \<^item> \<open>TrialConfig\<close>, \<open>OptimizationSpace\<close>, \<open>OptimizationScoring\<close>, \<open>Windows\<close>, \<open>JobRunner\<close>,
    \<open>OptimizationRunner\<close>: the other files of \<^verbatim>\<open>validation/\<close>. A trial is a choice of parameters,
    applied to the configuration files, run as a job; \<open>run_optimization\<close> is the whole sweep.
  \<^item> \<open>Candidates\<close>: \<^verbatim>\<open>governance/\<close>. The tables are a record of lists of rows; \<open>governed\<close> is the step
    relation of the operations on them.
  \<^item> \<open>Carry\<close>, \<open>CarryHistory\<close>, \<open>CarryLive\<close>: \<^verbatim>\<open>carry/\<close> and the cycle of
    \<^verbatim>\<open>scripts/run_carry_live.py\<close>. \<open>carry_step\<close> is one snapshot; the locale \<open>carry_venue\<close> is what the
    runner relies on of an executor, interpreted for the live one, and \<open>exact_venue\<close>, which extends
    it, for the paper one.

  \<^bold>\<open>What the lemmas show.\<close> Beside the behaviour of each operation: the invariants every cycle keeps
  (book, positions, risk state, clock), whatever the collaborators answer and on the error paths
  too; that what is approved passed every gate and what is opened respects every limit; what a
  cycle publishes, in which order, and that the log gives it back; that replay repeats the votes;
  that no run looks ahead, that it returns and simulates every bar once, and that a sweep tests on
  no bar it was trained on; that the drawdown and the
  other figures are the ones their names promise; that the sweep selects what passes its gates and
  comes back with a result; that there is one champion at most; that one scheduler fires, as long as
  nothing fails, and every stack keeps its book whatever interleaves;
  that the carry earns its funding whatever the price, and that its book and the venues agree. Where the code does not do what
  it means to, the property states what it does (a figure that counts twice, a gate that never
  opens).

  \<^bold>\<open>How the code is read.\<close>

  \<^item> Floats are real numbers: rounding errors, infinities and NaN are not modelled. \<^verbatim>\<open>round\<close> is
    written out (half to even). Python's integers are \<open>int\<close>, and times are microseconds since the
    epoch in UTC. Dates of a run's breakdown (days, months) are numbers.
  \<^item> \<^verbatim>\<open>uuid4\<close> and the wall clock are the environment \<open>env\<close>: two sequences of answers, with a
    counter of those used. That identifiers differ is the hypothesis \<open>env_distinct\<close>.
  \<^item> An exception is the left value of a result. Where the code catches it, the model does; a state
    change before the exception is kept.
  \<^item> A handler, an exchange, a file, an indicator, the sampler of the optimiser, the random generator
    and the hash of a file are parameters. Hypotheses on them (\<open>willing\<close>, \<open>answers_choices\<close>) say that
    they answer at all, or answer from what they were offered.
  \<^item> A database table is its list of rows in order of insertion; a commit or a flush fails on a
    duplicate key, and rows of equal time are read in that order. The order in which the server gives
    the rows of the event log is a parameter, \<open>db_order\<close>: all events of a cycle have one time, the
    only column the query sorts by, so what is said of the log holds for every order by time, and
    what needs the order of insertion says so. What is written as JSON is read back unchanged. Parameters of the YAML files are kept by the type they are read at.
  \<^item> Text is a list of bytes, as the files encode it; a dash in a message is its three bytes.
  \<^item> The workers that train trials in parallel share nothing, so that training is modelled in the
    order of the trials.

  \<^bold>\<open>Bounds and fuel.\<close> No operation needs fuel chosen by the model. The loops of the code that have a
  bound of their own keep it: three attempts per page of an exchange, the maximal number of
  attempts of the sampler (twenty times the number of trials), the bars of a range.
  Loops whose bound is implicit (pages of a range, months, windows) are recursive functions with a
  termination proof.

  \<^bold>\<open>Not modelled.\<close> The HTTP routes, the web front end and the command line tools (plumbing around the
  operations above); the numerical indicators and the research and analytics scripts (numpy and
  pandas computations on whole frames); parsing of YAML files and descriptions of parameters for
  the user interface; SQL, network connections and threads; the
  hypotheses and comparisons of experiments in \<^verbatim>\<open>governance/\<close>.
\<close>

end
